(* ===== verification/Prelude.thy ===== *)
theory Prelude
  imports Main "HOL-Library.AList" "HOL-Library.Multiset" "HOL-Library.Sublist"
    "HOL-Library.List_Lexorder" "HOL-Library.Char_ord"
begin

text \<open>
  Shared vocabulary of the development: Go maps as association lists with distinct keys,
  Go's \<^verbatim>\<open>sort.Slice\<close> and \<^verbatim>\<open>sort.Strings\<close> with the laws the components rely on, and the
  fact collections the component proofs use.

  A Go map has no iteration order. Here it is a list of key/value pairs with distinct keys;
  the order of the list stands for the order in which one \<^verbatim>\<open>range\<close> statement visits it.
  A statement quantified over the list therefore covers every order, and the theorems that
  a result does not depend on the order say so with a permutation (equal multisets).
\<close>

named_theorems go_map_simps \<open>how map operations act on lookups and keys\<close>
named_theorems go_str_simps \<open>evaluation of the string library on closed arguments\<close>

section \<open>Go maps\<close>

type_synonym ('k, 'v) gomap = "('k \<times> 'v) list"

definition gm_wf :: "('k, 'v) gomap \<Rightarrow> bool" where
  "gm_wf m \<longleftrightarrow> distinct (map fst m)"

text \<open>\<^verbatim>\<open>m[k] = v\<close>: overwrite in place, or add a new key.\<close>

definition gm_put :: "'k \<Rightarrow> 'v \<Rightarrow> ('k, 'v) gomap \<Rightarrow> ('k, 'v) gomap" where
  "gm_put k v m = AList.update k v m"

text \<open>\<^verbatim>\<open>m[k]\<close>: the value, or the zero value of the element type for a missing key.\<close>

definition gm_get :: "'v \<Rightarrow> ('k, 'v) gomap \<Rightarrow> 'k \<Rightarrow> 'v" where
  "gm_get zero m k = (case map_of m k of None \<Rightarrow> zero | Some v \<Rightarrow> v)"

text \<open>\<^verbatim>\<open>_, ok := m[k]\<close>\<close>

definition gm_has :: "('k, 'v) gomap \<Rightarrow> 'k \<Rightarrow> bool" where
  "gm_has m k \<longleftrightarrow> map_of m k \<noteq> None"

text \<open>\<^verbatim>\<open>delete(m, k)\<close>\<close>

definition gm_del :: "'k \<Rightarrow> ('k, 'v) gomap \<Rightarrow> ('k, 'v) gomap" where
  "gm_del k m = filter (\<lambda>p. fst p \<noteq> k) m"

abbreviation gm_keys :: "('k, 'v) gomap \<Rightarrow> 'k list" where
  "gm_keys m \<equiv> map fst m"

lemma gm_put_lookup [simp, go_map_simps]: "map_of (gm_put k v m) = (map_of m)(k \<mapsto> v)"
  by (simp add: gm_put_def update_conv')

lemma gm_put_keys [simp, go_map_simps]: "set (gm_keys (gm_put k v m)) = insert k (set (gm_keys m))"
  by (simp add: gm_put_def dom_update)

lemma gm_put_fst [simp]: "fst ` set (gm_put k v m) = insert k (fst ` set m)"
  using gm_put_keys [of k v m] by simp

lemma gm_put_wf [simp, intro]: "gm_wf m \<Longrightarrow> gm_wf (gm_put k v m)"
  by (simp add: gm_wf_def gm_put_def distinct_update)

lemma gm_wf_Nil [simp]: "gm_wf []"
  by (simp add: gm_wf_def)

lemma gm_get_put [simp]: "gm_get z (gm_put k v m) k' = (if k' = k then v else gm_get z m k')"
  by (simp add: gm_get_def)

lemma gm_get_Nil [simp]: "gm_get z [] k = z"
  by (simp add: gm_get_def)

lemma gm_has_Nil [simp]: "\<not> gm_has [] k"
  by (simp add: gm_has_def)

lemma gm_has_put [simp]: "gm_has (gm_put k v m) k' \<longleftrightarrow> k' = k \<or> gm_has m k'"
  by (auto simp: gm_has_def)

lemma gm_has_iff: "gm_has m k \<longleftrightarrow> k \<in> fst ` set m"
  by (metis domIff dom_map_of_conv_image_fst gm_has_def)

lemma gm_get_in: "gm_wf m \<Longrightarrow> (k, v) \<in> set m \<Longrightarrow> gm_get z m k = v"
  by (simp add: gm_get_def gm_wf_def)

lemma gm_wf_in_map_of: "gm_wf m \<Longrightarrow> (k, v) \<in> set m \<longleftrightarrow> map_of m k = Some v"
  by (auto simp: gm_wf_def dest: map_of_SomeD)

lemma gm_put_mem: "gm_wf m \<Longrightarrow> (k, v) \<in> set (gm_put k v m)"
  using gm_wf_in_map_of [OF gm_put_wf, of m k v k v] by simp

lemma map_of_perm: "gm_wf m \<Longrightarrow> mset m = mset m' \<Longrightarrow> map_of m = map_of m'"
  unfolding gm_wf_def
  by (rule map_of_eqI [where xs = m and ys = m'])
    (metis image_set set_mset_mset, metis distinct_map map_of_eq_Some_iff mset_map
      mset_eq_imp_distinct_iff set_mset_mset option.exhaust_sel)

lemma gm_del_lookup [simp, go_map_simps]: "map_of (gm_del k m) = (map_of m)(k := None)"
  by (induction m) (auto simp: gm_del_def)

lemma gm_del_wf [simp, intro]: "gm_wf m \<Longrightarrow> gm_wf (gm_del k m)"
  by (auto simp: gm_wf_def gm_del_def distinct_map intro: inj_on_subset)

text \<open>\<^verbatim>\<open>m[k] = append(m[k], x)\<close>, the index-building step of the code.\<close>

definition gm_append :: "'k \<Rightarrow> 'v \<Rightarrow> ('k, 'v list) gomap \<Rightarrow> ('k, 'v list) gomap" where
  "gm_append k x m = gm_put k (gm_get [] m k @ [x]) m"

definition group_by :: "('a \<Rightarrow> 'k) \<Rightarrow> ('a \<Rightarrow> 'v) \<Rightarrow> 'a list \<Rightarrow> ('k, 'v list) gomap \<Rightarrow> ('k, 'v list) gomap" where
  "group_by f g xs m = fold (\<lambda>x. gm_append (f x) (g x)) xs m"

lemma group_by_simps [simp]:
  "group_by f g [] m = m"
  "group_by f g (x # xs) m = group_by f g xs (gm_append (f x) (g x) m)"
  by (simp_all add: group_by_def)

lemma group_by_append: "group_by f g (xs @ ys) m = group_by f g ys (group_by f g xs m)"
  by (simp add: group_by_def)

lemma gm_append_wf [simp, intro]: "gm_wf m \<Longrightarrow> gm_wf (gm_append k x m)"
  by (simp add: gm_append_def)

lemma group_by_wf [simp, intro]: "gm_wf m \<Longrightarrow> gm_wf (group_by f g xs m)"
  by (induction xs arbitrary: m) auto

lemma group_by_get: "gm_get [] (group_by f g xs m) k = gm_get [] m k @ map g (filter (\<lambda>x. f x = k) xs)"
  by (induction xs arbitrary: m) (auto simp: gm_append_def)

lemma group_by_keys: "fst ` set (group_by f g xs m) = fst ` set m \<union> f ` set xs"
  by (induction xs arbitrary: m) (auto simp: gm_append_def)

lemma group_by_entries:
  assumes "(k, vs) \<in> set (group_by f g xs [])"
  shows "vs = map g (filter (\<lambda>x. f x = k) xs)"
  using gm_get_in [OF _ assms, of "[]"] by (simp add: group_by_get)

lemma group_by_mem:
  "x \<in> set xs \<Longrightarrow> (f x, map g (filter (\<lambda>y. f y = f x) xs)) \<in> set (group_by f g xs [])"
proof -
  assume "x \<in> set xs"
  then have "f x \<in> fst ` set (group_by f g xs [])" by (simp add: group_by_keys)
  then obtain vs where vs: "(f x, vs) \<in> set (group_by f g xs [])" by force
  from vs group_by_entries [OF vs] show ?thesis by simp
qed

text \<open>A slice used as a set: \<^verbatim>\<open>seen[k]\<close> guarding \<^verbatim>\<open>append\<close> keeps the first occurrence.\<close>

fun dedup_by :: "('a \<Rightarrow> 'k) \<Rightarrow> 'k list \<Rightarrow> 'a list \<Rightarrow> 'a list" where
  "dedup_by f seen [] = []"
| "dedup_by f seen (x # xs) =
     (if f x \<in> set seen then dedup_by f seen xs else x # dedup_by f (f x # seen) xs)"

lemma dedup_by_keys: "set (map f (dedup_by f seen xs)) = f ` set xs - set seen"
  by (induction xs arbitrary: seen) auto

lemma dedup_by_fresh: "set (map f (dedup_by f seen xs)) \<inter> set seen = {}"
  by (auto simp: dedup_by_keys simp del: set_map)

lemma dedup_by_distinct: "distinct (map f (dedup_by f seen xs))"
proof (induction xs arbitrary: seen)
  case (Cons x xs)
  have "f x \<notin> set (map f (dedup_by f (f x # seen) xs))"
    using dedup_by_fresh [of f "f x # seen" xs] by auto
  with Cons show ?case by simp
qed simp

lemma dedup_by_subseq: "subseq (dedup_by f seen xs) xs"
  by (induction xs arbitrary: seen) auto

lemma dedup_by_subset: "set (dedup_by f seen xs) \<subseteq> set xs"
  by (induction xs arbitrary: seen) auto


section \<open>Sorting\<close>

text \<open>
  \<^verbatim>\<open>sort.SliceStable\<close> with a \<^verbatim>\<open>less\<close> function is the stable insertion sort below.
  \<^verbatim>\<open>sort.Slice\<close> promises some permutation that is sorted; where the order is total on the
  elements there is only one (\<open>sorted_perm_unique\<close>), so the same function models it.
\<close>

fun insert_by :: "('a \<Rightarrow> 'a \<Rightarrow> bool) \<Rightarrow> 'a \<Rightarrow> 'a list \<Rightarrow> 'a list" where
  "insert_by lt x [] = [x]"
| "insert_by lt x (y # ys) = (if lt y x then y # insert_by lt x ys else x # y # ys)"

fun sort_by :: "('a \<Rightarrow> 'a \<Rightarrow> bool) \<Rightarrow> 'a list \<Rightarrow> 'a list" where
  "sort_by lt [] = []"
| "sort_by lt (x # xs) = insert_by lt x (sort_by lt xs)"

lemma mset_insert_by [simp]: "mset (insert_by lt x xs) = add_mset x (mset xs)"
  by (induction xs) auto

lemma mset_sort_by [simp]: "mset (sort_by lt xs) = mset xs"
  by (induction xs) auto

lemma set_sort_by [simp]: "set (sort_by lt xs) = set xs"
  by (metis mset_sort_by set_mset_mset)

lemma length_sort_by [simp]: "length (sort_by lt xs) = length xs"
  by (metis mset_sort_by size_mset)

lemma distinct_sort_by [simp]: "distinct (sort_by lt xs) = distinct xs"
  by (metis mset_sort_by mset_eq_imp_distinct_iff)

lemma sort_by_eq_Nil [simp]: "sort_by lt xs = [] \<longleftrightarrow> xs = []"
  by (metis length_0_conv length_sort_by)

text \<open>
  The contract of a Go \<^verbatim>\<open>less\<close> function: a strict weak order. Every comparison function of
  the model is an interpretation of this locale.
\<close>

locale strict_weak =
  fixes lt :: "'a \<Rightarrow> 'a \<Rightarrow> bool"
  assumes less_asym: "lt x y \<Longrightarrow> \<not> lt y x"
    and less_neg_trans: "lt x z \<Longrightarrow> lt x y \<or> lt y z"
begin

lemma less_trans': "lt x y \<Longrightarrow> lt y z \<Longrightarrow> lt x z"
  using less_asym less_neg_trans by blast

lemma not_less_trans: "\<not> lt y x \<Longrightarrow> \<not> lt z y \<Longrightarrow> \<not> lt z x"
  using less_neg_trans by blast

lemma insert_by_sorted:
  "sorted_wrt (\<lambda>a b. \<not> lt b a) xs \<Longrightarrow> sorted_wrt (\<lambda>a b. \<not> lt b a) (insert_by lt x xs)"
proof (induction xs)
  case Nil
  then show ?case by simp
next
  case (Cons y ys)
  have "set (insert_by lt x ys) = insert x (set ys)"
    by (metis mset_insert_by set_mset_add_mset_insert set_mset_mset)
  with Cons show ?case by (auto dest: less_asym not_less_trans)
qed

lemma sort_by_sorted: "sorted_wrt (\<lambda>a b. \<not> lt b a) (sort_by lt xs)"
  by (induction xs) (auto simp: insert_by_sorted)

text \<open>On elements the order tells apart, a sorted permutation is unique.\<close>

lemma sorted_perm_unique:
  assumes "mset xs = mset ys"
    and "sorted_wrt (\<lambda>a b. \<not> lt b a) xs" and "sorted_wrt (\<lambda>a b. \<not> lt b a) ys"
    and "\<forall>a\<in>set xs. \<forall>b\<in>set xs. \<not> lt a b \<longrightarrow> \<not> lt b a \<longrightarrow> a = b"
  shows "xs = ys"
  using assms
proof (induction xs arbitrary: ys)
  case Nil
  then show ?case by simp
next
  case (Cons x xs)
  from Cons.prems(1) obtain y ys' where ys: "ys = y # ys'" by (cases ys) auto
  have mem: "set (x # xs) = set ys" using Cons.prems(1) by (metis set_mset_mset)
  have "\<not> lt y x" using Cons.prems(2) mem ys less_asym
    by (metis list.set_intros(1) set_ConsD sorted_wrt.simps(2))
  moreover have "\<not> lt x y" using Cons.prems(3) mem ys less_asym
    by (metis list.set_intros(1) set_ConsD sorted_wrt.simps(2))
  moreover have "y \<in> set (x # xs)" using mem ys by simp
  ultimately have xy: "x = y" using Cons.prems(4) by (meson list.set_intros(1))
  have "xs = ys'"
  proof (rule Cons.IH)
    show "mset xs = mset ys'" using Cons.prems(1) ys xy by simp
  qed (use Cons.prems ys in auto)
  with ys xy show ?case by simp
qed

lemma sort_by_perm:
  assumes "mset xs = mset ys"
    and "\<forall>a\<in>set xs. \<forall>b\<in>set xs. \<not> lt a b \<longrightarrow> \<not> lt b a \<longrightarrow> a = b"
  shows "sort_by lt xs = sort_by lt ys"
  by (rule sorted_perm_unique) (use assms in \<open>simp_all add: sort_by_sorted\<close>)

end

text \<open>\<^verbatim>\<open>sort.Strings\<close> and \<^verbatim>\<open>sort.Ints\<close>: the built-in \<^verbatim>\<open><\<close>.\<close>

interpretation builtin_less: strict_weak "(<) :: 'a::linorder \<Rightarrow> 'a \<Rightarrow> bool"
  by unfold_locales auto

lemma sort_by_less_eq: "sort_by (<) (xs :: 'a::linorder list) = sort xs"
proof (rule builtin_less.sorted_perm_unique)
  show "sorted_wrt (\<lambda>a b. \<not> b < a) (sort xs)"
    by (rule sorted_wrt_mono_rel [where P = "(\<le>)"]) auto
qed (auto simp: builtin_less.sort_by_sorted)

text \<open>
  Lexicographic comparison by two keys, the shape of most \<^verbatim>\<open>less\<close> closures of the code:
  \<^verbatim>\<open>if f(a) != f(b) { return f(a) < f(b) }; return rest(a, b)\<close>.
\<close>

definition then_by :: "('a \<Rightarrow> 'k::linorder) \<Rightarrow> ('a \<Rightarrow> 'a \<Rightarrow> bool) \<Rightarrow> 'a \<Rightarrow> 'a \<Rightarrow> bool" where
  "then_by f rest a b = (if f a \<noteq> f b then f a < f b else rest a b)"

definition then_by_desc :: "('a \<Rightarrow> 'k::linorder) \<Rightarrow> ('a \<Rightarrow> 'a \<Rightarrow> bool) \<Rightarrow> 'a \<Rightarrow> 'a \<Rightarrow> bool" where
  "then_by_desc f rest a b = (if f a \<noteq> f b then f a > f b else rest a b)"

definition by_key :: "('a \<Rightarrow> 'k::linorder) \<Rightarrow> 'a \<Rightarrow> 'a \<Rightarrow> bool" where
  "by_key f a b \<longleftrightarrow> f a < f b"

lemma strict_weak_by_key: "strict_weak (by_key f)"
  by unfold_locales (auto simp: by_key_def)

lemma strict_weak_then_by: "strict_weak rest \<Longrightarrow> strict_weak (then_by f rest)"
  unfolding strict_weak_def then_by_def by (smt (verit, best) less_trans not_less_iff_gr_or_eq)

lemma strict_weak_then_by_desc: "strict_weak rest \<Longrightarrow> strict_weak (then_by_desc f rest)"
  unfolding strict_weak_def then_by_desc_def by (smt (verit, best) less_trans not_less_iff_gr_or_eq)

lemmas strict_weak_intros = strict_weak_by_key strict_weak_then_by strict_weak_then_by_desc

text \<open>The nested index loops \<^verbatim>\<open>for i { for j := i+1 ... }\<close> visit every pair of positions once.\<close>

fun upairs :: "'a list \<Rightarrow> ('a \<times> 'a) list" where
  "upairs [] = []"
| "upairs (x # xs) = map (Pair x) xs @ upairs xs"

lemma upairs_mem: "(x, y) \<in> set (upairs xs) \<Longrightarrow> x \<in> set xs \<and> y \<in> set xs"
  by (induction xs) auto

lemma upairs_sorted:
  "sorted_wrt R xs \<Longrightarrow> (\<And>x y. R x y \<Longrightarrow> \<not> R y x) \<Longrightarrow> set (upairs xs) = {(x, y). x \<in> set xs \<and> y \<in> set xs \<and> R x y}"
proof (induction xs)
  case (Cons a xs)
  have irr: "\<not> R a a" using Cons.prems(2) by blast
  have "\<And>x. x \<in> set xs \<Longrightarrow> \<not> R x a" using Cons.prems by auto
  then show ?case using Cons irr by auto
qed simp

lemma upairs_distinct: "distinct xs \<Longrightarrow> distinct (upairs xs)"
  by (induction xs) (auto simp: distinct_map inj_on_def dest: upairs_mem)

lemma distinct_concat_tagged:
  assumes "\<And>x. x \<in> set xs \<Longrightarrow> distinct (f x)" and "distinct (map k xs)"
    and "\<And>x y. x \<in> set xs \<Longrightarrow> y \<in> set (f x) \<Longrightarrow> t y = k x"
  shows "distinct (concat (map f xs))"
  using assms
proof (induction xs)
  case (Cons a xs)
  have "set (f a) \<inter> (\<Union>x\<in>set xs. set (f x)) = {}"
  proof (rule ccontr)
    assume "\<not> ?thesis"
    then obtain y x where "y \<in> set (f a)" "x \<in> set xs" "y \<in> set (f x)" by blast
    then have "k a = k x" using Cons.prems(3) by (metis list.set_intros)
    with \<open>x \<in> set xs\<close> Cons.prems(2) show False by (metis distinct.simps(2) image_eqI list.set_map list.simps(9))
  qed
  moreover have "distinct (concat (map f xs))" using Cons by simp
  ultimately show ?case using Cons.prems(1) by simp
qed simp

lemma map_insert_by: "map f (insert_by (\<lambda>x y. lt (f x) (f y)) a xs) = insert_by lt (f a) (map f xs)"
  by (induction xs) auto

lemma map_sort_by: "map f (sort_by (\<lambda>x y. lt (f x) (f y)) xs) = sort_by lt (map f xs)"
  by (induction xs) (auto simp: map_insert_by)

section \<open>Loops that can panic\<close>

text \<open>
  A loop that appends the results of its body to a slice: \<open>None\<close>, a run-time panic in one
  iteration, is a panic of the loop.
\<close>

fun collect :: "('a \<Rightarrow> 'b list option) \<Rightarrow> 'a list \<Rightarrow> 'b list option" where
  "collect f [] = Some []"
| "collect f (x # xs) =
     (case f x of None \<Rightarrow> None
      | Some ys \<Rightarrow> (case collect f xs of None \<Rightarrow> None | Some zs \<Rightarrow> Some (ys @ zs)))"

lemma collect_None_iff: "collect f xs = None \<longleftrightarrow> (\<exists>x\<in>set xs. f x = None)"
  by (induction xs) (auto split: option.splits)

lemma collect_value: "collect f xs = Some zs \<Longrightarrow> zs = concat (map (\<lambda>x. the (f x)) xs)"
  by (induction xs arbitrary: zs) (auto split: option.splits)

lemma collect_Some_iff:
  "collect f xs = Some zs \<longleftrightarrow> (\<forall>x\<in>set xs. f x \<noteq> None) \<and> zs = concat (map (\<lambda>x. the (f x)) xs)"
  using collect_None_iff [of f xs] collect_value [of f xs] by (cases "collect f xs") auto

lemma collect_mem:
  "collect f xs = Some zs \<Longrightarrow> z \<in> set zs \<Longrightarrow> \<exists>x\<in>set xs. \<exists>ys. f x = Some ys \<and> z \<in> set ys"
  by (induction xs arbitrary: zs) (auto split: option.splits)

lemma collect_Some [simp]: "collect (\<lambda>x. Some (f x)) xs = Some (concat (map f xs))"
  by (induction xs) auto

section \<open>Operations that fail with an error\<close>

text \<open>\<^verbatim>\<open>(value, error)\<close>: the error's message on the left, the value on the right.\<close>

type_synonym 'a result = "string + 'a"

text \<open>A loop that returns the first error of its body: one value per element, or the values appended.\<close>

fun each_r :: "('a \<Rightarrow> 'b result) \<Rightarrow> 'a list \<Rightarrow> 'b list result" where
  "each_r f [] = Inr []"
| "each_r f (x # xs) =
     (case f x of Inl e \<Rightarrow> Inl e
      | Inr y \<Rightarrow> (case each_r f xs of Inl e \<Rightarrow> Inl e | Inr ys \<Rightarrow> Inr (y # ys)))"

definition concat_r :: "('a \<Rightarrow> 'b list result) \<Rightarrow> 'a list \<Rightarrow> 'b list result" where
  "concat_r f xs = (case each_r f xs of Inl e \<Rightarrow> Inl e | Inr ys \<Rightarrow> Inr (concat ys))"

lemma each_r_Inr: "each_r f xs = Inr ys \<longleftrightarrow> list_all2 (\<lambda>x y. f x = Inr y) xs ys"
proof (induction xs arbitrary: ys)
  case (Cons x xs)
  have "(case each_r f xs of Inl e \<Rightarrow> Inl e | Inr zs \<Rightarrow> Inr (y # zs)) = Inr ys
      \<longleftrightarrow> (\<exists>zs. ys = y # zs \<and> each_r f xs = Inr zs)" for y
    by (cases "each_r f xs") auto
  then show ?case by (cases "f x") (auto simp: list_all2_Cons1 Cons.IH)
qed auto

lemma each_r_set: "each_r f xs = Inr ys \<Longrightarrow> set ys = {y. \<exists>x\<in>set xs. f x = Inr y}"
  by (induction xs arbitrary: ys) (auto split: sum.splits)

lemma each_r_total: "(\<And>x. x \<in> set xs \<Longrightarrow> \<exists>y. f x = Inr y) \<Longrightarrow> \<exists>ys. each_r f xs = Inr ys"
proof (induction xs)
  case (Cons x xs)
  then obtain y ys where "f x = Inr y" "each_r f xs = Inr ys" by (metis list.set_intros)
  then show ?case by simp
qed simp

lemma concat_r_set:
  assumes "concat_r f xs = Inr zs"
  shows "(\<forall>x\<in>set xs. \<exists>ys. f x = Inr ys) \<and> set zs = {z. \<exists>x\<in>set xs. \<exists>ys. f x = Inr ys \<and> z \<in> set ys}"
proof -
  obtain yss where yss: "each_r f xs = Inr yss" "zs = concat yss"
    using assms by (auto simp: concat_r_def split: sum.splits)
  have "\<forall>x\<in>set xs. \<exists>ys. f x = Inr ys"
    using yss(1) by (auto simp: each_r_Inr list_all2_conv_all_nth in_set_conv_nth)
  moreover have "set yss = {ys. \<exists>x\<in>set xs. f x = Inr ys}" using each_r_set [OF yss(1)] .
  ultimately show ?thesis using yss(2) by auto
qed

lemma concat_r_total: "(\<And>x. x \<in> set xs \<Longrightarrow> \<exists>ys. f x = Inr ys) \<Longrightarrow> \<exists>zs. concat_r f xs = Inr zs"
  using each_r_total [of xs f] by (auto simp: concat_r_def split: sum.splits)

end
