(* ===== verification/GoStrings.thy ===== *)
theory GoStrings
  imports Prelude
begin

text \<open>
  The part of Go's standard library for strings that the code uses. A Go string is a sequence
  of bytes; here it is \<^typ>\<open>string\<close>, a list of 8-bit characters, so \<^verbatim>\<open>len\<close> is \<^const>\<open>length\<close>,
  indexing is by byte and \<^verbatim>\<open><\<close> is the bytewise lexicographic order of \<open>List_Lexorder\<close>.
  Runes are natural numbers; \<open>decode_rune\<close> and \<open>decode_last_rune\<close> follow the accept ranges of
  package \<^verbatim>\<open>unicode/utf8\<close>. White space (\<^verbatim>\<open>unicode.IsSpace\<close>) is given in full. The case and
  category tables of package \<^verbatim>\<open>unicode\<close> are data: the record \<open>unidata\<close>, which every
  definition that folds case or tests letters takes as its argument.
\<close>

section \<open>Bytes, prefixes, searching\<close>

abbreviation byte :: "char \<Rightarrow> nat" where
  "byte c \<equiv> of_char c"

abbreviation nl :: char where "nl \<equiv> CHR 0x0A"

definition has_prefix :: "string \<Rightarrow> string \<Rightarrow> bool" where
  "has_prefix s p \<longleftrightarrow> take (length p) s = p"

definition has_suffix :: "string \<Rightarrow> string \<Rightarrow> bool" where
  "has_suffix s p \<longleftrightarrow> length p \<le> length s \<and> drop (length s - length p) s = p"

definition trim_prefix :: "string \<Rightarrow> string \<Rightarrow> string" where
  "trim_prefix s p = (if has_prefix s p then drop (length p) s else s)"

definition trim_suffix :: "string \<Rightarrow> string \<Rightarrow> string" where
  "trim_suffix s p = (if has_suffix s p then take (length s - length p) s else s)"

text \<open>\<^verbatim>\<open>strings.Index\<close>: the first position, \<open>None\<close> for -1.\<close>

fun str_index :: "string \<Rightarrow> string \<Rightarrow> nat option" where
  "str_index s sub =
     (if has_prefix s sub then Some 0
      else (case s of [] \<Rightarrow> None | _ # t \<Rightarrow> map_option Suc (str_index t sub)))"

declare str_index.simps [simp del]

definition contains :: "string \<Rightarrow> string \<Rightarrow> bool" where
  "contains s sub \<longleftrightarrow> str_index s sub \<noteq> None"

text \<open>\<^verbatim>\<open>strings.LastIndex\<close>: search the reversed string.\<close>

definition str_last_index :: "string \<Rightarrow> string \<Rightarrow> nat option" where
  "str_last_index s sub =
     (case str_index (rev s) (rev sub) of None \<Rightarrow> None
      | Some i \<Rightarrow> Some (length s - length sub - i))"

text \<open>\<^verbatim>\<open>strings.Cut\<close> and \<^verbatim>\<open>strings.CutLast\<close>\<close>

definition str_cut :: "string \<Rightarrow> string \<Rightarrow> string \<times> string \<times> bool" where
  "str_cut s sep = (case str_index s sep of None \<Rightarrow> (s, [], False)
     | Some i \<Rightarrow> (take i s, drop (i + length sep) s, True))"

definition str_cut_last :: "string \<Rightarrow> string \<Rightarrow> string \<times> string \<times> bool" where
  "str_cut_last s sep = (case str_last_index s sep of None \<Rightarrow> (s, [], False)
     | Some i \<Rightarrow> (take i s, drop (i + length sep) s, True))"

lemma has_prefix_append [simp]: "has_prefix (p @ t) p"
  by (simp add: has_prefix_def)

lemma has_prefix_iff: "has_prefix s p \<longleftrightarrow> (\<exists>t. s = p @ t)"
  unfolding has_prefix_def by (metis append_eq_conv_conj append_take_drop_id)

lemma has_prefix_refl [simp]: "has_prefix s s"
  by (simp add: has_prefix_def)

lemma has_suffix_iff: "has_suffix s p \<longleftrightarrow> (\<exists>t. s = t @ p)"
  unfolding has_suffix_def
  by (metis append_eq_conv_conj append_take_drop_id diff_add_inverse2 le_add2 length_append)

lemma trim_prefix_append [simp]: "trim_prefix (p @ t) p = t"
  by (simp add: trim_prefix_def)

lemma str_index_Some:
  "str_index s sub = Some i \<Longrightarrow> i \<le> length s \<and> has_prefix (drop i s) sub"
proof (induction s sub arbitrary: i rule: str_index.induct)
  case (1 s sub)
  show ?case
  proof (cases "has_prefix s sub")
    case True
    with "1.prems" show ?thesis by (subst (asm) str_index.simps) simp
  next
    case np: False
    with "1.prems" obtain c t i' where s: "s = c # t" and i: "i = Suc i'"
      and it: "str_index t sub = Some i'"
      by (subst (asm) str_index.simps) (auto split: list.splits option.splits simp: map_option_case)
    from "1.IH" [OF np s it] s i show ?thesis by simp
  qed
qed

lemma str_index_first:
  "str_index s sub = Some i \<Longrightarrow> j < i \<Longrightarrow> \<not> has_prefix (drop j s) sub"
proof (induction s sub arbitrary: i j rule: str_index.induct)
  case (1 s sub)
  from "1.prems" have np: "\<not> has_prefix s sub"
    by (subst (asm) str_index.simps) (auto split: if_splits)
  with "1.prems"(1) obtain c t i' where s: "s = c # t" and i: "i = Suc i'"
    and it: "str_index t sub = Some i'"
    by (subst (asm) str_index.simps) (auto split: list.splits option.splits simp: map_option_case)
  from np s i it "1.IH" [OF np s it] "1.prems"(2) show ?case by (cases j) auto
qed

lemma str_index_bound: "str_index s p = Some i \<Longrightarrow> i + length p \<le> length s"
proof -
  assume s: "str_index s p = Some i"
  from str_index_Some [OF s] obtain r where "i \<le> length s" "drop i s = p @ r" by (auto simp: has_prefix_iff)
  then show ?thesis by (metis add_le_imp_le_diff le_add1 le_diff_conv2 length_append length_drop add.commute)
qed

lemma str_index_None:
  "str_index s sub = None \<Longrightarrow> \<not> has_prefix (drop j s) sub"
proof (induction s sub arbitrary: j rule: str_index.induct)
  case (1 s sub)
  from "1.prems" have np: "\<not> has_prefix s sub"
    by (subst (asm) str_index.simps) (auto split: if_splits)
  then have "sub \<noteq> []" by (auto simp: has_prefix_def)
  show ?case
  proof (cases s)
    case Nil
    with np show ?thesis by simp
  next
    case (Cons c t)
    with np "1.prems" have "str_index t sub = None"
      by (subst (asm) str_index.simps) auto
    with np Cons "1.IH" show ?thesis by (cases j) auto
  qed
qed

lemma contains_iff: "contains s sub \<longleftrightarrow> (\<exists>a b. s = a @ sub @ b)"
proof
  assume "contains s sub"
  then obtain i where "str_index s sub = Some i" by (auto simp: contains_def)
  then have "has_prefix (drop i s) sub" using str_index_Some by blast
  then show "\<exists>a b. s = a @ sub @ b"
    by (metis append_take_drop_id has_prefix_iff)
next
  assume "\<exists>a b. s = a @ sub @ b"
  then obtain a b where s: "s = a @ sub @ b" by blast
  then have "has_prefix (drop (length a) s) sub" by (simp add: has_prefix_def)
  then show "contains s sub"
    unfolding contains_def using str_index_None by blast
qed

lemma contains_trans: "contains s t \<Longrightarrow> contains t u \<Longrightarrow> contains s u"
  by (auto simp: contains_iff) (metis append.assoc)

lemma str_cut_append:
  "str_cut s sep = (a, b, True) \<Longrightarrow> s = a @ sep @ b"
  unfolding str_cut_def
  by (auto split: option.splits dest!: str_index_Some simp: has_prefix_iff)
    (metis append_take_drop_id drop_drop add.commute append_eq_conv_conj)

section \<open>Runes: UTF-8\<close>

definition rune_error :: nat where "rune_error = 0xFFFD"

definition is_cont :: "char \<Rightarrow> bool" where
  "is_cont c \<longleftrightarrow> 0x80 \<le> byte c \<and> byte c \<le> 0xBF"

text \<open>The accept ranges of the second byte, by the first byte (\<^verbatim>\<open>utf8.acceptRanges\<close>).\<close>

definition second_ok :: "nat \<Rightarrow> nat \<Rightarrow> bool" where
  "second_ok b0 b1 \<longleftrightarrow>
     (if b0 = 0xE0 then 0xA0 else if b0 = 0xF0 then 0x90 else 0x80) \<le> b1 \<and>
     b1 \<le> (if b0 = 0xED then 0x9F else if b0 = 0xF4 then 0x8F else 0xBF)"

text \<open>
  \<^verbatim>\<open>utf8.DecodeRuneInString\<close>: the first rune and its width; an encoding error is
  \<^verbatim>\<open>(RuneError, 1)\<close> and the empty string \<^verbatim>\<open>(RuneError, 0)\<close>.
\<close>

definition decode_rune :: "string \<Rightarrow> nat \<times> nat" where
  "decode_rune s = (case s of [] \<Rightarrow> (rune_error, 0)
   | c0 # r0 \<Rightarrow> (let b0 = byte c0 in
       if b0 < 0x80 then (b0, 1)
       else case r0 of [] \<Rightarrow> (rune_error, 1)
       | c1 # r1 \<Rightarrow> (let b1 = byte c1 in
           if b0 < 0xC2 \<or> 0xF4 < b0 \<or> \<not> second_ok b0 b1 then (rune_error, 1)
           else if b0 < 0xE0 then ((b0 - 0xC0) * 64 + (b1 - 0x80), 2)
           else case r1 of [] \<Rightarrow> (rune_error, 1)
           | c2 # r2 \<Rightarrow>
               if \<not> is_cont c2 then (rune_error, 1)
               else if b0 < 0xF0
                 then ((b0 - 0xE0) * 4096 + (b1 - 0x80) * 64 + (byte c2 - 0x80), 3)
               else case r2 of [] \<Rightarrow> (rune_error, 1)
               | c3 # _ \<Rightarrow>
                   if \<not> is_cont c3 then (rune_error, 1)
                   else ((b0 - 0xF0) * 262144 + (b1 - 0x80) * 4096
                           + (byte c2 - 0x80) * 64 + (byte c3 - 0x80), 4))))"

text \<open>\<^verbatim>\<open>utf8.AppendRune\<close>: surrogates and values beyond \<^verbatim>\<open>MaxRune\<close> become \<^verbatim>\<open>RuneError\<close>.\<close>

definition encode_rune :: "nat \<Rightarrow> string" where
  "encode_rune r0 =
     (let r = (if 0x10FFFF < r0 \<or> (0xD800 \<le> r0 \<and> r0 \<le> 0xDFFF) then rune_error else r0) in
      if r < 0x80 then [char_of r]
      else if r < 0x800 then [char_of (0xC0 + r div 64), char_of (0x80 + r mod 64)]
      else if r < 0x10000 then
        [char_of (0xE0 + r div 4096), char_of (0x80 + r div 64 mod 64), char_of (0x80 + r mod 64)]
      else [char_of (0xF0 + r div 262144), char_of (0x80 + r div 4096 mod 64),
            char_of (0x80 + r div 64 mod 64), char_of (0x80 + r mod 64)])"

lemma decode_rune_width: "s \<noteq> [] \<Longrightarrow> 0 < snd (decode_rune s) \<and> snd (decode_rune s) \<le> length s"
  by (auto simp: decode_rune_def Let_def split: list.splits)

lemma decode_rune_width_le4: "snd (decode_rune s) \<le> 4"
  by (auto simp: decode_rune_def Let_def split: list.splits)

text \<open>\<^verbatim>\<open>[]rune(s)\<close> and \<^verbatim>\<open>for _, r := range s\<close>\<close>

function runes :: "string \<Rightarrow> nat list" where
  "runes s = (if s = [] then [] else fst (decode_rune s) # runes (drop (snd (decode_rune s)) s))"
  by pat_completeness auto
termination
  by (relation "measure length") (auto dest!: decode_rune_width)

declare runes.simps [simp del]

lemma runes_Nil [simp]: "runes [] = []"
  by (simp add: runes.simps)

lemma runes_Cons_ascii [simp]: "byte c < 0x80 \<Longrightarrow> runes (c # s) = byte c # runes s"
  by (subst runes.simps) (simp add: decode_rune_def)

lemma length_runes_le: "length (runes s) \<le> length s"
proof (induction s rule: runes.induct)
  case (1 s)
  then show ?case
    using decode_rune_width [of s] by (cases "s = []") (auto simp: runes.simps [of s])
qed

text \<open>
  \<^verbatim>\<open>utf8.DecodeLastRuneInString\<close>: walk back at most \<^verbatim>\<open>UTFMax\<close> bytes to a byte that can start
  a rune, decode there, and accept only a rune that ends at the end of the string.
\<close>

definition rune_start :: "char \<Rightarrow> bool" where
  "rune_start c \<longleftrightarrow> \<not> is_cont c"

text \<open>\<open>back_off k r\<close>: \<open>r\<close> is the reversed string; how many bytes the scan steps back.\<close>

fun back_off :: "nat \<Rightarrow> string \<Rightarrow> nat" where
  "back_off 0 r = 0"
| "back_off (Suc k) [] = 0"
| "back_off (Suc k) (c # r) = (if rune_start c then 1 else Suc (back_off k r))"

definition decode_last_rune :: "string \<Rightarrow> nat \<times> nat" where
  "decode_last_rune s = (if s = [] then (rune_error, 0)
     else if byte (last s) < 0x80 then (byte (last s), 1)
     else (let n = back_off 4 (rev s);
               start = length s - n;
               (r, size) = decode_rune (drop start s)
           in if start + size \<noteq> length s then (rune_error, 1) else (r, size)))"

lemma back_off_le: "back_off k r \<le> length r"
  by (induction k r rule: back_off.induct) auto

lemma decode_last_rune_width:
  "s \<noteq> [] \<Longrightarrow> 0 < snd (decode_last_rune s) \<and> snd (decode_last_rune s) \<le> length s"
proof -
  assume s: "s \<noteq> []"
  have "drop (length s - back_off 4 (rev s)) s \<noteq> []" if "back_off 4 (rev s) \<noteq> 0"
    using that back_off_le [of 4 "rev s"] s by simp
  moreover have "back_off 4 (rev s) \<noteq> 0"
    using s by (cases "rev s") (auto simp: numeral_eq_Suc)
  ultimately have "0 < snd (decode_rune (drop (length s - back_off 4 (rev s)) s))"
    using decode_rune_width by blast
  with s show ?thesis
    by (auto simp: decode_last_rune_def Let_def split: prod.splits)
      (metis length_greater_0_conv Suc_leI)+
qed

section \<open>White space, letters, case\<close>

definition is_space :: "nat \<Rightarrow> bool" where
  "is_space r \<longleftrightarrow> (9 \<le> r \<and> r \<le> 13) \<or> r = 32 \<or> r = 0x85 \<or> r = 0xA0 \<or> r = 0x1680 \<or>
     (0x2000 \<le> r \<and> r \<le> 0x200A) \<or> r = 0x2028 \<or> r = 0x2029 \<or> r = 0x202F \<or> r = 0x205F \<or> r = 0x3000"

function trim_left_space :: "string \<Rightarrow> string" where
  "trim_left_space s = (if s = [] then []
     else if is_space (fst (decode_rune s)) then trim_left_space (drop (snd (decode_rune s)) s)
     else s)"
  by pat_completeness auto
termination
  by (relation "measure length") (auto dest!: decode_rune_width)

function trim_right_space :: "string \<Rightarrow> string" where
  "trim_right_space s = (if s = [] then []
     else if is_space (fst (decode_last_rune s))
     then trim_right_space (take (length s - snd (decode_last_rune s)) s)
     else s)"
  by pat_completeness auto
termination
  by (relation "measure length") (auto dest!: decode_last_rune_width)

declare trim_left_space.simps [simp del] trim_right_space.simps [simp del]

definition trim_space :: "string \<Rightarrow> string" where
  "trim_space s = trim_right_space (trim_left_space s)"

text \<open>
  The tables of package \<^verbatim>\<open>unicode\<close>: simple lower case, categories L and Nd, and the printable
  runes of \<^verbatim>\<open>strconv.IsPrint\<close>.
\<close>

record unidata =
  u_lower :: "nat \<Rightarrow> nat"
  u_letter :: "nat \<Rightarrow> bool"
  u_digit :: "nat \<Rightarrow> bool"
  u_print :: "nat \<Rightarrow> bool"

definition ascii_lower :: "nat \<Rightarrow> nat" where
  "ascii_lower r = (if 65 \<le> r \<and> r \<le> 90 then r + 32 else r)"

definition ascii_letter :: "nat \<Rightarrow> bool" where
  "ascii_letter r \<longleftrightarrow> (65 \<le> r \<and> r \<le> 90) \<or> (97 \<le> r \<and> r \<le> 122)"

definition ascii_digit :: "nat \<Rightarrow> bool" where
  "ascii_digit r \<longleftrightarrow> 48 \<le> r \<and> r \<le> 57"

definition ascii_print :: "nat \<Rightarrow> bool" where
  "ascii_print r \<longleftrightarrow> 32 \<le> r \<and> r \<le> 126"

text \<open>What the Unicode tables say of ASCII, and the table that knows nothing else.\<close>

definition uni_ascii :: "unidata \<Rightarrow> bool" where
  "uni_ascii U \<longleftrightarrow> (\<forall>r<128. u_lower U r = ascii_lower r \<and>
     u_letter U r = ascii_letter r \<and> u_digit U r = ascii_digit r \<and> u_print U r = ascii_print r)"

definition ascii_tables :: unidata where
  "ascii_tables = \<lparr>u_lower = ascii_lower, u_letter = ascii_letter, u_digit = ascii_digit,
     u_print = ascii_print\<rparr>"

lemma uni_ascii_tables [simp, intro]: "uni_ascii ascii_tables"
  by (simp add: uni_ascii_def ascii_tables_def)

text \<open>
  \<^verbatim>\<open>strings.ToLower\<close>: map the runes; an invalid byte becomes the encoding of \<^verbatim>\<open>RuneError\<close>.
\<close>

definition to_lower :: "unidata \<Rightarrow> string \<Rightarrow> string" where
  "to_lower U s = concat (map (\<lambda>r. encode_rune (u_lower U r)) (runes s))"

section \<open>Splitting and joining\<close>

text \<open>\<^verbatim>\<open>strings.Split\<close> by one byte, and \<^verbatim>\<open>strings.SplitAfter\<close>.\<close>

fun split_char :: "char \<Rightarrow> string \<Rightarrow> string list" where
  "split_char c [] = [[]]"
| "split_char c (x # s) = (if x = c then [] # split_char c s
     else (case split_char c s of [] \<Rightarrow> [[x]] | p # ps \<Rightarrow> (x # p) # ps))"

fun split_after :: "char \<Rightarrow> string \<Rightarrow> string list" where
  "split_after c [] = [[]]"
| "split_after c (x # s) = (if x = c then [x] # split_after c s
     else (case split_after c s of [] \<Rightarrow> [[x]] | p # ps \<Rightarrow> (x # p) # ps))"

text \<open>\<^verbatim>\<open>strings.Split\<close> by a non-empty separator.\<close>

function split_on :: "string \<Rightarrow> string \<Rightarrow> string list" where
  "split_on sep s = (case str_index s sep of None \<Rightarrow> [s]
     | Some i \<Rightarrow> if sep = [] then [s] else take i s # split_on sep (drop (i + length sep) s))"
  by pat_completeness auto
termination
  by (relation "measure (\<lambda>(sep, s). length s)")
    (auto dest!: str_index_Some simp: has_prefix_iff, metis append_Nil2 append_take_drop_id
      diff_less drop_all length_drop length_greater_0_conv add_gr_0 drop_eq_Nil2 linorder_not_less
      append_is_Nil_conv)

declare split_on.simps [simp del]

fun str_join :: "string \<Rightarrow> string list \<Rightarrow> string" where
  "str_join sep [] = []"
| "str_join sep [x] = x"
| "str_join sep (x # y # xs) = x @ sep @ str_join sep (y # xs)"

text \<open>\<^verbatim>\<open>strings.Fields\<close>: \<open>fields_acc cur s\<close>, where \<open>cur\<close> is the field being read.\<close>

function fields_acc :: "string \<Rightarrow> string \<Rightarrow> string list" where
  "fields_acc cur s = (if s = [] then (if cur = [] then [] else [cur])
     else let (r, w) = decode_rune s in
       if is_space r then (if cur = [] then [] else [cur]) @ fields_acc [] (drop w s)
       else fields_acc (cur @ take w s) (drop w s))"
  by pat_completeness auto
termination
  by (relation "measure (\<lambda>(cur, s). length s)")
    (auto, (metis decode_rune_width diff_less length_greater_0_conv snd_conv)+)

declare fields_acc.simps [simp del]

definition str_fields :: "string \<Rightarrow> string list" where
  "str_fields s = fields_acc [] s"

lemma split_after_ne [simp]: "split_after c s \<noteq> []"
  by (induction s) (auto split: list.splits)

lemma concat_split_after [simp]: "concat (split_after c s) = s"
  by (induction s) (auto split: list.splits)

lemma split_char_ne [simp]: "split_char c s \<noteq> []"
  by (induction s) (auto split: list.splits)

lemma str_join_Cons_Cons: "str_join sep ((x # p) # ps) = x # str_join sep (p # ps)"
  by (cases ps) auto

lemma str_join_Nil_Cons: "ps \<noteq> [] \<Longrightarrow> str_join sep ([] # ps) = sep @ str_join sep ps"
  by (cases ps) auto

lemma join_split_char: "str_join [c] (split_char c s) = s"
  by (induction s) (auto simp: str_join_Cons_Cons str_join_Nil_Cons split: list.splits)

lemma split_char_no_sep: "p \<in> set (split_char c s) \<Longrightarrow> c \<notin> set p"
proof (induction s arbitrary: p)
  case (Cons x s)
  then show ?case by (auto split: list.splits if_splits)
qed simp

text \<open>\<^verbatim>\<open>strconv.Itoa\<close>\<close>

fun digits10 :: "nat \<Rightarrow> string" where
  "digits10 n = (if n < 10 then [char_of (48 + n)] else digits10 (n div 10) @ [char_of (48 + n mod 10)])"

declare digits10.simps [simp del]

definition itoa :: "int \<Rightarrow> string" where
  "itoa i = (if i < 0 then CHR ''-'' # digits10 (nat (- i)) else digits10 (nat i))"

text \<open>
  \<^verbatim>\<open>strconv.Quote\<close>, the \<^verbatim>\<open>%q\<close> verb on strings: one rune at a time, an invalid byte as \<^verbatim>\<open>\xHH\<close>.
\<close>

definition hex_digit :: "nat \<Rightarrow> char" where
  "hex_digit d = (if d < 10 then char_of (48 + d) else char_of (87 + d))"

definition hex4 :: "nat \<Rightarrow> string" where
  "hex4 r = [hex_digit (r div 4096 mod 16), hex_digit (r div 256 mod 16),
             hex_digit (r div 16 mod 16), hex_digit (r mod 16)]"

definition quote_rune :: "unidata \<Rightarrow> nat \<Rightarrow> string" where
  "quote_rune U r =
     (if r = 0x22 \<or> r = 0x5C then [CHR 0x5C, char_of r]
      else if u_print U r then encode_rune r
      else if r = 7 then [CHR 0x5C, CHR ''a''] else if r = 8 then [CHR 0x5C, CHR ''b'']
      else if r = 12 then [CHR 0x5C, CHR ''f''] else if r = 10 then [CHR 0x5C, CHR ''n'']
      else if r = 13 then [CHR 0x5C, CHR ''r''] else if r = 9 then [CHR 0x5C, CHR ''t'']
      else if r = 11 then [CHR 0x5C, CHR ''v'']
      else if r < 32 \<or> r = 127 then [CHR 0x5C, CHR ''x'', hex_digit (r div 16), hex_digit (r mod 16)]
      else if r < 0x10000 then [CHR 0x5C, CHR ''u''] @ hex4 r
      else [CHR 0x5C, CHR ''U''] @ hex4 (r div 65536) @ hex4 (r mod 65536))"

function quote_body :: "unidata \<Rightarrow> string \<Rightarrow> string" where
  "quote_body U s = (if s = [] then [] else
     let (r, w) = decode_rune s in
       (if w = 1 \<and> r = rune_error
        then [CHR 0x5C, CHR ''x'', hex_digit (byte (hd s) div 16), hex_digit (byte (hd s) mod 16)]
        else quote_rune U r) @ quote_body U (drop w s))"
  by pat_completeness auto
termination
  by (relation "measure (\<lambda>(U, s). length s)")
    (auto, (metis decode_rune_width diff_less length_greater_0_conv snd_conv)+)

declare quote_body.simps [simp del]

definition go_quote :: "unidata \<Rightarrow> string \<Rightarrow> string" where
  "go_quote U s = [CHR 0x22] @ quote_body U s @ [CHR 0x22]"

text \<open>Everything needed to evaluate the string library on closed arguments by \<open>simp\<close>.\<close>

lemmas str_eval [go_str_simps] =
  has_prefix_def has_suffix_def trim_prefix_def trim_suffix_def str_index.simps contains_def
  str_last_index_def str_cut_def str_cut_last_def is_cont_def second_ok_def decode_rune_def
  encode_rune_def rune_error_def runes.simps rune_start_def decode_last_rune_def is_space_def
  trim_left_space.simps trim_right_space.simps trim_space_def ascii_lower_def ascii_letter_def
  ascii_digit_def ascii_print_def ascii_tables_def to_lower_def split_on.simps fields_acc.simps str_fields_def
  digits10.simps itoa_def quote_rune_def quote_body.simps go_quote_def hex_digit_def hex4_def

section \<open>Paths\<close>

text \<open>\<^verbatim>\<open>filepath.Clean\<close> on a path with slashes.\<close>

fun clean_parts :: "bool \<Rightarrow> string list \<Rightarrow> string list \<Rightarrow> string list" where
  "clean_parts rooted acc [] = rev acc"
| "clean_parts rooted acc (p # ps) =
     (if p = [] \<or> p = ''.'' then clean_parts rooted acc ps
      else if p = ''..'' then
        (if acc \<noteq> [] \<and> hd acc \<noteq> ''..'' then clean_parts rooted (tl acc) ps
         else if rooted then clean_parts rooted acc ps
         else clean_parts rooted (p # acc) ps)
      else clean_parts rooted (p # acc) ps)"

definition path_clean :: "string \<Rightarrow> string" where
  "path_clean p =
     (let rooted = has_prefix p ''/'';
          out = str_join ''/'' (clean_parts rooted [] (split_char CHR ''/'' p))
      in if rooted then ''/'' @ out else if out = [] then ''.'' else out)"

text \<open>\<^verbatim>\<open>filepath.Dir\<close>: what is before the last slash, cleaned.\<close>

definition path_dir :: "string \<Rightarrow> string" where
  "path_dir p = path_clean (rev (dropWhile (\<lambda>c. c \<noteq> CHR ''/'') (rev p)))"

text \<open>\<^verbatim>\<open>path.Base\<close>\<close>

definition path_base :: "string \<Rightarrow> string" where
  "path_base p =
     (if p = [] then ''.''
      else let q = rev (dropWhile (\<lambda>c. c = CHR ''/'') (rev p)) in
        if q = [] then ''/'' else rev (takeWhile (\<lambda>c. c \<noteq> CHR ''/'') (rev q)))"

text \<open>\<^verbatim>\<open>filepath.Join\<close> of two elements skips the empty ones.\<close>

definition path_join :: "string \<Rightarrow> string \<Rightarrow> string" where
  "path_join a b =
     (if a = [] then (if b = [] then [] else path_clean b)
      else if b = [] then path_clean a else path_clean (a @ ''/'' @ b))"

definition path_is_abs :: "string \<Rightarrow> bool" where
  "path_is_abs p \<longleftrightarrow> has_prefix p ''/''"

text \<open>\<^verbatim>\<open>filepath.Abs\<close>: the working directory, or the failure to read it, is an argument.\<close>

definition path_abs :: "string + string \<Rightarrow> string \<Rightarrow> string + string" where
  "path_abs cwd p = (if path_is_abs p then Inr (path_clean p) else map_sum id (\<lambda>d. path_join d p) cwd)"

section \<open>Decimals as text\<close>

lemma digits10_ascii: "c \<in> set (digits10 n) \<Longrightarrow> 48 \<le> byte c \<and> byte c \<le> 57"
proof (induction n rule: digits10.induct)
  case (1 n)
  then show ?case by (subst (asm) digits10.simps) (auto split: if_splits)
qed

definition undigits :: "string \<Rightarrow> nat" where
  "undigits s = foldl (\<lambda>n c. 10 * n + (byte c - 48)) 0 s"

lemma undigits_digits10: "undigits (digits10 n) = n"
proof (induction n rule: digits10.induct)
  case (1 n)
  then show ?case by (subst digits10.simps) (auto simp: undigits_def)
qed

lemma digits10_inj: "digits10 m = digits10 n \<Longrightarrow> m = n"
  by (metis undigits_digits10)

lemma digits10_no_minus: "digits10 m \<noteq> CHR ''-'' # t"
  using digits10_ascii [of "CHR ''-''" m] by auto

lemma itoa_inj: "itoa i = itoa j \<Longrightarrow> i = j"
  using digits10_no_minus digits10_no_minus [symmetric]
  by (cases "i < 0"; cases "j < 0") (auto simp: itoa_def dest!: digits10_inj)

lemma itoa_no_nul: "CHR 0x00 \<notin> set (itoa i)"
  using digits10_ascii [of "CHR 0x00"] by (auto simp: itoa_def)

end
