(* ===== verification/Float64.thy ===== *)
theory Float64
  imports Complex_Main "HOL-Library.Log_Nat"
begin

text \<open>
  Go's \<^verbatim>\<open>float64\<close> on finite values: a value is the rational number it denotes, and an
  operation is the exact rational result rounded to the nearest binary64 number, ties to
  even, with gradual underflow at \<open>2 ^ (-1074)\<close>. Overflow to infinity, NaN and the sign of
  zero are outside the model; the scores, ratios and confidences of the code stay far below
  \<open>2 ^ 1024\<close>. The laws proved here are the ones the components need: rounding is monotone,
  keeps signs and is exact on integers below \<open>2 ^ 53\<close>.
\<close>

type_synonym f64 = rat

definition pow2 :: "int \<Rightarrow> rat" where
  "pow2 e = (if 0 \<le> e then 2 ^ nat e else 1 / 2 ^ nat (- e))"

text \<open>\<open>rat_exp x\<close> is the exponent of \<open>x > 0\<close>: the \<open>e\<close> with \<open>2 ^ e \<le> x < 2 ^ (e + 1)\<close>.\<close>

definition rat_exp :: "rat \<Rightarrow> int" where
  "rat_exp x = (let (p, q) = quotient_of x;
                    e = int (floorlog 2 (nat p)) - int (floorlog 2 (nat q))
                in if pow2 e \<le> x then e else e - 1)"

definition ulp_exp :: "rat \<Rightarrow> int" where
  "ulp_exp x = max (rat_exp x - 52) (-1074)"

text \<open>Round to an integer, ties to even.\<close>

definition rint :: "rat \<Rightarrow> int" where
  "rint x = (let f = \<lfloor>x\<rfloor>; d = x - of_int f in
     if d < 1/2 then f else if d > 1/2 then f + 1 else if even f then f else f + 1)"

definition rnd_pos :: "rat \<Rightarrow> rat" where
  "rnd_pos x = (let k = ulp_exp x in of_int (rint (x / pow2 k)) * pow2 k)"

definition rnd :: "rat \<Rightarrow> f64" where
  "rnd x = (if x = 0 then 0 else if x < 0 then - rnd_pos (- x) else rnd_pos x)"

definition f_add :: "f64 \<Rightarrow> f64 \<Rightarrow> f64" where "f_add a b = rnd (a + b)"
definition f_sub :: "f64 \<Rightarrow> f64 \<Rightarrow> f64" where "f_sub a b = rnd (a - b)"
definition f_mul :: "f64 \<Rightarrow> f64 \<Rightarrow> f64" where "f_mul a b = rnd (a * b)"
definition f_div :: "f64 \<Rightarrow> f64 \<Rightarrow> f64" where "f_div a b = rnd (a / b)"
definition f_of_int :: "int \<Rightarrow> f64" where "f_of_int i = rnd (of_int i)"

lemma pow2_pos [simp]: "0 < pow2 e"
  by (simp add: pow2_def)

lemma pow2_ne [simp]: "pow2 e \<noteq> 0"
  using pow2_pos [of e] by linarith

lemma pow2_nonneg [simp]: "0 \<le> pow2 e"
  by (simp add: order_less_imp_le)

lemma pow2_power_int: "pow2 e = 2 powi e"
  by (simp add: pow2_def power_int_def inverse_eq_divide power_one_over)

lemma pow2_add: "pow2 (a + b) = pow2 a * pow2 b"
  by (simp add: pow2_power_int power_int_add)

lemma pow2_mono: "a \<le> b \<Longrightarrow> pow2 a \<le> pow2 b"
  unfolding pow2_power_int by (rule power_int_increasing) auto

lemma pow2_succ: "pow2 (e + 1) = 2 * pow2 e"
  unfolding pow2_add by (simp add: pow2_def)

lemma pow2_52: "pow2 (e + 52) = 2 ^ 52 * pow2 e" and pow2_53: "pow2 (e + 53) = 2 ^ 53 * pow2 e"
  unfolding pow2_add by (simp_all add: pow2_def)

lemma pow2_of_nat: "pow2 (int n) = 2 ^ n"
  by (simp add: pow2_def)

text \<open>The exponent brackets its argument.\<close>

lemma floorlog_bounds:
  fixes n :: int assumes "0 < n"
  shows "pow2 (int (floorlog 2 (nat n)) - 1) \<le> of_int n"
    and "of_int n < pow2 (int (floorlog 2 (nat n)))"
proof -
  let ?l = "floorlog 2 (nat n)"
  from assms have b: "2 ^ (?l - 1) \<le> nat n \<and> nat n < 2 ^ ?l"
    using floorlog_bounds [of "nat n" 2] by simp
  have l: "0 < ?l" using assms by (simp add: floorlog_def)
  have n: "of_int n = (of_nat (nat n) :: rat)" using assms by simp
  have "(2::rat) ^ (?l - 1) \<le> of_nat (nat n)"
    using b by (metis of_nat_le_iff of_nat_numeral of_nat_power)
  moreover have "int ?l - 1 = int (?l - 1)" using l by simp
  ultimately show "pow2 (int ?l - 1) \<le> of_int n"
    by (simp only: n pow2_of_nat)
  have "of_nat (nat n) < (2::rat) ^ ?l"
    using b by (metis of_nat_less_iff of_nat_numeral of_nat_power)
  then show "of_int n < pow2 (int ?l)"
    by (simp only: n pow2_of_nat)
qed

lemma rat_exp_bounds:
  assumes "0 < x" shows "pow2 (rat_exp x) \<le> x" and "x < pow2 (rat_exp x + 1)"
proof -
  obtain p q where pq: "quotient_of x = (p, q)" by force
  have q: "0 < q" using quotient_of_denom_pos [OF pq] .
  have x: "x = of_int p / of_int q" using quotient_of_div [OF pq] .
  have p: "0 < p" using assms q by (simp add: x zero_less_divide_iff)
  let ?a = "int (floorlog 2 (nat p))" and ?b = "int (floorlog 2 (nat q))"
  define e where "e = ?a - ?b"
  note bp = floorlog_bounds [OF p] and bq = floorlog_bounds [OF q]
  have "x < pow2 ?a / pow2 (?b - 1)" unfolding x
    using bp bq p q by (intro frac_less) auto
  also have "\<dots> = pow2 (e + 1)"
    using pow2_add [of "e + 1" "?b - 1"] by (simp add: e_def field_simps)
  finally have hi: "x < pow2 (e + 1)" .
  have "pow2 (?a - 1) / pow2 ?b < x" unfolding x
    using bp bq p q by (intro frac_less2) auto
  moreover have "pow2 (?a - 1) / pow2 ?b = pow2 (e - 1)"
    using pow2_add [of "e - 1" ?b] by (simp add: e_def field_simps)
  ultimately have lo: "pow2 (e - 1) \<le> x" by simp
  have re: "rat_exp x = (if pow2 e \<le> x then e else e - 1)"
    by (simp add: rat_exp_def pq e_def Let_def)
  show "pow2 (rat_exp x) \<le> x" using lo by (simp add: re)
  show "x < pow2 (rat_exp x + 1)" using hi by (simp add: re)
qed

lemma rat_exp_mono: assumes "0 < x" "x \<le> y" shows "rat_exp x \<le> rat_exp y"
proof (rule ccontr)
  assume "\<not> rat_exp x \<le> rat_exp y"
  then have "pow2 (rat_exp y + 1) \<le> pow2 (rat_exp x)" by (intro pow2_mono) simp
  with rat_exp_bounds(1) [of x] rat_exp_bounds(2) [of y] assms show False by linarith
qed

text \<open>Rounding to an integer.\<close>

lemma rint_of_int [simp]: "rint (of_int i) = i"
  by (simp add: rint_def)

lemma rint_floor: "\<lfloor>x\<rfloor> \<le> rint x" and rint_ceil: "rint x \<le> \<lfloor>x\<rfloor> + 1"
  by (simp_all add: rint_def Let_def)

lemma rint_mono: assumes "x \<le> y" shows "rint x \<le> rint y"
proof (cases "\<lfloor>x\<rfloor> = \<lfloor>y\<rfloor>")
  case True
  with assms show ?thesis by (auto simp: rint_def Let_def)
next
  case False
  then have "\<lfloor>x\<rfloor> + 1 \<le> \<lfloor>y\<rfloor>" using floor_mono [OF assms] by linarith
  with rint_ceil [of x] rint_floor [of y] show ?thesis by linarith
qed

lemma rint_le_of_int: "x \<le> of_int n \<Longrightarrow> rint x \<le> n"
  using rint_mono [of x "of_int n"] by simp

lemma rint_ge_of_int: "of_int n \<le> x \<Longrightarrow> n \<le> rint x"
  using rint_mono [of "of_int n" x] by simp

text \<open>Rounding is monotone: across a change of exponent a power of two lies in between.\<close>

lemma rnd_pos_lower: assumes "0 < x" "-1074 < ulp_exp x" shows "pow2 (ulp_exp x + 52) \<le> rnd_pos x"
proof -
  let ?k = "ulp_exp x"
  have "pow2 (?k + 52) \<le> x"
    using rat_exp_bounds(1) [OF assms(1)] assms(2) by (simp add: ulp_exp_def max_def split: if_splits)
  then have "of_int (2 ^ 52) \<le> x / pow2 ?k" by (simp add: pow2_52 pos_le_divide_eq)
  then have "2 ^ 52 \<le> rint (x / pow2 ?k)" by (rule rint_ge_of_int)
  then have "(2 ^ 52 :: rat) \<le> of_int (rint (x / pow2 ?k))"
    by (metis of_int_le_iff of_int_numeral of_int_power)
  then have "2 ^ 52 * pow2 ?k \<le> rnd_pos x"
    unfolding rnd_pos_def Let_def by (intro mult_right_mono) auto
  then show ?thesis by (simp only: pow2_52)
qed

lemma rnd_pos_upper: assumes "0 < x" shows "rnd_pos x \<le> pow2 (ulp_exp x + 53)"
proof -
  let ?k = "ulp_exp x"
  have "x < pow2 (rat_exp x + 1)" by (rule rat_exp_bounds(2) [OF assms])
  also have "\<dots> \<le> pow2 (?k + 53)" by (rule pow2_mono) (simp add: ulp_exp_def)
  finally have "x / pow2 ?k \<le> of_int (2 ^ 53)" by (simp add: pow2_53 pos_divide_le_eq)
  then have "rint (x / pow2 ?k) \<le> 2 ^ 53" by (rule rint_le_of_int)
  then have "of_int (rint (x / pow2 ?k)) \<le> (2 ^ 53 :: rat)"
    by (metis of_int_le_iff of_int_numeral of_int_power)
  then have "rnd_pos x \<le> 2 ^ 53 * pow2 ?k"
    unfolding rnd_pos_def Let_def by (intro mult_right_mono) auto
  then show ?thesis by (simp only: pow2_53)
qed

lemma rnd_pos_mono: assumes "0 < x" "x \<le> y" shows "rnd_pos x \<le> rnd_pos y"
proof (cases "ulp_exp x = ulp_exp y")
  case True
  have "rint (x / pow2 (ulp_exp y)) \<le> rint (y / pow2 (ulp_exp y))"
    using assms(2) by (intro rint_mono divide_right_mono) auto
  with True show ?thesis by (simp add: rnd_pos_def Let_def)
next
  case False
  have "ulp_exp x \<le> ulp_exp y" using rat_exp_mono [OF assms] by (simp add: ulp_exp_def)
  with False have lt: "ulp_exp x < ulp_exp y" by simp
  then have "-1074 < ulp_exp y" by (simp add: ulp_exp_def)
  then have "pow2 (ulp_exp y + 52) \<le> rnd_pos y" using assms by (intro rnd_pos_lower) auto
  moreover have "pow2 (ulp_exp x + 53) \<le> pow2 (ulp_exp y + 52)" using lt by (intro pow2_mono) simp
  ultimately show ?thesis using rnd_pos_upper [OF assms(1)] by linarith
qed

lemma rnd_pos_nonneg: "0 < x \<Longrightarrow> 0 \<le> rnd_pos x"
  using rint_ge_of_int [of 0 "x / pow2 (ulp_exp x)"] by (simp add: rnd_pos_def Let_def order_less_imp_le)

lemma rnd_0 [simp]: "rnd 0 = 0"
  by (simp add: rnd_def)

lemma rnd_nonneg: "0 \<le> x \<Longrightarrow> 0 \<le> rnd x"
  by (simp add: rnd_def rnd_pos_nonneg)

lemma rnd_mono: assumes "x \<le> y" shows "rnd x \<le> rnd y"
proof -
  consider "0 < x" | "x \<le> 0" "0 \<le> y" | "y < 0" by linarith
  then show ?thesis
  proof cases
    case 1
    with assms show ?thesis by (simp add: rnd_def rnd_pos_mono)
  next
    case 2
    have "rnd x \<le> 0" using 2(1) rnd_pos_nonneg [of "- x"] by (simp add: rnd_def)
    also have "0 \<le> rnd y" using 2(2) by (rule rnd_nonneg)
    finally show ?thesis .
  next
    case 3
    with assms show ?thesis using rnd_pos_mono [of "- y" "- x"] by (simp add: rnd_def)
  qed
qed

text \<open>A number on the grid of its exponent is not moved; integers below \<open>2 ^ 53\<close> are.\<close>

lemma rnd_pos_exact:
  assumes "x = of_int m * pow2 j" "ulp_exp x \<le> j" shows "rnd_pos x = x"
proof -
  let ?k = "ulp_exp x"
  define k where "k = ?k"
  have "pow2 j = pow2 (j - k) * pow2 k" by (simp add: pow2_add [symmetric])
  moreover have "pow2 (j - k) = of_int (2 ^ nat (j - k))"
    using assms(2) by (simp add: pow2_def k_def)
  ultimately have "x / pow2 k = of_int (m * 2 ^ nat (j - k))" unfolding assms(1) by simp
  then have "x / pow2 ?k = of_int (m * 2 ^ nat (j - k))" by (simp only: k_def)
  then have "of_int (rint (x / pow2 ?k)) = x / pow2 ?k" by (simp only: rint_of_int)
  then show ?thesis by (simp add: rnd_pos_def Let_def)
qed

lemma rnd_pos_int: assumes "0 < n" "n < 2 ^ 53" shows "rnd_pos (of_int n) = of_int n"
proof -
  have "(of_int n :: rat) < 2 ^ 53" using assms(2) by (metis of_int_less_iff of_int_numeral of_int_power)
  then have "pow2 (rat_exp (of_int n)) < pow2 53"
    using rat_exp_bounds(1) [of "of_int n"] assms(1) by (simp add: pow2_def [of 53])
  then have "rat_exp (of_int n) \<le> 52" using pow2_mono [of 53 "rat_exp (of_int n)"] by linarith
  then have "ulp_exp (of_int n) \<le> 0" by (simp add: ulp_exp_def)
  then show ?thesis by (intro rnd_pos_exact [where m = n and j = 0]) (simp_all add: pow2_def)
qed

lemma rnd_of_int: "\<bar>n\<bar> < 2 ^ 53 \<Longrightarrow> rnd (of_int n) = of_int n"
  using rnd_pos_int [of n] rnd_pos_int [of "- n"] by (auto simp: rnd_def)

lemma f_of_int_exact: "\<bar>n\<bar> < 2 ^ 53 \<Longrightarrow> f_of_int n = of_int n"
  by (simp add: f_of_int_def rnd_of_int)

lemma rnd_1 [simp]: "rnd 1 = 1" and rnd_2 [simp]: "rnd 2 = 2"
  using rnd_of_int [of 1] rnd_of_int [of 2] by simp_all

lemmas f_ops = f_add_def f_sub_def f_mul_def f_div_def f_of_int_def

lemma f_add_mono: "a \<le> a' \<Longrightarrow> b \<le> b' \<Longrightarrow> f_add a b \<le> f_add a' b'"
  by (simp add: f_add_def rnd_mono add_mono)

lemma f_add_nonneg: "0 \<le> a \<Longrightarrow> 0 \<le> b \<Longrightarrow> 0 \<le> f_add a b"
  by (simp add: f_add_def rnd_nonneg)

lemma f_div_antimono: "0 \<le> a \<Longrightarrow> 0 < b \<Longrightarrow> b \<le> b' \<Longrightarrow> f_div a b' \<le> f_div a b"
  by (simp add: f_div_def rnd_mono frac_le)

lemma f_div_nonneg: "0 \<le> a \<Longrightarrow> 0 \<le> b \<Longrightarrow> 0 \<le> f_div a b"
  by (simp add: f_div_def rnd_nonneg)

lemma f_mul_mono: "0 \<le> a \<Longrightarrow> b \<le> b' \<Longrightarrow> f_mul a b \<le> f_mul a b'"
  by (simp add: f_mul_def rnd_mono mult_left_mono)

lemma rat_exp_eqI: assumes "pow2 e \<le> x" "x < pow2 (e + 1)" shows "rat_exp x = e"
proof -
  have x: "0 < x" using assms(1) pow2_pos [of e] by linarith
  have "\<not> rat_exp x + 1 \<le> e" using pow2_mono [of "rat_exp x + 1" e] rat_exp_bounds(2) [OF x] assms(1) by linarith
  moreover have "\<not> e + 1 \<le> rat_exp x" using pow2_mono [of "e + 1" "rat_exp x"] rat_exp_bounds(1) [OF x] assms(2) by linarith
  ultimately show ?thesis by linarith
qed

lemma pow2_lt: "a < b \<Longrightarrow> pow2 a < pow2 b"
  using pow2_mono [of "a + 1" b] pow2_pos [of a] unfolding pow2_succ by linarith

lemma rat_exp_pow2 [simp]: "rat_exp (pow2 e) = e"
  by (rule rat_exp_eqI) (simp_all add: pow2_lt)

lemma rat_exp_less: assumes "0 < x" "x < pow2 e" shows "rat_exp x < e"
proof (rule ccontr)
  assume "\<not> rat_exp x < e"
  then have "pow2 e \<le> pow2 (rat_exp x)" by (intro pow2_mono) simp
  with rat_exp_bounds(1) [OF assms(1)] assms(2) show False by linarith
qed

lemma rnd_pow2: "-1074 \<le> e \<Longrightarrow> rnd (pow2 e) = pow2 e"
proof -
  assume e: "-1074 \<le> e"
  have "rnd_pos (pow2 e) = pow2 e"
    by (rule rnd_pos_exact [where m = 1 and j = e]) (use e in \<open>simp_all add: ulp_exp_def\<close>)
  then show ?thesis using pow2_pos [of e] by (simp add: rnd_def del: pow2_pos)
qed

text \<open>Rounding is idempotent: a stored value is not rounded again.\<close>

lemma rnd_pos_idem: assumes "0 < x" shows "rnd (rnd_pos x) = rnd_pos x"
proof -
  let ?k = "ulp_exp x" and ?m = "rint (x / pow2 (ulp_exp x))"
  have r: "rnd_pos x = of_int ?m * pow2 ?k" by (simp add: rnd_pos_def Let_def)
  have m0: "0 \<le> ?m" using assms by (intro rint_ge_of_int) (simp add: order_less_imp_le)
  have k: "-1074 \<le> ?k" by (simp add: ulp_exp_def)
  consider "?m = 0" | "0 < ?m" "?m < 2 ^ 53" | "2 ^ 53 \<le> ?m" using m0 by linarith
  then show ?thesis
  proof cases
    case 1
    with r show ?thesis by simp
  next
    case 2
    then have pos: "0 < rnd_pos x" by (simp add: r)
    have "of_int ?m < (2 ^ 53 :: rat)" using 2 by (metis of_int_less_iff of_int_numeral of_int_power)
    then have "rnd_pos x < pow2 (?k + 53)" unfolding r pow2_53 by (intro mult_strict_right_mono) auto
    then have "rat_exp (rnd_pos x) < ?k + 53" by (rule rat_exp_less [OF pos])
    then have "ulp_exp (rnd_pos x) \<le> ?k" using k by (simp add: ulp_exp_def [of "rnd_pos x"])
    with rnd_pos_exact [OF r] pos show ?thesis by (simp add: rnd_def)
  next
    case 3
    then have "(2 ^ 53 :: rat) \<le> of_int ?m" by (metis of_int_le_iff of_int_numeral of_int_power)
    then have "pow2 (?k + 53) \<le> rnd_pos x" unfolding r pow2_53 by (intro mult_right_mono) auto
    then have "rnd_pos x = pow2 (?k + 53)" using rnd_pos_upper [OF assms] by linarith
    then show ?thesis using rnd_pow2 [of "?k + 53"] k by simp
  qed
qed

lemma rnd_idem [simp]: "rnd (rnd x) = rnd x"
proof -
  consider "x = 0" | "0 < x" | "x < 0" by linarith
  then show ?thesis
  proof cases
    case 2
    then show ?thesis using rnd_pos_idem by (simp add: rnd_def)
  next
    case 3
    have n: "rnd (- y) = - rnd y" for y by (simp add: rnd_def)
    have "rnd x = - rnd_pos (- x)" using 3 by (simp add: rnd_def)
    then show ?thesis using 3 rnd_pos_idem [of "- x"] n by simp
  qed simp
qed

lemma f_add_0_rnd [simp]: "f_add 0 (rnd x) = rnd x" and f_add_rnd_0 [simp]: "f_add (rnd x) 0 = rnd x"
  by (simp_all add: f_add_def)

text \<open>A sum of two positive summands is strictly above anything both dominate.\<close>

lemma f_add_gt:
  assumes "0 < c" "c \<le> a" "c \<le> b" "-1075 \<le> rat_exp c" shows "c < f_add a b"
proof -
  have "pow2 (rat_exp c + 1) \<le> a + b"
    using rat_exp_bounds(1) [OF assms(1)] assms(2,3) unfolding pow2_succ by linarith
  then have "rnd (pow2 (rat_exp c + 1)) \<le> f_add a b" by (simp add: f_add_def rnd_mono)
  then show ?thesis using rnd_pow2 [of "rat_exp c + 1"] rat_exp_bounds(2) [OF assms(1)] assms(4) by simp
qed

end
