(* ===== verification/Fuse.thy ===== *)
theory Fuse
  imports GoStrings Float64
begin

text \<open>
  Package \<^verbatim>\<open>fuse\<close> (src/fuse/fuse.go): Reciprocal Rank Fusion of two ranked candidate lists,
  proximity reranking by the smallest line window that covers every term, and Levenshtein
  typo correction. Scores are \<^typ>\<open>f64\<close> values, strings are bytes, terms are folded with the
  Unicode tables \<open>U\<close>.
\<close>

section \<open>Candidates and fusion\<close>

record candidate =
  c_FilePath :: string
  c_Line :: string
  c_ContextBefore :: string
  c_ContextAfter :: string
  c_Sources :: "nat list"
  c_LineNumber :: int
  c_Score :: f64

definition DefaultK :: f64 where "DefaultK = 60"

text \<open>The map key of a candidate: path, NUL, line number in decimal.\<close>

definition cand_key :: "candidate \<Rightarrow> string" where
  "cand_key c = c_FilePath c @ [CHR 0x00] @ itoa (c_LineNumber c)"

type_synonym fuse_state = "(string, f64) gomap \<times> (string, candidate) gomap"

text \<open>
  The closure \<open>add\<close> of \<open>Fuse\<close>: \<open>i\<close> is the 0-based position in the list, \<open>seen\<close> the keys the
  list has had so far. Maps are updated in place.
\<close>

fun fuse_add :: "f64 \<Rightarrow> nat \<Rightarrow> nat \<Rightarrow> string list \<Rightarrow> candidate list \<Rightarrow> fuse_state \<Rightarrow> fuse_state" where
  "fuse_add k idx i seen [] st = st"
| "fuse_add k idx i seen (c # cs) (scores, firsts) =
     (let kk = cand_key c in
      if kk \<in> set seen then fuse_add k idx (Suc i) seen cs (scores, firsts)
      else
        let scores' = gm_put kk (f_add (gm_get 0 scores kk)
                                       (f_div 1 (f_add k (f_of_int (int i + 1))))) scores;
            cur = (case map_of firsts kk of None \<Rightarrow> c | Some d \<Rightarrow> d);
            firsts' = gm_put kk (cur\<lparr>c_Sources := c_Sources cur @ [idx]\<rparr>) firsts
        in fuse_add k idx (Suc i) (kk # seen) cs (scores', firsts'))"

definition lessCandidate :: "candidate \<Rightarrow> candidate \<Rightarrow> bool" where
  "lessCandidate a b =
     (if c_Score a \<noteq> c_Score b then c_Score a > c_Score b
      else if c_FilePath a \<noteq> c_FilePath b then c_FilePath a < c_FilePath b
      else c_LineNumber a < c_LineNumber b)"

definition fuse_collect :: "(string, f64) gomap \<Rightarrow> (string, candidate) gomap \<Rightarrow> candidate list" where
  "fuse_collect scores firsts =
     sort_by lessCandidate (map (\<lambda>(kk, c). c\<lparr>c_Score := gm_get 0 scores kk\<rparr>) firsts)"

definition Fuse :: "candidate list \<Rightarrow> candidate list \<Rightarrow> f64 \<Rightarrow> candidate list" where
  "Fuse a b k0 =
     (let k = (if k0 \<le> 0 then DefaultK else k0);
          st = fuse_add k 0 0 [] a ([], []);
          (scores, firsts) = fuse_add k 1 0 [] b st
      in fuse_collect scores firsts)"

section \<open>Terms\<close>

definition wordy :: "unidata \<Rightarrow> string \<Rightarrow> bool" where
  "wordy U s = list_ex (\<lambda>r. u_letter U r \<or> u_digit U r) (runes s)"

fun WordTerms :: "unidata \<Rightarrow> string list \<Rightarrow> string list" where
  "WordTerms U [] = []"
| "WordTerms U (t0 # ts) =
     (let t = to_lower U (trim_space t0) in
      if t = [] \<or> \<not> wordy U t then WordTerms U ts else t # WordTerms U ts)"

definition absLenDiff :: "string \<Rightarrow> string \<Rightarrow> nat" where
  "absLenDiff a b =
     (let ar = length (runes a); br = length (runes b) in if ar > br then ar - br else br - ar)"

section \<open>Proximity windows\<close>

text \<open>\<open>go_max_int\<close> is \<^verbatim>\<open>math.MaxInt\<close>.\<close>

definition go_max_int :: int where "go_max_int = 2 ^ 63 - 1"

type_synonym line_set = "(int, bool) gomap"
type_synonym term_lines = "(string, line_set) gomap"

text \<open>An occurrence event: line and index of the term.\<close>

type_synonym event = "int \<times> nat"

definition lessEvent :: "event \<Rightarrow> event \<Rightarrow> bool" where
  "lessEvent x y = (if fst x \<noteq> fst y then fst x < fst y else snd x < snd y)"

text \<open>Collect the events of the terms from index \<open>idx\<close> on; \<open>None\<close>: some term never occurs.\<close>

fun collect_events :: "term_lines \<Rightarrow> nat \<Rightarrow> string list \<Rightarrow> event list option" where
  "collect_events byTerm idx [] = Some []"
| "collect_events byTerm idx (t # ts) =
     (let lines = gm_get [] byTerm t in
      if lines = [] then None
      else map_option (\<lambda>es. map (\<lambda>l. (l, idx)) (gm_keys lines) @ es)
             (collect_events byTerm (Suc idx) ts))"

text \<open>The loop variables of the sliding window.\<close>

record window =
  w_have :: "int list"
  w_covered :: nat
  w_best :: int
  w_start :: nat

text \<open>
  The inner loop: while every term is covered, record the span and drop the first event.
  \<open>None\<close> is the index panic \<^verbatim>\<open>events[start]\<close> would raise past the end of the slice.
\<close>

function shrink_window :: "event list \<Rightarrow> nat \<Rightarrow> nat \<Rightarrow> window \<Rightarrow> window option" where
  "shrink_window events n en w =
     (if w_covered w = n then
        (if w_start w < length events then
           (let span = fst (events ! en) - fst (events ! w_start w) + 1;
                t = snd (events ! w_start w);
                h = w_have w ! t - 1
            in shrink_window events n en
                 \<lparr>w_have = (w_have w)[t := h],
                  w_covered = (if h = 0 then w_covered w - 1 else w_covered w),
                  w_best = (if span < w_best w then span else w_best w),
                  w_start = Suc (w_start w)\<rparr>)
         else None)
      else Some w)"
  by pat_completeness auto
termination
  by (relation "measure (\<lambda>(events, n, en, w). length events - w_start w)") auto

declare shrink_window.simps [simp del]

definition enter_event :: "event list \<Rightarrow> nat \<Rightarrow> window \<Rightarrow> window" where
  "enter_event events en w =
     (let t = snd (events ! en); h = w_have w ! t in
      w\<lparr>w_have := (w_have w)[t := h + 1],
        w_covered := (if h = 0 then w_covered w + 1 else w_covered w)\<rparr>)"

function slide_window :: "event list \<Rightarrow> nat \<Rightarrow> nat \<Rightarrow> window \<Rightarrow> window option" where
  "slide_window events n en w =
     (if en < length events then
        (case shrink_window events n en (enter_event events en w) of
           None \<Rightarrow> None
         | Some w' \<Rightarrow> slide_window events n (Suc en) w')
      else Some w)"
  by pat_completeness auto
termination
  by (relation "measure (\<lambda>(events, n, en, w). length events - en)") auto

declare slide_window.simps [simp del]

definition minTermWindow :: "term_lines \<Rightarrow> string list \<Rightarrow> int option" where
  "minTermWindow byTerm terms =
     (case collect_events byTerm 0 terms of
        None \<Rightarrow> Some 0
      | Some evs \<Rightarrow>
          (let events = sort_by lessEvent evs in
           case slide_window events (length terms) 0
                  \<lparr>w_have = replicate (length terms) 0, w_covered = 0,
                   w_best = go_max_int, w_start = 0\<rparr> of
             None \<Rightarrow> None
           | Some w \<Rightarrow> Some (if w_best w = go_max_int then 0 else w_best w)))"

fun best_window_loop :: "term_lines \<Rightarrow> int \<Rightarrow> string list list \<Rightarrow> int option" where
  "best_window_loop byTerm best [] = Some best"
| "best_window_loop byTerm best (terms # alts) =
     (case minTermWindow byTerm terms of None \<Rightarrow> None
      | Some w \<Rightarrow> best_window_loop byTerm
          (if w > 0 \<and> (best = 0 \<or> w < best) then w else best) alts)"

definition bestAlternativeWindow :: "term_lines \<Rightarrow> string list list \<Rightarrow> int option" where
  "bestAlternativeWindow byTerm alternatives = best_window_loop byTerm 0 alternatives"

fun multiTermAlternatives :: "unidata \<Rightarrow> string list list \<Rightarrow> string list list" where
  "multiTermAlternatives U [] = []"
| "multiTermAlternatives U (terms0 # alts) =
     (let terms = WordTerms U terms0 in
      if length terms \<ge> 2 then terms # multiTermAlternatives U alts
      else multiTermAlternatives U alts)"

text \<open>\<^verbatim>\<open>byTerm[t][line] = true\<close> for every term of every alternative the line contains.\<close>

definition note_term :: "string \<Rightarrow> int \<Rightarrow> term_lines \<Rightarrow> string \<Rightarrow> term_lines" where
  "note_term lower line byTerm t =
     (if contains lower t then gm_put t (gm_put line True (gm_get [] byTerm t)) byTerm else byTerm)"

fun note_candidate :: "unidata \<Rightarrow> string list list \<Rightarrow> (string, term_lines) gomap \<Rightarrow> candidate
    \<Rightarrow> (string, term_lines) gomap" where
  "note_candidate U alternatives termLines c =
     (let byTerm = gm_get [] termLines (c_FilePath c);
          lower = to_lower U (c_Line c)
      in gm_put (c_FilePath c)
           (foldl (\<lambda>bt terms. foldl (note_term lower (c_LineNumber c)) bt terms) byTerm alternatives)
           termLines)"

definition alternativeTermLines :: "unidata \<Rightarrow> candidate list \<Rightarrow> string list list
    \<Rightarrow> (string, term_lines) gomap" where
  "alternativeTermLines U results alternatives =
     foldl (note_candidate U alternatives) [] results"

definition proximityWeight :: f64 where "proximityWeight = 1"
definition proximityCap :: f64 where "proximityCap = 2"

definition boost :: "int \<Rightarrow> candidate \<Rightarrow> candidate" where
  "boost w c = (if w \<le> 0 then c else
     let m = f_add 1 (f_div proximityWeight (f_of_int w));
         mult = (if m > proximityCap then proximityCap else m)
     in c\<lparr>c_Score := f_mul (c_Score c) mult\<rparr>)"

fun boost_all :: "(string, term_lines) gomap \<Rightarrow> string list list \<Rightarrow> candidate list \<Rightarrow> candidate list option" where
  "boost_all termLines norms [] = Some []"
| "boost_all termLines norms (c # cs) =
     (case bestAlternativeWindow (gm_get [] termLines (c_FilePath c)) norms of None \<Rightarrow> None
      | Some w \<Rightarrow> map_option (\<lambda>rest. boost w c # rest) (boost_all termLines norms cs))"

definition RerankByAlternatives :: "unidata \<Rightarrow> candidate list \<Rightarrow> string list list \<Rightarrow> candidate list option" where
  "RerankByAlternatives U results alternatives =
     (if length results < 2 then Some results
      else let norms = multiTermAlternatives U alternatives in
        if norms = [] then Some results
        else map_option (sort_by lessCandidate)
               (boost_all (alternativeTermLines U results norms) norms results))"

definition RerankByProximity :: "unidata \<Rightarrow> candidate list \<Rightarrow> string list \<Rightarrow> candidate list option" where
  "RerankByProximity U results terms =
     (if length (WordTerms U terms) < 2 \<or> length results < 2 then Some results
      else RerankByAlternatives U results [terms])"

section \<open>Typo correction\<close>

record correction =
  k_Original :: string
  k_Corrected :: string

definition minCorrectionLen :: nat where "minCorrectionLen = 3"

text \<open>
  One row of the two-row dynamic program: \<open>left\<close> is \<^verbatim>\<open>curr[j-1]\<close>; the list of the previous row
  starts at \<^verbatim>\<open>prev[j-1]\<close>.
\<close>

fun lev_row :: "nat \<Rightarrow> nat list \<Rightarrow> nat \<Rightarrow> nat list \<Rightarrow> nat list" where
  "lev_row a (b # bs) left (diag # up # prev) =
     (let cost = (if a = b then 0 else 1);
          c = min (min (up + 1) (left + 1)) (diag + cost)
      in c # lev_row a bs c (up # prev))"
| "lev_row a _ left _ = []"

fun lev_rows :: "nat list \<Rightarrow> nat \<Rightarrow> nat list \<Rightarrow> nat list \<Rightarrow> nat list" where
  "lev_rows br i [] prev = prev"
| "lev_rows br i (a # ar) prev = lev_rows br (Suc i) ar (i # lev_row a br i prev)"

definition levenshtein :: "string \<Rightarrow> string \<Rightarrow> nat" where
  "levenshtein a b =
     (let ar = runes a; br = runes b in
      if ar = [] then length br else if br = [] then length ar
      else lev_rows br 1 ar [0..<Suc (length br)] ! length br)"

record nearest =
  n_best :: string
  n_dist :: int
  n_ties :: nat

fun nearest_loop :: "string \<Rightarrow> int \<Rightarrow> string list \<Rightarrow> nearest \<Rightarrow> nearest" where
  "nearest_loop lower maxDist [] st = st"
| "nearest_loop lower maxDist (e # es) st =
     (if int (absLenDiff lower e) > maxDist then nearest_loop lower maxDist es st
      else let d = int (levenshtein lower e) in
        if d > maxDist then nearest_loop lower maxDist es st
        else if d < n_dist st then nearest_loop lower maxDist es \<lparr>n_best = e, n_dist = d, n_ties = 1\<rparr>
        else if d = n_dist st then nearest_loop lower maxDist es (st\<lparr>n_ties := Suc (n_ties st)\<rparr>)
        else nearest_loop lower maxDist es st)"

definition correctTerm :: "unidata \<Rightarrow> string list \<Rightarrow> (string, bool) gomap \<Rightarrow> string \<Rightarrow> int \<Rightarrow> string \<times> bool" where
  "correctTerm U entries dict trm maxDist =
     (if maxDist \<le> 0 \<or> \<not> wordy U trm then (trm, False)
      else let lower = to_lower U trm in
        if length (runes lower) < minCorrectionLen \<or> gm_get False dict lower then (trm, False)
        else let st = nearest_loop lower maxDist entries \<lparr>n_best = [], n_dist = maxDist + 1, n_ties = 0\<rparr> in
          if n_dist st \<le> maxDist \<and> n_ties st = 1 then (n_best st, True) else (trm, False))"

fun build_lexicon :: "unidata \<Rightarrow> string list \<Rightarrow> (string, bool) gomap \<Rightarrow> string list
    \<Rightarrow> (string, bool) gomap \<times> string list" where
  "build_lexicon U [] dict entries = (dict, entries)"
| "build_lexicon U (e0 # lexicon) dict entries =
     (let e = to_lower U e0 in
      if e = [] \<or> gm_get False dict e then build_lexicon U lexicon dict entries
      else build_lexicon U lexicon (gm_put e True dict) (entries @ [e]))"

fun correct_loop :: "unidata \<Rightarrow> string list \<Rightarrow> (string, bool) gomap \<Rightarrow> int \<Rightarrow> string list
    \<Rightarrow> string list \<times> correction list" where
  "correct_loop U entries dict maxDist [] = ([], [])"
| "correct_loop U entries dict maxDist (t # ts) =
     (let (corrected, fixed) = correctTerm U entries dict t maxDist;
          (out, applied) = correct_loop U entries dict maxDist ts
      in (corrected # out,
          (if fixed then \<lparr>k_Original = t, k_Corrected = corrected\<rparr> # applied else applied)))"

definition CorrectTerms :: "unidata \<Rightarrow> string list \<Rightarrow> string list \<Rightarrow> int \<Rightarrow> string list \<times> correction list" where
  "CorrectTerms U lexicon terms maxDist0 =
     (let maxDist = (if maxDist0 < 0 then 0 else maxDist0);
          (dict, entries) = build_lexicon U lexicon [] []
      in correct_loop U entries dict maxDist terms)"

end
