(* ===== verification/Fuse_Rank.thy ===== *)
theory Fuse_Rank
  imports Fuse
begin

text \<open>
  Reciprocal Rank Fusion is what its comment says: the candidates of the result are the
  candidates of the two lists, identified by path and line, each once; its score is the sum
  of \<open>1 / (k + rank)\<close> over the lists that hold it; and the order of the result does not
  depend on the iteration order of the map it is collected from.
\<close>

section \<open>Candidate keys\<close>

lemma append_sep_inj:
  assumes "p @ [c] @ x = q @ [c] @ y" "c \<notin> set x" "c \<notin> set y" shows "p = q \<and> x = y"
proof -
  have "takeWhile (\<lambda>d. d \<noteq> c) (rev (p @ [c] @ x)) = rev x"
    "takeWhile (\<lambda>d. d \<noteq> c) (rev (q @ [c] @ y)) = rev y"
    using assms(2,3) by (auto simp: takeWhile_tail takeWhile_append2 in_set_conv_decomp)
  with assms(1) have "rev x = rev y" by metis
  with assms(1) show ?thesis by simp
qed

text \<open>Two candidates have the same key exactly when path and line agree.\<close>

lemma cand_key_eq_iff:
  "cand_key c = cand_key d \<longleftrightarrow> c_FilePath c = c_FilePath d \<and> c_LineNumber c = c_LineNumber d"
  unfolding cand_key_def using append_sep_inj itoa_inj itoa_no_nul by metis

section \<open>The accumulation loop\<close>

definition contrib :: "f64 \<Rightarrow> nat \<Rightarrow> f64" where
  "contrib k i = f_div 1 (f_add k (f_of_int (int i + 1)))"

fun first_pos :: "string \<Rightarrow> candidate list \<Rightarrow> nat option" where
  "first_pos kk [] = None"
| "first_pos kk (c # cs) = (if cand_key c = kk then Some 0 else map_option Suc (first_pos kk cs))"

lemma first_pos_None: "first_pos kk cs = None \<longleftrightarrow> kk \<notin> cand_key ` set cs"
  by (induction cs) auto

lemma first_pos_Some: "first_pos kk cs = Some p \<Longrightarrow> p < length cs \<and> cand_key (cs ! p) = kk"
  by (induction cs arbitrary: p) (auto split: if_splits)

lemma fuse_add_scores:
  "gm_get 0 (fst (fuse_add k idx i seen cs st)) kk =
     (if kk \<in> set seen then gm_get 0 (fst st) kk
      else case first_pos kk cs of None \<Rightarrow> gm_get 0 (fst st) kk
           | Some p \<Rightarrow> f_add (gm_get 0 (fst st) kk) (contrib k (i + p)))"
proof (induction k idx i seen cs st rule: fuse_add.induct)
  case (2 k idx i seen c cs scores firsts)
  show ?case
  proof (cases "cand_key c \<in> set seen")
    case True
    with 2(1) show ?thesis by (auto simp: Let_def split: option.splits)
  next
    case False
    with 2(2) show ?thesis by (auto simp: Let_def contrib_def split: option.splits)
  qed
qed simp

lemma fuse_add_keys:
  "fst ` set (snd (fuse_add k idx i seen cs st)) =
     fst ` set (snd st) \<union> (cand_key ` set cs - set seen)"
proof (induction k idx i seen cs st rule: fuse_add.induct)
  case (2 k idx i seen c cs scores firsts)
  show ?case
  proof (cases "cand_key c \<in> set seen")
    case True
    with 2(1) show ?thesis by (auto simp: Let_def)
  next
    case False
    with 2(2) show ?thesis by (auto simp: Let_def)
  qed
qed simp

text \<open>The map of first occurrences is keyed by the key of its entries.\<close>

definition keyed :: "(string, candidate) gomap \<Rightarrow> bool" where
  "keyed m \<longleftrightarrow> gm_wf m \<and> (\<forall>kk c. map_of m kk = Some c \<longrightarrow> cand_key c = kk)"

lemma cand_key_Sources [simp]: "cand_key (c\<lparr>c_Sources := s\<rparr>) = cand_key c"
  and cand_key_Score [simp]: "cand_key (c\<lparr>c_Score := x\<rparr>) = cand_key c"
  by (simp_all add: cand_key_def)

lemma keyed_Nil [simp]: "keyed []"
  by (simp add: keyed_def)

lemma keyed_put: "keyed m \<Longrightarrow> cand_key c = kk \<Longrightarrow> keyed (gm_put kk c m)"
  by (auto simp: keyed_def)

lemma fuse_add_keyed: "keyed (snd st) \<Longrightarrow> keyed (snd (fuse_add k idx i seen cs st))"
proof (induction k idx i seen cs st rule: fuse_add.induct)
  case (2 k idx i seen c cs scores firsts)
  show ?case
  proof (cases "cand_key c \<in> set seen")
    case True
    with 2(1,3) show ?thesis by (auto simp: Let_def)
  next
    case False
    have "keyed (gm_put (cand_key c)
       ((case map_of firsts (cand_key c) of None \<Rightarrow> c | Some d \<Rightarrow> d)\<lparr>c_Sources := s\<rparr>) firsts)" for s
      using 2(3) by (intro keyed_put) (auto simp: keyed_def split: option.splits)
    with False 2(2) show ?thesis by (simp add: Let_def)
  qed
qed simp

section \<open>The comparison\<close>

lemma lessCandidate_eq:
  "lessCandidate = then_by_desc c_Score (then_by c_FilePath (by_key c_LineNumber))"
  by (intro ext) (simp add: lessCandidate_def then_by_desc_def then_by_def by_key_def)

interpretation cand_less: strict_weak lessCandidate
  unfolding lessCandidate_eq by (intro strict_weak_intros)

lemma cand_less_total: "\<not> lessCandidate a b \<Longrightarrow> \<not> lessCandidate b a \<Longrightarrow> cand_key a = cand_key b"
  by (auto simp: lessCandidate_def cand_key_eq_iff split: if_splits)

definition with_score :: "(string, f64) gomap \<Rightarrow> string \<times> candidate \<Rightarrow> candidate" where
  "with_score scores p = (snd p)\<lparr>c_Score := gm_get 0 scores (fst p)\<rparr>"

lemma fuse_collect_eq: "fuse_collect scores firsts = sort_by lessCandidate (map (with_score scores) firsts)"
proof -
  have "(\<lambda>(kk, c). c\<lparr>c_Score := gm_get 0 scores kk\<rparr>) = with_score scores"
    by (rule ext) (simp add: with_score_def case_prod_beta)
  then show ?thesis by (simp only: fuse_collect_def)
qed

lemma with_score_key: "keyed firsts \<Longrightarrow> p \<in> set firsts \<Longrightarrow> cand_key (with_score scores p) = fst p"
  by (cases p) (auto simp: with_score_def keyed_def gm_wf_in_map_of)

lemma map_with_score_key: "keyed firsts \<Longrightarrow> map (\<lambda>p. cand_key (with_score scores p)) firsts = gm_keys firsts"
  by (simp add: with_score_key)

text \<open>Collecting a keyed map gives one list, whatever the order of iteration.\<close>

lemma fuse_collect_order:
  assumes "keyed firsts" "mset order = mset firsts"
  shows "fuse_collect scores order = fuse_collect scores firsts"
  unfolding fuse_collect_eq
proof (rule cand_less.sort_by_perm)
  show "mset (map (with_score scores) order) = mset (map (with_score scores) firsts)"
    using assms(2) by simp
  have same: "set order = set firsts" using assms(2) by (metis set_mset_mset)
  have inj: "p = q" if "p \<in> set firsts" "q \<in> set firsts" "fst p = fst q" for p q
    using that assms(1) by (auto simp: keyed_def gm_wf_def distinct_map dest: inj_onD)
  show "\<forall>x\<in>set (map (with_score scores) order). \<forall>y\<in>set (map (with_score scores) order).
      \<not> lessCandidate x y \<longrightarrow> \<not> lessCandidate y x \<longrightarrow> x = y"
  proof (intro ballI impI)
    fix x y assume "x \<in> set (map (with_score scores) order)" "y \<in> set (map (with_score scores) order)"
      and lt: "\<not> lessCandidate x y" "\<not> lessCandidate y x"
    then obtain p q where p: "p \<in> set firsts" "x = with_score scores p"
      and q: "q \<in> set firsts" "y = with_score scores q" using same by auto
    from cand_less_total [OF lt] have "fst p = fst q"
      using p q with_score_key [OF assms(1)] by metis
    with inj p q show "x = y" by metis
  qed
qed

section \<open>The result of Fuse\<close>

definition eff_k :: "f64 \<Rightarrow> f64" where
  "eff_k k = (if k \<le> 0 then DefaultK else k)"

definition fuse_run :: "candidate list \<Rightarrow> candidate list \<Rightarrow> f64 \<Rightarrow> fuse_state" where
  "fuse_run a b k = fuse_add (eff_k k) 1 0 [] b (fuse_add (eff_k k) 0 0 [] a ([], []))"

text \<open>The score a key should get: its contributions, list a first.\<close>

definition rrf_score :: "f64 \<Rightarrow> candidate list \<Rightarrow> candidate list \<Rightarrow> string \<Rightarrow> f64" where
  "rrf_score k a b kk =
     (case (first_pos kk a, first_pos kk b) of
        (Some p, Some q) \<Rightarrow> f_add (contrib k p) (contrib k q)
      | (Some p, None) \<Rightarrow> contrib k p
      | (None, Some q) \<Rightarrow> contrib k q
      | (None, None) \<Rightarrow> 0)"

lemma Fuse_eq: "Fuse a b k = fuse_collect (fst (fuse_run a b k)) (snd (fuse_run a b k))"
  by (simp add: Fuse_def fuse_run_def eff_k_def Let_def case_prod_beta)

lemma fuse_run_keyed: "keyed (snd (fuse_run a b k))"
  by (simp add: fuse_run_def fuse_add_keyed)

lemma fuse_run_keys: "fst ` set (snd (fuse_run a b k)) = cand_key ` (set a \<union> set b)"
  by (auto simp: fuse_run_def fuse_add_keys)

lemma f_add_0_contrib [simp]: "f_add 0 (contrib k i) = contrib k i"
  by (simp add: contrib_def f_div_def)

lemma fuse_run_score: "gm_get 0 (fst (fuse_run a b k)) kk = rrf_score (eff_k k) a b kk"
  by (simp add: fuse_run_def fuse_add_scores rrf_score_def split: option.splits)

lemma set_Fuse: "set (Fuse a b k) = with_score (fst (fuse_run a b k)) ` set (snd (fuse_run a b k))"
  by (simp add: Fuse_eq fuse_collect_eq)

lemma Fuse_member_score: "c \<in> set (Fuse a b k) \<Longrightarrow> c_Score c = rrf_score (eff_k k) a b (cand_key c)"
  using with_score_key [OF fuse_run_keyed]
  by (auto simp: set_Fuse with_score_def fuse_run_score)

lemma Fuse_sorted: "sorted_wrt (\<lambda>x y. \<not> lessCandidate y x) (Fuse a b k)"
  by (simp add: Fuse_eq fuse_collect_eq cand_less.sort_by_sorted)

text \<open>
  fusion widens recall. The result holds every candidate of either list, nothing else, and
  each path and line once.
\<close>

theorem Fuse_complete:
  "cand_key ` set (Fuse a b k) = cand_key ` (set a \<union> set b) \<and> distinct (map cand_key (Fuse a b k))"
proof
  let ?r = "fuse_run a b k"
  have m: "map cand_key (map (with_score (fst ?r)) (snd ?r)) = gm_keys (snd ?r)"
    using map_with_score_key [OF fuse_run_keyed] by (simp add: o_def)
  have "cand_key ` set (Fuse a b k) = set (gm_keys (snd ?r))"
    using m by (metis set_Fuse list.set_map)
  then show "cand_key ` set (Fuse a b k) = cand_key ` (set a \<union> set b)"
    by (simp add: fuse_run_keys)
  have "mset (map cand_key (Fuse a b k)) = mset (gm_keys (snd ?r))"
    unfolding Fuse_eq fuse_collect_eq by (metis m mset_map mset_sort_by)
  moreover have "distinct (gm_keys (snd ?r))" using fuse_run_keyed by (simp add: keyed_def gm_wf_def)
  ultimately show "distinct (map cand_key (Fuse a b k))" by (metis mset_eq_imp_distinct_iff)
qed

text \<open>
  C31: the score of a candidate of the result is the RRF sum, in float64 arithmetic: \<open>1/(k + rank)\<close>
  over the lists that hold it, with the rank of its first occurrence, and \<open>k = 60\<close> for a
  non-positive argument.
\<close>

theorem Fuse_scores:
  assumes "c \<in> set (Fuse a b k)"
  shows "c_Score c = rrf_score (if k \<le> 0 then DefaultK else k) a b (cand_key c)"
  using Fuse_member_score [OF assms] by (simp add: eff_k_def)

text \<open>
  the ranking is deterministic and sorted. Iterating over the map of candidates in any other
  order gives the same list, and no element is below its successor.
\<close>

theorem Fuse_deterministic:
  assumes "fuse_add (eff_k k) 1 0 [] b (fuse_add (eff_k k) 0 0 [] a ([], [])) = (scores, firsts)"
    and "mset order = mset firsts"
  shows "fuse_collect scores order = Fuse a b k
    \<and> sorted_wrt (\<lambda>x y. \<not> lessCandidate y x) (Fuse a b k)"
proof
  have r: "fuse_run a b k = (scores, firsts)" using assms(1) by (simp add: fuse_run_def)
  then show "fuse_collect scores order = Fuse a b k"
    using fuse_collect_order [OF fuse_run_keyed, of order a b k scores] assms(2)
    by (simp add: Fuse_eq)
  show "sorted_wrt (\<lambda>x y. \<not> lessCandidate y x) (Fuse a b k)" by (rule Fuse_sorted)
qed

section \<open>Agreement between the lists\<close>

lemma f_of_int_ge_1: "1 \<le> n \<Longrightarrow> 1 \<le> f_of_int n"
  using rnd_mono [of 1 "of_int n"] by (simp add: f_of_int_def)

lemma f_of_int_mono: "m \<le> n \<Longrightarrow> f_of_int m \<le> f_of_int n"
  by (simp add: f_of_int_def rnd_mono)

lemma denominator_ge: "0 \<le> k \<Longrightarrow> f_of_int n \<le> f_add k (f_of_int n)"
  using rnd_mono [of "f_of_int n" "k + f_of_int n"] by (simp add: f_add_def f_of_int_def)

lemma contrib_antimono: assumes "0 < k" "p \<le> r" shows "contrib k r \<le> contrib k p"
  unfolding contrib_def
proof (rule f_div_antimono)
  show "0 < f_add k (f_of_int (int p + 1))"
    using denominator_ge [of k "int p + 1"] f_of_int_ge_1 [of "int p + 1"] assms(1) by linarith
  show "f_add k (f_of_int (int p + 1)) \<le> f_add k (f_of_int (int r + 1))"
    using assms(2) by (intro f_add_mono f_of_int_mono) auto
qed simp

lemma contrib_ge: assumes "0 < k" "k \<le> 2 ^ 52" "int r < 2 ^ 52" shows "pow2 (-53) \<le> contrib k r"
proof -
  let ?d = "f_add k (f_of_int (int r + 1))"
  have d0: "0 < ?d"
    using denominator_ge [of k "int r + 1"] f_of_int_ge_1 [of "int r + 1"] assms(1) by linarith
  have "f_of_int (int r + 1) \<le> f_of_int (2 ^ 52)" using assms(3) by (intro f_of_int_mono) linarith
  also have "f_of_int (2 ^ 52) = 2 ^ 52" by (subst f_of_int_exact) auto
  finally have "k + f_of_int (int r + 1) \<le> pow2 53" using assms(2) by (simp add: pow2_def)
  then have "?d \<le> rnd (pow2 53)" by (simp add: f_add_def rnd_mono)
  then have "?d \<le> pow2 53" by (simp add: rnd_pow2)
  then have "1 / pow2 53 \<le> 1 / ?d" using d0 by (intro frac_le) auto
  then have "rnd (pow2 (-53)) \<le> contrib k r" by (simp add: contrib_def f_div_def rnd_mono pow2_def)
  then show ?thesis by (simp add: rnd_pow2)
qed

lemma rrf_both_gt:
  assumes "0 < k" "k \<le> 2 ^ 52" "int r < 2 ^ 52" "p \<le> r" "q \<le> r"
  shows "contrib k r < f_add (contrib k p) (contrib k q)"
proof (rule f_add_gt)
  have r: "pow2 (-53) \<le> contrib k r" by (rule contrib_ge) fact+
  show "0 < contrib k r" using r pow2_pos [of "-53"] by linarith
  have "\<not> rat_exp (contrib k r) + 1 \<le> -53"
    using rat_exp_bounds(2) [OF \<open>0 < contrib k r\<close>] r pow2_mono [of "rat_exp (contrib k r) + 1" "-53"]
    by linarith
  then show "-1075 \<le> rat_exp (contrib k r)" by simp
qed (use assms contrib_antimono in auto)

lemma sorted_before:
  assumes "sorted_wrt (\<lambda>x y. \<not> lessCandidate y x) xs" "i < length xs" "j < length xs"
    and "lessCandidate (xs ! i) (xs ! j)"
  shows "i < j"
proof (rule ccontr)
  assume "\<not> i < j"
  with assms cand_less.less_asym show False
    by (cases "i = j") (auto simp: sorted_wrt_iff_nth_less)
qed

text \<open>
  agreement outranks. A candidate found by both strategies is placed before every candidate
  found by one strategy only whose rank there is no better than the two ranks of the former.
  The bounds keep \<open>1/(k + rank)\<close> above the underflow threshold of float64.
\<close>

theorem Fuse_both_outranks:
  assumes k: "0 < k" "k \<le> 2 ^ 52" and len: "length a < 2 ^ 52" "length b < 2 ^ 52"
    and x: "i < length (Fuse a b k)" "cand_key (Fuse a b k ! i) = kx"
    and y: "j < length (Fuse a b k)" "cand_key (Fuse a b k ! j) = ky"
    and both: "first_pos kx a = Some p" "first_pos kx b = Some q"
    and one: "(first_pos ky a, first_pos ky b) \<in> {(Some r, None), (None, Some r)}"
    and rank: "p \<le> r" "q \<le> r"
  shows "i < j \<and> c_Score (Fuse a b k ! j) < c_Score (Fuse a b k ! i)"
proof -
  have "r < length a \<or> r < length b" using one first_pos_Some by auto
  then have r: "int r < 2 ^ 52" using len by auto
  have sx: "c_Score (Fuse a b k ! i) = f_add (contrib k p) (contrib k q)"
    using Fuse_member_score [OF nth_mem [OF x(1)]] x(2) both k by (simp add: rrf_score_def eff_k_def)
  have sy: "c_Score (Fuse a b k ! j) = contrib k r"
    using Fuse_member_score [OF nth_mem [OF y(1)]] y(2) one k by (auto simp: rrf_score_def eff_k_def)
  have lt: "c_Score (Fuse a b k ! j) < c_Score (Fuse a b k ! i)"
    unfolding sx sy using k r rank by (rule rrf_both_gt)
  then have "lessCandidate (Fuse a b k ! i) (Fuse a b k ! j)" by (simp add: lessCandidate_def)
  then show ?thesis using sorted_before [OF Fuse_sorted x(1) y(1)] lt by blast
qed

section \<open>Concrete inputs\<close>

definition demo_cand :: "string \<Rightarrow> int \<Rightarrow> candidate" where
  "demo_cand path line = \<lparr>c_FilePath = path, c_Line = ''x y'', c_ContextBefore = [], c_ContextAfter = [],
     c_Sources = [], c_LineNumber = line, c_Score = 0\<rparr>"

lemma rnd_half [simp]: "rnd (1 / 2) = 1 / 2" and rnd_quarter [simp]: "rnd (1 / 4) = 1 / 4"
  using rnd_pow2 [of "-1"] rnd_pow2 [of "-2"] by (simp_all add: pow2_def)

lemmas fuse_eval = Fuse_def fuse_collect_def demo_cand_def cand_key_def gm_put_def gm_get_def
  lessCandidate_def rrf_score_def contrib_def f_ops Let_def

theorem Fuse_scores_witness:
  "c_Score ((demo_cand ''a'' 1)\<lparr>c_Sources := [0], c_Score := 1/2\<rparr>) = rrf_score 1 [demo_cand ''a'' 1] [] (cand_key (demo_cand ''a'' 1))"
proof -
  have m: "(demo_cand ''a'' 1)\<lparr>c_Sources := [0], c_Score := 1/2\<rparr> \<in> set (Fuse [demo_cand ''a'' 1] [] 1)"
    by (simp add: fuse_eval go_str_simps)
  from Fuse_scores [OF m] show ?thesis by simp
qed

theorem Fuse_deterministic_witness:
  "fuse_collect [] [] = Fuse [] [] 1 \<and> sorted_wrt (\<lambda>x y. \<not> lessCandidate y x) (Fuse [] [] 1)"
  by (rule Fuse_deterministic [of 1 "[]" "[]" "[]" "[]" "[]"]) simp_all

theorem Fuse_both_outranks_witness:
  "c_Score (Fuse [demo_cand ''a'' 1, demo_cand ''b'' 1] [demo_cand ''a'' 1] 1 ! 1)
     < c_Score (Fuse [demo_cand ''a'' 1, demo_cand ''b'' 1] [demo_cand ''a'' 1] 1 ! 0)"
proof -
  let ?a = "[demo_cand ''a'' 1, demo_cand ''b'' 1]" and ?b = "[demo_cand ''a'' 1]"
  have r3: "rnd (1 / 3) < 1" using rnd_mono [of "1/3" "1/2"] by simp
  have F: "Fuse ?a ?b 1 = [(demo_cand ''a'' 1)\<lparr>c_Sources := [0, 1], c_Score := 1\<rparr>,
       (demo_cand ''b'' 1)\<lparr>c_Sources := [0], c_Score := rnd (1 / 3)\<rparr>]"
    using r3 rnd_of_int [of 3] by (simp add: fuse_eval go_str_simps)
  have "0 < (1::nat) \<and> c_Score (Fuse ?a ?b 1 ! 1) < c_Score (Fuse ?a ?b 1 ! 0)"
    by (rule Fuse_both_outranks [where kx = "cand_key (demo_cand ''a'' 1)"
          and ky = "cand_key (demo_cand ''b'' 1)" and p = 0 and q = 0 and r = 1])
      (simp_all add: F, simp_all add: fuse_eval go_str_simps)
  then show ?thesis by simp
qed

end
