(* ===== verification/Fuse_Window.thy ===== *)
theory Fuse_Window
  imports Fuse_Rank
begin

text \<open>
  The sliding window of \<open>minTermWindow\<close> returns the smallest line span that covers every term,
  and never indexes past its events. Reranking permutes the candidates and at most doubles a score.
\<close>

section \<open>Counting the events of a window\<close>

definition occ :: "event list \<Rightarrow> nat \<Rightarrow> nat \<Rightarrow> nat \<Rightarrow> int" where
  "occ evs i j t = int (length (filter (\<lambda>e. snd (evs ! e) = t) [i..<j]))"

definition covers :: "event list \<Rightarrow> nat \<Rightarrow> nat \<Rightarrow> nat \<Rightarrow> bool" where
  "covers evs n i j \<longleftrightarrow> (\<forall>t<n. 0 < occ evs i j t)"

definition n_covered :: "event list \<Rightarrow> nat \<Rightarrow> nat \<Rightarrow> nat \<Rightarrow> nat" where
  "n_covered evs n i j = card {t. t < n \<and> 0 < occ evs i j t}"

abbreviation line_at :: "event list \<Rightarrow> nat \<Rightarrow> int" where
  "line_at evs e \<equiv> fst (evs ! e)"

lemma occ_nonneg [simp]: "0 \<le> occ evs i j t"
  by (simp add: occ_def)

lemma occ_pos_iff: "0 < occ evs i j t \<longleftrightarrow> (\<exists>e. i \<le> e \<and> e < j \<and> snd (evs ! e) = t)"
  by (auto simp: occ_def filter_empty_conv)

lemma occ_empty [simp]: "occ evs i i t = 0"
  by (simp add: occ_def)

lemma occ_extend: "i \<le> j \<Longrightarrow> occ evs i (Suc j) t = occ evs i j t + (if snd (evs ! j) = t then 1 else 0)"
  by (simp add: occ_def)

lemma occ_drop: "i < j \<Longrightarrow> occ evs (Suc i) j t = occ evs i j t - (if snd (evs ! i) = t then 1 else 0)"
  by (simp add: occ_def upt_conv_Cons)

lemma n_covered_full: "n_covered evs n i j = n \<longleftrightarrow> covers evs n i j"
proof
  assume "n_covered evs n i j = n"
  then have "card {t. t < n \<and> 0 < occ evs i j t} = card {..<n}" by (simp add: n_covered_def)
  then have "{t. t < n \<and> 0 < occ evs i j t} = {..<n}" by (intro card_subset_eq) auto
  then show "covers evs n i j" by (auto simp: covers_def)
next
  assume "covers evs n i j"
  then have "{t. t < n \<and> 0 < occ evs i j t} = {..<n}" by (auto simp: covers_def)
  then show "n_covered evs n i j = n" by (simp add: n_covered_def)
qed

lemma covers_mono: "covers evs n i j \<Longrightarrow> i' \<le> i \<Longrightarrow> j \<le> j' \<Longrightarrow> covers evs n i' j'"
  unfolding covers_def occ_pos_iff by (meson order_trans less_le_trans)

lemma n_covered_enter:
  assumes "i \<le> j" "snd (evs ! j) < n"
  shows "n_covered evs n i (Suc j) =
    (if occ evs i j (snd (evs ! j)) = 0 then n_covered evs n i j + 1 else n_covered evs n i j)"
proof -
  let ?t = "snd (evs ! j)" and ?S = "{t. t < n \<and> 0 < occ evs i j t}"
  have "{t. t < n \<and> 0 < occ evs i (Suc j) t} = insert ?t ?S"
    using assms by (auto simp: occ_extend add_nonneg_pos)
  moreover have "?t \<in> ?S \<longleftrightarrow> occ evs i j ?t \<noteq> 0" using assms(2) by (simp add: order_less_le)
  ultimately show ?thesis by (auto simp: n_covered_def insert_absorb)
qed

lemma n_covered_leave:
  assumes "i < j" "snd (evs ! i) < n"
  shows "n_covered evs n (Suc i) j =
    (if occ evs i j (snd (evs ! i)) - 1 = 0 then n_covered evs n i j - 1 else n_covered evs n i j)"
proof -
  let ?t = "snd (evs ! i)" and ?S = "{t. t < n \<and> 0 < occ evs i j t}"
  have t: "0 < occ evs i j ?t" using assms by (auto simp: occ_pos_iff)
  have "{t. t < n \<and> 0 < occ evs (Suc i) j t} = (if occ evs i j ?t - 1 = 0 then ?S - {?t} else ?S)"
    using assms t by (auto simp: occ_drop)
  moreover have "?t \<in> ?S" using t assms(2) by simp
  ultimately show ?thesis by (simp add: n_covered_def)
qed

section \<open>The loop invariant\<close>

text \<open>
  \<open>win_inv evs n en w\<close>: the first \<open>en\<close> events have been read and those from \<open>w_start w\<close> on are
  in the window. Every dropped event was dropped with its span recorded, and the best span is
  unset or the span of a covering window.
\<close>

definition win_inv :: "event list \<Rightarrow> nat \<Rightarrow> nat \<Rightarrow> window \<Rightarrow> bool" where
  "win_inv evs n en w \<longleftrightarrow>
     en \<le> length evs \<and> w_start w \<le> en \<and> length (w_have w) = n \<and>
     (\<forall>t<n. w_have w ! t = occ evs (w_start w) en t) \<and>
     w_covered w = n_covered evs n (w_start w) en \<and>
     (\<forall>i<w_start w. \<exists>e<en. w_best w \<le> line_at evs e - line_at evs i + 1) \<and>
     (w_best w = go_max_int \<or>
        (\<exists>i e. i \<le> e \<and> e < en \<and> covers evs n i (Suc e) \<and> w_best w = line_at evs e - line_at evs i + 1))"

definition terms_in :: "event list \<Rightarrow> nat \<Rightarrow> bool" where
  "terms_in evs n \<longleftrightarrow> (\<forall>e<length evs. snd (evs ! e) < n)"

lemma enter_event_inv:
  assumes "win_inv evs n en w" "en < length evs" "terms_in evs n"
  shows "win_inv evs n (Suc en) (enter_event evs en w)"
    and "w_best (enter_event evs en w) = w_best w"
    and "w_start (enter_event evs en w) = w_start w"
proof -
  let ?t = "snd (evs ! en)"
  have t: "?t < n" using assms(2,3) by (simp add: terms_in_def)
  have s: "w_start w \<le> en" and h: "\<forall>t<n. w_have w ! t = occ evs (w_start w) en t"
    and l: "length (w_have w) = n" using assms(1) by (simp_all add: win_inv_def)
  have have': "\<forall>t<n. (w_have w)[?t := w_have w ! ?t + 1] ! t = occ evs (w_start w) (Suc en) t"
    using h l t s by (auto simp: occ_extend nth_list_update)
  have cov: "(if w_have w ! ?t = 0 then w_covered w + 1 else w_covered w) = n_covered evs n (w_start w) (Suc en)"
    using n_covered_enter [OF s t] h t assms(1) by (simp add: win_inv_def)
  show "win_inv evs n (Suc en) (enter_event evs en w)"
    using assms(1,2) have' cov unfolding win_inv_def enter_event_def Let_def
    by (auto intro: less_SucI) (blast intro: less_SucI)+
qed (simp_all add: enter_event_def Let_def)

text \<open>One iteration of the inner loop.\<close>

definition drop_event :: "event list \<Rightarrow> nat \<Rightarrow> window \<Rightarrow> window" where
  "drop_event evs en w =
     (let span = line_at evs en - line_at evs (w_start w) + 1;
          t = snd (evs ! w_start w); h = w_have w ! t - 1
      in \<lparr>w_have = (w_have w)[t := h],
          w_covered = (if h = 0 then w_covered w - 1 else w_covered w),
          w_best = (if span < w_best w then span else w_best w),
          w_start = Suc (w_start w)\<rparr>)"

lemma shrink_window_step:
  "shrink_window evs n en w =
     (if w_covered w = n then
        (if w_start w < length evs then shrink_window evs n en (drop_event evs en w) else None)
      else Some w)"
  by (subst shrink_window.simps) (simp add: drop_event_def Let_def)

lemma drop_event_inv:
  assumes inv: "win_inv evs n (Suc en) w" and cov: "w_covered w = n" "0 < n" and ti: "terms_in evs n"
  shows "w_start w \<le> en" and "win_inv evs n (Suc en) (drop_event evs en w)"
proof -
  let ?s = "w_start w" and ?t = "snd (evs ! w_start w)"
  have c: "covers evs n ?s (Suc en)" using inv cov n_covered_full by (metis win_inv_def)
  with cov(2) obtain e where "?s \<le> e" "e < Suc en" by (auto simp: covers_def occ_pos_iff)
  then show s: "?s \<le> en" by simp
  then have t: "?t < n" using inv ti by (simp add: win_inv_def terms_in_def)
  have h: "\<forall>t<n. w_have w ! t = occ evs ?s (Suc en) t" and l: "length (w_have w) = n"
    using inv by (simp_all add: win_inv_def)
  have have': "\<forall>t<n. (w_have w)[?t := w_have w ! ?t - 1] ! t = occ evs (Suc ?s) (Suc en) t"
    using h l t s by (auto simp: occ_drop nth_list_update)
  have cov': "(if w_have w ! ?t - 1 = 0 then w_covered w - 1 else w_covered w) = n_covered evs n (Suc ?s) (Suc en)"
    using n_covered_leave [of ?s "Suc en" evs n] h t s inv by (simp add: win_inv_def)
  let ?span = "line_at evs en - line_at evs ?s + 1"
  have rec: "\<forall>i<Suc ?s. \<exists>e<Suc en. (if ?span < w_best w then ?span else w_best w) \<le> line_at evs e - line_at evs i + 1"
  proof (intro allI impI)
    fix i assume "i < Suc ?s"
    then consider "i = ?s" | "i < ?s" by linarith
    then show "\<exists>e<Suc en. (if ?span < w_best w then ?span else w_best w) \<le> line_at evs e - line_at evs i + 1"
    proof cases
      case 1
      then show ?thesis by (intro exI [of _ en]) auto
    next
      case 2
      with inv obtain e where "e < Suc en" "w_best w \<le> line_at evs e - line_at evs i + 1"
        unfolding win_inv_def by blast
      then show ?thesis by (intro exI [of _ e]) auto
    qed
  qed
  have ach: "(if ?span < w_best w then ?span else w_best w) = go_max_int \<or>
     (\<exists>i e. i \<le> e \<and> e < Suc en \<and> covers evs n i (Suc e) \<and>
        (if ?span < w_best w then ?span else w_best w) = line_at evs e - line_at evs i + 1)"
    using c s inv unfolding win_inv_def by (metis lessI)
  show "win_inv evs n (Suc en) (drop_event evs en w)"
    using inv s l have' cov' rec ach unfolding win_inv_def drop_event_def Let_def by simp
qed

lemma shrink_window_ok:
  assumes "win_inv evs n (Suc en) w" "0 < n" "terms_in evs n"
  shows "\<exists>w'. shrink_window evs n en w = Some w' \<and> win_inv evs n (Suc en) w' \<and>
    \<not> covers evs n (w_start w') (Suc en) \<and> w_best w' \<le> w_best w"
  using assms
proof (induction "length evs - w_start w" arbitrary: w rule: less_induct)
  case less
  show ?case
  proof (cases "w_covered w = n")
    case True
    note d = drop_event_inv [OF less.prems(1) True less.prems(2,3)]
    have lt: "w_start w < length evs" using d(1) less.prems(1) by (simp add: win_inv_def)
    have st: "w_start (drop_event evs en w) = Suc (w_start w)"
      and b: "w_best (drop_event evs en w) \<le> w_best w" by (simp_all add: drop_event_def Let_def)
    have m: "length evs - w_start (drop_event evs en w) < length evs - w_start w"
      using lt unfolding st by linarith
    from less.hyps [OF m d(2) less.prems(2,3)] obtain w' where
      "shrink_window evs n en (drop_event evs en w) = Some w'" "win_inv evs n (Suc en) w'"
      "\<not> covers evs n (w_start w') (Suc en)" "w_best w' \<le> w_best (drop_event evs en w)" by auto
    with True lt b show ?thesis by (subst shrink_window_step) auto
  next
    case False
    moreover from this less.prems(1) have "\<not> covers evs n (w_start w) (Suc en)"
      using n_covered_full by (metis win_inv_def)
    ultimately show ?thesis using less.prems(1) by (subst shrink_window_step) auto
  qed
qed

text \<open>\<open>best_upto\<close>: the best span is at most that of every covering window read so far.\<close>

definition best_upto :: "event list \<Rightarrow> nat \<Rightarrow> nat \<Rightarrow> int \<Rightarrow> bool" where
  "best_upto evs n en b \<longleftrightarrow>
     (\<forall>i j. j < en \<longrightarrow> covers evs n i (Suc j) \<longrightarrow> b \<le> line_at evs j - line_at evs i + 1)"

lemma best_upto_step:
  assumes inv: "win_inv evs n (Suc en) w" and nc: "\<not> covers evs n (w_start w) (Suc en)"
    and old: "best_upto evs n en b" "w_best w \<le> b" and srt: "sorted (map fst evs)"
  shows "best_upto evs n (Suc en) (w_best w)"
  unfolding best_upto_def
proof (intro allI impI)
  fix i j assume j: "j < Suc en" and c: "covers evs n i (Suc j)"
  show "w_best w \<le> line_at evs j - line_at evs i + 1"
  proof (cases "j < en")
    case True
    with old c show ?thesis unfolding best_upto_def by fastforce
  next
    case False
    then have j: "j = en" using j by simp
    have "i < w_start w" using nc c covers_mono [of evs n i "Suc j" "w_start w" "Suc en"] j by force
    then obtain e where e: "e < Suc en" "w_best w \<le> line_at evs e - line_at evs i + 1"
      using inv unfolding win_inv_def by blast
    have "line_at evs e \<le> line_at evs en"
      using srt e(1) inv sorted_nth_mono [of "map fst evs" e en] by (simp add: win_inv_def)
    with e j show ?thesis by simp
  qed
qed

lemma slide_window_ok:
  assumes "win_inv evs n en w" "best_upto evs n en (w_best w)" "0 < n" "terms_in evs n" "sorted (map fst evs)"
  shows "\<exists>w'. slide_window evs n en w = Some w' \<and> win_inv evs n (length evs) w' \<and>
    best_upto evs n (length evs) (w_best w')"
  using assms
proof (induction "length evs - en" arbitrary: en w rule: less_induct)
  case less
  show ?case
  proof (cases "en < length evs")
    case True
    note e = enter_event_inv [OF less.prems(1) True less.prems(4)]
    from shrink_window_ok [OF e(1) less.prems(3,4)] obtain w1 where
      w1: "shrink_window evs n en (enter_event evs en w) = Some w1" "win_inv evs n (Suc en) w1"
        "\<not> covers evs n (w_start w1) (Suc en)" "w_best w1 \<le> w_best w" using e(2) by auto
    have b: "best_upto evs n (Suc en) (w_best w1)"
      by (rule best_upto_step [OF w1(2,3) less.prems(2) w1(4) less.prems(5)])
    have m: "length evs - Suc en < length evs - en" using True by linarith
    from less.hyps [OF m w1(2) b less.prems(3-5)] obtain w' where
      "slide_window evs n (Suc en) w1 = Some w'" "win_inv evs n (length evs) w'"
      "best_upto evs n (length evs) (w_best w')" by auto
    with True w1(1) show ?thesis by (subst slide_window.simps) auto
  next
    case False
    moreover from this less.prems(1) have "en = length evs" by (simp add: win_inv_def)
    ultimately show ?thesis using less.prems by (subst slide_window.simps) auto
  qed
qed

section \<open>From events to lines\<close>

lemma lessEvent_eq: "lessEvent = then_by fst (by_key snd)"
  by (intro ext) (simp add: lessEvent_def then_by_def by_key_def)

interpretation event_less: strict_weak lessEvent
  unfolding lessEvent_eq by (intro strict_weak_intros)

lemma sorted_events: "sorted (map fst (sort_by lessEvent evs))"
  unfolding sorted_map
  by (rule sorted_wrt_mono_rel [OF _ event_less.sort_by_sorted]) (auto simp: lessEvent_def split: if_splits)

text \<open>The lines on which a term occurs.\<close>

definition term_rows :: "term_lines \<Rightarrow> string \<Rightarrow> int set" where
  "term_rows byTerm t = fst ` set (gm_get [] byTerm t)"

definition spans :: "term_lines \<Rightarrow> string list \<Rightarrow> int \<Rightarrow> int \<Rightarrow> bool" where
  "spans byTerm terms a b \<longleftrightarrow> a \<le> b \<and> (\<forall>t\<in>set terms. \<exists>l\<in>term_rows byTerm t. a \<le> l \<and> l \<le> b)"

lemma collect_events_None:
  "collect_events byTerm idx ts = None \<longleftrightarrow> (\<exists>t\<in>set ts. term_rows byTerm t = {})"
  by (induction ts arbitrary: idx) (auto simp: Let_def term_rows_def)

lemma collect_events_Some:
  "collect_events byTerm idx ts = Some evs \<Longrightarrow>
     (l, k) \<in> set evs \<longleftrightarrow> (\<exists>i<length ts. k = idx + i \<and> l \<in> term_rows byTerm (ts ! i))"
proof (induction ts arbitrary: idx evs)
  case Nil
  then show ?case by simp
next
  case (Cons t ts)
  then obtain es where es: "collect_events byTerm (Suc idx) ts = Some es"
    and evs: "evs = map (\<lambda>l. (l, idx)) (gm_keys (gm_get [] byTerm t)) @ es"
    by (auto simp: Let_def split: if_splits)
  have "(l, k) \<in> set evs \<longleftrightarrow> (k = idx \<and> l \<in> term_rows byTerm t) \<or> (l, k) \<in> set es"
    by (auto simp: evs term_rows_def image_iff)
  also have "\<dots> \<longleftrightarrow> (\<exists>i<length (t # ts). k = idx + i \<and> l \<in> term_rows byTerm ((t # ts) ! i))"
    unfolding Cons.IH [OF es] by (auto simp: less_Suc_eq_0_disj)
  finally show ?case .
qed

lemma collected_terms_in:
  assumes "collect_events byTerm 0 terms = Some evs"
  shows "terms_in (sort_by lessEvent evs) (length terms)"
  unfolding terms_in_def
proof (intro allI impI)
  fix e assume "e < length (sort_by lessEvent evs)"
  then have "sort_by lessEvent evs ! e \<in> set evs" by (metis nth_mem set_sort_by)
  then show "snd (sort_by lessEvent evs ! e) < length terms"
    using collect_events_Some [OF assms] by (metis add_0 prod.collapse)
qed

lemma init_window_inv:
  "win_inv evs n 0 \<lparr>w_have = replicate n 0, w_covered = 0, w_best = go_max_int, w_start = 0\<rparr>"
  by (simp add: win_inv_def n_covered_def)

lemma slide_from_start:
  assumes "0 < n" "terms_in evs n" "sorted (map fst evs)"
  obtains w where "slide_window evs n 0
      \<lparr>w_have = replicate n 0, w_covered = 0, w_best = go_max_int, w_start = 0\<rparr> = Some w"
    "win_inv evs n (length evs) w" "best_upto evs n (length evs) (w_best w)"
  using slide_window_ok [OF init_window_inv _ assms(1,2,3)] by (auto simp: best_upto_def)

text \<open>A line window that holds every term contains a covering window of events.\<close>

lemma spans_covers:
  assumes srt: "sorted (map fst evs)"
    and hit: "\<And>t. t < n \<Longrightarrow> \<exists>e<length evs. snd (evs ! e) = t \<and> a \<le> line_at evs e \<and> line_at evs e \<le> b"
    and n: "0 < n"
  obtains i j where "j < length evs" "covers evs n i (Suc j)" "line_at evs j - line_at evs i \<le> b - a"
proof -
  obtain e0 where e0: "e0 < length evs" "a \<le> line_at evs e0" "line_at evs e0 \<le> b" using hit [OF n] by blast
  define P where "P e \<longleftrightarrow> e < length evs \<and> a \<le> line_at evs e" for e
  define i where "i = Least P"
  define j where "j = Max {e. e < length evs \<and> line_at evs e \<le> b}"
  have "P e0" using e0 by (simp add: P_def)
  then have "P i" unfolding i_def by (rule LeastI)
  then have i: "i < length evs" "a \<le> line_at evs i" by (simp_all add: P_def)
  have il: "i \<le> e" if "e < length evs" "a \<le> line_at evs e" for e
    unfolding i_def by (rule Least_le) (simp add: P_def that)
  let ?J = "{e. e < length evs \<and> line_at evs e \<le> b}"
  have J: "finite ?J" "?J \<noteq> {}" using e0 by auto
  have j: "j < length evs" "line_at evs j \<le> b" using Max_in [OF J] by (auto simp: j_def)
  have jl: "e \<le> j" if "e < length evs" "line_at evs e \<le> b" for e
    unfolding j_def using that J(1) by simp
  have "covers evs n i (Suc j)" unfolding covers_def occ_pos_iff
    using hit il jl by (metis le_imp_less_Suc)
  with i j that show ?thesis by fastforce
qed

lemma minTermWindow_total: "\<exists>w. minTermWindow byTerm terms = Some w"
proof (cases "collect_events byTerm 0 terms")
  case None
  then show ?thesis by (simp add: minTermWindow_def)
next
  case (Some evs)
  let ?evs = "sort_by lessEvent evs"
  show ?thesis
  proof (cases "terms = []")
    case True
    with Some show ?thesis by (simp add: minTermWindow_def slide_window.simps Let_def)
  next
    case False
    have "terms_in ?evs (length terms)" by (rule collected_terms_in [OF Some])
    with False obtain w where "slide_window ?evs (length terms) 0
        \<lparr>w_have = replicate (length terms) 0, w_covered = 0, w_best = go_max_int, w_start = 0\<rparr> = Some w"
      using slide_from_start [of "length terms" ?evs] sorted_events by (metis length_greater_0_conv)
    with Some show ?thesis by (simp add: minTermWindow_def Let_def)
  qed
qed

lemma minTermWindow_minimal:
  assumes rows: "\<And>t. t \<in> set terms \<Longrightarrow> term_rows byTerm t \<noteq> {}" and ne: "terms \<noteq> []"
    and pos: "\<And>t l. t \<in> set terms \<Longrightarrow> l \<in> term_rows byTerm t \<Longrightarrow> 0 < l \<and> l < go_max_int"
  shows "\<exists>w>0. minTermWindow byTerm terms = Some w \<and>
    (\<exists>a b. spans byTerm terms a b \<and> w = b - a + 1) \<and> (\<forall>a b. spans byTerm terms a b \<longrightarrow> w \<le> b - a + 1)"
proof -
  obtain evs where ce: "collect_events byTerm 0 terms = Some evs"
    using collect_events_None [of byTerm 0 terms] rows by fastforce
  define E where "E = sort_by lessEvent evs"
  define n where "n = length terms"
  have mem: "(l, k) \<in> set E \<longleftrightarrow> k < n \<and> l \<in> term_rows byTerm (terms ! k)" for l k
    using collect_events_Some [OF ce, of l k] by (auto simp: E_def n_def)
  have srt: "sorted (map fst E)" by (simp add: E_def sorted_events)
  have ti: "terms_in E n" unfolding terms_in_def by (metis mem nth_mem prod.collapse)
  have n: "0 < n" using ne by (simp add: n_def)
  obtain w where w: "slide_window E n 0
      \<lparr>w_have = replicate n 0, w_covered = 0, w_best = go_max_int, w_start = 0\<rparr> = Some w"
    "win_inv E n (length E) w" "best_upto E n (length E) (w_best w)"
    using slide_from_start [OF n ti srt] by blast
  have lines: "0 < line_at E e \<and> line_at E e < go_max_int" if "e < length E" for e
    using that pos mem nth_mem [OF that] by (metis n_def nth_mem prod.collapse)
  have least: "w_best w \<le> b - a + 1" if sp: "spans byTerm terms a b" for a b
  proof -
    have "\<exists>e<length E. snd (E ! e) = t \<and> a \<le> line_at E e \<and> line_at E e \<le> b" if "t < n" for t
    proof -
      from sp that obtain l where "l \<in> term_rows byTerm (terms ! t)" "a \<le> l" "l \<le> b"
        unfolding spans_def n_def by (meson nth_mem)
      with mem [of l t] that show ?thesis by (metis in_set_conv_nth fst_conv snd_conv)
    qed
    from spans_covers [OF srt this n] obtain i j where
      "j < length E" "covers E n i (Suc j)" "line_at E j - line_at E i \<le> b - a" by blast
    with w(3) show ?thesis unfolding best_upto_def by fastforce
  qed
  have "spans byTerm terms 1 (go_max_int - 1)"
    unfolding spans_def
  proof (intro conjI ballI)
    fix t assume t: "t \<in> set terms"
    with rows obtain l where "l \<in> term_rows byTerm t" by blast
    moreover from this have "1 \<le> l" "l \<le> go_max_int - 1" using pos [OF t, of l] by simp_all
    ultimately show "\<exists>l\<in>term_rows byTerm t. 1 \<le> l \<and> l \<le> go_max_int - 1" by blast
  qed (simp add: go_max_int_def)
  then have "w_best w \<le> go_max_int - 1" using least by fastforce
  then obtain i e where ie: "i \<le> e" "e < length E" "covers E n i (Suc e)"
    "w_best w = line_at E e - line_at E i + 1" using w(2) unfolding win_inv_def by auto
  have mono: "line_at E x \<le> line_at E y" if "x \<le> y" "y < length E" for x y
    using sorted_nth_mono [OF srt] that by simp
  have "spans byTerm terms (line_at E i) (line_at E e)" unfolding spans_def
  proof (intro conjI ballI)
    show "line_at E i \<le> line_at E e" using mono ie by simp
    fix t assume "t \<in> set terms"
    then obtain k where k: "k < n" "t = terms ! k" by (metis in_set_conv_nth n_def)
    with ie(3) obtain x where x: "i \<le> x" "x < Suc e" "snd (E ! x) = k" unfolding covers_def occ_pos_iff by blast
    then have "x < length E" using ie(2) by simp
    then have "line_at E x \<in> term_rows byTerm t" using mem k x(3) by (metis nth_mem prod.collapse)
    moreover have "line_at E i \<le> line_at E x" "line_at E x \<le> line_at E e" using mono x ie(2) by simp_all
    ultimately show "\<exists>l\<in>term_rows byTerm t. line_at E i \<le> l \<and> l \<le> line_at E e" by blast
  qed
  moreover have "0 < w_best w" using mono [OF ie(1,2)] ie(4) by simp
  moreover have "minTermWindow byTerm terms = Some (w_best w)"
    using w(1) \<open>w_best w \<le> go_max_int - 1\<close> by (simp add: minTermWindow_def ce Let_def E_def n_def)
  ultimately show ?thesis using least ie(4) by blast
qed

text \<open>
  C12: the proximity window. \<open>minTermWindow\<close> never indexes out of range; it is 0 when some term
  has no line, and otherwise the least \<open>b - a + 1\<close> over the line ranges \<open>a..b\<close> that hold at
  least one line of every term.
\<close>

theorem minTermWindow_correct:
  assumes "terms \<noteq> []"
    and "\<And>t l. t \<in> set terms \<Longrightarrow> l \<in> term_rows byTerm t \<Longrightarrow> 0 < l \<and> l < go_max_int"
  shows "\<exists>w. minTermWindow byTerm terms = Some w \<and>
    (if \<exists>t\<in>set terms. term_rows byTerm t = {} then w = 0
     else 0 < w \<and> (\<exists>a b. spans byTerm terms a b \<and> w = b - a + 1) \<and>
          (\<forall>a b. spans byTerm terms a b \<longrightarrow> w \<le> b - a + 1))"
proof (cases "\<exists>t\<in>set terms. term_rows byTerm t = {}")
  case True
  then have "collect_events byTerm 0 terms = None" by (simp add: collect_events_None)
  with True show ?thesis by (simp add: minTermWindow_def)
next
  case False
  then have "\<And>t. t \<in> set terms \<Longrightarrow> term_rows byTerm t \<noteq> {}" by blast
  from minTermWindow_minimal [OF this assms(1) assms(2)] False show ?thesis by force
qed

definition demo_lines :: term_lines where
  "demo_lines = [(''x'', [(3, True), (9, True)]), (''y'', [(8, True)])]"

theorem minTermWindow_correct_witness:
  "\<exists>w. minTermWindow demo_lines [''x'', ''y''] = Some w \<and> 0 < w
     \<and> (\<forall>a b. spans demo_lines [''x'', ''y''] a b \<longrightarrow> w \<le> b - a + 1)"
proof -
  have rows: "term_rows demo_lines ''x'' = {3, 9}" "term_rows demo_lines ''y'' = {8}"
    by (simp_all add: term_rows_def demo_lines_def gm_get_def)
  have b: "0 < l \<and> l < go_max_int" if "t \<in> set [''x'', ''y'']" "l \<in> term_rows demo_lines t" for t l
    using that rows by (auto simp: go_max_int_def)
  have "\<exists>w. minTermWindow demo_lines [''x'', ''y''] = Some w \<and>
    (if \<exists>t\<in>set [''x'', ''y'']. term_rows demo_lines t = {} then w = 0
     else 0 < w \<and> (\<exists>a b. spans demo_lines [''x'', ''y''] a b \<and> w = b - a + 1) \<and>
          (\<forall>a b. spans demo_lines [''x'', ''y''] a b \<longrightarrow> w \<le> b - a + 1))"
    by (rule minTermWindow_correct) (use b in auto)
  with rows show ?thesis by auto
qed

section \<open>Reranking\<close>

lemma best_window_loop_total: "\<exists>w. best_window_loop byTerm best alts = Some w"
proof (induction alts arbitrary: best)
  case (Cons terms alts)
  obtain w where "minTermWindow byTerm terms = Some w" using minTermWindow_total by blast
  with Cons show ?case by simp
qed simp

text \<open>The window of a candidate's file, which \<open>boost\<close> turns into its multiplier.\<close>

definition file_window :: "unidata \<Rightarrow> candidate list \<Rightarrow> string list list \<Rightarrow> string \<Rightarrow> int" where
  "file_window U results norms path =
     the (bestAlternativeWindow (gm_get [] (alternativeTermLines U results norms) path) norms)"

lemma boost_all_total:
  "boost_all termLines norms cs =
     Some (map (\<lambda>c. boost (the (bestAlternativeWindow (gm_get [] termLines (c_FilePath c)) norms)) c) cs)"
proof (induction cs)
  case (Cons c cs)
  obtain w where "bestAlternativeWindow (gm_get [] termLines (c_FilePath c)) norms = Some w"
    using best_window_loop_total by (metis bestAlternativeWindow_def)
  with Cons show ?case by simp
qed simp

lemma boost_key [simp]: "cand_key (boost w c) = cand_key c"
  by (simp add: boost_def Let_def)

lemma boost_bounds:
  assumes "0 \<le> c_Score c" "rnd (c_Score c) = c_Score c"
  shows "c_Score c \<le> c_Score (boost w c) \<and> c_Score (boost w c) \<le> f_mul (c_Score c) 2"
proof -
  define m where "m = f_add 1 (f_div proximityWeight (f_of_int w))"
  define mult where "mult = (if m > proximityCap then proximityCap else m)"
  have one: "f_mul (c_Score c) 1 = c_Score c" using assms(2) by (simp add: f_mul_def)
  show ?thesis
  proof (cases "w \<le> 0")
    case True
    then show ?thesis using f_mul_mono [OF assms(1), of 1 2] one by (simp add: boost_def)
  next
    case False
    then have "0 \<le> f_div proximityWeight (f_of_int w)"
      using f_of_int_ge_1 [of w] by (intro f_div_nonneg) (auto simp: proximityWeight_def)
    then have "1 \<le> m" using rnd_mono [of 1 "1 + f_div proximityWeight (f_of_int w)"]
      by (simp add: m_def f_add_def)
    then have "1 \<le> mult" "mult \<le> 2" by (auto simp: mult_def proximityCap_def)
    then have "f_mul (c_Score c) 1 \<le> f_mul (c_Score c) mult" "f_mul (c_Score c) mult \<le> f_mul (c_Score c) 2"
      using f_mul_mono [OF assms(1)] by blast+
    moreover have "boost w c = c\<lparr>c_Score := f_mul (c_Score c) mult\<rparr>"
      using False by (simp add: boost_def m_def mult_def Let_def)
    ultimately show ?thesis using one by simp
  qed
qed

lemma Rerank_eq:
  "RerankByAlternatives U results alternatives = Some
     (if length results < 2 \<or> multiTermAlternatives U alternatives = [] then results
      else sort_by lessCandidate (map (\<lambda>c. boost
             (file_window U results (multiTermAlternatives U alternatives) (c_FilePath c)) c) results))"
  by (simp add: RerankByAlternatives_def Let_def boost_all_total file_window_def)

text \<open>
  reranking only reorders. It returns (no index panic), keeps the candidates as a multiset of
  path and line, and gives every candidate a score between its fused score and twice that score.
\<close>

theorem Rerank_reorders:
  assumes "\<forall>c\<in>set results. 0 \<le> c_Score c \<and> rnd (c_Score c) = c_Score c"
  shows "\<exists>out. RerankByAlternatives U results alternatives = Some out
    \<and> mset (map cand_key out) = mset (map cand_key results)
    \<and> (\<forall>d\<in>set out. \<exists>c\<in>set results. cand_key c = cand_key d
           \<and> c_Score c \<le> c_Score d \<and> c_Score d \<le> f_mul (c_Score c) 2)"
proof -
  define W where "W = file_window U results (multiTermAlternatives U alternatives)"
  define out where "out = (if length results < 2 \<or> multiTermAlternatives U alternatives = [] then results
      else sort_by lessCandidate (map (\<lambda>c. boost (W (c_FilePath c)) c) results))"
  have "RerankByAlternatives U results alternatives = Some out"
    by (simp only: Rerank_eq out_def W_def)
  moreover have "mset (map cand_key out) = mset (map cand_key results)"
    by (simp add: out_def multiset.map_comp comp_def)
  moreover have "\<exists>c\<in>set results. cand_key c = cand_key d \<and> c_Score c \<le> c_Score d \<and> c_Score d \<le> f_mul (c_Score c) 2"
    if "d \<in> set out" for d
  proof (cases "length results < 2 \<or> multiTermAlternatives U alternatives = []")
    case True
    with that assms show ?thesis using boost_bounds [of d 0] by (auto simp: out_def boost_def)
  next
    case False
    with that obtain c where "c \<in> set results" "d = boost (W (c_FilePath c)) c" by (auto simp: out_def)
    with assms show ?thesis using boost_bounds by force
  qed
  ultimately show ?thesis by blast
qed

theorem Rerank_reorders_witness:
  "\<exists>out. RerankByAlternatives ascii_tables [demo_cand ''a'' 1, demo_cand ''a'' 2] [[''x'', ''y'']] = Some out
     \<and> mset (map cand_key out) = mset (map cand_key [demo_cand ''a'' 1, demo_cand ''a'' 2])"
proof -
  have "\<forall>c\<in>set [demo_cand ''a'' 1, demo_cand ''a'' 2]. 0 \<le> c_Score c \<and> rnd (c_Score c) = c_Score c"
    by (simp add: demo_cand_def)
  from Rerank_reorders [OF this, of ascii_tables "[[''x'', ''y'']]"] show ?thesis by auto
qed

end
