(* ===== verification/Fuse_Edit.thy ===== *)
theory Fuse_Edit
  imports Fuse
begin

text \<open>
  The two-row dynamic program of \<open>levenshtein\<close> computes the least number of single-rune
  insertions, deletions and substitutions that turn one string into the other; \<open>correctTerm\<close>
  picks the nearest lexicon entry, if it is alone at its distance.
\<close>

section \<open>Edit scripts\<close>

text \<open>One insertion, deletion or substitution, anywhere in the text.\<close>

inductive one_edit :: "'a list \<Rightarrow> 'a list \<Rightarrow> bool" where
  ins: "one_edit (u @ v) (u @ [a] @ v)"
| del: "one_edit (u @ [a] @ v) (u @ v)"
| sub: "one_edit (u @ [a] @ v) (u @ [b] @ v)"

text \<open>The usual recursive distance.\<close>

fun ed :: "'a list \<Rightarrow> 'a list \<Rightarrow> nat" where
  "ed [] ys = length ys"
| "ed xs [] = length xs"
| "ed (x # xs) (y # ys) =
     min (min (ed xs (y # ys) + 1) (ed (x # xs) ys + 1)) (ed xs ys + (if x = y then 0 else 1))"

lemma ed_Nil2 [simp]: "ed xs [] = length xs"
  by (cases xs) auto

lemma ed_self [simp]: "ed xs xs = 0"
  by (induction xs) auto

lemma ed_Cons_le: "ed (x # xs) ys \<le> ed xs ys + 1" and ed_Cons2_le: "ed xs (y # ys) \<le> ed xs ys + 1"
proof -
  show "ed (x # xs) ys \<le> ed xs ys + 1" by (cases ys) auto
  show "ed xs (y # ys) \<le> ed xs ys + 1" by (cases xs) auto
qed

lemma ed_le_Cons: "ed xs ys \<le> ed (x # xs) ys + 1"
proof (induction ys)
  case (Cons y ys)
  have "ed xs (y # ys) \<le> ed xs ys + 1" by (rule ed_Cons2_le)
  with Cons have "ed xs (y # ys) \<le> ed (x # xs) ys + 2" by linarith
  with ed_Cons2_le [of xs y ys] show ?case by (simp del: ed.simps add: ed.simps(3) [of x xs y ys])
qed simp

lemma ed_sym: "ed xs ys = ed ys xs"
  by (induction xs ys rule: ed.induct) auto

lemma ed_le_Cons2: "ed xs ys \<le> ed xs (y # ys) + 1"
  using ed_le_Cons [of ys xs y] by (simp add: ed_sym)

lemma ed_length: "length xs \<le> length ys + ed xs ys"
  by (induction xs ys rule: ed.induct) auto

text \<open>One edit of the second argument changes the distance by at most one.\<close>

lemma ed_ins: "ed xs (u @ a # v) \<le> ed xs (u @ v) + 1"
proof (induction xs u rule: ed.induct)
  case (2 x xs)
  then show ?case using ed_Cons2_le by simp
qed auto

lemma ed_del: "ed xs (u @ v) \<le> ed xs (u @ a # v) + 1"
proof (induction xs u rule: ed.induct)
  case (2 x xs)
  show ?case unfolding append_Nil by (rule ed_le_Cons2)
qed auto

lemma ed_sub_hd: "ed xs (b # v) \<le> ed xs (a # v) + 1"
  by (induction xs) auto

lemma ed_sub: "ed xs (u @ b # v) \<le> ed xs (u @ a # v) + 1"
proof (induction xs u rule: ed.induct)
  case (2 x xs)
  show ?case unfolding append_Nil by (rule ed_sub_hd)
qed auto

lemma ed_one_edit: "one_edit ys zs \<Longrightarrow> ed xs zs \<le> ed xs ys + 1"
proof (induction rule: one_edit.induct)
  case (ins u v a)
  then show ?case using ed_ins by simp
next
  case (del u a v)
  then show ?case using ed_del by simp
next
  case (sub u a v b)
  then show ?case using ed_sub by simp
qed

lemma ed_lower_bound: "(one_edit ^^ n) xs ys \<Longrightarrow> ed xs ys \<le> n"
proof (induction n arbitrary: ys)
  case (Suc n)
  then obtain zs where "(one_edit ^^ n) xs zs" "one_edit zs ys" by (auto elim: relpowp_Suc_E)
  with Suc.IH [of zs] ed_one_edit [of zs ys xs] show ?case by linarith
qed simp

text \<open>The recursion is a script of that length.\<close>

lemma one_edit_Cons: "one_edit p q \<Longrightarrow> one_edit (c # p) (c # q)"
proof (induction rule: one_edit.induct)
  case (ins u v a)
  then show ?case using one_edit.ins [of "c # u" v a] by simp
next
  case (del u a v)
  then show ?case using one_edit.del [of "c # u" a v] by simp
next
  case (sub u a v b)
  then show ?case using one_edit.sub [of "c # u" a v b] by simp
qed

lemma edits_Cons: "(one_edit ^^ n) p q \<Longrightarrow> (one_edit ^^ n) (c # p) (c # q)"
proof (induction n arbitrary: q)
  case (Suc n)
  from Suc.prems obtain r where r: "(one_edit ^^ n) p r" "one_edit r q" by (rule relpowp_Suc_E)
  show ?case by (rule relpowp_Suc_I [OF Suc.IH [OF r(1)] one_edit_Cons [OF r(2)]])
qed simp

lemma one_edit_hd:
  "one_edit xs (y # xs)" "one_edit (x # xs) xs" "one_edit (x # xs) (y # xs)"
  using one_edit.ins [of "[]" xs y] one_edit.del [of "[]" x xs] one_edit.sub [of "[]" x xs y] by simp_all

lemma edits_ed: "(one_edit ^^ ed xs ys) xs ys"
proof (induction xs ys rule: ed.induct)
  case (1 ys)
  show ?case
  proof (induction ys)
    case (Cons y ys)
    from relpowp_Suc_I [OF Cons.IH one_edit_hd(1)] show ?case by (simp only: ed.simps length_Cons)
  qed simp
next
  case (2 x xs)
  show ?case
  proof (induction xs)
    case Nil
    show ?case using one_edit_hd(2) [of x "[]"] by auto
  next
    case (Cons z xs)
    have d: "one_edit (x # z # xs) (x # xs)" using one_edit.del [of "[x]" z xs] by simp
    show ?case using relpowp_Suc_I2 [OF d Cons.IH] by (simp only: ed.simps length_Cons)
  qed
next
  case (3 x xs y ys)
  let ?a = "ed xs (y # ys) + 1" and ?b = "ed (x # xs) ys + 1"
  have a: "(one_edit ^^ ?a) (x # xs) (y # ys)" using relpowp_Suc_I2 [OF one_edit_hd(2) 3(1)] by simp
  have b: "(one_edit ^^ ?b) (x # xs) (y # ys)" using relpowp_Suc_I [OF 3(2) one_edit_hd(1)] by simp
  have c: "(one_edit ^^ (ed xs ys + (if x = y then 0 else 1))) (x # xs) (y # ys)"
    using edits_Cons [OF 3(3)] relpowp_Suc_I2 [OF one_edit_hd(3) edits_Cons [OF 3(3)]] by simp
  from a b c show ?case by (simp add: min_def)
qed

lemma ed_Least: "ed xs ys = (LEAST n. (one_edit ^^ n) xs ys)"
  by (rule Least_equality [symmetric]) (simp_all add: edits_ed ed_lower_bound)

text \<open>The script may as well be read backwards.\<close>

lemma one_edit_rev: "one_edit p q \<Longrightarrow> one_edit (rev p) (rev q)"
proof (induction rule: one_edit.induct)
  case (ins u v a)
  then show ?case using one_edit.ins [of "rev v" "rev u" a] by simp
next
  case (del u a v)
  then show ?case using one_edit.del [of "rev v" a "rev u"] by simp
next
  case (sub u a v b)
  then show ?case using one_edit.sub [of "rev v" a "rev u" b] by simp
qed

lemma edits_rev: "(one_edit ^^ n) p q \<Longrightarrow> (one_edit ^^ n) (rev p) (rev q)"
proof (induction n arbitrary: q)
  case (Suc n)
  from Suc.prems obtain r where r: "(one_edit ^^ n) p r" "one_edit r q" by (rule relpowp_Suc_E)
  show ?case by (rule relpowp_Suc_I [OF Suc.IH [OF r(1)] one_edit_rev [OF r(2)]])
qed simp

lemma ed_rev: "ed (rev xs) (rev ys) = ed xs ys"
proof -
  have "(one_edit ^^ n) (rev xs) (rev ys) \<longleftrightarrow> (one_edit ^^ n) xs ys" for n
    using edits_rev [of n "rev xs" "rev ys"] edits_rev [of n xs ys] by auto
  then show ?thesis by (simp add: ed_Least)
qed

section \<open>The dynamic program\<close>

text \<open>A row of the table: the distances of \<open>xs\<close> to the prefixes of \<open>bs\<close>, read backwards.\<close>

fun prow :: "nat list \<Rightarrow> nat list \<Rightarrow> nat list \<Rightarrow> nat list" where
  "prow xs rpre [] = [ed xs rpre]"
| "prow xs rpre (b # bs) = ed xs rpre # prow xs (b # rpre) bs"

lemma prow_hd: "\<exists>t. prow xs rpre bs = ed xs rpre # t"
  by (cases bs) auto

lemma lev_row_prow: "lev_row a bs (ed (a # xs) rpre) (prow xs rpre bs) = tl (prow (a # xs) rpre bs)"
proof (induction bs arbitrary: rpre)
  case Nil
  show ?case by simp
next
  case (Cons b bs)
  obtain t where t: "prow xs (b # rpre) bs = ed xs (b # rpre) # t" using prow_hd by blast
  obtain t' where t': "prow (a # xs) (b # rpre) bs = ed (a # xs) (b # rpre) # t'" using prow_hd by blast
  have c: "min (min (ed xs (b # rpre) + 1) (ed (a # xs) rpre + 1)) (ed xs rpre + (if a = b then 0 else 1))
      = ed (a # xs) (b # rpre)" by simp
  have "lev_row a (b # bs) (ed (a # xs) rpre) (prow xs rpre (b # bs)) =
      ed (a # xs) (b # rpre) # lev_row a bs (ed (a # xs) (b # rpre)) (prow xs (b # rpre) bs)"
    unfolding prow.simps t lev_row.simps Let_def c ..
  then show ?case unfolding Cons.IH using t' by simp
qed

lemma lev_rows_prow:
  "i = Suc (length xs) \<Longrightarrow> lev_rows br i ar (prow xs [] br) = prow (rev ar @ xs) [] br"
proof (induction ar arbitrary: i xs)
  case (Cons a ar)
  obtain t where t: "prow (a # xs) [] br = length (a # xs) # t" using prow_hd [of "a # xs" "[]"] by auto
  have "i # lev_row a br i (prow xs [] br) = prow (a # xs) [] br"
    using lev_row_prow [of a br xs "[]"] Cons.prems t by simp
  with Cons.IH [of "Suc i" "a # xs"] Cons.prems show ?case by simp
qed simp

lemma prow_init: "prow [] rpre bs = [length rpre..<Suc (length rpre + length bs)]"
  by (induction bs arbitrary: rpre) (auto simp: upt_conv_Cons simp del: upt_Suc)

lemma prow_last: "prow xs rpre bs ! length bs = ed xs (rev bs @ rpre)"
  by (induction bs arbitrary: rpre) auto

lemma levenshtein_ed: "levenshtein a b = ed (runes a) (runes b)"
proof -
  have "lev_rows (runes b) 1 (runes a) [0..<Suc (length (runes b))] ! length (runes b)
      = ed (rev (runes a)) (rev (runes b))"
    using lev_rows_prow [of 1 "[]" "runes b" "runes a"] prow_init [of "[]" "runes b"]
      prow_last [of "rev (runes a)" "[]" "runes b"] by simp
  then show ?thesis by (simp add: levenshtein_def Let_def ed_rev del: upt_Suc)
qed

text \<open>
  C22: \<open>levenshtein\<close> is the edit distance. The two-row table ends at the least number of
  single-rune insertions, deletions and substitutions that turn one string into the other.
\<close>

theorem levenshtein_minimal:
  "levenshtein a b = (LEAST n. (one_edit ^^ n) (runes a) (runes b))"
  by (simp add: levenshtein_ed ed_Least)

section \<open>Correction\<close>

lemma levenshtein_absLenDiff: "absLenDiff a b \<le> levenshtein a b"
  using ed_length [of "runes a" "runes b"] ed_length [of "runes b" "runes a"]
  by (auto simp: absLenDiff_def Let_def levenshtein_ed ed_sym)

text \<open>
  The entries within \<open>maxDist\<close>, and the loop as a scan over them: the length filter skips only
  entries that the distance test rejects as well.
\<close>

definition close_dist :: "string \<Rightarrow> int \<Rightarrow> string \<Rightarrow> bool" where
  "close_dist lower maxDist e \<longleftrightarrow> int (levenshtein lower e) \<le> maxDist"

text \<open>What the loop variables say after reading \<open>es\<close>.\<close>

definition near_inv :: "string \<Rightarrow> int \<Rightarrow> string list \<Rightarrow> nearest \<Rightarrow> bool" where
  "near_inv lower maxDist es st \<longleftrightarrow>
     (\<forall>e\<in>set es. close_dist lower maxDist e \<longrightarrow> n_dist st \<le> int (levenshtein lower e)) \<and>
     n_ties st = length (filter (\<lambda>e. int (levenshtein lower e) = n_dist st) (filter (close_dist lower maxDist) es)) \<and>
     (if n_dist st \<le> maxDist then n_best st \<in> set es \<and> int (levenshtein lower (n_best st)) = n_dist st
      else n_dist st = maxDist + 1)"

lemma near_inv_step:
  assumes "near_inv lower maxDist es st"
  shows "near_inv lower maxDist (es @ [e]) (nearest_loop lower maxDist [e] st)"
proof -
  have filt: "int (absLenDiff lower e) > maxDist \<Longrightarrow> \<not> close_dist lower maxDist e"
    using levenshtein_absLenDiff [of lower e] by (simp add: close_dist_def)
  have none: "x \<in> set es \<Longrightarrow> close_dist lower maxDist x \<Longrightarrow> int (levenshtein lower e) < n_dist st \<Longrightarrow>
      levenshtein lower x \<noteq> levenshtein lower e" for x
    using assms by (auto simp: near_inv_def)
  consider "\<not> close_dist lower maxDist e" | "close_dist lower maxDist e" "int (levenshtein lower e) < n_dist st"
    | "close_dist lower maxDist e" "int (levenshtein lower e) = n_dist st"
    | "close_dist lower maxDist e" "int (levenshtein lower e) > n_dist st" by linarith
  then show ?thesis
  proof cases
    case 1
    then have "nearest_loop lower maxDist [e] st = st" by (simp add: close_dist_def Let_def)
    with 1 assms show ?thesis by (auto simp: near_inv_def)
  next
    case 2
    then have r: "nearest_loop lower maxDist [e] st = \<lparr>n_best = e, n_dist = int (levenshtein lower e), n_ties = 1\<rparr>"
      using filt by (auto simp: close_dist_def Let_def)
    have "filter (\<lambda>x. levenshtein lower x = levenshtein lower e) (filter (close_dist lower maxDist) es) = []"
      using none 2 by (auto simp: filter_empty_conv)
    with 2 assms show ?thesis unfolding r near_inv_def
      by (auto simp: close_dist_def)
  next
    case 3
    then have r: "nearest_loop lower maxDist [e] st = st\<lparr>n_ties := Suc (n_ties st)\<rparr>"
      using filt by (auto simp: close_dist_def Let_def)
    from 3 assms show ?thesis unfolding r near_inv_def by (auto simp: close_dist_def)
  next
    case 4
    then have "nearest_loop lower maxDist [e] st = st" using filt by (auto simp: close_dist_def Let_def)
    with 4 assms show ?thesis by (auto simp: near_inv_def close_dist_def)
  qed
qed

lemma nearest_loop_append:
  "nearest_loop lower maxDist (xs @ ys) st = nearest_loop lower maxDist ys (nearest_loop lower maxDist xs st)"
  by (induction xs arbitrary: st) (auto simp: Let_def)

lemma nearest_loop_inv:
  "near_inv lower maxDist es (nearest_loop lower maxDist es \<lparr>n_best = [], n_dist = maxDist + 1, n_ties = 0\<rparr>)"
proof (induction es rule: rev_induct)
  case Nil
  show ?case by (simp add: near_inv_def)
next
  case (snoc e es)
  then show ?case unfolding nearest_loop_append by (rule near_inv_step)
qed

text \<open>\<open>sole_nearest\<close>: within reach, and every other entry is strictly further away.\<close>

definition sole_nearest :: "string \<Rightarrow> int \<Rightarrow> string list \<Rightarrow> string \<Rightarrow> bool" where
  "sole_nearest lower maxDist entries e \<longleftrightarrow>
     e \<in> set entries \<and> int (levenshtein lower e) \<le> maxDist \<and>
     (\<forall>e'\<in>set entries. e' \<noteq> e \<longrightarrow> levenshtein lower e < levenshtein lower e')"

lemma near_inv_sole:
  assumes inv: "near_inv lower maxDist es st" and d: "distinct es"
  shows "(n_dist st \<le> maxDist \<and> n_ties st = 1 \<and> n_best st = e) \<longleftrightarrow> sole_nearest lower maxDist es e"
proof
  assume a: "n_dist st \<le> maxDist \<and> n_ties st = 1 \<and> n_best st = e"
  let ?F = "filter (\<lambda>x. int (levenshtein lower x) = n_dist st) (filter (close_dist lower maxDist) es)"
  from a inv have e: "e \<in> set es" "int (levenshtein lower e) = n_dist st" by (auto simp: near_inv_def)
  from a inv have "length ?F = 1" by (simp add: near_inv_def)
  then obtain f where f: "?F = [f]" by (cases ?F) (auto simp del: filter_filter)
  have sF: "set ?F = {f}" unfolding f by simp
  have "e \<in> set ?F" using e a by (simp add: close_dist_def)
  then have only: "x \<in> set ?F \<Longrightarrow> x = e" for x unfolding sF by simp
  have "levenshtein lower e < levenshtein lower x" if x: "x \<in> set es" "x \<noteq> e" for x
  proof (cases "close_dist lower maxDist x")
    case True
    with inv x have "n_dist st \<le> int (levenshtein lower x)" by (simp add: near_inv_def)
    moreover have "int (levenshtein lower x) \<noteq> n_dist st" using only x True by auto
    ultimately show ?thesis using e by simp
  next
    case False
    with a e show ?thesis by (simp add: close_dist_def)
  qed
  with a e show "sole_nearest lower maxDist es e" by (simp add: sole_nearest_def)
next
  assume s: "sole_nearest lower maxDist es e"
  then have e: "e \<in> set es" "close_dist lower maxDist e" by (simp_all add: sole_nearest_def close_dist_def)
  with inv have le: "n_dist st \<le> int (levenshtein lower e)" by (simp add: near_inv_def)
  then have dm: "n_dist st \<le> maxDist" using e by (simp add: close_dist_def)
  with inv have b: "n_best st \<in> set es" "int (levenshtein lower (n_best st)) = n_dist st"
    by (simp_all add: near_inv_def)
  have be: "n_best st = e" using s b le by (auto simp: sole_nearest_def)
  have "filter (\<lambda>x. int (levenshtein lower x) = n_dist st) (filter (close_dist lower maxDist) es) = filter ((=) e) es"
    using s b be e by (auto simp: sole_nearest_def intro!: filter_cong)
  then have "n_ties st = 1" using inv d e(1) by (simp add: near_inv_def distinct_length_filter)
  with dm be show "n_dist st \<le> maxDist \<and> n_ties st = 1 \<and> n_best st = e" by simp
qed

text \<open>The guards of \<open>correctTerm\<close> on the term itself.\<close>

definition eligible :: "unidata \<Rightarrow> (string, bool) gomap \<Rightarrow> string \<Rightarrow> int \<Rightarrow> bool" where
  "eligible U dict t maxDist \<longleftrightarrow> 0 < maxDist \<and> wordy U t \<and>
     minCorrectionLen \<le> length (runes (to_lower U t)) \<and> \<not> gm_get False dict (to_lower U t)"

lemma correctTerm_cases:
  assumes "distinct entries"
  shows "correctTerm U entries dict t k = (e, True) \<longleftrightarrow>
      eligible U dict t k \<and> sole_nearest (to_lower U t) k entries e"
    and "correctTerm U entries dict t k = (e, False) \<longleftrightarrow>
      e = t \<and> (eligible U dict t k \<longrightarrow> (\<forall>e. \<not> sole_nearest (to_lower U t) k entries e))"
proof -
  define st where "st = nearest_loop (to_lower U t) k entries \<lparr>n_best = [], n_dist = k + 1, n_ties = 0\<rparr>"
  have s: "(n_dist st \<le> k \<and> n_ties st = 1 \<and> n_best st = e) \<longleftrightarrow> sole_nearest (to_lower U t) k entries e" for e
    unfolding st_def by (rule near_inv_sole [OF nearest_loop_inv assms])
  have c: "correctTerm U entries dict t k =
      (if eligible U dict t k \<and> n_dist st \<le> k \<and> n_ties st = 1 then (n_best st, True) else (t, False))"
    by (auto simp: correctTerm_def eligible_def Let_def st_def not_le)
  show "correctTerm U entries dict t k = (e, True) \<longleftrightarrow>
      eligible U dict t k \<and> sole_nearest (to_lower U t) k entries e" for e
    unfolding c s [symmetric] by auto
  show "correctTerm U entries dict t k = (e, False) \<longleftrightarrow>
      e = t \<and> (eligible U dict t k \<longrightarrow> (\<forall>e. \<not> sole_nearest (to_lower U t) k entries e))" for e
    unfolding c s [symmetric] by auto
qed

text \<open>
  a term is corrected exactly when it is long enough, has a letter or digit, is not in the
  lexicon and some entry within \<open>maxDist\<close> is strictly nearer than every other entry. Other entries
  may lie within \<open>maxDist\<close> as well, which the comment of the function rules out.
\<close>

theorem correctTerm_nearest:
  assumes "distinct entries"
  shows "(correctTerm U entries dict t k = (e, True) \<longleftrightarrow>
            eligible U dict t k \<and> sole_nearest (to_lower U t) k entries e)
    \<and> (snd (correctTerm U entries dict t k) \<or> correctTerm U entries dict t k = (t, False))"
proof
  show "correctTerm U entries dict t k = (e, True) \<longleftrightarrow>
      eligible U dict t k \<and> sole_nearest (to_lower U t) k entries e" by (rule correctTerm_cases [OF assms])
  show "snd (correctTerm U entries dict t k) \<or> correctTerm U entries dict t k = (t, False)"
    by (auto simp: correctTerm_def Let_def)
qed

theorem correctTerm_nearest_witness:
  "correctTerm ascii_tables [''serve'', ''swerved''] [] ''served'' 2 = (''serve'', True) \<longleftrightarrow>
     eligible ascii_tables [] ''served'' 2 \<and> sole_nearest (to_lower ascii_tables ''served'') 2 [''serve'', ''swerved''] ''serve''"
proof -
  have "distinct [''serve'', ''swerved'']" by simp
  from correctTerm_nearest [OF this, of ascii_tables "[]" "''served''" 2 "''serve''"] show ?thesis by blast
qed

section \<open>The correction pass\<close>

lemma build_lexicon_inv:
  assumes "distinct entries" "\<And>e. gm_get False dict e \<longleftrightarrow> e \<in> set entries"
    and "build_lexicon U lexicon dict entries = (dict', entries')"
  shows "distinct entries' \<and> (\<forall>e. gm_get False dict' e \<longleftrightarrow> e \<in> set entries') \<and>
    set entries' = set entries \<union> (to_lower U ` set lexicon - {[]})"
  using assms
proof (induction U lexicon dict entries rule: build_lexicon.induct)
  case (2 U e0 lexicon dict entries)
  show ?case
  proof (cases "to_lower U e0 = [] \<or> gm_get False dict (to_lower U e0)")
    case True
    with 2(3-) 2(1) [OF refl True] show ?thesis by (auto simp: Let_def)
  next
    case False
    have "build_lexicon U lexicon (gm_put (to_lower U e0) True dict) (entries @ [to_lower U e0]) = (dict', entries')"
      using 2(5) False by (simp add: Let_def)
    with 2(2) [OF refl False] 2(3,4) False show ?thesis by auto
  qed
qed auto

lemma correct_loop_spec:
  "fst (correct_loop U entries dict k ts) = map (\<lambda>t. fst (correctTerm U entries dict t k)) ts"
  "snd (correct_loop U entries dict k ts) =
     map (\<lambda>t. \<lparr>k_Original = t, k_Corrected = fst (correctTerm U entries dict t k)\<rparr>)
       (filter (\<lambda>t. snd (correctTerm U entries dict t k)) ts)"
  by (induction ts) (auto simp: case_prod_beta Let_def)

definition lexicon_words :: "unidata \<Rightarrow> string list \<Rightarrow> string set" where
  "lexicon_words U lexicon = to_lower U ` set lexicon - {[]}"

text \<open>The correction of one term against the words of the lexicon.\<close>

definition corrects_to :: "unidata \<Rightarrow> string list \<Rightarrow> int \<Rightarrow> string \<Rightarrow> string \<Rightarrow> bool" where
  "corrects_to U lexicon k t e \<longleftrightarrow>
     0 < k \<and> wordy U t \<and> minCorrectionLen \<le> length (runes (to_lower U t)) \<and>
     to_lower U t \<notin> lexicon_words U lexicon \<and> e \<in> lexicon_words U lexicon \<and>
     int (levenshtein (to_lower U t) e) \<le> k \<and>
     (\<forall>e'\<in>lexicon_words U lexicon. e' \<noteq> e \<longrightarrow> levenshtein (to_lower U t) e < levenshtein (to_lower U t) e')"

text \<open>
  \<open>CorrectTerms\<close> keeps length and order, leaves a term alone or replaces it by the lexicon word
  it corrects to, and reports exactly the replaced terms, in order.
\<close>

theorem CorrectTerms_spec:
  "\<exists>f. fst (CorrectTerms U lexicon terms k) = map f terms
     \<and> snd (CorrectTerms U lexicon terms k) =
         map (\<lambda>t. \<lparr>k_Original = t, k_Corrected = f t\<rparr>) (filter (\<lambda>t. \<exists>e. corrects_to U lexicon k t e) terms)
     \<and> (\<forall>t. if \<exists>e. corrects_to U lexicon k t e then corrects_to U lexicon k t (f t) else f t = t)"
proof -
  define m where "m = (if k < 0 then 0 else k)"
  obtain dict entries where b: "build_lexicon U lexicon [] [] = (dict, entries)" by fastforce
  have lex: "distinct entries" "\<And>e. gm_get False dict e \<longleftrightarrow> e \<in> set entries" "set entries = lexicon_words U lexicon"
    using build_lexicon_inv [OF _ _ b] by (auto simp: lexicon_words_def)
  define f where "f t = fst (correctTerm U entries dict t m)" for t
  have hit: "correctTerm U entries dict t m = (e, True) \<longleftrightarrow> corrects_to U lexicon k t e" for t e
    unfolding correctTerm_cases(1) [OF lex(1)] eligible_def sole_nearest_def corrects_to_def lex(2,3) m_def
    by auto
  have fixed: "snd (correctTerm U entries dict t m) \<longleftrightarrow> (\<exists>e. corrects_to U lexicon k t e)" for t
    unfolding hit [symmetric] by (cases "correctTerm U entries dict t m") auto
  have val: "if \<exists>e. corrects_to U lexicon k t e then corrects_to U lexicon k t (f t) else f t = t" for t
    using fixed [of t] hit [of t "f t"] correctTerm_cases(2) [OF lex(1), of U dict t m "f t"]
    unfolding f_def by (cases "correctTerm U entries dict t m") auto
  have c: "CorrectTerms U lexicon terms k = correct_loop U entries dict m terms"
    by (simp add: CorrectTerms_def b m_def)
  show ?thesis
    by (rule exI [of _ f]) (simp add: c correct_loop_spec fixed f_def [symmetric] val)
qed

end
