(* ===== verification/Chunk.thy ===== *)
theory Chunk
  imports GoStrings
begin

text \<open>
  Package \<^verbatim>\<open>chunk\<close> (src/chunk/chunk.go): split a rendered tool response into sections no larger
  than a byte limit. Byte offsets are natural numbers; a scanner that reports \<^verbatim>\<open>ok = false\<close> is
  \<open>None\<close>; a loop that would not end (a limit of 0 in \<open>splitFixed\<close>) is \<open>None\<close> as well.
\<close>

section \<open>Sections, titles\<close>

record section_t =
  s_Title :: string
  s_Content :: string

definition MinChunk :: nat where "MinChunk = 512"
definition readBackHeaderRoom :: int where "readBackHeaderRoom = 128"


definition isIndented :: "string \<Rightarrow> bool" where
  "isIndented line \<longleftrightarrow> has_prefix line '' '' \<or> has_prefix line [CHR 0x09]"

text \<open>The loop of \<open>truncateBytes\<close>: drop bytes until the last rune is whole.\<close>

function drop_partial :: "string \<Rightarrow> string" where
  "drop_partial piece =
     (if piece = [] then piece
      else let (r, size) = decode_last_rune piece in
        if r \<noteq> rune_error \<or> size > 1 then piece else drop_partial (butlast piece))"
  by pat_completeness auto
termination
  by (relation "measure length") auto

declare drop_partial.simps [simp del]

definition truncateBytes :: "string \<Rightarrow> nat \<Rightarrow> string" where
  "truncateBytes s limit = (if length s \<le> limit then s else drop_partial (take limit s))"

definition sectionTitle :: "string \<Rightarrow> string" where
  "sectionTitle line =
     (let title0 = trim_space line;
          title = (if length title0 > 80 then truncateBytes title0 80 else title0)
      in if title = [] then ''part'' else title)"

section \<open>TOON and text\<close>

text \<open>The regular expression \<^verbatim>\<open>^[A-Za-z_][A-Za-z0-9_.]*(\[\d+\])?:\<close> of \<^verbatim>\<open>toonKeyRe\<close>.\<close>

definition re_head :: "char \<Rightarrow> bool" where
  "re_head c \<longleftrightarrow> ascii_letter (byte c) \<or> c = CHR ''_''"

definition re_body :: "char \<Rightarrow> bool" where
  "re_body c \<longleftrightarrow> re_head c \<or> ascii_digit (byte c) \<or> c = CHR ''.''"

definition re_index :: "string \<Rightarrow> string" where
  "re_index s = (case s of
     [] \<Rightarrow> s
   | c # t \<Rightarrow>
       if c = CHR ''['' then
         (let ds = takeWhile (\<lambda>d. ascii_digit (byte d)) t; r = dropWhile (\<lambda>d. ascii_digit (byte d)) t in
          if ds \<noteq> [] \<and> has_prefix r '']'' then drop 1 r else s)
       else s)"

definition toonKeyRe :: "string \<Rightarrow> bool" where
  "toonKeyRe line = (case line of
     [] \<Rightarrow> False
   | c # t \<Rightarrow> re_head c \<and> has_prefix (re_index (dropWhile re_body t)) '':'')"

record toon_state =
  t_sections :: "section_t list"
  t_cur :: string
  t_title :: string
  t_prevBlank :: bool
  t_started :: bool

definition toon_flush :: "toon_state \<Rightarrow> toon_state" where
  "toon_flush st = (if t_cur st = [] then st
     else st\<lparr>t_sections := t_sections st @ [\<lparr>s_Title = t_title st, s_Content = t_cur st\<rparr>], t_cur := []\<rparr>)"

definition toon_line :: "toon_state \<Rightarrow> string \<Rightarrow> toon_state" where
  "toon_line st line =
     (let blank = (trim_space line = []);
          st1 = (if t_started st \<and> \<not> blank \<and>
                    (toonKeyRe line \<or> (t_prevBlank st \<and> \<not> isIndented line))
                 then (toon_flush st)\<lparr>t_title := sectionTitle line\<rparr>
                 else if \<not> t_started st
                 then st\<lparr>t_started := True, t_title := sectionTitle line\<rparr>
                 else st)
      in st1\<lparr>t_cur := t_cur st1 @ line, t_prevBlank := blank\<rparr>)"

definition splitTOONOrText :: "string \<Rightarrow> section_t list" where
  "splitTOONOrText s = t_sections (toon_flush (foldl toon_line
     \<lparr>t_sections = [], t_cur = [], t_title = [], t_prevBlank = False, t_started = False\<rparr>
     (split_after nl s)))"

section \<open>Fixed chunks\<close>

definition part_section :: "section_t list \<Rightarrow> string \<Rightarrow> section_t" where
  "part_section sections content = \<lparr>s_Title = ''part-'' @ itoa (int (length sections)), s_Content = content\<rparr>"

definition fixed_flush :: "section_t list \<Rightarrow> string \<Rightarrow> section_t list" where
  "fixed_flush sections cur = (if cur = [] then sections else sections @ [part_section sections cur])"

text \<open>The inner loop for a long line: flush, piece at the limit or after the last newline before it.\<close>

definition cut_line :: "nat \<Rightarrow> string \<Rightarrow> string" where
  "cut_line limit line =
     (let piece = take limit line in
      case str_last_index piece [nl] of
        None \<Rightarrow> piece
      | Some i \<Rightarrow> if i > 0 then take (i + 1) piece else piece)"

function long_line :: "nat \<Rightarrow> section_t list \<Rightarrow> string \<Rightarrow> string \<Rightarrow> (section_t list \<times> string \<times> string) option" where
  "long_line limit sections cur line =
     (if length line > limit then
        (let sections1 = fixed_flush sections cur; piece = cut_line limit line in
         if piece = [] then None
         else long_line limit (sections1 @ [part_section sections1 piece]) [] (drop (length piece) line))
      else Some (sections, cur, line))"
  by pat_completeness auto
termination
  by (relation "measure (\<lambda>(limit, sections, cur, line). length line)")
    (auto intro!: diff_less simp: length_greater_0_conv [symmetric] simp del: length_greater_0_conv)

declare long_line.simps [simp del]

fun fixed_loop :: "nat \<Rightarrow> section_t list \<Rightarrow> string \<Rightarrow> string list \<Rightarrow> section_t list option" where
  "fixed_loop limit sections cur [] = Some (fixed_flush sections cur)"
| "fixed_loop limit sections cur (line0 # lines) =
     (case long_line limit sections cur line0 of
        None \<Rightarrow> None
      | Some (sections1, cur1, line) \<Rightarrow>
          (if length cur1 > 0 \<and> length cur1 + length line > limit
           then fixed_loop limit (fixed_flush sections1 cur1) line lines
           else fixed_loop limit sections1 (cur1 @ line) lines))"

definition splitFixed :: "string \<Rightarrow> nat \<Rightarrow> section_t list option" where
  "splitFixed s limit = fixed_loop limit [] [] (split_after nl s)"

section \<open>Merging small sections\<close>

text \<open>
  One pass over the slice. \<^verbatim>\<open>out := sections[:0]\<close> reuses the array, but writes at positions the
  loop has read already; the assignment to \<^verbatim>\<open>sections[i+1]\<close> is the list passed on.
\<close>

fun merge_pass :: "nat \<Rightarrow> section_t list \<Rightarrow> section_t list" where
  "merge_pass limit [] = []"
| "merge_pass limit [cur] = [cur]"
| "merge_pass limit (cur # nxt # rest) =
     (if length (s_Content cur) < MinChunk \<and> length (s_Content cur) + length (s_Content nxt) \<le> limit
      then merge_pass limit (\<lparr>s_Title = s_Title nxt, s_Content = s_Content cur @ s_Content nxt\<rparr> # rest)
      else cur # merge_pass limit (nxt # rest))"

fun pass_merges :: "nat \<Rightarrow> section_t list \<Rightarrow> bool" where
  "pass_merges limit (cur # nxt # rest) =
     ((length (s_Content cur) < MinChunk \<and> length (s_Content cur) + length (s_Content nxt) \<le> limit)
      \<or> pass_merges limit (nxt # rest))"
| "pass_merges limit _ = False"

lemma merge_pass_length: "length (merge_pass limit xs) \<le> length xs"
  by (induction limit xs rule: merge_pass.induct) auto

lemma merge_pass_shrinks: "pass_merges limit xs \<Longrightarrow> length (merge_pass limit xs) < length xs"
proof (induction limit xs rule: merge_pass.induct)
  case (3 limit cur nxt rest)
  let ?m = "\<lparr>s_Title = s_Title nxt, s_Content = s_Content cur @ s_Content nxt\<rparr>"
  show ?case using 3 merge_pass_length [of limit "?m # rest"] by (auto simp: le_imp_less_Suc)
qed auto

function mergeSmall :: "section_t list \<Rightarrow> nat \<Rightarrow> section_t list" where
  "mergeSmall sections limit =
     (if pass_merges limit sections then mergeSmall (merge_pass limit sections) limit
      else merge_pass limit sections)"
  by pat_completeness auto
termination
  by (relation "measure (\<lambda>(sections, limit). length sections)") (auto simp: merge_pass_shrinks)

declare mergeSmall.simps [simp del]

section \<open>JSON\<close>

function skipJSONWS :: "string \<Rightarrow> nat \<Rightarrow> nat" where
  "skipJSONWS s i =
     (if i < length s then
        (if s ! i \<in> {CHR '' '', CHR 0x09, CHR 0x0D, CHR 0x0A} then skipJSONWS s (Suc i) else i)
      else i)"
  by pat_completeness auto
termination
  by (relation "measure (\<lambda>(s, i). length s - i)") auto

definition hex_value :: "char \<Rightarrow> nat option" where
  "hex_value c = (let b = byte c in
     if 48 \<le> b \<and> b \<le> 57 then Some (b - 48)
     else if 97 \<le> b \<and> b \<le> 102 then Some (b - 87)
     else if 65 \<le> b \<and> b \<le> 70 then Some (b - 55) else None)"

definition decodeUnicodeEscape :: "string \<Rightarrow> nat \<Rightarrow> (nat \<times> nat) option" where
  "decodeUnicodeEscape s i =
     (if i + 4 > length s then None
      else case (hex_value (s ! i), hex_value (s ! (i + 1)), hex_value (s ! (i + 2)), hex_value (s ! (i + 3))) of
        (Some a, Some b, Some c, Some d) \<Rightarrow> Some (((a * 16 + b) * 16 + c) * 16 + d, i + 4)
      | _ \<Rightarrow> None)"

text \<open>The simple escapes, by the byte after the backslash.\<close>

definition simple_escape :: "char \<Rightarrow> char option" where
  "simple_escape esc =
     (if esc \<in> {CHR 0x22, CHR 0x5C, CHR ''/''} then Some esc
      else if esc = CHR ''n'' then Some (CHR 0x0A)
      else if esc = CHR ''t'' then Some (CHR 0x09)
      else if esc = CHR ''r'' then Some (CHR 0x0D)
      else if esc = CHR ''b'' then Some (CHR 0x08)
      else if esc = CHR ''f'' then Some (CHR 0x0C) else None)"

text \<open>
  One round of the loop of \<open>scanJSONString\<close> at a byte other than the closing quote: the bytes it
  writes and the next index.
\<close>

definition json_step :: "string \<Rightarrow> nat \<Rightarrow> (string \<times> nat) option" where
  "json_step s i =
     (if s ! i = CHR 0x5C then
        (if i + 1 \<ge> length s then None
         else case simple_escape (s ! (i + 1)) of
           Some e \<Rightarrow> Some ([e], i + 2)
         | None \<Rightarrow>
             if s ! (i + 1) = CHR ''u''
             then map_option (\<lambda>(r, next). (encode_rune r, next)) (decodeUnicodeEscape s (i + 2))
             else None)
      else Some ([s ! i], i + 1))"

lemma json_step_gt: "json_step s i = Some (t, j) \<Longrightarrow> i < j"
  by (auto simp: json_step_def decodeUnicodeEscape_def split: if_splits option.splits)

text \<open>The loop, after the opening quote; \<open>b\<close> is what has been decoded.\<close>

function json_string_body :: "string \<Rightarrow> nat \<Rightarrow> string \<Rightarrow> (string \<times> nat) option" where
  "json_string_body s i b =
     (if i < length s then
        (if s ! i = CHR 0x22 then Some (b, i + 1)
         else if json_step s i = None then None
         else json_string_body s (snd (the (json_step s i))) (b @ fst (the (json_step s i))))
      else None)"
  by pat_completeness auto
termination
proof (relation "measure (\<lambda>(s, i, b). length s - i)")
  fix s :: string and i :: nat and b :: string
  assume "i < length s" "json_step s i \<noteq> None"
  moreover from this obtain t j where "json_step s i = Some (t, j)" by auto
  ultimately show "((s, snd (the (json_step s i)), b @ fst (the (json_step s i))), s, i, b)
      \<in> measure (\<lambda>(s, i, b). length s - i)"
    using json_step_gt by fastforce
qed auto

declare skipJSONWS.simps [simp del] json_string_body.simps [simp del]

definition scanJSONString :: "string \<Rightarrow> nat \<Rightarrow> (string \<times> nat) option" where
  "scanJSONString s i =
     (if i \<ge> length s \<or> s ! i \<noteq> CHR 0x22 then None else json_string_body s (i + 1) [])"

lemma json_string_body_gt: "json_string_body s i b = Some (t, j) \<Longrightarrow> i < j \<and> j \<le> length s"
proof (induction s i b rule: json_string_body.induct)
  case (1 s i b)
  show ?case
  proof (cases "i < length s \<and> s ! i \<noteq> CHR 0x22 \<and> json_step s i \<noteq> None")
    case True
    then obtain u k where k: "json_step s i = Some (u, k)" by auto
    with True "1.prems" have "json_string_body s k (b @ u) = Some (t, j)"
      by (subst (asm) json_string_body.simps) auto
    with "1.IH" True k json_step_gt [OF k] show ?thesis by fastforce
  next
    case False
    with "1.prems" show ?thesis
      by (subst (asm) json_string_body.simps) (auto split: if_splits)
  qed
qed

lemma scanJSONString_gt: "scanJSONString s i = Some (t, j) \<Longrightarrow> i < j \<and> j \<le> length s"
  by (auto simp: scanJSONString_def split: if_splits dest!: json_string_body_gt)

function scanJSONDelimited :: "string \<Rightarrow> nat \<Rightarrow> int \<Rightarrow> nat option" where
  "scanJSONDelimited s i depth =
     (if i < length s then
        (if s ! i = CHR 0x22 then
           (if scanJSONString s i = None then None
            else scanJSONDelimited s (snd (the (scanJSONString s i))) depth)
         else if s ! i \<in> {CHR ''{'', CHR ''[''} then scanJSONDelimited s (i + 1) (depth + 1)
         else if s ! i \<in> {CHR ''}'', CHR '']''} then
           (if depth - 1 = 0 then Some (i + 1) else scanJSONDelimited s (i + 1) (depth - 1))
         else scanJSONDelimited s (i + 1) depth)
      else None)"
  by pat_completeness auto
termination
proof (relation "measure (\<lambda>(s, i, depth). length s - i)")
  fix s :: string and i :: nat and depth :: int
  assume "i < length s" and n: "scanJSONString s i \<noteq> None"
  moreover from n obtain t j where "scanJSONString s i = Some (t, j)" by auto
  ultimately show "((s, snd (the (scanJSONString s i)), depth), s, i, depth) \<in> measure (\<lambda>(s, i, depth). length s - i)"
    using scanJSONString_gt by fastforce
qed auto

definition json_scalar_end :: "char \<Rightarrow> bool" where
  "json_scalar_end c \<longleftrightarrow> c \<in> {CHR '','', CHR ''}'', CHR '']'', CHR '' '', CHR 0x09, CHR 0x0D, CHR 0x0A}"

function scalar_loop :: "string \<Rightarrow> nat \<Rightarrow> nat" where
  "scalar_loop s i = (if i < length s \<and> \<not> json_scalar_end (s ! i) then scalar_loop s (Suc i) else i)"
  by pat_completeness auto
termination
  by (relation "measure (\<lambda>(s, i). length s - i)") auto

declare scanJSONDelimited.simps [simp del] scalar_loop.simps [simp del]

definition scanJSONScalar :: "string \<Rightarrow> nat \<Rightarrow> nat option" where
  "scanJSONScalar s i = (let j = scalar_loop s i in if j = i then None else Some j)"

definition scanJSONValue :: "string \<Rightarrow> nat \<Rightarrow> nat option" where
  "scanJSONValue s i0 =
     (let i = skipJSONWS s i0 in
      if i \<ge> length s then None
      else if s ! i = CHR 0x22 then map_option snd (scanJSONString s i)
      else if s ! i \<in> {CHR ''{'', CHR ''[''} then scanJSONDelimited s i 0
      else scanJSONScalar s i)"

text \<open>Every scanner makes progress and stays inside the string.\<close>

lemma skipJSONWS_ge: "i \<le> skipJSONWS s i"
proof (induction s i rule: skipJSONWS.induct)
  case (1 s i)
  then show ?case by (subst skipJSONWS.simps) (auto dest: Suc_leD)
qed

lemma scalar_loop_ge: "i \<le> scalar_loop s i"
proof (induction s i rule: scalar_loop.induct)
  case (1 s i)
  then show ?case by (subst scalar_loop.simps) (auto dest: Suc_leD)
qed

lemma scanJSONDelimited_gt: "scanJSONDelimited s i d = Some j \<Longrightarrow> i < j"
proof (induction "length s - i" arbitrary: i d rule: less_induct)
  case less
  then have i: "i < length s" by (subst (asm) (2) scanJSONDelimited.simps) (auto split: if_splits)
  show ?case
  proof (cases "s ! i = CHR 0x22")
    case True
    with less.prems i have n: "scanJSONString s i \<noteq> None"
      by (subst (asm) scanJSONDelimited.simps) (auto split: if_splits)
    then obtain t k where k: "scanJSONString s i = Some (t, k)" by auto
    with less.prems True i have "scanJSONDelimited s k d = Some j"
      by (subst (asm) scanJSONDelimited.simps) auto
    with less.hyps [of k d] i scanJSONString_gt [OF k] show ?thesis by fastforce
  next
    case False
    with less.prems i have "j = Suc i \<or> (\<exists>d'. scanJSONDelimited s (Suc i) d' = Some j)"
      by (subst (asm) scanJSONDelimited.simps) (auto split: if_splits)
    with less.hyps [of "Suc i"] i show ?thesis by fastforce
  qed
qed

lemma scanJSONValue_gt: "scanJSONValue s i = Some j \<Longrightarrow> i < j"
  using skipJSONWS_ge [of i s] scalar_loop_ge [of "skipJSONWS s i" s]
  by (auto simp: scanJSONValue_def scanJSONScalar_def Let_def split: if_splits
      dest!: scanJSONDelimited_gt scanJSONString_gt)

record json_member =
  m_name :: string
  m_offset :: nat

text \<open>One member: the key at \<open>i\<close>, the colon, the value and an optional comma.\<close>

definition scan_member :: "string \<Rightarrow> nat \<Rightarrow> (json_member \<times> nat) option" where
  "scan_member s start =
     (if s ! start \<noteq> CHR 0x22 then None
      else case scanJSONString s start of
        None \<Rightarrow> None
      | Some (name, nxt) \<Rightarrow>
          (let i = skipJSONWS s nxt in
           if i \<ge> length s \<or> s ! i \<noteq> CHR '':'' then None
           else case scanJSONValue s (i + 1) of
             None \<Rightarrow> None
           | Some vEnd \<Rightarrow>
               (let k = skipJSONWS s vEnd;
                    k' = (if k < length s \<and> s ! k = CHR '','' then skipJSONWS s (k + 1) else k)
                in Some (\<lparr>m_name = name, m_offset = start\<rparr>, k'))))"

lemma scan_member_gt: "scan_member s i = Some (m, k) \<Longrightarrow> i < k"
proof -
  assume "scan_member s i = Some (m, k)"
  then obtain name nxt vEnd where "scanJSONString s i = Some (name, nxt)"
    "scanJSONValue s (skipJSONWS s nxt + 1) = Some vEnd"
    "k = skipJSONWS s vEnd \<or> k = skipJSONWS s (skipJSONWS s vEnd + 1)"
    by (auto simp: scan_member_def Let_def split: if_splits option.splits)
  with scanJSONString_gt [of s i name nxt] skipJSONWS_ge [of nxt s] scanJSONValue_gt [of s _ vEnd]
    skipJSONWS_ge [of vEnd s] skipJSONWS_ge [of "skipJSONWS s vEnd + 1" s]
  show ?thesis by fastforce
qed

text \<open>The loop of \<open>topLevelJSONKeys\<close>.\<close>

function top_keys :: "string \<Rightarrow> nat \<Rightarrow> json_member list \<Rightarrow> json_member list option" where
  "top_keys s i members =
     (if i \<ge> length s then None
      else if s ! i = CHR ''}'' then Some members
      else if scan_member s i = None then None
      else top_keys s (snd (the (scan_member s i))) (members @ [fst (the (scan_member s i))]))"
  by pat_completeness auto
termination
proof (relation "measure (\<lambda>(s, i, members). length s - i)")
  fix s :: string and i :: nat and members :: "json_member list"
  assume "\<not> length s \<le> i" "scan_member s i \<noteq> None"
  moreover from this obtain m k where "scan_member s i = Some (m, k)" by auto
  ultimately show "((s, snd (the (scan_member s i)), members @ [fst (the (scan_member s i))]), s, i, members)
      \<in> measure (\<lambda>(s, i, members). length s - i)"
    using scan_member_gt by fastforce
qed auto

declare top_keys.simps [simp del]

definition topLevelJSONKeys :: "string \<Rightarrow> json_member list option" where
  "topLevelJSONKeys s =
     (let i = skipJSONWS s 0 in
      if i \<ge> length s \<or> s ! i \<noteq> CHR ''{'' then None
      else top_keys s (skipJSONWS s (i + 1)) [])"

text \<open>\<open>s[start:stop]\<close>\<close>

definition slice :: "string \<Rightarrow> nat \<Rightarrow> nat \<Rightarrow> string" where
  "slice s start stop = take (stop - start) (drop start s)"

fun member_sections :: "string \<Rightarrow> nat \<Rightarrow> json_member list \<Rightarrow> section_t list" where
  "member_sections s start [] = []"
| "member_sections s start [m] = [\<lparr>s_Title = m_name m, s_Content = slice s start (length s)\<rparr>]"
| "member_sections s start (m # m' # ms) =
     \<lparr>s_Title = m_name m, s_Content = slice s start (m_offset m')\<rparr> # member_sections s (m_offset m') (m' # ms)"

definition splitJSON :: "string \<Rightarrow> section_t list option" where
  "splitJSON s = (case topLevelJSONKeys s of
     None \<Rightarrow> None
   | Some members \<Rightarrow> if members = [] then None else Some (member_sections s 0 members))"

section \<open>RenderedSections\<close>

definition exceedsMax :: "section_t list \<Rightarrow> nat \<Rightarrow> bool" where
  "exceedsMax sections limit = list_ex (\<lambda>sec. length (s_Content sec) > limit) sections"

definition splitStructural :: "string \<Rightarrow> section_t list" where
  "splitStructural s = (case splitJSON s of Some sections \<Rightarrow> sections | None \<Rightarrow> splitTOONOrText s)"

text \<open>The cap after the header allowance: at least \<open>MinChunk\<close>.\<close>

definition effective_limit :: "int \<Rightarrow> nat" where
  "effective_limit limit =
     (let l = limit - readBackHeaderRoom in if l < int MinChunk then MinChunk else nat l)"

definition RenderedSections :: "string \<Rightarrow> int \<Rightarrow> section_t list option" where
  "RenderedSections s limit =
     (if s = [] then Some []
      else let l = effective_limit limit; sections = splitStructural s in
        map_option (\<lambda>secs. mergeSmall secs l)
          (if sections = [] \<or> exceedsMax sections l then splitFixed s l else Some sections))"

end
