(* ===== verification/Chunk_Proofs.thy ===== *)
theory Chunk_Proofs
  imports Chunk
begin

text \<open>
  Splitting is lossless, bounded and merged: the sections concatenate to the input, none is
  longer than the effective limit, and no further merge is possible. The JSON string scanner
  inverts quoting, and \<open>truncateBytes\<close> cuts at a rune boundary.
\<close>

section \<open>Contents\<close>

definition contents :: "section_t list \<Rightarrow> string" where
  "contents secs = concat (map s_Content secs)"

definition within :: "nat \<Rightarrow> section_t list \<Rightarrow> bool" where
  "within limit secs \<longleftrightarrow> (\<forall>sec\<in>set secs. length (s_Content sec) \<le> limit)"

lemma contents_simps [simp]:
  "contents [] = []" "contents (x # xs) = s_Content x @ contents xs"
  "contents (xs @ ys) = contents xs @ contents ys"
  by (simp_all add: contents_def)

lemma within_simps [simp]:
  "within l []" "within l (x # xs) \<longleftrightarrow> length (s_Content x) \<le> l \<and> within l xs"
  "within l (xs @ ys) \<longleftrightarrow> within l xs \<and> within l ys"
  by (auto simp: within_def)

subsection \<open>TOON and text\<close>

definition toon_read :: "toon_state \<Rightarrow> string" where
  "toon_read st = contents (t_sections st) @ t_cur st"

lemma toon_flush_read: "toon_read (toon_flush st) = toon_read st"
  by (simp add: toon_read_def toon_flush_def)

lemma toon_line_read: "toon_read (toon_line st line) = toon_read st @ line"
proof -
  have "toon_read (st1\<lparr>t_cur := t_cur st1 @ line, t_prevBlank := b\<rparr>) = toon_read st1 @ line" for st1 b
    by (simp add: toon_read_def)
  moreover have "toon_read ((toon_flush st)\<lparr>t_title := x\<rparr>) = toon_read st" for x
    using toon_flush_read [of st] by (simp add: toon_read_def)
  moreover have "toon_read (st\<lparr>t_started := True, t_title := x\<rparr>) = toon_read st" for x
    by (simp add: toon_read_def)
  ultimately show ?thesis by (simp add: toon_line_def Let_def)
qed

lemma toon_lines_read: "toon_read (foldl toon_line st lines) = toon_read st @ concat lines"
  by (induction lines arbitrary: st) (simp_all add: toon_line_read)

lemma contents_splitTOONOrText: "contents (splitTOONOrText s) = s"
proof -
  let ?st = "foldl toon_line \<lparr>t_sections = [], t_cur = [], t_title = [], t_prevBlank = False, t_started = False\<rparr>
     (split_after nl s)"
  have "toon_read ?st = s" by (simp add: toon_lines_read) (simp add: toon_read_def)
  then have "toon_read (toon_flush ?st) = s" by (simp add: toon_flush_read)
  moreover have "t_cur (toon_flush ?st) = []" by (simp add: toon_flush_def)
  ultimately show ?thesis by (simp add: splitTOONOrText_def toon_read_def)
qed

subsection \<open>Fixed chunks\<close>

lemma cut_line_prefix: "\<exists>k. cut_line limit line = take k line \<and> k \<le> limit"
proof (cases "str_last_index (take limit line) [nl]")
  case None
  then show ?thesis by (auto simp: cut_line_def)
next
  case (Some i)
  then show ?thesis
    by (auto simp: cut_line_def Let_def intro: exI [of _ limit] exI [of _ "min (Suc i) limit"])
qed

lemma cut_line_ne: "0 < limit \<Longrightarrow> line \<noteq> [] \<Longrightarrow> cut_line limit line \<noteq> []"
  by (auto simp: cut_line_def Let_def split: option.splits)

lemma cut_line_append: "cut_line limit line @ drop (length (cut_line limit line)) line = line"
  using cut_line_prefix [of limit line] by (auto simp: min_def)

lemma fixed_flush_facts:
  "contents (fixed_flush secs cur) = contents secs @ cur"
  "within l secs \<Longrightarrow> length cur \<le> l \<Longrightarrow> within l (fixed_flush secs cur)"
  by (auto simp: fixed_flush_def part_section_def)

lemma long_line_spec:
  assumes "0 < limit" "within limit secs" "length cur \<le> limit"
  shows "\<exists>secs' cur' line'. long_line limit secs cur line = Some (secs', cur', line') \<and>
    contents secs' @ cur' @ line' = contents secs @ cur @ line \<and>
    within limit secs' \<and> length cur' \<le> limit \<and> length line' \<le> limit"
  using assms
proof (induction "length line" arbitrary: secs cur line rule: less_induct)
  case less
  show ?case
  proof (cases "length line > limit")
    case True
    let ?p = "cut_line limit line"
    define secs1 where "secs1 = fixed_flush secs cur @ [part_section (fixed_flush secs cur) ?p]"
    have ne: "?p \<noteq> []" using True less.prems(1) by (intro cut_line_ne) auto
    have pl: "length ?p \<le> limit" using cut_line_prefix [of limit line] by auto
    have w: "within limit secs1"
      using less.prems pl by (simp add: secs1_def fixed_flush_facts part_section_def)
    have shorter: "length (drop (length ?p) line) < length line" using ne True by (auto intro!: diff_less)
    from less.hyps [OF shorter less.prems(1) w, of "[]"] obtain secs' cur' line' where r:
      "long_line limit secs1 [] (drop (length ?p) line) = Some (secs', cur', line')"
      "contents secs' @ cur' @ line' = contents secs1 @ drop (length ?p) line"
      "within limit secs'" "length cur' \<le> limit" "length line' \<le> limit" by auto
    have "contents secs1 @ drop (length ?p) line = contents secs @ cur @ line"
      using cut_line_append [of limit line] by (simp add: secs1_def fixed_flush_facts part_section_def)
    moreover have "long_line limit secs cur line = long_line limit secs1 [] (drop (length ?p) line)"
      using True ne by (subst long_line.simps) (simp add: Let_def secs1_def)
    ultimately show ?thesis using r by auto
  next
    case False
    with less.prems show ?thesis by (subst long_line.simps) auto
  qed
qed

lemma fixed_loop_spec:
  assumes "0 < limit" "within limit secs" "length cur \<le> limit"
  shows "\<exists>out. fixed_loop limit secs cur lines = Some out \<and>
    contents out = contents secs @ cur @ concat lines \<and> within limit out"
  using assms(2,3)
proof (induction lines arbitrary: secs cur)
  case Nil
  then show ?case by (simp add: fixed_flush_facts)
next
  case (Cons line0 lines)
  from long_line_spec [OF assms(1) Cons.prems, of line0] obtain secs' cur' line' where l:
    "long_line limit secs cur line0 = Some (secs', cur', line')"
    "contents secs' @ cur' @ line' = contents secs @ cur @ line0"
    "within limit secs'" "length cur' \<le> limit" "length line' \<le> limit" by blast
  show ?case
  proof (cases "length cur' > 0 \<and> length cur' + length line' > limit")
    case True
    have w: "within limit (fixed_flush secs' cur')" using l by (simp add: fixed_flush_facts)
    from Cons.IH [OF w l(5)] obtain out where
      "fixed_loop limit (fixed_flush secs' cur') line' lines = Some out"
      "contents out = contents (fixed_flush secs' cur') @ line' @ concat lines" "within limit out" by blast
    with True l(1,2) show ?thesis by (simp add: fixed_flush_facts)
  next
    case False
    then have "length (cur' @ line') \<le> limit" using l(5) by auto
    from Cons.IH [OF l(3) this] obtain out where
      "fixed_loop limit secs' (cur' @ line') lines = Some out"
      "contents out = contents secs' @ (cur' @ line') @ concat lines" "within limit out" by blast
    with False l(1,2) show ?thesis by auto
  qed
qed

lemma splitFixed_spec:
  "0 < limit \<Longrightarrow> \<exists>out. splitFixed s limit = Some out \<and> contents out = s \<and> within limit out"
  using fixed_loop_spec [of limit "[]" "[]" "split_after nl s"] by (simp add: splitFixed_def)

subsection \<open>Merging\<close>

lemma merge_pass_spec:
  "contents (merge_pass limit xs) = contents xs \<and> (within limit xs \<longrightarrow> within limit (merge_pass limit xs))"
  by (induction limit xs rule: merge_pass.induct) auto

lemma mergeSmall_spec:
  "contents (mergeSmall xs limit) = contents xs \<and> (within limit xs \<longrightarrow> within limit (mergeSmall xs limit))"
proof (induction xs limit rule: mergeSmall.induct)
  case (1 xs limit)
  then show ?case using merge_pass_spec [of limit xs]
    unfolding mergeSmall.simps [of xs limit] by auto
qed

lemma merge_pass_idle: "\<not> pass_merges limit xs \<Longrightarrow> merge_pass limit xs = xs"
  by (induction limit xs rule: merge_pass.induct) auto

lemma mergeSmall_done: "\<not> pass_merges limit (mergeSmall xs limit)"
proof (induction xs limit rule: mergeSmall.induct)
  case (1 xs limit)
  then show ?case by (subst mergeSmall.simps) (auto simp: merge_pass_idle)
qed

lemma pass_merges_nth:
  "Suc i < length xs \<Longrightarrow> length (s_Content (xs ! i)) < MinChunk \<Longrightarrow>
     length (s_Content (xs ! i)) + length (s_Content (xs ! Suc i)) \<le> limit \<Longrightarrow> pass_merges limit xs"
proof (induction limit xs arbitrary: i rule: pass_merges.induct)
  case (1 limit cur nxt rest)
  then show ?case by (cases i) auto
qed auto

subsection \<open>JSON members\<close>

definition offsets_ok :: "string \<Rightarrow> nat \<Rightarrow> json_member list \<Rightarrow> bool" where
  "offsets_ok s i ms \<longleftrightarrow> sorted_wrt (<) (map m_offset ms) \<and> (\<forall>m\<in>set ms. m_offset m < i \<and> m_offset m < length s)"

lemma scan_member_offset: "scan_member s i = Some (m, k) \<Longrightarrow> m_offset m = i"
  by (auto simp: scan_member_def Let_def split: if_splits option.splits)

lemma top_keys_offsets:
  "offsets_ok s i ms \<Longrightarrow> top_keys s i ms = Some out \<Longrightarrow> \<exists>j. offsets_ok s j out"
proof (induction s i ms rule: top_keys.induct)
  case (1 s i ms)
  show ?case
  proof (cases "i < length s \<and> s ! i \<noteq> CHR ''}'' \<and> scan_member s i \<noteq> None")
    case True
    then obtain m k where k: "scan_member s i = Some (m, k)" by auto
    have "offsets_ok s k (ms @ [m])"
      using "1.prems"(1) True scan_member_offset [OF k] scan_member_gt [OF k]
      by (auto simp: offsets_ok_def sorted_wrt_append)
    moreover have "top_keys s k (ms @ [m]) = Some out"
      using "1.prems"(2) True k by (subst (asm) top_keys.simps) auto
    ultimately show ?thesis using "1.IH" True k by auto
  next
    case False
    with "1.prems" show ?thesis by (subst (asm) top_keys.simps) (auto split: if_splits)
  qed
qed

lemma contents_member_sections:
  "ms \<noteq> [] \<Longrightarrow> sorted_wrt (<) (map m_offset ms) \<Longrightarrow> start \<le> m_offset (hd ms) \<Longrightarrow>
     contents (member_sections s start ms) = drop start s"
proof (induction s start ms rule: member_sections.induct)
  case (3 s start m m' ms)
  then have "start \<le> m_offset m'" by auto
  then have "slice s start (m_offset m') @ drop (m_offset m') s = drop start s"
    unfolding slice_def by (metis append_take_drop_id drop_drop le_add_diff_inverse2)
  with 3 show ?case by simp
qed (auto simp: slice_def)

lemma splitJSON_contents: assumes "splitJSON s = Some secs" shows "contents secs = s"
proof -
  from assms obtain ms where ms: "topLevelJSONKeys s = Some ms" "ms \<noteq> []" "secs = member_sections s 0 ms"
    by (auto simp: splitJSON_def split: option.splits if_splits)
  have "offsets_ok s k []" for k by (simp add: offsets_ok_def)
  moreover have "top_keys s (skipJSONWS s (skipJSONWS s 0 + 1)) [] = Some ms"
    using ms(1) by (simp add: topLevelJSONKeys_def Let_def split: if_splits)
  ultimately obtain j where "offsets_ok s j ms" using top_keys_offsets by blast
  with ms contents_member_sections [of ms 0 s] show ?thesis by (simp add: offsets_ok_def)
qed

section \<open>RenderedSections\<close>

lemma contents_splitStructural: "contents (splitStructural s) = s"
  by (auto simp: splitStructural_def splitJSON_contents contents_splitTOONOrText split: option.splits)

lemma not_exceedsMax: "\<not> exceedsMax secs l \<longleftrightarrow> within l secs"
  by (auto simp: exceedsMax_def within_def list_ex_iff not_less)

lemma effective_limit_pos: "MinChunk \<le> effective_limit limit"
  by (auto simp: effective_limit_def Let_def)

lemma RenderedSections_run:
  "\<exists>raw. RenderedSections s limit = Some (if s = [] then [] else mergeSmall raw (effective_limit limit)) \<and>
     contents raw = s \<and> within (effective_limit limit) raw"
proof (cases "s = []")
  case True
  then show ?thesis by (intro exI [of _ "[]"]) (simp add: RenderedSections_def)
next
  case False
  let ?l = "effective_limit limit"
  have l: "0 < ?l" using effective_limit_pos [of limit] by (simp add: MinChunk_def)
  show ?thesis
  proof (cases "splitStructural s = [] \<or> exceedsMax (splitStructural s) ?l")
    case True
    from splitFixed_spec [OF l, of s] obtain out where
      "splitFixed s ?l = Some out" "contents out = s" "within ?l out" by blast
    with True False show ?thesis by (auto simp: RenderedSections_def Let_def)
  next
    case ok: False
    with False contents_splitStructural [of s] not_exceedsMax show ?thesis
      by (auto simp: RenderedSections_def Let_def)
  qed
qed

lemma RenderedSections_contents: "\<exists>secs. RenderedSections s limit = Some secs \<and> contents secs = s"
proof -
  obtain raw where "RenderedSections s limit = Some (if s = [] then [] else mergeSmall raw (effective_limit limit))"
    "contents raw = s" using RenderedSections_run by blast
  then show ?thesis using mergeSmall_spec [of raw "effective_limit limit"]
    by (auto simp: contents_def)
qed

text \<open>
  C30: splitting is total and lossless: whatever the payload and the limit, the sections of a
  response concatenate to the response.
\<close>

theorem RenderedSections_lossless:
  "\<exists>secs. RenderedSections s limit = Some secs \<and> concat (map s_Content secs) = s"
  using RenderedSections_contents by (simp add: contents_def)

text \<open>
  no section is longer than the limit less the header room, or \<open>MinChunk\<close> where that is
  larger, and two neighbours are left apart only if the first has at least \<open>MinChunk\<close> bytes or the
  two together exceed the limit.
\<close>

theorem RenderedSections_bounded:
  assumes "RenderedSections s limit = Some secs"
  shows "(\<forall>sec\<in>set secs. int (length (s_Content sec)) \<le> max 512 (limit - 128))
    \<and> (\<forall>i. Suc i < length secs \<longrightarrow> length (s_Content (secs ! i)) < 512 \<longrightarrow>
         int (length (s_Content (secs ! i)) + length (s_Content (secs ! Suc i))) > max 512 (limit - 128))"
proof -
  let ?l = "effective_limit limit"
  have l: "int ?l = max 512 (limit - 128)"
    by (auto simp: effective_limit_def Let_def MinChunk_def readBackHeaderRoom_def)
  obtain raw where r: "RenderedSections s limit = Some (if s = [] then [] else mergeSmall raw ?l)"
    "within ?l raw" using RenderedSections_run by blast
  then have secs: "secs = [] \<or> secs = mergeSmall raw ?l" using assms by (auto split: if_splits)
  have "within ?l secs" using secs r(2) mergeSmall_spec [of raw ?l] by auto
  then have "\<forall>sec\<in>set secs. int (length (s_Content sec)) \<le> int ?l" by (auto simp: within_def)
  moreover have "\<not> pass_merges ?l secs" using secs mergeSmall_done by auto
  then have "Suc i < length secs \<longrightarrow> length (s_Content (secs ! i)) < 512 \<longrightarrow>
      int (length (s_Content (secs ! i)) + length (s_Content (secs ! Suc i))) > int ?l" for i
    using pass_merges_nth [of i secs ?l] by (force simp: MinChunk_def)
  ultimately show ?thesis unfolding l by blast
qed

lemmas chunk_eval = RenderedSections_def effective_limit_def readBackHeaderRoom_def MinChunk_def
  splitStructural_def splitJSON_def topLevelJSONKeys_def skipJSONWS.simps splitTOONOrText_def
  toon_line_def toon_flush_def toonKeyRe_def re_index_def re_head_def re_body_def isIndented_def
  sectionTitle_def exceedsMax_def mergeSmall.simps Let_def

theorem RenderedSections_bounded_witness:
  "RenderedSections (''a: 1'' @ [nl] @ ''b: 2'') 700 = Some [\<lparr>s_Title = ''b: 2'', s_Content = ''a: 1'' @ [nl] @ ''b: 2''\<rparr>]
    \<and> int (length (''a: 1'' @ [nl] @ ''b: 2'')) \<le> max 512 (700 - 128)"
proof -
  have r: "RenderedSections (''a: 1'' @ [nl] @ ''b: 2'') 700 =
      Some [\<lparr>s_Title = ''b: 2'', s_Content = ''a: 1'' @ [nl] @ ''b: 2''\<rparr>]"
    by (simp add: chunk_eval go_str_simps)
  from r RenderedSections_bounded [OF r] show ?thesis by simp
qed

section \<open>JSON strings\<close>

text \<open>The escaping of a JSON encoder for the characters that need a short escape.\<close>

definition esc_char :: "char \<Rightarrow> string" where
  "esc_char c =
     (if c = CHR 0x22 \<or> c = CHR 0x5C then [CHR 0x5C, c]
      else if c = CHR 0x0A then [CHR 0x5C, CHR ''n''] else if c = CHR 0x09 then [CHR 0x5C, CHR ''t'']
      else if c = CHR 0x0D then [CHR 0x5C, CHR ''r''] else if c = CHR 0x08 then [CHR 0x5C, CHR ''b'']
      else if c = CHR 0x0C then [CHR 0x5C, CHR ''f''] else [c])"

definition json_quote :: "string \<Rightarrow> string" where
  "json_quote t = [CHR 0x22] @ concat (map esc_char t) @ [CHR 0x22]"

lemma json_step_esc:
  "json_step (pre @ esc_char c @ rest) (length pre) = Some ([c], length pre + length (esc_char c))"
  by (auto simp: json_step_def esc_char_def simple_escape_def nth_append)

lemma esc_char_open: "(pre @ esc_char c @ rest) ! length pre \<noteq> CHR 0x22"
  by (auto simp: esc_char_def nth_append)

lemma esc_char_ne [simp]: "esc_char c \<noteq> []"
  by (simp add: esc_char_def)

lemma json_string_body_esc:
  "json_string_body (pre @ concat (map esc_char t) @ [CHR 0x22] @ rest) (length pre) b =
     Some (b @ t, length pre + length (concat (map esc_char t)) + 1)"
proof (induction t arbitrary: pre b)
  case Nil
  show ?case by (subst json_string_body.simps) (simp add: nth_append)
next
  case (Cons c t)
  let ?tail = "concat (map esc_char t) @ [CHR 0x22] @ rest"
  let ?s = "pre @ esc_char c @ ?tail"
  have "json_string_body ?s (length pre) b = json_string_body ?s (length pre + length (esc_char c)) (b @ [c])"
    using json_step_esc [of pre c ?tail] esc_char_open [of pre c ?tail]
    by (subst json_string_body.simps) (simp del: append_assoc add: append_assoc [symmetric])
  also have "\<dots> = json_string_body ((pre @ esc_char c) @ ?tail) (length (pre @ esc_char c)) (b @ [c])" by simp
  also have "\<dots> = Some ((b @ [c]) @ t, length (pre @ esc_char c) + length (concat (map esc_char t)) + 1)"
    by (rule Cons.IH)
  finally show ?case by simp
qed

text \<open>
  the string scanner inverts escaping: on a quoted string, wherever it stands in the payload,
  it returns the original bytes and the index just past the closing quote.
\<close>

theorem scanJSONString_quote:
  "scanJSONString (pre @ json_quote t @ rest) (length pre) = Some (t, length pre + length (json_quote t))"
  using json_string_body_esc [of "pre @ [CHR 0x22]" t rest "[]"]
  by (simp add: scanJSONString_def json_quote_def nth_append)

end
