(* ===== verification/Contract.thy ===== *)
theory Contract
  imports GoStrings Float64
begin

text \<open>
  Package \<^verbatim>\<open>contract\<close> (\<^verbatim>\<open>contract.go\<close>, \<^verbatim>\<open>analyze.go\<close>, \<^verbatim>\<open>drift.go\<close>), with the rows of package
  \<^verbatim>\<open>store\<close> it reads and writes: shared message-type constants, struct shape comparison, direction
  and severity classification, and drift reports.
\<close>

section \<open>Rows of the store\<close>

datatype symbol_field =
  SymbolField (sf_GoName: string) (sf_WireName: string) (sf_GoType: string) (sf_Fields: "symbol_field list")

record symbol =
  sy_QualifiedName :: string
  sy_PackagePath :: string
  sy_Name :: string
  sy_Kind :: string
  sy_Receiver :: string
  sy_Signature :: string
  sy_Doc :: string
  sy_PosFile :: string
  sy_Repo :: string
  sy_Fields :: "symbol_field list"
  sy_PosLine :: int
  sy_Complexity :: int
  sy_ChurnCount :: int
  sy_Importance :: f64
  sy_Exported :: bool
  sy_IsTest :: bool
  sy_IsGenerated :: bool

datatype direction = Producer | Consumer | Shared

fun direction_string :: "direction \<Rightarrow> string" where
  "direction_string Producer = ''producer''"
| "direction_string Consumer = ''consumer''"
| "direction_string Shared = ''shared''"

datatype severity = Compatible | Breaking | Unknown

record contract_row =
  ct_FromRef :: string
  ct_ToRef :: string
  ct_Direction :: direction
  ct_Severity :: severity
  ct_Evidence :: string
  ct_IndexedAt :: string
  ct_Confidence :: f64
  ct_Suggested :: bool

record drift_field =
  df_WireName :: string
  df_TypeA :: string
  df_TypeB :: string
  df_RepoA :: string
  df_RepoB :: string
  df_Status :: string

record drift_report =
  dr_FromRef :: string
  dr_ToRef :: string
  dr_Severity :: severity
  dr_Evidence :: string
  dr_IndexedAt :: string
  dr_Fields :: "drift_field list"

section \<open>The analysis context\<close>

record field_info =
  fi_GoName :: string
  fi_WireName :: string
  fi_GoType :: string

record struct_info =
  si_QualifiedName :: string
  si_PackagePath :: string
  si_Repo :: string
  si_Fields :: "field_info list"

record analysis =
  an_Symbols :: "(string, (string, symbol) gomap) gomap"
  an_Constants :: "(string, (string, string) gomap) gomap"
  an_Structs :: "(string, (string, struct_info) gomap) gomap"
  an_Files :: "(string, (string, string) gomap) gomap"

definition WeightConstantMatch :: f64 where "WeightConstantMatch = rnd (6 / 10)"
definition WeightShapeMatch :: f64 where "WeightShapeMatch = rnd (4 / 10)"
definition DefaultConfidenceThreshold :: f64 where "DefaultConfidenceThreshold = rnd (1 / 2)"
definition kindConst :: string where "kindConst = ''const''"
definition kindType :: string where "kindType = ''type''"

text \<open>The three bytes of the arrow in the pair keys.\<close>

definition arrow :: string where "arrow = [CHR 0xE2, CHR 0x86, CHR 0x92]"

section \<open>Shared constants\<close>

record constant_ref =
  cr_Repo :: string
  cr_Name :: string
  cr_Value :: string

text \<open>Links two references; in the value index only the first side is filled in.\<close>

record constant_pair =
  cp_A :: constant_ref
  cp_B :: constant_ref

definition no_ref :: constant_ref where
  "no_ref = \<lparr>cr_Repo = [], cr_Name = [], cr_Value = []\<rparr>"

text \<open>The double loop over \<^verbatim>\<open>ConstantsByRepo\<close>.\<close>

definition constant_refs :: "analysis \<Rightarrow> constant_ref list" where
  "constant_refs an = concat (map (\<lambda>(repo, consts).
     map (\<lambda>(name, val). \<lparr>cr_Repo = repo, cr_Name = name, cr_Value = val\<rparr>) consts) (an_Constants an))"

definition buildValueIndex :: "analysis \<Rightarrow> (string, constant_pair list) gomap" where
  "buildValueIndex an =
     group_by cr_Value (\<lambda>r. \<lparr>cp_A = r, cp_B = no_ref\<rparr>)
       (filter (\<lambda>r. cr_Value r \<noteq> []) (constant_refs an)) []"

definition lessRef :: "constant_ref \<Rightarrow> constant_ref \<Rightarrow> bool" where
  "lessRef a b = (if cr_Repo a \<noteq> cr_Repo b then cr_Repo a < cr_Repo b else cr_Name a < cr_Name b)"

definition pair_key :: "constant_ref \<Rightarrow> constant_ref \<Rightarrow> string" where
  "pair_key a b = cr_Repo a @ '':'' @ cr_Name a @ arrow @ cr_Repo b @ '':'' @ cr_Name b"

text \<open>The loop body over one pair of positions; the state is the pairs so far and the keys seen.\<close>

definition cross_step :: "constant_ref \<times> constant_ref \<Rightarrow> constant_pair list \<times> string list
    \<Rightarrow> constant_pair list \<times> string list" where
  "cross_step = (\<lambda>(a, b) (pairs, seen).
     if cr_Repo a = cr_Repo b then (pairs, seen)
     else if pair_key a b \<in> set seen \<or> pair_key b a \<in> set seen then (pairs, seen)
     else (pairs @ [\<lparr>cp_A = a, cp_B = b\<rparr>], pair_key a b # seen))"

definition collectCrossRepoPairs :: "constant_pair list \<Rightarrow> string list \<Rightarrow> constant_pair list \<times> string list" where
  "collectCrossRepoPairs refs seen =
     fold cross_step (upairs (map cp_A (sort_by (\<lambda>x y. lessRef (cp_A x) (cp_A y)) refs))) ([], seen)"

fun findPairsAcrossRepos :: "(string, constant_pair list) gomap \<Rightarrow> constant_pair list \<times> string list
    \<Rightarrow> constant_pair list \<times> string list" where
  "findPairsAcrossRepos [] st = st"
| "findPairsAcrossRepos ((v, refs) # index) (pairs, seen) =
     (let (new, seen') = collectCrossRepoPairs refs seen
      in findPairsAcrossRepos index (pairs @ new, seen'))"

definition FindSharedTypeConstants :: "analysis \<Rightarrow> constant_pair list" where
  "FindSharedTypeConstants an = fst (findPairsAcrossRepos (buildValueIndex an) ([], []))"

definition ConfidenceScore :: "bool \<Rightarrow> bool \<Rightarrow> f64" where
  "ConfidenceScore signalA signalB =
     (let score = 0; score = (if signalA then f_add score WeightConstantMatch else score)
      in if signalB then f_add score WeightShapeMatch else score)"

definition IsSuggested :: "f64 \<Rightarrow> f64 \<Rightarrow> bool" where
  "IsSuggested confidence threshold \<longleftrightarrow> confidence < threshold"

definition suppress_key :: "string \<Rightarrow> string \<Rightarrow> string" where
  "suppress_key from to = from @ '' '' @ arrow @ '' '' @ to"

definition is_suppressed :: "(string, bool) gomap \<Rightarrow> string \<Rightarrow> string \<Rightarrow> bool" where
  "is_suppressed supr from to \<longleftrightarrow>
     gm_get False supr (suppress_key from to) \<or> gm_get False supr (suppress_key to from)"

definition FilterSuppressed :: "constant_pair list \<Rightarrow> (string, bool) gomap \<Rightarrow> constant_pair list" where
  "FilterSuppressed pairs supr =
     (if supr = [] then pairs
      else filter (\<lambda>p. \<not> is_suppressed supr (cr_Repo (cp_A p) @ '':'' @ cr_Name (cp_A p))
                                          (cr_Repo (cp_B p) @ '':'' @ cr_Name (cp_B p))) pairs)"

definition fieldsFromSymbol :: "symbol_field list \<Rightarrow> field_info list" where
  "fieldsFromSymbol fs =
     map (\<lambda>f. \<lparr>fi_GoName = sf_GoName f, fi_WireName = sf_WireName f, fi_GoType = sf_GoType f\<rparr>) fs"

definition associatedStruct :: "analysis \<Rightarrow> string \<Rightarrow> string \<Rightarrow> struct_info option" where
  "associatedStruct an repo constQN =
     (let structs = gm_get [] (an_Structs an) repo in
      if structs = [] then None
      else case str_cut_last constQN ''.'' of (pkg, base, ok) \<Rightarrow>
        if \<not> ok then None
        else case map_of structs (pkg @ ''.'' @ trim_prefix base ''MsgType'') of
          Some s \<Rightarrow> Some s
        | None \<Rightarrow>
            let inpkg = filter (\<lambda>(qn, si). has_prefix qn (pkg @ ''.'')) structs in
            if length inpkg = 1 then Some (snd (last inpkg))
            else (case filter (\<lambda>(qn, si). has_prefix (si_QualifiedName si) (pkg @ ''.'')) structs of
                    [] \<Rightarrow> None | (_, si) # _ \<Rightarrow> Some si))"

section \<open>Struct shapes\<close>

record divergence =
  dv_WireName :: string
  dv_TypeA :: string
  dv_TypeB :: string
  dv_Status :: string

record comparison =
  cm_OnlyInA :: "field_info list"
  cm_OnlyInB :: "field_info list"
  cm_Divergences :: "divergence list"
  cm_Matches :: nat
  cm_Score :: f64
  cm_Identical :: bool

definition zero_field :: field_info where
  "zero_field = \<lparr>fi_GoName = [], fi_WireName = [], fi_GoType = []\<rparr>"

definition wireFieldMap :: "struct_info \<Rightarrow> (string, field_info) gomap" where
  "wireFieldMap s = fold (\<lambda>f. gm_put (fi_WireName f) f) (si_Fields s) []"

definition common_wires :: "(string, field_info) gomap \<Rightarrow> (string, field_info) gomap \<Rightarrow> (string, bool) gomap" where
  "common_wires aByWire bByWire =
     fold (\<lambda>(w, f) both. if gm_has bByWire w then gm_put w True both else both) aByWire []"

definition only_in :: "(string, field_info) gomap \<Rightarrow> (string, bool) gomap \<Rightarrow> field_info list" where
  "only_in byWire both = map snd (filter (\<lambda>(w, f). \<not> gm_get False both w) byWire)"

definition type_changes :: "(string, field_info) gomap \<Rightarrow> (string, field_info) gomap
    \<Rightarrow> (string, bool) gomap \<Rightarrow> divergence list" where
  "type_changes aByWire bByWire both =
     concat (map (\<lambda>(w, _).
       let fA = gm_get zero_field aByWire w; fB = gm_get zero_field bByWire w in
       if fi_GoType fA \<noteq> fi_GoType fB
       then [\<lparr>dv_WireName = w, dv_TypeA = fi_GoType fA, dv_TypeB = fi_GoType fB,
              dv_Status = ''type_changed''\<rparr>]
       else []) both)"

definition CompareStructShapes :: "struct_info \<Rightarrow> struct_info \<Rightarrow> comparison" where
  "CompareStructShapes a b =
     (let aByWire = wireFieldMap a; bByWire = wireFieldMap b;
          both = common_wires aByWire bByWire;
          divergences = type_changes aByWire bByWire both;
          matches = length both;
          totalFields = length (si_Fields a) + length (si_Fields b)
      in \<lparr>cm_OnlyInA = only_in aByWire both, cm_OnlyInB = only_in bByWire both,
          cm_Divergences = divergences, cm_Matches = matches,
          cm_Score = (if totalFields > 0
                      then f_div (f_of_int (int (matches * 2))) (f_of_int (int totalFields)) else 0),
          cm_Identical = (matches = length (si_Fields a) \<and> matches = length (si_Fields b)
                          \<and> divergences = [])\<rparr>)"

definition ClassifyDriftSeverity :: "comparison \<Rightarrow> severity" where
  "ClassifyDriftSeverity cmp =
     (if cm_Identical cmp then Compatible
      else if cm_Divergences cmp \<noteq> [] then Breaking
      else if cm_OnlyInB cmp \<noteq> [] then (if cm_OnlyInA cmp \<noteq> [] then Breaking else Breaking)
      else Compatible)"

section \<open>Drift reports\<close>

text \<open>The index of the first unpaired field of \<open>onlyB\<close> with the type of \<open>a\<close>.\<close>

fun pair_index :: "string \<Rightarrow> nat list \<Rightarrow> nat \<Rightarrow> field_info list \<Rightarrow> nat option" where
  "pair_index ty pairedB bi [] = None"
| "pair_index ty pairedB bi (b # bs) =
     (if bi \<in> set pairedB \<or> ty \<noteq> fi_GoType b then pair_index ty pairedB (Suc bi) bs else Some bi)"

fun renamed_loop :: "field_info list \<Rightarrow> string \<Rightarrow> string \<Rightarrow> nat list \<Rightarrow> field_info list \<Rightarrow> drift_field list" where
  "renamed_loop onlyB repoA repoB pairedB [] = []"
| "renamed_loop onlyB repoA repoB pairedB (a # as) =
     (case pair_index (fi_GoType a) pairedB 0 onlyB of
        None \<Rightarrow> renamed_loop onlyB repoA repoB pairedB as
      | Some bi \<Rightarrow>
          \<lparr>df_WireName = fi_WireName a @ '' '' @ arrow @ '' '' @ fi_WireName (onlyB ! bi),
           df_TypeA = fi_GoType a, df_TypeB = fi_GoType (onlyB ! bi),
           df_RepoA = repoA, df_RepoB = repoB, df_Status = ''renamed''\<rparr>
          # renamed_loop onlyB repoA repoB (bi # pairedB) as)"

definition buildRenamedFields :: "field_info list \<Rightarrow> field_info list \<Rightarrow> string \<Rightarrow> string \<Rightarrow> drift_field list" where
  "buildRenamedFields onlyA onlyB repoA repoB = renamed_loop onlyB repoA repoB [] onlyA"

definition buildDriftFields :: "comparison \<Rightarrow> string \<Rightarrow> string \<Rightarrow> drift_field list" where
  "buildDriftFields cmp repoA repoB =
     (if cm_OnlyInA cmp \<noteq> [] \<and> cm_OnlyInB cmp \<noteq> []
      then buildRenamedFields (cm_OnlyInA cmp) (cm_OnlyInB cmp) repoA repoB
      else
        map (\<lambda>f. \<lparr>df_WireName = fi_WireName f, df_TypeA = fi_GoType f, df_TypeB = [],
                  df_RepoA = repoA, df_RepoB = repoB, df_Status = ''removed''\<rparr>) (cm_OnlyInA cmp)
        @ map (\<lambda>f. \<lparr>df_WireName = fi_WireName f, df_TypeA = [], df_TypeB = fi_GoType f,
                  df_RepoA = repoA, df_RepoB = repoB, df_Status = ''added''\<rparr>) (cm_OnlyInB cmp)
        @ map (\<lambda>d. \<lparr>df_WireName = dv_WireName d, df_TypeA = dv_TypeA d, df_TypeB = dv_TypeB d,
                  df_RepoA = repoA, df_RepoB = repoB, df_Status = dv_Status d\<rparr>) (cm_Divergences cmp))"

definition DetectDrift :: "string \<Rightarrow> string \<Rightarrow> struct_info \<Rightarrow> struct_info \<Rightarrow> string \<Rightarrow> drift_report option" where
  "DetectDrift fromRef toRef a b now =
     (let cmp = CompareStructShapes a b in
      if cm_Identical cmp then None
      else Some \<lparr>dr_FromRef = fromRef, dr_ToRef = toRef, dr_Severity = ClassifyDriftSeverity cmp,
                 dr_Evidence = [], dr_IndexedAt = now,
                 dr_Fields = buildDriftFields cmp (si_Repo a) (si_Repo b)\<rparr>)"

text \<open>The last component of a qualified name: the loop runs backwards to the last dot.\<close>

definition extractShortName :: "string \<Rightarrow> string" where
  "extractShortName qn = rev (takeWhile (\<lambda>c. c \<noteq> CHR ''.'') (rev qn))"

definition value_field :: "constant_ref \<Rightarrow> constant_ref \<Rightarrow> string \<Rightarrow> drift_field" where
  "value_field a b status =
     \<lparr>df_WireName = ''constant_value'', df_TypeA = cr_Value a, df_TypeB = cr_Value b,
      df_RepoA = cr_Repo a, df_RepoB = cr_Repo b, df_Status = status\<rparr>"

definition DetectConstantDrift :: "constant_ref \<Rightarrow> constant_ref \<Rightarrow> string \<Rightarrow> drift_report option" where
  "DetectConstantDrift a b now =
     (if cr_Value a \<noteq> cr_Value b \<and> extractShortName (cr_Name a) = extractShortName (cr_Name b)
      then Some \<lparr>dr_FromRef = cr_Name a, dr_ToRef = cr_Name b, dr_Severity = Breaking,
                 dr_Evidence = [], dr_IndexedAt = now,
                 dr_Fields = [value_field a b ''value_changed'']\<rparr>
      else if cr_Value a = cr_Value b \<and> extractShortName (cr_Name a) \<noteq> extractShortName (cr_Name b)
      then Some \<lparr>dr_FromRef = cr_Name a, dr_ToRef = cr_Name b, dr_Severity = Unknown,
                 dr_Evidence = [], dr_IndexedAt = now,
                 dr_Fields = [value_field a b ''same_value_different_name'']\<rparr>
      else None)"

definition formatValueDriftEvidence :: "unidata \<Rightarrow> constant_ref \<Rightarrow> constant_ref \<Rightarrow> string" where
  "formatValueDriftEvidence U a b =
     ''constant '' @ go_quote U (cr_Name a) @ '': value '' @ go_quote U (cr_Value a) @ '' in '' @ cr_Repo a
     @ '' vs '' @ go_quote U (cr_Value b) @ '' in '' @ cr_Repo b"

definition formatNameDriftEvidence :: "unidata \<Rightarrow> constant_ref \<Rightarrow> constant_ref \<Rightarrow> string" where
  "formatNameDriftEvidence U a b =
     ''constants '' @ go_quote U (cr_Name a) @ '' and '' @ go_quote U (cr_Name b) @ '' share value ''
     @ go_quote U (cr_Value a) @ '' across repos '' @ cr_Repo a @ '' and '' @ cr_Repo b"

definition buildNameIndex :: "analysis \<Rightarrow> (string, constant_ref list) gomap" where
  "buildNameIndex an = group_by (\<lambda>r. extractShortName (cr_Name r)) (\<lambda>r. r) (constant_refs an) []"

definition buildReverseValueIndex :: "analysis \<Rightarrow> (string, constant_ref list) gomap" where
  "buildReverseValueIndex an = group_by cr_Value (\<lambda>r. r) (constant_refs an) []"

definition value_drift_pair :: "unidata \<Rightarrow> string \<Rightarrow> constant_ref \<times> constant_ref \<Rightarrow> drift_report list" where
  "value_drift_pair U now = (\<lambda>(a, b).
     if cr_Repo a = cr_Repo b \<or> cr_Value a = cr_Value b then []
     else case DetectConstantDrift a b now of None \<Rightarrow> []
       | Some d \<Rightarrow> [d\<lparr>dr_Evidence := formatValueDriftEvidence U a b\<rparr>])"

definition name_drift_pair :: "unidata \<Rightarrow> string \<Rightarrow> constant_ref \<times> constant_ref \<Rightarrow> drift_report list" where
  "name_drift_pair U now = (\<lambda>(a, b).
     if cr_Repo a = cr_Repo b \<or> extractShortName (cr_Name a) = extractShortName (cr_Name b) then []
     else case DetectConstantDrift a b now of None \<Rightarrow> []
       | Some d \<Rightarrow> [d\<lparr>dr_Evidence := formatNameDriftEvidence U a b\<rparr>])"

definition drift_group :: "(constant_ref \<times> constant_ref \<Rightarrow> drift_report list) \<Rightarrow> constant_ref list \<Rightarrow> drift_report list" where
  "drift_group f refs =
     (if length refs < 2 then [] else concat (map f (upairs (sort_by lessRef refs))))"

definition findValueDrifts :: "unidata \<Rightarrow> (string, constant_ref list) gomap \<Rightarrow> string \<Rightarrow> drift_report list" where
  "findValueDrifts U nameIndex now =
     concat (map (\<lambda>(_, refs). drift_group (value_drift_pair U now) refs) nameIndex)"

definition findNameDrifts :: "unidata \<Rightarrow> (string, constant_ref list) gomap \<Rightarrow> string \<Rightarrow> drift_report list" where
  "findNameDrifts U valueIndex now =
     concat (map (\<lambda>(_, refs). drift_group (name_drift_pair U now) refs) valueIndex)"

definition FindConstantDrift :: "unidata \<Rightarrow> analysis \<Rightarrow> string \<Rightarrow> drift_report list" where
  "FindConstantDrift U an now =
     findValueDrifts U (buildNameIndex an) now @ findNameDrifts U (buildReverseValueIndex an) now"

section \<open>Directions\<close>

definition matchesAny :: "unidata \<Rightarrow> string \<Rightarrow> string list \<Rightarrow> bool" where
  "matchesAny U s hints \<longleftrightarrow> (\<exists>h\<in>set hints. contains (to_lower U s) h)"

definition producerHints :: "string list" where
  "producerHints = [''encode'', ''send'', ''publish'', ''write'', ''marshal'', ''put'']"
definition consumerHints :: "string list" where
  "consumerHints = [''decode'', ''receive'', ''subscribe'', ''read'', ''unmarshal'', ''get'']"

definition InferDirection :: "unidata \<Rightarrow> string \<Rightarrow> string \<Rightarrow> direction" where
  "InferDirection U fromRef toRef =
     (let fromName = extractShortName fromRef; toName = extractShortName toRef;
          fromIsProducer = matchesAny U fromName producerHints;
          toIsConsumer = matchesAny U toName consumerHints;
          fromIsConsumer = matchesAny U fromName consumerHints;
          toIsProducer = matchesAny U toName producerHints
      in if fromIsProducer \<and> toIsConsumer then Producer
         else if fromIsConsumer \<and> toIsProducer then Consumer else Shared)"

datatype site_role = RoleProducer | RoleConsumer | RoleNone

definition encodeHints :: "string list" where
  "encodeHints = [''marshal'', ''encode'', ''send'', ''publish'', ''write'', ''put'']"
definition decodeHints :: "string list" where
  "decodeHints = [''unmarshal'', ''decode'', ''receive'', ''subscribe'', ''read'', ''get'']"

definition classifySiteRole :: "unidata \<Rightarrow> string \<Rightarrow> string \<Rightarrow> site_role" where
  "classifySiteRole U enclosing line =
     (let lower = to_lower U (enclosing @ '' '' @ line) in
      if matchesAny U lower encodeHints then RoleProducer
      else if matchesAny U lower decodeHints then RoleConsumer else RoleNone)"

type_synonym site_index = "(string, (string, (string, site_role list) gomap) gomap) gomap"

record analysis_index =
  ix_sites :: site_index
  ix_constantsByPkg :: "(string, (string, bool) gomap) gomap"
  ix_fieldSets :: "(string, (string, bool) gomap) gomap"
  ix_refRepo :: "(string, string) gomap"

definition packagePathOf :: "analysis \<Rightarrow> string \<Rightarrow> string \<Rightarrow> string" where
  "packagePathOf an repo qn =
     (case map_of (gm_get [] (an_Symbols an) repo) qn of Some sy \<Rightarrow> sy_PackagePath sy | None \<Rightarrow> [])"

definition symPackagePath :: "(string, symbol) gomap \<Rightarrow> string \<Rightarrow> string" where
  "symPackagePath syms qn = (case map_of syms qn of Some sy \<Rightarrow> sy_PackagePath sy | None \<Rightarrow> [])"

definition repoOf :: "analysis_index \<Rightarrow> string \<Rightarrow> string" where
  "repoOf idx qn = gm_get [] (ix_refRepo idx) qn"

text \<open>The nearest declaration at or above a line (\<^verbatim>\<open>runtime.go\<close>); the loop keeps the best so far.\<close>

definition enclosing_step :: "string \<Rightarrow> int \<Rightarrow> symbol \<Rightarrow> string \<times> int \<Rightarrow> string \<times> int" where
  "enclosing_step path line sy = (\<lambda>(best, bestLine).
     if sy_PosFile sy \<noteq> path \<or> sy_PosLine sy \<le> 0 \<or> sy_PosLine sy > line then (best, bestLine)
     else if sy_PosLine sy > bestLine then (sy_QualifiedName sy, sy_PosLine sy)
     else (best, bestLine))"

definition enclosingSymbol :: "(string, symbol) gomap \<Rightarrow> string \<Rightarrow> int \<Rightarrow> string" where
  "enclosingSymbol symbols path line =
     (let best = fst (fold (\<lambda>(_, sy). enclosing_step path line sy) symbols ([], 0))
      in if best \<noteq> [] then best else path)"

text \<open>The two indexes of \<^verbatim>\<open>constantNameIndex\<close>, built symbol by symbol.\<close>

definition name_index_step :: "string \<times> symbol
    \<Rightarrow> (string, string) gomap \<times> (string, (string, string) gomap) gomap
    \<Rightarrow> (string, string) gomap \<times> (string, (string, string) gomap) gomap" where
  "name_index_step = (\<lambda>(qn, sy) (pkgByFile, constsByPkg).
     if sy_PosFile sy = [] then (pkgByFile, constsByPkg)
     else
       (if gm_has pkgByFile (sy_PosFile sy) then pkgByFile
        else gm_put (sy_PosFile sy) (sy_PackagePath sy) pkgByFile,
        if sy_Kind sy = kindConst
        then gm_put (sy_PackagePath sy)
               (gm_put (extractShortName qn) qn (gm_get [] constsByPkg (sy_PackagePath sy))) constsByPkg
        else constsByPkg))"

definition constantNameIndex :: "(string, symbol) gomap
    \<Rightarrow> (string, string) gomap \<times> (string, (string, string) gomap) gomap" where
  "constantNameIndex syms = fold name_index_step syms ([], [])"

definition add_site :: "string \<Rightarrow> string \<Rightarrow> string \<Rightarrow> site_role \<Rightarrow> site_index \<Rightarrow> site_index" where
  "add_site repo pkg short role idx =
     (let byPkg = gm_get [] idx repo; byName = gm_get [] byPkg pkg
      in gm_put repo (gm_put pkg (gm_append short role byName) byPkg) idx)"

definition record_site :: "unidata \<Rightarrow> string \<Rightarrow> string \<Rightarrow> int \<Rightarrow> string \<Rightarrow> (string, symbol) gomap
    \<Rightarrow> string \<times> string \<Rightarrow> site_index \<Rightarrow> site_index" where
  "record_site U repo path lineNo line syms = (\<lambda>(short, qn) idx.
     if \<not> contains line short then idx
     else let encl = enclosingSymbol syms path lineNo in
       if encl = qn \<or> encl = path then idx
       else add_site repo (symPackagePath syms qn) short (classifySiteRole U encl line) idx)"

definition recordUsageSites :: "unidata \<Rightarrow> string \<Rightarrow> string \<Rightarrow> int \<Rightarrow> string \<Rightarrow> (string, string) gomap
    \<Rightarrow> (string, symbol) gomap \<Rightarrow> site_index \<Rightarrow> site_index" where
  "recordUsageSites U repo path lineNo line names syms idx =
     fold (record_site U repo path lineNo line syms) names idx"

fun record_lines :: "unidata \<Rightarrow> string \<Rightarrow> string \<Rightarrow> int \<Rightarrow> (string, string) gomap \<Rightarrow> (string, symbol) gomap
    \<Rightarrow> string list \<Rightarrow> site_index \<Rightarrow> site_index" where
  "record_lines U repo path lineNo names syms [] idx = idx"
| "record_lines U repo path lineNo names syms (line # ls) idx =
     record_lines U repo path (lineNo + 1) names syms ls
       (recordUsageSites U repo path lineNo line names syms idx)"

definition repo_sites :: "unidata \<Rightarrow> analysis \<Rightarrow> string \<times> (string, symbol) gomap \<Rightarrow> site_index \<Rightarrow> site_index" where
  "repo_sites U an = (\<lambda>(repo, syms) idx.
     let (pkgByFile, constsByPkg) = constantNameIndex syms in
     fold (\<lambda>(path, content) idx.
       let names = gm_get [] constsByPkg (gm_get [] pkgByFile path) in
       if names = [] then idx
       else record_lines U repo path 1 names syms (split_char (CHR 0x0A) content) idx)
       (gm_get [] (an_Files an) repo) idx)"

definition buildSiteIndex :: "unidata \<Rightarrow> analysis \<Rightarrow> site_index" where
  "buildSiteIndex U an = fold (repo_sites U an) (an_Symbols an) []"

definition pkg_key :: "string \<Rightarrow> string \<Rightarrow> string" where
  "pkg_key repo pkg = repo @ [CHR 0x00] @ pkg"

definition constants_by_pkg :: "analysis \<Rightarrow> (string, (string, bool) gomap) gomap" where
  "constants_by_pkg an = fold (\<lambda>r m.
     let key = pkg_key (cr_Repo r) (packagePathOf an (cr_Repo r) (cr_Name r))
     in gm_put key (gm_put (cr_Value r) True (gm_get [] m key)) m) (constant_refs an) []"

definition wire_set :: "struct_info \<Rightarrow> (string, bool) gomap" where
  "wire_set si = fold (\<lambda>f. gm_put (fi_WireName f) True) (si_Fields si) []"

definition all_structs :: "analysis \<Rightarrow> (string \<times> struct_info) list" where
  "all_structs an = concat (map snd (an_Structs an))"

definition buildAnalysisIndex :: "unidata \<Rightarrow> analysis \<Rightarrow> analysis_index" where
  "buildAnalysisIndex U an =
     \<lparr>ix_sites = buildSiteIndex U an,
      ix_constantsByPkg = constants_by_pkg an,
      ix_fieldSets = fold (\<lambda>(qn, si). gm_put qn (wire_set si)) (all_structs an) [],
      ix_refRepo = fold (\<lambda>(repo, syms) m. fold (\<lambda>(qn, _). gm_put qn repo) syms m) (an_Symbols an) []\<rparr>"

definition wireSiteRole :: "analysis_index \<Rightarrow> analysis \<Rightarrow> string \<Rightarrow> string \<Rightarrow> site_role" where
  "wireSiteRole idx an repo qn =
     (if repo = [] then RoleNone
      else let sites = gm_get [] (gm_get [] (gm_get [] (ix_sites idx) repo) (packagePathOf an repo qn))
                         (extractShortName qn)
           in if sites = [] then RoleNone else last sites)"

definition InferContractDirection :: "unidata \<Rightarrow> analysis_index \<Rightarrow> analysis \<Rightarrow> string \<Rightarrow> string \<Rightarrow> direction" where
  "InferContractDirection U idx an fromRef toRef =
     (let roleFrom = wireSiteRole idx an (repoOf idx fromRef) fromRef;
          roleTo = wireSiteRole idx an (repoOf idx toRef) toRef
      in if roleFrom = RoleProducer \<and> roleTo = RoleConsumer then Producer
         else if roleFrom = RoleConsumer \<and> roleTo = RoleProducer then Consumer
         else InferDirection U fromRef toRef)"

definition shareWireField :: "analysis_index \<Rightarrow> struct_info \<Rightarrow> struct_info \<Rightarrow> bool" where
  "shareWireField idx a b =
     (let as = gm_get [] (ix_fieldSets idx) (si_QualifiedName a);
          bs = gm_get [] (ix_fieldSets idx) (si_QualifiedName b)
      in if as = [] \<or> bs = [] then False else (\<exists>(w, _)\<in>set as. gm_get False bs w))"

definition haveSharedConstantIndex :: "analysis_index \<Rightarrow> struct_info \<Rightarrow> struct_info \<Rightarrow> bool" where
  "haveSharedConstantIndex idx a b =
     (let aConsts = gm_get [] (ix_constantsByPkg idx) (pkg_key (si_Repo a) (si_PackagePath a))
      in if aConsts = [] then False
         else let bConsts = gm_get [] (ix_constantsByPkg idx) (pkg_key (si_Repo b) (si_PackagePath b))
              in (\<exists>(v, _)\<in>set aConsts. gm_get False bConsts v))"

end
