(* ===== verification/Contract_Shape.thy ===== *)
theory Contract_Shape
  imports Contract
begin

text \<open>
  Struct shape comparison against a mathematical reading of a struct: the partial map from wire
  names to Go types. Matches, divergences, identity, severity and the drift report are all
  characterised by the two maps.
\<close>

text \<open>The wire contract of a struct: where a wire name is repeated the last field counts.\<close>

definition wire_field :: "struct_info \<Rightarrow> string \<Rightarrow> field_info option" where
  "wire_field s w = find (\<lambda>f. fi_WireName f = w) (rev (si_Fields s))"

definition wire_types :: "struct_info \<Rightarrow> string \<rightharpoonup> string" where
  "wire_types s w = map_option fi_GoType (wire_field s w)"

abbreviation wires :: "struct_info \<Rightarrow> string list" where
  "wires s \<equiv> map fi_WireName (si_Fields s)"

definition wnames :: "struct_info \<Rightarrow> string set" where
  "wnames s = fi_WireName ` set (si_Fields s)"

lemma fold_put_field:
  "map_of (fold (\<lambda>f. gm_put (fi_WireName f) f) fs m) w =
     (case find (\<lambda>f. fi_WireName f = w) (rev fs) of None \<Rightarrow> map_of m w | Some f \<Rightarrow> Some f)"
  by (induction fs rule: rev_induct) (auto split: option.splits)

lemma fold_put_field_wf: "gm_wf m \<Longrightarrow> gm_wf (fold (\<lambda>f. gm_put (fi_WireName f) f) fs m)"
  by (induction fs arbitrary: m) auto

lemma wireFieldMap_of [simp]: "map_of (wireFieldMap s) w = wire_field s w"
  by (simp add: wireFieldMap_def fold_put_field wire_field_def split: option.splits)

lemma wireFieldMap_wf [simp]: "gm_wf (wireFieldMap s)"
  by (simp add: wireFieldMap_def fold_put_field_wf)

lemma wire_field_name: "wire_field s w = Some f \<Longrightarrow> fi_WireName f = w \<and> f \<in> set (si_Fields s)"
  by (auto simp: wire_field_def find_Some_iff in_set_conv_nth rev_nth)
    (metis One_nat_def Suc_diff_Suc diff_less less_nat_zero_code linorder_neqE_nat zero_less_Suc)

lemma wire_field_None: "wire_field s w = None \<longleftrightarrow> w \<notin> wnames s"
  by (auto simp: wire_field_def find_None_iff wnames_def)

lemma finite_wnames [simp]: "finite (wnames s)"
  by (simp add: wnames_def)

lemma wnames_set: "wnames s = set (wires s)"
  by (simp add: wnames_def)

lemma wnames_card: "card (wnames s) \<le> length (si_Fields s)"
  using card_length [of "wires s"] by (simp only: wnames_set length_map)

lemma wnames_distinct: "distinct (wires s) \<longleftrightarrow> card (wnames s) = length (si_Fields s)"
  using card_distinct [of "wires s"] distinct_card [of "wires s"] by (auto simp only: wnames_set length_map)

lemma wire_types_None: "wire_types s w = None \<longleftrightarrow> w \<notin> wnames s"
  by (simp add: wire_types_def wire_field_None)

lemma dom_wire_types: "dom (wire_types s) = wnames s"
  using wire_types_None [of s] by (auto simp: dom_def)

lemma wire_map_keys: "fst ` set (wireFieldMap s) = wnames s"
proof -
  have "fst ` set (wireFieldMap s) = dom (map_of (wireFieldMap s))"
    by (simp add: dom_map_of_conv_image_fst)
  also have "\<dots> = {w. wire_field s w \<noteq> None}" by (auto simp: dom_def)
  finally show ?thesis by (simp add: wire_field_None)
qed

section \<open>Common wire names\<close>

lemma common_fold:
  "map_of (fold (\<lambda>(w, f) both. if P w then gm_put w True both else both) A m) w =
     (if w \<in> fst ` set A \<and> P w then Some True else map_of m w)"
  by (induction A arbitrary: m) auto

lemma common_fold_wf:
  "gm_wf m \<Longrightarrow> gm_wf (fold (\<lambda>(w, f) both. if P w then gm_put w True both else both) A m)"
  by (induction A arbitrary: m) auto

abbreviation both_of :: "struct_info \<Rightarrow> struct_info \<Rightarrow> (string, bool) gomap" where
  "both_of a b \<equiv> common_wires (wireFieldMap a) (wireFieldMap b)"

lemma both_of_lookup: "map_of (both_of a b) w = (if w \<in> wnames a \<inter> wnames b then Some True else None)"
  unfolding common_wires_def common_fold by (simp add: gm_has_iff wire_map_keys)

lemma both_of_wf: "gm_wf (both_of a b)"
  by (simp add: common_wires_def common_fold_wf)

lemma both_of_keys: "fst ` set (both_of a b) = wnames a \<inter> wnames b"
proof -
  have "fst ` set (both_of a b) = dom (map_of (both_of a b))" by (simp add: dom_map_of_conv_image_fst)
  then show ?thesis by (auto simp: both_of_lookup dom_def split: if_splits)
qed

lemma both_of_length: "length (both_of a b) = card (wnames a \<inter> wnames b)"
proof -
  have "length (both_of a b) = card (fst ` set (both_of a b))"
    using both_of_wf [of a b] by (metis gm_wf_def distinct_card length_map list.set_map)
  then show ?thesis by (simp only: both_of_keys)
qed

lemma both_of_get: "gm_get False (both_of a b) w \<longleftrightarrow> w \<in> wnames a \<inter> wnames b"
  by (simp add: gm_get_def both_of_lookup)

lemma only_in_set:
  "set (only_in (wireFieldMap s) (both_of a b)) =
     {f. \<exists>w. wire_field s w = Some f \<and> w \<notin> wnames a \<inter> wnames b}"
proof -
  have "(w, f) \<in> set (wireFieldMap s) \<longleftrightarrow> wire_field s w = Some f" for w f
    using gm_wf_in_map_of [OF wireFieldMap_wf] by simp
  then have "set (only_in (wireFieldMap s) (both_of a b)) =
      snd ` {(w, f). wire_field s w = Some f \<and> w \<notin> wnames a \<inter> wnames b}"
    by (auto simp: only_in_def both_of_get image_iff)
  then show ?thesis by (auto simp: image_iff)
qed

lemma only_in_empty:
  assumes "s = a \<or> s = b"
  shows "only_in (wireFieldMap s) (both_of a b) = [] \<longleftrightarrow> wnames s \<subseteq> wnames a \<inter> wnames b"
proof -
  have "only_in (wireFieldMap s) (both_of a b) = [] \<longleftrightarrow> set (only_in (wireFieldMap s) (both_of a b)) = {}" by simp
  also have "\<dots> \<longleftrightarrow> (\<forall>w f. wire_field s w = Some f \<longrightarrow> w \<in> wnames a \<inter> wnames b)"
    unfolding only_in_set by auto
  also have "\<dots> \<longleftrightarrow> (\<forall>w. wire_field s w \<noteq> None \<longrightarrow> w \<in> wnames a \<inter> wnames b)" by blast
  also have "\<dots> \<longleftrightarrow> wnames s \<subseteq> wnames a \<inter> wnames b"
    unfolding wire_field_None by blast
  finally show ?thesis .
qed

definition changes :: "struct_info \<Rightarrow> struct_info \<Rightarrow> (string \<times> string \<times> string) set" where
  "changes a b = {(w, x, y). wire_types a w = Some x \<and> wire_types b w = Some y \<and> x \<noteq> y}"

abbreviation change_of :: "divergence \<Rightarrow> string \<times> string \<times> string" where
  "change_of d \<equiv> (dv_WireName d, dv_TypeA d, dv_TypeB d)"

abbreviation type_at :: "struct_info \<Rightarrow> string \<Rightarrow> string" where
  "type_at s w \<equiv> fi_GoType (gm_get zero_field (wireFieldMap s) w)"

lemma type_at: "wire_types s w = Some x \<longleftrightarrow> w \<in> wnames s \<and> type_at s w = x"
  using wire_field_None [of s w] by (cases "wire_field s w") (auto simp: gm_get_def wire_types_def)

lemma type_changes_map:
  "map change_of (type_changes (wireFieldMap a) (wireFieldMap b) both) =
     map (\<lambda>w. (w, type_at a w, type_at b w)) (filter (\<lambda>w. type_at a w \<noteq> type_at b w) (map fst both))"
  by (induction both) (auto simp: type_changes_def Let_def)

lemma graph_diff:
  "(\<lambda>w. (w, f w, g w)) ` {w \<in> I \<inter> J. f w \<noteq> g w} =
     {(w, x, y). (w \<in> I \<and> f w = x) \<and> (w \<in> J \<and> g w = y) \<and> x \<noteq> y}"
  by auto

lemma type_changes_set:
  "change_of ` set (type_changes (wireFieldMap a) (wireFieldMap b) (both_of a b)) = changes a b"
proof -
  have "change_of ` set (type_changes (wireFieldMap a) (wireFieldMap b) (both_of a b)) =
      set (map (\<lambda>w. (w, type_at a w, type_at b w)) (filter (\<lambda>w. type_at a w \<noteq> type_at b w) (map fst (both_of a b))))"
    unfolding list.set_map [symmetric] type_changes_map ..
  also have "\<dots> = (\<lambda>w. (w, type_at a w, type_at b w)) `
      {w \<in> fst ` set (both_of a b). type_at a w \<noteq> type_at b w}" by (simp only: set_map set_filter)
  also have "\<dots> = changes a b" unfolding both_of_keys changes_def type_at by (rule graph_diff)
  finally show ?thesis .
qed

lemma type_changes_Nil: "type_changes (wireFieldMap a) (wireFieldMap b) (both_of a b) = [] \<longleftrightarrow> changes a b = {}"
  unfolding type_changes_set [symmetric] image_is_empty set_empty ..

lemma same_types:
  assumes "wnames a = wnames b" "changes a b = {}"
  shows "wire_types a = wire_types b"
proof
  fix w
  show "wire_types a w = wire_types b w"
  proof (cases "w \<in> wnames b")
    case False
    then have "wire_types a w = None" "wire_types b w = None" using assms(1) wire_types_None by auto
    then show ?thesis by simp
  next
    case True
    then have "wire_types a w \<noteq> None" "wire_types b w \<noteq> None" using assms(1) wire_types_None by auto
    then obtain x y where xy: "wire_types a w = Some x" "wire_types b w = Some y" by blast
    then have "x = y" using assms(2) unfolding changes_def by blast
    with xy show ?thesis by simp
  qed
qed

lemma identical_iff:
  "cm_Identical (CompareStructShapes a b) \<longleftrightarrow>
     distinct (wires a) \<and> distinct (wires b) \<and> wire_types a = wire_types b"
    (is "?L \<longleftrightarrow> ?R")
proof -
  let ?A = "wnames a" and ?B = "wnames b"
  let ?n = "card (?A \<inter> ?B)" and ?la = "length (si_Fields a)" and ?lb = "length (si_Fields b)"
  have len: "?L \<longleftrightarrow> ?n = ?la \<and> ?n = ?lb \<and> changes a b = {}"
    by (simp add: CompareStructShapes_def Let_def both_of_length type_changes_Nil)
  have le: "?n \<le> card ?A" "?n \<le> card ?B" by (simp_all add: card_mono)
  show ?thesis
  proof
    assume ?L
    then have c: "?n = ?la" "?n = ?lb" "changes a b = {}" using len by blast+
    have e: "card ?A = ?la" "card ?B = ?lb" using le c wnames_card [of a] wnames_card [of b] by linarith+
    have "?A \<inter> ?B = ?A" by (rule card_subset_eq) (use c e in simp_all)
    moreover have "?A \<inter> ?B = ?B" by (rule card_subset_eq) (use c e in simp_all)
    ultimately have "?A = ?B" by blast
    then show ?R using e same_types c(3) wnames_distinct by blast
  next
    assume r: ?R
    then have "?A = ?B" using dom_wire_types by metis
    moreover have "changes a b = {}" using r by (auto simp: changes_def)
    moreover have "card ?A = ?la" "card ?B = ?lb" using r wnames_distinct by blast+
    ultimately show ?L unfolding len by simp
  qed
qed

text \<open>
  comparing two structs reads them as maps from wire names to Go types: the match count is
  the number of shared names, the one-sided fields and the divergences are exactly the
  differences of the maps, and the shapes are identical exactly when no wire name is repeated and
  the maps are equal.
\<close>

theorem CompareStructShapes_spec:
  defines "A \<equiv> wire_types" and "names \<equiv> (\<lambda>fs. fi_WireName ` set fs)"
  shows "cm_Matches (CompareStructShapes a b) = card (dom (A a) \<inter> dom (A b))
    \<and> names (cm_OnlyInA (CompareStructShapes a b)) = dom (A a) - dom (A b)
    \<and> names (cm_OnlyInB (CompareStructShapes a b)) = dom (A b) - dom (A a)
    \<and> (\<lambda>d. (dv_WireName d, dv_TypeA d, dv_TypeB d)) ` set (cm_Divergences (CompareStructShapes a b))
        = {(w, x, y). A a w = Some x \<and> A b w = Some y \<and> x \<noteq> y}
    \<and> (cm_Identical (CompareStructShapes a b) \<longleftrightarrow>
         distinct (map fi_WireName (si_Fields a)) \<and> distinct (map fi_WireName (si_Fields b)) \<and> A a = A b)"
proof -
  have only: "names (only_in (wireFieldMap s) (both_of a b)) = dom (A s) - dom (A a) \<inter> dom (A b)" for s
  proof -
    have "names (only_in (wireFieldMap s) (both_of a b)) =
        {w. wire_field s w \<noteq> None \<and> w \<notin> wnames a \<inter> wnames b}"
      unfolding names_def only_in_set by (auto simp: image_iff dest: wire_field_name)
    then show ?thesis by (auto simp: A_def dom_wire_types wire_field_None)
  qed
  have "cm_Matches (CompareStructShapes a b) = card (dom (A a) \<inter> dom (A b))"
    by (simp add: A_def dom_wire_types CompareStructShapes_def Let_def both_of_length)
  moreover have "names (cm_OnlyInA (CompareStructShapes a b)) = dom (A a) - dom (A b)"
    using only [of a] by (auto simp: CompareStructShapes_def Let_def)
  moreover have "names (cm_OnlyInB (CompareStructShapes a b)) = dom (A b) - dom (A a)"
    using only [of b] by (auto simp: CompareStructShapes_def Let_def)
  moreover have "change_of ` set (cm_Divergences (CompareStructShapes a b)) = changes a b"
    by (simp add: CompareStructShapes_def Let_def type_changes_set)
  ultimately show ?thesis using identical_iff [of a b] by (simp add: A_def changes_def)
qed

lemma severity_iff:
  "ClassifyDriftSeverity (CompareStructShapes a b) = (if wire_types b \<subseteq>\<^sub>m wire_types a then Compatible else Breaking)"
proof -
  have sub: "wire_types b \<subseteq>\<^sub>m wire_types a \<longleftrightarrow> wnames b \<subseteq> wnames a \<and> changes a b = {}"
  proof -
    have "wire_types b \<subseteq>\<^sub>m wire_types a \<longleftrightarrow> (\<forall>w\<in>wnames b. w \<in> wnames a \<and> type_at a w = type_at b w)"
      unfolding map_le_def dom_wire_types by (metis type_at)
    moreover have "changes a b = {} \<longleftrightarrow> (\<forall>w\<in>wnames a \<inter> wnames b. type_at a w = type_at b w)"
      unfolding changes_def type_at by auto
    ultimately show ?thesis by blast
  qed
  have ob: "cm_OnlyInB (CompareStructShapes a b) = [] \<longleftrightarrow> wnames b \<subseteq> wnames a"
    using only_in_empty [of b a b] by (simp add: CompareStructShapes_def Let_def)
  have dv: "cm_Divergences (CompareStructShapes a b) = [] \<longleftrightarrow> changes a b = {}"
    using type_changes_Nil [of a b] by (simp add: CompareStructShapes_def Let_def)
  have "cm_Identical (CompareStructShapes a b) \<Longrightarrow> wire_types b \<subseteq>\<^sub>m wire_types a"
    by (simp add: identical_iff)
  then show ?thesis unfolding ClassifyDriftSeverity_def using sub ob dv by auto
qed

text \<open>
  drift is breaking exactly when the consumer's wire map is not contained in the producer's,
  that is when the consumer needs a field the producer does not send or reads it at another type;
  producer-only additions are compatible.
\<close>

theorem ClassifyDriftSeverity_spec:
  "ClassifyDriftSeverity (CompareStructShapes a b) =
     (if wire_types b \<subseteq>\<^sub>m wire_types a then Compatible else Breaking)"
  by (rule severity_iff)

section \<open>Drift reports\<close>

definition free_of :: "string \<Rightarrow> nat list \<Rightarrow> field_info list \<Rightarrow> nat set" where
  "free_of ty pairedB onlyB = {i. i < length onlyB \<and> i \<notin> set pairedB \<and> fi_GoType (onlyB ! i) = ty}"

lemma pair_index_spec:
  "case pair_index ty pairedB k bs of
     None \<Rightarrow> \<forall>i<length bs. k + i \<in> set pairedB \<or> ty \<noteq> fi_GoType (bs ! i)
   | Some j \<Rightarrow> k \<le> j \<and> j - k < length bs \<and> j \<notin> set pairedB \<and> ty = fi_GoType (bs ! (j - k))"
proof (induction bs arbitrary: k)
  case Nil
  then show ?case by simp
next
  case (Cons b bs)
  show ?case
  proof (cases "k \<in> set pairedB \<or> ty \<noteq> fi_GoType b")
    case False
    then show ?thesis by simp
  next
    case True
    show ?thesis
    proof (cases "pair_index ty pairedB (Suc k) bs")
      case None
      have "\<forall>i<length (b # bs). k + i \<in> set pairedB \<or> ty \<noteq> fi_GoType ((b # bs) ! i)"
        using Cons.IH [of "Suc k"] True None by (auto simp: nth_Cons split: nat.splits)
      then show ?thesis using True None by simp
    next
      case (Some j)
      then have "Suc k \<le> j \<and> j - Suc k < length bs \<and> j \<notin> set pairedB \<and> ty = fi_GoType (bs ! (j - Suc k))"
        using Cons.IH [of "Suc k"] by simp
      then show ?thesis using True Some by (auto simp: nth_Cons')
    qed
  qed
qed

lemma pair_index_0:
  "pair_index ty pairedB 0 onlyB = None \<Longrightarrow> free_of ty pairedB onlyB = {}"
  "pair_index ty pairedB 0 onlyB = Some j \<Longrightarrow> j \<in> free_of ty pairedB onlyB"
  using pair_index_spec [where ty = ty and pairedB = pairedB and k = 0 and bs = onlyB] by (auto simp: free_of_def)

lemma free_of_pair:
  assumes "j \<in> free_of ty pairedB onlyB"
  shows "free_of t (j # pairedB) onlyB = (if t = ty then free_of t pairedB onlyB - {j} else free_of t pairedB onlyB)"
  using assms by (auto simp: free_of_def)

lemma renamed_loop_status:
  "f \<in> set (renamed_loop onlyB ra rb pairedB as) \<Longrightarrow> df_Status f = ''renamed'' \<and> df_TypeA f = df_TypeB f"
  by (induction as arbitrary: pairedB) (auto dest!: pair_index_0(2) simp: free_of_def split: option.splits)

text \<open>For each type the greedy pairing is as large as it can be, whatever the map order was.\<close>

lemma renamed_loop_count:
  "length (filter (\<lambda>f. df_TypeA f = t) (renamed_loop onlyB ra rb pairedB as)) =
     min (length (filter (\<lambda>f. fi_GoType f = t) as)) (card (free_of t pairedB onlyB))"
proof (induction as arbitrary: pairedB)
  case Nil
  then show ?case by simp
next
  case (Cons a as)
  have fin: "finite (free_of ty p onlyB)" for ty and p :: "nat list" by (simp add: free_of_def)
  show ?case
  proof (cases "pair_index (fi_GoType a) pairedB 0 onlyB")
    case None
    then show ?thesis using Cons pair_index_0(1) by auto
  next
    case (Some j)
    then have j: "j \<in> free_of (fi_GoType a) pairedB onlyB" by (rule pair_index_0(2))
    then have pos: "0 < card (free_of (fi_GoType a) pairedB onlyB)"
      using fin card_gt_0_iff by blast
    have "card (free_of (fi_GoType a) pairedB onlyB - {j}) = card (free_of (fi_GoType a) pairedB onlyB) - 1"
      using j fin by (simp add: card_Diff_singleton)
    then show ?thesis using Some Cons free_of_pair [OF j, of t] pos by auto
  qed
qed

lemma card_free_all: "card (free_of t [] onlyB) = length (filter (\<lambda>f. fi_GoType f = t) onlyB)"
  by (simp add: free_of_def length_filter_conv_card)

text \<open>
  no report is made for identical shapes. When both sides have a field the other lacks, the
  report holds rename entries only, for each type as many as fields of that type can be paired;
  the type changes of shared fields are not in it. Otherwise it lists the one-sided fields and
  the type changes, all of them.
\<close>

theorem DetectDrift_spec:
  "case DetectDrift fromRef toRef a b now of
     None \<Rightarrow> wire_types a = wire_types b
   | Some r \<Rightarrow>
       dr_Severity r = (if wire_types b \<subseteq>\<^sub>m wire_types a then Compatible else Breaking)
       \<and> (let c = CompareStructShapes a b in
         if cm_OnlyInA c \<noteq> [] \<and> cm_OnlyInB c \<noteq> []
         then set (map df_Status (dr_Fields r)) \<subseteq> {''renamed''}
              \<and> map df_TypeA (dr_Fields r) = map df_TypeB (dr_Fields r)
              \<and> (\<forall>t. length (filter (\<lambda>f. df_TypeA f = t) (dr_Fields r)) =
                   min (length (filter (\<lambda>f. fi_GoType f = t) (cm_OnlyInA c)))
                       (length (filter (\<lambda>f. fi_GoType f = t) (cm_OnlyInB c))))
         else map df_WireName (dr_Fields r) =
              map fi_WireName (cm_OnlyInA c) @ map fi_WireName (cm_OnlyInB c) @ map dv_WireName (cm_Divergences c))"
proof (cases "cm_Identical (CompareStructShapes a b)")
  case True
  then show ?thesis by (simp add: DetectDrift_def identical_iff)
next
  case False
  then show ?thesis
    by (auto simp: DetectDrift_def severity_iff buildDriftFields_def buildRenamedFields_def Let_def
        renamed_loop_count card_free_all dest: renamed_loop_status)
qed

end
