(* ===== verification/Contract_Pairs.thy ===== *)
theory Contract_Pairs
  imports Contract
begin

text \<open>
  The constant indexes: which pairs of constants become contract candidates, and which pairs are
  reported as constant drift. Both are characterised as sets over the constants of the analysis,
  so neither depends on the iteration order of the maps.
\<close>

section \<open>The constants of an analysis\<close>

definition is_constant :: "analysis \<Rightarrow> constant_ref \<Rightarrow> bool" where
  "is_constant an r \<longleftrightarrow> map_of (gm_get [] (an_Constants an) (cr_Repo r)) (cr_Name r) = Some (cr_Value r)"

definition constants_wf :: "analysis \<Rightarrow> bool" where
  "constants_wf an \<longleftrightarrow> gm_wf (an_Constants an) \<and> (\<forall>(repo, cts)\<in>set (an_Constants an). gm_wf cts)"

lemma ref_eq:
  "r = \<lparr>cr_Repo = a, cr_Name = b, cr_Value = c\<rparr> \<longleftrightarrow> cr_Repo r = a \<and> cr_Name r = b \<and> cr_Value r = c"
  by (cases r) auto

lemma constant_refs_set:
  assumes "constants_wf an"
  shows "r \<in> set (constant_refs an) \<longleftrightarrow> is_constant an r"
proof -
  have wf: "gm_wf (an_Constants an)" "\<And>repo cts. (repo, cts) \<in> set (an_Constants an) \<Longrightarrow> gm_wf cts"
    using assms by (auto simp: constants_wf_def)
  have "r \<in> set (constant_refs an) \<longleftrightarrow>
      (\<exists>cts. (cr_Repo r, cts) \<in> set (an_Constants an) \<and> (cr_Name r, cr_Value r) \<in> set cts)"
    by (auto simp: constant_refs_def image_iff ref_eq) (force+)
  also have "\<dots> \<longleftrightarrow> is_constant an r"
  proof (cases "map_of (an_Constants an) (cr_Repo r)")
    case None
    then show ?thesis using gm_wf_in_map_of [OF wf(1)] by (simp add: is_constant_def gm_get_def)
  next
    case (Some cts)
    then have m: "(cr_Repo r, cts) \<in> set (an_Constants an)" by (rule map_of_SomeD)
    have "(cr_Repo r, c) \<in> set (an_Constants an) \<longleftrightarrow> c = cts" for c
      using gm_wf_in_map_of [OF wf(1)] Some by auto
    then show ?thesis using gm_wf_in_map_of [OF wf(2) [OF m]] Some by (simp add: is_constant_def gm_get_def)
  qed
  finally show ?thesis .
qed

lemma constant_refs_distinct:
  assumes "constants_wf an"
  shows "distinct (map (\<lambda>r. (cr_Repo r, cr_Name r)) (constant_refs an))"
proof -
  have "gm_wf m \<Longrightarrow> (\<forall>(repo, cts)\<in>set m. gm_wf cts) \<Longrightarrow>
    distinct (concat (map (\<lambda>(repo, cts). map (\<lambda>(name, val). (repo, name)) cts) m))"
    for m :: "(string, (string, string) gomap) gomap"
  proof (induction m)
    case Nil
    then show ?case by simp
  next
    case (Cons p m)
    obtain repo cts where p: "p = (repo, cts)" by (cases p)
    have c: "distinct (map fst cts)" using Cons.prems p by (simp add: gm_wf_def)
    have "map (\<lambda>(name, val). (repo, name)) cts = map (Pair repo) (map fst cts)" by (simp add: split_def)
    then have 1: "distinct (map (\<lambda>(name, val). (repo, name)) cts)"
      using c by (simp add: distinct_map inj_on_def del: map_map)
    have 2: "repo \<notin> fst ` set m" using Cons.prems p by (simp add: gm_wf_def)
    have "gm_wf m" using Cons.prems by (simp add: gm_wf_def)
    then have "distinct (concat (map (\<lambda>(repo, cts). map (\<lambda>(name, val). (repo, name)) cts) m))"
      using Cons by simp
    then show ?case using 1 2 p by force
  qed
  moreover have "map (\<lambda>r. (cr_Repo r, cr_Name r)) (constant_refs an) =
      concat (map (\<lambda>(repo, cts). map (\<lambda>(name, val). (repo, name)) cts) (an_Constants an))"
    by (simp add: constant_refs_def map_concat comp_def split_def)
  ultimately show ?thesis using assms by (simp add: constants_wf_def)
qed

section \<open>The canonical order\<close>

lemma lessRef_then_by: "lessRef = then_by cr_Repo (by_key cr_Name)"
  by (intro ext) (simp add: lessRef_def then_by_def by_key_def)

interpretation ref_less: strict_weak lessRef
  unfolding lessRef_then_by by (intro strict_weak_intros)

lemma lessRef_total:
  "\<not> lessRef a b \<Longrightarrow> \<not> lessRef b a \<Longrightarrow> cr_Repo a = cr_Repo b \<and> cr_Name a = cr_Name b"
  by (auto simp: lessRef_def split: if_splits)

definition refs_keyed :: "constant_ref list \<Rightarrow> bool" where
  "refs_keyed refs \<longleftrightarrow> distinct (map (\<lambda>r. (cr_Repo r, cr_Name r)) refs)"

lemma sorted_refs:
  assumes "refs_keyed refs"
  shows "sorted_wrt lessRef (sort_by lessRef refs)"
proof -
  let ?s = "sort_by lessRef refs"
  have "mset (map (\<lambda>r. (cr_Repo r, cr_Name r)) ?s) = mset (map (\<lambda>r. (cr_Repo r, cr_Name r)) refs)" by simp
  then have d: "distinct (map (\<lambda>r. (cr_Repo r, cr_Name r)) ?s)"
    using assms unfolding refs_keyed_def by (metis mset_eq_imp_distinct_iff)
  have "lessRef (?s ! i) (?s ! j)" if "i < j" "j < length ?s" for i j
  proof -
    have "\<not> lessRef (?s ! j) (?s ! i)"
      using ref_less.sort_by_sorted [of refs] that by (simp add: sorted_wrt_iff_nth_less)
    moreover have "(cr_Repo (?s ! i), cr_Name (?s ! i)) \<noteq> (cr_Repo (?s ! j), cr_Name (?s ! j))"
      using d that by (auto simp: distinct_conv_nth dest: spec [where x = i])
    ultimately show ?thesis using lessRef_total by auto
  qed
  then show ?thesis by (simp add: sorted_wrt_iff_nth_less)
qed

lemma upairs_sorted_refs:
  "refs_keyed refs \<Longrightarrow>
     set (upairs (sort_by lessRef refs)) = {(a, b). a \<in> set refs \<and> b \<in> set refs \<and> lessRef a b}"
  using upairs_sorted [OF sorted_refs] ref_less.less_asym by fastforce

section \<open>Pair keys\<close>

text \<open>A reference whose repository and name can be read back from a pair key.\<close>

definition plain_ref :: "constant_ref \<Rightarrow> bool" where
  "plain_ref r \<longleftrightarrow> CHR '':'' \<notin> set (cr_Repo r) \<and> CHR '':'' \<notin> set (cr_Name r) \<and> \<not> contains (cr_Name r) arrow"

lemma split_at_char:
  "c \<notin> set x \<Longrightarrow> c \<notin> set y \<Longrightarrow> x @ [c] @ r = y @ [c] @ s \<Longrightarrow> x = y \<and> r = s"
  by (induction x arbitrary: y) (case_tac y; auto)+

lemma contains_append: "contains (u @ arrow @ v) arrow"
  by (simp add: contains_iff) blast

lemma split_at_arrow:
  assumes "\<not> contains x arrow" "\<not> contains y arrow" "x @ arrow @ r = y @ arrow @ s"
  shows "x = y \<and> r = s"
proof -
  have no_overlap: "u = []" if e: "u @ arrow @ r = arrow @ s" and n: "\<not> contains (y @ u) arrow" "\<not> contains u arrow"
    for u r s y
  proof (cases u)
    case (Cons a u')
    show ?thesis
    proof (cases u')
      case Nil
      then show ?thesis using e Cons by (simp add: arrow_def)
    next
      case (Cons b u'')
      show ?thesis
      proof (cases u'')
        case Nil
        then show ?thesis using e Cons \<open>u = a # u'\<close> by (simp add: arrow_def)
      next
        case (Cons c v)
        then have "u = [] @ arrow @ v" using e \<open>u' = b # u''\<close> \<open>u = a # u'\<close> by (simp add: arrow_def)
        then show ?thesis using n(2) contains_append [of "[]" v] by simp
      qed
    qed
  qed
  have sub: "\<not> contains u arrow" if "\<not> contains (y @ u) arrow" for u y
    using that by (simp add: contains_iff) (metis append_assoc)
  from iffD1 [OF append_eq_append_conv2 assms(3)] obtain u
    where u: "x = y @ u \<and> u @ arrow @ r = arrow @ s \<or> x @ u = y \<and> arrow @ r = u @ arrow @ s" by blast
  then show ?thesis
  proof
    assume 1: "x = y @ u \<and> u @ arrow @ r = arrow @ s"
    then have "u = []" using no_overlap [of u r s y] sub [of y u] assms(1) by blast
    with 1 show ?thesis by simp
  next
    assume 2: "x @ u = y \<and> arrow @ r = u @ arrow @ s"
    then have "u @ arrow @ s = arrow @ r" "\<not> contains (x @ u) arrow" using assms(2) by simp_all
    then have "u = []" using no_overlap [of u s r x] sub [of x u] by blast
    with 2 show ?thesis by simp
  qed
qed

lemma pair_key_inj:
  assumes "plain_ref a" "plain_ref b" "plain_ref c" "plain_ref d" and k: "pair_key a b = pair_key c d"
  shows "cr_Repo a = cr_Repo c \<and> cr_Name a = cr_Name c \<and> cr_Repo b = cr_Repo d \<and> cr_Name b = cr_Name d"
proof -
  have n: "CHR '':'' \<notin> set arrow" by (simp add: arrow_def)
  have "cr_Repo a = cr_Repo c \<and>
      cr_Name a @ arrow @ cr_Repo b @ '':'' @ cr_Name b = cr_Name c @ arrow @ cr_Repo d @ '':'' @ cr_Name d"
  proof (rule split_at_char)
    show "cr_Repo a @ [CHR '':''] @ cr_Name a @ arrow @ cr_Repo b @ '':'' @ cr_Name b =
        cr_Repo c @ [CHR '':''] @ cr_Name c @ arrow @ cr_Repo d @ '':'' @ cr_Name d"
      using k unfolding pair_key_def .
  qed (use assms in \<open>simp_all add: plain_ref_def\<close>)
  then have 1: "cr_Repo a = cr_Repo c"
    "cr_Name a @ arrow @ cr_Repo b @ '':'' @ cr_Name b = cr_Name c @ arrow @ cr_Repo d @ '':'' @ cr_Name d" by blast+
  have "cr_Name a @ arrow @ cr_Repo b = cr_Name c @ arrow @ cr_Repo d \<and> cr_Name b = cr_Name d"
  proof (rule split_at_char)
    show "(cr_Name a @ arrow @ cr_Repo b) @ [CHR '':''] @ cr_Name b = (cr_Name c @ arrow @ cr_Repo d) @ [CHR '':''] @ cr_Name d"
      using 1(2) by simp
  qed (use assms n in \<open>simp_all add: plain_ref_def\<close>)
  then have 2: "cr_Name a @ arrow @ cr_Repo b = cr_Name c @ arrow @ cr_Repo d" "cr_Name b = cr_Name d" by blast+
  have "cr_Name a = cr_Name c \<and> cr_Repo b = cr_Repo d"
    by (rule split_at_arrow) (use 2 assms in \<open>simp_all add: plain_ref_def\<close>)
  with 1 2 show ?thesis by simp
qed

section \<open>Shared constants\<close>

abbreviation mk_pair :: "constant_ref \<times> constant_ref \<Rightarrow> constant_pair" where
  "mk_pair p \<equiv> \<lparr>cp_A = fst p, cp_B = snd p\<rparr>"

definition fresh_keys :: "(constant_ref \<times> constant_ref) \<Rightarrow> string list \<Rightarrow> bool" where
  "fresh_keys p seen \<longleftrightarrow> pair_key (fst p) (snd p) \<notin> set seen \<and> pair_key (snd p) (fst p) \<notin> set seen"

lemma cross_fold:
  assumes "\<And>p. p \<in> set ps \<Longrightarrow> fresh_keys p seen"
    and "sorted_wrt (\<lambda>p q. fresh_keys q [pair_key (fst p) (snd p)]) ps"
  shows "fst (fold cross_step ps (acc, seen)) = acc @ map mk_pair (filter (\<lambda>(a, b). cr_Repo a \<noteq> cr_Repo b) ps)"
  using assms
proof (induction ps arbitrary: acc seen)
  case Nil
  then show ?case by simp
next
  case (Cons p ps)
  obtain a b where p: "p = (a, b)" by (cases p)
  show ?case
  proof (cases "cr_Repo a = cr_Repo b")
    case True
    then show ?thesis using Cons p by (simp add: cross_step_def)
  next
    case False
    have f: "fresh_keys p seen" using Cons.prems(1) by simp
    have st: "cross_step p (acc, seen) = (acc @ [mk_pair p], pair_key a b # seen)"
      using False f p by (simp add: cross_step_def fresh_keys_def)
    have "fst (fold cross_step ps (acc @ [mk_pair p], pair_key a b # seen)) =
        (acc @ [mk_pair p]) @ map mk_pair (filter (\<lambda>(a, b). cr_Repo a \<noteq> cr_Repo b) ps)"
    proof (rule Cons.IH)
      show "fresh_keys q (pair_key a b # seen)" if "q \<in> set ps" for q
        using Cons.prems that p by (auto simp: fresh_keys_def)
      show "sorted_wrt (\<lambda>p q. fresh_keys q [pair_key (fst p) (snd p)]) ps" using Cons.prems(2) by simp
    qed
    then show ?thesis using st False p by simp
  qed
qed

definition group_pairs :: "(string, constant_pair list) gomap \<Rightarrow> (constant_ref \<times> constant_ref) list" where
  "group_pairs index = concat (map (\<lambda>(v, refs). upairs (sort_by lessRef (map cp_A refs))) index)"

lemma cross_acc:
  "fold cross_step ps (acc @ pairs, seen) =
     (acc @ fst (fold cross_step ps (pairs, seen)), snd (fold cross_step ps (pairs, seen)))"
proof (induction ps arbitrary: pairs seen)
  case (Cons p ps)
  have "cross_step p (acc @ pairs, seen) = (acc @ fst (cross_step p (pairs, seen)), snd (cross_step p (pairs, seen)))"
    by (cases p) (simp add: cross_step_def)
  then show ?case using Cons.IH [of "fst (cross_step p (pairs, seen))" "snd (cross_step p (pairs, seen))"] by simp
qed simp

lemma findPairs_fold:
  "findPairsAcrossRepos index st = fold cross_step (group_pairs index) st"
proof (induction index st rule: findPairsAcrossRepos.induct)
  case (2 v refs index pairs seen)
  let ?u = "upairs (sort_by lessRef (map cp_A refs))"
  have c: "collectCrossRepoPairs refs seen = fold cross_step ?u ([], seen)"
    by (simp add: collectCrossRepoPairs_def map_sort_by)
  have "fold cross_step ?u (pairs, seen) =
      (pairs @ fst (fold cross_step ?u ([], seen)), snd (fold cross_step ?u ([], seen)))"
    using cross_acc [of ?u pairs "[]" seen] by simp
  then show ?case using 2 c by (simp add: group_pairs_def split: prod.splits)
qed (simp add: group_pairs_def)

abbreviation named_refs :: "analysis \<Rightarrow> constant_ref list" where
  "named_refs an \<equiv> filter (\<lambda>r. cr_Value r \<noteq> []) (constant_refs an)"

lemma value_index_entry:
  "(v, refs) \<in> set (buildValueIndex an) \<Longrightarrow> map cp_A refs = filter (\<lambda>r. cr_Value r = v) (named_refs an)"
  unfolding buildValueIndex_def by (drule group_by_entries) (simp add: comp_def)

lemma keyed_filter: "refs_keyed xs \<Longrightarrow> refs_keyed (filter P xs)"
  by (auto simp: refs_keyed_def distinct_map inj_on_def)

lemma group_pairs_set:
  assumes "refs_keyed (constant_refs an)"
  shows "set (group_pairs (buildValueIndex an)) =
    {(a, b). a \<in> set (named_refs an) \<and> b \<in> set (named_refs an) \<and> cr_Value a = cr_Value b \<and> lessRef a b}"
    (is "_ = ?R")
proof
  have u: "set (upairs (sort_by lessRef (map cp_A refs))) =
      {(a, b). a \<in> set (named_refs an) \<and> b \<in> set (named_refs an) \<and> cr_Value a = v \<and> cr_Value b = v \<and> lessRef a b}"
    if "(v, refs) \<in> set (buildValueIndex an)" for v refs
    using upairs_sorted_refs [OF keyed_filter [OF keyed_filter [OF assms]]] value_index_entry [OF that] by auto
  show "set (group_pairs (buildValueIndex an)) \<subseteq> ?R" unfolding group_pairs_def using u by fastforce
  show "?R \<subseteq> set (group_pairs (buildValueIndex an))"
  proof clarify
    fix a b
    assume ab: "a \<in> set (named_refs an)" "b \<in> set (named_refs an)" "cr_Value a = cr_Value b" "lessRef a b"
    obtain refs where r: "(cr_Value a, refs) \<in> set (buildValueIndex an)"
      unfolding buildValueIndex_def using group_by_mem [OF ab(1), of cr_Value] by blast
    have "(a, b) \<in> set (upairs (sort_by lessRef (map cp_A refs)))" unfolding u [OF r] using ab by simp
    then show "(a, b) \<in> set (group_pairs (buildValueIndex an))" unfolding group_pairs_def using r by force
  qed
qed

lemma group_pairs_distinct:
  assumes "refs_keyed (constant_refs an)"
  shows "distinct (group_pairs (buildValueIndex an))"
  unfolding group_pairs_def
proof (rule distinct_concat_tagged [where k = fst and t = "\<lambda>p. cr_Value (fst p)"])
  fix x :: "string \<times> constant_pair list" and y :: "constant_ref \<times> constant_ref"
  assume x: "x \<in> set (buildValueIndex an)"
  then have e: "map cp_A (snd x) = filter (\<lambda>r. cr_Value r = fst x) (named_refs an)"
    using value_index_entry by (cases x) auto
  have "distinct (map cp_A (snd x))"
    unfolding e using assms unfolding refs_keyed_def by (simp add: distinct_map)
  then show "distinct (case x of (v, refs) \<Rightarrow> upairs (sort_by lessRef (map cp_A refs)))"
    by (auto intro: upairs_distinct split: prod.split)
  assume "y \<in> set (case x of (v, refs) \<Rightarrow> upairs (sort_by lessRef (map cp_A refs)))"
  then have "fst y \<in> set (map cp_A (snd x))"
    using upairs_mem [of "fst y" "snd y"] by (cases x) fastforce
  then show "cr_Value (fst y) = fst x" unfolding e by simp
next
  show "distinct (map fst (buildValueIndex an))"
    using group_by_wf [OF gm_wf_Nil] unfolding buildValueIndex_def gm_wf_def by blast
qed

text \<open>
  the shared-constant search returns every pair of constants of different repositories with
  the same non-empty value, each once and with the smaller repository first, and nothing else;
  the order in which the maps are walked changes only the order of the list.
\<close>

theorem FindSharedTypeConstants_spec:
  assumes wf: "constants_wf an" and plain: "\<And>r. is_constant an r \<Longrightarrow> plain_ref r"
  shows "distinct (FindSharedTypeConstants an) \<and>
    set (FindSharedTypeConstants an) =
      {\<lparr>cp_A = a, cp_B = b\<rparr> | a b. is_constant an a \<and> is_constant an b \<and> cr_Value a = cr_Value b
         \<and> cr_Value a \<noteq> [] \<and> cr_Repo a < cr_Repo b}"
proof -
  let ?ps = "group_pairs (buildValueIndex an)"
  have keyed: "refs_keyed (constant_refs an)" using constant_refs_distinct [OF wf] by (simp add: refs_keyed_def)
  note members = group_pairs_set [OF keyed]
  have mem: "plain_ref a \<and> plain_ref b \<and> is_constant an a \<and> is_constant an b \<and> lessRef a b" if "(a, b) \<in> set ?ps" for a b
    using that plain unfolding members by (auto simp: constant_refs_set [OF wf])
  have same: "a = c" if "is_constant an a" "is_constant an c" "cr_Repo a = cr_Repo c" "cr_Name a = cr_Name c" for a c
    using that by (cases a; cases c) (auto simp: is_constant_def)
  have fresh: "fresh_keys q [pair_key (fst p) (snd p)]" if pq: "p \<in> set ?ps" "q \<in> set ?ps" "p \<noteq> q" for p q
  proof -
    obtain a b c d where [simp]: "p = (a, b)" "q = (c, d)" by (cases p; cases q) blast
    have m: "plain_ref a" "plain_ref b" "plain_ref c" "plain_ref d" "is_constant an a" "is_constant an b"
      "is_constant an c" "is_constant an d" "lessRef a b" "lessRef c d"
      using mem pq by auto
    have "pair_key c d \<noteq> pair_key a b"
      using pair_key_inj [OF m(3,4,1,2)] same [OF m(7,5)] same [OF m(8,6)] pq(3) by auto
    moreover have "pair_key d c \<noteq> pair_key a b"
      using pair_key_inj [OF m(4,3,1,2)] same [OF m(8,5)] same [OF m(7,6)] m(9,10) ref_less.less_asym by auto
    ultimately show ?thesis by (simp add: fresh_keys_def)
  qed
  have "sorted_wrt (\<lambda>p q. fresh_keys q [pair_key (fst p) (snd p)]) ?ps"
    using group_pairs_distinct [OF keyed] fresh
    by (auto simp: sorted_wrt_iff_nth_less distinct_conv_nth)
  then have r: "FindSharedTypeConstants an = map mk_pair (filter (\<lambda>(a, b). cr_Repo a \<noteq> cr_Repo b) ?ps)"
    using cross_fold [of ?ps "[]" "[]"] by (simp add: FindSharedTypeConstants_def findPairs_fold fresh_keys_def)
  have "distinct (FindSharedTypeConstants an)"
    unfolding r using group_pairs_distinct [OF keyed] by (auto simp: distinct_map inj_on_def)
  moreover have "set (FindSharedTypeConstants an) = mk_pair ` {(a, b). (a, b) \<in> set ?ps \<and> cr_Repo a \<noteq> cr_Repo b}"
    unfolding r by auto
  moreover have "{(a, b). (a, b) \<in> set ?ps \<and> cr_Repo a \<noteq> cr_Repo b} =
      {(a, b). is_constant an a \<and> is_constant an b \<and> cr_Value a = cr_Value b \<and> cr_Value a \<noteq> [] \<and> cr_Repo a < cr_Repo b}"
    unfolding members by (auto simp: constant_refs_set [OF wf] lessRef_def)
  ultimately show ?thesis by (auto simp: image_iff)
qed

definition demo_constants :: analysis where
  "demo_constants =
     \<lparr>an_Symbols = [], an_Constants = [(''api'', [(''t.Ask'', ''ask'')]), (''web'', [(''m.Ask'', ''ask'')])],
      an_Structs = [], an_Files = []\<rparr>"

theorem FindSharedTypeConstants_spec_witness:
  "\<lparr>cp_A = \<lparr>cr_Repo = ''api'', cr_Name = ''t.Ask'', cr_Value = ''ask''\<rparr>,
    cp_B = \<lparr>cr_Repo = ''web'', cr_Name = ''m.Ask'', cr_Value = ''ask''\<rparr>\<rparr> \<in> set (FindSharedTypeConstants demo_constants)"
proof -
  have wf: "constants_wf demo_constants" by (simp add: constants_wf_def demo_constants_def gm_wf_def)
  have plain: "plain_ref r" if "is_constant demo_constants r" for r
    using that by (cases r) (auto simp: is_constant_def demo_constants_def gm_get_def plain_ref_def arrow_def
        contains_def str_index.simps has_prefix_def split: if_splits)
  show ?thesis
    using FindSharedTypeConstants_spec [OF wf plain]
    by (simp add: is_constant_def demo_constants_def gm_get_def)
qed

section \<open>Constant drift\<close>

definition value_drift :: "unidata \<Rightarrow> string \<Rightarrow> constant_ref \<Rightarrow> constant_ref \<Rightarrow> drift_report" where
  "value_drift U now a b =
     \<lparr>dr_FromRef = cr_Name a, dr_ToRef = cr_Name b, dr_Severity = Breaking,
      dr_Evidence = formatValueDriftEvidence U a b, dr_IndexedAt = now,
      dr_Fields = [value_field a b ''value_changed'']\<rparr>"

definition name_drift :: "unidata \<Rightarrow> string \<Rightarrow> constant_ref \<Rightarrow> constant_ref \<Rightarrow> drift_report" where
  "name_drift U now a b =
     \<lparr>dr_FromRef = cr_Name a, dr_ToRef = cr_Name b, dr_Severity = Unknown,
      dr_Evidence = formatNameDriftEvidence U a b, dr_IndexedAt = now,
      dr_Fields = [value_field a b ''same_value_different_name'']\<rparr>"

lemma drift_groups_set:
  assumes keyed: "refs_keyed (constant_refs an)"
  shows "set (concat (map (\<lambda>(_, refs). drift_group f refs) (group_by key (\<lambda>r. r) (constant_refs an) []))) =
    (\<Union>a\<in>set (constant_refs an). \<Union>b\<in>{b \<in> set (constant_refs an). key a = key b \<and> lessRef a b}. set (f (a, b)))"
    (is "set (concat (map _ ?index)) = ?R")
proof
  have entry: "refs = filter (\<lambda>r. key r = k) (constant_refs an)" if "(k, refs) \<in> set ?index" for k refs
    using group_by_entries [OF that] by simp
  have u: "set (upairs (sort_by lessRef refs)) =
      {(a, b). a \<in> set (constant_refs an) \<and> b \<in> set (constant_refs an) \<and> key a = k \<and> key b = k \<and> lessRef a b}"
    if "(k, refs) \<in> set ?index" for k refs
    using upairs_sorted_refs [OF keyed_filter [OF keyed]] entry [OF that] by auto
  have sub: "set (drift_group f refs) \<subseteq> (\<Union>p\<in>set (upairs (sort_by lessRef refs)). set (f p))" for refs
    by (auto simp: drift_group_def)
  show "set (concat (map (\<lambda>(_, refs). drift_group f refs) ?index)) \<subseteq> ?R" using sub u by fastforce
  show "?R \<subseteq> set (concat (map (\<lambda>(_, refs). drift_group f refs) ?index))"
  proof clarify
    fix a b r
    assume ab: "a \<in> set (constant_refs an)" "b \<in> set (constant_refs an)" "key a = key b" "lessRef a b" "r \<in> set (f (a, b))"
    obtain refs where g: "(key a, refs) \<in> set ?index" using group_by_mem [OF ab(1), of key] by blast
    then have "refs = filter (\<lambda>r. key r = key a) (constant_refs an)" by (rule entry)
    then have m: "a \<in> set refs" "b \<in> set refs" using ab by simp_all
    have "a \<noteq> b" using ab(4) ref_less.less_asym by blast
    then have "\<not> length refs < 2" using m by (cases refs; cases "tl refs") auto
    moreover have "(a, b) \<in> set (upairs (sort_by lessRef refs))" unfolding u [OF g] using ab by simp
    ultimately have "r \<in> set (drift_group f refs)" using ab(5) by (force simp: drift_group_def)
    then show "r \<in> set (concat (map (\<lambda>(_, refs). drift_group f refs) ?index))" using g by force
  qed
qed

text \<open>
  constant drift is reported for exactly the pairs of constants of different repositories, the
  smaller repository first, that share the short name but not the value (breaking) or share the
  value but not the short name (unknown), each with its evidence line.
\<close>

theorem FindConstantDrift_spec:
  assumes wf: "constants_wf an"
  shows "r \<in> set (FindConstantDrift U an now) \<longleftrightarrow>
    (\<exists>a b. is_constant an a \<and> is_constant an b \<and> cr_Repo a < cr_Repo b \<and>
       (extractShortName (cr_Name a) = extractShortName (cr_Name b) \<and> cr_Value a \<noteq> cr_Value b
          \<and> r = value_drift U now a b
        \<or> extractShortName (cr_Name a) \<noteq> extractShortName (cr_Name b) \<and> cr_Value a = cr_Value b
          \<and> r = name_drift U now a b))"
proof -
  have keyed: "refs_keyed (constant_refs an)" using constant_refs_distinct [OF wf] by (simp add: refs_keyed_def)
  have less: "lessRef a b \<and> cr_Repo a \<noteq> cr_Repo b \<longleftrightarrow> cr_Repo a < cr_Repo b" for a b
    by (auto simp: lessRef_def)
  have v: "set (value_drift_pair U now (a, b)) =
      (if cr_Repo a \<noteq> cr_Repo b \<and> cr_Value a \<noteq> cr_Value b \<and> extractShortName (cr_Name a) = extractShortName (cr_Name b)
       then {value_drift U now a b} else {})" for a b
    by (simp add: value_drift_pair_def DetectConstantDrift_def value_drift_def)
  have n: "set (name_drift_pair U now (a, b)) =
      (if cr_Repo a \<noteq> cr_Repo b \<and> cr_Value a = cr_Value b \<and> extractShortName (cr_Name a) \<noteq> extractShortName (cr_Name b)
       then {name_drift U now a b} else {})" for a b
    by (simp add: name_drift_pair_def DetectConstantDrift_def name_drift_def)
  have "r \<in> set (FindConstantDrift U an now) \<longleftrightarrow>
      (\<exists>a b. a \<in> set (constant_refs an) \<and> b \<in> set (constant_refs an) \<and> lessRef a b \<and>
        (extractShortName (cr_Name a) = extractShortName (cr_Name b) \<and> r \<in> set (value_drift_pair U now (a, b))
         \<or> cr_Value a = cr_Value b \<and> r \<in> set (name_drift_pair U now (a, b))))"
    unfolding FindConstantDrift_def findValueDrifts_def findNameDrifts_def buildNameIndex_def
      buildReverseValueIndex_def set_append drift_groups_set [OF keyed] by blast
  moreover have "(lessRef a b \<and>
        (extractShortName (cr_Name a) = extractShortName (cr_Name b) \<and> r \<in> set (value_drift_pair U now (a, b))
         \<or> cr_Value a = cr_Value b \<and> r \<in> set (name_drift_pair U now (a, b)))) \<longleftrightarrow>
      cr_Repo a < cr_Repo b \<and>
       (extractShortName (cr_Name a) = extractShortName (cr_Name b) \<and> cr_Value a \<noteq> cr_Value b
          \<and> r = value_drift U now a b
        \<or> extractShortName (cr_Name a) \<noteq> extractShortName (cr_Name b) \<and> cr_Value a = cr_Value b
          \<and> r = name_drift U now a b)" for a b
    unfolding v n less [symmetric] by auto
  ultimately show ?thesis unfolding constant_refs_set [OF wf] by simp
qed

definition demo_drift :: analysis where
  "demo_drift = demo_constants\<lparr>an_Constants := [(''api'', [(''t.Ask'', ''ask'')]), (''web'', [(''m.Ask'', ''ask2'')])]\<rparr>"

theorem FindConstantDrift_spec_witness:
  "value_drift ascii_tables ''2024-01-01T00:00:00Z'' \<lparr>cr_Repo = ''api'', cr_Name = ''t.Ask'', cr_Value = ''ask''\<rparr>
     \<lparr>cr_Repo = ''web'', cr_Name = ''m.Ask'', cr_Value = ''ask2''\<rparr>
   \<in> set (FindConstantDrift ascii_tables demo_drift ''2024-01-01T00:00:00Z'')"
proof -
  have wf: "constants_wf demo_drift" by (simp add: constants_wf_def demo_drift_def demo_constants_def gm_wf_def)
  show ?thesis
    unfolding FindConstantDrift_spec [OF wf]
    by (rule exI [where x = "\<lparr>cr_Repo = ''api'', cr_Name = ''t.Ask'', cr_Value = ''ask''\<rparr>"],
        rule exI [where x = "\<lparr>cr_Repo = ''web'', cr_Name = ''m.Ask'', cr_Value = ''ask2''\<rparr>"])
      (simp add: is_constant_def demo_drift_def demo_constants_def gm_get_def extractShortName_def)
qed

end
