(* ===== verification/GoScan.thy ===== *)
theory GoScan
  imports GoStrings
begin

text \<open>
  The byte scanners of \<^verbatim>\<open>contract/runtime.go\<close>: string literals, comments, call sites, case
  clauses, import blocks. An index may run past the end of the source, as it does in the code;
  \<open>None\<close> is the run-time panic of a slice expression whose bounds are out of order.
\<close>

section \<open>Literals, comments, white space\<close>

function skip_quoted :: "char \<Rightarrow> string \<Rightarrow> nat \<Rightarrow> nat" where
  "skip_quoted quote src i =
     (if i < length src then
        (if src ! i = CHR 0x5C \<and> quote \<noteq> CHR 0x60 then skip_quoted quote src (i + 2)
         else if src ! i = quote then i + 1
         else skip_quoted quote src (i + 1))
      else i)"
  by pat_completeness auto
termination by (relation "measure (\<lambda>(q, src, i). length src - i)") auto

declare skip_quoted.simps [simp del]

definition skipStringLiteral :: "string \<Rightarrow> nat \<Rightarrow> nat" where
  "skipStringLiteral src i = skip_quoted (src ! i) src (i + 1)"

lemma skip_quoted_ge: "i \<le> skip_quoted q src i"
  by (induction q src i rule: skip_quoted.induct) (subst skip_quoted.simps, auto)

lemma skip_quoted_le: "i \<le> length src + 1 \<Longrightarrow> skip_quoted q src i \<le> length src + 1"
  by (induction q src i rule: skip_quoted.induct) (subst skip_quoted.simps, auto)

lemma skipStringLiteral_gt [simp]: "i < skipStringLiteral src i"
  using skip_quoted_ge [of "i + 1" "src ! i" src] by (simp add: skipStringLiteral_def)

definition scanStringLiteral :: "string \<Rightarrow> nat \<Rightarrow> (string \<times> nat) option" where
  "scanStringLiteral src i =
     (let j = skipStringLiteral src i in
      if i + 1 \<le> j - 1 \<and> j - 1 \<le> length src
      then Some (take (j - 1 - (i + 1)) (drop (i + 1) src), j) else None)"

function skipLineComment :: "string \<Rightarrow> nat \<Rightarrow> nat" where
  "skipLineComment src i =
     (if i < length src \<and> src ! i \<noteq> CHR 0x0A then skipLineComment src (i + 1) else i)"
  by pat_completeness auto
termination by (relation "measure (\<lambda>(src, i). length src - i)") auto

function block_loop :: "string \<Rightarrow> nat \<Rightarrow> nat" where
  "block_loop src i =
     (if i + 1 < length src \<and> (src ! i \<noteq> CHR ''*'' \<or> src ! (i + 1) \<noteq> CHR ''/'')
      then block_loop src (i + 1) else i)"
  by pat_completeness auto
termination by (relation "measure (\<lambda>(src, i). length src - i)") auto

declare skipLineComment.simps [simp del] block_loop.simps [simp del]

definition skipBlockComment :: "string \<Rightarrow> nat \<Rightarrow> nat" where
  "skipBlockComment src i = block_loop src (i + 2) + 2"

lemma skipLineComment_ge: "i \<le> skipLineComment src i"
  by (induction src i rule: skipLineComment.induct) (subst skipLineComment.simps, auto)

lemma block_loop_ge: "i \<le> block_loop src i"
  by (induction src i rule: block_loop.induct) (subst block_loop.simps, auto)

lemma skipBlockComment_gt: "i < skipBlockComment src i"
  using block_loop_ge [of "i + 2" src] by (simp add: skipBlockComment_def)

definition go_ws :: "char \<Rightarrow> bool" where
  "go_ws c \<longleftrightarrow> c = CHR '' '' \<or> c = CHR 0x09 \<or> c = CHR 0x0D \<or> c = CHR 0x0A"

definition str_quote :: "char \<Rightarrow> bool" where
  "str_quote c \<longleftrightarrow> c = CHR 0x22 \<or> c = CHR 0x60"

definition any_quote :: "char \<Rightarrow> bool" where
  "any_quote c \<longleftrightarrow> str_quote c \<or> c = CHR 0x27"

text \<open>A comment that starts at \<open>i\<close>, and the index behind it.\<close>

definition comment_at :: "string \<Rightarrow> nat \<Rightarrow> nat option" where
  "comment_at src i =
     (if src ! i \<noteq> CHR ''/'' \<or> i + 1 \<ge> length src then None
      else if src ! (i + 1) = CHR ''/'' then Some (skipLineComment src i)
      else if src ! (i + 1) = CHR ''*'' then Some (skipBlockComment src i) else None)"

lemma comment_at_gt: "comment_at src i = Some j \<Longrightarrow> i < j"
proof -
  assume c: "comment_at src i = Some j"
  then have i: "i + 1 < length src" "src ! i = CHR ''/''" by (auto simp: comment_at_def split: if_splits)
  have "skipLineComment src i = skipLineComment src (i + 1)"
    using i by (subst skipLineComment.simps) simp
  then have "i < skipLineComment src i" using skipLineComment_ge [of "i + 1" src] by simp
  then show ?thesis using c skipBlockComment_gt [of i src] by (auto simp: comment_at_def split: if_splits)
qed

lemma comment_at_the: "comment_at src i \<noteq> None \<Longrightarrow> i < the (comment_at src i)"
  using comment_at_gt by fastforce

function skipWSAndComments :: "string \<Rightarrow> nat \<Rightarrow> nat" where
  "skipWSAndComments src i =
     (if i < length src then
        (if go_ws (src ! i) then skipWSAndComments src (i + 1)
         else if comment_at src i = None then i
         else skipWSAndComments src (the (comment_at src i)))
      else i)"
  by pat_completeness auto
termination
  by (relation "measure (\<lambda>(src, i). length src - i)")
    (simp_all add: comment_at_the diff_less_mono2)

function skipIgnored :: "string \<Rightarrow> nat \<Rightarrow> nat" where
  "skipIgnored src i =
     (if i < length src then
        (if go_ws (src ! i) then skipIgnored src (i + 1)
         else if any_quote (src ! i) then skipIgnored src (skipStringLiteral src i)
         else if comment_at src i = None then i
         else skipIgnored src (the (comment_at src i)))
      else i)"
  by pat_completeness auto
termination
  by (relation "measure (\<lambda>(src, i). length src - i)")
    (simp_all add: comment_at_the diff_less_mono2)

declare skipWSAndComments.simps [simp del] skipIgnored.simps [simp del]

lemma skipWSAndComments_ge: "i \<le> skipWSAndComments src i"
proof (induction src i rule: skipWSAndComments.induct)
  case (1 src i)
  show ?case
  proof (cases "i < length src \<and> \<not> go_ws (src ! i) \<and> comment_at src i \<noteq> None")
    case True
    then have "the (comment_at src i) \<le> skipWSAndComments src (the (comment_at src i))" using 1(2) by blast
    with True show ?thesis using comment_at_the [of src i] by (subst skipWSAndComments.simps) simp
  next
    case False
    with 1(1) show ?thesis by (subst skipWSAndComments.simps) auto
  qed
qed

lemma skipIgnored_ge: "i \<le> skipIgnored src i"
proof (induction src i rule: skipIgnored.induct)
  case (1 src i)
  consider "i < length src" "go_ws (src ! i)"
    | "i < length src" "\<not> go_ws (src ! i)" "any_quote (src ! i)"
    | "i < length src" "\<not> go_ws (src ! i)" "\<not> any_quote (src ! i)" "comment_at src i \<noteq> None"
    | "i \<ge> length src" | "i < length src" "\<not> go_ws (src ! i)" "\<not> any_quote (src ! i)" "comment_at src i = None"
    by linarith
  then show ?case
  proof cases
    case 1
    then show ?thesis using "1.IH"(1) by (subst skipIgnored.simps) simp
  next
    case 2
    then have "i \<le> skipIgnored src (skipStringLiteral src i)"
      using "1.IH"(2) skipStringLiteral_gt [of i src] by linarith
    then show ?thesis using 2 by (subst skipIgnored.simps) simp
  next
    case 3
    then show ?thesis using "1.IH"(3) comment_at_the [of src i] by (subst skipIgnored.simps) simp
  qed (subst skipIgnored.simps, simp)+
qed

section \<open>Identifiers\<close>

definition isIdentStart :: "char \<Rightarrow> bool" where
  "isIdentStart c \<longleftrightarrow> (CHR ''a'' \<le> c \<and> c \<le> CHR ''z'') \<or> (CHR ''A'' \<le> c \<and> c \<le> CHR ''Z'') \<or> c = CHR ''_''"

definition isIdentPart :: "char \<Rightarrow> bool" where
  "isIdentPart c \<longleftrightarrow> isIdentStart c \<or> (CHR ''0'' \<le> c \<and> c \<le> CHR ''9'')"

text \<open>The identifier loop: from \<open>i\<close> to the first byte that is no identifier part.\<close>

definition ident_len :: "string \<Rightarrow> nat \<Rightarrow> nat" where
  "ident_len src i = length (takeWhile isIdentPart (drop i src))"

definition ident_at :: "string \<Rightarrow> nat \<Rightarrow> string" where
  "ident_at src i = takeWhile isIdentPart (drop i src)"

lemma ident_len_pos: "i < length src \<Longrightarrow> isIdentStart (src ! i) \<Longrightarrow> 0 < ident_len src i"
  by (simp add: ident_len_def isIdentPart_def Cons_nth_drop_Suc [symmetric])

section \<open>Call sites\<close>

text \<open>Behind a slash that starts no comment the scanners advance by one byte.\<close>

definition past_slash :: "string \<Rightarrow> nat \<Rightarrow> nat" where
  "past_slash src i = (let next = skipWSAndComments src i in if next = i then i + 1 else next)"

lemma past_slash_gt [simp]: "i < past_slash src i"
  using skipWSAndComments_ge [of i src] by (auto simp: past_slash_def Let_def)

function brackets_loop :: "string \<Rightarrow> nat \<Rightarrow> int \<Rightarrow> nat" where
  "brackets_loop src i depth =
     (if i < length src then
        (if src ! i = CHR ''['' then brackets_loop src (i + 1) (depth + 1)
         else if src ! i = CHR '']'' then
           (if depth - 1 = 0 then i + 1 else brackets_loop src (i + 1) (depth - 1))
         else if any_quote (src ! i) then brackets_loop src (skipStringLiteral src i) depth
         else if src ! i = CHR ''/'' then brackets_loop src (past_slash src i) depth
         else brackets_loop src (i + 1) depth)
      else i)"
  by pat_completeness auto
termination by (relation "measure (\<lambda>(src, i, d). length src - i)") (auto simp: diff_less_mono2)

declare brackets_loop.simps [simp del]

definition skipBrackets :: "string \<Rightarrow> nat \<Rightarrow> nat" where
  "skipBrackets src i = (if i \<ge> length src \<or> src ! i \<noteq> CHR ''['' then i else brackets_loop src i 0)"

definition is_open :: "char \<Rightarrow> bool" where
  "is_open c \<longleftrightarrow> c = CHR ''('' \<or> c = CHR ''['' \<or> c = CHR ''{''"
definition is_close :: "char \<Rightarrow> bool" where
  "is_close c \<longleftrightarrow> c = CHR '')'' \<or> c = CHR '']'' \<or> c = CHR ''}''"

function args_loop :: "string \<Rightarrow> nat \<Rightarrow> nat \<Rightarrow> int \<Rightarrow> nat \<Rightarrow> string list \<Rightarrow> (string list \<times> nat) option" where
  "args_loop src argIndex i depth arg literals =
     (if i < length src then
        (if is_open (src ! i) then args_loop src argIndex (i + 1) (depth + 1) arg literals
         else if is_close (src ! i) then
           (if depth - 1 = 0 \<and> src ! i = CHR '')'' then Some (literals, i + 1)
            else args_loop src argIndex (i + 1) (depth - 1) arg literals)
         else if str_quote (src ! i) then
           (if depth = 1 \<and> arg \<ge> argIndex then
              (case scanStringLiteral src i of
                 None \<Rightarrow> None
               | Some (lit, _) \<Rightarrow> args_loop src argIndex (skipStringLiteral src i) depth arg (literals @ [lit]))
            else args_loop src argIndex (skipStringLiteral src i) depth arg literals)
         else if src ! i = CHR 0x27 then args_loop src argIndex (skipStringLiteral src i) depth arg literals
         else if src ! i = CHR '','' \<and> depth = 1 then args_loop src argIndex (i + 1) depth (arg + 1) literals
         else if src ! i = CHR ''/'' then args_loop src argIndex (past_slash src i) depth arg literals
         else args_loop src argIndex (i + 1) depth arg literals)
      else Some (literals, i))"
  by pat_completeness auto
termination
  by (relation "measure (\<lambda>(src, argIndex, i, depth, arg, literals). length src - i)")
    (auto simp: diff_less_mono2)

declare args_loop.simps [simp del]

definition scanCallArgs :: "string \<Rightarrow> nat \<Rightarrow> nat \<Rightarrow> (string list \<times> nat) option" where
  "scanCallArgs src opn argIndex = args_loop src argIndex (opn + 1) 1 0 []"

lemma args_loop_ge: "args_loop src argIndex i depth arg literals = Some (ls, e) \<Longrightarrow> i \<le> e"
proof (induction "length src - i" arbitrary: i depth arg literals rule: less_induct)
  case less
  show ?case
  proof (cases "i < length src")
    case True
    have IH: "i \<le> e" if "args_loop src argIndex j d a l = Some (ls, e)" "i < j" for j d a l
      using less.hyps [OF diff_less_mono2 [OF that(2) True] that(1)] that(2) by simp
    show ?thesis
      using less.prems True
      by (subst (asm) args_loop.simps) (auto split: if_splits option.splits elim!: IH)
  next
    case False
    then show ?thesis using less.prems by (subst (asm) args_loop.simps) simp
  qed
qed

lemma scanCallArgs_gt: "scanCallArgs src opn argIndex = Some (ls, e) \<Longrightarrow> opn < e"
  unfolding scanCallArgs_def by (drule args_loop_ge) simp

record call_site =
  cs_method :: string
  cs_literals :: "string list"
  cs_offset :: nat

text \<open>
  One step of the call-site loop at the dot \<open>i\<close>: the open parenthesis of a call of a listed
  method, if there is one behind the optional type arguments.
\<close>

definition call_open :: "string \<Rightarrow> string list \<Rightarrow> nat \<Rightarrow> nat option" where
  "call_open src methods i =
     (if ident_at src (i + 1) \<notin> set methods then None
      else let k = skipWSAndComments src (skipBrackets src (i + 1 + ident_len src (i + 1))) in
        if k \<ge> length src \<or> src ! k \<noteq> CHR ''('' \<or> k = length src - 1 then None else Some k)"

lemma brackets_loop_ge: "i \<le> brackets_loop src i d"
proof (induction "length src - i" arbitrary: i d rule: less_induct)
  case less
  show ?case
  proof (cases "i < length src")
    case True
    have IH: "i \<le> brackets_loop src j d" if "i < j" for j d
      using less.hyps [OF diff_less_mono2 [OF that True], of d] that by simp
    show ?thesis by (subst brackets_loop.simps) (simp add: IH)
  qed (subst brackets_loop.simps, simp)
qed

lemma skipBrackets_ge: "i \<le> skipBrackets src i"
  by (simp add: skipBrackets_def brackets_loop_ge)

lemma call_open_gt: "call_open src methods i = Some k \<Longrightarrow> i < k"
  using skipBrackets_ge [of "i + 1 + ident_len src (i + 1)" src]
    skipWSAndComments_ge [of "skipBrackets src (i + 1 + ident_len src (i + 1))" src]
  by (auto simp: call_open_def Let_def split: if_splits)

function sites_loop :: "string \<Rightarrow> string list \<Rightarrow> nat \<Rightarrow> nat \<Rightarrow> call_site list \<Rightarrow> call_site list option" where
  "sites_loop src methods argIndex i0 sites =
     (if i0 < length src then
        (let i = skipIgnored src i0 in
         if i \<ge> length src then Some sites
         else if src ! i \<noteq> CHR ''.'' then sites_loop src methods argIndex (i + 1) sites
         else case call_open src methods i of
           None \<Rightarrow> sites_loop src methods argIndex (i + 1) sites
         | Some k \<Rightarrow>
             (case scanCallArgs src k argIndex of
                None \<Rightarrow> None
              | Some (literals, e) \<Rightarrow>
                  sites_loop src methods argIndex e
                    (if literals = [] then sites
                     else sites @ [\<lparr>cs_method = ident_at src (i + 1), cs_literals = literals,
                                    cs_offset = i\<rparr>])))
      else Some sites)"
  by pat_completeness auto
termination
proof (relation "measure (\<lambda>(src, methods, argIndex, i, sites). length src - i)", goal_cases)
  case 1
  then show ?case by simp
next
  case (2 src methods argIndex i0 sites i)
  then show ?case using skipIgnored_ge [of i0 src] by simp
next
  case (3 src methods argIndex i0 sites i)
  then show ?case using skipIgnored_ge [of i0 src] by simp
next
  case (4 src methods argIndex i0 sites i k p literals e)
  then have "i < k" "k < e" using call_open_gt scanCallArgs_gt by blast+
  then show ?case using 4 skipIgnored_ge [of i0 src] by simp
qed

declare sites_loop.simps [simp del]

definition findCallSites :: "string \<Rightarrow> string list \<Rightarrow> int \<Rightarrow> call_site list option" where
  "findCallSites src methods argIndex =
     (if src = [] \<or> methods = [] then Some []
      else sites_loop src methods (nat argIndex) 0 [])"

section \<open>Case clauses\<close>

text \<open>\<open>flush\<close> of \<^verbatim>\<open>caseOperands\<close>: the trimmed operand between two indices, if it is not blank.\<close>

definition operand_flush :: "string \<Rightarrow> nat \<Rightarrow> nat \<Rightarrow> string list \<Rightarrow> string list" where
  "operand_flush src start e out =
     (let operand = trim_space (take (e - start) (drop start src))
      in if operand \<noteq> [] then out @ [operand] else out)"

function operands_loop :: "string \<Rightarrow> nat \<Rightarrow> nat \<Rightarrow> int \<Rightarrow> string list \<Rightarrow> string list" where
  "operands_loop src start i depth out =
     (if i < length src then
        (if any_quote (src ! i) then operands_loop src start (skipStringLiteral src i) depth out
         else if src ! i = CHR ''/'' \<and> i + 1 < length src \<and> (src ! (i + 1) = CHR ''/'' \<or> src ! (i + 1) = CHR ''*'')
         then operands_loop src start (skipIgnored src i) depth out
         else if is_open (src ! i) then operands_loop src start (i + 1) (depth + 1) out
         else if is_close (src ! i) then
           (if depth = 0 then out else operands_loop src start (i + 1) (depth - 1) out)
         else if src ! i = CHR '','' \<and> depth = 0 then
           operands_loop src (i + 1) (i + 1) depth (operand_flush src start i out)
         else if src ! i = CHR '':'' \<and> depth = 0 then operand_flush src start i out
         else operands_loop src start (i + 1) depth out)
      else out)"
  by pat_completeness auto

lemma skipIgnored_comment:
  assumes "i + 1 < length src" "src ! i = CHR ''/''" "src ! (i + 1) = CHR ''/'' \<or> src ! (i + 1) = CHR ''*''"
  shows "i < skipIgnored src i"
proof -
  obtain j where c: "comment_at src i = Some j" using assms by (auto simp: comment_at_def)
  have "skipIgnored src i = skipIgnored src j"
    using assms c by (subst skipIgnored.simps) (simp add: go_ws_def any_quote_def str_quote_def)
  then show ?thesis using comment_at_gt [OF c] skipIgnored_ge [of j src] by simp
qed

termination operands_loop
  by (relation "measure (\<lambda>(src, start, i, depth, out). length src - i)")
    (simp_all add: diff_less_mono2 skipIgnored_comment)

declare operands_loop.simps [simp del]

definition caseOperands :: "string \<Rightarrow> nat \<Rightarrow> string list" where
  "caseOperands src i = operands_loop src i i 0 []"

function keywords_loop :: "string \<Rightarrow> nat \<Rightarrow> nat list \<Rightarrow> nat list" where
  "keywords_loop src i0 out =
     (if i0 < length src then
        (let i = skipIgnored src i0 in
         if i \<ge> length src then out
         else if \<not> isIdentStart (src ! i) then keywords_loop src (i + 1) out
         else keywords_loop src (i + ident_len src i)
                (if ident_at src i = ''case'' then out @ [i + ident_len src i] else out))
      else out)"
  by pat_completeness auto
termination
proof (relation "measure (\<lambda>(src, i, out). length src - i)", goal_cases)
  case 1
  then show ?case by simp
next
  case (2 src i0 out i)
  then show ?case using skipIgnored_ge [of i0 src] by simp
next
  case (3 src i0 out i)
  then show ?case using skipIgnored_ge [of i0 src] ident_len_pos [of i src] by simp
qed

declare keywords_loop.simps [simp del]

definition caseKeywords :: "string \<Rightarrow> nat list" where
  "caseKeywords src = keywords_loop src 0 []"

definition switchSubject :: "string \<Rightarrow> string option" where
  "switchSubject line =
     (let trimmed = trim_space line in
      if \<not> has_prefix trimmed ''switch'' then None
      else case str_cut (drop (length ''switch'') trimmed) ''{'' of (rest, _, found) \<Rightarrow>
        if \<not> found then None
        else let subject = trim_space rest in if subject = [] then None else Some subject)"

definition msgTypeSubjects :: "string list" where
  "msgTypeSubjects = [''For'', ''MsgType'', ''Msgtype'']"

definition isMsgTypeSubject :: "unidata \<Rightarrow> string \<Rightarrow> bool" where
  "isMsgTypeSubject U subject =
     (case str_cut_last subject ''.'' of (_, field, found) \<Rightarrow>
        if found then field \<in> set msgTypeSubjects else contains (to_lower U subject) ''msgtype'')"

function brace_loop :: "string \<Rightarrow> nat \<Rightarrow> int \<Rightarrow> int" where
  "brace_loop src i delta =
     (if i < length src then
        (if any_quote (src ! i) then brace_loop src (skipStringLiteral src i) delta
         else if src ! i = CHR ''/'' \<and> i + 1 < length src \<and> (src ! (i + 1) = CHR ''/'' \<or> src ! (i + 1) = CHR ''*'')
         then brace_loop src
                (if skipIgnored src i < length src \<and> src ! skipIgnored src i = CHR 0x0A
                 then skipIgnored src i + 1 else skipIgnored src i) delta
         else brace_loop src (i + 1)
                (if src ! i = CHR ''{'' then delta + 1 else if src ! i = CHR ''}'' then delta - 1 else delta))
      else delta)"
  by pat_completeness auto
termination
  by (relation "measure (\<lambda>(src, i, delta). length src - i)")
    (auto simp: diff_less_mono2 skipIgnored_comment intro!: diff_less_mono2 less_SucI)

declare brace_loop.simps [simp del]

definition braceDelta :: "string \<Rightarrow> int" where
  "braceDelta line = brace_loop line 0 0"

text \<open>The lines above the clause, nearest first.\<close>

fun owner_loop :: "int \<Rightarrow> string list \<Rightarrow> string option" where
  "owner_loop depth [] = None"
| "owner_loop depth (line # lns) =
     (let d = depth - braceDelta line in
      if d \<ge> 0 then owner_loop d lns
      else case switchSubject line of Some subject \<Rightarrow> Some subject | None \<Rightarrow> owner_loop 0 lns)"

definition owningSwitchSubject :: "string list \<Rightarrow> nat \<Rightarrow> string option" where
  "owningSwitchSubject lines caseIdx = owner_loop 0 (rev (take caseIdx lines))"

section \<open>Identifiers and imports of a file\<close>

function prefix_loop :: "string \<Rightarrow> string \<Rightarrow> nat \<Rightarrow> bool" where
  "prefix_loop src prfx i0 =
     (if i0 < length src then
        (let i = skipIgnored src i0 in
         if i \<ge> length src then False
         else if \<not> isIdentStart (src ! i) then prefix_loop src prfx (i + 1)
         else if length prfx \<le> ident_len src i \<and> take (length prfx) (drop i src) = prfx then True
         else prefix_loop src prfx (i + ident_len src i))
      else False)"
  by pat_completeness auto
termination
proof (relation "measure (\<lambda>(src, prfx, i). length src - i)", goal_cases)
  case 1
  then show ?case by simp
next
  case (2 src prfx i0 i)
  then show ?case using skipIgnored_ge [of i0 src] by simp
next
  case (3 src prfx i0 i)
  then show ?case using skipIgnored_ge [of i0 src] ident_len_pos [of i src] by simp
qed

declare prefix_loop.simps [simp del]

definition contentHasIdentPrefix :: "string \<Rightarrow> string \<Rightarrow> bool" where
  "contentHasIdentPrefix src prfx = (if prfx = [] then False else prefix_loop src prfx 0)"

function import_block :: "string \<Rightarrow> nat \<Rightarrow> int \<Rightarrow> string list \<Rightarrow> string list option" where
  "import_block src i depth paths =
     (if i < length src then
        (if src ! i = CHR ''('' then import_block src (i + 1) (depth + 1) paths
         else if src ! i = CHR '')'' then
           (if depth - 1 = 0 then Some paths else import_block src (i + 1) (depth - 1) paths)
         else if str_quote (src ! i) then
           (case scanStringLiteral src i of
              None \<Rightarrow> None
            | Some (lit, _) \<Rightarrow> import_block src (skipStringLiteral src i) depth (paths @ [lit]))
         else import_block src (past_slash src i) depth paths)
      else Some paths)"
  by pat_completeness auto
termination
  by (relation "measure (\<lambda>(src, i, depth, paths). length src - i)") (auto simp: diff_less_mono2)

declare import_block.simps [simp del]

definition parseImportBlock :: "string \<Rightarrow> nat \<Rightarrow> string list option" where
  "parseImportBlock src i0 =
     (let i = skipWSAndComments src i0 in
      if i \<ge> length src then Some []
      else if str_quote (src ! i) then
        (case scanStringLiteral src i of None \<Rightarrow> None | Some (lit, _) \<Rightarrow> Some [lit])
      else if src ! i = CHR ''('' then import_block src (i + 1) 1 []
      else Some [])"

function import_paths_loop :: "string \<Rightarrow> nat \<Rightarrow> string list option" where
  "import_paths_loop src i0 =
     (if i0 < length src then
        (let i = skipIgnored src i0 in
         if i \<ge> length src \<or> \<not> isIdentStart (src ! i) then Some []
         else let word = ident_at src i in
           if word = ''import'' then parseImportBlock src (i + ident_len src i)
           else if word \<in> {''func'', ''type'', ''var'', ''const''} then Some []
           else import_paths_loop src (i + ident_len src i))
      else Some [])"
  by pat_completeness auto
termination
proof (relation "measure (\<lambda>(src, i). length src - i)", goal_cases)
  case 1
  then show ?case by simp
next
  case (2 src i0 i w)
  then show ?case using skipIgnored_ge [of i0 src] ident_len_pos [of i src]
    by (simp add: not_le) linarith
qed

declare import_paths_loop.simps [simp del]

definition importPaths :: "string \<Rightarrow> string list option" where
  "importPaths src = import_paths_loop src 0"

text \<open>A case operand that is exactly one quoted string; the outer \<open>None\<close> is the slice panic.\<close>

definition quotedLiteral :: "string \<Rightarrow> (string option) option" where
  "quotedLiteral operand =
     (if operand = [] \<or> \<not> str_quote (operand ! 0) then Some None
      else case scanStringLiteral operand 0 of
        None \<Rightarrow> None
      | Some (lit, e) \<Rightarrow> Some (if e = length operand then Some lit else None))"

lemmas scan_eval = scanStringLiteral_def skipStringLiteral_def skip_quoted.simps skipLineComment.simps
  block_loop.simps skipBlockComment_def go_ws_def str_quote_def any_quote_def comment_at_def
  skipWSAndComments.simps skipIgnored.simps isIdentStart_def isIdentPart_def ident_len_def ident_at_def
  past_slash_def brackets_loop.simps skipBrackets_def is_open_def is_close_def args_loop.simps
  scanCallArgs_def call_open_def sites_loop.simps findCallSites_def import_block.simps
  parseImportBlock_def import_paths_loop.simps importPaths_def operands_loop.simps caseOperands_def
  operand_flush_def keywords_loop.simps caseKeywords_def Let_def

end
