(* ===== verification/GoScan_Proofs.thy ===== *)
theory GoScan_Proofs
  imports GoScan
begin

text \<open>
  The scanners on well-formed calls and on arbitrary bytes: which literals a call yields, and the
  only way a scanner can panic.
\<close>

section \<open>Panics\<close>

lemma scan_None: "i < length src \<Longrightarrow> scanStringLiteral src i = None \<longleftrightarrow> Suc i = length src"
proof -
  assume i: "i < length src"
  let ?j = "skip_quoted (src ! i) src (i + 1)"
  have le: "?j \<le> length src + 1" using i by (intro skip_quoted_le) simp
  show ?thesis
  proof (cases "Suc i = length src")
    case True
    then have "?j = i + 1" by (subst skip_quoted.simps) simp
    then show ?thesis using True by (simp add: scanStringLiteral_def skipStringLiteral_def Let_def)
  next
    case False
    then have "i + 1 < length src" using i by simp
    then have "i + 2 \<le> ?j" by (subst skip_quoted.simps)
      (auto intro: order.trans [OF _ skip_quoted_ge] simp: skip_quoted_ge [THEN order.trans [rotated]])
    then have "i + 1 \<le> ?j - 1 \<and> ?j - 1 \<le> length src" using le by linarith
    then show ?thesis using False by (simp add: scanStringLiteral_def skipStringLiteral_def Let_def)
  qed
qed

definition open_tail :: "string \<Rightarrow> bool" where
  "open_tail src \<longleftrightarrow> src \<noteq> [] \<and> str_quote (last src)"

lemma scan_ok: "\<not> open_tail src \<Longrightarrow> i < length src \<Longrightarrow> str_quote (src ! i) \<Longrightarrow> scanStringLiteral src i \<noteq> None"
proof
  assume "\<not> open_tail src" "i < length src" "str_quote (src ! i)" "scanStringLiteral src i = None"
  then have "Suc i = length src" "src \<noteq> []" using scan_None [of i src] by auto
  then have "last src = src ! i" by (metis diff_Suc_1 last_conv_nth)
  then show False using \<open>\<not> open_tail src\<close> \<open>str_quote (src ! i)\<close> \<open>src \<noteq> []\<close> by (simp add: open_tail_def)
qed

lemma args_ok: "\<not> open_tail src \<Longrightarrow> args_loop src k i d a ls \<noteq> None"
proof (induction "length src - i" arbitrary: i d a ls rule: less_induct)
  case less
  show ?case
  proof (cases "i < length src")
    case True
    have IH: "args_loop src k j d a ls \<noteq> None" if "i < j" for j d a ls
      using less.hyps [OF diff_less_mono2 [OF that True] less.prems] .
    show ?thesis
    proof (cases "str_quote (src ! i)")
      case False
      then show ?thesis
        using True by (subst args_loop.simps) (simp add: IH del: not_None_eq)
    next
      case q: True
      then obtain r where "scanStringLiteral src i = Some r" using scan_ok [OF less.prems True] by blast
      then show ?thesis using q True
        by (subst args_loop.simps) (simp add: IH del: not_None_eq split: prod.split)
    qed
  qed (subst args_loop.simps, simp)
qed

lemma sites_ok: "\<not> open_tail src \<Longrightarrow> sites_loop src ms k i sites \<noteq> None"
proof (induction "length src - i" arbitrary: i sites rule: less_induct)
  case less
  show ?case
  proof (cases "i < length src")
    case True
    have IH: "sites_loop src ms k j sites \<noteq> None" if "i < j" for j sites
      using less.hyps [OF diff_less_mono2 [OF that True] less.prems] .
    have ge: "i \<le> skipIgnored src i" by (rule skipIgnored_ge)
    have IH': "sites_loop src ms k e sites \<noteq> None"
      if "call_open src ms (skipIgnored src i) = Some p" "scanCallArgs src p k = Some (l, e)" for p l e sites
      using IH ge call_open_gt [OF that(1)] scanCallArgs_gt [OF that(2)] by (meson le_less_trans less_trans)
    have sc: "scanCallArgs src p k \<noteq> None" for p
      using args_ok [OF less.prems] by (simp add: scanCallArgs_def)
    have IH1: "sites_loop src ms k (Suc (skipIgnored src i)) sites \<noteq> None" for sites using IH ge by simp
    show ?thesis
      by (subst sites_loop.simps) (simp add: Let_def IH1 IH' sc del: not_None_eq split: option.split prod.split)
  qed (subst sites_loop.simps, simp)
qed

lemma block_ok: "\<not> open_tail src \<Longrightarrow> import_block src i d ps \<noteq> None"
proof (induction "length src - i" arbitrary: i d ps rule: less_induct)
  case less
  show ?case
  proof (cases "i < length src")
    case True
    have IH: "import_block src j d ps \<noteq> None" if "i < j" for j d ps
      using less.hyps [OF diff_less_mono2 [OF that True] less.prems] .
    show ?thesis
    proof (cases "str_quote (src ! i)")
      case False
      then show ?thesis
        using True by (subst import_block.simps) (simp add: IH del: not_None_eq)
    next
      case q: True
      then obtain r where "scanStringLiteral src i = Some r" using scan_ok [OF less.prems True] by blast
      then show ?thesis using q True
        by (subst import_block.simps) (simp add: IH del: not_None_eq split: prod.split)
    qed
  qed (subst import_block.simps, simp)
qed

lemma parse_ok: "\<not> open_tail src \<Longrightarrow> parseImportBlock src i \<noteq> None"
proof -
  assume t: "\<not> open_tail src"
  let ?i = "skipWSAndComments src i"
  show ?thesis
  proof (cases "?i < length src \<and> str_quote (src ! ?i)")
    case True
    then obtain r where "scanStringLiteral src ?i = Some r" using scan_ok [OF t] by blast
    then show ?thesis using True by (simp add: parseImportBlock_def Let_def split: prod.split)
  next
    case False
    then show ?thesis using block_ok [OF t] by (auto simp: parseImportBlock_def Let_def)
  qed
qed

lemma imports_ok: "\<not> open_tail src \<Longrightarrow> import_paths_loop src i \<noteq> None"
proof (induction src i rule: import_paths_loop.induct)
  case (1 src i0)
  then show ?case using parse_ok [of src]
    by (subst import_paths_loop.simps) (simp add: Let_def del: not_None_eq)
qed

text \<open>
  scanning a file for call sites and imports panics for no file whose last byte is not an
  opening quote. For a file that ends right behind a quote it does: an import or a listed call
  whose literal is cut off after its quote slices with the bounds out of order.
\<close>

theorem scanners_panic_only_at_cut_quote:
  "(src \<noteq> [] \<and> last src \<in> {CHR 0x22, CHR 0x60} \<or>
      importPaths src \<noteq> None \<and> findCallSites src methods argIndex \<noteq> None)
   \<and> importPaths (''import '' @ [CHR 0x22]) = None
   \<and> findCallSites (''r.Set('' @ [CHR 0x22]) [''Set''] 0 = None"
proof (intro conjI)
  show "src \<noteq> [] \<and> last src \<in> {CHR 0x22, CHR 0x60} \<or>
      importPaths src \<noteq> None \<and> findCallSites src methods argIndex \<noteq> None"
    using imports_ok [of src 0] sites_ok [of src]
    by (auto simp: importPaths_def findCallSites_def open_tail_def str_quote_def)
  show "importPaths (''import '' @ [CHR 0x22]) = None"
    by (simp add: scan_eval)
  show "findCallSites (''r.Set('' @ [CHR 0x22]) [''Set''] 0 = None"
    by (simp add: scan_eval)
qed

section \<open>Well-formed calls\<close>

text \<open>
  Call arguments as trees: plain text, string literals, and bracketed groups that may hold further
  commas and literals.
\<close>

datatype piece = Text string | Lit string | Comma | Group char "piece list" char

fun piece_text :: "piece \<Rightarrow> string" where
  "piece_text (Text w) = w"
| "piece_text (Lit b) = [CHR 0x22] @ b @ [CHR 0x22]"
| "piece_text Comma = '',''"
| "piece_text (Group a ps b) = [a] @ concat (map piece_text ps) @ [b]"

definition plain_char :: "char \<Rightarrow> bool" where
  "plain_char c \<longleftrightarrow> \<not> is_open c \<and> \<not> is_close c \<and> \<not> any_quote c \<and> c \<noteq> CHR '','' \<and> c \<noteq> CHR ''/''"

fun piece_ok :: "piece \<Rightarrow> bool" where
  "piece_ok (Text w) \<longleftrightarrow> (\<forall>c\<in>set w. plain_char c)"
| "piece_ok (Lit b) \<longleftrightarrow> CHR 0x22 \<notin> set b \<and> CHR 0x5C \<notin> set b"
| "piece_ok Comma \<longleftrightarrow> True"
| "piece_ok (Group a ps b) \<longleftrightarrow> is_open a \<and> is_close b \<and> (\<forall>p\<in>set ps. piece_ok p)"

lemma skip_quoted_lit:
  "CHR 0x22 \<notin> set b \<Longrightarrow> CHR 0x5C \<notin> set b \<Longrightarrow>
     skip_quoted (CHR 0x22) (pre @ b @ [CHR 0x22] @ post) (length pre) = length pre + length b + 1"
proof (induction b arbitrary: pre)
  case Nil
  then show ?case by (subst skip_quoted.simps) (simp add: nth_append)
next
  case (Cons c b)
  have "skip_quoted (CHR 0x22) ((pre @ [c]) @ b @ [CHR 0x22] @ post) (length (pre @ [c])) = length (pre @ [c]) + length b + 1"
    by (rule Cons.IH) (use Cons.prems in auto)
  then show ?case using Cons.prems by (subst skip_quoted.simps) (auto simp: nth_append)
qed

lemma scan_lit:
  assumes "CHR 0x22 \<notin> set b" "CHR 0x5C \<notin> set b"
  shows "skipStringLiteral (pre @ [CHR 0x22] @ b @ [CHR 0x22] @ post) (length pre) = length pre + length b + 2"
    and "scanStringLiteral (pre @ [CHR 0x22] @ b @ [CHR 0x22] @ post) (length pre) = Some (b, length pre + length b + 2)"
proof -
  let ?s = "pre @ [CHR 0x22] @ b @ [CHR 0x22] @ post"
  have e: "(pre @ [CHR 0x22]) @ b @ [CHR 0x22] @ post = ?s" by simp
  show j: "skipStringLiteral ?s (length pre) = length pre + length b + 2"
    using skip_quoted_lit [OF assms, of "pre @ [CHR 0x22]" post]
    unfolding e by (simp add: skipStringLiteral_def nth_append)
  show "scanStringLiteral ?s (length pre) = Some (b, length pre + length b + 2)"
    unfolding scanStringLiteral_def j by (simp add: Let_def)
qed

lemma text_step:
  "(\<forall>c\<in>set w. plain_char c) \<Longrightarrow>
     args_loop (pre @ w @ post) k (length pre) d a ls = args_loop (pre @ w @ post) k (length pre + length w) d a ls"
proof (induction w arbitrary: pre)
  case (Cons c w)
  have "args_loop ((pre @ [c]) @ w @ post) k (length (pre @ [c])) d a ls =
      args_loop ((pre @ [c]) @ w @ post) k (length (pre @ [c]) + length w) d a ls"
    by (rule Cons.IH) (use Cons.prems in auto)
  moreover have "args_loop (pre @ (c # w) @ post) k (length pre) d a ls = args_loop (pre @ (c # w) @ post) k (length pre + 1) d a ls"
    using Cons.prems by (subst args_loop.simps) (auto simp: nth_append plain_char_def any_quote_def)
  ultimately show ?case by simp
qed simp

lemma open_step:
  "is_open c \<Longrightarrow> args_loop (pre @ [c] @ post) k (length pre) d a ls = args_loop (pre @ [c] @ post) k (length pre + 1) (d + 1) a ls"
  by (subst args_loop.simps) (auto simp: nth_append)

lemma close_step:
  "is_close c \<Longrightarrow> d \<noteq> 1 \<Longrightarrow>
     args_loop (pre @ [c] @ post) k (length pre) d a ls = args_loop (pre @ [c] @ post) k (length pre + 1) (d - 1) a ls"
  by (subst args_loop.simps) (auto simp: nth_append is_open_def is_close_def)

text \<open>Inside brackets everything is skipped.\<close>

lemma deep_piece:
  "piece_ok p \<Longrightarrow> 2 \<le> d \<Longrightarrow>
     args_loop (pre @ piece_text p @ post) k (length pre) d a ls =
     args_loop (pre @ piece_text p @ post) k (length pre + length (piece_text p)) d a ls"
proof (induction p arbitrary: pre post d)
  case (Text w)
  then show ?case using text_step [of w pre post] by simp
next
  case (Lit b)
  then show ?case
    using scan_lit(1) [of b pre post] by (subst args_loop.simps) (auto simp: nth_append is_open_def is_close_def str_quote_def)
next
  case Comma
  then show ?case by (subst args_loop.simps) (auto simp: nth_append is_open_def is_close_def str_quote_def)
next
  case (Group x ps y)
  have body: "(\<forall>p\<in>set qs. piece_ok p) \<Longrightarrow> set qs \<subseteq> set ps \<Longrightarrow> 2 \<le> e \<Longrightarrow>
      args_loop (u @ concat (map piece_text qs) @ v) k (length u) e a ls =
      args_loop (u @ concat (map piece_text qs) @ v) k (length u + length (concat (map piece_text qs))) e a ls" for qs u v e
  proof (induction qs arbitrary: u)
    case (Cons q qs)
    have "args_loop (u @ piece_text q @ (concat (map piece_text qs) @ v)) k (length u) e a ls =
        args_loop (u @ piece_text q @ (concat (map piece_text qs) @ v)) k (length u + length (piece_text q)) e a ls"
      by (rule Group.IH) (use Cons.prems in auto)
    moreover have "args_loop ((u @ piece_text q) @ concat (map piece_text qs) @ v) k (length (u @ piece_text q)) e a ls =
        args_loop ((u @ piece_text q) @ concat (map piece_text qs) @ v) k
          (length (u @ piece_text q) + length (concat (map piece_text qs))) e a ls"
      by (rule Cons.IH) (use Cons.prems in auto)
    ultimately show ?case by (simp add: add.assoc)
  qed simp
  let ?b = "concat (map piece_text ps)"
  have "args_loop (pre @ [x] @ (?b @ [y] @ post)) k (length pre) d a ls =
      args_loop (pre @ [x] @ (?b @ [y] @ post)) k (length pre + 1) (d + 1) a ls"
    by (rule open_step) (use Group.prems in simp)
  moreover have "args_loop ((pre @ [x]) @ ?b @ ([y] @ post)) k (length (pre @ [x])) (d + 1) a ls =
      args_loop ((pre @ [x]) @ ?b @ ([y] @ post)) k (length (pre @ [x]) + length ?b) (d + 1) a ls"
    by (rule body) (use Group.prems in auto)
  moreover have "args_loop ((pre @ [x] @ ?b) @ [y] @ post) k (length (pre @ [x] @ ?b)) (d + 1) a ls =
      args_loop ((pre @ [x] @ ?b) @ [y] @ post) k (length (pre @ [x] @ ?b) + 1) (d + 1 - 1) a ls"
    by (rule close_step) (use Group.prems in auto)
  ultimately show ?case by simp
qed

text \<open>The literals standing directly in one argument.\<close>

fun own_literals :: "piece list \<Rightarrow> string list" where
  "own_literals [] = []"
| "own_literals (Lit b # ps) = b # own_literals ps"
| "own_literals (_ # ps) = own_literals ps"

definition arg_text :: "piece list \<Rightarrow> string" where
  "arg_text ps = concat (map piece_text ps)"

definition arg_ok :: "piece list \<Rightarrow> bool" where
  "arg_ok ps \<longleftrightarrow> (\<forall>p\<in>set ps. piece_ok p \<and> p \<noteq> Comma)"

lemma flat_arg:
  "arg_ok ps \<Longrightarrow>
     args_loop (pre @ arg_text ps @ post) k (length pre) 1 a ls =
     args_loop (pre @ arg_text ps @ post) k (length pre + length (arg_text ps)) 1 a
       (if k \<le> a then ls @ own_literals ps else ls)"
proof (induction ps arbitrary: pre ls)
  case Nil
  then show ?case by (simp add: arg_text_def)
next
  case (Cons p ps)
  let ?t = "arg_text ps @ post"
  let ?ls = "if k \<le> a then ls @ own_literals [p] else ls"
  have p: "piece_ok p" "p \<noteq> Comma" using Cons.prems by (simp_all add: arg_ok_def)
  have "args_loop (pre @ piece_text p @ ?t) k (length pre) 1 a ls =
      args_loop (pre @ piece_text p @ ?t) k (length pre + length (piece_text p)) 1 a ?ls"
  proof (cases p)
    case (Text w)
    then show ?thesis using text_step [of w pre ?t k 1 a ls] p by simp
  next
    case (Lit b)
    then show ?thesis
      using scan_lit [of b pre ?t] p
      by (subst args_loop.simps) (auto simp: nth_append is_open_def is_close_def str_quote_def)
  next
    case (Group x qs y)
    let ?b = "concat (map piece_text qs)"
    have g: "\<And>q. q \<in> set qs \<Longrightarrow> piece_ok q" "is_open x" "is_close y" using p Group by auto
    have "args_loop (pre @ [x] @ (?b @ [y] @ ?t)) k (length pre) 1 a ls =
        args_loop (pre @ [x] @ (?b @ [y] @ ?t)) k (length pre + 1) (1 + 1) a ls"
      by (rule open_step) (rule g(2))
    moreover have "args_loop ((pre @ [x]) @ ?b @ ([y] @ ?t)) k (length (pre @ [x])) 2 a ls =
        args_loop ((pre @ [x]) @ ?b @ ([y] @ ?t)) k (length (pre @ [x]) + length ?b) 2 a ls"
    proof -
      have "(\<And>q. q \<in> set qs \<Longrightarrow> piece_ok q) \<Longrightarrow>
          args_loop (u @ concat (map piece_text qs) @ v) k (length u) 2 a ls =
          args_loop (u @ concat (map piece_text qs) @ v) k (length u + length (concat (map piece_text qs))) 2 a ls" for u v
      proof (induction qs arbitrary: u)
        case (Cons q qs)
        have "args_loop (u @ piece_text q @ (concat (map piece_text qs) @ v)) k (length u) 2 a ls =
            args_loop (u @ piece_text q @ (concat (map piece_text qs) @ v)) k (length u + length (piece_text q)) 2 a ls"
          by (rule deep_piece) (use Cons.prems in auto)
        moreover have "args_loop ((u @ piece_text q) @ concat (map piece_text qs) @ v) k (length (u @ piece_text q)) 2 a ls =
            args_loop ((u @ piece_text q) @ concat (map piece_text qs) @ v) k
              (length (u @ piece_text q) + length (concat (map piece_text qs))) 2 a ls"
          by (rule Cons.IH) (use Cons.prems in auto)
        ultimately show ?case by (simp add: add.assoc)
      qed simp
      then show ?thesis using g(1) by blast
    qed
    moreover have "args_loop ((pre @ [x] @ ?b) @ [y] @ ?t) k (length (pre @ [x] @ ?b)) 2 a ls =
        args_loop ((pre @ [x] @ ?b) @ [y] @ ?t) k (length (pre @ [x] @ ?b) + 1) (2 - 1) a ls"
      by (rule close_step) (use g in auto)
    ultimately show ?thesis using Group by simp
  qed (use p in simp)
  moreover have "args_loop ((pre @ piece_text p) @ arg_text ps @ post) k (length (pre @ piece_text p)) 1 a ?ls =
      args_loop ((pre @ piece_text p) @ arg_text ps @ post) k (length (pre @ piece_text p) + length (arg_text ps)) 1 a
        (if k \<le> a then ?ls @ own_literals ps else ?ls)"
    by (rule Cons.IH) (use Cons.prems in \<open>simp add: arg_ok_def\<close>)
  moreover have "own_literals (p # ps) = own_literals [p] @ own_literals ps" by (cases p) auto
  ultimately show ?case by (simp add: arg_text_def add.assoc split: if_splits)
qed

lemma flat_args:
  "args \<noteq> [] \<Longrightarrow> (\<And>ps. ps \<in> set args \<Longrightarrow> arg_ok ps) \<Longrightarrow>
     args_loop (pre @ str_join '','' (map arg_text args) @ '')'' @ post) k (length pre) 1 a ls =
     Some (ls @ concat (map own_literals (drop (k - a) args)),
           length pre + length (str_join '','' (map arg_text args)) + 1)"
proof (induction args arbitrary: pre a ls)
  case Nil
  then show ?case by simp
next
  case (Cons ps args)
  let ?ls = "if k \<le> a then ls @ own_literals ps else ls"
  show ?case
  proof (cases "args = []")
    case True
    have "args_loop (pre @ arg_text ps @ '')'' @ post) k (length pre) 1 a ls =
        args_loop (pre @ arg_text ps @ '')'' @ post) k (length pre + length (arg_text ps)) 1 a ?ls"
      by (rule flat_arg) (use Cons.prems in auto)
    also have "\<dots> = Some (?ls, length pre + length (arg_text ps) + 1)"
      by (subst args_loop.simps) (simp add: nth_append is_open_def is_close_def)
    finally show ?thesis using True by (cases "k - a") auto
  next
    case False
    let ?r = "str_join '','' (map arg_text args) @ '')'' @ post"
    have j: "str_join '','' (map arg_text (ps # args)) = arg_text ps @ '','' @ str_join '','' (map arg_text args)"
      using False by (cases args) auto
    have "args_loop (pre @ arg_text ps @ ('','' @ ?r)) k (length pre) 1 a ls =
        args_loop (pre @ arg_text ps @ ('','' @ ?r)) k (length pre + length (arg_text ps)) 1 a ?ls"
      by (rule flat_arg) (use Cons.prems in auto)
    also have "\<dots> = args_loop (pre @ arg_text ps @ ('','' @ ?r)) k (length pre + length (arg_text ps) + 1) 1 (a + 1) ?ls"
      by (subst args_loop.simps) (simp add: nth_append is_open_def is_close_def str_quote_def)
    also have "\<dots> = args_loop ((pre @ arg_text ps @ '','') @ ?r) k (length (pre @ arg_text ps @ '','')) 1 (a + 1) ?ls" by simp
    also have "\<dots> = Some (?ls @ concat (map own_literals (drop (k - (a + 1)) args)),
        length (pre @ arg_text ps @ '','') + length (str_join '','' (map arg_text args)) + 1)"
      by (rule Cons.IH) (use Cons.prems False in auto)
    finally have "args_loop (pre @ arg_text ps @ ('','' @ ?r)) k (length pre) 1 a ls =
        Some (?ls @ concat (map own_literals (drop (k - (a + 1)) args)),
          length pre + length (arg_text ps @ '','' @ str_join '','' (map arg_text args)) + 1)" by simp
    then show ?thesis unfolding j by (cases "k \<le> a") (auto simp: Suc_diff_Suc drop_Cons' not_le)
  qed
qed

text \<open>
  on a well-formed argument list the scanner returns exactly the string literals that stand
  directly in the arguments from \<open>argIndex\<close> on, in order, and the index behind the closing
  parenthesis; literals inside brackets, braces or nested calls are never taken for arguments.
\<close>

theorem scanCallArgs_wellformed:
  assumes "args \<noteq> []" and "\<And>ps. ps \<in> set args \<Longrightarrow> arg_ok ps"
  shows "scanCallArgs (pre @ ''('' @ str_join '','' (map arg_text args) @ '')'' @ post) (length pre) argIndex =
    Some (concat (map own_literals (drop argIndex args)),
          length pre + length (''('' @ str_join '','' (map arg_text args) @ '')''))"
  using flat_args [OF assms, of "pre @ ''(''" post argIndex 0 "[]"]
  by (simp add: scanCallArgs_def)

theorem scanCallArgs_wellformed_witness:
  "scanCallArgs (''r.Set(ctx,f('' @ [CHR 0x22, CHR ''n'', CHR 0x22] @ ''),'' @ [CHR 0x22, CHR ''k'', CHR 0x22] @ '')'') 5 1
     = Some ([''k''], 21)"
proof -
  let ?args = "[[Text ''ctx''], [Text ''f'', Group (CHR ''('') [Lit ''n''] (CHR '')'')], [Lit ''k'']]"
  have ok: "arg_ok ps" if "ps \<in> set ?args" for ps
    using that by (auto simp: arg_ok_def plain_char_def is_open_def is_close_def any_quote_def str_quote_def)
  have "scanCallArgs (''r.Set'' @ ''('' @ str_join '','' (map arg_text ?args) @ '')'' @ []) (length ''r.Set'') 1 =
      Some (concat (map own_literals (drop 1 ?args)),
        length ''r.Set'' + length (''('' @ str_join '','' (map arg_text ?args) @ '')''))"
    by (rule scanCallArgs_wellformed) (use ok in simp_all)
  then show ?thesis by (simp add: arg_text_def eval_nat_numeral)
qed

end
