(* ===== verification/Runtime.thy ===== *)
theory Runtime
  imports Contract GoScan
begin

text \<open>
  Runtime contracts (\<^verbatim>\<open>contract/runtime.go\<close>): the extractor registry and the passes that turn call
  sites, configuration literals, shaped literals and decode switches into contracts. Package
  \<^verbatim>\<open>regexp\<close> enters through \<open>regexps\<close>: what a pattern finds in a line and what replacing it gives.
\<close>

record regexps =
  rx_submatch :: "string \<Rightarrow> string \<Rightarrow> string list option"
  rx_all_submatch :: "string \<Rightarrow> string \<Rightarrow> string list list"
  rx_replace :: "string \<Rightarrow> string \<Rightarrow> string \<Rightarrow> string"

record runtime_contract =
  rc_Kind :: string
  rc_Pattern :: string
  rc_FromRef :: string
  rc_Direction :: direction
  rc_Evidence :: string
  rc_IndexedAt :: string
  rc_Repo :: string

record extractor =
  ex_Normalize :: "(string \<Rightarrow> string) option"
  ex_NormalizeRules :: "(string \<times> string) list"
  ex_Kind :: string
  ex_Name :: string
  ex_ConstPrefix :: string
  ex_ImportsMatch :: "string list"
  ex_ProducerMethods :: "string list"
  ex_ConsumerMethods :: "string list"
  ex_ConfigPatterns :: "string list"
  ex_LiteralPatterns :: "string list"
  ex_ArgIndex :: int
  ex_DecodeSwitch :: bool

section \<open>Normalizers\<close>

definition raw_quote :: "char \<Rightarrow> bool" where
  "raw_quote c \<longleftrightarrow> c = CHR 0x22 \<or> c = CHR 0x60"

definition NormalizeRaw :: "string \<Rightarrow> string" where
  "NormalizeRaw s = rev (dropWhile raw_quote (rev (dropWhile raw_quote s)))"

definition re_date :: string where
  "re_date = [CHR 0x5C] @ ''d{4}-'' @ [CHR 0x5C] @ ''d{2}-'' @ [CHR 0x5C] @ ''d{2}''"
definition re_ip :: string where
  "re_ip = (let d = [CHR 0x5C] @ ''d{1,3}''; dot = [CHR 0x5C] @ ''.'' in d @ dot @ d @ dot @ d @ dot @ d)"
definition re_uuid :: string where "re_uuid = ''[a-f0-9-]{36}''"
definition re_angle :: string where "re_angle = ''<[^>]+>''"
definition re_verb :: string where "re_verb = ''%[sdv]''"

definition NormalizeRedisKey :: "regexps \<Rightarrow> string \<Rightarrow> string" where
  "NormalizeRedisKey R key0 =
     (let key = NormalizeRaw key0;
          key = rx_replace R re_date ''{date}'' key;
          key = rx_replace R re_ip ''{ip}'' key;
          key = rx_replace R re_uuid ''{id}'' key;
          key = rx_replace R re_angle '':{name}'' key
      in rx_replace R re_verb '':{name}'' key)"

definition NormalizeJetStreamSubject :: "regexps \<Rightarrow> string \<Rightarrow> string" where
  "NormalizeJetStreamSubject R subject0 =
     (let subject = NormalizeRaw subject0;
          subject = rx_replace R re_angle '':request_id'' subject;
          subject = rx_replace R re_uuid '':id'' subject
      in rx_replace R re_verb '':request_id'' subject)"

definition NormalizeWithRules :: "regexps \<Rightarrow> (string \<Rightarrow> string) option \<Rightarrow> (string \<times> string) list \<Rightarrow> string \<Rightarrow> string" where
  "NormalizeWithRules R base rules s =
     fold (\<lambda>(re, rep). rx_replace R re rep) rules (case base of None \<Rightarrow> s | Some f \<Rightarrow> f s)"

section \<open>The registry\<close>

definition redisWriterMethods :: "string list" where
  "redisWriterMethods = [''Set'', ''LPush'', ''RPush'', ''SAdd'', ''ZAdd'', ''Incr'', ''Decr'', ''MSet'', ''HSet'', ''Expire'', ''Del'']"
definition redisReaderMethods :: "string list" where
  "redisReaderMethods = [''Get'', ''Exists'', ''Scan'', ''HGet'', ''LPop'', ''RPop'', ''SMembers'', ''ZRange'', ''MGet'']"
definition WSTypePrefix :: string where "WSTypePrefix = ''MsgType''"

definition bs :: string where "bs = [CHR 0x5C]"
definition dq :: string where "dq = [CHR 0x22]"

definition DefaultRuntimeExtractors :: "regexps \<Rightarrow> extractor list" where
  "DefaultRuntimeExtractors R =
     [\<lparr>ex_Normalize = Some (NormalizeRedisKey R), ex_NormalizeRules = [], ex_Kind = ''redis'', ex_Name = ''redis'',
       ex_ConstPrefix = [], ex_ImportsMatch = [''redis'', ''valkey'', ''rueidis'', ''keydb''],
       ex_ProducerMethods = redisWriterMethods, ex_ConsumerMethods = redisReaderMethods,
       ex_ConfigPatterns = [], ex_LiteralPatterns = [dq @ ''([a-z][a-z0-9_-]*/)'' @ dq],
       ex_ArgIndex = 0, ex_DecodeSwitch = False\<rparr>,
      \<lparr>ex_Normalize = Some (NormalizeJetStreamSubject R), ex_NormalizeRules = [], ex_Kind = ''jetstream'',
       ex_Name = ''jetstream'', ex_ConstPrefix = [], ex_ImportsMatch = [''nats''],
       ex_ProducerMethods = [''Publish'', ''PublishResponse''],
       ex_ConsumerMethods = [''Subscribe'', ''SubscribeSync''],
       ex_ConfigPatterns = [''StreamConfig'' @ bs @ ''s*'' @ bs @ ''{[^}]*?(?:Name|Subject|FilterSubject)'' @ bs @ ''s*:''
         @ bs @ ''s*'' @ bs @ ''[?[^'' @ dq @ '']*'' @ dq @ ''([^'' @ dq @ bs @ ''n]+)'' @ dq],
       ex_LiteralPatterns = [dq @ ''([a-z][a-z0-9_]*(?:'' @ bs @ ''.[a-z0-9_]+)*'' @ bs @ ''.>)'' @ dq],
       ex_ArgIndex = 0, ex_DecodeSwitch = False\<rparr>,
      \<lparr>ex_Normalize = Some NormalizeRaw, ex_NormalizeRules = [], ex_Kind = ''ws_type'', ex_Name = ''ws_type'',
       ex_ConstPrefix = WSTypePrefix, ex_ImportsMatch = [], ex_ProducerMethods = [], ex_ConsumerMethods = [],
       ex_ConfigPatterns = [], ex_LiteralPatterns = [], ex_ArgIndex = 0, ex_DecodeSwitch = True\<rparr>]"

record compiled =
  ce_config :: "string option"
  ce_literal :: "string option"
  ce_normalize :: "string \<Rightarrow> string"
  ce_methods :: "(string, direction) gomap"
  ce_def :: extractor
  ce_decode :: bool

definition method_roles :: "string list \<Rightarrow> string list \<Rightarrow> (string, direction) gomap" where
  "method_roles producers consumers =
     fold (\<lambda>m ms. if gm_has ms m then ms else gm_put m Consumer ms) consumers
       (fold (\<lambda>m. gm_put m Producer) producers [])"

definition compile_extractor :: "extractor \<Rightarrow> compiled" where
  "compile_extractor e =
     \<lparr>ce_config = (if ex_ConfigPatterns e \<noteq> [] then Some (str_join ''|'' (ex_ConfigPatterns e)) else None),
      ce_literal = (if ex_LiteralPatterns e \<noteq> [] then Some (str_join ''|'' (ex_LiteralPatterns e)) else None),
      ce_normalize = (case ex_Normalize e of None \<Rightarrow> NormalizeRaw | Some f \<Rightarrow> f),
      ce_methods = method_roles (ex_ProducerMethods e) (ex_ConsumerMethods e),
      ce_def = e, ce_decode = ex_DecodeSwitch e\<rparr>"

definition unionStrings :: "string list \<Rightarrow> string list \<Rightarrow> string list" where
  "unionStrings base add = (if base = [] then add else dedup_by (\<lambda>s. s) [] (base @ add))"

definition mergeRuntimeExtractor :: "extractor \<Rightarrow> extractor \<Rightarrow> extractor" where
  "mergeRuntimeExtractor base c =
     (let m = base;
          m = (if ex_Name c \<noteq> [] then m\<lparr>ex_Name := ex_Name c\<rparr> else m);
          m = (if ex_ImportsMatch c \<noteq> []
               then m\<lparr>ex_ImportsMatch := unionStrings (ex_ImportsMatch base) (ex_ImportsMatch c)\<rparr> else m);
          m = (if ex_ProducerMethods c \<noteq> []
               then m\<lparr>ex_ProducerMethods := unionStrings (ex_ProducerMethods base) (ex_ProducerMethods c)\<rparr> else m);
          m = (if ex_ConsumerMethods c \<noteq> []
               then m\<lparr>ex_ConsumerMethods := unionStrings (ex_ConsumerMethods base) (ex_ConsumerMethods c)\<rparr> else m);
          m = (if ex_ConfigPatterns c \<noteq> []
               then m\<lparr>ex_ConfigPatterns := unionStrings (ex_ConfigPatterns base) (ex_ConfigPatterns c)\<rparr> else m);
          m = (if ex_LiteralPatterns c \<noteq> []
               then m\<lparr>ex_LiteralPatterns := unionStrings (ex_LiteralPatterns base) (ex_LiteralPatterns c)\<rparr> else m);
          m = (if ex_ConstPrefix c \<noteq> [] then m\<lparr>ex_ConstPrefix := ex_ConstPrefix c\<rparr> else m);
          m = m\<lparr>ex_DecodeSwitch := (ex_DecodeSwitch base \<or> ex_DecodeSwitch c)\<rparr>;
          m = (if ex_ArgIndex c \<noteq> 0 then m\<lparr>ex_ArgIndex := ex_ArgIndex c\<rparr> else m)
      in if ex_Normalize c \<noteq> None \<or> ex_NormalizeRules c \<noteq> []
         then m\<lparr>ex_Normalize := ex_Normalize c, ex_NormalizeRules := ex_NormalizeRules c\<rparr> else m)"

type_synonym registry = "extractor list \<times> (string, nat) gomap"

definition add_base :: "extractor \<Rightarrow> registry \<Rightarrow> registry" where
  "add_base b = (\<lambda>(out, index). (out @ [b], gm_put (ex_Kind b) (length out) index))"

definition add_custom :: "extractor \<Rightarrow> registry \<Rightarrow> registry" where
  "add_custom c = (\<lambda>(out, index).
     case map_of index (ex_Kind c) of
       Some pos \<Rightarrow> (out[pos := mergeRuntimeExtractor (out ! pos) c], index)
     | None \<Rightarrow> (out @ [c], gm_put (ex_Kind c) (length out) index))"

definition MergeRuntimeExtractors :: "extractor list \<Rightarrow> extractor list \<Rightarrow> extractor list" where
  "MergeRuntimeExtractors base custom =
     (if custom = [] then base else fst (fold add_custom custom (fold add_base base ([], []))))"

section \<open>Constants\<close>

definition blank :: "char \<Rightarrow> bool" where
  "blank c \<longleftrightarrow> c = CHR '' '' \<or> c = CHR 0x09"

definition trimSpaces :: "string \<Rightarrow> string" where
  "trimSpaces s = rev (dropWhile blank (rev (dropWhile blank s)))"

definition extractStringConst :: "string \<Rightarrow> string" where
  "extractStringConst sig0 =
     (let sig = trimSpaces sig0 in
      if length sig < 3 then []
      else
        let sig = (case str_index sig ''='' of Some eq \<Rightarrow> trimSpaces (drop (eq + 1) sig) | None \<Rightarrow> sig) in
        if length sig \<ge> 2 \<and> sig ! 0 = CHR 0x22 \<and> last sig = CHR 0x22
        then take (length sig - 2) (drop 1 sig) else [])"

definition extractConstContracts :: "unidata \<Rightarrow> compiled \<Rightarrow> (string, symbol) gomap \<Rightarrow> string \<Rightarrow> string \<Rightarrow> runtime_contract list" where
  "extractConstContracts U ce symbols repo now =
     (if ex_ConstPrefix (ce_def ce) = [] then []
      else concat (map (\<lambda>(qn, sy).
        if sy_Kind sy \<noteq> kindConst \<or> \<not> has_prefix (sy_Name sy) (ex_ConstPrefix (ce_def ce)) then []
        else let val = extractStringConst (sy_Signature sy) in
          if val = [] then []
          else [\<lparr>rc_Kind = ex_Kind (ce_def ce), rc_Pattern = ce_normalize ce val, rc_FromRef = qn,
                 rc_Direction = Shared,
                 rc_Evidence = ex_Name (ce_def ce) @ '' type constant '' @ go_quote U val @ '' at ''
                   @ sy_PosFile sy @ '':'' @ itoa (sy_PosLine sy),
                 rc_IndexedAt = now, rc_Repo = repo\<rparr>]) symbols))"

section \<open>Contracts of a site\<close>

definition extractor_label :: "compiled \<Rightarrow> string" where
  "extractor_label ce = (if ex_Name (ce_def ce) = [] then ex_Kind (ce_def ce) else ex_Name (ce_def ce))"

definition newCallContract :: "unidata \<Rightarrow> compiled \<Rightarrow> direction \<Rightarrow> string \<Rightarrow> string \<Rightarrow> string \<Rightarrow> int \<Rightarrow> string \<Rightarrow> string
    \<Rightarrow> runtime_contract" where
  "newCallContract U ce dir literal fromRef path lineNo repo now =
     \<lparr>rc_Kind = ex_Kind (ce_def ce), rc_Pattern = ce_normalize ce literal, rc_FromRef = fromRef,
      rc_Direction = dir,
      rc_Evidence = extractor_label ce @ '' '' @ direction_string dir @ '' literal '' @ go_quote U literal
        @ '' at '' @ path @ '':'' @ itoa lineNo,
      rc_IndexedAt = now, rc_Repo = repo\<rparr>"

definition decodeCaseContract :: "unidata \<Rightarrow> compiled \<Rightarrow> string \<Rightarrow> string \<Rightarrow> string \<Rightarrow> int \<Rightarrow> string \<Rightarrow> string
    \<Rightarrow> runtime_contract" where
  "decodeCaseContract U ce literal fromRef path lineNo repo now =
     \<lparr>rc_Kind = ex_Kind (ce_def ce), rc_Pattern = ce_normalize ce literal, rc_FromRef = fromRef,
      rc_Direction = Consumer,
      rc_Evidence = extractor_label ce @ '' decode switch case '' @ go_quote U literal
        @ '' at '' @ path @ '':'' @ itoa lineNo,
      rc_IndexedAt = now, rc_Repo = repo\<rparr>"

definition siteKey :: "string \<Rightarrow> string \<Rightarrow> string \<Rightarrow> string" where
  "siteKey fromRef pattern evidence =
     (let site = (case str_last_index evidence '' at '' of Some i \<Rightarrow> drop i evidence | None \<Rightarrow> evidence)
      in fromRef @ [CHR 0x00] @ pattern @ [CHR 0x00] @ site)"

definition contract_key :: "runtime_contract \<Rightarrow> string" where
  "contract_key c = siteKey (rc_FromRef c) (rc_Pattern c) (rc_Evidence c)"

definition markRecorded :: "(string, bool) gomap \<Rightarrow> runtime_contract list \<Rightarrow> (string, bool) gomap" where
  "markRecorded recorded contracts = fold (\<lambda>c. gm_put (contract_key c) True) contracts recorded"

definition allowedByImports :: "compiled \<Rightarrow> string list \<Rightarrow> bool" where
  "allowedByImports ce imports \<longleftrightarrow>
     ex_ImportsMatch (ce_def ce) = [] \<or> (\<exists>imp\<in>set imports. \<exists>s\<in>set (ex_ImportsMatch (ce_def ce)). contains imp s)"

definition constPrefixPresent :: "compiled \<Rightarrow> string \<Rightarrow> (string, symbol) gomap \<Rightarrow> string \<Rightarrow> bool" where
  "constPrefixPresent ce content symbols path \<longleftrightarrow>
     (let p = ex_ConstPrefix (ce_def ce) in
      p = []
      \<or> (\<exists>(qn, sy)\<in>set symbols. sy_Kind sy = kindConst \<and> sy_PosFile sy = path \<and> has_prefix (sy_Name sy) p)
      \<or> contentHasIdentPrefix content p)"

section \<open>The passes over a file\<close>

definition line_number :: "string \<Rightarrow> nat \<Rightarrow> int" where
  "line_number src off = int (count_list (take off src) (CHR 0x0A)) + 1"

definition extractCallLiterals :: "unidata \<Rightarrow> compiled \<Rightarrow> (string, symbol) gomap \<Rightarrow> string \<Rightarrow> string \<Rightarrow> string \<Rightarrow> string
    \<Rightarrow> runtime_contract list option" where
  "extractCallLiterals U ce symbols src path repo now =
     (case findCallSites src (gm_keys (ce_methods ce)) (ex_ArgIndex (ce_def ce)) of
        None \<Rightarrow> None
      | Some sites \<Rightarrow> Some (concat (map (\<lambda>site.
          let lineNo = line_number src (cs_offset site);
              fromRef = enclosingSymbol symbols path lineNo;
              dir = gm_get Shared (ce_methods ce) (cs_method site)
          in map (\<lambda>lit. newCallContract U ce dir lit fromRef path lineNo repo now) (cs_literals site)) sites)))"

text \<open>A loop over the lines of a file with their 1-based numbers.\<close>

definition numbered :: "string \<Rightarrow> (int \<times> string) list" where
  "numbered content = (let ls = split_char (CHR 0x0A) content in zip (map int [1..<Suc (length ls)]) ls)"

text \<open>\<^verbatim>\<open>m[1]\<close> panics for a pattern without a capture group.\<close>

definition extractConfigLiterals :: "regexps \<Rightarrow> unidata \<Rightarrow> compiled \<Rightarrow> (string, symbol) gomap \<Rightarrow> string \<Rightarrow> string \<Rightarrow> string \<Rightarrow> string
    \<Rightarrow> runtime_contract list option" where
  "extractConfigLiterals R U ce symbols content path repo now =
     (case ce_config ce of None \<Rightarrow> Some []
      | Some re \<Rightarrow> collect (\<lambda>(n, line).
          case rx_submatch R re line of
            None \<Rightarrow> Some []
          | Some m \<Rightarrow> if length m < 2 then None
              else Some [newCallContract U ce Producer (m ! 1) (enclosingSymbol symbols path n) path n repo now])
          (numbered content))"

text \<open>The state of the shaped-literal pass: the contracts so far and the patterns seen.\<close>

definition pattern_step :: "unidata \<Rightarrow> compiled \<Rightarrow> (string, symbol) gomap \<Rightarrow> string \<Rightarrow> string \<Rightarrow> string \<Rightarrow> (string, bool) gomap
    \<Rightarrow> int \<times> string list \<Rightarrow> runtime_contract list \<times> string list \<Rightarrow> runtime_contract list \<times> string list" where
  "pattern_step U ce symbols path repo now recorded = (\<lambda>(n, m) (contracts, seen).
     if length m < 2 \<or> m ! 1 = [] then (contracts, seen)
     else let pattern = ce_normalize ce (m ! 1) in
       if pattern \<in> set seen then (contracts, seen)
       else let c = newCallContract U ce Shared (m ! 1) (enclosingSymbol symbols path n) path n repo now in
         (if gm_get False recorded (contract_key c) then contracts else contracts @ [c], pattern # seen))"

definition extractPatternLiterals :: "regexps \<Rightarrow> unidata \<Rightarrow> compiled \<Rightarrow> (string, symbol) gomap \<Rightarrow> string \<Rightarrow> string \<Rightarrow> string \<Rightarrow> string
    \<Rightarrow> (string, bool) gomap \<Rightarrow> runtime_contract list" where
  "extractPatternLiterals R U ce symbols content path repo now recorded =
     (case ce_literal ce of None \<Rightarrow> []
      | Some re \<Rightarrow> fst (fold (pattern_step U ce symbols path repo now recorded)
          (concat (map (\<lambda>(n, line). map (Pair n) (rx_all_submatch R re line)) (numbered content))) ([], [])))"

section \<open>Decode switches\<close>

record case_consts =
  cc_byQualifiedName :: "(string, string list) gomap"
  cc_byBaseName :: "(string, string list) gomap"

definition case_const_step :: "string \<times> symbol \<Rightarrow> case_consts \<Rightarrow> case_consts" where
  "case_const_step = (\<lambda>(qn, sy) c.
     if sy_Kind sy \<noteq> kindConst \<or> sy_PackagePath sy = [] then c
     else let val = extractStringConst (sy_Signature sy) in
       if val = [] then c
       else c\<lparr>cc_byQualifiedName := gm_append qn val (cc_byQualifiedName c),
              cc_byBaseName := gm_append (path_base (sy_PackagePath sy) @ ''.'' @ sy_Name sy) val (cc_byBaseName c)\<rparr>)"

definition buildCaseConsts :: "(string, symbol) gomap \<Rightarrow> case_consts" where
  "buildCaseConsts symbols = fold case_const_step symbols \<lparr>cc_byQualifiedName = [], cc_byBaseName = []\<rparr>"

definition case_values :: "case_consts \<Rightarrow> string \<Rightarrow> string \<Rightarrow> string list option" where
  "case_values c pkgPath operand =
     (case quotedLiteral operand of
        None \<Rightarrow> None
      | Some (Some lit) \<Rightarrow> Some [lit]
      | Some None \<Rightarrow>
          if list_ex (\<lambda>ch. ch \<in> {CHR '' '', CHR 0x09, CHR ''('', CHR '')'', CHR ''+''}) operand then Some []
          else if contains operand ''.'' then Some (gm_get [] (cc_byBaseName c) operand)
          else Some (gm_get [] (cc_byQualifiedName c) (pkgPath @ ''.'' @ operand)))"

fun filePackagePath :: "(string, symbol) gomap \<Rightarrow> string \<Rightarrow> string" where
  "filePackagePath [] path = []"
| "filePackagePath ((qn, sy) # symbols) path =
     (if sy_PosFile sy = path \<and> sy_PackagePath sy \<noteq> [] then sy_PackagePath sy
      else filePackagePath symbols path)"

definition extractDecodeSwitchLiterals :: "unidata \<Rightarrow> compiled \<Rightarrow> (string, symbol) gomap \<Rightarrow> case_consts \<Rightarrow> string \<Rightarrow> string \<Rightarrow> string \<Rightarrow> string
    \<Rightarrow> runtime_contract list option" where
  "extractDecodeSwitchLiterals U ce symbols cts content path repo now =
     (let lines = split_char (CHR 0x0A) content; pkgPath = filePackagePath symbols path in
      collect (\<lambda>kw.
        let lineNo = line_number content kw in
        case owningSwitchSubject lines (nat (lineNo - 1)) of
          None \<Rightarrow> Some []
        | Some subject \<Rightarrow>
            if \<not> isMsgTypeSubject U subject then Some []
            else let fromRef = enclosingSymbol symbols path lineNo in
              collect (\<lambda>operand.
                map_option (map (\<lambda>lit. decodeCaseContract U ce lit fromRef path lineNo repo now))
                  (case_values cts pkgPath operand)) (caseOperands content kw))
        (caseKeywords content))"

section \<open>The extraction\<close>

definition extract_file :: "regexps \<Rightarrow> unidata \<Rightarrow> compiled \<Rightarrow> (string, symbol) gomap \<Rightarrow> (string, string list) gomap \<Rightarrow> case_consts
    \<Rightarrow> string \<Rightarrow> string \<Rightarrow> string \<times> string \<Rightarrow> runtime_contract list option" where
  "extract_file R U ce symbols imports cts repo now = (\<lambda>(path, content).
     if \<not> allowedByImports ce (gm_get [] imports path) then Some []
     else
       case (if ce_methods ce \<noteq> [] then extractCallLiterals U ce symbols content path repo now else Some []) of
         None \<Rightarrow> None
       | Some calls \<Rightarrow>
         (case extractConfigLiterals R U ce symbols content path repo now of
            None \<Rightarrow> None
          | Some configs \<Rightarrow>
            (let recorded = markRecorded (markRecorded [] calls) configs;
                 patterns = extractPatternLiterals R U ce symbols content path repo now recorded
             in case (if ce_decode ce \<and> constPrefixPresent ce content symbols path
                      then extractDecodeSwitchLiterals U ce symbols cts content path repo now else Some []) of
                  None \<Rightarrow> None
                | Some decodes \<Rightarrow> Some (calls @ configs @ patterns @ decodes))))"

definition extractCallSiteContracts :: "regexps \<Rightarrow> unidata \<Rightarrow> compiled \<Rightarrow> (string, symbol) gomap \<Rightarrow> (string, string) gomap
    \<Rightarrow> (string, string list) gomap \<Rightarrow> string \<Rightarrow> string \<Rightarrow> runtime_contract list option" where
  "extractCallSiteContracts R U ce symbols files imports repo now =
     collect (extract_file R U ce symbols imports
       (if ce_decode ce then buildCaseConsts symbols else \<lparr>cc_byQualifiedName = [], cc_byBaseName = []\<rparr>) repo now) files"

fun fileImportPaths :: "(string, string) gomap \<Rightarrow> (string, string list) gomap option" where
  "fileImportPaths [] = Some []"
| "fileImportPaths ((path, content) # files) =
     (case importPaths content of
        None \<Rightarrow> None
      | Some imps \<Rightarrow> map_option (\<lambda>out. (path, imps) # out) (fileImportPaths files))"

definition extractRepoContracts :: "regexps \<Rightarrow> unidata \<Rightarrow> compiled list \<Rightarrow> (string, symbol) gomap \<Rightarrow> (string, string) gomap
    \<Rightarrow> (string, string list) gomap \<Rightarrow> string \<Rightarrow> string \<Rightarrow> runtime_contract list option" where
  "extractRepoContracts R U extractors symbols files imports repo now =
     collect (\<lambda>ce. map_option (\<lambda>sites. extractConstContracts U ce symbols repo now @ sites)
       (extractCallSiteContracts R U ce symbols files imports repo now)) extractors"

definition ExtractRuntimeContracts :: "regexps \<Rightarrow> unidata \<Rightarrow> extractor list \<Rightarrow> analysis \<Rightarrow> string \<Rightarrow> runtime_contract list option" where
  "ExtractRuntimeContracts R U extractors0 an now =
     (let extractors = (if extractors0 = [] then DefaultRuntimeExtractors R else extractors0);
          compiled = map compile_extractor extractors
      in collect (\<lambda>(repo, symbols).
           let files = gm_get [] (an_Files an) repo in
           case fileImportPaths files of
             None \<Rightarrow> None
           | Some imports \<Rightarrow> extractRepoContracts R U compiled symbols files imports repo now)
         (an_Symbols an))"

end
