(* ===== verification/Runtime_Proofs.thy ===== *)
theory Runtime_Proofs
  imports Runtime
begin

text \<open>
  The registry merge as a fold per kind, the attribution of a line to its declaration, and the
  identity of a capture site across the passes of a file.
\<close>

section \<open>Merging registries\<close>

definition by_kind :: "string \<Rightarrow> extractor list \<Rightarrow> extractor option" where
  "by_kind k es = find (\<lambda>e. ex_Kind e = k) es"

definition merge_in :: "extractor \<Rightarrow> extractor option \<Rightarrow> extractor option" where
  "merge_in c cur = Some (case cur of None \<Rightarrow> c | Some b \<Rightarrow> mergeRuntimeExtractor b c)"

lemma merge_kind [simp]: "ex_Kind (mergeRuntimeExtractor b c) = ex_Kind b"
  by (simp add: mergeRuntimeExtractor_def Let_def)

text \<open>The index holds the position of every kind.\<close>

definition index_ok :: "registry \<Rightarrow> bool" where
  "index_ok r \<longleftrightarrow> distinct (map ex_Kind (fst r)) \<and>
     (\<forall>k p. map_of (snd r) k = Some p \<longleftrightarrow> p < length (fst r) \<and> ex_Kind (fst r ! p) = k)"

lemma index_ok_None: "index_ok (out, idx) \<Longrightarrow> map_of idx k = None \<longleftrightarrow> k \<notin> ex_Kind ` set out"
proof -
  assume a: "index_ok (out, idx)"
  have "map_of idx k = Some p \<longleftrightarrow> p < length out \<and> ex_Kind (out ! p) = k" for p
    using a unfolding index_ok_def by simp
  then have "map_of idx k = None \<longleftrightarrow> (\<nexists>p. p < length out \<and> ex_Kind (out ! p) = k)"
    by (metis not_Some_eq)
  moreover have "ex_Kind ` set out = {ex_Kind (out ! p) | p. p < length out}" by (auto simp: set_conv_nth)
  ultimately show ?thesis by auto
qed

lemma index_ok_snoc:
  assumes "index_ok (out, idx)" "ex_Kind e \<notin> ex_Kind ` set out"
  shows "index_ok (out @ [e], gm_put (ex_Kind e) (length out) idx)"
  using assms unfolding index_ok_def
  by (auto simp: nth_append less_Suc_eq split: if_splits) (metis image_eqI nth_mem)+

lemma index_ok_base:
  "distinct (map ex_Kind base) \<Longrightarrow> index_ok (fold add_base base ([], [])) \<and> fst (fold add_base base ([], [])) = base"
proof (induction base rule: rev_induct)
  case Nil
  then show ?case by (simp add: index_ok_def)
next
  case (snoc b base)
  obtain out idx where f: "fold add_base base ([], []) = (out, idx)" by fastforce
  then have "index_ok (out, idx)" "out = base" using snoc by auto
  moreover have "fold add_base (base @ [b]) ([], []) = (out @ [b], gm_put (ex_Kind b) (length out) idx)"
    using f by (simp add: add_base_def [of b])
  ultimately show ?case using snoc.prems by (simp add: index_ok_snoc)
qed

lemma by_kind_nth:
  "distinct (map ex_Kind es) \<Longrightarrow> p < length es \<Longrightarrow> by_kind (ex_Kind (es ! p)) es = Some (es ! p)"
  unfolding by_kind_def find_Some_iff
  by (rule exI [where x = p]) (auto simp: distinct_conv_nth)

lemma by_kind_None: "by_kind k es = None \<longleftrightarrow> k \<notin> ex_Kind ` set es"
  by (auto simp: by_kind_def find_None_iff)

lemma by_kind_snoc: "by_kind k (es @ [e]) = (case by_kind k es of None \<Rightarrow> if ex_Kind e = k then Some e else None | Some x \<Rightarrow> Some x)"
  by (induction es) (auto simp: by_kind_def)

lemma by_kind_update:
  assumes d: "distinct (map ex_Kind es)" and p: "p < length es" "ex_Kind e = ex_Kind (es ! p)"
  shows "by_kind k (es[p := e]) = (if k = ex_Kind e then Some e else by_kind k es)"
proof -
  have m: "map ex_Kind (es[p := e]) = map ex_Kind es"
    by (metis list_update_id map_update nth_map p)
  then have d': "distinct (map ex_Kind (es[p := e]))" using d by simp
  show ?thesis
  proof (cases "k \<in> ex_Kind ` set es")
    case False
    then have "by_kind k es = None" "by_kind k (es[p := e]) = None"
      using m by_kind_None by (metis list.set_map)+
    moreover have "k \<noteq> ex_Kind e" using False p by auto
    ultimately show ?thesis by simp
  next
    case True
    then obtain q where q: "q < length es" "k = ex_Kind (es ! q)" by (auto simp: in_set_conv_nth)
    show ?thesis
    proof (cases "q = p")
      case True
      then show ?thesis using by_kind_nth [OF d', of p] p q by simp
    next
      case False
      then have "k \<noteq> ex_Kind e" using d p q by (auto simp: distinct_conv_nth)
      then show ?thesis using by_kind_nth [OF d', of q] by_kind_nth [OF d q(1)] q False by simp
    qed
  qed
qed

lemma add_custom_step:
  assumes "index_ok (out, idx)"
  shows "index_ok (add_custom c (out, idx)) \<and>
    map ex_Kind (fst (add_custom c (out, idx))) = map ex_Kind out @ (if ex_Kind c \<in> ex_Kind ` set out then [] else [ex_Kind c]) \<and>
    by_kind k (fst (add_custom c (out, idx))) = (if k = ex_Kind c then merge_in c (by_kind k out) else by_kind k out)"
proof (cases "map_of idx (ex_Kind c)")
  case None
  then have n: "ex_Kind c \<notin> ex_Kind ` set out" using index_ok_None [OF assms] by simp
  then have "by_kind (ex_Kind c) out = None" using by_kind_None by blast
  then show ?thesis using None n index_ok_snoc [OF assms n]
    by (auto simp: add_custom_def by_kind_snoc merge_in_def split: option.splits)
next
  case (Some p)
  then have p: "p < length out" "ex_Kind (out ! p) = ex_Kind c" "distinct (map ex_Kind out)"
    using assms by (auto simp: index_ok_def)
  let ?m = "mergeRuntimeExtractor (out ! p) c"
  have m: "map ex_Kind (out[p := ?m]) = map ex_Kind out"
    by (metis list_update_id map_update nth_map p(1) merge_kind)
  have "ex_Kind (out[p := ?m] ! i) = ex_Kind (out ! i)" if "i < length out" for i
    using that p by (cases "i = p") auto
  then have "index_ok (out[p := ?m], idx)" using assms m by (auto simp: index_ok_def)
  moreover have "by_kind k (out[p := ?m]) = (if k = ex_Kind c then Some ?m else by_kind k out)"
    using by_kind_update [OF p(3,1), of ?m k] p by simp
  moreover have "by_kind (ex_Kind c) out = Some (out ! p)" using by_kind_nth [OF p(3,1)] p(2) by simp
  moreover have "ex_Kind c \<in> ex_Kind ` set out" using p by (metis imageI nth_mem)
  ultimately show ?thesis using Some m by (simp add: add_custom_def merge_in_def)
qed

lemma add_custom_fold:
  assumes "index_ok r"
  shows "map ex_Kind (fst (fold add_custom custom r)) =
      map ex_Kind (fst r) @ dedup_by (\<lambda>k. k) (map ex_Kind (fst r)) (map ex_Kind custom) \<and>
    by_kind k (fst (fold add_custom custom r)) =
      fold merge_in (filter (\<lambda>c. ex_Kind c = k) custom) (by_kind k (fst r))"
  using assms
proof (induction custom arbitrary: r)
  case Nil
  then show ?case by simp
next
  case (Cons c custom)
  obtain out idx where r: "r = (out, idx)" by (cases r)
  have s: "index_ok (add_custom c r)" 
    "map ex_Kind (fst (add_custom c r)) = map ex_Kind out @ (if ex_Kind c \<in> ex_Kind ` set out then [] else [ex_Kind c])"
    "by_kind k (fst (add_custom c r)) = (if k = ex_Kind c then merge_in c (by_kind k out) else by_kind k out)"
    using add_custom_step [of out idx c k] Cons.prems r by blast+
  have dd: "dedup_by (\<lambda>k. k) (ks @ [x]) xs = dedup_by (\<lambda>k. k) (x # ks) xs" for ks x and xs :: "string list"
  proof -
    have "set ks1 = set ks2 \<Longrightarrow> dedup_by (\<lambda>k. k) ks1 xs = dedup_by (\<lambda>k. k) ks2 xs" for ks1 ks2
    proof (induction xs arbitrary: ks1 ks2)
      case (Cons y ys)
      have "dedup_by (\<lambda>k. k) (y # ks1) ys = dedup_by (\<lambda>k. k) (y # ks2) ys"
        by (rule Cons.IH) (use Cons.prems in simp)
      then show ?case using Cons.prems Cons.IH [OF Cons.prems] by simp
    qed simp
    then show ?thesis by simp
  qed
  show ?case using Cons.IH [OF s(1)] s(2,3) r by (auto simp: dd)
qed

text \<open>
  merging custom extractors into a registry keeps the base kinds in order and appends each new
  kind once, where it first occurs; the entry of a kind is the base entry of that kind, or else its
  first custom entry, with every further custom entry of the kind merged into it in turn.
\<close>

theorem MergeRuntimeExtractors_spec:
  assumes "distinct (map ex_Kind base)"
  shows "map ex_Kind (MergeRuntimeExtractors base custom) =
      map ex_Kind base @ dedup_by (\<lambda>k. k) (map ex_Kind base) (map ex_Kind custom)
    \<and> by_kind k (MergeRuntimeExtractors base custom) =
      fold merge_in (filter (\<lambda>c. ex_Kind c = k) custom) (by_kind k base)"
  using add_custom_fold [of "fold add_base base ([], [])" custom k] index_ok_base [OF assms]
  by (simp add: MergeRuntimeExtractors_def)

definition demo_regexps :: regexps where
  "demo_regexps = \<lparr>rx_submatch = (\<lambda>_ _. None), rx_all_submatch = (\<lambda>_ line. [[line, line]]), rx_replace = (\<lambda>_ _ s. s)\<rparr>"

definition demo_extractor :: "string \<Rightarrow> extractor" where
  "demo_extractor k = \<lparr>ex_Normalize = None, ex_NormalizeRules = [], ex_Kind = k, ex_Name = [], ex_ConstPrefix = [],
     ex_ImportsMatch = [], ex_ProducerMethods = [''Put''], ex_ConsumerMethods = [], ex_ConfigPatterns = [],
     ex_LiteralPatterns = [], ex_ArgIndex = 0, ex_DecodeSwitch = False\<rparr>"

theorem MergeRuntimeExtractors_spec_witness:
  "map ex_Kind (MergeRuntimeExtractors (DefaultRuntimeExtractors demo_regexps) [demo_extractor ''pg'', demo_extractor ''redis''])
     = [''redis'', ''jetstream'', ''ws_type'', ''pg'']"
proof -
  have "distinct (map ex_Kind (DefaultRuntimeExtractors demo_regexps))" by (simp add: DefaultRuntimeExtractors_def)
  from MergeRuntimeExtractors_spec [OF this, of "[demo_extractor ''pg'', demo_extractor ''redis'']"]
  show ?thesis by (simp add: DefaultRuntimeExtractors_def demo_extractor_def)
qed

section \<open>Attribution of a line\<close>

definition declares :: "string \<Rightarrow> int \<Rightarrow> symbol \<Rightarrow> bool" where
  "declares path line sy \<longleftrightarrow> sy_PosFile sy = path \<and> 0 < sy_PosLine sy \<and> sy_PosLine sy \<le> line"

lemma enclosing_fold:
  "case fold (\<lambda>(qn, sy). enclosing_step path line sy) syms (b, bl) of (best, bestLine) \<Rightarrow>
     bl \<le> bestLine \<and> (\<forall>(qn, sy)\<in>set syms. declares path line sy \<longrightarrow> sy_PosLine sy \<le> bestLine) \<and>
     (best = b \<and> bestLine = bl \<or>
      (\<exists>(qn, sy)\<in>set syms. declares path line sy \<and> sy_QualifiedName sy = best \<and> sy_PosLine sy = bestLine))"
proof (induction syms arbitrary: b bl)
  case (Cons p syms)
  obtain qn sy where p: "p = (qn, sy)" by (cases p)
  obtain b' bl' where s: "enclosing_step path line sy (b, bl) = (b', bl')" by fastforce
  have step: "bl \<le> bl'" "declares path line sy \<Longrightarrow> sy_PosLine sy \<le> bl'"
    "b' = b \<and> bl' = bl \<or> declares path line sy \<and> sy_QualifiedName sy = b' \<and> sy_PosLine sy = bl'"
    using s by (auto simp: enclosing_step_def declares_def split: if_splits)
  show ?case using Cons.IH [of bl' b'] s p step by (auto split: prod.splits)
qed simp

text \<open>
  a line is attributed to the nearest declaration at or above it: the answer is the name of a
  declaration of the file that no other declaration lies below of and still at or above the line;
  without such a declaration it is the file path.
\<close>

theorem enclosingSymbol_nearest:
  assumes named: "\<And>qn sy. (qn, sy) \<in> set symbols \<Longrightarrow> sy_QualifiedName sy \<noteq> []"
  shows "(\<exists>qn sy. (qn, sy) \<in> set symbols \<and> declares path line sy \<and> enclosingSymbol symbols path line = sy_QualifiedName sy
           \<and> (\<forall>qn' sy'. (qn', sy') \<in> set symbols \<and> declares path line sy' \<longrightarrow> sy_PosLine sy' \<le> sy_PosLine sy))
    \<or> enclosingSymbol symbols path line = path \<and> (\<nexists>qn sy. (qn, sy) \<in> set symbols \<and> declares path line sy)"
proof -
  obtain best bestLine where f: "fold (\<lambda>(qn, sy). enclosing_step path line sy) symbols ([], 0) = (best, bestLine)"
    by fastforce
  have all: "sy_PosLine sy \<le> bestLine" if "(qn, sy) \<in> set symbols" "declares path line sy" for qn sy
    using enclosing_fold [where path = path and line = line and syms = symbols and b = "[]" and bl = 0] f that by fastforce
  have alt: "best = [] \<and> bestLine = 0 \<or>
      (\<exists>(qn, sy)\<in>set symbols. declares path line sy \<and> sy_QualifiedName sy = best \<and> sy_PosLine sy = bestLine)"
    using enclosing_fold [where path = path and line = line and syms = symbols and b = "[]" and bl = 0] f by simp
  have e: "enclosingSymbol symbols path line = (if best \<noteq> [] then best else path)"
    unfolding enclosingSymbol_def using f by (simp add: split_def)
  from alt show ?thesis
  proof
    assume "best = [] \<and> bestLine = 0"
    moreover have False if "(qn, sy) \<in> set symbols" "declares path line sy" for qn sy
      using all [OF that] that calculation by (simp add: declares_def)
    ultimately show ?thesis using e by auto
  next
    assume "\<exists>(qn, sy)\<in>set symbols. declares path line sy \<and> sy_QualifiedName sy = best \<and> sy_PosLine sy = bestLine"
    then obtain qn sy where sy: "(qn, sy) \<in> set symbols" "declares path line sy" "sy_QualifiedName sy = best"
      "sy_PosLine sy = bestLine" by blast
    then have "best \<noteq> []" using named by blast
    then show ?thesis using sy all e by metis
  qed
qed

definition demo_symbol :: "string \<Rightarrow> string \<Rightarrow> int \<Rightarrow> symbol" where
  "demo_symbol qn file line =
     \<lparr>sy_QualifiedName = qn, sy_PackagePath = [], sy_Name = qn, sy_Kind = ''func'', sy_Receiver = [],
      sy_Signature = [], sy_Doc = [], sy_PosFile = file, sy_Repo = [], sy_Fields = [], sy_PosLine = line,
      sy_Complexity = 1, sy_ChurnCount = 0, sy_Importance = 0, sy_Exported = True, sy_IsTest = False,
      sy_IsGenerated = False\<rparr>"

theorem enclosingSymbol_nearest_witness:
  "enclosingSymbol [(''p.F'', demo_symbol ''p.F'' ''a.go'' 3), (''p.G'', demo_symbol ''p.G'' ''a.go'' 9)] ''a.go'' 7 = ''p.F''"
proof -
  let ?s = "[(''p.F'', demo_symbol ''p.F'' ''a.go'' 3), (''p.G'', demo_symbol ''p.G'' ''a.go'' 9)]"
  have "\<And>qn sy. (qn, sy) \<in> set ?s \<Longrightarrow> sy_QualifiedName sy \<noteq> []" by (auto simp: demo_symbol_def)
  note spec = enclosingSymbol_nearest [OF this, where path = "''a.go''" and line = 7]
  have d: "declares ''a.go'' 7 sy \<longleftrightarrow> sy = demo_symbol ''p.F'' ''a.go'' 3" if "(qn, sy) \<in> set ?s" for qn sy
    using that by (auto simp: declares_def demo_symbol_def)
  have m: "(''p.F'', demo_symbol ''p.F'' ''a.go'' 3) \<in> set ?s" by simp
  from spec show ?thesis
  proof
    assume "\<exists>qn sy. (qn, sy) \<in> set ?s \<and> declares ''a.go'' 7 sy \<and> enclosingSymbol ?s ''a.go'' 7 = sy_QualifiedName sy
        \<and> (\<forall>qn' sy'. (qn', sy') \<in> set ?s \<and> declares ''a.go'' 7 sy' \<longrightarrow> sy_PosLine sy' \<le> sy_PosLine sy)"
    then have "enclosingSymbol ?s ''a.go'' 7 = sy_QualifiedName (demo_symbol ''p.F'' ''a.go'' 3)" using d by metis
    then show ?thesis by (simp add: demo_symbol_def)
  next
    assume "enclosingSymbol ?s ''a.go'' 7 = ''a.go'' \<and> (\<nexists>qn sy. (qn, sy) \<in> set ?s \<and> declares ''a.go'' 7 sy)"
    then show ?thesis using d [OF m] m by blast
  qed
qed

section \<open>Capture sites\<close>

lemma has_prefix_take: "has_prefix s p \<longleftrightarrow> take (length p) s = p"
  by (simp add: has_prefix_def)

lemma str_index_append: "str_index a p = Some i \<Longrightarrow> str_index (a @ b) p = Some i"
proof -
  assume i: "str_index a p = Some i"
  have inside: "has_prefix (drop j (a @ b)) p \<longleftrightarrow> has_prefix (drop j a) p" if "j \<le> i" for j
    using str_index_bound [OF i] that by (simp add: has_prefix_take)
  then have "has_prefix (drop i (a @ b)) p" using str_index_Some [OF i] by simp
  then obtain k where k: "str_index (a @ b) p = Some k" using str_index_None by (metis not_Some_eq)
  have "\<not> k < i" using str_index_first [OF i] str_index_Some [OF k] inside by (metis less_imp_le)
  moreover have "\<not> i < k" using str_index_first [OF k] \<open>has_prefix (drop i (a @ b)) p\<close> by blast
  ultimately show ?thesis using k by simp
qed

lemma last_index_suffix:
  assumes "str_last_index t p = Some k"
  shows "str_last_index (u @ t) p = Some (length u + k)"
proof -
  obtain i where i: "str_index (rev t) (rev p) = Some i" "k = length t - length p - i"
    using assms by (auto simp: str_last_index_def split: option.splits)
  have "i + length p \<le> length t" using str_index_bound [OF i(1)] by simp
  then show ?thesis
    using str_index_append [OF i(1), of "rev u"] i(2) by (simp add: str_last_index_def)
qed

lemma at_index: "\<exists>k. str_last_index ('' at '' @ t) '' at '' = Some k"
proof -
  have "str_index (rev ('' at '' @ t)) (rev '' at '') \<noteq> None"
    using str_index_None [of "rev ('' at '' @ t)" "rev '' at ''" "length t"] by (auto simp: has_prefix_def)
  then show ?thesis by (auto simp: str_last_index_def split: option.splits)
qed

lemma siteKey_place:
  "siteKey fromRef pattern (u @ '' at '' @ place) = siteKey fromRef pattern (v @ '' at '' @ place)"
proof -
  obtain k where k: "str_last_index ('' at '' @ place) '' at '' = Some k" using at_index by blast
  have "drop (length u + k) (u @ '' at '' @ place) = drop (length v + k) (v @ '' at '' @ place)" by simp
  then show ?thesis
    using last_index_suffix [OF k, of u] last_index_suffix [OF k, of v] by (simp add: siteKey_def)
qed

lemma contract_key_place:
  assumes "ce_normalize ce lit = ce_normalize ce lit'"
  shows "contract_key (newCallContract U ce d lit fromRef path n repo now) =
         contract_key (newCallContract U ce d' lit' fromRef path n repo now)"
  using siteKey_place [of fromRef "ce_normalize ce lit"
      "extractor_label ce @ '' '' @ direction_string d @ '' literal '' @ go_quote U lit" "path @ '':'' @ itoa n"
      "extractor_label ce @ '' '' @ direction_string d' @ '' literal '' @ go_quote U lit'"] assms
  by (simp add: contract_key_def newCallContract_def)

lemma markRecorded_get: "gm_get False (markRecorded r cs) k \<longleftrightarrow> k \<in> contract_key ` set cs \<or> gm_get False r k"
  unfolding markRecorded_def by (induction cs arbitrary: r) auto

lemma pattern_fold:
  assumes "c \<in> set (fst (fold (pattern_step U ce syms path repo now recorded) ms (cs, seen)))"
  shows "c \<in> set cs \<or> (\<exists>n lit. c = newCallContract U ce Shared lit (enclosingSymbol syms path n) path n repo now
           \<and> \<not> gm_get False recorded (contract_key c) \<and> ce_normalize ce lit \<notin> set seen)"
  using assms
proof (induction ms arbitrary: cs seen)
  case (Cons x ms)
  obtain n m where x: "x = (n, m)" by (cases x)
  obtain cs' seen' where st: "pattern_step U ce syms path repo now recorded x (cs, seen) = (cs', seen')" by fastforce
  have sub: "set seen \<subseteq> set seen'" using st x by (auto simp: pattern_step_def Let_def split: if_splits)
  have new: "c \<in> set cs' \<Longrightarrow> c \<in> set cs \<or> (\<exists>n lit. c = newCallContract U ce Shared lit (enclosingSymbol syms path n) path n repo now
           \<and> \<not> gm_get False recorded (contract_key c) \<and> ce_normalize ce lit \<notin> set seen)"
  proof -
    assume c: "c \<in> set cs'"
    let ?c = "newCallContract U ce Shared (m ! 1) (enclosingSymbol syms path n) path n repo now"
    have "cs' = cs \<or> cs' = cs @ [?c] \<and> \<not> gm_get False recorded (contract_key ?c) \<and> ce_normalize ce (m ! 1) \<notin> set seen"
      using st x by (simp add: pattern_step_def Let_def split: if_splits)
    then show ?thesis
    proof
      assume "cs' = cs"
      then show ?thesis using c by blast
    next
      assume n: "cs' = cs @ [?c] \<and> \<not> gm_get False recorded (contract_key ?c) \<and> ce_normalize ce (m ! 1) \<notin> set seen"
      then have "c \<in> set cs \<or> c = ?c" using c by auto
      then show ?thesis using n by blast
    qed
  qed
  from Cons.prems st have "c \<in> set (fst (fold (pattern_step U ce syms path repo now recorded) ms (cs', seen')))" by simp
  then show ?case using Cons.IH new sub by blast
qed simp

text \<open>
  the shaped-literal pass never reports a site that an earlier pass over the file has already
  recorded: each of its contracts is a capture at some line such that no call or configuration
  contract of the file captures the same pattern at that line in the same declaration, whatever
  its direction and however its literal was spelled.
\<close>

theorem extractPatternLiterals_fresh:
  assumes "c \<in> set (extractPatternLiterals R U ce symbols content path repo now
             (markRecorded (markRecorded [] calls) configs))"
  shows "\<exists>n lit. c = newCallContract U ce Shared lit (enclosingSymbol symbols path n) path n repo now \<and>
    (\<forall>dir lit'. ce_normalize ce lit' = ce_normalize ce lit \<longrightarrow>
       newCallContract U ce dir lit' (enclosingSymbol symbols path n) path n repo now \<notin> set calls \<union> set configs)"
proof -
  let ?r = "markRecorded (markRecorded [] calls) configs"
  obtain n lit where c: "c = newCallContract U ce Shared lit (enclosingSymbol symbols path n) path n repo now"
    "\<not> gm_get False ?r (contract_key c)"
  proof -
    obtain ms where "c \<in> set (fst (fold (pattern_step U ce symbols path repo now ?r) ms ([], [])))"
      using assms by (auto simp: extractPatternLiterals_def split: option.splits)
    from pattern_fold [OF this] show ?thesis using that by auto
  qed
  have "newCallContract U ce dir lit' (enclosingSymbol symbols path n) path n repo now \<notin> set calls \<union> set configs"
    if "ce_normalize ce lit' = ce_normalize ce lit" for dir lit'
  proof
    let ?d = "newCallContract U ce dir lit' (enclosingSymbol symbols path n) path n repo now"
    assume "?d \<in> set calls \<union> set configs"
    then have "gm_get False ?r (contract_key ?d)" by (auto simp: markRecorded_get)
    then show False using c contract_key_place [OF that] by metis
  qed
  then show ?thesis using c(1) by blast
qed

definition demo_compiled :: compiled where
  "demo_compiled = compile_extractor (demo_extractor ''pg'')\<lparr>ce_literal := Some ''x''\<rparr>"

theorem extractPatternLiterals_fresh_witness:
  "\<exists>n lit. newCallContract ascii_tables demo_compiled Shared ''k/'' ''a.go'' ''a.go'' 1 [] [] =
      newCallContract ascii_tables demo_compiled Shared lit (enclosingSymbol [] ''a.go'' n) ''a.go'' n [] []"
proof -
  have "newCallContract ascii_tables demo_compiled Shared ''k/'' ''a.go'' ''a.go'' 1 [] [] \<in>
      set (extractPatternLiterals demo_regexps ascii_tables demo_compiled [] ''k/'' ''a.go'' [] []
        (markRecorded (markRecorded [] []) []))"
    by (simp add: extractPatternLiterals_def demo_regexps_def numbered_def pattern_step_def Let_def
        enclosingSymbol_def markRecorded_def demo_compiled_def)
  from extractPatternLiterals_fresh [OF this] show ?thesis by blast
qed

end
