(* ===== verification/Runner.thy ===== *)
theory Runner
  imports Runtime
begin

text \<open>
  The analysis run (\<^verbatim>\<open>contract/runner.go\<close>): from the symbol rows of the store to contracts, runtime
  contracts and drift reports, and the staleness driver around it. The store operations the driver
  calls are the fields of \<open>contract_env\<close>; an error is its message, on the left of a sum.
\<close>

section \<open>The analysis context\<close>

definition add_symbol :: "symbol \<Rightarrow> analysis \<Rightarrow> analysis" where
  "add_symbol sy an =
     (let repo = sy_Repo sy; qn = sy_QualifiedName sy;
          an = an\<lparr>an_Symbols := gm_put repo (gm_put qn sy (gm_get [] (an_Symbols an) repo)) (an_Symbols an)\<rparr>;
          an = (if sy_Kind sy = kindConst then
                  let cts = gm_get [] (an_Constants an) repo; val = extractStringConst (sy_Signature sy)
                  in an\<lparr>an_Constants := gm_put repo (if val \<noteq> [] then gm_put qn val cts else cts) (an_Constants an)\<rparr>
                else an)
      in if sy_Kind sy = kindType then
           an\<lparr>an_Structs := gm_put repo
             (gm_put qn \<lparr>si_QualifiedName = qn, si_PackagePath = sy_PackagePath sy, si_Repo = repo,
                         si_Fields = fieldsFromSymbol (sy_Fields sy)\<rparr> (gm_get [] (an_Structs an) repo))
             (an_Structs an)\<rparr>
         else an)"

definition build_context :: "symbol list \<Rightarrow> (string, (string, string) gomap) gomap \<Rightarrow> analysis" where
  "build_context symbols files =
     (fold add_symbol symbols \<lparr>an_Symbols = [], an_Constants = [], an_Structs = [], an_Files = []\<rparr>)
       \<lparr>an_Files := files\<rparr>"

section \<open>Contracts\<close>

definition pair_evidence :: "unidata \<Rightarrow> constant_pair \<Rightarrow> string" where
  "pair_evidence U p =
     ''shared constant value '' @ go_quote U (cr_Value (cp_A p)) @ ''; repos: '' @ cr_Repo (cp_A p)
     @ '', '' @ cr_Repo (cp_B p)"

definition pair_structs :: "analysis \<Rightarrow> constant_pair \<Rightarrow> (struct_info \<times> struct_info) option" where
  "pair_structs an p =
     (case associatedStruct an (cr_Repo (cp_A p)) (cr_Name (cp_A p)) of
        None \<Rightarrow> None
      | Some a \<Rightarrow> (case associatedStruct an (cr_Repo (cp_B p)) (cr_Name (cp_B p)) of
                     None \<Rightarrow> None | Some b \<Rightarrow> Some (a, b)))"

text \<open>The loop body over one shared constant: the contract and the drift it adds.\<close>

definition pair_contract :: "unidata \<Rightarrow> analysis_index \<Rightarrow> analysis \<Rightarrow> f64 \<Rightarrow> string \<Rightarrow> constant_pair
    \<Rightarrow> contract_row \<times> drift_report list" where
  "pair_contract U idx an threshold now p =
     (let fromRef = cr_Name (cp_A p); toRef = cr_Name (cp_B p);
          (signalB, sev, drifts, matches) =
            (case pair_structs an p of
               None \<Rightarrow> (False, Unknown, [], 0)
             | Some (a, b) \<Rightarrow>
                 let cmp = CompareStructShapes a b in
                 (cm_Divergences cmp = [], ClassifyDriftSeverity cmp,
                  case DetectDrift fromRef toRef a b now of None \<Rightarrow> [] | Some d \<Rightarrow> [d],
                  cm_Matches cmp));
          confidence = ConfidenceScore True signalB;
          evidence = pair_evidence U p
            @ (if signalB then ''; structural match on '' @ itoa (int matches) @ '' CBOR fields'' else [])
      in (\<lparr>ct_FromRef = fromRef, ct_ToRef = toRef,
           ct_Direction = InferContractDirection U idx an fromRef toRef, ct_Severity = sev,
           ct_Evidence = evidence, ct_IndexedAt = now, ct_Confidence = confidence,
           ct_Suggested = IsSuggested confidence threshold\<rparr>, drifts))"

definition shapeCandidates :: "analysis \<Rightarrow> struct_info list" where
  "shapeCandidates an = filter (\<lambda>si. si_Fields si \<noteq> []) (map snd (all_structs an))"

definition shapeOnlyContract :: "analysis_index \<Rightarrow> string \<Rightarrow> struct_info \<Rightarrow> struct_info \<Rightarrow> contract_row option" where
  "shapeOnlyContract idx now a b =
     (if haveSharedConstantIndex idx a b then None
      else let cmp = CompareStructShapes a b in
        if \<not> cm_Identical cmp then None
        else
          let (from, to) = (if si_QualifiedName a > si_QualifiedName b
                            then (si_QualifiedName b, si_QualifiedName a)
                            else (si_QualifiedName a, si_QualifiedName b))
          in Some \<lparr>ct_FromRef = from, ct_ToRef = to, ct_Direction = Shared, ct_Severity = Compatible,
                   ct_Evidence = ''identical struct shape ('' @ itoa (int (cm_Matches cmp))
                     @ '' fields), no shared constant; repos: '' @ si_Repo a @ '', '' @ si_Repo b,
                   ct_IndexedAt = now, ct_Confidence = ConfidenceScore False True, ct_Suggested = True\<rparr>)"

text \<open>The body of the pair loop; the state is the contracts so far and the pairs seen.\<close>

definition shape_step :: "analysis_index \<Rightarrow> string \<Rightarrow> struct_info \<times> struct_info
    \<Rightarrow> contract_row list \<times> string list \<Rightarrow> contract_row list \<times> string list" where
  "shape_step idx now = (\<lambda>(a, b) (out, seen).
     if si_Repo a = si_Repo b then (out, seen)
     else let key = si_QualifiedName a @ [CHR 0x00] @ si_QualifiedName b in
       if key \<in> set seen then (out, seen)
       else if \<not> shareWireField idx a b then (out, key # seen)
       else (case shapeOnlyContract idx now a b of
               None \<Rightarrow> (out, key # seen) | Some c \<Rightarrow> (out @ [c], key # seen)))"

definition suggestedShapePairs :: "analysis \<Rightarrow> analysis_index \<Rightarrow> string \<Rightarrow> contract_row list" where
  "suggestedShapePairs an idx now = fst (fold (shape_step idx now) (upairs (shapeCandidates an)) ([], []))"

definition extractContracts :: "unidata \<Rightarrow> analysis \<Rightarrow> f64 \<Rightarrow> string \<Rightarrow> contract_row list \<times> drift_report list" where
  "extractContracts U an threshold now =
     (let idx = buildAnalysisIndex U an;
          rows = map (pair_contract U idx an threshold now) (FindSharedTypeConstants an)
      in (map fst rows @ suggestedShapePairs an idx now, concat (map snd rows)))"

section \<open>Suppression\<close>

definition filterSuppressed :: "contract_row list \<Rightarrow> (string, bool) gomap \<Rightarrow> contract_row list" where
  "filterSuppressed contracts supr =
     (if supr = [] then contracts
      else filter (\<lambda>c. \<not> is_suppressed supr (ct_FromRef c) (ct_ToRef c)) contracts)"

definition filterSuppressedDrifts :: "drift_report list \<Rightarrow> (string, bool) gomap \<Rightarrow> drift_report list" where
  "filterSuppressedDrifts drifts supr =
     (if supr = [] then drifts
      else filter (\<lambda>d. \<not> is_suppressed supr (dr_FromRef d) (dr_ToRef d)) drifts)"

section \<open>Runs\<close>

record contract_config =
  cfg_Suppress :: "(string, bool) gomap"
  cfg_Extractors :: "extractor list"
  cfg_Threshold :: f64

definition DefaultConfig :: "regexps \<Rightarrow> contract_config" where
  "DefaultConfig R =
     \<lparr>cfg_Suppress = [], cfg_Extractors = DefaultRuntimeExtractors R, cfg_Threshold = DefaultConfidenceThreshold\<rparr>"

record repo_row =
  rp_ModulePath :: string
  rp_Missing :: bool

type_synonym rows = "contract_row list \<times> runtime_contract list \<times> drift_report list"

text \<open>The store and the clock as the driver sees them during one call.\<close>

record contract_env =
  ev_ListRepos :: "repo_row list result"
  ev_IsContractStale :: "string \<Rightarrow> bool result"
  ev_IndexedAt :: "string result"
  ev_ParseTime :: "string \<Rightarrow> int result"
  ev_AnalysisTime :: "(int \<times> bool) result"
  ev_AllSymbols :: "symbol list result"
  ev_FileContents :: "(string, (string, string) gomap) gomap result"
  ev_Write :: "rows \<Rightarrow> string \<Rightarrow> string option"
  ev_Now :: string
  ev_WriteTime :: string

definition buildAnalysis :: "contract_env \<Rightarrow> analysis result" where
  "buildAnalysis env =
     (case ev_AllSymbols env of
        Inl e \<Rightarrow> Inl e
      | Inr symbols \<Rightarrow>
          (case ev_FileContents env of
             Inl e \<Rightarrow> Inl (''loading indexed file contents: '' @ e)
           | Inr files \<Rightarrow> Inr (build_context symbols files)))"

text \<open>\<open>None\<close> is a panic inside the runtime-contract scanners.\<close>

definition RunAnalysis :: "regexps \<Rightarrow> unidata \<Rightarrow> contract_env \<Rightarrow> contract_config \<Rightarrow> rows result option" where
  "RunAnalysis R U env cfg =
     (case buildAnalysis env of
        Inl e \<Rightarrow> Some (Inl (''building analysis context: '' @ e))
      | Inr an \<Rightarrow>
          let now = ev_Now env;
              (contracts, structuralDrifts) = extractContracts U an (cfg_Threshold cfg) now
          in case ExtractRuntimeContracts R U (cfg_Extractors cfg) an now of
               None \<Rightarrow> None
             | Some runtime \<Rightarrow>
                 Some (Inr (filterSuppressed contracts (cfg_Suppress cfg), runtime,
                   filterSuppressedDrifts (FindConstantDrift U an now @ structuralDrifts) (cfg_Suppress cfg))))"

text \<open>The result of a driver call, with the rows it wrote, if it wrote any.\<close>

type_synonym driven = "string list result \<times> rows option"

definition run_and_write :: "regexps \<Rightarrow> unidata \<Rightarrow> contract_env \<Rightarrow> contract_config \<Rightarrow> string list \<Rightarrow> driven option" where
  "run_and_write R U env cfg repos =
     (case RunAnalysis R U env cfg of
        None \<Rightarrow> None
      | Some (Inl e) \<Rightarrow> Some (Inl e, None)
      | Some (Inr rs) \<Rightarrow>
          (case ev_Write env rs (ev_WriteTime env) of
             Some e \<Rightarrow> Some (Inl e, None)
           | None \<Rightarrow> Some (Inr repos, Some rs)))"

definition reanalyzeSingleRepo :: "regexps \<Rightarrow> unidata \<Rightarrow> contract_env \<Rightarrow> contract_config \<Rightarrow> driven option" where
  "reanalyzeSingleRepo R U env cfg =
     (case ev_IndexedAt env of
        Inl e \<Rightarrow> Some (Inl e, None)
      | Inr stamp \<Rightarrow>
          if stamp = [] then Some (Inr [], None)
          else case ev_ParseTime env stamp of
            Inl e \<Rightarrow> Some (Inl (''parse indexed_at '' @ go_quote U stamp @ '': '' @ e), None)
          | Inr indexedAt \<Rightarrow>
              (case ev_AnalysisTime env of
                 Inl e \<Rightarrow> Some (Inl e, None)
               | Inr (analysisTime, ok) \<Rightarrow>
                   if ok \<and> \<not> analysisTime < indexedAt then Some (Inr [], None)
                   else run_and_write R U env cfg []))"

fun stale_repos :: "contract_env \<Rightarrow> repo_row list \<Rightarrow> string list result" where
  "stale_repos env [] = Inr []"
| "stale_repos env (repo # repos) =
     (if rp_Missing repo then stale_repos env repos
      else case ev_IsContractStale env (rp_ModulePath repo) of
        Inl e \<Rightarrow> Inl (''contract staleness check for '' @ rp_ModulePath repo @ '': '' @ e)
      | Inr stale \<Rightarrow>
          (case stale_repos env repos of
             Inl e \<Rightarrow> Inl e
           | Inr rest \<Rightarrow> Inr (if stale then rp_ModulePath repo # rest else rest)))"

definition ReanalyzeStaleContracts :: "regexps \<Rightarrow> unidata \<Rightarrow> contract_env \<Rightarrow> contract_config \<Rightarrow> driven option" where
  "ReanalyzeStaleContracts R U env cfg =
     (case ev_ListRepos env of
        Inl e \<Rightarrow> Some (Inl e, None)
      | Inr repos \<Rightarrow>
          if repos = [] then reanalyzeSingleRepo R U env cfg
          else case stale_repos env repos of
            Inl e \<Rightarrow> Some (Inl e, None)
          | Inr stale \<Rightarrow>
              if stale = [] then Some (Inr [], None) else run_and_write R U env cfg stale)"

end
