(* ===== verification/Runner_Proofs.thy ===== *)
theory Runner_Proofs
  imports Runner Contract_Shape Contract_Pairs Runtime_Proofs
begin

text \<open>
  The analysis run: reading constants back from signatures, the wire-name prefilter as a pure
  optimisation, what each contract row says, and when the driver writes.
\<close>

section \<open>String constants\<close>

lemma trim_body:
  assumes "\<not> blank c" "\<not> blank d"
  shows "trimSpaces (u @ [c] @ v @ [d]) = dropWhile blank u @ [c] @ v @ [d]"
proof -
  have "dropWhile blank (u @ [c] @ v @ [d]) = dropWhile blank u @ [c] @ v @ [d]"
    using assms(1) by (induction u) auto
  then show ?thesis using assms(2) by (simp add: trimSpaces_def)
qed

text \<open>
  a declaration such as \<^verbatim>\<open>Name Type = "value"\<close> is read back to its value: whatever stands
  before the first equals sign and whatever the quoted text is, the extracted constant is that text.
\<close>

theorem extractStringConst_reads:
  assumes "CHR ''='' \<notin> set head"
  shows "extractStringConst (head @ ''= '' @ [CHR 0x22] @ v @ [CHR 0x22]) = v"
proof -
  let ?q = "[CHR 0x22] @ v @ [CHR 0x22]"
  let ?h = "dropWhile blank head"
  have t: "trimSpaces (head @ ''= '' @ ?q) = ?h @ ''= '' @ ?q"
    using trim_body [of "CHR ''=''" "CHR 0x22" head "'' '' @ [CHR 0x22] @ v"] by (simp add: blank_def)
  have n: "CHR ''='' \<notin> set ?h" using assms set_dropWhileD by fastforce
  have i: "str_index (w @ ''='' @ r) ''='' = Some (length w)" if "CHR ''='' \<notin> set w" for w r
    using that by (induction w) (auto simp: str_index.simps has_prefix_def)
  have "str_index (?h @ ''= '' @ ?q) ''='' = Some (length ?h)"
    using i [OF n, of "'' '' @ ?q"] by simp
  moreover have "trimSpaces ('' '' @ ?q) = ?q"
    using trim_body [of "CHR 0x22" "CHR 0x22" "'' ''" v] by (simp add: blank_def)
  ultimately show ?thesis
    unfolding extractStringConst_def t by (simp add: Let_def)
qed

theorem extractStringConst_reads_witness:
  "extractStringConst (''MsgTypeAsk string '' @ ''= '' @ [CHR 0x22] @ ''agent_ask'' @ [CHR 0x22]) = ''agent_ask''"
  by (rule extractStringConst_reads) simp

section \<open>The wire-name prefilter\<close>

definition structs_named :: "analysis \<Rightarrow> bool" where
  "structs_named an \<longleftrightarrow> distinct (map fst (all_structs an)) \<and>
     (\<forall>(qn, si)\<in>set (all_structs an). qn = si_QualifiedName si)"

lemma fold_put_lookup:
  "distinct (map fst xs) \<Longrightarrow> (k, x) \<in> set xs \<Longrightarrow>
     map_of (fold (\<lambda>(k, x). gm_put k (f x)) xs m) k = Some (f x)"
proof (induction xs arbitrary: m)
  case (Cons y ys)
  have other: "k \<notin> fst ` set zs \<Longrightarrow> map_of (fold (\<lambda>(k, x). gm_put k (f x)) zs m) k = map_of m k" for zs m
    by (induction zs arbitrary: m) auto
  show ?case
  proof (cases "y = (k, x)")
    case True
    then show ?thesis using Cons.prems(1) other [of ys] by simp
  next
    case False
    then show ?thesis using Cons by simp
  qed
qed simp

lemma wire_set_get: "gm_get False (wire_set si) w \<longleftrightarrow> w \<in> wnames si"
proof -
  have "gm_get False (fold (\<lambda>f. gm_put (fi_WireName f) True) fs m) w \<longleftrightarrow> w \<in> fi_WireName ` set fs \<or> gm_get False m w"
    for fs :: "field_info list" and m
    by (induction fs arbitrary: m) auto
  then show ?thesis by (simp add: wire_set_def wnames_def)
qed

lemma wire_set_keys: "fst ` set (wire_set si) = wnames si"
proof -
  have "fst ` set (fold (\<lambda>f. gm_put (fi_WireName f) True) fs m) = fi_WireName ` set fs \<union> fst ` set m"
    for fs :: "field_info list" and m :: "(string, bool) gomap"
    by (induction fs arbitrary: m) auto
  then show ?thesis by (simp add: wire_set_def wnames_def)
qed

lemma field_set_of:
  assumes "structs_named an" "si \<in> set (shapeCandidates an)"
  shows "gm_get [] (ix_fieldSets (buildAnalysisIndex U an)) (si_QualifiedName si) = wire_set si"
proof -
  obtain qn where m: "(qn, si) \<in> set (all_structs an)" using assms(2) by (auto simp: shapeCandidates_def)
  then have q: "qn = si_QualifiedName si" using assms(1) by (auto simp: structs_named_def)
  have "map_of (ix_fieldSets (buildAnalysisIndex U an)) qn = Some (wire_set si)"
    unfolding buildAnalysisIndex_def
    using fold_put_lookup [of "all_structs an" qn si wire_set "[]"] m assms(1)
    by (simp add: structs_named_def)
  then show ?thesis by (simp add: gm_get_def q)
qed

lemma shareWireField_iff:
  assumes "structs_named an" "a \<in> set (shapeCandidates an)" "b \<in> set (shapeCandidates an)"
  shows "shareWireField (buildAnalysisIndex U an) a b \<longleftrightarrow> wnames a \<inter> wnames b \<noteq> {}"
proof -
  have "shareWireField (buildAnalysisIndex U an) a b \<longleftrightarrow>
      wire_set a \<noteq> [] \<and> wire_set b \<noteq> [] \<and> (\<exists>w\<in>fst ` set (wire_set a). gm_get False (wire_set b) w)"
    using field_set_of [OF assms(1,2)] field_set_of [OF assms(1,3)]
    by (simp add: shareWireField_def Let_def split_def)
  also have "\<dots> \<longleftrightarrow> wnames a \<inter> wnames b \<noteq> {}"
  proof -
    have "wire_set s = [] \<longleftrightarrow> wnames s = {}" for s
      using wire_set_keys [of s] by (metis image_is_empty set_empty)
    then show ?thesis unfolding wire_set_keys wire_set_get by blast
  qed
  finally show ?thesis .
qed

lemma shape_only_shares:
  assumes "si_Fields a \<noteq> []" "shapeOnlyContract idx now a b = Some c"
  shows "wnames a \<inter> wnames b \<noteq> {}"
proof -
  have "cm_Identical (CompareStructShapes a b)"
    using assms(2) by (auto simp: shapeOnlyContract_def Let_def split: if_splits)
  then have "wire_types a = wire_types b" by (simp add: identical_iff)
  then have "wnames a = wnames b" by (metis dom_wire_types)
  then show ?thesis using assms(1) by (auto simp: wnames_def)
qed

text \<open>The pair loop without the prefilter.\<close>

definition shape_step_plain :: "analysis_index \<Rightarrow> string \<Rightarrow> struct_info \<times> struct_info
    \<Rightarrow> contract_row list \<times> string list \<Rightarrow> contract_row list \<times> string list" where
  "shape_step_plain idx now = (\<lambda>(a, b) (out, seen).
     if si_Repo a = si_Repo b then (out, seen)
     else let key = si_QualifiedName a @ [CHR 0x00] @ si_QualifiedName b in
       if key \<in> set seen then (out, seen)
       else (case shapeOnlyContract idx now a b of
               None \<Rightarrow> (out, key # seen) | Some c \<Rightarrow> (out @ [c], key # seen)))"

text \<open>
  the wire-name prefilter is a pure optimisation: as long as qualified names are unique across
  the repositories, skipping the pairs without a common wire name changes nothing in the suggested
  edges.
\<close>

theorem suggestedShapePairs_prefilter:
  assumes "structs_named an"
  shows "suggestedShapePairs an (buildAnalysisIndex U an) now =
    fst (fold (shape_step_plain (buildAnalysisIndex U an) now) (upairs (shapeCandidates an)) ([], []))"
proof -
  let ?idx = "buildAnalysisIndex U an"
  have "shape_step ?idx now p st = shape_step_plain ?idx now p st" if "p \<in> set (upairs (shapeCandidates an))" for p st
  proof -
    obtain a b where p: "p = (a, b)" by (cases p)
    then have m: "a \<in> set (shapeCandidates an)" "b \<in> set (shapeCandidates an)" using that upairs_mem [of a b] by auto
    then have "si_Fields a \<noteq> []" by (simp add: shapeCandidates_def)
    then have "\<not> shareWireField ?idx a b \<Longrightarrow> shapeOnlyContract ?idx now a b = None"
      using shape_only_shares shareWireField_iff [OF assms m] by (metis not_Some_eq)
    then show ?thesis unfolding p by (cases st) (simp add: shape_step_def shape_step_plain_def Let_def)
  qed
  then have "fold (shape_step ?idx now) (upairs (shapeCandidates an)) st =
      fold (shape_step_plain ?idx now) (upairs (shapeCandidates an)) st" for st
    by (intro fold_cong) auto
  then show ?thesis by (simp add: suggestedShapePairs_def)
qed

definition demo_struct :: "string \<Rightarrow> string \<Rightarrow> string \<Rightarrow> struct_info" where
  "demo_struct repo qn wire = \<lparr>si_QualifiedName = qn, si_PackagePath = repo, si_Repo = repo,
     si_Fields = [\<lparr>fi_GoName = ''F'', fi_WireName = wire, fi_GoType = ''int''\<rparr>]\<rparr>"

definition demo_structs :: analysis where
  "demo_structs = \<lparr>an_Symbols = [], an_Constants = [],
     an_Structs = [(''r1'', [(''r1.A'', demo_struct ''r1'' ''r1.A'' ''id'')]),
                   (''r2'', [(''r2.B'', demo_struct ''r2'' ''r2.B'' ''name'')])], an_Files = []\<rparr>"

theorem suggestedShapePairs_prefilter_witness:
  "suggestedShapePairs demo_structs (buildAnalysisIndex ascii_tables demo_structs) [] = []"
proof -
  have wf: "structs_named demo_structs"
    by (simp add: structs_named_def demo_structs_def all_structs_def demo_struct_def)
  have "wnames (demo_struct ''r1'' ''r1.A'' ''id'') \<noteq> wnames (demo_struct ''r2'' ''r2.B'' ''name'')"
    by (simp add: wnames_def demo_struct_def)
  then have "\<not> cm_Identical (CompareStructShapes (demo_struct ''r1'' ''r1.A'' ''id'') (demo_struct ''r2'' ''r2.B'' ''name''))"
    unfolding identical_iff by (metis dom_wire_types)
  then show ?thesis
    unfolding suggestedShapePairs_prefilter [OF wf]
    by (simp add: shapeCandidates_def all_structs_def demo_structs_def demo_struct_def shape_step_plain_def
        shapeOnlyContract_def Let_def)
qed

section \<open>Wire roles\<close>

text \<open>
  a usage site whose text mentions \<^verbatim>\<open>unmarshal\<close> is classified as a producer, although it
  decodes: the encode hints are tried first and \<^verbatim>\<open>marshal\<close> occurs in \<^verbatim>\<open>unmarshal\<close>, so the decode
  hint of that name never decides a site.
\<close>

theorem classifySiteRole_unmarshal:
  assumes "contains (to_lower U (to_lower U (encl @ '' '' @ line))) ''unmarshal''"
  shows "classifySiteRole U encl line = RoleProducer"
proof -
  have "contains ''unmarshal'' ''marshal''"
    by (simp add: contains_def str_index.simps has_prefix_def)
  then have "matchesAny U (to_lower U (encl @ '' '' @ line)) encodeHints"
    using contains_trans [OF assms] by (simp add: matchesAny_def encodeHints_def)
  then show ?thesis by (simp add: classifySiteRole_def)
qed

theorem classifySiteRole_unmarshal_witness:
  "classifySiteRole ascii_tables ''p'' ''Unmarshal'' = RoleProducer"
proof (rule classifySiteRole_unmarshal)
  have 1: "to_lower ascii_tables ''p Unmarshal'' = ''p unmarshal''"
    and 2: "to_lower ascii_tables ''p unmarshal'' = ''p unmarshal''"
    by (simp_all add: go_str_simps Let_def char_of_eq_iff)
  show "contains (to_lower ascii_tables (to_lower ascii_tables (''p'' @ '' '' @ ''Unmarshal''))) ''unmarshal''"
    by (simp add: 1 2 contains_def str_index.simps has_prefix_def)
qed

section \<open>Contract rows\<close>

text \<open>
  every shared constant yields one contract, in the order of the pairs and ahead of the
  suggested edges; its severity is unknown when a struct is not found and otherwise says whether
  the producer's shape covers the consumer's, its confidence counts the shape signal only when no
  shared field changed type, and it is suggested exactly when the confidence is below the threshold.
\<close>

theorem extractContracts_rows:
  assumes "i < length (FindSharedTypeConstants an)"
  shows "let rows = fst (extractContracts U an threshold now); pairs = FindSharedTypeConstants an in
    ct_FromRef (rows ! i) = cr_Name (cp_A (pairs ! i)) \<and> ct_ToRef (rows ! i) = cr_Name (cp_B (pairs ! i))
    \<and> ct_Severity (rows ! i) = (case pair_structs an (pairs ! i) of None \<Rightarrow> Unknown
         | Some (a, b) \<Rightarrow> if wire_types b \<subseteq>\<^sub>m wire_types a then Compatible else Breaking)
    \<and> ct_Confidence (rows ! i) = ConfidenceScore True (case pair_structs an (pairs ! i) of None \<Rightarrow> False
         | Some (a, b) \<Rightarrow> changes a b = {})
    \<and> ct_Suggested (rows ! i) = (ct_Confidence (rows ! i) < threshold)"
proof -
  let ?p = "FindSharedTypeConstants an ! i"
  let ?c = "fst (pair_contract U (buildAnalysisIndex U an) an threshold now ?p)"
  have "fst (extractContracts U an threshold now) ! i = ?c"
    using assms unfolding extractContracts_def by (simp add: Let_def nth_append)
  moreover have "cm_Divergences (CompareStructShapes a b) = [] \<longleftrightarrow> changes a b = {}" for a b
    by (simp add: CompareStructShapes_def Let_def type_changes_Nil)
  ultimately show ?thesis
    by (auto simp: pair_contract_def Let_def severity_iff IsSuggested_def split: option.splits)
qed

theorem extractContracts_rows_witness:
  "ct_Severity (fst (extractContracts ascii_tables demo_constants DefaultConfidenceThreshold []) ! 0) = Unknown"
proof -
  have m: "set (FindSharedTypeConstants demo_constants) \<noteq> {}"
  proof -
    have i: "buildValueIndex demo_constants = [(''ask'',
        [\<lparr>cp_A = \<lparr>cr_Repo = ''api'', cr_Name = ''t.Ask'', cr_Value = ''ask''\<rparr>, cp_B = no_ref\<rparr>,
         \<lparr>cp_A = \<lparr>cr_Repo = ''web'', cr_Name = ''m.Ask'', cr_Value = ''ask''\<rparr>, cp_B = no_ref\<rparr>])]"
      by (simp add: buildValueIndex_def constant_refs_def demo_constants_def gm_append_def gm_put_def gm_get_def)
    show ?thesis
      unfolding FindSharedTypeConstants_def i
      by (simp add: collectCrossRepoPairs_def lessRef_def cross_step_def Let_def)
  qed
  then have l: "0 < length (FindSharedTypeConstants demo_constants)" by simp
  have "pair_structs demo_constants p = None" for p
    by (simp add: pair_structs_def associatedStruct_def demo_constants_def)
  then show ?thesis using extractContracts_rows [OF l, of ascii_tables DefaultConfidenceThreshold "[]"] by (simp add: Let_def)
qed

section \<open>The staleness driver\<close>

lemma stale_repos_ok:
  "stale_repos env repos = Inr rs \<Longrightarrow>
     rs = map rp_ModulePath (filter (\<lambda>r. \<not> rp_Missing r \<and> ev_IsContractStale env (rp_ModulePath r) = Inr True) repos)
     \<and> (\<forall>r\<in>set repos. \<not> rp_Missing r \<longrightarrow> (\<exists>b. ev_IsContractStale env (rp_ModulePath r) = Inr b))"
  by (induction repos arbitrary: rs) (auto split: if_splits sum.splits)

text \<open>
  the driver writes only results of a complete analysis, and only when something is stale. In a
  workspace it writes exactly when every staleness check succeeded and some present member is
  stale, and then returns the stale members in order; an index of a single repository is rewritten
  only when it has been indexed since the last analysis. On an error nothing is written.
\<close>

theorem ReanalyzeStaleContracts_writes:
  assumes "ReanalyzeStaleContracts R U env cfg = Some (res, Some rs)"
  shows "RunAnalysis R U env cfg = Some (Inr rs) \<and> ev_Write env rs (ev_WriteTime env) = None \<and>
    (\<exists>repos. ev_ListRepos env = Inr repos \<and>
      (if repos = []
       then res = Inr [] \<and> (\<exists>stamp t. ev_IndexedAt env = Inr stamp \<and> stamp \<noteq> [] \<and> ev_ParseTime env stamp = Inr t
              \<and> (\<exists>at' ok. ev_AnalysisTime env = Inr (at', ok) \<and> (\<not> ok \<or> at' < t)))
       else (\<exists>stale. res = Inr stale \<and> stale \<noteq> [] \<and>
              stale = map rp_ModulePath (filter (\<lambda>r. \<not> rp_Missing r \<and>
                        ev_IsContractStale env (rp_ModulePath r) = Inr True) repos))))"
proof -
  have w: "RunAnalysis R U env cfg = Some (Inr rs) \<and> ev_Write env rs (ev_WriteTime env) = None \<and> res = Inr names"
    if "run_and_write R U env cfg names = Some (res, Some rs)" for names
    using that by (auto simp: run_and_write_def split: option.splits sum.splits)
  obtain repos where r: "ev_ListRepos env = Inr repos"
    using assms by (auto simp: ReanalyzeStaleContracts_def split: sum.splits)
  show ?thesis
  proof (cases "repos = []")
    case True
    then have s: "reanalyzeSingleRepo R U env cfg = Some (res, Some rs)"
      using assms r by (simp add: ReanalyzeStaleContracts_def)
    then show ?thesis using r True w
      by (auto simp: reanalyzeSingleRepo_def split: sum.splits if_splits prod.splits)
  next
    case False
    then obtain stale where st: "stale_repos env repos = Inr stale" "stale \<noteq> []"
      "run_and_write R U env cfg stale = Some (res, Some rs)"
      using assms r by (auto simp: ReanalyzeStaleContracts_def split: sum.splits if_splits)
    then show ?thesis using r False w [OF st(3)] stale_repos_ok [OF st(1)] by auto
  qed
qed

definition demo_env :: contract_env where
  "demo_env = \<lparr>ev_ListRepos = Inr [\<lparr>rp_ModulePath = ''m'', rp_Missing = False\<rparr>],
     ev_IsContractStale = (\<lambda>_. Inr True), ev_IndexedAt = Inr [], ev_ParseTime = (\<lambda>_. Inr 0),
     ev_AnalysisTime = Inr (0, False), ev_AllSymbols = Inr [], ev_FileContents = Inr [],
     ev_Write = (\<lambda>_ _. None), ev_Now = [], ev_WriteTime = []\<rparr>"

theorem ReanalyzeStaleContracts_writes_witness:
  "RunAnalysis demo_regexps ascii_tables demo_env (DefaultConfig demo_regexps) = Some (Inr ([], [], []))"
proof -
  have run: "RunAnalysis demo_regexps ascii_tables demo_env (DefaultConfig demo_regexps) = Some (Inr ([], [], []))"
    by (simp add: RunAnalysis_def buildAnalysis_def demo_env_def build_context_def extractContracts_def
        FindSharedTypeConstants_def buildValueIndex_def constant_refs_def suggestedShapePairs_def shapeCandidates_def
        all_structs_def ExtractRuntimeContracts_def filterSuppressed_def DefaultConfig_def filterSuppressedDrifts_def
        FindConstantDrift_def findValueDrifts_def findNameDrifts_def buildNameIndex_def buildReverseValueIndex_def)
  have "ReanalyzeStaleContracts demo_regexps ascii_tables demo_env (DefaultConfig demo_regexps) = Some (Inr [''m''], Some ([], [], []))"
  proof -
    have "ev_Write demo_env x y = None" for x y by (simp add: demo_env_def)
    then have w: "run_and_write demo_regexps ascii_tables demo_env (DefaultConfig demo_regexps) names = Some (Inr names, Some ([], [], []))" for names
      using run by (simp add: run_and_write_def)
    have "ev_ListRepos demo_env = Inr [\<lparr>rp_ModulePath = ''m'', rp_Missing = False\<rparr>]"
      "stale_repos demo_env [\<lparr>rp_ModulePath = ''m'', rp_Missing = False\<rparr>] = Inr [''m'']"
      by (simp_all add: demo_env_def)
    then show ?thesis by (simp add: ReanalyzeStaleContracts_def w)
  qed
  from ReanalyzeStaleContracts_writes [OF this] show ?thesis by blast
qed

end
