(* ===== verification/Edges.thy ===== *)
theory Edges
  imports Contract
begin

text \<open>
  The edge table of the store (\<^verbatim>\<open>store/store.go\<close>): rows, the reads the graph queries issue, the
  normal form of qualified names, the attribution of names and files to packages and members,
  and the breadth-first walk over import edges.

  SQLite is not part of the repository. A statement \<^verbatim>\<open>SELECT ... WHERE c\<close> is the application of
  the engine to the predicate \<open>c\<close> as the source writes it; the engine itself is the field
  \<open>db_edges\<close> (\<open>db_symbols\<close>, \<open>db_files\<close>) of the record \<open>store_db\<close>, and the hypotheses on it state what
  SQLite documents: the rows of the table that satisfy the clause. An FTS5 \<^verbatim>\<open>MATCH\<close> is a field of its
  own (rows in \<^verbatim>\<open>bm25\<close> order), \<^verbatim>\<open>LIKE\<close> and \<^verbatim>\<open>REGEXP\<close> are its comparison of a pattern with a column.
\<close>

section \<open>Rows\<close>

record site =
  st_File :: string
  st_Line :: int
  st_Column :: int

record edge =
  eg_FromRef :: string
  eg_ToRef :: string
  eg_EdgeType :: string
  eg_PosFile :: string
  eg_Repo :: string
  eg_Sites :: "site list"
  eg_PosLine :: int
  eg_SiteCount :: nat

text \<open>A row of \<^verbatim>\<open>edges e LEFT JOIN repos r\<close> as the columns come out; \<open>None\<close> is \<^verbatim>\<open>NULL\<close>.\<close>

record edge_row =
  ew_from :: string
  ew_to :: string
  ew_type :: string
  ew_file :: string
  ew_line :: int
  ew_sites :: "string option"
  ew_module :: "string option"

record package =
  pk_Path :: string
  pk_Name :: string
  pk_Dir :: string
  pk_Doc :: string
  pk_Repo :: string
  pk_SymCount :: nat
  pk_IsTest :: bool
  pk_IsGenerated :: bool

text \<open>
  \<^verbatim>\<open>ListPackages\<close>, \<^verbatim>\<open>KnownModulePaths\<close> and \<^verbatim>\<open>QueryContracts\<close> without a filter are fixed statements; their
  rows are fields. A contract comes with the module path of its member.
\<close>

record store_db =
  db_packages :: "package list result"
  db_modules :: "string list result"
  db_contracts :: "(contract_row \<times> string) list result"
  db_edges :: "(edge_row \<Rightarrow> bool) \<Rightarrow> edge_row list result"
  db_sites :: "string \<Rightarrow> site list result"
  db_symbols :: "(symbol \<Rightarrow> bool) \<Rightarrow> symbol list result"
  db_symbol_fts :: "string \<Rightarrow> (symbol \<Rightarrow> bool) \<Rightarrow> symbol list result"
  db_fields_json :: "symbol \<Rightarrow> string option"
  db_symbol_names :: "string list result"
  db_files :: "(string \<times> string \<Rightarrow> bool) \<Rightarrow> (string \<times> string) list result"
  db_files_fts :: "string \<Rightarrow> (string \<times> string \<Rightarrow> bool) \<Rightarrow> (string \<times> string) list result"
  db_files_try :: "(string \<times> string \<Rightarrow> bool result) \<Rightarrow> (string \<times> string) list result"
  db_like :: "string \<Rightarrow> string \<Rightarrow> bool"
  db_regexp :: "string \<Rightarrow> (string \<Rightarrow> bool) result"
  db_closure :: "string list \<Rightarrow> (edge_row \<Rightarrow> bool) \<Rightarrow> string list result"

definition scan_edge :: "(string \<Rightarrow> site list result) \<Rightarrow> edge_row \<Rightarrow> edge result" where
  "scan_edge unmarshal r =
     (case (case ew_sites r of None \<Rightarrow> Inr [] | Some s \<Rightarrow> if s = [] then Inr [] else unmarshal s) of
        Inl e \<Rightarrow> Inl e
      | Inr sites \<Rightarrow>
          Inr \<lparr>eg_FromRef = ew_from r, eg_ToRef = ew_to r, eg_EdgeType = ew_type r, eg_PosFile = ew_file r,
               eg_Repo = (case ew_module r of None \<Rightarrow> [] | Some m \<Rightarrow> m), eg_Sites = sites,
               eg_PosLine = ew_line r, eg_SiteCount = length sites\<rparr>)"

definition scanEdges :: "(string \<Rightarrow> site list result) \<Rightarrow> edge_row list \<Rightarrow> edge list result" where
  "scanEdges unmarshal rows = each_r (scan_edge unmarshal) rows"

section \<open>Qualified names\<close>

text \<open>
  The regular expression of \<^verbatim>\<open>NormalizeQualifiedName\<close>: a dot and an opening parenthesis, an
  optional star, one or more bytes that are not parentheses, a closing parenthesis and a dot. The
  match at the head of a string, if there is one: the captured group and what follows. The star
  is given back when nothing else would be left for the group.
\<close>

definition no_paren :: "char \<Rightarrow> bool" where
  "no_paren c \<longleftrightarrow> c \<noteq> CHR ''('' \<and> c \<noteq> CHR '')''"

definition paren_receiver :: "string \<Rightarrow> (string \<times> string) option" where
  "paren_receiver s =
     (if \<not> has_prefix s ''.('' then None
      else let body = takeWhile no_paren (drop 2 s); rest = dropWhile no_paren (drop 2 s) in
        if body = [] \<or> \<not> has_prefix rest '').'' then None
        else Some (if hd body = CHR ''*'' \<and> tl body \<noteq> [] then tl body else body, drop 2 rest))"

lemma paren_receiver_shorter:
  assumes "paren_receiver s = Some (grp, rest)"
  shows "length rest < length s"
proof -
  have p: "has_prefix s ''.(''" and r: "rest = drop 2 (dropWhile no_paren (drop 2 s))"
    using assms by (auto simp: paren_receiver_def Let_def split: if_splits)
  then have "2 \<le> length s" by (auto simp: has_prefix_iff)
  moreover have "length (dropWhile no_paren (drop 2 s)) \<le> length s - 2"
    using length_dropWhile_le [of no_paren "drop 2 s"] by simp
  ultimately show ?thesis using r by simp
qed

text \<open>\<^verbatim>\<open>ReplaceAllString(qn, ".$1.")\<close>: matches are found left to right and do not overlap.\<close>

function replace_receivers :: "string \<Rightarrow> string" where
  "replace_receivers [] = []"
| "replace_receivers (c # s) =
     (case paren_receiver (c # s) of
        Some (grp, rest) \<Rightarrow> ''.'' @ grp @ ''.'' @ replace_receivers rest
      | None \<Rightarrow> c # replace_receivers s)"
  by pat_completeness auto
termination
  by (relation "measure length") (use paren_receiver_shorter in fastforce)+

definition NormalizeQualifiedName :: "string \<Rightarrow> string" where
  "NormalizeQualifiedName qn = (if \<not> contains qn ''('' then qn else replace_receivers qn)"

section \<open>Reads\<close>

definition queryEdges :: "store_db \<Rightarrow> (edge_row \<Rightarrow> bool) \<Rightarrow> edge list result" where
  "queryEdges db clause =
     (case db_edges db clause of Inl e \<Rightarrow> Inl e | Inr rows \<Rightarrow> scanEdges (db_sites db) rows)"

definition EdgesFrom :: "store_db \<Rightarrow> string \<Rightarrow> edge list result" where
  "EdgesFrom db ref = queryEdges db (\<lambda>r. ew_from r = NormalizeQualifiedName ref)"

definition EdgesTo :: "store_db \<Rightarrow> string \<Rightarrow> edge list result" where
  "EdgesTo db ref = queryEdges db (\<lambda>r. ew_to r = NormalizeQualifiedName ref)"

definition EdgesByType :: "store_db \<Rightarrow> string \<Rightarrow> edge list result" where
  "EdgesByType db edgeType = queryEdges db (\<lambda>r. ew_type r = edgeType)"

definition edgesInBatchSize :: nat where "edgesInBatchSize = 500"

function chunk_loop :: "nat \<Rightarrow> 'a list \<Rightarrow> 'a list list" where
  "chunk_loop sz [] = []"
| "chunk_loop sz (x # xs) =
     (if sz = 0 then [x # xs] else take sz (x # xs) # chunk_loop sz (drop sz (x # xs)))"
  by pat_completeness auto
termination by (relation "measure (length \<circ> snd)") auto

definition chunks :: "'a list \<Rightarrow> nat \<Rightarrow> 'a list list" where
  "chunks items sz = (if sz = 0 then [items] else chunk_loop sz items)"

definition edgesForNodes :: "store_db \<Rightarrow> string list \<Rightarrow> string list \<Rightarrow> bool \<Rightarrow> edge list result" where
  "edgesForNodes db refs edgeTypes outgoing =
     (if refs = [] then Inr []
      else concat_r (\<lambda>batch. queryEdges db (\<lambda>r.
             (if outgoing then ew_from r else ew_to r) \<in> set (map NormalizeQualifiedName batch)
             \<and> (edgeTypes = [] \<or> ew_type r \<in> set edgeTypes))) (chunks refs edgesInBatchSize))"

definition EdgesForNodes :: "store_db \<Rightarrow> string list \<Rightarrow> string list \<Rightarrow> bool \<Rightarrow> edge list result" where
  "EdgesForNodes db refs edgeTypes outgoing = edgesForNodes db refs edgeTypes outgoing"

definition SymbolsByNames :: "store_db \<Rightarrow> string list \<Rightarrow> symbol list result" where
  "SymbolsByNames db names =
     (if names = [] then Inr []
      else concat_r (\<lambda>batch. db_symbols db (\<lambda>sy. sy_QualifiedName sy \<in> set (map NormalizeQualifiedName batch)))
             (chunks names edgesInBatchSize))"

text \<open>\<^verbatim>\<open>QueryRowContext(...).Scan\<close>: the first row; no row is \<^verbatim>\<open>sql.ErrNoRows\<close>, here \<open>Inr None\<close>.\<close>

definition SymbolByName :: "store_db \<Rightarrow> string \<Rightarrow> symbol option result" where
  "SymbolByName db qualifiedName =
     (case db_symbols db (\<lambda>sy. sy_QualifiedName sy = NormalizeQualifiedName qualifiedName) of
        Inl e \<Rightarrow> Inl e
      | Inr rows \<Rightarrow> Inr (case rows of [] \<Rightarrow> None | sy # _ \<Rightarrow> Some sy))"

text \<open>
  \<^verbatim>\<open>ReachableFrom\<close> hands the whole closure to the engine as a recursive common table expression:
  the seeds, and the clause of the rows its join follows.
\<close>

definition ReachableFrom :: "store_db \<Rightarrow> string list \<Rightarrow> string list \<Rightarrow> string list result" where
  "ReachableFrom db roots edgeTypes =
     (if roots = [] \<or> edgeTypes = [] then Inr []
      else db_closure db roots (\<lambda>r. ew_type r \<in> set edgeTypes))"

section \<open>Import adjacency\<close>

definition edgeTypeImports :: string where "edgeTypeImports = ''imports''"

definition BuildImportAdjacency :: "edge list \<Rightarrow> (string, edge list) gomap" where
  "BuildImportAdjacency edges =
     group_by eg_FromRef (\<lambda>e. e) (filter (\<lambda>e. eg_EdgeType e = edgeTypeImports) edges) []"

text \<open>
  The walk's state is the queue, the visited set and the edges kept so far. The callback
  \<open>nxt\<close> sees the visited set as it is when the edge is looked at.
\<close>

definition frontier_step :: "(edge \<Rightarrow> string list \<Rightarrow> string) \<Rightarrow> edge
    \<Rightarrow> string list \<times> string list \<times> edge list \<Rightarrow> string list \<times> string list \<times> edge list" where
  "frontier_step nxt e = (\<lambda>(queue, visited, out).
     let target = nxt e visited in
       if target = [] then (queue, visited, out)
       else if target \<in> set visited then (queue, visited, out @ [e])
       else (queue @ [target], target # visited, out @ [e]))"

definition adj_work :: "(string, edge list) gomap \<Rightarrow> string list \<Rightarrow> string list \<Rightarrow> nat" where
  "adj_work adj queue visited =
     length queue + (\<Sum>q\<leftarrow>queue. length (gm_get [] adj q))
       + (\<Sum>p\<leftarrow>filter (\<lambda>p. fst p \<notin> set visited) adj. length (snd p))"

lemma unvisited_drop:
  assumes "t \<notin> set visited"
  shows "(\<Sum>p\<leftarrow>filter (\<lambda>p. fst p \<notin> set (t # visited)) adj. length (snd p)) + length (gm_get [] adj t)
    \<le> (\<Sum>p\<leftarrow>filter (\<lambda>p. fst p \<notin> set visited) adj. length (snd p))"
proof (induction adj)
  case (Cons p adj)
  have "gm_get [] (p # adj) t = (if fst p = t then snd p else gm_get [] adj t)"
    by (cases p) (simp add: gm_get_def)
  with Cons assms show ?case by (auto simp: le_diff_conv)
qed (simp add: gm_get_def)

lemma frontier_step_work:
  assumes "frontier_step nxt e (queue, visited, out) = (queue', visited', out')"
  shows "adj_work adj queue' visited' \<le> Suc (adj_work adj queue visited)"
  using assms unvisited_drop [of "nxt e visited" visited adj]
  by (auto simp: frontier_step_def adj_work_def Let_def split: if_splits)

lemma frontier_fold_work:
  "fold (frontier_step nxt) es (queue, visited, out) = (queue', visited', out')
    \<Longrightarrow> adj_work adj queue' visited' \<le> length es + adj_work adj queue visited"
proof (induction es arbitrary: queue visited out)
  case (Cons e es)
  obtain q v o' where s: "frontier_step nxt e (queue, visited, out) = (q, v, o')" by (metis prod_cases3)
  with Cons frontier_step_work [OF s, of adj] show ?case by fastforce
qed simp

function frontier_loop :: "(string, edge list) gomap \<Rightarrow> (edge \<Rightarrow> string list \<Rightarrow> string)
    \<Rightarrow> string list \<Rightarrow> string list \<Rightarrow> edge list \<Rightarrow> edge list" where
  "frontier_loop adj nxt [] visited out = out"
| "frontier_loop adj nxt (current # queue) visited out =
     (let (queue', visited', out') = fold (frontier_step nxt) (gm_get [] adj current) (queue, visited, out)
      in frontier_loop adj nxt queue' visited' out')"
  by pat_completeness auto
termination
proof (relation "measure (\<lambda>(adj, nxt, queue, visited, out). adj_work adj queue visited)", goal_cases)
  case (2 adj nxt current queue visited out x queue' y visited' out')
  then have "fold (frontier_step nxt) (gm_get [] adj current) (queue, visited, out) = (queue', visited', out')" by simp
  from frontier_fold_work [OF this, of adj] show ?case by (simp add: adj_work_def)
qed simp

definition ImportFrontierBFS :: "(string, edge list) gomap \<Rightarrow> string
    \<Rightarrow> (edge \<Rightarrow> string list \<Rightarrow> string) \<Rightarrow> edge list" where
  "ImportFrontierBFS adj start nxt =
     (if \<not> gm_has adj start then [] else frontier_loop adj nxt [start] [start] [])"

definition TransitiveImports :: "store_db \<Rightarrow> string \<Rightarrow> edge list result" where
  "TransitiveImports db pkgPath =
     (case EdgesByType db edgeTypeImports of
        Inl e \<Rightarrow> Inl e
      | Inr edges \<Rightarrow> Inr (ImportFrontierBFS (BuildImportAdjacency edges) pkgPath (\<lambda>e _. eg_ToRef e)))"

section \<open>Attribution\<close>

definition longestPackagePrefix :: "string \<Rightarrow> (string, int) gomap \<Rightarrow> string" where
  "longestPackagePrefix ref paths =
     fold (\<lambda>i best. if ref ! i = CHR ''.'' \<and> gm_has paths (take i ref) \<and> length best < i then take i ref else best)
       [0..<length ref] []"

text \<open>\<^verbatim>\<open>repoForPackage\<close> ranges over a map; the first entry that owns the path decides.\<close>

definition owns_path :: "string \<Rightarrow> string \<Rightarrow> bool" where
  "owns_path modu p \<longleftrightarrow> p = modu \<or> has_prefix p (modu @ ''/'')"

definition repoForPackage :: "string \<Rightarrow> (string, int) gomap \<Rightarrow> int" where
  "repoForPackage pkgPath repoByModule =
     (case find (\<lambda>(modu, _). owns_path modu pkgPath) repoByModule of None \<Rightarrow> 0 | Some (_, rid) \<Rightarrow> rid)"

record pkg_attribution =
  pa_pkgCache :: "(string, int) gomap"
  pa_repo :: "(string, int) gomap"

definition newPkgAttribution :: "(string, int) gomap \<Rightarrow> (string, int) gomap \<Rightarrow> pkg_attribution" where
  "newPkgAttribution pkgCache repoByModule =
     \<lparr>pa_pkgCache = pkgCache,
      pa_repo = fold (\<lambda>p m. gm_put p (repoForPackage p repoByModule) m) (gm_keys pkgCache) []\<rparr>"

definition pkgFor :: "pkg_attribution \<Rightarrow> string \<Rightarrow> int \<times> int" where
  "pkgFor a ref =
     (case map_of (pa_pkgCache a) ref of
        Some pid \<Rightarrow> (pid, gm_get 0 (pa_repo a) ref)
      | None \<Rightarrow>
          let pkgPath = longestPackagePrefix ref (pa_pkgCache a) in
            if pkgPath = [] then (0, 0) else (gm_get 0 (pa_pkgCache a) pkgPath, gm_get 0 (pa_repo a) pkgPath))"

definition repoIDForRefMapped :: "string \<Rightarrow> (string, int) gomap \<Rightarrow> int" where
  "repoIDForRefMapped ref repoByPath =
     (case map_of repoByPath ref of
        Some rid \<Rightarrow> rid
      | None \<Rightarrow>
          let path = longestPackagePrefix ref repoByPath in
            if path = [] then 0 else gm_get 0 repoByPath path)"

record repo_spec =
  rs_ModulePath :: string
  rs_Dir :: string
  rs_Missing :: bool

definition buildRepoIDFor :: "repo_spec list \<Rightarrow> (string, int) gomap \<Rightarrow> string \<Rightarrow> int" where
  "buildRepoIDFor repos repoByModule path =
     snd (fold (\<lambda>r (best, bestID).
            if rs_Missing r then (best, bestID)
            else let dir = path_clean (rs_Dir r) in
              if (has_prefix path (dir @ ''/'') \<or> path = dir) \<and> length best < length dir
              then (dir, gm_get 0 repoByModule (rs_ModulePath r)) else (best, bestID)) repos ([], 0))"

text \<open>\<^verbatim>\<open>modulePathForRef\<close> (\<^verbatim>\<open>query/query.go\<close>) chooses the longest module instead of the first.\<close>

definition modulePathForRef :: "string \<Rightarrow> string list \<Rightarrow> string" where
  "modulePathForRef ref knownModules =
     fold (\<lambda>m best. if (ref = m \<or> has_prefix ref (m @ ''/'') \<or> has_prefix ref (m @ ''.'')) \<and> length best < length m
            then m else best) knownModules []"

end
