(* ===== verification/Search.thy ===== *)
theory Search
  imports Edges Fuse
begin

text \<open>
  Text search: the pattern language of the store (\<^verbatim>\<open>store/store.go\<close>, \<^verbatim>\<open>store/search_strategies.go\<close>), its two
  retrieval strategies over file contents, the symbol search, and the fused pipeline with its typo
  correction pass (\<^verbatim>\<open>query/search_text.go\<close>), which calls the component of theory \<open>Fuse\<close>.
\<close>

section \<open>LIKE patterns\<close>

text \<open>\<^verbatim>\<open>strings.ReplaceAll\<close> of a one-byte string.\<close>

definition replace_byte :: "char \<Rightarrow> string \<Rightarrow> string \<Rightarrow> string" where
  "replace_byte c new s = concat (map (\<lambda>x. if x = c then new else [x]) s)"

definition backslash :: char where "backslash = CHR 0x5C"

definition escapeLike :: "string \<Rightarrow> string" where
  "escapeLike s =
     (let s = replace_byte backslash [backslash, backslash] s;
          s = replace_byte CHR ''%'' [backslash, CHR ''%''] s
      in replace_byte CHR ''_'' [backslash, CHR ''_''] s)"

definition likePattern :: "string \<Rightarrow> string" where
  "likePattern user = ''%'' @ escapeLike user @ ''%''"

section \<open>FTS5 expressions\<close>

text \<open>\<^verbatim>\<open>isPunctuationOnly\<close>: not empty, and no letter or digit.\<close>

definition isPunctuationOnly :: "unidata \<Rightarrow> string \<Rightarrow> bool" where
  "isPunctuationOnly U s \<longleftrightarrow> s \<noteq> [] \<and> \<not> list_ex (\<lambda>r. u_letter U r \<or> u_digit U r) (runes s)"

definition SplitAlternatives :: "unidata \<Rightarrow> string \<Rightarrow> string list" where
  "SplitAlternatives U pattern =
     filter (\<lambda>alt. \<not> (alt = [] \<or> isPunctuationOnly U alt)) (map trim_space (split_char CHR ''|'' pattern))"

definition dquote :: char where "dquote = CHR 0x22"

definition fts_phrase :: "string \<Rightarrow> string" where
  "fts_phrase t = [dquote] @ t @ [dquote]"

definition quoted_terms :: "unidata \<Rightarrow> string \<Rightarrow> string list" where
  "quoted_terms U alt =
     map fts_phrase (filter (\<lambda>t. \<not> isPunctuationOnly U t) (map (replace_byte dquote [dquote, dquote]) (str_fields alt)))"

definition alternative_group :: "string list \<Rightarrow> string" where
  "alternative_group quoted =
     (if 1 < length quoted then ''('' @ str_join '' '' quoted @ '')'' else str_join '' '' quoted)"

definition sanitizeFTSQuery :: "unidata \<Rightarrow> string \<Rightarrow> string" where
  "sanitizeFTSQuery U pattern0 =
     (let pattern = trim_space pattern0 in
        if pattern = [] then []
        else
          let groups = map alternative_group
                (filter (\<lambda>q. q \<noteq> []) (map (quoted_terms U) (SplitAlternatives U pattern)))
          in if groups = [] then [] else str_join '' OR '' groups)"

definition prefix_group :: "string \<Rightarrow> string" where
  "prefix_group t = ''('' @ fts_phrase t @ '' OR {name} : '' @ fts_phrase t @ ''*)''"

definition buildSymbolFTSQuery :: "unidata \<Rightarrow> string \<Rightarrow> string" where
  "buildSymbolFTSQuery U pattern0 =
     (let pattern = trim_space pattern0 in
        if pattern = [] then []
        else
          let groups = map prefix_group
                (filter (\<lambda>t. \<not> isPunctuationOnly U t) (map (replace_byte dquote [dquote, dquote]) (str_fields pattern)))
          in if groups = [] then [] else str_join '' AND '' groups)"

text \<open>\<^verbatim>\<open>strings.FieldsFunc\<close>: maximal runs of runes outside the separator class.\<close>

function fields_func :: "(nat \<Rightarrow> bool) \<Rightarrow> string \<Rightarrow> string \<Rightarrow> string list" where
  "fields_func is_sep cur s = (if s = [] then (if cur = [] then [] else [cur])
     else let (r, w) = decode_rune s in
       if is_sep r then (if cur = [] then [] else [cur]) @ fields_func is_sep [] (drop w s)
       else fields_func is_sep (cur @ take w s) (drop w s))"
  by pat_completeness auto
termination
  by (relation "measure (\<lambda>(is_sep, cur, s). length s)")
    (auto, (metis decode_rune_width diff_less length_greater_0_conv snd_conv)+)

declare fields_func.simps [simp del]

definition identifierRuns :: "unidata \<Rightarrow> string \<Rightarrow> string list" where
  "identifierRuns U tm = fields_func (\<lambda>r. \<not> u_letter U r \<and> \<not> u_digit U r \<and> r \<noteq> byte CHR ''_'') [] tm"

definition buildSymbolRunsFTSQuery :: "unidata \<Rightarrow> string \<Rightarrow> string" where
  "buildSymbolRunsFTSQuery U pattern =
     (let groups = map (\<lambda>runs. ''('' @ str_join '' AND ''
                (map (\<lambda>r. prefix_group (replace_byte dquote [dquote, dquote] r)) runs) @ '')'')
              (filter (\<lambda>runs. runs \<noteq> []) (map (identifierRuns U) (str_fields pattern)))
      in if groups = [] then [] else str_join '' AND '' groups)"

text \<open>The inner loop of \<^verbatim>\<open>ftsNeedsFullScan\<close>: \<open>run\<close> counts the current alphanumeric run.\<close>

fun short_run :: "unidata \<Rightarrow> nat \<Rightarrow> nat list \<Rightarrow> bool" where
  "short_run U run [] = (0 < run \<and> run < 3)"
| "short_run U run (r # rs) =
     (if u_letter U r \<or> u_digit U r then short_run U (Suc run) rs
      else if 0 < run \<and> run < 3 then True
      else short_run U 0 rs)"

definition ftsNeedsFullScan :: "unidata \<Rightarrow> string \<Rightarrow> bool" where
  "ftsNeedsFullScan U pattern =
     list_ex (\<lambda>tm. \<not> isPunctuationOnly U tm \<and> short_run U 0 (runes tm)) (str_fields pattern)"

section \<open>Lines of a file\<close>

record file_match =
  fm_FilePath :: string
  fm_Line :: string
  fm_ContextBefore :: string
  fm_ContextAfter :: string
  fm_Signals :: "string list"
  fm_LineNumber :: int

definition newline :: char where "newline = CHR 0x0A"

text \<open>The match at line index \<open>i\<close>, with \<open>contextLines\<close> of text on both sides when positive.\<close>

definition match_at :: "string \<Rightarrow> string list \<Rightarrow> int \<Rightarrow> nat \<Rightarrow> file_match" where
  "match_at filePath lines contextLines i =
     (let st = (if int i - contextLines < 0 then 0 else nat (int i - contextLines));
          en = (if int (length lines) < int i + contextLines + 1 then length lines else nat (int i + contextLines + 1))
      in \<lparr>fm_FilePath = filePath, fm_Line = lines ! i,
          fm_ContextBefore = (if 0 < contextLines \<and> st < i then str_join [newline] (take (i - st) (drop st lines)) else []),
          fm_ContextAfter = (if 0 < contextLines \<and> i + 1 < en
             then str_join [newline] (take (en - (i + 1)) (drop (i + 1) lines)) else []),
          fm_Signals = [], fm_LineNumber = int i + 1\<rparr>)"

definition extractMatchesFunc :: "string \<Rightarrow> string \<Rightarrow> (string \<Rightarrow> bool) \<Rightarrow> int \<Rightarrow> file_match list" where
  "extractMatchesFunc filePath content accept contextLines =
     (let lines = split_char newline content in
        map (match_at filePath lines contextLines) (filter (\<lambda>i. accept (lines ! i)) [0..<length lines]))"

definition literalLineMatcher :: "unidata \<Rightarrow> string \<Rightarrow> string \<Rightarrow> bool" where
  "literalLineMatcher U pattern line = list_ex (\<lambda>alt. contains line alt) (SplitAlternatives U pattern)"

definition extractMatches :: "unidata \<Rightarrow> string \<Rightarrow> string \<Rightarrow> string \<Rightarrow> (string \<Rightarrow> bool) option \<Rightarrow> int \<Rightarrow> file_match list" where
  "extractMatches U filePath content pattern re contextLines =
     extractMatchesFunc filePath content
       (case re of Some rx \<Rightarrow> rx | None \<Rightarrow> literalLineMatcher U pattern) contextLines"

section \<open>Candidate rows\<close>

text \<open>\<^verbatim>\<open>(instr(content, ?) > 0 OR ...)\<close>, one disjunct per alternative.\<close>

definition alternationInstrCond :: "string list \<Rightarrow> string \<Rightarrow> bool" where
  "alternationInstrCond alternatives col = list_ex (\<lambda>alt. contains col alt) alternatives"

text \<open>
  The literal candidate query: a full scan, or the trigram index, both gated by the instr
  condition. The file filter is the \<^verbatim>\<open>LIKE\<close> conjunct the callers append.
\<close>

definition path_filter :: "store_db \<Rightarrow> string \<Rightarrow> string \<Rightarrow> bool" where
  "path_filter db filePattern path \<longleftrightarrow> filePattern = [] \<or> db_like db (likePattern filePattern) path"

definition literalContentQuery :: "store_db \<Rightarrow> unidata \<Rightarrow> string \<Rightarrow> string \<Rightarrow> bool \<Rightarrow> string \<Rightarrow> (string \<times> string) list result" where
  "literalContentQuery db U pattern sanitized fullScan filePattern =
     (let clause = (\<lambda>(path, content). alternationInstrCond (SplitAlternatives U pattern) content
                      \<and> path_filter db filePattern path)
      in if fullScan then db_files db clause else db_files_fts db sanitized clause)"

text \<open>Both strategies stop appending once a positive limit is reached.\<close>

definition cap_at :: "int \<Rightarrow> 'a list \<Rightarrow> 'a list" where
  "cap_at limit xs = (if 0 < limit then take (nat limit) xs else xs)"

definition query_failed :: "string \<Rightarrow> string" where
  "query_failed e = ''file content search failed: '' @ e"

definition fileMatchesQuery :: "unidata \<Rightarrow> (string \<times> string) list result \<Rightarrow> string \<Rightarrow> int \<Rightarrow> int \<Rightarrow> file_match list result" where
  "fileMatchesQuery U rows pattern limit contextLines =
     (case rows of
        Inl e \<Rightarrow> Inl (query_failed e)
      | Inr rs \<Rightarrow> Inr (cap_at limit (concat (map (\<lambda>(path, content).
            extractMatches U path content pattern None contextLines) rs))))"

definition FileMatchesFTS :: "store_db \<Rightarrow> unidata \<Rightarrow> string \<Rightarrow> string \<Rightarrow> int \<Rightarrow> int \<Rightarrow> file_match list result" where
  "FileMatchesFTS db U pattern filePattern limit contextLines =
     (let sanitized = sanitizeFTSQuery U pattern in
        if sanitized = [] then Inr []
        else fileMatchesQuery U
               (literalContentQuery db U pattern sanitized (ftsNeedsFullScan U pattern) filePattern)
               pattern limit contextLines)"

definition SearchFileContent :: "store_db \<Rightarrow> unidata \<Rightarrow> string \<Rightarrow> string \<Rightarrow> bool \<Rightarrow> int \<Rightarrow> file_match list result" where
  "SearchFileContent db U pattern filePattern isRegex contextLines =
     (if isRegex then
        (case db_regexp db pattern of
           Inl e \<Rightarrow> Inl (''invalid regex '' @ go_quote U pattern @ '': '' @ e)
         | Inr re \<Rightarrow>
             (let rows = db_files_try db (\<lambda>(path, content).
                    if \<not> re content then Inr False
                    else if filePattern = [] then Inr True
                    else case db_regexp db filePattern of Inl e \<Rightarrow> Inl e | Inr fre \<Rightarrow> Inr (fre path))
              in case rows of
                   Inl e \<Rightarrow> Inl (''regex search for '' @ go_quote U pattern @ '' failed: '' @ e)
                 | Inr rs \<Rightarrow> Inr (concat (map (\<lambda>(path, content).
                       extractMatches U path content pattern (Some re) contextLines) rs))))
      else
        (let sanitized = sanitizeFTSQuery U pattern in
           if sanitized = [] then Inr []
           else fileMatchesQuery U
                  (literalContentQuery db U pattern sanitized (ftsNeedsFullScan U pattern) filePattern)
                  pattern 0 contextLines))"

section \<open>The substring scan\<close>

definition substringTerms :: "unidata \<Rightarrow> string list \<Rightarrow> string list" where
  "substringTerms U tms =
     filter (\<lambda>t. \<not> (t = [] \<or> isPunctuationOnly U t)) (map (\<lambda>t. to_lower U (trim_space t)) tms)"

definition substringAlternatives :: "unidata \<Rightarrow> string list list \<Rightarrow> string list list" where
  "substringAlternatives U alternatives = filter (\<lambda>tms. tms \<noteq> []) (map (substringTerms U) alternatives)"

definition containsAllTerms :: "unidata \<Rightarrow> string \<Rightarrow> string list \<Rightarrow> bool" where
  "containsAllTerms U content loweredTerms = list_all (contains (to_lower U content)) loweredTerms"

definition matchesAnyAlternative :: "unidata \<Rightarrow> string \<Rightarrow> string list list \<Rightarrow> bool" where
  "matchesAnyAlternative U content alternatives = list_ex (containsAllTerms U content) alternatives"

definition substringLineMatcher :: "unidata \<Rightarrow> string list list \<Rightarrow> string \<Rightarrow> bool" where
  "substringLineMatcher U alternatives line =
     list_ex (\<lambda>tms. list_ex (contains (to_lower U line)) tms) alternatives"

text \<open>\<open>sort.SliceStable\<close> by descending match count.\<close>

definition more_matches :: "file_match list \<Rightarrow> file_match list \<Rightarrow> bool" where
  "more_matches x y \<longleftrightarrow> length y < length x"

definition FileMatchesSubstring :: "store_db \<Rightarrow> unidata \<Rightarrow> string list list \<Rightarrow> string \<Rightarrow> int \<Rightarrow> int \<Rightarrow> file_match list result" where
  "FileMatchesSubstring db U alternatives0 filePattern limit contextLines =
     (let alternatives = substringAlternatives U alternatives0 in
        if alternatives = [] then Inr []
        else case db_files db (\<lambda>(path, content). path_filter db filePattern path) of
               Inl e \<Rightarrow> Inl (query_failed e)
             | Inr rows \<Rightarrow>
                 let files = filter (\<lambda>ms. ms \<noteq> []) (map (\<lambda>(path, content).
                       extractMatchesFunc path content (substringLineMatcher U alternatives) contextLines)
                       (filter (\<lambda>(path, content). matchesAnyAlternative U content alternatives) rows))
                 in Inr (cap_at limit (concat (sort_by more_matches files))))"

definition SearchLexicon :: "store_db \<Rightarrow> unidata \<Rightarrow> string list result" where
  "SearchLexicon db U =
     (case db_symbol_names db of
        Inl e \<Rightarrow> Inl (''search lexicon query failed: '' @ e)
      | Inr names \<Rightarrow> Inr (sort_by (<) (dedup_by (\<lambda>w. w) [] (filter (\<lambda>w. w \<noteq> []) (map (to_lower U) names)))))"

section \<open>The fused pipeline\<close>

definition strategyLimit :: int where "strategyLimit = 100"
definition resultFloor :: nat where "resultFloor = 1"
definition maxScanTerms :: nat where "maxScanTerms = 4"
definition maxCorrectionDist :: int where "maxCorrectionDist = 2"

definition substringAlternativesTerms :: "unidata \<Rightarrow> string \<Rightarrow> string list list" where
  "substringAlternativesTerms U pattern = map str_fields (SplitAlternatives U pattern)"

definition totalTerms :: "string list list \<Rightarrow> nat" where
  "totalTerms alternatives = sum_list (map length alternatives)"

definition toCandidates :: "file_match list \<Rightarrow> candidate list" where
  "toCandidates matches = map (\<lambda>m. \<lparr>c_FilePath = fm_FilePath m, c_Line = fm_Line m,
     c_ContextBefore = fm_ContextBefore m, c_ContextAfter = fm_ContextAfter m, c_Sources = [],
     c_LineNumber = fm_LineNumber m, c_Score = 0\<rparr>) matches"

definition signalNames :: "nat list \<Rightarrow> string list" where
  "signalNames sources =
     concat (map (\<lambda>src. if src = 0 then [''fts''] else if src = 1 then [''substring''] else []) sources)"

definition fromCandidates :: "candidate list \<Rightarrow> file_match list" where
  "fromCandidates candidates = map (\<lambda>c. \<lparr>fm_FilePath = c_FilePath c, fm_Line = c_Line c,
     fm_ContextBefore = c_ContextBefore c, fm_ContextAfter = c_ContextAfter c,
     fm_Signals = signalNames (c_Sources c), fm_LineNumber = c_LineNumber c\<rparr>) candidates"

text \<open>\<open>None\<close> is a panic of the reranker; theory \<open>Search_Proofs\<close> excludes it.\<close>

definition runFusedTextSearch :: "store_db \<Rightarrow> unidata \<Rightarrow> string \<Rightarrow> string \<Rightarrow> int \<Rightarrow> file_match list result option" where
  "runFusedTextSearch db U pattern filePattern contextLines =
     (case FileMatchesFTS db U pattern filePattern strategyLimit contextLines of
        Inl e \<Rightarrow> Some (Inl e)
      | Inr fts \<Rightarrow>
          (let alternatives = substringAlternativesTerms U pattern in
             case (if totalTerms alternatives \<le> maxScanTerms
                   then FileMatchesSubstring db U alternatives filePattern strategyLimit contextLines
                   else Inr []) of
               Inl e \<Rightarrow> Some (Inl e)
             | Inr sub \<Rightarrow>
                 (case RerankByAlternatives U (Fuse (toCandidates fts) (toCandidates sub) DefaultK) alternatives of
                    None \<Rightarrow> None
                  | Some fused \<Rightarrow> Some (Inr (fromCandidates fused)))))"

definition correctAlternatives :: "store_db \<Rightarrow> unidata \<Rightarrow> string list \<Rightarrow> (string list \<times> correction list) result" where
  "correctAlternatives db U alternatives =
     (case SearchLexicon db U of
        Inl e \<Rightarrow> Inl (''search lexicon: '' @ e)
      | Inr lexicon \<Rightarrow>
          let rs = map (\<lambda>alt. CorrectTerms U lexicon (str_fields alt) maxCorrectionDist) alternatives
          in Inr (map (\<lambda>(corrected, _). str_join '' '' corrected) rs, concat (map snd rs)))"

definition alternativeMatched :: "unidata \<Rightarrow> string list \<Rightarrow> file_match list \<Rightarrow> bool" where
  "alternativeMatched U tms0 matches =
     (let tms = WordTerms U tms0 in
        tms = [] \<or> list_ex (\<lambda>m. list_ex (contains (to_lower U (fm_Line m))) tms) matches)"

definition alternationCorrections :: "store_db \<Rightarrow> unidata \<Rightarrow> string \<Rightarrow> file_match list \<Rightarrow> correction list" where
  "alternationCorrections db U pattern matches =
     (let unmatched = filter (\<lambda>tms. \<not> alternativeMatched U tms matches) (substringAlternativesTerms U pattern) in
        if unmatched = [] then []
        else case SearchLexicon db U of
               Inl _ \<Rightarrow> []
             | Inr lexicon \<Rightarrow> concat (map (\<lambda>tms. snd (CorrectTerms U lexicon tms maxCorrectionDist)) unmatched))"

definition regexMetacharacters :: string where "regexMetacharacters = ''|()[].*+?{''"

definition regexMetacharHintMsg :: string where
  "regexMetacharHintMsg =
     ''pattern contains regex metacharacters; literal mode matched nothing - retry with is_regex: true''"

definition regexMetacharHint :: "string \<Rightarrow> string" where
  "regexMetacharHint pattern =
     (if list_ex (\<lambda>c. c \<in> set regexMetacharacters) pattern then regexMetacharHintMsg else [])"

definition SearchTextWithCorrections :: "store_db \<Rightarrow> unidata \<Rightarrow> string \<Rightarrow> string \<Rightarrow> bool \<Rightarrow> int
    \<Rightarrow> (file_match list \<times> correction list \<times> string) result option" where
  "SearchTextWithCorrections db U pattern filePattern isRegex contextLines =
     (if isRegex then
        Some (case SearchFileContent db U pattern filePattern True contextLines of
                Inl e \<Rightarrow> Inl e | Inr matches \<Rightarrow> Inr (matches, [], []))
      else case runFusedTextSearch db U pattern filePattern contextLines of
        None \<Rightarrow> None
      | Some (Inl e) \<Rightarrow> Some (Inl e)
      | Some (Inr matches) \<Rightarrow>
          if resultFloor \<le> length matches
          then Some (Inr (matches, alternationCorrections db U pattern matches, []))
          else (case correctAlternatives db U (SplitAlternatives U pattern) of
                  Inl e \<Rightarrow> Some (Inl e)
                | Inr (alternatives, applied) \<Rightarrow>
                    if applied = [] then Some (Inr (matches, [], regexMetacharHint pattern))
                    else (case runFusedTextSearch db U (str_join ''|'' alternatives) filePattern contextLines of
                            None \<Rightarrow> None
                          | Some (Inl e) \<Rightarrow> Some (Inl e)
                          | Some (Inr corrected) \<Rightarrow>
                              Some (Inr (corrected, applied,
                                if resultFloor \<le> length corrected then [] else regexMetacharHint pattern)))))"

definition SearchText :: "store_db \<Rightarrow> unidata \<Rightarrow> string \<Rightarrow> string \<Rightarrow> bool \<Rightarrow> int \<Rightarrow> file_match list result option" where
  "SearchText db U pattern filePattern isRegex contextLines =
     (case SearchTextWithCorrections db U pattern filePattern isRegex contextLines of
        None \<Rightarrow> None
      | Some (Inl e) \<Rightarrow> Some (Inl e)
      | Some (Inr (matches, _, _)) \<Rightarrow> Some (Inr matches))"

end
