(* ===== verification/Symbols.thy ===== *)
theory Symbols
  imports Search
begin

text \<open>
  Symbol lookups: the symbol queries of \<^verbatim>\<open>store/store.go\<close> as clauses over symbol rows, and the search,
  ranking, filtering and usage queries of \<^verbatim>\<open>query/query.go\<close> built on them. The clause of each
  statement is the \<^verbatim>\<open>WHERE\<close> text of the source with its operator precedence.
\<close>

section \<open>Store queries\<close>

text \<open>\<^verbatim>\<open>ORDER BY s.qualified_name\<close>; ties keep the engine's order.\<close>

definition by_qualified_name :: "symbol list result \<Rightarrow> symbol list result" where
  "by_qualified_name rows =
     (case rows of Inl e \<Rightarrow> Inl e | Inr ss \<Rightarrow> Inr (sort_by (by_key sy_QualifiedName) ss))"

definition and_not_test :: "bool \<Rightarrow> symbol \<Rightarrow> bool" where
  "and_not_test includeTests sy \<longleftrightarrow> includeTests \<or> \<not> sy_IsTest sy"

definition generatedClause :: "string \<Rightarrow> symbol \<Rightarrow> bool" where
  "generatedClause flt sy =
     (if flt = ''exclude'' then \<not> sy_IsGenerated sy else if flt = ''only'' then sy_IsGenerated sy else True)"

definition appendSymbolFilters :: "string \<Rightarrow> bool option \<Rightarrow> string \<Rightarrow> bool \<Rightarrow> string \<Rightarrow> symbol \<Rightarrow> bool" where
  "appendSymbolFilters kind exported pkgPath includeTests generated sy \<longleftrightarrow>
     (kind \<noteq> [] \<longrightarrow> sy_Kind sy = kind)
     \<and> (case exported of None \<Rightarrow> True | Some b \<Rightarrow> sy_Exported sy = b)
     \<and> (pkgPath \<noteq> [] \<longrightarrow> sy_PackagePath sy = pkgPath)
     \<and> and_not_test includeTests sy \<and> generatedClause generated sy"

definition searchSymbolsFTS :: "store_db \<Rightarrow> string \<Rightarrow> string \<Rightarrow> bool option \<Rightarrow> string \<Rightarrow> bool \<Rightarrow> string \<Rightarrow> symbol list result" where
  "searchSymbolsFTS db expr kind exported pkgPath includeTests generated =
     (if expr = [] then Inr []
      else by_qualified_name
        (db_symbol_fts db expr (appendSymbolFilters kind exported pkgPath includeTests generated)))"

definition searchSymbolsBySubstring :: "store_db \<Rightarrow> string \<Rightarrow> string \<Rightarrow> bool option \<Rightarrow> string \<Rightarrow> bool \<Rightarrow> string \<Rightarrow> symbol list result" where
  "searchSymbolsBySubstring db pattern kind exported pkgPath includeTests generated =
     by_qualified_name (db_symbols db (\<lambda>sy.
       (db_like db (likePattern pattern) (sy_Name sy) \<or> db_like db (likePattern pattern) (sy_QualifiedName sy)
        \<or> db_like db (likePattern pattern) (sy_Signature sy) \<or> db_like db (likePattern pattern) (sy_Doc sy))
       \<and> appendSymbolFilters kind exported pkgPath includeTests generated sy))"

definition mergeSymbols :: "symbol list list \<Rightarrow> symbol list" where
  "mergeSymbols found = dedup_by sy_QualifiedName [] (concat found)"

definition SearchSymbols :: "store_db \<Rightarrow> unidata \<Rightarrow> string \<Rightarrow> string \<Rightarrow> bool option \<Rightarrow> string \<Rightarrow> bool \<Rightarrow> string \<Rightarrow> symbol list result" where
  "SearchSymbols db U pattern kind exported pkgPath includeTests generated =
     (let ftsQuery = buildSymbolFTSQuery U pattern in
        if ftsQuery = [] then Inr []
        else case searchSymbolsFTS db ftsQuery kind exported pkgPath includeTests generated of
          Inl e \<Rightarrow> Inl e
        | Inr syms \<Rightarrow>
            (case searchSymbolsFTS db (buildSymbolRunsFTSQuery U pattern) kind exported pkgPath includeTests generated of
               Inl e \<Rightarrow> Inl e
             | Inr runs \<Rightarrow>
                 (case searchSymbolsBySubstring db pattern kind exported pkgPath includeTests generated of
                    Inl e \<Rightarrow> Inl e
                  | Inr sub \<Rightarrow> Inr (mergeSymbols [syms, runs, sub]))))"

definition SearchSymbolsByFile :: "store_db \<Rightarrow> string \<Rightarrow> string \<Rightarrow> bool option \<Rightarrow> bool \<Rightarrow> string \<Rightarrow> symbol list result" where
  "SearchSymbolsByFile db filePattern kind exported includeTests generated =
     by_qualified_name (db_symbols db (\<lambda>sy. db_like db (likePattern filePattern) (sy_PosFile sy)
       \<and> (kind \<noteq> [] \<longrightarrow> sy_Kind sy = kind) \<and> (case exported of None \<Rightarrow> True | Some b \<Rightarrow> sy_Exported sy = b)
       \<and> and_not_test includeTests sy \<and> generatedClause generated sy))"

definition SearchByQualifiedNamePrefix :: "store_db \<Rightarrow> string \<Rightarrow> bool \<Rightarrow> symbol list result" where
  "SearchByQualifiedNamePrefix db pfx includeTests =
     by_qualified_name (db_symbols db (\<lambda>sy.
       (db_like db (escapeLike pfx @ ''%'') (sy_QualifiedName sy) \<or> db_like db (escapeLike pfx @ ''%'') (sy_Name sy))
       \<and> and_not_test includeTests sy))"

text \<open>
  \<^verbatim>\<open>SearchByType\<close> appends \<^verbatim>\<open>AND s.is_test = FALSE\<close> to a disjunction without parentheses: the conjunct
  binds to the last disjunct only.
\<close>

definition SearchByType :: "store_db \<Rightarrow> string \<Rightarrow> bool \<Rightarrow> symbol list result" where
  "SearchByType db typeName includeTests =
     by_qualified_name (db_symbols db (\<lambda>sy.
       db_like db (''%'' @ escapeLike typeName @ '' %'') (sy_Signature sy @ '' '')
       \<or> db_like db (''%'' @ escapeLike typeName @ '')%'') (sy_Signature sy @ '' '')
       \<or> db_like db (''%'' @ escapeLike typeName @ '',%'') (sy_Signature sy @ '' '')
       \<or> (case db_fields_json db sy of None \<Rightarrow> False | Some j \<Rightarrow> db_like db (''%'' @ escapeLike typeName @ ''%'') j)
         \<and> and_not_test includeTests sy))"

definition SymbolsInFile :: "store_db \<Rightarrow> string \<Rightarrow> bool \<Rightarrow> symbol list result" where
  "SymbolsInFile db path includeTests =
     by_qualified_name (db_symbols db (\<lambda>sy. sy_PosFile sy = path \<and> and_not_test includeTests sy))"

definition SymbolsByPackage :: "store_db \<Rightarrow> string \<Rightarrow> bool \<Rightarrow> symbol list result" where
  "SymbolsByPackage db pkgPath includeTests =
     by_qualified_name (db_symbols db (\<lambda>sy. sy_PackagePath sy = pkgPath \<and> and_not_test includeTests sy))"

definition TypeDeclarationsNamed :: "store_db \<Rightarrow> string \<Rightarrow> bool \<Rightarrow> symbol list result" where
  "TypeDeclarationsNamed db name includeTests =
     by_qualified_name (db_symbols db (\<lambda>sy. sy_Name sy = name
       \<and> sy_Kind sy \<in> {''type'', ''interface'', ''alias''} \<and> and_not_test includeTests sy))"

definition MethodsByQualifiedReceiver :: "store_db \<Rightarrow> string \<Rightarrow> bool \<Rightarrow> symbol list result" where
  "MethodsByQualifiedReceiver db qualifiedType includeTests =
     by_qualified_name (db_symbols db (\<lambda>sy. sy_Kind sy = ''method''
       \<and> has_prefix (sy_QualifiedName sy) (qualifiedType @ ''.'') \<and> and_not_test includeTests sy))"

definition MethodsByName :: "store_db \<Rightarrow> string \<Rightarrow> bool \<Rightarrow> symbol list result" where
  "MethodsByName db methodName includeTests =
     by_qualified_name (db_symbols db (\<lambda>sy. sy_Kind sy = ''method'' \<and> sy_Name sy = methodName
       \<and> and_not_test includeTests sy))"

definition AllSymbols :: "store_db \<Rightarrow> bool \<Rightarrow> symbol list result" where
  "AllSymbols db includeTests = by_qualified_name (db_symbols db (and_not_test includeTests))"

section \<open>Ranking and filters\<close>

record options =
  o_Exported :: "bool option"
  o_Kind :: string
  o_Package :: string
  o_File :: string
  o_Repo :: string
  o_Generated :: string
  o_EdgeTypes :: "string list"
  o_Depth :: int
  o_IncludeTests :: bool
  o_IncludeUnexported :: bool
  o_IncludeFields :: bool
  o_IncludeSymbols :: bool

text \<open>\<^verbatim>\<open>Options{}\<close>, what a query starts from before its options are applied.\<close>

definition no_options :: options where
  "no_options = \<lparr>o_Exported = None, o_Kind = [], o_Package = [], o_File = [], o_Repo = [], o_Generated = [],
     o_EdgeTypes = [], o_Depth = 0, o_IncludeTests = False, o_IncludeUnexported = False, o_IncludeFields = False,
     o_IncludeSymbols = False\<rparr>"

record search_result =
  r_QualifiedName :: string
  r_Kind :: string
  r_Signature :: string
  r_Doc :: string
  r_Receiver :: string
  r_PosFile :: string
  r_Repo :: string
  r_Fields :: "symbol_field list"
  r_PosLine :: int
  r_Exported :: bool
  r_Generated :: bool

definition fieldsIfRequested :: "symbol \<Rightarrow> bool \<Rightarrow> symbol_field list" where
  "fieldsIfRequested sy include = (if include then sy_Fields sy else [])"

definition to_search_result :: "bool \<Rightarrow> symbol \<Rightarrow> search_result" where
  "to_search_result includeFields sy =
     \<lparr>r_QualifiedName = sy_QualifiedName sy, r_Kind = sy_Kind sy, r_Signature = sy_Signature sy, r_Doc = sy_Doc sy,
      r_Receiver = sy_Receiver sy, r_PosFile = sy_PosFile sy, r_Repo = sy_Repo sy,
      r_Fields = fieldsIfRequested sy includeFields, r_PosLine = sy_PosLine sy, r_Exported = sy_Exported sy,
      r_Generated = sy_IsGenerated sy\<rparr>"

definition searchResultsFromSymbols :: "symbol list \<Rightarrow> bool \<Rightarrow> search_result list" where
  "searchResultsFromSymbols syms includeFields = map (to_search_result includeFields) syms"

definition kindMatches :: "string \<Rightarrow> string \<Rightarrow> bool" where
  "kindMatches kind want \<longleftrightarrow>
     want = [] \<or> kind = want \<or> want = ''type'' \<and> (kind = ''interface'' \<or> kind = ''alias'')"

definition filterSearchResultsByOptions :: "search_result list \<Rightarrow> options \<Rightarrow> search_result list" where
  "filterSearchResultsByOptions results opts =
     (if o_Kind opts = [] \<and> o_Exported opts = None \<and> o_File opts = [] then results
      else filter (\<lambda>r. kindMatches (r_Kind r) (o_Kind opts)
             \<and> (case o_Exported opts of None \<Rightarrow> True | Some b \<Rightarrow> r_Exported r = b)
             \<and> (o_File opts \<noteq> [] \<longrightarrow> contains (r_PosFile r) (o_File opts))) results)"

definition filterSearchResults :: "search_result list \<Rightarrow> string \<Rightarrow> search_result list" where
  "filterSearchResults results repo = (if repo = [] then results else filter (\<lambda>r. r_Repo r = repo) results)"

definition filterGenerated :: "search_result list \<Rightarrow> string \<Rightarrow> search_result list" where
  "filterGenerated results flt =
     (if flt \<noteq> ''exclude'' \<and> flt \<noteq> ''only'' then results
      else filter (\<lambda>r. r_Generated r = (flt = ''only'')) results)"

definition symbolMatchesPattern :: "unidata \<Rightarrow> symbol \<Rightarrow> string \<Rightarrow> bool" where
  "symbolMatchesPattern U sy patternLower =
     list_ex (\<lambda>fld. contains (to_lower U fld) patternLower)
       [sy_Name sy, sy_QualifiedName sy, sy_Signature sy, sy_Doc sy]"

definition filterSymbolsByPattern :: "unidata \<Rightarrow> symbol list \<Rightarrow> string \<Rightarrow> symbol list" where
  "filterSymbolsByPattern U syms pattern0 =
     (let pattern = to_lower U (trim_space pattern0) in
        if pattern = [] then syms else filter (\<lambda>sy. symbolMatchesPattern U sy pattern) syms)"

definition matchTier :: "string \<Rightarrow> string \<Rightarrow> nat" where
  "matchTier nameLower patternLower =
     (if nameLower = patternLower then 0 else if has_prefix nameLower patternLower then 1 else 2)"

definition kindPriority :: "string \<Rightarrow> nat" where
  "kindPriority kind =
     (if kind = ''function'' \<or> kind = ''method'' then 0
      else if kind = ''interface'' \<or> kind = ''type'' \<or> kind = ''alias'' then 1 else 2)"

text \<open>The tiers are a map keyed by qualified name; a later symbol of the same name overwrites.\<close>

definition tier_map :: "unidata \<Rightarrow> symbol list \<Rightarrow> string \<Rightarrow> (string, nat) gomap" where
  "tier_map U syms patternLower = fold (\<lambda>sy m. gm_put (sy_QualifiedName sy)
     (min (matchTier (to_lower U (sy_Name sy)) patternLower)
          (matchTier (to_lower U (sy_QualifiedName sy)) patternLower)) m) syms []"

definition search_less :: "(string, nat) gomap \<Rightarrow> symbol \<Rightarrow> symbol \<Rightarrow> bool" where
  "search_less tiers a b =
     (let aTier = gm_get 0 tiers (sy_QualifiedName a); bTier = gm_get 0 tiers (sy_QualifiedName b);
          aKind = kindPriority (sy_Kind a); bKind = kindPriority (sy_Kind b)
      in if aTier \<noteq> bTier then aTier < bTier
         else if sy_Exported a \<noteq> sy_Exported b then sy_Exported a
         else if aKind \<noteq> bKind then aKind < bKind
         else if sy_IsTest a \<noteq> sy_IsTest b then \<not> sy_IsTest a
         else if sy_IsGenerated a \<noteq> sy_IsGenerated b then \<not> sy_IsGenerated a
         else False)"

definition sortSymbolsForSearch :: "unidata \<Rightarrow> symbol list \<Rightarrow> string \<Rightarrow> symbol list" where
  "sortSymbolsForSearch U syms patternLower = sort_by (search_less (tier_map U syms patternLower)) syms"

section \<open>Searches\<close>

definition SymbolSearch :: "store_db \<Rightarrow> unidata \<Rightarrow> string \<Rightarrow> options \<Rightarrow> search_result list result" where
  "SymbolSearch db U pattern opts =
     (let found = (if o_File opts \<noteq> [] then
            (case SearchSymbolsByFile db (o_File opts) [] None (o_IncludeTests opts) (o_Generated opts) of
               Inl e \<Rightarrow> Inl e | Inr syms \<Rightarrow> Inr (filterSymbolsByPattern U syms pattern))
          else SearchSymbols db U pattern [] None (o_Package opts) (o_IncludeTests opts) (o_Generated opts))
      in case found of
           Inl e \<Rightarrow> Inl e
         | Inr syms \<Rightarrow>
             let results = searchResultsFromSymbols (sortSymbolsForSearch U syms (to_lower U pattern)) (o_IncludeFields opts)
             in Inr (filterSearchResults (filterSearchResultsByOptions results opts) (o_Repo opts)))"

definition ranked_results :: "unidata \<Rightarrow> symbol list \<Rightarrow> string \<Rightarrow> options \<Rightarrow> search_result list" where
  "ranked_results U syms pattern opts =
     filterSearchResults (filterSearchResultsByOptions
       (filterGenerated (searchResultsFromSymbols (sortSymbolsForSearch U syms (to_lower U pattern)) (o_IncludeFields opts))
         (o_Generated opts)) opts) (o_Repo opts)"

definition SearchByPrefix :: "store_db \<Rightarrow> unidata \<Rightarrow> string \<Rightarrow> options \<Rightarrow> search_result list result" where
  "SearchByPrefix db U pfx opts =
     (case SearchByQualifiedNamePrefix db pfx (o_IncludeTests opts) of
        Inl e \<Rightarrow> Inl e | Inr syms \<Rightarrow> Inr (ranked_results U syms pfx opts))"

definition MethodSearch :: "store_db \<Rightarrow> unidata \<Rightarrow> string \<Rightarrow> options \<Rightarrow> search_result list result" where
  "MethodSearch db U methodName opts =
     (case MethodsByName db methodName (o_IncludeTests opts) of
        Inl e \<Rightarrow> Inl e | Inr syms \<Rightarrow> Inr (ranked_results U syms methodName opts))"

end
