(* ===== verification/Usage.thy ===== *)
theory Usage
  imports Symbols
begin

text \<open>
  Names and types (\<^verbatim>\<open>query/query.go\<close>): the error of a missed lookup with its candidates, the resolution
  of a type name, the methods of a type, interface implementations, and the usages of a type from
  signatures, embeddings and reference edges.
\<close>

definition edgeTypeCalls :: string where "edgeTypeCalls = ''calls''"
definition edgeTypeReferences :: string where "edgeTypeReferences = ''references''"
definition edgeTypeSatisfies :: string where "edgeTypeSatisfies = ''satisfies''"
definition edgeTypeEmbeds :: string where "edgeTypeEmbeds = ''embeds''"
definition edgeTypeContract :: string where "edgeTypeContract = ''contract''"

definition allEdgeTypes :: "string list" where
  "allEdgeTypes = [edgeTypeCalls, edgeTypeReferences, edgeTypeSatisfies, edgeTypeEmbeds, edgeTypeImports, edgeTypeContract]"

section \<open>Lookup misses\<close>

definition symbolCandidateRank :: "symbol \<Rightarrow> string \<Rightarrow> string \<Rightarrow> nat" where
  "symbolCandidateRank sy short pkgPrefix =
     (if sy_Name sy = short then 0
      else if pkgPrefix \<noteq> [] \<and> has_prefix (sy_QualifiedName sy) (pkgPrefix @ ''.'') then 1 else 2)"

definition rankSymbolCandidates :: "symbol list \<Rightarrow> string \<Rightarrow> string \<Rightarrow> nat \<Rightarrow> string list" where
  "rankSymbolCandidates syms short pkgPrefix limit =
     take limit (map sy_QualifiedName
       (sort_by (by_key (\<lambda>sy. symbolCandidateRank sy short pkgPrefix)) (dedup_by sy_QualifiedName [] syms)))"

definition symbolCandidates :: "store_db \<Rightarrow> unidata \<Rightarrow> string \<Rightarrow> string \<Rightarrow> string list" where
  "symbolCandidates db U short pkgPrefix =
     (case SearchSymbols db U short [] None [] False ''any'' of
        Inr (sy # syms) \<Rightarrow> rankSymbolCandidates (sy # syms) short pkgPrefix 5
      | _ \<Rightarrow> (case SearchByQualifiedNamePrefix db short False of
                Inl _ \<Rightarrow> [] | Inr syms \<Rightarrow> rankSymbolCandidates syms short pkgPrefix 5))"

text \<open>\<^verbatim>\<open>short[strings.LastIndexAny(short, "./")+1:]\<close>: what follows the last dot or slash.\<close>

definition after_last_any :: "(char \<Rightarrow> bool) \<Rightarrow> string \<Rightarrow> string" where
  "after_last_any P s = rev (takeWhile (\<lambda>c. \<not> P c) (rev s))"

definition symbolMissError :: "store_db \<Rightarrow> unidata \<Rightarrow> string \<Rightarrow> string" where
  "symbolMissError db U qualifiedName =
     (let short = after_last_any (\<lambda>c. c = CHR ''.'' \<or> c = CHR ''/'') qualifiedName;
          pkgPrefix = (case str_cut_last qualifiedName ''.'' of (before, _, ok) \<Rightarrow> if ok then before else []);
          candidates = symbolCandidates db U short pkgPrefix
      in if candidates = [] then ''symbol not found: '' @ qualifiedName
         else ''symbol not found: '' @ qualifiedName @ ''; did you mean: '' @ str_join '', '' candidates)"

definition requireSymbol :: "store_db \<Rightarrow> unidata \<Rightarrow> string \<Rightarrow> unit result" where
  "requireSymbol db U qualifiedName =
     (case SymbolByName db qualifiedName of
        Inl e \<Rightarrow> Inl e
      | Inr None \<Rightarrow> Inl (symbolMissError db U qualifiedName)
      | Inr (Some _) \<Rightarrow> Inr ())"

section \<open>Type names\<close>

definition splitTypeQualifier :: "string \<Rightarrow> string \<times> string" where
  "splitTypeQualifier typeName =
     (case str_cut_last typeName ''.'' of (pkgPath, short, ok) \<Rightarrow> if ok then (pkgPath, short) else ([], typeName))"

definition filterByPackage :: "symbol list \<Rightarrow> string \<Rightarrow> symbol list" where
  "filterByPackage syms pkgPath = filter (\<lambda>sy. sy_PackagePath sy = pkgPath) syms"

definition resolveTypeName :: "store_db \<Rightarrow> string \<Rightarrow> string result" where
  "resolveTypeName db typeName =
     (case splitTypeQualifier typeName of (pkgPath, short) \<Rightarrow>
        (case TypeDeclarationsNamed db short True of
           Inl e \<Rightarrow> Inl e
         | Inr decls0 \<Rightarrow>
             let decls = (if pkgPath \<noteq> [] then filterByPackage decls0 pkgPath else decls0) in
               (case decls of
                  [] \<Rightarrow> Inl (''type not found: '' @ typeName)
                | [d] \<Rightarrow> Inr (sy_QualifiedName d)
                | d # _ \<Rightarrow> Inl (''type not found: '' @ typeName @ '' is declared in '' @ itoa (int (length decls))
                             @ '' packages ('' @ sy_PackagePath d @ '', ...); qualify it''))))"

record symbol_detail =
  sd_QualifiedName :: string
  sd_Kind :: string
  sd_Receiver :: string
  sd_Signature :: string
  sd_Doc :: string
  sd_PosFile :: string
  sd_Repo :: string
  sd_Fields :: "symbol_field list"
  sd_PosLine :: int
  sd_Exported :: bool
  sd_Generated :: bool

definition to_symbol_detail :: "bool \<Rightarrow> symbol \<Rightarrow> symbol_detail" where
  "to_symbol_detail includeFields sy =
     \<lparr>sd_QualifiedName = sy_QualifiedName sy, sd_Kind = sy_Kind sy, sd_Receiver = sy_Receiver sy,
      sd_Signature = sy_Signature sy, sd_Doc = sy_Doc sy, sd_PosFile = sy_PosFile sy, sd_Repo = sy_Repo sy,
      sd_Fields = fieldsIfRequested sy includeFields, sd_PosLine = sy_PosLine sy, sd_Exported = sy_Exported sy,
      sd_Generated = sy_IsGenerated sy\<rparr>"

definition symbolDetails :: "symbol list \<Rightarrow> bool \<Rightarrow> bool \<Rightarrow> symbol_detail list" where
  "symbolDetails syms includeUnexported includeFields =
     map (to_symbol_detail includeFields) (filter (\<lambda>sy. includeUnexported \<or> sy_Exported sy) syms)"

definition filterSymbolDetails :: "symbol_detail list \<Rightarrow> string \<Rightarrow> symbol_detail list" where
  "filterSymbolDetails items repo = (if repo = [] then items else filter (\<lambda>it. sd_Repo it = repo) items)"

definition MethodsOf :: "store_db \<Rightarrow> string \<Rightarrow> options \<Rightarrow> symbol_detail list result" where
  "MethodsOf db typeName opts =
     (case resolveTypeName db typeName of
        Inl e \<Rightarrow> Inl e
      | Inr resolved \<Rightarrow>
          (case MethodsByQualifiedReceiver db resolved (o_IncludeTests opts) of
             Inl e \<Rightarrow> Inl e
           | Inr syms \<Rightarrow>
               if syms = [] then Inr []
               else let results = filterSymbolDetails (map (to_symbol_detail False) syms) (o_Repo opts) in
                 if o_Repo opts \<noteq> [] \<and> results = []
                 then Inl (''type not found: '' @ typeName @ '' in repo '' @ o_Repo opts)
                 else Inr results))"

section \<open>Interface implementations\<close>

record interface_impl =
  ii_Interface :: string
  ii_ImplType :: string
  ii_ImplMethod :: string
  ii_PosFile :: string
  ii_PosLine :: int

text \<open>
  The breadth-first walk over embedded interfaces. It ends because the index is finite, which is a
  fact about the database and not about the loop: the number of rounds is an argument, and the
  result is \<open>None\<close> when it is used up.
\<close>

fun method_names_loop :: "store_db \<Rightarrow> nat \<Rightarrow> string list \<Rightarrow> string list \<Rightarrow> string list \<Rightarrow> string list result option" where
  "method_names_loop db n [] visited names = Some (Inr names)"
| "method_names_loop db 0 (current # queue) visited names = None"
| "method_names_loop db (Suc n) (current # queue) visited names =
     (case MethodsByQualifiedReceiver db current True of
        Inl e \<Rightarrow> Some (Inl e)
      | Inr methods \<Rightarrow>
          (case EdgesFrom db current of
             Inl e \<Rightarrow> Some (Inl e)
           | Inr edges \<Rightarrow>
               let new = dedup_by (\<lambda>r. r) visited
                     (map eg_ToRef (filter (\<lambda>e. eg_EdgeType e = edgeTypeEmbeds) edges))
               in method_names_loop db n (queue @ new) (new @ visited) (names @ map sy_Name methods)))"

definition interfaceMethodNames :: "store_db \<Rightarrow> nat \<Rightarrow> string \<Rightarrow> string list result option" where
  "interfaceMethodNames db n interfaceName = method_names_loop db n [interfaceName] [interfaceName] []"

definition impl_rows :: "store_db \<Rightarrow> string \<Rightarrow> string list \<Rightarrow> string \<Rightarrow> interface_impl list" where
  "impl_rows db interfaceName methodNames implType =
     (case MethodsByQualifiedReceiver db implType True of
        Inl _ \<Rightarrow> []
      | Inr methods \<Rightarrow> map (\<lambda>m. \<lparr>ii_Interface = interfaceName, ii_ImplType = implType,
            ii_ImplMethod = sy_QualifiedName m, ii_PosFile = sy_PosFile m, ii_PosLine = sy_PosLine m\<rparr>)
          (filter (\<lambda>m. sy_Name m \<in> set methodNames) methods))"

definition InterfaceImplementations :: "store_db \<Rightarrow> nat \<Rightarrow> string \<Rightarrow> interface_impl list result option" where
  "InterfaceImplementations db n interfaceName0 =
     (case resolveTypeName db interfaceName0 of
        Inl e \<Rightarrow> Some (Inl e)
      | Inr interfaceName \<Rightarrow>
          (case EdgesTo db interfaceName of
             Inl e \<Rightarrow> Some (Inl e)
           | Inr satisfiesEdges \<Rightarrow>
               let implTypes = dedup_by (\<lambda>r. r) []
                     (map eg_FromRef (filter (\<lambda>e. eg_EdgeType e = edgeTypeSatisfies) satisfiesEdges))
               in case interfaceMethodNames db n interfaceName of
                    None \<Rightarrow> None
                  | Some (Inl e) \<Rightarrow> Some (Inl e)
                  | Some (Inr methodNames) \<Rightarrow>
                      Some (Inr (concat (map (impl_rows db interfaceName methodNames) implTypes)))))"

section \<open>Mentions of a type\<close>

definition isIdentChar :: "char \<Rightarrow> bool" where
  "isIdentChar b \<longleftrightarrow> b = CHR ''_'' \<or> CHR ''a'' \<le> b \<and> b \<le> CHR ''z'' \<or> CHR ''A'' \<le> b \<and> b \<le> CHR ''Z''
     \<or> CHR ''0'' \<le> b \<and> b \<le> CHR ''9''"

definition qualifiedByKnownPkg :: "string \<Rightarrow> string list \<Rightarrow> bool" where
  "qualifiedByKnownPkg pfx pkgs = list_ex (has_suffix pfx) pkgs"

text \<open>The occurrence of \<open>name\<close> at byte \<open>i\<close>: not inside an identifier, bare or behind a known package.\<close>

definition mention_at :: "string \<Rightarrow> string \<Rightarrow> string list \<Rightarrow> nat \<Rightarrow> bool" where
  "mention_at txt name pkgs i =
     (let en = i + length name in
        (i = 0 \<or> \<not> isIdentChar (txt ! (i - 1))) \<and> (en = length txt \<or> \<not> isIdentChar (txt ! en))
        \<and> (i = 0 \<or> txt ! (i - 1) \<noteq> CHR ''.'' \<or> qualifiedByKnownPkg (take (i - 1) txt) pkgs))"

text \<open>
  \<^verbatim>\<open>for start := 0; ; { i := strings.Index(text[start:], name) ... start = i + 1 }\<close>. Slicing past the
  end (an empty name) panics, \<open>None\<close>.
\<close>

function mentions_loop :: "string \<Rightarrow> string \<Rightarrow> string list \<Rightarrow> nat \<Rightarrow> bool option" where
  "mentions_loop txt name pkgs st =
     (if length txt < st then None
      else case str_index (drop st txt) name of
        None \<Rightarrow> Some False
      | Some j \<Rightarrow> if mention_at txt name pkgs (st + j) then Some True else mentions_loop txt name pkgs (st + j + 1))"
  by pat_completeness auto
termination by (relation "measure (\<lambda>(txt, name, pkgs, st). Suc (length txt) - st)") auto

declare mentions_loop.simps [simp del]

definition mentionsTypeAs :: "string \<Rightarrow> string \<Rightarrow> string list \<Rightarrow> bool option" where
  "mentionsTypeAs txt name pkgs = mentions_loop txt name pkgs 0"

fun fieldsMentionTypeAs :: "symbol_field list \<Rightarrow> string \<Rightarrow> string list \<Rightarrow> bool option" where
  "fieldsMentionTypeAs [] name pkgs = Some False"
| "fieldsMentionTypeAs (f # fs) name pkgs =
     (case mentionsTypeAs (sf_GoType f) name pkgs of
        None \<Rightarrow> None | Some True \<Rightarrow> Some True | Some False \<Rightarrow> fieldsMentionTypeAs fs name pkgs)"

definition mentionsQualified :: "string \<Rightarrow> string \<Rightarrow> string list \<Rightarrow> bool" where
  "mentionsQualified txt name pkgs = list_ex (\<lambda>pkg. contains txt (pkg @ ''.'' @ name)) pkgs"

definition importsDeclaring :: "string \<Rightarrow> string list \<Rightarrow> (string, (string, bool) gomap) gomap \<Rightarrow> bool" where
  "importsDeclaring pkgPath names imports = list_ex (\<lambda>imp. path_base imp \<in> set names) (gm_keys (gm_get [] imports pkgPath))"

definition signatureUsesType :: "symbol \<Rightarrow> string \<Rightarrow> string list \<Rightarrow> string list
    \<Rightarrow> (string, (string, bool) gomap) gomap option \<Rightarrow> bool option" where
  "signatureUsesType sy short declaringPkg names imports =
     (case (case mentionsTypeAs (sy_Signature sy) short names of
              None \<Rightarrow> None | Some True \<Rightarrow> Some True | Some False \<Rightarrow> fieldsMentionTypeAs (sy_Fields sy) short names) of
        None \<Rightarrow> None
      | Some False \<Rightarrow> Some False
      | Some True \<Rightarrow>
          Some (case imports of
                  None \<Rightarrow> True
                | Some imps \<Rightarrow> sy_PackagePath sy \<in> set declaringPkg
                    \<or> mentionsQualified (sy_Signature sy) short names \<or> importsDeclaring (sy_PackagePath sy) names imps))"

end
