(* ===== verification/Graph.thy ===== *)
theory Graph
  imports Usage
begin

text \<open>
  Graph reads (\<^verbatim>\<open>query/query.go\<close>): traversal in both directions, paths, import edges and the
  package graph. Reads go through the store operations of theory \<open>Edges\<close>; an error of any of
  them is the result.
\<close>

record edge_detail =
  d_FromRef :: string
  d_ToRef :: string
  d_EdgeType :: string
  d_PosFile :: string
  d_Repo :: string
  d_State :: string
  d_Sites :: "site list"
  d_PosLine :: int
  d_SiteCount :: nat
  d_External :: bool
  d_Dispatch :: bool

definition edgeTypeAllowed :: "string \<Rightarrow> string list \<Rightarrow> bool" where
  "edgeTypeAllowed edgeType allowed \<longleftrightarrow> allowed = [] \<or> edgeType \<in> set allowed"

definition edgeToDetail :: "edge \<Rightarrow> edge_detail" where
  "edgeToDetail e =
     \<lparr>d_FromRef = eg_FromRef e, d_ToRef = eg_ToRef e, d_EdgeType = eg_EdgeType e, d_PosFile = eg_PosFile e,
      d_Repo = eg_Repo e, d_State = [], d_Sites = eg_Sites e, d_PosLine = eg_PosLine e,
      d_SiteCount = eg_SiteCount e, d_External = False, d_Dispatch = False\<rparr>"

definition filterEdges :: "edge_detail list \<Rightarrow> string \<Rightarrow> edge_detail list" where
  "filterEdges edges repo = (if repo = [] then edges else filter (\<lambda>e. d_Repo e = repo) edges)"

definition repoMismatch :: "string \<Rightarrow> string \<Rightarrow> bool" where
  "repoMismatch actualRepo wanted \<longleftrightarrow> wanted \<noteq> [] \<and> actualRepo \<noteq> wanted"

section \<open>Traversal by levels\<close>

text \<open>\<^verbatim>\<open>visited\<close> is the list of marked names; \<^verbatim>\<open>frontierNodes\<close> returns it with the new marks.\<close>

fun frontierNodes :: "string list \<Rightarrow> string list \<Rightarrow> string list \<times> string list" where
  "frontierNodes [] visited = ([], visited)"
| "frontierNodes (qn # queue) visited =
     (if qn \<in> set visited then frontierNodes queue visited
      else case frontierNodes queue (qn # visited) of (frontier, visited') \<Rightarrow> (qn # frontier, visited'))"

definition hop :: "bool \<Rightarrow> edge \<Rightarrow> string" where
  "hop outgoing e = (if outgoing then eg_ToRef e else eg_FromRef e)"

definition expandLevel :: "edge list \<Rightarrow> string list \<Rightarrow> bool \<Rightarrow> string list \<Rightarrow> edge_detail list \<times> string list" where
  "expandLevel edges allowTypes outgoing visited =
     (let kept = filter (\<lambda>e. edgeTypeAllowed (eg_EdgeType e) allowTypes) edges
      in (map edgeToDetail kept, filter (\<lambda>n. n \<notin> set visited) (map (hop outgoing) kept)))"

fun traverse_loop :: "store_db \<Rightarrow> bool \<Rightarrow> string list \<Rightarrow> nat \<Rightarrow> string list \<Rightarrow> string list
    \<Rightarrow> edge_detail list \<Rightarrow> edge_detail list result" where
  "traverse_loop db outgoing allowTypes 0 queue visited acc = Inr acc"
| "traverse_loop db outgoing allowTypes (Suc d) queue visited acc =
     (if queue = [] then Inr acc
      else case frontierNodes queue visited of (frontier, visited') \<Rightarrow>
        if frontier = [] then Inr acc
        else case EdgesForNodes db frontier allowTypes outgoing of
          Inl e \<Rightarrow> Inl e
        | Inr edges \<Rightarrow>
            (case expandLevel edges allowTypes outgoing visited' of (levelResult, nextQueue) \<Rightarrow>
               traverse_loop db outgoing allowTypes d nextQueue visited' (acc @ levelResult)))"

definition traverse :: "store_db \<Rightarrow> string \<Rightarrow> bool \<Rightarrow> int \<Rightarrow> string list \<Rightarrow> edge_detail list result" where
  "traverse db start outgoing depth allowTypes =
     traverse_loop db outgoing allowTypes (if depth \<le> 0 then 1 else nat depth) [start] [] []"

text \<open>\<^verbatim>\<open>markExternal\<close> flags the edges whose target is no indexed symbol.\<close>

definition markExternal :: "store_db \<Rightarrow> edge_detail list \<Rightarrow> edge_detail list result" where
  "markExternal db edges =
     (let names = filter (\<lambda>n. n \<noteq> []) (map d_ToRef edges) in
        if names = [] then Inr edges
        else case SymbolsByNames db names of
          Inl e \<Rightarrow> Inl (''mark external refs: '' @ e)
        | Inr known \<Rightarrow>
            Inr (map (\<lambda>e. e\<lparr>d_External := d_ToRef e \<noteq> [] \<and> d_ToRef e \<notin> set (map sy_QualifiedName known)\<rparr>) edges))"

text \<open>\<^verbatim>\<open>strings.TrimPrefix(r, "*")\<close> and the cut of type parameters.\<close>

definition receiverBaseName :: "string \<Rightarrow> string" where
  "receiverBaseName r =
     (let s = trim_prefix r ''*'' in case str_index s ''['' of None \<Rightarrow> s | Some i \<Rightarrow> take i s)"

definition dispatchRows :: "store_db \<Rightarrow> string \<Rightarrow> edge_detail list result" where
  "dispatchRows db qualifiedName =
     (case SymbolByName db qualifiedName of
        Inl e \<Rightarrow> Inl e
      | Inr None \<Rightarrow> Inr []
      | Inr (Some sy) \<Rightarrow>
          if sy_Kind sy \<noteq> ''method'' \<or> sy_Receiver sy = [] then Inr []
          else let recvQN = sy_PackagePath sy @ ''.'' @ receiverBaseName (sy_Receiver sy) in
            case SymbolByName db recvQN of
              Inl e \<Rightarrow> Inl e
            | Inr None \<Rightarrow> Inr []
            | Inr (Some recv) \<Rightarrow>
                if sy_Kind recv = ''interface'' then Inr []
                else case EdgesTo db recvQN of
                  Inl e \<Rightarrow> Inl e
                | Inr edges \<Rightarrow>
                    Inr (map (\<lambda>e. (edgeToDetail e)\<lparr>d_Dispatch := True\<rparr>)
                      (filter (\<lambda>e. eg_EdgeType e \<in> {edgeTypeReferences, edgeTypeSatisfies, edgeTypeEmbeds}
                         \<and> \<not> (eg_FromRef e = recvQN \<or> has_prefix (eg_FromRef e) (recvQN @ ''.''))) edges)))"

definition allow_types :: "options \<Rightarrow> string list" where
  "allow_types opts = (if o_EdgeTypes opts = [] then allEdgeTypes else o_EdgeTypes opts)"

definition CallersOf :: "store_db \<Rightarrow> unidata \<Rightarrow> string \<Rightarrow> options \<Rightarrow> edge_detail list result" where
  "CallersOf db U qualifiedName opts =
     (case requireSymbol db U qualifiedName of
        Inl e \<Rightarrow> Inl e
      | Inr _ \<Rightarrow>
          (case traverse db qualifiedName False (o_Depth opts) (allow_types opts) of
             Inl e \<Rightarrow> Inl e
           | Inr edges0 \<Rightarrow>
               (case markExternal db edges0 of
                  Inl e \<Rightarrow> Inl e
                | Inr edges \<Rightarrow>
                    (case dispatchRows db qualifiedName of
                       Inl e \<Rightarrow> Inl e
                     | Inr dispatch \<Rightarrow> Inr (filterEdges (edges @ dispatch) (o_Repo opts))))))"

definition CalleesOf :: "store_db \<Rightarrow> unidata \<Rightarrow> string \<Rightarrow> options \<Rightarrow> edge_detail list result" where
  "CalleesOf db U qualifiedName opts =
     (case requireSymbol db U qualifiedName of
        Inl e \<Rightarrow> Inl e
      | Inr _ \<Rightarrow>
          (case traverse db qualifiedName True (o_Depth opts) (allow_types opts) of
             Inl e \<Rightarrow> Inl e
           | Inr edges0 \<Rightarrow>
               (case markExternal db edges0 of
                  Inl e \<Rightarrow> Inl e
                | Inr edges \<Rightarrow> Inr (filterEdges edges (o_Repo opts)))))"

section \<open>Paths\<close>

record path_step =
  ps_From :: string
  ps_To :: string
  ps_EdgeType :: string
  ps_PosFile :: string
  ps_Repo :: string
  ps_PosLine :: int

type_synonym path_node = "string \<times> path_step list"

definition filterPathSteps :: "path_step list \<Rightarrow> string \<Rightarrow> path_step list" where
  "filterPathSteps path repo = (if repo = [] then path else filter (\<lambda>p. ps_Repo p = repo) path)"

definition enqueueIfUnvisited :: "string \<Rightarrow> edge \<Rightarrow> path_step list \<Rightarrow> string list \<Rightarrow> path_node list \<Rightarrow> path_node list" where
  "enqueueIfUnvisited name e path visited queue =
     (if name \<in> set visited then queue
      else queue @ [(name, path @ [\<lparr>ps_From = eg_FromRef e, ps_To = eg_ToRef e, ps_EdgeType = eg_EdgeType e,
                       ps_PosFile = eg_PosFile e, ps_Repo = eg_Repo e, ps_PosLine = eg_PosLine e\<rparr>])])"

definition contractToEdge :: "contract_row \<times> string \<Rightarrow> edge" where
  "contractToEdge = (\<lambda>(c, repo). \<lparr>eg_FromRef = ct_FromRef c, eg_ToRef = ct_ToRef c, eg_EdgeType = edgeTypeContract,
     eg_PosFile = [], eg_Repo = repo, eg_Sites = [], eg_PosLine = 0, eg_SiteCount = 0\<rparr>)"

text \<open>The edges one node contributes, in order: its out-edges, then the contracts that start at it.\<close>

definition forward_edges :: "string \<Rightarrow> string \<Rightarrow> edge list \<Rightarrow> (contract_row \<times> string) list \<Rightarrow> edge list" where
  "forward_edges name repo outEdges contracts =
     filter (\<lambda>e. \<not> repoMismatch (eg_Repo e) repo)
       (outEdges @ map contractToEdge (filter (\<lambda>(c, _). \<not> ct_Suggested c \<and> ct_FromRef c = name) contracts))"

definition expandPathNode :: "store_db \<Rightarrow> path_node \<Rightarrow> string \<Rightarrow> path_node list \<Rightarrow> string list
    \<Rightarrow> (contract_row \<times> string) list \<Rightarrow> path_node list result" where
  "expandPathNode db current repo queue visited contracts =
     (case EdgesFrom db (fst current) of
        Inl e \<Rightarrow> Inl (''find_path: edges from '' @ fst current @ '': '' @ e)
      | Inr outEdges \<Rightarrow>
          Inr (fold (\<lambda>e q. enqueueIfUnvisited (eg_ToRef e) e (snd current) visited q)
                 (forward_edges (fst current) repo outEdges contracts) queue))"

text \<open>
  The search loop. A node is marked when it leaves the queue, so a name can be queued more than
  once; the loop ends because every queued path is one step longer than the path it extends, and
  none is longer than \<open>maxDepth\<close>.
\<close>

definition path_room :: "nat \<Rightarrow> path_node list \<Rightarrow> nat multiset" where
  "path_room maxDepth queue = mset (map (\<lambda>nd. maxDepth - length (snd nd)) queue)"

lemma path_room_Cons: "path_room maxDepth (nd # queue) = path_room maxDepth queue + {#maxDepth - length (snd nd)#}"
  by (simp add: path_room_def)

lemma enqueue_fold_room:
  assumes "length path < maxDepth"
  shows "\<exists>new. path_room maxDepth (fold (\<lambda>e q. enqueueIfUnvisited (eg_ToRef e) e path visited q) es queue)
      = path_room maxDepth queue + new \<and> (\<forall>k\<in>#new. k < maxDepth - length path)"
proof (induction es arbitrary: queue)
  case Nil
  show ?case by (rule exI [where x = "{#}"]) simp
next
  case (Cons e es)
  let ?q = "enqueueIfUnvisited (eg_ToRef e) e path visited queue"
  obtain new where new: "path_room maxDepth (fold (\<lambda>e q. enqueueIfUnvisited (eg_ToRef e) e path visited q) es ?q)
      = path_room maxDepth ?q + new" "\<forall>k\<in>#new. k < maxDepth - length path"
    using Cons [of ?q] by blast
  have "path_room maxDepth ?q = path_room maxDepth queue
      + (if eg_ToRef e \<in> set visited then {#} else {#maxDepth - Suc (length path)#})"
    by (simp add: enqueueIfUnvisited_def path_room_def)
  with new assms show ?case
    by (intro exI [where x = "(if eg_ToRef e \<in> set visited then {#} else {#maxDepth - Suc (length path)#}) + new"])
      (auto simp: add.assoc)
qed

lemma expandPathNode_room:
  assumes "expandPathNode db current repo queue visited contracts = Inr queue'" "length (snd current) < maxDepth"
  shows "(path_room maxDepth queue', path_room maxDepth (current # queue)) \<in> mult less_than"
proof -
  obtain es where q: "queue' = fold (\<lambda>e q. enqueueIfUnvisited (eg_ToRef e) e (snd current) visited q) es queue"
    using assms(1) by (auto simp: expandPathNode_def split: sum.splits)
  obtain new where new: "path_room maxDepth queue' = path_room maxDepth queue + new"
    "\<forall>k\<in>#new. k < maxDepth - length (snd current)"
    using enqueue_fold_room [OF assms(2), where visited = visited and es = es and queue = queue]
    unfolding q [symmetric] by blast
  have "(path_room maxDepth queue + new, path_room maxDepth queue + {#maxDepth - length (snd current)#}) \<in> mult less_than"
    by (rule one_step_implies_mult) (use new(2) in \<open>simp_all\<close>)
  then show ?thesis by (simp only: new(1) path_room_Cons)
qed

lemma path_room_drop: "(path_room maxDepth queue, path_room maxDepth (current # queue)) \<in> mult less_than"
proof -
  have "(path_room maxDepth queue + {#}, path_room maxDepth queue + {#maxDepth - length (snd current)#}) \<in> mult less_than"
    by (rule one_step_implies_mult) simp_all
  then show ?thesis by (simp only: path_room_Cons add_0_right)
qed

definition no_path_msg :: "string \<Rightarrow> string \<Rightarrow> string" where
  "no_path_msg from to = ''no path found from '' @ from @ '' to '' @ to"

function find_path_loop :: "store_db \<Rightarrow> (contract_row \<times> string) list \<Rightarrow> string \<Rightarrow> string \<Rightarrow> nat
    \<Rightarrow> string list \<Rightarrow> path_node list \<Rightarrow> path_step list option result" where
  "find_path_loop db contracts repo to maxDepth visited [] = Inr None"
| "find_path_loop db contracts repo to maxDepth visited (current # queue) =
     (if fst current \<in> set visited then find_path_loop db contracts repo to maxDepth visited queue
      else let visited' = fst current # visited in
        if fst current = to \<and> snd current \<noteq> [] then Inr (Some (filterPathSteps (snd current) repo))
        else if maxDepth \<le> length (snd current) then find_path_loop db contracts repo to maxDepth visited' queue
        else case expandPathNode db current repo queue visited' contracts of
          Inl e \<Rightarrow> Inl e
        | Inr queue' \<Rightarrow> find_path_loop db contracts repo to maxDepth visited' queue')"
  by pat_completeness auto
termination
proof (relation "inv_image (mult less_than) (\<lambda>(db, contracts, repo, to, maxDepth, visited, queue). path_room maxDepth queue)",
    goal_cases)
  case 1
  then show ?case by (simp add: wf_mult)
qed (simp_all add: path_room_drop expandPathNode_room)

definition FindPath :: "store_db \<Rightarrow> unidata \<Rightarrow> string \<Rightarrow> string \<Rightarrow> int \<Rightarrow> options \<Rightarrow> path_step list result" where
  "FindPath db U from to maxDepth0 opts =
     (let maxDepth = (if maxDepth0 \<le> 0 then 10 else nat maxDepth0) in
        case requireSymbol db U from of
          Inl e \<Rightarrow> Inl e
        | Inr _ \<Rightarrow>
            (case requireSymbol db U to of
               Inl e \<Rightarrow> Inl e
             | Inr _ \<Rightarrow>
                 (case db_contracts db of
                    Inl e \<Rightarrow> Inl (''find_path: contracts: '' @ e)
                  | Inr contracts \<Rightarrow>
                      (case find_path_loop db contracts (o_Repo opts) to maxDepth [] [(from, [])] of
                         Inl e \<Rightarrow> Inl e
                       | Inr None \<Rightarrow> Inl (no_path_msg from to)
                       | Inr (Some path) \<Rightarrow> Inr path))))"

end
