(* ===== verification/Graph_Proofs.thy ===== *)
theory Graph_Proofs
  imports Graph
begin

text \<open>
  Graph reads, proved. The engine is the parameter of the locale \<open>sqlite_edges\<close>, whose law is the meaning
  of a \<^verbatim>\<open>WHERE\<close> clause; the batched fetch of the store is shown to be an \<open>edge_source\<close>, the interface
  the level-by-level searches rely on. Traversal returns the edges within a number of hops,
  \<^verbatim>\<open>FindPath\<close> a shortest path, the import walk every reachable import edge once.
\<close>

section \<open>The engine and the edge table\<close>

definition stored_edges :: "store_db \<Rightarrow> edge_row list \<Rightarrow> edge set" where
  "stored_edges db table = {e. \<exists>r\<in>set table. scan_edge (db_sites db) r = Inr e}"

lemma scan_edge_columns:
  "scan_edge unmarshal r = Inr e \<Longrightarrow>
     eg_FromRef e = ew_from r \<and> eg_ToRef e = ew_to r \<and> eg_EdgeType e = ew_type r"
  by (auto simp: scan_edge_def split: sum.splits option.splits if_splits)

locale sqlite_edges =
  fixes db :: store_db and table :: "edge_row list"
  assumes edge_rows: "db_edges db P = Inr rows \<Longrightarrow> mset rows = filter_mset P (mset table)"
begin

lemma queryEdges_set:
  assumes "queryEdges db P = Inr es"
  shows "set es = {e. \<exists>r\<in>set table. P r \<and> scan_edge (db_sites db) r = Inr e}"
proof -
  obtain rows where r: "db_edges db P = Inr rows" "scanEdges (db_sites db) rows = Inr es"
    using assms by (auto simp: queryEdges_def split: sum.splits)
  have "set rows = {r \<in> set table. P r}"
    using arg_cong [OF edge_rows [OF r(1)], of set_mset] by (simp only: set_mset_mset set_mset_filter)
  then show ?thesis using each_r_set [of "scan_edge (db_sites db)" rows es] r(2) by (auto simp: scanEdges_def)
qed

lemma queryEdges_stored:
  assumes "queryEdges db P = Inr es" and "\<And>r e. scan_edge (db_sites db) r = Inr e \<Longrightarrow> P r = Q e"
  shows "set es = {e \<in> stored_edges db table. Q e}"
  unfolding queryEdges_set [OF assms(1)] stored_edges_def using assms(2) by blast

lemma EdgesFrom_set:
  "EdgesFrom db ref = Inr es \<Longrightarrow> set es = {e \<in> stored_edges db table. eg_FromRef e = NormalizeQualifiedName ref}"
  unfolding EdgesFrom_def by (erule queryEdges_stored) (simp add: scan_edge_columns)

lemma EdgesTo_set:
  "EdgesTo db ref = Inr es \<Longrightarrow> set es = {e \<in> stored_edges db table. eg_ToRef e = NormalizeQualifiedName ref}"
  unfolding EdgesTo_def by (erule queryEdges_stored) (simp add: scan_edge_columns)

lemma EdgesByType_set:
  "EdgesByType db t = Inr es \<Longrightarrow> set es = {e \<in> stored_edges db table. eg_EdgeType e = t}"
  unfolding EdgesByType_def by (erule queryEdges_stored) (simp add: scan_edge_columns)

end

locale sqlite_symbols =
  fixes db :: store_db and syms :: "symbol list"
  assumes symbol_rows: "db_symbols db Q = Inr ss \<Longrightarrow> mset ss = filter_mset Q (mset syms)"
begin

lemma symbol_rows_set: "db_symbols db Q = Inr ss \<Longrightarrow> set ss = {sy \<in> set syms. Q sy}"
  using arg_cong [OF symbol_rows, of Q ss set_mset] by (simp only: set_mset_mset set_mset_filter)

lemma by_qualified_name_set:
  "by_qualified_name (db_symbols db Q) = Inr ss \<Longrightarrow> set ss = {sy \<in> set syms. Q sy}"
  using symbol_rows_set by (auto simp: by_qualified_name_def split: sum.splits)

end

lemma concat_chunk_loop: "0 < sz \<Longrightarrow> concat (chunk_loop sz xs) = xs"
proof (induction sz xs rule: chunk_loop.induct)
  case (2 sz x xs)
  then have "concat (chunk_loop sz (x # xs)) = take sz (x # xs) @ drop sz (x # xs)" by simp
  then show ?case by (simp only: append_take_drop_id)
qed simp

lemma concat_chunks: "concat (chunks xs sz) = xs"
  by (simp add: chunks_def concat_chunk_loop)

lemma set_chunks: "(\<exists>b\<in>set (chunks xs sz). x \<in> set b) \<longleftrightarrow> x \<in> set xs"
  using arg_cong [OF concat_chunks [of xs sz], of set] by auto

text \<open>Every batch stays within the engine's limit on bound variables.\<close>

lemma chunk_loop_size: "0 < sz \<Longrightarrow> b \<in> set (chunk_loop sz xs) \<Longrightarrow> b \<noteq> [] \<and> length b \<le> sz"
proof (induction sz xs rule: chunk_loop.induct)
  case (2 sz x xs)
  then show ?case by (cases sz) auto
qed simp

context sqlite_edges
begin

lemma EdgesForNodes_set:
  assumes "EdgesForNodes db refs types outgoing = Inr es"
  shows "set es = {e \<in> stored_edges db table. edgeTypeAllowed (eg_EdgeType e) types
    \<and> (if outgoing then eg_FromRef e else eg_ToRef e) \<in> NormalizeQualifiedName ` set refs}"
proof (cases "refs = []")
  case True
  then show ?thesis using assms by (simp add: EdgesForNodes_def edgesForNodes_def)
next
  case False
  let ?Q = "\<lambda>batch e. edgeTypeAllowed (eg_EdgeType e) types
    \<and> (if outgoing then eg_FromRef e else eg_ToRef e) \<in> NormalizeQualifiedName ` set batch"
  let ?P = "\<lambda>batch r. (if outgoing then ew_from r else ew_to r) \<in> set (map NormalizeQualifiedName batch)
    \<and> (types = [] \<or> ew_type r \<in> set types)"
  have c: "concat_r (\<lambda>batch. queryEdges db (?P batch)) (chunks refs edgesInBatchSize) = Inr es"
    using assms False by (simp add: EdgesForNodes_def edgesForNodes_def)
  have q: "set ys = {e \<in> stored_edges db table. ?Q batch e}" if "queryEdges db (?P batch) = Inr ys" for batch ys
    by (rule queryEdges_stored [OF that]) (auto simp: scan_edge_columns edgeTypeAllowed_def)
  have "set es = {e. \<exists>b\<in>set (chunks refs edgesInBatchSize). \<exists>ys. queryEdges db (?P b) = Inr ys \<and> e \<in> set ys}"
    and ok: "\<forall>b\<in>set (chunks refs edgesInBatchSize). \<exists>ys. queryEdges db (?P b) = Inr ys"
    using concat_r_set [OF c] by auto
  then have "set es = {e \<in> stored_edges db table. \<exists>b\<in>set (chunks refs edgesInBatchSize). ?Q b e}"
    using q by blast
  also have "\<dots> = {e \<in> stored_edges db table. ?Q refs e}"
    using set_chunks [of refs edgesInBatchSize] by (auto simp: image_iff)
  finally show ?thesis .
qed

end

section \<open>Levels of a batched search\<close>

definition hops :: "edge set \<Rightarrow> (edge \<Rightarrow> string) \<Rightarrow> (edge \<Rightarrow> string) \<Rightarrow> (string \<Rightarrow> string) \<Rightarrow> (string \<times> string) set" where
  "hops E near far nf = {(x, y). \<exists>e\<in>E. near e = nf x \<and> far e = y}"

definition reach_lt :: "(string \<times> string) set \<Rightarrow> string \<Rightarrow> nat \<Rightarrow> string set" where
  "reach_lt R start k = {y. \<exists>j<k. (start, y) \<in> R ^^ j}"

definition level :: "(string \<times> string) set \<Rightarrow> string \<Rightarrow> nat \<Rightarrow> string set" where
  "level R start k = reach_lt R start (Suc k) - reach_lt R start k"

lemma reach_lt_simps [simp]: "reach_lt R start 0 = {}" "reach_lt R start (Suc 0) = {start}"
  by (auto simp: reach_lt_def)

lemma reach_lt_Suc_level: "reach_lt R start (Suc k) = reach_lt R start k \<union> level R start k"
  unfolding level_def reach_lt_def using less_SucI by blast

lemma level_0 [simp]: "level R start 0 = {start}"
  by (simp add: level_def)

lemma reach_lt_step: "x \<in> reach_lt R start k \<Longrightarrow> (x, y) \<in> R \<Longrightarrow> y \<in> reach_lt R start (Suc k)"
  unfolding reach_lt_def by (auto intro: relpow_Suc_I)

lemma level_Suc: "level R start (Suc k) = R `` level R start k - reach_lt R start (Suc k)"
proof (intro equalityI subsetI)
  fix y
  assume y: "y \<in> level R start (Suc k)"
  then obtain j where "j < Suc (Suc k)" "(start, y) \<in> R ^^ j" "y \<notin> reach_lt R start (Suc k)"
    unfolding level_def reach_lt_def by blast
  moreover from this have "j = Suc k" unfolding reach_lt_def using less_antisym by blast
  ultimately obtain x where x: "(start, x) \<in> R ^^ k" "(x, y) \<in> R" by (auto elim: relpow_Suc_E)
  moreover have "x \<notin> reach_lt R start k" using y x(2) reach_lt_step unfolding level_def by blast
  ultimately have "x \<in> level R start k" unfolding level_def reach_lt_def by blast
  with x y show "y \<in> R `` level R start k - reach_lt R start (Suc k)" unfolding level_def by blast
next
  fix y
  assume "y \<in> R `` level R start k - reach_lt R start (Suc k)"
  then show "y \<in> level R start (Suc k)" using reach_lt_step unfolding level_def by blast
qed

lemma level_empty: "level R start k = {} \<Longrightarrow> k \<le> j \<Longrightarrow> level R start j = {}"
proof (induction j)
  case (Suc j)
  then show ?case by (cases "k = Suc j") (simp_all add: level_Suc le_Suc_eq)
qed simp

text \<open>
  The interface of the batched graph searches: a fetch returns exactly the edges of \<open>E\<close> whose near
  end is the normal form of a requested name.
\<close>

locale edge_source =
  fixes fetch :: "string list \<Rightarrow> edge list result" and E :: "edge set"
    and near :: "edge \<Rightarrow> string" and far :: "edge \<Rightarrow> string" and nf :: "string \<Rightarrow> string"
  assumes fetch_edges: "fetch refs = Inr es \<Longrightarrow> set es = {e \<in> E. near e \<in> nf ` set refs}"
begin

lemma fetch_level_edges:
  "fetch frontier = Inr es \<Longrightarrow> set frontier = level R start k \<Longrightarrow>
     set es = {e \<in> E. \<exists>x\<in>level R start k. near e = nf x}"
  by (drule fetch_edges) auto

lemma fetch_level_far:
  assumes "fetch frontier = Inr es" "set frontier = level (hops E near far nf) start k"
  shows "far ` set es - reach_lt (hops E near far nf) start (Suc k) = level (hops E near far nf) start (Suc k)"
  unfolding fetch_level_edges [OF assms] level_Suc by (auto simp: hops_def)

end

definition edge_near :: "bool \<Rightarrow> edge \<Rightarrow> string" where
  "edge_near outgoing e = (if outgoing then eg_FromRef e else eg_ToRef e)"

definition allowed_edges :: "store_db \<Rightarrow> edge_row list \<Rightarrow> string list \<Rightarrow> edge set" where
  "allowed_edges db table types = {e \<in> stored_edges db table. edgeTypeAllowed (eg_EdgeType e) types}"

sublocale sqlite_edges \<subseteq> src: edge_source "\<lambda>refs. EdgesForNodes db refs types outgoing"
    "allowed_edges db table types" "edge_near outgoing" "hop outgoing" NormalizeQualifiedName
  for types outgoing
  by unfold_locales (auto simp: EdgesForNodes_set allowed_edges_def edge_near_def)


section \<open>Traversal\<close>

lemma frontierNodes_facts:
  "frontierNodes queue visited = (frontier, visited') \<Longrightarrow>
     set frontier = set queue - set visited \<and> set visited' = set visited \<union> set queue \<and> distinct frontier"
proof (induction queue arbitrary: visited frontier visited')
  case (Cons qn queue)
  show ?case
  proof (cases "qn \<in> set visited")
    case True
    then show ?thesis using Cons.IH [of visited frontier visited'] Cons.prems by auto
  next
    case False
    obtain f v where fv: "frontierNodes queue (qn # visited) = (f, v)" by fastforce
    have "frontier = qn # f" "visited' = v" using Cons.prems fv False by simp_all
    then show ?thesis using Cons.IH [OF fv] False by auto
  qed
qed simp

definition graph_hops :: "store_db \<Rightarrow> edge_row list \<Rightarrow> string list \<Rightarrow> bool \<Rightarrow> (string \<times> string) set" where
  "graph_hops db table types outgoing =
     hops (allowed_edges db table types) (edge_near outgoing) (hop outgoing) NormalizeQualifiedName"

definition edges_at :: "store_db \<Rightarrow> edge_row list \<Rightarrow> string list \<Rightarrow> bool \<Rightarrow> string set \<Rightarrow> edge set" where
  "edges_at db table types outgoing X =
     {e \<in> allowed_edges db table types. \<exists>x\<in>X. edge_near outgoing e = NormalizeQualifiedName x}"

lemma edges_at_Un: "edges_at db table types outgoing (X \<union> Y) = edges_at db table types outgoing X \<union> edges_at db table types outgoing Y"
  by (auto simp: edges_at_def)

context sqlite_edges
begin

lemma traverse_loop_set:
  assumes "traverse_loop db outgoing types d queue visited acc = Inr ds"
    and "set queue - set visited = level (graph_hops db table types outgoing) start k"
    and "set visited = reach_lt (graph_hops db table types outgoing) start k"
  shows "set ds = set acc \<union> edgeToDetail ` edges_at db table types outgoing
    (\<Union>j\<in>{k..<k + d}. level (graph_hops db table types outgoing) start j)"
  using assms
proof (induction d arbitrary: queue visited acc k)
  case 0
  then show ?case by (simp add: edges_at_def)
next
  case (Suc d)
  let ?R = "graph_hops db table types outgoing"
  obtain frontier visited' where f: "frontierNodes queue visited = (frontier, visited')" by fastforce
  then have fs: "set frontier = level ?R start k" "set visited' = reach_lt ?R start (Suc k)"
    using frontierNodes_facts [OF f] Suc.prems(2,3) by (auto simp: reach_lt_Suc_level)
  show ?case
  proof (cases "frontier = []")
    case True
    then have "level ?R start k = {}" using fs by simp
    then have "(\<Union>j\<in>{k..<k + Suc d}. level ?R start j) = {}" using level_empty [of ?R start k] by fastforce
    moreover have "ds = acc" using Suc.prems(1) f True by (simp split: if_splits)
    ultimately show ?thesis by (simp add: edges_at_def)
  next
    case False
    then have "queue \<noteq> []" using f by auto
    obtain es where es: "EdgesForNodes db frontier types outgoing = Inr es"
      using Suc.prems(1) f False \<open>queue \<noteq> []\<close> by (auto split: sum.splits)
    have kept: "filter (\<lambda>e. edgeTypeAllowed (eg_EdgeType e) types) es = es"
      using EdgesForNodes_set [OF es] by (simp add: filter_id_conv)
    let ?next = "filter (\<lambda>n. n \<notin> set visited') (map (hop outgoing) es)"
    have rest: "traverse_loop db outgoing types d ?next visited' (acc @ map edgeToDetail es) = Inr ds"
      using Suc.prems(1) f False \<open>queue \<noteq> []\<close> es by (simp add: expandLevel_def kept)
    have "set ?next - set visited' = level ?R start (Suc k)"
      using src.fetch_level_far [OF es] fs by (auto simp: graph_hops_def)
    from Suc.IH [OF rest this fs(2)]
    have ds: "set ds = set acc \<union> edgeToDetail ` set es \<union> edgeToDetail ` edges_at db table types outgoing
        (\<Union>j\<in>{Suc k..<Suc k + d}. level ?R start j)" by auto
    have "set es = edges_at db table types outgoing (level ?R start k)"
      using src.fetch_level_edges [OF es fs(1)] by (simp add: edges_at_def)
    moreover have "{k..<k + Suc d} = insert k {Suc k..<Suc k + d}" by auto
    ultimately show ?thesis unfolding ds by (simp add: edges_at_Un image_Un Un_assoc)
  qed
qed

end

lemma levels_reach: "(\<Union>j\<in>{0..<d}. level R start j) = reach_lt R start d"
  by (induction d) (simp_all add: reach_lt_Suc_level atLeast0_lessThan_Suc Un_commute)

lemma traverse_set:
  assumes "sqlite_edges db table" and "traverse db start outgoing depth types = Inr ds"
  shows "set ds = edgeToDetail ` edges_at db table types outgoing
    (reach_lt (graph_hops db table types outgoing) start (if depth \<le> 0 then 1 else nat depth))"
  using sqlite_edges.traverse_loop_set [OF assms(1), where visited = "[]" and queue = "[start]" and k = 0 and acc = "[]"]
    assms(2) by (simp add: traverse_def levels_reach [symmetric])

section \<open>Paths\<close>

definition step_of :: "edge \<Rightarrow> path_step" where
  "step_of e = \<lparr>ps_From = eg_FromRef e, ps_To = eg_ToRef e, ps_EdgeType = eg_EdgeType e,
     ps_PosFile = eg_PosFile e, ps_Repo = eg_Repo e, ps_PosLine = eg_PosLine e\<rparr>"

text \<open>A chain of steps that leads from one name to another along the edges \<open>F x\<close> leaving each name \<open>x\<close>.\<close>

fun chain :: "(string \<Rightarrow> edge set) \<Rightarrow> string \<Rightarrow> path_step list \<Rightarrow> string \<Rightarrow> bool" where
  "chain F x [] y \<longleftrightarrow> x = y"
| "chain F x (st # sts) y \<longleftrightarrow> (\<exists>e\<in>F x. st = step_of e \<and> chain F (eg_ToRef e) sts y)"

definition succs :: "(string \<Rightarrow> edge set) \<Rightarrow> (string \<times> string) set" where
  "succs F = {(x, y). \<exists>e\<in>F x. eg_ToRef e = y}"

lemma chain_append: "chain F x (ps @ qs) z \<longleftrightarrow> (\<exists>y. chain F x ps y \<and> chain F y qs z)"
  by (induction ps arbitrary: x) auto

lemma chain_snoc: "chain F x ps y \<Longrightarrow> e \<in> F y \<Longrightarrow> chain F x (ps @ [step_of e]) (eg_ToRef e)"
  by (auto simp: chain_append)

lemma chain_relpow: "chain F x ps y \<Longrightarrow> (x, y) \<in> succs F ^^ length ps"
proof (induction ps arbitrary: x)
  case (Cons st ps)
  then obtain e where "e \<in> F x" "chain F (eg_ToRef e) ps y" by auto
  with Cons.IH show ?case unfolding length_Cons by (intro relpow_Suc_I2) (auto simp: succs_def)
qed simp

lemma relpow_chain: "(x, y) \<in> succs F ^^ k \<Longrightarrow> \<exists>ps. chain F x ps y \<and> length ps = k"
proof (induction k arbitrary: y)
  case (Suc k)
  then obtain z e where z: "(x, z) \<in> succs F ^^ k" "e \<in> F z" "eg_ToRef e = y"
    by (auto elim!: relpow_Suc_E simp: succs_def)
  then show ?case using Suc.IH chain_snoc by (metis length_append_singleton)
qed auto

lemma chain_steps: "chain F x ps y \<Longrightarrow> st \<in> set ps \<Longrightarrow> \<exists>z. \<exists>e\<in>F z. st = step_of e"
  by (induction ps arbitrary: x) auto

lemma relpow_crossing:
  "(x, y) \<in> R ^^ k \<Longrightarrow> x \<in> V \<Longrightarrow> y \<notin> V \<Longrightarrow> \<exists>i<k. \<exists>u v. (x, u) \<in> R ^^ i \<and> u \<in> V \<and> (u, v) \<in> R \<and> v \<notin> V"
proof (induction k arbitrary: y)
  case (Suc k)
  then obtain z where z: "(x, z) \<in> R ^^ k" "(z, y) \<in> R" by (auto elim: relpow_Suc_E)
  show ?case
  proof (cases "z \<in> V")
    case True
    then show ?thesis using z Suc.prems by blast
  next
    case False
    then show ?thesis using Suc.IH [OF z(1) Suc.prems(2)] less_SucI by blast
  qed
qed simp

definition hop_dist :: "(string \<times> string) set \<Rightarrow> string \<Rightarrow> string \<Rightarrow> nat" where
  "hop_dist R s x = (LEAST k. (s, x) \<in> R ^^ k)"

lemma hop_dist_le: "(s, x) \<in> R ^^ k \<Longrightarrow> hop_dist R s x \<le> k"
  unfolding hop_dist_def by (rule Least_le)

lemma fold_enqueue:
  "fold (\<lambda>e q. enqueueIfUnvisited (eg_ToRef e) e path visited q) es queue =
     queue @ map (\<lambda>e. (eg_ToRef e, path @ [step_of e])) (filter (\<lambda>e. eg_ToRef e \<notin> set visited) es)"
  by (induction es arbitrary: queue) (auto simp: enqueueIfUnvisited_def step_of_def)

text \<open>
  The state of the search from \<open>s\<close> to \<open>t\<close> with depth bound \<open>D\<close>. \<open>F x\<close> is the set of edges that
  leave \<open>x\<close>.
\<close>

record search_view =
  v_F :: "string \<Rightarrow> edge set"
  v_s :: string
  v_t :: string
  v_D :: nat

definition bfs_inv :: "search_view \<Rightarrow> string list \<Rightarrow> path_node list \<Rightarrow> bool" where
  "bfs_inv G V Q \<longleftrightarrow>
     (v_s G \<in> set V \<or> V = [] \<and> Q = [(v_s G, [])])
     \<and> (\<forall>(n, p)\<in>set Q. chain (v_F G) (v_s G) p n \<and> length p \<le> v_D G)
     \<and> sorted (map (length \<circ> snd) Q)
     \<and> (\<forall>nd\<in>set Q. length (snd nd) \<le> Suc (length (snd (hd Q))))
     \<and> (\<forall>x\<in>set V. \<forall>y. (x, y) \<in> succs (v_F G) \<longrightarrow> hop_dist (succs (v_F G)) (v_s G) x < v_D G \<longrightarrow>
           y \<in> set V \<or> (\<exists>q. (y, q) \<in> set Q \<and> length q = Suc (hop_dist (succs (v_F G)) (v_s G) x)))
     \<and> (v_t G \<in> set V \<longrightarrow> v_t G = v_s G)"

lemma bfs_inv_start: "bfs_inv G [] [(v_s G, [])]"
  by (simp add: bfs_inv_def)

lemma bfs_unvisited:
  assumes "bfs_inv G V Q" and "y \<notin> set V" "(v_s G, y) \<in> succs (v_F G) ^^ k" "k \<le> v_D G"
  shows "\<exists>x q. (x, q) \<in> set Q \<and> x \<notin> set V \<and> length q \<le> k"
proof (cases "v_s G \<in> set V")
  case False
  then show ?thesis using assms(1) by (auto simp: bfs_inv_def)
next
  case True
  then obtain i u v where i: "i < k" "(v_s G, u) \<in> succs (v_F G) ^^ i" "u \<in> set V" "(u, v) \<in> succs (v_F G)" "v \<notin> set V"
    using relpow_crossing [OF assms(3)] assms(2) by blast
  have d: "hop_dist (succs (v_F G)) (v_s G) u \<le> i" using hop_dist_le [OF i(2)] .
  then have "hop_dist (succs (v_F G)) (v_s G) u < v_D G" using i(1) assms(4) by simp
  then obtain q where "(v, q) \<in> set Q" "length q = Suc (hop_dist (succs (v_F G)) (v_s G) u)"
    using assms(1) i(3-5) unfolding bfs_inv_def by blast
  then show ?thesis using i(1,5) d by (intro exI [where x = v] exI [where x = q]) simp
qed

lemma bfs_pop_shortest:
  assumes "bfs_inv G V ((n, p) # Q)" and "n \<notin> set V"
  shows "hop_dist (succs (v_F G)) (v_s G) n = length p"
proof (rule antisym)
  have c: "chain (v_F G) (v_s G) p n" "length p \<le> v_D G" using assms(1) by (auto simp: bfs_inv_def)
  have r: "(v_s G, n) \<in> succs (v_F G) ^^ length p" by (rule chain_relpow [OF c(1)])
  then show "hop_dist (succs (v_F G)) (v_s G) n \<le> length p" by (rule hop_dist_le)
  let ?d = "hop_dist (succs (v_F G)) (v_s G) n"
  have d: "(v_s G, n) \<in> succs (v_F G) ^^ ?d" unfolding hop_dist_def using r by (rule LeastI)
  have "?d \<le> v_D G" using hop_dist_le [OF r] c(2) by simp
  from bfs_unvisited [OF assms d this] obtain x q where q: "(x, q) \<in> set ((n, p) # Q)" "length q \<le> ?d" by blast
  have "length p \<le> length q" using assms(1) q(1) by (auto simp: bfs_inv_def)
  then show "length p \<le> ?d" using q(2) by simp
qed

lemma bfs_skip:
  assumes "bfs_inv G V ((n, p) # Q)" and "n \<in> set V"
  shows "bfs_inv G V Q"
  unfolding bfs_inv_def
proof (intro conjI)
  show "v_s G \<in> set V \<or> V = [] \<and> Q = [(v_s G, [])]" using assms by (auto simp: bfs_inv_def)
  show "\<forall>nd\<in>set Q. length (snd nd) \<le> Suc (length (snd (hd Q)))"
    using assms(1) by (cases Q) (auto simp: bfs_inv_def)
  show "\<forall>x\<in>set V. \<forall>y. (x, y) \<in> succs (v_F G) \<longrightarrow> hop_dist (succs (v_F G)) (v_s G) x < v_D G \<longrightarrow>
      y \<in> set V \<or> (\<exists>q. (y, q) \<in> set Q \<and> length q = Suc (hop_dist (succs (v_F G)) (v_s G) x))"
  proof (intro ballI allI impI)
    fix x y
    assume "x \<in> set V" "(x, y) \<in> succs (v_F G)" "hop_dist (succs (v_F G)) (v_s G) x < v_D G"
    then have "y \<in> set V \<or> (\<exists>q. (y, q) \<in> set ((n, p) # Q) \<and> length q = Suc (hop_dist (succs (v_F G)) (v_s G) x))"
      using assms(1) unfolding bfs_inv_def by blast
    then show "y \<in> set V \<or> (\<exists>q. (y, q) \<in> set Q \<and> length q = Suc (hop_dist (succs (v_F G)) (v_s G) x))"
      using assms(2) by auto
  qed
qed (use assms(1) in \<open>auto simp: bfs_inv_def\<close>)

lemma bfs_visit:
  assumes "bfs_inv G V ((n, p) # Q)" and "n \<notin> set V" and "n = v_t G \<longrightarrow> p = []"
    and new: "new = map (\<lambda>e. (eg_ToRef e, p @ [step_of e])) (filter (\<lambda>e. eg_ToRef e \<notin> set (n # V)) es)"
    and es: "length p < v_D G \<longrightarrow> set es = v_F G n" "length p \<ge> v_D G \<longrightarrow> es = []"
  shows "bfs_inv G (n # V) (Q @ new)"
proof -
  let ?R = "succs (v_F G)"
  have d: "hop_dist ?R (v_s G) n = length p" by (rule bfs_pop_shortest [OF assms(1,2)])
  have c: "chain (v_F G) (v_s G) p n" "length p \<le> v_D G"
    and h: "\<forall>nd\<in>set Q. length p \<le> length (snd nd) \<and> length (snd nd) \<le> Suc (length p)" "sorted (map (length \<circ> snd) Q)"
    using assms(1) by (auto simp: bfs_inv_def)
  have n: "chain (v_F G) (v_s G) q m \<and> length q = Suc (length p) \<and> length q \<le> v_D G" if "(m, q) \<in> set new" for m q
  proof -
    have "es \<noteq> []" using that new by auto
    then have l: "length p < v_D G" using es(2) by (cases "length p < v_D G") auto
    then show ?thesis using that new es(1) chain_snoc [OF c(1)] by auto
  qed
  show ?thesis
    unfolding bfs_inv_def
  proof (intro conjI)
    show "v_s G \<in> set (n # V) \<or> n # V = [] \<and> Q @ new = [(v_s G, [])]"
      using assms(1) by (auto simp: bfs_inv_def)
    show "\<forall>(m, q)\<in>set (Q @ new). chain (v_F G) (v_s G) q m \<and> length q \<le> v_D G"
      using assms(1) n by (auto simp: bfs_inv_def)
    have "sorted (map (length \<circ> snd) new)" by (simp add: new comp_def map_replicate_const)
    moreover have "\<forall>x\<in>set Q. \<forall>y\<in>set new. length (snd x) \<le> length (snd y)" using h(1) n by fastforce
    ultimately show "sorted (map (length \<circ> snd) (Q @ new))" using h(2) by (auto simp: sorted_append)
    have b: "length p \<le> length (snd nd) \<and> length (snd nd) \<le> Suc (length p)" if "nd \<in> set (Q @ new)" for nd
      using that h(1) n [of "fst nd" "snd nd"] by (cases "nd \<in> set Q") auto
    show "\<forall>nd\<in>set (Q @ new). length (snd nd) \<le> Suc (length (snd (hd (Q @ new))))"
    proof
      fix nd
      assume nd: "nd \<in> set (Q @ new)"
      then have "hd (Q @ new) \<in> set (Q @ new)" by (intro hd_in_set) auto
      from b [OF nd] b [OF this] show "length (snd nd) \<le> Suc (length (snd (hd (Q @ new))))" by simp
    qed
    show "\<forall>x\<in>set (n # V). \<forall>y. (x, y) \<in> ?R \<longrightarrow> hop_dist ?R (v_s G) x < v_D G \<longrightarrow>
        y \<in> set (n # V) \<or> (\<exists>q. (y, q) \<in> set (Q @ new) \<and> length q = Suc (hop_dist ?R (v_s G) x))"
    proof (intro ballI allI impI)
      fix x y
      assume x: "x \<in> set (n # V)" and xy: "(x, y) \<in> ?R" and lt: "hop_dist ?R (v_s G) x < v_D G"
      show "y \<in> set (n # V) \<or> (\<exists>q. (y, q) \<in> set (Q @ new) \<and> length q = Suc (hop_dist ?R (v_s G) x))"
      proof (cases "x = n")
        case True
        then obtain e where e: "e \<in> set es" "eg_ToRef e = y" using xy lt es(1) d by (auto simp: succs_def)
        show ?thesis
        proof (cases "y \<in> set (n # V)")
          case False
          then have "(y, p @ [step_of e]) \<in> set new" using e new by auto
          then show ?thesis using True d by (auto intro!: exI [where x = "p @ [step_of e]"])
        qed simp
      next
        case False
        then have "y \<in> set V \<or> (\<exists>q. (y, q) \<in> set ((n, p) # Q) \<and> length q = Suc (hop_dist ?R (v_s G) x))"
          using x xy lt assms(1) unfolding bfs_inv_def by auto
        then show ?thesis by auto
      qed
    qed
    show "v_t G \<in> set (n # V) \<longrightarrow> v_t G = v_s G"
      using assms(1,3) c(1) by (auto simp: bfs_inv_def)
  qed
qed


definition forward_set :: "store_db \<Rightarrow> edge_row list \<Rightarrow> (contract_row \<times> string) list \<Rightarrow> string \<Rightarrow> string \<Rightarrow> edge set" where
  "forward_set db table contracts repo x =
     {e. \<not> repoMismatch (eg_Repo e) repo \<and>
        (e \<in> stored_edges db table \<and> eg_FromRef e = NormalizeQualifiedName x
         \<or> (\<exists>c\<in>set contracts. e = contractToEdge c \<and> \<not> ct_Suggested (fst c) \<and> ct_FromRef (fst c) = x))}"

lemma forward_edges_set:
  assumes "sqlite_edges db table" shows "EdgesFrom db x = Inr es \<Longrightarrow> set (forward_edges x repo es contracts) = forward_set db table contracts repo x"
  by (auto simp: forward_edges_def forward_set_def sqlite_edges.EdgesFrom_set [OF assms])


definition path_outcome :: "search_view \<Rightarrow> path_step list option result \<Rightarrow> bool" where
  "path_outcome G r = (case r of
     Inl _ \<Rightarrow> False
   | Inr None \<Rightarrow> v_t G = v_s G \<or> (\<forall>k\<le>v_D G. (v_s G, v_t G) \<notin> succs (v_F G) ^^ k)
   | Inr (Some path) \<Rightarrow> chain (v_F G) (v_s G) path (v_t G) \<and> path \<noteq> [] \<and> length path \<le> v_D G
       \<and> length path = hop_dist (succs (v_F G)) (v_s G) (v_t G))"

lemma filterPathSteps_chain:
  assumes "chain (forward_set db table contracts repo) s path t"
  shows "filterPathSteps path repo = path"
proof -
  have "ps_Repo st = repo" if "st \<in> set path" "repo \<noteq> []" for st
    using chain_steps [OF assms that(1)] that(2) by (auto simp: forward_set_def repoMismatch_def step_of_def)
  then show ?thesis by (auto simp: filterPathSteps_def filter_id_conv)
qed

lemma find_path_loop_outcome:
  assumes "sqlite_edges db table" and "\<And>x. \<exists>es. EdgesFrom db x = Inr es"
    and "bfs_inv G visited queue" and "v_F G = forward_set db table contracts repo" "v_t G = to" "v_D G = maxDepth"
  shows "path_outcome G (find_path_loop db contracts repo to maxDepth visited queue)"
  using assms
proof (induction db contracts repo to maxDepth visited queue rule: find_path_loop.induct)
  case (1 db contracts repo to maxDepth visited)
  have "v_t G = v_s G" if k: "k \<le> v_D G" "(v_s G, v_t G) \<in> succs (v_F G) ^^ k" for k
  proof (cases "v_t G \<in> set visited")
    case False
    then show ?thesis using bfs_unvisited [OF 1(3) False k(2,1)] by simp
  qed (use 1(3) in \<open>auto simp: bfs_inv_def\<close>)
  then show ?case by (auto simp: path_outcome_def)
next
  case (2 db contracts repo to maxDepth visited current queue)
  obtain n p where cur: "current = (n, p)" by fastforce
  note inv = "2.prems"(3) [unfolded cur]
  note env = "2.prems"(1,2,4-6)
  show ?case
  proof (cases "n \<in> set visited")
    case True
    then show ?thesis using "2.IH"(1) [OF _ env(1,2) bfs_skip [OF inv True] env(3-5)] by (simp add: cur)
  next
    case False
    have ch: "chain (v_F G) (v_s G) p n" "length p \<le> maxDepth" using inv env(5) by (auto simp: bfs_inv_def)
    show ?thesis
    proof (cases "n = to \<and> p \<noteq> []")
      case True
      then have "filterPathSteps p repo = p" using ch(1) env(3) by (simp add: filterPathSteps_chain)
      then show ?thesis
        using True False ch bfs_pop_shortest [OF inv False] env by (simp add: cur path_outcome_def)
    next
      case nhit: False
      then have nt: "n = v_t G \<longrightarrow> p = []" using env(4) by simp
      show ?thesis
      proof (cases "maxDepth \<le> length p")
        case True
        have "bfs_inv G (n # visited) (queue @ [])"
          by (rule bfs_visit [OF inv False nt, where es = "[]"]) (use True env(5) in auto)
        then show ?thesis using "2.IH"(2) [OF _ refl _ _ env(1,2) _ env(3-5)] True False nhit by (auto simp: cur Let_def)
      next
        case depth: False
        obtain es where es: "EdgesFrom db n = Inr es" using env(2) by blast
        let ?fwd = "forward_edges n repo es contracts"
        let ?new = "map (\<lambda>e. (eg_ToRef e, p @ [step_of e])) (filter (\<lambda>e. eg_ToRef e \<notin> set (n # visited)) ?fwd)"
        have x: "expandPathNode db current repo queue (n # visited) contracts = Inr (queue @ ?new)"
          by (simp add: expandPathNode_def cur es fold_enqueue)
        have "bfs_inv G (n # visited) (queue @ ?new)"
          by (rule bfs_visit [OF inv False nt refl])
            (use depth env(3,5) forward_edges_set [OF env(1) es] in auto)
        then show ?thesis
          using "2.IH"(3) [OF _ refl _ _ _ env(1,2) _ env(3-5)] depth False nhit x
          by (auto simp: cur Let_def)
      qed
    qed
  qed
qed


lemma FindPath_outcome:
  fixes maxDepth :: int and opts :: options
  assumes "sqlite_edges db table" and "\<forall>x. \<exists>es. EdgesFrom db x = Inr es"
    and "db_contracts db = Inr contracts"
    and "requireSymbol db U from = Inr ()" "requireSymbol db U to = Inr ()"
  defines "D \<equiv> (if maxDepth \<le> 0 then 10 else nat maxDepth)"
  defines "G \<equiv> \<lparr>v_F = forward_set db table contracts (o_Repo opts), v_s = from, v_t = to, v_D = D\<rparr>"
  shows "\<exists>r. path_outcome G r \<and> FindPath db U from to maxDepth opts =
      (case r of Inl e \<Rightarrow> Inl e | Inr None \<Rightarrow> Inl (no_path_msg from to) | Inr (Some path) \<Rightarrow> Inr path)"
proof (intro exI conjI)
  let ?r = "find_path_loop db contracts (o_Repo opts) to D [] [(from, [])]"
  have G: "v_F G = forward_set db table contracts (o_Repo opts)" "v_t G = to" "v_D G = D" by (simp_all add: G_def)
  have start: "bfs_inv G [] [(from, [])]" using bfs_inv_start [of G] by (simp add: G_def)
  show "path_outcome G ?r"
    by (rule find_path_loop_outcome [OF assms(1) _ start G]) (use assms(2) in blast)
  show "FindPath db U from to maxDepth opts =
      (case ?r of Inl e \<Rightarrow> Inl e | Inr None \<Rightarrow> Inl (no_path_msg from to) | Inr (Some path) \<Rightarrow> Inr path)"
    using assms(3-5) by (simp add: FindPath_def Let_def D_def)
qed

text \<open>
  C2: \<^verbatim>\<open>FindPath\<close> between two known symbols finds a shortest path. The result is a chain of forward
  edges (calls, references, ..., and non-suggested contracts, all inside the repository scope) from
  the first name to the second, no longer than the depth bound and no longer than any other chain;
  the error is the "no path" error and occurs only when every chain is longer than the bound.
  The scope filter applied to the result removes no step.
\<close>

theorem FindPath_shortest:
  assumes "sqlite_edges db table" and "\<forall>x. \<exists>es. EdgesFrom db x = Inr es"
    and "db_contracts db = Inr contracts"
    and "requireSymbol db U from = Inr ()" "requireSymbol db U to = Inr ()" "from \<noteq> to"
  shows "let F = forward_set db table contracts (o_Repo opts); D = (if maxDepth \<le> 0 then 10 else nat maxDepth) in
    case FindPath db U from to maxDepth opts of
      Inr path \<Rightarrow> chain F from path to \<and> length path \<le> D
        \<and> (\<forall>other. chain F from other to \<longrightarrow> length path \<le> length other)
    | Inl e \<Rightarrow> e = no_path_msg from to \<and> (\<forall>other. chain F from other to \<longrightarrow> D < length other)"
proof -
  define D where "D = (if maxDepth \<le> 0 then 10 else nat maxDepth)"
  define G where "G = \<lparr>v_F = forward_set db table contracts (o_Repo opts), v_s = from, v_t = to, v_D = D\<rparr>"
  have G: "v_F G = forward_set db table contracts (o_Repo opts)" "v_t G = to" "v_D G = D" "v_s G = from"
    by (simp_all add: G_def)
  obtain r where out: "path_outcome G r" and eq: "FindPath db U from to maxDepth opts =
      (case r of Inl e \<Rightarrow> Inl e | Inr None \<Rightarrow> Inl (no_path_msg from to) | Inr (Some path) \<Rightarrow> Inr path)"
    using FindPath_outcome [OF assms(1-5)] unfolding G_def D_def by blast
  have best: "hop_dist (succs (v_F G)) from to \<le> length other" if "chain (v_F G) from other to" for other
    using hop_dist_le [OF chain_relpow [OF that]] .
  show ?thesis
    using out best assms(6) chain_relpow [of "v_F G" "from" _ to]
    unfolding eq Let_def D_def [symmetric] G(1) [symmetric] path_outcome_def G(2-4)
    by (fastforce split: sum.splits option.splits simp: not_le [symmetric])
qed

section \<open>Qualified names\<close>

definition paren_free :: "string \<Rightarrow> bool" where
  "paren_free s \<longleftrightarrow> list_all no_paren s"

lemma paren_receiver_None: "s = [] \<or> hd s \<noteq> CHR ''('' \<Longrightarrow> paren_receiver (c # s) = None"
  by (cases s) (auto simp: paren_receiver_def has_prefix_def)

lemma replace_paren_free: "paren_free s \<Longrightarrow> replace_receivers s = s"
proof (induction s)
  case (Cons c s)
  then have "paren_receiver (c # s) = None"
    by (intro paren_receiver_None) (cases s, auto simp: paren_free_def no_paren_def)
  with Cons show ?case by (simp add: paren_free_def)
qed simp

lemma replace_paren_free_append: "paren_free p \<Longrightarrow> replace_receivers (p @ ''.'' @ s) = p @ replace_receivers (''.'' @ s)"
proof (induction p)
  case (Cons c p)
  then have "paren_receiver (c # p @ ''.'' @ s) = None"
    by (intro paren_receiver_None) (cases p, auto simp: paren_free_def no_paren_def)
  with Cons show ?case by (simp add: paren_free_def)
qed simp

lemma paren_receiver_wrapped:
  assumes "paren_free T" "T \<noteq> []"
  shows "paren_receiver (''.('' @ T @ '').'' @ m) = Some (if hd T = CHR ''*'' \<and> tl T \<noteq> [] then tl T else T, m)"
proof -
  have t: "takeWhile no_paren (T @ '').'' @ m) = T" "dropWhile no_paren (T @ '').'' @ m) = '').'' @ m"
    using assms(1) by (auto simp: paren_free_def list_all_iff takeWhile_append dropWhile_append no_paren_def
        simp flip: append.append_Cons)
  then show ?thesis using assms(2) by (simp add: paren_receiver_def Let_def has_prefix_def)
qed

lemma contains_paren: "contains s ''('' \<longleftrightarrow> CHR ''('' \<in> set s"
  by (metis contains_iff append_Cons append_Nil in_set_conv_decomp)

lemma Normalize_paren_free: "paren_free s \<Longrightarrow> NormalizeQualifiedName s = s"
  by (simp add: NormalizeQualifiedName_def replace_paren_free)

text \<open>
  a receiver wrapper, with or without the pointer star, is reduced to the indexed form of the
  name, and a name in the indexed form is left alone.
\<close>

theorem NormalizeQualifiedName_receiver:
  assumes "paren_free p" "paren_free T" "paren_free m" "T \<noteq> []" "hd T \<noteq> CHR ''*''"
  shows "NormalizeQualifiedName (p @ ''.(*'' @ T @ '').'' @ m) = p @ ''.'' @ T @ ''.'' @ m
    \<and> NormalizeQualifiedName (p @ ''.('' @ T @ '').'' @ m) = p @ ''.'' @ T @ ''.'' @ m
    \<and> NormalizeQualifiedName (p @ ''.'' @ T @ ''.'' @ m) = p @ ''.'' @ T @ ''.'' @ m"
proof -
  have w: "NormalizeQualifiedName (p @ ''.('' @ T' @ '').'' @ m) = p @ ''.'' @ T @ ''.'' @ m"
    if "T' = T \<or> T' = CHR ''*'' # T" for T'
  proof -
    have T': "paren_free T'" "T' \<noteq> []" "(if hd T' = CHR ''*'' \<and> tl T' \<noteq> [] then tl T' else T') = T"
      using that assms by (auto simp: paren_free_def no_paren_def)
    have "replace_receivers (''.'' @ ''('' @ T' @ '').'' @ m) = ''.'' @ T @ ''.'' @ m"
      using paren_receiver_wrapped [OF T'(1,2), of m] T'(3) replace_paren_free [OF assms(3)] by simp
    then show ?thesis
      using replace_paren_free_append [OF assms(1), of "''('' @ T' @ '').'' @ m"]
      by (simp add: NormalizeQualifiedName_def contains_paren)
  qed
  have "paren_free (p @ ''.'' @ T @ ''.'' @ m)" using assms(1-3) by (simp add: paren_free_def no_paren_def)
  then show ?thesis using w [of T] w [of "CHR ''*'' # T"] Normalize_paren_free by simp
qed

theorem NormalizeQualifiedName_receiver_witness:
  "NormalizeQualifiedName ''p.(*T).M'' = ''p.T.M''"
  using NormalizeQualifiedName_receiver [of "''p''" "''T''" "''M''"] by (simp add: paren_free_def no_paren_def)

text \<open>
  The comment on the function calls it idempotent. Matches do not overlap, so of two adjacent
  wrappers only the first is rewritten, and a second call changes the name again.
\<close>

theorem NormalizeQualifiedName_not_idempotent:
  "NormalizeQualifiedName ''a.(b).(c).d'' = ''a.b.(c).d'' \<and> NormalizeQualifiedName ''a.b.(c).d'' = ''a.b.c.d''"
  by (simp add: NormalizeQualifiedName_def contains_paren paren_receiver_def has_prefix_def Let_def no_paren_def)

section \<open>A database held in lists\<close>

definition list_db :: "edge_row list \<Rightarrow> symbol list \<Rightarrow> (contract_row \<times> string) list \<Rightarrow> store_db" where
  "list_db rows syms contracts =
     \<lparr>db_packages = Inr [], db_modules = Inr [], db_contracts = Inr contracts, db_edges = (\<lambda>P. Inr (filter P rows)),
      db_sites = (\<lambda>_. Inr []), db_symbols = (\<lambda>P. Inr (filter P syms)), db_symbol_fts = (\<lambda>_ P. Inr (filter P syms)),
      db_fields_json = (\<lambda>_. None), db_symbol_names = Inr (map sy_Name syms), db_files = (\<lambda>_. Inr []),
      db_files_fts = (\<lambda>_ _. Inr []), db_files_try = (\<lambda>_. Inr []), db_like = (\<lambda>_ _. False),
      db_regexp = (\<lambda>_. Inl []), db_closure = (\<lambda>roots _. Inr roots)\<rparr>"

interpretation list_db: sqlite_edges "list_db rows syms contracts" rows
  for rows syms contracts
  by unfold_locales (auto simp: list_db_def)

interpretation list_syms: sqlite_symbols "list_db rows syms contracts" syms
  for rows syms contracts
  by unfold_locales (auto simp: list_db_def)

definition demo_symbol :: "string \<Rightarrow> symbol" where
  "demo_symbol qn = \<lparr>sy_QualifiedName = qn, sy_PackagePath = ''p'', sy_Name = [], sy_Kind = ''method'', sy_Receiver = [],
     sy_Signature = [], sy_Doc = [], sy_PosFile = [], sy_Repo = [], sy_Fields = [], sy_PosLine = 1, sy_Complexity = 0,
     sy_ChurnCount = 0, sy_Importance = 0, sy_Exported = True, sy_IsTest = False, sy_IsGenerated = False\<rparr>"

definition demo_row :: "string \<Rightarrow> string \<Rightarrow> string \<Rightarrow> edge_row" where
  "demo_row a b t = \<lparr>ew_from = a, ew_to = b, ew_type = t, ew_file = [], ew_line = 1, ew_sites = None, ew_module = None\<rparr>"

definition demo_db :: store_db where
  "demo_db = list_db [demo_row ''p.F'' ''p.T.M'' ''calls''] [demo_symbol ''p.F'', demo_symbol ''p.T.M''] []"

definition demo_options :: options where
  "demo_options = \<lparr>o_Exported = None, o_Kind = [], o_Package = [], o_File = [], o_Repo = [], o_Generated = [],
     o_EdgeTypes = [], o_Depth = 0, o_IncludeTests = False, o_IncludeUnexported = False, o_IncludeFields = False,
     o_IncludeSymbols = False\<rparr>"

lemma demo_edge: "scan_edge u (demo_row a b t) = Inr \<lparr>eg_FromRef = a, eg_ToRef = b, eg_EdgeType = t, eg_PosFile = [],
    eg_Repo = [], eg_Sites = [], eg_PosLine = 1, eg_SiteCount = 0\<rparr>"
  by (simp add: scan_edge_def demo_row_def)

lemma demo_columns [simp]: "ew_from (demo_row a b t) = a" "ew_to (demo_row a b t) = b" "ew_type (demo_row a b t) = t"
  by (simp_all add: demo_row_def)

lemma demo_EdgesFrom: "EdgesFrom demo_db x = Inr (if NormalizeQualifiedName x = ''p.F''
    then [\<lparr>eg_FromRef = ''p.F'', eg_ToRef = ''p.T.M'', eg_EdgeType = ''calls'', eg_PosFile = [],
      eg_Repo = [], eg_Sites = [], eg_PosLine = 1, eg_SiteCount = 0\<rparr>] else [])"
  by (simp add: EdgesFrom_def queryEdges_def demo_db_def list_db_def scanEdges_def demo_edge)

lemma demo_names:
  "NormalizeQualifiedName ''p.F'' = ''p.F''" "NormalizeQualifiedName ''p.T.M'' = ''p.T.M''"
  "NormalizeQualifiedName ''p.(*T).M'' = ''p.T.M''"
  by (simp_all add: NormalizeQualifiedName_def contains_paren paren_receiver_def has_prefix_def Let_def no_paren_def)

lemma demo_found:
  "requireSymbol demo_db ascii_tables ''p.F'' = Inr ()" "requireSymbol demo_db ascii_tables ''p.T.M'' = Inr ()"
  "requireSymbol demo_db ascii_tables ''p.(*T).M'' = Inr ()"
  by (simp_all add: requireSymbol_def SymbolByName_def demo_db_def list_db_def demo_names demo_symbol_def)

lemma demo_contracts: "db_contracts demo_db = Inr []"
  by (simp add: demo_db_def list_db_def)

theorem FindPath_shortest_witness:
  "\<exists>path. FindPath demo_db ascii_tables ''p.F'' ''p.T.M'' 0 demo_options = Inr path \<and> length path \<le> 1"
proof -
  let ?F = "forward_set demo_db [demo_row ''p.F'' ''p.T.M'' ''calls''] [] []"
  have sq: "sqlite_edges demo_db [demo_row ''p.F'' ''p.T.M'' ''calls'']"
    unfolding demo_db_def by (rule list_db.sqlite_edges_axioms)
  obtain st where st: "chain ?F ''p.F'' [st] ''p.T.M''"
    by (simp add: forward_set_def stored_edges_def demo_edge demo_names repoMismatch_def)
  have "\<forall>x. \<exists>es. EdgesFrom demo_db x = Inr es" by (simp add: demo_EdgesFrom)
  then have "case FindPath demo_db ascii_tables ''p.F'' ''p.T.M'' 0 demo_options of
      Inr path \<Rightarrow> length path \<le> length [st] | Inl e \<Rightarrow> 10 < length [st]"
    using FindPath_shortest [OF sq _ demo_contracts demo_found(1,2), where opts = demo_options and maxDepth = 0] st
    by (auto simp: Let_def demo_options_def simp del: chain.simps split: sum.splits)
  then show ?thesis by (auto split: sum.splits)
qed

text \<open>
  a name that no edge ends in is never reached, although \<^verbatim>\<open>requireSymbol\<close> accepts it. Lookups
  normalise the target and the loop compares it as it was given, so a method target in receiver form
  (\<^verbatim>\<open>p.(*T).M\<close>) is answered with "no path" where its indexed form has one.
\<close>

theorem FindPath_wrapped_target:
  assumes "sqlite_edges db table" and "\<forall>x. \<exists>es. EdgesFrom db x = Inr es"
    and "db_contracts db = Inr contracts"
    and "requireSymbol db U from = Inr ()" "requireSymbol db U to = Inr ()" "from \<noteq> to"
    and "\<forall>x. \<forall>e\<in>forward_set db table contracts (o_Repo opts) x. eg_ToRef e \<noteq> to"
  shows "FindPath db U from to maxDepth opts = Inl (no_path_msg from to)"
proof -
  have "\<not> chain (forward_set db table contracts (o_Repo opts)) x ps to" if "x \<noteq> to" for x ps
    using that assms(7) by (induction ps arbitrary: x) auto
  then have none: "\<not> chain (forward_set db table contracts (o_Repo opts)) from path to" for path
    using assms(6) by blast
  obtain r where "path_outcome \<lparr>v_F = forward_set db table contracts (o_Repo opts), v_s = from, v_t = to,
        v_D = (if maxDepth \<le> 0 then 10 else nat maxDepth)\<rparr> r"
    and eq: "FindPath db U from to maxDepth opts =
      (case r of Inl e \<Rightarrow> Inl e | Inr None \<Rightarrow> Inl (no_path_msg from to) | Inr (Some path) \<Rightarrow> Inr path)"
    using FindPath_outcome [OF assms(1-5), where maxDepth = maxDepth and opts = opts] by blast
  then have "r = Inr None" using none by (cases r) (auto simp: path_outcome_def split: option.splits)
  with eq show ?thesis by simp
qed

theorem FindPath_wrapped_target_witness:
  "FindPath demo_db ascii_tables ''p.F'' ''p.(*T).M'' 0 demo_options = Inl ''no path found from p.F to p.(*T).M''
    \<and> NormalizeQualifiedName ''p.(*T).M'' = ''p.T.M''"
proof
  have sq: "sqlite_edges demo_db [demo_row ''p.F'' ''p.T.M'' ''calls'']"
    unfolding demo_db_def by (rule list_db.sqlite_edges_axioms)
  have "\<forall>x. \<exists>es. EdgesFrom demo_db x = Inr es" by (simp add: demo_EdgesFrom)
  from FindPath_wrapped_target [OF sq this demo_contracts demo_found(1,3), where opts = demo_options and maxDepth = 0]
  show "FindPath demo_db ascii_tables ''p.F'' ''p.(*T).M'' 0 demo_options = Inl ''no path found from p.F to p.(*T).M''"
    by (simp add: forward_set_def stored_edges_def demo_edge no_path_msg_def)
qed (simp add: demo_names)

section \<open>Import walks\<close>

definition targets :: "edge list \<Rightarrow> edge list" where
  "targets es = filter (\<lambda>e. eg_ToRef e \<noteq> []) es"

lemma fold_frontier_step:
  "fold (frontier_step (\<lambda>(e :: edge) _. eg_ToRef e)) es (queue, visited, out) =
     (let new = dedup_by (\<lambda>r. r) visited (map eg_ToRef (targets es))
      in (queue @ new, rev new @ visited, out @ targets es))"
proof (induction es arbitrary: queue visited out)
  case (Cons e es)
  have "set (eg_ToRef e # visited) = insert (eg_ToRef e) (set visited)" by simp
  then show ?case using Cons by (simp add: frontier_step_def targets_def Let_def)
qed (simp add: targets_def)

definition import_succs :: "(string, edge list) gomap \<Rightarrow> (string \<times> string) set" where
  "import_succs adj = {(x, y). \<exists>e\<in>set (targets (gm_get [] adj x)). eg_ToRef e = y}"

lemma frontier_loop_spec:
  assumes "distinct (popped @ queue)" "set visited = set (popped @ queue)"
    and "out = concat (map (\<lambda>k. targets (gm_get [] adj k)) popped)"
    and "import_succs adj `` set popped \<subseteq> set visited"
    and "set visited \<subseteq> (import_succs adj)\<^sup>* `` {start}" "start \<in> set visited"
  shows "\<exists>order. distinct order \<and> set order = (import_succs adj)\<^sup>* `` {start}
    \<and> frontier_loop adj (\<lambda>(e :: edge) _. eg_ToRef e) queue visited out = concat (map (\<lambda>k. targets (gm_get [] adj k)) order)"
  using assms
proof (induction adj "\<lambda>(e :: edge) (_ :: string list). eg_ToRef e" queue visited out arbitrary: popped rule: frontier_loop.induct)
  case (1 adj visited out)
  have "(import_succs adj)\<^sup>* `` {start} \<subseteq> set popped"
  proof
    fix y
    assume "y \<in> (import_succs adj)\<^sup>* `` {start}"
    then have "(start, y) \<in> (import_succs adj)\<^sup>*" by simp
    then show "y \<in> set popped" by (induction rule: rtrancl_induct) (use 1 in auto)
  qed
  with 1 show ?case by (intro exI [where x = popped]) auto
next
  case (2 adj current queue visited out)
  let ?es = "gm_get [] adj current" and ?R = "import_succs adj"
  let ?new = "dedup_by (\<lambda>r. r) visited (map eg_ToRef (targets ?es))"
  have new: "set ?new = ?R `` {current} - set visited" "distinct ?new"
    using dedup_by_keys [of "\<lambda>r. r" visited "map eg_ToRef (targets ?es)"]
      dedup_by_distinct [of "\<lambda>r. r" visited "map eg_ToRef (targets ?es)"]
    by (auto simp: import_succs_def)
  have "current \<in> ?R\<^sup>* `` {start}" using 2(3,6) by auto
  then have r: "?R `` {current} \<subseteq> ?R\<^sup>* `` {start}" by (auto intro: rtrancl_into_rtrancl)
  have "\<exists>order. distinct order \<and> set order = ?R\<^sup>* `` {start}
    \<and> frontier_loop adj (\<lambda>(e :: edge) _. eg_ToRef e) (queue @ ?new) (rev ?new @ visited) (out @ targets ?es)
       = concat (map (\<lambda>k. targets (gm_get [] adj k)) order)"
  proof (rule "2.hyps" [where popped = "popped @ [current]"])
    show "distinct ((popped @ [current]) @ queue @ ?new)" using 2(2,3) new by auto
    show "?R `` set (popped @ [current]) \<subseteq> set (rev ?new @ visited)" using 2(5) new(1) by auto
    show "set (rev ?new @ visited) \<subseteq> ?R\<^sup>* `` {start}" using 2(6) new(1) r by auto
  qed (use 2(3,4,7) in \<open>auto simp: fold_frontier_step Let_def\<close>)
  then show ?case by (simp add: fold_frontier_step Let_def)
qed

lemma concat_group_filter:
  assumes "distinct ks"
  shows "mset (concat (map (\<lambda>k. filter (\<lambda>e. P e \<and> f e = k) xs) ks)) = filter_mset (\<lambda>e. P e \<and> f e \<in> set ks) (mset xs)"
  using assms
proof (induction ks)
  case (Cons k ks)
  have "filter_mset (\<lambda>e. P e \<and> f e \<in> set (k # ks)) (mset xs)
      = filter_mset (\<lambda>e. P e \<and> f e = k) (mset xs) + filter_mset (\<lambda>e. P e \<and> f e \<in> set ks) (mset xs)"
    using Cons.prems by (induction xs) auto
  with Cons show ?case by simp
qed simp

definition import_hops :: "edge list \<Rightarrow> (string \<times> string) set" where
  "import_hops edges = {(eg_FromRef e, eg_ToRef e) |e. e \<in> set edges \<and> eg_EdgeType e = edgeTypeImports \<and> eg_ToRef e \<noteq> []}"

lemma BuildImportAdjacency_get:
  "gm_get [] (BuildImportAdjacency edges) k = filter (\<lambda>e. eg_EdgeType e = edgeTypeImports \<and> eg_FromRef e = k) edges"
  by (simp add: BuildImportAdjacency_def group_by_get conj_commute)

lemma import_succs_hops: "import_succs (BuildImportAdjacency edges) = import_hops edges"
  by (auto simp: import_succs_def import_hops_def BuildImportAdjacency_get targets_def)

lemma ImportFrontierBFS_edges:
  "mset (ImportFrontierBFS (BuildImportAdjacency edges) start (\<lambda>(e :: edge) _. eg_ToRef e)) =
     filter_mset (\<lambda>e. eg_EdgeType e = edgeTypeImports \<and> eg_ToRef e \<noteq> []
       \<and> (start, eg_FromRef e) \<in> (import_hops edges)\<^sup>*) (mset edges)"
proof (cases "gm_has (BuildImportAdjacency edges) start")
  case True
  let ?adj = "BuildImportAdjacency edges"
  obtain order where o: "distinct order" "set order = (import_hops edges)\<^sup>* `` {start}"
    "ImportFrontierBFS ?adj start (\<lambda>(e :: edge) _. eg_ToRef e) = concat (map (\<lambda>k. targets (gm_get [] ?adj k)) order)"
    using frontier_loop_spec [of "[]" "[start]" "[start]" "[]" ?adj start] True
    by (auto simp: ImportFrontierBFS_def import_succs_hops)
  have t: "targets (gm_get [] ?adj k)
      = filter (\<lambda>e. (eg_EdgeType e = edgeTypeImports \<and> eg_ToRef e \<noteq> []) \<and> eg_FromRef e = k) edges" for k
    by (auto simp: BuildImportAdjacency_get targets_def intro: filter_cong)
  show ?thesis
    unfolding o(3) t concat_group_filter [OF o(1)] using o(2) by (auto intro: filter_mset_cong)
next
  case False
  then have n: "eg_FromRef e \<noteq> start" if "e \<in> set edges" "eg_EdgeType e = edgeTypeImports" for e
    using that by (force simp: gm_has_iff BuildImportAdjacency_def group_by_keys)
  have "x = start" if "(start, x) \<in> (import_hops edges)\<^sup>*" for x
    using that by (cases rule: converse_rtranclE) (auto simp: import_hops_def dest: n)
  then have "filter_mset (\<lambda>e. eg_EdgeType e = edgeTypeImports \<and> eg_ToRef e \<noteq> []
       \<and> (start, eg_FromRef e) \<in> (import_hops edges)\<^sup>*) (mset edges) = {#}"
    by (auto dest: n)
  with False show ?thesis by (simp add: ImportFrontierBFS_def)
qed

text \<open>
  the transitive imports of a package are exactly the import edges that leave a package
  reachable from it, each as often as the table has it: the walk visits every edge once.
\<close>

theorem TransitiveImports_edges:
  assumes "EdgesByType db edgeTypeImports = Inr edges"
  shows "\<exists>out. TransitiveImports db start = Inr out \<and>
    mset out = filter_mset (\<lambda>e. eg_EdgeType e = edgeTypeImports \<and> eg_ToRef e \<noteq> []
       \<and> (start, eg_FromRef e) \<in> (import_hops edges)\<^sup>*) (mset edges)"
  using assms by (simp add: TransitiveImports_def ImportFrontierBFS_edges)

lemma EdgesForNodes_total:
  assumes "\<forall>P. \<exists>es. queryEdges db P = Inr es"
  shows "\<exists>es. EdgesForNodes db refs types outgoing = Inr es"
  unfolding EdgesForNodes_def edgesForNodes_def using assms by (auto intro!: concat_r_total)

lemma traverse_loop_total:
  assumes "\<forall>P. \<exists>es. queryEdges db P = Inr es"
  shows "\<exists>ds. traverse_loop db outgoing types d queue visited acc = Inr ds"
proof (induction d arbitrary: queue visited acc)
  case (Suc d)
  obtain frontier visited' where f: "frontierNodes queue visited = (frontier, visited')" by fastforce
  obtain es where "EdgesForNodes db frontier types outgoing = Inr es" using EdgesForNodes_total [OF assms] by blast
  then show ?case using Suc f by (auto split: prod.splits)
qed simp

text \<open>
  on a store that answers its queries a traversal of depth \<open>d\<close> succeeds and returns exactly the
  stored edges of the allowed types that touch, on the near side, a name fewer than \<open>d\<close> hops from
  the start. The batched query per level loses nothing and adds nothing.
\<close>

theorem traverse_levels:
  assumes "sqlite_edges db table" and "\<forall>P. \<exists>es. queryEdges db P = Inr es"
  shows "\<exists>ds. traverse db start outgoing depth types = Inr ds \<and>
    set ds = edgeToDetail ` edges_at db table types outgoing
      (reach_lt (graph_hops db table types outgoing) start (if depth \<le> 0 then 1 else nat depth))"
proof -
  obtain ds where "traverse db start outgoing depth types = Inr ds"
    using traverse_loop_total [OF assms(2)] unfolding traverse_def by blast
  with traverse_set [OF assms(1) this] show ?thesis by blast
qed

theorem traverse_levels_witness:
  "\<exists>ds. traverse demo_db ''p.T.M'' False 1 [''calls''] = Inr ds \<and> d_FromRef ` set ds = {''p.F''}"
proof -
  have sq: "sqlite_edges demo_db [demo_row ''p.F'' ''p.T.M'' ''calls'']"
    unfolding demo_db_def by (rule list_db.sqlite_edges_axioms)
  have "\<exists>es. queryEdges demo_db P = Inr es" for P
    by (simp add: queryEdges_def demo_db_def list_db_def scanEdges_def demo_edge)
  then obtain ds where ds: "traverse demo_db ''p.T.M'' False 1 [''calls''] = Inr ds"
    "set ds = edgeToDetail ` edges_at demo_db [demo_row ''p.F'' ''p.T.M'' ''calls''] [''calls''] False {''p.T.M''}"
    using traverse_levels [OF sq, of "''p.T.M''" False 1 "[''calls'']"] by auto
  have "edges_at demo_db [demo_row ''p.F'' ''p.T.M'' ''calls''] [''calls''] False {''p.T.M''}
      = {\<lparr>eg_FromRef = ''p.F'', eg_ToRef = ''p.T.M'', eg_EdgeType = ''calls'', eg_PosFile = [],
      eg_Repo = [], eg_Sites = [], eg_PosLine = 1, eg_SiteCount = 0\<rparr>}"
    by (auto simp: edges_at_def allowed_edges_def stored_edges_def demo_edge demo_names edge_near_def edgeTypeAllowed_def)
  then show ?thesis using ds by (simp add: edgeToDetail_def)
qed

theorem TransitiveImports_edges_witness:
  "\<exists>out. TransitiveImports (list_db [demo_row ''a'' ''b'' ''imports''] [] []) ''a'' = Inr out \<and> length out = 1"
proof -
  have e: "EdgesByType (list_db [demo_row ''a'' ''b'' ''imports''] [] []) edgeTypeImports
    = Inr [\<lparr>eg_FromRef = ''a'', eg_ToRef = ''b'', eg_EdgeType = ''imports'', eg_PosFile = [],
        eg_Repo = [], eg_Sites = [], eg_PosLine = 1, eg_SiteCount = 0\<rparr>]"
    by (simp add: EdgesByType_def queryEdges_def list_db_def scanEdges_def demo_edge edgeTypeImports_def)
  from TransitiveImports_edges [OF e, of "''a''"] obtain out where
    o: "TransitiveImports (list_db [demo_row ''a'' ''b'' ''imports''] [] []) ''a'' = Inr out" "size (mset out) = 1"
    by (auto simp: edgeTypeImports_def)
  then show ?thesis by auto
qed

end
