(* ===== verification/Search_Proofs.thy ===== *)
theory Search_Proofs
  imports Search Fuse_Window Fuse_Rank Graph_Proofs
begin

text \<open>
  Text search, proved. The FTS5 expression of a pattern is read back by a reader of the engine's string
  syntax; what a retrieval strategy returns are lines of indexed files (locale \<open>sqlite_files\<close>), which fusion
  and reranking keep as they are.
\<close>

section \<open>Reading an FTS5 expression back\<close>

text \<open>
  The strings of the FTS5 query language: a string is quoted, a quote inside it is doubled. Everything
  outside strings other than a space is an operator character. \<open>None\<close> is a string without its closing quote.
\<close>

datatype fts_token = Phrase string | Op char

fun fts_read :: "string option \<Rightarrow> string \<Rightarrow> fts_token list option" where
  "fts_read None [] = Some []"
| "fts_read (Some b) [] = None"
| "fts_read None (c # s) =
     (if c = dquote then fts_read (Some []) s
      else if c = CHR '' '' then fts_read None s
      else map_option ((#) (Op c)) (fts_read None s))"
| "fts_read (Some b) [c] = (if c = dquote then Some [Phrase b] else None)"
| "fts_read (Some b) (c # d # s) =
     (if c \<noteq> dquote then fts_read (Some (b @ [c])) (d # s)
      else if d = dquote then fts_read (Some (b @ [dquote])) s
      else map_option ((#) (Phrase b)) (fts_read None (d # s)))"

abbreviation doubled :: "string \<Rightarrow> string" where
  "doubled \<equiv> replace_byte dquote [dquote, dquote]"

lemma doubled_Cons: "doubled (c # t) = (if c = dquote then [dquote, dquote] else [c]) @ doubled t"
  by (simp add: replace_byte_def)

lemma doubled_Nil [simp]: "doubled [] = []"
  by (simp add: replace_byte_def)

lemma fts_read_string:
  assumes "rest = [] \<or> hd rest \<noteq> dquote"
  shows "fts_read (Some b) (doubled t @ dquote # rest) = map_option ((#) (Phrase (b @ t))) (fts_read None rest)"
proof (induction t arbitrary: b)
  case Nil
  then show ?case using assms by (cases rest) auto
next
  case (Cons c t)
  then show ?case by (cases "doubled t @ dquote # rest") (auto simp: doubled_Cons)
qed

lemma fts_read_phrase:
  assumes "rest = [] \<or> hd rest \<noteq> dquote"
  shows "fts_read None (fts_phrase (doubled t) @ rest) = map_option ((#) (Phrase t)) (fts_read None rest)"
  using fts_read_string [OF assms, of "[]" t] by (simp add: fts_phrase_def)

lemma fts_read_phrases:
  assumes "rest = [] \<or> hd rest \<noteq> dquote" "ts \<noteq> []"
  shows "fts_read None (str_join '' '' (map (\<lambda>t. fts_phrase (doubled t)) ts) @ rest) =
     map_option ((@) (map Phrase ts)) (fts_read None rest)"
  using assms(2)
proof (induction ts rule: induct_list012)
  case (2 t)
  then show ?case using fts_read_phrase [OF assms(1), of t] by (cases "fts_read None rest") simp_all
next
  case (3 t u ts)
  let ?tail = "str_join '' '' (map (\<lambda>t. fts_phrase (doubled t)) (u # ts)) @ rest"
  have "fts_read None (fts_phrase (doubled t) @ '' '' @ ?tail) = map_option ((#) (Phrase t)) (fts_read None ('' '' @ ?tail))"
    by (rule fts_read_phrase) (simp add: dquote_def)
  then show ?case using 3 by (cases "fts_read None rest") (auto simp: dquote_def)
qed simp

text \<open>What an alternative should be read as: its phrases, in parentheses when there is more than one.\<close>

definition alternative_tokens :: "string list \<Rightarrow> fts_token list" where
  "alternative_tokens ts = (if 1 < length ts then Op CHR ''('' # map Phrase ts @ [Op CHR '')''] else map Phrase ts)"

fun or_tokens :: "fts_token list list \<Rightarrow> fts_token list" where
  "or_tokens [] = []"
| "or_tokens [g] = g"
| "or_tokens (g # h # gs) = g @ [Op CHR ''O'', Op CHR ''R''] @ or_tokens (h # gs)"

lemma fts_read_group:
  assumes "rest = [] \<or> hd rest \<noteq> dquote" "ts \<noteq> []"
  shows "fts_read None (alternative_group (map (\<lambda>t. fts_phrase (doubled t)) ts) @ rest) =
     map_option ((@) (alternative_tokens ts)) (fts_read None rest)"
proof (cases "1 < length ts")
  case True
  have "fts_read None ('')'' @ rest) = map_option ((#) (Op CHR '')'')) (fts_read None rest)" by (simp add: dquote_def)
  then have "fts_read None (str_join '' '' (map (\<lambda>t. fts_phrase (doubled t)) ts) @ '')'' @ rest) =
      map_option ((@) (map Phrase ts @ [Op CHR '')''])) (fts_read None rest)"
    using fts_read_phrases [of "'')'' @ rest" ts] assms(2) by (cases "fts_read None rest") (simp_all add: dquote_def)
  then show ?thesis using True
    by (cases "fts_read None rest") (simp_all add: alternative_group_def alternative_tokens_def dquote_def)
next
  case False
  then show ?thesis using fts_read_phrases [OF assms] by (simp add: alternative_group_def alternative_tokens_def)
qed

lemma fts_read_groups:
  "\<forall>ts\<in>set gs. ts \<noteq> [] \<Longrightarrow>
     fts_read None (str_join '' OR '' (map (\<lambda>ts. alternative_group (map (\<lambda>t. fts_phrase (doubled t)) ts)) gs)) =
     Some (or_tokens (map alternative_tokens gs))"
proof (induction gs rule: induct_list012)
  case (2 ts)
  then show ?case using fts_read_group [of "[]" ts] by simp
next
  case (3 ts us gs)
  let ?tail = "str_join '' OR '' (map (\<lambda>ts. alternative_group (map (\<lambda>t. fts_phrase (doubled t)) ts)) (us # gs))"
  have "fts_read None (alternative_group (map (\<lambda>t. fts_phrase (doubled t)) ts) @ '' OR '' @ ?tail) =
      map_option ((@) (alternative_tokens ts)) (fts_read None ('' OR '' @ ?tail))"
    by (rule fts_read_group) (use 3 in \<open>simp_all add: dquote_def\<close>)
  then show ?case using 3 by (simp add: dquote_def)
qed simp

text \<open>The words of the alternatives that survive the punctuation filter.\<close>

definition search_terms :: "unidata \<Rightarrow> string \<Rightarrow> string list list" where
  "search_terms U pattern =
     filter (\<lambda>ts. ts \<noteq> []) (map (\<lambda>alt. filter (\<lambda>t. \<not> isPunctuationOnly U (doubled t)) (str_fields alt))
       (SplitAlternatives U (trim_space pattern)))"

text \<open>
  the expression \<^verbatim>\<open>sanitizeFTSQuery\<close> hands to the engine reads back as exactly the words of
  the pattern, each one string however many quotes or operator characters it contains; the only operators
  are the parentheses around the words of an alternative and the \<^verbatim>\<open>OR\<close> between alternatives.
\<close>

theorem sanitizeFTSQuery_reads_back:
  "fts_read None (sanitizeFTSQuery U pattern) = Some (or_tokens (map alternative_tokens (search_terms U pattern)))"
proof -
  have q: "quoted_terms U alt = map (\<lambda>t. fts_phrase (doubled t)) (filter (\<lambda>t. \<not> isPunctuationOnly U (doubled t)) (str_fields alt))" for alt
    by (simp add: quoted_terms_def filter_map comp_def)
  have g: "map alternative_group (filter (\<lambda>q. q \<noteq> []) (map (quoted_terms U) alts)) =
      map (\<lambda>ts. alternative_group (map (\<lambda>t. fts_phrase (doubled t)) ts))
        (filter (\<lambda>ts. ts \<noteq> []) (map (\<lambda>alt. filter (\<lambda>t. \<not> isPunctuationOnly U (doubled t)) (str_fields alt)) alts))" for alts
    by (induction alts) (simp_all add: q)
  have e: "search_terms U pattern = []" if "trim_space pattern = []"
  proof -
    have "trim_space [] = []" by (simp add: trim_space_def trim_left_space.simps trim_right_space.simps)
    then show ?thesis by (simp add: search_terms_def that SplitAlternatives_def)
  qed
  show ?thesis
  proof (cases "trim_space pattern = []")
    case True
    then show ?thesis by (simp add: sanitizeFTSQuery_def e)
  next
    case False
    then show ?thesis
      using fts_read_groups [of "search_terms U pattern"]
      by (simp add: sanitizeFTSQuery_def Let_def g search_terms_def)
  qed
qed

section \<open>What fusion keeps of a match\<close>

definition place :: "candidate \<Rightarrow> string \<times> int \<times> string \<times> string \<times> string" where
  "place c = (c_FilePath c, c_LineNumber c, c_Line c, c_ContextBefore c, c_ContextAfter c)"

lemma place_updates [simp]:
  "place (c\<lparr>c_Sources := s\<rparr>) = place c" "place (c\<lparr>c_Score := x\<rparr>) = place c" "place (boost w c) = place c"
  by (simp_all add: place_def boost_def Let_def)

lemma gm_put_values: "snd ` set (gm_put k v m) \<subseteq> insert v (snd ` set m)"
  unfolding gm_put_def by (induction m) auto

lemma fuse_add_places:
  "\<forall>d\<in>snd ` set (snd st). place d \<in> P \<Longrightarrow> \<forall>c\<in>set cs. place c \<in> P \<Longrightarrow> gm_wf (snd st) \<Longrightarrow>
     gm_wf (snd (fuse_add k idx i seen cs st)) \<and> (\<forall>d\<in>snd ` set (snd (fuse_add k idx i seen cs st)). place d \<in> P)"
proof (induction k idx i seen cs st rule: fuse_add.induct)
  case (2 k idx i seen c cs scores firsts)
  show ?case
  proof (cases "cand_key c \<in> set seen")
    case True
    then show ?thesis using 2 by (simp add: Let_def)
  next
    case False
    define cur where "cur = (case map_of firsts (cand_key c) of None \<Rightarrow> c | Some d \<Rightarrow> d)"
    define firsts' where "firsts' = gm_put (cand_key c) (cur\<lparr>c_Sources := c_Sources cur @ [idx]\<rparr>) firsts"
    have "place cur \<in> P"
    proof (cases "map_of firsts (cand_key c)")
      case (Some d)
      then have "(cand_key c, d) \<in> set firsts" by (rule map_of_SomeD)
      then show ?thesis using 2(3) Some by (force simp: cur_def)
    qed (use 2(4) in \<open>simp add: cur_def\<close>)
    have vals: "snd ` set firsts' \<subseteq> insert (cur\<lparr>c_Sources := c_Sources cur @ [idx]\<rparr>) (snd ` set firsts)"
      unfolding firsts'_def by (rule gm_put_values)
    have fs: "\<forall>d\<in>snd ` set firsts'. place d \<in> P"
    proof
      fix d
      assume "d \<in> snd ` set firsts'"
      then consider "d = cur\<lparr>c_Sources := c_Sources cur @ [idx]\<rparr>" | "d \<in> snd ` set firsts" using vals by blast
      then show "place d \<in> P"
        by cases (use \<open>place cur \<in> P\<close> 2(3) in auto)
    qed
    have wf: "gm_wf firsts'" using 2(5) by (simp add: firsts'_def)
    have step: "fuse_add k idx i seen (c # cs) (scores, firsts) = fuse_add k idx (Suc i) (cand_key c # seen) cs
        (gm_put (cand_key c) (f_add (gm_get 0 scores (cand_key c)) (f_div 1 (f_add k (f_of_int (int i + 1))))) scores, firsts')"
      using False by (simp add: Let_def cur_def firsts'_def)
    show ?thesis
      unfolding step
    proof (rule 2(2) [OF refl False refl cur_def firsts'_def])
      show "\<forall>c\<in>set cs. place c \<in> P" using 2(4) by simp
    qed (unfold snd_conv, rule fs, rule wf)
  qed
qed simp

lemma Fuse_places:
  assumes "c \<in> set (Fuse a b k)"
  shows "\<exists>d\<in>set a \<union> set b. place d = place c"
proof -
  let ?P = "place ` (set a \<union> set b)"
  obtain p where p: "p \<in> set (snd (fuse_run a b k))" "c = with_score (fst (fuse_run a b k)) p"
    using assms by (auto simp: set_Fuse)
  define st where "st = fuse_add (eff_k k) 0 0 [] a ([], [])"
  have st: "gm_wf (snd st) \<and> (\<forall>d\<in>snd ` set (snd st). place d \<in> ?P)"
    unfolding st_def by (rule fuse_add_places) auto
  have "\<forall>d\<in>snd ` set (snd (fuse_run a b k)). place d \<in> ?P"
    unfolding fuse_run_def st_def [symmetric] by (rule conjunct2, rule fuse_add_places) (use st in auto)
  then have "place (snd p) \<in> ?P" using p(1) by blast
  then show ?thesis using p(2) by (auto simp: with_score_def)
qed


lemma Rerank_places:
  "\<exists>out. RerankByAlternatives U results alternatives = Some out \<and> place ` set out = place ` set results"
  unfolding Rerank_eq by (auto simp: image_image)

section \<open>Matches are lines of indexed files\<close>

locale sqlite_files =
  fixes db :: store_db and files :: "(string \<times> string) list"
  assumes file_rows: "db_files db P = Inr rows \<Longrightarrow> mset rows = filter_mset P (mset files)"
    and fts_rows: "db_files_fts db q P = Inr rows \<Longrightarrow> set rows \<subseteq> {f \<in> set files. P f}"
begin

lemma file_rows_set: "db_files db P = Inr rows \<Longrightarrow> set rows = {f \<in> set files. P f}"
  using arg_cong [OF file_rows, of P rows set_mset] by (simp only: set_mset_mset set_mset_filter)

end

text \<open>The match is a line of an indexed file that passes the file filter, and a word of the pattern is in it.\<close>

definition real_match :: "store_db \<Rightarrow> unidata \<Rightarrow> (string \<times> string) list \<Rightarrow> string \<Rightarrow> string \<Rightarrow> string \<times> int \<times> string \<Rightarrow> bool" where
  "real_match db U files pattern filePattern = (\<lambda>(path, n, line).
     path_filter db filePattern path
     \<and> (literalLineMatcher U pattern line
        \<or> substringLineMatcher U (substringAlternatives U (substringAlternativesTerms U pattern)) line)
     \<and> (\<exists>content i. (path, content) \<in> set files \<and> i < length (split_char newline content)
          \<and> n = int i + 1 \<and> line = split_char newline content ! i))"

definition spot :: "file_match \<Rightarrow> string \<times> int \<times> string" where
  "spot m = (fm_FilePath m, fm_LineNumber m, fm_Line m)"

lemma extract_spots:
  assumes "m \<in> set (extractMatchesFunc path content accept ctx)"
  shows "\<exists>i. i < length (split_char newline content) \<and> accept (split_char newline content ! i)
    \<and> spot m = (path, int i + 1, split_char newline content ! i)"
  using assms by (auto simp: extractMatchesFunc_def match_at_def spot_def Let_def)

lemma set_cap_at: "set (cap_at limit xs) \<subseteq> set xs"
  by (auto simp: cap_at_def dest: in_set_takeD)

context sqlite_files
begin

lemma FileMatchesFTS_real:
  assumes "FileMatchesFTS db U pattern filePattern limit ctx = Inr ms" "m \<in> set ms"
  shows "real_match db U files pattern filePattern (spot m)"
proof -
  obtain rows where rows: "set rows \<subseteq> {f \<in> set files. path_filter db filePattern (fst f)}"
    "set ms \<subseteq> (\<Union>(path, content)\<in>set rows. set (extractMatches U path content pattern None ctx))"
  proof (cases "sanitizeFTSQuery U pattern = []")
    case True
    then show ?thesis using assms that [of "[]"] by (simp add: FileMatchesFTS_def)
  next
    case False
    let ?clause = "\<lambda>(path, content). alternationInstrCond (SplitAlternatives U pattern) content \<and> path_filter db filePattern path"
    obtain rows where r: "literalContentQuery db U pattern (sanitizeFTSQuery U pattern) (ftsNeedsFullScan U pattern) filePattern = Inr rows"
      "ms = cap_at limit (concat (map (\<lambda>(path, content). extractMatches U path content pattern None ctx) rows))"
      using assms(1) False by (auto simp: FileMatchesFTS_def fileMatchesQuery_def split: sum.splits)
    have "set rows \<subseteq> {f \<in> set files. ?clause f}"
      using r(1) file_rows_set [of ?clause rows] fts_rows [of _ ?clause rows]
      by (auto simp: literalContentQuery_def Let_def split: if_splits)
    then have "set rows \<subseteq> {f \<in> set files. path_filter db filePattern (fst f)}" by auto
    moreover have "set ms \<subseteq> set (concat (map (\<lambda>(path, content). extractMatches U path content pattern None ctx) rows))"
      unfolding r(2) by (rule set_cap_at)
    then have "set ms \<subseteq> (\<Union>(path, content)\<in>set rows. set (extractMatches U path content pattern None ctx))"
      by (simp add: case_prod_beta)
    ultimately show ?thesis by (rule that)
  qed
  obtain path content where pc: "(path, content) \<in> set rows" "m \<in> set (extractMatches U path content pattern None ctx)"
    using rows(2) assms(2) by blast
  then show ?thesis
    using rows(1) extract_spots [of m path content "literalLineMatcher U pattern" ctx]
    by (fastforce simp: extractMatches_def real_match_def)
qed

lemma FileMatchesSubstring_real:
  assumes "FileMatchesSubstring db U (substringAlternativesTerms U pattern) filePattern limit ctx = Inr ms" "m \<in> set ms"
  shows "real_match db U files pattern filePattern (spot m)"
proof -
  let ?alts = "substringAlternatives U (substringAlternativesTerms U pattern)"
  have "?alts \<noteq> []" using assms by (auto simp: FileMatchesSubstring_def Let_def split: if_splits)
  then obtain rows where r: "db_files db (\<lambda>(path, content). path_filter db filePattern path) = Inr rows"
    "ms = cap_at limit (concat (sort_by more_matches (filter (\<lambda>ms. ms \<noteq> []) (map (\<lambda>(path, content).
        extractMatchesFunc path content (substringLineMatcher U ?alts) ctx)
        (filter (\<lambda>(path, content). matchesAnyAlternative U content ?alts) rows)))))"
    using assms(1) by (auto simp: FileMatchesSubstring_def Let_def split: sum.splits)
  have rows: "set rows = {f \<in> set files. path_filter db filePattern (fst f)}"
    using file_rows_set [OF r(1)] by auto
  have "m \<in> set (concat (sort_by more_matches (filter (\<lambda>ms. ms \<noteq> []) (map (\<lambda>(path, content).
        extractMatchesFunc path content (substringLineMatcher U ?alts) ctx)
        (filter (\<lambda>(path, content). matchesAnyAlternative U content ?alts) rows)))))"
    by (rule subsetD [OF set_cap_at]) (use assms(2) r(2) in simp)
  then obtain path content where "(path, content) \<in> set rows"
    "m \<in> set (extractMatchesFunc path content (substringLineMatcher U ?alts) ctx)" by auto
  then show ?thesis using rows extract_spots [of m path content "substringLineMatcher U ?alts" ctx]
    by (fastforce simp: real_match_def)
qed

lemma runFusedTextSearch_real:
  "\<exists>r. runFusedTextSearch db U pattern filePattern ctx = Some r
    \<and> (\<forall>ms. r = Inr ms \<longrightarrow> (\<forall>m\<in>set ms. real_match db U files pattern filePattern (spot m)))"
proof (cases "FileMatchesFTS db U pattern filePattern strategyLimit ctx")
  case (Inl e)
  then show ?thesis by (simp add: runFusedTextSearch_def)
next
  case (Inr fts)
  let ?alts = "substringAlternativesTerms U pattern"
  define scan where "scan = (if totalTerms ?alts \<le> maxScanTerms
      then FileMatchesSubstring db U ?alts filePattern strategyLimit ctx else Inr [])"
  show ?thesis
  proof (cases scan)
    case err: (Inl e)
    then show ?thesis using Inr by (simp add: runFusedTextSearch_def scan_def Let_def)
  next
    case sub: (Inr sub)
    obtain out where out: "RerankByAlternatives U (Fuse (toCandidates fts) (toCandidates sub) DefaultK) ?alts = Some out"
      "place ` set out = place ` set (Fuse (toCandidates fts) (toCandidates sub) DefaultK)"
      using Rerank_places by blast
    have "real_match db U files pattern filePattern (spot m)" if m: "m \<in> set (fromCandidates out)" for m
    proof -
      obtain c where c: "c \<in> set out" "spot m = (c_FilePath c, c_LineNumber c, c_Line c)"
        using m by (auto simp: fromCandidates_def spot_def)
      obtain f where "f \<in> set (Fuse (toCandidates fts) (toCandidates sub) DefaultK)" "place f = place c"
        using c(1) out(2) by (metis (no_types, lifting) image_iff)
      then obtain d where d: "d \<in> set (toCandidates fts) \<union> set (toCandidates sub)" "place d = place c"
        using Fuse_places by metis
      have "\<exists>m'\<in>set ms. place d = (fm_FilePath m', fm_LineNumber m', fm_Line m', fm_ContextBefore m', fm_ContextAfter m')"
        if "d \<in> set (toCandidates ms)" for ms
        using that by (auto simp: toCandidates_def place_def)
      then obtain m' where m': "m' \<in> set fts \<union> set sub" "spot m' = spot m"
        using c(2) d by (fastforce simp: place_def spot_def)
      have "m' \<in> set sub \<Longrightarrow> FileMatchesSubstring db U ?alts filePattern strategyLimit ctx = Inr sub"
        using sub by (auto simp: scan_def split: if_splits)
      then show ?thesis using m' FileMatchesFTS_real [OF Inr] FileMatchesSubstring_real by (metis UnE)
    qed
    moreover have "runFusedTextSearch db U pattern filePattern ctx = Some (Inr (fromCandidates out))"
      using Inr sub out(1) by (simp add: runFusedTextSearch_def scan_def Let_def)
    ultimately show ?thesis by simp
  qed
qed

end

definition corrected_patterns :: "store_db \<Rightarrow> unidata \<Rightarrow> string \<Rightarrow> string set" where
  "corrected_patterns db U pattern = {str_join ''|'' alternatives | alternatives applied.
     correctAlternatives db U (SplitAlternatives U pattern) = Inr (alternatives, applied) \<and> applied \<noteq> []}"

text \<open>
  C32: a literal search returns (the reranker never panics), and every match it reports is a line
  of an indexed file that passes the file filter and holds an alternative or a word of one pattern: the
  pattern asked for, or the one whose words were corrected against the symbol lexicon.
\<close>

theorem SearchText_sound:
  assumes "sqlite_files db files"
  shows "\<exists>r. SearchText db U pattern filePattern False ctx = Some r
    \<and> (\<forall>ms. r = Inr ms \<longrightarrow> (\<exists>p\<in>insert pattern (corrected_patterns db U pattern).
          \<forall>m\<in>set ms. real_match db U files p filePattern (spot m)))"
proof -
  note real = sqlite_files.runFusedTextSearch_real [OF assms]
  obtain r where r: "runFusedTextSearch db U pattern filePattern ctx = Some r"
    "\<And>ms. r = Inr ms \<Longrightarrow> \<forall>m\<in>set ms. real_match db U files pattern filePattern (spot m)"
    using real by blast
  show ?thesis
  proof (cases r)
    case (Inl e)
    then show ?thesis using r(1) by (simp add: SearchText_def SearchTextWithCorrections_def)
  next
    case (Inr ms)
    note ok = r(2) [OF Inr]
    show ?thesis
    proof (cases "resultFloor \<le> length ms")
      case True
      then show ?thesis using r(1) ok Inr by (simp add: SearchText_def SearchTextWithCorrections_def)
    next
      case short: False
      show ?thesis
      proof (cases "correctAlternatives db U (SplitAlternatives U pattern)")
        case (Inl e)
        then show ?thesis using r(1) Inr short by (simp add: SearchText_def SearchTextWithCorrections_def \<open>r = Inr ms\<close>)
      next
        case corr: (Inr res)
        obtain alternatives applied where res: "res = (alternatives, applied)" by (cases res)
        obtain r' where r': "runFusedTextSearch db U (str_join ''|'' alternatives) filePattern ctx = Some r'"
          "\<And>ms. r' = Inr ms \<Longrightarrow> \<forall>m\<in>set ms. real_match db U files (str_join ''|'' alternatives) filePattern (spot m)"
          using real by blast
        show ?thesis
        proof (cases "applied = []")
          case True
          then show ?thesis using r(1) Inr ok short corr res by (simp add: SearchText_def SearchTextWithCorrections_def)
        next
          case False
          then have "str_join ''|'' alternatives \<in> corrected_patterns db U pattern"
            using corr res by (auto simp: corrected_patterns_def)
          moreover have "SearchText db U pattern filePattern False ctx = Some r'"
            using r(1) Inr short corr res False r'(1)
            by (cases r') (simp_all add: SearchText_def SearchTextWithCorrections_def)
          ultimately show ?thesis using r'(2) by blast
        qed
      qed
    qed
  qed
qed

definition files_db :: "(string \<times> string) list \<Rightarrow> store_db" where
  "files_db files = (list_db [] [] [])\<lparr>db_files := (\<lambda>P. Inr (filter P files)), db_files_fts := (\<lambda>_ P. Inr (filter P files))\<rparr>"

interpretation files_db: sqlite_files "files_db files" files for files
  by unfold_locales (auto simp: files_db_def)

theorem SearchText_sound_witness:
  "\<exists>r. SearchText (files_db [(''a.go'', ''x y'' @ [newline] @ ''wx'')]) ascii_tables ''wx'' [] False 0 = Some r"
  using SearchText_sound [OF files_db.sqlite_files_axioms, of "[(''a.go'', ''x y'' @ [newline] @ ''wx'')]"] by blast

end
