(* ===== verification/Usage_Proofs.thy ===== *)
theory Usage_Proofs
  imports Graph_Proofs Usage
begin

text \<open>
  The search for implementations of an interface: it ends once it may take more rounds than there are embedded names, and it
  finds the methods of everything that the interface embeds.
\<close>

section \<open>Methods of an interface and of what it embeds\<close>

definition embedding :: "store_db \<Rightarrow> (string \<times> string) set" where
  "embedding db = {(a, b). \<exists>es e. EdgesFrom db a = Inr es \<and> e \<in> set es \<and> eg_EdgeType e = edgeTypeEmbeds \<and> eg_ToRef e = b}"

definition methods_at :: "store_db \<Rightarrow> string \<Rightarrow> string set" where
  "methods_at db j = {sy_Name m |m ms. MethodsByQualifiedReceiver db j True = Inr ms \<and> m \<in> set ms}"

lemma closed_image:
  assumes "E `` S \<subseteq> S \<union> T" shows "E\<^sup>* `` S \<subseteq> S \<union> E\<^sup>* `` T"
proof clarify
  fix x y assume "(x, y) \<in> E\<^sup>*" "x \<in> S" "y \<notin> E\<^sup>* `` T"
  then show "y \<in> S"
  proof (induction rule: rtrancl_induct)
    case (step y z)
    then have "y \<in> S" by (meson Image_iff rtrancl.rtrancl_into_rtrancl)
    with assms step have "z \<in> S \<union> T" by blast
    with step show ?case by blast
  qed
qed

text \<open>The new interfaces of one round: what the current one embeds and was not seen.\<close>

abbreviation found :: "string list \<Rightarrow> edge list \<Rightarrow> string list" where
  "found visited es \<equiv> dedup_by (\<lambda>r. r) visited (map eg_ToRef (filter (\<lambda>e. eg_EdgeType e = edgeTypeEmbeds) es))"

lemma found_set: "EdgesFrom db a = Inr es \<Longrightarrow> set (found visited es) = embedding db `` {a} - set visited"
  using dedup_by_keys [of "\<lambda>r. r" visited "map eg_ToRef (filter (\<lambda>e. eg_EdgeType e = edgeTypeEmbeds) es)"]
  by (auto simp: embedding_def)

lemma loop_returns:
  "Range (embedding db) \<subseteq> set refs \<Longrightarrow> length queue + card (set refs - set visited) \<le> n \<Longrightarrow> method_names_loop db n queue visited names \<noteq> None"
proof (induction db n queue visited names rule: method_names_loop.induct)
  case (3 db n current queue visited names)
  show ?case
  proof (cases "MethodsByQualifiedReceiver db current True")
    case (Inr methods)
    show ?thesis
    proof (cases "EdgesFrom db current")
      case e: (Inr es)
      let ?new = "found visited es"
      have new: "set ?new \<subseteq> set refs - set visited" 
        using found_set [OF e] 3(2) by blast
      have "distinct ?new" using dedup_by_distinct [of "\<lambda>r. r" visited] by simp
      then have "length ?new = card (set ?new)" by (simp add: distinct_card)
      moreover have "set refs - set (?new @ visited) = (set refs - set visited) - set ?new" by auto
      ultimately have "length (queue @ ?new) + card (set refs - set (?new @ visited)) \<le> n"
        using 3(3) new card_mono [OF _ new] by (simp add: card_Diff_subset)
      then show ?thesis using 3(1) [OF Inr e refl 3(2)] by (simp add: Inr e Let_def)
    qed (simp add: Inr)
  qed simp
qed auto

lemma reach_step:
  assumes "W \<subseteq> P \<union> A" "Z \<subseteq> W \<union> A" "X \<subseteq> insert c Z" "B = X \<union> Y" "A = Y \<union> N" "N \<subseteq> X" "c \<in> X"
  shows "insert c A \<subseteq> B" and "B \<subseteq> insert c (P \<union> A)"
  using assms by blast+

lemma union_step:
  assumes "insert c A \<subseteq> B" and "B \<subseteq> insert c (P \<union> A)" and "S = T \<union> f c \<union> \<Union> (f ` A)" and "\<Union> (f ` P) \<subseteq> T \<union> f c"
  shows "S = T \<union> \<Union> (f ` B)"
proof -
  have "\<Union> (f ` B) \<subseteq> f c \<union> \<Union> (f ` P) \<union> \<Union> (f ` A)" using assms(2) by fast
  moreover have "f c \<union> \<Union> (f ` A) \<subseteq> \<Union> (f ` B)" using assms(1) by fast
  ultimately show ?thesis using assms(3,4) by auto
qed

lemma loop_names:
  assumes "method_names_loop db n queue visited names = Some (Inr out)"
    and "set queue \<subseteq> set visited" and "embedding db `` (set visited - set queue) \<subseteq> set visited"
    and "\<Union> (methods_at db ` (set visited - set queue)) \<subseteq> set names"
  shows "set out = set names \<union> \<Union> (methods_at db ` ((embedding db)\<^sup>* `` set queue))"
  using assms
proof (induction db n queue visited names rule: method_names_loop.induct)
  case (3 db n current queue visited names)
  from "3.prems"(1) obtain methods es where m: "MethodsByQualifiedReceiver db current True = Inr methods" and e: "EdgesFrom db current = Inr es"
    by (auto split: sum.splits)
  let ?E = "embedding db" and ?new = "found visited es"
  let ?V = "set (?new @ visited)" and ?Q = "set (queue @ ?new)"
  have new: "set ?new = ?E `` {current} - set visited" by (rule found_set [OF e])
  have here: "methods_at db current = sy_Name ` set methods" by (auto simp: methods_at_def m)
  have done': "?V - ?Q \<subseteq> insert current (set visited - set (current # queue))" by auto
  have closed: "?E `` (?V - ?Q) \<subseteq> ?V" using done' new "3.prems"(3) by fastforce
  have told: "\<Union> (methods_at db ` (?V - ?Q)) \<subseteq> set (names @ map sy_Name methods)"
    using done' here "3.prems"(4) by fastforce
  have IH: "set out = set (names @ map sy_Name methods) \<union> \<Union> (methods_at db ` (?E\<^sup>* `` ?Q))"
    using "3.IH" [OF m e refl _ _ closed told] "3.prems"(1,2) by (auto simp: m e Let_def)
  have r1: "?E\<^sup>* `` (?V - ?Q) \<subseteq> (?V - ?Q) \<union> ?E\<^sup>* `` ?Q" by (rule closed_image) (use closed in blast)
  have "?E `` {current} \<subseteq> (?V - ?Q) \<union> ?Q" using new by auto
  then have r2: "?E\<^sup>* `` (?E `` {current}) \<subseteq> ?E\<^sup>* `` (?V - ?Q) \<union> ?E\<^sup>* `` ?Q" by (metis Image_Un Image_mono order_refl)
  have r3: "?E\<^sup>* `` {current} \<subseteq> insert current (?E\<^sup>* `` (?E `` {current}))"
    by (auto elim: converse_rtranclE)
  have r4: "?E\<^sup>* `` set (current # queue) = ?E\<^sup>* `` {current} \<union> ?E\<^sup>* `` set queue" by auto
  have r5: "?E\<^sup>* `` ?Q = ?E\<^sup>* `` set queue \<union> ?E\<^sup>* `` set ?new" by auto
  have r6: "?E\<^sup>* `` set ?new \<subseteq> ?E\<^sup>* `` {current}" unfolding new by (auto intro: converse_rtrancl_into_rtrancl)
  have r7: "current \<in> ?E\<^sup>* `` {current}" by auto
  define A where "A = ?E\<^sup>* `` ?Q"
  define B where "B = ?E\<^sup>* `` set (current # queue)"
  define P where "P = ?V - ?Q"
  have AB: "insert current A \<subseteq> B" "B \<subseteq> insert current (P \<union> A)"
    using reach_step [OF r1 r2 r3 r4 r5 r6 r7] unfolding A_def B_def P_def by simp_all
  have "set out = set names \<union> methods_at db current \<union> \<Union> (methods_at db ` A)" using IH here by (simp add: A_def)
  moreover have "\<Union> (methods_at db ` P) \<subseteq> set names \<union> methods_at db current" using told here by (simp add: P_def)
  ultimately have "set out = set names \<union> \<Union> (methods_at db ` B)" by (rule union_step [OF AB])
  then show ?case by (simp only: B_def)
qed auto

text \<open>
  C39: enough rounds are a number above that of the names that edges embed, and then the walk over embedded interfaces ends: the
  implementations of an interface are, for every type with a satisfies edge into it, the methods that carry the name of a method
  of the interface or of one it embeds, directly or through others.
\<close>

theorem InterfaceImplementations_exact:
  assumes "Range (embedding db) \<subseteq> set refs" and "length refs < n"
    and "resolveTypeName db interfaceName0 = Inr i" and "EdgesTo db i = Inr es"
  shows "(\<exists>e. InterfaceImplementations db n interfaceName0 = Some (Inl e)) \<or>
    (\<exists>impls. InterfaceImplementations db n interfaceName0 = Some (Inr impls) \<and>
      (\<forall>r. r \<in> set impls \<longleftrightarrow> (\<exists>e\<in>set es. \<exists>ms. \<exists>m\<in>set ms. eg_EdgeType e = edgeTypeSatisfies
         \<and> MethodsByQualifiedReceiver db (eg_FromRef e) True = Inr ms
         \<and> sy_Name m \<in> \<Union> (methods_at db ` ((embedding db)\<^sup>* `` {i}))
         \<and> r = \<lparr>ii_Interface = i, ii_ImplType = eg_FromRef e, ii_ImplMethod = sy_QualifiedName m,
                ii_PosFile = sy_PosFile m, ii_PosLine = sy_PosLine m\<rparr>)))"
proof -
  have "card (set refs - {i}) \<le> length refs" by (meson card_length card_mono Diff_subset List.finite_set le_trans)
  then have "interfaceMethodNames db n i \<noteq> None"
    unfolding interfaceMethodNames_def using assms(2) by (intro loop_returns [OF assms(1)]) simp
  then consider e where "interfaceMethodNames db n i = Some (Inl e)" | names where "interfaceMethodNames db n i = Some (Inr names)"
    by (metis option.exhaust sum.exhaust)
  then show ?thesis
  proof cases
    case 1
    with assms(3,4) show ?thesis by (simp add: InterfaceImplementations_def)
  next
    case 2
    then have names: "set names = \<Union> (methods_at db ` ((embedding db)\<^sup>* `` {i}))"
      using loop_names [of db n "[i]" "[i]" "[]" names] by (simp add: interfaceMethodNames_def)
    have types: "set (dedup_by (\<lambda>r. r) [] (map eg_FromRef (filter (\<lambda>e. eg_EdgeType e = edgeTypeSatisfies) es)))
        = eg_FromRef ` {e \<in> set es. eg_EdgeType e = edgeTypeSatisfies}"
      using dedup_by_keys [of "\<lambda>r. r" "[]" "map eg_FromRef (filter (\<lambda>e. eg_EdgeType e = edgeTypeSatisfies) es)"] by simp
    have rows: "r \<in> set (impl_rows db i names t) \<longleftrightarrow> (\<exists>ms. \<exists>m\<in>set ms. MethodsByQualifiedReceiver db t True = Inr ms \<and> sy_Name m \<in> set names
        \<and> r = \<lparr>ii_Interface = i, ii_ImplType = t, ii_ImplMethod = sy_QualifiedName m, ii_PosFile = sy_PosFile m, ii_PosLine = sy_PosLine m\<rparr>)"
      for r t by (cases "MethodsByQualifiedReceiver db t True") (auto simp: impl_rows_def)
    have run: "InterfaceImplementations db n interfaceName0 = Some (Inr (concat (map (impl_rows db i names)
        (dedup_by (\<lambda>r. r) [] (map eg_FromRef (filter (\<lambda>e. eg_EdgeType e = edgeTypeSatisfies) es))))))"
      using 2 assms(3,4) by (simp add: InterfaceImplementations_def)
    show ?thesis unfolding run by (simp add: types rows names) blast
  qed
qed

definition embed_rows :: "edge_row list" where
  "embed_rows = [demo_row ''p.I'' ''p.J'' ''embeds'', demo_row ''p.T'' ''p.I'' ''satisfies'']"

definition embed_db :: store_db where
  "embed_db = list_db embed_rows [(demo_symbol ''p.I'')\<lparr>sy_Name := ''I'', sy_Kind := ''interface''\<rparr>,
     (demo_symbol ''p.J.M'')\<lparr>sy_Name := ''M''\<rparr>, (demo_symbol ''p.T.M'')\<lparr>sy_Name := ''M''\<rparr>] []"

lemma embed_edges: "EdgesFrom embed_db a = Inr (map (\<lambda>(a, b, t). \<lparr>eg_FromRef = a, eg_ToRef = b, eg_EdgeType = t, eg_PosFile = [],
    eg_Repo = [], eg_Sites = [], eg_PosLine = 1, eg_SiteCount = 0\<rparr>)
      (filter (\<lambda>(x, b, t). x = NormalizeQualifiedName a) [(''p.I'', ''p.J'', ''embeds''), (''p.T'', ''p.I'', ''satisfies'')]))"
  by (simp add: EdgesFrom_def queryEdges_def embed_db_def embed_rows_def list_db_def scanEdges_def demo_edge)

lemma embed_range: "Range (embedding embed_db) \<subseteq> set [''p.J'']"
  by (auto simp: embedding_def embed_edges edgeTypeEmbeds_def split: if_splits)

lemma embed_resolve: "resolveTypeName embed_db ''I'' = Inr ''p.I''"
  by (simp add: resolveTypeName_def splitTypeQualifier_def TypeDeclarationsNamed_def embed_db_def list_db_def demo_symbol_def go_str_simps
      by_qualified_name_def and_not_test_def Let_def)

lemma embed_methods: "MethodsByQualifiedReceiver embed_db ''p.J'' True = Inr [(demo_symbol ''p.J.M'')\<lparr>sy_Name := ''M''\<rparr>]"
  "MethodsByQualifiedReceiver embed_db ''p.T'' True = Inr [(demo_symbol ''p.T.M'')\<lparr>sy_Name := ''M''\<rparr>]"
  by (simp_all add: MethodsByQualifiedReceiver_def embed_db_def list_db_def demo_symbol_def go_str_simps
      by_qualified_name_def and_not_test_def Let_def)

lemma embed_in: "EdgesTo embed_db ''p.I'' = Inr [\<lparr>eg_FromRef = ''p.T'', eg_ToRef = ''p.I'', eg_EdgeType = ''satisfies'', eg_PosFile = [],
    eg_Repo = [], eg_Sites = [], eg_PosLine = 1, eg_SiteCount = 0\<rparr>]"
proof -
  have "NormalizeQualifiedName ''p.I'' = ''p.I''" by (simp add: NormalizeQualifiedName_def contains_paren)
  then show ?thesis
    by (simp add: EdgesTo_def queryEdges_def embed_db_def embed_rows_def list_db_def scanEdges_def demo_edge)
qed

theorem InterfaceImplementations_exact_witness:
  "\<exists>impls. InterfaceImplementations embed_db 2 ''I'' = Some (Inr impls) \<and> ''p.T.M'' \<in> ii_ImplMethod ` set impls"
proof -
  have n: "NormalizeQualifiedName ''p.I'' = ''p.I''" by (simp add: NormalizeQualifiedName_def contains_paren)
  have "(''p.I'', ''p.J'') \<in> embedding embed_db" by (simp add: embedding_def embed_edges n edgeTypeEmbeds_def)
  moreover have "''M'' \<in> methods_at embed_db ''p.J''" by (simp add: methods_at_def embed_methods)
  ultimately have m: "''M'' \<in> \<Union> (methods_at embed_db ` ((embedding embed_db)\<^sup>* `` {''p.I''}))" by blast
  let ?r = "\<lparr>ii_Interface = ''p.I'', ii_ImplType = ''p.T'', ii_ImplMethod = ''p.T.M'', ii_PosFile = [], ii_PosLine = 1\<rparr>"
  have "MethodsByQualifiedReceiver embed_db ''p.I'' True = Inr []" "NormalizeQualifiedName ''p.J'' = ''p.J''"
    by (simp_all add: MethodsByQualifiedReceiver_def embed_db_def list_db_def demo_symbol_def go_str_simps by_qualified_name_def
        and_not_test_def NormalizeQualifiedName_def contains_paren)
  then obtain names where "interfaceMethodNames embed_db 2 ''p.I'' = Some (Inr names)"
    by (simp add: interfaceMethodNames_def numeral_2_eq_2 embed_edges embed_methods n edgeTypeEmbeds_def Let_def)
  then have "\<exists>impls. InterfaceImplementations embed_db 2 ''I'' = Some (Inr impls)"
    by (simp add: InterfaceImplementations_def embed_resolve embed_in)
  with InterfaceImplementations_exact [OF embed_range _ embed_resolve embed_in, of 2]
  obtain impls where "InterfaceImplementations embed_db 2 ''I'' = Some (Inr impls)" "?r \<in> set impls"
    using m by (auto simp: embed_methods edgeTypeSatisfies_def demo_symbol_def)
  then show ?thesis by (intro exI [of _ impls]) (auto simp: image_iff intro!: bexI [of _ ?r])
qed

end
