(* ===== verification/Layers.thy ===== *)
theory Layers
  imports Graph
begin

text \<open>
  The package graph (\<^verbatim>\<open>query/query.go\<close>): import edges without their test sites, the resolution of an
  import path to a project package, Kahn layers, hubs, the dependency flow of one package, and the
  enumeration of simple cycles.
\<close>

section \<open>Runtime imports\<close>

text \<open>\<^verbatim>\<open>dropTestImportSites\<close>: \<open>None\<close> when no site outside a test file remains.\<close>

definition dropTestImportSites :: "edge \<Rightarrow> edge option" where
  "dropTestImportSites e =
     (case filter (\<lambda>s. \<not> has_suffix (st_File s) ''_test.go'') (eg_Sites e) of
        [] \<Rightarrow> None
      | s # ss \<Rightarrow> Some (e\<lparr>eg_Sites := s # ss, eg_SiteCount := length (s # ss),
                     eg_PosFile := st_File s, eg_PosLine := st_Line s\<rparr>))"

definition dropTestOnlyImports :: "edge list \<Rightarrow> edge list" where
  "dropTestOnlyImports edges =
     concat (map (\<lambda>e. if eg_EdgeType e = edgeTypeImports
                      then (case dropTestImportSites e of None \<Rightarrow> [] | Some e' \<Rightarrow> [e']) else [e]) edges)"

definition runtimeImportEdges :: "store_db \<Rightarrow> edge list result" where
  "runtimeImportEdges db =
     (case EdgesByType db edgeTypeImports of Inl e \<Rightarrow> Inl e | Inr edges \<Rightarrow> Inr (dropTestOnlyImports edges))"

text \<open>
  The project set is a map used as a set; its list order is the order in which the suffix loop
  meets the packages.
\<close>

definition resolveProjectTarget :: "string \<Rightarrow> string list \<Rightarrow> string" where
  "resolveProjectTarget toRef projectSet =
     (if toRef \<in> set projectSet then toRef
      else case find (\<lambda>p. has_suffix p (''/'' @ toRef) \<or> p = toRef) projectSet of
        Some p \<Rightarrow> p
      | None \<Rightarrow>
          (case str_cut_last toRef ''/'' of (_, after, ok) \<Rightarrow>
             if ok \<and> after \<in> set projectSet then after else []))"

section \<open>The project graph and its layers\<close>

definition buildProjectGraph :: "store_db \<Rightarrow> string list
    \<Rightarrow> ((string, string list) gomap \<times> (string, nat) gomap \<times> (string, nat) gomap) result" where
  "buildProjectGraph db projectSet =
     (case runtimeImportEdges db of
        Inl e \<Rightarrow> Inl e
      | Inr imports \<Rightarrow>
          Inr (fold (\<lambda>e (graph, fanIn, fanOut).
            if eg_FromRef e \<notin> set projectSet then (graph, fanIn, fanOut)
            else let target = resolveProjectTarget (eg_ToRef e) projectSet in
              if target = [] then (graph, fanIn, fanOut)
              else (gm_append (eg_FromRef e) target graph, gm_put target (gm_get 0 fanIn target + 1) fanIn,
                    gm_put (eg_FromRef e) (gm_get 0 fanOut (eg_FromRef e) + 1) fanOut)) imports ([], [], [])))"

definition buildReverseGraph :: "(string, string list) gomap \<Rightarrow> (string, string list) gomap" where
  "buildReverseGraph graph =
     fold (\<lambda>(from, tos) m. fold (\<lambda>to m. gm_append to from m) tos m) graph []"

definition depsReady :: "string \<Rightarrow> (string, string list) gomap \<Rightarrow> (string, nat) gomap \<Rightarrow> bool" where
  "depsReady pkg graph lev = list_all (gm_has lev) (gm_get [] graph pkg)"

definition raise_levels :: "nat \<Rightarrow> string list \<Rightarrow> (string, nat) gomap \<Rightarrow> (string, nat) gomap" where
  "raise_levels candidate ds lev =
     fold (\<lambda>d m. case map_of m d of
             None \<Rightarrow> gm_put d candidate m
           | Some existing \<Rightarrow> if existing < candidate then gm_put d candidate m else m) ds lev"

text \<open>The queue loop. It need not end: \<open>None\<close> is the loop that runs forever.\<close>

partial_function (option) kahn_loop :: "(string, string list) gomap \<Rightarrow> (string, string list) gomap
    \<Rightarrow> string list \<Rightarrow> (string, nat) gomap \<Rightarrow> (string, nat) gomap option" where
  "kahn_loop graph reverse queue lev =
     (case queue of
        [] \<Rightarrow> Some lev
      | current # rest \<Rightarrow>
          let ds = gm_get [] reverse current;
              lev' = raise_levels (gm_get 0 lev current + 1) ds lev
          in kahn_loop graph reverse (rest @ filter (\<lambda>d. depsReady d graph lev') ds) lev')"

definition kahn_seeds :: "string list \<Rightarrow> (string, string list) gomap \<Rightarrow> string list" where
  "kahn_seeds projectSet graph = filter (\<lambda>p. gm_get [] graph p = []) projectSet"

definition kahnLayers :: "string list \<Rightarrow> (string, string list) gomap \<Rightarrow> (string, nat) gomap option" where
  "kahnLayers projectSet graph =
     (let seeds = kahn_seeds projectSet graph in
        case kahn_loop graph (buildReverseGraph graph) (sort_by (<) seeds) (fold (\<lambda>p m. gm_put p 0 m) seeds []) of
          None \<Rightarrow> None
        | Some lev \<Rightarrow> Some (fold (\<lambda>p m. if gm_has m p then m else gm_put p 0 m) projectSet lev))"

record layer =
  ly_Packages :: "string list"
  ly_Level :: nat

definition levelsToLayers :: "(string, nat) gomap \<Rightarrow> layer list" where
  "levelsToLayers lev =
     (let byLevel = group_by snd fst lev []
      in map (\<lambda>lv. \<lparr>ly_Packages = sort_by (<) (gm_get [] byLevel lv), ly_Level = lv\<rparr>)
           (sort_by (<) (gm_keys byLevel)))"

record hub =
  hb_Package :: string
  hb_FanIn :: nat
  hb_FanOut :: nat

definition hub_less :: "hub \<Rightarrow> hub \<Rightarrow> bool" where
  "hub_less a b = (if hb_FanIn a \<noteq> hb_FanIn b then hb_FanIn a > hb_FanIn b else hb_Package a < hb_Package b)"

definition topHubEntries :: "string list \<Rightarrow> (string, nat) gomap \<Rightarrow> (string, nat) gomap \<Rightarrow> int \<Rightarrow> hub list" where
  "topHubEntries projectSet fanIn fanOut topHubs =
     take (nat topHubs) (sort_by hub_less
       (map (\<lambda>p. \<lparr>hb_Package = p, hb_FanIn = gm_get 0 fanIn p, hb_FanOut = gm_get 0 fanOut p\<rparr>) projectSet))"

definition project_set :: "bool \<Rightarrow> package list \<Rightarrow> string list" where
  "project_set includeTests pkgs =
     dedup_by (\<lambda>p. p) [] (map pk_Path (filter (\<lambda>p. includeTests \<or> \<not> pk_IsTest p) pkgs))"

definition DependencyLayers :: "store_db \<Rightarrow> bool \<Rightarrow> int \<Rightarrow> (layer list \<times> hub list) result option" where
  "DependencyLayers db includeTests topHubs0 =
     (let topHubs = (if topHubs0 \<le> 0 then 5 else topHubs0) in
        case db_packages db of
          Inl e \<Rightarrow> Some (Inl e)
        | Inr pkgs \<Rightarrow>
            (let projectSet = project_set includeTests pkgs in
               case buildProjectGraph db projectSet of
                 Inl e \<Rightarrow> Some (Inl e)
               | Inr (graph, fanIn, fanOut) \<Rightarrow>
                   (case kahnLayers projectSet graph of
                      None \<Rightarrow> None
                    | Some lev \<Rightarrow> Some (Inr (levelsToLayers lev, topHubEntries projectSet fanIn fanOut topHubs)))))"

section \<open>Dependency flow and import queries\<close>

definition detail_less :: "edge_detail \<Rightarrow> edge_detail \<Rightarrow> bool" where
  "detail_less a b = (if d_FromRef a \<noteq> d_FromRef b then d_FromRef a < d_FromRef b else d_ToRef a < d_ToRef b)"

definition project_next :: "string list \<Rightarrow> edge \<Rightarrow> string list \<Rightarrow> string" where
  "project_next projectSet e visited =
     (let target = resolveProjectTarget (eg_ToRef e) projectSet in
        if target = [] \<or> target \<in> set visited then [] else target)"

definition transitiveImports :: "string \<Rightarrow> (string, edge list) gomap \<Rightarrow> string list \<Rightarrow> edge_detail list" where
  "transitiveImports pkgPath adj projectSet =
     map edgeToDetail (ImportFrontierBFS adj pkgPath (project_next projectSet))"

definition transitiveImportBFS :: "string \<Rightarrow> (string, edge list) gomap \<Rightarrow> string list \<Rightarrow> edge_detail list" where
  "transitiveImportBFS pkgPath adj projectSet = sort_by detail_less (transitiveImports pkgPath adj projectSet)"

definition directImports :: "string \<Rightarrow> edge list \<Rightarrow> string list \<Rightarrow> edge_detail list" where
  "directImports pkgPath allImports projectSet =
     map edgeToDetail (filter (\<lambda>e. eg_FromRef e = pkgPath
       \<and> (eg_ToRef e \<in> set projectSet \<or> resolveProjectTarget (eg_ToRef e) projectSet \<noteq> [])) allImports)"

definition buildImportPathMap :: "edge list \<Rightarrow> string list \<Rightarrow> (string, string) gomap" where
  "buildImportPathMap allImports projectSet =
     fold (\<lambda>e m. if eg_EdgeType e \<noteq> edgeTypeImports then m
            else let target = resolveProjectTarget (eg_ToRef e) projectSet in
              if target \<noteq> [] \<and> target \<noteq> eg_ToRef e then gm_put target (eg_ToRef e) m else m) allImports []"

definition directImporters :: "string \<Rightarrow> edge list \<Rightarrow> (string, string) gomap \<Rightarrow> edge_detail list" where
  "directImporters pkgPath allImports reverseMap =
     (let out = map edgeToDetail (filter (\<lambda>e. eg_ToRef e = pkgPath) allImports) in
        if out \<noteq> [] then out
        else let importPath = gm_get [] reverseMap pkgPath in
          if importPath = [] \<or> importPath = pkgPath then out
          else out @ map edgeToDetail (filter (\<lambda>e. eg_ToRef e = importPath) allImports))"

record flow_result =
  fl_Package :: string
  fl_Imports :: "edge_detail list"
  fl_Importers :: "edge_detail list"
  fl_Transitive :: "edge_detail list"

definition DependencyFlow :: "store_db \<Rightarrow> string \<Rightarrow> flow_result result" where
  "DependencyFlow db pkgPath =
     (if pkgPath = [] then Inl ''package_path is required''
      else case db_packages db of
        Inl e \<Rightarrow> Inl e
      | Inr pkgs \<Rightarrow>
          (let projectSet = project_set True pkgs in
             if pkgPath \<notin> set projectSet then Inl (''package not found: '' @ pkgPath)
             else case runtimeImportEdges db of
               Inl e \<Rightarrow> Inl e
             | Inr allImports \<Rightarrow>
                 Inr \<lparr>fl_Package = pkgPath, fl_Imports = directImports pkgPath allImports projectSet,
                      fl_Importers = directImporters pkgPath allImports (buildImportPathMap allImports projectSet),
                      fl_Transitive = transitiveImports pkgPath (BuildImportAdjacency allImports) projectSet\<rparr>))"

text \<open>\<^verbatim>\<open>query.TransitiveImports\<close>: packages outside the index use the store's own walk.\<close>

definition query_TransitiveImports :: "store_db \<Rightarrow> string \<Rightarrow> options \<Rightarrow> edge_detail list result" where
  "query_TransitiveImports db pkgPath opts =
     (case db_packages db of
        Inl e \<Rightarrow> Inl e
      | Inr pkgs \<Rightarrow>
          (let projectSet = project_set True pkgs in
             if pkgPath \<notin> set projectSet then
               (case TransitiveImports db pkgPath of
                  Inl e \<Rightarrow> Inl e | Inr legacy \<Rightarrow> Inr (filterEdges (map edgeToDetail legacy) (o_Repo opts)))
             else case runtimeImportEdges db of
               Inl e \<Rightarrow> Inl e
             | Inr allImports \<Rightarrow>
                 Inr (filterEdges (transitiveImportBFS pkgPath (BuildImportAdjacency allImports) projectSet) (o_Repo opts))))"

definition filterEdgesByType :: "edge list \<Rightarrow> string list \<Rightarrow> edge_detail list" where
  "filterEdgesByType edges allowTypes =
     map edgeToDetail (filter (\<lambda>e. edgeTypeAllowed (eg_EdgeType e) allowTypes) edges)"

definition importersViaShortPath :: "store_db \<Rightarrow> string \<Rightarrow> string list \<Rightarrow> edge_detail list option result" where
  "importersViaShortPath db pkgPath allowTypes =
     (case runtimeImportEdges db of
        Inl e \<Rightarrow> Inl (''importers of '' @ pkgPath @ '': import edges: '' @ e)
      | Inr allImports \<Rightarrow>
          (case db_packages db of
             Inl e \<Rightarrow> Inl (''importers of '' @ pkgPath @ '': packages: '' @ e)
           | Inr pkgs \<Rightarrow>
               (case map_of (buildImportPathMap allImports (project_set True pkgs)) pkgPath of
                  None \<Rightarrow> Inr None
                | Some importPath \<Rightarrow>
                    if importPath = pkgPath then Inr None
                    else case EdgesTo db importPath of
                      Inl e \<Rightarrow> Inl (''importers of '' @ pkgPath @ '': edges to '' @ importPath @ '': '' @ e)
                    | Inr edges \<Rightarrow> Inr (Some (filterEdgesByType edges allowTypes)))))"

definition import_types :: "options \<Rightarrow> string list" where
  "import_types opts = (if o_EdgeTypes opts = [] then [edgeTypeImports] else o_EdgeTypes opts)"

definition ImportersOf :: "store_db \<Rightarrow> string \<Rightarrow> options \<Rightarrow> edge_detail list result" where
  "ImportersOf db pkgPath opts =
     (case EdgesTo db pkgPath of
        Inl e \<Rightarrow> Inl e
      | Inr edges \<Rightarrow>
          (let results = filterEdges (filterEdgesByType (dropTestOnlyImports edges) (import_types opts)) (o_Repo opts) in
             if results \<noteq> [] then Inr results
             else case importersViaShortPath db pkgPath (import_types opts) of
               Inl e \<Rightarrow> Inl e
             | Inr None \<Rightarrow> Inr results
             | Inr (Some fallback) \<Rightarrow> Inr (filterEdges fallback (o_Repo opts))))"

definition ImportsOf :: "store_db \<Rightarrow> string \<Rightarrow> options \<Rightarrow> edge_detail list result" where
  "ImportsOf db pkgPath opts =
     (case EdgesFrom db pkgPath of
        Inl e \<Rightarrow> Inl e
      | Inr edges \<Rightarrow>
          (case db_modules db of
             Inl e \<Rightarrow> Inl (''imports of '' @ pkgPath @ '': known modules: '' @ e)
           | Inr knownModules \<Rightarrow>
               (case db_packages db of
                  Inl e \<Rightarrow> Inl (''imports of '' @ pkgPath @ '': packages: '' @ e)
                | Inr pkgs \<Rightarrow>
                    Inr (filterEdges (map (\<lambda>e. if eg_EdgeType e = edgeTypeImports
                              \<and> eg_ToRef e \<notin> set (map pk_Path pkgs) \<and> modulePathForRef (eg_ToRef e) knownModules \<noteq> []
                            then (edgeToDetail e)\<lparr>d_State := ''not indexed''\<rparr> else edgeToDetail e)
                          (dropTestOnlyImports (filter (\<lambda>e. edgeTypeAllowed (eg_EdgeType e) (import_types opts)) edges)))
                        (o_Repo opts)))))"

section \<open>Cycles\<close>

record cycle_finder =
  cf_cycles :: "(string list \<times> bool) list"
  cf_seen :: "string list"
  cf_inStack :: "string list"
  cf_path :: "string list"
  cf_truncated :: bool

definition maxCycles :: nat where "maxCycles = 1000"

definition capped :: "cycle_finder \<Rightarrow> bool" where
  "capped f \<longleftrightarrow> maxCycles \<le> length (cf_cycles f)"

text \<open>\<^verbatim>\<open>canonicalCycle\<close>: rotate to the first smallest node, close, join with NUL; "" for degenerate input.\<close>

definition min_index :: "string list \<Rightarrow> nat \<Rightarrow> nat" where
  "min_index cycle n = fold (\<lambda>i m. if cycle ! i < cycle ! m then i else m) [1..<n] 0"

definition canonicalCycle :: "string list \<Rightarrow> string" where
  "canonicalCycle cycle =
     (let n = length cycle - 1 in
        if length cycle \<le> 1 \<or> hd cycle \<noteq> last cycle then []
        else let m = min_index cycle n; rot = map (\<lambda>i. cycle ! ((m + i) mod n)) [0..<n]
          in str_join [CHR 0x00] (rot @ [hd rot]))"

definition emit :: "string \<Rightarrow> cycle_finder \<Rightarrow> cycle_finder" where
  "emit node f =
     (if node \<notin> set (cf_path f) then f
      else let cycle = dropWhile (\<lambda>p. p \<noteq> node) (cf_path f) @ [node]; key = canonicalCycle cycle in
        if key \<noteq> [] \<and> key \<notin> set (cf_seen f)
        then f\<lparr>cf_seen := key # cf_seen f, cf_cycles := cf_cycles f @ [(cycle, False)]\<rparr> else f)"

definition enter_node :: "string \<Rightarrow> cycle_finder \<Rightarrow> cycle_finder" where
  "enter_node node f = f\<lparr>cf_inStack := node # cf_inStack f, cf_path := cf_path f @ [node]\<rparr>"

definition leave_node :: "string \<Rightarrow> cycle_finder \<Rightarrow> cycle_finder" where
  "leave_node node f = f\<lparr>cf_path := butlast (cf_path f), cf_inStack := filter (\<lambda>x. x \<noteq> node) (cf_inStack f)\<rparr>"

text \<open>
  The depth of the recursion is an argument; \<open>None\<close> is running out of it. A path never repeats a
  node, so the number of nodes plus one is enough (\<open>dfs_total\<close>).
\<close>

function dfs :: "nat \<Rightarrow> (string, string list) gomap \<Rightarrow> string \<Rightarrow> string \<Rightarrow> cycle_finder \<Rightarrow> cycle_finder option"
  and dfs_children :: "nat \<Rightarrow> (string, string list) gomap \<Rightarrow> string \<Rightarrow> string list \<Rightarrow> cycle_finder \<Rightarrow> cycle_finder option"
where
  "dfs 0 graph rt node f = None"
| "dfs (Suc n) graph rt node f =
     (if capped f then Some (f\<lparr>cf_truncated := True\<rparr>)
      else if node \<in> set (cf_inStack f) then Some (emit node f)
      else case (if rt \<le> node then dfs_children n graph rt (gm_get [] graph node) (enter_node node f)
                 else Some (enter_node node f)) of
        None \<Rightarrow> None
      | Some f' \<Rightarrow> Some (leave_node node f'))"
| "dfs_children n graph rt [] f = Some f"
| "dfs_children n graph rt (nxt # nodes) f =
     (case dfs n graph rt nxt f of
        None \<Rightarrow> None
      | Some f' \<Rightarrow> if capped f' then Some (f'\<lparr>cf_truncated := True\<rparr>)
          else dfs_children n graph rt nodes f')"
  by pat_completeness auto
termination
  by (relation "measures [\<lambda>x. case x of Inl (n, _) \<Rightarrow> n | Inr (n, _) \<Rightarrow> n,
      \<lambda>x. case x of Inl _ \<Rightarrow> 0 | Inr (n, g, r, nodes, f) \<Rightarrow> Suc (length nodes)]") auto

definition cycle_graph :: "edge list \<Rightarrow> (string, string list) gomap" where
  "cycle_graph edges =
     map (\<lambda>(k, tos). (k, remdups_adj (sort_by (<) tos))) (group_by eg_FromRef eg_ToRef edges [])"

definition cycle_nodes :: "edge list \<Rightarrow> string list" where
  "cycle_nodes edges = sort_by (<) (dedup_by (\<lambda>n. n) [] (concat (map (\<lambda>e. [eg_FromRef e, eg_ToRef e]) edges)))"

fun cycle_roots :: "nat \<Rightarrow> (string, string list) gomap \<Rightarrow> string list \<Rightarrow> cycle_finder \<Rightarrow> cycle_finder option" where
  "cycle_roots n graph [] f = Some f"
| "cycle_roots n graph (rt # rts) f =
     (case dfs n graph rt rt f of
        None \<Rightarrow> None
      | Some f' \<Rightarrow> if capped f' then Some (f'\<lparr>cf_truncated := True\<rparr>) else cycle_roots n graph rts f')"

definition new_finder :: cycle_finder where
  "new_finder = \<lparr>cf_cycles = [], cf_seen = [], cf_inStack = [], cf_path = [], cf_truncated = False\<rparr>"

definition mark_last :: "(string list \<times> bool) list \<Rightarrow> (string list \<times> bool) list" where
  "mark_last cycles = butlast cycles @ [(fst (last cycles), True)]"

definition find_cycles :: "edge list \<Rightarrow> (string list \<times> bool) list option" where
  "find_cycles edges =
     (let nodes = cycle_nodes edges in
        case cycle_roots (length nodes + 1) (cycle_graph edges) nodes new_finder of
          None \<Rightarrow> None
        | Some f \<Rightarrow> Some (if cf_truncated f \<and> cf_cycles f \<noteq> [] then mark_last (cf_cycles f) else cf_cycles f))"

definition DetectCycles :: "store_db \<Rightarrow> string \<Rightarrow> (string list \<times> bool) list result option" where
  "DetectCycles db edgeType =
     (case EdgesByType db edgeType of
        Inl e \<Rightarrow> Some (Inl e)
      | Inr edges \<Rightarrow> (case find_cycles edges of None \<Rightarrow> None | Some cycles \<Rightarrow> Some (Inr cycles)))"

end
