(* ===== verification/Layers_Proofs.thy ===== *)
theory Layers_Proofs
  imports Layers Graph_Proofs
begin

text \<open>
  The layering of \<open>Layers\<close>: on an acyclic project graph the queue of Kahn's algorithm drains (a
  multiset of the ranks still above the queued nodes shrinks) and every package gets the length of its
  longest dependency chain as its level; a graph in which a package depends on itself and on a
  leaf keeps the queue busy for ever.
\<close>

section \<open>Layers of an acyclic package graph\<close>

definition deps :: "(string, string list) gomap \<Rightarrow> string \<Rightarrow> string set" where
  "deps graph p = set (gm_get [] graph p)"

lemma raise_levels_lookup:
  "map_of (raise_levels c ds lev) d =
     (if d \<in> set ds then Some (case map_of lev d of None \<Rightarrow> c | Some e \<Rightarrow> max e c) else map_of lev d)"
  unfolding raise_levels_def by (induction ds arbitrary: lev) (auto split: option.splits)

lemma reverse_inner: "gm_get [] (fold (\<lambda>to m. gm_append to from m) tos m) q =
    gm_get [] m q @ map (\<lambda>_. from) (filter (\<lambda>to. to = q) tos)"
  by (induction tos arbitrary: m) (auto simp: gm_append_def)

lemma reverse_get: "set (gm_get [] (fold (\<lambda>(from, tos) m. fold (\<lambda>to m. gm_append to from m) tos m) g m) q) =
    set (gm_get [] m q) \<union> {p. \<exists>tos. (p, tos) \<in> set g \<and> q \<in> set tos}"
  by (induction g arbitrary: m) (auto simp: reverse_inner split: prod.splits)

lemma buildReverseGraph_set:
  assumes "gm_wf graph"
  shows "p \<in> set (gm_get [] (buildReverseGraph graph) q) \<longleftrightarrow> q \<in> deps graph p"
proof -
  have "p \<in> set (gm_get [] (buildReverseGraph graph) q) \<longleftrightarrow> (\<exists>tos. (p, tos) \<in> set graph \<and> q \<in> set tos)"
    unfolding buildReverseGraph_def reverse_get by simp
  also have "\<dots> \<longleftrightarrow> q \<in> deps graph p"
    unfolding deps_def gm_get_def gm_wf_in_map_of [OF assms] by (cases "map_of graph p") auto
  finally show ?thesis .
qed

lemma depsReady_iff: "depsReady p graph lev \<longleftrightarrow> (\<forall>q\<in>deps graph p. map_of lev q \<noteq> None)"
  by (auto simp: depsReady_def deps_def gm_has_def list_all_iff)

text \<open>
  The invariant of the queue loop. \<open>D\<close> holds the packages that have left the queue and whose level has
  not changed since: their dependents are above them, and a package whose dependencies are all in
  \<open>D\<close> is in \<open>D\<close> or waits in the queue.
\<close>

definition kahn_inv :: "(string, string list) gomap \<Rightarrow> string set \<Rightarrow> string list \<Rightarrow> (string, nat) gomap \<Rightarrow> string set \<Rightarrow> bool" where
  "kahn_inv graph P queue lev D \<longleftrightarrow>
     (\<forall>q\<in>D. map_of lev q \<noteq> None \<and> depsReady q graph lev)
     \<and> (\<forall>q\<in>D. \<forall>p. q \<in> deps graph p \<longrightarrow> map_of lev p \<noteq> None \<and> the (map_of lev q) < the (map_of lev p))
     \<and> (\<forall>q\<in>P. deps graph q \<subseteq> D \<longrightarrow> q \<in> set queue \<or> q \<in> D)
     \<and> (\<forall>q\<in>set queue. q \<in> P \<and> map_of lev q \<noteq> None \<and> depsReady q graph lev)
     \<and> (\<forall>p l. map_of lev p = Some l \<longrightarrow> p \<in> P \<and>
          (if deps graph p = {} then l = 0
           else 0 < l \<and> (\<exists>q\<in>deps graph p. map_of lev q \<noteq> None \<and> l \<le> Suc (the (map_of lev q)))))"

lemma depsReady_mono:
  "depsReady p graph lev \<Longrightarrow> depsReady p graph (raise_levels c ds lev)"
  by (auto simp: depsReady_iff raise_levels_lookup)

lemma kahn_step:
  assumes inv: "kahn_inv graph P (current # rest) lev D" and acyc: "current \<notin> deps graph current"
    and ds: "\<And>p. p \<in> set ds \<longleftrightarrow> current \<in> deps graph p" and closed: "\<And>p. p \<in> set ds \<Longrightarrow> p \<in> P"
    and lev': "lev' = raise_levels (gm_get 0 lev current + 1) ds lev"
    and queue': "queue' = rest @ filter (\<lambda>d. depsReady d graph lev') ds"
  shows "kahn_inv graph P queue' lev' ((D \<union> {current}) - {d \<in> set ds. depsReady d graph lev'})"
proof -
  let ?c = "gm_get 0 lev current + 1" and ?D = "(D \<union> {current}) - {d \<in> set ds. depsReady d graph lev'}"
  note inv = inv [unfolded kahn_inv_def]
  have cur: "map_of lev current = Some (gm_get 0 lev current)" "depsReady current graph lev"
    using inv by (auto simp: gm_get_def split: option.splits)
  have up: "map_of lev' d = (if d \<in> set ds then Some (case map_of lev d of None \<Rightarrow> ?c | Some e \<Rightarrow> max e ?c) else map_of lev d)" for d
    unfolding lev' by (rule raise_levels_lookup)
  have mono: "map_of lev' d \<noteq> None \<and> the (map_of lev d) \<le> the (map_of lev' d)" if "map_of lev d \<noteq> None" for d
    using that by (auto simp: up split: option.splits)
  have ready: "depsReady d graph lev \<Longrightarrow> depsReady d graph lev'" for d unfolding lev' by (rule depsReady_mono)
  have cur': "map_of lev' current = map_of lev current" "current \<notin> set ds" using acyc ds up by auto
  have D: "map_of lev' q = map_of lev q \<and> q \<notin> set ds" if "q \<in> ?D" "q \<noteq> current" for q
    using that inv ready up by auto
  show ?thesis
    unfolding kahn_inv_def
  proof (intro conjI)
    show "\<forall>q\<in>?D. map_of lev' q \<noteq> None \<and> depsReady q graph lev'"
      using inv cur cur' ready mono by blast
    show "\<forall>q\<in>?D. \<forall>p. q \<in> deps graph p \<longrightarrow> map_of lev' p \<noteq> None \<and> the (map_of lev' q) < the (map_of lev' p)"
    proof (intro ballI allI impI)
      fix q p
      assume q: "q \<in> ?D" and p: "q \<in> deps graph p"
      show "map_of lev' p \<noteq> None \<and> the (map_of lev' q) < the (map_of lev' p)"
      proof (cases "q = current")
        case True
        then have "p \<in> set ds" using p ds by simp
        then show ?thesis using True cur(1) cur'(1) by (auto simp: up split: option.splits)
      next
        case False
        then have "map_of lev p \<noteq> None \<and> the (map_of lev q) < the (map_of lev p)" using q p inv by blast
        then show ?thesis using D [OF q False] mono [of p] by auto
      qed
    qed
    show "\<forall>q\<in>P. deps graph q \<subseteq> ?D \<longrightarrow> q \<in> set queue' \<or> q \<in> ?D"
    proof (intro ballI impI)
      fix q
      assume q: "q \<in> P" and sub: "deps graph q \<subseteq> ?D"
      show "q \<in> set queue' \<or> q \<in> ?D"
      proof (cases "current \<in> deps graph q")
        case True
        have "depsReady q graph lev'" unfolding depsReady_iff
        proof
          fix y assume "y \<in> deps graph q"
          then have "y \<in> ?D" using sub by blast
          then show "map_of lev' y \<noteq> None" using inv cur(1) mono by blast
        qed
        then show ?thesis using True ds queue' by auto
      next
        case False
        then have "deps graph q \<subseteq> D" using sub by blast
        then have "q \<in> set (current # rest) \<or> q \<in> D" using inv q by blast
        then show ?thesis using queue' cur'(2) by auto
      qed
    qed
    show "\<forall>q\<in>set queue'. q \<in> P \<and> map_of lev' q \<noteq> None \<and> depsReady q graph lev'"
    proof
      fix q
      assume "q \<in> set queue'"
      then consider "q \<in> set rest" | "q \<in> set ds" "depsReady q graph lev'" using queue' by auto
      then show "q \<in> P \<and> map_of lev' q \<noteq> None \<and> depsReady q graph lev'"
      proof cases
        case 1
        then show ?thesis using inv mono ready by auto
      next
        case 2
        then show ?thesis using closed by (simp add: up)
      qed
    qed
    show "\<forall>p l. map_of lev' p = Some l \<longrightarrow> p \<in> P \<and>
        (if deps graph p = {} then l = 0
         else 0 < l \<and> (\<exists>q\<in>deps graph p. map_of lev' q \<noteq> None \<and> l \<le> Suc (the (map_of lev' q))))"
    proof (intro allI impI)
      fix p l
      assume l: "map_of lev' p = Some l"
      show "p \<in> P \<and> (if deps graph p = {} then l = 0
         else 0 < l \<and> (\<exists>q\<in>deps graph p. map_of lev' q \<noteq> None \<and> l \<le> Suc (the (map_of lev' q))))"
      proof (cases "map_of lev p = Some l")
        case True
        then have "p \<in> P" and s: "if deps graph p = {} then l = 0
           else 0 < l \<and> (\<exists>q\<in>deps graph p. map_of lev q \<noteq> None \<and> l \<le> Suc (the (map_of lev q)))"
          using inv by blast+
        have "map_of lev' q \<noteq> None \<and> l \<le> Suc (the (map_of lev' q))"
          if "map_of lev q \<noteq> None \<and> l \<le> Suc (the (map_of lev q))" for q
          using mono [of q] that by linarith
        then show ?thesis using \<open>p \<in> P\<close> s by (auto split: if_splits)
      next
        case False
        then have p: "p \<in> set ds" "l = ?c" using l by (auto simp: up max_def split: if_splits option.splits)
        then have "current \<in> deps graph p" using ds by simp
        moreover have "map_of lev' current \<noteq> None \<and> l \<le> Suc (the (map_of lev' current))"
          using cur cur' p(2) by simp
        ultimately show ?thesis using closed [OF p(1)] p(2) by auto
      qed
    qed
  qed
qed

text \<open>A project graph: targets and sources are project packages, and a rank falls along every import.\<close>

definition ranked :: "(string, string list) gomap \<Rightarrow> string list \<Rightarrow> (string \<Rightarrow> nat) \<Rightarrow> bool" where
  "ranked graph P rank \<longleftrightarrow> gm_wf graph \<and>
     (\<forall>p q. q \<in> deps graph p \<longrightarrow> p \<in> set P \<and> q \<in> set P \<and> rank q < rank p)"

definition kahn_room :: "nat \<Rightarrow> (string \<Rightarrow> nat) \<Rightarrow> string list \<Rightarrow> nat multiset" where
  "kahn_room M rank queue = mset (map (\<lambda>q. M - rank q) queue)"

lemma kahn_loop_returns:
  assumes "ranked graph P rank" and "\<forall>p\<in>set P. rank p \<le> M"
    and "kahn_inv graph (set P) queue lev D"
  shows "\<exists>lev' D'. kahn_loop graph (buildReverseGraph graph) queue lev = Some lev' \<and> kahn_inv graph (set P) [] lev' D'"
  using assms(3)
proof (induction "kahn_room M rank queue" arbitrary: queue lev D rule: wf_induct_rule [OF wf_mult [OF wf_less_than]])
  case 1
  show ?case
  proof (cases queue)
    case Nil
    then show ?thesis using 1(2) by (subst kahn_loop.simps) auto
  next
    case (Cons current rest)
    let ?ds = "gm_get [] (buildReverseGraph graph) current"
    let ?lev' = "raise_levels (gm_get 0 lev current + 1) ?ds lev"
    let ?new = "filter (\<lambda>d. depsReady d graph ?lev') ?ds"
    have wf: "gm_wf graph" and rk: "\<And>p q. q \<in> deps graph p \<Longrightarrow> p \<in> set P \<and> q \<in> set P \<and> rank q < rank p"
      using assms(1) by (auto simp: ranked_def)
    have ds: "p \<in> set ?ds \<longleftrightarrow> current \<in> deps graph p" for p by (rule buildReverseGraph_set [OF wf])
    have inv': "kahn_inv graph (set P) (rest @ ?new) ?lev' ((D \<union> {current}) - {d \<in> set ?ds. depsReady d graph ?lev'})"
      by (rule kahn_step [OF _ _ ds _ refl refl]) (use 1(2) Cons rk ds in auto)
    have small: "M - rank d < M - rank current" if "d \<in> set ?new" for d
    proof -
      have "current \<in> deps graph d" using that ds by simp
      then have "rank current < rank d" "rank d \<le> M" using rk assms(2) by auto
      then show ?thesis by simp
    qed
    have "(kahn_room M rank rest + mset (map (\<lambda>q. M - rank q) ?new), kahn_room M rank rest + {#M - rank current#})
        \<in> mult less_than"
      by (rule one_step_implies_mult) (use small in auto)
    then have "(kahn_room M rank (rest @ ?new), kahn_room M rank queue) \<in> mult less_than"
      by (simp add: kahn_room_def Cons)
    from 1(1) [OF this inv'] show ?thesis
      by (subst kahn_loop.simps) (simp add: Cons Let_def)
  qed
qed

lemma zero_levels: "map_of (fold (\<lambda>p m. gm_put p 0 m) ps m) q = (if q \<in> set ps then Some 0 else map_of m q)"
  by (induction ps arbitrary: m) auto

lemma fill_levels:
  "(\<forall>p\<in>set ps. map_of m p \<noteq> None) \<Longrightarrow> fold (\<lambda>p m. if gm_has m p then m else gm_put p 0 m) ps m = m"
  by (induction ps) (auto simp: gm_has_def)

lemma kahn_inv_final:
  assumes "ranked graph P rank" and "kahn_inv graph (set P) [] lev D"
  shows "set P \<subseteq> D"
proof
  fix p
  assume "p \<in> set P"
  then show "p \<in> D"
  proof (induction "rank p" arbitrary: p rule: less_induct)
    case less
    have "deps graph p \<subseteq> D" using less assms(1) by (auto simp: ranked_def)
    then show ?case using less(2) assms(2) by (simp add: kahn_inv_def)
  qed
qed

text \<open>
  C25: on an acyclic project graph \<^verbatim>\<open>kahnLayers\<close> returns, and the level of a package is
  the length of its longest dependency chain: 0 without dependencies, otherwise one more than the
  highest level among its dependencies.
\<close>

theorem kahnLayers_longest:
  assumes "ranked graph P rank"
  shows "\<exists>lev. kahnLayers P graph = Some lev \<and> (\<forall>p\<in>set P. gm_has lev p \<and>
    gm_get 0 lev p = (if deps graph p = {} then 0 else Suc (Max (gm_get 0 lev ` deps graph p))))"
proof -
  let ?seeds = "kahn_seeds P graph"
  have seeds: "q \<in> set ?seeds \<longleftrightarrow> q \<in> set P \<and> deps graph q = {}" for q
    by (auto simp: kahn_seeds_def deps_def)
  have "kahn_inv graph (set P) (sort_by (<) ?seeds) (fold (\<lambda>p m. gm_put p 0 m) ?seeds []) {}"
    unfolding kahn_inv_def zero_levels by (auto simp: seeds depsReady_iff zero_levels split: if_splits)
  moreover obtain M where "\<forall>p\<in>set P. rank p \<le> M"
    by (metis List.finite_set finite_imageI finite_nat_set_iff_bounded_le image_eqI)
  ultimately obtain lev D where run: "kahn_loop graph (buildReverseGraph graph) (sort_by (<) ?seeds)
      (fold (\<lambda>p m. gm_put p 0 m) ?seeds []) = Some lev" and inv: "kahn_inv graph (set P) [] lev D"
    using kahn_loop_returns [OF assms] by blast
  have PD: "set P \<subseteq> D" by (rule kahn_inv_final [OF assms inv])
  have has: "map_of lev p \<noteq> None" if "p \<in> set P" for p using that PD inv by (auto simp: kahn_inv_def)
  have the: "gm_get 0 lev p = the (map_of lev p)" if "p \<in> set P" for p
    using has [OF that] by (auto simp: gm_get_def)
  have "kahnLayers P graph = Some lev" using run has by (simp add: kahnLayers_def Let_def fill_levels)
  moreover have "gm_has lev p \<and>
      gm_get 0 lev p = (if deps graph p = {} then 0 else Suc (Max (gm_get 0 lev ` deps graph p)))" if p: "p \<in> set P" for p
  proof (cases "deps graph p = {}")
    case True
    then show ?thesis using has [OF p] inv the [OF p] by (auto simp: kahn_inv_def gm_has_def)
  next
    case False
    have q: "q \<in> set P" if "q \<in> deps graph p" for q using that assms by (auto simp: ranked_def)
    have above: "Suc (gm_get 0 lev q) \<le> gm_get 0 lev p" if "q \<in> deps graph p" for q
      using that inv PD q [OF that] p by (auto simp: kahn_inv_def the Suc_le_eq)
    obtain q where s: "q \<in> deps graph p" "the (map_of lev p) \<le> Suc (the (map_of lev q))"
      using inv has [OF p] False unfolding kahn_inv_def by (metis option.collapse)
    then have "gm_get 0 lev p = Suc (gm_get 0 lev q)" using above [OF s(1)] the q p by fastforce
    moreover have "Max (gm_get 0 lev ` deps graph p) = gm_get 0 lev q"
      by (rule Max_eqI) (use s(1) above calculation in \<open>auto simp: deps_def\<close>)
    ultimately show ?thesis using False has [OF p] by (simp add: gm_has_def)
  qed
  ultimately show ?thesis by blast
qed

text \<open>
  A package \<open>p\<close> that depends on itself and on a leaf \<open>c\<close>: from the moment \<open>c\<close> is in the queue, \<open>p\<close> or
  \<open>c\<close> is always in it.
\<close>

definition kahn_stuck :: "(string, string list) gomap \<Rightarrow> (string, string list) gomap \<Rightarrow> string \<Rightarrow> string
    \<Rightarrow> string list \<Rightarrow> (string, nat) gomap \<Rightarrow> bool" where
  "kahn_stuck graph reverse p c queue lev \<longleftrightarrow>
     p \<in> set (gm_get [] reverse p) \<and> p \<in> set (gm_get [] reverse c)
     \<and> (\<forall>q\<in>deps graph p. q = p \<or> map_of lev q \<noteq> None)
     \<and> (p \<in> set queue \<or> c \<in> set queue)"

lemma kahn_stuck_step:
  assumes "kahn_stuck graph reverse p c (current # rest) lev"
    and ds: "ds = gm_get [] reverse current" and lev': "lev' = raise_levels k ds lev"
  shows "kahn_stuck graph reverse p c (rest @ filter (\<lambda>d. depsReady d graph lev') ds) lev'"
proof -
  have keep: "map_of lev q \<noteq> None \<Longrightarrow> map_of lev' q \<noteq> None" for q
    by (simp add: lev' raise_levels_lookup)
  have "p \<in> set (filter (\<lambda>d. depsReady d graph lev') ds)" if "current = p \<or> current = c"
  proof -
    have "p \<in> set ds" using that assms(1) ds by (auto simp: kahn_stuck_def)
    moreover from this have "map_of lev' p \<noteq> None" by (simp add: lev' raise_levels_lookup)
    ultimately show ?thesis using assms(1) keep by (auto simp: kahn_stuck_def depsReady_iff)
  qed
  then show ?thesis using assms(1) keep by (auto simp: kahn_stuck_def)
qed

lemma kahn_loop_never:
  assumes "kahn_loop graph reverse queue lev = Some out"
  shows "\<not> kahn_stuck graph reverse p c queue lev"
proof (rule kahn_loop.raw_induct [where P = "\<lambda>graph reverse queue lev out. \<not> kahn_stuck graph reverse p c queue lev", OF _ assms])
  fix loop graph reverse queue lev and out :: "(string, nat) gomap"
  assume IH: "\<And>graph reverse queue lev out. loop graph reverse queue lev = Some out \<Longrightarrow> \<not> kahn_stuck graph reverse p c queue lev"
    and step: "(case queue of [] \<Rightarrow> Some lev
      | current # rest \<Rightarrow>
          let ds = gm_get [] reverse current;
              lev' = raise_levels (gm_get 0 lev current + 1) ds lev
          in loop graph reverse (rest @ filter (\<lambda>d. depsReady d graph lev') ds) lev') = Some out"
  show "\<not> kahn_stuck graph reverse p c queue lev"
  proof (cases queue)
    case Nil
    then show ?thesis by (simp add: kahn_stuck_def)
  next
    case (Cons current rest)
    show ?thesis
    proof
      assume "kahn_stuck graph reverse p c queue lev"
      from kahn_stuck_step [OF this [unfolded Cons] refl refl, of "gm_get 0 lev current + 1"]
      show False using IH step by (simp add: Cons Let_def)
    qed
  qed
qed

text \<open>
  C26: \<^verbatim>\<open>kahnLayers\<close> never returns on a graph in which a package depends on itself, on a leaf package, and
  otherwise only on leaf packages: the guard against levels already assigned only compares them, so each visit raises the
  level and queues the package again. (A further dependency that never gets a level would keep the package from being visited.)
  The witness reaches it from the store: a package whose import path ends in the name of a standard package that it imports.
\<close>

theorem kahnLayers_hangs:
  assumes "gm_wf graph" and "p \<in> deps graph p" "c \<in> deps graph p" "c \<in> set P" "deps graph c = {}"
    and "\<forall>q\<in>deps graph p. q = p \<or> q \<in> set P \<and> deps graph q = {}"
  shows "kahnLayers P graph = None"
proof -
  let ?seeds = "kahn_seeds P graph"
  have seeds: "q \<in> set ?seeds \<longleftrightarrow> q \<in> set P \<and> deps graph q = {}" for q
    by (auto simp: kahn_seeds_def deps_def)
  have "kahn_stuck graph (buildReverseGraph graph) p c (sort_by (<) ?seeds) (fold (\<lambda>p m. gm_put p 0 m) ?seeds [])"
    unfolding kahn_stuck_def using assms(2-6) by (auto simp: buildReverseGraph_set [OF assms(1)] zero_levels seeds)
  then have "kahn_loop graph (buildReverseGraph graph) (sort_by (<) ?seeds) (fold (\<lambda>p m. gm_put p 0 m) ?seeds []) = None"
    using kahn_loop_never by (metis option.exhaust)
  then show ?thesis by (simp add: kahnLayers_def Let_def)
qed

section \<open>A project that hangs\<close>

definition hang_row :: "string \<Rightarrow> edge_row" where
  "hang_row to = \<lparr>ew_from = ''m/errors'', ew_to = to, ew_type = ''imports'', ew_file = ''e.go'', ew_line = 3,
     ew_sites = Some ''[]'', ew_module = None\<rparr>"

definition hang_package :: "string \<Rightarrow> package" where
  "hang_package path = \<lparr>pk_Path = path, pk_Name = [], pk_Dir = [], pk_Doc = [], pk_Repo = [], pk_SymCount = 0,
     pk_IsTest = False, pk_IsGenerated = False\<rparr>"

definition hang_db :: store_db where
  "hang_db = (list_db [hang_row ''errors'', hang_row ''m/leaf''] [] [])
     \<lparr>db_packages := Inr [hang_package ''m/errors'', hang_package ''m/leaf''],
      db_sites := (\<lambda>_. Inr [\<lparr>st_File = ''e.go'', st_Line = 3, st_Column = 2\<rparr>])\<rparr>"

lemma hang_graph: "buildProjectGraph hang_db [''m/errors'', ''m/leaf''] = Inr ([(''m/errors'', [''m/errors'', ''m/leaf''])],
    [(''m/errors'', 1), (''m/leaf'', 1)], [(''m/errors'', 2)])"
  by (simp add: buildProjectGraph_def runtimeImportEdges_def EdgesByType_def queryEdges_def hang_db_def list_db_def
      hang_row_def scanEdges_def scan_edge_def edgeTypeImports_def dropTestOnlyImports_def dropTestImportSites_def
      resolveProjectTarget_def has_suffix_def gm_append_def gm_put_def gm_get_def Let_def)

theorem kahnLayers_hangs_witness:
  "DependencyLayers hang_db False 0 = None"
proof -
  have ps: "db_packages hang_db = Inr [hang_package ''m/errors'', hang_package ''m/leaf'']"
    "project_set False [hang_package ''m/errors'', hang_package ''m/leaf''] = [''m/errors'', ''m/leaf'']"
    by (simp_all add: hang_db_def project_set_def hang_package_def)
  have d: "deps [(''m/errors'', [''m/errors'', ''m/leaf''])] ''m/errors'' = {''m/errors'', ''m/leaf''}"
    "deps [(''m/errors'', [''m/errors'', ''m/leaf''])] ''m/leaf'' = {}"
    by (simp_all add: deps_def gm_get_def)
  have "kahnLayers [''m/errors'', ''m/leaf''] [(''m/errors'', [''m/errors'', ''m/leaf''])] = None"
    by (rule kahnLayers_hangs [where p = "''m/errors''" and c = "''m/leaf''"]) (simp_all add: d gm_wf_def)
  then show ?thesis by (simp add: DependencyLayers_def ps hang_graph)
qed

theorem kahnLayers_longest_witness:
  "\<exists>lev. kahnLayers [''a'', ''b''] [(''a'', [''b''])] = Some lev \<and> gm_get 0 lev ''a'' = 1 \<and> gm_get 0 lev ''b'' = 0"
proof -
  have d: "deps [(''a'', [''b''])] p = (if p = ''a'' then {''b''} else {})" for p
    by (simp add: deps_def gm_get_def)
  have "ranked [(''a'', [''b''])] [''a'', ''b''] (\<lambda>p. if p = ''a'' then 1 else 0)"
    by (auto simp: ranked_def d gm_wf_def split: if_splits)
  from kahnLayers_longest [OF this] show ?thesis by (auto simp: d)
qed
end
