(* ===== verification/Cycles.thy ===== *)
theory Cycles
  imports Layers Graph_Proofs
begin

text \<open>
  The cycle finder of \<open>Layers\<close>: its recursion needs no more depth than there are nodes
  (\<open>dfs_total\<close>), whatever it reports is a simple cycle of the edge table (\<open>dfs_sound\<close>), and a simple
  cycle is met from its smallest node (\<open>dfs_finds\<close>); \<open>canonicalCycle\<close> identifies exactly the rotations of
  a cycle (\<open>rotation_canonical\<close>).
\<close>

section \<open>The stack\<close>

definition stack_ok :: "cycle_finder \<Rightarrow> bool" where
  "stack_ok f \<longleftrightarrow> distinct (cf_path f) \<and> set (cf_inStack f) = set (cf_path f)"

definition same_stack :: "cycle_finder \<Rightarrow> cycle_finder \<Rightarrow> bool" where
  "same_stack f f' \<longleftrightarrow> cf_path f' = cf_path f \<and> set (cf_inStack f') = set (cf_inStack f)
     \<and> set (cf_seen f) \<subseteq> set (cf_seen f') \<and> length (cf_cycles f) \<le> length (cf_cycles f')"

lemma same_stack_refl [simp]: "same_stack f f"
  by (simp add: same_stack_def)

lemma same_stack_trans: "same_stack f g \<Longrightarrow> same_stack g h \<Longrightarrow> same_stack f h"
  by (auto simp: same_stack_def)

lemma same_stack_truncated [simp]: "same_stack f (g\<lparr>cf_truncated := b\<rparr>) = same_stack f g"
  by (simp add: same_stack_def)

lemma same_stack_ok: "same_stack f g \<Longrightarrow> stack_ok f \<Longrightarrow> stack_ok g"
  by (simp add: same_stack_def stack_ok_def)

lemma capped_truncated [simp]: "capped (f\<lparr>cf_truncated := b\<rparr>) = capped f"
  by (simp add: capped_def)

lemma capped_same: "same_stack f g \<Longrightarrow> capped f \<Longrightarrow> capped g"
  by (simp add: same_stack_def capped_def)

lemma emit_same: "same_stack f (emit node f)"
  by (auto simp: same_stack_def emit_def Let_def)

lemma enter_ok: "stack_ok f \<Longrightarrow> node \<notin> set (cf_inStack f) \<Longrightarrow> stack_ok (enter_node node f)"
  by (auto simp: stack_ok_def enter_node_def)

lemma leave_same:
  assumes "same_stack (enter_node node f) g" "node \<notin> set (cf_inStack f)"
  shows "same_stack f (leave_node node g)"
proof -
  have "set (cf_inStack g) = insert node (set (cf_inStack f))" "cf_path g = cf_path f @ [node]"
    using assms(1) by (auto simp: same_stack_def enter_node_def)
  then show ?thesis using assms by (auto simp: same_stack_def leave_node_def enter_node_def)
qed

lemma dfs_same:
  "dfs n graph rt node f = Some f' \<Longrightarrow> same_stack f f'"
  "dfs_children n graph rt nodes f = Some f' \<Longrightarrow> same_stack f f'"
proof (induction n graph rt node f and n graph rt nodes f arbitrary: f' and f' rule: dfs_dfs_children.induct)
  case (2 n graph rt node f)
  show ?case
  proof (cases "capped f \<or> node \<in> set (cf_inStack f)")
    case True
    then show ?thesis using "2.prems" emit_same by (auto split: if_splits)
  next
    case False
    then obtain g where "f' = leave_node node g" "same_stack (enter_node node f) g"
      using "2.prems" "2.IH" by (auto split: if_splits option.splits)
    then show ?thesis using leave_same False by blast
  qed
next
  case (4 n graph rt nxt nodes f)
  then show ?case by (auto split: if_splits option.splits intro: same_stack_trans)
qed auto

text \<open>Enough depth: the stack holds distinct nodes of the finite graph.\<close>

lemma dfs_total:
  "stack_ok f \<Longrightarrow> set (cf_path f) \<subseteq> N \<Longrightarrow> node \<in> N \<Longrightarrow> card N < n + length (cf_path f) \<Longrightarrow>
     finite N \<Longrightarrow> (\<And>x. set (gm_get [] graph x) \<subseteq> N) \<Longrightarrow> \<exists>f'. dfs n graph rt node f = Some f'"
  "stack_ok f \<Longrightarrow> set (cf_path f) \<subseteq> N \<Longrightarrow> set nodes \<subseteq> N \<Longrightarrow> card N < n + length (cf_path f) \<Longrightarrow>
     finite N \<Longrightarrow> (\<And>x. set (gm_get [] graph x) \<subseteq> N) \<Longrightarrow> \<exists>f'. dfs_children n graph rt nodes f = Some f'"
proof (induction n graph rt node f and n graph rt nodes f rule: dfs_dfs_children.induct)
  case (1 graph rt node f)
  have "length (cf_path f) \<le> card N"
    using 1 by (metis card_mono distinct_card stack_ok_def)
  then show ?case using 1 by simp
next
  case (2 n graph rt node f)
  show ?case
  proof (cases "capped f \<or> node \<in> set (cf_inStack f)")
    case False
    then have "stack_ok (enter_node node f)" "set (cf_path (enter_node node f)) \<subseteq> N"
      "card N < n + length (cf_path (enter_node node f))"
      using 2 enter_ok by (auto simp: enter_node_def)
    then have "rt \<le> node \<Longrightarrow> \<exists>f'. dfs_children n graph rt (gm_get [] graph node) (enter_node node f) = Some f'"
      using 2 False by blast
    then show ?thesis using False by auto
  qed auto
next
  case (4 n graph rt nxt nodes f)
  then obtain g where g: "dfs n graph rt nxt f = Some g" by auto
  then have s: "same_stack f g" by (rule dfs_same)
  then have "stack_ok g" "cf_path g = cf_path f" using 4 same_stack_ok by (auto simp: same_stack_def)
  then show ?case using 4 g by auto
qed auto

definition is_cycle :: "(string \<times> string) set \<Rightarrow> string list \<Rightarrow> bool" where
  "is_cycle E c \<longleftrightarrow> 2 \<le> length c \<and> hd c = last c \<and> distinct (butlast c) \<and> successively (\<lambda>a b. (a, b) \<in> E) c"

definition graph_of :: "(string, string list) gomap \<Rightarrow> (string \<times> string) set" where
  "graph_of graph = {(x, y). y \<in> set (gm_get [] graph x)}"

definition cycles_ok :: "(string, string list) gomap \<Rightarrow> cycle_finder \<Rightarrow> bool" where
  "cycles_ok graph f \<longleftrightarrow> (\<forall>c\<in>set (cf_cycles f). is_cycle (graph_of graph) (fst c) \<and> \<not> snd c)
     \<and> cf_seen f = rev (map (canonicalCycle \<circ> fst) (cf_cycles f)) \<and> distinct (cf_seen f)"

lemma cycles_ok_stack [simp]:
  "cycles_ok graph (f\<lparr>cf_truncated := b\<rparr>) = cycles_ok graph f"
  "cycles_ok graph (enter_node x f) = cycles_ok graph f"
  "cycles_ok graph (leave_node x f) = cycles_ok graph f"
  unfolding cycles_ok_def enter_node_def leave_node_def by simp_all

abbreviation walk :: "(string, string list) gomap \<Rightarrow> string list \<Rightarrow> bool" where
  "walk graph p \<equiv> successively (\<lambda>a b. (a, b) \<in> graph_of graph) p"

lemma emit_ok:
  assumes "cycles_ok graph f" "stack_ok f" "walk graph (cf_path f @ [node])"
  shows "cycles_ok graph (emit node f)"
proof (cases "node \<in> set (cf_path f)")
  case False
  then show ?thesis using assms(1) by (simp add: emit_def)
next
  case True
  then obtain as bs where p: "cf_path f = as @ node # bs" "node \<notin> set as" by (meson split_list_first)
  then have d: "dropWhile (\<lambda>p. p \<noteq> node) (cf_path f) = node # bs" by (auto simp: dropWhile_append)
  have "walk graph (node # bs @ [node])" using assms(3) p(1) by (simp add: successively_append_iff)
  moreover have "distinct (node # bs)" using assms(2) p(1) by (simp add: stack_ok_def)
  ultimately have "is_cycle (graph_of graph) (node # bs @ [node])" by (simp add: is_cycle_def butlast_append)
  then show ?thesis using assms(1) True by (auto simp: emit_def d Let_def cycles_ok_def)
qed

lemma dfs_sound:
  "dfs n graph rt node f = Some f' \<Longrightarrow> cycles_ok graph f \<Longrightarrow> stack_ok f \<Longrightarrow> walk graph (cf_path f @ [node]) \<Longrightarrow>
     cycles_ok graph f'"
  "dfs_children n graph rt nodes f = Some f' \<Longrightarrow> cycles_ok graph f \<Longrightarrow> stack_ok f \<Longrightarrow>
     (\<forall>x\<in>set nodes. walk graph (cf_path f @ [x])) \<Longrightarrow> cycles_ok graph f'"
proof (induction n graph rt node f and n graph rt nodes f arbitrary: f' and f' rule: dfs_dfs_children.induct)
  case (2 n graph rt node f)
  show ?case
  proof (cases "capped f \<or> node \<in> set (cf_inStack f)")
    case True
    then consider "f' = f\<lparr>cf_truncated := True\<rparr>" | "f' = emit node f" using "2.prems"(1) by (auto split: if_splits)
    then show ?thesis
    proof cases
      case 1
      then show ?thesis using "2.prems"(2) by simp
    qed (use "2.prems"(2-4) emit_ok in blast)
  next
    case False
    let ?g = "enter_node node f"
    have ok: "cycles_ok graph ?g" "stack_ok ?g" using "2.prems"(2,3) False enter_ok by auto
    have "\<forall>x\<in>set (gm_get [] graph node). walk graph (cf_path ?g @ [x])"
      using "2.prems"(4) by (auto simp: enter_node_def successively_append_iff graph_of_def)
    then obtain g where "f' = leave_node node g" "cycles_ok graph g"
      using 2 False ok by (auto split: if_splits option.splits)
    then show ?thesis by simp
  qed
next
  case (4 n graph rt nxt nodes f)
  obtain g where g: "dfs n graph rt nxt f = Some g" using "4.prems"(1) by (auto split: option.splits)
  have s: "same_stack f g" by (rule dfs_same(1) [OF g])
  then have sg: "stack_ok g" "cf_path g = cf_path f" using "4.prems"(3) same_stack_ok by (auto simp: same_stack_def)
  have og: "cycles_ok graph g" using "4.IH"(1) [OF g "4.prems"(2,3)] "4.prems"(4) by simp
  show ?case
  proof (cases "capped g")
    case True
    then show ?thesis using "4.prems"(1) g og by auto
  next
    case False
    then show ?thesis using "4.IH"(2) [OF g False _ og sg(1)] "4.prems"(1,4) g sg(2) by simp
  qed
qed auto

text \<open>Completeness: the search that starts at a node of a cycle none of whose nodes is smaller visits it.\<close>

lemma dfs_children_visits:
  "dfs_children n graph rt nodes f = Some f' \<Longrightarrow> \<not> capped f' \<Longrightarrow> x \<in> set nodes \<Longrightarrow>
     \<exists>g h. same_stack f g \<and> dfs n graph rt x g = Some h \<and> same_stack h f' \<and> \<not> capped h"
proof (induction nodes arbitrary: f)
  case (Cons y nodes)
  obtain h where h: "dfs n graph rt y f = Some h" using Cons.prems(1) by (auto split: option.splits)
  have nc: "\<not> capped h" using Cons.prems(1,2) h by (auto split: if_splits)
  then have rest: "dfs_children n graph rt nodes h = Some f'" using Cons.prems(1) h by simp
  show ?case
  proof (cases "x = y")
    case True
    then show ?thesis using h nc dfs_same(2) [OF rest] by (intro exI [where x = f] exI [where x = h]) simp
  next
    case False
    then show ?thesis using Cons.IH [OF rest Cons.prems(2)] Cons.prems(3) dfs_same(1) [OF h] same_stack_trans by fastforce
  qed
qed simp

lemma str_join_nonempty: "rot \<noteq> [] \<Longrightarrow> sep \<noteq> [] \<Longrightarrow> str_join sep (rot @ [x]) \<noteq> []"
  by (cases rot; cases "tl rot") (auto simp: str_join_Cons_Cons)

lemma canonical_nonempty: "2 \<le> length c \<Longrightarrow> hd c = last c \<Longrightarrow> canonicalCycle c \<noteq> []"
  unfolding canonicalCycle_def Let_def by (simp add: str_join_nonempty)

lemma emit_sees:
  assumes "cf_path f = rt # bs" "distinct (cf_path f)"
  shows "canonicalCycle (rt # bs @ [rt]) \<in> set (cf_seen (emit rt f))"
  using assms canonical_nonempty [of "rt # bs @ [rt]"] by (auto simp: emit_def Let_def)

lemma dfs_finds:
  assumes "dfs n graph rt node f = Some f'" "\<not> capped f'" "stack_ok f"
    and "distinct (cf_path f @ node # rest)" "walk graph (cf_path f @ node # rest @ [rt])"
    and "hd (cf_path f @ [node]) = rt" "\<forall>x\<in>set (node # rest). rt \<le> x"
  shows "canonicalCycle (cf_path f @ node # rest @ [rt]) \<in> set (cf_seen f')"
  using assms
proof (induction rest arbitrary: n node f f')
  case Nil
  note IHfree = Nil
  show ?case
  proof (cases n)
    case (Suc m)
    have nc: "\<not> capped f" using Nil(1,2) dfs_same(1) capped_same by blast
    have ns: "node \<notin> set (cf_inStack f)" using Nil(3,4) by (simp add: stack_ok_def)
    obtain g where g: "dfs_children m graph rt (gm_get [] graph node) (enter_node node f) = Some g" "f' = leave_node node g"
      using Nil(1,7) Suc nc ns by (auto split: option.splits)
    have "rt \<in> set (gm_get [] graph node)" using Nil(5) by (simp add: successively_append_iff graph_of_def)
    moreover have "\<not> capped g" using Nil(2) g(2) by (simp add: capped_def leave_node_def)
    ultimately obtain a b where ab: "same_stack (enter_node node f) a" "dfs m graph rt rt a = Some b" "same_stack b g" "\<not> capped b"
      using dfs_children_visits [OF g(1)] by blast
    have path: "cf_path a = cf_path f @ [node]" "set (cf_inStack a) = set (cf_path f @ [node])"
      using ab(1) Nil(3) by (auto simp: same_stack_def enter_node_def stack_ok_def)
    obtain bs where bs: "cf_path a = rt # bs" using path(1) Nil(6) by (cases "cf_path f") auto
    have "rt \<in> set (cf_inStack a)" unfolding path(2) path(1) [symmetric] bs by simp
    moreover have "\<not> capped a" using ab(2,4) dfs_same(1) capped_same by blast
    ultimately have "b = emit rt a" using ab(2) by (cases m) auto
    then have "canonicalCycle (rt # bs @ [rt]) \<in> set (cf_seen b)"
      using emit_sees [OF bs] path(1) Nil(4) by simp
    moreover have "rt # bs @ [rt] = cf_path f @ node # [] @ [rt]" using path(1) bs by (metis append_Cons append_Nil append_assoc)
    ultimately show ?thesis using ab(3) g(2) by (auto simp: same_stack_def leave_node_def)
  qed (use Nil(1) in simp)
next
  case (Cons x rest)
  show ?case
  proof (cases n)
    case (Suc m)
    have nc: "\<not> capped f" using Cons.prems(1,2) dfs_same(1) capped_same by blast
    have ns: "node \<notin> set (cf_inStack f)" using Cons.prems(3,4) by (simp add: stack_ok_def)
    obtain g where g: "dfs_children m graph rt (gm_get [] graph node) (enter_node node f) = Some g" "f' = leave_node node g"
      using Cons.prems(1,7) Suc nc ns by (auto split: option.splits)
    have "x \<in> set (gm_get [] graph node)" using Cons.prems(5) by (simp add: successively_append_iff graph_of_def)
    moreover have "\<not> capped g" using Cons.prems(2) g(2) by (simp add: capped_def leave_node_def)
    ultimately obtain a b where ab: "same_stack (enter_node node f) a" "dfs m graph rt x a = Some b" "same_stack b g" "\<not> capped b"
      using dfs_children_visits [OF g(1)] by blast
    have path: "cf_path a = cf_path f @ [node]" using ab(1) by (simp add: same_stack_def enter_node_def)
    have "canonicalCycle (cf_path a @ x # rest @ [rt]) \<in> set (cf_seen b)"
    proof (rule Cons.IH [OF ab(2,4)])
      show "stack_ok a" using ab(1) enter_ok [OF Cons.prems(3) ns] same_stack_ok by blast
      show "hd (cf_path a @ [x]) = rt" using Cons.prems(6) path by (cases "cf_path f") auto
    qed (use Cons.prems(4,5,7) path in auto)
    then show ?thesis using ab(3) g(2) path by (auto simp: same_stack_def leave_node_def)
  qed (use Cons.prems(1) in simp)
qed

section \<open>The bound on the number of cycles\<close>

definition count_ok :: "cycle_finder \<Rightarrow> bool" where
  "count_ok f \<longleftrightarrow> length (cf_cycles f) \<le> maxCycles \<and> (cf_truncated f \<longrightarrow> capped f)"

lemma count_ok_stack [simp]:
  "count_ok (enter_node x f) = count_ok f" "count_ok (leave_node x f) = count_ok f"
  unfolding count_ok_def capped_def enter_node_def leave_node_def by simp_all

lemma count_ok_truncated: "capped f \<Longrightarrow> count_ok f \<Longrightarrow> count_ok (f\<lparr>cf_truncated := True\<rparr>)"
  by (simp add: count_ok_def)

lemma count_ok_emit: "\<not> capped f \<Longrightarrow> count_ok f \<Longrightarrow> count_ok (emit node f)"
  by (auto simp: count_ok_def capped_def emit_def Let_def)

lemma dfs_count:
  "dfs n graph rt node f = Some f' \<Longrightarrow> count_ok f \<Longrightarrow> count_ok f'"
  "dfs_children n graph rt nodes f = Some f' \<Longrightarrow> count_ok f \<Longrightarrow> count_ok f'"
proof (induction n graph rt node f and n graph rt nodes f arbitrary: f' and f' rule: dfs_dfs_children.induct)
  case (2 n graph rt node f)
  consider "capped f" "f' = f\<lparr>cf_truncated := True\<rparr>" | "\<not> capped f" "f' = emit node f"
    | "\<not> capped f" "node \<notin> set (cf_inStack f)" using "2.prems"(1) by (auto split: if_splits)
  then show ?case
  proof cases
    case 3
    then show ?thesis using "2.prems" "2.IH" by (auto split: if_splits option.splits)
  qed (use "2.prems"(2) count_ok_truncated count_ok_emit in blast)+
next
  case (4 n graph rt nxt nodes f)
  then show ?case using count_ok_truncated by (auto split: if_splits option.splits)
qed auto

section \<open>The roots in order\<close>

definition at_rest :: "cycle_finder \<Rightarrow> bool" where
  "at_rest f \<longleftrightarrow> cf_path f = [] \<and> cf_inStack f = []"

lemma at_rest_ok: "at_rest f \<Longrightarrow> stack_ok f"
  by (simp add: at_rest_def stack_ok_def)

lemma at_rest_same: "same_stack f g \<Longrightarrow> at_rest f \<Longrightarrow> at_rest g"
  by (simp add: same_stack_def at_rest_def)

lemma cycle_roots_total:
  assumes "finite N" "card N < n" "\<And>x. set (gm_get [] graph x) \<subseteq> N"
  shows "at_rest f \<Longrightarrow> set rts \<subseteq> N \<Longrightarrow> \<exists>f'. cycle_roots n graph rts f = Some f'"
proof (induction rts arbitrary: f)
  case (Cons rt rts)
  obtain g where g: "dfs n graph rt rt f = Some g"
    using dfs_total(1) [of f N rt n graph rt] at_rest_ok [OF Cons.prems(1)] Cons.prems assms by (auto simp: at_rest_def)
  then show ?case using Cons at_rest_same [OF dfs_same(1) [OF g]] by auto
qed simp

lemma cycle_roots_sound:
  "cycle_roots n graph rts f = Some f' \<Longrightarrow> at_rest f \<Longrightarrow> cycles_ok graph f \<Longrightarrow> count_ok f \<Longrightarrow>
     cycles_ok graph f' \<and> count_ok f' \<and> same_stack f f' \<and> (capped f' \<longrightarrow> rts \<noteq> [] \<longrightarrow> cf_truncated f')"
proof (induction rts arbitrary: f)
  case (Cons rt rts)
  obtain g where g: "dfs n graph rt rt f = Some g" using Cons.prems(1) by (auto split: option.splits)
  have s: "same_stack f g" by (rule dfs_same(1) [OF g])
  have walk: "walk graph (cf_path f @ [rt])" using Cons.prems(2) by (simp add: at_rest_def)
  have gs: "at_rest g" "cycles_ok graph g" "count_ok g"
    using at_rest_same [OF s] dfs_sound(1) [OF g _ _ walk] dfs_count(1) [OF g] at_rest_ok Cons.prems by auto
  show ?case
  proof (cases "capped g")
    case True
    then have f': "f' = g\<lparr>cf_truncated := True\<rparr>" using Cons.prems(1) g by simp
    show ?thesis unfolding f' using gs s True count_ok_truncated by simp
  next
    case False
    then have rest: "cycle_roots n graph rts g = Some f'" using Cons.prems(1) g by simp
    have "cycles_ok graph f' \<and> count_ok f' \<and> same_stack g f' \<and> (capped f' \<longrightarrow> rts \<noteq> [] \<longrightarrow> cf_truncated f')"
      by (rule Cons.IH [OF rest gs])
    then show ?thesis using same_stack_trans [OF s] rest False by (cases rts) auto
  qed
qed simp

lemma cycle_roots_finds:
  "cycle_roots n graph rts f = Some f' \<Longrightarrow> \<not> capped f' \<Longrightarrow> at_rest f \<Longrightarrow> rt \<in> set rts \<Longrightarrow>
     distinct (rt # rest) \<Longrightarrow> walk graph (rt # rest @ [rt]) \<Longrightarrow> \<forall>x\<in>set rest. rt \<le> x \<Longrightarrow>
     canonicalCycle (rt # rest @ [rt]) \<in> set (cf_seen f')"
proof (induction rts arbitrary: f)
  case (Cons r rts)
  obtain g where g: "dfs n graph r r f = Some g" using Cons.prems(1) by (auto split: option.splits)
  have nc: "\<not> capped g" using Cons.prems(1,2) g by (auto split: if_splits)
  have rest: "cycle_roots n graph rts g = Some f'" using Cons.prems(1) g nc by simp
  have ar: "at_rest g" by (rule at_rest_same [OF dfs_same(1) [OF g] Cons.prems(3)])
  have mono: "cycle_roots n graph rs h = Some h' \<Longrightarrow> set (cf_seen h) \<subseteq> set (cf_seen h')" for rs h h'
  proof (induction rs arbitrary: h)
    case (Cons a rs)
    then obtain k where k: "dfs n graph a a h = Some k" by (auto split: option.splits)
    have "set (cf_seen h) \<subseteq> set (cf_seen k)" using dfs_same(1) [OF k] by (simp add: same_stack_def)
    then show ?case using Cons k by (auto split: if_splits)
  qed simp
  show ?case
  proof (cases "r = rt")
    case True
    have p: "cf_path f = []" using Cons.prems(3) by (simp add: at_rest_def)
    have "canonicalCycle (cf_path f @ rt # rest @ [rt]) \<in> set (cf_seen g)"
      by (rule dfs_finds [OF g [unfolded True] nc at_rest_ok [OF Cons.prems(3)]]) (use p Cons.prems in auto)
    then show ?thesis using mono [OF rest] p by auto
  next
    case False
    then show ?thesis using Cons.IH [OF rest Cons.prems(2) ar] Cons.prems by simp
  qed
qed simp

section \<open>Rotations\<close>

lemma min_index_spec:
  "min_index c (Suc k) \<le> k \<and> (\<forall>i\<le>k. c ! min_index c (Suc k) \<le> c ! i)"
proof (induction k)
  case (Suc k)
  let ?m = "min_index c (Suc k)"
  have step: "min_index c (Suc (Suc k)) = (if c ! Suc k < c ! ?m then Suc k else ?m)" by (simp add: min_index_def)
  show ?case
  proof (cases "c ! Suc k < c ! ?m")
    case True
    then have "c ! Suc k \<le> c ! i" if "i \<le> k" for i using Suc that by (meson less_imp_le order.trans)
    then show ?thesis using step True by (auto simp: le_Suc_eq)
  next
    case False
    then show ?thesis using step Suc by (auto simp: le_Suc_eq)
  qed
qed (simp add: min_index_def)

lemma min_index_first:
  "\<forall>i\<le>k. c ! 0 \<le> c ! i \<Longrightarrow> min_index c (Suc k) = 0"
  by (induction k) (auto simp: min_index_def not_less)

lemma canonicalCycle_closed:
  assumes "p \<noteq> []"
  shows "canonicalCycle (p @ [hd p]) =
    (let q = rotate (min_index (p @ [hd p]) (length p)) p in str_join [CHR 0x00] (q @ [hd q]))"
proof -
  let ?m = "min_index (p @ [hd p]) (length p)"
  have "map (\<lambda>i. (p @ [hd p]) ! ((?m + i) mod length p)) [0..<length p] = rotate ?m p"
    using assms by (intro nth_equalityI) (auto simp: nth_rotate nth_append)
  then show ?thesis using assms by (simp add: canonicalCycle_def Let_def)
qed

lemma canonicalCycle_minimal:
  assumes "\<forall>x\<in>set rest. rt \<le> x"
  shows "canonicalCycle (rt # rest @ [rt]) = str_join [CHR 0x00] (rt # rest @ [rt])"
proof -
  have "min_index (rt # rest @ [rt]) (length (rt # rest)) = 0"
    unfolding length_Cons by (rule min_index_first) (use assms in \<open>auto simp: nth_Cons' nth_append\<close>)
  then show ?thesis using canonicalCycle_closed [of "rt # rest"] by simp
qed

lemma is_cycle_closed:
  "is_cycle E c \<longleftrightarrow> (\<exists>p. p \<noteq> [] \<and> distinct p \<and> c = p @ [hd p] \<and> successively (\<lambda>a b. (a, b) \<in> E) c)"
proof
  assume c: "is_cycle E c"
  then obtain p x where p: "c = p @ [x]" by (cases c rule: rev_cases) (auto simp: is_cycle_def)
  moreover have "p \<noteq> []" "x = hd p" using c p by (cases p; auto simp: is_cycle_def)+
  ultimately have "c = butlast c @ [hd (butlast c)]" "butlast c \<noteq> []" by simp_all
  then show "\<exists>p. p \<noteq> [] \<and> distinct p \<and> c = p @ [hd p] \<and> successively (\<lambda>a b. (a, b) \<in> E) c"
    using c by (auto simp: is_cycle_def)
qed (auto simp: is_cycle_def Suc_le_eq)

lemma walk_rotate1:
  assumes "successively R (p @ [hd p])" "p \<noteq> []"
  shows "successively R (rotate1 p @ [hd (rotate1 p)])"
proof (cases p)
  case (Cons a q)
  show ?thesis
  proof (cases q)
    case q: (Cons b q')
    have "successively R (b # q' @ [a])" "R a b" using assms(1) by (simp_all add: Cons q successively_Cons)
    then have "successively R ((b # q' @ [a]) @ [b])" unfolding successively_append_iff by simp
    then show ?thesis by (simp add: Cons q)
  qed (use assms(1) Cons in simp)
qed (use assms in simp)

lemma walk_rotate:
  assumes "successively R (p @ [hd p])" "p \<noteq> []"
  shows "successively R (rotate k p @ [hd (rotate k p)])"
proof (induction k)
  case (Suc k)
  show ?case using walk_rotate1 [OF Suc] assms(2) by simp
qed (use assms in simp)

text \<open>A cycle, started at its smallest node, has the same canonical form.\<close>

lemma canonicalCycle_rotated:
  assumes "is_cycle E c"
  obtains rt rest k where "rt # rest = rotate k (butlast c)" "distinct (rt # rest)"
    "successively (\<lambda>a b. (a, b) \<in> E) (rt # rest @ [rt])" "\<forall>x\<in>set rest. rt \<le> x"
    "canonicalCycle c = str_join [CHR 0x00] (rt # rest @ [rt])"
proof -
  obtain p where p: "p \<noteq> []" "distinct p" "c = p @ [hd p]" "successively (\<lambda>a b. (a, b) \<in> E) c"
    using assms is_cycle_closed by blast
  obtain n where n: "length p = Suc n" using p(1) by (cases p) auto
  let ?m = "min_index c (length p)"
  obtain rt rest where r: "rotate ?m p = rt # rest" using p(1) by (metis list.exhaust rotate_is_Nil_conv)
  have m: "?m \<le> n" "\<forall>i\<le>n. c ! ?m \<le> c ! i" using min_index_spec [of c n] n by auto
  have "rt = p ! ?m" using hd_rotate_conv_nth [OF p(1), of ?m] r m(1) n by simp
  then have "rt \<le> x" if "x \<in> set p" for x
    using that m n p(3) by (fastforce simp: in_set_conv_nth nth_append)
  moreover have "set rest \<subseteq> set p" using r by (metis set_rotate set_subset_Cons)
  ultimately have "\<forall>x\<in>set rest. rt \<le> x" by blast
  moreover have "distinct (rt # rest)" using p(2) r by (metis distinct_rotate)
  moreover have "successively (\<lambda>a b. (a, b) \<in> E) (rt # rest @ [rt])"
    using walk_rotate [OF p(4) [unfolded p(3)] p(1), of ?m] r by simp
  moreover have "canonicalCycle c = str_join [CHR 0x00] (rt # rest @ [rt])"
    using canonicalCycle_closed [OF p(1)] p(3) r by (simp add: Let_def)
  moreover have "rt # rest = rotate ?m (butlast c)" using r p(3) by simp
  ultimately show ?thesis using that by blast
qed

section \<open>All simple cycles, each once\<close>

definition edge_pairs :: "edge list \<Rightarrow> (string \<times> string) set" where
  "edge_pairs edges = (\<lambda>e. (eg_FromRef e, eg_ToRef e)) ` set edges"

lemma cycle_graph_set: "set (gm_get [] (cycle_graph edges) x) = {y. (x, y) \<in> edge_pairs edges}"
proof -
  have "gm_get [] (map (\<lambda>(k, tos). (k, h tos)) m) x = h (gm_get [] m x)" if "h [] = []"
    for h :: "string list \<Rightarrow> string list" and m
    unfolding gm_get_def by (induction m) (auto simp: that)
  then show ?thesis by (auto simp: cycle_graph_def group_by_get edge_pairs_def image_iff)
qed

lemma cycle_graph_of: "graph_of (cycle_graph edges) = edge_pairs edges"
  by (auto simp: graph_of_def cycle_graph_set)

lemma cycle_nodes_set: "set (cycle_nodes edges) = fst ` edge_pairs edges \<union> snd ` edge_pairs edges"
proof -
  have "set (dedup_by (\<lambda>n. n) [] xs) = set xs" for xs :: "string list"
    using dedup_by_keys [of "\<lambda>n. n" "[]" xs] by simp
  then show ?thesis by (auto simp: cycle_nodes_def edge_pairs_def image_Un image_image)
qed

definition rotation_of :: "string list \<Rightarrow> string list \<Rightarrow> bool" where
  "rotation_of c d \<longleftrightarrow> (\<exists>k. butlast d = rotate k (butlast c))"

lemma find_cycles_run:
  "\<exists>f. cycle_roots (length (cycle_nodes edges) + 1) (cycle_graph edges) (cycle_nodes edges) new_finder = Some f"
proof (rule cycle_roots_total)
  show "card (set (cycle_nodes edges)) < length (cycle_nodes edges) + 1" using card_length [of "cycle_nodes edges"] by simp
  show "set (gm_get [] (cycle_graph edges) x) \<subseteq> set (cycle_nodes edges)" for x
    by (force simp: cycle_graph_set cycle_nodes_set)
qed (simp_all add: at_rest_def new_finder_def)

lemma split_join_char: "ps \<noteq> [] \<Longrightarrow> \<forall>p\<in>set ps. c \<notin> set p \<Longrightarrow> split_char c (str_join [c] ps) = ps"
proof (induction ps rule: induct_list012)
  case (2 p)
  then show ?case by (induction p) auto
next
  case (3 p q ps)
  have "split_char c (s @ [c] @ r) = s # split_char c r" if "c \<notin> set s" for s r
    using that by (induction s) auto
  then show ?case using 3 by simp
qed simp

lemma is_cycle_nodes: "is_cycle E c \<Longrightarrow> set c \<subseteq> fst ` E"
proof -
  assume "is_cycle E c"
  then obtain p where p: "p \<noteq> []" "c = p @ [hd p]" "successively (\<lambda>a b. (a, b) \<in> E) c" by (auto simp: is_cycle_closed)
  have "set q \<subseteq> fst ` E" if "successively (\<lambda>a b. (a, b) \<in> E) (q @ [x])" for q x
    using that by (induction q) (force simp: successively_Cons split: if_splits)+
  then have "set p \<subseteq> fst ` E" using p by blast
  moreover have "hd p \<in> set p" using p(1) by simp
  ultimately show ?thesis using p(2) by auto
qed

lemma rotate_back: obtains k' where "xs = rotate k' (rotate k xs)"
proof (cases "xs = []")
  case False
  let ?n = "length xs"
  have "?n * Suc k = (?n * Suc k - k) + k" using False by (cases xs) auto
  then have "rotate (?n * Suc k - k) (rotate k xs) = rotate (?n * Suc k) xs" by (simp add: rotate_rotate)
  also have "\<dots> = xs" by (rule rotate_id) simp
  finally show ?thesis using that by metis
qed (use that in simp)

lemma rotate_least:
  assumes "b # bs = rotate k (a # as)" "distinct (a # as)" "\<forall>x\<in>set as. a \<le> x" "\<forall>x\<in>set bs. b \<le> x"
  shows "b # bs = (a # as :: string list)"
proof -
  let ?n = "length (a # as)"
  have s: "set (b # bs) = set (a # as)" using assms(1) by simp
  then have "a = b" using assms(3,4) by (metis antisym set_ConsD list.set_intros(1) order_refl)
  moreover have "hd (b # bs) = (a # as) ! (k mod ?n)" unfolding assms(1) by (rule hd_rotate_conv_nth) simp
  ultimately have "(a # as) ! (k mod ?n) = (a # as) ! 0" by simp
  then have "k mod ?n = 0" using assms(2) by (metis distinct_conv_nth length_greater_0_conv list.distinct(1) mod_less_divisor)
  then show ?thesis using assms(1) by (simp add: rotate_id)
qed

lemma rotation_canonical:
  assumes "is_cycle E c" "is_cycle E d"
  shows "rotation_of c d \<Longrightarrow> canonicalCycle c = canonicalCycle d"
    and "canonicalCycle c = canonicalCycle d \<Longrightarrow> (\<forall>x\<in>fst ` E. CHR 0x00 \<notin> set x) \<Longrightarrow> rotation_of c d"
proof -
  obtain a as i where c: "a # as = rotate i (butlast c)" "distinct (a # as)" "\<forall>x\<in>set as. a \<le> x"
      "canonicalCycle c = str_join [CHR 0x00] (a # as @ [a])"
    by (rule canonicalCycle_rotated [OF assms(1)])
  obtain b bs j where d: "b # bs = rotate j (butlast d)" "distinct (b # bs)" "\<forall>x\<in>set bs. b \<le> x"
      "canonicalCycle d = str_join [CHR 0x00] (b # bs @ [b])"
    by (rule canonicalCycle_rotated [OF assms(2)])
  {
    assume "rotation_of c d"
    then obtain k where k: "butlast d = rotate k (butlast c)" by (auto simp: rotation_of_def)
    obtain i' where i': "butlast c = rotate i' (rotate i (butlast c))" by (rule rotate_back)
    have "b # bs = rotate (j + (k + i')) (a # as)"
      unfolding d(1) k c(1) by (subst i') (simp only: rotate_rotate add.assoc)
    then have "b # bs = a # as" using rotate_least c(2,3) d(3) by blast
    then show "canonicalCycle c = canonicalCycle d" using c(4) d(4) by simp
  }
  {
    assume eq: "canonicalCycle c = canonicalCycle d" and nul: "\<forall>x\<in>fst ` E. CHR 0x00 \<notin> set x"
    have "set (a # as) \<subseteq> set c" "set (b # bs) \<subseteq> set d" unfolding c(1) d(1) by (auto dest: in_set_butlastD)
    then have "set (a # as) \<subseteq> fst ` E" "set (b # bs) \<subseteq> fst ` E"
      using is_cycle_nodes [OF assms(1)] is_cycle_nodes [OF assms(2)] by blast+
    then have "\<forall>x\<in>set (a # as @ [a]). CHR 0x00 \<notin> set x" "\<forall>x\<in>set (b # bs @ [b]). CHR 0x00 \<notin> set x" using nul by auto
    then have "split_char (CHR 0x00) (canonicalCycle c) = a # as @ [a]" "split_char (CHR 0x00) (canonicalCycle d) = b # bs @ [b]"
      unfolding c(4) d(4) by (intro split_join_char; blast)+
    then have "rotate i (butlast c) = rotate j (butlast d)" using eq c(1) d(1) by simp
    moreover obtain j' where "butlast d = rotate j' (rotate j (butlast d))" by (rule rotate_back)
    ultimately have "butlast d = rotate (j' + i) (butlast c)" by (metis rotate_rotate)
    then show "rotation_of c d" by (auto simp: rotation_of_def)
  }
qed

definition demo_import :: "string \<Rightarrow> string \<Rightarrow> edge" where
  "demo_import a b = \<lparr>eg_FromRef = a, eg_ToRef = b, eg_EdgeType = ''imports'', eg_PosFile = [], eg_Repo = [],
     eg_Sites = [], eg_PosLine = 1, eg_SiteCount = 0\<rparr>"

lemma two_cycle: "find_cycles [demo_import ''a'' ''b'', demo_import ''b'' ''a''] = Some [([''a'', ''b'', ''a''], False)]"
  by code_simp

lemma mark_last_fst: "cycles \<noteq> [] \<Longrightarrow> map fst (mark_last cycles) = map fst cycles"
  by (cases cycles rule: rev_cases) (auto simp: mark_last_def)

lemma cycles_ok_new: "cycles_ok graph new_finder" "count_ok new_finder" "at_rest new_finder"
  by (simp_all add: cycles_ok_def count_ok_def at_rest_def new_finder_def)

lemma find_cycles_result:
  obtains f where "find_cycles edges = Some (if cf_truncated f \<and> cf_cycles f \<noteq> [] then mark_last (cf_cycles f) else cf_cycles f)"
    "cycle_roots (length (cycle_nodes edges) + 1) (cycle_graph edges) (cycle_nodes edges) new_finder = Some f"
    "cycles_ok (cycle_graph edges) f" "length (cf_cycles f) \<le> maxCycles" "cf_truncated f \<longleftrightarrow> capped f"
proof -
  obtain f where f: "cycle_roots (length (cycle_nodes edges) + 1) (cycle_graph edges) (cycle_nodes edges) new_finder = Some f"
    using find_cycles_run by blast
  note s = cycle_roots_sound [OF f cycles_ok_new(3,1,2)]
  have "capped f \<Longrightarrow> cycle_nodes edges \<noteq> []" using f by (auto simp: capped_def new_finder_def maxCycles_def)
  then have "cf_truncated f \<longleftrightarrow> capped f" using s by (auto simp: count_ok_def)
  then show ?thesis using that [OF _ f] s f by (simp add: find_cycles_def count_ok_def Let_def)
qed

text \<open>
  C23: \<^verbatim>\<open>DetectCycles\<close> always returns; what it reports are simple cycles of the edges of the
  type, no two of them rotations of each other; below the bound of 1000 it reports every simple cycle
  up to rotation, and at the bound the last one carries the mark of an incomplete list.
\<close>

theorem DetectCycles_simple:
  assumes "EdgesByType db edgeType = Inr edges" and names: "\<forall>x\<in>fst ` edge_pairs edges. CHR 0x00 \<notin> set x"
  shows "\<exists>cycles. DetectCycles db edgeType = Some (Inr cycles)
    \<and> (\<forall>c\<in>set cycles. is_cycle (edge_pairs edges) (fst c))
    \<and> (\<forall>i j. i < j \<and> j < length cycles \<longrightarrow> \<not> rotation_of (fst (cycles ! i)) (fst (cycles ! j)))
    \<and> (if length cycles < maxCycles
       then (\<forall>c\<in>set cycles. \<not> snd c) \<and> (\<forall>c. is_cycle (edge_pairs edges) c \<longrightarrow> (\<exists>d\<in>set cycles. rotation_of c (fst d)))
       else length cycles = maxCycles \<and> snd (last cycles))"
proof -
  let ?E = "edge_pairs edges"
  obtain f where f: "find_cycles edges = Some (if cf_truncated f \<and> cf_cycles f \<noteq> [] then mark_last (cf_cycles f) else cf_cycles f)"
    "cycle_roots (length (cycle_nodes edges) + 1) (cycle_graph edges) (cycle_nodes edges) new_finder = Some f"
    "cycles_ok (cycle_graph edges) f" "length (cf_cycles f) \<le> maxCycles" "cf_truncated f \<longleftrightarrow> capped f"
    by (rule find_cycles_result)
  define cycles where "cycles = (if cf_truncated f \<and> cf_cycles f \<noteq> [] then mark_last (cf_cycles f) else cf_cycles f)"
  have fsts: "map fst cycles = map fst (cf_cycles f)" by (simp add: cycles_def mark_last_fst)
  then have len: "length cycles = length (cf_cycles f)" by (metis length_map)
  have ok: "\<forall>c\<in>set (map fst cycles). is_cycle ?E c" "distinct (map canonicalCycle (map fst cycles))"
    using f(3) unfolding cycles_ok_def fsts cycle_graph_of by (auto simp: distinct_rev)
  have rot: "\<not> rotation_of (fst (cycles ! i)) (fst (cycles ! j))" if "i < j" "j < length cycles" for i j
  proof
    assume r: "rotation_of (fst (cycles ! i)) (fst (cycles ! j))"
    have "is_cycle ?E (fst (cycles ! i))" "is_cycle ?E (fst (cycles ! j))" using ok(1) that by simp_all
    then have "canonicalCycle (fst (cycles ! i)) = canonicalCycle (fst (cycles ! j))" using rotation_canonical(1) r by blast
    then show False using ok(2) that by (auto simp: distinct_conv_nth)
  qed
  have all: "\<exists>d\<in>set cycles. rotation_of c (fst d)" if c: "is_cycle ?E c" and l: "length cycles < maxCycles" for c
  proof -
    obtain rt rest k where r: "rt # rest = rotate k (butlast c)" "distinct (rt # rest)"
      "successively (\<lambda>a b. (a, b) \<in> ?E) (rt # rest @ [rt])" "\<forall>x\<in>set rest. rt \<le> x"
      "canonicalCycle c = str_join [CHR 0x00] (rt # rest @ [rt])"
      by (rule canonicalCycle_rotated [OF c])
    have "\<not> capped f" using l len by (simp add: capped_def)
    moreover have "rt \<in> set (cycle_nodes edges)"
      using r(3) by (cases rest) (force simp: cycle_nodes_set successively_Cons)+
    ultimately have "canonicalCycle (rt # rest @ [rt]) \<in> set (cf_seen f)"
      using cycle_roots_finds [OF f(2) _ cycles_ok_new(3) _ r(2) _ r(4)] r(3) by (simp add: cycle_graph_of)
    then have "canonicalCycle c \<in> canonicalCycle ` set (map fst cycles)"
      using f(3) unfolding canonicalCycle_minimal [OF r(4)] r(5) fsts cycles_ok_def by (auto simp: image_image)
    then obtain d where "d \<in> set cycles" "canonicalCycle c = canonicalCycle (fst d)" by auto
    then show ?thesis using rotation_canonical(2) [OF c] ok(1) names by auto
  qed
  have "DetectCycles db edgeType = Some (Inr cycles)" by (simp add: DetectCycles_def assms(1) f(1) cycles_def)
  moreover have "if length cycles < maxCycles then \<forall>c\<in>set cycles. \<not> snd c else length cycles = maxCycles \<and> snd (last cycles)"
  proof (cases "length cycles < maxCycles")
    case True
    then show ?thesis using f(3,5) len by (auto simp: cycles_def capped_def cycles_ok_def)
  next
    case False
    then have "cycles = mark_last (cf_cycles f)" using f(5) len by (auto simp: cycles_def capped_def maxCycles_def)
    then show ?thesis using False f(4) len by (simp add: mark_last_def)
  qed
  ultimately show ?thesis using ok(1) rot all by (intro exI [where x = cycles]) (auto split: if_splits)
qed

theorem DetectCycles_simple_witness:
  "\<exists>d. DetectCycles (list_db [demo_row ''a'' ''b'' ''imports'', demo_row ''b'' ''a'' ''imports''] [] []) ''imports''
       = Some (Inr [d]) \<and> rotation_of [''b'', ''a'', ''b''] (fst d)"
proof -
  let ?db = "list_db [demo_row ''a'' ''b'' ''imports'', demo_row ''b'' ''a'' ''imports''] [] []"
  let ?edges = "[demo_import ''a'' ''b'', demo_import ''b'' ''a'']"
  have t: "ew_type (demo_row a b ''imports'') = ''imports''" for a b by (simp add: demo_row_def)
  have e: "EdgesByType ?db ''imports'' = Inr ?edges"
    by (simp add: EdgesByType_def queryEdges_def list_db_def scanEdges_def demo_edge demo_import_def t)
  have p: "edge_pairs ?edges = {(''a'', ''b''), (''b'', ''a'')}" by (simp add: edge_pairs_def demo_import_def)
  have n: "\<forall>x\<in>fst ` edge_pairs ?edges. CHR 0x00 \<notin> set x" by (simp add: p)
  have c: "is_cycle (edge_pairs ?edges) [''b'', ''a'', ''b'']" by (simp add: p is_cycle_def)
  have run: "DetectCycles ?db ''imports'' = Some (Inr [([''a'', ''b'', ''a''], False)])"
    by (simp add: DetectCycles_def e two_cycle)
  then have "\<exists>d\<in>set [([''a'', ''b'', ''a''], False)]. rotation_of [''b'', ''a'', ''b''] (fst d)"
    using DetectCycles_simple [OF e n] c by (auto simp: maxCycles_def)
  then show ?thesis using run by auto
qed

end
