(* ===== verification/Impact.thy ===== *)
theory Impact
  imports Layers
begin

text \<open>
  What a declaration touches (\<^verbatim>\<open>query/query.go\<close>, \<^verbatim>\<open>query/affected.go\<close>): the usages of a type, one
  symbol with its edges, one package, the blast radius of a symbol, and the test files a change reaches.
\<close>

section \<open>Usages of a type\<close>

definition mergeUsage :: "symbol list list \<Rightarrow> symbol list" where
  "mergeUsage found = dedup_by sy_QualifiedName [] (concat found)"

definition without_tests :: "bool \<Rightarrow> symbol list \<Rightarrow> symbol list" where
  "without_tests includeTests syms = filter (\<lambda>sy. includeTests \<or> \<not> sy_IsTest sy) syms"

definition referencingSymbols :: "store_db \<Rightarrow> symbol list \<Rightarrow> bool \<Rightarrow> symbol list result" where
  "referencingSymbols db decls includeTests =
     (case EdgesForNodes db (map sy_QualifiedName decls) [edgeTypeReferences, edgeTypeCalls] False of
        Inl e \<Rightarrow> Inl (''type usage: references: '' @ e)
      | Inr edges \<Rightarrow>
          (let froms = map eg_FromRef (filter (\<lambda>e. eg_EdgeType e = edgeTypeReferences \<or> eg_EdgeType e = edgeTypeCalls) edges) in
             if froms = [] then Inr []
             else case SymbolsByNames db froms of
               Inl e \<Rightarrow> Inl (''type usage: referencing symbols: '' @ e)
             | Inr syms \<Rightarrow> Inr (without_tests includeTests syms)))"

text \<open>A slice past the end of a signature panics: \<open>None\<close>.\<close>

fun filter_users :: "(symbol \<Rightarrow> bool option) \<Rightarrow> symbol list \<Rightarrow> symbol list option" where
  "filter_users uses [] = Some []"
| "filter_users uses (sy # syms) =
     (case uses sy of
        None \<Rightarrow> None
      | Some b \<Rightarrow> (case filter_users uses syms of
            None \<Rightarrow> None | Some out \<Rightarrow> Some (if b then sy # out else out)))"

definition signatureUsers :: "store_db \<Rightarrow> string \<Rightarrow> string list \<Rightarrow> string list
    \<Rightarrow> (string, (string, bool) gomap) gomap option \<Rightarrow> bool \<Rightarrow> symbol list result option" where
  "signatureUsers db short declaringPkg names imports includeTests =
     (case SearchByType db short includeTests of
        Inl e \<Rightarrow> Some (Inl e)
      | Inr syms \<Rightarrow>
          (case filter_users (\<lambda>sy. signatureUsesType sy short declaringPkg names imports) syms of
             None \<Rightarrow> None | Some out \<Rightarrow> Some (Inr out)))"

definition packageImports :: "store_db \<Rightarrow> (string, (string, bool) gomap) gomap result" where
  "packageImports db =
     (case runtimeImportEdges db of
        Inl e \<Rightarrow> Inl e
      | Inr edges \<Rightarrow>
          Inr (fold (\<lambda>e m. gm_put (eg_FromRef e) (gm_put (eg_ToRef e) True (gm_get [] m (eg_FromRef e))) m) edges []))"

definition embedTargetInPkgs :: "string \<Rightarrow> string \<Rightarrow> string list \<Rightarrow> bool" where
  "embedTargetInPkgs toRef typeName pkgs \<longleftrightarrow>
     has_suffix toRef (''.'' @ typeName) \<and> take (length toRef - length (''.'' @ typeName)) toRef \<in> set pkgs"

definition embeddingSymbols :: "store_db \<Rightarrow> string \<Rightarrow> string list \<Rightarrow> bool \<Rightarrow> symbol list result" where
  "embeddingSymbols db typeName pkgs includeTests =
     (case EdgesByType db edgeTypeEmbeds of
        Inl e \<Rightarrow> Inl e
      | Inr edges \<Rightarrow>
          (case SymbolsByNames db (dedup_by (\<lambda>r. r) [] (map eg_FromRef (filter (\<lambda>e.
                  (eg_ToRef e = typeName \<or> has_suffix (eg_ToRef e) (''.'' @ typeName))
                  \<and> embedTargetInPkgs (eg_ToRef e) typeName pkgs) edges))) of
             Inl e \<Rightarrow> Inl e
           | Inr syms \<Rightarrow> Inr (without_tests includeTests syms)))"

definition usage_of :: "store_db \<Rightarrow> string \<Rightarrow> symbol list \<Rightarrow> bool \<Rightarrow> bool \<Rightarrow> symbol list result option" where
  "usage_of db short decls ambiguous includeTests =
     (let names = map (path_base \<circ> sy_PackagePath) decls; pkgs = map sy_PackagePath decls in
        case (if ambiguous then (case packageImports db of Inl e \<Rightarrow> Inl e | Inr m \<Rightarrow> Inr (Some m)) else Inr None) of
          Inl e \<Rightarrow> Some (Inl e)
        | Inr imports \<Rightarrow>
            (case signatureUsers db short pkgs names imports includeTests of
               None \<Rightarrow> None
             | Some (Inl e) \<Rightarrow> Some (Inl e)
             | Some (Inr users) \<Rightarrow>
                 Some (case embeddingSymbols db short pkgs includeTests of
                    Inl e \<Rightarrow> Inl e
                  | Inr embedders \<Rightarrow>
                      (case referencingSymbols db decls includeTests of
                         Inl e \<Rightarrow> Inl e
                       | Inr referrers \<Rightarrow> Inr (mergeUsage [users, embedders, referrers])))))"

definition TypeUsage :: "store_db \<Rightarrow> string \<Rightarrow> options \<Rightarrow> search_result list result option" where
  "TypeUsage db typeName opts =
     (case splitTypeQualifier typeName of (pkgPath, short) \<Rightarrow>
        (case TypeDeclarationsNamed db short (o_IncludeTests opts) of
           Inl e \<Rightarrow> Some (Inl e)
         | Inr decls0 \<Rightarrow>
             if decls0 = [] then Some (Inl (''type not found: '' @ short))
             else let decls = (if pkgPath \<noteq> [] then filterByPackage decls0 pkgPath else decls0) in
               if decls = [] then Some (Inl (''type not found: '' @ typeName))
               else (case usage_of db short decls (1 < length decls0) (o_IncludeTests opts) of
                       None \<Rightarrow> None
                     | Some (Inl e) \<Rightarrow> Some (Inl e)
                     | Some (Inr merged) \<Rightarrow>
                         Some (Inr (filterSearchResults (searchResultsFromSymbols merged False) (o_Repo opts))))))"

section \<open>One symbol, one package\<close>

text \<open>\<^verbatim>\<open>ORDER BY s.qualified_name, s.pos_file\<close>: all rows share the name.\<close>

definition SymbolsByNameExact :: "store_db \<Rightarrow> string \<Rightarrow> bool \<Rightarrow> symbol list result" where
  "SymbolsByNameExact db qualifiedName includeTests =
     (case db_symbols db (\<lambda>sy. sy_QualifiedName sy = NormalizeQualifiedName qualifiedName \<and> and_not_test includeTests sy) of
        Inl e \<Rightarrow> Inl e
      | Inr syms \<Rightarrow> Inr (sort_by (\<lambda>a b. sy_QualifiedName a < sy_QualifiedName b
          \<or> sy_QualifiedName a = sy_QualifiedName b \<and> sy_PosFile a < sy_PosFile b) syms))"

record show_result =
  sh_IncomingEdges :: "edge_detail list"
  sh_OutgoingEdges :: "edge_detail list"
  sh_Symbol :: symbol_detail
  sh_Declarations :: nat

definition Show :: "store_db \<Rightarrow> unidata \<Rightarrow> string \<Rightarrow> options \<Rightarrow> show_result result" where
  "Show db U qualifiedName opts =
     (case SymbolsByNameExact db qualifiedName (o_IncludeTests opts) of
        Inl e \<Rightarrow> Inl e
      | Inr [] \<Rightarrow> Inl (symbolMissError db U qualifiedName)
      | Inr (sy # rest) \<Rightarrow>
          if repoMismatch (sy_Repo sy) (o_Repo opts)
          then Inl (''symbol '' @ qualifiedName @ '' not found in repo '' @ o_Repo opts)
          else (case EdgesTo db qualifiedName of
                  Inl e \<Rightarrow> Inl e
                | Inr incoming \<Rightarrow>
                    (case EdgesFrom db qualifiedName of
                       Inl e \<Rightarrow> Inl e
                     | Inr outgoing \<Rightarrow>
                         (case markExternal db (map edgeToDetail outgoing) of
                            Inl e \<Rightarrow> Inl e
                          | Inr out \<Rightarrow>
                              Inr \<lparr>sh_IncomingEdges = map edgeToDetail incoming, sh_OutgoingEdges = out,
                                   sh_Symbol = to_symbol_detail True sy, sh_Declarations = length (sy # rest)\<rparr>))))"

record package_result =
  pr_Path :: string
  pr_Name :: string
  pr_Doc :: string
  pr_Repo :: string
  pr_Symbols :: "symbol_detail list"
  pr_ImportCount :: nat

text \<open>\<^verbatim>\<open>Package\<close>; the import counts are one fixed statement, here an argument.\<close>

definition PackageQuery :: "store_db \<Rightarrow> (string, nat) gomap result \<Rightarrow> string \<Rightarrow> options \<Rightarrow> package_result result" where
  "PackageQuery db importCounts pkgPath opts =
     (case db_packages db of
        Inl e \<Rightarrow> Inl e
      | Inr pkgs \<Rightarrow>
          (case find (\<lambda>p. pk_Path p = pkgPath \<and> (\<not> pk_IsTest p \<or> o_IncludeTests opts)
                        \<and> \<not> repoMismatch (pk_Repo p) (o_Repo opts)) pkgs of
             None \<Rightarrow> Inl (''package not found: '' @ pkgPath)
           | Some found \<Rightarrow>
               (case SymbolsByPackage db pkgPath (o_IncludeTests opts) of
                  Inl e \<Rightarrow> Inl e
                | Inr syms \<Rightarrow>
                    (case importCounts of
                       Inl e \<Rightarrow> Inl (''package '' @ pkgPath @ '': import counts: '' @ e)
                     | Inr counts \<Rightarrow>
                         Inr \<lparr>pr_Path = pk_Path found, pr_Name = pk_Name found, pr_Doc = pk_Doc found, pr_Repo = pk_Repo found,
                              pr_Symbols = symbolDetails syms (o_IncludeUnexported opts) (o_IncludeFields opts),
                              pr_ImportCount = gm_get 0 counts pkgPath\<rparr>))))"

definition query_ListPackages :: "store_db \<Rightarrow> options \<Rightarrow> package list result" where
  "query_ListPackages db opts =
     (case db_packages db of
        Inl e \<Rightarrow> Inl e
      | Inr pkgs \<Rightarrow>
          Inr (if \<not> o_IncludeTests opts
               then filter (\<lambda>p. \<not> pk_IsTest p \<and> \<not> repoMismatch (pk_Repo p) (o_Repo opts)) pkgs
               else filter (\<lambda>p. \<not> repoMismatch (pk_Repo p) (o_Repo opts)) pkgs))"

definition query_EdgesByType :: "store_db \<Rightarrow> string \<Rightarrow> options \<Rightarrow> edge_detail list result" where
  "query_EdgesByType db edgeType opts =
     (case EdgesByType db edgeType of
        Inl e \<Rightarrow> Inl e | Inr edges \<Rightarrow> Inr (filterEdges (map edgeToDetail edges) (o_Repo opts)))"

definition query_SymbolsInFile :: "store_db \<Rightarrow> string \<Rightarrow> options \<Rightarrow> search_result list result" where
  "query_SymbolsInFile db filePath opts =
     (case SearchSymbolsByFile db filePath [] None False ''any'' of
        Inl e \<Rightarrow> Inl e
      | Inr syms \<Rightarrow> Inr (filterSearchResults (searchResultsFromSymbols syms False) (o_Repo opts)))"

section \<open>Blast radius\<close>

record blast_radius =
  br_Symbol :: string
  br_DirectCallers :: nat
  br_TransitiveCallers :: nat
  br_Implementations :: nat
  br_Embedders :: nat
  br_TypeUsers :: nat

definition countDirectCallers :: "edge list \<Rightarrow> string \<Rightarrow> nat" where
  "countDirectCallers edges repo =
     length (filter (\<lambda>e. \<not> repoMismatch (eg_Repo e) repo
       \<and> (eg_EdgeType e = edgeTypeCalls \<or> eg_EdgeType e = edgeTypeReferences)) edges)"

definition countSatisfiesAndEmbeds :: "edge list \<Rightarrow> string \<Rightarrow> nat \<times> nat" where
  "countSatisfiesAndEmbeds edges repo =
     (let mine = filter (\<lambda>e. \<not> repoMismatch (eg_Repo e) repo) edges
      in (length (filter (\<lambda>e. eg_EdgeType e = edgeTypeSatisfies) mine),
          length (filter (\<lambda>e. eg_EdgeType e = edgeTypeEmbeds) mine)))"

text \<open>Only a declared type has type users.\<close>

definition count_type_users :: "store_db \<Rightarrow> symbol \<Rightarrow> string \<Rightarrow> options \<Rightarrow> nat result option" where
  "count_type_users db target qualifiedName opts =
     (if sy_Kind target \<notin> {''type'', ''interface'', ''alias''} then Some (Inr 0)
      else case TypeUsage db qualifiedName opts of
        None \<Rightarrow> None | Some (Inl e) \<Rightarrow> Some (Inl e) | Some (Inr users) \<Rightarrow> Some (Inr (length users)))"

definition GetBlastRadius :: "store_db \<Rightarrow> unidata \<Rightarrow> string \<Rightarrow> int \<Rightarrow> options \<Rightarrow> blast_radius result option" where
  "GetBlastRadius db U qualifiedName depth0 opts =
     (let depth = (if depth0 \<le> 0 then 3 else depth0) in
        case SymbolByName db qualifiedName of
          Inl e \<Rightarrow> Some (Inl (''blast_radius: '' @ qualifiedName @ '': '' @ e))
        | Inr None \<Rightarrow> Some (Inl (''symbol not found: '' @ qualifiedName))
        | Inr (Some target) \<Rightarrow>
            (case EdgesTo db qualifiedName of
               Inl e \<Rightarrow> Some (Inl e)
             | Inr directCallers \<Rightarrow>
                 (case CallersOf db U qualifiedName (opts\<lparr>o_Depth := depth\<rparr>) of
                    Inl e \<Rightarrow> Some (Inl e)
                  | Inr transitiveCallers \<Rightarrow>
                      (case count_type_users db target qualifiedName opts of
                         None \<Rightarrow> None
                       | Some (Inl e) \<Rightarrow> Some (Inl e)
                       | Some (Inr typeUsers) \<Rightarrow>
                           Some (Inr (let (impl, embed) = countSatisfiesAndEmbeds directCallers (o_Repo opts) in
                             \<lparr>br_Symbol = qualifiedName, br_DirectCallers = countDirectCallers directCallers (o_Repo opts),
                              br_TransitiveCallers = length transitiveCallers, br_Implementations = impl,
                              br_Embedders = embed, br_TypeUsers = typeUsers\<rparr>))))))"

text \<open>
  A contract counts once for each end of it that is the symbol in its role; the role is the one
  direction of the row.
\<close>

definition count_contract_consumers :: "(contract_row \<times> string) list \<Rightarrow> string \<Rightarrow> string \<Rightarrow> nat" where
  "count_contract_consumers contracts qualifiedName repo =
     (\<Sum>(c, r)\<leftarrow>contracts.
        (if ct_FromRef c = qualifiedName \<and> ct_Direction c = Producer \<and> \<not> ct_Suggested c \<and> \<not> repoMismatch r repo then 1 else 0)
        + (if ct_ToRef c = qualifiedName \<and> ct_Direction c = Consumer \<and> \<not> ct_Suggested c \<and> \<not> repoMismatch r repo then 1 else 0))"

definition BlastRadiusWithContracts :: "store_db \<Rightarrow> unidata \<Rightarrow> string \<Rightarrow> int \<Rightarrow> options \<Rightarrow> blast_radius result option" where
  "BlastRadiusWithContracts db U qualifiedName depth opts =
     (case GetBlastRadius db U qualifiedName depth opts of
        None \<Rightarrow> None
      | Some (Inl e) \<Rightarrow> Some (Inl e)
      | Some (Inr br) \<Rightarrow>
          (case db_contracts db of
             Inl _ \<Rightarrow> Some (Inr br)
           | Inr contracts \<Rightarrow>
               Some (Inr (br\<lparr>br_DirectCallers := br_DirectCallers br
                 + count_contract_consumers contracts qualifiedName (o_Repo opts)\<rparr>))))"

section \<open>Affected tests\<close>

definition affectedDefaultDepth :: int where "affectedDefaultDepth = 3"
definition affectedViaCap :: nat where "affectedViaCap = 5"

definition affectedLowerBoundNote :: string where
  "affectedLowerBoundNote = ''reachability comes from static call and reference edges, so a test reached only through dynamic dispatch, a callback invoked by name, or reflection may be missing''"

definition reasonCallers :: string where "reasonCallers = ''callers''"
definition reasonConvention :: string where "reasonConvention = ''convention''"

record affected_test =
  at_File :: string
  at_Reason :: string
  at_Via :: "string list"
  at_ViaTruncated :: bool

definition symbolNamesInFile :: "store_db \<Rightarrow> string \<Rightarrow> string list result" where
  "symbolNamesInFile db path =
     (case SymbolsInFile db path True of
        Inl e \<Rightarrow> Inl (''affected_tests: '' @ path @ '': '' @ e) | Inr syms \<Rightarrow> Inr (map sy_QualifiedName syms))"

definition addCallerTest :: "string \<Rightarrow> string list \<Rightarrow> (string, affected_test) gomap \<Rightarrow> (string, affected_test) gomap" where
  "addCallerTest file via collected =
     gm_put file (case map_of collected file of
         None \<Rightarrow> \<lparr>at_File = file, at_Reason = reasonCallers, at_Via = via, at_ViaTruncated = False\<rparr>
       | Some entry \<Rightarrow> entry\<lparr>at_Via := at_Via entry @ via\<rparr>) collected"

text \<open>
  One edge of a level: a test file is recorded with the origins of the node it reaches, and a new node
  inherits the origins of the first edge that reaches it.
\<close>

definition caller_step :: "edge \<Rightarrow> (string, string list) gomap \<times> string list \<times> (string, affected_test) gomap
    \<Rightarrow> (string, string list) gomap \<times> string list \<times> (string, affected_test) gomap" where
  "caller_step e = (\<lambda>(origins, nxt, collected).
     let via = gm_get [] origins (eg_ToRef e);
         collected' = (if has_suffix (eg_PosFile e) ''_test.go'' then addCallerTest (eg_PosFile e) via collected else collected)
     in if gm_has origins (eg_FromRef e) then (origins, nxt, collected')
        else (gm_put (eg_FromRef e) via origins, nxt @ [eg_FromRef e], collected'))"

fun caller_levels :: "store_db \<Rightarrow> nat \<Rightarrow> (string, string list) gomap \<Rightarrow> string list \<Rightarrow> (string, affected_test) gomap
    \<Rightarrow> (string, affected_test) gomap result" where
  "caller_levels db 0 origins frontier collected = Inr collected"
| "caller_levels db (Suc d) origins frontier collected =
     (if frontier = [] then Inr collected
      else case EdgesForNodes db frontier [''calls'', ''references''] False of
        Inl e \<Rightarrow> Inl (''affected_tests: edges: '' @ e)
      | Inr edges \<Rightarrow>
          (case fold caller_step edges (origins, [], collected) of (origins', nxt, collected') \<Rightarrow>
             caller_levels db d origins' nxt collected'))"

definition collectCallerTests :: "store_db \<Rightarrow> string list \<Rightarrow> nat \<Rightarrow> (string, affected_test) gomap
    \<Rightarrow> (string, affected_test) gomap result" where
  "collectCallerTests db roots depth collected =
     (let frontier = dedup_by (\<lambda>r. r) [] roots in
        caller_levels db depth (fold (\<lambda>r m. gm_put r [r] m) frontier []) frontier collected)"

text \<open>\<^verbatim>\<open>indexedFile\<close> asks for the content row of a path.\<close>

definition indexedFile :: "store_db \<Rightarrow> string \<Rightarrow> bool result" where
  "indexedFile db path =
     (case db_files db (\<lambda>(p, _). p = path) of Inl e \<Rightarrow> Inl e | Inr rows \<Rightarrow> Inr (rows \<noteq> []))"

definition test_sibling :: "string \<Rightarrow> string" where
  "test_sibling path = take (length path - 3) path @ ''_test.go''"

fun collectConventionTests :: "store_db \<Rightarrow> string list \<Rightarrow> (string, string list) gomap \<Rightarrow> (string, affected_test) gomap
    \<Rightarrow> (string, affected_test) gomap result" where
  "collectConventionTests db [] namesByFile collected = Inr collected"
| "collectConventionTests db (path # changed) namesByFile collected =
     (if has_suffix path ''_test.go'' \<or> \<not> has_suffix path ''.go'' then collectConventionTests db changed namesByFile collected
      else case indexedFile db (test_sibling path) of
        Inl e \<Rightarrow> Inl (''affected_tests: '' @ test_sibling path @ '': '' @ e)
      | Inr exists \<Rightarrow>
          collectConventionTests db changed namesByFile
            (if \<not> exists \<or> gm_has collected (test_sibling path) then collected
             else gm_put (test_sibling path) \<lparr>at_File = test_sibling path, at_Reason = reasonConvention,
                    at_Via = gm_get [] namesByFile path, at_ViaTruncated = False\<rparr> collected))"

definition cappedVia :: "string list \<Rightarrow> string list \<times> bool" where
  "cappedVia names =
     (let unique = sort_by (<) (dedup_by (\<lambda>n. n) [] names) in
        if affectedViaCap < length unique then (take affectedViaCap unique, True) else (unique, False))"

definition cap_entry :: "affected_test \<Rightarrow> affected_test" where
  "cap_entry entry = (case cappedVia (at_Via entry) of (via, truncated) \<Rightarrow> entry\<lparr>at_Via := via, at_ViaTruncated := truncated\<rparr>)"

record affected_result =
  ar_Note :: string
  ar_Files :: "affected_test list"

text \<open>The changed set comes from the arguments or from git; it is an argument here.\<close>

definition AffectedTests :: "store_db \<Rightarrow> string list \<Rightarrow> int \<Rightarrow> affected_result result" where
  "AffectedTests db changed depth0 =
     (let depth = (if depth0 \<le> 0 then affectedDefaultDepth else depth0) in
        case each_r (symbolNamesInFile db) changed of
          Inl e \<Rightarrow> Inl e
        | Inr names \<Rightarrow>
            (case collectCallerTests db (concat names) (nat depth) [] of
               Inl e \<Rightarrow> Inl e
             | Inr callers \<Rightarrow>
                 (case collectConventionTests db changed (fold (\<lambda>(p, ns) m. gm_put p ns m) (zip changed names) []) callers of
                    Inl e \<Rightarrow> Inl e
                  | Inr collected \<Rightarrow>
                      (let files = sort_by (by_key at_File) (map (cap_entry \<circ> snd) collected) in
                         Inr \<lparr>ar_Note = (if files = [] then ''no affected tests found; '' @ affectedLowerBoundNote
                                        else affectedLowerBoundNote), ar_Files = files\<rparr>))))"

end
