(* ===== verification/Impact_Proofs.thy ===== *)
theory Impact_Proofs
  imports Impact Graph_Proofs
begin

text \<open>
  The scan for mentions of a type name slices the signature behind each hit; it stays inside for
  any name that is not empty, so the usage queries are defined.
\<close>

lemma mentions_loop_defined:
  "name \<noteq> [] \<Longrightarrow> st \<le> length sig \<Longrightarrow> \<exists>b. mentions_loop sig name pkgs st = Some b"
proof (induction sig name pkgs st rule: mentions_loop.induct)
  case (1 sig name pkgs st)
  show ?case
  proof (cases "str_index (drop st sig) name")
    case None
    then show ?thesis using 1(3) by (auto simp: mentions_loop.simps [of sig name pkgs st])
  next
    case (Some j)
    have "st + j + 1 \<le> length sig" using str_index_bound [OF Some] 1(2,3) by (cases name) auto
    then show ?thesis using 1 Some by (auto simp: mentions_loop.simps [of sig name pkgs st])
  qed
qed

lemma fieldsMentionTypeAs_defined: "name \<noteq> [] \<Longrightarrow> \<exists>b. fieldsMentionTypeAs fs name pkgs = Some b"
proof (induction fs)
  case (Cons f fs)
  then show ?case using mentions_loop_defined [of name 0 "sf_GoType f" pkgs]
    by (auto simp: mentionsTypeAs_def split: bool.split)
qed auto

lemma signatureUsesType_defined: "short \<noteq> [] \<Longrightarrow> \<exists>b. signatureUsesType sy short pkgs names imps = Some b"
  using mentions_loop_defined [of short 0 "sy_Signature sy" names] fieldsMentionTypeAs_defined [of short "sy_Fields sy" names]
  by (auto simp: signatureUsesType_def mentionsTypeAs_def split: bool.split)

lemma filter_users_defined: "(\<And>sy. \<exists>b. uses sy = Some b) \<Longrightarrow> \<exists>out. filter_users uses syms = Some out"
proof (induction syms)
  case (Cons sy syms)
  moreover obtain b where "uses sy = Some b" using Cons.prems by blast
  ultimately show ?case by auto
qed simp

lemma usage_of_defined:
  assumes "short \<noteq> []"
  shows "\<exists>r. usage_of db short decls ambiguous tests = Some r"
proof -
  have "\<exists>r. signatureUsers db short pkgs names imps tests = Some r" for pkgs names imps
  proof (cases "SearchByType db short tests")
    case (Inr syms)
    obtain out where "filter_users (\<lambda>sy. signatureUsesType sy short pkgs names imps) syms = Some out"
      using filter_users_defined [of "\<lambda>sy. signatureUsesType sy short pkgs names imps"] signatureUsesType_defined [OF assms] by blast
    then show ?thesis using Inr by (simp add: signatureUsers_def)
  qed (simp add: signatureUsers_def)
  then show ?thesis
    by (auto simp: usage_of_def Let_def split: sum.splits option.splits) (metis option.distinct(1))+
qed

text \<open>
  with every stored symbol named, the usages of a type are always computed: no slice behind
  a mention leaves its signature. The blast radius, which counts them, is defined as well.
\<close>

theorem TypeUsage_defined:
  assumes "sqlite_symbols db syms" and "\<forall>sy\<in>set syms. sy_Name sy \<noteq> []"
  shows "(\<exists>r. TypeUsage db typeName opts = Some r) \<and> (\<exists>r. BlastRadiusWithContracts db U qualifiedName depth opts = Some r)"
proof -
  have usage: "\<exists>r. TypeUsage db tn opts = Some r" for tn
  proof (cases "splitTypeQualifier tn")
    case (Pair pkgPath short)
    show ?thesis
    proof (cases "TypeDeclarationsNamed db short (o_IncludeTests opts)")
      case (Inl e)
      then show ?thesis by (simp add: TypeUsage_def Pair)
    next
      case (Inr decls)
      show ?thesis
      proof (cases "decls = []")
        case True
        then show ?thesis by (simp add: TypeUsage_def Pair Inr)
      next
        case False
        then obtain d where "d \<in> set decls" by (cases decls) auto
        then have "short \<noteq> []"
          using sqlite_symbols.by_qualified_name_set [OF assms(1) Inr [unfolded TypeDeclarationsNamed_def]] assms(2) by auto
        then show ?thesis using usage_of_defined
          by (auto simp: TypeUsage_def Pair Inr Let_def split: sum.splits option.splits) (metis option.distinct(1))+
      qed
    qed
  qed
  have "\<exists>r. count_type_users db target qualifiedName opts = Some r" for target
    using usage [of qualifiedName] by (auto simp: count_type_users_def split: sum.splits)
  then have "\<exists>r. GetBlastRadius db U qualifiedName depth opts = Some r"
    by (auto simp: GetBlastRadius_def Let_def split: sum.splits option.splits) (metis option.distinct(1))+
  then have "\<exists>r. BlastRadiusWithContracts db U qualifiedName depth opts = Some r"
    by (auto simp: BlastRadiusWithContracts_def split: sum.splits)
  then show ?thesis using usage by blast
qed

theorem TypeUsage_defined_witness:
  "\<exists>r. TypeUsage (list_db [] [demo_symbol ''p.T''\<lparr>sy_Name := ''T'', sy_Kind := ''type''\<rparr>] []) ''p.T'' demo_options = Some r"
  using TypeUsage_defined [OF list_syms.sqlite_symbols_axioms] by fastforce

end
