(* ===== verification/Dead.thy ===== *)
theory Dead
  imports Layers
begin

text \<open>
  Liveness (\<^verbatim>\<open>query/query.go\<close>): the symbols that keep a program running without being called, the names
  reachable from them, the unused symbols, and the entry points found by heuristics.
\<close>

section \<open>Live by design\<close>

definition kindMain :: string where "kindMain = ''main''"

definition liveByDesign :: "symbol \<Rightarrow> string list \<Rightarrow> bool" where
  "liveByDesign sy pkgMain =
     (if sy_Name sy = ''_'' then True
      else if sy_Receiver sy \<noteq> [] \<or> sy_Kind sy \<noteq> ''function'' then False
      else if sy_Name sy = ''init'' then True
      else sy_Name sy = kindMain \<and> sy_PackagePath sy \<in> set pkgMain)"

definition interfaceQualifiedNames :: "symbol list \<Rightarrow> string list" where
  "interfaceQualifiedNames syms = map sy_QualifiedName (filter (\<lambda>sy. sy_Kind sy = ''interface'') syms)"

definition mainPackages :: "store_db \<Rightarrow> string list result" where
  "mainPackages db =
     (case db_packages db of
        Inl e \<Rightarrow> Inl e | Inr pkgs \<Rightarrow> Inr (map pk_Path (filter (\<lambda>p. pk_Name p = kindMain) pkgs)))"

definition isTestEntryName :: "string \<Rightarrow> bool" where
  "isTestEntryName name = list_ex (has_prefix name) [''Test'', ''Benchmark'', ''Fuzz'']"

definition containsHTTPHandler :: "string \<Rightarrow> bool" where
  "containsHTTPHandler sig \<longleftrightarrow> contains sig ''http.ResponseWriter'' \<and> contains sig ''*http.Request''"

definition extractPkgPath :: "string \<Rightarrow> string" where
  "extractPkgPath qn = (case str_cut_last qn ''.'' of (before, _, ok) \<Rightarrow> if ok then before else [])"

section \<open>Reachability from the roots\<close>

definition liveEdgeTypes :: "string list" where
  "liveEdgeTypes = [edgeTypeCalls, edgeTypeReferences, edgeTypeSatisfies, edgeTypeEmbeds]"

definition rootSymbols :: "store_db \<Rightarrow> symbol list \<Rightarrow> string list \<Rightarrow> string list result" where
  "rootSymbols db allSyms pkgMain =
     (case AllSymbols db True of
        Inl e \<Rightarrow> Inl e
      | Inr every \<Rightarrow>
          Inr (map sy_QualifiedName (filter (\<lambda>sy. sy_Exported sy \<or> liveByDesign sy pkgMain) allSyms)
               @ map sy_QualifiedName (filter (\<lambda>sy. sy_IsTest sy \<and> sy_Receiver sy = [] \<and> isTestEntryName (sy_Name sy)) every)))"

definition reachableSymbols :: "store_db \<Rightarrow> symbol list \<Rightarrow> string list result" where
  "reachableSymbols db allSyms =
     (case mainPackages db of
        Inl e \<Rightarrow> Inl e
      | Inr pkgMain \<Rightarrow>
          (case rootSymbols db allSyms pkgMain of
             Inl e \<Rightarrow> Inl e | Inr roots \<Rightarrow> ReachableFrom db roots liveEdgeTypes))"

text \<open>The name of the type a method belongs to: the qualified name without its last element.\<close>

definition owner_name :: "symbol \<Rightarrow> string" where
  "owner_name sy = trim_suffix (sy_QualifiedName sy) (''.'' @ sy_Name sy)"

definition interfaceDispatchedMethods :: "store_db \<Rightarrow> symbol list \<Rightarrow> string list \<Rightarrow> string list result" where
  "interfaceDispatchedMethods db allSyms reachable =
     (case EdgesByType db edgeTypeSatisfies of
        Inl e \<Rightarrow> Inl e
      | Inr edges \<Rightarrow>
          (let implementers = group_by eg_ToRef eg_FromRef edges [] in
             Inr (concat (map (\<lambda>sy. map (\<lambda>impl. impl @ ''.'' @ sy_Name sy) (gm_get [] implementers (owner_name sy)))
               (filter (\<lambda>sy. sy_Kind sy = ''method'' \<and> sy_QualifiedName sy \<in> set reachable) allSyms)))))"

record unused_symbol =
  us_QualifiedName :: string
  us_Kind :: string
  us_Signature :: string
  us_PosFile :: string
  us_PosLine :: int

definition to_unused :: "symbol \<Rightarrow> unused_symbol" where
  "to_unused sy = \<lparr>us_QualifiedName = sy_QualifiedName sy, us_Kind = sy_Kind sy, us_Signature = sy_Signature sy,
     us_PosFile = sy_PosFile sy, us_PosLine = sy_PosLine sy\<rparr>"

definition is_unused :: "string list \<Rightarrow> string list \<Rightarrow> string list \<Rightarrow> string list \<Rightarrow> symbol \<Rightarrow> bool" where
  "is_unused pkgMain interfaceNames reachable dispatched sy \<longleftrightarrow>
     \<not> (sy_Exported sy \<or> sy_IsGenerated sy) \<and> \<not> liveByDesign sy pkgMain
     \<and> \<not> (sy_Kind sy = ''method'' \<and> owner_name sy \<in> set interfaceNames)
     \<and> sy_QualifiedName sy \<notin> set reachable \<and> sy_QualifiedName sy \<notin> set dispatched"

definition UnusedSymbols :: "store_db \<Rightarrow> options \<Rightarrow> unused_symbol list result" where
  "UnusedSymbols db opts =
     (case AllSymbols db (o_IncludeTests opts) of
        Inl e \<Rightarrow> Inl e
      | Inr allSyms \<Rightarrow>
          (case reachableSymbols db allSyms of
             Inl e \<Rightarrow> Inl e
           | Inr reachable \<Rightarrow>
               (case mainPackages db of
                  Inl e \<Rightarrow> Inl e
                | Inr pkgMain \<Rightarrow>
                    (case interfaceDispatchedMethods db allSyms reachable of
                       Inl e \<Rightarrow> Inl e
                     | Inr dispatched \<Rightarrow>
                         Inr (map to_unused (filter
                           (is_unused pkgMain (interfaceQualifiedNames allSyms) reachable dispatched) allSyms))))))"

section \<open>Entry points\<close>

record entry_point =
  ep_QualifiedName :: string
  ep_Kind :: string
  ep_Signature :: string
  ep_PosFile :: string
  ep_Reason :: string
  ep_PosLine :: int

definition defaultEntryHeuristics :: "string list" where
  "defaultEntryHeuristics = [kindMain, ''test'', ''uncalled_exported'']"

definition entryPointHeuristics :: "string list" where
  "entryPointHeuristics = [kindMain, ''test'', ''uncalled_exported'', ''handler_sig'', ''handler_name'']"

definition handlerNames :: "string list" where
  "handlerNames = [''Serve'', ''Handle'', ''Run'', ''Start'', ''Listen'']"

text \<open>\<^verbatim>\<open>addEntryPoint\<close> keeps the first reason of a name; the set of names seen is that of the output.\<close>

definition addEntryPoint :: "symbol \<Rightarrow> string \<Rightarrow> entry_point list \<times> string list \<Rightarrow> entry_point list \<times> string list" where
  "addEntryPoint sy reason = (\<lambda>(out, seen).
     if sy_QualifiedName sy \<in> set seen then (out, seen)
     else (out @ [\<lparr>ep_QualifiedName = sy_QualifiedName sy, ep_Kind = sy_Kind sy, ep_Signature = sy_Signature sy,
                   ep_PosFile = sy_PosFile sy, ep_Reason = reason, ep_PosLine = sy_PosLine sy\<rparr>],
           sy_QualifiedName sy # seen))"

text \<open>The heuristics that hold for a symbol, in the order they are tried.\<close>

definition entry_reasons :: "symbol \<Rightarrow> string list \<Rightarrow> (string, bool) gomap \<Rightarrow> (string, bool) gomap \<Rightarrow> string list \<Rightarrow> string list" where
  "entry_reasons sy allowed pkgMain pkgIsTest incoming =
     (let pkgPath = (if sy_PackagePath sy = [] then extractPkgPath (sy_QualifiedName sy) else sy_PackagePath sy);
          isTest = (sy_IsTest sy \<or> gm_get False pkgIsTest pkgPath)
      in filter (\<lambda>reason. reason \<in> set allowed \<and>
           (if reason = ''test'' then isTest \<and> isTestEntryName (sy_Name sy)
            else if reason = kindMain then \<not> isTest \<and> sy_Name sy = kindMain \<and> sy_Kind sy = ''function'' \<and> gm_get False pkgMain pkgPath
            else if reason = ''uncalled_exported'' then
              \<not> isTest \<and> sy_Exported sy \<and> (sy_Kind sy = ''function'' \<or> sy_Kind sy = ''method'')
              \<and> sy_QualifiedName sy \<notin> set incoming \<and> \<not> isTestEntryName (sy_Name sy)
            else if reason = ''handler_sig'' then \<not> isTest \<and> containsHTTPHandler (sy_Signature sy)
            else \<not> isTest \<and> sy_Kind sy = ''method'' \<and> sy_Name sy \<in> set handlerNames))
         [''test'', kindMain, ''uncalled_exported'', ''handler_sig'', ''handler_name''])"

definition checkEntryHeuristics :: "string list \<Rightarrow> (string, bool) gomap \<Rightarrow> (string, bool) gomap \<Rightarrow> string list \<Rightarrow> symbol
    \<Rightarrow> entry_point list \<times> string list \<Rightarrow> entry_point list \<times> string list" where
  "checkEntryHeuristics allowed pkgMain pkgIsTest incoming sy st =
     fold (addEntryPoint sy) (entry_reasons sy allowed pkgMain pkgIsTest incoming) st"

definition entry_less :: "entry_point \<Rightarrow> entry_point \<Rightarrow> bool" where
  "entry_less a b = (if ep_Reason a \<noteq> ep_Reason b then ep_Reason a < ep_Reason b else ep_QualifiedName a < ep_QualifiedName b)"

text \<open>\<^verbatim>\<open>AllEdges\<close> has the clause \<^verbatim>\<open>1=1\<close>.\<close>

definition AllEdges :: "store_db \<Rightarrow> edge list result" where
  "AllEdges db = queryEdges db (\<lambda>_. True)"

definition EntryPoints :: "store_db \<Rightarrow> string list \<Rightarrow> bool \<Rightarrow> entry_point list result" where
  "EntryPoints db heuristics0 includeTests =
     (let heuristics = (if heuristics0 = [] then defaultEntryHeuristics else heuristics0);
          allowed = filter (\<lambda>h. h \<in> set entryPointHeuristics) heuristics
      in if allowed = [] then Inl (''no recognized heuristics: ['' @ str_join '' '' heuristics @ '']'')
         else case db_packages db of
           Inl e \<Rightarrow> Inl e
         | Inr pkgs \<Rightarrow>
             (case AllSymbols db includeTests of
                Inl e \<Rightarrow> Inl e
              | Inr allSyms \<Rightarrow>
                  (case AllEdges db of
                     Inl e \<Rightarrow> Inl e
                   | Inr allEdges \<Rightarrow>
                       (let pkgMain = fold (\<lambda>p m. gm_put (pk_Path p) (pk_Name p = kindMain \<and> \<not> pk_IsTest p) m) pkgs [];
                            pkgIsTest = fold (\<lambda>p m. gm_put (pk_Path p) (pk_IsTest p) m) pkgs [];
                            incoming = map eg_ToRef (filter (\<lambda>e. eg_EdgeType e = edgeTypeCalls \<or> eg_EdgeType e = edgeTypeReferences) allEdges)
                        in Inr (sort_by entry_less
                             (fst (fold (checkEntryHeuristics allowed pkgMain pkgIsTest incoming) allSyms ([], []))))))))"

end
