(* ===== verification/Dead_Proofs.thy ===== *)
theory Dead_Proofs
  imports Dead Graph_Proofs
begin

text \<open>
  Liveness, proved. The engine's answers to symbol clauses and to the recursive closure extend the laws
  of \<open>sqlite_edges\<close> in the locale \<open>live_store\<close>, interpreted on a store that computes both. The unused symbols
  are characterised exactly, and a store shows what they miss.
\<close>

section \<open>The engine\<close>

definition row_step :: "edge_row list \<Rightarrow> (edge_row \<Rightarrow> bool) \<Rightarrow> (string \<times> string) set" where
  "row_step table P = {(ew_from r, ew_to r) | r. r \<in> set table \<and> P r}"

text \<open>
  A store that answers: the clauses select rows, and a recursive common table expression is the closure
  of its seeds under its join.
\<close>

locale live_store = sqlite_edges db table + sqlite_symbols db syms for db table syms +
  assumes closure_rows: "db_closure db roots P = Inr names \<Longrightarrow> set names = (row_step table P)\<^sup>* `` set roots"
begin

lemma AllSymbols_set: "AllSymbols db tests = Inr ss \<Longrightarrow> set ss = {sy \<in> set syms. and_not_test tests sy}"
  unfolding AllSymbols_def by (rule by_qualified_name_set)

lemma ReachableFrom_set:
  "ReachableFrom db roots types = Inr names \<Longrightarrow> types \<noteq> [] \<Longrightarrow>
     set names = (row_step table (\<lambda>r. ew_type r \<in> set types))\<^sup>* `` set roots"
  unfolding ReachableFrom_def by (cases "roots = []") (auto dest: closure_rows)

end

section \<open>Unused symbols\<close>

definition live_roots :: "symbol list \<Rightarrow> bool \<Rightarrow> string list \<Rightarrow> string set" where
  "live_roots syms tests pkgMain = sy_QualifiedName `
     {sy \<in> set syms. and_not_test tests sy \<and> (sy_Exported sy \<or> liveByDesign sy pkgMain)
        \<or> sy_IsTest sy \<and> sy_Receiver sy = [] \<and> isTestEntryName (sy_Name sy)}"

definition live_names :: "edge_row list \<Rightarrow> symbol list \<Rightarrow> bool \<Rightarrow> string list \<Rightarrow> string set" where
  "live_names table syms tests pkgMain =
     (row_step table (\<lambda>r. ew_type r \<in> set liveEdgeTypes))\<^sup>* `` live_roots syms tests pkgMain"

definition dispatched_names :: "edge set \<Rightarrow> symbol set \<Rightarrow> string set \<Rightarrow> string set" where
  "dispatched_names E considered live = {eg_FromRef e @ ''.'' @ sy_Name m | e m.
     m \<in> considered \<and> sy_Kind m = ''method'' \<and> sy_QualifiedName m \<in> live
     \<and> e \<in> E \<and> eg_EdgeType e = edgeTypeSatisfies \<and> eg_ToRef e = owner_name m}"


context live_store
begin

lemma rootSymbols_set:
  assumes "AllSymbols db tests = Inr allSyms" "rootSymbols db allSyms pkgMain = Inr roots"
  shows "set roots = live_roots syms tests pkgMain"
proof -
  obtain every where e: "AllSymbols db True = Inr every"
    using assms(2) by (auto simp: rootSymbols_def split: sum.splits)
  have "set every = set syms" using AllSymbols_set [OF e] by (auto simp: and_not_test_def)
  then show ?thesis
    using assms(2) AllSymbols_set [OF assms(1)] by (auto simp: rootSymbols_def e live_roots_def)
qed

lemma dispatched_set:
  assumes "interfaceDispatchedMethods db allSyms reachable = Inr names"
  shows "set names = dispatched_names (stored_edges db table) (set allSyms) (set reachable)"
proof -
  obtain edges where e: "EdgesByType db edgeTypeSatisfies = Inr edges"
    using assms by (auto simp: interfaceDispatchedMethods_def split: sum.splits)
  have "set edges = {e \<in> stored_edges db table. eg_EdgeType e = edgeTypeSatisfies}" by (rule EdgesByType_set [OF e])
  moreover have n: "names = concat (map (\<lambda>m. map (\<lambda>e. eg_FromRef e @ ''.'' @ sy_Name m) (filter (\<lambda>e. eg_ToRef e = owner_name m) edges))
      (filter (\<lambda>m. sy_Kind m = ''method'' \<and> sy_QualifiedName m \<in> set reachable) allSyms))"
    using assms by (simp add: interfaceDispatchedMethods_def e Let_def group_by_get comp_def)
  have "set names = {eg_FromRef e @ ''.'' @ sy_Name m | e m. m \<in> set allSyms \<and> sy_Kind m = ''method''
      \<and> sy_QualifiedName m \<in> set reachable \<and> e \<in> set edges \<and> eg_ToRef e = owner_name m}"
    unfolding n set_concat set_map set_filter image_image by blast
  ultimately show ?thesis by (auto simp: dispatched_names_def)
qed

end

text \<open>A symbol that may be reported: neither exported nor generated, not live by design, not declared by an interface.\<close>

definition reportable :: "symbol list \<Rightarrow> bool \<Rightarrow> string list \<Rightarrow> symbol \<Rightarrow> bool" where
  "reportable syms tests pkgMain sy \<longleftrightarrow>
     and_not_test tests sy \<and> \<not> sy_Exported sy \<and> \<not> sy_IsGenerated sy \<and> \<not> liveByDesign sy pkgMain
     \<and> \<not> (sy_Kind sy = ''method'' \<and> (\<exists>i\<in>set syms. and_not_test tests i \<and> sy_Kind i = ''interface'' \<and> sy_QualifiedName i = owner_name sy))"

text \<open>
  C3: the unused symbols are exactly the reportable ones that no chain of calls, references,
  satisfactions and embeddings reaches from an exported symbol, a runtime entry point or a test, and that
  are no implementation of a reachable interface method.
\<close>

theorem UnusedSymbols_exact:
  assumes "live_store db table syms" and "db_packages db = Inr pkgs" and "UnusedSymbols db opts = Inr out"
  defines "pkgMain \<equiv> map pk_Path (filter (\<lambda>p. pk_Name p = kindMain) pkgs)"
    and "live \<equiv> live_names table syms (o_IncludeTests opts) (map pk_Path (filter (\<lambda>p. pk_Name p = kindMain) pkgs))"
  shows "set out = to_unused ` {sy \<in> set syms. reportable syms (o_IncludeTests opts) pkgMain sy
    \<and> sy_QualifiedName sy \<notin> live
    \<and> sy_QualifiedName sy \<notin> dispatched_names (stored_edges db table) {m \<in> set syms. and_not_test (o_IncludeTests opts) m} live}"
proof -
  note ls = assms(1)
  let ?tests = "o_IncludeTests opts"
  obtain allSyms reachable dispatched where r: "AllSymbols db ?tests = Inr allSyms" "reachableSymbols db allSyms = Inr reachable"
    "interfaceDispatchedMethods db allSyms reachable = Inr dispatched"
    "out = map to_unused (filter (is_unused pkgMain (interfaceQualifiedNames allSyms) reachable dispatched) allSyms)"
    using assms(3) by (auto simp: UnusedSymbols_def mainPackages_def assms(2) pkgMain_def split: sum.splits)
  have considered: "set allSyms = {m \<in> set syms. and_not_test ?tests m}" by (rule live_store.AllSymbols_set [OF ls r(1)])
  obtain roots where roots: "rootSymbols db allSyms pkgMain = Inr roots" "ReachableFrom db roots liveEdgeTypes = Inr reachable"
    using r(2) by (auto simp: reachableSymbols_def mainPackages_def assms(2) pkgMain_def split: sum.splits)
  have live: "set reachable = live"
    unfolding live_def live_names_def live_store.ReachableFrom_set [OF ls roots(2)] pkgMain_def [symmetric]
      live_store.rootSymbols_set [OF ls r(1) roots(1), symmetric]
    by (rule live_store.ReachableFrom_set [OF ls roots(2)]) (simp add: liveEdgeTypes_def)
  have disp: "set dispatched = dispatched_names (stored_edges db table) {m \<in> set syms. and_not_test ?tests m} live"
    using live_store.dispatched_set [OF ls r(3)] live considered by simp
  have "is_unused pkgMain (interfaceQualifiedNames allSyms) reachable dispatched sy \<and> sy \<in> set allSyms \<longleftrightarrow>
      sy \<in> set syms \<and> reportable syms ?tests pkgMain sy \<and> sy_QualifiedName sy \<notin> live \<and> sy_QualifiedName sy \<notin> set dispatched" for sy
    using considered live by (auto simp: is_unused_def reportable_def interfaceQualifiedNames_def image_iff)
  then show ?thesis unfolding r(4) disp [symmetric] by auto
qed


section \<open>A store that closes\<close>

text \<open>As many rounds as there are rows reach everything.\<close>

fun close_names :: "nat \<Rightarrow> edge_row list \<Rightarrow> (edge_row \<Rightarrow> bool) \<Rightarrow> string list \<Rightarrow> string list" where
  "close_names 0 table P names = names"
| "close_names (Suc n) table P names =
     close_names n table P (remdups (names @ map ew_to (filter (\<lambda>r. P r \<and> ew_from r \<in> set names) table)))"

lemma close_names_set: "set (close_names n table P names) = (\<Union>i\<le>n. (row_step table P ^^ i) `` set names)"
proof (induction n arbitrary: names)
  case (Suc n)
  let ?R = "row_step table P"
  have "set (remdups (names @ map ew_to (filter (\<lambda>r. P r \<and> ew_from r \<in> set names) table))) = set names \<union> ?R `` set names"
    by (auto simp: row_step_def)
  then have "set (close_names (Suc n) table P names) = (\<Union>i\<le>n. (?R ^^ i) `` (set names \<union> ?R `` set names))"
    using Suc by simp
  also have "\<dots> = (\<Union>i\<le>n. (?R ^^ i) `` set names \<union> (?R ^^ Suc i) `` set names)"
  proof -
    have "(?R ^^ i) `` (?R `` S) = (?R ^^ Suc i) `` S" for i S by (metis relcomp_Image relpow.simps(2) relpow_commute)
    then show ?thesis by (simp only: Image_Un)
  qed
  also have "\<dots> = (\<Union>i\<le>Suc n. (?R ^^ i) `` set names)"
  proof -
    have "(\<Union>i\<le>n. f i \<union> f (Suc i)) = (\<Union>i\<le>Suc n. f i)" for f :: "nat \<Rightarrow> string set"
      by (induction n) (auto simp: atMost_Suc)
    then show ?thesis .
  qed
  finally show ?case .
qed simp

lemma close_names_rtrancl: "set (close_names (length table) table P names) = (row_step table P)\<^sup>* `` set names"
proof -
  let ?R = "row_step table P"
  have R: "?R = (\<lambda>r. (ew_from r, ew_to r)) ` set (filter P table)" by (auto simp: row_step_def)
  then have fin: "finite ?R" by (metis List.finite_set finite_imageI)
  have "card ?R \<le> length table"
    unfolding R by (metis List.finite_set card_image_le card_length le_trans length_filter_le)
  moreover have "?R\<^sup>+ = (\<Union>i\<in>{i. 0 < i \<and> i \<le> card ?R}. ?R ^^ i)" by (rule trancl_finite_eq_relpow [OF fin])
  ultimately have "?R\<^sup>+ \<subseteq> (\<Union>i\<le>length table. ?R ^^ i)" by fastforce
  moreover have "?R ^^ 0 \<subseteq> (\<Union>i\<le>length table. ?R ^^ i)" by (rule UN_upper) simp
  ultimately have "?R\<^sup>* \<subseteq> (\<Union>i\<le>length table. ?R ^^ i)" by (simp only: rtrancl_trancl_reflcl Un_subset_iff relpow.simps)
  moreover have "(\<Union>i\<le>length table. ?R ^^ i) \<subseteq> ?R\<^sup>*" by (auto simp: rtrancl_is_UN_relpow)
  ultimately have "?R\<^sup>* = (\<Union>i\<le>length table. ?R ^^ i)" by blast
  then show ?thesis unfolding close_names_set by blast
qed

definition closure_db :: "edge_row list \<Rightarrow> symbol list \<Rightarrow> package list \<Rightarrow> store_db" where
  "closure_db table syms pkgs = (list_db table syms [])
     \<lparr>db_closure := (\<lambda>roots P. Inr (close_names (length table) table P roots)), db_packages := Inr pkgs\<rparr>"

interpretation closure_db: live_store "closure_db table syms pkgs" table syms
  for table syms pkgs
  by unfold_locales (auto simp: closure_db_def list_db_def close_names_rtrancl)

definition fn_symbol :: "string \<Rightarrow> string \<Rightarrow> string \<Rightarrow> symbol" where
  "fn_symbol qn name kind = (demo_symbol qn)\<lparr>sy_Name := name, sy_Kind := kind, sy_Exported := False\<rparr>"

text \<open>
  \<^verbatim>\<open>main\<close> calls the method \<open>m\<close> of the interface \<open>i\<close>; \<open>t\<close> satisfies \<open>i\<close>, and its \<open>m\<close> calls \<open>h\<close>.
\<close>

definition dispatch_rows :: "edge_row list" where
  "dispatch_rows =
     [demo_row ''p.main'' ''p.i.m'' ''calls'', demo_row ''p.t'' ''p.i'' ''satisfies'', demo_row ''p.t.m'' ''p.h'' ''calls'',
      demo_row ''p.main'' ''p.t'' ''references'']"

definition dispatch_syms :: "symbol list" where
  "dispatch_syms =
     [fn_symbol ''p.main'' ''main'' ''function'', fn_symbol ''p.i'' ''i'' ''interface'', fn_symbol ''p.i.m'' ''m'' ''method'',
      fn_symbol ''p.t'' ''t'' ''type'', fn_symbol ''p.t.m'' ''m'' ''method'', fn_symbol ''p.h'' ''h'' ''function'']"

definition dispatch_db :: store_db where
  "dispatch_db = closure_db dispatch_rows dispatch_syms
     [\<lparr>pk_Path = ''p'', pk_Name = ''main'', pk_Dir = [], pk_Doc = [], pk_Repo = [], pk_SymCount = 6, pk_IsTest = False,
       pk_IsGenerated = False\<rparr>]"

lemma dispatch_run:
  "(case UnusedSymbols dispatch_db demo_options of Inl _ \<Rightarrow> False | Inr out \<Rightarrow> map us_QualifiedName out = [''p.h''])"
  by code_simp

lemma dispatch_live: "live_store dispatch_db dispatch_rows dispatch_syms"
  unfolding dispatch_db_def by (rule closure_db.live_store_axioms)

theorem UnusedSymbols_exact_witness: "''p.h'' \<notin> live_names dispatch_rows dispatch_syms False [''p'']"
proof -
  obtain out where out: "UnusedSymbols dispatch_db demo_options = Inr out" "map us_QualifiedName out = [''p.h'']"
    using dispatch_run by (auto split: sum.splits)
  have p: "db_packages dispatch_db = Inr [\<lparr>pk_Path = ''p'', pk_Name = ''main'', pk_Dir = [], pk_Doc = [], pk_Repo = [],
      pk_SymCount = 6, pk_IsTest = False, pk_IsGenerated = False\<rparr>]"
    by (simp add: dispatch_db_def closure_db_def)
  obtain u where u: "u \<in> set out" "us_QualifiedName u = ''p.h''" using out(2) by auto
  then obtain sy where "u = to_unused sy" "sy_QualifiedName sy \<notin> live_names dispatch_rows dispatch_syms False [''p'']"
    unfolding UnusedSymbols_exact [OF dispatch_live p out(1)] by (auto simp: kindMain_def demo_options_def)
  then show ?thesis using u(2) by (simp add: to_unused_def)
qed

text \<open>
  a function that only a dispatched method calls is reported as unused, although the
  method itself is kept because a live call reaches it through its interface: dispatched methods are not
  followed any further. Here \<^verbatim>\<open>main\<close> calls \<^verbatim>\<open>i.m\<close>, \<^verbatim>\<open>t\<close> satisfies \<^verbatim>\<open>i\<close>, and \<^verbatim>\<open>t.m\<close> calls \<^verbatim>\<open>h\<close>.
\<close>

theorem UnusedSymbols_dispatch_gap:
  "\<exists>out. UnusedSymbols dispatch_db demo_options = Inr out \<and> map us_QualifiedName out = [''p.h'']"
  using dispatch_run by (auto split: sum.splits)

end
