(* ===== verification/GoFmt.thy ===== *)
theory GoFmt
  imports GoStrings Float64 "HOL-Library.Word"
begin

text \<open>
  Number formats of the Go library: \<^verbatim>\<open>strconv.Atoi\<close>, the padded verbs \<^verbatim>\<open>%020d\<close> and \<^verbatim>\<open>%016x\<close>, \<^verbatim>\<open>%.2f\<close>,
  and the UTF-8 punctuation the messages use.
\<close>

section \<open>Reading decimals\<close>

definition is_digit :: "char \<Rightarrow> bool" where
  "is_digit c \<longleftrightarrow> 48 \<le> byte c \<and> byte c \<le> 57"

definition decimal :: "string \<Rightarrow> nat" where
  "decimal ds = foldl (\<lambda>n c. n * 10 + (byte c - 48)) 0 ds"

text \<open>\<^verbatim>\<open>Atoi\<close>: an optional sign, at least one digit and nothing else, in the range of \<^verbatim>\<open>int64\<close>.\<close>

definition atoi :: "string \<Rightarrow> int option" where
  "atoi s =
     (let neg = has_prefix s ''-''; ds = (if neg \<or> has_prefix s ''+'' then tl s else s);
          n = (if neg then - int (decimal ds) else int (decimal ds))
      in if ds = [] \<or> \<not> list_all is_digit ds then None
         else if n < - (2 ^ 63) \<or> 2 ^ 63 \<le> n then None else Some n)"

section \<open>Padding\<close>

definition pad_left :: "nat \<Rightarrow> char \<Rightarrow> string \<Rightarrow> string" where
  "pad_left w c s = replicate (w - length s) c @ s"

text \<open>\<^verbatim>\<open>%020d\<close>: the sign counts for the width and comes first.\<close>

definition fmt_d20 :: "int \<Rightarrow> string" where
  "fmt_d20 i = (if i < 0 then CHR ''-'' # pad_left 19 CHR ''0'' (digits10 (nat (- i)))
     else pad_left 20 CHR ''0'' (digits10 (nat i)))"

fun hex_digits :: "nat \<Rightarrow> string" where
  "hex_digits n = (if n < 16 then [hex_digit n] else hex_digits (n div 16) @ [hex_digit (n mod 16)])"

declare hex_digits.simps [simp del]

definition fmt_x16 :: "64 word \<Rightarrow> string" where
  "fmt_x16 w = pad_left 16 CHR ''0'' (hex_digits (unat w))"

text \<open>\<^verbatim>\<open>%.2f\<close>: the nearest hundredth of the exact value, ties to even.\<close>

definition fmt_f2 :: "f64 \<Rightarrow> string" where
  "fmt_f2 r =
     (let h = nat (rint (abs r * 100))
      in (if r < 0 then ''-'' else []) @ digits10 (h div 100) @ ''.'' @ pad_left 2 CHR ''0'' (digits10 (h mod 100)))"

definition em_dash :: string where "em_dash = [CHR 0xE2, CHR 0x80, CHR 0x94]"
definition ellipsis :: string where "ellipsis = [CHR 0xE2, CHR 0x80, CHR 0xA6]"

section \<open>FNV-1a\<close>

text \<open>\<^verbatim>\<open>hash/fnv.New64a\<close>: xor the byte, multiply by the prime, modulo \<open>2\<^sup>6\<^sup>4\<close>.\<close>

unbundle bit_operations_syntax

definition fnv64a :: "string \<Rightarrow> 64 word" where
  "fnv64a s = foldl (\<lambda>h c. (h XOR of_nat (byte c)) * 1099511628211) 14695981039346656037 s"

end
