(* ===== verification/Overflow.thy ===== *)
theory Overflow
  imports Search Chunk GoFmt
begin

text \<open>
  Oversized responses: the table of stored sections with its eviction (\<^verbatim>\<open>store/store_response_chunks.go\<close>),
  the gate every tool response passes and the read-back tool (\<^verbatim>\<open>mcp/overflow.go\<close>), and the usage counters
  (\<^verbatim>\<open>mcp/stats.go\<close>). The table is the list of its rows in \<^verbatim>\<open>rowid\<close> order. A transaction either commits or
  leaves the table as it was; the argument \<open>fault\<close> is the engine's error, if there is one.
\<close>

section \<open>The table\<close>

record response_section =
  rs_ResponseID :: string
  rs_Tool :: string
  rs_Title :: string
  rs_Content :: string
  rs_CreatedAt :: string
  rs_SectionIdx :: int
  rs_ByteCount :: int
  rs_Score :: f64

record response_group =
  rg_ResponseID :: string
  rg_Tool :: string
  rg_CreatedAt :: string
  rg_Sections :: nat
  rg_TotalBytes :: int

text \<open>\<^verbatim>\<open>ErrUnknownResponse\<close> is told apart from a failing query.\<close>

datatype response_error = UnknownResponse string | QueryError string

definition response_error_string :: "response_error \<Rightarrow> string" where
  "response_error_string e = (case e of UnknownResponse i \<Rightarrow> ''unknown response_id: '' @ i | QueryError m \<Rightarrow> m)"

definition responseChunkCapBytes :: int where "responseChunkCapBytes = 4 * 2 ^ 20"

definition total_bytes :: "response_section list \<Rightarrow> int" where
  "total_bytes rows = (\<Sum>r\<leftarrow>rows. rs_ByteCount r)"

text \<open>\<^verbatim>\<open>ORDER BY created_at, rowid LIMIT 1\<close> among the rows of other responses.\<close>

definition oldest_other :: "string \<Rightarrow> response_section list \<Rightarrow> response_section option" where
  "oldest_other keepID rows =
     (case sort_by (by_key rs_CreatedAt) (filter (\<lambda>r. rs_ResponseID r \<noteq> keepID) rows) of [] \<Rightarrow> None | r # _ \<Rightarrow> Some r)"

lemma oldest_other_mem: "oldest_other keepID rows = Some r \<Longrightarrow> r \<in> set rows \<and> rs_ResponseID r \<noteq> keepID"
proof -
  assume "oldest_other keepID rows = Some r"
  then have "r \<in> set (sort_by (by_key rs_CreatedAt) (filter (\<lambda>r. rs_ResponseID r \<noteq> keepID) rows))"
    by (auto simp: oldest_other_def simp del: set_sort_by split: list.splits)
  then show ?thesis by simp
qed

function pruneResponseChunksToCap :: "int \<Rightarrow> string \<Rightarrow> response_section list \<Rightarrow> response_section list" where
  "pruneResponseChunksToCap cap keepID rows =
     (if total_bytes rows \<le> cap then rows
      else case oldest_other keepID rows of
        None \<Rightarrow> rows
      | Some oldest \<Rightarrow> pruneResponseChunksToCap cap keepID (filter (\<lambda>r. rs_ResponseID r \<noteq> rs_ResponseID oldest) rows))"
  by pat_completeness auto
termination
proof (relation "measure (\<lambda>(cap, keepID, rows). length rows)", goal_cases)
  case (2 cap keepID rows oldest)
  have "oldest \<in> set rows" using oldest_other_mem [OF 2(2)] by blast
  then show ?case by (auto intro!: length_filter_less)
qed simp

declare pruneResponseChunksToCap.simps [simp del]

definition newResponseID :: "string \<Rightarrow> int \<Rightarrow> string" where
  "newResponseID tool nano =
     ''resp-'' @ fmt_d20 nano @ ''-'' @ fmt_x16 (fnv64a (tool @ [CHR 0x00] @ itoa nano))"

text \<open>
  \<^verbatim>\<open>time.RFC3339Nano\<close>: the seconds as \<open>YYYY-MM-DDTHH:MM:SS\<close> (an argument), then the fraction with its trailing
  zeros removed, none at all for a whole second, then \<^verbatim>\<open>Z\<close>.
\<close>

definition rfc3339_nano :: "string \<Rightarrow> nat \<Rightarrow> string" where
  "rfc3339_nano secs nanos =
     secs @ (if nanos = 0 then []
             else ''.'' @ rev (dropWhile (\<lambda>c. c = CHR ''0'') (rev (pad_left 9 CHR ''0'' (digits10 nanos))))) @ ''Z''"

definition section_row :: "string \<Rightarrow> string \<Rightarrow> string \<Rightarrow> nat \<times> section_t \<Rightarrow> response_section" where
  "section_row i tool createdAt = (\<lambda>(k, sec).
     \<lparr>rs_ResponseID = i, rs_Tool = tool, rs_Title = s_Title sec, rs_Content = s_Content sec, rs_CreatedAt = createdAt,
      rs_SectionIdx = int k, rs_ByteCount = int (length (s_Content sec)), rs_Score = 0\<rparr>)"

text \<open>The clock is read once: \<open>nano\<close> since the epoch, and the same instant as text.\<close>

definition SaveResponseChunks :: "string option \<Rightarrow> int \<Rightarrow> string \<Rightarrow> string \<Rightarrow> section_t list \<Rightarrow> response_section list
    \<Rightarrow> string result \<times> response_section list" where
  "SaveResponseChunks fault nano createdAt tool sections rows =
     (if sections = [] then (Inl ''no response sections to store'', rows)
      else case fault of
        Some e \<Rightarrow> (Inl e, rows)
      | None \<Rightarrow>
          (let i = newResponseID tool nano in
             (Inr i, pruneResponseChunksToCap responseChunkCapBytes i
                (rows @ map (section_row i tool createdAt) (zip [0..<length sections] sections)))))"

definition responseExists :: "string \<Rightarrow> response_section list \<Rightarrow> bool" where
  "responseExists responseID rows = list_ex (\<lambda>r. rs_ResponseID r = responseID) rows"

text \<open>A stored response has one tool, so the group by id and tool is one row.\<close>

definition ResponseManifest :: "string option \<Rightarrow> response_section list \<Rightarrow> string \<Rightarrow> response_error + response_group" where
  "ResponseManifest fault rows responseID =
     (case fault of
        Some e \<Rightarrow> Inl (QueryError e)
      | None \<Rightarrow>
          (case filter (\<lambda>r. rs_ResponseID r = responseID) rows of
             [] \<Rightarrow> Inl (UnknownResponse responseID)
           | r # rest \<Rightarrow>
               (let grp = filter (\<lambda>x. rs_Tool x = rs_Tool r) (r # rest) in
                  Inr \<lparr>rg_ResponseID = responseID, rg_Tool = rs_Tool r, rg_CreatedAt = fold min (map rs_CreatedAt grp) (rs_CreatedAt r),
                       rg_Sections = length grp, rg_TotalBytes = total_bytes grp\<rparr>)))"

definition ResponseSections :: "string option \<Rightarrow> response_section list \<Rightarrow> string \<Rightarrow> int option
    \<Rightarrow> response_error + response_section list" where
  "ResponseSections fault rows responseID sectionIdx =
     (case fault of
        Some e \<Rightarrow> Inl (QueryError e)
      | None \<Rightarrow>
          if \<not> responseExists responseID rows then Inl (UnknownResponse responseID)
          else Inr (sort_by (by_key rs_SectionIdx) (filter (\<lambda>r. rs_ResponseID r = responseID
                 \<and> (case sectionIdx of None \<Rightarrow> True | Some k \<Rightarrow> rs_SectionIdx r = k)) rows)))"

text \<open>
  \<open>match\<close> is the engine's full-text match: the rows of the table an expression finds, scored.
  \<^verbatim>\<open>ORDER BY rank, section_idx LIMIT n\<close>.
\<close>

definition rank_order :: "response_section \<Rightarrow> response_section \<Rightarrow> bool" where
  "rank_order a b \<longleftrightarrow> rs_Score a < rs_Score b \<or> rs_Score a = rs_Score b \<and> rs_SectionIdx a < rs_SectionIdx b"

definition SearchResponseSections :: "string option \<Rightarrow> (string \<Rightarrow> response_section list \<Rightarrow> response_section list) \<Rightarrow> unidata
    \<Rightarrow> response_section list \<Rightarrow> string \<Rightarrow> string \<Rightarrow> int \<Rightarrow> response_error + response_section list" where
  "SearchResponseSections fault match U rows responseID pattern limit0 =
     (let limit = (if limit0 \<le> 0 then 5 else nat limit0); sanitized = sanitizeFTSQuery U pattern in
        case fault of
          Some e \<Rightarrow> Inl (QueryError e)
        | None \<Rightarrow>
            if \<not> responseExists responseID rows then Inl (UnknownResponse responseID)
            else if sanitized = [] then Inr []
            else if ftsNeedsFullScan U pattern then
              Inr (take limit (sort_by (by_key rs_SectionIdx)
                (filter (\<lambda>r. rs_ResponseID r = responseID \<and> contains (rs_Content r) pattern) rows)))
            else Inr (take limit (sort_by rank_order (filter (\<lambda>r. rs_ResponseID r = responseID) (match sanitized rows)))))"

definition PruneResponseChunks :: "string option \<Rightarrow> response_section list \<Rightarrow> unit result \<times> response_section list" where
  "PruneResponseChunks fault rows =
     (case fault of Some e \<Rightarrow> (Inl (''prune response chunks: '' @ e), rows) | None \<Rightarrow> (Inr (), []))"

section \<open>Messages\<close>

text \<open>Decoded JSON: the arguments of a tool call are a map from names to values.\<close>

datatype json = JNull | JBool bool | JNum f64 | JStr string | JArr "json list" | JObj "(string \<times> json) list"

definition requiredString :: "(string \<times> json) list \<Rightarrow> string \<Rightarrow> string" where
  "requiredString args key = (case map_of args key of Some (JStr s) \<Rightarrow> s | _ \<Rightarrow> [])"

text \<open>\<^verbatim>\<open>int(v)\<close> of a \<^verbatim>\<open>float64\<close> in range: toward zero.\<close>

definition int_of_float :: "f64 \<Rightarrow> int" where
  "int_of_float v = (if 0 \<le> v then \<lfloor>v\<rfloor> else \<lceil>v\<rceil>)"

definition defaultResponseLimit :: int where "defaultResponseLimit = 16 * 1024"
definition manifestPreviewBytes :: int where "manifestPreviewBytes = 200"

text \<open>The environment variable, \<open>[]\<close> when it is not set.\<close>

definition responseLimit :: "string \<Rightarrow> int" where
  "responseLimit env =
     (if env = [] then defaultResponseLimit
      else case atoi env of Some n \<Rightarrow> if 0 < n then n else defaultResponseLimit | None \<Rightarrow> defaultResponseLimit)"

definition truncateUTF8 :: "string \<Rightarrow> int \<Rightarrow> string" where
  "truncateUTF8 s limit = (if int (length s) \<le> limit then s else drop_partial (take (nat (max limit 0)) s))"

text \<open>\<^verbatim>\<open>preview\<close>; the limit is the constant above, so the slice is in range.\<close>

definition preview :: "string \<Rightarrow> int \<Rightarrow> string" where
  "preview s limit = (if int (length s) \<le> limit then s else drop_partial (take (nat (limit - 3)) s) @ ''...'')"

definition indentLines :: "string \<Rightarrow> string \<Rightarrow> string" where
  "indentLines s pfx =
     str_join [nl] (map (\<lambda>line. if line \<noteq> [] then pfx @ line else line)
       (split_char nl (rev (dropWhile (\<lambda>c. c = nl) (rev s)))))"

definition previewed :: "string \<Rightarrow> string \<Rightarrow> string" where
  "previewed content sep =
     (let pv = preview content manifestPreviewBytes in if pv \<noteq> [] then indentLines pv ''    '' @ sep else [])"

definition gateStoreError :: "int \<Rightarrow> int \<Rightarrow> string \<Rightarrow> string" where
  "gateStoreError sz limit err = ''Error: response is '' @ itoa sz @ '' bytes, above the '' @ itoa limit
     @ '' byte limit, and it could not be stored for section reads: '' @ err"

definition renderResponseManifest :: "unidata \<Rightarrow> string \<Rightarrow> string \<Rightarrow> section_t list \<Rightarrow> int \<Rightarrow> int \<Rightarrow> string" where
  "renderResponseManifest U i tool sections tot limit =
     ''Oversized response stored instead of returned: '' @ itoa tot @ '' bytes exceeds the '' @ itoa limit @ '' byte limit.'' @ [nl]
     @ ''response_id: '' @ i @ [nl] @ ''tool: '' @ tool @ [nl] @ ''total_bytes: '' @ itoa tot @ [nl]
     @ ''sections: '' @ itoa (int (length sections)) @ [nl, nl]
     @ concat (map (\<lambda>(k, sec). ''['' @ itoa (int k) @ ''] '' @ s_Title sec @ '' '' @ em_dash @ '' ''
         @ itoa (int (length (s_Content sec))) @ '' bytes'' @ [nl] @ previewed (s_Content sec) [nl] @ [nl])
         (zip [0..<length sections] sections))
     @ ''Fetch the full content with `read_response_section`:'' @ [nl]
     @ ''- {'' @ [dquote] @ ''response_id'' @ [dquote] @ '': '' @ go_quote U i @ '', '' @ [dquote] @ ''section'' @ [dquote]
     @ '': N} returns section N verbatim'' @ [nl]
     @ ''- {'' @ [dquote] @ ''response_id'' @ [dquote] @ '': '' @ go_quote U i @ '', '' @ [dquote] @ ''query'' @ [dquote] @ '': ''
     @ [dquote] @ ''keyword'' @ [dquote] @ ''} returns matching sections ranked by relevance'' @ [nl]
     @ ''- {'' @ [dquote] @ ''response_id'' @ [dquote] @ '': '' @ go_quote U i @ ''} returns every section in order'' @ [nl]"

definition stopNotice :: "unidata \<Rightarrow> int \<Rightarrow> int \<Rightarrow> int \<Rightarrow> string \<Rightarrow> string" where
  "stopNotice U last_idx tot limit i =
     ellipsis @ '' stopped after section '' @ itoa last_idx @ '' of '' @ itoa tot @ '' to stay within the '' @ itoa limit
     @ '' byte response limit. Read the rest with {'' @ [dquote] @ ''response_id'' @ [dquote] @ '': '' @ go_quote U i @ '', ''
     @ [dquote] @ ''section'' @ [dquote] @ '': N} or narrow it with {'' @ [dquote] @ ''query'' @ [dquote] @ '': ''
     @ [dquote] @ ''keyword'' @ [dquote] @ ''}.'' @ [nl]"

definition unknownResponseError :: "string \<Rightarrow> string" where
  "unknownResponseError i = ''Error: unknown response_id '' @ i @ '' '' @ em_dash
     @ '' it was never stored or has been pruned (overflow data is pruned on re-index). Re-run the original tool to regenerate it.''"

section \<open>Reading sections back\<close>

definition lookup_error :: "string \<Rightarrow> response_error \<Rightarrow> string" where
  "lookup_error i e = (case e of UnknownResponse _ \<Rightarrow> unknownResponseError i | QueryError m \<Rightarrow> ''Error: '' @ m)"

definition section_header :: "response_section \<Rightarrow> string" where
  "section_header sec = ''section '' @ itoa (rs_SectionIdx sec) @ '': '' @ rs_Title sec @ '' '' @ em_dash @ '' ''
     @ itoa (rs_ByteCount sec) @ '' bytes'' @ [nl, nl]"

text \<open>
  A handler answers with the text and whether it is an error. \<open>fault\<close> is the failure of the first query, \<open>fault2\<close> of the second.
\<close>

definition readResponseSectionByIndex :: "string option \<Rightarrow> string option \<Rightarrow> response_section list \<Rightarrow> string \<Rightarrow> int \<Rightarrow> string \<times> bool" where
  "readResponseSectionByIndex fault fault2 rows i idx =
     (case ResponseSections fault rows i (Some idx) of
        Inl e \<Rightarrow> (lookup_error i e, True)
      | Inr [] \<Rightarrow>
          (case ResponseManifest fault2 rows i of
             Inl e \<Rightarrow> (''Error: '' @ response_error_string e, True)
           | Inr m \<Rightarrow> (''Error: response '' @ i @ '' has no section '' @ itoa idx @ '' (it has '' @ itoa (int (rg_Sections m))
                 @ '' sections, indexes 0-'' @ itoa (int (rg_Sections m) - 1) @ '')'', True))
      | Inr (sec # _) \<Rightarrow> (section_header sec @ rs_Content sec, False))"

definition searchResponseSections :: "string option \<Rightarrow> (string \<Rightarrow> response_section list \<Rightarrow> response_section list) \<Rightarrow> unidata
    \<Rightarrow> response_section list \<Rightarrow> string \<Rightarrow> string \<Rightarrow> int \<Rightarrow> string \<times> bool" where
  "searchResponseSections fault match U rows i query limit =
     (case SearchResponseSections fault match U rows i query limit of
        Inl e \<Rightarrow> (lookup_error i e, True)
      | Inr [] \<Rightarrow> (''No sections of response '' @ i @ '' match '' @ go_quote U query @ ''.'', False)
      | Inr hits \<Rightarrow>
          (''Matches for '' @ go_quote U query @ '' in response '' @ i @ '', ranked by relevance:'' @ [nl, nl]
           @ concat (map (\<lambda>(k, sec). ''#'' @ itoa (int k + 1) @ '' ['' @ itoa (rs_SectionIdx sec) @ ''] '' @ rs_Title sec
               @ '' '' @ em_dash @ '' '' @ itoa (rs_ByteCount sec) @ '' bytes (score '' @ fmt_f2 (rs_Score sec) @ '')'' @ [nl]
               @ previewed (rs_Content sec) [nl, nl]) (zip [0..<length hits] hits))
           @ ''Read a full section with {'' @ [dquote] @ ''response_id'' @ [dquote] @ '': '' @ go_quote U i @ '', ''
           @ [dquote] @ ''section'' @ [dquote] @ '': <index>}.'', False))"

definition truncated_tail :: "unidata \<Rightarrow> string \<Rightarrow> int \<Rightarrow> string" where
  "truncated_tail U i idx = [nl] @ ellipsis @ '' truncated; read the whole section with {'' @ [dquote] @ ''response_id'' @ [dquote]
     @ '': '' @ go_quote U i @ '', '' @ [dquote] @ ''section'' @ [dquote] @ '': '' @ itoa idx @ ''}.'' @ [nl]"

fun read_all_loop :: "unidata \<Rightarrow> string \<Rightarrow> int \<Rightarrow> int \<Rightarrow> int \<Rightarrow> nat \<Rightarrow> string \<Rightarrow> response_section list \<Rightarrow> string" where
  "read_all_loop U i tot limit budget k b [] = b"
| "read_all_loop U i tot limit budget k b (sec # secs) =
     (if int (length b) + int (length (section_header sec)) + int (length (rs_Content sec)) > budget
      then (if k = 0
            then b @ section_header sec
              @ truncateUTF8 (rs_Content sec) (budget - int (length (b @ section_header sec))) @ truncated_tail U i (rs_SectionIdx sec)
            else b @ stopNotice U (int k - 1) tot limit i)
      else read_all_loop U i tot limit budget (Suc k) (b @ section_header sec @ rs_Content sec @ [nl, nl]) secs)"

definition readAllResponseSections :: "string option \<Rightarrow> unidata \<Rightarrow> int \<Rightarrow> response_section list \<Rightarrow> string \<Rightarrow> string \<times> bool" where
  "readAllResponseSections fault U limit rows i =
     (case ResponseSections fault rows i None of
        Inl e \<Rightarrow> (lookup_error i e, True)
      | Inr sections \<Rightarrow>
          (let tot = int (length sections); notice = stopNotice U 0 tot limit i in
             (read_all_loop U i tot limit (limit - int (length notice)) 0 [] sections, False)))"

definition handleReadResponseSection :: "string option \<Rightarrow> string option \<Rightarrow> (string \<Rightarrow> response_section list \<Rightarrow> response_section list) \<Rightarrow> unidata
    \<Rightarrow> int \<Rightarrow> response_section list \<Rightarrow> (string \<times> json) list \<Rightarrow> string \<times> bool" where
  "handleReadResponseSection fault fault2 match U limit rows args =
     (let i = requiredString args ''response_id''; q = requiredString args ''query'' in
        if i = [] then (''Error: response_id is required'', True)
        else case map_of args ''section'' of
          Some (JNum v) \<Rightarrow> readResponseSectionByIndex fault fault2 rows i (int_of_float v)
        | _ \<Rightarrow>
            if q \<noteq> [] then searchResponseSections fault match U rows i q
              (case map_of args ''limit'' of Some (JNum v) \<Rightarrow> int_of_float v | _ \<Rightarrow> 5)
            else readAllResponseSections fault U limit rows i)"

section \<open>The gate\<close>

record gate_state =
  g_rows :: "response_section list"
  g_gated :: "64 word"

text \<open>
  \<open>opened\<close> is the error of opening the store, if any. \<open>None\<close> is a splitter that does not return;
  theory \<open>Chunk_Proofs\<close> excludes it.
\<close>

definition gateResponse :: "unidata \<Rightarrow> int \<Rightarrow> string option \<Rightarrow> string option \<Rightarrow> int \<Rightarrow> string \<Rightarrow> string \<Rightarrow> string
    \<Rightarrow> gate_state \<Rightarrow> (string \<times> gate_state) option" where
  "gateResponse U limit opened fault nano createdAt tool rendered st =
     (if int (length rendered) \<le> limit then Some (rendered, st)
      else case opened of
        Some e \<Rightarrow> Some (gateStoreError (int (length rendered)) limit e, st)
      | None \<Rightarrow>
          (case RenderedSections rendered limit of
             None \<Rightarrow> None
           | Some sections \<Rightarrow>
               if sections = [] then Some (gateStoreError (int (length rendered)) limit ''chunking produced no sections'', st)
               else (case SaveResponseChunks fault nano createdAt tool sections (g_rows st) of
                       (Inl e, rows) \<Rightarrow> Some (gateStoreError (int (length rendered)) limit e, st\<lparr>g_rows := rows\<rparr>)
                     | (Inr i, rows) \<Rightarrow>
                         Some (renderResponseManifest U i tool sections (int (length rendered)) limit,
                               st\<lparr>g_rows := rows, g_gated := g_gated st + 1\<rparr>))))"

section \<open>Usage counters\<close>

text \<open>Counters are \<^verbatim>\<open>int64\<close> and wrap.\<close>

record tool_stat =
  ts_calls :: "64 word"
  ts_errors :: "64 word"
  ts_respBytes :: "64 word"
  ts_rawBytes :: "64 word"

definition usage_record :: "string \<Rightarrow> 64 word \<Rightarrow> 64 word \<Rightarrow> bool \<Rightarrow> (string, tool_stat) gomap \<Rightarrow> (string, tool_stat) gomap" where
  "usage_record tool respBytes rawBytes isErr byTool =
     (let ts = gm_get \<lparr>ts_calls = 0, ts_errors = 0, ts_respBytes = 0, ts_rawBytes = 0\<rparr> byTool tool in
        gm_put tool \<lparr>ts_calls = ts_calls ts + 1, ts_errors = (if isErr then ts_errors ts + 1 else ts_errors ts),
          ts_respBytes = ts_respBytes ts + respBytes, ts_rawBytes = ts_rawBytes ts + rawBytes\<rparr> byTool)"

definition reductionPct :: "64 word \<Rightarrow> 64 word \<Rightarrow> f64" where
  "reductionPct respBytes rawBytes =
     (if sint rawBytes \<le> 0 then 0
      else let r = f_sub 1 (f_div (f_of_int (sint respBytes)) (f_of_int (sint rawBytes))) in
        if r < 0 then 0 else if r > 1 then 1 else r)"

record usage_row =
  ur_Tool :: string
  ur_Calls :: "64 word"
  ur_Errors :: "64 word"
  ur_RespBytes :: "64 word"
  ur_RawBytes :: "64 word"
  ur_Reduction :: f64

record usage_snapshot =
  us_Rows :: "usage_row list"
  us_TotalCalls :: "64 word"
  us_TotalErrors :: "64 word"
  us_TotalRespBytes :: "64 word"
  us_TotalRawBytes :: "64 word"
  us_Reduction :: f64
  us_GatedResponses :: "64 word"

definition usage_row_of :: "string \<times> tool_stat \<Rightarrow> usage_row" where
  "usage_row_of = (\<lambda>(tool, ts). \<lparr>ur_Tool = tool, ur_Calls = ts_calls ts, ur_Errors = ts_errors ts,
     ur_RespBytes = ts_respBytes ts, ur_RawBytes = ts_rawBytes ts, ur_Reduction = reductionPct (ts_respBytes ts) (ts_rawBytes ts)\<rparr>)"

definition snapshot :: "(string, tool_stat) gomap \<Rightarrow> 64 word \<Rightarrow> usage_snapshot" where
  "snapshot byTool gated =
     (let tot = (\<lambda>f. fold (\<lambda>(_, ts) n. n + f ts) byTool 0) in
        \<lparr>us_Rows = sort_by (by_key ur_Tool) (map usage_row_of byTool), us_TotalCalls = tot ts_calls,
         us_TotalErrors = tot ts_errors, us_TotalRespBytes = tot ts_respBytes, us_TotalRawBytes = tot ts_rawBytes,
         us_Reduction = reductionPct (tot ts_respBytes) (tot ts_rawBytes), us_GatedResponses = gated\<rparr>)"

end
