(* ===== verification/Overflow_Proofs.thy ===== *)
theory Overflow_Proofs
  imports Overflow Chunk_Proofs Fuse_Rank
begin

text \<open>
  Proofs about theory \<open>Overflow\<close>: what an eviction removes and keeps, the round trip of the gate through the stored
  sections (as a client of locale \<open>section_cache\<close>), the size of a full read-back, and the order of ids and time stamps.
\<close>

section \<open>Eviction\<close>

definition of_id :: "string \<Rightarrow> response_section list \<Rightarrow> response_section list" where
  "of_id i rows = filter (\<lambda>r. rs_ResponseID r = i) rows"

definition without_ids :: "string set \<Rightarrow> response_section list \<Rightarrow> response_section list" where
  "without_ids D rows = filter (\<lambda>r. rs_ResponseID r \<notin> D) rows"

lemma without_ids_empty [simp]: "without_ids {} rows = rows"
  by (simp add: without_ids_def)

lemma without_ids_insert:
  "without_ids D (filter (\<lambda>r. rs_ResponseID r \<noteq> i) rows) = without_ids (insert i D) rows"
  by (auto simp: without_ids_def intro: filter_cong)

lemma oldest_other_least:
  assumes "oldest_other keepID rows = Some e" and "r \<in> set rows" and "rs_ResponseID r \<noteq> keepID"
  shows "rs_CreatedAt e \<le> rs_CreatedAt r"
proof -
  let ?l = "sort_by (by_key rs_CreatedAt) (filter (\<lambda>r. rs_ResponseID r \<noteq> keepID) rows)"
  from assms(1) obtain es where l: "?l = e # es" by (auto simp: oldest_other_def split: list.splits)
  have "r \<in> set ?l" using assms by simp
  moreover have "sorted_wrt (\<lambda>a b. \<not> by_key rs_CreatedAt b a) ?l" by (rule strict_weak.sort_by_sorted [OF strict_weak_by_key])
  ultimately show ?thesis unfolding l by (auto simp: by_key_def)
qed

lemma oldest_other_None: "oldest_other keepID rows = None \<Longrightarrow> r \<in> set rows \<Longrightarrow> rs_ResponseID r = keepID"
  by (auto simp: oldest_other_def filter_empty_conv split: list.splits)

text \<open>The rows that stay: \<open>D\<close> are the evicted ids.\<close>

definition evicts :: "int \<Rightarrow> string \<Rightarrow> response_section list \<Rightarrow> string set \<Rightarrow> bool" where
  "evicts cap keepID rows D \<longleftrightarrow>
     keepID \<notin> D
     \<and> (total_bytes (without_ids D rows) \<le> cap \<or> (\<forall>r\<in>set (without_ids D rows). rs_ResponseID r = keepID))
     \<and> (\<forall>d\<in>D. \<exists>e\<in>set rows. rs_ResponseID e = d
          \<and> (\<forall>r\<in>set (without_ids D rows). rs_ResponseID r \<noteq> keepID \<longrightarrow> rs_CreatedAt e \<le> rs_CreatedAt r))
     \<and> (D \<noteq> {} \<longrightarrow> (\<exists>d\<in>D. cap < total_bytes (without_ids (D - {d}) rows)))"

lemma prune_evicts:
  "\<exists>D. pruneResponseChunksToCap cap keepID rows = without_ids D rows \<and> evicts cap keepID rows D"
proof (induction cap keepID rows rule: pruneResponseChunksToCap.induct)
  case (1 cap keepID rows)
  show ?case
  proof (cases "total_bytes rows \<le> cap")
    case True
    then show ?thesis by (intro exI [of _ "{}"]) (simp add: pruneResponseChunksToCap.simps evicts_def)
  next
    case big: False
    show ?thesis
    proof (cases "oldest_other keepID rows")
      case None
      then show ?thesis using oldest_other_None [OF None] big
        by (intro exI [of _ "{}"]) (simp add: pruneResponseChunksToCap.simps evicts_def)
    next
      case (Some e)
      let ?i = "rs_ResponseID e" and ?rows = "filter (\<lambda>r. rs_ResponseID r \<noteq> rs_ResponseID e) rows"
      have e: "e \<in> set rows" "?i \<noteq> keepID" using oldest_other_mem [OF Some] by auto
      obtain D where D: "pruneResponseChunksToCap cap keepID ?rows = without_ids D ?rows" "evicts cap keepID ?rows D"
        using "1.IH" [OF big Some] by blast
      have eq: "without_ids (D - {d}) ?rows = without_ids (insert ?i (D - {d})) rows" for d by (rule without_ids_insert)
      have run: "pruneResponseChunksToCap cap keepID rows = without_ids (insert ?i D) rows"
        using D(1) big Some by (simp add: pruneResponseChunksToCap.simps [of cap keepID rows] without_ids_insert)
      have least: "rs_CreatedAt e \<le> rs_CreatedAt r" if "r \<in> set (without_ids (insert ?i D) rows)" "rs_ResponseID r \<noteq> keepID" for r
        using oldest_other_least [OF Some, of r] that by (auto simp: without_ids_def)
      have over: "\<exists>d\<in>insert ?i D. cap < total_bytes (without_ids (insert ?i D - {d}) rows)"
      proof (cases "D = {} \<or> D = {?i}")
        case True
        then have "insert ?i D - {?i} = {}" by auto
        then have "cap < total_bytes (without_ids (insert ?i D - {?i}) rows)" using big by (simp only: without_ids_empty not_le)
        then show ?thesis by blast
      next
        case False
        then obtain d where d: "d \<in> D" "cap < total_bytes (without_ids (D - {d}) ?rows)"
          using D(2) unfolding evicts_def by auto
        have "d \<noteq> ?i"
        proof
          assume "d = ?i"
          moreover have "\<exists>x\<in>set ?rows. rs_ResponseID x = d" using D(2) d(1) unfolding evicts_def by blast
          ultimately show False by auto
        qed
        then have "insert ?i (D - {d}) = insert ?i D - {d}" by auto
        with d eq show ?thesis by (metis insertCI)
      qed
      have "evicts cap keepID rows (insert ?i D)"
        unfolding evicts_def
      proof (intro conjI)
        show "keepID \<notin> insert ?i D" using D(2) e(2) unfolding evicts_def by auto
        show "total_bytes (without_ids (insert ?i D) rows) \<le> cap \<or> (\<forall>r\<in>set (without_ids (insert ?i D) rows). rs_ResponseID r = keepID)"
          using D(2) unfolding evicts_def without_ids_insert by blast
        show "\<forall>d\<in>insert ?i D. \<exists>x\<in>set rows. rs_ResponseID x = d
          \<and> (\<forall>r\<in>set (without_ids (insert ?i D) rows). rs_ResponseID r \<noteq> keepID \<longrightarrow> rs_CreatedAt x \<le> rs_CreatedAt r)"
        proof
          fix d assume d: "d \<in> insert ?i D"
          show "\<exists>x\<in>set rows. rs_ResponseID x = d
            \<and> (\<forall>r\<in>set (without_ids (insert ?i D) rows). rs_ResponseID r \<noteq> keepID \<longrightarrow> rs_CreatedAt x \<le> rs_CreatedAt r)"
          proof (cases "d = ?i")
            case True
            then show ?thesis using e(1) least by blast
          next
            case False
            with d have "d \<in> D" by simp
            then obtain x where "x \<in> set ?rows" "rs_ResponseID x = d"
              "\<forall>r\<in>set (without_ids (insert ?i D) rows). rs_ResponseID r \<noteq> keepID \<longrightarrow> rs_CreatedAt x \<le> rs_CreatedAt r"
              using D(2) unfolding evicts_def without_ids_insert by blast
            then show ?thesis by (intro bexI [of _ x]) auto
          qed
        qed
        show "insert ?i D \<noteq> {} \<longrightarrow> (\<exists>d\<in>insert ?i D. cap < total_bytes (without_ids (insert ?i D - {d}) rows))"
          using over by simp
      qed
      with run show ?thesis by blast
    qed
  qed
qed


section \<open>Saved sections\<close>

lemma sort_by_idem: "sorted_wrt (\<lambda>a b. \<not> lt b a) xs \<Longrightarrow> sort_by lt xs = xs"
proof (induction xs)
  case (Cons x xs)
  then show ?case by (cases xs) auto
qed simp

definition saved_rows :: "string \<Rightarrow> string \<Rightarrow> string \<Rightarrow> section_t list \<Rightarrow> response_section list" where
  "saved_rows i tool createdAt sections = map (section_row i tool createdAt) (zip [0..<length sections] sections)"

lemma saved_rows_simps [simp]:
  "map rs_Content (saved_rows i tool c secs) = map s_Content secs"
  "length (saved_rows i tool c secs) = length secs"
  "of_id i (saved_rows i tool c secs) = saved_rows i tool c secs"
  "saved_rows i tool c secs = [] \<longleftrightarrow> secs = []"
  by (auto simp: saved_rows_def section_row_def of_id_def filter_id_conv split_def
      intro!: nth_equalityI)

lemma saved_rows_nth:
  "k < length secs \<Longrightarrow> saved_rows i tool c secs ! k =
     \<lparr>rs_ResponseID = i, rs_Tool = tool, rs_Title = s_Title (secs ! k), rs_Content = s_Content (secs ! k), rs_CreatedAt = c,
      rs_SectionIdx = int k, rs_ByteCount = int (length (s_Content (secs ! k))), rs_Score = 0\<rparr>"
  by (simp add: saved_rows_def section_row_def)

lemma saved_rows_total: "total_bytes (saved_rows i tool c secs) = int (length (concat (map s_Content secs)))"
proof -
  have "map rs_ByteCount (saved_rows i tool c secs) = map (\<lambda>sec. int (length (s_Content sec))) secs"
    by (rule nth_equalityI) (auto simp: saved_rows_nth)
  moreover have "(\<Sum>sec\<leftarrow>secs. int (length (s_Content sec))) = int (length (concat (map s_Content secs)))"
    by (induction secs) auto
  ultimately show ?thesis by (simp add: total_bytes_def)
qed

lemma saved_rows_sorted: "sort_by (by_key rs_SectionIdx) (saved_rows i tool c secs) = saved_rows i tool c secs"
  by (rule sort_by_idem) (auto simp: sorted_wrt_iff_nth_less saved_rows_nth by_key_def)

lemma of_id_append [simp]: "of_id i (xs @ ys) = of_id i xs @ of_id i ys"
  by (simp add: of_id_def)

lemma of_id_without: "i \<notin> D \<Longrightarrow> of_id i (without_ids D rows) = of_id i rows"
  by (auto simp: of_id_def without_ids_def intro: filter_cong)

lemma of_id_none: "i \<notin> rs_ResponseID ` set rows \<Longrightarrow> of_id i rows = []"
  by (auto simp: of_id_def filter_empty_conv)

lemma prune_keeps: "of_id keepID (pruneResponseChunksToCap cap keepID rows) = of_id keepID rows"
  using prune_evicts [of cap keepID rows] of_id_without unfolding evicts_def by auto

lemma responseExists_of_id: "responseExists i rows \<longleftrightarrow> of_id i rows \<noteq> []"
  by (auto simp: responseExists_def of_id_def list_ex_iff filter_empty_conv)

lemma ResponseSections_of_id:
  "ResponseSections None rows i k =
     (if of_id i rows = [] then Inl (UnknownResponse i)
      else Inr (sort_by (by_key rs_SectionIdx) (filter (\<lambda>r. case k of None \<Rightarrow> True | Some n \<Rightarrow> rs_SectionIdx r = n) (of_id i rows))))"
  by (simp add: ResponseSections_def responseExists_of_id) (simp add: of_id_def conj_commute)

lemma filter_index_saved:
  "k < length secs \<Longrightarrow> filter (\<lambda>r. rs_SectionIdx r = int k) (saved_rows i tool c secs) = [saved_rows i tool c secs ! k]"
proof -
  assume k: "k < length secs"
  have "filter (\<lambda>r. rs_SectionIdx r = int k) (saved_rows i tool c secs)
      = map ((!) (saved_rows i tool c secs)) (filter (\<lambda>j. j = k) [0..<length secs])"
  proof -
    have "saved_rows i tool c secs = map ((!) (saved_rows i tool c secs)) [0..<length secs]"
      by (metis map_nth saved_rows_simps(2))
    then have "filter (\<lambda>r. rs_SectionIdx r = int k) (saved_rows i tool c secs)
        = map ((!) (saved_rows i tool c secs)) (filter ((\<lambda>r. rs_SectionIdx r = int k) \<circ> (!) (saved_rows i tool c secs)) [0..<length secs])"
      by (metis filter_map)
    also have "filter ((\<lambda>r. rs_SectionIdx r = int k) \<circ> (!) (saved_rows i tool c secs)) [0..<length secs] = filter (\<lambda>j. j = k) [0..<length secs]"
      by (rule filter_cong) (auto simp: saved_rows_nth)
    finally show ?thesis .
  qed
  also have "filter (\<lambda>j. j = k) [0..<length secs] = [k]"
  proof -
    have "[0..<length secs] = [0..<k] @ k # [Suc k..<length secs]"
      using k upt_add_eq_append [of 0 k "length secs - k"] upt_conv_Cons [of k "length secs"] by simp
    then show ?thesis by (simp add: filter_empty_conv)
  qed
  finally show ?thesis by simp
qed

text \<open>
  The contract the gate has with its storage: what is saved under a fresh id is read back, whole and by index.
\<close>

locale section_cache =
  fixes save :: "string \<Rightarrow> section_t list \<Rightarrow> 'db \<Rightarrow> string \<times> 'db"
    and read_all :: "'db \<Rightarrow> string \<Rightarrow> string list option"
    and fresh :: "string \<Rightarrow> 'db \<Rightarrow> bool"
  assumes saved_read: "secs \<noteq> [] \<Longrightarrow> fresh tool db \<Longrightarrow> save tool secs db = (i, db') \<Longrightarrow> read_all db' i = Some (map s_Content secs)"
begin

text \<open>Storing any split that keeps the bytes is invertible by a full read.\<close>

lemma store_split_invertible:
  assumes "fresh tool db" and "concat (map s_Content secs) = s" and "secs \<noteq> []"
  shows "\<exists>parts. read_all (snd (save tool secs db)) (fst (save tool secs db)) = Some parts \<and> concat parts = s"
  using saved_read [OF assms(3,1), of "fst (save tool secs db)" "snd (save tool secs db)"] assms(2) by auto

end

definition save_at :: "int \<Rightarrow> string \<Rightarrow> string \<Rightarrow> section_t list \<Rightarrow> response_section list \<Rightarrow> string \<times> response_section list" where
  "save_at nano createdAt tool secs rows =
     (newResponseID tool nano,
      pruneResponseChunksToCap responseChunkCapBytes (newResponseID tool nano)
        (rows @ saved_rows (newResponseID tool nano) tool createdAt secs))"

lemma SaveResponseChunks_save_at:
  "secs \<noteq> [] \<Longrightarrow> SaveResponseChunks None nano createdAt tool secs rows =
     (Inr (fst (save_at nano createdAt tool secs rows)), snd (save_at nano createdAt tool secs rows))"
  by (simp add: SaveResponseChunks_def save_at_def saved_rows_def Let_def)

definition section_texts :: "response_section list \<Rightarrow> string \<Rightarrow> string list option" where
  "section_texts rows i = (case ResponseSections None rows i None of Inr secs \<Rightarrow> Some (map rs_Content secs) | Inl _ \<Rightarrow> None)"

lemma of_id_saved:
  assumes "newResponseID tool nano \<notin> rs_ResponseID ` set rows"
  shows "of_id (newResponseID tool nano) (snd (save_at nano createdAt tool secs rows)) = saved_rows (newResponseID tool nano) tool createdAt secs"
  using assms by (simp add: save_at_def prune_keeps of_id_none)

interpretation response_cache: section_cache "save_at nano createdAt" section_texts
    "\<lambda>tool rows. newResponseID tool nano \<notin> rs_ResponseID ` set rows"
proof
  fix secs tool rows i rows'
  assume a: "secs \<noteq> []" "newResponseID tool nano \<notin> rs_ResponseID ` set rows" "save_at nano createdAt tool secs rows = (i, rows')"
  from a(3) have "i = newResponseID tool nano" "rows' = snd (save_at nano createdAt tool secs rows)" by (auto simp: save_at_def)
  with a(1) of_id_saved [OF a(2), of createdAt secs] show "section_texts rows' i = Some (map s_Content secs)"
    by (simp add: section_texts_def ResponseSections_of_id saved_rows_sorted)
qed

section \<open>The gate\<close>

lemma RenderedSections_nonempty:
  "RenderedSections s limit = Some secs \<Longrightarrow> s \<noteq> [] \<Longrightarrow> secs \<noteq> []"
  using RenderedSections_contents [of s limit] by (auto simp: contents_def)

text \<open>
  C10: every answer of the gate. A response within the limit passes unchanged. An oversized one is stored and counted: the client gets a
  manifest, and the section read of the new id returns, in order and by index, parts whose concatenation is the response,
  whatever had to be evicted, provided the id (tool and clock) is not in use. When the store cannot be opened or the
  save fails, the client gets the error alone and nothing is stored: then the response is lost.
\<close>

theorem gate_reads_back:
  fixes env rendered createdAt :: string and U :: unidata
  assumes "newResponseID tool nano \<notin> rs_ResponseID ` set (g_rows st)"
  defines "limit \<equiv> responseLimit env" and "len \<equiv> int (length rendered)" and "i \<equiv> newResponseID tool nano"
    and "answer \<equiv> \<lambda>opened fault. gateResponse U (responseLimit env) opened fault nano createdAt tool rendered st"
  shows "if len \<le> limit then answer opened fault = Some (rendered, st)
    else case (opened, fault) of
        (Some e, _) \<Rightarrow> answer opened fault = Some (gateStoreError len limit e, st)
      | (None, Some e) \<Rightarrow> answer opened fault = Some (gateStoreError len limit e, st)
      | (None, None) \<Rightarrow>
          \<exists>secs rows. answer opened fault = Some (renderResponseManifest U i tool secs len limit, st\<lparr>g_rows := rows, g_gated := g_gated st + 1\<rparr>)
       \<and> (\<exists>parts. ResponseSections None rows i None = Inr parts
            \<and> map rs_Content parts = map s_Content secs \<and> concat (map rs_Content parts) = rendered)
       \<and> (\<forall>k<length secs. readResponseSectionByIndex None fault2 rows i (int k) =
            (''section '' @ itoa (int k) @ '': '' @ s_Title (secs ! k) @ '' '' @ em_dash @ '' '' @ itoa (int (length (s_Content (secs ! k))))
               @ '' bytes'' @ [nl, nl] @ s_Content (secs ! k), False))"
proof (cases "len \<le> limit")
  case True
  then show ?thesis by (simp add: answer_def len_def limit_def gateResponse_def)
next
  case False
  obtain secs where r: "RenderedSections rendered limit = Some secs" and c: "concat (map s_Content secs) = rendered"
    using RenderedSections_contents unfolding contents_def by blast
  have "0 < limit" by (simp add: limit_def responseLimit_def defaultResponseLimit_def split: option.splits)
  with False have "rendered \<noteq> []" by (auto simp: len_def)
  with r have ne: "secs \<noteq> []" by (rule RenderedSections_nonempty)
  note gate_defs = answer_def len_def limit_def gateResponse_def SaveResponseChunks_def
  show ?thesis
  proof (cases "opened = None \<and> fault = None")
    case lost: False
    then show ?thesis using False r ne by (auto simp: gate_defs split: option.split)
  next
    case True
    let ?rows = "snd (save_at nano createdAt tool secs (g_rows st))"
    have rows: "of_id i ?rows = saved_rows i tool createdAt secs" unfolding i_def by (rule of_id_saved [OF assms(1)])
    have gate: "answer opened fault = Some (renderResponseManifest U i tool secs len limit, st\<lparr>g_rows := ?rows, g_gated := g_gated st + 1\<rparr>)"
      using False r ne True
      by (simp add: answer_def len_def limit_def gateResponse_def SaveResponseChunks_save_at) (simp add: save_at_def i_def)
    obtain parts where "section_texts ?rows i = Some parts" "concat parts = rendered"
      using response_cache.store_split_invertible [OF assms(1) c ne, of createdAt] by (auto simp: save_at_def i_def)
    moreover have "ResponseSections None ?rows i None = Inr (saved_rows i tool createdAt secs)"
      using ne rows by (simp add: ResponseSections_of_id saved_rows_sorted)
    moreover have "readResponseSectionByIndex None fault2 ?rows i (int k) =
        (''section '' @ itoa (int k) @ '': '' @ s_Title (secs ! k) @ '' '' @ em_dash @ '' '' @ itoa (int (length (s_Content (secs ! k))))
           @ '' bytes'' @ [nl, nl] @ s_Content (secs ! k), False)" if "k < length secs" for k
      using that ne rows
      by (simp add: readResponseSectionByIndex_def ResponseSections_of_id filter_index_saved saved_rows_nth section_header_def)
    ultimately have "\<exists>secs rows. answer opened fault = Some (renderResponseManifest U i tool secs len limit, st\<lparr>g_rows := rows, g_gated := g_gated st + 1\<rparr>)
       \<and> (\<exists>parts. ResponseSections None rows i None = Inr parts
            \<and> map rs_Content parts = map s_Content secs \<and> concat (map rs_Content parts) = rendered)
       \<and> (\<forall>k<length secs. readResponseSectionByIndex None fault2 rows i (int k) =
            (''section '' @ itoa (int k) @ '': '' @ s_Title (secs ! k) @ '' '' @ em_dash @ '' '' @ itoa (int (length (s_Content (secs ! k))))
               @ '' bytes'' @ [nl, nl] @ s_Content (secs ! k), False))"
      using gate c by (intro exI [of _ secs] exI [of _ ?rows]) auto
    then show ?thesis using False True by simp
  qed
qed

lemma gate_reads_back_witness:
  "\<exists>secs rows. gateResponse ascii_tables (responseLimit ''2'') None None 5 ''t'' ''show'' ''abc'' \<lparr>g_rows = [], g_gated = 0\<rparr> =
           Some (renderResponseManifest ascii_tables (newResponseID ''show'' 5) ''show'' secs 3 (responseLimit ''2''),
                 \<lparr>g_rows = rows, g_gated = 1\<rparr>)
       \<and> (\<exists>parts. ResponseSections None rows (newResponseID ''show'' 5) None = Inr parts \<and> concat (map rs_Content parts) = ''abc'')"
proof -
  have big: "\<not> int (length ''abc'') \<le> responseLimit ''2''"
    by (simp add: responseLimit_def atoi_def has_prefix_def is_digit_def decimal_def)
  have fresh: "newResponseID ''show'' 5 \<notin> rs_ResponseID ` set (g_rows \<lparr>g_rows = [], g_gated = 0\<rparr>)" by simp
  from gate_reads_back [OF fresh, where rendered = "''abc''" and env = "''2''" and opened = None and fault = None
      and U = ascii_tables and createdAt = "''t''" and ?fault2.0 = None] big
  obtain secs rows parts where "gateResponse ascii_tables (responseLimit ''2'') None None 5 ''t'' ''show'' ''abc'' \<lparr>g_rows = [], g_gated = 0\<rparr> =
      Some (renderResponseManifest ascii_tables (newResponseID ''show'' 5) ''show'' secs (int (length ''abc'')) (responseLimit ''2''),
        \<lparr>g_rows = [], g_gated = 0\<rparr>\<lparr>g_rows := rows, g_gated := g_gated \<lparr>g_rows = [], g_gated = 0\<rparr> + 1\<rparr>)"
    and "ResponseSections None rows (newResponseID ''show'' 5) None = Inr parts" and "concat (map rs_Content parts) = ''abc''"
    by (simp only: if_False option.case prod.case) blast
  then show ?thesis by (intro exI [of _ secs] exI [of _ rows]) simp
qed

text \<open>
  saving evicts whole responses, oldest text of \<open>created_at\<close> first and no more than needed, until the cap holds;
  the saved response itself is never evicted, so alone it may exceed the cap.
\<close>

theorem SaveResponseChunks_evicts:
  assumes "secs \<noteq> []"
  shows "\<exists>D rows'. SaveResponseChunks None nano createdAt tool secs rows = (Inr (newResponseID tool nano), rows')
     \<and> rows' = filter (\<lambda>r. rs_ResponseID r \<notin> D)
         (rows @ map (section_row (newResponseID tool nano) tool createdAt) (zip [0..<length secs] secs))
     \<and> newResponseID tool nano \<notin> D
     \<and> (total_bytes rows' \<le> responseChunkCapBytes \<or> (\<forall>r\<in>set rows'. rs_ResponseID r = newResponseID tool nano))
     \<and> (\<forall>d\<in>D. \<exists>e\<in>set rows. rs_ResponseID e = d
          \<and> (\<forall>r\<in>set rows'. rs_ResponseID r \<noteq> newResponseID tool nano \<longrightarrow> rs_CreatedAt e \<le> rs_CreatedAt r))
     \<and> (D \<noteq> {} \<longrightarrow> (\<exists>d\<in>D. responseChunkCapBytes < total_bytes (filter (\<lambda>r. rs_ResponseID r \<notin> D - {d})
         (rows @ map (section_row (newResponseID tool nano) tool createdAt) (zip [0..<length secs] secs)))))"
proof -
  let ?i = "newResponseID tool nano"
  let ?new = "map (section_row ?i tool createdAt) (zip [0..<length secs] secs)"
  obtain D where D: "pruneResponseChunksToCap responseChunkCapBytes ?i (rows @ ?new) = without_ids D (rows @ ?new)"
    "evicts responseChunkCapBytes ?i (rows @ ?new) D" using prune_evicts by blast
  have i: "?i \<notin> D" using D(2) by (simp add: evicts_def)
  have new: "rs_ResponseID e = ?i" if "e \<in> set ?new" for e using that by (auto simp: section_row_def)
  have old: "\<exists>e\<in>set rows. rs_ResponseID e = d \<and> (\<forall>r\<in>set (without_ids D (rows @ ?new)). rs_ResponseID r \<noteq> ?i \<longrightarrow> rs_CreatedAt e \<le> rs_CreatedAt r)"
    if d: "d \<in> D" for d
  proof -
    obtain e where "e \<in> set (rows @ ?new)" "rs_ResponseID e = d"
      "\<forall>r\<in>set (without_ids D (rows @ ?new)). rs_ResponseID r \<noteq> ?i \<longrightarrow> rs_CreatedAt e \<le> rs_CreatedAt r"
      using D(2) d unfolding evicts_def by blast
    moreover from this new i d have "e \<in> set rows" by (metis Un_iff set_append)
    ultimately show ?thesis by blast
  qed
  show ?thesis
    using D old assms unfolding evicts_def
    by (intro exI [of _ D] exI [of _ "without_ids D (rows @ ?new)"])
       (simp add: SaveResponseChunks_def Let_def without_ids_def [of D] without_ids_def [of "D - _"])
qed

lemma SaveResponseChunks_evicts_witness:
  "\<exists>D rows'. SaveResponseChunks None 5 ''t'' ''show'' [\<lparr>s_Title = ''a'', s_Content = ''b''\<rparr>] [] = (Inr (newResponseID ''show'' 5), rows')
     \<and> newResponseID ''show'' 5 \<notin> D"
  using SaveResponseChunks_evicts [of "[\<lparr>s_Title = ''a'', s_Content = ''b''\<rparr>]" 5 "''t''" "''show''" "[]"] by blast

section \<open>Reading everything back\<close>

lemma drop_partial_length: "length (drop_partial s) \<le> length s"
proof (induction s rule: drop_partial.induct)
  case (1 s)
  obtain r n where d: "decode_last_rune s = (r, n)" by (cases "decode_last_rune s")
  show ?case
  proof (cases "s \<noteq> [] \<and> \<not> (r \<noteq> rune_error \<or> n > 1)")
    case True
    then have "length (drop_partial (butlast s)) \<le> length (butlast s)"
      using "1.IH" [of "(r, n)" r n] d by simp
    with True d show ?thesis by (subst drop_partial.simps) auto
  next
    case False
    with d show ?thesis by (subst drop_partial.simps) auto
  qed
qed

lemma truncateUTF8_length: "int (length (truncateUTF8 s limit)) \<le> max limit 0"
proof -
  have "length (drop_partial (take (nat (max limit 0)) s)) \<le> nat (max limit 0)"
    by (rule order_trans [OF drop_partial_length]) simp
  then have "int (length (drop_partial (take (nat (max limit 0)) s))) \<le> max limit 0" by linarith
  then show ?thesis by (simp add: truncateUTF8_def del: nat_le_eq_zle)
qed

lemma digits10_length_mono: "m \<le> n \<Longrightarrow> length (digits10 m) \<le> length (digits10 n)"
proof (induction n arbitrary: m rule: digits10.induct)
  case (1 n)
  show ?case
  proof (cases "m < 10")
    case True
    then have "length (digits10 m) = 1" by (subst digits10.simps) simp
    moreover have "1 \<le> length (digits10 n)" by (subst digits10.simps) simp
    ultimately show ?thesis by simp
  next
    case False
    with 1(2) have n: "\<not> n < 10" by simp
    have "length (digits10 (m div 10)) \<le> length (digits10 (n div 10))"
      using 1(1) [OF n, of "m div 10"] 1(2) by (simp add: div_le_mono)
    with False n show ?thesis by (simp add: digits10.simps [of m] digits10.simps [of n])
  qed
qed

lemma itoa_length_mono: "0 \<le> a \<Longrightarrow> a \<le> b \<Longrightarrow> length (itoa a) \<le> length (itoa b)"
  by (simp add: itoa_def digits10_length_mono)

lemma itoa_length_0 [simp]: "length (itoa 0) = 1"
  by (simp add: itoa_def digits10.simps)

lemma stopNotice_length:
  "int (length (stopNotice U k n limit i)) = int (length (stopNotice U 0 n limit i)) + int (length (itoa k)) - 1"
  by (simp add: stopNotice_def)

lemma truncated_tail_short: "length (truncated_tail U i 0) \<le> length (stopNotice U 0 n limit i)"
  by (simp add: truncated_tail_def stopNotice_def)

lemma read_all_loop_length:
  assumes "int (length b) \<le> budget + 2" and "0 < k" and "int k + int (length secs) = n"
  shows "int (length (read_all_loop U i n limit budget k b secs)) \<le> budget + int (length (stopNotice U 0 n limit i)) + 1 + int (length (itoa n))"
  using assms
proof (induction secs arbitrary: k b)
  case Nil
  have "1 \<le> length (itoa n)" using itoa_length_mono [of 0 n] Nil by (simp del: One_nat_def)
  then have "1 \<le> int (length (itoa n))" by linarith
  moreover have "int (length b) \<le> budget + int (length (stopNotice U 0 n limit i)) + 2" using Nil by simp
  ultimately have "int (length b) \<le> budget + int (length (stopNotice U 0 n limit i)) + 1 + int (length (itoa n))" by linarith
  then show ?case by simp
next
  case (Cons sec secs)
  show ?case
  proof (cases "int (length b) + int (length (section_header sec)) + int (length (rs_Content sec)) > budget")
    case True
    have "int (length (itoa (int k - 1))) \<le> int (length (itoa n))" using itoa_length_mono [of "int k - 1" n] Cons.prems by simp
    with True Cons.prems show ?thesis using stopNotice_length [of U "int k - 1" n limit i] by simp
  next
    case False
    then show ?thesis using Cons.prems Cons.IH [of "b @ section_header sec @ rs_Content sec @ [nl, nl]" "Suc k"] by simp
  qed
qed

text \<open>
  reading every section back stays within the response limit up to the separator of the last section and the
  extra digits of its number: at most one byte and the digits of the section count more than the limit.
\<close>

theorem readAllResponseSections_length:
  assumes "ResponseSections None rows i None = Inr (sec # secs)" and "rs_SectionIdx sec = 0"
    and "int (length (section_header sec)) + int (length (stopNotice U 0 (1 + int (length secs)) limit i)) \<le> limit"
  shows "int (length (fst (readAllResponseSections None U limit rows i))) \<le> limit + 1 + int (length (itoa (1 + int (length secs))))"
proof -
  let ?n = "1 + int (length secs)"
  let ?b = "limit - int (length (stopNotice U 0 ?n limit i))"
  have run: "fst (readAllResponseSections None U limit rows i) = read_all_loop U i ?n limit ?b 0 [] (sec # secs)"
    using assms(1) by (simp add: readAllResponseSections_def Let_def)
  show ?thesis
  proof (cases "int (length (section_header sec)) + int (length (rs_Content sec)) > ?b")
    case True
    have "int (length (truncateUTF8 (rs_Content sec) (?b - int (length (section_header sec))))) \<le> ?b - int (length (section_header sec))"
      using truncateUTF8_length [of "rs_Content sec" "?b - int (length (section_header sec))"] assms(3) by simp
    then show ?thesis using True truncated_tail_short [of U i ?n limit] run assms(2) by simp
  next
    case False
    then show ?thesis using read_all_loop_length [of "section_header sec @ rs_Content sec @ [nl, nl]" ?b 1 secs ?n U i limit] run by simp
  qed
qed

text \<open>
  the limit is not kept: the separator after a section is not measured, so when the sections before the stop fill
  the budget exactly, the read-back is two bytes over the limit and the gate stores it as a new response.
\<close>

theorem readAllResponseSections_gated_again:
  assumes "ResponseSections None rows i None = Inr [s0, s1]"
    and "int (length (section_header s0)) + int (length (rs_Content s0)) + int (length (stopNotice U 0 2 limit i)) = limit"
    and "0 < limit"
  shows "\<exists>text. readAllResponseSections None U limit rows i = (text, False) \<and> int (length text) = limit + 2
    \<and> (\<exists>manifest st'. gateResponse U limit None None nano createdAt tool text st = Some (manifest, st')
         \<and> g_gated st' = g_gated st + 1
         \<and> take 41 manifest = ''Oversized response stored instead of retu'')"
proof -
  let ?b = "limit - int (length (stopNotice U 0 2 limit i))"
  let ?t = "section_header s0 @ rs_Content s0 @ [nl, nl] @ stopNotice U 0 2 limit i"
  have "readAllResponseSections None U limit rows i = (?t, False)"
    using assms(1,2) by (simp add: readAllResponseSections_def Let_def section_header_def)
  moreover have len: "int (length ?t) = limit + 2" using assms(2) by simp
  moreover obtain secs where secs: "RenderedSections ?t limit = Some secs" using RenderedSections_contents by blast
  moreover have "secs \<noteq> []" by (rule RenderedSections_nonempty [OF secs]) simp
  ultimately show ?thesis using len
    by (intro exI [of _ ?t]) (simp add: gateResponse_def SaveResponseChunks_save_at renderResponseManifest_def)
qed

definition two_sections :: "response_section list" where
  "two_sections =
     [\<lparr>rs_ResponseID = ''r'', rs_Tool = ''t'', rs_Title = ''a'', rs_Content = replicate 99 CHR ''x'', rs_CreatedAt = ''c'',
       rs_SectionIdx = 0, rs_ByteCount = 99, rs_Score = 0\<rparr>,
      \<lparr>rs_ResponseID = ''r'', rs_Tool = ''t'', rs_Title = ''a'', rs_Content = replicate 50 CHR ''y'', rs_CreatedAt = ''c'',
       rs_SectionIdx = 1, rs_ByteCount = 50, rs_Score = 0\<rparr>]"

lemmas two_sections_eval = two_sections_def ResponseSections_def responseExists_def by_key_def section_header_def stopNotice_def
  em_dash_def ellipsis_def go_str_simps

theorem readAllResponseSections_length_witness:
  "int (length (fst (readAllResponseSections None ascii_tables 500 two_sections ''r''))) \<le> 500 + 1 + int (length (itoa 2))"
proof -
  have "ResponseSections None two_sections ''r'' None = Inr (two_sections ! 0 # [two_sections ! 1])"
    by (simp add: two_sections_def ResponseSections_def responseExists_def by_key_def)
  from readAllResponseSections_length [OF this, of ascii_tables 500] show ?thesis
    by (simp add: two_sections_eval)
qed

theorem readAllResponseSections_gated_again_witness:
  "\<exists>text manifest st'. readAllResponseSections None ascii_tables 297 two_sections ''r'' = (text, False) \<and> int (length text) = 299
     \<and> gateResponse ascii_tables 297 None None 5 ''c'' ''read_response_section'' text \<lparr>g_rows = two_sections, g_gated = 0\<rparr> = Some (manifest, st')
     \<and> g_gated st' = 1"
proof -
  have "ResponseSections None two_sections ''r'' None = Inr [two_sections ! 0, two_sections ! 1]"
    by (simp add: two_sections_def ResponseSections_def responseExists_def by_key_def)
  from readAllResponseSections_gated_again [OF this, of ascii_tables 297 5 "''c''" "''read_response_section''" "\<lparr>g_rows = two_sections, g_gated = 0\<rparr>"]
  show ?thesis by (auto simp add: two_sections_eval)
qed

section \<open>Ids and time stamps as text\<close>

lemma append_less_append:
  "length xs = length ys \<Longrightarrow> (xs :: 'a::linorder list) < ys \<Longrightarrow> xs @ us < ys @ vs"
proof (induction xs arbitrary: ys)
  case (Cons x xs)
  then show ?case by (cases ys) auto
qed simp

lemma append_less_append_same: "(xs :: 'a::linorder list) @ us < xs @ vs \<longleftrightarrow> us < vs"
  by (induction xs) auto

text \<open>The \<open>w\<close> low decimal digits of a number.\<close>

fun digits_of :: "nat \<Rightarrow> nat \<Rightarrow> string" where
  "digits_of 0 n = []"
| "digits_of (Suc w) n = digits_of w (n div 10) @ [char_of (48 + n mod 10)]"

lemma length_digits_of [simp]: "length (digits_of w n) = w"
  by (induction w arbitrary: n) auto

lemma digits_of_0: "digits_of w 0 = replicate w CHR ''0''"
proof (induction w)
  case (Suc w)
  have "char_of (48 :: nat) = CHR ''0''" by (simp add: char_of_def bit_iff_odd)
  with Suc show ?case by (simp add: replicate_append_same)
qed simp

lemma pad_left_digits: "n < 10 ^ w \<Longrightarrow> 0 < w \<Longrightarrow> pad_left w CHR ''0'' (digits10 n) = digits_of w n"
proof (induction w arbitrary: n)
  case (Suc w)
  show ?case
  proof (cases "n < 10")
    case True
    then have "digits_of (Suc w) n = replicate w CHR ''0'' @ [char_of (48 + n)]" by (simp add: digits_of_0)
    moreover have "digits10 n = [char_of (48 + n)]" using True by (subst digits10.simps) simp
    ultimately show ?thesis by (simp add: pad_left_def)
  next
    case False
    with Suc.prems have "0 < w" by (cases w) auto
    moreover have "n div 10 < 10 ^ w" using Suc.prems by (simp add: less_mult_imp_div_less mult.commute)
    ultimately have "pad_left w CHR ''0'' (digits10 (n div 10)) = digits_of w (n div 10)" by (rule Suc.IH [rotated])
    moreover have "digits10 n = digits10 (n div 10) @ [char_of (48 + n mod 10)]" using False by (subst digits10.simps) simp
    ultimately show ?thesis by (simp add: pad_left_def)
  qed
qed simp

lemma char_of_less: "(a :: nat) < b \<Longrightarrow> b < 256 \<Longrightarrow> char_of a < (char_of b :: char)"
  by (simp add: less_char_def)

lemma digits_of_less: "m < n \<Longrightarrow> n < 10 ^ w \<Longrightarrow> digits_of w m < digits_of w n"
proof (induction w arbitrary: m n)
  case (Suc w)
  have nd: "n div 10 < 10 ^ w" using Suc.prems by (simp add: less_mult_imp_div_less mult.commute)
  show ?case
  proof (cases "m div 10 < n div 10")
    case True
    then have "digits_of w (m div 10) < digits_of w (n div 10)" using nd by (rule Suc.IH)
    then show ?thesis by (simp add: append_less_append)
  next
    case False
    then have eq: "m div 10 = n div 10" using Suc.prems(1) by (simp add: div_le_mono le_antisym)
    then have "m mod 10 < n mod 10" using Suc.prems(1) by (metis div_mult_mod_eq nat_add_left_cancel_less)
    then have "char_of (48 + m mod 10) < (char_of (48 + n mod 10) :: char)" by (intro char_of_less) auto
    then show ?thesis using eq by (simp add: append_less_append_same)
  qed
qed simp

text \<open>
  response ids sort by the time they were made: of two ids the one of the earlier nanosecond is the smaller
  string, whatever the tools, for every clock value of \<open>int64\<close> from the epoch on.
\<close>

theorem newResponseID_ordered:
  assumes "0 \<le> nano" and "nano < nano'" and "nano' < 2 ^ 63"
  shows "newResponseID tool nano < newResponseID tool' nano'"
proof -
  have "nat nano' < 10 ^ 20" using assms by auto
  then have d: "fmt_d20 nano = digits_of 20 (nat nano)" "fmt_d20 nano' = digits_of 20 (nat nano')"
    using assms by (auto simp: fmt_d20_def pad_left_digits)
  have "digits_of 20 (nat nano) < digits_of 20 (nat nano')" using assms \<open>nat nano' < 10 ^ 20\<close> by (intro digits_of_less) auto
  then have "digits_of 20 (nat nano) @ x < digits_of 20 (nat nano') @ y" for x y by (intro append_less_append) auto
  then show ?thesis unfolding newResponseID_def d by (simp only: append_less_append_same)
qed

theorem newResponseID_ordered_witness: "newResponseID ''show'' 9 < newResponseID ''deps'' 10"
  using newResponseID_ordered [of 9 10 "''show''" "''deps''"] by simp

lemma rfc3339_inverted: "rfc3339_nano s 500000001 < rfc3339_nano s 500000000"
  by (simp add: rfc3339_nano_def append_less_append_same digits10.simps pad_left_def char_of_def bit_iff_odd less_char_def)

lemma prune_one:
  assumes "rs_ResponseID ra \<noteq> i" and "rs_ResponseID rb \<noteq> i" and "rs_ResponseID rc = i" and "rs_ResponseID ra \<noteq> rs_ResponseID rb"
    and "rs_CreatedAt rb < rs_CreatedAt ra"
    and "cap < total_bytes [ra, rb, rc]" and "total_bytes [ra, rc] \<le> cap"
  shows "pruneResponseChunksToCap cap i [ra, rb, rc] = [ra, rc]"
proof -
  have "oldest_other i [ra, rb, rc] = Some rb" using assms(1-5) by (simp add: oldest_other_def by_key_def)
  moreover have "pruneResponseChunksToCap cap i [ra, rc] = [ra, rc]" using assms(7) by (simp add: pruneResponseChunksToCap.simps)
  ultimately show ?thesis using assms by (simp add: pruneResponseChunksToCap.simps [of cap i "[ra, rb, rc]"])
qed

text \<open>
  the eviction order is not the order of saving: \<open>RFC3339Nano\<close> drops trailing zeros, so a time half a second
  into a second is a greater string than the next nanosecond, and the response saved later is evicted first.
\<close>

theorem prune_evicts_newer:
  assumes "0 \<le> nano" and "nano + 2 < 2 ^ 63"
    and "int (length (s_Content a)) + int (length (s_Content b)) \<le> responseChunkCapBytes"
    and "responseChunkCapBytes < int (length (s_Content a)) + int (length (s_Content b)) + int (length (s_Content c))"
    and "int (length (s_Content a)) + int (length (s_Content c)) \<le> responseChunkCapBytes"
  shows "snd (SaveResponseChunks None (nano + 2) (rfc3339_nano s 500000002) tool [c]
           (snd (SaveResponseChunks None (nano + 1) (rfc3339_nano s 500000001) tool [b]
             (snd (SaveResponseChunks None nano (rfc3339_nano s 500000000) tool [a] [])))))
         = [section_row (newResponseID tool nano) tool (rfc3339_nano s 500000000) (0, a),
            section_row (newResponseID tool (nano + 2)) tool (rfc3339_nano s 500000002) (0, c)]"
proof -
  define i1 i2 i3 where i: "i1 = newResponseID tool nano" "i2 = newResponseID tool (nano + 1)" "i3 = newResponseID tool (nano + 2)"
  define t1 t2 t3 where t: "t1 = rfc3339_nano s 500000000" "t2 = rfc3339_nano s 500000001" "t3 = rfc3339_nano s 500000002"
  have ids: "i1 \<noteq> i2" "i1 \<noteq> i3" "i2 \<noteq> i3"
    using newResponseID_ordered [of nano "nano + 1" tool tool] newResponseID_ordered [of nano "nano + 2" tool tool]
      newResponseID_ordered [of "nano + 1" "nano + 2" tool tool] assms(1,2) by (auto simp: i)
  let ?a = "section_row i1 tool t1 (0, a)" and ?b = "section_row i2 tool t2 (0, b)" and ?c = "section_row i3 tool t3 (0, c)"
  have row: "rs_ResponseID ?a = i1" "rs_ResponseID ?b = i2" "rs_ResponseID ?c = i3"
    "rs_ByteCount ?a = int (length (s_Content a))" "rs_ByteCount ?b = int (length (s_Content b))"
    "rs_ByteCount ?c = int (length (s_Content c))" "rs_CreatedAt ?a = t1" "rs_CreatedAt ?b = t2"
    by (simp_all add: section_row_def)
  have one: "snd (SaveResponseChunks None nano t1 tool [a] []) = [?a]"
    using assms(3) by (simp add: SaveResponseChunks_def Let_def pruneResponseChunksToCap.simps total_bytes_def section_row_def i)
  have two: "snd (SaveResponseChunks None (nano + 1) t2 tool [b] [?a]) = [?a, ?b]"
    using assms(3) by (simp add: SaveResponseChunks_def Let_def pruneResponseChunksToCap.simps total_bytes_def row flip: i)
  have "pruneResponseChunksToCap responseChunkCapBytes i3 [?a, ?b, ?c] = [?a, ?c]"
  proof (rule prune_one)
    show "rs_CreatedAt ?b < rs_CreatedAt ?a" unfolding row unfolding t by (rule rfc3339_inverted)
  qed (use ids assms in \<open>simp_all add: total_bytes_def row\<close>)
  then have "snd (SaveResponseChunks None (nano + 2) t3 tool [c] [?a, ?b]) = [?a, ?c]"
    by (simp add: SaveResponseChunks_def Let_def flip: i)
  then show ?thesis using one two by (simp add: i t)
qed

theorem prune_evicts_newer_witness:
  "snd (SaveResponseChunks None 1000000002 (rfc3339_nano ''s'' 500000002) ''show'' [\<lparr>s_Title = [], s_Content = replicate 2000000 CHR ''x''\<rparr>]
     (snd (SaveResponseChunks None 1000000001 (rfc3339_nano ''s'' 500000001) ''show'' [\<lparr>s_Title = [], s_Content = replicate 2000000 CHR ''x''\<rparr>]
       (snd (SaveResponseChunks None 1000000000 (rfc3339_nano ''s'' 500000000) ''show'' [\<lparr>s_Title = [], s_Content = replicate 2000000 CHR ''x''\<rparr>] [])))))
   = [section_row (newResponseID ''show'' 1000000000) ''show'' (rfc3339_nano ''s'' 500000000) (0, \<lparr>s_Title = [], s_Content = replicate 2000000 CHR ''x''\<rparr>),
      section_row (newResponseID ''show'' 1000000002) ''show'' (rfc3339_nano ''s'' 500000002) (0, \<lparr>s_Title = [], s_Content = replicate 2000000 CHR ''x''\<rparr>)]"
  using prune_evicts_newer [of 1000000000 "\<lparr>s_Title = [], s_Content = replicate 2000000 CHR ''x''\<rparr>"
      "\<lparr>s_Title = [], s_Content = replicate 2000000 CHR ''x''\<rparr>" "\<lparr>s_Title = [], s_Content = replicate 2000000 CHR ''x''\<rparr>" "''s''" "''show''"]
  by (simp add: responseChunkCapBytes_def)

end
