(* ===== verification/Vcs.thy ===== *)
theory Vcs
  imports GoFmt Prelude
begin

text \<open>
  The git readers of \<^verbatim>\<open>vcs/vcs.go\<close>: what the indexer and the change queries learn from git, as parsers of its output.
  Git itself, the executable search and the working directory are the record \<open>git_env\<close>; file names are compared as
  bytes, with \<^verbatim>\<open>/\<close> as the separator.
\<close>

section \<open>Running git\<close>

record git_out =
  go_stdout :: string
  go_stderr :: string
  go_err :: "string option"

record git_env =
  ge_lookPath :: "string option"
  ge_run :: "string \<Rightarrow> string list \<Rightarrow> git_out"
  ge_cwd :: "string result"

text \<open>The sentinels are told apart from plain failures by \<^verbatim>\<open>errors.Is\<close>.\<close>

datatype vcs_error = ErrNoCommits | ErrFileNotInRef string string | GitError string

definition headRef :: string where "headRef = ''HEAD''"

definition IsGitRepo :: "git_env \<Rightarrow> string \<Rightarrow> unit result" where
  "IsGitRepo env repoDir =
     (let out = ge_run env repoDir [''rev-parse'', ''--git-dir''] in
        case go_err out of
          None \<Rightarrow> Inr ()
        | Some _ \<Rightarrow>
            (let msg = trim_space (go_stderr out) in
               Inl (repoDir @ '': '' @ (if msg = [] then ''not a git repository'' else msg))))"

definition ensureGitAvailable :: "git_env \<Rightarrow> unit result" where
  "ensureGitAvailable env =
     (case ge_lookPath env of Some e \<Rightarrow> Inl (''git executable not found in PATH: '' @ e) | None \<Rightarrow> Inr ())"

definition runGit :: "git_env \<Rightarrow> string \<Rightarrow> string list \<Rightarrow> string result" where
  "runGit env repoDir args =
     (case ensureGitAvailable env of
        Inl e \<Rightarrow> Inl e
      | Inr _ \<Rightarrow>
          (let out = ge_run env repoDir args in
             case go_err out of
               Some e \<Rightarrow> Inl (''git '' @ str_join '' '' args @ '': '' @ trim_space (go_stderr out) @ '': '' @ e)
             | None \<Rightarrow> Inr (go_stdout out)))"

definition DefaultBranch :: "git_env \<Rightarrow> string \<Rightarrow> string" where
  "DefaultBranch env repoDir =
     (case IsGitRepo env repoDir of
        Inl _ \<Rightarrow> headRef
      | Inr _ \<Rightarrow>
          (let remote = (case runGit env repoDir [''symbolic-ref'', ''--short'', ''refs/remotes/origin/HEAD''] of
               Inl _ \<Rightarrow> []
             | Inr out \<Rightarrow>
                 (let branch = trim_space out in
                    case str_index branch ''/'' of Some i \<Rightarrow> drop (i + 1) branch | None \<Rightarrow> branch))
           in if remote \<noteq> [] then remote
              else case runGit env repoDir [''rev-parse'', ''--abbrev-ref'', headRef] of
                Inl _ \<Rightarrow> headRef
              | Inr out \<Rightarrow>
                  (let branch = trim_space out in if branch \<noteq> [] \<and> branch \<noteq> headRef then branch else headRef)))"

definition GitHead :: "git_env \<Rightarrow> string \<Rightarrow> string result" where
  "GitHead env repoDir = map_sum id trim_space (runGit env repoDir [''rev-parse'', headRef])"

section \<open>Records\<close>

definition splitNUL :: "string \<Rightarrow> string list" where
  "splitNUL out = filter (\<lambda>rec. rec \<noteq> []) (split_char (CHR 0x00) out)"

definition runGitNUL :: "git_env \<Rightarrow> string \<Rightarrow> string list \<Rightarrow> string list result" where
  "runGitNUL env repoDir args = map_sum id splitNUL (runGit env repoDir args)"

definition filterGoPaths :: "string list \<Rightarrow> string list" where
  "filterGoPaths records = filter (\<lambda>rec. has_suffix rec ''.go'') records"

text \<open>The readers ask whether the directory is a repository before they run their command.\<close>

definition go_paths_of :: "git_env \<Rightarrow> string \<Rightarrow> string list \<Rightarrow> string list result" where
  "go_paths_of env repoDir args =
     (case IsGitRepo env repoDir of Inl e \<Rightarrow> Inl e | Inr _ \<Rightarrow> map_sum id filterGoPaths (runGitNUL env repoDir args))"

definition GitChangedFiles :: "git_env \<Rightarrow> string \<Rightarrow> string \<Rightarrow> string list result" where
  "GitChangedFiles env repoDir ref = go_paths_of env repoDir [''diff'', ref, ''--name-only'', ''-z'', ''--'', ''*.go'']"

definition GitDeletedFiles :: "git_env \<Rightarrow> string \<Rightarrow> string \<Rightarrow> string list result" where
  "GitDeletedFiles env repoDir ref =
     go_paths_of env repoDir [''diff'', ref, ''--name-only'', ''--diff-filter=D'', ''-z'', ''--'', ''*.go'']"

definition GitUntrackedFiles :: "git_env \<Rightarrow> string \<Rightarrow> string list result" where
  "GitUntrackedFiles env repoDir = go_paths_of env repoDir [''ls-files'', ''--others'', ''--exclude-standard'', ''-z'']"

record file_status =
  fs_Path :: string
  fs_Status :: string
  fs_OldPath :: string

definition isRenameStatus :: "string \<Rightarrow> bool" where
  "isRenameStatus status \<longleftrightarrow> has_prefix status ''R'' \<or> has_prefix status ''C''"

fun status_loop :: "string list \<Rightarrow> file_status list" where
  "status_loop (status # path # records) =
     (if isRenameStatus status then
        (case records of
           [] \<Rightarrow> []
         | newPath # rest \<Rightarrow>
             (if has_suffix newPath ''.go''
              then \<lparr>fs_Path = newPath, fs_Status = status, fs_OldPath = path\<rparr> # status_loop rest else status_loop rest))
      else if has_suffix path ''.go''
        then \<lparr>fs_Path = path, fs_Status = status, fs_OldPath = []\<rparr> # status_loop records else status_loop records)"
| "status_loop _ = []"

definition GitFileStatuses :: "git_env \<Rightarrow> string \<Rightarrow> string \<Rightarrow> file_status list result" where
  "GitFileStatuses env repoDir ref =
     (case IsGitRepo env repoDir of
        Inl e \<Rightarrow> Inl e
      | Inr _ \<Rightarrow> map_sum id status_loop (runGitNUL env repoDir [''diff'', ref, ''--name-status'', ''-z'', ''--'', ''*.go'']))"

section \<open>Hunks\<close>

record hunk =
  hk_Added :: "int list"
  hk_Removed :: "int list"
  hk_OldStart :: int
  hk_OldCount :: int
  hk_NewStart :: int
  hk_NewCount :: int

text \<open>
  \<open>None\<close> is a slice panic: \<^verbatim>\<open>spec[1:comma]\<close> with the comma first. The caller passes a field, which is never empty.
\<close>

definition parseRange :: "string \<Rightarrow> (int \<times> int) option option" where
  "parseRange spec =
     (case str_index spec '','' of
        None \<Rightarrow>
          (if spec = [] then None
           else Some (map_option (\<lambda>n. (n, 1)) (atoi (tl spec))))
      | Some comma \<Rightarrow>
          (if comma = 0 then None
           else Some (case atoi (drop 1 (take comma spec)) of
                   None \<Rightarrow> None
                 | Some start \<Rightarrow> map_option (Pair start) (atoi (drop (comma + 1) spec)))))"

definition parseHunkHeader :: "string \<Rightarrow> hunk option option" where
  "parseHunkHeader line0 =
     (let line = trim_prefix line0 ''@@''; (body, _, ok) = str_cut line ''@@''; parts = str_fields (trim_space body)
      in if \<not> ok then Some None
         else case parts of
           old # new # _ \<Rightarrow>
             (case parseRange old of
                None \<Rightarrow> None
              | Some r1 \<Rightarrow>
                  (case parseRange new of
                     None \<Rightarrow> None
                   | Some r2 \<Rightarrow>
                       Some (case (r1, r2) of
                           (Some (oldStart, oldCount), Some (newStart, newCount)) \<Rightarrow>
                             Some \<lparr>hk_Added = [], hk_Removed = [], hk_OldStart = oldStart, hk_OldCount = oldCount,
                                   hk_NewStart = newStart, hk_NewCount = newCount\<rparr>
                         | _ \<Rightarrow> None)))
         | _ \<Rightarrow> Some None)"

text \<open>The line numbers are \<^verbatim>\<open>int\<close> sums far from the bounds of the type.\<close>

definition computeAddedRange :: "int \<Rightarrow> int \<Rightarrow> int list" where
  "computeAddedRange start n = (if n \<le> 0 then [] else map (\<lambda>i. start + int i) [0..<nat n])"

definition computeRemovedRange :: "int \<Rightarrow> int \<Rightarrow> int list" where
  "computeRemovedRange start n = (if n \<le> 0 then [] else map (\<lambda>i. start + int i) [0..<nat n])"

definition hunk_of_line :: "string \<Rightarrow> hunk list option" where
  "hunk_of_line line =
     (if \<not> has_prefix line ''@@'' then Some []
      else map_option (\<lambda>h. case h of
              None \<Rightarrow> []
            | Some h \<Rightarrow> [h\<lparr>hk_Removed := computeRemovedRange (hk_OldStart h) (hk_OldCount h),
                          hk_Added := computeAddedRange (hk_NewStart h) (hk_NewCount h)\<rparr>]) (parseHunkHeader line))"

definition parseHunks :: "string \<Rightarrow> hunk list option" where
  "parseHunks out = collect hunk_of_line (split_char nl out)"

definition GitHunks :: "git_env \<Rightarrow> string \<Rightarrow> string \<Rightarrow> string \<Rightarrow> hunk list result option" where
  "GitHunks env repoDir ref file =
     (case IsGitRepo env repoDir of
        Inl e \<Rightarrow> Some (Inl e)
      | Inr _ \<Rightarrow>
          (case runGit env repoDir [''diff'', ref, ''--'', file] of
             Inl e \<Rightarrow> Some (Inl e) | Inr out \<Rightarrow> map_option Inr (parseHunks out)))"

section \<open>Files at a ref, churn\<close>

definition ResolveRepoDir :: "git_env \<Rightarrow> string \<Rightarrow> string result" where
  "ResolveRepoDir env repoDir =
     map_sum (\<lambda>e. ''resolve repo dir: '' @ e) id (path_abs (ge_cwd env) (if repoDir = [] then ''.'' else repoDir))"

definition GitShowFile :: "git_env \<Rightarrow> string \<Rightarrow> string \<Rightarrow> string \<Rightarrow> vcs_error + string" where
  "GitShowFile env repoDir ref file =
     (case IsGitRepo env repoDir of
        Inl e \<Rightarrow> Inl (GitError e)
      | Inr _ \<Rightarrow>
          (case runGit env repoDir [''show'', ref @ '':'' @ file] of
             Inl e \<Rightarrow>
               Inl (if contains e ''does not exist'' \<or> contains e ''exists on disk, but not in'' \<or> contains e ''unknown revision''
                    then ErrFileNotInRef file ref else GitError e)
           | Inr out \<Rightarrow> Inr out))"

definition isNoCommitsErr :: "string \<Rightarrow> bool" where
  "isNoCommitsErr msg \<longleftrightarrow>
     contains msg ''does not have any commits yet'' \<or> contains msg ''does not have any commits''
     \<or> contains msg (''bad revision '' @ [CHR 0x27] @ ''HEAD'' @ [CHR 0x27]) \<or> contains msg ''unknown revision''
     \<or> contains msg ''unknown revision or path not in the working tree''"

definition churn_step :: "string \<Rightarrow> string \<Rightarrow> (string, int) gomap \<Rightarrow> (string, int) gomap" where
  "churn_step absDir name churn =
     (if \<not> has_suffix name ''.go'' then churn
      else let key = path_join absDir name in gm_put key (gm_get 0 churn key + 1) churn)"

definition GitFileChurn :: "git_env \<Rightarrow> string \<Rightarrow> string \<Rightarrow> vcs_error + (string, int) gomap" where
  "GitFileChurn env repoDir ref =
     (case IsGitRepo env repoDir of
        Inl e \<Rightarrow> Inl (GitError e)
      | Inr _ \<Rightarrow>
          (case path_abs (ge_cwd env) repoDir of
             Inl e \<Rightarrow> Inl (GitError e)
           | Inr absDir \<Rightarrow>
               (case runGitNUL env repoDir ([''log'', ''--format=format:'', ''--name-only'', ''--relative'', ''-z'']
                    @ (if ref \<noteq> [] then [ref] else []) @ [''--'', ''*.go'']) of
                  Inl e \<Rightarrow> Inl (if isNoCommitsErr e then ErrNoCommits else GitError e)
                | Inr records \<Rightarrow> Inr (fold (churn_step absDir) records []))))"

end
