(* ===== verification/Vcs_Proofs.thy ===== *)
theory Vcs_Proofs
  imports Vcs
begin

text \<open>
  The parsers of theory \<open>Vcs\<close> invert git's output formats: the records of a name-status listing, and hunk headers
  among the lines of a diff. \<open>status_record\<close> and \<open>hunk_line\<close> write the formats as git documents them.
\<close>

section \<open>Records\<close>

lemma split_char_append: "c \<notin> set p \<Longrightarrow> split_char c (p @ c # s) = p # split_char c s"
  by (induction p) auto

lemma split_char_single: "c \<notin> set p \<Longrightarrow> split_char c p = [p]"
  by (induction p) auto

text \<open>With \<^verbatim>\<open>-z\<close> every field is followed by a NUL.\<close>

definition nul_terminated :: "string list \<Rightarrow> string" where
  "nul_terminated recs = concat (map (\<lambda>r. r @ [CHR 0x00]) recs)"

lemma splitNUL_terminated:
  "(\<And>r. r \<in> set recs \<Longrightarrow> r \<noteq> [] \<and> CHR 0x00 \<notin> set r) \<Longrightarrow> splitNUL (nul_terminated recs) = recs"
proof (induction recs)
  case Nil
  then show ?case by (simp add: splitNUL_def nul_terminated_def)
next
  case (Cons r recs)
  have r: "r \<noteq> []" "CHR 0x00 \<notin> set r" using Cons.prems by auto
  have "nul_terminated (r # recs) = r @ CHR 0x00 # nul_terminated recs" by (simp add: nul_terminated_def)
  then have "splitNUL (nul_terminated (r # recs)) = r # splitNUL (nul_terminated recs)"
    using r by (simp add: splitNUL_def split_char_append)
  then show ?case using Cons by simp
qed

text \<open>A change is its status, the path it had before where it has two, and its path.\<close>

definition status_record :: "file_status \<Rightarrow> string list" where
  "status_record f = fs_Status f # (if isRenameStatus (fs_Status f) then [fs_OldPath f] else []) @ [fs_Path f]"

definition status_ok :: "file_status \<Rightarrow> bool" where
  "status_ok f \<longleftrightarrow> (\<forall>r\<in>set (status_record f). r \<noteq> [] \<and> CHR 0x00 \<notin> set r)
     \<and> (\<not> isRenameStatus (fs_Status f) \<longrightarrow> fs_OldPath f = [])"

lemma status_loop_records:
  "(\<And>f. f \<in> set fs \<Longrightarrow> status_ok f) \<Longrightarrow>
   status_loop (concat (map status_record fs)) = filter (\<lambda>f. has_suffix (fs_Path f) ''.go'') fs"
proof (induction fs)
  case (Cons f fs)
  have "status_ok f" using Cons.prems by simp
  then have old: "\<not> isRenameStatus (fs_Status f) \<Longrightarrow> fs_OldPath f = []" by (simp add: status_ok_def)
  have eq: "\<lparr>fs_Path = fs_Path f, fs_Status = fs_Status f, fs_OldPath = fs_OldPath f\<rparr> = f" by simp
  have IH: "status_loop (concat (map status_record fs)) = filter (\<lambda>f. has_suffix (fs_Path f) ''.go'') fs"
    using Cons by simp
  show ?case
  proof (cases "isRenameStatus (fs_Status f)")
    case True
    then show ?thesis using IH eq by (simp add: status_record_def [of f])
  next
    case False
    then have "\<lparr>fs_Path = fs_Path f, fs_Status = fs_Status f, fs_OldPath = []\<rparr> = f" using old eq by simp
    with False IH show ?thesis by (simp add: status_record_def [of f])
  qed
qed simp

text \<open>
  C37: the name-status reader inverts git's \<^verbatim>\<open>-z\<close> format: it returns exactly the changes of Go files, in order,
  with both paths of a rename or copy, whatever bytes but NUL the names hold.
\<close>

theorem GitFileStatuses_reads:
  assumes "go_err (ge_run env dir [''rev-parse'', ''--git-dir'']) = None" and "ge_lookPath env = None"
    and "go_err (ge_run env dir [''diff'', ref, ''--name-status'', ''-z'', ''--'', ''*.go'']) = None"
    and "go_stdout (ge_run env dir [''diff'', ref, ''--name-status'', ''-z'', ''--'', ''*.go'']) =
           concat (map (\<lambda>f. concat (map (\<lambda>r. r @ [CHR 0x00]) (status_record f))) fs)"
    and "\<forall>f\<in>set fs. status_ok f"
  shows "GitFileStatuses env dir ref = Inr (filter (\<lambda>f. has_suffix (fs_Path f) ''.go'') fs)"
proof -
  have "concat (map (\<lambda>f. concat (map (\<lambda>r. r @ [CHR 0x00]) (status_record f))) fs) = nul_terminated (concat (map status_record fs))"
    by (induction fs) (auto simp: nul_terminated_def)
  moreover have "splitNUL (nul_terminated (concat (map status_record fs))) = concat (map status_record fs)"
    by (rule splitNUL_terminated) (use assms(5) in \<open>auto simp: status_ok_def\<close>)
  ultimately show ?thesis
    using assms status_loop_records [of fs]
    by (simp add: GitFileStatuses_def IsGitRepo_def Let_def runGitNUL_def runGit_def ensureGitAvailable_def)
qed

section \<open>ASCII words\<close>

definition ascii_word :: "string \<Rightarrow> bool" where
  "ascii_word w \<longleftrightarrow> w \<noteq> [] \<and> (\<forall>c\<in>set w. byte c < 128 \<and> \<not> is_space (byte c))"

lemma decode_rune_ascii: "byte c < 128 \<Longrightarrow> decode_rune (c # s) = (byte c, 1)"
  by (simp add: decode_rune_def)

lemma fields_acc_word:
  "(\<forall>c\<in>set w. byte c < 128 \<and> \<not> is_space (byte c)) \<Longrightarrow> fields_acc cur (w @ s) = fields_acc (cur @ w) s"
proof (induction w arbitrary: cur)
  case (Cons c w)
  then have "fields_acc cur (c # w @ s) = fields_acc (cur @ [c]) (w @ s)"
    by (subst fields_acc.simps) (simp add: decode_rune_ascii)
  with Cons show ?case by simp
qed simp

lemma fields_acc_space: "fields_acc cur (CHR '' '' # s) = (if cur = [] then [] else [cur]) @ fields_acc [] s"
  by (subst fields_acc.simps) (simp add: decode_rune_ascii is_space_def)

lemma fields_acc_end: "fields_acc cur [] = (if cur = [] then [] else [cur])"
  by (subst fields_acc.simps) simp

lemma str_fields_two: "ascii_word v \<Longrightarrow> ascii_word w \<Longrightarrow> str_fields (v @ '' '' @ w) = [v, w]"
  unfolding str_fields_def ascii_word_def
  using fields_acc_word [of w "[]" "[]"] by (simp add: fields_acc_word fields_acc_space fields_acc_end)

lemma trim_left_space_word: "ascii_word w \<Longrightarrow> trim_left_space ('' '' @ w @ s) = w @ s"
proof -
  assume w: "ascii_word w"
  then obtain c v where c: "w = c # v" "byte c < 128" "\<not> is_space (byte c)" by (cases w) (auto simp: ascii_word_def)
  have "trim_left_space (c # v @ s) = c # v @ s" using c by (subst trim_left_space.simps) (simp add: decode_rune_ascii)
  then show ?thesis using c by (subst trim_left_space.simps) (simp add: decode_rune_ascii is_space_def)
qed

lemma trim_right_space_word: "ascii_word w \<Longrightarrow> trim_right_space (s @ w @ '' '') = s @ w"
proof -
  assume w: "ascii_word w"
  then obtain v c where c: "w = v @ [c]" "byte c < 128" "\<not> is_space (byte c)" by (cases w rule: rev_cases) (auto simp: ascii_word_def)
  have "trim_right_space ((s @ v) @ [c]) = (s @ v) @ [c]"
    using c by (subst trim_right_space.simps) (simp add: decode_last_rune_def)
  then show ?thesis using c by (subst trim_right_space.simps) (simp add: decode_last_rune_def is_space_def)
qed

lemma atoi_digits10: "n < 2 ^ 63 \<Longrightarrow> atoi (digits10 n) = Some (int n)"
proof -
  assume n: "n < 2 ^ 63"
  have d: "list_all is_digit (digits10 n)" using digits10_ascii by (auto simp: list_all_iff is_digit_def)
  have ne: "digits10 n \<noteq> []" by (subst digits10.simps) simp
  have dec: "decimal ds = undigits ds" for ds by (simp add: decimal_def undigits_def mult.commute)
  have no_sign: "\<not> has_prefix (digits10 n) ''-''" "\<not> has_prefix (digits10 n) ''+''"
    using digits10_ascii [of "CHR ''-''" n] digits10_ascii [of "CHR ''+''" n] by (auto simp: has_prefix_iff)
  have "int n < 2 ^ 63" using n by (metis of_nat_less_iff of_nat_numeral of_nat_power)
  with d ne no_sign show ?thesis by (simp add: atoi_def Let_def dec undigits_digits10)
qed

section \<open>Hunk headers\<close>

text \<open>A range is written without its count when that is one.\<close>

definition range_text :: "nat \<Rightarrow> nat \<Rightarrow> string" where
  "range_text start n = digits10 start @ (if n = 1 then [] else '','' @ digits10 n)"

lemma str_index_char:
  "c \<notin> set p \<Longrightarrow> str_index (p @ c # s) [c] = Some (length p)"
proof (induction p)
  case Nil
  then show ?case by (subst str_index.simps) (simp add: has_prefix_def)
next
  case (Cons x p)
  then show ?case by (subst str_index.simps) (auto simp: has_prefix_def)
qed

lemma digits10_no_char: "\<not> (48 \<le> byte c \<and> byte c \<le> 57) \<Longrightarrow> c \<notin> set (digits10 n)"
  using digits10_ascii by blast

lemma parseRange_text:
  assumes "start < 2 ^ 63" and "n < 2 ^ 63" and "sg \<noteq> CHR '',''"
  shows "parseRange (sg # range_text start n) = Some (Some (int start, int n))"
proof (cases "n = 1")
  case True
  have "CHR '','' \<notin> set (sg # digits10 start)" using digits10_no_char [of "CHR '',''" start] assms(3) by auto
  then have "str_index (sg # digits10 start) '','' = None"
    by (metis contains_def contains_iff in_set_conv_decomp append_Cons append_Nil)
  then show ?thesis using True assms by (simp add: parseRange_def range_text_def atoi_digits10)
next
  case False
  have "CHR '','' \<notin> set (sg # digits10 start)" using digits10_no_char [of "CHR '',''" start] assms(3) by auto
  then have "str_index ((sg # digits10 start) @ CHR '','' # digits10 n) '','' = Some (length (sg # digits10 start))"
    by (rule str_index_char)
  then show ?thesis using False assms by (simp add: parseRange_def range_text_def atoi_digits10)
qed

lemma range_text_ascii: "byte sg < 128 \<Longrightarrow> \<not> is_space (byte sg) \<Longrightarrow> ascii_word (sg # range_text start n)"
proof -
  have "byte c < 128 \<and> \<not> is_space (byte c)" if "c \<in> set (range_text start n)" for c
  proof -
    have "c = CHR '','' \<or> 48 \<le> byte c \<and> byte c \<le> 57"
      using that digits10_ascii [of c] by (auto simp: range_text_def split: if_splits)
    then show ?thesis by (auto simp: is_space_def)
  qed
  moreover assume "byte sg < 128" "\<not> is_space (byte sg)"
  ultimately show ?thesis by (simp add: ascii_word_def)
qed

lemma str_index_fresh:
  "c \<notin> set p \<Longrightarrow> str_index (p @ (c # sub) @ s) (c # sub) = Some (length p)"
proof (induction p)
  case Nil
  then show ?case by (subst str_index.simps) (simp add: has_prefix_def)
next
  case (Cons x p)
  then show ?case by (subst str_index.simps) (auto simp: has_prefix_def)
qed

text \<open>A hunk in a diff: \<^verbatim>\<open>@@ -old +new @@\<close> and the enclosing function, if any.\<close>

definition hunk_line :: "nat \<Rightarrow> nat \<Rightarrow> nat \<Rightarrow> nat \<Rightarrow> string \<Rightarrow> string" where
  "hunk_line a b c d ctx = ''@@ -'' @ range_text a b @ '' +'' @ range_text c d @ '' @@'' @ ctx"

definition hunk_value :: "nat \<Rightarrow> nat \<Rightarrow> nat \<Rightarrow> nat \<Rightarrow> hunk" where
  "hunk_value a b c d = \<lparr>hk_Added = map int [c..<c + d], hk_Removed = map int [a..<a + b],
     hk_OldStart = int a, hk_OldCount = int b, hk_NewStart = int c, hk_NewCount = int d\<rparr>"

lemma range_text_no_at: "CHR ''@'' \<notin> set (range_text a b)"
  using digits10_no_char [of "CHR ''@''"] by (auto simp: range_text_def)

lemma parseHunkHeader_line:
  assumes "a < 2 ^ 63" "b < 2 ^ 63" "c < 2 ^ 63" "d < 2 ^ 63"
  shows "parseHunkHeader (hunk_line a b c d ctx) =
    Some (Some \<lparr>hk_Added = [], hk_Removed = [], hk_OldStart = int a, hk_OldCount = int b, hk_NewStart = int c, hk_NewCount = int d\<rparr>)"
proof -
  let ?o = "CHR ''-'' # range_text a b" and ?n = "CHR ''+'' # range_text c d"
  let ?body = "'' '' @ ?o @ '' '' @ ?n @ '' ''"
  have words: "ascii_word ?o" "ascii_word ?n" by (auto intro!: range_text_ascii simp: is_space_def)
  have "CHR ''@'' \<notin> set ?body" using range_text_no_at by auto
  then have "str_index (?body @ ''@@'' @ ctx) ''@@'' = Some (length ?body)" by (rule str_index_fresh)
  then have cut: "str_cut (?body @ ''@@'' @ ctx) ''@@'' = (?body, ctx, True)"
    unfolding str_cut_def by (simp only: option.case append_eq_conv_conj take_append drop_append) simp
  have "trim_left_space ?body = ?o @ '' '' @ ?n @ '' ''" by (rule trim_left_space_word [OF words(1)])
  moreover have "trim_right_space ((?o @ '' '') @ ?n @ '' '') = (?o @ '' '') @ ?n" by (rule trim_right_space_word [OF words(2)])
  ultimately have "trim_space ?body = ?o @ '' '' @ ?n" by (simp add: trim_space_def)
  then have fields: "str_fields (trim_space ?body) = [?o, ?n]" using str_fields_two [OF words] by simp
  have line: "trim_prefix (hunk_line a b c d ctx) ''@@'' = ?body @ ''@@'' @ ctx"
    by (simp add: hunk_line_def trim_prefix_def has_prefix_def)
  have ranges: "parseRange ?o = Some (Some (int a, int b))" "parseRange ?n = Some (Some (int c, int d))"
    using assms by (auto intro!: parseRange_text)
  show ?thesis unfolding parseHunkHeader_def line cut Let_def prod.case fields by (simp add: ranges)
qed

lemma compute_ranges: "computeAddedRange (int a) (int b) = map int [a..<a + b]" "computeRemovedRange (int a) (int b) = map int [a..<a + b]"
proof -
  have "map (\<lambda>i. int a + int i) [0..<b] = map int [a..<a + b]" by (rule nth_equalityI) auto
  then show "computeAddedRange (int a) (int b) = map int [a..<a + b]" "computeRemovedRange (int a) (int b) = map int [a..<a + b]"
    by (auto simp: computeAddedRange_def computeRemovedRange_def)
qed

lemma hunk_of_line_hunk:
  assumes "a < 2 ^ 63" "b < 2 ^ 63" "c < 2 ^ 63" "d < 2 ^ 63"
  shows "hunk_of_line (hunk_line a b c d ctx) = Some [hunk_value a b c d]"
proof -
  have "has_prefix (hunk_line a b c d ctx) ''@@''" by (simp add: hunk_line_def has_prefix_def)
  then show ?thesis using parseHunkHeader_line [OF assms] by (simp add: hunk_of_line_def compute_ranges hunk_value_def)
qed

text \<open>A diff is hunks, each with its lines, after some header lines; only hunk lines start with \<^verbatim>\<open>@@\<close>.\<close>

datatype diff_line = Hunk nat nat nat nat string | Plain string

fun diff_text :: "diff_line \<Rightarrow> string" where
  "diff_text (Hunk a b c d ctx) = hunk_line a b c d ctx"
| "diff_text (Plain s) = s"

fun diff_line_ok :: "diff_line \<Rightarrow> bool" where
  "diff_line_ok (Hunk a b c d ctx) \<longleftrightarrow> a < 2 ^ 63 \<and> b < 2 ^ 63 \<and> c < 2 ^ 63 \<and> d < 2 ^ 63 \<and> nl \<notin> set ctx"
| "diff_line_ok (Plain s) \<longleftrightarrow> \<not> has_prefix s ''@@'' \<and> nl \<notin> set s"

fun diff_hunks :: "diff_line \<Rightarrow> hunk list" where
  "diff_hunks (Hunk a b c d ctx) = [hunk_value a b c d]"
| "diff_hunks (Plain s) = []"

lemma diff_line_no_nl: "diff_line_ok l \<Longrightarrow> nl \<notin> set (diff_text l)"
  using digits10_no_char [of nl] by (cases l) (auto simp: hunk_line_def range_text_def)

lemma split_char_lines:
  "ls \<noteq> [] \<Longrightarrow> (\<And>l. l \<in> set ls \<Longrightarrow> c \<notin> set l) \<Longrightarrow> split_char c (str_join [c] ls) = ls"
proof (induction "[c]" ls rule: str_join.induct)
  case (3 x y xs)
  then show ?case using split_char_append [of c x "str_join [c] (y # xs)"] by simp
qed (auto simp: split_char_single)

text \<open>
  the hunk reader inverts the unified format: of a diff it returns its hunks in order, with the old and new
  ranges, counts of one written or left out, and the line numbers each side covers.
\<close>

theorem parseHunks_reads:
  assumes "ls \<noteq> []" and "\<forall>l\<in>set ls. diff_line_ok l"
  shows "parseHunks (str_join [nl] (map diff_text ls)) = Some (concat (map diff_hunks ls))"
proof -
  have "split_char nl (str_join [nl] (map diff_text ls)) = map diff_text ls"
    using assms by (intro split_char_lines) (auto dest: diff_line_no_nl)
  moreover have "collect hunk_of_line (map diff_text ls) = Some (concat (map diff_hunks ls))"
    using assms(2)
  proof (induction ls)
    case (Cons l ls)
    have "hunk_of_line (diff_text l) = Some (diff_hunks l)"
      using Cons.prems by (cases l) (simp_all add: hunk_of_line_hunk, simp add: hunk_of_line_def)
    then show ?case using Cons by simp
  qed simp
  ultimately show ?thesis by (simp add: parseHunks_def)
qed

theorem parseHunks_reads_witness:
  "parseHunks (str_join [nl] (map diff_text [Plain ''--- a/x.go'', Hunk 3 1 3 2 '' func f() {'', Plain ''-a'', Plain ''+b'', Plain ''+c'']))
     = Some [\<lparr>hk_Added = [3, 4], hk_Removed = [3], hk_OldStart = 3, hk_OldCount = 1, hk_NewStart = 3, hk_NewCount = 2\<rparr>]"
  using parseHunks_reads [of "[Plain ''--- a/x.go'', Hunk 3 1 3 2 '' func f() {'', Plain ''-a'', Plain ''+b'', Plain ''+c'']"]
  by (simp add: has_prefix_def hunk_value_def upt_rec)

theorem GitFileStatuses_reads_witness:
  "GitFileStatuses \<lparr>ge_lookPath = None, ge_run = (\<lambda>_ args. \<lparr>go_stdout = (if args = [''rev-parse'', ''--git-dir''] then [] else
       ''R100'' @ [CHR 0x00] @ ''a b.go'' @ [CHR 0x00] @ ''c.go'' @ [CHR 0x00] @ ''M'' @ [CHR 0x00] @ ''x.txt'' @ [CHR 0x00]),
     go_stderr = [], go_err = None\<rparr>), ge_cwd = Inr ''/''\<rparr> ''.'' ''HEAD'' = Inr [\<lparr>fs_Path = ''c.go'', fs_Status = ''R100'', fs_OldPath = ''a b.go''\<rparr>]"
  using GitFileStatuses_reads [of "\<lparr>ge_lookPath = None, ge_run = (\<lambda>_ args. \<lparr>go_stdout = (if args = [''rev-parse'', ''--git-dir''] then [] else
       ''R100'' @ [CHR 0x00] @ ''a b.go'' @ [CHR 0x00] @ ''c.go'' @ [CHR 0x00] @ ''M'' @ [CHR 0x00] @ ''x.txt'' @ [CHR 0x00]),
     go_stderr = [], go_err = None\<rparr>), ge_cwd = Inr ''/''\<rparr>" "''.''" "''HEAD''"
     "[\<lparr>fs_Path = ''c.go'', fs_Status = ''R100'', fs_OldPath = ''a b.go''\<rparr>, \<lparr>fs_Path = ''x.txt'', fs_Status = ''M'', fs_OldPath = []\<rparr>]"]
  by (simp add: status_ok_def status_record_def isRenameStatus_def has_prefix_def has_suffix_def)

section \<open>Churn\<close>

text \<open>The churn of a file is the number of records that name it.\<close>

lemma fold_churn_get:
  "gm_get 0 (fold (churn_step absDir) records m) key =
     gm_get 0 m key + int (length (filter (\<lambda>n. has_suffix n ''.go'' \<and> path_join absDir n = key) records))"
  by (induction records arbitrary: m) (auto simp: churn_step_def Let_def)

lemma GitFileChurn_counts:
  assumes "GitFileChurn env dir ref = Inr churn"
  shows "\<exists>absDir records. path_abs (ge_cwd env) dir = Inr absDir \<and>
    (\<forall>key. gm_get 0 churn key = int (length (filter (\<lambda>n. has_suffix n ''.go'' \<and> path_join absDir n = key) records)))"
  using assms by (auto simp: GitFileChurn_def fold_churn_get split: sum.splits)

end
