(* ===== verification/Workspace.thy ===== *)
theory Workspace
  imports Runner Vcs Edges
begin

text \<open>
  The workspace file and its members (\<^verbatim>\<open>workspace/config.go\<close>, \<^verbatim>\<open>workspace/discover.go\<close>) and the indexing
  driver around them (\<^verbatim>\<open>workspace/index.go\<close>). The file system, the YAML decoder and \<^verbatim>\<open>regexp.Compile\<close> are
  the record \<open>ws_env\<close>; parsing, resolution and the store are arguments of the drivers.
\<close>

section \<open>The file\<close>

record member =
  mb_Module :: string
  mb_Dir :: string
  mb_DiscoveryRoot :: string
  mb_Missing :: bool

record extractor_config =
  xc_Name :: string
  xc_Kind :: string
  xc_ConstPrefix :: string
  xc_Normalize :: string
  xc_NormalizeRules :: "(string \<times> string) list"
  xc_ImportsMatch :: "string list"
  xc_ProducerMethods :: "string list"
  xc_ConsumerMethods :: "string list"
  xc_ConfigPatterns :: "string list"
  xc_ArgIndex :: int
  xc_DecodeSwitch :: bool

record ws_config =
  wc_Root :: string
  wc_Path :: string
  wc_Members :: "member list"
  wc_Suppress :: "string list"
  wc_Extractors :: "extractor_config list"

datatype stat_result = Exists bool | NotExist string | StatError string

fun stat_error :: "stat_result \<Rightarrow> string option" where
  "stat_error (Exists _) = None"
| "stat_error (NotExist e) = Some e"
| "stat_error (StatError e) = Some e"

record ws_env =
  we_stat :: "string \<Rightarrow> stat_result"
  we_readFile :: "string \<Rightarrow> string result"
  we_readDir :: "string \<Rightarrow> (string \<times> bool) list result"
  we_evalSymlinks :: "string \<Rightarrow> string result"
  we_cwd :: "string result"
  we_yaml :: "string \<Rightarrow> ws_config \<Rightarrow> ws_config result"
  we_compile :: "string \<Rightarrow> string option"

section \<open>Suppressions\<close>

definition missing_separator :: "unidata \<Rightarrow> string \<Rightarrow> nat \<Rightarrow> string \<Rightarrow> string" where
  "missing_separator U path i entry =
     ''workspace config '' @ path @ '': contracts.suppress['' @ itoa (int i) @ ''] '' @ go_quote U entry
     @ '' is missing the separator '' @ [CHR 0x27] @ arrow @ [CHR 0x27] @ '' (U+2192); expected e.g. '' @ dq @ suppress_key ''a.b.C'' ''d.e.F'' @ dq"

definition empty_side :: "unidata \<Rightarrow> string \<Rightarrow> nat \<Rightarrow> string \<Rightarrow> string" where
  "empty_side U path i entry =
     ''workspace config '' @ path @ '': contracts.suppress['' @ itoa (int i) @ ''] '' @ go_quote U entry @ '' has an empty side''"

definition suppression_pair :: "unidata \<Rightarrow> string \<Rightarrow> nat \<times> string \<Rightarrow> (string \<times> string) result" where
  "suppression_pair U path = (\<lambda>(i, entry).
     let (a, b, ok) = str_cut entry arrow; src = trim_space a; dst = trim_space b in
       if \<not> ok then Inl (missing_separator U path i entry)
       else if src = [] \<or> dst = [] then Inl (empty_side U path i entry)
       else Inr (src, dst))"

definition ContractSuppressionPairs :: "unidata \<Rightarrow> ws_config \<Rightarrow> (string \<times> string) list result" where
  "ContractSuppressionPairs U c =
     each_r (suppression_pair U (wc_Path c)) (zip [0..<length (wc_Suppress c)] (wc_Suppress c))"

definition suppress_map :: "(string \<times> string) list \<Rightarrow> (string, bool) gomap" where
  "suppress_map pairs = fold (\<lambda>(a, b). gm_put (suppress_key a b) True) pairs []"

definition SuppressPairs :: "unidata \<Rightarrow> ws_config \<Rightarrow> (string, bool) gomap result" where
  "SuppressPairs U c = map_sum id suppress_map (ContractSuppressionPairs U c)"

section \<open>Loading\<close>

definition configFileName :: string where "configFileName = ''codemap.yaml''"

partial_function (option) default_path_loop :: "ws_env \<Rightarrow> string \<Rightarrow> string option" where
  "default_path_loop env dir =
     (let candidate = path_join dir configFileName; parent = path_dir dir in
        if we_stat env candidate = Exists False then Some candidate
        else if parent = dir then Some [] else default_path_loop env parent)"

definition DefaultPath :: "ws_env \<Rightarrow> string \<Rightarrow> string option" where
  "DefaultPath env startDir =
     (case path_abs (we_cwd env) startDir of Inl _ \<Rightarrow> Some [] | Inr absDir \<Rightarrow> default_path_loop env absDir)"

definition trim_char :: "char \<Rightarrow> string \<Rightarrow> string" where
  "trim_char c s = rev (dropWhile (\<lambda>x. x = c) (rev (dropWhile (\<lambda>x. x = c) s)))"

fun module_line :: "string list \<Rightarrow> string result" where
  "module_line [] = Inl ''go.mod has no module declaration''"
| "module_line (line0 # lines) =
     (let line = trim_space line0 in
        if \<not> has_prefix line ''module '' then module_line lines
        else
          let m = trim_char (CHR 0x22) (trim_space (trim_prefix line ''module ''));
              m = (case str_index m '' '' of Some i \<Rightarrow> take i m | None \<Rightarrow> m)
          in if m = [] then Inl ''go.mod declares an empty module path'' else Inr m)"

definition ReadModulePath :: "ws_env \<Rightarrow> string \<Rightarrow> string result" where
  "ReadModulePath env dir =
     (case we_readFile env (path_join dir ''go.mod'') of
        Inl e \<Rightarrow> Inl (''not a Go module (no go.mod): '' @ e)
      | Inr contents \<Rightarrow> module_line (split_char nl contents))"

definition member_dir :: "ws_env \<Rightarrow> string \<Rightarrow> string \<Rightarrow> string result" where
  "member_dir env rootDir dir0 =
     (let dir = (if path_is_abs dir0 then dir0 else path_join rootDir dir0);
          dir = (case we_evalSymlinks env dir of Inr r \<Rightarrow> r | Inl _ \<Rightarrow> dir)
      in path_abs (we_cwd env) dir)"

text \<open>One member: \<open>None\<close> is a duplicate.\<close>

definition resolve_member :: "ws_env \<Rightarrow> unidata \<Rightarrow> ws_config \<Rightarrow> member \<Rightarrow> member result" where
  "resolve_member env U c m =
     (case member_dir env (wc_Root c) (mb_Dir m) of
        Inl e \<Rightarrow> Inl (''workspace config '' @ wc_Path c @ '': member '' @ go_quote U (mb_Module m) @ '': '' @ e)
      | Inr dir \<Rightarrow>
          (case we_stat env dir of
             NotExist _ \<Rightarrow> Inr (m\<lparr>mb_Dir := dir, mb_Missing := True\<rparr>)
           | _ \<Rightarrow>
               (case ReadModulePath env dir of
                  Inl e \<Rightarrow> Inl (''workspace config '' @ wc_Path c @ '': member '' @ go_quote U (mb_Module m) @ '': '' @ e)
                | Inr declared \<Rightarrow>
                    if declared \<noteq> mb_Module m
                    then Inl (''workspace config '' @ wc_Path c @ '': member '' @ go_quote U (mb_Module m) @ '': go.mod declares module ''
                      @ go_quote U declared @ '', expected '' @ go_quote U (mb_Module m))
                    else Inr (m\<lparr>mb_Dir := dir\<rparr>))))"

fun resolve_loop :: "ws_env \<Rightarrow> unidata \<Rightarrow> ws_config \<Rightarrow> string list \<Rightarrow> member list \<Rightarrow> member list result" where
  "resolve_loop env U c seen [] = Inr []"
| "resolve_loop env U c seen (m # ms) =
     (if trim_space (mb_Module m) = []
      then Inl (''workspace config '' @ wc_Path c @ '': member '' @ go_quote U (mb_Dir m) @ '' has no module path'')
      else if mb_Module m \<in> set seen then resolve_loop env U c seen ms
      else case resolve_member env U c m of
        Inl e \<Rightarrow> Inl e
      | Inr m' \<Rightarrow> map_sum id (Cons m') (resolve_loop env U c (mb_Module m # seen) ms))"

definition resolve_config :: "ws_env \<Rightarrow> unidata \<Rightarrow> ws_config \<Rightarrow> ws_config result" where
  "resolve_config env U c = map_sum id (\<lambda>ms. c\<lparr>wc_Members := ms\<rparr>) (resolve_loop env U c [] (wc_Members c))"

definition LoadWorkspace :: "ws_env \<Rightarrow> unidata \<Rightarrow> string \<Rightarrow> ws_config result" where
  "LoadWorkspace env U path =
     (case stat_error (we_stat env path) of
        Some e \<Rightarrow> Inl (''workspace config: '' @ e)
      | None \<Rightarrow>
          (let filePath = (if we_stat env path = Exists True then path_join path configFileName else path) in
             case stat_error (we_stat env filePath) of
               Some e \<Rightarrow> Inl (''workspace config: '' @ e)
             | None \<Rightarrow>
                 (case we_readFile env filePath of
                    Inl e \<Rightarrow> Inl (''workspace config: reading '' @ filePath @ '': '' @ e)
                  | Inr contents \<Rightarrow>
                      (case we_yaml env contents \<lparr>wc_Root = path_dir filePath, wc_Path = filePath, wc_Members = [],
                           wc_Suppress = [], wc_Extractors = []\<rparr> of
                         Inl e \<Rightarrow> Inl (''workspace config: parsing '' @ filePath @ '': '' @ e)
                       | Inr c \<Rightarrow>
                           if wc_Members c = [] then Inl (''workspace config '' @ filePath @ '' declares no members'')
                           else resolve_config env U c))))"

definition Existing :: "ws_config \<Rightarrow> member list" where
  "Existing c = filter (\<lambda>m. \<not> mb_Missing m) (wc_Members c)"

section \<open>Extractors\<close>

definition NamedNormalizers :: "regexps \<Rightarrow> (string, string \<Rightarrow> string) gomap" where
  "NamedNormalizers R =
     [(''raw'', NormalizeRaw), (''redis'', NormalizeRedisKey R), (''subject'', NormalizeJetStreamSubject R)]"

definition rule_error :: "ws_env \<Rightarrow> unidata \<Rightarrow> string \<Rightarrow> nat \<times> string \<times> string \<Rightarrow> (string \<times> string) result" where
  "rule_error env U name = (\<lambda>(i, re, rep).
     if trim_space re = []
     then Inl (''contracts.extractors: extractor '' @ go_quote U name @ '' normalize_rules['' @ itoa (int i) @ ''] has an empty regex'')
     else case we_compile env re of
       Some e \<Rightarrow> Inl (''contracts.extractors: extractor '' @ go_quote U name @ '' normalize_rules['' @ itoa (int i) @ '']: invalid regex ''
         @ go_quote U re @ '': '' @ e)
     | None \<Rightarrow> Inr (re, rep))"

definition compileNormalizeRules :: "ws_env \<Rightarrow> unidata \<Rightarrow> (string \<times> string) list \<Rightarrow> string \<Rightarrow> (string \<times> string) list result" where
  "compileNormalizeRules env U rules name = each_r (rule_error env U name) (zip [0..<length rules] rules)"

definition extractor_name :: "extractor_config \<Rightarrow> string" where
  "extractor_name ec = (if xc_Name ec = [] then xc_Kind ec else xc_Name ec)"

definition normalize_of :: "ws_env \<Rightarrow> regexps \<Rightarrow> unidata \<Rightarrow> extractor_config
    \<Rightarrow> (((string \<Rightarrow> string) option \<times> (string \<times> string) list) \<times> string list) result" where
  "normalize_of env R U ec =
     (if xc_Normalize ec = [] \<and> xc_NormalizeRules ec = [] then Inr ((None, []), [])
      else
        let base = map_of (NamedNormalizers R) (xc_Normalize ec);
            warns = (if base = None \<and> xc_Normalize ec \<noteq> [] \<and> xc_Normalize ec \<noteq> ''raw''
              then [''extractor '' @ go_quote U (extractor_name ec) @ '': unknown normalize '' @ go_quote U (xc_Normalize ec)
                    @ '', falling back to raw''] else []);
            f = (case base of None \<Rightarrow> NormalizeRaw | Some f \<Rightarrow> f)
        in case compileNormalizeRules env U (xc_NormalizeRules ec) (extractor_name ec) of
             Inl e \<Rightarrow> Inl e
           | Inr rules \<Rightarrow> Inr ((Some (NormalizeWithRules R (Some f) rules), rules), warns))"

definition runtime_extractor :: "ws_env \<Rightarrow> regexps \<Rightarrow> unidata \<Rightarrow> extractor_config \<Rightarrow> (extractor \<times> string list) result" where
  "runtime_extractor env R U ec =
     (if trim_space (xc_Kind ec) = []
      then Inl (''contracts.extractors: extractor '' @ go_quote U (extractor_name ec) @ '' has an empty kind'')
      else if xc_ArgIndex ec < 0
      then Inl (''contracts.extractors: extractor '' @ go_quote U (extractor_name ec) @ '' has a negative arg_index (''
        @ itoa (xc_ArgIndex ec) @ ''); arg_index must be >= 0'')
      else case normalize_of env R U ec of
        Inl e \<Rightarrow> Inl e
      | Inr ((normf, rules), warns) \<Rightarrow>
          Inr (\<lparr>ex_Normalize = normf, ex_NormalizeRules = rules, ex_Kind = xc_Kind ec, ex_Name = extractor_name ec,
                ex_ConstPrefix = xc_ConstPrefix ec, ex_ImportsMatch = xc_ImportsMatch ec,
                ex_ProducerMethods = xc_ProducerMethods ec, ex_ConsumerMethods = xc_ConsumerMethods ec,
                ex_ConfigPatterns = xc_ConfigPatterns ec, ex_LiteralPatterns = [],
                ex_ArgIndex = xc_ArgIndex ec, ex_DecodeSwitch = xc_DecodeSwitch ec\<rparr>, warns))"

definition runtimeExtractors :: "ws_env \<Rightarrow> regexps \<Rightarrow> unidata \<Rightarrow> extractor_config list \<Rightarrow> (extractor list \<times> string list) result" where
  "runtimeExtractors env R U ecs =
     map_sum id (\<lambda>rs. (map fst rs, concat (map snd rs))) (each_r (runtime_extractor env R U) ecs)"

text \<open>The configuration of a run, and the warnings that go with it.\<close>

definition ContractConfig :: "ws_env \<Rightarrow> regexps \<Rightarrow> unidata \<Rightarrow> ws_config \<Rightarrow> (contract_config \<times> string list) result" where
  "ContractConfig env R U c =
     (let cfg = DefaultConfig R in
        case ContractSuppressionPairs U c of
          Inl e \<Rightarrow> Inl e
        | Inr pairs \<Rightarrow>
            (let cfg = (if pairs \<noteq> [] then cfg\<lparr>cfg_Suppress := suppress_map pairs\<rparr> else cfg) in
               if wc_Extractors c = [] then Inr (cfg, [])
               else case runtimeExtractors env R U (wc_Extractors c) of
                 Inl e \<Rightarrow> Inl e
               | Inr (exts, warns) \<Rightarrow>
                   Inr (cfg\<lparr>cfg_Extractors := MergeRuntimeExtractors (cfg_Extractors cfg) exts\<rparr>, warns)))"

section \<open>Discovery\<close>

record candidate_module =
  cm_Module :: string
  cm_Dir :: string

definition sibling_prefix :: "string \<Rightarrow> string" where
  "sibling_prefix modulePath =
     (case str_last_index modulePath ''/'' of None \<Rightarrow> [] | Some i \<Rightarrow> take (i + 1) modulePath)"

definition candidate_of :: "ws_env \<Rightarrow> string \<Rightarrow> string \<Rightarrow> string \<Rightarrow> string \<times> bool \<Rightarrow> candidate_module list" where
  "candidate_of env siblingRoot absDir pfx = (\<lambda>(name, isDir).
     let candDir = path_join siblingRoot name in
       if \<not> isDir \<or> has_prefix name ''.'' \<or> name = ''vendor'' \<or> name = ''node_modules'' \<or> candDir = absDir then []
       else case ReadModulePath env candDir of
         Inl _ \<Rightarrow> []
       | Inr m \<Rightarrow> if pfx \<noteq> [] \<and> \<not> has_prefix m pfx then [] else [\<lparr>cm_Module = m, cm_Dir = candDir\<rparr>])"

text \<open>\<^verbatim>\<open>sort.Slice\<close> by module: the directory entries come sorted, and equal modules keep their order up to 12 entries.\<close>

definition Discover :: "ws_env \<Rightarrow> string \<Rightarrow> string \<Rightarrow> candidate_module list result" where
  "Discover env modulePath dir =
     (case path_abs (we_cwd env) dir of
        Inl e \<Rightarrow> Inl e
      | Inr absDir \<Rightarrow>
          (case we_readDir env (path_dir absDir) of
             Inl e \<Rightarrow> Inl (''discovery: reading '' @ path_dir absDir @ '': '' @ e)
           | Inr entries \<Rightarrow>
               Inr (sort_by (by_key cm_Module)
                 (concat (map (candidate_of env (path_dir absDir) absDir (sibling_prefix modulePath)) entries)))))"

section \<open>Indexing\<close>

record index_summary =
  ix_Repo :: string
  ix_Dir :: string
  ix_State :: string
  ix_Packages :: nat
  ix_Symbols :: nat
  ix_Edges :: nat
  ix_Missing :: bool

definition module_owns :: "string \<Rightarrow> string \<Rightarrow> bool" where
  "module_owns s m \<longleftrightarrow> length m < length s \<and> take (length m) s = m \<and> (s ! length m = CHR ''/'' \<or> s ! length m = CHR ''.'')"

text \<open>A reference counts for the first module of the iteration that owns it; \<open>existing\<close> is the map in iteration order.\<close>

definition count_ref :: "string list \<Rightarrow> string \<Rightarrow> (string, nat) gomap \<Rightarrow> (string, nat) gomap" where
  "count_ref existing ref counts =
     (case filter (\<lambda>m. ref = m \<or> module_owns ref m) existing of
        [] \<Rightarrow> counts | m # _ \<Rightarrow> gm_put m (gm_get 0 counts m + 1) counts)"

text \<open>
  The resolved index is its packages' module paths, its symbols' names and its edges' sources. Each lookup loop ranges
  over the map anew: \<open>order k\<close> is the iteration order of the \<open>k\<close>-th range.
\<close>

fun count_refs :: "(nat \<Rightarrow> string list) \<Rightarrow> nat \<Rightarrow> string list \<Rightarrow> (string, nat) gomap \<Rightarrow> (string, nat) gomap" where
  "count_refs order k [] counts = counts"
| "count_refs order k (ref # refs) counts = count_refs order (Suc k) refs (count_ref (order k) ref counts)"

definition buildSummaries :: "(nat \<Rightarrow> string list) \<Rightarrow> ws_config \<Rightarrow> string list \<Rightarrow> string list \<Rightarrow> string list \<Rightarrow> index_summary list" where
  "buildSummaries order c pkgModules symbols edgeRefs =
     (let pkgCount = fold (\<lambda>m counts. gm_put m (gm_get 0 counts m + 1) counts) pkgModules [];
          symCount = count_refs order 0 symbols [];
          edgeCount = count_refs order (length symbols) edgeRefs []
      in sort_by (by_key ix_Repo) (map (\<lambda>m.
           \<lparr>ix_Repo = mb_Module m, ix_Dir = mb_Dir m, ix_State = ''indexed'', ix_Packages = gm_get 0 pkgCount (mb_Module m),
            ix_Symbols = gm_get 0 symCount (mb_Module m), ix_Edges = gm_get 0 edgeCount (mb_Module m), ix_Missing = mb_Missing m\<rparr>)
           (wc_Members c)))"

definition overlayParseErrors :: "index_summary list \<Rightarrow> string list \<Rightarrow> index_summary list" where
  "overlayParseErrors summaries failedModules =
     map (\<lambda>s. if ix_Repo s \<in> set failedModules
              then s\<lparr>ix_State := ''parse_error'', ix_Symbols := 0, ix_Edges := 0, ix_Packages := 0\<rparr> else s) summaries"

text \<open>
  Parsing: \<open>parse\<close> is package \<^verbatim>\<open>parse\<close> on a list of roots; a parse result is joined with another by \<open>join\<close>, from the
  empty one. The modules that fail alone are reported, the others are kept.
\<close>

definition parse_members :: "((string \<times> string) list \<Rightarrow> 'p result) \<Rightarrow> ('p \<Rightarrow> 'p \<Rightarrow> 'p) \<Rightarrow> (string \<times> string) list \<Rightarrow> 'p
    \<Rightarrow> 'p \<times> string list" where
  "parse_members parse join roots noneParsed =
     fold (\<lambda>(dir, m) (merged, fails).
         case parse [(dir, m)] of Inl _ \<Rightarrow> (merged, fails @ [m]) | Inr pr \<Rightarrow> (join merged pr, fails)) roots (noneParsed, [])"

definition parseWorkspace :: "((string \<times> string) list \<Rightarrow> 'p result) \<Rightarrow> ('p \<Rightarrow> 'p \<Rightarrow> 'p) \<Rightarrow> 'p \<Rightarrow> (string \<times> string) list
    \<Rightarrow> 'p \<times> string list" where
  "parseWorkspace parse join noneParsed roots =
     (case parse roots of Inr merged \<Rightarrow> (merged, []) | Inl _ \<Rightarrow> parse_members parse join roots noneParsed)"

definition churn_error :: "vcs_error \<Rightarrow> string" where
  "churn_error e = (case e of ErrNoCommits \<Rightarrow> ''no commits in repository''
     | ErrFileNotInRef f r \<Rightarrow> ''file not in ref: '' @ f @ ''@'' @ r | GitError m \<Rightarrow> m)"

definition churn_of_member :: "git_env \<Rightarrow> member \<Rightarrow> (string, int) gomap \<times> string option \<Rightarrow> (string, int) gomap \<times> string option" where
  "churn_of_member G m = (\<lambda>(out, firstErr).
     case GitFileChurn G (mb_Dir m) headRef of
       Inl e \<Rightarrow>
         (out, if e \<noteq> ErrNoCommits \<and> firstErr = None then Some (''git churn for '' @ mb_Module m @ '': '' @ churn_error e) else firstErr)
     | Inr churn \<Rightarrow> (fold (\<lambda>(k, v). gm_put k v) churn out, firstErr))"

definition mergedChurn :: "git_env \<Rightarrow> member list \<Rightarrow> (string, int) gomap \<times> string option" where
  "mergedChurn G members = fold (churn_of_member G) members ([], None)"

definition churnReason :: "string option \<Rightarrow> string" where
  "churnReason err = (case err of None \<Rightarrow> [] | Some e \<Rightarrow> ''git churn unavailable: '' @ e)"

text \<open>A store operation changes the store state \<open>'s\<close> and may fail; a sequence stops at its first failure.\<close>

type_synonym 's op = "'s \<Rightarrow> unit result \<times> 's"

definition and_then :: "'s op \<Rightarrow> ('s \<Rightarrow> 'a result \<times> 's) \<Rightarrow> 's \<Rightarrow> 'a result \<times> 's" where
  "and_then f g st = (case f st of (Inl e, st') \<Rightarrow> (Inl e, st') | (Inr _, st') \<Rightarrow> g st')"

definition failing_as :: "string \<Rightarrow> 's op \<Rightarrow> 's op" where
  "failing_as msg f st = (case f st of (Inl e, st') \<Rightarrow> (Inl (msg @ '': '' @ e), st') | (Inr u, st') \<Rightarrow> (Inr u, st'))"

fun each_op :: "('a \<Rightarrow> 's op) \<Rightarrow> 'a list \<Rightarrow> 's op" where
  "each_op f [] st = (Inr (), st)"
| "each_op f (x # xs) st = and_then (f x) (each_op f xs) st"

type_synonym files = "(string, string) gomap"

text \<open>
  What the drivers call: package \<^verbatim>\<open>parse\<close> with parse results \<open>'p\<close>, package \<^verbatim>\<open>resolve\<close> with resolved indexes \<open>'r\<close>,
  and the write operations of the store.
\<close>

record ('p, 'r, 's) index_ops =
  io_parse :: "(string \<times> string) list \<Rightarrow> 'p result"
  io_join :: "'p \<Rightarrow> 'p \<Rightarrow> 'p"
  io_none :: 'p
  io_fallback :: "'p \<Rightarrow> bool"
  io_contents :: "'p \<Rightarrow> files"
  io_resolve :: "'p \<Rightarrow> 'r"
  io_pkgModules :: "'r \<Rightarrow> string list"
  io_symbols :: "'r \<Rightarrow> string list"
  io_edgeRefs :: "'r \<Rightarrow> string list"
  io_Write :: "'r \<Rightarrow> files \<Rightarrow> (string, int) gomap \<Rightarrow> repo_spec list \<Rightarrow> 's op"
  io_Replace :: "'r \<Rightarrow> files \<Rightarrow> (string, int) gomap \<Rightarrow> string \<Rightarrow> 's op"
  io_SetIndexedVia :: "string \<Rightarrow> 's op"
  io_SetRepoIndexedAt :: "string \<Rightarrow> 's op"
  io_Fingerprint :: "string \<Rightarrow> string \<Rightarrow> files \<Rightarrow> 's \<Rightarrow> 's"
  io_SetChurnDegraded :: "string \<Rightarrow> 's op"
  io_SetRepoMissing :: "string \<Rightarrow> 's op"

definition stamp_member :: "('p, 'r, 's) index_ops \<Rightarrow> files \<Rightarrow> member \<Rightarrow> 's op" where
  "stamp_member ops contents m =
     and_then (failing_as (''set indexed_at for '' @ mb_Module m) (io_SetRepoIndexedAt ops (mb_Module m)))
       (\<lambda>st. (Inr (), io_Fingerprint ops (mb_Module m) (mb_Dir m) contents st))"

definition writeWorkspaceStore :: "('p, 'r, 's) index_ops \<Rightarrow> ws_config \<Rightarrow> 'r \<Rightarrow> files \<Rightarrow> (string, int) gomap \<Rightarrow> string option
    \<Rightarrow> repo_spec list \<Rightarrow> string \<Rightarrow> 's op" where
  "writeWorkspaceStore ops c resolved contents churn churnErr specs indexedVia =
     and_then (failing_as ''workspace write'' (io_Write ops resolved contents churn specs))
       (and_then (failing_as ''set indexed_via'' (io_SetIndexedVia ops indexedVia))
         (and_then (each_op (stamp_member ops contents) (Existing c))
           (and_then (failing_as ''set churn degradation'' (io_SetChurnDegraded ops (churnReason churnErr)))
             (each_op (\<lambda>m. io_SetRepoMissing ops (mb_Module m)) (filter mb_Missing (wc_Members c))))))"

text \<open>\<open>created\<close> is the fresh store of the database path, or the error of creating it.\<close>

definition IndexAll :: "('p, 'r, 's) index_ops \<Rightarrow> git_env \<Rightarrow> (nat \<Rightarrow> string list) \<Rightarrow> ws_config \<Rightarrow> 's result
    \<Rightarrow> index_summary list result \<times> 's option" where
  "IndexAll ops G order c created =
     (let specs = map (\<lambda>m. \<lparr>rs_ModulePath = mb_Module m, rs_Dir = mb_Dir m, rs_Missing = mb_Missing m\<rparr>) (wc_Members c);
          roots = map (\<lambda>m. (mb_Dir m, mb_Module m)) (filter (\<lambda>m. \<not> mb_Missing m) (wc_Members c));
          (merged, parseErrors) = parseWorkspace (io_parse ops) (io_join ops) (io_none ops) roots;
          resolved = io_resolve ops merged;
          (churn, churnErr) = mergedChurn G (Existing c)
      in case created of
           Inl e \<Rightarrow> (Inl (''store: '' @ e), None)
         | Inr st \<Rightarrow>
             (case writeWorkspaceStore ops c resolved (io_contents ops merged) churn churnErr specs
                 (if io_fallback ops merged then ''dir-walk'' else ''go-list'') st of
                (Inl e, st') \<Rightarrow> (Inl e, Some st')
              | (Inr _, st') \<Rightarrow>
                  (Inr (overlayParseErrors (buildSummaries order c (io_pkgModules ops resolved) (io_symbols ops resolved)
                      (io_edgeRefs ops resolved)) parseErrors), Some st')))"

definition ReindexRepo :: "('p, 'r, 's) index_ops \<Rightarrow> git_env \<Rightarrow> 's result \<Rightarrow> string \<Rightarrow> string \<Rightarrow> index_summary result \<times> 's option" where
  "ReindexRepo ops G opened modulePath dir =
     (case io_parse ops [(dir, modulePath)] of
        Inl e \<Rightarrow> (Inl (''workspace parse: '' @ e), None)
      | Inr parsed \<Rightarrow>
          (case opened of
             Inl e \<Rightarrow> (Inl e, None)
           | Inr st \<Rightarrow>
               (let resolved = io_resolve ops parsed; contents = io_contents ops parsed;
                    (churn, churnErr) = (case GitFileChurn G dir headRef of
                       Inl e \<Rightarrow> ([], Some (churn_error e)) | Inr churn \<Rightarrow> (churn, None));
                    run = and_then (failing_as (''replace repo '' @ modulePath) (io_Replace ops resolved contents churn modulePath))
                      (and_then (io_SetRepoIndexedAt ops modulePath)
                        (\<lambda>st. failing_as ''set churn degradation'' (io_SetChurnDegraded ops (churnReason churnErr))
                           (io_Fingerprint ops modulePath dir contents st)))
                in case run st of
                     (Inl e, st') \<Rightarrow> (Inl e, Some st')
                   | (Inr _, st') \<Rightarrow>
                       (Inr \<lparr>ix_Repo = modulePath, ix_Dir = dir, ix_State = [], ix_Packages = length (io_pkgModules ops resolved),
                             ix_Symbols = length (io_symbols ops resolved), ix_Edges = length (io_edgeRefs ops resolved),
                             ix_Missing = False\<rparr>, Some st'))))"

section \<open>Keeping the index fresh\<close>

text \<open>
  The store operations of \<^verbatim>\<open>ReindexStale\<close>, over a store state \<open>'s\<close>: they may change it, and an operation that writes
  can fail.
\<close>

record 's stale_ops =
  so_ListRepos :: "'s \<Rightarrow> repo_spec list result"
  so_DirGone :: "string \<Rightarrow> bool"
  so_SetMissing :: "string \<Rightarrow> 's \<Rightarrow> unit result \<times> 's"
  so_IsStale :: "string \<Rightarrow> 's \<Rightarrow> bool result"
  so_Reindex :: "string \<Rightarrow> string \<Rightarrow> 's \<Rightarrow> unit result \<times> 's"

fun stale_loop :: "'s stale_ops \<Rightarrow> repo_spec list \<Rightarrow> 's \<Rightarrow> (string list \<times> string list) \<times> 's" where
  "stale_loop ops [] st = (([], []), st)"
| "stale_loop ops (r # rs) st =
     (if rs_Missing r then stale_loop ops rs st
      else if so_DirGone ops (rs_Dir r) then
        (case so_SetMissing ops (rs_ModulePath r) st of
           (Inl e, st') \<Rightarrow>
             (let ((refreshed, errs), st'') = stale_loop ops rs st'
              in ((refreshed, (''mark '' @ rs_ModulePath r @ '' missing: '' @ e) # errs), st''))
         | (Inr _, st') \<Rightarrow> stale_loop ops rs st')
      else case so_IsStale ops (rs_ModulePath r) st of
        Inl e \<Rightarrow>
          (let ((refreshed, errs), st'') = stale_loop ops rs st
           in ((refreshed, (''staleness check for '' @ rs_ModulePath r @ '': '' @ e) # errs), st''))
      | Inr False \<Rightarrow> stale_loop ops rs st
      | Inr True \<Rightarrow>
          (case so_Reindex ops (rs_ModulePath r) (rs_Dir r) st of
             (Inl e, st') \<Rightarrow>
               (let ((refreshed, errs), st'') = stale_loop ops rs st'
                in ((refreshed, (''reindexing '' @ rs_ModulePath r @ '': '' @ e) # errs), st''))
           | (Inr _, st') \<Rightarrow>
               (let ((refreshed, errs), st'') = stale_loop ops rs st' in ((rs_ModulePath r # refreshed, errs), st''))))"

definition ReindexStale :: "'s stale_ops \<Rightarrow> 's \<Rightarrow> (string list \<times> string option) result \<times> 's" where
  "ReindexStale ops st =
     (case so_ListRepos ops st of
        Inl e \<Rightarrow> (Inl e, st)
      | Inr repos \<Rightarrow>
          (let ((refreshed, errs), st') = stale_loop ops repos st
           in (Inr (refreshed, if errs = [] then None else Some (str_join [nl] errs)), st')))"

end
