(* ===== verification/Workspace_Proofs.thy ===== *)
theory Workspace_Proofs
  imports Workspace Runtime_Proofs
begin

text \<open>
  What a workspace file means: which contracts its suppressions remove, which members a resolved file has, how a
  member that fails is kept apart from the others, and two places where the code departs from its comments.
\<close>

section \<open>Suppressions\<close>

lemma arrow_bytes: "arrow = [CHR 0xE2, CHR 0x86, CHR 0x92]"
  by (simp add: arrow_def)

lemma contains_Cons: "contains s sub \<Longrightarrow> contains (c # s) sub"
  by (metis append_Cons contains_iff)

lemma has_prefix_contains: "has_prefix s sub \<Longrightarrow> contains (s @ t) sub"
  by (metis append.assoc append_Nil contains_iff has_prefix_iff)

text \<open>The arrow of a key is found at the end of a first name that holds none.\<close>

lemma arrow_prefix_early:
  assumes "has_prefix (x @ CHR '' '' # arrow @ y) arrow" shows "contains x arrow"
proof -
  obtain t where t: "x @ CHR '' '' # arrow @ y = arrow @ t" using assms by (auto simp: has_prefix_iff)
  consider "x = []" | a where "x = [a]" | a b where "x = [a, b]" | a b c r where "x = a # b # c # r"
    by (metis neq_Nil_conv)
  then show ?thesis
  proof cases
    case 4
    with t have "x = arrow @ r" by (simp add: arrow_bytes)
    then show ?thesis by (metis append_Nil contains_iff)
  qed (use t in \<open>simp_all add: arrow_bytes\<close>)
qed

lemma str_index_arrow:
  "\<not> contains x arrow \<Longrightarrow> str_index (x @ CHR '' '' # arrow @ y) arrow = Some (length x + 1)"
proof (induction x)
  case Nil
  have "has_prefix (arrow @ y) arrow" by simp
  then have "str_index (arrow @ y) arrow = Some 0" by (subst str_index.simps) simp
  moreover have "\<not> has_prefix (CHR '' '' # arrow @ y) arrow" by (simp add: has_prefix_def arrow_bytes)
  ultimately show ?case by (subst str_index.simps) simp
next
  case (Cons c x)
  have "\<not> contains x arrow" using Cons.prems contains_Cons by blast
  moreover have "\<not> has_prefix ((c # x) @ CHR '' '' # arrow @ y) arrow" using arrow_prefix_early Cons.prems by blast
  ultimately show ?case using Cons.IH by (subst str_index.simps) simp
qed

lemma suppress_key_inj:
  assumes "suppress_key a b = suppress_key c d" and "\<not> contains a arrow" and "\<not> contains c arrow"
  shows "a = c \<and> b = d"
proof -
  have eq: "a @ CHR '' '' # arrow @ '' '' @ b = c @ CHR '' '' # arrow @ '' '' @ d"
    using assms(1) by (simp add: suppress_key_def)
  then have "length a = length c" using str_index_arrow [OF assms(2)] str_index_arrow [OF assms(3)]
    by (metis Suc_eq_plus1 nat.inject option.inject)
  with eq show ?thesis by (simp add: arrow_bytes)
qed

lemma suppress_map_get:
  "gm_get False (fold (\<lambda>(a, b). gm_put (suppress_key a b) True) pairs m) k \<longleftrightarrow>
     gm_get False m k \<or> (\<exists>(a, b)\<in>set pairs. suppress_key a b = k)"
  by (induction pairs arbitrary: m) auto

lemma trim_left_suffix: "\<exists>t. s = t @ trim_left_space s"
proof (induction s rule: trim_left_space.induct)
  case (1 s)
  show ?case
  proof (cases "s \<noteq> [] \<and> is_space (fst (decode_rune s))")
    case True
    then obtain t where "drop (snd (decode_rune s)) s = t @ trim_left_space (drop (snd (decode_rune s)) s)" using 1 by blast
    moreover have "trim_left_space s = trim_left_space (drop (snd (decode_rune s)) s)" using True by (subst trim_left_space.simps) simp
    ultimately have "s = (take (snd (decode_rune s)) s @ t) @ trim_left_space s" by (metis append.assoc append_take_drop_id)
    then show ?thesis by blast
  next
    case False
    then have "trim_left_space s = s" by (subst trim_left_space.simps) auto
    then show ?thesis by (metis append_Nil)
  qed
qed

lemma trim_right_prefix: "\<exists>t. s = trim_right_space s @ t"
proof (induction s rule: trim_right_space.induct)
  case (1 s)
  let ?k = "length s - snd (decode_last_rune s)"
  show ?case
  proof (cases "s \<noteq> [] \<and> is_space (fst (decode_last_rune s))")
    case True
    then obtain t where "take ?k s = trim_right_space (take ?k s) @ t" using 1 by blast
    moreover have "trim_right_space s = trim_right_space (take ?k s)" using True by (subst trim_right_space.simps) simp
    ultimately have "s = trim_right_space s @ (t @ drop ?k s)" by (metis append.assoc append_take_drop_id)
    then show ?thesis by blast
  next
    case False
    then have "trim_right_space s = s" by (subst trim_right_space.simps) auto
    then show ?thesis by (metis append_Nil2)
  qed
qed

lemma contains_trim: "contains (trim_space s) sub \<Longrightarrow> contains s sub"
proof -
  assume c: "contains (trim_space s) sub"
  obtain t u where "s = t @ trim_left_space s" "trim_left_space s = trim_space s @ u"
    using trim_left_suffix trim_right_prefix unfolding trim_space_def by blast
  then have "contains s (trim_space s)" by (metis contains_iff)
  with c show ?thesis by (rule contains_trans [rotated])
qed

text \<open>The two names of an entry.\<close>

definition entry_from :: "string \<Rightarrow> string" where
  "entry_from entry = trim_space (fst (str_cut entry arrow))"

definition entry_to :: "string \<Rightarrow> string" where
  "entry_to entry = trim_space (fst (snd (str_cut entry arrow)))"

definition entry_ok :: "string \<Rightarrow> bool" where
  "entry_ok entry \<longleftrightarrow> contains entry arrow \<and> entry_from entry \<noteq> [] \<and> entry_to entry \<noteq> []"

lemma suppression_pair_Inr:
  "suppression_pair U path (i, entry) = Inr p \<longleftrightarrow> entry_ok entry \<and> p = (entry_from entry, entry_to entry)"
  by (auto simp: suppression_pair_def entry_from_def entry_to_def entry_ok_def str_cut_def contains_def Let_def split: option.splits)

lemma each_r_zip:
  "each_r f (zip [k..<k + length xs] xs) = Inr ys \<Longrightarrow> (\<And>i x y. f (i, x) = Inr y \<longleftrightarrow> P x \<and> y = g x) \<Longrightarrow>
   ys = map g xs \<and> (\<forall>x\<in>set xs. P x)"
proof (induction xs arbitrary: k ys)
  case (Cons x xs)
  have z: "zip [k..<k + length (x # xs)] (x # xs) = (k, x) # zip [Suc k..<Suc k + length xs] xs"
    by (simp add: upt_conv_Cons del: upt_Suc)
  from Cons.prems(1) obtain y ys' where "f (k, x) = Inr y" "each_r f (zip [Suc k..<Suc k + length xs] xs) = Inr ys'" "ys = y # ys'"
    unfolding z by (auto split: sum.splits simp del: upt_Suc)
  then have "ys' = map g xs \<and> (\<forall>x\<in>set xs. P x)" "P x \<and> y = g x" using Cons.IH Cons.prems(2) by blast+
  with \<open>ys = y # ys'\<close> show ?case by simp
qed simp

lemma each_r_zip_ok:
  "(\<And>i x y. f (i, x) = Inr y \<longleftrightarrow> P x \<and> y = g x) \<Longrightarrow> (\<forall>x\<in>set xs. P x) \<Longrightarrow>
   each_r f (zip [k..<k + length xs] xs) = Inr (map g xs)"
proof (induction xs arbitrary: k)
  case (Cons x xs)
  have z: "zip [k..<k + length (x # xs)] (x # xs) = (k, x) # zip [Suc k..<Suc k + length xs] xs"
    by (simp add: upt_conv_Cons del: upt_Suc)
  have "f (k, x) = Inr (g x)" using Cons.prems by simp
  moreover have "each_r f (zip [Suc k..<Suc k + length xs] xs) = Inr (map g xs)"
    using Cons.IH [of "Suc k"] Cons.prems by (simp del: upt_Suc)
  ultimately show ?case unfolding z by (simp del: upt_Suc)
qed simp

lemma ContractSuppressionPairs_iff:
  "ContractSuppressionPairs U c = Inr pairs \<longleftrightarrow>
     (\<forall>e\<in>set (wc_Suppress c). entry_ok e) \<and> pairs = map (\<lambda>e. (entry_from e, entry_to e)) (wc_Suppress c)"
  using each_r_zip [of "suppression_pair U (wc_Path c)" 0 "wc_Suppress c", OF _ suppression_pair_Inr]
    each_r_zip_ok [of "suppression_pair U (wc_Path c)", OF suppression_pair_Inr, of "wc_Suppress c" 0]
  by (auto simp: ContractSuppressionPairs_def)

lemma entry_from_no_arrow: "entry_ok e \<Longrightarrow> \<not> contains (entry_from e) arrow"
proof
  assume e: "entry_ok e" and c: "contains (entry_from e) arrow"
  then obtain i where i: "str_index e arrow = Some i" by (auto simp: entry_ok_def contains_def)
  with c have "contains (take i e) arrow" by (auto simp: entry_from_def str_cut_def dest: contains_trim)
  then obtain a b where ab: "take i e = a @ arrow @ b" by (auto simp: contains_iff)
  then have "e = a @ arrow @ (b @ drop i e)" by (metis append.assoc append_take_drop_id)
  have "length (take i e) = length a + 3 + length b" using ab by (simp add: arrow_bytes)
  moreover have "length (take i e) \<le> i" by simp
  ultimately have "length a < i" by linarith
  from \<open>e = a @ arrow @ (b @ drop i e)\<close> have "has_prefix (drop (length a) e) arrow" by (metis append_eq_conv_conj has_prefix_append)
  with str_index_first [OF i] \<open>length a < i\<close> show False by blast
qed

lemma ContractConfig_suppress:
  assumes "ContractConfig env R U c = Inr (cfg, warns)"
  shows "cfg_Suppress cfg = suppress_map (map (\<lambda>e. (entry_from e, entry_to e)) (wc_Suppress c)) \<and> (\<forall>e\<in>set (wc_Suppress c). entry_ok e)"
proof (cases "ContractSuppressionPairs U c")
  case (Inl e)
  with assms show ?thesis by (simp add: ContractConfig_def)
next
  case (Inr pairs)
  then have p: "\<forall>e\<in>set (wc_Suppress c). entry_ok e" "pairs = map (\<lambda>e. (entry_from e, entry_to e)) (wc_Suppress c)"
    using ContractSuppressionPairs_iff by blast+
  have "cfg_Suppress cfg = suppress_map pairs"
    using assms Inr by (auto simp: ContractConfig_def Let_def DefaultConfig_def suppress_map_def split: sum.splits if_splits)
  with p show ?thesis by simp
qed

text \<open>
  a suppression in the workspace file removes exactly the contracts between the two symbols it names, in either
  direction, whatever other entries there are; a file with an entry without an arrow or with an empty side is refused.
\<close>

theorem ContractConfig_suppresses:
  assumes "ContractConfig env R U c = Inr (cfg, warns)"
    and "\<forall>r\<in>set rows. \<not> contains (ct_FromRef r) arrow \<and> \<not> contains (ct_ToRef r) arrow"
  shows "filterSuppressed rows (cfg_Suppress cfg) =
      filter (\<lambda>r. \<not> (\<exists>e\<in>set (wc_Suppress c). entry_from e = ct_FromRef r \<and> entry_to e = ct_ToRef r
        \<or> entry_from e = ct_ToRef r \<and> entry_to e = ct_FromRef r)) rows
    \<and> (\<forall>e\<in>set (wc_Suppress c). entry_ok e)"
proof -
  let ?m = "suppress_map (map (\<lambda>e. (entry_from e, entry_to e)) (wc_Suppress c))"
  have cfg: "cfg_Suppress cfg = ?m" and ok: "\<forall>e\<in>set (wc_Suppress c). entry_ok e"
    using ContractConfig_suppress [OF assms(1)] by auto
  have key: "gm_get False ?m (suppress_key a b) \<longleftrightarrow> (\<exists>e\<in>set (wc_Suppress c). entry_from e = a \<and> entry_to e = b)"
    if "\<not> contains a arrow" for a b
  proof -
    have "gm_get False ?m (suppress_key a b) \<longleftrightarrow> (\<exists>e\<in>set (wc_Suppress c). suppress_key (entry_from e) (entry_to e) = suppress_key a b)"
      by (simp add: suppress_map_def suppress_map_get)
    moreover have "suppress_key (entry_from e) (entry_to e) = suppress_key a b \<longleftrightarrow> entry_from e = a \<and> entry_to e = b"
      if "e \<in> set (wc_Suppress c)" for e
      using suppress_key_inj entry_from_no_arrow ok that \<open>\<not> contains a arrow\<close> by blast
    ultimately show ?thesis by blast
  qed
  have "is_suppressed ?m (ct_FromRef r) (ct_ToRef r) \<longleftrightarrow> (\<exists>e\<in>set (wc_Suppress c). entry_from e = ct_FromRef r \<and> entry_to e = ct_ToRef r
        \<or> entry_from e = ct_ToRef r \<and> entry_to e = ct_FromRef r)" if "r \<in> set rows" for r
    unfolding is_suppressed_def using that assms(2) by (simp add: key) blast
  moreover have "filterSuppressed rows [] = filter (\<lambda>r. \<not> is_suppressed [] (ct_FromRef r) (ct_ToRef r)) rows"
    by (simp add: filterSuppressed_def is_suppressed_def)
  ultimately show ?thesis unfolding cfg filterSuppressed_def using ok
    by (auto intro!: filter_cong simp: is_suppressed_def)
qed


section \<open>Members\<close>

lemma resolve_loop_each_r:
  "(\<forall>m\<in>set ms. trim_space (mb_Module m) \<noteq> []) \<Longrightarrow>
   resolve_loop env U c seen ms = each_r (resolve_member env U c) (dedup_by mb_Module seen ms)"
proof (induction ms arbitrary: seen)
  case (Cons m ms)
  then show ?case
    by (cases "resolve_member env U c m") (auto split: sum.splits)
qed simp

lemma resolve_loop_named: "resolve_loop env U c seen ms = Inr ms' \<Longrightarrow> \<forall>m\<in>set ms. trim_space (mb_Module m) \<noteq> []"
proof (induction ms arbitrary: seen ms')
  case (Cons m ms)
  then show ?case
    by (cases "resolve_member env U c m"; cases "resolve_loop env U c (mb_Module m # seen) ms")
       (auto split: if_splits)
qed simp

text \<open>A member that resolves keeps its module; it exists and declares that module, or it is marked missing.\<close>

lemma resolve_member_Inr:
  assumes "resolve_member env U c m = Inr m'"
  shows "mb_Module m' = mb_Module m \<and> member_dir env (wc_Root c) (mb_Dir m) = Inr (mb_Dir m')
    \<and> (if \<exists>e. we_stat env (mb_Dir m') = NotExist e then mb_Missing m'
       else mb_Missing m' = mb_Missing m \<and> ReadModulePath env (mb_Dir m') = Inr (mb_Module m'))"
  using assms by (auto simp: resolve_member_def split: sum.splits stat_result.splits if_splits)

lemma path_abs_abs: "path_abs cwd p = Inr q \<Longrightarrow> (\<And>d. cwd = Inr d \<Longrightarrow> path_is_abs d) \<Longrightarrow> path_is_abs q"
proof -
  assume p: "path_abs cwd p = Inr q" and cwd: "\<And>d. cwd = Inr d \<Longrightarrow> path_is_abs d"
  have clean: "path_is_abs (path_clean x)" if "path_is_abs x" for x
    using that by (simp add: path_is_abs_def path_clean_def Let_def has_prefix_def)
  have join: "path_is_abs (path_join d p)" if d: "path_is_abs d" for d
  proof -
    from d obtain t where "d = CHR ''/'' # t" by (cases d) (auto simp: path_is_abs_def has_prefix_def)
    then show ?thesis by (auto simp: path_join_def intro!: clean) (simp_all add: path_is_abs_def has_prefix_def)
  qed
  show ?thesis
    using p clean join cwd by (cases cwd) (auto simp: path_abs_def split: if_splits)
qed

text \<open>
  C38: a resolved workspace has the modules of its file, each once and in order of first mention. The directory of each is the absolute
  form of the one in the file: joined with the root of the workspace unless it is absolute, its symbolic links resolved when that
  succeeds, and made absolute against the working directory, which the system reports as an absolute path. A member whose directory exists declares its module in its own
  \<^verbatim>\<open>go.mod\<close>, any other is marked missing.
\<close>

theorem resolve_config_members:
  assumes "resolve_config env U c = Inr c'" and "\<And>d. we_cwd env = Inr d \<Longrightarrow> path_is_abs d"
  shows "map mb_Module (wc_Members c') = map mb_Module (dedup_by mb_Module [] (wc_Members c))
    \<and> distinct (map mb_Module (wc_Members c'))
    \<and> set (map mb_Module (wc_Members c')) = mb_Module ` set (wc_Members c)
    \<and> list_all2 (\<lambda>m m'. let dir = (if path_is_abs (mb_Dir m) then mb_Dir m else path_join (wc_Root c) (mb_Dir m)) in
         path_abs (we_cwd env) (case we_evalSymlinks env dir of Inr r \<Rightarrow> r | Inl _ \<Rightarrow> dir) = Inr (mb_Dir m')
         \<and> path_is_abs (mb_Dir m')) (dedup_by mb_Module [] (wc_Members c)) (wc_Members c')
    \<and> (\<forall>m\<in>set (wc_Members c'). (\<exists>e. we_stat env (mb_Dir m) = NotExist e) \<and> mb_Missing m
         \<or> (\<nexists>e. we_stat env (mb_Dir m) = NotExist e) \<and> ReadModulePath env (mb_Dir m) = Inr (mb_Module m))"
proof -
  obtain ms where ms: "resolve_loop env U c [] (wc_Members c) = Inr ms" "wc_Members c' = ms"
    using assms(1) by (cases "resolve_loop env U c [] (wc_Members c)") (auto simp: resolve_config_def)
  have "each_r (resolve_member env U c) (dedup_by mb_Module [] (wc_Members c)) = Inr ms"
    using ms(1) resolve_loop_named resolve_loop_each_r by metis
  then have each: "list_all2 (\<lambda>m m'. resolve_member env U c m = Inr m') (dedup_by mb_Module [] (wc_Members c)) ms"
    by (simp add: each_r_Inr)
  then have mods: "map mb_Module ms = map mb_Module (dedup_by mb_Module [] (wc_Members c))"
    by (induction rule: list_all2_induct) (auto dest: resolve_member_Inr)
  have dirs: "list_all2 (\<lambda>m m'. let dir = (if path_is_abs (mb_Dir m) then mb_Dir m else path_join (wc_Root c) (mb_Dir m)) in
         path_abs (we_cwd env) (case we_evalSymlinks env dir of Inr r \<Rightarrow> r | Inl _ \<Rightarrow> dir) = Inr (mb_Dir m')
         \<and> path_is_abs (mb_Dir m')) (dedup_by mb_Module [] (wc_Members c)) ms"
    using each
  proof (rule list_all2_mono)
    fix m m' assume "resolve_member env U c m = Inr m'"
    then have "member_dir env (wc_Root c) (mb_Dir m) = Inr (mb_Dir m')" by (simp add: resolve_member_Inr)
    then show "let dir = (if path_is_abs (mb_Dir m) then mb_Dir m else path_join (wc_Root c) (mb_Dir m)) in
         path_abs (we_cwd env) (case we_evalSymlinks env dir of Inr r \<Rightarrow> r | Inl _ \<Rightarrow> dir) = Inr (mb_Dir m')
         \<and> path_is_abs (mb_Dir m')"
      using path_abs_abs [OF _ assms(2)] unfolding member_dir_def Let_def by blast
  qed
  have "\<forall>m'\<in>set ms. \<exists>m. resolve_member env U c m = Inr m'"
    using each by (induction rule: list_all2_induct) auto
  then have "\<forall>m\<in>set ms. (\<exists>e. we_stat env (mb_Dir m) = NotExist e) \<and> mb_Missing m
         \<or> (\<nexists>e. we_stat env (mb_Dir m) = NotExist e) \<and> ReadModulePath env (mb_Dir m) = Inr (mb_Module m)"
    using resolve_member_Inr by (metis (no_types, lifting))
  moreover have "distinct (map mb_Module ms)" unfolding mods by (rule dedup_by_distinct)
  moreover have "set (map mb_Module ms) = mb_Module ` set (wc_Members c)" unfolding mods using dedup_by_keys [of mb_Module "[]"] by simp
  ultimately show ?thesis using ms(2) mods dirs by simp
qed

text \<open>
  A quoted module path followed by a comment keeps its closing quote: the quotes are trimmed at the ends of the line,
  before the comment is cut off.
\<close>

lemma module_line_quoted_comment:
  "module_line [''module '' @ [CHR 0x22] @ ''m'' @ [CHR 0x22] @ '' // c''] = Inr (''m'' @ [CHR 0x22])"
  by (simp add: go_str_simps trim_char_def)

section \<open>Summaries\<close>

text \<open>
  the counts of a summary are not a function of the index: a symbol of a module nested in another is counted for
  whichever of the two the map iteration meets first.
\<close>

theorem buildSummaries_order_dependent:
  "map ix_Symbols (buildSummaries (\<lambda>_. [''m'', ''m/sub'']) \<lparr>wc_Root = [], wc_Path = [],
       wc_Members = [\<lparr>mb_Module = ''m'', mb_Dir = [], mb_DiscoveryRoot = [], mb_Missing = False\<rparr>,
                     \<lparr>mb_Module = ''m/sub'', mb_Dir = [], mb_DiscoveryRoot = [], mb_Missing = False\<rparr>],
       wc_Suppress = [], wc_Extractors = []\<rparr> [] [''m/sub.F''] []) = [1, 0]
   \<and> map ix_Symbols (buildSummaries (\<lambda>_. [''m/sub'', ''m'']) \<lparr>wc_Root = [], wc_Path = [],
       wc_Members = [\<lparr>mb_Module = ''m'', mb_Dir = [], mb_DiscoveryRoot = [], mb_Missing = False\<rparr>,
                     \<lparr>mb_Module = ''m/sub'', mb_Dir = [], mb_DiscoveryRoot = [], mb_Missing = False\<rparr>],
       wc_Suppress = [], wc_Extractors = []\<rparr> [] [''m/sub.F''] []) = [0, 1]"
  by (simp add: buildSummaries_def count_ref_def module_owns_def gm_put_def gm_get_def by_key_def Let_def less_char_def)

section \<open>Reindexing\<close>

lemma and_then_ok: "f st = (Inr u, st') \<Longrightarrow> and_then f g st = g st'"
  by (simp add: and_then_def)

text \<open>
  reindexing one repository records an empty repository as degraded churn, which a full index of the workspace
  does not: the failure is passed on without the exception for repositories that have no commits.
\<close>

theorem ReindexRepo_empty_repo_degraded:
  fixes ops :: "('p, 'r, string) index_ops"
  assumes "GitFileChurn G dir headRef = Inl ErrNoCommits"
    and "io_parse ops [(dir, m)] = Inr parsed"
    and "io_Replace ops (io_resolve ops parsed) (io_contents ops parsed) [] m st = (Inr (), st1)"
    and "io_SetRepoIndexedAt ops m st1 = (Inr (), st2)"
    and "io_SetChurnDegraded ops = (\<lambda>reason st. (Inr (), reason))"
  shows "snd (ReindexRepo ops G (Inr st) m dir) = Some ''git churn unavailable: no commits in repository''
    \<and> mergedChurn G [\<lparr>mb_Module = m, mb_Dir = dir, mb_DiscoveryRoot = [], mb_Missing = False\<rparr>] = ([], None) \<and> churnReason None = []"
  using assms
  by (simp add: ReindexRepo_def and_then_def failing_as_def churnReason_def churn_error_def mergedChurn_def churn_of_member_def Let_def)

text \<open>
  a member that fails does not keep another from being refreshed: when the operations on one module leave the
  staleness of the others alone, every present, stale member whose reindexing succeeds is in the result.
\<close>

theorem ReindexStale_progress:
  assumes "so_ListRepos ops st = Inr repos" and "distinct (map rs_ModulePath repos)"
    and "\<forall>m m' s. m \<noteq> m' \<longrightarrow> so_IsStale ops m' (snd (so_SetMissing ops m s)) = so_IsStale ops m' s"
    and "\<forall>m m' d s. m \<noteq> m' \<longrightarrow> so_IsStale ops m' (snd (so_Reindex ops m d s)) = so_IsStale ops m' s"
    and "r \<in> set repos" and "\<not> rs_Missing r" and "\<not> so_DirGone ops (rs_Dir r)"
    and "so_IsStale ops (rs_ModulePath r) st = Inr True"
    and "\<forall>s. fst (so_Reindex ops (rs_ModulePath r) (rs_Dir r) s) = Inr ()"
  shows "\<exists>refreshed err st'. ReindexStale ops st = (Inr (refreshed, err), st') \<and> rs_ModulePath r \<in> set refreshed"
proof -
  have "\<exists>refreshed errs st'. stale_loop ops repos st = ((refreshed, errs), st') \<and> rs_ModulePath r \<in> set refreshed"
    using assms(2,5,8)
  proof (induction repos arbitrary: st)
    case (Cons x xs)
    show ?case
    proof (cases "x = r")
      case True
      obtain st' where "so_Reindex ops (rs_ModulePath r) (rs_Dir r) st = (Inr (), st')"
        using assms(9) by (metis prod.collapse)
      then show ?thesis using True Cons.prems assms(6,7) by (auto split: prod.splits)
    next
      case False
      then have r: "r \<in> set xs" using Cons.prems by simp
      then have ne: "rs_ModulePath x \<noteq> rs_ModulePath r" using Cons.prems(1) by (metis distinct.simps(2) image_eqI list.set_map list.simps(9))
      note IH = Cons.IH [OF _ r]
      have same: "\<exists>refreshed errs st''. stale_loop ops xs st' = ((refreshed, errs), st'') \<and> rs_ModulePath r \<in> set refreshed"
        if "so_IsStale ops (rs_ModulePath r) st' = Inr True" for st'
        using IH [of st'] that Cons.prems(1) by simp
      have missing: "so_IsStale ops (rs_ModulePath r) (snd (so_SetMissing ops (rs_ModulePath x) st)) = Inr True"
        using assms(3) ne Cons.prems(3) by simp
      have reindexed: "so_IsStale ops (rs_ModulePath r) (snd (so_Reindex ops (rs_ModulePath x) (rs_Dir x) st)) = Inr True"
        using assms(4) ne Cons.prems(3) by simp
      show ?thesis
        using same [OF Cons.prems(3)] same [OF missing] same [OF reindexed]
        by (auto split: sum.splits prod.splits bool.splits)
    qed
  qed simp
  then show ?thesis using assms(1) by (auto simp: ReindexStale_def)
qed

section \<open>Instances\<close>

definition demo_member :: "string \<Rightarrow> member" where
  "demo_member m = \<lparr>mb_Module = m, mb_Dir = ''/w'', mb_DiscoveryRoot = [], mb_Missing = False\<rparr>"

definition demo_ws :: "string list \<Rightarrow> string list \<Rightarrow> ws_config" where
  "demo_ws modules supr = \<lparr>wc_Root = ''/'', wc_Path = ''/c'', wc_Members = map demo_member modules, wc_Suppress = supr, wc_Extractors = []\<rparr>"

definition demo_ws_env :: ws_env where
  "demo_ws_env = \<lparr>we_stat = (\<lambda>_. Exists True), we_readFile = (\<lambda>_. Inr ''module m''), we_readDir = (\<lambda>_. Inr []),
     we_evalSymlinks = Inr, we_cwd = Inr ''/'', we_yaml = (\<lambda>_. Inr), we_compile = (\<lambda>_. None)\<rparr>"

definition demo_git :: git_env where
  "demo_git = \<lparr>ge_lookPath = None,
     ge_run = (\<lambda>_ args. \<lparr>go_stdout = [], go_stderr = ''does not have any commits yet'',
       go_err = (if args = [''rev-parse'', ''--git-dir''] then None else Some ''exit'')\<rparr>), ge_cwd = Inr ''/''\<rparr>"

theorem resolve_config_members_witness:
  "\<exists>c'. resolve_config demo_ws_env ascii_tables (demo_ws [''m'', ''m''] []) = Inr c' \<and> map mb_Module (wc_Members c') = [''m'']
     \<and> path_is_abs (mb_Dir (wc_Members c' ! 0))"
proof -
  have run: "resolve_config demo_ws_env ascii_tables (demo_ws [''m'', ''m''] []) = Inr ((demo_ws [] [])\<lparr>wc_Members := [demo_member ''m'']\<rparr>)"
    by (simp add: resolve_config_def demo_ws_def demo_member_def demo_ws_env_def resolve_member_def member_dir_def path_is_abs_def
        path_abs_def path_clean_def ReadModulePath_def trim_char_def go_str_simps)
  have "path_is_abs d" if "we_cwd demo_ws_env = Inr d" for d
    using that by (auto simp: demo_ws_env_def path_is_abs_def has_prefix_def)
  from resolve_config_members [OF run this]
  have "list_all2 (\<lambda>m m'. path_is_abs (mb_Dir m')) (dedup_by mb_Module [] (wc_Members (demo_ws [''m'', ''m''] []))) [demo_member ''m'']"
    by (auto simp: Let_def elim!: list_all2_mono)
  then have "path_is_abs (mb_Dir (demo_member ''m''))" by (auto simp: list_all2_Cons2)
  with run show ?thesis by (simp add: demo_ws_def demo_member_def)
qed

definition demo_row :: contract_row where
  "demo_row = \<lparr>ct_FromRef = ''b'', ct_ToRef = ''a'', ct_Direction = Shared, ct_Severity = Unknown, ct_Evidence = [],
     ct_IndexedAt = [], ct_Confidence = 0, ct_Suggested = False\<rparr>"

theorem ContractConfig_suppresses_witness:
  "\<exists>cfg warns. ContractConfig demo_ws_env demo_regexps ascii_tables (demo_ws [''m''] [''a '' @ arrow @ '' b'']) = Inr (cfg, warns)
     \<and> filterSuppressed [demo_row] (cfg_Suppress cfg) = []"
proof -
  let ?c = "demo_ws [''m''] [''a '' @ arrow @ '' b'']"
  have e: "entry_ok (''a '' @ arrow @ '' b'')" "entry_from (''a '' @ arrow @ '' b'') = ''a''" "entry_to (''a '' @ arrow @ '' b'') = ''b''"
    by (simp_all add: entry_ok_def entry_from_def entry_to_def arrow_bytes go_str_simps)
  then have "ContractSuppressionPairs ascii_tables ?c = Inr [(''a'', ''b'')]"
    by (simp add: ContractSuppressionPairs_iff) (simp add: demo_ws_def)
  then obtain cfg where run: "ContractConfig demo_ws_env demo_regexps ascii_tables ?c = Inr (cfg, [])"
    by (simp add: ContractConfig_def Let_def demo_ws_def)
  have "\<forall>r\<in>set [demo_row]. \<not> contains (ct_FromRef r) arrow \<and> \<not> contains (ct_ToRef r) arrow"
    by (simp add: demo_row_def arrow_bytes go_str_simps)
  from ContractConfig_suppresses [OF run this] run e show ?thesis
    by (auto simp: demo_ws_def demo_row_def)
qed

definition demo_ops :: "(unit, unit, string) index_ops" where
  "demo_ops = \<lparr>io_parse = (\<lambda>_. Inr ()), io_join = (\<lambda>_ _. ()), io_none = (), io_fallback = (\<lambda>_. False), io_contents = (\<lambda>_. []),
     io_resolve = (\<lambda>_. ()), io_pkgModules = (\<lambda>_. []), io_symbols = (\<lambda>_. []), io_edgeRefs = (\<lambda>_. []),
     io_Write = (\<lambda>_ _ _ _ st. (Inr (), st)), io_Replace = (\<lambda>_ _ _ _ st. (Inr (), st)), io_SetIndexedVia = (\<lambda>_ st. (Inr (), st)),
     io_SetRepoIndexedAt = (\<lambda>_ st. (Inr (), st)), io_Fingerprint = (\<lambda>_ _ _ st. st),
     io_SetChurnDegraded = (\<lambda>reason st. (Inr (), reason)), io_SetRepoMissing = (\<lambda>_ st. (Inr (), st))\<rparr>"

theorem ReindexRepo_empty_repo_degraded_witness:
  "snd (ReindexRepo demo_ops demo_git (Inr []) ''m'' ''/w'') = Some ''git churn unavailable: no commits in repository''
    \<and> mergedChurn demo_git [demo_member ''m''] = ([], None)"
proof -
  let ?msg = "''does not have any commits yet''"
  have told: "isNoCommitsErr (''git '' @ a @ '': '' @ ?msg @ '': exit'')" for a
    unfolding isNoCommitsErr_def contains_iff by (metis append.assoc)
  have trim: "trim_space ?msg = ?msg" by (simp add: go_str_simps)
  have runs: "runGitNUL demo_git ''/w'' as = Inl (''git '' @ str_join '' '' as @ '': '' @ ?msg @ '': exit'')"
    if "as \<noteq> [''rev-parse'', ''--git-dir'']" for as
    using that trim unfolding runGitNUL_def runGit_def ensureGitAvailable_def demo_git_def by simp
  have "GitFileChurn demo_git ''/w'' headRef = Inl ErrNoCommits"
    unfolding GitFileChurn_def
    by (subst runs, simp, simp only: sum.case told) (simp add: IsGitRepo_def demo_git_def path_abs_def path_is_abs_def has_prefix_def)
  moreover have "io_SetChurnDegraded demo_ops = (\<lambda>reason st. (Inr (), reason))" by (simp add: demo_ops_def)
  moreover have "io_parse demo_ops [(''/w'', ''m'')] = Inr ()"
    "io_Replace demo_ops (io_resolve demo_ops ()) (io_contents demo_ops ()) [] ''m'' [] = (Inr (), [])"
    "io_SetRepoIndexedAt demo_ops ''m'' [] = (Inr (), [])"
    by (simp_all add: demo_ops_def)
  ultimately show ?thesis
    using ReindexRepo_empty_repo_degraded [of demo_git "''/w''" demo_ops "''m''" "()" "[]" "[]" "[]"] by (simp add: demo_member_def)
qed

text \<open>A store that is the list of its stale modules.\<close>

definition demo_stale :: "string list stale_ops" where
  "demo_stale = \<lparr>so_ListRepos = (\<lambda>_. Inr [\<lparr>rs_ModulePath = ''a'', rs_Dir = ''/a'', rs_Missing = False\<rparr>,
       \<lparr>rs_ModulePath = ''b'', rs_Dir = ''/b'', rs_Missing = False\<rparr>]),
     so_DirGone = (\<lambda>_. False), so_SetMissing = (\<lambda>_ st. (Inr (), st)), so_IsStale = (\<lambda>m st. Inr (m \<in> set st)),
     so_Reindex = (\<lambda>m _ st. (if m = ''a'' then Inl ''parse'' else Inr (), if m = ''a'' then st else filter (\<lambda>x. x \<noteq> m) st))\<rparr>"

theorem ReindexStale_progress_witness:
  "\<exists>refreshed err st'. ReindexStale demo_stale [''a'', ''b''] = (Inr (refreshed, err), st') \<and> ''b'' \<in> set refreshed"
  using ReindexStale_progress [of demo_stale "[''a'', ''b'']" "[\<lparr>rs_ModulePath = ''a'', rs_Dir = ''/a'', rs_Missing = False\<rparr>,
       \<lparr>rs_ModulePath = ''b'', rs_Dir = ''/b'', rs_Missing = False\<rparr>]" "\<lparr>rs_ModulePath = ''b'', rs_Dir = ''/b'', rs_Missing = False\<rparr>"]
  by (simp add: demo_stale_def)

end
