(* ===== verification/Spans.thy ===== *)
theory Spans
  imports Dead GoFmt
begin

text \<open>
  Declarations in source files: locating the span of an indexed symbol, its text with context lines, and the symbol
  around a position or behind a name (\<^verbatim>\<open>query/query.go\<close>, \<^verbatim>\<open>query/enclosing.go\<close>, \<^verbatim>\<open>query/declaration.go\<close>).
  Package \<^verbatim>\<open>go/parser\<close> is an argument: what it makes of a file is a \<open>parsed\<close>, the part of \<^verbatim>\<open>go/ast\<close> the code reads,
  with the offset and the line of each position.
\<close>

section \<open>Syntax trees\<close>

text \<open>\<^verbatim>\<open>ast.Expr\<close> as a receiver type.\<close>

datatype recv_expr = Ident string | StarExpr recv_expr | IndexExpr recv_expr | IndexListExpr recv_expr | OtherExpr

datatype tok = TokType | TokVar | TokConst | TokImport

record func_decl =
  fd_Name :: "string option"
  fd_Recv :: "recv_expr list option"
  fd_Doc :: "nat option"
  fd_Pos :: nat
  fd_End :: nat
  fd_Line :: int
  fd_NamePos :: nat

record type_spec =
  tsp_Name :: "string option"
  tsp_Doc :: "nat option"
  tsp_Line :: int
  tsp_Pos :: nat
  tsp_End :: nat
  tsp_NamePos :: nat

record value_spec =
  vs_Names :: "(string \<times> nat) option list"
  vs_Line :: int
  vs_Pos :: nat
  vs_End :: nat

datatype spec = TypeSpec type_spec | ValueSpec value_spec | ImportSpec

record gen_decl =
  gd_Tok :: tok
  gd_Grouped :: bool
  gd_Specs :: "spec list"
  gd_Doc :: "nat option"
  gd_Pos :: nat
  gd_End :: nat

datatype decl = FuncDecl func_decl | GenDecl gen_decl | BadDecl

text \<open>The tree of all nodes, for the position lookup: extent, and name and line where the node declares something.\<close>

datatype node = Node (nd_Pos: nat) (nd_End: nat) (nd_Declares: "(string \<times> int) option") (nd_Children: "node list")

record parsed =
  pf_Decls :: "decl list"
  pf_Tree :: node

record source_env =
  se_readFile :: "string \<Rightarrow> string result"
  se_parse :: "string \<Rightarrow> string \<Rightarrow> parsed result"
  se_evalSymlinks :: "string \<Rightarrow> string result"
  se_cwd :: "string result"

section \<open>Matching declarations\<close>

record span_match =
  sm_node :: decl
  sm_startOff :: nat
  sm_endOff :: nat
  sm_docStartOff :: "nat option"
  sm_groupMembers :: nat
  sm_partOfGroup :: bool

definition kindFunction :: string where "kindFunction = ''function''"
definition kindMethod :: string where "kindMethod = ''method''"

fun astReceiverName :: "recv_expr \<Rightarrow> string" where
  "astReceiverName (Ident n) = n"
| "astReceiverName (StarExpr x) = astReceiverName x"
| "astReceiverName (IndexExpr x) = astReceiverName x"
| "astReceiverName (IndexListExpr x) = astReceiverName x"
| "astReceiverName OtherExpr = []"

definition matchFuncDecl :: "func_decl \<Rightarrow> int \<Rightarrow> string \<Rightarrow> string \<Rightarrow> string \<Rightarrow> span_match option" where
  "matchFuncDecl d posLine receiver name kind =
     (let isMethod = fd_Recv d \<noteq> None;
          astRecv = (case fd_Recv d of Some (r # _) \<Rightarrow> astReceiverName r | _ \<Rightarrow> [])
      in if kind \<noteq> kindFunction \<and> kind \<noteq> kindMethod \<and> kind \<noteq> [] then None
         else if fd_Name d \<noteq> Some name then None
         else if posLine \<noteq> 0 \<and> fd_Line d \<noteq> posLine then None
         else if kind = kindFunction \<and> isMethod then None
         else if kind = kindMethod \<and> \<not> isMethod then None
         else if kind = kindMethod \<and> receiver \<noteq> [] \<and> astRecv \<noteq> receiverBaseName receiver then None
         else Some \<lparr>sm_node = FuncDecl d, sm_startOff = fd_Pos d, sm_endOff = fd_End d, sm_docStartOff = fd_Doc d, sm_groupMembers = 0,
                    sm_partOfGroup = False\<rparr>)"

definition declRange :: "gen_decl \<Rightarrow> nat \<times> nat" where
  "declRange gd = (gd_Pos gd, gd_End gd)"

definition typeDocOffset :: "gen_decl \<Rightarrow> type_spec \<Rightarrow> nat option" where
  "typeDocOffset gd s = (case tsp_Doc s of Some d \<Rightarrow> Some d | None \<Rightarrow> gd_Doc gd)"

definition matchTypeSpec :: "type_spec \<Rightarrow> gen_decl \<Rightarrow> int \<Rightarrow> string \<Rightarrow> bool \<Rightarrow> span_match option" where
  "matchTypeSpec s d posLine name grouped =
     (if tsp_Name s \<noteq> Some name \<or> (posLine \<noteq> 0 \<and> tsp_Line s \<noteq> posLine) then None
      else Some \<lparr>sm_node = GenDecl d, sm_startOff = fst (declRange d), sm_endOff = snd (declRange d), sm_docStartOff = typeDocOffset d s,
                 sm_groupMembers = length (gd_Specs d), sm_partOfGroup = grouped\<rparr>)"

definition matchValueSpec :: "value_spec \<Rightarrow> gen_decl \<Rightarrow> int \<Rightarrow> string \<Rightarrow> bool \<Rightarrow> span_match option" where
  "matchValueSpec s d posLine name grouped =
     (if vs_Names s = [] \<or> (posLine \<noteq> 0 \<and> vs_Line s \<noteq> posLine) then None
      else if \<not> list_ex (\<lambda>n. case n of Some (nm, _) \<Rightarrow> nm = name | None \<Rightarrow> False) (vs_Names s) then None
      else Some \<lparr>sm_node = GenDecl d, sm_startOff = fst (declRange d), sm_endOff = snd (declRange d), sm_docStartOff = gd_Doc d,
                 sm_groupMembers = length (gd_Specs d), sm_partOfGroup = grouped\<rparr>)"

definition genDeclTokForKind :: "string \<Rightarrow> tok option" where
  "genDeclTokForKind kind =
     (if kind = ''type'' \<or> kind = ''interface'' \<or> kind = ''struct'' then Some TokType
      else if kind = ''var'' then Some TokVar
      else if kind = ''const'' then Some TokConst
      else None)"

text \<open>The first element for which a match succeeds.\<close>

fun first_some :: "('a \<Rightarrow> 'b option) \<Rightarrow> 'a list \<Rightarrow> 'b option" where
  "first_some f [] = None"
| "first_some f (x # xs) = (case f x of Some y \<Rightarrow> Some y | None \<Rightarrow> first_some f xs)"

definition matchGenDecl :: "gen_decl \<Rightarrow> int \<Rightarrow> string \<Rightarrow> string \<Rightarrow> span_match option" where
  "matchGenDecl d posLine name kind =
     (if genDeclTokForKind kind \<noteq> Some (gd_Tok d) then None
      else first_some (\<lambda>spec. case spec of
             TypeSpec s \<Rightarrow> matchTypeSpec s d posLine name (gd_Grouped d)
           | ValueSpec s \<Rightarrow> matchValueSpec s d posLine name (gd_Grouped d)
           | ImportSpec \<Rightarrow> None) (gd_Specs d))"

definition matchAtLine :: "decl list \<Rightarrow> string \<Rightarrow> string \<Rightarrow> string \<Rightarrow> int \<Rightarrow> span_match option" where
  "matchAtLine decls receiver name kind line =
     first_some (\<lambda>d. case d of
         FuncDecl f \<Rightarrow> matchFuncDecl f line receiver name kind
       | GenDecl g \<Rightarrow> matchGenDecl g line name kind
       | BadDecl \<Rightarrow> None) decls"

record decl_span =
  dsp_data :: string
  dsp_match :: span_match
  dsp_stale :: bool

definition symbolSpan :: "source_env \<Rightarrow> string \<Rightarrow> int \<Rightarrow> string \<Rightarrow> string \<Rightarrow> string \<Rightarrow> decl_span result" where
  "symbolSpan env filePath posLine receiver name kind =
     (case se_readFile env filePath of
        Inl e \<Rightarrow> Inl (''read source file '' @ filePath @ '': '' @ e)
      | Inr contents \<Rightarrow>
          (case se_parse env filePath contents of
             Inl e \<Rightarrow> Inl (''parse source file '' @ filePath @ '': '' @ e)
           | Inr f \<Rightarrow>
               (case matchAtLine (pf_Decls f) receiver name kind posLine of
                  Some m \<Rightarrow> Inr \<lparr>dsp_data = contents, dsp_match = m, dsp_stale = False\<rparr>
                | None \<Rightarrow>
                    (case (if posLine \<noteq> 0 then matchAtLine (pf_Decls f) receiver name kind 0 else None) of
                       Some m \<Rightarrow> Inr \<lparr>dsp_data = contents, dsp_match = m, dsp_stale = True\<rparr>
                     | None \<Rightarrow> Inl (''declaration not found: '' @ name @ '' (kind='' @ kind @ '') at line '' @ itoa posLine
                         @ '' in '' @ filePath)))))"

section \<open>Lines\<close>

text \<open>\<open>line_starts k s\<close>: the offsets after the newlines of \<open>s\<close>, which starts at offset \<open>k\<close>.\<close>

fun line_starts :: "nat \<Rightarrow> string \<Rightarrow> nat list" where
  "line_starts k [] = []"
| "line_starts k (c # s) = (if c = nl then Suc k # line_starts (Suc k) s else line_starts (Suc k) s)"

definition computeLineOffsets :: "string \<Rightarrow> nat list" where
  "computeLineOffsets s = 0 # line_starts 0 s"

function line_search :: "nat list \<Rightarrow> nat \<Rightarrow> nat \<Rightarrow> nat \<Rightarrow> nat" where
  "line_search offsets off lo hi =
     (if lo < hi then
        (let mid = (lo + hi + 1) div 2 in
           if offsets ! mid \<le> off then line_search offsets off mid hi else line_search offsets off lo (mid - 1))
      else lo)"
  by pat_completeness auto
termination
  by (relation "measure (\<lambda>(_, _, lo, hi). hi - lo)") auto

declare line_search.simps [simp del]

definition offsetToLine :: "nat list \<Rightarrow> nat \<Rightarrow> nat" where
  "offsetToLine offsets off = line_search offsets off 0 (length offsets - 1) + 1"

definition slice :: "string \<Rightarrow> nat \<Rightarrow> nat \<Rightarrow> string" where
  "slice s a b = take (b - a) (drop a s)"

text \<open>Lines count from one; \<open>None\<close> would be an index panic, when the first line is past the end.\<close>

definition sliceLines :: "string \<Rightarrow> nat list \<Rightarrow> int \<Rightarrow> int \<Rightarrow> string option" where
  "sliceLines contents offsets startLine0 endLine0 =
     (let startLine = max 1 startLine0 in
        if endLine0 < startLine then Some []
        else
          let endLine = min endLine0 (int (length offsets)) in
            if int (length offsets) < startLine then None
            else
              let start = offsets ! nat (startLine - 1) in
                if int (length offsets) \<le> endLine then Some (drop start contents)
                else
                  let fin = offsets ! nat endLine;
                      fin = (if 0 < fin \<and> contents ! (fin - 1) = nl then fin - 1 else fin)
                  in Some (slice contents start fin))"

record symbol_body =
  sb_QualifiedName :: string
  sb_Kind :: string
  sb_PosFile :: string
  sb_Body :: string
  sb_ContextBefore :: string
  sb_ContextAfter :: string
  sb_PosLine :: int
  sb_PosEndLine :: nat
  sb_GroupMembers :: nat
  sb_PartOfGroup :: bool

definition body_start :: "bool \<Rightarrow> span_match \<Rightarrow> nat" where
  "body_start includeDoc m = (case sm_docStartOff m of Some d \<Rightarrow> if includeDoc then d else sm_startOff m | None \<Rightarrow> sm_startOff m)"

text \<open>The context of a body: the lines before and after it, as the code cuts them.\<close>

definition body_context :: "string \<Rightarrow> nat list \<Rightarrow> int \<Rightarrow> int \<Rightarrow> int \<Rightarrow> (string \<times> string) option" where
  "body_context contents offsets posStartLine posEndLine contextLines =
     (if contextLines \<le> 0 then Some ([], [])
      else
        let startLineIdx = max (posStartLine - 1 - contextLines) 0; endLineIdx = posStartLine - 1;
            before = (if 0 \<le> endLineIdx \<and> startLineIdx \<le> endLineIdx
              then sliceLines contents offsets startLineIdx endLineIdx else Some []);
            afterStart = posEndLine; afterEnd = posEndLine - 1 + contextLines;
            after = (if afterStart < int (length offsets) \<and> afterEnd < int (length offsets)
              then sliceLines contents offsets afterStart afterEnd else Some [])
        in case (before, after) of (Some b, Some a) \<Rightarrow> Some (b, a) | _ \<Rightarrow> None)"

definition GetSymbolBody :: "store_db \<Rightarrow> unidata \<Rightarrow> source_env \<Rightarrow> string \<Rightarrow> int \<Rightarrow> bool \<Rightarrow> symbol_body result option" where
  "GetSymbolBody db U env qualifiedName contextLines includeDoc =
     (case SymbolByName db qualifiedName of
        Inl e \<Rightarrow> Some (Inl e)
      | Inr None \<Rightarrow> Some (Inl (symbolMissError db U qualifiedName))
      | Inr (Some sy) \<Rightarrow>
          (case symbolSpan env (sy_PosFile sy) (sy_PosLine sy) (sy_Receiver sy) (sy_Name sy) (sy_Kind sy) of
             Inl e \<Rightarrow> Some (Inl e)
           | Inr spn \<Rightarrow>
               (let m = dsp_match spn; bodyStart = body_start includeDoc m; offsets = computeLineOffsets (dsp_data spn);
                    posEndLine = offsetToLine offsets (sm_endOff m); posStartLine = offsetToLine offsets bodyStart
                in map_option (\<lambda>(before, after). Inr
                     \<lparr>sb_QualifiedName = sy_QualifiedName sy, sb_Kind = sy_Kind sy, sb_PosFile = sy_PosFile sy,
                      sb_Body = slice (dsp_data spn) bodyStart (sm_endOff m), sb_ContextBefore = before, sb_ContextAfter = after,
                      sb_PosLine = sy_PosLine sy, sb_PosEndLine = posEndLine, sb_GroupMembers = sm_groupMembers m,
                      sb_PartOfGroup = sm_partOfGroup m\<rparr>)
                   (body_context (dsp_data spn) offsets (int posStartLine) (int posEndLine) contextLines))))"

section \<open>The symbol around a position\<close>

text \<open>
  \<^verbatim>\<open>ast.Inspect\<close> with the callback of \<open>ancestorStack\<close>: the live stack, outermost first, and the deepest stack seen. A node that
  does not contain the position is not entered and not left.
\<close>

fun inspect :: "nat \<Rightarrow> node \<Rightarrow> node list \<times> node list \<Rightarrow> node list \<times> node list" where
  "inspect pos (Node p e d cs) (stack, deepest) =
     (if p \<le> pos \<and> pos < e then
        (let stack' = stack @ [Node p e d cs];
             deepest' = (if length deepest < length stack' then stack' else deepest);
             (stack'', deepest'') = fold (inspect pos) cs (stack', deepest')
         in (butlast stack'', deepest''))
      else (stack, deepest))"

definition ancestorStack :: "node \<Rightarrow> nat \<Rightarrow> node list" where
  "ancestorStack file pos = snd (inspect pos file ([], []))"

definition symbolAt :: "symbol list \<Rightarrow> string \<Rightarrow> symbol option" where
  "symbolAt syms name = find (\<lambda>sy. sy_Name sy = name) syms"

definition enclosing_at :: "(int, symbol list) gomap \<Rightarrow> node \<Rightarrow> symbol option" where
  "enclosing_at byLine n =
     (case nd_Declares n of None \<Rightarrow> None | Some (name, line) \<Rightarrow> symbolAt (gm_get [] byLine line) name)"

definition node_symbol :: "(int, symbol list) gomap \<Rightarrow> node list \<Rightarrow> symbol option" where
  "node_symbol byLine stack = first_some (enclosing_at byLine) (rev stack)"

definition symbolsByFile :: "store_db \<Rightarrow> (string, symbol list) gomap result" where
  "symbolsByFile db = map_sum id (\<lambda>syms. group_by sy_PosFile (\<lambda>sy. sy) syms []) (AllSymbols db True)"

text \<open>The line table of \<^verbatim>\<open>token.File\<close> has no line that starts at the end of the file.\<close>

definition token_lines :: "string \<Rightarrow> nat list" where
  "token_lines contents = 0 # filter (\<lambda>k. k < length contents) (line_starts 0 contents)"

definition lineColPos :: "string \<Rightarrow> string \<Rightarrow> int \<Rightarrow> int \<Rightarrow> nat result" where
  "lineColPos contents filePath line col =
     (let lns = token_lines contents; n = length lns in
        if line < 1 \<or> int n < line
        then Inl (''line '' @ itoa line @ '' is out of range: '' @ filePath @ '' has '' @ itoa (int n) @ '' lines'')
        else
          let start = lns ! nat (line - 1) in
            if col < 2 then Inr start
            else
              let fin = (if line < int n then lns ! nat line else length contents) in
                if start + nat (col - 1) < fin then Inr (start + nat (col - 1)) else Inr start)"

definition EnclosingSymbolAt :: "store_db \<Rightarrow> source_env \<Rightarrow> string \<Rightarrow> int \<Rightarrow> int \<Rightarrow> symbol option result" where
  "EnclosingSymbolAt db env filePath line col =
     (case se_readFile env filePath of
        Inl e \<Rightarrow> Inl (''read source file '' @ filePath @ '': '' @ e)
      | Inr contents \<Rightarrow>
          (case se_parse env filePath contents of
             Inl e \<Rightarrow> Inl (''parse source file '' @ filePath @ '': '' @ e)
           | Inr file \<Rightarrow>
               (case lineColPos contents filePath line col of
                  Inl e \<Rightarrow> Inl e
                | Inr pos \<Rightarrow>
                    (case symbolsByFile db of
                       Inl e \<Rightarrow> Inl e
                     | Inr symbols \<Rightarrow>
                         Inr (node_symbol (group_by sy_PosLine (\<lambda>sy. sy) (gm_get [] symbols filePath) [])
                                (ancestorStack (pf_Tree file) pos))))))"

section \<open>Finding declarations\<close>

record declared =
  dc_QualifiedName :: string
  dc_Kind :: string
  dc_File :: string
  dc_Receiver :: string
  dc_Line :: int

record declaration_result =
  dr_Symbol :: "declared option"
  dr_Mode :: string
  dr_Message :: string
  dr_Candidates :: "declared list"

definition declarationOf :: "symbol \<Rightarrow> declared" where
  "declarationOf sy = \<lparr>dc_QualifiedName = sy_QualifiedName sy, dc_Kind = sy_Kind sy, dc_File = sy_PosFile sy,
     dc_Receiver = sy_Receiver sy, dc_Line = sy_PosLine sy\<rparr>"

definition findDeclarationByPosition :: "store_db \<Rightarrow> source_env \<Rightarrow> string \<Rightarrow> int \<Rightarrow> int \<Rightarrow> declaration_result result" where
  "findDeclarationByPosition db env filePath line col =
     map_sum id (\<lambda>found. case found of
         None \<Rightarrow> \<lparr>dr_Symbol = None, dr_Mode = ''position'',
                  dr_Message = ''no indexed symbol contains '' @ filePath @ '':'' @ itoa line, dr_Candidates = []\<rparr>
       | Some sy \<Rightarrow> \<lparr>dr_Symbol = Some (declarationOf sy), dr_Mode = ''position'', dr_Message = [], dr_Candidates = []\<rparr>)
       (EnclosingSymbolAt db env filePath line col)"

definition shortRefName :: "string \<Rightarrow> string" where
  "shortRefName qualifiedName = (case str_cut_last qualifiedName ''.'' of (_, short, ok) \<Rightarrow> if ok then short else qualifiedName)"

definition referencedByName :: "store_db \<Rightarrow> string \<Rightarrow> string \<Rightarrow> symbol list result" where
  "referencedByName db qualifiedName name =
     map_sum id (\<lambda>edges. concat (map (\<lambda>e.
         if eg_EdgeType e \<notin> set liveEdgeTypes \<or> shortRefName (eg_ToRef e) \<noteq> name then []
         else case SymbolByName db (eg_ToRef e) of Inr (Some target) \<Rightarrow> [target] | _ \<Rightarrow> []) edges))
       (EdgesFrom db qualifiedName)"

definition symbolsInExactFile :: "store_db \<Rightarrow> string \<Rightarrow> symbol list result" where
  "symbolsInExactFile db filePath =
     map_sum id (filter (\<lambda>sy. sy_PosFile sy = filePath)) (SearchSymbolsByFile db filePath [] None True ''any'')"

definition occurrenceCandidates :: "store_db \<Rightarrow> string \<Rightarrow> string \<Rightarrow> declared list result" where
  "occurrenceCandidates db filePath name =
     (case symbolsInExactFile db filePath of
        Inl e \<Rightarrow> Inl e
      | Inr inFile \<Rightarrow>
          (case concat_r (\<lambda>sy. referencedByName db (sy_QualifiedName sy) name) inFile of
             Inl e \<Rightarrow> Inl e
           | Inr referenced \<Rightarrow>
               Inr (map declarationOf (dedup_by sy_QualifiedName [] (filter (\<lambda>sy. sy_Name sy = name) inFile @ referenced)))))"

definition findDeclarationByOccurrence :: "store_db \<Rightarrow> unidata \<Rightarrow> string \<Rightarrow> string \<Rightarrow> declaration_result result" where
  "findDeclarationByOccurrence db U filePath name =
     map_sum id (\<lambda>candidates.
         let base = \<lparr>dr_Symbol = None, dr_Mode = ''occurrence'', dr_Message = [], dr_Candidates = []\<rparr> in
           case candidates of
             [c] \<Rightarrow> base\<lparr>dr_Symbol := Some c\<rparr>
           | [] \<Rightarrow>
               (let suggestions = symbolCandidates db U name [] in
                  base\<lparr>dr_Message := ''could not resolve '' @ go_quote U name @ '' in '' @ filePath
                    @ (if suggestions = [] then [] else ''; nearest symbol names: '' @ str_join '', '' suggestions)\<rparr>)
           | _ \<Rightarrow> base\<lparr>dr_Candidates := candidates\<rparr>)
       (occurrenceCandidates db filePath name)"

fun indexed_path_loop :: "store_db \<Rightarrow> string list \<Rightarrow> string option result" where
  "indexed_path_loop db [] = Inr None"
| "indexed_path_loop db (c # cs) =
     (case db_files db (\<lambda>(p, _). p = c) of
        Inl e \<Rightarrow> Inl e
      | Inr [] \<Rightarrow> indexed_path_loop db cs
      | Inr _ \<Rightarrow> Inr (Some c))"

definition indexedFilePath :: "store_db \<Rightarrow> source_env \<Rightarrow> string \<Rightarrow> string result" where
  "indexedFilePath db env filePath =
     (let candidates = filePath # (case path_abs (se_cwd env) filePath of Inr a \<Rightarrow> if a \<noteq> filePath then [a] else [] | Inl _ \<Rightarrow> [])
      in case indexed_path_loop db candidates of
           Inl e \<Rightarrow> Inl e
         | Inr (Some p) \<Rightarrow> Inr p
         | Inr None \<Rightarrow> Inl (''file is not indexed: '' @ filePath))"

definition FindDeclaration :: "store_db \<Rightarrow> unidata \<Rightarrow> source_env \<Rightarrow> string \<Rightarrow> int \<Rightarrow> int \<Rightarrow> string \<Rightarrow> declaration_result result" where
  "FindDeclaration db U env filePath line col symbolName =
     (case indexedFilePath db env filePath of
        Inl e \<Rightarrow> Inl e
      | Inr indexed \<Rightarrow>
          if symbolName \<noteq> [] then findDeclarationByOccurrence db U indexed symbolName
          else findDeclarationByPosition db env indexed line col)"

end
