(* ===== verification/Write.thy ===== *)
theory Write
  imports Spans
begin

text \<open>
  Symbol edits (\<^verbatim>\<open>query/write.go\<close>): replace, insert before or after, delete. The file system is the map \<open>files_t\<close> from
  paths to contents (names are of regular files, permission bits are not modelled); which call fails, and how much a
  failing write leaves behind, is the record \<open>write_faults\<close>.
\<close>

section \<open>Text\<close>

definition splice :: "string \<Rightarrow> nat \<Rightarrow> nat \<Rightarrow> string \<Rightarrow> string" where
  "splice contents start fin txt = take start contents @ txt @ drop fin contents"

definition collapseJoin :: "string \<Rightarrow> nat \<Rightarrow> string" where
  "collapseJoin contents off =
     (if off = 0 \<or> length contents \<le> off then contents
      else if \<not> has_suffix (take off contents) [nl, nl] \<or> \<not> has_prefix (drop off contents) [nl] then contents
      else take off contents @ drop (off + 1) contents)"

definition trim_newlines :: "string \<Rightarrow> string" where
  "trim_newlines s = rev (dropWhile (\<lambda>c. c = nl) (rev (dropWhile (\<lambda>c. c = nl) s)))"

definition insertText :: "string \<Rightarrow> nat \<Rightarrow> string \<Rightarrow> string" where
  "insertText contents off txt =
     (let head = take off contents; rest = dropWhile (\<lambda>c. c = nl) (drop off contents)
      in head
         @ (if off = 0 then [] else if has_suffix head [nl, nl] then [] else if has_suffix head [nl] then [nl] else [nl, nl])
         @ trim_newlines txt @ [nl] @ (if rest \<noteq> [] then nl # rest else []))"

definition lineCount :: "string \<Rightarrow> nat" where
  "lineCount txt = (if txt = [] then 0 else length (filter (\<lambda>c. c = nl) (trim_suffix txt [nl])) + 1)"

definition parseWholeFile :: "source_env \<Rightarrow> string \<Rightarrow> string \<Rightarrow> string \<Rightarrow> unit result" where
  "parseWholeFile env contents path action =
     (case se_parse env path contents of Inl e \<Rightarrow> Inl (action @ '' would break the file: '' @ e) | Inr _ \<Rightarrow> Inr ())"

definition validateSnippet :: "source_env \<Rightarrow> string \<Rightarrow> unit result" where
  "validateSnippet env txt =
     (if trim_space txt = [] then Inl ''replacement text is empty''
      else case se_parse env ''snippet.go'' (''package snippet'' @ [nl] @ txt) of
        Inl e \<Rightarrow> Inl (''replacement text does not parse: '' @ e) | Inr _ \<Rightarrow> Inr ())"

definition spliceAndValidate :: "source_env \<Rightarrow> string \<Rightarrow> nat \<Rightarrow> nat \<Rightarrow> string \<Rightarrow> string result" where
  "spliceAndValidate env contents start fin txt =
     (case validateSnippet env txt of
        Inl e \<Rightarrow> Inl e
      | Inr _ \<Rightarrow>
          (let out = splice contents start fin txt in
             case parseWholeFile env out [] ''replacement'' of Inl e \<Rightarrow> Inl e | Inr _ \<Rightarrow> Inr out))"

section \<open>Replacing a file\<close>

type_synonym files_t = "string \<rightharpoonup> string"

record write_faults =
  wf_stat :: "string option"
  wf_createTemp :: "string result"
  wf_write :: "(string \<times> nat) option"
  wf_close :: "string option"
  wf_chmod :: "string option"
  wf_rename :: "string option"
  wf_remove :: bool

text \<open>\<^verbatim>\<open>os.CreateTemp\<close> returns a name that does not exist yet, in the directory of the target.\<close>

definition fail_cleanup :: "write_faults \<Rightarrow> string \<Rightarrow> string \<Rightarrow> files_t \<Rightarrow> unit result \<times> files_t" where
  "fail_cleanup F tmpPath e fs = (Inl e, if wf_remove F then fs else fs(tmpPath := None))"

definition writeFileAtomic :: "write_faults \<Rightarrow> string \<Rightarrow> string \<Rightarrow> files_t \<Rightarrow> unit result \<times> files_t" where
  "writeFileAtomic F path contents fs =
     (case wf_stat F of
        Some e \<Rightarrow> (Inl e, fs)
      | None \<Rightarrow>
          (case wf_createTemp F of
             Inl e \<Rightarrow> (Inl e, fs)
           | Inr tmpPath \<Rightarrow>
               (case wf_write F of
                  Some (e, n) \<Rightarrow> fail_cleanup F tmpPath e (fs(tmpPath \<mapsto> take n contents))
                | None \<Rightarrow>
                    (let fs = fs(tmpPath \<mapsto> contents) in
                       case wf_close F of
                         Some e \<Rightarrow> fail_cleanup F tmpPath e fs
                       | None \<Rightarrow>
                           (case wf_chmod F of
                              Some e \<Rightarrow> fail_cleanup F tmpPath e fs
                            | None \<Rightarrow>
                                (case wf_rename F of
                                   Some e \<Rightarrow> fail_cleanup F tmpPath e fs
                                 | None \<Rightarrow> (Inr (), (fs(path := fs tmpPath))(tmpPath := None))))))))"

section \<open>Refusals\<close>

record write_result =
  wr_Action :: string
  wr_QualifiedName :: string
  wr_File :: string
  wr_Kind :: string
  wr_StartLine :: nat
  wr_EndLine :: nat
  wr_NewLines :: nat
  wr_Unchanged :: bool
  wr_StaleIndex :: bool

definition newWriteResult :: "string \<Rightarrow> symbol \<Rightarrow> decl_span \<Rightarrow> nat \<Rightarrow> nat \<Rightarrow> write_result" where
  "newWriteResult action sy spn start fin =
     (let offsets = computeLineOffsets (dsp_data spn) in
        \<lparr>wr_Action = action, wr_QualifiedName = sy_QualifiedName sy, wr_File = sy_PosFile sy, wr_Kind = sy_Kind sy,
         wr_StartLine = offsetToLine offsets start, wr_EndLine = offsetToLine offsets fin, wr_NewLines = 0,
         wr_Unchanged = False, wr_StaleIndex = dsp_stale spn\<rparr>)"

definition groupRefusal :: "symbol \<Rightarrow> decl_span \<Rightarrow> string \<Rightarrow> string option" where
  "groupRefusal sy spn action =
     (if \<not> sm_partOfGroup (dsp_match spn) then None
      else Some (''refusing to '' @ action @ '' '' @ sy_QualifiedName sy @ '': its indexed span is the whole grouped '' @ sy_Kind sy
        @ '' declaration ('' @ itoa (int (sm_groupMembers (dsp_match spn)))
        @ '' members); use insert_before_symbol or insert_after_symbol instead''))"

definition liveReferences :: "store_db \<Rightarrow> string \<Rightarrow> edge list result" where
  "liveReferences db qualifiedName = map_sum id (filter (\<lambda>e. eg_EdgeType e \<in> set liveEdgeTypes)) (EdgesTo db qualifiedName)"

definition refsAreTestOnly :: "store_db \<Rightarrow> edge list \<Rightarrow> bool" where
  "refsAreTestOnly db refs =
     list_all (\<lambda>e. case SymbolByName db (eg_FromRef e) of Inr (Some sy) \<Rightarrow> sy_IsTest sy | _ \<Rightarrow> False) refs"

definition formatRefs :: "edge list \<Rightarrow> string" where
  "formatRefs refs = str_join '', '' (map (\<lambda>e. eg_FromRef e @ '' ('' @ eg_PosFile e @ '':'' @ itoa (eg_PosLine e) @ '')'') refs)"

definition deleteRefusal :: "store_db \<Rightarrow> symbol \<Rightarrow> bool \<Rightarrow> string option" where
  "deleteRefusal db sy allowTestOnly =
     (case liveReferences db (sy_QualifiedName sy) of
        Inl e \<Rightarrow> Some e
      | Inr refs \<Rightarrow>
          (let testOnly = refsAreTestOnly db refs in
             if refs = [] then None
             else if testOnly \<and> allowTestOnly then None
             else Some (''refusing to delete '' @ sy_QualifiedName sy @ '': '' @ itoa (int (length refs)) @ '' incoming reference(s): ''
               @ formatRefs refs
               @ (if testOnly then ''; all references are test-only, pass allow_test_only to override'' else []))))"

definition writeSpan :: "store_db \<Rightarrow> unidata \<Rightarrow> source_env \<Rightarrow> string \<Rightarrow> (symbol \<times> decl_span \<times> string) result" where
  "writeSpan db U env qualifiedName =
     (case SymbolByName db qualifiedName of
        Inl e \<Rightarrow> Inl e
      | Inr None \<Rightarrow> Inl (symbolMissError db U qualifiedName)
      | Inr (Some sy) \<Rightarrow>
          (case symbolSpan env (sy_PosFile sy) (sy_PosLine sy) (sy_Receiver sy) (sy_Name sy) (sy_Kind sy) of
             Inl e \<Rightarrow> Inl e
           | Inr spn \<Rightarrow>
               (case se_evalSymlinks env (sy_PosFile sy) of Inl e \<Rightarrow> Inl e | Inr path \<Rightarrow> Inr (sy, spn, path))))"

section \<open>The edits\<close>

text \<open>Writing the new contents, with the result to return when that succeeds.\<close>

definition commit :: "write_faults \<Rightarrow> string \<Rightarrow> string \<Rightarrow> write_result \<Rightarrow> files_t \<Rightarrow> write_result result \<times> files_t" where
  "commit F path contents r fs =
     (case writeFileAtomic F path contents fs of (Inl e, fs') \<Rightarrow> (Inl e, fs') | (Inr _, fs') \<Rightarrow> (Inr r, fs'))"

definition ReplaceSymbolBody :: "store_db \<Rightarrow> unidata \<Rightarrow> source_env \<Rightarrow> write_faults \<Rightarrow> string \<Rightarrow> string \<Rightarrow> bool \<Rightarrow> files_t
    \<Rightarrow> write_result result \<times> files_t" where
  "ReplaceSymbolBody db U env F qualifiedName body includeDoc fs =
     (case writeSpan db U env qualifiedName of
        Inl e \<Rightarrow> (Inl e, fs)
      | Inr (sy, spn, path) \<Rightarrow>
          (case groupRefusal sy spn ''replace'' of
             Some e \<Rightarrow> (Inl e, fs)
           | None \<Rightarrow>
               (let start = body_start includeDoc (dsp_match spn); fin = sm_endOff (dsp_match spn);
                    r = newWriteResult ''replace'' sy spn start fin
                in if slice (dsp_data spn) start fin = body
                   then (Inr (r\<lparr>wr_Unchanged := True, wr_NewLines := lineCount body\<rparr>), fs)
                   else case spliceAndValidate env (dsp_data spn) start fin body of
                     Inl e \<Rightarrow> (Inl e, fs)
                   | Inr newData \<Rightarrow> commit F path newData (r\<lparr>wr_NewLines := lineCount body\<rparr>) fs)))"

definition InsertSymbol :: "store_db \<Rightarrow> unidata \<Rightarrow> source_env \<Rightarrow> write_faults \<Rightarrow> string \<Rightarrow> string \<Rightarrow> bool \<Rightarrow> files_t
    \<Rightarrow> write_result result \<times> files_t" where
  "InsertSymbol db U env F qualifiedName txt after fs =
     (case writeSpan db U env qualifiedName of
        Inl e \<Rightarrow> (Inl e, fs)
      | Inr (sy, spn, path) \<Rightarrow>
          (case validateSnippet env txt of
             Inl e \<Rightarrow> (Inl e, fs)
           | Inr _ \<Rightarrow>
               (let off = (if after then sm_endOff (dsp_match spn) else body_start True (dsp_match spn));
                    newData = insertText (dsp_data spn) off txt
                in case parseWholeFile env newData path ''insert'' of
                     Inl e \<Rightarrow> (Inl e, fs)
                   | Inr _ \<Rightarrow>
                       commit F path newData
                         ((newWriteResult ''insert'' sy spn off off)\<lparr>wr_NewLines := lineCount (trim_newlines txt)\<rparr>) fs)))"

text \<open>The bytes a delete removes: the declaration with its doc comment and the newline after it.\<close>

definition delete_end :: "decl_span \<Rightarrow> nat" where
  "delete_end spn =
     (let fin = sm_endOff (dsp_match spn) in
        if fin < length (dsp_data spn) \<and> dsp_data spn ! fin = nl then fin + 1 else fin)"

definition delete_text :: "decl_span \<Rightarrow> string" where
  "delete_text spn =
     (let start = body_start True (dsp_match spn) in collapseJoin (splice (dsp_data spn) start (delete_end spn) []) start)"

definition DeleteSymbol :: "store_db \<Rightarrow> unidata \<Rightarrow> source_env \<Rightarrow> write_faults \<Rightarrow> string \<Rightarrow> bool \<Rightarrow> bool \<Rightarrow> files_t
    \<Rightarrow> write_result result \<times> files_t" where
  "DeleteSymbol db U env F qualifiedName allowExported allowTestOnly fs =
     (case writeSpan db U env qualifiedName of
        Inl e \<Rightarrow> (Inl e, fs)
      | Inr (sy, spn, path) \<Rightarrow>
          (case groupRefusal sy spn ''delete'' of
             Some e \<Rightarrow> (Inl e, fs)
           | None \<Rightarrow>
               if sy_Exported sy \<and> \<not> allowExported
               then (Inl (''refusing to delete exported symbol '' @ sy_QualifiedName sy
                 @ '': a consumer outside this index may use it; pass allow_exported to override''), fs)
               else case deleteRefusal db sy allowTestOnly of
                 Some e \<Rightarrow> (Inl e, fs)
               | None \<Rightarrow>
                   (case parseWholeFile env (delete_text spn) path ''deletion'' of
                      Inl e \<Rightarrow> (Inl e, fs)
                    | Inr _ \<Rightarrow>
                        commit F path (delete_text spn)
                          (newWriteResult ''delete'' sy spn (body_start True (dsp_match spn)) (sm_endOff (dsp_match spn))) fs)))"

end
