(* ===== verification/Rename.thy ===== *)
theory Rename
  imports Write
begin

text \<open>
  Renaming a symbol (\<^verbatim>\<open>query/rename.go\<close>): the plan, with every site resolved to a byte range and every refusal applied, and
  its application. The files of the index and \<^verbatim>\<open>go/parser\<close> are the record \<open>rename_env\<close>; of a syntax tree it gives what the
  code reads: the declarations, all identifiers in the order of \<^verbatim>\<open>ast.Inspect\<close>, and the statements that can declare a name.
\<close>

section \<open>Syntax\<close>

text \<open>An identifier: its name, its position as \<^verbatim>\<open>FileSet.Position\<close> reports it, and its true byte offset.\<close>

record ident =
  id_Name :: string
  id_Line :: int
  id_Column :: int
  id_Offset :: nat

text \<open>
  A node of a function body with its children: \<open>DefineStmt\<close> is an \<^verbatim>\<open>:=\<close>, with the names on its left (\<open>None\<close> for an
  expression that is no identifier), \<open>RangeDefine\<close> a \<^verbatim>\<open>range\<close> with \<^verbatim>\<open>:=\<close>, \<open>DeclareStmt\<close> a declaration, as the names of each
  \<^verbatim>\<open>ValueSpec\<close>.
\<close>

datatype body_node =
    DefineStmt "string option list" "body_node list"
  | RangeDefine "string option" "string option" "body_node list"
  | DeclareStmt "string list list" "body_node list"
  | OtherNode "body_node list"

record rename_func =
  rf_Name :: "ident option"
  rf_Pos :: nat
  rf_End :: nat
  rf_Recv :: "string list"
  rf_Params :: "string list"
  rf_Results :: "string list"
  rf_Body :: "body_node option"

datatype rename_spec = RTypeSpec "ident option" | RValueSpec "ident option list" | RImportSpec

datatype rename_decl = RFuncDecl rename_func | RGenDecl "rename_spec list" | RBadDecl

record rename_tree =
  rt_Decls :: "rename_decl list"
  rt_Idents :: "ident list"

record rename_env =
  re_readFile :: "string \<Rightarrow> string result"
  re_parse :: "string \<Rightarrow> string \<Rightarrow> rename_tree result"
  re_ListRepos :: "(string \<times> string) list result"

section \<open>Data\<close>

record rename_site =
  rn_File :: string
  rn_Package :: string
  rn_Line :: int
  rn_Column :: int

record rename_splice =
  sp_start :: nat
  sp_end :: nat

record rename_file_plan =
  fp_path :: string
  fp_data :: string
  fp_splices :: "rename_splice list"

record rename_plan =
  pl_QualifiedName :: string
  pl_NewName :: string
  pl_Files :: "(string \<times> nat) list"
  pl_Repos :: "string list"
  pl_OverriddenShadowing :: "string list"
  pl_plans :: "rename_file_plan list"
  pl_SiteCount :: nat

record rename_result =
  rr_QualifiedName :: string
  rr_NewName :: string
  rr_ReindexError :: string
  rr_Files :: "(string \<times> nat) list"
  rr_Repos :: "string list"
  rr_OverriddenShadowing :: "string list"
  rr_SiteCount :: nat

section \<open>Identifiers\<close>

definition go_keywords :: "string list" where
  "go_keywords =
     [''break'', ''case'', ''chan'', ''const'', ''continue'', ''default'', ''defer'', ''else'', ''fallthrough'', ''for'', ''func'',
      ''go'', ''goto'', ''if'', ''import'', ''interface'', ''map'', ''package'', ''range'', ''return'', ''select'', ''struct'',
      ''switch'', ''type'', ''var'']"

text \<open>\<^verbatim>\<open>token.IsIdentifier\<close>; 95 is the underscore.\<close>

definition IsIdentifier :: "unidata \<Rightarrow> string \<Rightarrow> bool" where
  "IsIdentifier U name \<longleftrightarrow>
     name \<noteq> [] \<and> name \<notin> set go_keywords
     \<and> list_all (\<lambda>r. u_letter U r \<or> r = 95 \<or> u_digit U r) (runes name)
     \<and> (case runes name of r # _ \<Rightarrow> u_letter U r \<or> r = 95 | [] \<Rightarrow> True)"

definition identAtLine :: "ident option \<Rightarrow> symbol \<Rightarrow> ident option" where
  "identAtLine i sy =
     (case i of None \<Rightarrow> None | Some x \<Rightarrow> if id_Name x \<noteq> sy_Name sy \<or> id_Line x \<noteq> sy_PosLine sy then None else Some x)"

definition spec_ident :: "symbol \<Rightarrow> rename_spec \<Rightarrow> ident option" where
  "spec_ident sy s =
     (case s of
        RTypeSpec n \<Rightarrow> identAtLine n sy
      | RValueSpec ns \<Rightarrow> first_some (\<lambda>n. identAtLine n sy) ns
      | RImportSpec \<Rightarrow> None)"

definition declaredIdent :: "symbol \<Rightarrow> rename_decl \<Rightarrow> ident option" where
  "declaredIdent sy d =
     (case d of
        RFuncDecl f \<Rightarrow> identAtLine (rf_Name f) sy
      | RGenDecl specs \<Rightarrow> first_some (spec_ident sy) specs
      | RBadDecl \<Rightarrow> None)"

definition declarationOffset :: "rename_tree \<Rightarrow> symbol \<Rightarrow> nat option" where
  "declarationOffset t sy = map_option id_Offset (first_some (declaredIdent sy) (rt_Decls t))"

definition identifierOffsets :: "rename_tree \<Rightarrow> (int \<times> int, string) gomap" where
  "identifierOffsets t = fold (\<lambda>i. gm_put (id_Line i, id_Column i) (id_Name i)) (rt_Idents t) []"

text \<open>The outer \<open>None\<close> is the panic of \<^verbatim>\<open>LineStart\<close> on a line the file does not have.\<close>

definition siteOffset :: "rename_tree \<Rightarrow> string \<Rightarrow> symbol \<Rightarrow> rename_site \<Rightarrow> nat option option" where
  "siteOffset t contents sy site =
     (if rn_Column site = 0 then Some (declarationOffset t sy)
      else if map_of (identifierOffsets t) (rn_Line site, rn_Column site) \<noteq> Some (sy_Name sy) then Some None
      else
        let lns = token_lines contents in
          if rn_Line site < 1 \<or> int (length lns) < rn_Line site then None
          else Some (Some (nat (int (lns ! nat (rn_Line site - 1)) + rn_Column site - 1))))"

section \<open>Shadowing\<close>

fun body_declares :: "string \<Rightarrow> body_node \<Rightarrow> bool" where
  "body_declares name (DefineStmt lhs ns) \<longleftrightarrow> Some name \<in> set lhs \<or> (\<exists>n\<in>set ns. body_declares name n)"
| "body_declares name (RangeDefine k v ns) \<longleftrightarrow> k = Some name \<or> v = Some name \<or> (\<exists>n\<in>set ns. body_declares name n)"
| "body_declares name (DeclareStmt specs ns) \<longleftrightarrow> (\<exists>s\<in>set specs. name \<in> set s) \<or> (\<exists>n\<in>set ns. body_declares name n)"
| "body_declares name (OtherNode ns) \<longleftrightarrow> (\<exists>n\<in>set ns. body_declares name n)"

definition funcDeclaresName :: "rename_func \<Rightarrow> body_node \<Rightarrow> string \<Rightarrow> bool" where
  "funcDeclaresName f body name \<longleftrightarrow>
     name \<in> set (rf_Recv f) \<or> name \<in> set (rf_Params f) \<or> name \<in> set (rf_Results f) \<or> body_declares name body"

fun enclosingFuncDeclares :: "rename_decl list \<Rightarrow> nat \<Rightarrow> string \<Rightarrow> bool" where
  "enclosingFuncDeclares [] off name = False"
| "enclosingFuncDeclares (d # ds) off name =
     (case d of
        RFuncDecl f \<Rightarrow>
          (case rf_Body f of
             None \<Rightarrow> enclosingFuncDeclares ds off name
           | Some body \<Rightarrow>
               if off < rf_Pos f \<or> rf_End f \<le> off then enclosingFuncDeclares ds off name else funcDeclaresName f body name)
      | _ \<Rightarrow> enclosingFuncDeclares ds off name)"

section \<open>Refusals\<close>

definition renameTarget :: "store_db \<Rightarrow> unidata \<Rightarrow> string \<Rightarrow> symbol result" where
  "renameTarget db U qualifiedName =
     (case SymbolByName db qualifiedName of
        Inl e \<Rightarrow> Inl e | Inr None \<Rightarrow> Inl (symbolMissError db U qualifiedName) | Inr (Some sy) \<Rightarrow> Inr sy)"

definition renameCollision :: "store_db \<Rightarrow> symbol \<Rightarrow> string \<Rightarrow> string option" where
  "renameCollision db sy newName =
     (if sy_Kind sy = kindMethod then
        (case MethodsByQualifiedReceiver db (trim_suffix (sy_QualifiedName sy) (''.'' @ sy_Name sy)) True of
           Inl e \<Rightarrow> Some e
         | Inr methods \<Rightarrow>
             map_option (\<lambda>m. ''refusing to rename '' @ sy_QualifiedName sy @ '': receiver '' @ sy_Receiver m
                 @ '' already declares method '' @ sy_QualifiedName m)
               (find (\<lambda>m. sy_Name m = newName) methods))
      else
        (case SymbolsByPackage db (sy_PackagePath sy) True of
           Inl e \<Rightarrow> Some e
         | Inr syms \<Rightarrow>
             map_option (\<lambda>x. ''refusing to rename '' @ sy_QualifiedName sy @ '': package '' @ sy_PackagePath sy
                 @ '' already declares '' @ sy_QualifiedName x)
               (find (\<lambda>x. sy_Name x = newName \<and> sy_Kind x \<noteq> kindMethod) syms)))"

definition add_rename_site :: "rename_site \<Rightarrow> rename_site list \<Rightarrow> rename_site list" where
  "add_rename_site x sites = (if x \<in> set sites then sites else sites @ [x])"

definition edge_sites :: "store_db \<Rightarrow> edge \<Rightarrow> rename_site list \<Rightarrow> rename_site list" where
  "edge_sites db e sites =
     (if eg_EdgeType e \<notin> set liveEdgeTypes then sites
      else
        let pkg = (case SymbolByName db (eg_FromRef e) of Inr (Some x) \<Rightarrow> sy_PackagePath x | _ \<Rightarrow> [])
        in fold (\<lambda>s sites. if st_File s = [] then sites
             else add_rename_site \<lparr>rn_File = st_File s, rn_Package = pkg, rn_Line = st_Line s, rn_Column = st_Column s\<rparr> sites)
           (eg_Sites e) sites)"

definition collectRenameSites :: "store_db \<Rightarrow> symbol \<Rightarrow> rename_site list result" where
  "collectRenameSites db sy =
     map_sum id (\<lambda>edges. fold (edge_sites db) edges
         [\<lparr>rn_File = sy_PosFile sy, rn_Package = sy_PackagePath sy, rn_Line = sy_PosLine sy, rn_Column = 0\<rparr>])
       (EdgesTo db (sy_QualifiedName sy))"

definition visibilityRefusal :: "symbol \<Rightarrow> rename_site list \<Rightarrow> string option" where
  "visibilityRefusal sy sites =
     (let foreign = filter (\<lambda>s. rn_Package s \<noteq> [] \<and> rn_Package s \<noteq> sy_PackagePath sy) sites in
        if sy_Exported sy \<or> foreign = [] then None
        else Some (''refusing to rename unexported '' @ sy_QualifiedName sy @ '': '' @ itoa (int (length foreign))
          @ '' reference site(s) lie in another package: ''
          @ str_join '', '' (map (\<lambda>s. rn_File s @ '':'' @ itoa (rn_Line s)) foreign)))"

section \<open>The plan\<close>

definition site_text :: "rename_site \<Rightarrow> string" where
  "site_text s = rn_File s @ '':'' @ itoa (rn_Line s) @ '':'' @ itoa (rn_Column s)"

text \<open>The loop over the sites of a file: the splices, the shadowed and the missing sites so far.\<close>

fun site_loop :: "rename_tree \<Rightarrow> string \<Rightarrow> symbol \<Rightarrow> rename_site list \<Rightarrow> (rename_splice list \<times> string list \<times> string list) option" where
  "site_loop t contents sy [] = Some ([], [], [])"
| "site_loop t contents sy (s # ss) =
     (case siteOffset t contents sy s of
        None \<Rightarrow> None
      | Some None \<Rightarrow> map_option (\<lambda>(sp, sh, ms). (sp, sh, site_text s # ms)) (site_loop t contents sy ss)
      | Some (Some start) \<Rightarrow>
          map_option (\<lambda>(sp, sh, ms). (\<lparr>sp_start = start, sp_end = start + length (sy_Name sy)\<rparr> # sp,
              if rn_Column s \<noteq> 0 \<and> enclosingFuncDeclares (rt_Decls t) start (sy_Name sy) then site_text s # sh else sh, ms))
            (site_loop t contents sy ss))"

definition later_first :: "rename_splice \<Rightarrow> rename_splice \<Rightarrow> bool" where
  "later_first a b \<longleftrightarrow> sp_start b < sp_start a"

definition planFileRename :: "unidata \<Rightarrow> rename_env \<Rightarrow> symbol \<Rightarrow> string \<Rightarrow> rename_site list
    \<Rightarrow> (rename_file_plan \<times> string list) result option" where
  "planFileRename U env sy path sites =
     (case re_readFile env path of
        Inl e \<Rightarrow> Some (Inl (''refusing to rename '' @ sy_QualifiedName sy @ '': cannot read site file '' @ path @ '': '' @ e))
      | Inr contents \<Rightarrow>
          (case re_parse env path contents of
             Inl e \<Rightarrow> Some (Inl (''refusing to rename '' @ sy_QualifiedName sy @ '': cannot parse site file '' @ path @ '': '' @ e))
           | Inr t \<Rightarrow>
               map_option (\<lambda>(splices, shadowed, missing).
                   if missing \<noteq> []
                   then Inl (''refusing to rename '' @ sy_QualifiedName sy @ '': the name '' @ go_quote U (sy_Name sy)
                     @ '' is not at the recorded position(s): '' @ str_join '', '' missing)
                   else Inr (\<lparr>fp_path = path, fp_data = contents, fp_splices = sort_by later_first splices\<rparr>, shadowed))
                 (site_loop t contents sy sites)))"

fun plan_files :: "(string \<times> rename_site list \<Rightarrow> (rename_file_plan \<times> string list) result option) \<Rightarrow> (string \<times> rename_site list) list
    \<Rightarrow> (rename_file_plan list \<times> string list) result option" where
  "plan_files f [] = Some (Inr ([], []))"
| "plan_files f (x # xs) =
     (case f x of
        None \<Rightarrow> None
      | Some (Inl e) \<Rightarrow> Some (Inl e)
      | Some (Inr (plan, sh)) \<Rightarrow> map_option (map_sum id (\<lambda>(plans, shs). (plan # plans, sh @ shs))) (plan_files f xs))"

text \<open>The sites by file, in the order in which the files come first.\<close>

definition sites_by_file :: "rename_site list \<Rightarrow> (string, rename_site list) gomap" where
  "sites_by_file sites = fold (\<lambda>s. gm_append (rn_File s) s) sites []"

definition planRename :: "unidata \<Rightarrow> rename_env \<Rightarrow> symbol \<Rightarrow> rename_site list
    \<Rightarrow> (rename_file_plan list \<times> string list) result option" where
  "planRename U env sy sites = plan_files (\<lambda>(path, ss). planFileRename U env sy path ss) (sites_by_file sites)"

definition touched_repo :: "string \<Rightarrow> string \<times> string \<Rightarrow> string list \<Rightarrow> string list" where
  "touched_repo path = (\<lambda>(m, dir) out.
     if m \<in> set out then out
     else if \<not> has_prefix path (dir @ ''/'') \<and> path \<noteq> dir then out else out @ [m])"

definition renameRepos :: "rename_env \<Rightarrow> rename_file_plan list \<Rightarrow> string list" where
  "renameRepos env plans =
     (case re_ListRepos env of
        Inl _ \<Rightarrow> []
      | Inr repos \<Rightarrow>
          if repos = [] then [[]]
          else fold (\<lambda>plan out. fold (touched_repo (fp_path plan)) repos out) plans [])"

definition RenameSymbol :: "store_db \<Rightarrow> unidata \<Rightarrow> rename_env \<Rightarrow> string \<Rightarrow> string \<Rightarrow> bool \<Rightarrow> rename_plan result option" where
  "RenameSymbol db U env qualifiedName newName force =
     (case renameTarget db U qualifiedName of
        Inl e \<Rightarrow> Some (Inl e)
      | Inr sy \<Rightarrow>
          if newName = sy_Name sy
          then Some (Inl (''refusing to rename '' @ qualifiedName @ '': '' @ go_quote U newName @ '' is the current name; nothing changed''))
          else if \<not> IsIdentifier U newName
          then Some (Inl (''refusing to rename '' @ qualifiedName @ '': '' @ go_quote U newName @ '' is not a valid Go identifier''))
          else case renameCollision db sy newName of
            Some e \<Rightarrow> Some (Inl e)
          | None \<Rightarrow>
              (case collectRenameSites db sy of
                 Inl e \<Rightarrow> Some (Inl e)
               | Inr sites \<Rightarrow>
                   (case visibilityRefusal sy sites of
                      Some e \<Rightarrow> Some (Inl e)
                    | None \<Rightarrow>
                        map_option (\<lambda>r. case r of
                            Inl e \<Rightarrow> Inl e
                          | Inr (plans, shadowed) \<Rightarrow>
                              if shadowed \<noteq> [] \<and> \<not> force
                              then Inl (''refusing to rename '' @ qualifiedName @ '': '' @ itoa (int (length shadowed))
                                @ '' site(s) lie in a scope declaring a local '' @ go_quote U (sy_Name sy)
                                @ '', so the identifier there may not be the symbol: '' @ str_join '', '' shadowed
                                @ ''; pass force to override'')
                              else Inr \<lparr>pl_QualifiedName = qualifiedName, pl_NewName = newName,
                                pl_Files = map (\<lambda>f. (fp_path f, length (fp_splices f))) plans, pl_Repos = renameRepos env plans,
                                pl_OverriddenShadowing = shadowed, pl_plans = plans,
                                pl_SiteCount = sum_list (map (\<lambda>f. length (fp_splices f)) plans)\<rparr>)
                          (planRename U env sy sites))))"

section \<open>Applying a plan\<close>

fun spliceIdentifiers :: "string \<Rightarrow> rename_splice list \<Rightarrow> string \<Rightarrow> string result" where
  "spliceIdentifiers out [] newName = Inr out"
| "spliceIdentifiers out (sp # sps) newName =
     (if length out < sp_end sp \<or> sp_end sp < sp_start sp
      then Inl (''site offset '' @ itoa (int (sp_start sp)) @ ''-'' @ itoa (int (sp_end sp)) @ '' is past the end of the ''
        @ itoa (int (length out)) @ ''-byte file'')
      else spliceIdentifiers (take (sp_start sp) out @ newName @ drop (sp_end sp) out) sps newName)"

definition rewrite_file :: "rename_env \<Rightarrow> rename_plan \<Rightarrow> rename_file_plan \<Rightarrow> (string \<times> string) result" where
  "rewrite_file env plan f =
     (case re_readFile env (fp_path f) of
        Inl e \<Rightarrow> Inl (''refusing to rename '' @ pl_QualifiedName plan @ '': cannot re-read '' @ fp_path f @ '': '' @ e)
      | Inr current \<Rightarrow>
          if current \<noteq> fp_data f
          then Inl (''refusing to rename '' @ pl_QualifiedName plan @ '': '' @ fp_path f
            @ '' changed after the rename was planned; re-run it'')
          else case spliceIdentifiers (fp_data f) (fp_splices f) (pl_NewName plan) of
            Inl e \<Rightarrow> Inl (''refusing to rename '' @ pl_QualifiedName plan @ '': '' @ fp_path f @ '': '' @ e)
          | Inr contents \<Rightarrow>
              (case re_parse env (fp_path f) contents of
                 Inl e \<Rightarrow> Inl (''refusing to rename '' @ pl_QualifiedName plan @ '': the rename would break '' @ fp_path f @ '': '' @ e)
               | Inr _ \<Rightarrow> Inr (fp_path f, contents)))"

text \<open>The writes, in order; \<open>faults\<close> says for each file which call of its replacement fails.\<close>

fun write_all :: "(string \<Rightarrow> write_faults) \<Rightarrow> (string \<times> string) list \<Rightarrow> files_t \<Rightarrow> unit result \<times> files_t" where
  "write_all faults [] fs = (Inr (), fs)"
| "write_all faults ((path, contents) # rest) fs =
     (case writeFileAtomic (faults path) path contents fs of
        (Inl e, fs') \<Rightarrow> (Inl e, fs') | (Inr _, fs') \<Rightarrow> write_all faults rest fs')"

definition ApplyRename :: "rename_env \<Rightarrow> (string \<Rightarrow> write_faults) \<Rightarrow> rename_plan \<Rightarrow> files_t \<Rightarrow> rename_result result \<times> files_t" where
  "ApplyRename env faults plan fs =
     (case each_r (rewrite_file env plan) (pl_plans plan) of
        Inl e \<Rightarrow> (Inl e, fs)
      | Inr rewritten \<Rightarrow>
          (case write_all faults rewritten fs of
             (Inl e, fs') \<Rightarrow> (Inl e, fs')
           | (Inr _, fs') \<Rightarrow>
               (Inr \<lparr>rr_QualifiedName = pl_QualifiedName plan, rr_NewName = pl_NewName plan, rr_ReindexError = [],
                     rr_Files = pl_Files plan, rr_Repos = pl_Repos plan, rr_OverriddenShadowing = pl_OverriddenShadowing plan,
                     rr_SiteCount = pl_SiteCount plan\<rparr>, fs')))"

end
