(* ===== verification/Write_Proofs.thy ===== *)
theory Write_Proofs
  imports Write Graph_Proofs
begin

text \<open>
  Source positions and edits: the line table and its binary search against the lines of the file, which lines the
  context of a body has, the file replacement that never leaves a partial file, and what each edit does to the file.
\<close>

section \<open>Lines\<close>

abbreviation lines_of :: "string \<Rightarrow> string list" where
  "lines_of s \<equiv> split_char nl s"

lemma line_starts_append: "nl \<notin> set l \<Longrightarrow> line_starts k (l @ t) = line_starts (k + length l) t"
  by (induction l arbitrary: k) auto

lemma line_starts_join:
  "(\<forall>l\<in>set ls. nl \<notin> set l) \<Longrightarrow> ls \<noteq> [] \<Longrightarrow> length (line_starts k (str_join [nl] ls)) = length ls - 1
   \<and> (\<forall>j<length ls. drop ((k # line_starts k (str_join [nl] ls)) ! j - k) (str_join [nl] ls) = str_join [nl] (drop j ls)
        \<and> k \<le> (k # line_starts k (str_join [nl] ls)) ! j)"
proof (induction "[nl]" ls arbitrary: k rule: str_join.induct)
  case (2 l)
  then show ?case using line_starts_append [of l k "[]"] by simp
next
  case (3 l m ls)
  let ?rest = "str_join [nl] (m # ls)" and ?k = "k + length l + 1"
  have eq: "line_starts k (str_join [nl] (l # m # ls)) = ?k # line_starts ?k ?rest"
    using 3(2) line_starts_append [of l k "nl # ?rest"] by simp
  have IH: "length (line_starts ?k ?rest) = length (m # ls) - 1"
    "\<forall>j<length (m # ls). drop ((?k # line_starts ?k ?rest) ! j - ?k) ?rest = str_join [nl] (drop j (m # ls))
      \<and> ?k \<le> (?k # line_starts ?k ?rest) ! j"
    using 3(1) [of ?k] 3(2) by auto
  have "drop ((k # line_starts k (str_join [nl] (l # m # ls))) ! j - k) (str_join [nl] (l # m # ls)) = str_join [nl] (drop j (l # m # ls))
      \<and> k \<le> (k # line_starts k (str_join [nl] (l # m # ls))) ! j" if j: "j < length (l # m # ls)" for j
  proof (cases j)
    case (Suc i)
    let ?o = "(?k # line_starts ?k ?rest) ! i"
    have i: "drop (?o - ?k) ?rest = str_join [nl] (drop i (m # ls))" "?k \<le> ?o" using IH(2) j Suc by auto
    obtain d where d: "?o = ?k + d" using i(2) le_Suc_ex by blast
    then have "drop (?o - k) (l @ nl # ?rest) = drop d ?rest" by simp
    moreover have "drop d ?rest = str_join [nl] (drop i (m # ls))" using i(1) d by simp
    ultimately show ?thesis unfolding eq Suc using i(2) by simp
  qed simp
  with IH(1) show ?case unfolding eq by simp
qed simp

lemma length_offsets: "length (computeLineOffsets s) = length (lines_of s)"
  using line_starts_join [of "lines_of s" 0] split_char_no_sep [of _ nl s]
  by (simp add: computeLineOffsets_def join_split_char Suc_diff_1)

lemma drop_offset: "j < length (lines_of s) \<Longrightarrow> drop (computeLineOffsets s ! j) s = str_join [nl] (drop j (lines_of s))"
  using line_starts_join [of "lines_of s" 0] split_char_no_sep [of _ nl s]
  by (simp add: computeLineOffsets_def join_split_char)

lemma line_starts_mem: "x \<in> set (line_starts k s) \<Longrightarrow> k < x \<and> x \<le> k + length s"
  by (induction s arbitrary: k) (fastforce split: if_splits)+

lemma sorted_offsets: "sorted_wrt (<) (computeLineOffsets s)"
proof -
  have "sorted_wrt (<) (line_starts k s)" for k
    by (induction s arbitrary: k) (auto dest: line_starts_mem)
  then show ?thesis by (auto simp: computeLineOffsets_def dest: line_starts_mem)
qed

lemma offset_le: "j < length (computeLineOffsets s) \<Longrightarrow> computeLineOffsets s ! j \<le> length s"
  using nth_mem [of j "computeLineOffsets s"] line_starts_mem [of _ 0 s] by (auto simp: computeLineOffsets_def)

text \<open>The search returns the last line that starts at or before the offset.\<close>

lemma line_search_last:
  "lo \<le> hi \<Longrightarrow> hi < length offsets \<Longrightarrow> sorted_wrt (<) offsets \<Longrightarrow> offsets ! lo \<le> off \<Longrightarrow>
   (\<forall>j. hi < j \<longrightarrow> j < length offsets \<longrightarrow> off < offsets ! j) \<Longrightarrow>
   offsets ! line_search offsets off lo hi \<le> off \<and> line_search offsets off lo hi \<le> hi
   \<and> (\<forall>j. line_search offsets off lo hi < j \<longrightarrow> j < length offsets \<longrightarrow> off < offsets ! j)"
proof (induction offsets off lo hi rule: line_search.induct)
  case (1 offsets off lo hi)
  show ?case
  proof (cases "lo < hi")
    case True
    let ?mid = "(lo + hi + 1) div 2"
    show ?thesis
    proof (cases "offsets ! ?mid \<le> off")
      case le: True
      have "line_search offsets off lo hi = line_search offsets off ?mid hi"
        using True le by (subst line_search.simps) (simp add: Let_def)
      moreover have "?mid \<le> hi" using True by simp
      ultimately show ?thesis using "1.IH"(1) [OF True refl le] "1.prems" le by simp
    next
      case gt: False
      have eq: "line_search offsets off lo hi = line_search offsets off lo (?mid - 1)"
        using True gt by (subst line_search.simps) (simp add: Let_def)
      have after: "\<forall>j. ?mid - 1 < j \<longrightarrow> j < length offsets \<longrightarrow> off < offsets ! j"
      proof (intro allI impI)
        fix j assume "?mid - 1 < j" "j < length offsets"
        then have "offsets ! ?mid \<le> offsets ! j"
          using "1.prems"(3) True by (cases "j = ?mid") (auto simp: sorted_wrt_iff_nth_less intro: less_imp_le)
        with gt show "off < offsets ! j" by simp
      qed
      have "lo \<le> ?mid - 1" "?mid - 1 < length offsets" "?mid - 1 \<le> hi" using True "1.prems"(2) by auto
      with "1.IH"(2) [OF True refl gt] after "1.prems" show ?thesis unfolding eq by auto
    qed
  next
    case False
    then show ?thesis using "1.prems" by (subst line_search.simps, subst line_search.simps, subst line_search.simps) auto
  qed
qed

lemma newlines_before:
  "length (filter (\<lambda>x. x \<le> k + n) (line_starts k s)) = length (filter (\<lambda>c. c = nl) (take n s))"
proof (induction s arbitrary: k n)
  case (Cons c s)
  show ?case
  proof (cases n)
    case 0
    have "\<not> x \<le> k" if "x \<in> set (line_starts (Suc k) s)" for x using line_starts_mem [OF that] by simp
    with 0 show ?thesis by (auto simp: filter_empty_conv)
  next
    case (Suc m)
    then show ?thesis using Cons [of "Suc k" m] by simp
  qed
qed simp

lemma filter_le_sorted:
  assumes "sorted_wrt (<) (xs :: nat list)" and "r < length xs" and "xs ! r \<le> off" and "\<forall>j. r < j \<longrightarrow> j < length xs \<longrightarrow> off < xs ! j"
  shows "length (filter (\<lambda>x. x \<le> off) xs) = Suc r"
proof -
  have "filter (\<lambda>x. x \<le> off) xs = take (Suc r) xs"
  proof -
    have "x \<le> off" if x: "x \<in> set (take (Suc r) xs)" for x
    proof -
      obtain j where "j < length (take (Suc r) xs)" "take (Suc r) xs ! j = x"
        using x unfolding in_set_conv_nth by blast
      then have "j \<le> r" "x = xs ! j" by auto
      then have "x \<le> xs ! r" using assms(1,2) by (cases "j = r") (auto simp: sorted_wrt_iff_nth_less intro: less_imp_le)
      with assms(3) show ?thesis by simp
    qed
    moreover have "\<not> x \<le> off" if "x \<in> set (drop (Suc r) xs)" for x
      using that assms(4) by (auto simp: in_set_conv_nth not_le)
    ultimately have "filter (\<lambda>x. x \<le> off) (take (Suc r) xs @ drop (Suc r) xs) = take (Suc r) xs"
      unfolding filter_append by (simp add: filter_id_conv filter_empty_conv)
    then show ?thesis by simp
  qed
  with assms(2) show ?thesis by simp
qed

text \<open>
  the binary search over the line table gives the line of every offset: one more than the newlines before it.
\<close>

theorem offsetToLine_correct:
  "offsetToLine (computeLineOffsets s) off = 1 + length (filter (\<lambda>c. c = nl) (take off s))"
proof -
  let ?o = "computeLineOffsets s" and ?r = "line_search (computeLineOffsets s) off 0 (length (computeLineOffsets s) - 1)"
  have ne: "0 < length ?o" by (simp add: computeLineOffsets_def)
  have first: "?o ! 0 \<le> off" by (simp add: computeLineOffsets_def)
  have r: "?o ! ?r \<le> off" "?r \<le> length ?o - 1" "\<forall>j. ?r < j \<longrightarrow> j < length ?o \<longrightarrow> off < ?o ! j"
    using line_search_last [of 0 "length ?o - 1" ?o off] ne first sorted_offsets [of s] by auto
  have "length (filter (\<lambda>x. x \<le> off) ?o) = Suc ?r"
  proof (rule filter_le_sorted)
    show "?r < length ?o" using r(2) ne by linarith
  qed (use r sorted_offsets in simp_all)
  moreover have "length (filter (\<lambda>x. x \<le> off) ?o) = Suc (length (filter (\<lambda>c. c = nl) (take off s)))"
    using newlines_before [of 0 off s] by (simp add: computeLineOffsets_def)
  ultimately show ?thesis by (simp add: offsetToLine_def)
qed

section \<open>Context lines\<close>

lemma str_join_append: "xs \<noteq> [] \<Longrightarrow> ys \<noteq> [] \<Longrightarrow> str_join sep (xs @ ys) = str_join sep xs @ sep @ str_join sep ys"
proof (induction sep xs rule: str_join.induct)
  case (2 sep x)
  then show ?case by (cases ys) simp_all
qed simp_all

text \<open>Lines \<open>a\<close> to \<open>b\<close>, counted from one and both included.\<close>

lemma sliceLines_lines:
  assumes "1 \<le> a" "a \<le> b" "b \<le> length (lines_of s)"
  shows "sliceLines s (computeLineOffsets s) (int a) (int b) = Some (str_join [nl] (take (b + 1 - a) (drop (a - 1) (lines_of s))))"
proof -
  let ?o = "computeLineOffsets s" and ?L = "lines_of s"
  have start: "drop (?o ! (a - 1)) s = str_join [nl] (drop (a - 1) ?L)" using assms drop_offset [of "a - 1" s] by simp
  have idx: "nat (int a - 1) = a - 1" using assms(1) by simp
  show ?thesis
  proof (cases "b = length ?L")
    case True
    have "take (b + 1 - a) (drop (a - 1) ?L) = drop (a - 1) ?L" using True assms by simp
    with True assms start show ?thesis by (simp add: sliceLines_def length_offsets idx max_def min_def Let_def)
  next
    case False
    let ?m = "str_join [nl] (take (b + 1 - a) (drop (a - 1) ?L))"
    have b: "b < length ?L" using False assms(3) by simp
    have split: "drop (a - 1) ?L = take (b + 1 - a) (drop (a - 1) ?L) @ drop b ?L"
      using assms append_take_drop_id [of "b + 1 - a" "drop (a - 1) ?L"] by simp
    have fin: "drop (?o ! b) s = str_join [nl] (drop b ?L)" using b by (rule drop_offset)
    have le: "?o ! b \<le> length s" "?o ! (a - 1) \<le> length s" using offset_le b assms length_offsets by simp_all
    have eq: "drop (?o ! (a - 1)) s = ?m @ nl # drop (?o ! b) s"
      unfolding start fin by (subst split, subst str_join_append) (use b assms in auto)
    have "length s - ?o ! (a - 1) = length ?m + 1 + (length s - ?o ! b)"
      using arg_cong [OF eq, of length] by simp
    then have pos: "?o ! b = ?o ! (a - 1) + length ?m + 1" using le by linarith
    have "s ! (?o ! (a - 1) + length ?m) = drop (?o ! (a - 1)) s ! length ?m"
      using le by (simp add: nth_drop)
    then have nl: "s ! (?o ! b - 1) = nl" unfolding eq pos by simp
    have "slice s (?o ! (a - 1)) (?o ! b - 1) = ?m" unfolding slice_def eq pos by simp
    with nl pos b assms show ?thesis
      by (simp add: sliceLines_def length_offsets idx max_def min_def Let_def)
  qed
qed

text \<open>
  the context of a body. With context lines all around, \<open>k\<close> of them asked for, the code returns the \<open>k + 1\<close> lines
  before the body, and after it the \<open>k\<close> lines that start with the last line of the body itself.
\<close>

theorem body_context_lines:
  assumes "1 \<le> k" "k + 1 < lo" "lo \<le> hi" "hi + k \<le> length (lines_of s)"
  shows "body_context s (computeLineOffsets s) (int lo) (int hi) (int k) =
     Some (str_join [nl] (take (k + 1) (drop (lo - 1 - (k + 1)) (lines_of s))),
           str_join [nl] (take k (drop (hi - 1) (lines_of s))))"
proof -
  have b: "max (int lo - 1 - int k) 0 = int (lo - 1 - k)" "int lo - 1 = int (lo - 1)"
    and a: "int hi - 1 + int k = int (hi + k - 1)" using assms by auto
  have "sliceLines s (computeLineOffsets s) (int (lo - 1 - k)) (int (lo - 1))
      = Some (str_join [nl] (take (k + 1) (drop (lo - 1 - (k + 1)) (lines_of s))))"
    using sliceLines_lines [of "lo - 1 - k" "lo - 1" s] assms by simp
  moreover have "sliceLines s (computeLineOffsets s) (int hi) (int (hi + k - 1))
      = Some (str_join [nl] (take k (drop (hi - 1) (lines_of s))))"
    using sliceLines_lines [of hi "hi + k - 1" s] assms by simp
  moreover have "\<not> int k \<le> 0" "0 \<le> int (lo - 1)" "int (lo - 1 - k) \<le> int (lo - 1)"
    "int hi < int (length (computeLineOffsets s))" "int (hi + k - 1) < int (length (computeLineOffsets s))"
    using assms by (simp_all add: length_offsets)
  ultimately show ?thesis unfolding body_context_def Let_def b(1) unfolding b(2) a by simp
qed

theorem body_context_lines_witness:
  "body_context [CHR ''1'', nl, CHR ''2'', nl, CHR ''3'', nl, CHR ''4'', nl, CHR ''5'']
     (computeLineOffsets [CHR ''1'', nl, CHR ''2'', nl, CHR ''3'', nl, CHR ''4'', nl, CHR ''5'']) 4 4 1
   = Some ([CHR ''2'', nl, CHR ''3''], ''4'')"
  using body_context_lines [of 1 4 4 "[CHR ''1'', nl, CHR ''2'', nl, CHR ''3'', nl, CHR ''4'', nl, CHR ''5'']"] by simp

section \<open>Edits\<close>

lemma writeFileAtomic_cases:
  assumes "writeFileAtomic F path c fs = (r, fs')" and "\<And>t. wf_createTemp F = Inr t \<Longrightarrow> fs t = None" and "fs path \<noteq> None"
  shows "(r = Inr () \<and> fs' = fs(path \<mapsto> c)) \<or>
    ((\<exists>e. r = Inl e) \<and> (fs' = fs \<or> wf_remove F \<and> (\<exists>t n. wf_createTemp F = Inr t \<and> fs' = fs(t \<mapsto> take n c))))"
proof (cases "wf_createTemp F")
  case (Inl e)
  with assms(1) show ?thesis by (auto simp: writeFileAtomic_def split: option.splits)
next
  case (Inr t)
  have t: "fs t = None" "t \<noteq> path" using assms(2) [OF Inr] assms(3) by auto
  have undo: "fs(t := None) = fs" using t(1) by (simp add: fun_upd_idem)
  have moved: "(fs(t \<mapsto> c, path \<mapsto> c))(t := None) = fs(path \<mapsto> c)"
    using t by (auto simp: fun_upd_def)
  have failed: "fail_cleanup F t e (fs(t \<mapsto> x)) = (Inl e, if wf_remove F then fs(t \<mapsto> x) else fs)" for e x
    by (simp add: fail_cleanup_def undo)
  have whole: "\<exists>n. fs(t \<mapsto> c) = fs(t \<mapsto> take n c)" by (rule exI [of _ "length c"]) simp
  have left: "\<exists>t' n. wf_createTemp F = Inr t' \<and> fs(t \<mapsto> c) = fs(t' \<mapsto> take n c)" using Inr whole by blast
  show ?thesis
  proof (cases "wf_stat F")
    case None
    show ?thesis
    proof (cases "wf_write F")
      case Nw: None
      show ?thesis
      proof (cases "wf_close F = None \<and> wf_chmod F = None \<and> wf_rename F = None")
        case True
        with assms(1) Inr None Nw moved t show ?thesis by (simp add: writeFileAtomic_def)
      next
        case False
        then obtain e where "writeFileAtomic F path c fs = fail_cleanup F t e (fs(t \<mapsto> c))"
          using Inr None Nw by (cases "wf_close F"; cases "wf_chmod F"; cases "wf_rename F") (simp_all add: writeFileAtomic_def)
        then have "r = Inl e" "fs' = (if wf_remove F then fs(t \<mapsto> c) else fs)" using assms(1) failed by simp_all
        with left show ?thesis by (cases "wf_remove F") simp_all
      qed
    next
      case (Some a)
      then obtain e n where "wf_write F = Some (e, n)" by (cases a) simp
      with Inr None have "writeFileAtomic F path c fs = fail_cleanup F t e (fs(t \<mapsto> take n c))"
        by (simp add: writeFileAtomic_def)
      with assms(1) failed Inr show ?thesis by (auto split: if_splits)
    qed
  next
    case (Some e)
    with assms(1) show ?thesis by (auto simp: writeFileAtomic_def)
  qed
qed

text \<open>What a failed write can leave behind: nothing, or the temporary file with a part of the new contents.\<close>

definition only_temp_left :: "write_faults \<Rightarrow> files_t \<Rightarrow> files_t \<Rightarrow> bool" where
  "only_temp_left F fs fs' \<longleftrightarrow> fs' = fs \<or> wf_remove F \<and> (\<exists>t x. wf_createTemp F = Inr t \<and> fs' = fs(t \<mapsto> x))"

definition temp_fresh :: "write_faults \<Rightarrow> files_t \<Rightarrow> bool" where
  "temp_fresh F fs \<longleftrightarrow> (\<forall>t. wf_createTemp F = Inr t \<longrightarrow> fs t = None)"

lemma only_temp_left_refl [simp]: "only_temp_left F fs fs"
  by (simp add: only_temp_left_def)

lemma commit_cases:
  assumes "commit F path c w fs = (r, fs')" and "temp_fresh F fs" and "fs path \<noteq> None"
  shows "(case r of Inr w' \<Rightarrow> w' = w \<and> fs' = fs(path \<mapsto> c) | Inl e \<Rightarrow> only_temp_left F fs fs')"
proof -
  obtain r' where r': "writeFileAtomic F path c fs = (r', fs')" "r = (case r' of Inl e \<Rightarrow> Inl e | Inr _ \<Rightarrow> Inr w)"
    using assms(1) unfolding commit_def
    by (cases "writeFileAtomic F path c fs"; cases "fst (writeFileAtomic F path c fs)") auto
  show ?thesis
    using writeFileAtomic_cases [OF r'(1) _ assms(3)] assms(2) r'(2)
    unfolding temp_fresh_def only_temp_left_def by (cases r') auto
qed

lemma writeSpan_file: "writeSpan db U env q = Inr (sy, spn, path) \<Longrightarrow> se_evalSymlinks env (sy_PosFile sy) = Inr path"
  by (auto simp: writeSpan_def split: sum.splits option.splits)

text \<open>
  C33: what replacing a symbol does to the file system. A success changes the one file of the symbol, and there exactly
  the bytes of its declaration, with text that leaves the file parsing, or changes nothing when the text is the same; a
  refusal or a failure leaves every file as it was.
\<close>

theorem ReplaceSymbolBody_effect:
  assumes run: "ReplaceSymbolBody db U env F q body doc fs = (r, fs')"
    and temp: "temp_fresh F fs" and target: "\<And>p path. se_evalSymlinks env p = Inr path \<Longrightarrow> fs path \<noteq> None"
  shows "case r of
      Inl e \<Rightarrow> only_temp_left F fs fs'
    | Inr w \<Rightarrow> \<exists>sy spn path. writeSpan db U env q = Inr (sy, spn, path) \<and> \<not> sm_partOfGroup (dsp_match spn)
        \<and> (let start = body_start doc (dsp_match spn); fin = sm_endOff (dsp_match spn);
               new = take start (dsp_data spn) @ body @ drop fin (dsp_data spn)
           in wr_Unchanged w = (slice (dsp_data spn) start fin = body)
             \<and> (if wr_Unchanged w then fs' = fs
                else fs' = fs(path \<mapsto> new) \<and> trim_space body \<noteq> [] \<and> (\<exists>t. se_parse env [] new = Inr t)))"
proof (cases "writeSpan db U env q")
  case (Inl e)
  with run show ?thesis by (auto simp: ReplaceSymbolBody_def)
next
  case (Inr a)
  then obtain sy spn path where span: "writeSpan db U env q = Inr (sy, spn, path)" by (cases a) auto
  let ?start = "body_start doc (dsp_match spn)" and ?fin = "sm_endOff (dsp_match spn)"
  let ?new = "take ?start (dsp_data spn) @ body @ drop ?fin (dsp_data spn)"
  show ?thesis
  proof (cases "sm_partOfGroup (dsp_match spn)")
    case True
    with run span show ?thesis by (auto simp: ReplaceSymbolBody_def groupRefusal_def)
  next
    case alone: False
    show ?thesis
    proof (cases "slice (dsp_data spn) ?start ?fin = body")
      case True
      with run span alone show ?thesis by (auto simp: ReplaceSymbolBody_def groupRefusal_def Let_def newWriteResult_def)
    next
      case changed: False
      show ?thesis
      proof (cases "spliceAndValidate env (dsp_data spn) ?start ?fin body")
        case (Inl e)
        with run span alone changed show ?thesis by (auto simp: ReplaceSymbolBody_def groupRefusal_def Let_def)
      next
        case (Inr out)
        then have valid: "out = ?new" "trim_space body \<noteq> []" "\<exists>t. se_parse env [] ?new = Inr t"
          by (auto simp: spliceAndValidate_def validateSnippet_def parseWholeFile_def splice_def Let_def split: sum.splits if_splits)
        let ?w = "(newWriteResult ''replace'' sy spn ?start ?fin)\<lparr>wr_NewLines := lineCount body\<rparr>"
        have "commit F path ?new ?w fs = (r, fs')"
          using run span alone changed Inr valid(1) by (simp add: ReplaceSymbolBody_def groupRefusal_def Let_def)
        from commit_cases [OF this temp target [OF writeSpan_file [OF span]]] span alone changed valid show ?thesis
          by (cases r) (simp_all add: newWriteResult_def Let_def)
      qed
    qed
  qed
qed

lemma delete_text_removes:
  assumes "body_start True (dsp_match spn) \<le> length (dsp_data spn)"
  obtains k where "delete_text spn = take (body_start True (dsp_match spn)) (dsp_data spn) @ drop (sm_endOff (dsp_match spn) + k) (dsp_data spn)"
    and "k \<le> 2" and "\<forall>c\<in>set (take k (drop (sm_endOff (dsp_match spn)) (dsp_data spn))). c = nl"
proof -
  let ?d = "dsp_data spn" and ?s = "body_start True (dsp_match spn)" and ?f = "sm_endOff (dsp_match spn)"
  obtain k where k: "delete_end spn = ?f + k" "k \<le> 1" "\<forall>c\<in>set (take k (drop ?f ?d)). c = nl"
  proof (cases "?f < length ?d \<and> ?d ! ?f = nl")
    case True
    then have "take 1 (drop ?f ?d) = [nl]" by (simp add: take_Suc_conv_app_nth)
    with True that [of 1] show ?thesis by (simp add: delete_end_def Let_def)
  next
    case False
    with that [of 0] show ?thesis by (simp add: delete_end_def Let_def)
  qed
  let ?c = "take ?s ?d @ drop (?f + k) ?d"
  have c: "take ?s ?c = take ?s ?d" "drop ?s ?c = drop (?f + k) ?d" "length (take ?s ?d) = ?s" using assms by simp_all
  show thesis
  proof (cases "delete_text spn = ?c")
    case True
    then show thesis using that [of k] k by simp
  next
    case False
    then have "has_prefix (drop (?f + k) ?d) [nl]" "delete_text spn = take ?s ?d @ drop (?s + 1) ?c"
      using k(1) c by (simp_all add: delete_text_def collapseJoin_def splice_def Let_def split: if_splits)
    then obtain t where t: "drop (?f + k) ?d = nl # t" by (cases "drop (?f + k) ?d") (auto simp: has_prefix_def)
    have "drop (?s + 1) ?c = drop 1 (drop ?s ?c)" unfolding drop_drop by (simp only: add.commute)
    then have "delete_text spn = take ?s ?d @ drop (?f + (k + 1)) ?d"
      using \<open>delete_text spn = take ?s ?d @ drop (?s + 1) ?c\<close> unfolding c by (simp add: add.commute)
    moreover have "take (k + 1) (drop ?f ?d) = take k (drop ?f ?d) @ [nl]"
      using t unfolding take_add by (simp add: add.commute)
    ultimately show thesis using that [of "k + 1"] k(2,3) by simp
  qed
qed

text \<open>
  C34: a delete that succeeds was of a declaration of its own, exported only if that was allowed, with no live reference
  in the index or only those of tests when that was allowed, and it leaves one file changed that still parses; a refusal
  or a failure leaves every file as it was. The witness is a recursive function: its own call keeps it.
\<close>

theorem DeleteSymbol_safe:
  assumes run: "DeleteSymbol db U env F q exported testonly fs = (r, fs')"
    and temp: "temp_fresh F fs" and target: "\<And>p path. se_evalSymlinks env p = Inr path \<Longrightarrow> fs path \<noteq> None"
  shows "case r of
      Inl e \<Rightarrow> only_temp_left F fs fs'
    | Inr w \<Rightarrow> \<exists>sy spn path refs. writeSpan db U env q = Inr (sy, spn, path) \<and> \<not> sm_partOfGroup (dsp_match spn)
        \<and> (\<not> exported \<longrightarrow> \<not> sy_Exported sy)
        \<and> liveReferences db (sy_QualifiedName sy) = Inr refs \<and> (refs \<noteq> [] \<longrightarrow> testonly \<and> refsAreTestOnly db refs)
        \<and> (\<exists>t. se_parse env path (delete_text spn) = Inr t) \<and> fs' = fs(path \<mapsto> delete_text spn)"
proof (cases "writeSpan db U env q")
  case (Inl e)
  with run show ?thesis by (auto simp: DeleteSymbol_def)
next
  case (Inr a)
  then obtain sy spn path where span: "writeSpan db U env q = Inr (sy, spn, path)" by (cases a) auto
  show ?thesis
  proof (cases "groupRefusal sy spn ''delete'' = None \<and> (\<not> exported \<longrightarrow> \<not> sy_Exported sy) \<and> deleteRefusal db sy testonly = None
      \<and> (\<exists>t. se_parse env path (delete_text spn) = Inr t)")
    case False
    with run span have "\<exists>e. r = Inl e" "fs' = fs"
      by (auto simp: DeleteSymbol_def parseWholeFile_def split: option.splits sum.splits if_splits)
    then show ?thesis by auto
  next
    case True
    then obtain refs where refs: "liveReferences db (sy_QualifiedName sy) = Inr refs" "refs \<noteq> [] \<longrightarrow> testonly \<and> refsAreTestOnly db refs"
      by (auto simp: deleteRefusal_def Let_def split: sum.splits if_splits)
    have alone: "\<not> sm_partOfGroup (dsp_match spn)" using True by (auto simp: groupRefusal_def split: if_splits)
    from True run span have "commit F path (delete_text spn)
        (newWriteResult ''delete'' sy spn (body_start True (dsp_match spn)) (sm_endOff (dsp_match spn))) fs = (r, fs')"
      by (auto simp: DeleteSymbol_def parseWholeFile_def)
    from commit_cases [OF this temp target [OF writeSpan_file [OF span]]] span alone refs True show ?thesis
      by (cases r) auto
  qed
qed

section \<open>A file\<close>

definition src_before :: string where
  "src_before = ''package p'' @ [nl, nl]"
definition src_decl :: string where
  "src_decl = ''func f() {}''"
definition src_after :: string where
  "src_after = [nl, nl] @ ''func g() {}'' @ [nl]"

definition file_decl :: func_decl where
  "file_decl = \<lparr>fd_Name = Some ''f'', fd_Recv = None, fd_Doc = None, fd_Pos = 11, fd_End = 22, fd_Line = 3, fd_NamePos = 16\<rparr>"

definition file_tree :: parsed where
  "file_tree = \<lparr>pf_Decls = [FuncDecl file_decl],
     pf_Tree = Node 0 0 None []\<rparr>"

definition file_env :: source_env where
  "file_env = \<lparr>se_readFile = (\<lambda>_. Inr (src_before @ src_decl @ src_after)),
     se_parse = (\<lambda>_ _. Inr file_tree),
     se_evalSymlinks = (\<lambda>p. Inr ''a.go''), se_cwd = Inr ''/''\<rparr>"

definition no_faults :: write_faults where
  "no_faults = \<lparr>wf_stat = None, wf_createTemp = Inr ''tmp'', wf_write = None, wf_close = None, wf_chmod = None, wf_rename = None,
     wf_remove = False\<rparr>"

definition file_symbol :: symbol where
  "file_symbol = (demo_symbol ''p.f'')\<lparr>sy_Name := ''f'', sy_Kind := ''function'', sy_PosFile := ''a.go'', sy_PosLine := 3, sy_Exported := False\<rparr>"

definition file_fs :: files_t where
  "file_fs = [''a.go'' \<mapsto> src_before @ src_decl @ src_after]"

definition file_match :: span_match where
  "file_match = \<lparr>sm_node = FuncDecl file_decl, sm_startOff = 11, sm_endOff = 22, sm_docStartOff = None, sm_groupMembers = 0, sm_partOfGroup = False\<rparr>"

lemma pf_name: "NormalizeQualifiedName ''p.f'' = ''p.f''"
  by (simp add: NormalizeQualifiedName_def contains_paren)

lemma file_span: "writeSpan (list_db rows [file_symbol] []) ascii_tables file_env ''p.f''
   = Inr (file_symbol, \<lparr>dsp_data = src_before @ src_decl @ src_after, dsp_match = file_match, dsp_stale = False\<rparr>, ''a.go'')"
  by (simp add: writeSpan_def SymbolByName_def list_db_def pf_name file_symbol_def demo_symbol_def symbolSpan_def file_env_def file_tree_def file_decl_def
      matchAtLine_def matchFuncDecl_def kindFunction_def kindMethod_def file_match_def)

lemma file_parse: "se_parse file_env n c = Inr file_tree"
  by (simp add: file_env_def)

lemma no_faults_commit: "commit no_faults path c w fs = (Inr w, (fs(''tmp'' \<mapsto> c, path \<mapsto> c))(''tmp'' := None))"
  by (simp add: commit_def writeFileAtomic_def no_faults_def)

lemma file_start: "body_start d file_match = 11" "sm_endOff file_match = 22" "\<not> sm_partOfGroup file_match"
  by (simp_all add: body_start_def file_match_def)

lemma file_slice: "slice (src_before @ src_decl @ src_after) 11 22 = src_decl"
  by (simp add: slice_def src_before_def src_decl_def src_after_def)

lemma file_temp: "temp_fresh no_faults file_fs"
  by (simp add: temp_fresh_def no_faults_def file_fs_def)

lemma file_target: "se_evalSymlinks file_env p = Inr path \<Longrightarrow> file_fs path \<noteq> None"
  by (auto simp: file_env_def file_fs_def)

theorem ReplaceSymbolBody_effect_witness:
  "snd (ReplaceSymbolBody (list_db [] [file_symbol] []) ascii_tables file_env no_faults ''p.f'' ''x'' True file_fs)
   = file_fs(''a.go'' \<mapsto> src_before @ ''x'' @ src_after)"
proof -
  let ?run = "ReplaceSymbolBody (list_db [] [file_symbol] []) ascii_tables file_env no_faults ''p.f'' ''x'' True file_fs"
  have trim: "trim_space ''x'' \<noteq> []"
    by (simp add: go_str_simps)
  have changed: "src_decl \<noteq> ''x''" by (simp add: src_decl_def)
  have "\<exists>w. fst ?run = Inr w"
    by (simp add: ReplaceSymbolBody_def file_span groupRefusal_def file_start file_slice Let_def spliceAndValidate_def validateSnippet_def
        trim file_parse parseWholeFile_def no_faults_commit changed)
  then obtain w fs' where "?run = (Inr w, fs')" by (cases ?run) auto
  from ReplaceSymbolBody_effect [OF this file_temp file_target] this
  show ?thesis
    by (simp add: file_span file_start file_slice Let_def) (simp add: file_start src_before_def src_decl_def src_after_def)
qed

theorem DeleteSymbol_safe_witness:
  "\<exists>e. DeleteSymbol (list_db [demo_row ''p.f'' ''p.f'' ''calls''] [file_symbol] []) ascii_tables file_env no_faults ''p.f'' True False file_fs
    = (Inl e, file_fs)"
proof -
  let ?db = "list_db [demo_row ''p.f'' ''p.f'' ''calls''] [file_symbol] []"
  let ?run = "DeleteSymbol ?db ascii_tables file_env no_faults ''p.f'' True False file_fs"
  obtain r fs' where run: "?run = (r, fs')" by (cases ?run)
  note spec = DeleteSymbol_safe [OF run file_temp file_target]
  have refs: "\<exists>x. liveReferences ?db (sy_QualifiedName file_symbol) = Inr [x]"
    by (simp add: liveReferences_def EdgesTo_def queryEdges_def list_db_def scanEdges_def demo_edge file_symbol_def demo_symbol_def pf_name
        liveEdgeTypes_def edgeTypeCalls_def)
  then have "\<not> (\<exists>w. r = Inr w)" using spec by (auto simp: file_span)
  then obtain e where e: "r = Inl e" by (cases r) auto
  show ?thesis using spec run e by (auto simp: only_temp_left_def no_faults_def)
qed

section \<open>Insertion at the end of a line\<close>

text \<open>An insert after a declaration with a comment on its last line moves the comment behind the inserted text.\<close>

lemma insertText_detaches_comment:
  "insertText (''f(){} // c'' @ [nl]) 5 ''g(){}'' = ''f(){}'' @ [nl, nl] @ ''g(){}'' @ [nl, nl] @ '' // c'' @ [nl]"
  by (simp add: insertText_def trim_newlines_def go_str_simps)

text \<open>Two blank lines before the cut stay two.\<close>

lemma insertText_keeps_two_blank_lines:
  "insertText [CHR ''x'', nl, nl, nl, CHR ''y''] 4 ''g'' = [CHR ''x'', nl, nl, nl, CHR ''g'', nl, nl, CHR ''y'']"
  by (simp add: insertText_def trim_newlines_def go_str_simps)

end
