(* ===== verification/Rename_Proofs.thy ===== *)
theory Rename_Proofs
  imports Rename Write_Proofs
begin

text \<open>
  Renames: splicing replaces exactly the planned ranges, a plan covers every position of the live edges, and what a failing
  application leaves.
\<close>

section \<open>Splicing\<close>

text \<open>
  Byte ranges that hold the text \<open>old\<close> in \<open>contents\<close>, from the last one to the first, none overlapping the next.
\<close>

fun holds_name :: "string \<Rightarrow> string \<Rightarrow> nat \<Rightarrow> rename_splice list \<Rightarrow> bool" where
  "holds_name contents old hi [] \<longleftrightarrow> True"
| "holds_name contents old hi (sp # sps) \<longleftrightarrow>
     sp_end sp = sp_start sp + length old \<and> sp_end sp \<le> hi \<and> take (length old) (drop (sp_start sp) contents) = old
     \<and> holds_name contents old (sp_start sp) sps"

text \<open>The pieces of the text between the ranges, and where the ranges are among them.\<close>

fun pieces :: "string \<Rightarrow> nat \<Rightarrow> rename_splice list \<Rightarrow> string list" where
  "pieces contents fin [] = [take fin contents]"
| "pieces contents fin (sp # sps) = pieces contents (sp_start sp) sps @ [take (fin - sp_end sp) (drop (sp_end sp) contents)]"

lemma pieces_nonempty [simp]: "pieces contents fin sps \<noteq> []"
  by (cases sps) simp_all

lemma length_pieces [simp]: "length (pieces contents fin sps) = length sps + 1"
  by (induction sps arbitrary: fin) simp_all

lemma join_pieces:
  "holds_name contents old fin sps \<Longrightarrow> fin \<le> length contents \<Longrightarrow> str_join old (pieces contents fin sps) = take fin contents"
proof (induction sps arbitrary: fin)
  case (Cons sp sps)
  let ?s = "sp_start sp" and ?e = "sp_end sp"
  have e: "?e = ?s + length old" "?e \<le> fin" "take (length old) (drop ?s contents) = old" using Cons.prems by simp_all
  have IH: "str_join old (pieces contents ?s sps) = take ?s contents" using Cons by simp
  have "take fin contents = take ?s contents @ take (fin - ?s) (drop ?s contents)"
    using e by (metis le_add1 le_add_diff_inverse le_trans take_add)
  also have "take (fin - ?s) (drop ?s contents) = old @ take (fin - ?e) (drop ?e contents)"
    using e take_add [of "length old" "fin - ?e" "drop ?s contents"] by (simp add: add.commute)
  finally show ?case using IH by (simp add: str_join_append)
qed simp

lemma splice_pieces:
  "holds_name contents old fin sps \<Longrightarrow> fin \<le> length contents \<Longrightarrow>
   spliceIdentifiers (take fin contents @ rest) sps newName = Inr (str_join newName (pieces contents fin sps) @ rest)"
proof (induction sps arbitrary: fin rest)
  case (Cons sp sps)
  let ?s = "sp_start sp" and ?e = "sp_end sp"
  have e: "?e = ?s + length old" "?e \<le> fin" "?s \<le> fin" using Cons.prems by simp_all
  have len: "fin \<le> length contents" using Cons.prems by simp
  have tail: "drop ?e (take fin contents) = take (fin - ?e) (drop ?e contents)" by (simp add: drop_take)
  have "spliceIdentifiers (take fin contents @ rest) (sp # sps) newName
      = spliceIdentifiers (take ?s contents @ (newName @ take (fin - ?e) (drop ?e contents) @ rest)) sps newName"
    using e len tail by (simp add: min_def)
  also have "\<dots> = Inr (str_join newName (pieces contents ?s sps) @ newName @ take (fin - ?e) (drop ?e contents) @ rest)"
    using Cons.IH [of ?s] Cons.prems e len by simp
  finally show ?case by (simp add: str_join_append)
qed simp

text \<open>
  rewriting the occurrences of a name at disjoint places replaces exactly them: cut at the places, the old text is the
  pieces joined by the old name and the new text is the same pieces joined by the new one.
\<close>

theorem spliceIdentifiers_exact:
  assumes "holds_name contents old (length contents) sps"
  shows "contents = str_join old (pieces contents (length contents) sps)
    \<and> spliceIdentifiers contents sps newName = Inr (str_join newName (pieces contents (length contents) sps))"
  using join_pieces [OF assms] splice_pieces [OF assms, of "[]"] by simp_all

text \<open>
  One place that is planned twice is rewritten twice, the second time over the text of the first. The plan keeps a place
  twice when two edges give its package differently, which it does when only one of their sources is an indexed symbol.
\<close>

lemma duplicate_site_corrupts:
  "spliceIdentifiers ''f()'' [\<lparr>sp_start = 0, sp_end = 1\<rparr>, \<lparr>sp_start = 0, sp_end = 1\<rparr>] ''send'' = Inr ''sendend()''"
  by simp

section \<open>Sites\<close>

lemma add_rename_site_mem [simp]: "set (add_rename_site x sites) = insert x (set sites)"
  by (auto simp: add_rename_site_def)

lemma fold_add_mem:
  "set (fold (\<lambda>s sites. if P s then sites else add_rename_site (g s) sites) xs sites) = set sites \<union> {g s |s. s \<in> set xs \<and> \<not> P s}"
  by (induction xs arbitrary: sites) auto

lemma edge_sites_mono: "set sites \<subseteq> set (edge_sites db e sites)"
  by (auto simp: edge_sites_def Let_def fold_add_mem)

lemma fold_edge_sites_mono: "set sites \<subseteq> set (fold (edge_sites db) edges sites)"
  by (induction edges arbitrary: sites) (use edge_sites_mono in fastforce)+

lemma edge_sites_mem:
  assumes "eg_EdgeType e \<in> set liveEdgeTypes" "s \<in> set (eg_Sites e)" "st_File s \<noteq> []"
  shows "\<exists>x\<in>set (edge_sites db e sites). rn_File x = st_File s \<and> rn_Line x = st_Line s \<and> rn_Column x = st_Column s"
  using assms by (auto simp: edge_sites_def Let_def fold_add_mem intro!: bexI [rotated])

lemma collected:
  assumes "collectRenameSites db sy = Inr sites" "EdgesTo db (sy_QualifiedName sy) = Inr edges" "e \<in> set edges"
    and "eg_EdgeType e \<in> set liveEdgeTypes" "s \<in> set (eg_Sites e)" "st_File s \<noteq> []"
  shows "\<exists>x\<in>set sites. rn_File x = st_File s \<and> rn_Line x = st_Line s \<and> rn_Column x = st_Column s"
proof -
  obtain before after where edges: "edges = before @ e # after" using assms(3) by (auto simp: in_set_conv_decomp)
  let ?start = "[\<lparr>rn_File = sy_PosFile sy, rn_Package = sy_PackagePath sy, rn_Line = sy_PosLine sy, rn_Column = 0\<rparr>]"
  have "sites = fold (edge_sites db) after (edge_sites db e (fold (edge_sites db) before ?start))"
    using assms(1,2) by (simp add: collectRenameSites_def edges)
  with edge_sites_mem [OF assms(4-6)] fold_edge_sites_mono show ?thesis by blast
qed

lemma sites_by_file_mem:
  "map_of (sites_by_file sites) p = Some ss \<Longrightarrow> set ss = {x\<in>set sites. rn_File x = p}"
  "x \<in> set sites \<Longrightarrow> \<exists>ss. map_of (sites_by_file sites) (rn_File x) = Some ss \<and> x \<in> set ss"
proof -
  have gen: "map_of (fold (\<lambda>s. gm_append (rn_File s) s) sites m) p =
      (if filter (\<lambda>x. rn_File x = p) sites = [] then map_of m p
       else Some ((case map_of m p of None \<Rightarrow> [] | Some l \<Rightarrow> l) @ filter (\<lambda>x. rn_File x = p) sites))" for m p
    by (induction sites arbitrary: m) (auto simp: gm_append_def gm_get_def split: option.splits)
  then have spec: "map_of (sites_by_file sites) p = (if filter (\<lambda>x. rn_File x = p) sites = [] then None
      else Some (filter (\<lambda>x. rn_File x = p) sites))" for p
    by (simp add: sites_by_file_def)
  show "map_of (sites_by_file sites) p = Some ss \<Longrightarrow> set ss = {x\<in>set sites. rn_File x = p}"
    unfolding spec by (auto split: if_splits)
  show "x \<in> set sites \<Longrightarrow> \<exists>ss. map_of (sites_by_file sites) (rn_File x) = Some ss \<and> x \<in> set ss"
    unfolding spec by (auto simp: filter_empty_conv)
qed

section \<open>The plan\<close>

definition name_splice :: "symbol \<Rightarrow> nat \<Rightarrow> rename_splice" where
  "name_splice sy start = \<lparr>sp_start = start, sp_end = start + length (sy_Name sy)\<rparr>"

lemma site_loop_found:
  "site_loop t contents sy ss = Some (sp, sh, []) \<Longrightarrow> s \<in> set ss \<Longrightarrow>
   \<exists>start. siteOffset t contents sy s = Some (Some start) \<and> name_splice sy start \<in> set sp"
proof (induction ss arbitrary: sp sh)
  case (Cons x ss)
  obtain start where x: "siteOffset t contents sy x = Some (Some start)"
    using Cons.prems(1) by (auto split: option.splits)
  with Cons.prems(1) obtain sp' sh' where rest: "site_loop t contents sy ss = Some (sp', sh', [])" "sp = name_splice sy start # sp'"
    by (auto simp: name_splice_def split: option.splits)
  show ?case using Cons.IH [OF rest(1)] Cons.prems(2) x rest(2) by auto
qed simp

lemma planFileRename_found:
  assumes "planFileRename U env sy path ss = Some (Inr (plan, sh))"
  obtains contents t where "re_readFile env path = Inr contents" "re_parse env path contents = Inr t"
    "fp_path plan = path" "fp_data plan = contents"
    "\<And>s. s \<in> set ss \<Longrightarrow> \<exists>start. siteOffset t contents sy s = Some (Some start) \<and> name_splice sy start \<in> set (fp_splices plan)"
proof -
  obtain contents t where ct: "re_readFile env path = Inr contents" "re_parse env path contents = Inr t"
    using assms by (auto simp: planFileRename_def split: sum.splits)
  with assms obtain sp where "site_loop t contents sy ss = Some (sp, sh, [])"
    "plan = \<lparr>fp_path = path, fp_data = contents, fp_splices = sort_by later_first sp\<rparr>"
    by (auto simp: planFileRename_def split: if_splits)
  with site_loop_found ct that show thesis by simp
qed

lemma plan_files_found:
  "plan_files f xs = Some (Inr (plans, shs)) \<Longrightarrow> x \<in> set xs \<Longrightarrow> \<exists>plan\<in>set plans. \<exists>sh. f x = Some (Inr (plan, sh))"
proof (induction xs arbitrary: plans shs)
  case (Cons y ys)
  obtain plan sh where y: "f y = Some (Inr (plan, sh))" using Cons.prems(1) by (auto split: option.splits sum.splits)
  with Cons.prems(1) obtain r where r: "plan_files f ys = Some r"
    and eq: "map_sum id (\<lambda>(plans, shs). (plan # plans, sh @ shs)) r = Inr (plans, shs)" by auto
  then obtain plans' shs' where "r = Inr (plans', shs')" "plans = plan # plans'" by (cases r) auto
  with Cons.IH [of plans' shs'] Cons.prems(2) y r show ?case by auto
qed simp

lemma RenameSymbol_planned:
  assumes "RenameSymbol db U env q new force = Some (Inr plan)"
  obtains sy sites sh where "renameTarget db U q = Inr sy" "collectRenameSites db sy = Inr sites" "visibilityRefusal sy sites = None"
    "renameCollision db sy new = None" "IsIdentifier U new" "planRename U env sy sites = Some (Inr (pl_plans plan, sh))"
proof -
  obtain sy where sy: "renameTarget db U q = Inr sy" using assms by (auto simp: RenameSymbol_def split: sum.splits)
  have new: "new \<noteq> sy_Name sy" "IsIdentifier U new" using assms sy by (auto simp: RenameSymbol_def split: if_splits)
  have col: "renameCollision db sy new = None" using assms sy new by (auto simp: RenameSymbol_def split: option.splits)
  obtain sites where sites: "collectRenameSites db sy = Inr sites"
    using assms sy new col by (auto simp: RenameSymbol_def split: sum.splits)
  have vis: "visibilityRefusal sy sites = None"
    using assms sy new col sites by (auto simp: RenameSymbol_def split: option.splits)
  obtain r where r: "planRename U env sy sites = Some r" using assms sy new col sites vis by (auto simp: RenameSymbol_def)
  then obtain plans sh where "r = Inr (plans, sh)"
    using assms sy new col sites vis by (cases r) (auto simp: RenameSymbol_def)
  with r have plans: "planRename U env sy sites = Some (Inr (plans, sh))" "pl_plans plan = plans"
    using assms sy new col sites vis by (auto simp: RenameSymbol_def split: if_splits)
  from that [OF sy sites vis col new(2)] plans show thesis by simp
qed

text \<open>Every position of a live edge is among the sites, so each of them was found in its file.\<close>

lemma every_planned_site:
  assumes plan: "RenameSymbol db U env q new force = Some (Inr plan)" and target: "renameTarget db U q = Inr sy"
    and edge: "EdgesTo db (sy_QualifiedName sy) = Inr edges" "e \<in> set edges" "eg_EdgeType e \<in> set liveEdgeTypes"
    and site: "s \<in> set (eg_Sites e)" "st_File s \<noteq> []" "st_Column s \<noteq> 0"
  shows "\<exists>contents t f. re_readFile env (st_File s) = Inr contents \<and> re_parse env (st_File s) contents = Inr t
    \<and> map_of (identifierOffsets t) (st_Line s, st_Column s) = Some (sy_Name sy)
    \<and> f \<in> set (pl_plans plan) \<and> fp_path f = st_File s \<and> fp_data f = contents
    \<and> name_splice sy (nat (int (token_lines contents ! nat (st_Line s - 1)) + st_Column s - 1)) \<in> set (fp_splices f)"
proof -
  obtain sy' sites sh where "renameTarget db U q = Inr sy'" "collectRenameSites db sy' = Inr sites"
    "planRename U env sy' sites = Some (Inr (pl_plans plan, sh))"
    by (rule RenameSymbol_planned [OF plan]) blast
  then have sites: "collectRenameSites db sy = Inr sites" and plans: "planRename U env sy sites = Some (Inr (pl_plans plan, sh))"
    using target by simp_all
  obtain x where x: "x \<in> set sites" "rn_File x = st_File s" "rn_Line x = st_Line s" "rn_Column x = st_Column s"
    using collected [OF sites edge site(1,2)] by blast
  obtain ss where ss: "map_of (sites_by_file sites) (st_File s) = Some ss" "x \<in> set ss"
    using sites_by_file_mem(2) [OF x(1)] x(2) by auto
  have "(st_File s, ss) \<in> set (sites_by_file sites)" using ss(1) by (rule map_of_SomeD)
  from plan_files_found [OF plans [unfolded planRename_def] this]
  obtain f sh' where f: "f \<in> set (pl_plans plan)" "planFileRename U env sy (st_File s) ss = Some (Inr (f, sh'))" by auto
  obtain contents t where t: "re_readFile env (st_File s) = Inr contents" "re_parse env (st_File s) contents = Inr t"
    "fp_path f = st_File s" "fp_data f = contents"
    and found: "\<And>y. y \<in> set ss \<Longrightarrow> \<exists>start. siteOffset t contents sy y = Some (Some start) \<and> name_splice sy start \<in> set (fp_splices f)"
    using planFileRename_found [OF f(2)] by blast
  obtain start where start: "siteOffset t contents sy x = Some (Some start)" "name_splice sy start \<in> set (fp_splices f)"
    using found ss(2) by blast
  have "map_of (identifierOffsets t) (st_Line s, st_Column s) = Some (sy_Name sy)"
    "start = nat (int (token_lines contents ! nat (st_Line s - 1)) + st_Column s - 1)"
    using start(1) x site(3) by (auto simp: siteOffset_def Let_def split: if_splits)
  with t f(1) start(2) show ?thesis by blast
qed

text \<open>An interface with an implementer of another name is never renamed.\<close>

lemma interface_never_renamed:
  assumes "renameTarget db U q = Inr sy" "EdgesTo db (sy_QualifiedName sy) = Inr edges" "e \<in> set edges" "eg_EdgeType e = ''satisfies''"
    and "s \<in> set (eg_Sites e)" "st_File s \<noteq> []" "st_Column s \<noteq> 0" "re_readFile env (st_File s) = Inr contents"
    and "re_parse env (st_File s) contents = Inr t" "map_of (identifierOffsets t) (st_Line s, st_Column s) = Some implementer"
    and "implementer \<noteq> sy_Name sy"
  shows "RenameSymbol db U env q new force \<noteq> Some (Inr plan)"
proof
  assume "RenameSymbol db U env q new force = Some (Inr plan)"
  moreover have "eg_EdgeType e \<in> set liveEdgeTypes" using assms(4) by (simp add: liveEdgeTypes_def edgeTypeSatisfies_def)
  ultimately show False using every_planned_site [OF _ assms(1-3) _ assms(5-7)] assms(8-11) by fastforce
qed

section \<open>Application\<close>

definition written :: "(string \<times> string) list \<Rightarrow> files_t \<Rightarrow> files_t" where
  "written rw fs = fold (\<lambda>(p, c) fs. fs(p \<mapsto> c)) rw fs"

lemma write_all_prefix:
  "write_all faults rw fs = (r, fs') \<Longrightarrow> \<forall>(p, c)\<in>set rw. fs p \<noteq> None \<and> temp_fresh (faults p) fs \<Longrightarrow>
   \<exists>k\<le>length rw. case r of
      Inr _ \<Rightarrow> k = length rw \<and> fs' = written rw fs
    | Inl _ \<Rightarrow> k < length rw \<and> only_temp_left (faults (fst (rw ! k))) (written (take k rw) fs) fs'"
proof (induction rw arbitrary: fs)
  case (Cons x rest)
  obtain p c where x: "x = (p, c)" by (cases x)
  obtain r1 fs1 where run: "writeFileAtomic (faults p) p c fs = (r1, fs1)" by (cases "writeFileAtomic (faults p) p c fs")
  have here: "fs p \<noteq> None" "temp_fresh (faults p) fs" using Cons.prems(2) x by auto
  have fresh: "fs t = None" if "wf_createTemp (faults p) = Inr t" for t
    using here(2) that by (auto simp: temp_fresh_def)
  show ?case
  proof (cases r1)
    case (Inl e)
    then have "only_temp_left (faults p) fs fs1" "r = Inl e" "fs' = fs1"
      using writeFileAtomic_cases [OF run fresh here(1)] run Cons.prems(1) x by (auto simp: only_temp_left_def)
    then show ?thesis using x by (auto simp: written_def intro!: exI [of _ 0])
  next
    case (Inr u)
    then have fs1: "fs1 = fs(p \<mapsto> c)" using writeFileAtomic_cases [OF run fresh here(1)] by auto
    have "\<forall>(q, d)\<in>set rest. fs1 q \<noteq> None \<and> temp_fresh (faults q) fs1"
    proof clarify
      fix q d assume "(q, d) \<in> set rest"
      with Cons.prems(2) have q: "fs q \<noteq> None" "temp_fresh (faults q) fs" by auto
      have "fs1 t = None" if "wf_createTemp (faults q) = Inr t" for t
        using q(2) that here(1) by (auto simp: temp_fresh_def fs1)
      then show "fs1 q \<noteq> None \<and> temp_fresh (faults q) fs1" using q(1) by (auto simp: temp_fresh_def fs1)
    qed
    moreover have "write_all faults rest fs1 = (r, fs')" using Cons.prems(1) x run Inr by simp
    ultimately obtain k where "k \<le> length rest" "case r of
        Inr _ \<Rightarrow> k = length rest \<and> fs' = written rest fs1
      | Inl _ \<Rightarrow> k < length rest \<and> only_temp_left (faults (fst (rest ! k))) (written (take k rest) fs1) fs'"
      using Cons.IH [of fs1] by blast
    then show ?thesis using x by (intro exI [of _ "Suc k"]) (auto simp: written_def fs1 split: sum.splits)
  qed
qed (auto simp: written_def)

lemma each_r_paths: "each_r (rewrite_file env plan) fs = Inr rw \<Longrightarrow> map fst rw = map fp_path fs"
  by (induction fs arbitrary: rw) (auto simp: rewrite_file_def split: sum.splits if_splits)

lemma each_r_written:
  "each_r (rewrite_file env plan) fs = Inr rw \<Longrightarrow> k < length fs \<Longrightarrow> rewrite_file env plan (fs ! k) = Inr (rw ! k)"
  by (induction fs arbitrary: rw k) (auto simp: nth_Cons split: sum.splits nat.splits)

text \<open>
  C35: applying a plan. Every file is checked against the contents it was planned on, rewritten and parsed before the first
  write, so a refusal leaves all of them; when a write fails, the files before it in the plan are renamed and the ones from it
  on are not, and nothing else changes but for a temporary file that could not be removed.
\<close>

theorem ApplyRename_prefix:
  assumes run: "ApplyRename env faults plan fs = (r, fs')"
    and files: "\<And>f. f \<in> set (pl_plans plan) \<Longrightarrow> fs (fp_path f) \<noteq> None \<and> temp_fresh (faults (fp_path f)) fs"
  shows "(\<exists>e. r = Inl e) \<and> fs' = fs \<or>
    (\<exists>rw k. length rw = length (pl_plans plan)
      \<and> (\<forall>j<length rw. \<exists>t. re_readFile env (fst (rw ! j)) = Inr (fp_data (pl_plans plan ! j)) \<and> fst (rw ! j) = fp_path (pl_plans plan ! j)
          \<and> spliceIdentifiers (fp_data (pl_plans plan ! j)) (fp_splices (pl_plans plan ! j)) (pl_NewName plan) = Inr (snd (rw ! j))
          \<and> re_parse env (fst (rw ! j)) (snd (rw ! j)) = Inr t)
      \<and> (case r of Inr _ \<Rightarrow> fs' = written rw fs
         | Inl _ \<Rightarrow> k < length rw \<and> only_temp_left (faults (fst (rw ! k))) (written (take k rw) fs) fs'))"
proof (cases "each_r (rewrite_file env plan) (pl_plans plan)")
  case (Inl e)
  with run have "r = Inl e" "fs' = fs" by (simp_all add: ApplyRename_def)
  then show ?thesis by blast
next
  case (Inr rw)
  have len: "length rw = length (pl_plans plan)" using each_r_paths [OF Inr] by (metis length_map)
  obtain r1 where w: "write_all faults rw fs = (r1, fs')" "case r1 of Inl e \<Rightarrow> r = Inl e | Inr _ \<Rightarrow> \<exists>x. r = Inr x"
    using run Inr by (cases "write_all faults rw fs"; cases "fst (write_all faults rw fs)") (auto simp: ApplyRename_def)
  have "fst x \<in> fp_path ` set (pl_plans plan)" if "x \<in> set rw" for x
    using that each_r_paths [OF Inr] by (metis image_eqI list.set_map)
  then have "\<forall>(p, c)\<in>set rw. fs p \<noteq> None \<and> temp_fresh (faults p) fs" using files by fastforce
  from write_all_prefix [OF w(1) this] obtain k where k: "case r1 of
      Inr _ \<Rightarrow> k = length rw \<and> fs' = written rw fs
    | Inl _ \<Rightarrow> k < length rw \<and> only_temp_left (faults (fst (rw ! k))) (written (take k rw) fs) fs'" by blast
  have each: "\<exists>t. re_readFile env (fst (rw ! j)) = Inr (fp_data (pl_plans plan ! j)) \<and> fst (rw ! j) = fp_path (pl_plans plan ! j)
      \<and> spliceIdentifiers (fp_data (pl_plans plan ! j)) (fp_splices (pl_plans plan ! j)) (pl_NewName plan) = Inr (snd (rw ! j))
      \<and> re_parse env (fst (rw ! j)) (snd (rw ! j)) = Inr t" if "j < length rw" for j
    using each_r_written [OF Inr, of j] that len by (cases "rw ! j") (auto simp: rewrite_file_def split: sum.splits if_splits)
  have "case r of Inr _ \<Rightarrow> fs' = written rw fs
      | Inl _ \<Rightarrow> k < length rw \<and> only_temp_left (faults (fst (rw ! k))) (written (take k rw) fs) fs'"
    using k w(2) by (cases r1) auto
  with len each show ?thesis by blast
qed

section \<open>An interface and a struct of one name\<close>

definition store_ident :: ident where
  "store_ident = \<lparr>id_Name = ''Store'', id_Line = 1, id_Column = 6, id_Offset = 5\<rparr>"

definition store_env :: rename_env where
  "store_env = \<lparr>re_readFile = (\<lambda>p. Inr ''type Store int''),
     re_parse = (\<lambda>p c. Inr \<lparr>rt_Decls = [RGenDecl [RTypeSpec (Some store_ident)]], rt_Idents = [store_ident]\<rparr>),
     re_ListRepos = Inr []\<rparr>"

definition store_symbol :: "string \<Rightarrow> symbol" where
  "store_symbol p = (demo_symbol (p @ ''.Store''))\<lparr>sy_PackagePath := p, sy_Name := ''Store'', sy_Kind := ''type'', sy_PosFile := p @ ''.go''\<rparr>"

definition store_db_demo :: store_db where
  "store_db_demo = (list_db [(demo_row ''b.Store'' ''a.Store'' ''satisfies'')\<lparr>ew_sites := Some ''s''\<rparr>]
     [store_symbol ''a'', store_symbol ''b''] [])
     \<lparr>db_sites := (\<lambda>_. Inr [\<lparr>st_File = ''b.go'', st_Line = 1, st_Column = 6\<rparr>])\<rparr>"

lemma store_names: "NormalizeQualifiedName ''a.Store'' = ''a.Store''" "NormalizeQualifiedName ''b.Store'' = ''b.Store''"
  by (simp_all add: NormalizeQualifiedName_def contains_paren)

lemma store_target: "renameTarget store_db_demo ascii_tables ''a.Store'' = Inr (store_symbol ''a'')"
  by (simp add: renameTarget_def SymbolByName_def store_db_demo_def list_db_def store_names store_symbol_def demo_symbol_def)

definition store_edge :: edge where
  "store_edge = \<lparr>eg_FromRef = ''b.Store'', eg_ToRef = ''a.Store'', eg_EdgeType = ''satisfies'', eg_PosFile = [], eg_Repo = [],
     eg_Sites = [\<lparr>st_File = ''b.go'', st_Line = 1, st_Column = 6\<rparr>], eg_PosLine = 1, eg_SiteCount = 1\<rparr>"

lemma store_edges: "EdgesTo store_db_demo ''a.Store'' = Inr [store_edge]"
  by (simp add: EdgesTo_def queryEdges_def store_db_demo_def list_db_def store_names demo_row_def scanEdges_def scan_edge_def store_edge_def)

lemma store_from: "SymbolByName store_db_demo ''b.Store'' = Inr (Some (store_symbol ''b''))"
  by (simp add: SymbolByName_def store_db_demo_def list_db_def store_names store_symbol_def demo_symbol_def)

lemma store_live: "eg_EdgeType store_edge \<in> set liveEdgeTypes"
  by (simp add: store_edge_def liveEdgeTypes_def edgeTypeSatisfies_def)

definition store_sites :: "rename_site list" where
  "store_sites = [\<lparr>rn_File = ''a.go'', rn_Package = ''a'', rn_Line = 1, rn_Column = 0\<rparr>,
     \<lparr>rn_File = ''b.go'', rn_Package = ''b'', rn_Line = 1, rn_Column = 6\<rparr>]"

lemma store_collected: "collectRenameSites store_db_demo (store_symbol ''a'') = Inr store_sites"
proof -
  have sy: "sy_QualifiedName (store_symbol ''a'') = ''a.Store''" "sy_PosFile (store_symbol ''a'') = ''a.go''"
    "sy_PackagePath (store_symbol ''a'') = ''a''" "sy_PosLine (store_symbol ''a'') = 1" "sy_PackagePath (store_symbol ''b'') = ''b''"
    by (simp_all add: store_symbol_def demo_symbol_def)
  show ?thesis
    using store_live store_from unfolding collectRenameSites_def sy store_edges
    by (simp add: edge_sites_def store_edge_def Let_def add_rename_site_def store_sites_def sy)
qed

lemma store_planned: "\<exists>f g. planRename ascii_tables store_env (store_symbol ''a'') store_sites = Some (Inr ([f, g], []))"
  by (simp add: planRename_def sites_by_file_def store_sites_def gm_append_def gm_put_def gm_get_def planFileRename_def store_env_def
      siteOffset_def declarationOffset_def declaredIdent_def spec_ident_def identAtLine_def store_symbol_def demo_symbol_def store_ident_def
      identifierOffsets_def token_lines_def Let_def)

text \<open>
  C21: a plan covers every position of every live edge into the symbol: the identifier at that position has the name of the
  symbol, and the plan replaces the bytes there. That includes the position of a \<^verbatim>\<open>satisfies\<close> edge, which is where the
  implementing type declares itself: an interface whose implementer has another name is never renamed, and one whose
  implementer has the same name in another package takes that declaration along (the witness).
\<close>

theorem RenameSymbol_every_site:
  assumes "RenameSymbol db U env q new force = Some (Inr plan)" and "renameTarget db U q = Inr sy"
    and "EdgesTo db (sy_QualifiedName sy) = Inr edges" "e \<in> set edges" "eg_EdgeType e \<in> set liveEdgeTypes"
    and "s \<in> set (eg_Sites e)" "st_File s \<noteq> []" "st_Column s \<noteq> 0"
  shows "\<exists>contents t f. re_readFile env (st_File s) = Inr contents \<and> re_parse env (st_File s) contents = Inr t
    \<and> map_of (identifierOffsets t) (st_Line s, st_Column s) = Some (sy_Name sy)
    \<and> f \<in> set (pl_plans plan) \<and> fp_path f = st_File s \<and> fp_data f = contents
    \<and> name_splice sy (nat (int (token_lines contents ! nat (st_Line s - 1)) + st_Column s - 1)) \<in> set (fp_splices f)"
  using assms by (rule every_planned_site)

theorem RenameSymbol_every_site_witness:
  "\<exists>plan f. RenameSymbol store_db_demo ascii_tables store_env ''a.Store'' ''Repo'' False = Some (Inr plan)
     \<and> f \<in> set (pl_plans plan) \<and> fp_path f = ''b.go'' \<and> \<lparr>sp_start = 5, sp_end = 10\<rparr> \<in> set (fp_splices f)"
proof -
  have ok: "IsIdentifier ascii_tables ''Repo''" by (simp add: IsIdentifier_def go_keywords_def go_str_simps)
  have col: "renameCollision store_db_demo (store_symbol ''a'') ''Repo'' = None"
  proof -
    have "SymbolsByPackage store_db_demo ''a'' True = Inr [store_symbol ''a'']"
      by (simp add: SymbolsByPackage_def by_qualified_name_def store_db_demo_def list_db_def store_symbol_def demo_symbol_def and_not_test_def)
    then show ?thesis
      by (simp add: renameCollision_def kindMethod_def) (simp add: store_symbol_def demo_symbol_def)
  qed
  have vis: "visibilityRefusal (store_symbol ''a'') store_sites = None"
    by (simp add: visibilityRefusal_def store_symbol_def demo_symbol_def Let_def)
  have new: "''Repo'' \<noteq> sy_Name (store_symbol ''a'')" by (simp add: store_symbol_def)
  obtain f g where "planRename ascii_tables store_env (store_symbol ''a'') store_sites = Some (Inr ([f, g], []))"
    using store_planned by blast
  then obtain plan where plan: "RenameSymbol store_db_demo ascii_tables store_env ''a.Store'' ''Repo'' False = Some (Inr plan)"
    using new ok by (simp add: RenameSymbol_def store_target col store_collected vis)
  have qn: "EdgesTo store_db_demo (sy_QualifiedName (store_symbol ''a'')) = Inr [store_edge]"
    using store_edges by (simp add: store_symbol_def demo_symbol_def)
  have "name_splice (store_symbol ''a'') 5 = \<lparr>sp_start = 5, sp_end = 10\<rparr>" by (simp add: name_splice_def store_symbol_def)
  moreover have "token_lines ''type Store int'' ! 0 = 0" by (simp add: token_lines_def)
  ultimately show ?thesis
    using RenameSymbol_every_site [OF plan store_target qn _ store_live, of "\<lparr>st_File = ''b.go'', st_Line = 1, st_Column = 6\<rparr>"] plan
    by (auto simp: store_edge_def store_env_def)
qed

theorem spliceIdentifiers_exact_witness:
  "spliceIdentifiers ''f(f)'' [\<lparr>sp_start = 2, sp_end = 3\<rparr>, \<lparr>sp_start = 0, sp_end = 1\<rparr>] ''go'' = Inr ''go(go)''"
  using spliceIdentifiers_exact [of "''f(f)''" "''f''" "[\<lparr>sp_start = 2, sp_end = 3\<rparr>, \<lparr>sp_start = 0, sp_end = 1\<rparr>]" "''go''"] by simp

theorem ApplyRename_prefix_witness:
  "\<exists>r fs'. ApplyRename store_env (\<lambda>_. no_faults) \<lparr>pl_QualifiedName = ''a.Store'', pl_NewName = ''Repo'', pl_Files = [], pl_Repos = [],
       pl_OverriddenShadowing = [], pl_plans = [\<lparr>fp_path = ''a.go'', fp_data = ''type Store int'', fp_splices = [\<lparr>sp_start = 5, sp_end = 10\<rparr>]\<rparr>],
       pl_SiteCount = 1\<rparr> [''a.go'' \<mapsto> ''type Store int''] = (r, fs')
     \<and> (fs' = [''a.go'' \<mapsto> ''type Store int''] \<or> fs' = [''a.go'' \<mapsto> ''type Repo int''])"
proof -
  let ?plan = "\<lparr>pl_QualifiedName = ''a.Store'', pl_NewName = ''Repo'', pl_Files = [], pl_Repos = [],
       pl_OverriddenShadowing = [], pl_plans = [\<lparr>fp_path = ''a.go'', fp_data = ''type Store int'', fp_splices = [\<lparr>sp_start = 5, sp_end = 10\<rparr>]\<rparr>],
       pl_SiteCount = 1\<rparr>"
  obtain r fs' where run: "ApplyRename store_env (\<lambda>_. no_faults) ?plan [''a.go'' \<mapsto> ''type Store int''] = (r, fs')"
    by (cases "ApplyRename store_env (\<lambda>_. no_faults) ?plan [''a.go'' \<mapsto> ''type Store int'']")
  have one: "length rw = Suc 0 \<Longrightarrow> \<exists>p c. rw = [(p, c)]" for rw :: "(string \<times> string) list" by (cases rw) auto
  show ?thesis
    using ApplyRename_prefix [OF run] run
    by (cases r) (auto simp: temp_fresh_def no_faults_def only_temp_left_def written_def dest!: one)
qed
end
