(* ===== verification/Tools.thy ===== *)
theory Tools
  imports Overflow Symbols
begin

text \<open>
  The arguments of a tool call (\<^verbatim>\<open>mcp/server.go\<close>): the tables of validated arguments, the validators that read them, and
  the readers that turn arguments into query options. Arguments are decoded JSON: a map from names to values.
\<close>

type_synonym args = "(string \<times> json) list"

section \<open>Tables\<close>

record int_spec =
  is_key :: string
  is_min :: int
  is_max :: int

record float_spec =
  fsp_key :: string
  fsp_min :: f64
  fsp_max :: f64

record enum_spec =
  en_key :: string
  en_allowed :: "string list"
  en_slice :: bool

definition validEdgeTypes :: "string list" where
  "validEdgeTypes = [''calls'', ''references'', ''satisfies'', ''embeds'', ''imports'']"
definition validKinds :: "string list" where
  "validKinds = [''function'', ''method'', ''type'', ''interface'', ''alias'', ''const'', ''var'']"
definition validSeverities :: "string list" where
  "validSeverities = [''compatible'', ''breaking'', ''unknown'']"
definition validDirections :: "string list" where
  "validDirections = [''producer'', ''consumer'', ''shared'']"
definition validRuntimeKinds :: "string list" where
  "validRuntimeKinds = [''redis'', ''jetstream'', ''ws_type'']"
definition validHeuristics :: "string list" where
  "validHeuristics = [''main'', ''test'', ''uncalled_exported'', ''handler_sig'', ''handler_name'']"
definition validImportDirs :: "string list" where
  "validImportDirs = [''in'', ''out'']"
definition validSearchModes :: "string list" where
  "validSearchModes = [''substring'', ''prefix'', ''method'']"
definition validRankModes :: "string list" where
  "validRankModes = [''churn'', ''pagerank'']"
definition GeneratedFilterNames :: "string list" where
  "GeneratedFilterNames = [''any'', ''exclude'', ''only'']"

definition isp :: "string \<Rightarrow> int \<Rightarrow> int \<Rightarrow> int_spec" where
  "isp k lo hi = \<lparr>is_key = k, is_min = lo, is_max = hi\<rparr>"
definition esp :: "string \<Rightarrow> string list \<Rightarrow> bool \<Rightarrow> enum_spec" where
  "esp k allowed sl = \<lparr>en_key = k, en_allowed = allowed, en_slice = sl\<rparr>"

definition toolIntArgs :: "(string, int_spec list) gomap" where
  "toolIntArgs =
     [(''callers_of'', [isp ''depth'' 1 100]),
      (''callees_of'', [isp ''depth'' 1 100]),
      (''blast_radius'', [isp ''depth'' 1 100]),
      (''find_path'', [isp ''max_depth'' 1 100]),
      (''get_hotspots'', [isp ''top_n'' 1 500, isp ''min_complexity'' 0 1000000, isp ''min_churn'' 0 1000000, isp ''scope'' 0 1000000]),
      (''dependency_flow'', [isp ''top_hubs'' 1 500]),
      (''search_text'', [isp ''context_lines'' 0 500]),
      (''show'', [isp ''context_lines'' 0 500]),
      (''get_context_bundle'', [isp ''token_budget'' 1 1000000]),
      (''read_response_section'', [isp ''section'' 0 1000000, isp ''limit'' 1 100])]"

definition toolFloatArgs :: "(string, float_spec list) gomap" where
  "toolFloatArgs = [(''contracts'', [\<lparr>fsp_key = ''min_confidence'', fsp_min = 0, fsp_max = 1\<rparr>])]"

definition toolEnumArgs :: "(string, enum_spec list) gomap" where
  "toolEnumArgs =
     [(''callers_of'', [esp ''edge_types'' validEdgeTypes True]),
      (''callees_of'', [esp ''edge_types'' validEdgeTypes True]),
      (''search'', [esp ''kind'' validKinds False, esp ''mode'' validSearchModes False, esp ''generated'' GeneratedFilterNames False]),
      (''all_edges'', [esp ''edge_type'' validEdgeTypes False]),
      (''cycles'', [esp ''edge_type'' validEdgeTypes False]),
      (''imports_of'', [esp ''direction'' validImportDirs False]),
      (''get_hotspots'', [esp ''mode'' validRankModes False]),
      (''contracts'', [esp ''direction'' validDirections False, esp ''severity'' validSeverities False]),
      (''contract_drift'', [esp ''severity'' validSeverities False]),
      (''runtime_contracts'', [esp ''kind'' validRuntimeKinds False]),
      (''entry_points'', [esp ''heuristics'' validHeuristics True])]"

section \<open>Validation\<close>

text \<open>
  \<^verbatim>\<open>int(v)\<close> of a \<^verbatim>\<open>float64\<close>: toward zero; out of the range of \<^verbatim>\<open>int\<close> the result depends on the machine, here it is the
  one of amd64.
\<close>

definition go_int :: "f64 \<Rightarrow> int" where
  "go_int v = (if - (2 ^ 63) \<le> v \<and> v < 2 ^ 63 then int_of_float v else - (2 ^ 63))"

text \<open>\<open>fmt_v\<close> is the verb \<^verbatim>\<open>%v\<close> on a decoded JSON value.\<close>

definition validateInt :: "(json \<Rightarrow> string) \<Rightarrow> string \<Rightarrow> string \<Rightarrow> f64 \<Rightarrow> int \<Rightarrow> int \<Rightarrow> int result" where
  "validateInt fmt_v tool name v lo hi =
     (let iv = go_int v in
        if f_of_int iv \<noteq> v then Inl (tool @ '' '' @ name @ '' must be an integer, got '' @ fmt_v (JNum v))
        else if iv < lo \<or> hi < iv
        then Inl (tool @ '' '' @ name @ '' must be between '' @ itoa lo @ '' and '' @ itoa hi @ '', got '' @ itoa iv)
        else Inr iv)"

definition validateIntArg :: "(json \<Rightarrow> string) \<Rightarrow> string \<Rightarrow> string \<Rightarrow> args \<Rightarrow> int \<Rightarrow> int \<Rightarrow> unit result" where
  "validateIntArg fmt_v tool name args lo hi =
     (case map_of args name of
        None \<Rightarrow> Inr ()
      | Some (JNum v) \<Rightarrow> map_sum id (\<lambda>_. ()) (validateInt fmt_v tool name v lo hi)
      | Some raw \<Rightarrow> Inl (tool @ '' '' @ name @ '' must be a number, got '' @ fmt_v raw))"

definition validateFloatArg :: "(json \<Rightarrow> string) \<Rightarrow> string \<Rightarrow> string \<Rightarrow> args \<Rightarrow> f64 \<Rightarrow> f64 \<Rightarrow> unit result" where
  "validateFloatArg fmt_v tool name args lo hi =
     (case map_of args name of
        None \<Rightarrow> Inr ()
      | Some (JNum v) \<Rightarrow>
          if v < lo \<or> hi < v
          then Inl (tool @ '' '' @ name @ '' must be between '' @ fmt_v (JNum lo) @ '' and '' @ fmt_v (JNum hi) @ '', got '' @ fmt_v (JNum v))
          else Inr ()
      | Some raw \<Rightarrow> Inl (tool @ '' '' @ name @ '' must be a number, got '' @ fmt_v raw))"

definition validateEnum :: "unidata \<Rightarrow> string \<Rightarrow> string \<Rightarrow> string \<Rightarrow> string list \<Rightarrow> unit result" where
  "validateEnum U tool name val allowed =
     (if val \<in> set allowed then Inr ()
      else Inl (tool @ '' '' @ name @ '' must be one of ['' @ str_join '', '' allowed @ ''], got '' @ go_quote U val))"

definition validateStringArg :: "unidata \<Rightarrow> string \<Rightarrow> string \<Rightarrow> args \<Rightarrow> string list \<Rightarrow> unit result" where
  "validateStringArg U tool name args allowed =
     (case map_of args name of
        Some (JStr v) \<Rightarrow> if v = [] then Inr () else validateEnum U tool name v allowed | _ \<Rightarrow> Inr ())"

text \<open>The first error of a list of checks.\<close>

fun first_error :: "('a \<Rightarrow> unit result) \<Rightarrow> 'a list \<Rightarrow> unit result" where
  "first_error f [] = Inr ()"
| "first_error f (x # xs) = (case f x of Inl e \<Rightarrow> Inl e | Inr _ \<Rightarrow> first_error f xs)"

definition validateStringEnumSlice :: "unidata \<Rightarrow> string \<Rightarrow> string \<Rightarrow> args \<Rightarrow> string list \<Rightarrow> unit result" where
  "validateStringEnumSlice U tool name args allowed =
     (case map_of args name of
        Some (JArr arr) \<Rightarrow>
          first_error (\<lambda>item. case item of JStr s \<Rightarrow> validateEnum U tool name s allowed | _ \<Rightarrow> Inr ()) arr
      | _ \<Rightarrow> Inr ())"

definition validateToolArgs :: "(json \<Rightarrow> string) \<Rightarrow> unidata \<Rightarrow> string \<Rightarrow> args \<Rightarrow> unit result" where
  "validateToolArgs fmt_v U tool args =
     (case first_error (\<lambda>s. validateIntArg fmt_v tool (is_key s) args (is_min s) (is_max s)) (gm_get [] toolIntArgs tool) of
        Inl e \<Rightarrow> Inl e
      | Inr _ \<Rightarrow>
          (case first_error (\<lambda>s. validateFloatArg fmt_v tool (fsp_key s) args (fsp_min s) (fsp_max s)) (gm_get [] toolFloatArgs tool) of
             Inl e \<Rightarrow> Inl e
           | Inr _ \<Rightarrow>
               first_error (\<lambda>s. if en_slice s then validateStringEnumSlice U tool (en_key s) args (en_allowed s)
                   else validateStringArg U tool (en_key s) args (en_allowed s)) (gm_get [] toolEnumArgs tool)))"

section \<open>Reading arguments\<close>

definition string_arg :: "args \<Rightarrow> string \<Rightarrow> string option" where
  "string_arg args k = (case map_of args k of Some (JStr v) \<Rightarrow> Some v | _ \<Rightarrow> None)"

definition bool_arg :: "args \<Rightarrow> string \<Rightarrow> bool option" where
  "bool_arg args k = (case map_of args k of Some (JBool b) \<Rightarrow> Some b | _ \<Rightarrow> None)"

definition num_arg :: "args \<Rightarrow> string \<Rightarrow> f64 option" where
  "num_arg args k = (case map_of args k of Some (JNum v) \<Rightarrow> Some v | _ \<Rightarrow> None)"

text \<open>An integer argument: \<open>int_arg\<close> takes any number, \<open>pos_arg\<close> keeps the default unless the number is positive.\<close>

definition int_arg :: "args \<Rightarrow> string \<Rightarrow> int \<Rightarrow> int" where
  "int_arg args k dflt = (case num_arg args k of Some v \<Rightarrow> go_int v | None \<Rightarrow> dflt)"

definition pos_arg :: "args \<Rightarrow> string \<Rightarrow> int \<Rightarrow> int" where
  "pos_arg args k dflt = (case num_arg args k of Some v \<Rightarrow> if 0 < v then go_int v else dflt | None \<Rightarrow> dflt)"

definition string_or :: "args \<Rightarrow> string \<Rightarrow> string \<Rightarrow> string" where
  "string_or args k dflt = (let v = requiredString args k in if v \<noteq> [] then v else dflt)"

definition flag_arg :: "args \<Rightarrow> string \<Rightarrow> bool" where
  "flag_arg args k \<longleftrightarrow> bool_arg args k = Some True"

definition strings_of :: "json list \<Rightarrow> string list" where
  "strings_of arr = concat (map (\<lambda>v. case v of JStr s \<Rightarrow> [s] | _ \<Rightarrow> []) arr)"

definition strings_arg :: "args \<Rightarrow> string \<Rightarrow> string list" where
  "strings_arg args k = (case map_of args k of Some (JArr arr) \<Rightarrow> strings_of arr | _ \<Rightarrow> [])"

definition primary_keys :: "string list" where
  "primary_keys = [''qualified_name'', ''pattern'', ''package_path'', ''path'', ''type_name'', ''interface_name'', ''from'', ''to'', ''file_path'']"

definition primaryArg :: "args \<Rightarrow> string" where
  "primaryArg args = (case filter (\<lambda>v. v \<noteq> []) (map (requiredString args) primary_keys) of [] \<Rightarrow> [] | v # _ \<Rightarrow> v)"

record render_options =
  ro_FullDocs :: bool
  ro_FileScoped :: bool
  ro_Format :: string

definition buildOptions :: "args \<Rightarrow> options \<times> render_options" where
  "buildOptions args =
     (no_options\<lparr>o_IncludeTests := flag_arg args ''include_tests'', o_Repo := requiredString args ''repo''\<rparr>,
      \<lparr>ro_FullDocs = flag_arg args ''full_docs'', ro_FileScoped = False, ro_Format = ''toon''\<rparr>)"

definition appendEdgeTypeFilter :: "args \<Rightarrow> options \<Rightarrow> options" where
  "appendEdgeTypeFilter args opts =
     (let types = strings_arg args ''edge_types'' in if types \<noteq> [] then opts\<lparr>o_EdgeTypes := types\<rparr> else opts)"

section \<open>What validation promises\<close>

lemma first_error_ok: "first_error f xs = Inr () \<longleftrightarrow> (\<forall>x\<in>set xs. f x = Inr ())"
  by (induction xs) (auto split: sum.splits)

lemma validateEnum_ok [simp]: "validateEnum U tool name v allowed = Inr () \<longleftrightarrow> v \<in> set allowed"
  by (simp add: validateEnum_def)

lemma int_of_float_of_int [simp]: "int_of_float (of_int i) = i"
  by (simp add: int_of_float_def)

lemma validateInt_ok:
  assumes "- (2 ^ 53) < lo" and "hi < 2 ^ 53"
  shows "validateInt fmt_v tool name v lo hi = Inr i \<longleftrightarrow> v = of_int i \<and> lo \<le> i \<and> i \<le> hi"
proof
  assume "validateInt fmt_v tool name v lo hi = Inr i"
  then have i: "f_of_int i = v" "lo \<le> i" "i \<le> hi"
    by (auto simp: validateInt_def Let_def split: if_splits)
  then have "f_of_int i = of_int i" using assms by (intro f_of_int_exact) auto
  with i show "v = of_int i \<and> lo \<le> i \<and> i \<le> hi" by simp
next
  assume v: "v = of_int i \<and> lo \<le> i \<and> i \<le> hi"
  then have "- (2 ^ 63) \<le> i" "i < 2 ^ 63" using assms by simp_all
  then have "- (2 ^ 63) \<le> (of_int i :: rat)" "(of_int i :: rat) < 2 ^ 63" by simp_all
  then have "go_int v = i" using v by (simp add: go_int_def)
  moreover have "f_of_int i = of_int i" using v assms by (intro f_of_int_exact) auto
  ultimately show "validateInt fmt_v tool name v lo hi = Inr i"
    using v by (simp add: validateInt_def)
qed

text \<open>What a table entry asks of the arguments; an argument that is not there asks nothing.\<close>

definition int_ok :: "args \<Rightarrow> int_spec \<Rightarrow> bool" where
  "int_ok args s \<longleftrightarrow> (\<forall>raw. map_of args (is_key s) = Some raw \<longrightarrow> (\<exists>i. raw = JNum (of_int i) \<and> is_min s \<le> i \<and> i \<le> is_max s))"

definition float_ok :: "args \<Rightarrow> float_spec \<Rightarrow> bool" where
  "float_ok args s \<longleftrightarrow> (\<forall>raw. map_of args (fsp_key s) = Some raw \<longrightarrow> (\<exists>v. raw = JNum v \<and> fsp_min s \<le> v \<and> v \<le> fsp_max s))"

definition enum_ok :: "args \<Rightarrow> enum_spec \<Rightarrow> bool" where
  "enum_ok args s \<longleftrightarrow>
     (if en_slice s then set (strings_arg args (en_key s)) \<subseteq> set (en_allowed s)
      else requiredString args (en_key s) \<noteq> [] \<longrightarrow> requiredString args (en_key s) \<in> set (en_allowed s))"

lemma int_tables_small: "s \<in> set (gm_get [] toolIntArgs tool) \<Longrightarrow> - (2 ^ 53) < is_min s \<and> is_max s < 2 ^ 53"
  by (auto simp: gm_get_def toolIntArgs_def isp_def split: if_splits)

lemma validateIntArg_ok:
  assumes "s \<in> set (gm_get [] toolIntArgs tool)"
  shows "validateIntArg fmt_v tool (is_key s) args (is_min s) (is_max s) = Inr () \<longleftrightarrow> int_ok args s"
proof (cases "\<exists>v. map_of args (is_key s) = Some (JNum v)")
  case True
  then obtain v where v: "map_of args (is_key s) = Some (JNum v)" by blast
  have "map_sum id (\<lambda>_. ()) r = Inr () \<longleftrightarrow> (\<exists>i. r = Inr i)" for r :: "int result" by (cases r) auto
  with v validateInt_ok int_tables_small [OF assms] show ?thesis by (auto simp: validateIntArg_def int_ok_def)
next
  case False
  then show ?thesis by (auto simp: validateIntArg_def int_ok_def split: option.splits json.splits)
qed

lemma validateFloatArg_ok: "validateFloatArg fmt_v tool (fsp_key s) args (fsp_min s) (fsp_max s) = Inr () \<longleftrightarrow> float_ok args s"
  by (auto simp: validateFloatArg_def float_ok_def split: option.splits json.splits)

lemma validateStringArg_ok: "\<not> en_slice s \<Longrightarrow> validateStringArg U tool (en_key s) args (en_allowed s) = Inr () \<longleftrightarrow> enum_ok args s"
  by (auto simp: validateStringArg_def enum_ok_def requiredString_def split: option.splits json.splits)

lemma set_strings_of: "set (strings_of arr) = {s. JStr s \<in> set arr}"
  by (force simp: strings_of_def split: json.splits)

lemma validateStringEnumSlice_ok:
  "en_slice s \<Longrightarrow> validateStringEnumSlice U tool (en_key s) args (en_allowed s) = Inr () \<longleftrightarrow> enum_ok args s"
  by (auto simp: validateStringEnumSlice_def enum_ok_def strings_arg_def first_error_ok set_strings_of split: option.splits json.splits)

lemma int_args_exact:
  "first_error (\<lambda>s. validateIntArg fmt_v tool (is_key s) args (is_min s) (is_max s)) (gm_get [] toolIntArgs tool) = Inr ()
   \<longleftrightarrow> list_all (int_ok args) (gm_get [] toolIntArgs tool)"
  using validateIntArg_ok by (simp add: first_error_ok list_all_iff)

lemma enum_args_exact:
  "first_error (\<lambda>s. if en_slice s then validateStringEnumSlice U tool (en_key s) args (en_allowed s)
      else validateStringArg U tool (en_key s) args (en_allowed s)) (gm_get [] toolEnumArgs tool) = Inr ()
   \<longleftrightarrow> list_all (enum_ok args) (gm_get [] toolEnumArgs tool)"
  using validateStringEnumSlice_ok validateStringArg_ok by (auto simp: first_error_ok list_all_iff)

lemma checks_in_turn: "(case r of Inl e \<Rightarrow> Inl e | Inr _ \<Rightarrow> x) = Inr () \<longleftrightarrow> r = Inr () \<and> x = Inr ()" for r x :: "unit result"
  by (cases r) auto

text \<open>
  C40: the arguments that pass validation are exactly those where every integer of the tool's table is an integer in its
  range, every float is in its range and every enumerated string, or element of a list of them, is one of the allowed
  ones; an argument that is absent passes. A value of the wrong type is an error for a number and passes for a string.
\<close>

theorem validateToolArgs_exact:
  "validateToolArgs fmt_v U tool args = Inr () \<longleftrightarrow>
     list_all (int_ok args) (gm_get [] toolIntArgs tool) \<and> list_all (float_ok args) (gm_get [] toolFloatArgs tool)
     \<and> list_all (enum_ok args) (gm_get [] toolEnumArgs tool)"
  unfolding validateToolArgs_def checks_in_turn int_args_exact enum_args_exact
  by (simp add: first_error_ok validateFloatArg_ok list_all_iff)

text \<open>A handler reads back the integer that was validated.\<close>

lemma int_arg_validated:
  assumes "validateToolArgs fmt_v U tool args = Inr ()" and "s \<in> set (gm_get [] toolIntArgs tool)" and "map_of args (is_key s) \<noteq> None"
  shows "is_min s \<le> int_arg args (is_key s) d \<and> int_arg args (is_key s) d \<le> is_max s"
proof -
  have "int_ok args s" using assms(1,2) unfolding validateToolArgs_def checks_in_turn int_args_exact by (simp add: list_all_iff)
  with assms(3) obtain i where i: "map_of args (is_key s) = Some (JNum (of_int i))" "is_min s \<le> i" "i \<le> is_max s"
    by (auto simp: int_ok_def)
  have "- (2 ^ 63) \<le> i" "i < 2 ^ 63" using int_tables_small [OF assms(2)] i by simp_all
  then have "- (2 ^ 63) \<le> (of_int i :: rat)" "(of_int i :: rat) < 2 ^ 63" by simp_all
  then have "go_int (of_int i) = i" by (simp add: go_int_def)
  with i show ?thesis by (simp add: int_arg_def num_arg_def)
qed

text \<open>The kind of a runtime contract can be any word of \<^verbatim>\<open>codemap.yaml\<close>; as a filter only the built-in ones pass.\<close>

lemma custom_runtime_kind_rejected:
  "validateToolArgs fmt_v U ''runtime_contracts'' [(''kind'', JStr ''kafka'')] \<noteq> Inr ()"
  unfolding validateToolArgs_def checks_in_turn enum_args_exact
  by (simp add: toolEnumArgs_def gm_get_def esp_def enum_ok_def requiredString_def validRuntimeKinds_def)

end
