(* ===== verification/Freshness.thy ===== *)
theory Freshness
  imports Tools Rename Workspace
begin

text \<open>
  The state of the server and what keeps its index fresh (\<^verbatim>\<open>mcp/server.go\<close>): opening the database, re-indexing with the
  memory of failed attempts, contract analysis, and the directories a client may name. Databases, packages, clock and file
  system are a world \<open>'w\<close> that the operations of \<open>server_env\<close> read and change; \<open>'h\<close> is an open database. Test seams are
  left at their production values.
\<close>

section \<open>Outcomes\<close>

text \<open>
  A call returns a value, panics, or never returns: it waits for a mutex that is held, or for a loop without end. The state is
  changed up to that point in each case. Of the mutexes, \<open>mu\<close> is modelled; the one of the counters guards no call.
\<close>

datatype 'a outcome = Ret 'a | Panic string | Hang

type_synonym ('a, 's) proc = "'s \<Rightarrow> 'a outcome \<times> 's"

definition ret :: "'a \<Rightarrow> ('a, 's) proc" where
  "ret x s = (Ret x, s)"

definition thn :: "('a, 's) proc \<Rightarrow> ('a \<Rightarrow> ('b, 's) proc) \<Rightarrow> ('b, 's) proc" where
  "thn m f s = (case m s of (Ret x, s') \<Rightarrow> f x s' | (Panic p, s') \<Rightarrow> (Panic p, s') | (Hang, s') \<Rightarrow> (Hang, s'))"

definition look :: "('s \<Rightarrow> 'a) \<Rightarrow> ('a, 's) proc" where
  "look g s = (Ret (g s), s)"

definition modify :: "('s \<Rightarrow> 's) \<Rightarrow> (unit, 's) proc" where
  "modify g s = (Ret (), g s)"

text \<open>The early return on an error: \<open>msg\<close> is what the caller makes of it.\<close>

definition must :: "(string \<Rightarrow> string) \<Rightarrow> ('a result, 's) proc \<Rightarrow> ('a \<Rightarrow> ('b result, 's) proc) \<Rightarrow> ('b result, 's) proc" where
  "must msg m f = thn m (\<lambda>r. case r of Inl e \<Rightarrow> ret (Inl (msg e)) | Inr x \<Rightarrow> f x)"

section \<open>The state\<close>

record failed_index =
  fi_at :: int
  fi_err :: string

text \<open>The typed result of a handler, as far as the counters read it; \<open>WriteResult\<close> carries the reindex error.\<close>

datatype typed =
  NilResult | BodyResult symbol_body | PackageResult "string list" | BundleResult int | WriteResult write_result string
  | RenameResult rename_result | OtherResult json

datatype answer = Initialized | Pong | ToolList | CallResult string "json option" bool

datatype reply = Reply json answer | ReplyError json int string

record ('h, 'w) server =
  sv_store :: "'h option"
  sv_failed :: "(string, failed_index) gomap"
  sv_usage :: "(string, tool_stat) gomap"
  sv_gated :: "64 word"
  sv_dbPath :: string
  sv_repoPath :: string
  sv_warnings :: "string list"
  sv_reindexed :: "string list"
  sv_allowedPaths :: "string list"
  sv_contractCfg :: contract_config
  sv_backoff :: int
  sv_writeEnabled :: bool
  sv_hasContractCfg :: bool
  sv_locked :: bool
  sv_out :: "reply list"
  sv_world :: 'w

record ('h, 'w, 'p, 'r) server_env =
  nv_unidata :: unidata
  nv_regexps :: regexps
  nv_git :: "'w \<Rightarrow> git_env"
  nv_ws :: "'w \<Rightarrow> ws_env"
  nv_now :: "'w \<Rightarrow> int \<times> 'w"
  nv_panic :: string
  nv_absent :: "string \<Rightarrow> 'w \<Rightarrow> bool"
  nv_Open :: "string \<Rightarrow> 'w \<Rightarrow> 'h result \<times> 'w"
  nv_Create :: "string \<Rightarrow> 'w \<Rightarrow> 'h result \<times> 'w"
  nv_Close :: "'h \<Rightarrow> 'w \<Rightarrow> 'w"
  nv_ListRepos :: "'h \<Rightarrow> 'w \<Rightarrow> repo_spec list result"
  nv_IsStale :: "string \<Rightarrow> string \<Rightarrow> 'w \<Rightarrow> bool result"
  nv_StaleReason :: "string \<Rightarrow> string \<Rightarrow> 'w \<Rightarrow> string result"
  nv_ReindexStale :: "string \<Rightarrow> 'w \<Rightarrow> string list result \<times> 'w"
  nv_ReindexRepo :: "string \<Rightarrow> string \<Rightarrow> string \<Rightarrow> 'w \<Rightarrow> unit result \<times> 'w"
  nv_IndexAll :: "ws_config \<Rightarrow> string \<Rightarrow> 'w \<Rightarrow> index_summary list result \<times> 'w"
  nv_contracts :: "'h \<Rightarrow> 'w \<Rightarrow> contract_env"
  nv_written :: "'h \<Rightarrow> rows \<Rightarrow> 'w \<Rightarrow> 'w"
  nv_Suppress :: "'h \<Rightarrow> string \<Rightarrow> string \<Rightarrow> 'w op"
  nv_parse :: "string \<Rightarrow> 'w \<Rightarrow> 'p result"
  nv_failures :: "'p \<Rightarrow> nat"
  nv_fallback :: "'p \<Rightarrow> bool"
  nv_contents :: "'p \<Rightarrow> files"
  nv_resolve :: "'p \<Rightarrow> 'r"
  nv_Write :: "'h \<Rightarrow> 'r \<Rightarrow> files \<Rightarrow> (string, int) gomap \<Rightarrow> 'w op"
  nv_SetIndexedAt :: "'h \<Rightarrow> 'w op"
  nv_Counts :: "'h \<Rightarrow> 'w \<Rightarrow> (nat \<times> nat \<times> nat) result"
  nv_SetRepoMeta :: "'h \<Rightarrow> string \<Rightarrow> string \<Rightarrow> nat \<Rightarrow> nat \<Rightarrow> string \<Rightarrow> 'w op"
  nv_Fingerprint :: "'h \<Rightarrow> string \<Rightarrow> files \<Rightarrow> 'w \<Rightarrow> 'w"
  nv_ChurnDegradation :: "'h \<Rightarrow> vcs_error option \<Rightarrow> 'w op"
  nv_db :: "'h \<Rightarrow> 'w \<Rightarrow> store_db"
  nv_source :: "'w \<Rightarrow> source_env"
  nv_rename :: "'h \<Rightarrow> 'w \<Rightarrow> rename_env"
  nv_faults :: "string \<Rightarrow> 'w \<Rightarrow> write_faults"
  nv_files :: "'w \<Rightarrow> files_t"
  nv_put_files :: "files_t \<Rightarrow> 'w \<Rightarrow> 'w"
  nv_chunks :: "'h \<Rightarrow> 'w \<Rightarrow> response_section list"
  nv_put_chunks :: "'h \<Rightarrow> response_section list \<Rightarrow> 'w \<Rightarrow> 'w"
  nv_chunk_fault :: "'w \<Rightarrow> string option"
  nv_stamp :: "'w \<Rightarrow> int \<times> string"
  nv_limit_env :: "'w \<Rightarrow> string"
  nv_queries :: "string \<Rightarrow> ('h \<Rightarrow> options \<Rightarrow> render_options \<Rightarrow> args \<Rightarrow> 'w \<Rightarrow> (string \<times> typed \<times> bool) outcome \<times> 'w) option"
  nv_renderWrite :: "render_options \<Rightarrow> write_result \<times> string \<Rightarrow> string"
  nv_renderRename :: "rename_result \<Rightarrow> string"
  nv_encode :: "typed \<Rightarrow> json option"
  nv_sample :: "string \<Rightarrow> typed"
  nv_schema :: string
  nv_stats :: "usage_snapshot \<Rightarrow> string"
  nv_fmt_v :: "json \<Rightarrow> string"
  nv_decode :: "string \<Rightarrow> (string \<times> json) list option"

definition on_world :: "('w \<Rightarrow> 'a \<times> 'w) \<Rightarrow> ('a, ('h, 'w) server) proc" where
  "on_world f s = (Ret (fst (f (sv_world s))), s\<lparr>sv_world := snd (f (sv_world s))\<rparr>)"

definition see :: "('w \<Rightarrow> 'a) \<Rightarrow> ('a, ('h, 'w) server) proc" where
  "see f s = (Ret (f (sv_world s)), s)"

definition lock_mu :: "(unit, ('h, 'w) server) proc" where
  "lock_mu s = (if sv_locked s then (Hang, s) else (Ret (), s\<lparr>sv_locked := True\<rparr>))"

definition unlock_mu :: "(unit, ('h, 'w) server) proc" where
  "unlock_mu s = (Ret (), s\<lparr>sv_locked := False\<rparr>)"

text \<open>A section between \<^verbatim>\<open>mu.Lock()\<close> and \<^verbatim>\<open>mu.Unlock()\<close>, which is not deferred: a panic inside leaves the mutex held.\<close>

definition critical :: "('a, ('h, 'w) server) proc \<Rightarrow> ('a, ('h, 'w) server) proc" where
  "critical m = thn lock_mu (\<lambda>_. thn m (\<lambda>x. thn unlock_mu (\<lambda>_. ret x)))"

definition warn :: "string \<Rightarrow> (unit, ('h, 'w) server) proc" where
  "warn msg = critical (modify (\<lambda>s. s\<lparr>sv_warnings := sv_warnings s @ [msg]\<rparr>))"

text \<open>The store of the server; using it when there is none is a panic.\<close>

definition current_store :: "('h, 'w, 'p, 'r) server_env \<Rightarrow> ('h, ('h, 'w) server) proc" where
  "current_store env s = (case sv_store s of Some h \<Rightarrow> (Ret h, s) | None \<Rightarrow> (Panic (nv_panic env), s))"

definition absolute :: "('h, 'w, 'p, 'r) server_env \<Rightarrow> string \<Rightarrow> (string result, ('h, 'w) server) proc" where
  "absolute env path = see (\<lambda>w. path_abs (we_cwd (nv_ws env w)) path)"

definition resolveDBPath :: "('h, 'w) server \<Rightarrow> string" where
  "resolveDBPath s = (if sv_dbPath s \<noteq> [] then sv_dbPath s else ''.codemap/codemap.db'')"

definition defaultFailedIndexBackoff :: int where
  "defaultFailedIndexBackoff = 30 * 10 ^ 9"

definition backoff :: "('h, 'w) server \<Rightarrow> int" where
  "backoff s = (if sv_backoff s \<le> 0 then defaultFailedIndexBackoff else sv_backoff s)"

definition contractConfig :: "('h, 'w, 'p, 'r) server_env \<Rightarrow> ('h, 'w) server \<Rightarrow> contract_config" where
  "contractConfig env s = (if sv_hasContractCfg s then sv_contractCfg s else DefaultConfig (nv_regexps env))"

section \<open>Contract analysis\<close>

definition reanalyze :: "('h, 'w, 'p, 'r) server_env \<Rightarrow> 'h \<Rightarrow> contract_config \<Rightarrow> (string list result, ('h, 'w) server) proc" where
  "reanalyze env h cfg s =
     (case ReanalyzeStaleContracts (nv_regexps env) (nv_unidata env) (nv_contracts env h (sv_world s)) cfg of
        None \<Rightarrow> (Panic (nv_panic env), s)
      | Some (r, None) \<Rightarrow> (Ret r, s)
      | Some (r, Some rs) \<Rightarrow> (Ret r, s\<lparr>sv_world := nv_written env h rs (sv_world s)\<rparr>))"

definition analyzeContracts :: "('h, 'w, 'p, 'r) server_env \<Rightarrow> 'h \<Rightarrow> (unit, ('h, 'w) server) proc" where
  "analyzeContracts env h =
     thn (look (contractConfig env)) (\<lambda>cfg. thn (reanalyze env h cfg) (\<lambda>r.
       case r of Inl e \<Rightarrow> warn (''contract analysis failed: '' @ e) | Inr _ \<Rightarrow> ret ()))"

section \<open>Indexing\<close>

text \<open>A step of building a new store: on an error the store is closed.\<close>

definition closing :: "('h, 'w, 'p, 'r) server_env \<Rightarrow> 'h \<Rightarrow> string \<Rightarrow> ('a result, ('h, 'w) server) proc
    \<Rightarrow> ('a \<Rightarrow> ('b result, ('h, 'w) server) proc) \<Rightarrow> ('b result, ('h, 'w) server) proc" where
  "closing env h msg m f =
     thn m (\<lambda>r. case r of
        Inl e \<Rightarrow> thn (on_world (\<lambda>w. ((), nv_Close env h w))) (\<lambda>_. ret (Inl (msg @ e)))
      | Inr x \<Rightarrow> f x)"

definition gitHead :: "('h, 'w, 'p, 'r) server_env \<Rightarrow> string \<Rightarrow> 'w \<Rightarrow> string" where
  "gitHead env path w = (case GitHead (nv_git env w) path of Inl _ \<Rightarrow> [] | Inr head \<Rightarrow> head)"

definition close_current :: "('h, 'w, 'p, 'r) server_env \<Rightarrow> (unit, ('h, 'w) server) proc" where
  "close_current env s =
     (case sv_store s of None \<Rightarrow> (Ret (), s) | Some h \<Rightarrow> (Ret (), s\<lparr>sv_world := nv_Close env h (sv_world s)\<rparr>))"

definition indexed_via :: "('h, 'w, 'p, 'r) server_env \<Rightarrow> 'p \<Rightarrow> string" where
  "indexed_via env p = (if nv_fallback env p then ''dir-walk'' else ''go-list'')"

text \<open>The writes of a new index and its metadata, with the counts of the rows.\<close>

definition fill_store :: "('h, 'w, 'p, 'r) server_env \<Rightarrow> 'h \<Rightarrow> string \<Rightarrow> 'p \<Rightarrow> (string, int) gomap
    \<Rightarrow> ((nat \<times> nat \<times> nat) result, ('h, 'w) server) proc" where
  "fill_store env h absPath p churn =
     closing env h ''write error: '' (on_world (nv_Write env h (nv_resolve env p) (nv_contents env p) churn)) (\<lambda>_.
     closing env h ''set indexed_at error: '' (on_world (nv_SetIndexedAt env h)) (\<lambda>_.
     closing env h ''count index rows: '' (see (nv_Counts env h)) (\<lambda>(pkgs, syms, edges).
     thn (see (gitHead env absPath)) (\<lambda>head.
     closing env h ''set repo meta error: '' (on_world (nv_SetRepoMeta env h absPath head pkgs syms (indexed_via env p))) (\<lambda>_.
     ret (Inr (pkgs, syms, edges)))))))"

definition autoIndex :: "('h, 'w, 'p, 'r) server_env \<Rightarrow> string \<Rightarrow> (unit result, ('h, 'w) server) proc" where
  "autoIndex env path =
     must id (absolute env path) (\<lambda>absPath.
     must (\<lambda>e. ''parse error: '' @ e) (see (nv_parse env absPath)) (\<lambda>p.
     thn (if 0 < nv_failures env p
          then warn (itoa (int (nv_failures env p))
            @ '' package(s) failed to load during index; the index may be incomplete. Run '' @ [CHR 0x27] @ ''index'' @ [CHR 0x27]
            @ '' to see details'')
          else ret ()) (\<lambda>_.
     thn (look resolveDBPath) (\<lambda>dbPath.
     must (\<lambda>e. ''store error: '' @ e) (on_world (nv_Create env dbPath)) (\<lambda>h.
     must id (fill_store env h absPath p []) (\<lambda>_.
     thn (on_world (\<lambda>w. ((), nv_Fingerprint env h absPath (nv_contents env p) w))) (\<lambda>_.
     thn (analyzeContracts env h) (\<lambda>_.
     thn (close_current env) (\<lambda>_.
     thn (modify (\<lambda>s. s\<lparr>sv_store := Some h\<rparr>)) (\<lambda>_. ret (Inr ())))))))))))"

text \<open>\<^verbatim>\<open>Round(time.Second)\<close> of a duration in nanoseconds, and the text of a duration of whole seconds.\<close>

definition round_second :: "int \<Rightarrow> int" where
  "round_second d = (if 0 \<le> d then (d + 500000000) div 10 ^ 9 else - ((500000000 - d) div 10 ^ 9))"

definition seconds_string :: "int \<Rightarrow> string" where
  "seconds_string n =
     (let a = \<bar>n\<bar>; h = a div 3600; m = a mod 3600 div 60; body = itoa (a mod 60) @ ''s'';
          body = (if 60 \<le> a then itoa m @ ''m'' @ body else body);
          body = (if 3600 \<le> a then itoa h @ ''h'' @ body else body)
      in if n < 0 then ''-'' @ body else body)"

text \<open>The check of the failed attempts, under the mutex: the error of a path whose last attempt failed too recently.\<close>

definition failed_recently :: "('h, 'w, 'p, 'r) server_env \<Rightarrow> string \<Rightarrow> (string option, ('h, 'w) server) proc" where
  "failed_recently env absPath = critical
     (thn (look (\<lambda>s. map_of (sv_failed s) absPath)) (\<lambda>fi. case fi of
        None \<Rightarrow> ret None
      | Some f \<Rightarrow>
          thn (on_world (nv_now env)) (\<lambda>now. thn (look backoff) (\<lambda>b.
            if now - fi_at f < b then
              thn (on_world (nv_now env)) (\<lambda>again.
                ret (Some (''auto-index for '' @ absPath @ '' previously failed ('' @ fi_err f @ ''); retrying in ''
                  @ seconds_string (round_second (b - (again - fi_at f))))))
            else ret None))))"

definition remember_failure :: "('h, 'w, 'p, 'r) server_env \<Rightarrow> string \<Rightarrow> string \<Rightarrow> (unit, ('h, 'w) server) proc" where
  "remember_failure env absPath e = critical
     (thn (on_world (nv_now env)) (\<lambda>now. modify (\<lambda>s. s\<lparr>sv_failed := gm_put absPath \<lparr>fi_at = now, fi_err = e\<rparr> (sv_failed s)\<rparr>)))"

definition autoIndexMemoized :: "('h, 'w, 'p, 'r) server_env \<Rightarrow> string \<Rightarrow> (unit result, ('h, 'w) server) proc" where
  "autoIndexMemoized env path =
     must id (absolute env path) (\<lambda>absPath.
     thn (failed_recently env absPath) (\<lambda>skip. case skip of
        Some e \<Rightarrow> ret (Inl e)
      | None \<Rightarrow>
          thn (autoIndex env absPath) (\<lambda>r. case r of
             Inl e \<Rightarrow> thn (remember_failure env absPath e) (\<lambda>_. ret (Inl e))
           | Inr _ \<Rightarrow> thn (critical (modify (\<lambda>s. s\<lparr>sv_failed := gm_del absPath (sv_failed s)\<rparr>))) (\<lambda>_. ret (Inr ())))))"

section \<open>Freshness\<close>

definition refreshWorkspaceStale :: "('h, 'w, 'p, 'r) server_env \<Rightarrow> string \<Rightarrow> (unit result, ('h, 'w) server) proc" where
  "refreshWorkspaceStale env dbPath =
     must id (on_world (nv_ReindexStale env dbPath)) (\<lambda>reindexed.
     thn (critical
       (thn (modify (\<lambda>s. s\<lparr>sv_reindexed := sv_reindexed s @ reindexed\<rparr>)) (\<lambda>_.
        thn (current_store env) (\<lambda>h.
        thn (look (contractConfig env)) (\<lambda>cfg.
        thn (reanalyze env h cfg) (\<lambda>r.
        case r of
          Inl _ \<Rightarrow> ret ()
        | Inr repos \<Rightarrow> modify (\<lambda>s. s\<lparr>sv_reindexed := sv_reindexed s @ map (\<lambda>m. m @ '' (contracts)'') repos\<rparr>))))))) (\<lambda>_.
     ret (Inr ())))"

definition rebuildNotice :: "string \<Rightarrow> string" where
  "rebuildNotice reason =
     ''index was stale ('' @ reason @ '') and was auto-rebuilt before answering; results below reflect the latest code''
     @ (if contains reason ''source''
        then ''; run codemap_changed_symbols (ref: '' @ dquote # ''HEAD'' @ dquote # '') for the uncommitted delta'' else [])"

definition refreshSingleStale :: "('h, 'w, 'p, 'r) server_env \<Rightarrow> string \<Rightarrow> (unit result, ('h, 'w) server) proc" where
  "refreshSingleStale env dbPath =
     thn (look sv_repoPath) (\<lambda>repoPath.
     must id (see (nv_IsStale env dbPath repoPath)) (\<lambda>stale.
     if \<not> stale then ret (Inr ())
     else
       thn (see (nv_StaleReason env dbPath repoPath)) (\<lambda>why.
       let reason = (case why of Inr r \<Rightarrow> if r \<noteq> [] then r else ''stale database'' | Inl _ \<Rightarrow> ''stale database'') in
       must id (autoIndexMemoized env repoPath) (\<lambda>_.
       thn (warn (rebuildNotice reason)) (\<lambda>_. ret (Inr ()))))))"

definition refreshStale :: "('h, 'w, 'p, 'r) server_env \<Rightarrow> string \<Rightarrow> (unit result, ('h, 'w) server) proc" where
  "refreshStale env dbPath =
     thn (current_store env) (\<lambda>h. thn (see (nv_ListRepos env h)) (\<lambda>repos.
       case repos of Inr (_ # _) \<Rightarrow> refreshWorkspaceStale env dbPath | _ \<Rightarrow> refreshSingleStale env dbPath))"

definition first_index :: "('h, 'w, 'p, 'r) server_env \<Rightarrow> ('h result, ('h, 'w) server) proc" where
  "first_index env =
     thn (look sv_repoPath) (\<lambda>repoPath.
     must (\<lambda>e. ''auto-index failed: '' @ e) (autoIndexMemoized env repoPath) (\<lambda>_.
     thn (current_store env) (\<lambda>h. ret (Inr h))))"

definition serve_fresh :: "('h, 'w, 'p, 'r) server_env \<Rightarrow> string \<Rightarrow> ('h result, ('h, 'w) server) proc" where
  "serve_fresh env dbPath = must id (refreshStale env dbPath) (\<lambda>_. thn (current_store env) (\<lambda>h. ret (Inr h)))"

definition getStore :: "('h, 'w, 'p, 'r) server_env \<Rightarrow> ('h result, ('h, 'w) server) proc" where
  "getStore env =
     thn (critical (modify (\<lambda>s. s\<lparr>sv_reindexed := []\<rparr>))) (\<lambda>_.
     thn (look resolveDBPath) (\<lambda>dbPath.
     thn (look sv_store) (\<lambda>st. case st of
        Some _ \<Rightarrow> serve_fresh env dbPath
      | None \<Rightarrow>
          thn (see (nv_absent env dbPath)) (\<lambda>absent.
          if absent then first_index env
          else
            thn (on_world (nv_Open env dbPath)) (\<lambda>r. case r of
               Inl _ \<Rightarrow> first_index env
             | Inr h \<Rightarrow> thn (modify (\<lambda>s. s\<lparr>sv_store := Some h\<rparr>)) (\<lambda>_. serve_fresh env dbPath))))))"

section \<open>Directories a client may name\<close>

definition evalRoot :: "ws_env \<Rightarrow> string \<Rightarrow> string" where
  "evalRoot W p =
     (case path_abs (we_cwd W) p of
        Inl _ \<Rightarrow> []
      | Inr a \<Rightarrow> (case we_evalSymlinks W a of Inr realPath \<Rightarrow> realPath | Inl _ \<Rightarrow> path_clean a))"

definition add_root :: "ws_env \<Rightarrow> string \<Rightarrow> string list \<Rightarrow> string list" where
  "add_root W p roots =
     (if p = [] then roots else let r = evalRoot W p in if r \<noteq> [] \<and> r \<notin> set roots then roots @ [r] else roots)"

text \<open>\<open>None\<close> is the climb to \<^verbatim>\<open>codemap.yaml\<close> that does not end.\<close>

definition allowedRoots :: "ws_env \<Rightarrow> unidata \<Rightarrow> ('h, 'w) server \<Rightarrow> string list option" where
  "allowedRoots W U s =
     (let roots = fold (add_root W) (sv_allowedPaths s @ [sv_repoPath s]) [] in
        map_option (\<lambda>cfgPath.
            if cfgPath = [] then roots
            else case LoadWorkspace W U cfgPath of
              Inl _ \<Rightarrow> roots
            | Inr c \<Rightarrow> fold (add_root W) (wc_Root c # map mb_Dir (wc_Members c)) roots)
          (DefaultPath W (sv_repoPath s)))"

definition outside_roots :: "string \<Rightarrow> string list \<Rightarrow> string" where
  "outside_roots path roots = ''path '' @ path @ '' is outside the allowed index roots ('' @ str_join '', '' roots @ '')''"

definition allowedTarget :: "('h, 'w, 'p, 'r) server_env \<Rightarrow> string \<Rightarrow> (string result, ('h, 'w) server) proc" where
  "allowedTarget env path s =
     (let W = nv_ws env (sv_world s); realPath = evalRoot W path in
        case allowedRoots W (nv_unidata env) s of
          None \<Rightarrow> (Hang, s)
        | Some roots \<Rightarrow>
            (Ret (if \<exists>r\<in>set roots. path_clean realPath = path_clean r then Inr realPath else Inl (outside_roots path roots)), s))"

definition allowedWriteTarget :: "('h, 'w, 'p, 'r) server_env \<Rightarrow> string \<Rightarrow> (unit result, ('h, 'w) server) proc" where
  "allowedWriteTarget env path s =
     (let W = nv_ws env (sv_world s) in
        case we_evalSymlinks W path of
          Inl e \<Rightarrow> (Ret (Inl e), s)
        | Inr realPath \<Rightarrow>
            (case allowedRoots W (nv_unidata env) s of
               None \<Rightarrow> (Hang, s)
             | Some roots \<Rightarrow>
                 (Ret (if \<exists>r\<in>set roots. realPath = r \<or> has_prefix realPath (r @ ''/'') then Inr () else Inl (outside_roots path roots)), s)))"

definition dbHomeFor :: "('h, 'w) server \<Rightarrow> string \<Rightarrow> string" where
  "dbHomeFor s absPath = (if sv_dbPath s \<noteq> [] then sv_dbPath s else path_join (path_join absPath ''.codemap'') ''codemap.db'')"

section \<open>The index tool\<close>

definition each_proc :: "('a \<Rightarrow> (unit result, 's) proc) \<Rightarrow> 'a list \<Rightarrow> (unit result, 's) proc" where
  "each_proc f xs = foldr (\<lambda>x rest. must id (f x) (\<lambda>_. rest)) xs (ret (Inr ()))"

definition summary_line :: "index_summary \<Rightarrow> string" where
  "summary_line sm = ix_Repo sm @ '': '' @ itoa (int (ix_Packages sm)) @ '' packages, '' @ itoa (int (ix_Symbols sm))
     @ '' symbols, '' @ itoa (int (ix_Edges sm)) @ '' edges ('' @ ix_State sm @ '')'' @ [nl]"

definition handleWorkspaceIndex :: "('h, 'w, 'p, 'r) server_env \<Rightarrow> string \<Rightarrow> string \<Rightarrow> (string result, ('h, 'w) server) proc" where
  "handleWorkspaceIndex env configPath absPath =
     must id (see (\<lambda>w. LoadWorkspace (nv_ws env w) (nv_unidata env) configPath)) (\<lambda>cfg.
     thn (look (\<lambda>s. dbHomeFor s absPath)) (\<lambda>wsDBPath.
     must (\<lambda>e. ''workspace index: '' @ e) (on_world (nv_IndexAll env cfg wsDBPath)) (\<lambda>summaries.
     thn (close_current env) (\<lambda>_.
     must id (on_world (nv_Open env wsDBPath)) (\<lambda>h.
     thn (modify (\<lambda>s. s\<lparr>sv_store := Some h, sv_dbPath := wsDBPath, sv_repoPath := absPath\<rparr>)) (\<lambda>_.
     must (\<lambda>e. ''contract config: '' @ e)
       (see (\<lambda>w. ContractConfig (nv_ws env w) (nv_regexps env) (nv_unidata env) cfg)) (\<lambda>(ccfg, _).
     thn (modify (\<lambda>s. s\<lparr>sv_contractCfg := ccfg, sv_hasContractCfg := True\<rparr>)) (\<lambda>_.
     must (\<lambda>e. ''contract suppression: '' @ e) (ret (ContractSuppressionPairs (nv_unidata env) cfg)) (\<lambda>pairs.
     must (\<lambda>e. ''recording contract suppression: '' @ e) (each_proc (\<lambda>(a, b). on_world (nv_Suppress env h a b)) pairs) (\<lambda>_.
     must (\<lambda>e. ''contract analysis: '' @ e) (reanalyze env h ccfg) (\<lambda>reanalyzed.
     ret (Inr (trim_space (concat (map summary_line summaries)
       @ concat (map (\<lambda>m. m @ '': contract analysis refreshed'' @ [nl]) reanalyzed)))))))))))))))"

definition contractNote :: "('h, 'w, 'p, 'r) server_env \<Rightarrow> 'h \<Rightarrow> (string, ('h, 'w) server) proc" where
  "contractNote env h =
     thn (look (contractConfig env)) (\<lambda>cfg. thn (reanalyze env h cfg) (\<lambda>r.
       ret (case r of Inl e \<Rightarrow> ''; contract analysis failed: '' @ e | Inr _ \<Rightarrow> [])))"

definition finalizeIndexMeta :: "('h, 'w, 'p, 'r) server_env \<Rightarrow> 'h \<Rightarrow> string \<Rightarrow> files \<Rightarrow> vcs_error option
    \<Rightarrow> (unit result, ('h, 'w) server) proc" where
  "finalizeIndexMeta env h absPath contents churnErr =
     thn (on_world (\<lambda>w. ((), nv_Fingerprint env h absPath contents w))) (\<lambda>_.
       closing env h ''set churn degradation: '' (on_world (nv_ChurnDegradation env h churnErr)) (\<lambda>_. ret (Inr ())))"

definition indexSingleRepo :: "('h, 'w, 'p, 'r) server_env \<Rightarrow> string \<Rightarrow> (string result, ('h, 'w) server) proc" where
  "indexSingleRepo env absPath =
     must (\<lambda>e. ''parse error: '' @ e) (see (nv_parse env absPath)) (\<lambda>p.
     thn (look (\<lambda>s. dbHomeFor s absPath)) (\<lambda>dbPath.
     must (\<lambda>e. ''store error: '' @ e) (on_world (nv_Create env dbPath)) (\<lambda>h.
     thn (see (\<lambda>w. GitFileChurn (nv_git env w) absPath headRef)) (\<lambda>churned.
     let churn = (case churned of Inl _ \<Rightarrow> [] | Inr c \<Rightarrow> c); churnErr = (case churned of Inl e \<Rightarrow> Some e | Inr _ \<Rightarrow> None) in
     must id (fill_store env h absPath p churn) (\<lambda>(pkgs, syms, edges).
     must id (finalizeIndexMeta env h absPath (nv_contents env p) churnErr) (\<lambda>_.
     thn (close_current env) (\<lambda>_.
     thn (modify (\<lambda>s. s\<lparr>sv_store := Some h, sv_dbPath := dbPath, sv_repoPath := absPath\<rparr>)) (\<lambda>_.
     thn (contractNote env h) (\<lambda>note.
     ret (Inr (''Indexed '' @ itoa (int pkgs) @ '' packages, '' @ itoa (int syms) @ '' symbols, '' @ itoa (int edges) @ '' edges''
       @ (if 0 < nv_failures env p then ''; '' @ itoa (int (nv_failures env p)) @ '' package(s) failed to load'' else [])
       @ note)))))))))))"

text \<open>The text of the tool and whether it is an error.\<close>

definition handleIndex :: "('h, 'w, 'p, 'r) server_env \<Rightarrow> args \<Rightarrow> (string \<times> bool, ('h, 'w) server) proc" where
  "handleIndex env args =
     thn (allowedTarget env (string_or args ''path'' ''.'')) (\<lambda>target. case target of
        Inl e \<Rightarrow> ret (''Error: '' @ e, True)
      | Inr absPath \<Rightarrow>
          thn (see (\<lambda>w. DefaultPath (nv_ws env w) absPath)) (\<lambda>cfg. case cfg of
             None \<Rightarrow> (\<lambda>s. (Hang, s))
           | Some configPath \<Rightarrow>
               if configPath = [] \<and> flag_arg args ''workspace'' then
                 ret (''Error: no codemap.yaml found in '' @ absPath
                   @ ''. Create one, or run `codemap index --workspace --discover` to propose sibling modules.'', True)
               else
                 thn (if configPath \<noteq> [] then handleWorkspaceIndex env configPath absPath else indexSingleRepo env absPath)
                   (\<lambda>r. ret (case r of Inl e \<Rightarrow> (''Error: '' @ e, True) | Inr msg \<Rightarrow> (msg, False)))))"

end
