(* ===== verification/Server.thy ===== *)
theory Server
  imports Freshness
begin

text \<open>
  The tool server (\<^verbatim>\<open>mcp/server.go\<close>, \<^verbatim>\<open>mcp/write_handlers.go\<close>): the write tools with their confinement, the dispatch of one
  tool call with its gates and counters, and the JSON-RPC loop over the lines of standard input. Query handlers are the field
  \<open>nv_queries\<close>; the catalogue of \<^verbatim>\<open>tools/list\<close> is the answer \<open>ToolList\<close>.
\<close>

type_synonym tool_result = "string \<times> typed \<times> bool"

definition failing :: "string \<Rightarrow> (tool_result, 's) proc" where
  "failing msg = ret (msg, NilResult, True)"

section \<open>Write tools\<close>

definition writeTools :: "string list" where
  "writeTools = [''replace_symbol_body'', ''insert_before_symbol'', ''insert_after_symbol'', ''safe_delete_symbol'', ''rename_symbol'']"

definition writeRefusal :: "string \<Rightarrow> string" where
  "writeRefusal tool = ''Error: '' @ tool @ '' modifies files but write mode is off; start the server with --allow-write to enable it''"

definition errQualifiedNameRequired :: string where
  "errQualifiedNameRequired = ''Error: qualified_name is required''"

text \<open>The symbol, or the refusal; neither when the symbol cannot be resolved.\<close>

definition writeGuard :: "('h, 'w, 'p, 'r) server_env \<Rightarrow> 'h \<Rightarrow> string \<Rightarrow> (symbol option \<times> string, ('h, 'w) server) proc" where
  "writeGuard env h qualifiedName =
     thn (see (\<lambda>w. SymbolByName (nv_db env h w) qualifiedName)) (\<lambda>r. case r of
        Inr (Some sy) \<Rightarrow>
          thn (allowedWriteTarget env (sy_PosFile sy)) (\<lambda>t. ret (case t of Inl e \<Rightarrow> (None, ''Error: '' @ e) | Inr _ \<Rightarrow> (Some sy, [])))
      | _ \<Rightarrow> ret (None, []))"

definition reindexRepo :: "('h, 'w, 'p, 'r) server_env \<Rightarrow> 'h \<Rightarrow> string \<Rightarrow> (unit result, ('h, 'w) server) proc" where
  "reindexRepo env h modulePath =
     (if modulePath = [] then thn (look sv_repoPath) (autoIndexMemoized env)
      else
        must id (see (nv_ListRepos env h)) (\<lambda>repos.
          case find (\<lambda>r. rs_ModulePath r = modulePath) repos of
            None \<Rightarrow> ret (Inl (''repo '' @ modulePath @ '' is not registered in this index''))
          | Some r \<Rightarrow> thn (look resolveDBPath) (\<lambda>dbPath. on_world (nv_ReindexRepo env dbPath modulePath (rs_Dir r)))))"

text \<open>The reindex error to record on the result.\<close>

definition refreshAfterWrite :: "('h, 'w, 'p, 'r) server_env \<Rightarrow> 'h \<Rightarrow> symbol option \<Rightarrow> (string, ('h, 'w) server) proc" where
  "refreshAfterWrite env h osy =
     (case osy of
        None \<Rightarrow> ret []
      | Some sy \<Rightarrow> thn (reindexRepo env h (sy_Repo sy)) (\<lambda>r. ret (case r of Inl e \<Rightarrow> e | Inr _ \<Rightarrow> [])))"

text \<open>
  An edit of theory \<open>Write\<close> run on the files of the world. The three edit handlers share their frame: the required name, the
  guard, the edit, the reindex.
\<close>

definition edit_files :: "('h, 'w, 'p, 'r) server_env \<Rightarrow> ('w \<Rightarrow> files_t \<Rightarrow> 'a result \<times> files_t) \<Rightarrow> ('a result, ('h, 'w) server) proc" where
  "edit_files env f = on_world (\<lambda>w. case f w (nv_files env w) of (r, fs) \<Rightarrow> (r, nv_put_files env fs w))"

definition handle_edit :: "('h, 'w, 'p, 'r) server_env \<Rightarrow> (string \<Rightarrow> 'w \<Rightarrow> files_t \<Rightarrow> write_result result \<times> files_t) \<Rightarrow> 'h
    \<Rightarrow> render_options \<Rightarrow> args \<Rightarrow> (tool_result, ('h, 'w) server) proc" where
  "handle_edit env edit h ropts args =
     (let qn = requiredString args ''qualified_name'' in
        if qn = [] then failing errQualifiedNameRequired
        else
          thn (writeGuard env h qn) (\<lambda>(osy, refusal).
          if refusal \<noteq> [] then failing refusal
          else
            thn (edit_files env (edit qn)) (\<lambda>r. case r of
               Inl e \<Rightarrow> failing (''Error: '' @ e)
             | Inr result \<Rightarrow>
                 thn (refreshAfterWrite env h osy) (\<lambda>rerr. ret (nv_renderWrite env ropts (result, rerr), WriteResult result rerr, False)))))"

definition handleReplaceSymbolBody :: "('h, 'w, 'p, 'r) server_env \<Rightarrow> 'h \<Rightarrow> render_options \<Rightarrow> args \<Rightarrow> (tool_result, ('h, 'w) server) proc" where
  "handleReplaceSymbolBody env h ropts args =
     handle_edit env (\<lambda>qn w. ReplaceSymbolBody (nv_db env h w) (nv_unidata env) (nv_source env w) (nv_faults env qn w) qn
       (requiredString args ''body'') (flag_arg args ''include_doc'')) h ropts args"

definition insertHandler :: "('h, 'w, 'p, 'r) server_env \<Rightarrow> bool \<Rightarrow> 'h \<Rightarrow> render_options \<Rightarrow> args \<Rightarrow> (tool_result, ('h, 'w) server) proc" where
  "insertHandler env after h ropts args =
     handle_edit env (\<lambda>qn w. InsertSymbol (nv_db env h w) (nv_unidata env) (nv_source env w) (nv_faults env qn w) qn
       (requiredString args ''text'') after) h ropts args"

definition handleSafeDeleteSymbol :: "('h, 'w, 'p, 'r) server_env \<Rightarrow> 'h \<Rightarrow> render_options \<Rightarrow> args \<Rightarrow> (tool_result, ('h, 'w) server) proc" where
  "handleSafeDeleteSymbol env h ropts args =
     handle_edit env (\<lambda>qn w. DeleteSymbol (nv_db env h w) (nv_unidata env) (nv_source env w) (nv_faults env qn w) qn
       (flag_arg args ''allow_exported'') (flag_arg args ''allow_test_only'')) h ropts args"

text \<open>Each repository of the result in turn; the first error ends the loop and is the one to record.\<close>

fun refreshRenamedRepos :: "('h, 'w, 'p, 'r) server_env \<Rightarrow> 'h \<Rightarrow> string list \<Rightarrow> (string, ('h, 'w) server) proc" where
  "refreshRenamedRepos env h [] = ret []"
| "refreshRenamedRepos env h (repo # repos) =
     thn (reindexRepo env h repo) (\<lambda>r. case r of Inl e \<Rightarrow> ret e | Inr _ \<Rightarrow> refreshRenamedRepos env h repos)"

definition handleRenameSymbol :: "('h, 'w, 'p, 'r) server_env \<Rightarrow> 'h \<Rightarrow> args \<Rightarrow> (tool_result, ('h, 'w) server) proc" where
  "handleRenameSymbol env h args =
     (let qn = requiredString args ''qualified_name''; newName = requiredString args ''new_name'' in
        if qn = [] then failing errQualifiedNameRequired
        else if newName = [] then failing ''Error: new_name is required''
        else
          thn (see (\<lambda>w. RenameSymbol (nv_db env h w) (nv_unidata env) (nv_rename env h w) qn newName (flag_arg args ''force''))) (\<lambda>planned.
          case planned of
            None \<Rightarrow> (\<lambda>s. (Panic (nv_panic env), s))
          | Some (Inl e) \<Rightarrow> failing (''Error: '' @ e)
          | Some (Inr plan) \<Rightarrow>
              thn (each_proc (\<lambda>(path, _). allowedWriteTarget env path) (pl_Files plan)) (\<lambda>ok. case ok of
                 Inl e \<Rightarrow> failing (''Error: '' @ e)
               | Inr _ \<Rightarrow>
                   thn (edit_files env (\<lambda>w. ApplyRename (nv_rename env h w) (\<lambda>p. nv_faults env p w) plan)) (\<lambda>r. case r of
                      Inl e \<Rightarrow> failing (''Error: '' @ e)
                    | Inr result \<Rightarrow>
                        thn (refreshRenamedRepos env h (rr_Repos result)) (\<lambda>rerr.
                          let result = result\<lparr>rr_ReindexError := rerr\<rparr> in ret (nv_renderRename env result, RenameResult result, False))))))"

definition writeHandlers :: "('h, 'w, 'p, 'r) server_env \<Rightarrow> string \<Rightarrow> ('h \<Rightarrow> render_options \<Rightarrow> args \<Rightarrow> (tool_result, ('h, 'w) server) proc) option" where
  "writeHandlers env =
     map_of [(''replace_symbol_body'', handleReplaceSymbolBody env), (''insert_before_symbol'', insertHandler env False),
       (''insert_after_symbol'', insertHandler env True), (''safe_delete_symbol'', handleSafeDeleteSymbol env),
       (''rename_symbol'', \<lambda>h _. handleRenameSymbol env h)]"

section \<open>Counters\<close>

text \<open>The raw cost of a result: 0 where there is no estimate.\<close>

definition estimateSymbolBodyRaw :: "('h, 'w, 'p, 'r) server_env \<Rightarrow> ('h, 'w) server \<Rightarrow> typed \<Rightarrow> int" where
  "estimateSymbolBodyRaw env s t =
     (case t of
        BodyResult b \<Rightarrow>
          (let span = int (length (sb_Body b) + length (sb_ContextBefore b) + length (sb_ContextAfter b)) in
             case sv_store s of
               None \<Rightarrow> span
             | Some h \<Rightarrow>
                 (case db_files (nv_db env h (sv_world s)) (\<lambda>(p, _). p = sb_PosFile b) of
                    Inr ((_, contents) # _) \<Rightarrow> if contents \<noteq> [] then int (length contents) else span
                  | _ \<Rightarrow> span))
      | _ \<Rightarrow> 0)"

definition estimatePackageRaw :: "('h, 'w, 'p, 'r) server_env \<Rightarrow> ('h, 'w) server \<Rightarrow> typed \<Rightarrow> int" where
  "estimatePackageRaw env s t =
     (case (t, sv_store s) of
        (PackageResult names, Some h) \<Rightarrow>
          sum_list (map (\<lambda>n. case GetSymbolBody (nv_db env h (sv_world s)) (nv_unidata env) (nv_source env (sv_world s)) n 0 False of
             Some (Inr b) \<Rightarrow> int (length (sb_Body b)) | _ \<Rightarrow> 0) names)
      | _ \<Rightarrow> 0)"

definition estimateBundleRaw :: "typed \<Rightarrow> int" where
  "estimateBundleRaw t = (case t of BundleResult tokens \<Rightarrow> tokens * 4 | _ \<Rightarrow> 0)"

definition raw_estimate :: "('h, 'w, 'p, 'r) server_env \<Rightarrow> ('h, 'w) server \<Rightarrow> string \<Rightarrow> typed \<Rightarrow> int" where
  "raw_estimate env s tool t =
     (if tool = ''show'' then estimateSymbolBodyRaw env s t
      else if tool = ''package'' then estimatePackageRaw env s t
      else if tool = ''get_context_bundle'' then estimateBundleRaw t else 0)"

definition recordUsage :: "('h, 'w, 'p, 'r) server_env \<Rightarrow> string \<Rightarrow> typed \<Rightarrow> string \<Rightarrow> bool \<Rightarrow> (unit, ('h, 'w) server) proc" where
  "recordUsage env tool t rendered isErr s =
     (let resp = int (length rendered); r = raw_estimate env s tool t;
          raw = (if \<not> isErr \<and> 0 < r then r else resp)
      in (Ret (), s\<lparr>sv_usage := usage_record tool (word_of_int resp) (word_of_int raw) isErr (sv_usage s)\<rparr>))"

section \<open>One tool call\<close>

definition checkChangedSymbolsTarget :: "('h, 'w, 'p, 'r) server_env \<Rightarrow> args \<Rightarrow> (unit result, ('h, 'w) server) proc" where
  "checkChangedSymbolsTarget env args = thn (allowedTarget env (string_or args ''repo_dir'' ''.'')) (\<lambda>r. ret (map_sum id (\<lambda>_. ()) r))"

definition notIndexedNote :: "('h, 'w, 'p, 'r) server_env \<Rightarrow> 'h \<Rightarrow> string \<Rightarrow> 'w \<Rightarrow> string" where
  "notIndexedNote env h name w =
     (case nv_ListRepos env h w of
        Inl _ \<Rightarrow> []
      | Inr repos \<Rightarrow>
          (case find (\<lambda>r. rs_Missing r \<and> (name = rs_ModulePath r \<or> has_prefix name (rs_ModulePath r @ ''/'')
                \<or> has_prefix name (rs_ModulePath r @ ''.''))) repos of
             None \<Rightarrow> [] | Some r \<Rightarrow> ''; note: '' @ rs_ModulePath r @ '' is not indexed (missing checkout)''))"

text \<open>The response gate of theory \<open>Overflow\<close> on the rows of the store that \<open>getStore\<close> opens a second time.\<close>

definition gate :: "('h, 'w, 'p, 'r) server_env \<Rightarrow> string \<Rightarrow> string \<Rightarrow> (string, ('h, 'w) server) proc" where
  "gate env tool rendered =
     thn (see (\<lambda>w. responseLimit (nv_limit_env env w))) (\<lambda>limit.
     if int (length rendered) \<le> limit then ret rendered
     else
       thn (getStore env) (\<lambda>opened. case opened of
          Inl e \<Rightarrow> ret (gateStoreError (int (length rendered)) limit e)
        | Inr h \<Rightarrow> (\<lambda>s.
            let w = sv_world s; (nano, createdAt) = nv_stamp env w in
            case gateResponse (nv_unidata env) limit None (nv_chunk_fault env w) nano createdAt tool rendered
                \<lparr>g_rows = nv_chunks env h w, g_gated = sv_gated s\<rparr> of
              None \<Rightarrow> (Hang, s)
            | Some (text', g) \<Rightarrow>
                (Ret text', s\<lparr>sv_gated := g_gated g, sv_world := nv_put_chunks env h (g_rows g) w\<rparr>))))"

definition structuredPayload :: "('h, 'w, 'p, 'r) server_env \<Rightarrow> string \<Rightarrow> typed \<Rightarrow> json option" where
  "structuredPayload env tool t =
     (let t = (if t = NilResult then nv_sample env tool else t) in
        if t = NilResult then None
        else case nv_encode env t of
          None \<Rightarrow> None
        | Some v \<Rightarrow> (case v of JNull \<Rightarrow> None | JObj o1 \<Rightarrow> Some (JObj o1) | _ \<Rightarrow> Some (JObj [(''results'', v)])))"

definition toolHandler :: "('h, 'w, 'p, 'r) server_env \<Rightarrow> string
    \<Rightarrow> ('h \<Rightarrow> options \<Rightarrow> render_options \<Rightarrow> args \<Rightarrow> (tool_result, ('h, 'w) server) proc) option" where
  "toolHandler env name =
     (case nv_queries env name of
        Some f \<Rightarrow> Some (\<lambda>h opts ropts args s. case f h opts ropts args (sv_world s) of (r, w) \<Rightarrow> (r, s\<lparr>sv_world := w\<rparr>))
      | None \<Rightarrow> map_option (\<lambda>f h opts ropts args. f h ropts args) (writeHandlers env name))"

text \<open>A return with an error message, counted.\<close>

definition tool_fail :: "('h, 'w, 'p, 'r) server_env \<Rightarrow> string \<Rightarrow> string \<Rightarrow> (string \<times> json option \<times> bool, ('h, 'w) server) proc" where
  "tool_fail env name msg = thn (recordUsage env name NilResult msg True) (\<lambda>_. ret (msg, None, True))"

text \<open>A handler ran on the store: its answer is counted as the client receives it.\<close>

definition finish_call :: "('h, 'w, 'p, 'r) server_env \<Rightarrow> 'h \<Rightarrow> string \<Rightarrow> args \<Rightarrow> tool_result
    \<Rightarrow> (string \<times> json option \<times> bool, ('h, 'w) server) proc" where
  "finish_call env h name args = (\<lambda>(result, t, isErr).
     if isErr then
       thn (see (notIndexedNote env h (primaryArg args))) (\<lambda>note.
       thn (recordUsage env name NilResult (result @ note) True) (\<lambda>_. ret (result @ note, None, True)))
     else
       thn (gate env name result) (\<lambda>rendered.
       thn (recordUsage env name t rendered False) (\<lambda>_.
       ret (if rendered \<noteq> result then (rendered, None, False) else (rendered, structuredPayload env name t, False)))))"

definition serve_call :: "('h, 'w, 'p, 'r) server_env \<Rightarrow> string \<Rightarrow> args \<Rightarrow> (string \<times> json option \<times> bool, ('h, 'w) server) proc" where
  "serve_call env name args =
     (case validateToolArgs (nv_fmt_v env) (nv_unidata env) name args of
        Inl e \<Rightarrow> tool_fail env name (''Error: '' @ e)
      | Inr _ \<Rightarrow>
          thn (getStore env) (\<lambda>opened. case opened of
             Inl e \<Rightarrow> tool_fail env name (''Error: '' @ e)
           | Inr h \<Rightarrow>
               (case toolHandler env name of
                  None \<Rightarrow> tool_fail env name (''Error: unknown tool '' @ name)
                | Some f \<Rightarrow>
                    (case buildOptions args of (opts, ropts) \<Rightarrow> thn (f h opts ropts args) (finish_call env h name args)))))"

definition handleTool :: "('h, 'w, 'p, 'r) server_env \<Rightarrow> string \<Rightarrow> args \<Rightarrow> (string \<times> json option \<times> bool, ('h, 'w) server) proc" where
  "handleTool env name args =
     (if name = ''stats'' then look (\<lambda>s. (nv_stats env (snapshot (sv_usage s) (sv_gated s)), None, False))
      else if name = ''reindex'' then
        thn (handleIndex env args) (\<lambda>(msg, isErr).
        thn (recordUsage env name NilResult msg isErr) (\<lambda>_. ret (msg, None, isErr)))
      else if name = ''schema'' then
        thn (recordUsage env name NilResult (nv_schema env) False) (\<lambda>_. ret (nv_schema env, None, False))
      else
        thn (if name = ''changed_symbols'' then checkChangedSymbolsTarget env args else ret (Inr ())) (\<lambda>confined. case confined of
           Inl e \<Rightarrow> tool_fail env name (''Error: '' @ e)
         | Inr _ \<Rightarrow>
             thn (look sv_writeEnabled) (\<lambda>writeEnabled.
             if name \<in> set writeTools \<and> \<not> writeEnabled then tool_fail env name (writeRefusal name)
             else serve_call env name args)))"

section \<open>JSON-RPC\<close>

definition send :: "reply \<Rightarrow> (unit, ('h, 'w) server) proc" where
  "send r = modify (\<lambda>s. s\<lparr>sv_out := sv_out s @ [r]\<rparr>)"

text \<open>
  Decoding into the struct of a call: keys are compared without regard to (ASCII) case, a later member overrides an earlier
  one, \<^verbatim>\<open>null\<close> leaves a name and empties a map.
\<close>

definition key_fold :: "string \<Rightarrow> string" where
  "key_fold k = map (\<lambda>c. char_of (ascii_lower (byte c))) k"

definition call_member :: "string \<times> json \<Rightarrow> (string \<times> args) option \<Rightarrow> (string \<times> args) option" where
  "call_member = (\<lambda>(k, v) c. case c of
     None \<Rightarrow> None
   | Some (name, args) \<Rightarrow>
       if key_fold k = ''name'' then (case v of JStr s \<Rightarrow> Some (s, args) | JNull \<Rightarrow> Some (name, args) | _ \<Rightarrow> None)
       else if key_fold k = ''arguments'' then
         (case v of JObj ms \<Rightarrow> Some (name, fold (\<lambda>(a, b). gm_put a b) ms args) | JNull \<Rightarrow> Some (name, []) | _ \<Rightarrow> None)
       else Some (name, args))"

definition decode_call :: "json \<Rightarrow> (string \<times> args) option" where
  "decode_call v = (case v of JNull \<Rightarrow> Some ([], []) | JObj ms \<Rightarrow> fold call_member ms (Some ([], [])) | _ \<Rightarrow> None)"

definition decode_method :: "(string \<times> json) list \<Rightarrow> string option" where
  "decode_method msg = (case map_of msg ''method'' of Some (JStr m) \<Rightarrow> Some m | Some JNull \<Rightarrow> Some [] | _ \<Rightarrow> None)"

definition notices :: "('h, 'w) server \<Rightarrow> string list" where
  "notices s =
     (if sv_reindexed s \<noteq> [] then [''reindexed: ['' @ str_join '', '' (sv_reindexed s) @ '']''] else [])
     @ (if sv_warnings s \<noteq> [] then [str_join [nl] (sv_warnings s)] else [])"

definition handleToolsCall :: "('h, 'w, 'p, 'r) server_env \<Rightarrow> json \<Rightarrow> (string \<times> json) list \<Rightarrow> (unit, ('h, 'w) server) proc" where
  "handleToolsCall env i msg =
     (case map_of msg ''params'' of
        None \<Rightarrow> send (ReplyError i (- 32602) ''Invalid params'')
      | Some params \<Rightarrow>
          (case decode_call params of
             None \<Rightarrow> send (ReplyError i (- 32602) ''Invalid params'')
           | Some (name, args) \<Rightarrow>
               thn (handleTool env name args) (\<lambda>(result, structured, isErr).
               thn (critical (thn (look notices) (\<lambda>ns. thn (modify (\<lambda>s. s\<lparr>sv_warnings := []\<rparr>)) (\<lambda>_. ret ns)))) (\<lambda>ns.
               send (Reply i (CallResult (if ns \<noteq> [] then str_join [nl] ns @ [nl, nl] @ result else result)
                 (if isErr then None else structured) isErr))))))"

definition dispatchLine :: "('h, 'w, 'p, 'r) server_env \<Rightarrow> string \<Rightarrow> (unit, ('h, 'w) server) proc" where
  "dispatchLine env line =
     (case nv_decode env line of
        None \<Rightarrow> send (ReplyError JNull (- 32700) ''Parse error'')
      | Some msg \<Rightarrow>
          (case decode_method msg of
             None \<Rightarrow> send (ReplyError JNull (- 32700) ''Parse error'')
           | Some m \<Rightarrow>
               (let i = (case map_of msg ''id'' of None \<Rightarrow> JNull | Some i \<Rightarrow> i) in
                  if m = ''initialize'' then send (Reply i Initialized)
                  else if m = ''ping'' then send (Reply i Pong)
                  else if m = ''notifications/initialized'' then ret ()
                  else if m = ''tools/list'' then send (Reply i ToolList)
                  else if m = ''tools/call'' then handleToolsCall env i msg
                  else if map_of msg ''id'' \<noteq> None then send (ReplyError i (- 32601) ''Method not found'')
                  else ret ())))"

text \<open>The id that a panic of the request is reported against, once it is known.\<close>

definition request_id :: "('h, 'w, 'p, 'r) server_env \<Rightarrow> string \<Rightarrow> json option" where
  "request_id env line =
     (case nv_decode env line of
        None \<Rightarrow> None | Some msg \<Rightarrow> (case decode_method msg of None \<Rightarrow> None | Some _ \<Rightarrow> map_of msg ''id''))"

definition runLine :: "('h, 'w, 'p, 'r) server_env \<Rightarrow> string \<Rightarrow> (unit, ('h, 'w) server) proc" where
  "runLine env line s =
     (case dispatchLine env line s of
        (Panic p, s') \<Rightarrow>
          (case request_id env line of
             None \<Rightarrow> (Ret (), s') | Some i \<Rightarrow> send (ReplyError i (- 32603) (''Internal error: '' @ p)) s')
      | r \<Rightarrow> r)"

text \<open>The loop over the lines of standard input.\<close>

fun run_server :: "('h, 'w, 'p, 'r) server_env \<Rightarrow> string list \<Rightarrow> (unit, ('h, 'w) server) proc" where
  "run_server env [] s = (Ret (), s)"
| "run_server env (line # rest) s =
     (if line = [] then run_server env rest s
      else case runLine env line s of (Ret _, s') \<Rightarrow> run_server env rest s' | r \<Rightarrow> r)"

end
