(* ===== verification/Server_Frame.thy ===== *)
theory Server_Frame
  imports Server
begin

text \<open>
  How runs of the server are reasoned about: a relation between the states before and after a call, shown once for every
  operation of theories \<open>Freshness\<close> and \<open>Server\<close> under the laws of a locale, and used on four relations: what indexing and
  queries leave alone, the replies already sent, the settings of the process, and the operations on the world.
\<close>

section \<open>Running procedures\<close>

named_theorems keeps_intros \<open>procedures whose every run is in a relation\<close>

lemma thn_Ret: "thn m f s = (Ret y, s'') \<longleftrightarrow> (\<exists>x s'. m s = (Ret x, s') \<and> f x s' = (Ret y, s''))"
  by (cases "m s"; cases "fst (m s)") (auto simp: thn_def)

lemma must_Ret: "must msg m f s = (Ret r, s'') \<longleftrightarrow>
   (\<exists>e. m s = (Ret (Inl e), s'') \<and> r = Inl (msg e)) \<or> (\<exists>x s'. m s = (Ret (Inr x), s') \<and> f x s' = (Ret r, s''))"
  by (auto simp: must_def thn_Ret ret_def split: sum.splits)
     (metis sum.exhaust)

lemma run_simps [simp]:
  "ret x s = (Ret x, s)" "look g s = (Ret (g s), s)" "modify k s = (Ret (), k s)" "see v t = (Ret (v (sv_world t)), t)"
  by (simp_all add: ret_def look_def modify_def see_def)

text \<open>Every run of a procedure, whatever its outcome, relates the states before and after.\<close>

definition keeps :: "('s \<Rightarrow> 's \<Rightarrow> bool) \<Rightarrow> ('a, 's) proc \<Rightarrow> bool" where
  "keeps R m \<longleftrightarrow> (\<forall>s. R s (snd (m s)))"

definition same :: "('s \<Rightarrow> 'b) \<Rightarrow> 's \<Rightarrow> 's \<Rightarrow> bool" where
  "same f s s' \<longleftrightarrow> f s' = f s"

lemma keepsD: "keeps R m \<Longrightarrow> m s = (r, s') \<Longrightarrow> R s s'"
  unfolding keeps_def by (metis snd_conv)

locale frame =
  fixes R :: "'s \<Rightarrow> 's \<Rightarrow> bool"
  assumes R_refl: "R s s" and R_trans: "R s s' \<Longrightarrow> R s' s'' \<Longrightarrow> R s s''"
begin

lemma keeps_simple [keeps_intros]: "keeps R (ret x)" "keeps R (look g)" "keeps R (\<lambda>s. (r, s))"
  by (simp_all add: keeps_def R_refl)

lemma keeps_thn [keeps_intros]: "keeps R m \<Longrightarrow> (\<And>x. keeps R (g x)) \<Longrightarrow> keeps R (thn m g)"
  unfolding keeps_def thn_def by (simp split: prod.splits outcome.splits) (metis R_trans snd_conv)

lemma keeps_sum [keeps_intros]: "(\<And>e. keeps R (a e)) \<Longrightarrow> (\<And>x. keeps R (b x)) \<Longrightarrow> keeps R (case r of Inl e \<Rightarrow> a e | Inr x \<Rightarrow> b x)"
  by (cases r) simp_all

lemma keeps_option [keeps_intros]: "keeps R a \<Longrightarrow> (\<And>x. keeps R (b x)) \<Longrightarrow> keeps R (case r of None \<Rightarrow> a | Some x \<Rightarrow> b x)"
  by (cases r) simp_all

lemma keeps_list: "keeps R a \<Longrightarrow> (\<And>x xs. keeps R (b x xs)) \<Longrightarrow> keeps R (case r of [] \<Rightarrow> a | x # xs \<Rightarrow> b x xs)"
  by (cases r) simp_all

lemma keeps_if [keeps_intros]: "keeps R a \<Longrightarrow> keeps R b \<Longrightarrow> keeps R (if c then a else b)"
  by simp

lemma keeps_prod [keeps_intros]: "(\<And>a b. keeps R (g a b)) \<Longrightarrow> keeps R (case p of (a, b) \<Rightarrow> g a b)"
  by (cases p) simp

lemma keeps_must [keeps_intros]: "keeps R m \<Longrightarrow> (\<And>x. keeps R (g x)) \<Longrightarrow> keeps R (must msg m g)"
  unfolding must_def by (intro keeps_intros)

lemma keeps_modify: "(\<And>s. R s (k s)) \<Longrightarrow> keeps R (modify k)"
  by (simp add: keeps_def)

lemma keeps_each [keeps_intros]: "(\<And>x. keeps R (g x)) \<Longrightarrow> keeps R (each_proc g xs)"
  unfolding each_proc_def by (induction xs) (auto intro: keeps_intros)

end

lemma frame_same: "frame (same f)"
  by unfold_locales (simp_all add: same_def)

text \<open>
  A relation that every step of the server but the counting, the sending of a reply and the writing of source files is in:
  a change of the store, the failed attempts, the messages, the paths, the contract configuration, a section under the mutex,
  and every operation of the world.
\<close>

locale server_frame = frame R for R :: "('h, 'w) server \<Rightarrow> ('h, 'w) server \<Rightarrow> bool" +
  fixes env :: "('h, 'w, 'p, 'r) server_env"
  assumes step_store: "R s (s\<lparr>sv_store := st\<rparr>)"
    and step_failed: "R s (s\<lparr>sv_failed := fl\<rparr>)"
    and step_warnings: "R s (s\<lparr>sv_warnings := msgs\<rparr>)"
    and step_reindexed: "R s (s\<lparr>sv_reindexed := msgs\<rparr>)"
    and step_dbPath: "R s (s\<lparr>sv_dbPath := p\<rparr>)"
    and step_repoPath: "R s (s\<lparr>sv_repoPath := p\<rparr>)"
    and step_contractCfg: "R s (s\<lparr>sv_contractCfg := cc\<rparr>)"
    and step_hasContractCfg: "R s (s\<lparr>sv_hasContractCfg := b\<rparr>)"
    and step_critical: "\<not> sv_locked s \<Longrightarrow> R (s\<lparr>sv_locked := True\<rparr>) s' \<Longrightarrow> R s s' \<and> R s (s'\<lparr>sv_locked := False\<rparr>)"
    and step_gated: "R s (s\<lparr>sv_gated := n\<rparr>)"
    and step_now: "R s (s\<lparr>sv_world := snd (nv_now env (sv_world s))\<rparr>)"
    and step_Open: "R s (s\<lparr>sv_world := snd (nv_Open env p (sv_world s))\<rparr>)"
    and step_Create: "R s (s\<lparr>sv_world := snd (nv_Create env p (sv_world s))\<rparr>)"
    and step_Close: "R s (s\<lparr>sv_world := nv_Close env h (sv_world s)\<rparr>)"
    and step_ReindexStale: "R s (s\<lparr>sv_world := snd (nv_ReindexStale env p (sv_world s))\<rparr>)"
    and step_ReindexRepo: "R s (s\<lparr>sv_world := snd (nv_ReindexRepo env p m d (sv_world s))\<rparr>)"
    and step_IndexAll: "R s (s\<lparr>sv_world := snd (nv_IndexAll env c p (sv_world s))\<rparr>)"
    and step_written: "R s (s\<lparr>sv_world := nv_written env h rs (sv_world s)\<rparr>)"
    and step_Suppress: "R s (s\<lparr>sv_world := snd (nv_Suppress env h m d (sv_world s))\<rparr>)"
    and step_Write: "R s (s\<lparr>sv_world := snd (nv_Write env h r cs ch (sv_world s))\<rparr>)"
    and step_SetIndexedAt: "R s (s\<lparr>sv_world := snd (nv_SetIndexedAt env h (sv_world s))\<rparr>)"
    and step_SetRepoMeta: "R s (s\<lparr>sv_world := snd (nv_SetRepoMeta env h p m i j d (sv_world s))\<rparr>)"
    and step_Fingerprint: "R s (s\<lparr>sv_world := nv_Fingerprint env h p cs (sv_world s)\<rparr>)"
    and step_ChurnDegradation: "R s (s\<lparr>sv_world := snd (nv_ChurnDegradation env h e (sv_world s))\<rparr>)"
    and step_put_chunks: "R s (s\<lparr>sv_world := nv_put_chunks env h secs (sv_world s)\<rparr>)"
    and step_queries: "nv_queries env n0 = Some q \<Longrightarrow> R s (s\<lparr>sv_world := snd (q h os ro a (sv_world s))\<rparr>)"
begin

lemmas steps = step_store step_failed step_warnings step_reindexed step_dbPath step_repoPath step_contractCfg step_hasContractCfg
  step_gated step_now step_Open step_Create step_Close step_ReindexStale step_ReindexRepo step_IndexAll step_written
  step_Suppress step_Write step_SetIndexedAt step_SetRepoMeta step_Fingerprint step_ChurnDegradation step_put_chunks

text \<open>The updates of several fields at once.\<close>

lemma step_reopen: "R s (s\<lparr>sv_store := st, sv_dbPath := p, sv_repoPath := q\<rparr>)"
  by (rule R_trans [OF R_trans [OF step_store step_dbPath] step_repoPath])

lemma step_config: "R s (s\<lparr>sv_contractCfg := cc, sv_hasContractCfg := b\<rparr>)"
  by (rule R_trans [OF step_contractCfg step_hasContractCfg])

lemma step_stored: "R s (s\<lparr>sv_gated := n, sv_world := nv_put_chunks env h rows (sv_world s)\<rparr>)"
  using R_trans [OF step_gated [of s n] step_put_chunks [of "s\<lparr>sv_gated := n\<rparr>" h rows]] by simp

lemma keeps_critical [keeps_intros]:
  assumes "keeps R m" shows "keeps R (critical m)"
  unfolding keeps_def
proof
  fix s
  obtain r s' where m: "m (s\<lparr>sv_locked := True\<rparr>) = (r, s')" by (cases "m (s\<lparr>sv_locked := True\<rparr>)")
  then show "R s (snd (critical m s))"
    using step_critical [OF _ keepsD [OF assms m]]
    by (cases r) (simp_all add: critical_def thn_def lock_mu_def unlock_mu_def R_refl)
qed

lemma keeps_on_world: "(\<And>s. R s (s\<lparr>sv_world := snd (g (sv_world s))\<rparr>)) \<Longrightarrow> keeps R (on_world g)"
  by (simp add: keeps_def on_world_def)

lemma keeps_see [keeps_intros]: "keeps R (see g)"
  by (simp add: keeps_def R_refl)

lemma keeps_ops [keeps_intros]:
  "keeps R (on_world (nv_now env))" "keeps R (on_world (nv_Open env p))" "keeps R (on_world (nv_Create env p))"
  "keeps R (on_world (nv_ReindexStale env p))" "keeps R (on_world (nv_ReindexRepo env p m d))"
  "keeps R (on_world (nv_IndexAll env c p))" "keeps R (on_world (nv_Suppress env h m d))"
  "keeps R (on_world (nv_Write env h r cs ch))" "keeps R (on_world (nv_SetIndexedAt env h))"
  "keeps R (on_world (nv_SetRepoMeta env h p m i j d))" "keeps R (on_world (nv_ChurnDegradation env h e))"
  "keeps R (on_world (\<lambda>w. ((), nv_Close env h w)))" "keeps R (on_world (\<lambda>w. ((), nv_Fingerprint env h p cs w)))"
  by (rule keeps_on_world; simp add: steps)+

lemma keeps_warn [keeps_intros]: "keeps R (warn msg)"
  unfolding warn_def by (intro keeps_intros keeps_modify) (simp add: steps)

lemma keeps_current [keeps_intros]: "keeps R (current_store env)"
  by (simp add: keeps_def current_store_def R_refl split: option.split)

lemma keeps_close_current [keeps_intros]: "keeps R (close_current env)"
  by (simp add: keeps_def close_current_def R_refl steps split: option.split)

lemma keeps_absolute [keeps_intros]: "keeps R (absolute env p)"
  unfolding absolute_def by (rule keeps_see)

lemma keeps_reanalyze [keeps_intros]: "keeps R (reanalyze env h cfg)"
  by (auto simp: keeps_def reanalyze_def R_refl steps split: option.split prod.split)

lemma keeps_closing [keeps_intros]: "keeps R m \<Longrightarrow> (\<And>x. keeps R (g x)) \<Longrightarrow> keeps R (closing env h msg m g)"
  unfolding closing_def by (intro keeps_intros)

lemma keeps_fill [keeps_intros]: "keeps R (fill_store env h p x ch)"
  unfolding fill_store_def by (intro keeps_intros)

lemma keeps_analyze [keeps_intros]: "keeps R (analyzeContracts env h)"
  unfolding analyzeContracts_def by (intro keeps_intros)

lemma keeps_autoIndex [keeps_intros]: "keeps R (autoIndex env p)"
  unfolding autoIndex_def by (intro keeps_intros keeps_modify) (simp_all add: steps)

lemma keeps_memoized [keeps_intros]: "keeps R (autoIndexMemoized env p)"
  unfolding autoIndexMemoized_def failed_recently_def remember_failure_def
  by (intro keeps_intros keeps_modify) (simp_all add: steps)

lemma keeps_refresh [keeps_intros]: "keeps R (refreshStale env p)"
  unfolding refreshStale_def refreshWorkspaceStale_def refreshSingleStale_def
  unfolding Let_def by (auto intro!: keeps_intros keeps_list keeps_modify simp: steps)

lemma keeps_getStore [keeps_intros]: "keeps R (getStore env)"
  unfolding getStore_def first_index_def serve_fresh_def by (intro keeps_intros keeps_modify) (simp_all add: steps)

lemma keeps_allowed [keeps_intros]: "keeps R (allowedTarget env p)" "keeps R (allowedWriteTarget env p)"
  by (auto simp: keeps_def allowedTarget_def allowedWriteTarget_def Let_def R_refl split: option.split sum.split)

lemma keeps_handleIndex [keeps_intros]: "keeps R (handleIndex env a)"
proof -
  have "keeps R (handleWorkspaceIndex env c p)" for c p
    unfolding handleWorkspaceIndex_def by (intro keeps_intros keeps_modify) (simp_all add: steps step_reopen step_config)
  moreover have "keeps R (indexSingleRepo env p)" for p
    unfolding indexSingleRepo_def finalizeIndexMeta_def contractNote_def Let_def
    by (intro keeps_intros keeps_modify) (simp_all add: steps step_reopen)
  ultimately show ?thesis unfolding handleIndex_def by (intro keeps_intros)
qed

lemma keeps_gate [keeps_intros]: "keeps R (gate env tool rendered)"
proof -
  have "keeps R (\<lambda>s. let w = sv_world s; (nano, createdAt) = nv_stamp env w in
            case gateResponse (nv_unidata env) limit None (nv_chunk_fault env w) nano createdAt tool rendered
                \<lparr>g_rows = nv_chunks env h w, g_gated = sv_gated s\<rparr> of
              None \<Rightarrow> (Hang, s)
            | Some (text', g) \<Rightarrow>
                (Ret text', s\<lparr>sv_gated := g_gated g, sv_world := nv_put_chunks env h (g_rows g) w\<rparr>))" for limit h
    by (simp add: keeps_def Let_def step_stored R_refl split: option.split prod.split)
  then show ?thesis unfolding gate_def by (intro keeps_intros)
qed

lemma keeps_reindexRepo [keeps_intros]: "keeps R (reindexRepo env h m)"
  unfolding reindexRepo_def by (intro keeps_intros)

lemma keeps_after [keeps_intros]: "keeps R (refreshAfterWrite env h osy)"
  unfolding refreshAfterWrite_def by (intro keeps_intros)

lemma keeps_query:
  assumes "nv_queries env n0 = Some q"
  shows "keeps R (\<lambda>s. case q h os ro a (sv_world s) of (r, w) \<Rightarrow> (r, s\<lparr>sv_world := w\<rparr>))"
  using step_queries [OF assms] unfolding keeps_def by (auto split: prod.split) (metis snd_conv)

end

section \<open>What a session leaves alone\<close>

text \<open>A relation that counting is in too: then only a write tool can leave it during a call.\<close>

locale counted_frame = server_frame R env for R :: "('h, 'w) server \<Rightarrow> ('h, 'w) server \<Rightarrow> bool" and env :: "('h, 'w, 'p, 'r) server_env" +
  assumes step_usage: "R s (s\<lparr>sv_usage := u\<rparr>)"
begin

lemma keeps_record [keeps_intros]: "keeps R (recordUsage env tool t rendered isErr)"
  by (simp add: keeps_def recordUsage_def Let_def step_usage)

lemma keeps_fail [keeps_intros]: "keeps R (tool_fail env name msg)"
  unfolding tool_fail_def by (intro keeps_intros)

lemma keeps_finish [keeps_intros]: "keeps R (finish_call env h name args r)"
  unfolding finish_call_def by (intro keeps_intros)

lemma no_write_handler: "name \<notin> set writeTools \<Longrightarrow> writeHandlers env name = None"
  by (auto simp: writeTools_def writeHandlers_def)

lemma keeps_handler: "name \<notin> set writeTools \<Longrightarrow> toolHandler env name = Some f \<Longrightarrow> keeps R (f h os ro a)"
  using keeps_query no_write_handler unfolding toolHandler_def by (auto split: option.splits)

lemma keeps_serve: "name \<notin> set writeTools \<Longrightarrow> keeps R (serve_call env name args)"
  unfolding serve_call_def
  by (cases "toolHandler env name") (auto intro!: keeps_intros keeps_handler split: sum.split prod.split)

lemma keeps_handleTool: "name \<notin> set writeTools \<Longrightarrow> keeps R (handleTool env name args)"
  unfolding handleTool_def checkChangedSymbolsTarget_def
  by (intro keeps_intros keeps_serve) simp_all

text \<open>With write mode off, every tool call is in the relation.\<close>

lemma refused_write:
  "\<not> sv_writeEnabled s \<Longrightarrow> name \<in> set writeTools \<Longrightarrow> handleTool env name args s = tool_fail env name (writeRefusal name) s"
  by (auto simp: handleTool_def writeTools_def thn_def)

lemma handleTool_read_only: "\<not> sv_writeEnabled s \<Longrightarrow> R s (snd (handleTool env name args s))"
  using keeps_handleTool keeps_fail refused_write unfolding keeps_def by (cases "name \<in> set writeTools") auto

end

text \<open>A relation that sending is in too.\<close>

locale session_frame = counted_frame R env for R :: "('h, 'w) server \<Rightarrow> ('h, 'w) server \<Rightarrow> bool" and env :: "('h, 'w, 'p, 'r) server_env" +
  assumes step_out: "R s (s\<lparr>sv_out := rs\<rparr>)"
begin

lemma keeps_send [keeps_intros]: "keeps R (send r)"
  unfolding send_def by (rule keeps_modify) (simp add: step_out)

lemma keeps_notices [keeps_intros]: "keeps R (critical (thn (look notices) (\<lambda>ns. thn (modify (\<lambda>s. s\<lparr>sv_warnings := []\<rparr>)) (\<lambda>_. ret ns))))"
  by (intro keeps_intros keeps_modify) (simp add: steps)

lemma thn_from: "R s (snd (m s)) \<Longrightarrow> (\<And>x. keeps R (g x)) \<Longrightarrow> R s (snd (thn m g s))"
  unfolding keeps_def thn_def by (simp split: prod.splits outcome.splits) (metis R_trans snd_conv)

lemma sent: "R s (snd (send r s))"
  using keeps_send by (simp add: keeps_def)

lemma runLine_from: "R s (snd (dispatchLine env line s)) \<Longrightarrow> R s (snd (runLine env line s))"
  unfolding runLine_def using sent R_trans by (auto split: prod.split outcome.split option.split)

lemma runLine_read_only:
  assumes "\<not> sv_writeEnabled s" shows "R s (snd (runLine env line s))"
proof -
  have "R s (snd (handleToolsCall env i msg s))" for i msg
    unfolding handleToolsCall_def
    by (auto split: option.split simp: sent intro!: thn_from handleTool_read_only [OF assms] keeps_intros)
  then have "R s (snd (dispatchLine env line s))"
    unfolding dispatchLine_def Let_def by (auto simp: sent R_refl split: option.split)
  then show ?thesis by (rule runLine_from)
qed

end

text \<open>A relation that every change of the world is in, but counting and sending need not be.\<close>

locale state_frame = server_frame R env for R :: "('h, 'w) server \<Rightarrow> ('h, 'w) server \<Rightarrow> bool" and env :: "('h, 'w, 'p, 'r) server_env" +
  assumes step_world: "R s (s\<lparr>sv_world := w\<rparr>)"
begin

lemma keeps_world [keeps_intros]: "keeps R (on_world g)"
  by (rule keeps_on_world) (rule step_world)

lemma keeps_edit_files [keeps_intros]: "keeps R (edit_files env g)"
  unfolding edit_files_def by (rule keeps_world)

lemma keeps_failing [keeps_intros]: "keeps R (failing msg)"
  unfolding failing_def by (rule keeps_simple)

lemma keeps_renamed [keeps_intros]: "keeps R (refreshRenamedRepos env h repos)"
  by (induction repos) (auto intro!: keeps_intros)

lemma keeps_handle_edit [keeps_intros]: "keeps R (handle_edit env edit h ropts args)"
  unfolding handle_edit_def writeGuard_def Let_def
  by (auto intro!: keeps_intros split: sum.split option.split)

lemma keeps_rename [keeps_intros]: "keeps R (handleRenameSymbol env h args)"
  unfolding handleRenameSymbol_def Let_def by (auto intro!: keeps_intros split: option.split sum.split)

lemma keeps_any_handler: "toolHandler env name = Some g \<Longrightarrow> keeps R (g h os ro a)"
proof -
  assume g: "toolHandler env name = Some g"
  show ?thesis
  proof (cases "nv_queries env name")
    case None
    with g obtain k where "writeHandlers env name = Some k" "g = (\<lambda>h opts. k h)" by (auto simp: toolHandler_def)
    then show ?thesis
      unfolding writeHandlers_def
      by (auto simp: handleReplaceSymbolBody_def insertHandler_def handleSafeDeleteSymbol_def intro!: keeps_intros split: if_splits)
  next
    case (Some q)
    with g keeps_query [OF Some] show ?thesis by (auto simp: toolHandler_def)
  qed
qed

end

text \<open>Then every tool call is in it.\<close>

locale tool_frame = state_frame R env + counted_frame R env
  for R :: "('h, 'w) server \<Rightarrow> ('h, 'w) server \<Rightarrow> bool" and env :: "('h, 'w, 'p, 'r) server_env"
begin

lemma keeps_call: "keeps R (handleTool env name args)"
proof -
  have "keeps R (serve_call env name args)"
    unfolding serve_call_def
    by (cases "toolHandler env name") (auto intro!: keeps_intros keeps_any_handler split: sum.split prod.split)
  then show ?thesis unfolding handleTool_def checkChangedSymbolsTarget_def by (intro keeps_intros) simp_all
qed

end

definition beside :: "('h, 'w) server \<Rightarrow> (string, tool_stat) gomap \<times> bool \<times> string list \<times> int \<times> reply list" where
  "beside s = (sv_usage s, sv_writeEnabled s, sv_allowedPaths s, sv_backoff s, sv_out s)"

interpretation beside: state_frame "same beside" env for env
  by unfold_locales (simp_all add: same_def beside_def)

interpretation replies: tool_frame "same sv_out" env for env
  by unfold_locales (simp_all add: same_def)

definition settings :: "('h, 'w) server \<Rightarrow> bool \<times> string list \<times> int" where
  "settings s = (sv_writeEnabled s, sv_allowedPaths s, sv_backoff s)"

interpretation settings: session_frame "same settings" env for env
  by unfold_locales (simp_all add: same_def settings_def)

text \<open>
  The operations on the world other than \<open>nv_put_files\<close>, through which the edit tools write source files: indexing, queries,
  stored responses, the clock. Their effects are those of the environment; nothing is asked of them.
\<close>

inductive non_edit :: "('h, 'w, 'p, 'r) server_env \<Rightarrow> 'w \<Rightarrow> 'w \<Rightarrow> bool" for env where
  op_now: "non_edit env w (snd (nv_now env w))"
| op_Open: "non_edit env w (snd (nv_Open env p w))"
| op_Create: "non_edit env w (snd (nv_Create env p w))"
| op_Close: "non_edit env w (nv_Close env h w)"
| op_ReindexStale: "non_edit env w (snd (nv_ReindexStale env p w))"
| op_ReindexRepo: "non_edit env w (snd (nv_ReindexRepo env p m d w))"
| op_IndexAll: "non_edit env w (snd (nv_IndexAll env c p w))"
| op_written: "non_edit env w (nv_written env h rs w)"
| op_Suppress: "non_edit env w (snd (nv_Suppress env h m d w))"
| op_Write: "non_edit env w (snd (nv_Write env h r cs ch w))"
| op_SetIndexedAt: "non_edit env w (snd (nv_SetIndexedAt env h w))"
| op_SetRepoMeta: "non_edit env w (snd (nv_SetRepoMeta env h p m i j d w))"
| op_Fingerprint: "non_edit env w (nv_Fingerprint env h p cs w)"
| op_ChurnDegradation: "non_edit env w (snd (nv_ChurnDegradation env h e w))"
| op_put_chunks: "non_edit env w (nv_put_chunks env h secs w)"
| op_query: "nv_queries env n = Some q \<Longrightarrow> non_edit env w (snd (q h os ro a w))"

definition moved :: "('h, 'w, 'p, 'r) server_env \<Rightarrow> ('h, 'w) server \<Rightarrow> ('h, 'w) server \<Rightarrow> bool" where
  "moved env s s' \<longleftrightarrow> (non_edit env)\<^sup>*\<^sup>* (sv_world s) (sv_world s')"

interpretation indexing: session_frame "moved env" env for env
  by unfold_locales (auto simp: moved_def intro: non_edit.intros r_into_rtranclp elim: rtranclp_trans)

section \<open>What never writes source files\<close>

text \<open>The same environment with another way to write files.\<close>

named_theorems blind_simps \<open>procedures that write no source file\<close>

lemma blind_getters [blind_simps]:
  "current_store (env\<lparr>nv_put_files := pf\<rparr>) = current_store env" "absolute (env\<lparr>nv_put_files := pf\<rparr>) = absolute env"
  "contractConfig (env\<lparr>nv_put_files := pf\<rparr>) = contractConfig env" "reanalyze (env\<lparr>nv_put_files := pf\<rparr>) = reanalyze env"
  "closing (env\<lparr>nv_put_files := pf\<rparr>) = closing env" "gitHead (env\<lparr>nv_put_files := pf\<rparr>) = gitHead env"
  "close_current (env\<lparr>nv_put_files := pf\<rparr>) = close_current env" "indexed_via (env\<lparr>nv_put_files := pf\<rparr>) = indexed_via env"
  "failed_recently (env\<lparr>nv_put_files := pf\<rparr>) = failed_recently env"
  "remember_failure (env\<lparr>nv_put_files := pf\<rparr>) = remember_failure env"
  "allowedTarget (env\<lparr>nv_put_files := pf\<rparr>) = allowedTarget env"
  "estimateSymbolBodyRaw (env\<lparr>nv_put_files := pf\<rparr>) = estimateSymbolBodyRaw env"
  "estimatePackageRaw (env\<lparr>nv_put_files := pf\<rparr>) = estimatePackageRaw env"
  "notIndexedNote (env\<lparr>nv_put_files := pf\<rparr>) = notIndexedNote env"
  "structuredPayload (env\<lparr>nv_put_files := pf\<rparr>) = structuredPayload env"
  "request_id (env\<lparr>nv_put_files := pf\<rparr>) = request_id env"
  by (simp_all add: fun_eq_iff current_store_def absolute_def contractConfig_def reanalyze_def closing_def gitHead_def close_current_def
      indexed_via_def failed_recently_def remember_failure_def allowedTarget_def estimateSymbolBodyRaw_def estimatePackageRaw_def
      notIndexedNote_def structuredPayload_def request_id_def Let_def cong: option.case_cong sum.case_cong typed.case_cong prod.case_cong list.case_cong if_cong)

lemma blind_index [blind_simps]:
  "analyzeContracts (env\<lparr>nv_put_files := pf\<rparr>) = analyzeContracts env" "fill_store (env\<lparr>nv_put_files := pf\<rparr>) = fill_store env"
  "contractNote (env\<lparr>nv_put_files := pf\<rparr>) = contractNote env" "finalizeIndexMeta (env\<lparr>nv_put_files := pf\<rparr>) = finalizeIndexMeta env"
  "handleWorkspaceIndex (env\<lparr>nv_put_files := pf\<rparr>) = handleWorkspaceIndex env"
  "refreshWorkspaceStale (env\<lparr>nv_put_files := pf\<rparr>) = refreshWorkspaceStale env"
  "recordUsage (env\<lparr>nv_put_files := pf\<rparr>) = recordUsage env"
  "checkChangedSymbolsTarget (env\<lparr>nv_put_files := pf\<rparr>) = checkChangedSymbolsTarget env"
  by (simp_all add: fun_eq_iff analyzeContracts_def fill_store_def contractNote_def finalizeIndexMeta_def handleWorkspaceIndex_def
      refreshWorkspaceStale_def recordUsage_def raw_estimate_def checkChangedSymbolsTarget_def blind_simps Let_def cong: option.case_cong sum.case_cong prod.case_cong list.case_cong if_cong)

lemma blind_auto [blind_simps]:
  "autoIndex (env\<lparr>nv_put_files := pf\<rparr>) = autoIndex env" "indexSingleRepo (env\<lparr>nv_put_files := pf\<rparr>) = indexSingleRepo env"
  "tool_fail (env\<lparr>nv_put_files := pf\<rparr>) = tool_fail env"
  by (simp_all add: fun_eq_iff autoIndex_def indexSingleRepo_def tool_fail_def blind_simps Let_def cong: option.case_cong sum.case_cong prod.case_cong list.case_cong if_cong)

lemma blind_memoized [blind_simps]:
  "autoIndexMemoized (env\<lparr>nv_put_files := pf\<rparr>) = autoIndexMemoized env" "handleIndex (env\<lparr>nv_put_files := pf\<rparr>) = handleIndex env"
  by (simp_all add: fun_eq_iff autoIndexMemoized_def handleIndex_def blind_simps Let_def cong: option.case_cong sum.case_cong prod.case_cong list.case_cong if_cong)

lemma blind_store [blind_simps]: "getStore (env\<lparr>nv_put_files := pf\<rparr>) = getStore env"
  by (simp add: getStore_def first_index_def serve_fresh_def refreshStale_def refreshSingleStale_def blind_simps Let_def cong: option.case_cong sum.case_cong prod.case_cong list.case_cong if_cong)

lemma blind_gate [blind_simps]: "gate (env\<lparr>nv_put_files := pf\<rparr>) = gate env"
  by (simp add: fun_eq_iff gate_def blind_simps Let_def cong: option.case_cong sum.case_cong prod.case_cong list.case_cong if_cong)

lemma blind_finish [blind_simps]: "finish_call (env\<lparr>nv_put_files := pf\<rparr>) = finish_call env"
  by (simp add: fun_eq_iff finish_call_def blind_simps Let_def cong: option.case_cong sum.case_cong prod.case_cong list.case_cong if_cong)

lemma blind_handler: "name \<notin> set writeTools \<Longrightarrow> toolHandler (env\<lparr>nv_put_files := pf\<rparr>) name = toolHandler env name"
  by (simp add: toolHandler_def settings.no_write_handler split: option.split)

lemma blind_call:
  assumes "\<not> sv_writeEnabled s" shows "handleTool (env\<lparr>nv_put_files := pf\<rparr>) name args s = handleTool env name args s"
proof (cases "name \<in> set writeTools")
  case True
  then show ?thesis by (simp add: settings.refused_write [OF assms] blind_simps Let_def cong: option.case_cong sum.case_cong prod.case_cong list.case_cong if_cong)
next
  case False
  then show ?thesis by (simp add: handleTool_def serve_call_def blind_handler blind_simps Let_def cong: option.case_cong sum.case_cong prod.case_cong list.case_cong if_cong)
qed

lemma blind_line:
  assumes "\<not> sv_writeEnabled s" shows "runLine (env\<lparr>nv_put_files := pf\<rparr>) line s = runLine env line s"
proof -
  have "handleToolsCall (env\<lparr>nv_put_files := pf\<rparr>) i msg s = handleToolsCall env i msg s" for i msg
    by (simp add: handleToolsCall_def thn_def [of "handleTool _ _ _"] blind_call [OF assms] split: option.split)
  then have "dispatchLine (env\<lparr>nv_put_files := pf\<rparr>) line s = dispatchLine env line s"
    unfolding dispatchLine_def Let_def by (auto split: option.split)
  then show ?thesis by (simp add: runLine_def blind_simps split: prod.split outcome.split option.split)
qed

end
