(* ===== verification/Server_Proofs.thy ===== *)
theory Server_Proofs
  imports Server_Frame Workspace_Proofs Rename_Proofs Runner_Proofs
begin

text \<open>
  Properties of whole requests and sessions: what a server without write mode leaves alone, where the edit tools may write,
  how calls are counted and answered, the back-off after a failed index, and what a panic under the mutex leads to. Witnesses
  run on a small server over the demo data of the component theories.
\<close>

section \<open>Read-only sessions\<close>

text \<open>The states a session passes through, those of a request that never returns included.\<close>

inductive served :: "('h, 'w, 'p, 'r) server_env \<Rightarrow> ('h, 'w) server \<Rightarrow> ('h, 'w) server \<Rightarrow> bool" for env where
  start: "served env s s"
| line: "served env s s' \<Longrightarrow> runLine env l s' = (r, s'') \<Longrightarrow> served env s s''"

lemma run_server_served: "run_server env ls s' = (r, s'') \<Longrightarrow> served env s s' \<Longrightarrow> served env s s''"
proof (induction ls arbitrary: s')
  case (Cons l ls)
  show ?case
  proof (cases "l = []")
    case False
    obtain r1 s1 where run: "runLine env l s' = (r1, s1)" by (cases "runLine env l s'")
    then have "served env s s1" using served.line [OF Cons.prems(2)] by blast
    with Cons.IH [of s1] Cons.prems(1) run False show ?thesis by (cases r1) auto
  qed (use Cons in auto)
qed auto

text \<open>
  C1: in a session without write mode the operation through which the edit tools write source files is never used: the same
  states are served whatever that operation does, every change of the world is a step of an index, query or response
  operation (what those do is up to the environment), write mode stays off, and in every state each of the five edit tools
  is refused, whatever its arguments, with nothing changed but its counters.
\<close>

theorem read_only_session:
  assumes "served env s s'" and "\<not> sv_writeEnabled s"
  shows "\<not> sv_writeEnabled s' \<and> (non_edit env)\<^sup>*\<^sup>* (sv_world s) (sv_world s')
    \<and> (\<forall>pf. served (env\<lparr>nv_put_files := pf\<rparr>) s s')
    \<and> (\<forall>name\<in>set writeTools. \<forall>args. \<exists>u. handleTool env name args s' = (Ret (writeRefusal name, None, True), s'\<lparr>sv_usage := u\<rparr>))"
proof -
  have "\<not> sv_writeEnabled s' \<and> moved env s s' \<and> (\<forall>pf. served (env\<lparr>nv_put_files := pf\<rparr>) s s')"
    using assms
  proof (induction rule: served.induct)
    case start
    then show ?case by (simp add: served.start indexing.R_refl)
  next
    case (line s s' l r s'')
    then have IH: "\<not> sv_writeEnabled s'" "moved env s s'" "\<And>pf. served (env\<lparr>nv_put_files := pf\<rparr>) s s'" by auto
    have "settings (snd (runLine env l s')) = settings s'"
      using settings.runLine_read_only [OF IH(1)] by (simp add: same_def)
    moreover have "moved env s' (snd (runLine env l s'))" by (rule indexing.runLine_read_only [OF IH(1)])
    moreover have "served (env\<lparr>nv_put_files := pf\<rparr>) s s''" for pf
      using served.line [OF IH(3) blind_line [OF IH(1), THEN trans, OF line.hyps(2)]] .
    ultimately show ?case using IH(1,2) line.hyps(2) indexing.R_trans [OF IH(2), of s''] by (simp add: settings_def)
  qed
  moreover have "\<exists>u. handleTool env name args s' = (Ret (writeRefusal name, None, True), s'\<lparr>sv_usage := u\<rparr>)"
    if "\<not> sv_writeEnabled s'" "name \<in> set writeTools" for name args
    using settings.refused_write [OF that] by (auto simp: tool_fail_def thn_def recordUsage_def Let_def)
  ultimately show ?thesis by (simp add: moved_def)
qed

section \<open>Counting\<close>

text \<open>One call of a tool was recorded, with the text of the answer and its error flag.\<close>

definition counted :: "string \<Rightarrow> ('h, 'w) server \<Rightarrow> string \<times> json option \<times> bool \<Rightarrow> ('h, 'w) server \<Rightarrow> bool" where
  "counted name s out s' \<longleftrightarrow>
     (\<exists>raw. sv_usage s' = usage_record name (word_of_int (int (length (fst out)))) raw (snd (snd out)) (sv_usage s))"

named_theorems counts_intros \<open>procedures that count one call\<close>

definition counts :: "string \<Rightarrow> (string \<times> json option \<times> bool, ('h, 'w) server) proc \<Rightarrow> bool" where
  "counts name m \<longleftrightarrow> (\<forall>s out s'. m s = (Ret out, s') \<longrightarrow> counted name s out s')"

lemma counts_record [counts_intros]: "counts name (thn (recordUsage env name t txt e) (\<lambda>_. ret (txt, st, e)))"
  by (auto simp: counts_def thn_Ret recordUsage_def Let_def counted_def)

lemma counts_thn [counts_intros]: "keeps (same beside) m \<Longrightarrow> (\<And>x. counts name (f x)) \<Longrightarrow> counts name (thn m f)"
proof -
  assume m: "keeps (same beside) m" and f: "\<And>x. counts name (f x)"
  show "counts name (thn m f)"
    unfolding counts_def
  proof (intro allI impI)
    fix s out s' assume "thn m f s = (Ret out, s')"
    then obtain x s1 where run: "m s = (Ret x, s1)" "f x s1 = (Ret out, s')" unfolding thn_Ret by blast
    then have "sv_usage s1 = sv_usage s" using keepsD [OF m] by (auto simp: same_def beside_def)
    moreover have "counted name s1 out s'" using f [of x] run(2) unfolding counts_def by blast
    ultimately show "counted name s out s'" by (simp add: counted_def)
  qed
qed

lemma counts_sum [counts_intros]: "(\<And>e. counts n (a e)) \<Longrightarrow> (\<And>x. counts n (b x)) \<Longrightarrow> counts n (case r of Inl e \<Rightarrow> a e | Inr x \<Rightarrow> b x)"
  by (cases r) simp_all

lemma counts_if [counts_intros]: "counts n a \<Longrightarrow> counts n b \<Longrightarrow> counts n (if c then a else b)"
  by simp

lemma counts_prod [counts_intros]: "(\<And>a b. counts n (g a b)) \<Longrightarrow> counts n (case p of (a, b) \<Rightarrow> g a b)"
  by (cases p) simp

lemma counts_fail [counts_intros]: "counts name (tool_fail env name msg)"
  unfolding tool_fail_def by (rule counts_record)

lemma counts_finish [counts_intros]: "counts name (finish_call env h name args r)"
proof -
  have same: "(if rendered \<noteq> result then (rendered, None, False) else (rendered, structuredPayload env name t, False))
        = (rendered, if rendered \<noteq> result then None else structuredPayload env name t, False)" for rendered result t by simp
  show ?thesis unfolding finish_call_def same by (intro counts_intros beside.keeps_see beside.keeps_gate)
qed

lemma counts_serve [counts_intros]: "counts name (serve_call env name args)"
proof -
  have "counts name (case toolHandler env name of
      None \<Rightarrow> tool_fail env name (''Error: unknown tool '' @ name)
    | Some f \<Rightarrow> (case buildOptions args of (opts, ropts) \<Rightarrow> thn (f h opts ropts args) (finish_call env h name args)))" for h
    by (cases "toolHandler env name") (auto intro!: counts_intros beside.keeps_any_handler split: prod.split)
  then show ?thesis unfolding serve_call_def by (intro counts_intros beside.keeps_getStore)
qed

lemma counts_handleTool: "name \<noteq> ''stats'' \<Longrightarrow> counts name (handleTool env name args)"
  unfolding handleTool_def checkChangedSymbolsTarget_def
  by (auto intro!: counts_intros keeps_intros beside.keeps_allowed beside.keeps_handleIndex)

text \<open>
  every tool call that answers is counted exactly once, under its name, with the bytes of the text the client receives and
  as an error when the answer is one; the counters of other tools stay. Only \<^verbatim>\<open>stats\<close> does not count itself.
\<close>

theorem handleTool_counted_once:
  assumes "handleTool env name args s = (Ret out, s')" and "name \<noteq> ''stats''"
  shows "\<exists>raw. sv_usage s' = usage_record name (word_of_int (int (length (fst out)))) raw (snd (snd out)) (sv_usage s)"
  using counts_handleTool [OF assms(2)] assms(1) unfolding counts_def counted_def by blast

section \<open>Replies\<close>

fun reply_id :: "reply \<Rightarrow> json" where
  "reply_id (Reply i _) = i"
| "reply_id (ReplyError i _ _) = i"

fun is_result :: "reply \<Rightarrow> bool" where
  "is_result (Reply _ (CallResult _ _ _)) \<longleftrightarrow> True"
| "is_result _ \<longleftrightarrow> False"

definition request_method :: "('h, 'w, 'p, 'r) server_env \<Rightarrow> string \<Rightarrow> string option" where
  "request_method env line = (case nv_decode env line of None \<Rightarrow> None | Some msg \<Rightarrow> decode_method msg)"

text \<open>The replies a run adds: one with the given id when it returns, none when it panics or hangs.\<close>

named_theorems answers_intros \<open>procedures that send one reply\<close>

definition answers :: "json \<Rightarrow> ('a, ('h, 'w) server) proc \<Rightarrow> bool" where
  "answers i m \<longleftrightarrow> (\<forall>s. case m s of
     (Ret _, s') \<Rightarrow> \<exists>r. sv_out s' = sv_out s @ [r] \<and> reply_id r = i | (_, s') \<Rightarrow> sv_out s' = sv_out s)"

lemma answers_send [answers_intros]: "reply_id r = i \<Longrightarrow> answers i (send r)"
  by (simp add: answers_def send_def)

lemma answers_thn [answers_intros]:
  assumes m: "keeps (same sv_out) m" and f: "\<And>x. answers i (f x)"
  shows "answers i (thn m f)"
  unfolding answers_def
proof
  fix s
  obtain o1 s1 where run: "m s = (o1, s1)" by (cases "m s")
  then have out: "sv_out s1 = sv_out s" using keepsD [OF m] by (simp add: same_def)
  show "case thn m f s of (Ret _, s') \<Rightarrow> \<exists>r. sv_out s' = sv_out s @ [r] \<and> reply_id r = i | (_, s') \<Rightarrow> sv_out s' = sv_out s"
  proof (cases o1)
    case (Ret x)
    have "case f x s1 of (Ret _, s') \<Rightarrow> \<exists>r. sv_out s' = sv_out s1 @ [r] \<and> reply_id r = i | (_, s') \<Rightarrow> sv_out s' = sv_out s1"
      using f [of x] unfolding answers_def by (rule spec)
    with out run Ret show ?thesis by (simp add: thn_def split: prod.splits outcome.splits)
  qed (use out run in \<open>simp_all add: thn_def\<close>)
qed

lemma answers_prod [answers_intros]: "(\<And>a b. answers i (g a b)) \<Longrightarrow> answers i (case p of (a, b) \<Rightarrow> g a b)"
  by (cases p) simp





section \<open>A mutex that stays held\<close>

definition held :: "('h, 'w) server \<Rightarrow> ('h, 'w) server \<Rightarrow> bool" where
  "held s s' \<longleftrightarrow> (sv_locked s \<longrightarrow> sv_locked s')"

interpretation held: tool_frame held env for env
  by unfold_locales (auto simp: held_def)

definition unanswered :: "('h, 'w) server \<Rightarrow> ('h, 'w) server \<Rightarrow> bool" where
  "unanswered s s' \<longleftrightarrow> sv_locked s' \<and> (\<exists>rs. sv_out s' = sv_out s @ rs \<and> (\<forall>r\<in>set rs. \<not> is_result r))"

lemma unanswered_send: "unanswered s s' \<Longrightarrow> send r s' = (u, s'') \<Longrightarrow> \<not> is_result r \<Longrightarrow> unanswered s s''"
proof -
  assume s': "unanswered s s'" and r: "\<not> is_result r" and run: "send r s' = (u, s'')"
  from s' obtain rs where "sv_out s' = sv_out s @ rs" "\<forall>r\<in>set rs. \<not> is_result r" "sv_locked s'" by (auto simp: unanswered_def)
  with r run show ?thesis unfolding unanswered_def by (intro conjI exI [of _ "rs @ [r]"]) (auto simp: send_def)
qed

lemma unanswered_refl: "sv_locked s \<Longrightarrow> unanswered s s"
  by (simp add: unanswered_def)

lemma unanswered_call: "sv_locked s \<Longrightarrow> handleToolsCall env i msg s = (o1, s') \<Longrightarrow> unanswered s s'"
proof -
  assume locked: "sv_locked s" and run: "handleToolsCall env i msg s = (o1, s')"
  have call: "unanswered s s1 \<and> sv_locked s1" if "handleTool env name args s = (r, s1)" for name args r s1
    using keepsD [OF held.keeps_call that] keepsD [OF replies.keeps_call that] locked by (simp add: held_def same_def unanswered_def)
  have cut: "thn (critical m) f s1 = (Hang, s1)" if "sv_locked s1" for m f and s1 :: "('a, 'b) server"
    using that by (simp add: thn_def critical_def lock_mu_def)
  show ?thesis
  proof (cases "map_of msg ''params''")
    case None
    with run show ?thesis by (auto simp: handleToolsCall_def intro: unanswered_send [OF unanswered_refl [OF locked]])
  next
    case (Some params)
    show ?thesis
    proof (cases "decode_call params")
      case None
      with run Some show ?thesis by (auto simp: handleToolsCall_def intro: unanswered_send [OF unanswered_refl [OF locked]])
    next
      case c: (Some c)
      obtain name args where na: "c = (name, args)" by (cases c)
      obtain r s1 where h: "handleTool env name args s = (r, s1)" by (cases "handleTool env name args s")
      show ?thesis
        using run call [OF h] h
        by (cases r) (auto simp: handleToolsCall_def Some c na thn_def [of "handleTool env name args"] cut split: prod.splits)
    qed
  qed
qed

lemma unanswered_line: "sv_locked s \<Longrightarrow> runLine env line s = (r, s') \<Longrightarrow> unanswered s s'"
proof -
  assume locked: "sv_locked s" and run: "runLine env line s = (r, s')"
  obtain o1 s1 where d: "dispatchLine env line s = (o1, s1)" by (cases "dispatchLine env line s")
  have "unanswered s s1"
    using d unanswered_refl [OF locked] unfolding dispatchLine_def Let_def
    by (auto split: option.splits if_splits intro: unanswered_call [OF locked] unanswered_send [OF unanswered_refl [OF locked]])
  then show ?thesis
    using run d unfolding runLine_def by (cases o1) (auto split: option.splits intro: unanswered_send [of s s1])
qed

lemma locked_store: "sv_locked s \<Longrightarrow> getStore env s = (Hang, s)"
  by (simp add: getStore_def critical_def thn_def lock_mu_def)

lemma tool_fail_Ret: "\<exists>u. tool_fail env name msg s = (Ret (msg, None, True), s\<lparr>sv_usage := u\<rparr>)"
  by (auto simp: tool_fail_def thn_def recordUsage_def Let_def)

lemma locked_call:
  assumes "sv_locked s" "name \<noteq> ''reindex''" "handleTool env name args s = (r, s1)"
  shows "r = Hang \<or> (\<exists>x. r = Ret x)"
proof -
  have fail: "fst (tool_fail env name msg s) = Ret (msg, None, True)" for msg
    using tool_fail_Ret [of env name msg s] by auto
  have serve: "fst (serve_call env name args s) = Hang \<or> (\<exists>x. fst (serve_call env name args s) = Ret x)"
    using fail by (cases "validateToolArgs (nv_fmt_v env) (nv_unidata env) name args")
      (auto simp: serve_call_def thn_def locked_store [OF assms(1)])
  have target: "\<exists>r. allowedTarget env p s = (r, s) \<and> (r = Hang \<or> (\<exists>x. r = Ret x))" for p
    by (auto simp: allowedTarget_def Let_def split: option.split)
  then obtain t where "allowedTarget env (string_or args ''repo_dir'' ''.'') s = (t, s)" "t = Hang \<or> (\<exists>x. t = Ret x)" by blast
  then show ?thesis
    using assms(2,3) serve fail
    by (auto simp: handleTool_def checkChangedSymbolsTarget_def thn_def recordUsage_def Let_def split: if_splits sum.splits prod.splits)
       (metis fst_conv)+
qed

text \<open>Under a held mutex a tool call never returns, or panics in \<^verbatim>\<open>reindex\<close>.\<close>

lemma locked_tools_call:
  assumes "sv_locked s" "map_of msg ''params'' = Some params" "decode_call params = Some (name, args)"
    and "handleToolsCall env i msg s = (r, s')"
  shows "sv_out s' = sv_out s \<and> (r = Hang \<or> name = ''reindex'' \<and> (\<exists>p. r = Panic p))"
proof -
  obtain r1 s1 where h: "handleTool env name args s = (r1, s1)" by fastforce
  have s1: "sv_locked s1" "sv_out s1 = sv_out s"
    using keepsD [OF held.keeps_call h] keepsD [OF replies.keeps_call h] assms(1) by (simp_all add: held_def same_def)
  have "thn (critical m) f s1 = (Hang, s1)" for m :: "(string list, ('a, 'b) server) proc" and f :: "string list \<Rightarrow> (unit, ('a, 'b) server) proc"
    using s1 by (simp add: thn_def critical_def lock_mu_def)
  then show ?thesis
    using assms(2-4) s1 locked_call [OF assms(1) _ h]
    by (cases r1) (auto simp: handleToolsCall_def thn_def [of "handleTool env name args"] h split: prod.splits)
qed

text \<open>
  C36: once a request has left the mutex held (a panic inside the section that reports re-indexing), no tool call of the
  session returns a result any more, and the next call that decodes ends the service: it never returns, so the loop reads no further
  line, unless it is a \<^verbatim>\<open>reindex\<close> that panics itself, which is reported as an internal error.
\<close>

theorem held_mutex_ends_service:
  assumes "served env s s'" and "sv_locked s" and "nv_decode env line = Some msg" and "decode_method msg = Some ''tools/call''"
    and "map_of msg ''params'' = Some params" and "decode_call params = Some (name, args)"
  shows "(\<exists>rs. sv_out s' = sv_out s @ rs \<and> (\<forall>r\<in>set rs. \<not> is_result r))
    \<and> (case runLine env line s' of
         (Hang, s'') \<Rightarrow> sv_out s'' = sv_out s'
       | (Ret _, s'') \<Rightarrow> name = ''reindex''
           \<and> (\<exists>p. sv_out s'' = sv_out s' @ (case map_of msg ''id'' of None \<Rightarrow> [] | Some i \<Rightarrow> [ReplyError i (- 32603) (''Internal error: '' @ p)]))
       | (Panic _, _) \<Rightarrow> False)"
proof -
  have old: "sv_locked s' \<and> (\<exists>rs. sv_out s' = sv_out s @ rs \<and> (\<forall>r\<in>set rs. \<not> is_result r))"
    using assms(1,2)
  proof (induction rule: served.induct)
    case (line s s' l r s'')
    then obtain rs where rs: "sv_locked s'" "sv_out s' = sv_out s @ rs" "\<forall>r\<in>set rs. \<not> is_result r" by auto
    from unanswered_line [OF rs(1) line.hyps(2)] obtain rs' where
      "sv_locked s''" "sv_out s'' = sv_out s' @ rs'" "\<forall>r\<in>set rs'. \<not> is_result r" by (auto simp: unanswered_def)
    with rs show ?case by (intro conjI exI [of _ "rs @ rs'"]) auto
  qed simp
  let ?i = "case map_of msg ''id'' of None \<Rightarrow> JNull | Some i \<Rightarrow> i"
  have d: "dispatchLine env line s' = handleToolsCall env ?i msg s'" "request_id env line = map_of msg ''id''"
    using assms(3,4) by (simp_all add: dispatchLine_def request_id_def Let_def)
  obtain r s'' where run: "handleToolsCall env ?i msg s' = (r, s'')" by fastforce
  show ?thesis
    using old locked_tools_call [OF conjunct1 [OF old] assms(5,6) run] run
    by (cases r) (auto simp: runLine_def d send_def split: option.split)
qed

section \<open>Back-off\<close>

text \<open>
  while an index attempt on a directory has failed less than the back-off ago, a further call indexes nothing: it reads
  the clock, changes nothing else, and answers with the remembered error and the seconds that are left.
\<close>

theorem autoIndex_backs_off:
  assumes "\<not> sv_locked s" and "path_abs (we_cwd (nv_ws env (sv_world s))) path = Inr absPath"
    and "map_of (sv_failed s) absPath = Some f"
    and "nv_now env (sv_world s) = (now, w1)" and "nv_now env w1 = (again, w2)" and "now - fi_at f < backoff s"
  shows "autoIndexMemoized env path s =
    (Ret (Inl (''auto-index for '' @ absPath @ '' previously failed ('' @ fi_err f @ ''); retrying in ''
       @ seconds_string (round_second (backoff s - (again - fi_at f))))), s\<lparr>sv_world := w2\<rparr>)"
proof -
  have "backoff (s\<lparr>sv_locked := True, sv_world := w1\<rparr>) = backoff s" by (simp add: backoff_def)
  with assms show ?thesis
    by (simp add: autoIndexMemoized_def must_def thn_def absolute_def failed_recently_def critical_def lock_mu_def unlock_mu_def on_world_def)
qed

text \<open>A failed attempt is remembered with its error at the time it ended.\<close>

lemma autoIndex_remembers:
  assumes "\<not> sv_locked s" and "path_abs (we_cwd (nv_ws env (sv_world s))) path = Inr absPath" and "map_of (sv_failed s) absPath = None"
    and "autoIndex env absPath s = (Ret (Inl e), s1)" and "\<not> sv_locked s1" and "nv_now env (sv_world s1) = (now, w)"
  shows "autoIndexMemoized env path s =
    (Ret (Inl e), s1\<lparr>sv_failed := gm_put absPath \<lparr>fi_at = now, fi_err = e\<rparr> (sv_failed s1), sv_world := w\<rparr>)"
proof -
  have [simp]: "s\<lparr>sv_locked := False\<rparr> = s" "s1\<lparr>sv_locked := False\<rparr> = s1" using assms(1,5) by simp_all
  show ?thesis
    using assms
    by (simp add: autoIndexMemoized_def must_def thn_def absolute_def failed_recently_def remember_failure_def critical_def lock_mu_def
        unlock_mu_def on_world_def)
qed

section \<open>A server\<close>

text \<open>A world is a clock and files; a line is the name of the tool that it calls without arguments.\<close>

definition demo_server :: "contract_env \<Rightarrow> (unit, int \<times> files_t, unit, unit) server_env" where
  "demo_server ce = \<lparr>nv_unidata = ascii_tables, nv_regexps = demo_regexps, nv_git = (\<lambda>_. demo_git), nv_ws = (\<lambda>_. demo_ws_env),
     nv_now = (\<lambda>w. (fst w, (fst w + 1, snd w))), nv_panic = ''index out of range'', nv_absent = (\<lambda>_ _. False),
     nv_Open = (\<lambda>_ w. (Inr (), w)), nv_Create = (\<lambda>_ w. (Inr (), w)), nv_Close = (\<lambda>_ w. w),
     nv_ListRepos = (\<lambda>_ _. Inr [\<lparr>rs_ModulePath = ''m'', rs_Dir = ''/m'', rs_Missing = False\<rparr>]),
     nv_IsStale = (\<lambda>_ _ _. Inr False), nv_StaleReason = (\<lambda>_ _ _. Inr []), nv_ReindexStale = (\<lambda>_ w. (Inr [''m''], w)),
     nv_ReindexRepo = (\<lambda>_ _ _ w. (Inr (), w)), nv_IndexAll = (\<lambda>_ _ w. (Inr [], w)), nv_contracts = (\<lambda>_ _. ce),
     nv_written = (\<lambda>_ _ w. w), nv_Suppress = (\<lambda>_ _ _ w. (Inr (), w)), nv_parse = (\<lambda>_ _. Inr ()), nv_failures = (\<lambda>_. 0),
     nv_fallback = (\<lambda>_. False), nv_contents = (\<lambda>_. []), nv_resolve = (\<lambda>_. ()), nv_Write = (\<lambda>_ _ _ _ w. (Inr (), w)),
     nv_SetIndexedAt = (\<lambda>_ w. (Inr (), w)), nv_Counts = (\<lambda>_ _. Inr (0, 0, 0)), nv_SetRepoMeta = (\<lambda>_ _ _ _ _ _ w. (Inr (), w)),
     nv_Fingerprint = (\<lambda>_ _ _ w. w), nv_ChurnDegradation = (\<lambda>_ _ w. (Inr (), w)), nv_db = (\<lambda>_ _. list_db [] [] []),
     nv_source = (\<lambda>_. file_env), nv_rename = (\<lambda>_ _. store_env), nv_faults = (\<lambda>_ _. no_faults), nv_files = snd,
     nv_put_files = (\<lambda>fs w. (fst w, fs)), nv_chunks = (\<lambda>_ _. []), nv_put_chunks = (\<lambda>_ _ w. w), nv_chunk_fault = (\<lambda>_. None),
     nv_stamp = (\<lambda>w. (fst w, [])), nv_limit_env = (\<lambda>_. []), nv_queries = (\<lambda>_. None), nv_renderWrite = (\<lambda>_ _. []),
     nv_renderRename = (\<lambda>_. []), nv_encode = (\<lambda>_. None), nv_sample = (\<lambda>_. NilResult), nv_schema = ''{}'', nv_stats = (\<lambda>_. []),
     nv_fmt_v = (\<lambda>_. []),
     nv_decode = (\<lambda>line. Some [(''method'', JStr ''tools/call''), (''id'', JStr ''7''), (''params'', JObj [(''name'', JStr line)])])\<rparr>"

definition demo_state :: "(unit, int \<times> files_t) server" where
  "demo_state = \<lparr>sv_store = Some (), sv_failed = [], sv_usage = [], sv_gated = 0, sv_dbPath = [], sv_repoPath = ''/w'', sv_warnings = [],
     sv_reindexed = [], sv_allowedPaths = [], sv_contractCfg = DefaultConfig demo_regexps, sv_backoff = 0, sv_writeEnabled = False,
     sv_hasContractCfg = False, sv_locked = False, sv_out = [], sv_world = (0, file_fs)\<rparr>"

lemma demo_fields:
  "nv_unidata (demo_server ce) = ascii_tables" "nv_regexps (demo_server ce) = demo_regexps" "nv_panic (demo_server ce) = ''index out of range''"
  "nv_ListRepos (demo_server ce) h w = Inr [\<lparr>rs_ModulePath = ''m'', rs_Dir = ''/m'', rs_Missing = False\<rparr>]"
  "nv_ReindexStale (demo_server ce) p w = (Inr [''m''], w)" "nv_contracts (demo_server ce) h w = ce"
  "nv_now (demo_server ce) w = (fst w, (fst w + 1, snd w))" "nv_files (demo_server ce) = snd" "nv_queries (demo_server ce) n = None"
  "nv_ws (demo_server ce) w = demo_ws_env" "nv_fmt_v (demo_server ce) = (\<lambda>_. [])"
  "nv_decode (demo_server ce) line = Some [(''method'', JStr ''tools/call''), (''id'', JStr ''7''), (''params'', JObj [(''name'', JStr line)])]"
  by (simp_all add: demo_server_def)

lemma demo_dispatch: "dispatchLine (demo_server ce) name s =
   thn (handleTool (demo_server ce) name []) (\<lambda>(result, structured, isErr).
     thn (critical (thn (look notices) (\<lambda>ns. thn (modify (\<lambda>s. s\<lparr>sv_warnings := []\<rparr>)) (\<lambda>_. ret ns)))) (\<lambda>ns.
       send (Reply (JStr ''7'') (CallResult (if ns \<noteq> [] then str_join [nl] ns @ [nl, nl] @ result else result)
         (if isErr then None else structured) isErr)))) s"
  by (simp add: dispatchLine_def handleToolsCall_def demo_fields decode_method_def decode_call_def call_member_def key_fold_def
      ascii_lower_def char_of_def bit_iff_odd)

lemma demo_request: "request_id (demo_server ce) name = Some (JStr ''7'')" "request_method (demo_server ce) name = Some ''tools/call''"
  by (simp_all add: request_id_def request_method_def demo_fields decode_method_def)

lemma demo_answer:
  assumes "handleTool (demo_server ce) name [] s = (Ret (res, st, e), s1)"
    and "\<not> sv_locked s1" and "sv_warnings s1 = []" and "sv_reindexed s1 = []"
  shows "runLine (demo_server ce) name s
    = (Ret (), s1\<lparr>sv_out := sv_out s1 @ [Reply (JStr ''7'') (CallResult res (if e then None else st) e)]\<rparr>)"
proof -
  have [simp]: "s1\<lparr>sv_warnings := [], sv_locked := False, sv_out := r\<rparr> = s1\<lparr>sv_out := r\<rparr>" for r using assms by simp
  show ?thesis
    using assms(2-4)
    by (simp add: runLine_def demo_dispatch thn_def assms(1) critical_def lock_mu_def unlock_mu_def notices_def send_def)
qed

lemma demo_panic:
  "handleTool (demo_server ce) name [] s = (Panic p, s1) \<Longrightarrow> runLine (demo_server ce) name s
    = (Ret (), s1\<lparr>sv_out := sv_out s1 @ [ReplyError (JStr ''7'') (- 32603) (''Internal error: '' @ p)]\<rparr>)"
  by (simp add: runLine_def demo_dispatch thn_def demo_request send_def)

lemma demo_refused: "handleTool (demo_server ce) ''rename_symbol'' [] demo_state
   = (Ret (writeRefusal ''rename_symbol'', None, True),
      demo_state\<lparr>sv_usage := usage_record ''rename_symbol'' (word_of_int (int (length (writeRefusal ''rename_symbol''))))
        (word_of_int (int (length (writeRefusal ''rename_symbol'')))) True []\<rparr>)"
  by (simp add: handleTool_def writeTools_def thn_def tool_fail_def recordUsage_def Let_def) (simp add: demo_state_def)

theorem read_only_session_witness:
  "\<exists>s'. served (demo_server demo_env) demo_state s' \<and> sv_out s' \<noteq> [] \<and> snd (sv_world s') = file_fs \<and> \<not> sv_writeEnabled s'
     \<and> served ((demo_server demo_env)\<lparr>nv_put_files := \<lambda>_ w. (fst w, Map.empty)\<rparr>) demo_state s'
     \<and> fst (handleTool (demo_server demo_env) ''replace_symbol_body'' [] s') = Ret (writeRefusal ''replace_symbol_body'', None, True)"
proof -
  have run: "runLine (demo_server demo_env) ''rename_symbol'' demo_state = (Ret (),
      demo_state\<lparr>sv_usage := usage_record ''rename_symbol'' (word_of_int (int (length (writeRefusal ''rename_symbol''))))
        (word_of_int (int (length (writeRefusal ''rename_symbol'')))) True [],
        sv_out := [Reply (JStr ''7'') (CallResult (writeRefusal ''rename_symbol'') None True)]\<rparr>)" (is "_ = (_, ?s1)")
    using demo_answer [OF demo_refused] by (simp add: demo_state_def)
  have s1: "served (demo_server demo_env) demo_state ?s1" by (rule served.line [OF served.start run])
  have off: "\<not> sv_writeEnabled demo_state" by (simp add: demo_state_def)
  note session = read_only_session [OF s1 off]
  have "''replace_symbol_body'' \<in> set writeTools" by (simp add: writeTools_def)
  then obtain u where "handleTool (demo_server demo_env) ''replace_symbol_body'' [] ?s1
      = (Ret (writeRefusal ''replace_symbol_body'', None, True), ?s1\<lparr>sv_usage := u\<rparr>)"
    using session by blast
  moreover have "served ((demo_server demo_env)\<lparr>nv_put_files := \<lambda>_ w. (fst w, Map.empty)\<rparr>) demo_state ?s1"
    using session by blast
  ultimately show ?thesis using s1 by (intro exI [of _ ?s1]) (simp add: demo_state_def)
qed

theorem handleTool_counted_once_witness:
  "\<exists>raw. sv_usage (snd (handleTool (demo_server demo_env) ''rename_symbol'' [] demo_state))
     = usage_record ''rename_symbol'' (word_of_int (int (length (writeRefusal ''rename_symbol'')))) raw True []"
  using handleTool_counted_once [OF demo_refused [of demo_env]] by (simp add: demo_refused) (simp add: demo_state_def)


theorem autoIndex_backs_off_witness:
  "fst (autoIndexMemoized (demo_server demo_env) ''/w'' (demo_state\<lparr>sv_failed := [(''/w'', \<lparr>fi_at = - 5, fi_err = ''parse''\<rparr>)]\<rparr>))
   = Ret (Inl (''auto-index for /w previously failed (parse); retrying in 30s''))"
proof -
  let ?s = "demo_state\<lparr>sv_failed := [(''/w'', \<lparr>fi_at = - 5, fi_err = ''parse''\<rparr>)]\<rparr>"
  have s: "\<not> sv_locked ?s" "map_of (sv_failed ?s) ''/w'' = Some \<lparr>fi_at = - 5, fi_err = ''parse''\<rparr>" "sv_world ?s = (0, file_fs)"
    "backoff ?s = 30 * 10 ^ 9"
    by (simp_all add: demo_state_def backoff_def defaultFailedIndexBackoff_def)
  have p: "path_abs (we_cwd (nv_ws (demo_server demo_env) (sv_world ?s))) ''/w'' = Inr ''/w''"
    by (simp add: demo_fields demo_ws_env_def path_abs_def path_is_abs_def path_clean_def go_str_simps)
  show ?thesis
    using autoIndex_backs_off [OF s(1) p s(2), of 0 "(1, file_fs)" 1 "(2, file_fs)"]
    by (simp add: s demo_fields round_second_def seconds_string_def itoa_def digits10.simps char_of_def bit_iff_odd)
qed

text \<open>The same server over an index with a file that ends in a quote: the scanners panic on it.\<close>

definition cut_env :: contract_env where
  "cut_env = demo_env\<lparr>ev_AllSymbols := Inr [file_symbol], ev_FileContents := Inr [([], [(''a.go'', ''import '' @ [CHR 0x22])])]\<rparr>"

lemma cut_panics: "ReanalyzeStaleContracts demo_regexps ascii_tables cut_env (DefaultConfig demo_regexps) = None"
proof -
  have panics: "importPaths (''import '' @ [CHR 0x22]) = None"
    by (simp add: scan_eval)
  have "ExtractRuntimeContracts demo_regexps ascii_tables (DefaultRuntimeExtractors demo_regexps)
      (build_context [file_symbol] [([], [(''a.go'', ''import '' @ [CHR 0x22])])]) now = None" for now
    by (simp add: ExtractRuntimeContracts_def build_context_def file_symbol_def add_symbol_def
        Graph_Proofs.demo_symbol_def kindType_def kindConst_def gm_put_def gm_get_def Let_def panics [unfolded append.simps])
  then have "RunAnalysis demo_regexps ascii_tables cut_env (DefaultConfig demo_regexps) = None"
    by (simp add: RunAnalysis_def buildAnalysis_def cut_env_def demo_env_def DefaultConfig_def split: prod.split)
  then have run: "run_and_write demo_regexps ascii_tables cut_env (DefaultConfig demo_regexps) names = None" for names
    by (simp add: run_and_write_def)
  have "ev_ListRepos cut_env = Inr [\<lparr>rp_ModulePath = ''m'', rp_Missing = False\<rparr>]"
    "stale_repos cut_env [\<lparr>rp_ModulePath = ''m'', rp_Missing = False\<rparr>] = Inr [''m'']"
    by (simp_all add: cut_env_def demo_env_def)
  then show ?thesis by (simp add: ReanalyzeStaleContracts_def run)
qed

lemma cut_store: "getStore (demo_server cut_env) demo_state
   = (Panic ''index out of range'', demo_state\<lparr>sv_reindexed := [''m''], sv_locked := True\<rparr>)"
proof -
  have cfg: "contractConfig (demo_server cut_env) s = DefaultConfig demo_regexps" if "sv_hasContractCfg s = False" for s
    using that by (simp add: contractConfig_def demo_fields)
  show ?thesis
    by (simp add: getStore_def serve_fresh_def refreshStale_def refreshWorkspaceStale_def must_def thn_def critical_def lock_mu_def unlock_mu_def
        current_store_def on_world_def reanalyze_def demo_fields cut_panics cfg demo_state_def)
qed

lemma no_args_valid: "validateToolArgs fmt_v U tool [] = Inr ()"
proof -
  have i: "first_error (\<lambda>s. validateIntArg fmt_v tool (is_key s) [] (is_min s) (is_max s)) xs = Inr ()" for xs
    by (simp add: first_error_ok validateIntArg_def)
  have f: "first_error (\<lambda>s. validateFloatArg fmt_v tool (fsp_key s) [] (fsp_min s) (fsp_max s)) xs = Inr ()" for xs
    by (simp add: first_error_ok validateFloatArg_def)
  have e: "first_error (\<lambda>s. if en_slice s then validateStringEnumSlice U tool (en_key s) [] (en_allowed s)
      else validateStringArg U tool (en_key s) [] (en_allowed s)) xs = Inr ()" for xs
    by (simp add: first_error_ok validateStringArg_def validateStringEnumSlice_def)
  show ?thesis unfolding validateToolArgs_def i f e by simp
qed

lemma cut_call: "handleTool (demo_server cut_env) ''deps'' [] demo_state
   = (Panic ''index out of range'', demo_state\<lparr>sv_reindexed := [''m''], sv_locked := True\<rparr>)"
proof -
  have "validateToolArgs (nv_fmt_v (demo_server cut_env)) (nv_unidata (demo_server cut_env)) ''deps'' [] = Inr ()"
    by (simp add: no_args_valid)
  then show ?thesis
    by (simp add: handleTool_def writeTools_def thn_def serve_call_def cut_store)
qed

theorem held_mutex_ends_service_witness:
  "\<exists>s' s''. runLine (demo_server cut_env) ''deps'' demo_state = (Ret (), s')
     \<and> sv_out s' = [ReplyError (JStr ''7'') (- 32603) (''Internal error: index out of range'')]
     \<and> runLine (demo_server cut_env) ''stats'' s' = (Hang, s'') \<and> sv_out s'' = sv_out s'"
proof -
  have run: "runLine (demo_server cut_env) ''deps'' demo_state = (Ret (), demo_state\<lparr>sv_reindexed := [''m''], sv_locked := True,
      sv_out := [ReplyError (JStr ''7'') (- 32603) (''Internal error: index out of range'')]\<rparr>)" (is "_ = (_, ?s1)")
    using demo_panic [OF cut_call] by (simp add: demo_state_def)
  have call: "decode_call (JObj [(''name'', JStr ''stats'')]) = Some (''stats'', [])"
    by (simp add: decode_call_def call_member_def key_fold_def ascii_lower_def char_of_def bit_iff_odd)
  obtain r s'' where r: "runLine (demo_server cut_env) ''stats'' ?s1 = (r, s'')" by fastforce
  have "r = Hang \<and> sv_out s'' = sv_out ?s1"
    using held_mutex_ends_service [OF served.start, of ?s1 "demo_server cut_env" "''stats''", OF _ demo_fields(12) _ _ call]
    by (cases r) (simp_all add: r decode_method_def)
  with run r show ?thesis by (intro exI [of _ ?s1] exI [of _ s'']) simp
qed

section \<open>The notice of a refresh\<close>

text \<open>Opening the store forgets what an earlier refresh of the same call reported; the response gate opens it a second time.\<close>

lemma getStore_forgets: "\<not> sv_locked s \<Longrightarrow> getStore env (s\<lparr>sv_reindexed := msgs\<rparr>) = getStore env s"
  by (simp add: getStore_def critical_def thn_def lock_mu_def unlock_mu_def)

text \<open>A call that does not open the store repeats the notice of an earlier one.\<close>

lemma schema_repeats_notice:
  assumes "\<not> sv_locked s" and "sv_warnings s = []" and "sv_reindexed s = [m]"
    and "map_of msg ''params'' = Some (JObj [(''name'', JStr ''schema'')])"
  shows "\<exists>s'. handleToolsCall env i msg s = (Ret (), s') \<and> sv_reindexed s' = [m] \<and>
    sv_out s' = sv_out s @ [Reply i (CallResult (''reindexed: ['' @ m @ '']'' @ [nl, nl] @ nv_schema env) None False)]"
proof -
  have call: "decode_call (JObj [(''name'', JStr ''schema'')]) = Some (''schema'', [])"
    by (simp add: decode_call_def call_member_def key_fold_def ascii_lower_def char_of_def bit_iff_odd)
  show ?thesis
    using assms
    by (simp add: handleToolsCall_def call handleTool_def thn_def recordUsage_def Let_def critical_def lock_mu_def unlock_mu_def notices_def
        send_def)
qed

text \<open>A workspace index whose database cannot be opened again leaves the server with the handle that it closed.\<close>

lemma reopen_failure_keeps_closed:
  assumes "LoadWorkspace (nv_ws env (sv_world s)) (nv_unidata env) configPath = Inr cfg"
    and "nv_IndexAll env cfg (dbHomeFor s absPath) (sv_world s) = (Inr summaries, w)" and "sv_store s = Some h"
    and "nv_Open env (dbHomeFor s absPath) (nv_Close env h w) = (Inl e, w')"
  shows "handleWorkspaceIndex env configPath absPath s = (Ret (Inl e), s\<lparr>sv_world := w'\<rparr>) \<and> sv_store (s\<lparr>sv_world := w'\<rparr>) = Some h"
  using assms by (simp add: handleWorkspaceIndex_def must_def thn_def on_world_def close_current_def)

section \<open>Confinement\<close>

text \<open>A change of files only at the target of a symbol that the guard admits, or at the name of a temporary file.\<close>

definition inside :: "string list \<Rightarrow> string \<Rightarrow> bool" where
  "inside roots p \<longleftrightarrow> (\<exists>r\<in>set roots. p = r \<or> has_prefix p (r @ ''/''))"

lemma writeFileAtomic_touches: "writeFileAtomic F path c fs = (r, fs') \<Longrightarrow> fs' p \<noteq> fs p \<Longrightarrow> p = path \<or> wf_createTemp F = Inr p"
  by (auto simp: writeFileAtomic_def fail_cleanup_def Let_def split: option.splits sum.splits prod.splits if_splits)

lemma commit_touches: "commit F path c w fs = (r, fs') \<Longrightarrow> fs' p \<noteq> fs p \<Longrightarrow> p = path \<or> wf_createTemp F = Inr p"
  using writeFileAtomic_touches unfolding commit_def by (auto split: prod.splits sum.splits)

definition span_only :: "store_db \<Rightarrow> unidata \<Rightarrow> source_env \<Rightarrow> write_faults \<Rightarrow> string \<Rightarrow> (files_t \<Rightarrow> 'a result \<times> files_t) \<Rightarrow> bool" where
  "span_only db U env F q edit \<longleftrightarrow> (\<forall>fs p. snd (edit fs) p \<noteq> fs p \<longrightarrow> wf_createTemp F = Inr p \<or>
     (\<exists>sy. SymbolByName db q = Inr (Some sy) \<and> se_evalSymlinks env (sy_PosFile sy) = Inr p))"

lemma writeSpan_parts: "writeSpan db U env q = Inr (sy, spn, path) \<Longrightarrow>
   SymbolByName db q = Inr (Some sy) \<and> se_evalSymlinks env (sy_PosFile sy) = Inr path"
  by (auto simp: writeSpan_def split: sum.splits option.splits)

lemma edits_span_only:
  "span_only db U env F q (ReplaceSymbolBody db U env F q body doc)"
  "span_only db U env F q (InsertSymbol db U env F q txt after)"
  "span_only db U env F q (DeleteSymbol db U env F q ex test)"
proof -
  have c: "wf_createTemp F = Inr p \<or> (\<exists>sy. SymbolByName db q = Inr (Some sy) \<and> se_evalSymlinks env (sy_PosFile sy) = Inr p)"
    if "writeSpan db U env q = Inr (sy, spn, path)" "snd (commit F path t w fs) p \<noteq> fs p" for sy spn path t w fs p
    using writeSpan_parts [OF that(1)] commit_touches [of F path t w fs "fst (commit F path t w fs)" "snd (commit F path t w fs)" p] that(2) by auto
  show "span_only db U env F q (ReplaceSymbolBody db U env F q body doc)"
    unfolding span_only_def ReplaceSymbolBody_def by (auto simp: Let_def split: sum.splits option.splits if_splits dest: c)
  show "span_only db U env F q (InsertSymbol db U env F q txt after)"
    unfolding span_only_def InsertSymbol_def by (auto simp: Let_def split: sum.splits option.splits if_splits dest: c)
  show "span_only db U env F q (DeleteSymbol db U env F q ex test)"
    unfolding span_only_def DeleteSymbol_def by (auto simp: Let_def split: sum.splits option.splits if_splits dest: c)
qed

lemma writeGuard_state: "snd (writeGuard env h q s) = s"
  by (auto simp: writeGuard_def thn_def allowedWriteTarget_def Let_def split: sum.splits option.splits prod.splits outcome.splits)

lemma writeGuard_admits:
  assumes "writeGuard env h q s = (Ret (osy, []), s1)" and "SymbolByName (nv_db env h (sv_world s)) q = Inr (Some sy)"
    and "we_evalSymlinks (nv_ws env (sv_world s)) (sy_PosFile sy) = Inr p"
  shows "\<exists>roots. allowedRoots (nv_ws env (sv_world s)) (nv_unidata env) s = Some roots \<and> inside roots p"
  using assms
  by (auto simp: writeGuard_def thn_def allowedWriteTarget_def Let_def inside_def split: option.splits if_splits)

lemma allowed_Ret:
  "allowedWriteTarget env path s = (Ret (Inr u), s1) \<Longrightarrow> s1 = s \<and> (\<exists>p roots. we_evalSymlinks (nv_ws env (sv_world s)) path = Inr p
     \<and> allowedRoots (nv_ws env (sv_world s)) (nv_unidata env) s = Some roots \<and> inside roots p)"
  by (auto simp: allowedWriteTarget_def Let_def inside_def split: sum.splits option.splits if_splits)

lemma allowed_all:
  "each_proc (\<lambda>(path, _). allowedWriteTarget env path) fs s = (Ret (Inr u), s1) \<Longrightarrow> s1 = s \<and> (\<forall>path\<in>fst ` set fs.
     \<exists>p roots. we_evalSymlinks (nv_ws env (sv_world s)) path = Inr p
       \<and> allowedRoots (nv_ws env (sv_world s)) (nv_unidata env) s = Some roots \<and> inside roots p)"
proof (induction fs)
  case (Cons f fs)
  obtain path n where f: "f = (path, n)" by (cases f)
  from Cons.prems obtain v s2 where v: "allowedWriteTarget env path s = (Ret (Inr v), s2)"
    "each_proc (\<lambda>(path, _). allowedWriteTarget env path) fs s2 = (Ret (Inr u), s1)"
    by (auto simp: each_proc_def f must_Ret)
  from allowed_Ret [OF v(1)] v(2) Cons.IH show ?case by (auto simp: f)
qed (simp add: each_proc_def)

lemma write_all_touches:
  "write_all F ws fs = (r, fs') \<Longrightarrow> fs' p \<noteq> fs p \<Longrightarrow> \<exists>q\<in>fst ` set ws. p = q \<or> wf_createTemp (F q) = Inr p"
proof (induction ws arbitrary: fs)
  case (Cons w ws)
  obtain q c where w: "w = (q, c)" by (cases w)
  obtain r1 fs1 where a: "writeFileAtomic (F q) q c fs = (r1, fs1)" by (cases "writeFileAtomic (F q) q c fs")
  show ?case
  proof (cases "fs1 p = fs p")
    case True
    with Cons.prems a w Cons.IH [of fs1] show ?thesis by (cases r1) auto
  next
    case False
    from writeFileAtomic_touches [OF a False] show ?thesis by (auto simp: w)
  qed
qed simp

lemma rewrite_path: "rewrite_file E plan f = Inr w \<Longrightarrow> fst w = fp_path f"
  by (auto simp: rewrite_file_def split: sum.splits if_splits)

lemma ApplyRename_touches:
  assumes "snd (ApplyRename E F plan fs) p \<noteq> fs p"
  shows "\<exists>q\<in>fp_path ` set (pl_plans plan). p = q \<or> wf_createTemp (F q) = Inr p"
proof -
  obtain ws where ws: "each_r (rewrite_file E plan) (pl_plans plan) = Inr ws"
    using assms by (auto simp: ApplyRename_def split: sum.splits)
  have "list_all2 (\<lambda>f w. rewrite_file E plan f = Inr w) (pl_plans plan) ws" using ws by (simp add: each_r_Inr)
  then have "map fst ws = map fp_path (pl_plans plan)" by (induction rule: list_all2_induct) (auto dest: rewrite_path)
  then have "fst ` set ws = fp_path ` set (pl_plans plan)" by (metis list.set_map)
  moreover have "snd (write_all F ws fs) p \<noteq> fs p"
    using assms ws by (auto simp: ApplyRename_def split: prod.splits sum.splits)
  ultimately show ?thesis using write_all_touches [of F ws fs] by (metis prod.collapse)
qed

lemma plan_paths:
  assumes "RenameSymbol db U E q n f = Some (Inr plan)" shows "map fst (pl_Files plan) = map fp_path (pl_plans plan)"
proof -
  obtain sy where sy: "renameTarget db U q = Inr sy"
    using assms by (cases "renameTarget db U q") (auto simp: RenameSymbol_def)
  obtain sites where sites: "collectRenameSites db sy = Inr sites"
    using assms sy by (cases "collectRenameSites db sy") (auto simp: RenameSymbol_def split: if_splits option.splits)
  obtain r where "planRename U E sy sites = Some r"
    using assms sy sites by (auto simp: RenameSymbol_def split: if_splits option.splits)
  then show ?thesis
    using assms sy sites by (cases r) (auto simp: RenameSymbol_def comp_def split: if_splits option.splits prod.splits)
qed

text \<open>How an edit tool leaves the files: what changed since \<open>s\<close> up to the world \<open>w\<close> is admitted by the guard, or temporary.\<close>

definition admitted :: "('h, 'w, 'p, 'r) server_env \<Rightarrow> ('h, 'w) server \<Rightarrow> (string \<Rightarrow> string result) \<Rightarrow> string \<Rightarrow> bool" where
  "admitted env s links p \<longleftrightarrow> (\<exists>q. wf_createTemp (nv_faults env q (sv_world s)) = Inr p)
    \<or> (\<exists>real roots. links p = Inr real \<and> allowedRoots (nv_ws env (sv_world s)) (nv_unidata env) s = Some roots \<and> inside roots real)"

lemma handle_edit_confined:
  assumes put: "\<And>fs w. nv_files env (nv_put_files env fs w) = fs"
    and os: "\<And>w q. we_evalSymlinks (nv_ws env w) q = se_evalSymlinks (nv_source env w) q"
    and edit: "\<And>q w. span_only (nv_db env h w) (nv_unidata env) (nv_source env w) (nv_faults env q w) q (edit q w)"
    and run: "handle_edit env edit h ropts args s = (r, s')"
  shows "\<exists>w. (non_edit env)\<^sup>*\<^sup>* w (sv_world s') \<and> (\<forall>p. nv_files env w p \<noteq> nv_files env (sv_world s) p \<longrightarrow> admitted env s Inr p)"
proof -
  let ?q = "requiredString args ''qualified_name''" and ?F = "\<lambda>s. nv_files env (sv_world s)"
  obtain g where g: "writeGuard env h ?q s = (g, s)"
    using writeGuard_state [of env h ?q s] by (metis prod.collapse)
  show ?thesis
  proof (cases "?q \<noteq> [] \<and> (\<exists>osy. g = Ret (osy, []))")
    case False
    then have "s' = s" using run g unfolding handle_edit_def Let_def
      by (cases g) (auto simp: failing_def thn_def split: if_splits prod.splits)
    then show ?thesis by (intro exI [of _ "sv_world s"]) simp
  next
    case True
    then obtain osy where osy: "g = Ret (osy, [])" and q: "?q \<noteq> []" by blast
    obtain er s1 where e: "edit_files env (edit ?q) s = (Ret er, s1)"
      by (cases "edit_files env (edit ?q) s") (auto simp: edit_files_def on_world_def)
    have F1: "?F s1 = snd (edit ?q (sv_world s) (?F s))"
      using e put by (auto simp: edit_files_def on_world_def split: prod.splits)
    have "moved env s1 s'"
    proof (cases er)
      case (Inl x)
      with run g osy q e show ?thesis by (auto simp: handle_edit_def Let_def thn_def failing_def moved_def)
    next
      case (Inr x)
      obtain a s2 where a: "refreshAfterWrite env h osy s1 = (a, s2)" by (cases "refreshAfterWrite env h osy s1")
      with run g osy q e Inr have "s' = s2" by (cases a) (auto simp: handle_edit_def Let_def thn_def)
      with keepsD [OF indexing.keeps_after a] show ?thesis by simp
    qed
    moreover have "admitted env s Inr p" if "?F s1 p \<noteq> ?F s p" for p
      using edit [of "sv_world s" ?q, unfolded span_only_def, rule_format, OF that [unfolded F1]]
        writeGuard_admits [OF g [unfolded osy]] os unfolding admitted_def by metis
    ultimately show ?thesis unfolding moved_def by blast
  qed
qed

lemma each_allowed_state: "snd (each_proc (\<lambda>(path, _). allowedWriteTarget env path) fs s) = s"
proof (induction fs)
  case (Cons f fs)
  obtain path n where f: "f = (path, n)" by (cases f)
  have "snd (allowedWriteTarget env path s) = s"
    by (auto simp: allowedWriteTarget_def Let_def split: sum.splits option.splits)
  then obtain r where r: "allowedWriteTarget env path s = (r, s)" by (metis prod.collapse)
  with Cons.IH show ?case by (cases r) (auto simp: each_proc_def f must_def thn_def split: sum.splits)
qed (simp add: each_proc_def)

lemma renamed_moves: "keeps (moved env) (refreshRenamedRepos env h repos)"
  by (induction repos) (auto intro!: indexing.keeps_thn indexing.keeps_sum indexing.keeps_simple indexing.keeps_reindexRepo)

lemma handle_rename_confined:
  assumes put: "\<And>fs w. nv_files env (nv_put_files env fs w) = fs"
    and run: "handleRenameSymbol env h args s = (r, s')"
  shows "\<exists>w. (non_edit env)\<^sup>*\<^sup>* w (sv_world s')
    \<and> (\<forall>p. nv_files env w p \<noteq> nv_files env (sv_world s) p \<longrightarrow> admitted env s (we_evalSymlinks (nv_ws env (sv_world s))) p)"
proof (cases "s' = s")
  case True
  then show ?thesis by (intro exI [of _ "sv_world s"]) simp
next
  case False
  let ?F = "\<lambda>s. nv_files env (sv_world s)" and ?w = "sv_world s"
  let ?qn = "requiredString args ''qualified_name''" and ?n = "requiredString args ''new_name''"
  obtain plan where plan: "RenameSymbol (nv_db env h ?w) (nv_unidata env) (nv_rename env h ?w) ?qn ?n (flag_arg args ''force'') = Some (Inr plan)"
    and args: "?qn \<noteq> []" "?n \<noteq> []"
    using run False by (auto simp: handleRenameSymbol_def Let_def thn_def failing_def split: if_splits option.splits sum.splits)
  obtain ok s0 where ok: "each_proc (\<lambda>(path, _). allowedWriteTarget env path) (pl_Files plan) s = (ok, s0)" by fastforce
  have "s0 = s" using each_allowed_state ok by (metis snd_conv)
  obtain u where u: "ok = Ret (Inr u)"
    using run False plan args ok \<open>s0 = s\<close> by (cases ok) (auto simp: handleRenameSymbol_def Let_def thn_def failing_def split: sum.splits)
  let ?edit = "edit_files env (\<lambda>w. ApplyRename (nv_rename env h w) (\<lambda>p. nv_faults env p w) plan)"
  obtain er s1 where e: "?edit s = (Ret er, s1)" by (cases "?edit s") (auto simp: edit_files_def on_world_def)
  have F1: "?F s1 = snd (ApplyRename (nv_rename env h ?w) (\<lambda>p. nv_faults env p ?w) plan (?F s))"
    using e put by (auto simp: edit_files_def on_world_def split: prod.splits)
  have "moved env s1 s'"
  proof (cases er)
    case (Inl x)
    with run plan args ok u \<open>s0 = s\<close> e show ?thesis by (auto simp: handleRenameSymbol_def Let_def thn_def failing_def moved_def)
  next
    case (Inr x)
    obtain a s2 where a: "refreshRenamedRepos env h (rr_Repos x) s1 = (a, s2)" by (cases "refreshRenamedRepos env h (rr_Repos x) s1")
    with run plan args ok u \<open>s0 = s\<close> e Inr have "s' = s2" by (cases a) (auto simp: handleRenameSymbol_def Let_def thn_def)
    with keepsD [OF renamed_moves a] show ?thesis by simp
  qed
  moreover have "admitted env s (we_evalSymlinks (nv_ws env ?w)) p" if "?F s1 p \<noteq> ?F s p" for p
  proof -
    from ApplyRename_touches [OF that [unfolded F1]] obtain q where q: "q \<in> fp_path ` set (pl_plans plan)"
      "p = q \<or> wf_createTemp (nv_faults env q ?w) = Inr p" by blast
    have "q \<in> fst ` set (pl_Files plan)" using q(1) plan_paths [OF plan] by (metis list.set_map)
    with allowed_all [OF ok [unfolded u]] q(2) show ?thesis unfolding admitted_def by blast
  qed
  ultimately show ?thesis unfolding moved_def by blast
qed

text \<open>
  The rename writes to the paths of the index as they are: a planned path that is a link is replaced by a file, and the file
  it led to, which the guard looked at, keeps the old text. The other edit tools resolve links first.
\<close>

lemma rename_spares_link_target:
  assumes "target \<notin> fp_path ` set (pl_plans plan)" and "\<And>q. wf_createTemp (F q) \<noteq> Inr target"
  shows "snd (ApplyRename E F plan fs) target = fs target"
  using ApplyRename_touches [of E F plan fs target] assms by blast

text \<open>
  C11: every file that one of the five edit tools changes before it re-indexes is a temporary file of the write, or is inside an
  allowed root with its symbolic links resolved; a rename, which does not resolve the paths it writes, changes only paths that
  lead to such a file. What happens after the edit is a sequence of index operations.
\<close>

theorem edit_confined:
  assumes "\<And>fs w. nv_files env (nv_put_files env fs w) = fs"
    and "\<And>w q. we_evalSymlinks (nv_ws env w) q = se_evalSymlinks (nv_source env w) q"
    and "writeHandlers env tool = Some f" and "f h ropts args s = (r, s')"
  shows "\<exists>w. (non_edit env)\<^sup>*\<^sup>* w (sv_world s') \<and> (\<forall>p. nv_files env w p \<noteq> nv_files env (sv_world s) p \<longrightarrow>
    (\<exists>q. wf_createTemp (nv_faults env q (sv_world s)) = Inr p)
    \<or> (\<exists>real roots. (if tool = ''rename_symbol'' then we_evalSymlinks (nv_ws env (sv_world s)) p = Inr real else p = real)
         \<and> allowedRoots (nv_ws env (sv_world s)) (nv_unidata env) s = Some roots \<and> inside roots real))"
proof -
  note confined = handle_edit_confined [OF assms(1,2), of h _ ropts args s r s', unfolded admitted_def]
  from assms(3) consider (rename) "tool = ''rename_symbol''" "f = (\<lambda>h _. handleRenameSymbol env h)"
    | (replace) "tool \<noteq> ''rename_symbol''" "f = handleReplaceSymbolBody env"
    | (insert) after where "tool \<noteq> ''rename_symbol''" "f = insertHandler env after"
    | (delete) "tool \<noteq> ''rename_symbol''" "f = handleSafeDeleteSymbol env"
    by (auto simp: writeHandlers_def split: if_splits)
  then show ?thesis
  proof cases
    case rename
    then show ?thesis
      using handle_rename_confined [OF assms(1), of h args s r s', unfolded admitted_def] assms(4) by simp
  next
    case replace
    show ?thesis
      using confined [OF edits_span_only(1) assms(4) [unfolded replace handleReplaceSymbolBody_def]] replace(1) by auto
  next
    case insert
    show ?thesis
      using confined [OF edits_span_only(2) assms(4) [unfolded insert insertHandler_def]] insert(1) by auto
  next
    case delete
    show ?thesis
      using confined [OF edits_span_only(3) assms(4) [unfolded delete handleSafeDeleteSymbol_def]] delete(1) by auto
  qed
qed

definition tree_env :: source_env where
  "tree_env = file_env\<lparr>se_evalSymlinks := Inr\<rparr>"

definition edit_symbol :: symbol where
  "edit_symbol = file_symbol\<lparr>sy_PosFile := ''/w/a.go'', sy_Repo := ''m''\<rparr>"

definition edit_server :: "(unit, int \<times> files_t, unit, unit) server_env" where
  "edit_server = (demo_server demo_env)\<lparr>nv_source := \<lambda>_. tree_env, nv_db := \<lambda>_ _. list_db [] [edit_symbol] []\<rparr>"

definition edit_state :: "(unit, int \<times> files_t) server" where
  "edit_state = demo_state\<lparr>sv_writeEnabled := True, sv_world := (0, [''/w/a.go'' \<mapsto> src_before @ src_decl @ src_after])\<rparr>"

lemma edit_ops: "(non_edit edit_server)\<^sup>*\<^sup>* w w' \<Longrightarrow> snd w' = snd w"
  by (induction rule: rtranclp_induct)
    (auto elim!: non_edit.cases simp: edit_server_def demo_server_def)

lemmas edit_symbol_defs = edit_symbol_def file_symbol_def demo_symbol_def

lemma edit_fields:
  "nv_files edit_server = snd" "nv_put_files edit_server fs w = (fst w, fs)" "nv_unidata edit_server = ascii_tables"
  "nv_db edit_server h w = list_db [] [edit_symbol] []" "nv_source edit_server w = tree_env" "nv_faults edit_server q w = no_faults"
  "nv_ListRepos edit_server h w = Inr [\<lparr>rs_ModulePath = ''m'', rs_Dir = ''/m'', rs_Missing = False\<rparr>]"
  "nv_ReindexRepo edit_server p m d w = (Inr (), w)" "nv_ws edit_server w = demo_ws_env"
  by (simp_all add: edit_server_def demo_server_def)

lemma edit_lookup: "SymbolByName (list_db [] [edit_symbol] []) ''p.f'' = Inr (Some edit_symbol)"
  by (simp add: SymbolByName_def list_db_def pf_name edit_symbol_defs)

lemma edit_span: "writeSpan (list_db [] [edit_symbol] []) ascii_tables tree_env ''p.f''
   = Inr (edit_symbol, \<lparr>dsp_data = src_before @ src_decl @ src_after, dsp_match = file_match, dsp_stale = False\<rparr>, ''/w/a.go'')"
  by (simp add: writeSpan_def edit_lookup)
     (simp add: edit_symbol_defs symbolSpan_def tree_env_def file_env_def file_tree_def file_decl_def
      matchAtLine_def matchFuncDecl_def kindFunction_def kindMethod_def file_match_def)

lemma edit_text: "delete_text \<lparr>dsp_data = src_before @ src_decl @ src_after, dsp_match = file_match, dsp_stale = False\<rparr>
   = src_before @ ''func g() {}'' @ [nl]"
  by (simp add: delete_text_def delete_end_def splice_def collapseJoin_def file_start Let_def src_before_def src_decl_def src_after_def
      go_str_simps)

lemma edit_delete: "\<exists>w. DeleteSymbol (list_db [] [edit_symbol] []) ascii_tables tree_env no_faults ''p.f'' False False fs
   = (Inr w, (fs(''tmp'' \<mapsto> src_before @ ''func g() {}'' @ [nl], ''/w/a.go'' \<mapsto> src_before @ ''func g() {}'' @ [nl]))(''tmp'' := None))"
proof -
  have "\<not> sy_Exported edit_symbol" by (simp add: edit_symbol_defs)
  moreover have "deleteRefusal (list_db [] [edit_symbol] []) edit_symbol False = None"
    by (simp add: deleteRefusal_def liveReferences_def EdgesTo_def queryEdges_def list_db_def scanEdges_def)
  moreover have "parseWholeFile tree_env c p m = Inr ()" for c p m
    by (simp add: parseWholeFile_def tree_env_def file_parse)
  ultimately show ?thesis
    by (simp add: DeleteSymbol_def edit_span groupRefusal_def file_start no_faults_commit edit_text)
qed

lemma edit_roots: "allowedRoots demo_ws_env ascii_tables edit_state = Some [''/w'']"
  by (simp add: allowedRoots_def edit_state_def demo_state_def add_root_def evalRoot_def demo_ws_env_def DefaultPath_def default_path_loop.simps
    path_abs_def path_is_abs_def path_clean_def path_join_def path_dir_def go_str_simps)

lemma edit_guard: "writeGuard edit_server () ''p.f'' edit_state = (Ret (Some edit_symbol, []), edit_state)"
proof -
  have "we_evalSymlinks demo_ws_env p = Inr p" for p by (simp add: demo_ws_env_def)
  then show ?thesis
    by (simp add: writeGuard_def thn_def edit_fields edit_lookup allowedWriteTarget_def edit_roots Let_def)
       (simp add: edit_symbol_defs go_str_simps)
qed

lemma edit_run: "\<exists>r s'. handleSafeDeleteSymbol edit_server () ropts [(''qualified_name'', JStr ''p.f'')] edit_state = (r, s')
   \<and> snd (sv_world s') ''/w/a.go'' = Some (src_before @ ''func g() {}'' @ [nl])"
proof -
  let ?fs = "[''/w/a.go'' \<mapsto> src_before @ src_decl @ src_after]"
  let ?fs' = "(?fs(''tmp'' \<mapsto> src_before @ ''func g() {}'' @ [nl], ''/w/a.go'' \<mapsto> src_before @ ''func g() {}'' @ [nl]))(''tmp'' := None)"
  obtain w where w: "DeleteSymbol (list_db [] [edit_symbol] []) ascii_tables tree_env no_faults ''p.f'' False False ?fs = (Inr w, ?fs')"
    using edit_delete by blast
  have world: "sv_world edit_state = (0, ?fs)" by (simp add: edit_state_def)
  have repo: "sy_Repo edit_symbol = ''m''" by (simp add: edit_symbol_def)
  show ?thesis
    by (simp add: handleSafeDeleteSymbol_def handle_edit_def Let_def requiredString_def thn_def edit_guard edit_files_def on_world_def world
        edit_fields w flag_arg_def bool_arg_def refreshAfterWrite_def reindexRepo_def must_def repo)
qed

theorem edit_confined_witness:
  "\<exists>s'. snd (handleSafeDeleteSymbol edit_server () (snd (buildOptions [])) [(''qualified_name'', JStr ''p.f'')] edit_state) = s'
     \<and> snd (sv_world s') ''/w/a.go'' = Some (src_before @ ''func g() {}'' @ [nl])
     \<and> snd (sv_world s') ''/w/a.go'' \<noteq> snd (sv_world edit_state) ''/w/a.go''
     \<and> (\<exists>roots. allowedRoots demo_ws_env ascii_tables edit_state = Some roots \<and> inside roots ''/w/a.go'')"
proof -
  obtain r s' where run: "handleSafeDeleteSymbol edit_server () (snd (buildOptions [])) [(''qualified_name'', JStr ''p.f'')] edit_state = (r, s')"
    "snd (sv_world s') ''/w/a.go'' = Some (src_before @ ''func g() {}'' @ [nl])"
    using edit_run by blast
  have h: "writeHandlers edit_server ''safe_delete_symbol'' = Some (handleSafeDeleteSymbol edit_server)"
    by (simp add: writeHandlers_def)
  have changed: "snd (sv_world s') ''/w/a.go'' \<noteq> snd (sv_world edit_state) ''/w/a.go''"
    using run(2) by (simp add: edit_state_def src_before_def src_decl_def src_after_def)
  have links: "we_evalSymlinks (nv_ws edit_server w) q = se_evalSymlinks (nv_source edit_server w) q" for w q
    by (simp add: edit_fields demo_ws_env_def tree_env_def)
  have put: "nv_files edit_server (nv_put_files edit_server fs w) = fs" for fs w by (simp add: edit_fields)
  from edit_confined [OF put links h run(1)] obtain w where w: "(non_edit edit_server)\<^sup>*\<^sup>* w (sv_world s')"
    and all: "\<forall>p. nv_files edit_server w p \<noteq> nv_files edit_server (sv_world edit_state) p \<longrightarrow>
      (\<exists>q. wf_createTemp (nv_faults edit_server q (sv_world edit_state)) = Inr p)
      \<or> (\<exists>real roots. (if ''safe_delete_symbol'' = ''rename_symbol''
             then we_evalSymlinks (nv_ws edit_server (sv_world edit_state)) p = Inr real else p = real)
           \<and> allowedRoots (nv_ws edit_server (sv_world edit_state)) (nv_unidata edit_server) edit_state = Some roots \<and> inside roots real)"
    by blast
  have inside: "snd w ''/w/a.go'' \<noteq> snd (sv_world edit_state) ''/w/a.go'' \<longrightarrow>
      (\<exists>roots. allowedRoots demo_ws_env ascii_tables edit_state = Some roots \<and> inside roots ''/w/a.go'')"
    using all [rule_format, of "''/w/a.go''"] by (simp add: edit_fields no_faults_def)
  from edit_ops [OF w] changed have "snd w ''/w/a.go'' \<noteq> snd (sv_world edit_state) ''/w/a.go''" by simp
  with inside changed run show ?thesis by auto
qed

end
