(* ===== verification/Tables.thy ===== *)
theory Tables
  imports Workspace Overflow
begin

text \<open>
  The database the store keeps (\<^verbatim>\<open>schemaSQL\<close> of \<^verbatim>\<open>store/store.go\<close>): one list of rows per table, in \<^verbatim>\<open>rowid\<close>
  order, the key/value table \<^verbatim>\<open>meta\<close>, and the two full-text indexes as what they were last rebuilt from. A column that
  may be \<^verbatim>\<open>NULL\<close> is an option; \<^verbatim>\<open>importance\<close> keeps its default, no statement sets it. A statement is the
  change of the rows its text names; the engine can refuse any statement, which is the environment's choice.
  A transaction is a function that either fails, leaving the tables as they were, or gives the new tables.
\<close>

section \<open>Rows\<close>

record repo_entry =
  re_id :: int
  re_module_path :: string
  re_dir :: string
  re_missing :: bool
  re_indexed_at :: "string option"

record package_entry =
  pe_id :: int
  pe_path :: string
  pe_name :: string
  pe_dir :: string
  pe_doc :: string
  pe_is_test :: bool
  pe_is_generated :: bool
  pe_repo_id :: "int option"

record symbol_entry =
  se_id :: int
  se_qualified_name :: string
  se_package_id :: int
  se_name :: string
  se_kind :: string
  se_receiver :: string
  se_signature :: string
  se_doc :: string
  se_pos_file :: string
  se_pos_line :: int
  se_exported :: bool
  se_is_test :: bool
  se_is_generated :: bool
  se_complexity :: int
  se_churn_count :: int
  se_repo_id :: "int option"
  se_fields_json :: "string option"

record edge_entry =
  ee_id :: int
  ee_from_ref :: string
  ee_to_ref :: string
  ee_edge_type :: string
  ee_pos_file :: string
  ee_pos_line :: int
  ee_sites :: "site list"
  ee_repo_id :: "int option"

record file_entry =
  fe_rowid :: int
  fe_path :: string
  fe_content :: string
  fe_repo_id :: "int option"

record diagnostic_entry =
  de_id :: int
  de_file :: string
  de_line :: int
  de_col :: int
  de_message :: string
  de_repo_id :: "int option"

record contract_entry =
  ce_id :: int
  ce_from_ref :: string
  ce_to_ref :: string
  ce_direction :: direction
  ce_confidence :: f64
  ce_severity :: severity
  ce_suggested :: bool
  ce_evidence :: string
  ce_indexed_at :: string
  ce_repo_id :: "int option"

record runtime_entry =
  te_id :: int
  te_kind :: string
  te_pattern :: string
  te_from_ref :: string
  te_to_ref :: string
  te_direction :: direction
  te_evidence :: string
  te_indexed_at :: string
  te_repo_id :: "int option"

record drift_entry =
  dt_id :: int
  dt_from_ref :: string
  dt_to_ref :: string
  dt_severity :: severity
  dt_fields_json :: string
  dt_indexed_at :: string
  dt_repo_id :: "int option"

record tables =
  tb_repos :: "repo_entry list"
  tb_packages :: "package_entry list"
  tb_symbols :: "symbol_entry list"
  tb_edges :: "edge_entry list"
  tb_files :: "file_entry list"
  tb_diagnostics :: "diagnostic_entry list"
  tb_contracts :: "contract_entry list"
  tb_runtime :: "runtime_entry list"
  tb_drift :: "drift_entry list"
  tb_suppressions :: "(string \<times> string) list"
  tb_meta :: "(string, string) gomap"
  tb_symbols_fts :: "(int \<times> string list) list"
  tb_content_fts :: "(int \<times> string \<times> string) list"
  tb_chunks :: "response_section list"

definition empty_tables :: tables where
  "empty_tables = \<lparr>tb_repos = [], tb_packages = [], tb_symbols = [], tb_edges = [], tb_files = [], tb_diagnostics = [],
     tb_contracts = [], tb_runtime = [], tb_drift = [], tb_suppressions = [], tb_meta = [], tb_symbols_fts = [],
     tb_content_fts = [], tb_chunks = []\<rparr>"

text \<open>\<^verbatim>\<open>INTEGER PRIMARY KEY\<close>: one more than the largest in use. \<^verbatim>\<open>nullableRepo\<close> and \<^verbatim>\<open>COALESCE(repo_id, 0)\<close>.\<close>

definition next_id :: "int list \<Rightarrow> int" where
  "next_id ids = 1 + fold max ids 0"

definition nullableRepo :: "int \<Rightarrow> int option" where
  "nullableRepo repoID = (if repoID = 0 then None else Some repoID)"

definition coalesce0 :: "int option \<Rightarrow> int" where
  "coalesce0 r = (case r of None \<Rightarrow> 0 | Some i \<Rightarrow> i)"

section \<open>Statements and transactions\<close>

text \<open>
  The environment of a call: the failures of the engine, per statement (its text) and first argument, of opening and of
  committing a transaction; the test hook; \<^verbatim>\<open>UNION\<close> of two site arrays, whose order SQLite does not promise; the JSON
  of field lists; and the text form of times (nanoseconds since the epoch).
\<close>

record sql_env =
  sq_begin :: "string option"
  sq_commit :: "string option"
  sq_fault :: "string \<Rightarrow> string \<Rightarrow> string option"
  sq_hook :: "string \<Rightarrow> string \<Rightarrow> string option"
  sq_union :: "site list \<Rightarrow> site list \<Rightarrow> site list"
  sq_fieldsJSON :: "symbol_field list \<Rightarrow> string result"
  sq_driftJSON :: "drift_field list \<Rightarrow> string result"
  sq_time :: "int \<Rightarrow> string"
  sq_parseTime :: "string \<Rightarrow> int result"

type_synonym 'a tx = "tables \<Rightarrow> ('a \<times> tables) result"

definition yields :: "'a \<Rightarrow> 'a tx" where
  "yields x T = Inr (x, T)"

definition tx_then :: "'a tx \<Rightarrow> ('a \<Rightarrow> 'b tx) \<Rightarrow> 'b tx" where
  "tx_then m k T = (case m T of Inl e \<Rightarrow> Inl e | Inr (x, T') \<Rightarrow> k x T')"

definition tx_seq :: "unit tx \<Rightarrow> 'b tx \<Rightarrow> 'b tx" where
  "tx_seq m n = tx_then m (\<lambda>_. n)"

definition tx_wrap :: "string \<Rightarrow> 'a tx \<Rightarrow> 'a tx" where
  "tx_wrap msg m T = (case m T of Inl e \<Rightarrow> Inl (msg @ '': '' @ e) | Inr r \<Rightarrow> Inr r)"

fun tx_fold :: "('x \<Rightarrow> 'a \<Rightarrow> 'a tx) \<Rightarrow> 'x list \<Rightarrow> 'a \<Rightarrow> 'a tx" where
  "tx_fold f [] a = yields a"
| "tx_fold f (x # xs) a = tx_then (f x a) (tx_fold f xs)"

definition tx_each :: "('x \<Rightarrow> unit tx) \<Rightarrow> 'x list \<Rightarrow> unit tx" where
  "tx_each f xs = tx_fold (\<lambda>x _. f x) xs ()"

definition exec :: "sql_env \<Rightarrow> string \<Rightarrow> string \<Rightarrow> (tables \<Rightarrow> tables) \<Rightarrow> unit tx" where
  "exec Q stmt arg f T = (case sq_fault Q stmt arg of Some e \<Rightarrow> Inl e | None \<Rightarrow> Inr ((), f T))"

definition fetch :: "sql_env \<Rightarrow> string \<Rightarrow> string \<Rightarrow> (tables \<Rightarrow> 'a result) \<Rightarrow> 'a tx" where
  "fetch Q stmt arg f T =
     (case sq_fault Q stmt arg of
        Some e \<Rightarrow> Inl e
      | None \<Rightarrow> (case f T of Inl e \<Rightarrow> Inl e | Inr x \<Rightarrow> Inr (x, T)))"

definition run_statements :: "sql_env \<Rightarrow> (string \<times> (tables \<Rightarrow> tables)) list \<Rightarrow> unit tx" where
  "run_statements Q = tx_each (\<lambda>(stmt, f). exec Q stmt [] f)"

definition maybeFail :: "sql_env \<Rightarrow> string \<Rightarrow> string \<Rightarrow> unit tx" where
  "maybeFail Q stage key T = (case sq_hook Q stage key of Some e \<Rightarrow> Inl e | None \<Rightarrow> Inr ((), T))"

definition withTx :: "sql_env \<Rightarrow> 'a tx \<Rightarrow> tables \<Rightarrow> 'a result \<times> tables" where
  "withTx Q fn T =
     (case sq_begin Q of
        Some e \<Rightarrow> (Inl e, T)
      | None \<Rightarrow>
          (case fn T of
             Inl e \<Rightarrow> (Inl e, T)
           | Inr (x, T') \<Rightarrow> (case sq_commit Q of Some e \<Rightarrow> (Inl e, T) | None \<Rightarrow> (Inr x, T'))))"

text \<open>A statement outside a transaction commits by itself; a query reads the tables.\<close>

definition autocommit :: "sql_env \<Rightarrow> string \<Rightarrow> string \<Rightarrow> (tables \<Rightarrow> tables) \<Rightarrow> tables op" where
  "autocommit Q stmt arg f T = (case sq_fault Q stmt arg of Some e \<Rightarrow> (Inl e, T) | None \<Rightarrow> (Inr (), f T))"

definition select :: "sql_env \<Rightarrow> string \<Rightarrow> string \<Rightarrow> (tables \<Rightarrow> 'a result) \<Rightarrow> tables \<Rightarrow> 'a result" where
  "select Q stmt arg f T = (case sq_fault Q stmt arg of Some e \<Rightarrow> Inl e | None \<Rightarrow> f T)"

text \<open>\<^verbatim>\<open>QueryRow(...).Scan\<close> of a single column: no row is \<^verbatim>\<open>sql.ErrNoRows\<close>, which the callers tell apart.\<close>

definition errNoRows :: string where "errNoRows = ''sql: no rows in result set''"

definition put_meta :: "string \<Rightarrow> string \<Rightarrow> tables \<Rightarrow> tables" where
  "put_meta key value T = T\<lparr>tb_meta := gm_put key value (tb_meta T)\<rparr>"

section \<open>Laws of transactions\<close>

named_theorems tx_simps \<open>how transactions run\<close>

lemma tx_run [tx_simps]:
  "yields x T = Inr (x, T)"
  "tx_then m k T = (case m T of Inl e \<Rightarrow> Inl e | Inr (x, T') \<Rightarrow> k x T')"
  "tx_seq m0 n = tx_then m0 (\<lambda>_. n)"
  "tx_wrap msg m' T = (case m' T of Inl e \<Rightarrow> Inl (msg @ '': '' @ e) | Inr r \<Rightarrow> Inr r)"
  "exec Q stmt arg f T = (case sq_fault Q stmt arg of Some e \<Rightarrow> Inl e | None \<Rightarrow> Inr ((), f T))"
  "fetch Q stmt arg g T =
     (case sq_fault Q stmt arg of Some e \<Rightarrow> Inl e | None \<Rightarrow> (case g T of Inl e \<Rightarrow> Inl e | Inr x \<Rightarrow> Inr (x, T)))"
  "maybeFail Q stage key T = (case sq_hook Q stage key of Some e \<Rightarrow> Inl e | None \<Rightarrow> Inr ((), T))"
  by (simp_all add: yields_def tx_then_def tx_seq_def tx_wrap_def exec_def fetch_def maybeFail_def)

lemma tx_then_Inr:
  "tx_then m k T = Inr (y, T'') \<Longrightarrow> \<exists>x T'. m T = Inr (x, T') \<and> k x T' = Inr (y, T'')"
  by (auto simp: tx_then_def split: sum.splits)

lemma withTx_rolls_back: "withTx Q fn T = (Inl e, T') \<Longrightarrow> T' = T"
  by (auto simp: withTx_def split: option.splits sum.splits)

lemma withTx_commits: "withTx Q fn T = (Inr x, T') \<Longrightarrow> fn T = Inr (x, T')"
  by (auto simp: withTx_def split: option.splits sum.splits)

text \<open>
  What a transaction that succeeds does to the tables is a relation between them. A preorder that every statement
  respects holds of the whole transaction: the contract by which the frame properties of the writes are shown.
\<close>

locale table_frame =
  fixes R :: "tables \<Rightarrow> tables \<Rightarrow> bool"
  assumes refl_R: "R T T"
    and trans_R: "R T T' \<Longrightarrow> R T' T'' \<Longrightarrow> R T T''"
begin

definition obeys :: "'a tx \<Rightarrow> bool" where
  "obeys m \<longleftrightarrow> (\<forall>T x T'. m T = Inr (x, T') \<longrightarrow> R T T')"

lemma obeysD: "obeys m \<Longrightarrow> m T = Inr (x, T') \<Longrightarrow> R T T'"
  by (auto simp: obeys_def)

lemma obeys_yields: "obeys (yields x)"
  by (auto simp: obeys_def yields_def refl_R)

lemma obeys_then: "obeys m \<Longrightarrow> (\<And>x. obeys (k x)) \<Longrightarrow> obeys (tx_then m k)"
  unfolding obeys_def by (auto simp: tx_then_def split: sum.splits) (meson trans_R)

lemma obeys_seq: "obeys m \<Longrightarrow> obeys n \<Longrightarrow> obeys (tx_seq m n)"
  by (simp add: tx_seq_def obeys_then)

lemma obeys_wrap: "obeys m \<Longrightarrow> obeys (tx_wrap msg m)"
  by (auto simp: obeys_def tx_wrap_def split: sum.splits)

lemma obeys_fold: "(\<And>x a. x \<in> set xs \<Longrightarrow> obeys (f x a)) \<Longrightarrow> obeys (tx_fold f xs a)"
  by (induction xs arbitrary: a) (auto intro: obeys_then obeys_yields)

lemma obeys_each: "(\<And>x. x \<in> set xs \<Longrightarrow> obeys (f x)) \<Longrightarrow> obeys (tx_each f xs)"
  by (auto simp: tx_each_def intro: obeys_fold)

lemma obeys_exec: "(\<And>T. R T (f T)) \<Longrightarrow> obeys (exec Q stmt arg f)"
  by (auto simp: obeys_def exec_def split: option.splits)

lemma obeys_fetch: "obeys (fetch Q stmt arg g)"
  by (auto simp: obeys_def fetch_def refl_R split: option.splits sum.splits)

lemma obeys_hook: "obeys (maybeFail Q stage key)"
  by (auto simp: obeys_def maybeFail_def refl_R split: option.splits)

lemma obeys_statements: "(\<And>s f T. (s, f) \<in> set xs \<Longrightarrow> R T (f T)) \<Longrightarrow> obeys (run_statements Q xs)"
  unfolding run_statements_def by (rule obeys_each) (auto intro: obeys_exec)

lemmas obeys_rules = obeys_yields obeys_then obeys_seq obeys_wrap obeys_fold obeys_each
  obeys_exec obeys_fetch obeys_hook obeys_statements

text \<open>So does a call that opens its own transaction, whether it commits or not.\<close>

lemma withTx_obeys: "obeys fn \<Longrightarrow> R T (snd (withTx Q fn T))"
  by (auto simp: withTx_def obeys_def refl_R split: option.splits sum.splits)

end

lemma next_id_above:
  assumes "i \<in> set ids"
  shows "i < next_id ids"
proof -
  have "\<forall>a. a \<le> fold max ids a \<and> (\<forall>i\<in>set ids. i \<le> fold max ids a)" for ids :: "int list"
    by (induction ids) (auto, metis max.bounded_iff, metis max.bounded_iff)
  with assms have "i \<le> fold max ids 0" by blast
  then show ?thesis by (simp add: next_id_def)
qed

lemma next_id_pos: "0 < next_id ids"
proof -
  have "a \<le> fold max ids (a :: int)" for a by (induction ids arbitrary: a) (auto, metis max.bounded_iff)
  from this [of 0] show ?thesis by (simp add: next_id_def)
qed

end
