(* ===== verification/Index_Write.thy ===== *)
theory Index_Write
  imports Tables
begin

text \<open>
  Writing an index (\<^verbatim>\<open>store/store.go\<close>): registration of workspace members, the rows of packages, symbols, edges,
  diagnostics and churn, file contents with the removal of stale rows, the rebuild of the two full-text indexes, the
  replacement of one member, and the rows of a contract analysis.
\<close>

section \<open>What is written\<close>

text \<open>\<^verbatim>\<open>resolve.Result\<close> with the symbols and edges of package \<^verbatim>\<open>extract\<close>, and \<^verbatim>\<open>parse.PackageInfo\<close>.\<close>

record package_info =
  pi_ImportPath :: string
  pi_Name :: string
  pi_Dir :: string
  pi_ModulePath :: string
  pi_Doc :: string
  pi_Files :: "string list"
  pi_IsTest :: bool
  pi_IsGenerated :: bool

record extract_symbol =
  xs_QualifiedName :: string
  xs_Name :: string
  xs_Kind :: string
  xs_Receiver :: string
  xs_Signature :: string
  xs_Doc :: string
  xs_Fields :: "symbol_field list"
  xs_Pos :: site
  xs_Complexity :: int
  xs_Exported :: bool
  xs_IsTest :: bool
  xs_IsGenerated :: bool

record extract_edge =
  xe_FromRef :: string
  xe_ToRef :: string
  xe_EdgeType :: string
  xe_Pos :: site

record resolve_diagnostic =
  dg_File :: string
  dg_Message :: string
  dg_Line :: int
  dg_Col :: int

record resolve_result =
  ir_Packages :: "package_info list"
  ir_Symbols :: "extract_symbol list"
  ir_Edges :: "extract_edge list"
  ir_Warnings :: "string list"
  ir_Diagnostics :: "resolve_diagnostic list"

section \<open>Members\<close>

definition ensureRepoInTx :: "sql_env \<Rightarrow> repo_spec \<Rightarrow> int tx" where
  "ensureRepoInTx Q spec =
     tx_seq (exec Q ''INSERT OR IGNORE INTO repos'' (rs_ModulePath spec) (\<lambda>T.
         if \<exists>r\<in>set (tb_repos T). re_module_path r = rs_ModulePath spec then T
         else T\<lparr>tb_repos := tb_repos T @ [\<lparr>re_id = next_id (map re_id (tb_repos T)), re_module_path = rs_ModulePath spec,
                 re_dir = rs_Dir spec, re_missing = rs_Missing spec, re_indexed_at = None\<rparr>]\<rparr>))
      (tx_then (fetch Q ''SELECT id FROM repos WHERE module_path = ?'' (rs_ModulePath spec) (\<lambda>T.
         case find (\<lambda>r. re_module_path r = rs_ModulePath spec) (tb_repos T) of
           None \<Rightarrow> Inl errNoRows | Some r \<Rightarrow> Inr (re_id r)))
      (\<lambda>i. tx_seq (exec Q ''UPDATE repos SET dir = ?, missing = ? WHERE id = ?'' (rs_Dir spec) (\<lambda>T.
              T\<lparr>tb_repos := map (\<lambda>r. if re_id r = i then r\<lparr>re_dir := rs_Dir spec, re_missing := rs_Missing spec\<rparr> else r)
                               (tb_repos T)\<rparr>))
            (yields i)))"

definition EnsureRepo :: "sql_env \<Rightarrow> repo_spec \<Rightarrow> tables \<Rightarrow> int result \<times> tables" where
  "EnsureRepo Q spec = withTx Q (ensureRepoInTx Q spec)"

text \<open>\<open>None\<close> is \<^verbatim>\<open>ok = false\<close>.\<close>

definition RepoIDByModule :: "sql_env \<Rightarrow> tables \<Rightarrow> string \<Rightarrow> int option result" where
  "RepoIDByModule Q T modulePath =
     select Q ''SELECT id FROM repos WHERE module_path = ?'' modulePath (\<lambda>T.
       Inr (map_option re_id (find (\<lambda>r. re_module_path r = modulePath) (tb_repos T)))) T"

section \<open>Removing the previous rows\<close>

definition delete_index_rows :: "string \<Rightarrow> (int option \<Rightarrow> bool) \<Rightarrow> (string \<times> (tables \<Rightarrow> tables)) list" where
  "delete_index_rows cond gone =
     [(''DELETE FROM edges WHERE '' @ cond, \<lambda>T. T\<lparr>tb_edges := filter (\<lambda>r. \<not> gone (ee_repo_id r)) (tb_edges T)\<rparr>),
      (''DELETE FROM symbols WHERE '' @ cond, \<lambda>T. T\<lparr>tb_symbols := filter (\<lambda>r. \<not> gone (se_repo_id r)) (tb_symbols T)\<rparr>),
      (''DELETE FROM packages WHERE '' @ cond, \<lambda>T. T\<lparr>tb_packages := filter (\<lambda>r. \<not> gone (pe_repo_id r)) (tb_packages T)\<rparr>)]"

definition delete_contract_rows :: "string \<Rightarrow> (int option \<Rightarrow> bool) \<Rightarrow> (string \<times> (tables \<Rightarrow> tables)) list" where
  "delete_contract_rows cond gone =
     [(''DELETE FROM contracts WHERE '' @ cond, \<lambda>T. T\<lparr>tb_contracts := filter (\<lambda>r. \<not> gone (ce_repo_id r)) (tb_contracts T)\<rparr>),
      (''DELETE FROM runtime_contracts WHERE '' @ cond, \<lambda>T. T\<lparr>tb_runtime := filter (\<lambda>r. \<not> gone (te_repo_id r)) (tb_runtime T)\<rparr>),
      (''DELETE FROM drift WHERE '' @ cond, \<lambda>T. T\<lparr>tb_drift := filter (\<lambda>r. \<not> gone (dt_repo_id r)) (tb_drift T)\<rparr>)]"

definition delete_diagnostic_rows :: "string \<Rightarrow> (int option \<Rightarrow> bool) \<Rightarrow> (string \<times> (tables \<Rightarrow> tables)) list" where
  "delete_diagnostic_rows cond gone =
     [(''DELETE FROM diagnostics WHERE '' @ cond,
       \<lambda>T. T\<lparr>tb_diagnostics := filter (\<lambda>r. \<not> gone (de_repo_id r)) (tb_diagnostics T)\<rparr>)]"

definition deleteRepoRows :: "sql_env \<Rightarrow> int \<Rightarrow> unit tx" where
  "deleteRepoRows Q repoID = run_statements Q
     (delete_index_rows ''repo_id = ?'' (\<lambda>r. r = Some repoID) @ delete_contract_rows ''repo_id = ?'' (\<lambda>r. r = Some repoID)
      @ delete_diagnostic_rows ''repo_id = ?'' (\<lambda>r. r = Some repoID))"

definition clearWorkspaceRows :: "sql_env \<Rightarrow> unit tx" where
  "clearWorkspaceRows Q = run_statements Q
     (delete_index_rows ''repo_id IS NOT NULL'' (\<lambda>r. r \<noteq> None) @ delete_contract_rows ''repo_id IS NOT NULL'' (\<lambda>r. r \<noteq> None)
      @ delete_diagnostic_rows ''repo_id IS NOT NULL'' (\<lambda>r. r \<noteq> None))"

definition clearSingleRepoRows :: "sql_env \<Rightarrow> unit tx" where
  "clearSingleRepoRows Q = run_statements Q
     (delete_index_rows ''repo_id IS NULL'' (\<lambda>r. r = None) @ delete_diagnostic_rows ''repo_id IS NULL'' (\<lambda>r. r = None))"

definition registerRepos :: "sql_env \<Rightarrow> repo_spec list \<Rightarrow> bool \<Rightarrow> (string, int) gomap tx" where
  "registerRepos Q repos workspace =
     (if \<not> workspace then yields []
      else tx_then (tx_fold (\<lambda>r m. tx_then (ensureRepoInTx Q r) (\<lambda>i. yields (gm_put (rs_ModulePath r) i m))) repos [])
             (\<lambda>m. tx_seq (clearWorkspaceRows Q) (yields m)))"

section \<open>Packages, symbols, edges\<close>

text \<open>A row whose path exists keeps everything but its \<^verbatim>\<open>doc\<close>.\<close>

definition upsert_package :: "package_info \<Rightarrow> int option \<Rightarrow> tables \<Rightarrow> tables" where
  "upsert_package pkg repo T =
     (if \<exists>p\<in>set (tb_packages T). pe_path p = pi_ImportPath pkg
      then T\<lparr>tb_packages := map (\<lambda>p. if pe_path p = pi_ImportPath pkg then p\<lparr>pe_doc := pi_Doc pkg\<rparr> else p) (tb_packages T)\<rparr>
      else T\<lparr>tb_packages := tb_packages T @ [\<lparr>pe_id = next_id (map pe_id (tb_packages T)), pe_path = pi_ImportPath pkg,
               pe_name = pi_Name pkg, pe_dir = pi_Dir pkg, pe_doc = pi_Doc pkg, pe_is_test = pi_IsTest pkg,
               pe_is_generated = pi_IsGenerated pkg, pe_repo_id = repo\<rparr>]\<rparr>)"

definition writePackage :: "sql_env \<Rightarrow> (string, int) gomap \<Rightarrow> package_info \<Rightarrow> (string, int) gomap \<Rightarrow> (string, int) gomap tx" where
  "writePackage Q repoByModule pkg pkgCache =
     tx_seq (exec Q ''INSERT OR IGNORE INTO packages'' (pi_ImportPath pkg)
               (upsert_package pkg (nullableRepo (gm_get 0 repoByModule (pi_ModulePath pkg)))))
       (tx_then (fetch Q ''SELECT id FROM packages WHERE path = ?'' (pi_ImportPath pkg) (\<lambda>T.
           case find (\<lambda>p. pe_path p = pi_ImportPath pkg) (tb_packages T) of None \<Rightarrow> Inl errNoRows | Some p \<Rightarrow> Inr (pe_id p)))
         (\<lambda>i. yields (gm_put (pi_ImportPath pkg) i pkgCache)))"

definition writePackages :: "sql_env \<Rightarrow> package_info list \<Rightarrow> (string, int) gomap \<Rightarrow> (string, int) gomap tx" where
  "writePackages Q packages repoByModule = tx_fold (writePackage Q repoByModule) packages []"

text \<open>The unique index \<^verbatim>\<open>idx_symbols_decl\<close>: one row per name, file and line; a second one is ignored.\<close>

definition decl_key :: "symbol_entry \<Rightarrow> string \<times> string \<times> int" where
  "decl_key r = (se_qualified_name r, se_pos_file r, se_pos_line r)"

definition insert_symbol :: "extract_symbol \<Rightarrow> int \<Rightarrow> int option \<Rightarrow> string option \<Rightarrow> tables \<Rightarrow> tables" where
  "insert_symbol decl pkgID repo fieldsJSON T =
     (if \<exists>r\<in>set (tb_symbols T). decl_key r = (xs_QualifiedName decl, st_File (xs_Pos decl), st_Line (xs_Pos decl)) then T
      else T\<lparr>tb_symbols := tb_symbols T @ [\<lparr>se_id = next_id (map se_id (tb_symbols T)),
          se_qualified_name = xs_QualifiedName decl, se_package_id = pkgID, se_name = xs_Name decl, se_kind = xs_Kind decl,
          se_receiver = xs_Receiver decl, se_signature = xs_Signature decl, se_doc = xs_Doc decl,
          se_pos_file = st_File (xs_Pos decl), se_pos_line = st_Line (xs_Pos decl), se_exported = xs_Exported decl,
          se_is_test = xs_IsTest decl, se_is_generated = xs_IsGenerated decl, se_complexity = xs_Complexity decl,
          se_churn_count = 0, se_repo_id = repo, se_fields_json = fieldsJSON\<rparr>]\<rparr>)"

definition writeSymbol :: "sql_env \<Rightarrow> pkg_attribution \<Rightarrow> extract_symbol \<Rightarrow> unit tx" where
  "writeSymbol Q attrib decl =
     (let (pkgID, repoID) = pkgFor attrib (xs_QualifiedName decl) in
        if pkgID = 0 then yields ()
        else if xs_Fields decl = [] then
          tx_wrap (''inserting symbol '' @ xs_QualifiedName decl)
            (exec Q ''INSERT OR IGNORE INTO symbols'' (xs_QualifiedName decl) (insert_symbol decl pkgID (nullableRepo repoID) None))
        else case sq_fieldsJSON Q (xs_Fields decl) of
          Inl e \<Rightarrow> (\<lambda>T. Inl (''marshaling fields for '' @ xs_QualifiedName decl @ '': '' @ e))
        | Inr js \<Rightarrow>
            tx_wrap (''inserting symbol '' @ xs_QualifiedName decl)
              (exec Q ''INSERT OR IGNORE INTO symbols'' (xs_QualifiedName decl)
                (insert_symbol decl pkgID (nullableRepo repoID) (Some js))))"

definition writeSymbols :: "sql_env \<Rightarrow> extract_symbol list \<Rightarrow> pkg_attribution \<Rightarrow> unit tx" where
  "writeSymbols Q symbols attrib = tx_each (writeSymbol Q attrib) symbols"

text \<open>The unique index \<^verbatim>\<open>edges_pair\<close>: on a conflict the site arrays are united, the position stays the first one's.\<close>

definition edge_key :: "edge_entry \<Rightarrow> int \<times> string \<times> string \<times> string" where
  "edge_key r = (coalesce0 (ee_repo_id r), ee_from_ref r, ee_to_ref r, ee_edge_type r)"

definition upsert_edge :: "(site list \<Rightarrow> site list \<Rightarrow> site list) \<Rightarrow> extract_edge \<Rightarrow> int option \<Rightarrow> tables \<Rightarrow> tables" where
  "upsert_edge unite e repo T =
     (let k = (coalesce0 repo, xe_FromRef e, xe_ToRef e, xe_EdgeType e) in
        if \<exists>r\<in>set (tb_edges T). edge_key r = k
        then T\<lparr>tb_edges := map (\<lambda>r. if edge_key r = k then r\<lparr>ee_sites := unite (ee_sites r) [xe_Pos e]\<rparr> else r) (tb_edges T)\<rparr>
        else T\<lparr>tb_edges := tb_edges T @ [\<lparr>ee_id = next_id (map ee_id (tb_edges T)), ee_from_ref = xe_FromRef e,
                 ee_to_ref = xe_ToRef e, ee_edge_type = xe_EdgeType e, ee_pos_file = st_File (xe_Pos e),
                 ee_pos_line = st_Line (xe_Pos e), ee_sites = [xe_Pos e], ee_repo_id = repo\<rparr>]\<rparr>)"

definition writeEdge :: "sql_env \<Rightarrow> pkg_attribution \<Rightarrow> extract_edge \<Rightarrow> unit tx" where
  "writeEdge Q attrib e =
     tx_wrap (''upserting edge '' @ xe_FromRef e @ '' -> '' @ xe_ToRef e)
       (exec Q ''INSERT INTO edges'' (xe_FromRef e)
         (upsert_edge (sq_union Q) e (nullableRepo (snd (pkgFor attrib (xe_FromRef e))))))"

definition writeEdges :: "sql_env \<Rightarrow> extract_edge list \<Rightarrow> pkg_attribution \<Rightarrow> unit tx" where
  "writeEdges Q edges attrib =
     tx_seq (tx_wrap ''preparing edge upsert'' (exec Q ''PREPARE INSERT INTO edges'' [] id))
       (tx_each (writeEdge Q attrib) edges)"

section \<open>Diagnostics and churn\<close>

definition insert_diagnostic :: "resolve_diagnostic \<Rightarrow> int option \<Rightarrow> tables \<Rightarrow> tables" where
  "insert_diagnostic d repo T =
     T\<lparr>tb_diagnostics := tb_diagnostics T @ [\<lparr>de_id = next_id (map de_id (tb_diagnostics T)), de_file = dg_File d,
         de_line = dg_Line d, de_col = dg_Col d, de_message = dg_Message d, de_repo_id = repo\<rparr>]\<rparr>"

text \<open>\<open>None\<close> is the \<^verbatim>\<open>nil\<close> function of the single-repository write.\<close>

definition repo_of :: "(string \<Rightarrow> int) option \<Rightarrow> string \<Rightarrow> int option" where
  "repo_of repoIDFor path = (case repoIDFor of None \<Rightarrow> None | Some f \<Rightarrow> nullableRepo (f path))"

definition writeDiagnostics :: "sql_env \<Rightarrow> resolve_diagnostic list \<Rightarrow> (string \<Rightarrow> int) option \<Rightarrow> unit tx" where
  "writeDiagnostics Q diags repoIDFor =
     tx_seq (exec Q ''PREPARE INSERT INTO diagnostics'' [] id)
       (tx_each (\<lambda>d. tx_wrap (''inserting diagnostic '' @ dg_File d)
          (exec Q ''INSERT INTO diagnostics'' (dg_File d) (insert_diagnostic d (repo_of repoIDFor (dg_File d))))) diags)"

text \<open>
  The staging table lives only inside the statement sequence, so it is a value here: the churn map itself,
  entered key by key.
\<close>

definition set_churn :: "(string, int) gomap \<Rightarrow> tables \<Rightarrow> tables" where
  "set_churn staged T =
     T\<lparr>tb_symbols := map (\<lambda>r. case map_of staged (se_pos_file r) of None \<Rightarrow> r | Some n \<Rightarrow> r\<lparr>se_churn_count := n\<rparr>) (tb_symbols T)\<rparr>"

definition applyChurn :: "sql_env \<Rightarrow> (string, int) gomap \<Rightarrow> unit tx" where
  "applyChurn Q churn =
     (if churn = [] then yields ()
      else tx_seq (tx_wrap ''creating churn staging table'' (exec Q ''CREATE TEMP TABLE _codemap_churn'' [] id))
        (tx_seq (tx_wrap ''preparing churn staging insert'' (exec Q ''PREPARE INSERT INTO _codemap_churn'' [] id))
        (tx_then (tx_fold (\<lambda>(path, n) staged. tx_wrap (''staging churn for '' @ path)
             (tx_seq (exec Q ''INSERT INTO _codemap_churn'' path id) (yields (gm_put path n staged)))) churn [])
           (\<lambda>staged. tx_wrap ''applying batched churn'' (exec Q ''UPDATE symbols SET churn_count'' [] (set_churn staged))))))"

definition writeDeferredRows :: "sql_env \<Rightarrow> resolve_result \<Rightarrow> (string, int) gomap option \<Rightarrow> (string \<Rightarrow> int) option \<Rightarrow> unit tx" where
  "writeDeferredRows Q result churn repoIDFor =
     tx_seq (case churn of None \<Rightarrow> yields () | Some c \<Rightarrow> applyChurn Q c)
       (writeDiagnostics Q (ir_Diagnostics result) repoIDFor)"

section \<open>Files\<close>

text \<open>\<open>0\<close> means that the write owns every file row.\<close>

record file_scope =
  fs_repoID :: int

text \<open>The upsert updates a row only when the content or the owner differs; the value is \<^verbatim>\<open>RowsAffected() > 0\<close>.\<close>

definition file_changes :: "string \<Rightarrow> string \<Rightarrow> int option \<Rightarrow> tables \<Rightarrow> bool" where
  "file_changes path content repo T =
     (case find (\<lambda>r. fe_path r = path) (tb_files T) of
        None \<Rightarrow> True
      | Some r \<Rightarrow> fe_content r \<noteq> content \<or> coalesce0 (fe_repo_id r) \<noteq> coalesce0 repo)"

definition upsert_file :: "string \<Rightarrow> string \<Rightarrow> int option \<Rightarrow> tables \<Rightarrow> tables" where
  "upsert_file path content repo T =
     (if \<not> file_changes path content repo T then T
      else if \<exists>r\<in>set (tb_files T). fe_path r = path
      then T\<lparr>tb_files := map (\<lambda>r. if fe_path r = path then r\<lparr>fe_content := content, fe_repo_id := repo\<rparr> else r) (tb_files T)\<rparr>
      else T\<lparr>tb_files := tb_files T @ [\<lparr>fe_rowid = next_id (map fe_rowid (tb_files T)), fe_path = path, fe_content = content,
               fe_repo_id = repo\<rparr>]\<rparr>)"

definition writeFile :: "sql_env \<Rightarrow> (string \<Rightarrow> int) option \<Rightarrow> string \<times> string \<Rightarrow> bool \<Rightarrow> bool tx" where
  "writeFile Q repoIDFor = (\<lambda>(path, content) dirty.
     tx_seq (tx_wrap (''writing file '' @ path) (maybeFail Q ''files'' path))
       (tx_wrap (''writing file '' @ path) (\<lambda>T.
          tx_seq (exec Q ''INSERT INTO files'' path (upsert_file path content (repo_of repoIDFor path)))
            (yields (dirty \<or> file_changes path content (repo_of repoIDFor path) T)) T)))"

text \<open>\<^verbatim>\<open>DELETE FROM files WHERE path NOT IN (...)\<close>, with \<^verbatim>\<open>AND repo_id = ?\<close> for one member, once per batch of paths.\<close>

definition in_scope :: "file_scope \<Rightarrow> file_entry \<Rightarrow> bool" where
  "in_scope scope r \<longleftrightarrow> (0 < fs_repoID scope \<longrightarrow> fe_repo_id r = Some (fs_repoID scope))"

definition delete_not_in :: "file_scope \<Rightarrow> string list \<Rightarrow> tables \<Rightarrow> tables" where
  "delete_not_in scope batch T = T\<lparr>tb_files := filter (\<lambda>r. \<not> (fe_path r \<notin> set batch \<and> in_scope scope r)) (tb_files T)\<rparr>"

definition deleteStaleBatch :: "sql_env \<Rightarrow> file_scope \<Rightarrow> string list \<Rightarrow> bool \<Rightarrow> bool tx" where
  "deleteStaleBatch Q scope batch dirty =
     tx_seq (maybeFail Q ''files'' ''stale'')
       (tx_wrap ''removing stale file rows'' (\<lambda>T.
          tx_seq (exec Q ''DELETE FROM files WHERE path NOT IN'' (concat batch) (delete_not_in scope batch))
            (yields (dirty \<or> (\<exists>r\<in>set (tb_files T). fe_path r \<notin> set batch \<and> in_scope scope r))) T))"

definition deleteStaleFiles :: "sql_env \<Rightarrow> files \<Rightarrow> file_scope \<Rightarrow> bool tx" where
  "deleteStaleFiles Q files scope =
     (if files = [] then yields False
      else tx_fold (deleteStaleBatch Q scope) (chunks (gm_keys files) edgesInBatchSize) False)"

definition writeFiles :: "sql_env \<Rightarrow> files \<Rightarrow> (string \<Rightarrow> int) option \<Rightarrow> file_scope \<Rightarrow> bool tx" where
  "writeFiles Q files repoIDFor scope =
     tx_seq (exec Q ''PREPARE INSERT INTO files'' [] id)
       (tx_then (tx_fold (writeFile Q repoIDFor) files False)
          (\<lambda>dirty. tx_then (deleteStaleFiles Q files scope) (\<lambda>staleDirty. yields (dirty \<or> staleDirty))))"

text \<open>Without a transaction of the caller \<^verbatim>\<open>writeFiles\<close> opens its own.\<close>

definition WriteFilesRepo :: "sql_env \<Rightarrow> files \<Rightarrow> (string \<Rightarrow> int) option \<Rightarrow> tables op" where
  "WriteFilesRepo Q files repoIDFor T =
     (case withTx Q (writeFiles Q files repoIDFor \<lparr>fs_repoID = 0\<rparr>) T of (r, T') \<Rightarrow> (map_sum id (\<lambda>_. ()) r, T'))"

definition WriteFiles :: "sql_env \<Rightarrow> files \<Rightarrow> tables op" where
  "WriteFiles Q files = WriteFilesRepo Q files None"

text \<open>
  Reading files back. A file of a member is grouped under its module, one without a member under the empty name.
  \<open>like\<close> is the engine's \<^verbatim>\<open>LIKE ... ESCAPE\<close> of a pattern with a path.
\<close>

definition FileContent :: "sql_env \<Rightarrow> tables \<Rightarrow> string \<Rightarrow> string result" where
  "FileContent Q T filePath =
     select Q ''SELECT content FROM files WHERE path = ?'' filePath (\<lambda>T.
       case find (\<lambda>r. fe_path r = filePath) (tb_files T) of None \<Rightarrow> Inl errNoRows | Some r \<Rightarrow> Inr (fe_content r)) T"

definition module_of :: "tables \<Rightarrow> int option \<Rightarrow> string option" where
  "module_of T repo =
     (case repo of None \<Rightarrow> None | Some i \<Rightarrow> map_option re_module_path (find (\<lambda>r. re_id r = i) (tb_repos T)))"

definition owner_module :: "tables \<Rightarrow> int option \<Rightarrow> string" where
  "owner_module T repo = (case module_of T repo of None \<Rightarrow> [] | Some m \<Rightarrow> m)"

definition FileContentsByRepo :: "sql_env \<Rightarrow> tables \<Rightarrow> (string, files) gomap result" where
  "FileContentsByRepo Q T =
     select Q ''SELECT path, content, module_path FROM files LEFT JOIN repos'' [] (\<lambda>T.
       Inr (fold (\<lambda>r out. let repo = owner_module T (fe_repo_id r) in
                    gm_put repo (gm_put (fe_path r) (fe_content r) (gm_get [] out repo)) out) (tb_files T) [])) T"

record indexed_file =
  if_Path :: string
  if_Content :: string
  if_Repo :: string

definition IndexedFiles :: "sql_env \<Rightarrow> (string \<Rightarrow> string \<Rightarrow> bool) \<Rightarrow> tables \<Rightarrow> string \<Rightarrow> string \<Rightarrow> indexed_file list result" where
  "IndexedFiles Q like T repo filePattern =
     select Q ''SELECT path, content, module_path FROM files LEFT JOIN repos'' [] (\<lambda>T.
       Inr (map (\<lambda>r. \<lparr>if_Path = fe_path r, if_Content = fe_content r, if_Repo = owner_module T (fe_repo_id r)\<rparr>)
         (sort_by (by_key fe_path)
           (filter (\<lambda>r. (repo \<noteq> [] \<longrightarrow> owner_module T (fe_repo_id r) = repo)
              \<and> (filePattern \<noteq> [] \<longrightarrow> like (fe_path r) (likePattern filePattern))) (tb_files T))))) T"

section \<open>Full-text indexes and bookkeeping\<close>

definition fts_symbol :: "symbol_entry \<Rightarrow> int \<times> string list" where
  "fts_symbol r = (se_id r, [se_qualified_name r, se_name r, se_kind r, se_receiver r, se_signature r, se_doc r])"

definition populateFTS :: "sql_env \<Rightarrow> unit tx" where
  "populateFTS Q = exec Q ''INSERT INTO symbols_fts VALUES(rebuild)'' [] (\<lambda>T.
     T\<lparr>tb_symbols_fts := map fts_symbol (tb_symbols T)\<rparr>)"

definition fts_file :: "file_entry \<Rightarrow> int \<times> string \<times> string" where
  "fts_file r = (fe_rowid r, fe_path r, fe_content r)"

definition populateFileContentFTS :: "sql_env \<Rightarrow> unit tx" where
  "populateFileContentFTS Q = exec Q ''INSERT INTO file_content_fts VALUES(rebuild)'' [] (\<lambda>T.
     T\<lparr>tb_content_fts := map fts_file (tb_files T)\<rparr>)"

definition generatedProvenanceKey :: string where "generatedProvenanceKey = ''generated_provenance_version''"
definition generatedProvenanceVersion :: string where "generatedProvenanceVersion = ''1''"
definition analyzerVersionKey :: string where "analyzerVersionKey = ''analyzer_version''"
definition analyzerVersion :: string where "analyzerVersion = ''3''"

definition insert_meta :: "sql_env \<Rightarrow> string \<Rightarrow> string \<Rightarrow> unit tx" where
  "insert_meta Q key value = exec Q ''INSERT OR REPLACE INTO meta'' key (put_meta key value)"

definition setGeneratedProvenanceTx :: "sql_env \<Rightarrow> unit tx" where
  "setGeneratedProvenanceTx Q = insert_meta Q generatedProvenanceKey generatedProvenanceVersion"

definition setAnalyzerVersionTx :: "sql_env \<Rightarrow> unit tx" where
  "setAnalyzerVersionTx Q = insert_meta Q analyzerVersionKey analyzerVersion"

definition deleteResponseChunksTx :: "sql_env \<Rightarrow> unit tx" where
  "deleteResponseChunksTx Q =
     tx_wrap ''prune response chunks'' (exec Q ''DELETE FROM response_chunks'' [] (\<lambda>T. T\<lparr>tb_chunks := []\<rparr>))"

definition completeIndexWrite :: "sql_env \<Rightarrow> unit tx" where
  "completeIndexWrite Q = tx_seq (deleteResponseChunksTx Q) (tx_seq (setGeneratedProvenanceTx Q) (setAnalyzerVersionTx Q))"

section \<open>The index writes\<close>

definition index_rows :: "sql_env \<Rightarrow> resolve_result \<Rightarrow> (string, int) gomap \<Rightarrow> unit tx" where
  "index_rows Q result repoByModule =
     tx_then (writePackages Q (ir_Packages result) repoByModule)
       (\<lambda>pkgCache. let attrib = newPkgAttribution pkgCache repoByModule in
          tx_seq (writeSymbols Q (ir_Symbols result) attrib) (writeEdges Q (ir_Edges result) attrib))"

definition writeTx :: "sql_env \<Rightarrow> resolve_result \<Rightarrow> files \<Rightarrow> (string, int) gomap option \<Rightarrow> repo_spec list \<Rightarrow> bool \<Rightarrow> unit tx" where
  "writeTx Q result files churn repos workspace =
     tx_then (registerRepos Q repos workspace)
      (\<lambda>repoByModule.
        let repoIDFor = (if workspace then Some (buildRepoIDFor repos repoByModule) else None) in
        tx_seq (if workspace then yields () else clearSingleRepoRows Q)
        (tx_seq (index_rows Q result repoByModule)
        (tx_seq (writeDeferredRows Q result churn repoIDFor)
        (tx_then (writeFiles Q files repoIDFor \<lparr>fs_repoID = 0\<rparr>)
          (\<lambda>fileDirty.
            tx_seq (maybeFail Q ''fts.symbols'' [])
            (tx_seq (populateFTS Q)
            (tx_seq (maybeFail Q ''fts.content'' [])
            (tx_seq (if fileDirty then populateFileContentFTS Q else yields ())
              (completeIndexWrite Q)))))))))"

definition write_index :: "sql_env \<Rightarrow> resolve_result \<Rightarrow> files \<Rightarrow> (string, int) gomap option \<Rightarrow> repo_spec list \<Rightarrow> bool \<Rightarrow> tables op" where
  "write_index Q result files churn repos workspace = withTx Q (writeTx Q result files churn repos workspace)"

definition Write :: "sql_env \<Rightarrow> resolve_result \<Rightarrow> files \<Rightarrow> (string, int) gomap option \<Rightarrow> tables op" where
  "Write Q result files churn = write_index Q result files churn [] False"

definition WriteWorkspace :: "sql_env \<Rightarrow> resolve_result \<Rightarrow> files \<Rightarrow> (string, int) gomap option \<Rightarrow> repo_spec list \<Rightarrow> tables op" where
  "WriteWorkspace Q result files churn repos = write_index Q result files churn repos True"

definition writeRepoRows :: "sql_env \<Rightarrow> resolve_result \<Rightarrow> (string, int) gomap \<Rightarrow> (string, int) gomap option \<Rightarrow> unit tx" where
  "writeRepoRows Q result repoByModule churn =
     tx_seq (index_rows Q result repoByModule) (case churn of None \<Rightarrow> yields () | Some c \<Rightarrow> applyChurn Q c)"

definition replaceTx :: "sql_env \<Rightarrow> resolve_result \<Rightarrow> files \<Rightarrow> (string, int) gomap option \<Rightarrow> string \<Rightarrow> int \<Rightarrow> unit tx" where
  "replaceTx Q result files churn modulePath repoID =
     tx_seq (deleteRepoRows Q repoID)
      (tx_seq (writeRepoRows Q result [(modulePath, repoID)] churn)
      (tx_seq (writeDiagnostics Q (ir_Diagnostics result) (Some (\<lambda>_. repoID)))
      (tx_then (writeFiles Q files (Some (\<lambda>_. repoID)) \<lparr>fs_repoID = repoID\<rparr>)
        (\<lambda>fileDirty.
          tx_seq (populateFTS Q)
          (tx_seq (if fileDirty then populateFileContentFTS Q else yields ())
            (completeIndexWrite Q))))))"

definition ReplaceRepo :: "sql_env \<Rightarrow> resolve_result \<Rightarrow> files \<Rightarrow> (string, int) gomap option \<Rightarrow> string \<Rightarrow> tables op" where
  "ReplaceRepo Q result files churn modulePath T =
     (case RepoIDByModule Q T modulePath of
        Inl e \<Rightarrow> (Inl e, T)
      | Inr None \<Rightarrow> (Inl (''repo '' @ modulePath @ '' is not registered in this workspace''), T)
      | Inr (Some repoID) \<Rightarrow> withTx Q (replaceTx Q result files churn modulePath repoID) T)"

section \<open>The rows of a contract analysis\<close>

definition readPackageRepoMap :: "sql_env \<Rightarrow> (string, int) gomap tx" where
  "readPackageRepoMap Q = fetch Q ''SELECT path, repo_id FROM packages'' [] (\<lambda>T.
     Inr (fold (\<lambda>p m. case pe_repo_id p of None \<Rightarrow> m | Some i \<Rightarrow> gm_put (pe_path p) i m) (tb_packages T) []))"

definition insertContracts :: "sql_env \<Rightarrow> contract_row list \<Rightarrow> string \<Rightarrow> (string, int) gomap \<Rightarrow> unit tx" where
  "insertContracts Q contracts indexedAt repoByPath = tx_each (\<lambda>c. exec Q ''INSERT INTO contracts'' (ct_FromRef c) (\<lambda>T.
     T\<lparr>tb_contracts := tb_contracts T @ [\<lparr>ce_id = next_id (map ce_id (tb_contracts T)), ce_from_ref = ct_FromRef c,
         ce_to_ref = ct_ToRef c, ce_direction = ct_Direction c, ce_confidence = ct_Confidence c, ce_severity = ct_Severity c,
         ce_suggested = ct_Suggested c, ce_evidence = ct_Evidence c, ce_indexed_at = indexedAt,
         ce_repo_id = nullableRepo (repoIDForRefMapped (ct_FromRef c) repoByPath)\<rparr>]\<rparr>)) contracts"

text \<open>No extractor sets \<^verbatim>\<open>ToRef\<close>, which \<open>runtime_contract\<close> therefore does not have.\<close>

definition insertRuntimeContracts :: "sql_env \<Rightarrow> runtime_contract list \<Rightarrow> string \<Rightarrow> (string, int) gomap \<Rightarrow> unit tx" where
  "insertRuntimeContracts Q rows indexedAt repoByPath = tx_each (\<lambda>c. exec Q ''INSERT INTO runtime_contracts'' (rc_Kind c) (\<lambda>T.
     T\<lparr>tb_runtime := tb_runtime T @ [\<lparr>te_id = next_id (map te_id (tb_runtime T)), te_kind = rc_Kind c,
         te_pattern = rc_Pattern c, te_from_ref = rc_FromRef c, te_to_ref = [], te_direction = rc_Direction c, te_evidence = rc_Evidence c,
         te_indexed_at = indexedAt, te_repo_id = nullableRepo (repoIDForRefMapped (rc_FromRef c) repoByPath)\<rparr>]\<rparr>)) rows"

definition insertDriftReports :: "sql_env \<Rightarrow> drift_report list \<Rightarrow> string \<Rightarrow> (string, int) gomap \<Rightarrow> unit tx" where
  "insertDriftReports Q drifts indexedAt repoByPath = tx_each (\<lambda>d.
     case sq_driftJSON Q (dr_Fields d) of
       Inl e \<Rightarrow> (\<lambda>T. Inl e)
     | Inr js \<Rightarrow> exec Q ''INSERT INTO drift'' (dr_FromRef d) (\<lambda>T.
         T\<lparr>tb_drift := tb_drift T @ [\<lparr>dt_id = next_id (map dt_id (tb_drift T)), dt_from_ref = dr_FromRef d,
             dt_to_ref = dr_ToRef d, dt_severity = dr_Severity d, dt_fields_json = js, dt_indexed_at = indexedAt,
             dt_repo_id = nullableRepo (repoIDForRefMapped (dr_FromRef d) repoByPath)\<rparr>]\<rparr>)) drifts"

definition setContractAnalysisTimeInTx :: "sql_env \<Rightarrow> int \<Rightarrow> unit tx" where
  "setContractAnalysisTimeInTx Q t = insert_meta Q ''contract_indexed_at'' (sq_time Q t)"

text \<open>\<open>now\<close> is the clock at the end of the transaction.\<close>

definition WriteContractsAll :: "sql_env \<Rightarrow> rows \<Rightarrow> string \<Rightarrow> int \<Rightarrow> tables op" where
  "WriteContractsAll Q = (\<lambda>(contracts, runtimeContracts, drifts) indexedAt now. withTx Q
     (tx_seq (run_statements Q
         [(''DELETE FROM contracts'', \<lambda>T. T\<lparr>tb_contracts := []\<rparr>),
          (''DELETE FROM runtime_contracts'', \<lambda>T. T\<lparr>tb_runtime := []\<rparr>),
          (''DELETE FROM drift'', \<lambda>T. T\<lparr>tb_drift := []\<rparr>)])
      (tx_then (readPackageRepoMap Q)
        (\<lambda>repoByPath.
          tx_seq (insertContracts Q contracts indexedAt repoByPath)
          (tx_seq (insertRuntimeContracts Q runtimeContracts indexedAt repoByPath)
          (tx_seq (insertDriftReports Q drifts indexedAt repoByPath)
          (tx_seq (maybeFail Q ''contract.meta'' [])
            (setContractAnalysisTimeInTx Q now))))))))"

end
