(* ===== verification/Index_Frames.thy ===== *)
theory Index_Frames
  imports Index_Write
begin

text \<open>
  What an index write leaves alone. The locales collect what the single statements of \<^verbatim>\<open>store/store.go\<close> have to
  respect for the composed writes to respect it: the row statements, with the set \<open>owns\<close> of owners whose rows they
  may touch, the statements on members, on files, and the bookkeeping at the end of a write.
\<close>

lemma gm_get_mem: "gm_get 0 m k = 0 \<or> gm_get 0 m k \<in> snd ` set m"
  by (cases "map_of m k") (auto simp: gm_get_def dest!: map_of_SomeD intro: image_eqI [rotated])

lemma repoForPackage_mem: "repoForPackage p m = 0 \<or> repoForPackage p m \<in> snd ` set m"
proof (cases "find (\<lambda>(modu, _). owns_path modu p) m")
  case (Some e)
  then obtain modu i where e: "e = (modu, i)" "find (\<lambda>(modu, _). owns_path modu p) m = Some (modu, i)" by (cases e) auto
  then have "(modu, i) \<in> set m" by (auto simp: find_Some_iff in_set_conv_nth)
  then have "i \<in> snd ` set m" by force
  with e show ?thesis by (simp add: repoForPackage_def)
qed (simp add: repoForPackage_def)

lemma attributed_repos:
  "snd ` set (fold (\<lambda>p a. gm_put p (repoForPackage p m) a) ps acc) \<subseteq> insert 0 (snd ` set m) \<union> snd ` set acc"
proof (induction ps arbitrary: acc)
  case (Cons p ps)
  have "snd ` set (gm_put p v acc) \<subseteq> insert v (snd ` set acc)" for v
  proof
    fix x assume "x \<in> snd ` set (gm_put p v acc)"
    then obtain q where "(q, x) \<in> set (gm_put p v acc)" by force
    then have "x = v \<or> (q, x) \<in> set acc"
      by (induction acc) (auto simp: gm_put_def split: if_splits)
    then show "x \<in> insert v (snd ` set acc)" by force
  qed
  then have put: "snd ` set (gm_put p (repoForPackage p m) acc) \<subseteq> insert (repoForPackage p m) (snd ` set acc)" .
  have mem: "repoForPackage p m \<in> insert 0 (snd ` set m)" using repoForPackage_mem [of p m] by blast
  have "snd ` set (fold (\<lambda>p a. gm_put p (repoForPackage p m) a) (p # ps) acc)
      \<subseteq> insert 0 (snd ` set m) \<union> snd ` set (gm_put p (repoForPackage p m) acc)"
    using Cons by simp
  also have "\<dots> \<subseteq> insert 0 (snd ` set m) \<union> snd ` set acc"
  proof (rule Un_least)
    have "insert (repoForPackage p m) (snd ` set acc) \<subseteq> insert 0 (snd ` set m) \<union> snd ` set acc" using mem by (simp, blast)
    with put show "snd ` set (gm_put p (repoForPackage p m) acc) \<subseteq> insert 0 (snd ` set m) \<union> snd ` set acc"
      by (rule order_trans)
  qed blast
  finally show ?case .
qed auto

lemma pkgFor_repo_mem: "snd (pkgFor (newPkgAttribution cache m) ref) = 0 \<or> snd (pkgFor (newPkgAttribution cache m) ref) \<in> snd ` set m"
proof -
  let ?a = "newPkgAttribution cache m"
  have "snd (pkgFor ?a ref) = 0 \<or> snd (pkgFor ?a ref) \<in> snd ` set (pa_repo ?a)"
    using gm_get_mem [of "pa_repo ?a"] by (auto simp: pkgFor_def Let_def split: option.splits)
  moreover have "snd ` set (pa_repo ?a) \<subseteq> insert 0 (snd ` set m)"
    using attributed_repos [of m "gm_keys cache" "[]"] by (simp add: newPkgAttribution_def)
  ultimately show ?thesis by blast
qed

section \<open>The statements of a write\<close>

locale owner_frame = table_frame +
  fixes owns :: "int option set"
  assumes owns_None: "None \<in> owns"

locale delete_frame = owner_frame +
  assumes edges_deleted: "gone \<subseteq> owns \<Longrightarrow> R T (T\<lparr>tb_edges := filter (\<lambda>r. ee_repo_id r \<notin> gone) (tb_edges T)\<rparr>)"
    and symbols_deleted: "gone \<subseteq> owns \<Longrightarrow> R T (T\<lparr>tb_symbols := filter (\<lambda>r. se_repo_id r \<notin> gone) (tb_symbols T)\<rparr>)"
    and packages_deleted: "gone \<subseteq> owns \<Longrightarrow> R T (T\<lparr>tb_packages := filter (\<lambda>r. pe_repo_id r \<notin> gone) (tb_packages T)\<rparr>)"
    and contracts_deleted: "gone \<subseteq> owns \<Longrightarrow> R T (T\<lparr>tb_contracts := filter (\<lambda>r. ce_repo_id r \<notin> gone) (tb_contracts T)\<rparr>)"
    and runtime_deleted: "gone \<subseteq> owns \<Longrightarrow> R T (T\<lparr>tb_runtime := filter (\<lambda>r. te_repo_id r \<notin> gone) (tb_runtime T)\<rparr>)"
    and drift_deleted: "gone \<subseteq> owns \<Longrightarrow> R T (T\<lparr>tb_drift := filter (\<lambda>r. dt_repo_id r \<notin> gone) (tb_drift T)\<rparr>)"
    and diagnostics_deleted: "gone \<subseteq> owns \<Longrightarrow> R T (T\<lparr>tb_diagnostics := filter (\<lambda>r. de_repo_id r \<notin> gone) (tb_diagnostics T)\<rparr>)"
begin

lemma delete_rows_R:
  assumes "gone \<subseteq> owns"
    and "(s, f) \<in> set (delete_index_rows c (\<lambda>r. r \<in> gone)) \<union> set (delete_contract_rows c (\<lambda>r. r \<in> gone))
           \<union> set (delete_diagnostic_rows c (\<lambda>r. r \<in> gone))"
  shows "R T (f T)"
  using assms(2) edges_deleted [OF assms(1)] symbols_deleted [OF assms(1)] packages_deleted [OF assms(1)]
    contracts_deleted [OF assms(1)] runtime_deleted [OF assms(1)] drift_deleted [OF assms(1)] diagnostics_deleted [OF assms(1)]
  by (auto simp: delete_index_rows_def delete_contract_rows_def delete_diagnostic_rows_def)

lemma obeys_deleteRepoRows: "Some i \<in> owns \<Longrightarrow> obeys (deleteRepoRows Q i)"
  unfolding deleteRepoRows_def
  by (rule obeys_statements) (use delete_rows_R [of "{Some i}"] in auto)

lemma obeys_clearWorkspaceRows: "owns = UNIV \<Longrightarrow> obeys (clearWorkspaceRows Q)"
  unfolding clearWorkspaceRows_def
  by (rule obeys_statements) (use delete_rows_R [of "- {None}"] in auto)

lemma obeys_clearSingleRepoRows: "obeys (clearSingleRepoRows Q)"
  unfolding clearSingleRepoRows_def
  by (rule obeys_statements) (use delete_rows_R [of "{None}"] owns_None in auto)

end

locale insert_frame = owner_frame +
  assumes package_upserted: "repo \<in> owns \<Longrightarrow> R T (upsert_package p repo T)"
    and symbol_inserted: "repo \<in> owns \<Longrightarrow> R T (insert_symbol decl pkgID repo js T)"
    and edge_upserted: "repo \<in> owns \<Longrightarrow> R T (upsert_edge unite e repo T)"
    and diagnostic_inserted: "repo \<in> owns \<Longrightarrow> R T (insert_diagnostic d repo T)"
    and churn_set: "R T (set_churn churn T)"
begin

lemma owns_attributed: "(\<And>i. i \<in> snd ` set m \<Longrightarrow> Some i \<in> owns) \<Longrightarrow> i = 0 \<or> i \<in> snd ` set m \<Longrightarrow> nullableRepo i \<in> owns"
  using owns_None by (auto simp: nullableRepo_def)

lemma obeys_writePackages:
  assumes "\<And>i. i \<in> snd ` set m \<Longrightarrow> Some i \<in> owns"
  shows "obeys (writePackages Q ps m)"
  unfolding writePackages_def writePackage_def
  by (intro obeys_rules package_upserted owns_attributed [OF assms]) (assumption, rule gm_get_mem)

lemma obeys_writeSymbol:
  assumes "\<And>i. i \<in> snd ` set m \<Longrightarrow> Some i \<in> owns"
  shows "obeys (writeSymbol Q (newPkgAttribution cache m) x)"
proof -
  have o: "nullableRepo (snd (pkgFor (newPkgAttribution cache m) (xs_QualifiedName x))) \<in> owns"
    by (rule owns_attributed [OF assms pkgFor_repo_mem])
  have fail: "obeys (\<lambda>T. Inl e)" for e by (simp add: obeys_def)
  obtain pid rid where p: "pkgFor (newPkgAttribution cache m) (xs_QualifiedName x) = (pid, rid)" by force
  with o have r: "nullableRepo rid \<in> owns" by simp
  show ?thesis
    by (auto simp: writeSymbol_def p intro!: obeys_rules symbol_inserted r fail split: sum.splits)
qed

lemma obeys_writeEdge:
  assumes "\<And>i. i \<in> snd ` set m \<Longrightarrow> Some i \<in> owns"
  shows "obeys (writeEdge Q (newPkgAttribution cache m) e)"
  unfolding writeEdge_def
  by (intro obeys_rules edge_upserted owns_attributed [OF assms]) (assumption, rule pkgFor_repo_mem)

lemma obeys_index_rows:
  assumes "\<And>i. i \<in> snd ` set m \<Longrightarrow> Some i \<in> owns"
  shows "obeys (index_rows Q result m)"
  unfolding index_rows_def Let_def writeSymbols_def writeEdges_def
  by (intro obeys_then obeys_seq obeys_each obeys_wrap obeys_writePackages obeys_writeSymbol obeys_writeEdge assms
      obeys_exec) (simp_all add: refl_R)

lemma obeys_applyChurn: "obeys (applyChurn Q churn)"
proof -
  have "obeys (exec Q s a id)" for s a by (rule obeys_exec) (simp add: refl_R)
  then show ?thesis
    unfolding applyChurn_def by (auto intro!: obeys_rules churn_set simp: case_prod_beta refl_R)
qed

lemma obeys_writeDiagnostics:
  assumes "\<And>p. repo_of rf p \<in> owns"
  shows "obeys (writeDiagnostics Q ds rf)"
  unfolding writeDiagnostics_def by (intro obeys_rules diagnostic_inserted assms) (simp add: refl_R)

lemma obeys_churn_option: "obeys (case churn of None \<Rightarrow> yields () | Some c \<Rightarrow> applyChurn Q c)"
  by (cases churn) (auto intro: obeys_applyChurn obeys_yields)

lemma obeys_writeDeferredRows:
  assumes "\<And>p. repo_of rf p \<in> owns"
  shows "obeys (writeDeferredRows Q result churn rf)"
  unfolding writeDeferredRows_def by (intro obeys_seq obeys_churn_option obeys_writeDiagnostics assms)

end

locale row_frame = delete_frame + insert_frame

locale member_frame = table_frame +
  assumes member_inserted: "\<forall>r\<in>set (tb_repos T). re_module_path r \<noteq> rs_ModulePath (spec :: repo_spec) \<Longrightarrow>
      R T (T\<lparr>tb_repos := tb_repos T @ [\<lparr>re_id = next_id (map re_id (tb_repos T)), re_module_path = rs_ModulePath spec,
              re_dir = rs_Dir spec, re_missing = rs_Missing spec, re_indexed_at = None\<rparr>]\<rparr>)"
    and member_updated: "R T (T\<lparr>tb_repos := map (\<lambda>r. if re_id r = i then r\<lparr>re_dir := d, re_missing := b\<rparr> else r) (tb_repos T)\<rparr>)"
begin

lemma obeys_ensureRepoInTx: "obeys (ensureRepoInTx Q spec)"
  unfolding ensureRepoInTx_def
  by (intro obeys_rules member_updated) (simp add: refl_R member_inserted)

end

locale file_frame = table_frame +
  fixes touches :: "string set" and scope :: file_scope and owners :: "int option set"
  assumes file_upserted: "p \<in> touches \<Longrightarrow> repo \<in> owners \<Longrightarrow> R T (upsert_file p c repo T)"
    and files_deleted: "R T (delete_not_in scope batch T)"
begin

lemma obeys_writeFile:
  assumes "p \<in> touches" "repo_of rf p \<in> owners"
  shows "obeys (writeFile Q rf (p, c) d)"
  unfolding obeys_def
proof (intro allI impI)
  fix T x T'
  assume "writeFile Q rf (p, c) d T = Inr (x, T')"
  then have "T' = upsert_file p c (repo_of rf p) T"
    by (simp add: writeFile_def tx_simps split: option.splits sum.splits)
  with file_upserted assms show "R T T'" by simp
qed

lemma obeys_deleteStaleBatch: "obeys (deleteStaleBatch Q scope b d)"
  unfolding obeys_def
proof (intro allI impI)
  fix T x T'
  assume "deleteStaleBatch Q scope b d T = Inr (x, T')"
  then have "T' = delete_not_in scope b T"
    by (simp add: deleteStaleBatch_def tx_simps split: option.splits sum.splits)
  with files_deleted show "R T T'" by simp
qed

lemma obeys_writeFiles:
  assumes "fst ` set fs \<subseteq> touches" "\<And>p. repo_of rf p \<in> owners"
  shows "obeys (writeFiles Q fs rf scope)"
proof -
  have "obeys (writeFile Q rf f d)" if "f \<in> set fs" for f d
    using obeys_writeFile [of "fst f" rf Q "snd f" d] assms that by auto
  then show ?thesis
    unfolding writeFiles_def deleteStaleFiles_def
    by (auto intro!: obeys_rules obeys_deleteStaleBatch simp: refl_R)
qed

end

locale finish_frame = table_frame +
  assumes symbols_fts_rebuilt: "R T (T\<lparr>tb_symbols_fts := map fts_symbol (tb_symbols T)\<rparr>)"
    and content_fts_rebuilt: "R T (T\<lparr>tb_content_fts := map fts_file (tb_files T)\<rparr>)"
    and chunks_deleted: "R T (T\<lparr>tb_chunks := []\<rparr>)"
    and meta_put: "R T (put_meta k v T)"
begin

lemma obeys_populateFTS: "obeys (populateFTS Q)"
  unfolding populateFTS_def by (intro obeys_exec symbols_fts_rebuilt)

lemma obeys_populateFileContentFTS: "obeys (populateFileContentFTS Q)"
  unfolding populateFileContentFTS_def by (intro obeys_exec content_fts_rebuilt)

lemma obeys_completeIndexWrite: "obeys (completeIndexWrite Q)"
  unfolding completeIndexWrite_def deleteResponseChunksTx_def setGeneratedProvenanceTx_def setAnalyzerVersionTx_def insert_meta_def
  by (intro obeys_rules chunks_deleted meta_put)

end

locale contract_frame = table_frame +
  assumes contracts_set: "R T (T\<lparr>tb_contracts := cs\<rparr>)"
    and runtime_set: "R T (T\<lparr>tb_runtime := rs\<rparr>)"
    and drift_set: "R T (T\<lparr>tb_drift := ds\<rparr>)"
    and time_set: "R T (put_meta ''contract_indexed_at'' v T)"
begin

lemma WriteContractsAll_R: "R T (snd (WriteContractsAll Q rows indexedAt now T))"
proof -
  obtain cs rs ds where rows: "rows = (cs, rs, ds)" by (cases rows)
  have fail: "obeys (\<lambda>T. Inl e)" for e by (simp add: obeys_def)
  have drift: "obeys (insertDriftReports Q ds indexedAt m)" for m
    unfolding insertDriftReports_def by (rule obeys_each) (auto intro: fail obeys_exec drift_set split: sum.splits)
  show ?thesis
    unfolding WriteContractsAll_def rows prod.case
    by (rule withTx_obeys, intro obeys_seq obeys_then drift obeys_statements obeys_fetch obeys_each obeys_exec obeys_hook)
      (auto simp: readPackageRepoMap_def insertContracts_def insertRuntimeContracts_def setContractAnalysisTimeInTx_def
        insert_meta_def intro!: obeys_rules contracts_set runtime_set drift_set time_set)
qed

end

section \<open>The composed writes\<close>

locale replace_frame = row_frame + file_frame + finish_frame
begin

lemma obeys_replaceTx:
  assumes "Some i \<in> owns" "Some i \<in> owners" "None \<in> owners" "fst ` set fs \<subseteq> touches" "scope = \<lparr>fs_repoID = i\<rparr>"
  shows "obeys (replaceTx Q result fs churn m i)"
proof -
  have o: "repo_of (Some (\<lambda>_. i)) p \<in> owns" "repo_of (Some (\<lambda>_. i)) p \<in> owners" for p
    using assms owns_None by (auto simp: repo_of_def nullableRepo_def)
  have "obeys (if d then populateFileContentFTS Q else yields ())" for d
    by (auto intro: obeys_populateFileContentFTS obeys_yields)
  then show ?thesis
    unfolding replaceTx_def writeRepoRows_def assms(5) [symmetric]
    by (intro obeys_seq obeys_then obeys_deleteRepoRows obeys_index_rows obeys_churn_option obeys_writeDiagnostics
        obeys_writeFiles obeys_populateFTS obeys_completeIndexWrite o) (use assms in auto)
qed

end

locale register_frame = delete_frame + member_frame +
  assumes owns_all: "owns = UNIV"
begin

lemma obeys_registerRepos: "obeys (registerRepos Q repos workspace)"
proof -
  have "obeys (tx_fold (\<lambda>r m. tx_then (ensureRepoInTx Q r) (\<lambda>i. yields (gm_put (rs_ModulePath r) i m))) repos [])"
    by (intro obeys_rules obeys_ensureRepoInTx)
  then show ?thesis
    unfolding registerRepos_def
    by (auto intro!: obeys_then obeys_seq obeys_yields obeys_clearWorkspaceRows owns_all)
qed

lemma obeys_cleared: "obeys (if workspace then yields () else clearSingleRepoRows Q)"
  by (auto intro: obeys_clearSingleRepoRows obeys_yields)

end

locale write_frame = replace_frame + register_frame +
  assumes owners_all: "owners = UNIV" and touches_all: "touches = UNIV"
begin

lemma obeys_writeTx:
  assumes "scope = \<lparr>fs_repoID = 0\<rparr>"
  shows "obeys (writeTx Q result fs churn repos workspace)"
proof -
  have 1: "obeys (if d then populateFileContentFTS Q else yields ())" for d
    by (auto intro: obeys_populateFileContentFTS obeys_yields)
  note 2 = obeys_cleared [of workspace Q]
  show ?thesis
    unfolding writeTx_def Let_def assms [symmetric]
    by (intro obeys_then obeys_seq obeys_registerRepos 1 2 obeys_index_rows obeys_writeDeferredRows obeys_writeFiles
        obeys_populateFTS obeys_completeIndexWrite obeys_hook) (auto simp: owns_all owners_all touches_all)
qed

end

end
