(* ===== verification/Index_Files.thy ===== *)
theory Index_Files
  imports Index_Write Graph_Proofs
begin

text \<open>
  What a write of files does to the file table: the upserts in the order of the map, then the removal of stale rows batch
  by batch. A write that reports nothing dirty has changed no row; the removal keeps the written paths when they fit
  into one batch, and no path of its scope at all when they need two.
\<close>

section \<open>Writing and removing file rows\<close>

text \<open>The file rows after the upserts.\<close>

definition upsert_files :: "(string \<Rightarrow> int) option \<Rightarrow> files \<Rightarrow> tables \<Rightarrow> tables" where
  "upsert_files rf fs T = fold (\<lambda>(p, c). upsert_file p c (repo_of rf p)) fs T"

lemma upsert_file_unchanged: "\<not> file_changes p c repo T \<Longrightarrow> upsert_file p c repo T = T"
  by (simp add: upsert_file_def)

lemma writeFile_result:
  assumes "writeFile Q rf (p, c) d T = Inr (d', T')"
  shows "T' = upsert_file p c (repo_of rf p) T" "d' \<longleftrightarrow> d \<or> file_changes p c (repo_of rf p) T"
  using assms by (simp_all add: writeFile_def tx_simps split: option.splits sum.splits)

lemma writeFile_fold_result:
  "tx_fold (writeFile Q rf) fs d T = Inr (d', T') \<Longrightarrow> T' = upsert_files rf fs T \<and> (d' \<or> \<not> d \<and> T' = T)"
proof (induction fs arbitrary: d T)
  case Nil
  then show ?case by (auto simp: tx_simps upsert_files_def)
next
  case (Cons f fs)
  obtain p c where f: "f = (p, c)" by force
  with Cons.prems obtain d1 T1 where 1: "writeFile Q rf (p, c) d T = Inr (d1, T1)"
      "tx_fold (writeFile Q rf) fs d1 T1 = Inr (d', T')"
    by (auto simp: tx_simps split: sum.splits)
  from Cons.IH [OF 1(2)] writeFile_result [OF 1(1)] show ?case
    by (auto simp: f upsert_files_def upsert_file_unchanged)
qed

lemma deleteStaleBatch_result:
  assumes "deleteStaleBatch Q scope b d T = Inr (d', T')"
  shows "T' = delete_not_in scope b T"
    and "d' \<longleftrightarrow> d \<or> (\<exists>r\<in>set (tb_files T). fe_path r \<notin> set b \<and> in_scope scope r)"
  using assms by (auto simp: deleteStaleBatch_def tx_simps split: option.splits sum.splits)

lemma delete_not_in_unchanged:
  "\<not> (\<exists>r\<in>set (tb_files T). fe_path r \<notin> set b \<and> in_scope scope r) \<Longrightarrow> delete_not_in scope b T = T"
proof -
  assume "\<not> (\<exists>r\<in>set (tb_files T). fe_path r \<notin> set b \<and> in_scope scope r)"
  then have "filter (\<lambda>r. \<not> (fe_path r \<notin> set b \<and> in_scope scope r)) (tb_files T) = tb_files T"
    by (intro filter_True) blast
  then show ?thesis by (simp add: delete_not_in_def)
qed

lemma deleteStale_fold_result:
  "tx_fold (deleteStaleBatch Q scope) batches d T = Inr (d', T') \<Longrightarrow>
     T' = fold (delete_not_in scope) batches T \<and> (d' \<or> \<not> d \<and> T' = T)"
proof (induction batches arbitrary: d T)
  case Nil
  then show ?case by (auto simp: tx_simps)
next
  case (Cons b batches)
  then obtain d1 T1 where 1: "deleteStaleBatch Q scope b d T = Inr (d1, T1)"
      "tx_fold (deleteStaleBatch Q scope) batches d1 T1 = Inr (d', T')"
    by (auto simp: tx_simps split: sum.splits)
  from Cons.IH [OF 1(2)] deleteStaleBatch_result [OF 1(1)] show ?case
    by (auto simp: delete_not_in_unchanged)
qed

lemma fold_delete_not_in:
  "fold (delete_not_in scope) batches T =
     T\<lparr>tb_files := filter (\<lambda>r. in_scope scope r \<longrightarrow> (\<forall>b\<in>set batches. fe_path r \<in> set b)) (tb_files T)\<rparr>"
proof (induction batches arbitrary: T)
  case (Cons b batches)
  have "filter P (filter Q xs) = filter R xs" if "\<And>r. P r \<and> Q r \<longleftrightarrow> R r" for P Q R :: "file_entry \<Rightarrow> bool" and xs
    using that by (simp add: conj_commute)
  note collapse = this
  show ?case
    unfolding fold.simps o_apply Cons unfolding delete_not_in_def
    by (simp del: filter_filter) (rule arg_cong [where f = "\<lambda>x. T\<lparr>tb_files := x\<rparr>"], rule collapse, auto)
qed simp

text \<open>The paths that lie in every batch: all of them up to the batch size, none beyond it.\<close>

lemma chunks_small: "xs \<noteq> [] \<Longrightarrow> length xs \<le> sz \<Longrightarrow> chunks xs sz = [xs]"
  by (cases xs) (auto simp: chunks_def)

lemma chunks_large:
  assumes "distinct xs" "0 < sz" "sz < length xs"
  shows "\<exists>b\<in>set (chunks xs sz). x \<notin> set b"
proof -
  from assms obtain y ys where xs: "xs = y # ys" by (cases xs) auto
  have drop: "drop sz xs \<noteq> []" using assms by simp
  have c: "chunks xs sz = take sz xs # chunk_loop sz (drop sz xs)" using assms by (simp add: chunks_def xs)
  from drop obtain z zs where "drop sz xs = z # zs" by (cases "drop sz xs") auto
  then have c2: "take sz (drop sz xs) \<in> set (chunk_loop sz (drop sz xs))" using assms by simp
  have "set (take sz xs) \<inter> set (take sz (drop sz xs)) = {}"
    using set_take_disj_set_drop_if_distinct [OF assms(1), of sz sz] by (auto dest: in_set_takeD)
  with c c2 show ?thesis by auto
qed

definition kept_files :: "file_scope \<Rightarrow> files \<Rightarrow> file_entry \<Rightarrow> bool" where
  "kept_files scope fs r \<longleftrightarrow>
     fs = [] \<or> \<not> in_scope scope r \<or> length fs \<le> edgesInBatchSize \<and> fe_path r \<in> set (gm_keys fs)"

lemma deleteStaleFiles_result:
  assumes "deleteStaleFiles Q fs scope T = Inr (d, T')" "gm_wf fs"
  shows "T' = T\<lparr>tb_files := filter (kept_files scope fs) (tb_files T)\<rparr>" "d \<or> T' = T"
proof -
  have "T' = T\<lparr>tb_files := filter (kept_files scope fs) (tb_files T)\<rparr> \<and> (d \<or> T' = T)"
  proof (cases "fs = []")
    case True
    with assms show ?thesis by (simp add: deleteStaleFiles_def tx_simps kept_files_def)
  next
    case False
    with assms(1) have "tx_fold (deleteStaleBatch Q scope) (chunks (gm_keys fs) edgesInBatchSize) False T = Inr (d, T')"
      by (simp add: deleteStaleFiles_def)
    from deleteStale_fold_result [OF this]
    have T': "T' = fold (delete_not_in scope) (chunks (gm_keys fs) edgesInBatchSize) T" and d: "d \<or> T' = T" by auto
    have "(\<forall>b\<in>set (chunks (gm_keys fs) edgesInBatchSize). p \<in> set b)
        \<longleftrightarrow> length fs \<le> edgesInBatchSize \<and> p \<in> set (gm_keys fs)" for p
    proof (cases "length fs \<le> edgesInBatchSize")
      case True
      with False show ?thesis by (simp add: chunks_small)
    next
      case large: False
      with chunks_large [of "gm_keys fs" edgesInBatchSize p] assms(2) show ?thesis
        by (auto simp: gm_wf_def edgesInBatchSize_def)
    qed
    then have "kept_files scope fs = (\<lambda>r. in_scope scope r \<longrightarrow> (\<forall>b\<in>set (chunks (gm_keys fs) edgesInBatchSize). fe_path r \<in> set b))"
      using False by (auto simp: kept_files_def fun_eq_iff)
    with T' d show ?thesis by (simp add: fold_delete_not_in)
  qed
  then show "T' = T\<lparr>tb_files := filter (kept_files scope fs) (tb_files T)\<rparr>" "d \<or> T' = T" by auto
qed

lemma writeFiles_result:
  assumes "writeFiles Q fs rf scope T = Inr (d, T')" "gm_wf fs"
  shows "T' = (upsert_files rf fs T)\<lparr>tb_files := filter (kept_files scope fs) (tb_files (upsert_files rf fs T))\<rparr>"
    and "d \<or> T' = T"
proof -
  from assms(1) obtain d1 T1 d2 where 1: "tx_fold (writeFile Q rf) fs False T = Inr (d1, T1)"
      "deleteStaleFiles Q fs scope T1 = Inr (d2, T')" "d \<longleftrightarrow> d1 \<or> d2"
    by (auto simp: writeFiles_def tx_simps split: option.splits sum.splits)
  from writeFile_fold_result [OF 1(1)] deleteStaleFiles_result [OF 1(2) assms(2)] 1(3)
  show "T' = (upsert_files rf fs T)\<lparr>tb_files := filter (kept_files scope fs) (tb_files (upsert_files rf fs T))\<rparr>"
    and "d \<or> T' = T" by auto
qed

end
