(* ===== verification/Source_Hash.thy ===== *)
theory Source_Hash
  imports Workspace
begin

text \<open>
  The source fingerprint (\<^verbatim>\<open>store/fingerprint.go\<close>): the build context, \<^verbatim>\<open>go.mod\<close> and every \<^verbatim>\<open>.go\<close> file a walk of the
  tree lists, hashed as one byte stream. A tree is what \<^verbatim>\<open>filepath.WalkDir\<close> sees of it: a finite value, so the walk is
  structural recursion. The hash function and the build context are the environment's.
\<close>

section \<open>The tree walk\<close>

datatype walk_tree = Plain | Unreadable string | Folder "(string \<times> walk_tree) list"

record hash_env =
  hs_ws :: ws_env
  hs_walk :: "string \<Rightarrow> walk_tree result"
  hs_goos :: string
  hs_goarch :: string
  hs_cgo :: bool
  hs_tags :: "string list"
  hs_sha256 :: "string \<Rightarrow> string"

definition skipSourceDir :: "ws_env \<Rightarrow> string \<Rightarrow> string \<Rightarrow> bool" where
  "skipSourceDir W path name \<longleftrightarrow>
     name = ''vendor'' \<or> name = ''node_modules'' \<or> name = ''testdata'' \<or> has_prefix name ''.'' \<or> has_prefix name ''_''
     \<or> stat_error (we_stat W (path_join path ''go.mod'')) = None"

lemma concat_r_cong [fundef_cong]:
  "xs = ys \<Longrightarrow> (\<And>x. x \<in> set ys \<Longrightarrow> f x = g x) \<Longrightarrow> concat_r f xs = concat_r g ys"
proof -
  assume "xs = ys" and eq: "\<And>x. x \<in> set ys \<Longrightarrow> f x = g x"
  have "each_r f zs = each_r g zs" if "set zs \<subseteq> set ys" for zs
    using that by (induction zs) (auto simp: eq split: sum.splits)
  with \<open>xs = ys\<close> show ?thesis by (simp add: concat_r_def)
qed

fun source_walk :: "ws_env \<Rightarrow> string \<Rightarrow> string \<Rightarrow> string \<Rightarrow> walk_tree \<Rightarrow> string list result" where
  "source_walk W rt path name Plain = Inr (if has_suffix name ''.go'' then [path] else [])"
| "source_walk W rt path name (Unreadable e) =
     (if path \<noteq> rt \<and> skipSourceDir W path name then Inr [] else Inl e)"
| "source_walk W rt path name (Folder entries) =
     (if path \<noteq> rt \<and> skipSourceDir W path name then Inr []
      else concat_r (\<lambda>(n, t). source_walk W rt (path_join path n) n t) entries)"

definition goSourcePaths :: "hash_env \<Rightarrow> string \<Rightarrow> string list result" where
  "goSourcePaths H rt =
     (case hs_walk H rt of Inl e \<Rightarrow> Inl e | Inr t \<Rightarrow> source_walk (hs_ws H) rt rt (path_base rt) t)"

section \<open>Relative paths\<close>

text \<open>\<^verbatim>\<open>filepath.Rel\<close>, of the elements of the two clean paths.\<close>

definition path_elems :: "string \<Rightarrow> string list" where
  "path_elems p = filter (\<lambda>e. e \<noteq> [] \<and> e \<noteq> ''.'') (split_char CHR ''/'' (path_clean p))"

fun strip_common :: "'a list \<Rightarrow> 'a list \<Rightarrow> 'a list \<times> 'a list" where
  "strip_common (x # xs) (y # ys) = (if x = y then strip_common xs ys else (x # xs, y # ys))"
| "strip_common xs ys = (xs, ys)"

definition path_rel :: "string \<Rightarrow> string \<Rightarrow> string result" where
  "path_rel base target =
     (if path_is_abs (path_clean base) \<noteq> path_is_abs (path_clean target)
      then Inl (''Rel: can'' @ [CHR 0x27] @ ''t make '' @ target @ '' relative to '' @ base)
      else case strip_common (path_elems base) (path_elems target) of (up, down) \<Rightarrow>
        if ''..'' \<in> set up then Inl (''Rel: can'' @ [CHR 0x27] @ ''t make '' @ target @ '' relative to '' @ base)
        else if up = [] \<and> down = [] then Inr ''.''
        else Inr (str_join ''/'' (replicate (length up) ''..'' @ down)))"

fun skipped_below :: "ws_env \<Rightarrow> string \<Rightarrow> string list \<Rightarrow> bool" where
  "skipped_below W dir [] = False"
| "skipped_below W dir (part # parts) =
     (let dir' = path_join dir part in skipSourceDir W dir' part \<or> skipped_below W dir' parts)"

definition skippedPath :: "ws_env \<Rightarrow> string \<Rightarrow> string \<Rightarrow> bool" where
  "skippedPath W rt path =
     (case path_rel rt path of
        Inl _ \<Rightarrow> True
      | Inr rel \<Rightarrow> rel = ''..'' \<or> has_prefix rel ''../'' \<or> skipped_below W rt (butlast (split_char CHR ''/'' rel)))"

section \<open>The hash\<close>

definition hashPart :: "string \<Rightarrow> string \<Rightarrow> string" where
  "hashPart name content = name @ [CHR 0x00] @ content @ [CHR 0x00]"

definition hash_header :: "hash_env \<Rightarrow> string" where
  "hash_header H = ''codemap-source-v1 '' @ hs_goos H @ '' '' @ hs_goarch H @ '' ''
     @ (if hs_cgo H then ''true'' else ''false'') @ '' '' @ str_join '','' (hs_tags H) @ [CHR 0x0A]"

definition source_part :: "hash_env \<Rightarrow> string \<Rightarrow> files \<Rightarrow> string \<Rightarrow> (string \<times> string) result" where
  "source_part H rt known path =
     (case (case map_of known path of Some c \<Rightarrow> Inr c | None \<Rightarrow> we_readFile (hs_ws H) path) of
        Inl e \<Rightarrow> Inl e
      | Inr content \<Rightarrow> (case path_rel rt path of Inl e \<Rightarrow> Inl e | Inr rel \<Rightarrow> Inr (rel, content)))"

definition mod_part :: "hash_env \<Rightarrow> string \<Rightarrow> (string \<times> string) list" where
  "mod_part H rt = (case we_readFile (hs_ws H) (path_join rt ''go.mod'') of Inl _ \<Rightarrow> [] | Inr m \<Rightarrow> [(''go.mod'', m)])"

definition hash_paths :: "hash_env \<Rightarrow> string \<Rightarrow> files \<Rightarrow> string list \<Rightarrow> string list" where
  "hash_paths H rt known walked =
     sort_by (<) (walked @ filter (\<lambda>p. p \<notin> set walked \<and> \<not> skippedPath (hs_ws H) rt p) (gm_keys known))"

text \<open>The named contents the stream is made of, and the stream.\<close>

definition source_parts :: "hash_env \<Rightarrow> string \<Rightarrow> files \<Rightarrow> (string \<times> string) list result" where
  "source_parts H rt known =
     (case goSourcePaths H rt of
        Inl e \<Rightarrow> Inl e
      | Inr walked \<Rightarrow>
          (case each_r (source_part H rt known) (hash_paths H rt known walked) of
             Inl e \<Rightarrow> Inl e
           | Inr ps \<Rightarrow> Inr (mod_part H rt @ ps)))"

definition source_stream :: "hash_env \<Rightarrow> (string \<times> string) list \<Rightarrow> string" where
  "source_stream H ps = hash_header H @ concat (map (\<lambda>(n, c). hashPart n c) ps)"

definition hashSource :: "hash_env \<Rightarrow> string \<Rightarrow> files \<Rightarrow> string result" where
  "hashSource H dir known =
     (case path_abs (we_cwd (hs_ws H)) dir of
        Inl e \<Rightarrow> Inl e
      | Inr rt \<Rightarrow>
          (case source_parts H rt known of
             Inl e \<Rightarrow> Inl e
           | Inr ps \<Rightarrow> Inr (hs_sha256 H (source_stream H ps))))"

section \<open>What equal fingerprints mean\<close>

text \<open>Without NUL bytes inside, the stream determines its parts.\<close>

lemma nul_split:
  "x @ CHR 0x00 # xs = y @ CHR 0x00 # ys \<Longrightarrow> CHR 0x00 \<notin> set x \<Longrightarrow> CHR 0x00 \<notin> set y \<Longrightarrow> x = y \<and> xs = ys"
proof (induction x arbitrary: y)
  case Nil
  then show ?case by (cases y) auto
next
  case (Cons a x)
  then show ?case by (cases y) auto
qed

definition nul_free :: "(string \<times> string) list \<Rightarrow> bool" where
  "nul_free ps \<longleftrightarrow> (\<forall>(n, c)\<in>set ps. CHR 0x00 \<notin> set n \<and> CHR 0x00 \<notin> set c)"

lemma parts_injective:
  "concat (map (\<lambda>(n, c). hashPart n c) ps) = concat (map (\<lambda>(n, c). hashPart n c) qs) \<Longrightarrow> nul_free ps \<Longrightarrow> nul_free qs \<Longrightarrow> ps = qs"
proof (induction ps arbitrary: qs)
  case Nil
  then show ?case by (cases qs) (auto simp: hashPart_def)
next
  case (Cons p ps)
  obtain n c where p: "p = (n, c)" by force
  with Cons.prems obtain m d rest where q: "qs = (m, d) # rest" by (cases qs) (auto simp: hashPart_def)
  have free: "CHR 0x00 \<notin> set n" "CHR 0x00 \<notin> set c" "CHR 0x00 \<notin> set m" "CHR 0x00 \<notin> set d" "nul_free ps" "nul_free rest"
    using Cons.prems by (auto simp: nul_free_def p q)
  from Cons.prems(1) have "n @ CHR 0x00 # (c @ CHR 0x00 # concat (map (\<lambda>(n, c). hashPart n c) ps))
      = m @ CHR 0x00 # (d @ CHR 0x00 # concat (map (\<lambda>(n, c). hashPart n c) rest))"
    by (simp add: p q hashPart_def)
  from nul_split [OF this] free nul_split [of c _ d] Cons.IH [of rest] show ?case by (auto simp: p q)
qed

lemma source_stream_injective:
  "source_stream H ps = source_stream H' qs \<Longrightarrow> hash_header H = hash_header H' \<Longrightarrow> nul_free ps \<Longrightarrow> nul_free qs \<Longrightarrow> ps = qs"
  unfolding source_stream_def by (auto dest: parts_injective)

text \<open>The map of files already read is a set of contents: the order in which it is visited does not matter.\<close>

lemma hash_paths_perm:
  assumes "mset known = mset known'"
  shows "hash_paths H rt known walked = hash_paths H rt known' walked"
proof -
  have "mset (filter P (gm_keys known)) = mset (filter P (gm_keys known'))" for P
    using assms by (metis mset_filter mset_map)
  then show ?thesis
    unfolding hash_paths_def by (intro builtin_less.sort_by_perm) auto
qed

lemma hashSource_perm:
  assumes "mset known = mset known'" "gm_wf known"
  shows "hashSource H dir known = hashSource H dir known'"
proof -
  have "source_part H rt known = source_part H rt known'" for rt
    using map_of_perm [OF assms(2,1)] by (simp add: source_part_def fun_eq_iff)
  with hash_paths_perm [OF assms(1)] show ?thesis
    by (simp add: hashSource_def source_parts_def cong: sum.case_cong option.case_cong)
qed

end
