(* ===== verification/Store_Meta.thy ===== *)
theory Store_Meta
  imports Index_Write Source_Hash
begin

text \<open>
  What the store remembers about an index (\<^verbatim>\<open>store/store.go\<close>): the key/value table, the members and when they were
  indexed, the recorded fingerprints, and the staleness decisions; the rows of a contract analysis with their
  suppressions; and the small queries over these tables.
\<close>

section \<open>Metadata\<close>

definition set_meta :: "sql_env \<Rightarrow> string \<Rightarrow> string \<Rightarrow> tables op" where
  "set_meta Q key value = autocommit Q ''INSERT OR REPLACE INTO meta'' key (put_meta key value)"

definition get_meta :: "sql_env \<Rightarrow> string \<Rightarrow> tables \<Rightarrow> string option result" where
  "get_meta Q key = select Q ''SELECT value FROM meta WHERE key = ?'' key (\<lambda>T. Inr (map_of (tb_meta T) key))"

definition readMetaDB :: "sql_env \<Rightarrow> tables \<Rightarrow> string \<Rightarrow> string option" where
  "readMetaDB Q T key = (case get_meta Q key T of Inl _ \<Rightarrow> None | Inr v \<Rightarrow> v)"

definition SetIndexedAt :: "sql_env \<Rightarrow> int \<Rightarrow> tables op" where
  "SetIndexedAt Q t = set_meta Q ''indexed_at'' (sq_time Q t)"

definition IndexedAt :: "sql_env \<Rightarrow> tables \<Rightarrow> int result" where
  "IndexedAt Q T =
     (case get_meta Q ''indexed_at'' T of
        Inl e \<Rightarrow> Inl e | Inr None \<Rightarrow> Inl errNoRows | Inr (Some v) \<Rightarrow> sq_parseTime Q v)"

definition readIndexedAtDB :: "unidata \<Rightarrow> sql_env \<Rightarrow> tables \<Rightarrow> int option result" where
  "readIndexedAtDB U Q T =
     (case get_meta Q ''indexed_at'' T of
        Inl e \<Rightarrow> Inl e
      | Inr None \<Rightarrow> Inr None
      | Inr (Some v) \<Rightarrow>
          (case sq_parseTime Q v of
             Inl e \<Rightarrow> Inl (''parse indexed_at '' @ go_quote U v @ '': '' @ e) | Inr t \<Rightarrow> Inr (Some t)))"

text \<open>The loop ranges over a map: the list is one of its orders.\<close>

definition SetRepoMetaWith :: "sql_env \<Rightarrow> string \<Rightarrow> string \<Rightarrow> int \<Rightarrow> int \<Rightarrow> string \<Rightarrow> tables op" where
  "SetRepoMetaWith Q repoPath gitHead packageCount symbolCount indexedVia =
     each_op (\<lambda>(k, v). failing_as (''setting meta '' @ k) (set_meta Q k v))
       ([(''repo_path'', repoPath), (''git_head'', gitHead), (''package_count'', itoa packageCount),
         (''symbol_count'', itoa symbolCount)]
        @ (if indexedVia \<noteq> [] then [(''indexed_via'', indexedVia)] else []))"

definition SetRepoMeta :: "sql_env \<Rightarrow> string \<Rightarrow> string \<Rightarrow> int \<Rightarrow> int \<Rightarrow> tables op" where
  "SetRepoMeta Q repoPath gitHead packageCount symbolCount = SetRepoMetaWith Q repoPath gitHead packageCount symbolCount []"

definition SetIndexedVia :: "sql_env \<Rightarrow> string \<Rightarrow> tables op" where
  "SetIndexedVia Q indexedVia T = (if indexedVia = [] then (Inr (), T) else set_meta Q ''indexed_via'' indexedVia T)"

text \<open>Degraded churn: the marker is written on failure only.\<close>

definition churnDegradedKey :: string where "churnDegradedKey = ''churn_degraded''"

definition SetChurnDegraded :: "sql_env \<Rightarrow> string \<Rightarrow> tables op" where
  "SetChurnDegraded Q reason = set_meta Q churnDegradedKey reason"

definition RecordChurnDegradation :: "sql_env \<Rightarrow> vcs_error option \<Rightarrow> tables op" where
  "RecordChurnDegradation Q churnErr T =
     (case churnErr of
        None \<Rightarrow> (Inr (), T)
      | Some ErrNoCommits \<Rightarrow> (Inr (), T)
      | Some e \<Rightarrow> SetChurnDegraded Q (''git churn unavailable: '' @ churn_error e) T)"

definition ChurnDegraded :: "sql_env \<Rightarrow> tables \<Rightarrow> string result" where
  "ChurnDegraded Q T =
     (case get_meta Q churnDegradedKey T of Inl e \<Rightarrow> Inl e | Inr None \<Rightarrow> Inr [] | Inr (Some v) \<Rightarrow> Inr v)"

section \<open>Members\<close>

record repo =
  rq_ModulePath :: string
  rq_Dir :: string
  rq_IndexedAt :: string
  rq_ID :: int
  rq_Missing :: bool

definition ListRepos :: "sql_env \<Rightarrow> tables \<Rightarrow> repo list result" where
  "ListRepos Q T = select Q ''SELECT id, module_path, dir, missing, COALESCE(indexed_at) FROM repos'' [] (\<lambda>T.
     Inr (map (\<lambda>r. \<lparr>rq_ModulePath = re_module_path r, rq_Dir = re_dir r,
                 rq_IndexedAt = (case re_indexed_at r of None \<Rightarrow> [] | Some s \<Rightarrow> s), rq_ID = re_id r, rq_Missing = re_missing r\<rparr>)
            (sort_by (by_key re_module_path) (tb_repos T)))) T"

definition KnownModulePaths :: "sql_env \<Rightarrow> tables \<Rightarrow> string list result" where
  "KnownModulePaths Q T = map_sum id (map rq_ModulePath) (ListRepos Q T)"

definition MissingRepoContracts :: "sql_env \<Rightarrow> tables \<Rightarrow> string list result" where
  "MissingRepoContracts Q T = map_sum id (\<lambda>rs. map rq_ModulePath (filter rq_Missing rs)) (ListRepos Q T)"

definition update_repo :: "string \<Rightarrow> (repo_entry \<Rightarrow> repo_entry) \<Rightarrow> tables \<Rightarrow> tables" where
  "update_repo modulePath f T =
     T\<lparr>tb_repos := map (\<lambda>r. if re_module_path r = modulePath then f r else r) (tb_repos T)\<rparr>"

definition SetRepoIndexedAt :: "sql_env \<Rightarrow> string \<Rightarrow> int \<Rightarrow> tables op" where
  "SetRepoIndexedAt Q modulePath t = withTx Q
     (tx_seq (exec Q ''UPDATE repos SET indexed_at = ?'' modulePath
                (update_repo modulePath (\<lambda>r. r\<lparr>re_indexed_at := Some (sq_time Q t)\<rparr>)))
       (tx_seq (maybeFail Q ''repo.meta'' []) (insert_meta Q ''indexed_at'' (sq_time Q t))))"

definition SetRepoMissing :: "sql_env \<Rightarrow> string \<Rightarrow> bool \<Rightarrow> tables op" where
  "SetRepoMissing Q modulePath missing =
     autocommit Q ''UPDATE repos SET missing = ?'' modulePath (update_repo modulePath (\<lambda>r. r\<lparr>re_missing := missing\<rparr>))"

text \<open>\<^verbatim>\<open>indexed_at\<close> is scanned into a \<^verbatim>\<open>string\<close>, which refuses \<^verbatim>\<open>NULL\<close>.\<close>

definition scanNull :: string where
  "scanNull = ''sql: Scan error on column index 0, name '' @ [CHR 0x22] @ ''indexed_at'' @ [CHR 0x22]
     @ '': converting NULL to string is unsupported''"

definition RepoIndexedAt :: "unidata \<Rightarrow> sql_env \<Rightarrow> tables \<Rightarrow> string \<Rightarrow> int option result" where
  "RepoIndexedAt U Q T modulePath = select Q ''SELECT indexed_at FROM repos WHERE module_path = ?'' modulePath (\<lambda>T.
     case find (\<lambda>r. re_module_path r = modulePath) (tb_repos T) of
       None \<Rightarrow> Inr None
     | Some r \<Rightarrow>
         (case re_indexed_at r of
            None \<Rightarrow> Inl scanNull
          | Some v \<Rightarrow>
              if v = [] then Inr None
              else case sq_parseTime Q v of
                Inl e \<Rightarrow> Inl (''repo '' @ modulePath @ '': parse indexed_at '' @ go_quote U v @ '': '' @ e)
              | Inr t \<Rightarrow> Inr (Some t))) T"

section \<open>Fingerprints and staleness\<close>

definition sourceFingerprintKey :: string where "sourceFingerprintKey = ''source_fingerprint''"

definition sourceFingerprintMetaKey :: "string \<Rightarrow> string" where
  "sourceFingerprintMetaKey modulePath =
     (if modulePath = [] then sourceFingerprintKey else sourceFingerprintKey @ '':'' @ modulePath)"

definition SetSourceFingerprint :: "sql_env \<Rightarrow> string \<Rightarrow> string \<Rightarrow> tables op" where
  "SetSourceFingerprint Q modulePath fp = set_meta Q (sourceFingerprintMetaKey modulePath) fp"

definition RecordSourceFingerprint :: "sql_env \<Rightarrow> hash_env \<Rightarrow> string \<Rightarrow> string \<Rightarrow> files \<Rightarrow> tables \<Rightarrow> tables" where
  "RecordSourceFingerprint Q H modulePath dir known T =
     (case hashSource H dir known of Inl _ \<Rightarrow> T | Inr fp \<Rightarrow> snd (SetSourceFingerprint Q modulePath fp T))"

definition sourceFingerprint :: "sql_env \<Rightarrow> tables \<Rightarrow> string \<Rightarrow> string option" where
  "sourceFingerprint Q T modulePath = readMetaDB Q T (sourceFingerprintMetaKey modulePath)"

definition sourceStale :: "sql_env \<Rightarrow> hash_env \<Rightarrow> tables \<Rightarrow> string \<Rightarrow> string \<Rightarrow> bool" where
  "sourceStale Q H T modulePath dir =
     (case sourceFingerprint Q T modulePath of
        None \<Rightarrow> True
      | Some stored \<Rightarrow> (case hashSource H dir [] of Inl _ \<Rightarrow> True | Inr current \<Rightarrow> current \<noteq> stored))"

definition IsRepoStale :: "unidata \<Rightarrow> sql_env \<Rightarrow> hash_env \<Rightarrow> tables \<Rightarrow> string \<Rightarrow> bool result" where
  "IsRepoStale U Q H T modulePath =
     (case RepoIndexedAt U Q T modulePath of
        Inl e \<Rightarrow> Inl e
      | Inr None \<Rightarrow> Inr True
      | Inr (Some _) \<Rightarrow>
          if readMetaDB Q T generatedProvenanceKey = None then Inr True
          else if readMetaDB Q T analyzerVersionKey \<noteq> Some analyzerVersion then Inr True
          else select Q ''SELECT dir FROM repos WHERE module_path = ?'' modulePath (\<lambda>T.
            case find (\<lambda>r. re_module_path r = modulePath) (tb_repos T) of
              None \<Rightarrow> Inl errNoRows
            | Some r \<Rightarrow> Inr (re_dir r \<noteq> [] \<and> sourceStale Q H T modulePath (re_dir r))) T)"

definition RepoState :: "unidata \<Rightarrow> sql_env \<Rightarrow> hash_env \<Rightarrow> tables \<Rightarrow> repo \<Rightarrow> string" where
  "RepoState U Q H T r =
     (if rq_Missing r then ''missing''
      else case we_stat (hs_ws H) (rq_Dir r) of
        NotExist _ \<Rightarrow> ''missing''
      | _ \<Rightarrow>
          (case RepoIndexedAt U Q T (rq_ModulePath r) of
             Inr (Some _) \<Rightarrow> if sourceStale Q H T (rq_ModulePath r) (rq_Dir r) then ''stale'' else ''indexed''
           | _ \<Rightarrow> ''stale''))"

definition WorkspaceHealth :: "sql_env \<Rightarrow> tables \<Rightarrow> repo list result" where
  "WorkspaceHealth Q T = ListRepos Q T"

text \<open>\<^verbatim>\<open>(mismatch, known)\<close>.\<close>

definition repoIdentityMismatchDB :: "sql_env \<Rightarrow> ws_env \<Rightarrow> tables \<Rightarrow> string \<Rightarrow> bool \<times> bool" where
  "repoIdentityMismatchDB Q W T repoPath =
     (case readMetaDB Q T ''repo_path'' of
        None \<Rightarrow> (False, False)
      | Some metaRepo \<Rightarrow>
          (case path_abs (we_cwd W) repoPath of
             Inl _ \<Rightarrow> (True, True)
           | Inr absRepo \<Rightarrow> (path_clean metaRepo \<noteq> path_clean absRepo, True)))"

text \<open>\<open>opened\<close> is the database at \<^verbatim>\<open>dbPath\<close>, or the error of opening it.\<close>

definition StaleReason :: "unidata \<Rightarrow> sql_env \<Rightarrow> hash_env \<Rightarrow> tables result \<Rightarrow> string \<Rightarrow> string \<Rightarrow> bool \<times> string" where
  "StaleReason U Q H opened dbPath repoPath =
     (case we_stat (hs_ws H) dbPath of
        NotExist _ \<Rightarrow> (True, ''database does not exist; never indexed'')
      | _ \<Rightarrow>
        (case opened of
           Inl e \<Rightarrow> (True, ''open '' @ dbPath @ '': '' @ e)
         | Inr T \<Rightarrow>
           (case readIndexedAtDB U Q T of
              Inl e \<Rightarrow> (True, ''indexed_at meta unreadable: '' @ e)
            | Inr None \<Rightarrow> (True, ''no indexed_at meta (never indexed)'')
            | Inr (Some _) \<Rightarrow>
                if repoIdentityMismatchDB Q (hs_ws H) T repoPath = (True, True)
                then (True, ''indexed for a different repo path than the served repo'')
                else if readMetaDB Q T generatedProvenanceKey = None
                then (True, ''index predates generated-code provenance'')
                else if readMetaDB Q T analyzerVersionKey \<noteq> Some analyzerVersion
                then (True, ''index was built by a different analyzer version'')
                else case readMetaDB Q T sourceFingerprintKey of
                  None \<Rightarrow> (True, ''index has no source fingerprint'')
                | Some stored \<Rightarrow>
                    (case hashSource H repoPath [] of
                       Inl e \<Rightarrow> (True, ''hash source: '' @ e)
                     | Inr current \<Rightarrow>
                         if current \<noteq> stored then (True, ''indexed source no longer matches the working tree'')
                         else (False, ''index is current'')))))"

definition IsStale :: "unidata \<Rightarrow> sql_env \<Rightarrow> hash_env \<Rightarrow> tables result \<Rightarrow> string \<Rightarrow> string \<Rightarrow> bool" where
  "IsStale U Q H opened dbPath repoPath = fst (StaleReason U Q H opened dbPath repoPath)"

record health_info =
  hi_IndexedAt :: string
  hi_RepoPath :: string
  hi_GitHead :: string
  hi_IndexedVia :: string
  hi_Stale :: bool
  hi_PackageCount :: int
  hi_SymbolCount :: int

text \<open>\<^verbatim>\<open>strconv.Atoi\<close>: the number, or its error; \<open>order\<close> is the order in which the engine returns the rows.\<close>

definition atoi_r :: "unidata \<Rightarrow> string \<Rightarrow> int result" where
  "atoi_r U v = (case atoi v of
      Some n \<Rightarrow> Inr n
    | None \<Rightarrow>
        let ds = (if has_prefix v ''-'' \<or> has_prefix v ''+'' then tl v else v) in
          Inl (''strconv.Atoi: parsing '' @ go_quote U v @ '': ''
            @ (if ds = [] \<or> \<not> list_all is_digit ds then ''invalid syntax'' else ''value out of range'')))"

definition health_row :: "unidata \<Rightarrow> string \<times> string \<Rightarrow> health_info \<Rightarrow> health_info result" where
  "health_row U = (\<lambda>(k, v) h.
     if k = ''indexed_at'' then Inr (h\<lparr>hi_IndexedAt := v\<rparr>)
     else if k = ''repo_path'' then Inr (h\<lparr>hi_RepoPath := v\<rparr>)
     else if k = ''git_head'' then Inr (h\<lparr>hi_GitHead := v\<rparr>)
     else if k = ''package_count'' then
       (case atoi_r U v of Inl e \<Rightarrow> Inl (''health: package_count '' @ go_quote U v @ '': '' @ e) | Inr n \<Rightarrow> Inr (h\<lparr>hi_PackageCount := n\<rparr>))
     else if k = ''symbol_count'' then
       (case atoi_r U v of Inl e \<Rightarrow> Inl (''health: symbol_count '' @ go_quote U v @ '': '' @ e) | Inr n \<Rightarrow> Inr (h\<lparr>hi_SymbolCount := n\<rparr>))
     else if k = ''indexed_via'' then Inr (h\<lparr>hi_IndexedVia := v\<rparr>)
     else Inr h)"

fun health_rows :: "unidata \<Rightarrow> (string \<times> string) list \<Rightarrow> health_info \<Rightarrow> health_info result" where
  "health_rows U [] h = Inr h"
| "health_rows U (r # rs) h = (case health_row U r h of Inl e \<Rightarrow> Inl e | Inr h' \<Rightarrow> health_rows U rs h')"

definition Health :: "unidata \<Rightarrow> sql_env \<Rightarrow> hash_env \<Rightarrow> tables \<Rightarrow> health_info result" where
  "Health U Q H T =
     (case select Q ''SELECT key, value FROM meta WHERE key IN'' [] (\<lambda>T. health_rows U (tb_meta T)
         \<lparr>hi_IndexedAt = [], hi_RepoPath = [], hi_GitHead = [], hi_IndexedVia = [], hi_Stale = False, hi_PackageCount = 0,
          hi_SymbolCount = 0\<rparr>) T of
        Inl e \<Rightarrow> Inl e
      | Inr h \<Rightarrow> Inr (if hi_RepoPath h \<noteq> [] then h\<lparr>hi_Stale := sourceStale Q H T [] (hi_RepoPath h)\<rparr> else h))"

section \<open>Contract rows\<close>

definition ContractAnalysisTime :: "sql_env \<Rightarrow> tables \<Rightarrow> int option result" where
  "ContractAnalysisTime Q T =
     (case get_meta Q ''contract_indexed_at'' T of
        Inl e \<Rightarrow> Inr None
      | Inr None \<Rightarrow> Inr None
      | Inr (Some v) \<Rightarrow> if v = [] then Inr None else map_sum id Some (sq_parseTime Q v))"

definition SetContractAnalysisTime :: "sql_env \<Rightarrow> int \<Rightarrow> tables op" where
  "SetContractAnalysisTime Q t = withTx Q (setContractAnalysisTimeInTx Q t)"

definition IsContractStale :: "unidata \<Rightarrow> sql_env \<Rightarrow> tables \<Rightarrow> string \<Rightarrow> bool result" where
  "IsContractStale U Q T modulePath =
     (case RepoIndexedAt U Q T modulePath of
        Inl e \<Rightarrow> Inl e
      | Inr None \<Rightarrow> Inr True
      | Inr (Some repoIndexedAt) \<Rightarrow>
          (case ContractAnalysisTime Q T of
             Inl e \<Rightarrow> Inl e
           | Inr None \<Rightarrow> Inr True
           | Inr (Some contractTime) \<Rightarrow> Inr (contractTime < repoIndexedAt)))"

definition SuppressContracts :: "sql_env \<Rightarrow> string \<Rightarrow> string \<Rightarrow> tables op" where
  "SuppressContracts Q fromRef toRef =
     autocommit Q ''INSERT OR IGNORE INTO contract_suppressions'' fromRef (\<lambda>T.
       if (fromRef, toRef) \<in> set (tb_suppressions T) then T else T\<lparr>tb_suppressions := tb_suppressions T @ [(fromRef, toRef)]\<rparr>)"

definition ContractSuppressions :: "sql_env \<Rightarrow> tables \<Rightarrow> (string \<times> string) list result" where
  "ContractSuppressions Q = select Q ''SELECT from_ref, to_ref FROM contract_suppressions'' [] (\<lambda>T. Inr (tb_suppressions T))"

definition suppressed :: "tables \<Rightarrow> string \<Rightarrow> string \<Rightarrow> bool" where
  "suppressed T a b \<longleftrightarrow> (a, b) \<in> set (tb_suppressions T) \<or> (b, a) \<in> set (tb_suppressions T)"

record contract_filter =
  cf_Suggested :: "bool option"
  cf_Repo :: string
  cf_Direction :: string
  cf_Severity :: string
  cf_MinConfidence :: f64

definition severity_string :: "severity \<Rightarrow> string" where
  "severity_string v = (case v of Compatible \<Rightarrow> ''compatible'' | Breaking \<Rightarrow> ''breaking'' | Unknown \<Rightarrow> ''unknown'')"

definition contract_matches :: "tables \<Rightarrow> contract_filter \<Rightarrow> contract_entry \<Rightarrow> bool" where
  "contract_matches T f c \<longleftrightarrow>
     (cf_Repo f \<noteq> [] \<longrightarrow> module_of T (ce_repo_id c) = Some (cf_Repo f))
     \<and> (cf_Direction f \<noteq> [] \<longrightarrow> direction_string (ce_direction c) = cf_Direction f)
     \<and> (cf_Severity f \<noteq> [] \<longrightarrow> severity_string (ce_severity c) = cf_Severity f)
     \<and> (0 < cf_MinConfidence f \<longrightarrow> cf_MinConfidence f \<le> ce_confidence c)
     \<and> (case cf_Suggested f of None \<Rightarrow> True | Some b \<Rightarrow> ce_suggested c = b)
     \<and> \<not> suppressed T (ce_from_ref c) (ce_to_ref c)"

definition QueryContracts :: "sql_env \<Rightarrow> tables \<Rightarrow> contract_filter \<Rightarrow> (contract_entry \<times> string) list result" where
  "QueryContracts Q T f = select Q ''SELECT contracts LEFT JOIN repos'' [] (\<lambda>T.
     Inr (map (\<lambda>c. (c, owner_module T (ce_repo_id c)))
       (sort_by (then_by_desc ce_confidence (by_key ce_from_ref)) (filter (contract_matches T f) (tb_contracts T))))) T"

definition QueryRuntimeContracts :: "sql_env \<Rightarrow> tables \<Rightarrow> string \<Rightarrow> string \<Rightarrow> (runtime_entry \<times> string) list result" where
  "QueryRuntimeContracts Q T kind repo = select Q ''SELECT runtime_contracts LEFT JOIN repos'' [] (\<lambda>T.
     Inr (map (\<lambda>c. (c, owner_module T (te_repo_id c)))
       (sort_by (then_by te_kind (by_key te_pattern)) (filter (\<lambda>c. (kind \<noteq> [] \<longrightarrow> te_kind c = kind)
          \<and> (repo \<noteq> [] \<longrightarrow> module_of T (te_repo_id c) = Some repo)) (tb_runtime T))))) T"

text \<open>\<open>decode\<close> reads the JSON of the field list back.\<close>

definition QueryDrift :: "sql_env \<Rightarrow> (string \<Rightarrow> drift_field list result) \<Rightarrow> tables \<Rightarrow> string \<Rightarrow> string
    \<Rightarrow> (drift_entry \<times> drift_field list \<times> string) list result" where
  "QueryDrift Q decode T severity repo =
     (case select Q ''SELECT drift LEFT JOIN repos'' [] (\<lambda>T. Inr
         (sort_by (then_by (\<lambda>d. severity_string (dt_severity d)) (by_key dt_from_ref))
           (filter (\<lambda>d. (severity \<noteq> [] \<longrightarrow> severity_string (dt_severity d) = severity)
              \<and> (repo \<noteq> [] \<longrightarrow> module_of T (dt_repo_id d) = Some repo) \<and> \<not> suppressed T (dt_from_ref d) (dt_to_ref d)) (tb_drift T)))) T of
        Inl e \<Rightarrow> Inl e
      | Inr ds \<Rightarrow> each_r (\<lambda>d.
          if dt_fields_json d = [] then Inr (d, [], owner_module T (dt_repo_id d))
          else case decode (dt_fields_json d) of Inl e \<Rightarrow> Inl e | Inr fs \<Rightarrow> Inr (d, fs, owner_module T (dt_repo_id d))) ds)"

section \<open>Small queries\<close>

definition Counts :: "sql_env \<Rightarrow> tables \<Rightarrow> (nat \<times> nat \<times> nat) result" where
  "Counts Q = select Q ''SELECT COUNT(*)'' [] (\<lambda>T.
     Inr (length (tb_packages T), length (tb_symbols T), length (tb_edges T)))"

record diagnostic =
  dx_File :: string
  dx_Message :: string
  dx_Repo :: string
  dx_Line :: int
  dx_Col :: int

definition Diagnostics :: "sql_env \<Rightarrow> tables \<Rightarrow> string \<Rightarrow> diagnostic list result" where
  "Diagnostics Q T file = select Q ''SELECT diagnostics LEFT JOIN repos'' [] (\<lambda>T.
     Inr (filter (\<lambda>d. file = [] \<or> has_suffix (dx_File d) file)
       (map (\<lambda>d. \<lparr>dx_File = de_file d, dx_Message = de_message d, dx_Repo = owner_module T (de_repo_id d), dx_Line = de_line d,
                   dx_Col = de_col d\<rparr>)
         (sort_by (then_by de_file (then_by de_line (by_key de_col))) (tb_diagnostics T))))) T"

record package_view =
  pv_entry :: package_entry
  pv_Repo :: string
  pv_SymCount :: nat

definition ListPackages :: "sql_env \<Rightarrow> tables \<Rightarrow> package_view list result" where
  "ListPackages Q T = select Q ''SELECT packages LEFT JOIN symbols LEFT JOIN repos'' [] (\<lambda>T.
     Inr (map (\<lambda>p. \<lparr>pv_entry = p, pv_Repo = owner_module T (pe_repo_id p),
                 pv_SymCount = length (filter (\<lambda>r. se_package_id r = pe_id p) (tb_symbols T))\<rparr>)
            (sort_by (by_key pe_path) (tb_packages T)))) T"

end
