(* ===== verification/Index_Proofs.thy ===== *)
theory Index_Proofs
  imports Index_Frames Index_Files Store_Meta
begin

text \<open>
  The invariants of the database: keys stay unique through every statement, the full-text indexes equal what a rebuild
  would give after every call that succeeds or fails, and what the file table holds after a write. The interpretations
  show that the statements of the model respect the frames of \<open>Index_Frames\<close>.
\<close>

section \<open>Keys\<close>

text \<open>The unique indexes and primary keys, table by table.\<close>

definition repos_ok :: "repo_entry list \<Rightarrow> bool" where
  "repos_ok rs \<longleftrightarrow> distinct (map re_module_path rs) \<and> distinct (map re_id rs) \<and> (\<forall>r\<in>set rs. 0 < re_id r)"

definition packages_ok :: "package_entry list \<Rightarrow> bool" where
  "packages_ok ps \<longleftrightarrow> distinct (map pe_path ps) \<and> distinct (map pe_id ps) \<and> (\<forall>p\<in>set ps. 0 < pe_id p)"

definition symbols_ok :: "symbol_entry list \<Rightarrow> bool" where
  "symbols_ok ss \<longleftrightarrow> distinct (map decl_key ss) \<and> distinct (map se_id ss)"

definition edges_ok :: "edge_entry list \<Rightarrow> bool" where
  "edges_ok es \<longleftrightarrow> distinct (map edge_key es)"

definition files_ok :: "file_entry list \<Rightarrow> bool" where
  "files_ok fs \<longleftrightarrow> distinct (map fe_path fs) \<and> distinct (map fe_rowid fs)"

definition tables_keys :: "tables \<Rightarrow> bool" where
  "tables_keys T \<longleftrightarrow> repos_ok (tb_repos T) \<and> packages_ok (tb_packages T) \<and> symbols_ok (tb_symbols T)
     \<and> edges_ok (tb_edges T) \<and> files_ok (tb_files T) \<and> gm_wf (tb_meta T)"

lemma next_id_fresh: "next_id ids \<notin> set ids"
  using next_id_above [of "next_id ids" ids] by blast

lemma rows_ok_filter:
  "repos_ok rs \<Longrightarrow> repos_ok (filter P rs)" "packages_ok ps \<Longrightarrow> packages_ok (filter Q ps)"
  "symbols_ok ss \<Longrightarrow> symbols_ok (filter S ss)" "edges_ok es \<Longrightarrow> edges_ok (filter E es)" "files_ok fs \<Longrightarrow> files_ok (filter F fs)"
  by (auto simp: repos_ok_def packages_ok_def symbols_ok_def edges_ok_def files_ok_def distinct_map_filter)

text \<open>An update that keeps the keys of every row keeps them distinct.\<close>

lemma repos_ok_map: "(\<And>r. re_id (f r) = re_id r \<and> re_module_path (f r) = re_module_path r) \<Longrightarrow> repos_ok (map f rs) = repos_ok rs"
  by (simp add: repos_ok_def comp_def)

lemma packages_ok_map: "(\<And>r. pe_id (f r) = pe_id r \<and> pe_path (f r) = pe_path r) \<Longrightarrow> packages_ok (map f rs) = packages_ok rs"
  by (simp add: packages_ok_def comp_def)

lemma symbols_ok_map: "(\<And>r. se_id (f r) = se_id r \<and> decl_key (f r) = decl_key r) \<Longrightarrow> symbols_ok (map f rs) = symbols_ok rs"
  by (simp add: symbols_ok_def comp_def)

lemma edges_ok_map: "(\<And>r. edge_key (f r) = edge_key r) \<Longrightarrow> edges_ok (map f rs) = edges_ok rs"
  by (simp add: edges_ok_def comp_def)

lemma files_ok_map: "(\<And>r. fe_rowid (f r) = fe_rowid r \<and> fe_path (f r) = fe_path r) \<Longrightarrow> files_ok (map f rs) = files_ok rs"
  by (simp add: files_ok_def comp_def)

lemma keys_package: "tables_keys T \<Longrightarrow> tables_keys (upsert_package p repo T)"
proof (cases "\<exists>q\<in>set (tb_packages T). pe_path q = pi_ImportPath p")
  case False
  then show "tables_keys T \<Longrightarrow> ?thesis"
    using next_id_fresh [of "map pe_id (tb_packages T)"] next_id_pos [of "map pe_id (tb_packages T)"]
    by (auto simp: tables_keys_def upsert_package_def packages_ok_def)
qed (simp add: tables_keys_def upsert_package_def packages_ok_map)

lemma keys_symbol: "tables_keys T \<Longrightarrow> tables_keys (insert_symbol d pid repo js T)"
  using next_id_fresh [of "map se_id (tb_symbols T)"]
  by (auto simp: tables_keys_def insert_symbol_def symbols_ok_def decl_key_def)

lemma edges_ok_upsert: "edges_ok (tb_edges T) \<Longrightarrow> edges_ok (tb_edges (upsert_edge unite e repo T))"
proof (cases "\<exists>r\<in>set (tb_edges T). edge_key r = (coalesce0 repo, xe_FromRef e, xe_ToRef e, xe_EdgeType e)")
  case True
  have "edge_key (if P r then r\<lparr>ee_sites := f r\<rparr> else r) = edge_key r" for P f r by (simp add: edge_key_def)
  then have "edges_ok (map (\<lambda>r. if P r then r\<lparr>ee_sites := f r\<rparr> else r) es) = edges_ok es" for P f es by (rule edges_ok_map)
  with True show "edges_ok (tb_edges T) \<Longrightarrow> ?thesis" by (simp add: upsert_edge_def)
next
  case False
  then have "(coalesce0 repo, xe_FromRef e, xe_ToRef e, xe_EdgeType e) \<notin> edge_key ` set (tb_edges T)" by (metis imageE)
  with False show "edges_ok (tb_edges T) \<Longrightarrow> ?thesis"
    by (simp add: upsert_edge_def edges_ok_def) (simp add: edge_key_def [abs_def])
qed

lemma keys_edge: "tables_keys T \<Longrightarrow> tables_keys (upsert_edge unite e repo T)"
  using edges_ok_upsert [of T unite e repo] by (simp add: tables_keys_def upsert_edge_def Let_def split: if_splits)

lemma keys_file: "tables_keys T \<Longrightarrow> tables_keys (upsert_file p c repo T)"
proof (cases "\<exists>r\<in>set (tb_files T). fe_path r = p")
  case False
  then show "tables_keys T \<Longrightarrow> ?thesis"
    using next_id_fresh [of "map fe_rowid (tb_files T)"]
    by (auto simp: tables_keys_def upsert_file_def files_ok_def)
qed (simp add: tables_keys_def upsert_file_def files_ok_map)

lemma keys_member:
  "tables_keys T \<Longrightarrow> \<forall>r\<in>set (tb_repos T). re_module_path r \<noteq> m \<Longrightarrow>
   tables_keys (T\<lparr>tb_repos := tb_repos T @ [\<lparr>re_id = next_id (map re_id (tb_repos T)), re_module_path = m, re_dir = d,
     re_missing = b, re_indexed_at = a\<rparr>]\<rparr>)"
  using next_id_fresh [of "map re_id (tb_repos T)"] next_id_pos [of "map re_id (tb_repos T)"]
  by (auto simp: tables_keys_def repos_ok_def)

lemma keys_member_update:
  "tables_keys T \<Longrightarrow> (\<And>r. re_id (f r) = re_id r \<and> re_module_path (f r) = re_module_path r) \<Longrightarrow>
   tables_keys (T\<lparr>tb_repos := map f (tb_repos T)\<rparr>)"
  by (simp add: tables_keys_def repos_ok_map)

lemma keys_churn: "tables_keys T \<Longrightarrow> tables_keys (set_churn churn T)"
proof -
  have "tables_keys (set_churn churn T) = tables_keys T"
    unfolding tables_keys_def set_churn_def
    by (simp, subst symbols_ok_map) (auto simp: decl_key_def split: option.splits)
  then show "tables_keys T \<Longrightarrow> tables_keys (set_churn churn T)" by simp
qed

lemma keys_other_tables [simp]:
  "tables_keys (T\<lparr>tb_contracts := a\<rparr>) = tables_keys T" "tables_keys (T\<lparr>tb_runtime := b\<rparr>) = tables_keys T"
  "tables_keys (T\<lparr>tb_drift := c\<rparr>) = tables_keys T" "tables_keys (T\<lparr>tb_diagnostics := d\<rparr>) = tables_keys T"
  "tables_keys (T\<lparr>tb_symbols_fts := e\<rparr>) = tables_keys T" "tables_keys (T\<lparr>tb_content_fts := f\<rparr>) = tables_keys T"
  "tables_keys (T\<lparr>tb_chunks := g\<rparr>) = tables_keys T" "tables_keys (T\<lparr>tb_suppressions := h\<rparr>) = tables_keys T"
  by (simp_all add: tables_keys_def)

lemma keys_diagnostic [simp]: "tables_keys (insert_diagnostic d repo T) = tables_keys T"
  by (simp add: insert_diagnostic_def)

lemma keys_meta [simp]: "tables_keys T \<Longrightarrow> tables_keys (put_meta k v T)"
  by (simp add: put_meta_def tables_keys_def)

lemma keys_filtered:
  "tables_keys T \<Longrightarrow> tables_keys (T\<lparr>tb_edges := filter P (tb_edges T)\<rparr>)"
  "tables_keys T \<Longrightarrow> tables_keys (T\<lparr>tb_symbols := filter Q (tb_symbols T)\<rparr>)"
  "tables_keys T \<Longrightarrow> tables_keys (T\<lparr>tb_packages := filter S (tb_packages T)\<rparr>)"
  "tables_keys T \<Longrightarrow> tables_keys (T\<lparr>tb_files := filter F (tb_files T)\<rparr>)"
  by (simp_all add: tables_keys_def rows_ok_filter)

interpretation keys: write_frame "\<lambda>T T'. tables_keys T \<longrightarrow> tables_keys T'" UNIV UNIV scope UNIV for scope
  by unfold_locales (simp_all add: keys_filtered keys_package keys_symbol keys_edge keys_file keys_member keys_churn
      keys_member_update delete_not_in_def)

section \<open>The full-text indexes follow the tables\<close>

definition symbols_fresh :: "tables \<Rightarrow> bool" where
  "symbols_fresh T \<longleftrightarrow> tb_symbols_fts T = map fts_symbol (tb_symbols T)"

definition content_fresh :: "tables \<Rightarrow> bool" where
  "content_fresh T \<longleftrightarrow> tb_content_fts T = map fts_file (tb_files T)"

definition content_view :: "tables \<Rightarrow> file_entry list \<times> (int \<times> string \<times> string) list" where
  "content_view T = (tb_files T, tb_content_fts T)"

definition indexed_view :: "tables \<Rightarrow> symbol_entry list \<times> (int \<times> string list) list \<times> file_entry list \<times> (int \<times> string \<times> string) list" where
  "indexed_view T = (tb_symbols T, tb_symbols_fts T, tb_files T, tb_content_fts T)"

lemma fresh_view:
  "indexed_view T' = indexed_view T \<Longrightarrow> symbols_fresh T' = symbols_fresh T \<and> content_fresh T' = content_fresh T"
  "content_view T' = content_view T \<Longrightarrow> content_fresh T' = content_fresh T"
  by (simp_all add: indexed_view_def content_view_def symbols_fresh_def content_fresh_def)

interpretation content: row_frame "\<lambda>T T'. content_view T' = content_view T" UNIV
  by unfold_locales (simp_all add: content_view_def upsert_package_def insert_symbol_def upsert_edge_def
      insert_diagnostic_def set_churn_def Let_def)

interpretation content: register_frame "\<lambda>T T'. content_view T' = content_view T" UNIV
  by unfold_locales (simp_all add: content_view_def)

interpretation unindexed: contract_frame "\<lambda>T T'. indexed_view T' = indexed_view T"
  by unfold_locales (simp_all add: indexed_view_def put_meta_def)

interpretation keys: contract_frame "\<lambda>T T'. tables_keys T \<longrightarrow> tables_keys T'"
  by unfold_locales simp_all

lemma completeIndexWrite_view: "completeIndexWrite Q T = Inr (u, T') \<Longrightarrow> indexed_view T' = indexed_view T"
  by (auto simp: completeIndexWrite_def deleteResponseChunksTx_def setGeneratedProvenanceTx_def setAnalyzerVersionTx_def
      insert_meta_def tx_simps indexed_view_def put_meta_def split: option.splits sum.splits)

text \<open>The end of a write: both indexes are rebuilt, the one of the contents only when a file row changed.\<close>

lemma rebuild_fresh:
  assumes "writeFiles Q fs rf scope T = Inr (d, T1)" "gm_wf fs"
    and "T2 = T1\<lparr>tb_symbols_fts := map fts_symbol (tb_symbols T1)\<rparr>"
    and "(if d then populateFileContentFTS Q else yields ()) T2 = Inr (u, T3)"
    and "completeIndexWrite Q T3 = Inr (w, T')"
  shows "symbols_fresh T' \<and> (content_fresh T \<longrightarrow> content_fresh T')"
proof -
  have "tb_content_fts (upsert_files rf fs T) = tb_content_fts T"
    by (induction fs arbitrary: T) (auto simp: upsert_files_def upsert_file_def)
  then have c: "tb_content_fts T1 = tb_content_fts T" using writeFiles_result(1) [OF assms(1,2)] by simp
  from writeFiles_result(2) [OF assms(1,2)] have "d \<or> T1 = T" .
  then have d: "content_fresh T \<longrightarrow> d \<or> content_fresh T1" by auto
  from assms(4) have "symbols_fresh T3 \<and> (content_fresh T \<longrightarrow> content_fresh T3)"
    using d by (auto simp: assms(3) symbols_fresh_def content_fresh_def populateFileContentFTS_def tx_simps
        split: if_splits option.splits)
  with fresh_view(1) [OF completeIndexWrite_view [OF assms(5)]] show ?thesis by simp
qed

text \<open>A full write that succeeds, step by step.\<close>

lemma writeTx_parts:
  assumes "writeTx Q result fs churn repos workspace T = Inr (u, T')"
  obtains m T1 T2 T3 T4 d T5 T6 T7 where
    "registerRepos Q repos workspace T = Inr (m, T1)"
    "(if workspace then yields () else clearSingleRepoRows Q) T1 = Inr ((), T2)"
    "index_rows Q result m T2 = Inr ((), T3)"
    "writeDeferredRows Q result churn (if workspace then Some (buildRepoIDFor repos m) else None) T3 = Inr ((), T4)"
    "writeFiles Q fs (if workspace then Some (buildRepoIDFor repos m) else None) \<lparr>fs_repoID = 0\<rparr> T4 = Inr (d, T5)"
    "T6 = T5\<lparr>tb_symbols_fts := map fts_symbol (tb_symbols T5)\<rparr>"
    "(if d then populateFileContentFTS Q else yields ()) T6 = Inr ((), T7)"
    "completeIndexWrite Q T7 = Inr ((), T')"
    "content_view T4 = content_view T"
proof -
  from assms obtain m T1 T2 T3 T4 d T5 T6 T7 where
    1: "registerRepos Q repos workspace T = Inr (m, T1)"
    and 2: "(if workspace then yields () else clearSingleRepoRows Q) T1 = Inr ((), T2)"
    and 3: "index_rows Q result m T2 = Inr ((), T3)"
    and 4: "writeDeferredRows Q result churn (if workspace then Some (buildRepoIDFor repos m) else None) T3 = Inr ((), T4)"
    and 5: "writeFiles Q fs (if workspace then Some (buildRepoIDFor repos m) else None) \<lparr>fs_repoID = 0\<rparr> T4 = Inr (d, T5)"
    and 6: "T6 = T5\<lparr>tb_symbols_fts := map fts_symbol (tb_symbols T5)\<rparr>"
    and 7: "(if d then populateFileContentFTS Q else yields ()) T6 = Inr ((), T7)"
    and 8: "completeIndexWrite Q T7 = Inr ((), T')"
    by (simp add: writeTx_def Let_def tx_simps(2,3) maybeFail_def populateFTS_def exec_def split: option.splits sum.splits prod.splits)
  from content.obeysD [OF content.obeys_registerRepos 1] content.obeysD [OF content.obeys_cleared 2]
    content.obeysD [OF content.obeys_index_rows 3] content.obeysD [OF content.obeys_writeDeferredRows 4]
  have "content_view T4 = content_view T" by simp
  with 1 2 3 4 5 6 7 8 show ?thesis by (rule that)
qed

lemma writeTx_fresh:
  assumes "writeTx Q result fs churn repos workspace T = Inr (u, T')" "gm_wf fs"
  shows "symbols_fresh T' \<and> (content_fresh T \<longrightarrow> content_fresh T')"
  using assms(1)
proof (cases rule: writeTx_parts)
  case (1 m T1 T2 T3 T4 d T5 T6 T7)
  from rebuild_fresh [OF 1(5) assms(2) 1(6,7,8)] fresh_view(2) [OF 1(9)] show ?thesis by simp
qed

lemma replaceTx_fresh:
  assumes "replaceTx Q result fs churn m i T = Inr (u, T')" "gm_wf fs"
  shows "symbols_fresh T' \<and> (content_fresh T \<longrightarrow> content_fresh T')"
proof -
  from assms(1) obtain T2 T3 T4 d T5 T6 T7 where
    2: "deleteRepoRows Q i T = Inr ((), T2)"
    and 3: "writeRepoRows Q result [(m, i)] churn T2 = Inr ((), T3)"
    and 4: "writeDiagnostics Q (ir_Diagnostics result) (Some (\<lambda>_. i)) T3 = Inr ((), T4)"
    and 5: "writeFiles Q fs (Some (\<lambda>_. i)) \<lparr>fs_repoID = i\<rparr> T4 = Inr (d, T5)"
    and 6: "T6 = T5\<lparr>tb_symbols_fts := map fts_symbol (tb_symbols T5)\<rparr>"
    and 7: "(if d then populateFileContentFTS Q else yields ()) T6 = Inr ((), T7)"
    and 8: "completeIndexWrite Q T7 = Inr (u, T')"
    by (simp add: replaceTx_def tx_simps(2,3) populateFTS_def exec_def split: option.splits sum.splits prod.splits)
  have "content.obeys (writeRepoRows Q result [(m, i)] churn)"
    unfolding writeRepoRows_def by (intro content.obeys_seq content.obeys_index_rows content.obeys_churn_option) simp
  from content.obeysD [OF content.obeys_deleteRepoRows 2] content.obeysD [OF this 3]
    content.obeysD [OF content.obeys_writeDiagnostics 4]
  have "content_view T4 = content_view T" by simp
  from rebuild_fresh [OF 5 assms(2) 6 7 8] fresh_view(2) [OF this] show ?thesis by simp
qed

section \<open>Every reachable database is consistent\<close>

definition store_ok :: "tables \<Rightarrow> bool" where
  "store_ok T \<longleftrightarrow> tables_keys T \<and> symbols_fresh T \<and> content_fresh T"

text \<open>What a call keeps; the flag says whether the index of the contents can be relied on.\<close>

definition store_sound :: "bool \<Rightarrow> tables \<Rightarrow> bool" where
  "store_sound b T \<longleftrightarrow> tables_keys T \<and> symbols_fresh T \<and> (b \<longrightarrow> content_fresh T)"

lemma store_ok_sound: "store_ok T = store_sound True T"
  by (simp add: store_ok_def store_sound_def)

text \<open>The calls that change these tables and rebuild the indexes, in any environment; a call that fails is a step too.\<close>

inductive store_step :: "tables \<Rightarrow> tables \<Rightarrow> bool" where
  step_Write: "gm_wf fs \<Longrightarrow> store_step T (snd (Write Q r fs churn T))"
| step_WriteWorkspace: "gm_wf fs \<Longrightarrow> store_step T (snd (WriteWorkspace Q r fs churn repos T))"
| step_ReplaceRepo: "gm_wf fs \<Longrightarrow> store_step T (snd (ReplaceRepo Q r fs churn m T))"
| step_EnsureRepo: "store_step T (snd (EnsureRepo Q spec T))"
| step_WriteContractsAll: "store_step T (snd (WriteContractsAll Q rows indexedAt now T))"
| step_SetRepoIndexedAt: "store_step T (snd (SetRepoIndexedAt Q m t T))"
| step_SetRepoMissing: "store_step T (snd (SetRepoMissing Q m b T))"
| step_SuppressContracts: "store_step T (snd (SuppressContracts Q a b T))"
| step_set_meta: "store_step T (snd (set_meta Q k v T))"

inductive store_reachable :: "tables \<Rightarrow> bool" where
  reach_empty: "store_reachable empty_tables"
| reach_step: "store_reachable T \<Longrightarrow> store_step T T' \<Longrightarrow> store_reachable T'"

lemma withTx_ok:
  assumes "store_sound b T" "keys.obeys fn"
    and "\<And>x T'. fn T = Inr (x, T') \<Longrightarrow> symbols_fresh T' \<and> (b \<longrightarrow> content_fresh T')"
  shows "store_sound b (snd (withTx Q fn T))"
proof (cases "withTx Q fn T")
  case (Pair r T')
  show ?thesis
  proof (cases r)
    case (Inl e)
    with Pair withTx_rolls_back [of Q fn T e T'] assms(1) show ?thesis by simp
  next
    case (Inr x)
    with Pair have fn: "fn T = Inr (x, T')" by (simp add: withTx_commits)
    with keys.obeysD [OF assms(2) fn] assms(1,3) Pair show ?thesis by (auto simp: store_sound_def)
  qed
qed

lemma view_ok: "indexed_view T' = indexed_view T \<Longrightarrow> (tables_keys T \<longrightarrow> tables_keys T') \<Longrightarrow> store_sound b T \<Longrightarrow> store_sound b T'"
  using fresh_view(1) [of T' T] by (simp add: store_sound_def)

lemma keys_update_repo: "tables_keys T \<Longrightarrow> (\<And>r. re_id (f r) = re_id r \<and> re_module_path (f r) = re_module_path r)
    \<Longrightarrow> tables_keys (update_repo m f T)"
  unfolding update_repo_def by (rule keys_member_update) auto

lemma store_step_ok: "store_step T T' \<Longrightarrow> store_sound b T \<Longrightarrow> store_sound b T'"
proof (induction rule: store_step.induct)
  case (step_Write fs T Q r churn)
  then show ?case unfolding Write_def write_index_def
    by (intro withTx_ok keys.obeys_writeTx) (auto simp: store_sound_def dest: writeTx_fresh)
next
  case (step_WriteWorkspace fs T Q r churn repos)
  then show ?case unfolding WriteWorkspace_def write_index_def
    by (intro withTx_ok keys.obeys_writeTx) (auto simp: store_sound_def dest: writeTx_fresh)
next
  case (step_ReplaceRepo fs T Q r churn m)
  have "keys.obeys (replaceTx Q r fs churn m i)" for i by (rule keys.obeys_replaceTx) simp_all
  then have "store_sound b (snd (withTx Q (replaceTx Q r fs churn m i) T))" for i
    using step_ReplaceRepo by (intro withTx_ok) (auto simp: store_sound_def dest: replaceTx_fresh)
  with step_ReplaceRepo show ?case by (simp add: ReplaceRepo_def split: sum.splits option.splits)
next
  case (step_EnsureRepo T Q spec)
  have "unindexed.obeys (ensureRepoInTx Q spec)"
    unfolding ensureRepoInTx_def by (intro unindexed.obeys_rules) (simp_all add: indexed_view_def)
  with step_EnsureRepo show ?case unfolding EnsureRepo_def
    by (intro view_ok [OF _ _ step_EnsureRepo] unindexed.withTx_obeys keys.withTx_obeys keys.obeys_ensureRepoInTx)
next
  case (step_WriteContractsAll T Q rows indexedAt now)
  then show ?case by (rule view_ok [OF unindexed.WriteContractsAll_R keys.WriteContractsAll_R])
next
  case (step_SetRepoIndexedAt T Q m t)
  show ?case unfolding SetRepoIndexedAt_def insert_meta_def
    by (rule view_ok [OF unindexed.withTx_obeys keys.withTx_obeys step_SetRepoIndexedAt])
      (intro unindexed.obeys_rules, simp_all add: indexed_view_def update_repo_def put_meta_def,
       intro keys.obeys_rules, simp_all add: keys_update_repo)
next
  case (step_SetRepoMissing T Q m b)
  then show ?case
    by (auto simp: SetRepoMissing_def autocommit_def keys_update_repo split: option.splits
        intro!: view_ok [OF _ _ step_SetRepoMissing]) (simp add: indexed_view_def update_repo_def)
next
  case (step_SuppressContracts T Q a b)
  then show ?case
    by (auto simp: SuppressContracts_def autocommit_def split: option.splits intro!: view_ok [OF _ _ step_SuppressContracts])
      (simp add: indexed_view_def)
next
  case (step_set_meta T Q k v)
  then show ?case
    by (auto simp: set_meta_def autocommit_def split: option.splits intro!: view_ok [OF _ _ step_set_meta])
      (simp add: indexed_view_def put_meta_def)
qed

lemma empty_store_ok: "store_ok empty_tables"
  by (simp add: store_ok_def tables_keys_def repos_ok_def packages_ok_def symbols_ok_def edges_ok_def files_ok_def
      symbols_fresh_def content_fresh_def empty_tables_def)

lemma reachable_ok: "store_reachable T \<Longrightarrow> store_ok T"
  unfolding store_ok_sound
  by (induction rule: store_reachable.induct) (auto intro: empty_store_ok [unfolded store_ok_sound] store_step_ok)

text \<open>
  The remaining calls write files alone and rebuild no index. All calls: the flag is set as long as none of these has been made.
\<close>

inductive store_calls :: "bool \<Rightarrow> tables \<Rightarrow> bool" where
  calls_empty: "store_calls True empty_tables"
| calls_step: "store_calls b T \<Longrightarrow> store_step T T' \<Longrightarrow> store_calls b T'"
| calls_WriteFiles: "store_calls b T \<Longrightarrow> gm_wf fs \<Longrightarrow> store_calls False (snd (WriteFiles Q fs T))"
| calls_WriteFilesRepo: "store_calls b T \<Longrightarrow> gm_wf fs \<Longrightarrow> store_calls False (snd (WriteFilesRepo Q fs repoIDFor T))"

interpretation undeclared: file_frame "\<lambda>T T'. (tb_symbols T', tb_symbols_fts T') = (tb_symbols T, tb_symbols_fts T)" UNIV scope UNIV for scope
  by unfold_locales (simp_all add: upsert_file_def delete_not_in_def Let_def)

lemma WriteFilesRepo_sound: "store_sound b T \<Longrightarrow> store_sound False (snd (WriteFilesRepo Q fs repoIDFor T))"
proof -
  assume T: "store_sound b T"
  let ?tx = "writeFiles Q fs repoIDFor \<lparr>fs_repoID = 0\<rparr>"
  have k: "keys.obeys ?tx" by (rule keys.obeys_writeFiles) simp_all
  have u: "undeclared.obeys ?tx" by (rule undeclared.obeys_writeFiles) simp_all
  have "store_sound False (snd (withTx Q ?tx T))"
  proof (rule withTx_ok [OF _ k])
    show "store_sound False T" using T by (simp add: store_sound_def)
    fix x T' assume "?tx T = Inr (x, T')"
    from undeclared.obeysD [OF u this] T show "symbols_fresh T' \<and> (False \<longrightarrow> content_fresh T')"
      by (simp add: store_sound_def symbols_fresh_def)
  qed
  then show ?thesis by (cases "withTx Q ?tx T") (simp add: WriteFilesRepo_def)
qed

lemma calls_sound: "store_calls b T \<Longrightarrow> store_sound b T"
  by (induction rule: store_calls.induct)
    (auto simp: empty_store_ok [unfolded store_ok_sound] WriteFiles_def intro: store_step_ok WriteFilesRepo_sound)

lemma reachable_calls: "store_reachable T \<Longrightarrow> store_calls True T"
  by (induction rule: store_reachable.induct) (auto intro: store_calls.intros)

section \<open>Contents\<close>

definition content_of :: "file_entry list \<Rightarrow> string \<Rightarrow> string option" where
  "content_of rows = map_of (map (\<lambda>r. (fe_path r, fe_content r)) rows)"

lemma content_of_find: "content_of rows p = map_option fe_content (find (\<lambda>r. fe_path r = p) rows)"
  by (induction rows) (auto simp: content_of_def)

lemma FileContent_run:
  "sq_fault Q = (\<lambda>_ _. None) \<Longrightarrow>
     FileContent Q T p = (case content_of (tb_files T) p of None \<Rightarrow> Inl errNoRows | Some c \<Rightarrow> Inr c)"
  by (auto simp: FileContent_def select_def content_of_find split: option.splits)

lemma content_of_simps [simp]:
  "content_of [] q = None"
  "content_of (r # rows) q = (if fe_path r = q then Some (fe_content r) else content_of rows q)"
  by (auto simp: content_of_def)

lemma content_of_None: "content_of rows p = None \<longleftrightarrow> (\<forall>r\<in>set rows. fe_path r \<noteq> p)"
  by (induction rows) auto

lemma content_of_append:
  "content_of (rows @ [r]) q = (case content_of rows q of None \<Rightarrow> if q = fe_path r then Some (fe_content r) else None | Some c \<Rightarrow> Some c)"
  by (induction rows) auto

lemma content_of_update:
  "content_of (map (\<lambda>r. if fe_path r = p then r\<lparr>fe_content := c, fe_repo_id := repo\<rparr> else r) rows) q
     = (if q = p \<and> content_of rows p \<noteq> None then Some c else content_of rows q)"
  by (induction rows) auto

lemma content_of_upsert: "content_of (tb_files (upsert_file p c repo T)) = (content_of (tb_files T))(p \<mapsto> c)"
proof -
  have same: "\<not> file_changes p c repo T \<Longrightarrow> content_of (tb_files T) p = Some c"
    by (auto simp: file_changes_def content_of_find split: option.splits)
  show ?thesis
  proof (cases "file_changes p c repo T")
    case False
    then show ?thesis using same by (simp add: upsert_file_def fun_upd_idem)
  next
    case True
    show ?thesis
    proof (cases "\<exists>r\<in>set (tb_files T). fe_path r = p")
      case False
      then have "content_of (tb_files T) p = None" by (simp add: content_of_None)
      with False \<open>file_changes p c repo T\<close> show ?thesis
        by (auto simp: upsert_file_def content_of_append fun_eq_iff split: option.splits)
    next
      case present: True
      then have "content_of (tb_files T) p \<noteq> None" by (simp add: content_of_None)
      with present True show ?thesis by (simp add: upsert_file_def content_of_update fun_eq_iff)
    qed
  qed
qed

lemma content_of_upserts: "gm_wf fs \<Longrightarrow> content_of (tb_files (upsert_files rf fs T)) = content_of (tb_files T) ++ map_of fs"
proof (induction fs arbitrary: T)
  case Nil
  then show ?case by (simp add: upsert_files_def)
next
  case (Cons f fs)
  obtain p c where f: "f = (p, c)" by force
  with Cons.prems have p: "p \<notin> fst ` set fs" "gm_wf fs" by (auto simp: gm_wf_def)
  then have "map_of fs p = None" by (simp add: map_of_eq_None_iff)
  with Cons.IH [OF p(2), of "upsert_file p c (repo_of rf p) T"] show ?case
    by (auto simp: upsert_files_def f content_of_upsert map_add_def fun_eq_iff split: option.splits)
qed

lemma content_of_filter:
  "content_of (filter (\<lambda>r. fe_path r \<in> S) rows) = (\<lambda>p. if p \<in> S then content_of rows p else None)"
  by (induction rows) (auto simp: fun_eq_iff)

text \<open>The file table after a full write: the files of the write when they fit into one batch, empty otherwise.\<close>

lemma writeFiles_owns_all:
  assumes "writeFiles Q fs rf \<lparr>fs_repoID = 0\<rparr> T = Inr (d, T')" "gm_wf fs" "fs \<noteq> []"
  shows "length fs \<le> edgesInBatchSize \<Longrightarrow> content_of (tb_files T') = map_of fs"
    and "edgesInBatchSize < length fs \<Longrightarrow> tb_files T' = []"
proof -
  let ?S = "fst ` set fs"
  have all: "in_scope \<lparr>fs_repoID = 0\<rparr> r" for r by (simp add: in_scope_def)
  note T' = writeFiles_result(1) [OF assms(1,2)]
  { assume "length fs \<le> edgesInBatchSize"
    then have "kept_files \<lparr>fs_repoID = 0\<rparr> fs = (\<lambda>r. fe_path r \<in> ?S)"
      using assms(3) all by (auto simp: kept_files_def fun_eq_iff)
    then have "content_of (tb_files T') = (\<lambda>p. if p \<in> ?S then (content_of (tb_files T) ++ map_of fs) p else None)"
      using T' by (simp add: content_of_filter content_of_upserts [OF assms(2)] cong: if_cong)
    also have "\<dots> = map_of fs"
    proof
      fix p show "(if p \<in> ?S then (content_of (tb_files T) ++ map_of fs) p else None) = map_of fs p"
        using map_of_eq_None_iff [of fs p] by (auto simp: map_add_def split: option.splits)
    qed
    finally show "content_of (tb_files T') = map_of fs" . }
  { assume "edgesInBatchSize < length fs"
    then have "kept_files \<lparr>fs_repoID = 0\<rparr> fs = (\<lambda>r. False)"
      using assms(3) all by (auto simp: kept_files_def fun_eq_iff)
    then show "tb_files T' = []" using T' by simp }
qed

lemma write_index_files:
  assumes "write_index Q r fs churn repos workspace T = (Inr (), T')"
  shows "\<exists>rf T1 d T2. writeFiles Q fs rf \<lparr>fs_repoID = 0\<rparr> T1 = Inr (d, T2) \<and> tb_files T1 = tb_files T \<and> tb_files T' = tb_files T2"
proof -
  have "writeTx Q r fs churn repos workspace T = Inr ((), T')"
    using assms unfolding write_index_def by (rule withTx_commits)
  then show ?thesis
  proof (cases rule: writeTx_parts)
    case (1 m T1 T2 T3 T4 d T5 T6 T7)
    have "tb_files T' = tb_files T5"
      using 1(7) completeIndexWrite_view [OF 1(8)]
      by (auto simp: 1(6) indexed_view_def populateFileContentFTS_def tx_simps split: if_splits option.splits)
    with 1(5,9) show ?thesis by (auto simp: content_view_def)
  qed
qed

end
