(* ===== verification/Index_Rows.thy ===== *)
theory Index_Rows
  imports Index_Proofs
begin

text \<open>
  The rows a write leaves: replacing one member touches no row of another and leaves no stale row of its own; every
  declaration of an index that a package owns has its row, with that package; the sites of an edge are those of all its
  occurrences.
\<close>

section \<open>Replacing one member\<close>

text \<open>The rows of the other members; the churn count and the documentation of a package are left out.\<close>

definition of_other :: "int \<Rightarrow> int option \<Rightarrow> bool" where
  "of_other i repo \<longleftrightarrow> coalesce0 repo \<noteq> 0 \<and> coalesce0 repo \<noteq> i"

definition other_rows :: "int \<Rightarrow> string set \<Rightarrow> tables \<Rightarrow> package_entry list \<times> symbol_entry list \<times> edge_entry list
    \<times> diagnostic_entry list \<times> contract_entry list \<times> runtime_entry list \<times> drift_entry list \<times> file_entry list \<times> repo_entry list" where
  "other_rows i paths T =
     (map (\<lambda>p. p\<lparr>pe_doc := []\<rparr>) (filter (\<lambda>p. of_other i (pe_repo_id p)) (tb_packages T)),
      map (\<lambda>s. s\<lparr>se_churn_count := 0\<rparr>) (filter (\<lambda>s. of_other i (se_repo_id s)) (tb_symbols T)),
      filter (\<lambda>e. of_other i (ee_repo_id e)) (tb_edges T),
      filter (\<lambda>d. of_other i (de_repo_id d)) (tb_diagnostics T),
      filter (\<lambda>c. of_other i (ce_repo_id c)) (tb_contracts T),
      filter (\<lambda>c. of_other i (te_repo_id c)) (tb_runtime T),
      filter (\<lambda>d. of_other i (dt_repo_id d)) (tb_drift T),
      filter (\<lambda>f. of_other i (fe_repo_id f) \<and> fe_path f \<notin> paths) (tb_files T),
      tb_repos T)"

lemma of_other_owned [simp]: "\<not> of_other i None" "\<not> of_other i (Some i)"
  by (auto simp: of_other_def coalesce0_def)

lemma filter_map_same:
  "(\<And>x. x \<in> set xs \<Longrightarrow> P (f x) = P x) \<Longrightarrow> (\<And>x. x \<in> set xs \<Longrightarrow> P x \<Longrightarrow> g (f x) = g x) \<Longrightarrow>
   map g (filter P (map f xs)) = map g (filter P xs)"
  by (induction xs) auto

lemma filter_drop_owned: "gone \<subseteq> {None, Some i} \<Longrightarrow> filter (\<lambda>x. f x \<notin> gone \<and> of_other i (f x)) xs = filter (\<lambda>x. of_other i (f x)) xs"
  by (induction xs) auto

lemma other_rows_package: "repo \<in> {None, Some i} \<Longrightarrow> other_rows i S (upsert_package p repo T) = other_rows i S T"
  unfolding other_rows_def upsert_package_def by (auto intro!: filter_map_same split: if_splits)

lemma other_rows_symbol: "repo \<in> {None, Some i} \<Longrightarrow> other_rows i S (insert_symbol d pid repo js T) = other_rows i S T"
  unfolding other_rows_def insert_symbol_def by auto

lemma other_rows_edge:
  assumes "repo \<in> {None, Some i}"
  shows "other_rows i S (upsert_edge unite e repo T) = other_rows i S T"
proof -
  let ?k = "(coalesce0 repo, xe_FromRef e, xe_ToRef e, xe_EdgeType e)"
  have "\<not> of_other i (ee_repo_id r)" if "edge_key r = ?k" for r
    using that assms by (auto simp: edge_key_def of_other_def coalesce0_def split: option.splits)
  then have "filter (\<lambda>r. of_other i (ee_repo_id r)) (map (\<lambda>r. if edge_key r = ?k then r\<lparr>ee_sites := f r\<rparr> else r) es)
      = filter (\<lambda>r. of_other i (ee_repo_id r)) es" for f es
    by (induction es) auto
  with assms show ?thesis unfolding other_rows_def upsert_edge_def Let_def by auto
qed

lemma other_rows_churn: "other_rows i S (set_churn churn T) = other_rows i S T"
  unfolding other_rows_def set_churn_def by (auto intro!: filter_map_same split: option.splits)

lemma other_rows_file: "p \<in> S \<Longrightarrow> repo \<in> {None, Some i} \<Longrightarrow> other_rows i S (upsert_file p c repo T) = other_rows i S T"
proof -
  assume "p \<in> S" "repo \<in> {None, Some i}"
  then have "filter (\<lambda>r. of_other i (fe_repo_id r) \<and> fe_path r \<notin> S)
       (map (\<lambda>r. if fe_path r = p then r\<lparr>fe_content := c, fe_repo_id := repo\<rparr> else r) fs)
      = filter (\<lambda>r. of_other i (fe_repo_id r) \<and> fe_path r \<notin> S) fs" for fs
    by (induction fs) auto
  with \<open>repo \<in> _\<close> \<open>p \<in> S\<close> show ?thesis unfolding other_rows_def upsert_file_def by auto
qed

lemma other_rows_stale: "0 < i \<Longrightarrow> other_rows i S (delete_not_in \<lparr>fs_repoID = i\<rparr> batch T) = other_rows i S T"
proof -
  assume "0 < i"
  then have "filter (\<lambda>r. of_other i (fe_repo_id r) \<and> fe_path r \<notin> S)
       (filter (\<lambda>r. \<not> (fe_path r \<notin> set batch \<and> in_scope \<lparr>fs_repoID = i\<rparr> r)) fs)
      = filter (\<lambda>r. of_other i (fe_repo_id r) \<and> fe_path r \<notin> S) fs" for fs
    by (induction fs) (auto simp: in_scope_def)
  then show ?thesis unfolding other_rows_def delete_not_in_def by simp
qed

interpretation others: replace_frame "\<lambda>T T'. 0 < i \<longrightarrow> other_rows i S T' = other_rows i S T" "{None, Some i}" S
    "\<lparr>fs_repoID = i\<rparr>" "{None, Some i}" for i S
proof unfold_locales
  show "0 < i \<longrightarrow> other_rows i S (upsert_package p repo T) = other_rows i S T" if "repo \<in> {None, Some i}" for repo p T
    using other_rows_package [OF that] by simp
qed (simp_all add: other_rows_symbol other_rows_edge other_rows_churn other_rows_file other_rows_stale,
     simp_all add: other_rows_def filter_drop_owned insert_diagnostic_def put_meta_def, auto)

lemma ReplaceRepo_other_rows:
  assumes "RepoIDByModule Q T m = Inr (Some i)" "0 < i"
  shows "other_rows i (fst ` set fs) (snd (ReplaceRepo Q r fs churn m T)) = other_rows i (fst ` set fs) T"
proof -
  have "others.obeys i (fst ` set fs) (replaceTx Q r fs churn m i)" by (rule others.obeys_replaceTx) auto
  from others.withTx_obeys [OF this, of Q T] assms show ?thesis by (simp add: ReplaceRepo_def)
qed

text \<open>
  Of the erased columns only these change: the documentation of a package that the new index has too, and the churn count of a
  symbol in a file of the new churn.
\<close>

definition churned_files :: "(string, int) gomap option \<Rightarrow> string set" where
  "churned_files churn = (case churn of None \<Rightarrow> {} | Some c \<Rightarrow> fst ` set c)"

definition other_packages :: "int \<Rightarrow> string set \<Rightarrow> tables \<Rightarrow> package_entry list" where
  "other_packages i paths T = filter (\<lambda>p. of_other i (pe_repo_id p) \<and> pe_path p \<notin> paths) (tb_packages T)"

definition other_symbols :: "int \<Rightarrow> string set \<Rightarrow> tables \<Rightarrow> symbol_entry list" where
  "other_symbols i fs T = filter (\<lambda>s. of_other i (se_repo_id s) \<and> se_pos_file s \<notin> fs) (tb_symbols T)"

definition kept_rows :: "int \<Rightarrow> string set \<Rightarrow> string set \<Rightarrow> tables \<Rightarrow> package_entry list \<times> symbol_entry list" where
  "kept_rows i P C T = (other_packages i P T, other_symbols i C T)"

lemmas kept_defs = kept_rows_def other_packages_def other_symbols_def

lemma filter_and: "gone \<subseteq> {None, Some i} \<Longrightarrow> filter (\<lambda>x. f x \<notin> gone \<and> of_other i (f x) \<and> P x) xs = filter (\<lambda>x. of_other i (f x) \<and> P x) xs"
  by (induction xs) auto

lemma kept_delete: "gone \<subseteq> {None, Some i} \<Longrightarrow> kept_rows i P C (T\<lparr>tb_symbols := filter (\<lambda>r. se_repo_id r \<notin> gone) (tb_symbols T)\<rparr>) = kept_rows i P C T"
  "gone \<subseteq> {None, Some i} \<Longrightarrow> kept_rows i P C (T\<lparr>tb_packages := filter (\<lambda>r. pe_repo_id r \<notin> gone) (tb_packages T)\<rparr>) = kept_rows i P C T"
  by (simp_all add: kept_defs filter_and)

interpretation kept: delete_frame "\<lambda>T T'. kept_rows i P C T' = kept_rows i P C T" "{None, Some i}" for i P C
  by unfold_locales (simp_all add: kept_delete, simp_all add: kept_defs)

interpretation kept: file_frame "\<lambda>T T'. kept_rows i P C T' = kept_rows i P C T" UNIV scope UNIV for i P C scope
  by unfold_locales (simp_all add: kept_defs upsert_file_def delete_not_in_def)

interpretation kept: finish_frame "\<lambda>T T'. kept_rows i P C T' = kept_rows i P C T" for i P C
  by unfold_locales (simp_all add: kept_defs put_meta_def)

lemma kept_package: "pi_ImportPath p \<in> P \<Longrightarrow> kept_rows i P C (upsert_package p repo T) = kept_rows i P C T"
proof -
  assume p: "pi_ImportPath p \<in> P"
  have "filter (\<lambda>x. of_other i (pe_repo_id x) \<and> pe_path x \<notin> P) (map (\<lambda>x. if pe_path x = pi_ImportPath p then x\<lparr>pe_doc := d\<rparr> else x) ps)
      = filter (\<lambda>x. of_other i (pe_repo_id x) \<and> pe_path x \<notin> P) ps" for d ps
    using p by (induction ps) auto
  with p show ?thesis by (auto simp: kept_defs upsert_package_def)
qed

lemma kept_churn: "fst ` set c \<subseteq> C \<Longrightarrow> kept_rows i P C (set_churn c T) = kept_rows i P C T"
proof -
  assume c: "fst ` set c \<subseteq> C"
  have out: "map_of c q = None" if "q \<notin> C" for q using that c by (auto simp: map_of_eq_None_iff)
  have "filter (\<lambda>x. of_other i (se_repo_id x) \<and> se_pos_file x \<notin> C)
      (map (\<lambda>r. case map_of c (se_pos_file r) of None \<Rightarrow> r | Some n \<Rightarrow> r\<lparr>se_churn_count := n\<rparr>) ss)
    = filter (\<lambda>x. of_other i (se_repo_id x) \<and> se_pos_file x \<notin> C) ss" for ss
  proof (induction ss)
    case (Cons r ss)
    then show ?case by (cases "se_pos_file r \<in> C") (simp_all add: out split: option.split)
  qed simp
  then show ?thesis by (simp add: kept_defs set_churn_def)
qed

lemma kept_symbol: "repo \<in> {None, Some i} \<Longrightarrow> kept_rows i P C (insert_symbol d pid repo js T) = kept_rows i P C T"
  by (auto simp: kept_defs insert_symbol_def)

lemma kept_others [simp]:
  "kept_rows i P C (upsert_edge u e repo T) = kept_rows i P C T" "kept_rows i P C (insert_diagnostic g repo T) = kept_rows i P C T"
  by (simp_all add: kept_defs upsert_edge_def insert_diagnostic_def Let_def)

lemma kept_writeSymbol: "kept.obeys i P C (writeSymbol Q (newPkgAttribution cache [(m, i)]) x)"
proof -
  obtain pid rid where p: "pkgFor (newPkgAttribution cache [(m, i)]) (xs_QualifiedName x) = (pid, rid)" by force
  have "nullableRepo rid \<in> {None, Some i}"
    using pkgFor_repo_mem [of cache "[(m, i)]" "xs_QualifiedName x"] by (auto simp: p nullableRepo_def)
  note r = kept_symbol [OF this]
  have fail: "kept.obeys i P C (\<lambda>T. Inl e)" for e by (simp add: kept.obeys_def)
  show ?thesis
    by (auto simp: writeSymbol_def p r intro!: kept.obeys_rules fail split: sum.splits)
qed

lemma kept_index_rows: "kept.obeys i (pi_ImportPath ` set (ir_Packages r)) C (index_rows Q r [(m, i)])"
  unfolding index_rows_def Let_def writePackages_def writePackage_def writeSymbols_def writeEdges_def writeEdge_def
  by (intro kept.obeys_then kept.obeys_seq kept.obeys_each kept.obeys_wrap kept.obeys_fold
        kept.obeys_fetch kept.obeys_yields kept.obeys_exec kept_writeSymbol) (simp_all add: kept_package)

lemma tx_fold_Cons: "tx_fold f (x # xs) a T = Inr r \<Longrightarrow> \<exists>a1 T1. f x a T = Inr (a1, T1) \<and> tx_fold f xs a1 T1 = Inr r"
  by (auto simp: tx_then_def split: sum.splits)

lemma staging_result:
  "tx_fold (\<lambda>(path, n) staged. tx_wrap (msg path) (tx_seq (exec Q st path id) (yields (gm_put path n staged)))) cs acc T
     = Inr (staged, T') \<Longrightarrow> T' = T \<and> fst ` set staged \<subseteq> fst ` set acc \<union> fst ` set cs"
proof (induction cs arbitrary: acc T)
  case (Cons c cs)
  obtain path n where c: "c = (path, n)" by (cases c)
  let ?f = "\<lambda>(path, n) staged. tx_wrap (msg path) (tx_seq (exec Q st path id) (yields (gm_put path n staged)))"
  obtain a1 T1 where 1: "?f c acc T = Inr (a1, T1)" "tx_fold ?f cs a1 T1 = Inr (staged, T')"
    using tx_fold_Cons [OF Cons.prems] by blast
  from 1(1) have "a1 = gm_put path n acc" "T1 = T"
    by (auto simp: c tx_simps split: option.splits sum.splits)
  with Cons.IH [OF 1(2)] show ?case by (auto simp: c)
qed (simp add: tx_simps)

lemma kept_applyChurn: "fst ` set churn \<subseteq> C \<Longrightarrow> kept.obeys i P C (applyChurn Q churn)"
  unfolding kept.obeys_def
proof (intro allI impI)
  fix T u T'
  assume c: "fst ` set churn \<subseteq> C" and run: "applyChurn Q churn T = Inr (u, T')"
  let ?stage = "tx_fold (\<lambda>(path, n) staged. tx_wrap (''staging churn for '' @ path)
             (tx_seq (exec Q ''INSERT INTO _codemap_churn'' path id) (yields (gm_put path n staged)))) churn []"
  show "kept_rows i P C T' = kept_rows i P C T"
  proof (cases "churn = []")
    case False
    with run obtain staged T1 where st: "?stage T = Inr (staged, T1)" and T': "T' = set_churn staged T1"
      by (auto simp: applyChurn_def tx_simps split: option.splits sum.splits)
    from staging_result [OF st] c have "T1 = T" "fst ` set staged \<subseteq> C" by (simp, simp only: list.set image_empty Un_empty_left, blast)
    then show ?thesis by (simp add: T' kept_churn)
  qed (use run in \<open>simp add: applyChurn_def tx_simps\<close>)
qed

lemma ReplaceRepo_kept_rows:
  assumes "RepoIDByModule Q T m = Inr (Some i)"
  shows "kept_rows i (pi_ImportPath ` set (ir_Packages r)) (churned_files churn) (snd (ReplaceRepo Q r fs churn m T))
    = kept_rows i (pi_ImportPath ` set (ir_Packages r)) (churned_files churn) T"
proof -
  let ?P = "pi_ImportPath ` set (ir_Packages r)" and ?C = "churned_files churn"
  have ch: "kept.obeys i P ?C (case churn of None \<Rightarrow> yields () | Some c \<Rightarrow> applyChurn Q c)" for P
    by (cases churn) (auto simp: churned_files_def intro: kept.obeys_yields kept_applyChurn)
  have dg: "kept.obeys i P C (writeDiagnostics Q ds rf)" for P C ds rf
    unfolding writeDiagnostics_def by (intro kept.obeys_rules) simp_all
  have fts: "kept.obeys i P C (if d then populateFileContentFTS Q else yields ())" for P C d
    by (auto intro: kept.obeys_populateFileContentFTS kept.obeys_yields)
  have "kept.obeys i ?P ?C (replaceTx Q r fs churn m i)"
    unfolding replaceTx_def writeRepoRows_def
    by (intro kept.obeys_seq kept.obeys_then kept.obeys_deleteRepoRows kept_index_rows ch dg fts kept.obeys_writeFiles
        kept.obeys_populateFTS kept.obeys_completeIndexWrite) simp_all
  from kept.withTx_obeys [OF this, of Q T] assms show ?thesis by (simp add: ReplaceRepo_def)
qed

section \<open>What the rows of an index are\<close>

interpretation predicate: table_frame "\<lambda>T T'. P T \<longrightarrow> P T'" for P
  by unfold_locales auto

definition symbol_key :: "extract_symbol \<Rightarrow> string \<times> string \<times> int" where
  "symbol_key d = (xs_QualifiedName d, st_File (xs_Pos d), st_Line (xs_Pos d))"

definition symbols_from :: "int \<Rightarrow> extract_symbol list \<Rightarrow> tables \<Rightarrow> bool" where
  "symbols_from i ds T \<longleftrightarrow> (\<forall>r\<in>set (tb_symbols T). se_repo_id r = Some i \<longrightarrow> decl_key r \<in> symbol_key ` set ds)"

definition edges_from :: "int \<Rightarrow> extract_edge list \<Rightarrow> tables \<Rightarrow> bool" where
  "edges_from i es T \<longleftrightarrow> (\<forall>r\<in>set (tb_edges T). ee_repo_id r = Some i \<longrightarrow>
     (ee_from_ref r, ee_to_ref r, ee_edge_type r) \<in> (\<lambda>e. (xe_FromRef e, xe_ToRef e, xe_EdgeType e)) ` set es)"

definition rows_from :: "int \<Rightarrow> resolve_result \<Rightarrow> tables \<Rightarrow> bool" where
  "rows_from i r T \<longleftrightarrow> symbols_from i (ir_Symbols r) T \<and> edges_from i (ir_Edges r) T"

lemma rows_from_symbol: "d \<in> set (ir_Symbols r) \<Longrightarrow> rows_from i r T \<Longrightarrow> rows_from i r (insert_symbol d pid repo js T)"
  by (auto simp: rows_from_def symbols_from_def edges_from_def insert_symbol_def decl_key_def symbol_key_def)

lemma rows_from_edge: "e \<in> set (ir_Edges r) \<Longrightarrow> rows_from i r T \<Longrightarrow> rows_from i r (upsert_edge unite e repo T)"
  by (auto simp: rows_from_def symbols_from_def edges_from_def upsert_edge_def Let_def edge_key_def)

lemma rows_from_same:
  "tb_symbols T' = tb_symbols T \<Longrightarrow> tb_edges T' = tb_edges T \<Longrightarrow> rows_from i r T' = rows_from i r T"
  by (simp add: rows_from_def symbols_from_def edges_from_def)

lemma rows_from_churn: "rows_from i r T \<Longrightarrow> rows_from i r (set_churn c T)"
  by (auto simp: rows_from_def symbols_from_def edges_from_def set_churn_def decl_key_def split: option.splits)

lemma rows_from_package: "rows_from i r (upsert_package p repo T) = rows_from i r T"
  by (rule rows_from_same) (simp_all add: upsert_package_def)

lemma rows_from_file: "rows_from i r (upsert_file p c repo T) = rows_from i r T"
  by (rule rows_from_same) (simp_all add: upsert_file_def)

lemma rows_from_others [simp]:
  "rows_from i r (delete_not_in scope batch T) = rows_from i r T"
  "rows_from i r (insert_diagnostic d repo T) = rows_from i r T"
  "rows_from i r (put_meta k v T) = rows_from i r T"
  "rows_from i r (T\<lparr>tb_symbols_fts := a\<rparr>) = rows_from i r T"
  "rows_from i r (T\<lparr>tb_content_fts := b\<rparr>) = rows_from i r T"
  "rows_from i r (T\<lparr>tb_chunks := c\<rparr>) = rows_from i r T"
  by (rule rows_from_same; simp add: delete_not_in_def insert_diagnostic_def put_meta_def)+

lemma obeys_fail: "predicate.obeys P (\<lambda>T. Inl e)"
  by (simp add: predicate.obeys_def)

lemma rows_from_index_rows: "predicate.obeys (rows_from i r) (index_rows Q r m)"
proof -
  have s: "predicate.obeys (rows_from i r) (writeSymbol Q a d)" if "d \<in> set (ir_Symbols r)" for a d
    using that by (auto simp: writeSymbol_def split: prod.splits sum.splits
        intro!: predicate.obeys_rules obeys_fail rows_from_symbol)
  have e: "predicate.obeys (rows_from i r) (writeEdge Q a e)" if "e \<in> set (ir_Edges r)" for a e
    unfolding writeEdge_def using that by (auto intro!: predicate.obeys_rules rows_from_edge)
  show ?thesis
    unfolding index_rows_def Let_def writePackages_def writePackage_def writeSymbols_def writeEdges_def
    by (intro predicate.obeys_then predicate.obeys_seq predicate.obeys_each predicate.obeys_wrap predicate.obeys_fold
        predicate.obeys_fetch predicate.obeys_yields predicate.obeys_exec s e) (simp_all add: rows_from_package)
qed

lemma run_statements_result: "run_statements Q xs T = Inr (u, T') \<Longrightarrow> T' = fold (\<lambda>(s, f). f) xs T"
proof -
  have "tx_fold (\<lambda>x _. case x of (s, f) \<Rightarrow> exec Q s [] f) xs a T = Inr (u, T') \<Longrightarrow> T' = fold (\<lambda>(s, f). f) xs T" for a
    by (induction xs arbitrary: a T) (auto simp: tx_simps split: sum.splits option.splits)
  then show "run_statements Q xs T = Inr (u, T') \<Longrightarrow> T' = fold (\<lambda>(s, f). f) xs T"
    by (simp add: run_statements_def tx_each_def)
qed

lemma delete_rows_effect:
  "tb_symbols (fold (\<lambda>(s, f). f) (delete_index_rows c gone) T) = filter (\<lambda>x. \<not> gone (se_repo_id x)) (tb_symbols T)"
  "tb_edges (fold (\<lambda>(s, f). f) (delete_index_rows c gone) T) = filter (\<lambda>x. \<not> gone (ee_repo_id x)) (tb_edges T)"
  "tb_symbols (fold (\<lambda>(s, f). f) (delete_contract_rows c gone) T) = tb_symbols T"
  "tb_edges (fold (\<lambda>(s, f). f) (delete_contract_rows c gone) T) = tb_edges T"
  "tb_symbols (fold (\<lambda>(s, f). f) (delete_diagnostic_rows c gone) T) = tb_symbols T"
  "tb_edges (fold (\<lambda>(s, f). f) (delete_diagnostic_rows c gone) T) = tb_edges T"
  by (simp_all add: delete_index_rows_def delete_contract_rows_def delete_diagnostic_rows_def)

lemma rows_from_replaceTx:
  assumes "replaceTx Q r fs churn m i T = Inr (u, T')"
  shows "rows_from i r T'"
proof -
  from assms obtain T1 where d: "deleteRepoRows Q i T = Inr ((), T1)"
    by (auto simp: replaceTx_def tx_simps(2,3) split: sum.splits)
  have "tb_symbols T1 = filter (\<lambda>x. se_repo_id x \<noteq> Some i) (tb_symbols T)"
    "tb_edges T1 = filter (\<lambda>x. ee_repo_id x \<noteq> Some i) (tb_edges T)"
    unfolding run_statements_result [OF d [unfolded deleteRepoRows_def]] fold_append o_apply delete_rows_effect
    by (rule refl)+
  then have "rows_from i r T1" by (simp add: rows_from_def symbols_from_def edges_from_def)
  have f: "predicate.obeys (rows_from i r) (writeFile Q rf f d)" for rf f d
    by (cases f) (auto simp: predicate.obeys_def rows_from_file dest: writeFile_result(1))
  have s: "predicate.obeys (rows_from i r) (deleteStaleBatch Q scope b d)" for scope b d
    by (auto simp: predicate.obeys_def dest: deleteStaleBatch_result(1))
  have ch: "predicate.obeys (rows_from i r) (case churn of None \<Rightarrow> yields () | Some c \<Rightarrow> applyChurn Q c)"
    unfolding applyChurn_def
    by (auto split: option.splits intro!: predicate.obeys_rules rows_from_churn simp: case_prod_beta)
  have dg: "predicate.obeys (rows_from i r) (writeDiagnostics Q ds rf)" for ds rf
    unfolding writeDiagnostics_def by (intro predicate.obeys_rules) simp_all
  have fi: "predicate.obeys (rows_from i r) (populateFTS Q)" "predicate.obeys (rows_from i r) (completeIndexWrite Q)"
    "predicate.obeys (rows_from i r) (if b then populateFileContentFTS Q else yields ())" for b
    unfolding populateFTS_def completeIndexWrite_def deleteResponseChunksTx_def setGeneratedProvenanceTx_def
      setAnalyzerVersionTx_def insert_meta_def populateFileContentFTS_def
    by (auto intro!: predicate.obeys_rules)
  define rest where "rest = tx_seq (writeRepoRows Q r [(m, i)] churn)
      (tx_seq (writeDiagnostics Q (ir_Diagnostics r) (Some (\<lambda>_. i)))
      (tx_then (writeFiles Q fs (Some (\<lambda>_. i)) \<lparr>fs_repoID = i\<rparr>)
        (\<lambda>fileDirty. tx_seq (populateFTS Q)
          (tx_seq (if fileDirty then populateFileContentFTS Q else yields ()) (completeIndexWrite Q)))))"
  have inner: "predicate.obeys (rows_from i r) (writeFiles Q fs rf scope)" for rf scope
    unfolding writeFiles_def deleteStaleFiles_def
    by (auto intro!: predicate.obeys_rules f s)
  have "predicate.obeys (rows_from i r) rest"
    unfolding rest_def writeRepoRows_def
    by (intro predicate.obeys_seq predicate.obeys_then rows_from_index_rows inner ch dg fi)
  moreover have "rest T1 = Inr (u, T')"
    using assms d by (simp add: replaceTx_def rest_def tx_simps(2,3))
  ultimately have "rows_from i r T1 \<longrightarrow> rows_from i r T'" by (rule predicate.obeysD)
  with \<open>rows_from i r T1\<close> show ?thesis by simp
qed

section \<open>Nothing of an index is lost\<close>

definition package_paths :: "resolve_result \<Rightarrow> string set" where
  "package_paths r = pi_ImportPath ` set (ir_Packages r)"

text \<open>The cache of package ids holds the written paths with the ids of their rows.\<close>

definition has_package :: "tables \<Rightarrow> string \<Rightarrow> int \<Rightarrow> bool" where
  "has_package T q i \<longleftrightarrow> (\<exists>p\<in>set (tb_packages T). pe_path p = q \<and> pe_id p = i)"

definition cache_ok :: "(string, int) gomap \<Rightarrow> tables \<Rightarrow> bool" where
  "cache_ok c T \<longleftrightarrow> gm_wf c \<and> (\<forall>q i. (q, i) \<in> set c \<longrightarrow> has_package T q i)"

lemma has_package_upsert: "has_package T q i \<Longrightarrow> has_package (upsert_package p repo T) q i"
proof -
  assume "has_package T q i"
  then obtain r where r: "r \<in> set (tb_packages T)" "pe_path r = q" "pe_id r = i" by (auto simp: has_package_def)
  let ?g = "\<lambda>x. if pe_path x = pi_ImportPath p then x\<lparr>pe_doc := pi_Doc p\<rparr> else x"
  from r have "pe_path (?g r) = q" "pe_id (?g r) = i" by auto
  with r have "\<exists>x\<in>?g ` set (tb_packages T). pe_path x = q \<and> pe_id x = i" by blast
  with r show ?thesis by (auto simp: has_package_def upsert_package_def)
qed

lemma cache_ok_upsert: "cache_ok c T \<Longrightarrow> cache_ok c (upsert_package p repo T)"
  by (simp add: cache_ok_def has_package_upsert)

lemma writePackage_result:
  assumes "writePackage Q m pkg c T = Inr (c', T')" "cache_ok c T"
  shows "cache_ok c' T' \<and> fst ` set c' = insert (pi_ImportPath pkg) (fst ` set c)"
proof -
  from assms(1) obtain p where T': "T' = upsert_package pkg (nullableRepo (gm_get 0 m (pi_ModulePath pkg))) T"
    and p: "find (\<lambda>p. pe_path p = pi_ImportPath pkg) (tb_packages T') = Some p"
    and c': "c' = gm_put (pi_ImportPath pkg) (pe_id p) c"
    by (auto simp: writePackage_def tx_simps split: option.splits sum.splits)
  from p have "p \<in> set (tb_packages T')" "pe_path p = pi_ImportPath pkg" by (auto simp: find_Some_iff)
  then have "has_package T' (pi_ImportPath pkg) (pe_id p)" by (auto simp: has_package_def)
  moreover have "cache_ok c T'" using cache_ok_upsert assms(2) T' by simp
  moreover have "(q, j) = (k, v) \<or> (q, j) \<in> set c" if "(q, j) \<in> set (gm_put k v c)" for q j k v
    using that gm_wf_in_map_of [of c] gm_wf_in_map_of [of "gm_put k v c"] assms(2)
    by (auto simp: cache_ok_def split: if_splits)
  ultimately have "cache_ok c' T'" unfolding c' cache_ok_def by (metis Pair_inject gm_put_wf)
  then show ?thesis by (simp add: c')
qed

lemma writePackages_result:
  "tx_fold (writePackage Q m) ps c T = Inr (c', T') \<Longrightarrow> cache_ok c T \<Longrightarrow>
     cache_ok c' T' \<and> fst ` set c' = fst ` set c \<union> pi_ImportPath ` set ps"
proof (induction ps arbitrary: c T)
  case (Cons p ps)
  then obtain c1 T1 where 1: "writePackage Q m p c T = Inr (c1, T1)" "tx_fold (writePackage Q m) ps c1 T1 = Inr (c', T')"
    by (auto simp: tx_simps split: sum.splits)
  from writePackage_result [OF 1(1) Cons.prems(2)] Cons.IH [OF 1(2)] show ?case by auto
qed (simp add: tx_simps)

text \<open>The owner of a name: the package itself, or the longest package path that a dot separates from the rest.\<close>

definition owns_name :: "string \<Rightarrow> string \<Rightarrow> bool" where
  "owns_name p q \<longleftrightarrow> p \<noteq> [] \<and> has_prefix q (p @ ''.'')"

definition owner_path :: "string set \<Rightarrow> string \<Rightarrow> string \<Rightarrow> bool" where
  "owner_path paths q p \<longleftrightarrow> p \<in> paths \<and>
     (if q \<in> paths then p = q else owns_name p q \<and> (\<forall>p'\<in>paths. owns_name p' q \<longrightarrow> length p' \<le> length p))"

lemma owns_name_take: "owns_name p q \<longleftrightarrow> (\<exists>i. 0 < i \<and> i < length q \<and> q ! i = CHR ''.'' \<and> p = take i q)"
proof
  assume "owns_name p q"
  then have "p \<noteq> []" "q = (p @ ''.'') @ drop (length (p @ ''.'')) q"
    unfolding owns_name_def has_prefix_def by (auto, metis append_take_drop_id append.assoc append_Cons append_Nil)
  then obtain r where "p \<noteq> []" "q = p @ CHR ''.'' # r" by (metis append.assoc append_Cons append_Nil)
  then show "\<exists>i. 0 < i \<and> i < length q \<and> q ! i = CHR ''.'' \<and> p = take i q"
    by (intro exI [of _ "length p"]) (simp add: nth_append)
next
  assume "\<exists>i. 0 < i \<and> i < length q \<and> q ! i = CHR ''.'' \<and> p = take i q"
  then obtain i where i: "0 < i" "i < length q" "q ! i = CHR ''.''" "p = take i q" by blast
  then have "take (length (take i q @ ''.'')) q = take i q @ ''.''"
    using take_Suc_conv_app_nth [of i q] by (simp add: min_absorb2)
  then have "has_prefix q (take i q @ ''.'')" by (simp add: has_prefix_def)
  with i show "owns_name p q" by (auto simp: owns_name_def)
qed

lemma longestPackagePrefix_cases:
  "(longestPackagePrefix q m = [] \<and> (\<forall>p. gm_has m p \<longrightarrow> \<not> owns_name p q))
   \<or> (gm_has m (longestPackagePrefix q m) \<and> owns_name (longestPackagePrefix q m) q
        \<and> (\<forall>p. gm_has m p \<longrightarrow> owns_name p q \<longrightarrow> length p \<le> length (longestPackagePrefix q m)))"
proof -
  let ?ok = "\<lambda>i. 0 < i \<and> q ! i = CHR ''.'' \<and> gm_has m (take i q)"
  let ?step = "\<lambda>i best. if q ! i = CHR ''.'' \<and> gm_has m (take i q) \<and> length best < i then take i q else best"
  have run: "n \<le> length q \<Longrightarrow> (fold ?step [0..<n] [] = [] \<and> (\<forall>i<n. \<not> ?ok i))
      \<or> (\<exists>j<n. ?ok j \<and> fold ?step [0..<n] [] = take j q \<and> (\<forall>i<n. ?ok i \<longrightarrow> i \<le> j))" for n
  proof (induction n)
    case (Suc n)
    then consider (none) "fold ?step [0..<n] [] = []" "\<forall>i<n. \<not> ?ok i"
      | (some) j where "j < n" "?ok j" "fold ?step [0..<n] [] = take j q" "\<forall>i<n. ?ok i \<longrightarrow> i \<le> j" by auto
    then show ?case
    proof cases
      case none
      then show ?thesis by (cases "?ok n") (auto simp: less_Suc_eq)
    next
      case some
      then show ?thesis using Suc.prems by (cases "?ok n") (auto simp: less_Suc_eq)
    qed
  qed simp
  have "longestPackagePrefix q m = fold ?step [0..<length q] []" by (simp add: longestPackagePrefix_def)
  with run [of "length q"] show ?thesis
    unfolding owns_name_take by (auto 0 3)
qed

lemma pkgFor_owner:
  assumes "owner_path (fst ` set c) q p"
  shows "fst (pkgFor (newPkgAttribution c m) q) = gm_get 0 c p"
proof (cases "q \<in> fst ` set c")
  case True
  then obtain i where "map_of c q = Some i" by (metis domD dom_map_of_conv_image_fst)
  with True assms show ?thesis by (simp add: pkgFor_def newPkgAttribution_def owner_path_def gm_get_def)
next
  case False
  then have none: "map_of c q = None" by (simp add: map_of_eq_None_iff)
  from assms False have p: "gm_has c p" "owns_name p q" "\<forall>p'. gm_has c p' \<longrightarrow> owns_name p' q \<longrightarrow> length p' \<le> length p"
    by (auto simp: owner_path_def gm_has_iff)
  from longestPackagePrefix_cases [of q c] p have l: "gm_has c (longestPackagePrefix q c)" "owns_name (longestPackagePrefix q c) q"
    "length (longestPackagePrefix q c) = length p"
    by (auto intro: antisym)
  then have "longestPackagePrefix q c = p" using p(2) unfolding owns_name_take by (auto simp: min_absorb2)
  with none p(2) show ?thesis by (simp add: pkgFor_def newPkgAttribution_def owns_name_def)
qed

text \<open>Every owned declaration has its row, and a new row points to the package that owns its name.\<close>

lemma writeSymbol_result:
  assumes "writeSymbol Q a d T = Inr (u, T')"
  shows "if fst (pkgFor a (xs_QualifiedName d)) = 0 then T' = T
     else \<exists>js. T' = insert_symbol d (fst (pkgFor a (xs_QualifiedName d))) (nullableRepo (snd (pkgFor a (xs_QualifiedName d)))) js T"
  using assms by (auto simp: writeSymbol_def tx_simps split: prod.splits if_splits sum.splits option.splits)

definition rows_owned :: "pkg_attribution \<Rightarrow> (string \<times> string \<times> int) set \<Rightarrow> tables \<Rightarrow> bool" where
  "rows_owned a K T \<longleftrightarrow> (\<forall>r\<in>set (tb_symbols T). decl_key r \<in> K \<or> se_package_id r = fst (pkgFor a (se_qualified_name r)))"

lemma insert_symbol_keys:
  "decl_key ` set (tb_symbols (insert_symbol d pid repo js T)) = insert (symbol_key d) (decl_key ` set (tb_symbols T))"
proof (cases "symbol_key d \<in> decl_key ` set (tb_symbols T)")
  case True
  then have "\<exists>r\<in>set (tb_symbols T). decl_key r = symbol_key d" by (metis imageE)
  with True show ?thesis by (auto simp: insert_symbol_def symbol_key_def)
next
  case False
  then have "\<not> (\<exists>r\<in>set (tb_symbols T). decl_key r = symbol_key d)" by (metis imageI)
  then show ?thesis by (simp add: insert_symbol_def symbol_key_def) (simp add: decl_key_def)
qed

lemma writeSymbols_result:
  "tx_fold (\<lambda>d _. writeSymbol Q a d) ds v T = Inr (u, T') \<Longrightarrow> rows_owned a K T \<Longrightarrow>
     rows_owned a K T' \<and> tb_packages T' = tb_packages T
     \<and> decl_key ` set (tb_symbols T') = decl_key ` set (tb_symbols T) \<union> symbol_key ` {d \<in> set ds. fst (pkgFor a (xs_QualifiedName d)) \<noteq> 0}"
proof (induction ds arbitrary: v T)
  case Nil
  then show ?case by (simp add: tx_simps)
next
  case (Cons d ds)
  then obtain w T1 where 1: "writeSymbol Q a d T = Inr (w, T1)" "tx_fold (\<lambda>d _. writeSymbol Q a d) ds w T1 = Inr (u, T')"
    by (auto simp: tx_simps split: sum.splits)
  have "rows_owned a K T1 \<and> tb_packages T1 = tb_packages T
      \<and> decl_key ` set (tb_symbols T1) = decl_key ` set (tb_symbols T) \<union> (if fst (pkgFor a (xs_QualifiedName d)) \<noteq> 0 then {symbol_key d} else {})"
  proof (cases "fst (pkgFor a (xs_QualifiedName d)) = 0")
    case True
    with writeSymbol_result [OF 1(1)] Cons.prems(2) show ?thesis by simp
  next
    case False
    with writeSymbol_result [OF 1(1)] obtain pid repo js where
      "T1 = insert_symbol d pid repo js T" "pid = fst (pkgFor a (xs_QualifiedName d))" by auto
    moreover from this Cons.prems(2) have "rows_owned a K T1"
      by (auto simp: rows_owned_def insert_symbol_def)
    ultimately show ?thesis using False insert_symbol_keys [of d pid repo js T] by (auto simp: insert_symbol_def)
  qed
  with Cons.IH [OF 1(2)] show ?case by auto
qed

definition decl_view :: "tables \<Rightarrow> ((string \<times> string \<times> int) \<times> int) list \<times> (string \<times> int) list" where
  "decl_view T = (map (\<lambda>r. (decl_key r, se_package_id r)) (tb_symbols T), map (\<lambda>p. (pe_path p, pe_id p)) (tb_packages T))"

definition declared :: "tables \<Rightarrow> ((string \<times> string \<times> int) \<times> string \<times> int) set" where
  "declared T = (\<lambda>r. (decl_key r, se_qualified_name r, se_package_id r)) ` set (tb_symbols T)"

definition packaged :: "tables \<Rightarrow> (string \<times> int) set" where
  "packaged T = (\<lambda>p. (pe_path p, pe_id p)) ` set (tb_packages T)"

definition grown :: "tables \<Rightarrow> tables \<Rightarrow> bool" where
  "grown T T' \<longleftrightarrow> declared T \<subseteq> declared T' \<and> packaged T \<subseteq> packaged T'"

lemma grown_same: "tb_symbols T' = tb_symbols T \<Longrightarrow> tb_packages T' = tb_packages T \<Longrightarrow> grown T T'"
  by (simp add: grown_def declared_def packaged_def)

lemma grown_package: "grown T (upsert_package p repo T)"
proof -
  have "packaged T \<subseteq> packaged (upsert_package p repo T)"
    using has_package_upsert [of T _ _ p repo] by (auto simp: packaged_def has_package_def image_iff) metis
  then show ?thesis by (simp add: grown_def declared_def upsert_package_def)
qed

lemma grown_churn: "grown T (set_churn c T)"
proof -
  let ?g = "\<lambda>r. case map_of c (se_pos_file r) of None \<Rightarrow> r | Some n \<Rightarrow> r\<lparr>se_churn_count := n\<rparr>"
  have "decl_key (?g r) = decl_key r \<and> se_qualified_name (?g r) = se_qualified_name r \<and> se_package_id (?g r) = se_package_id r" for r
    by (simp add: decl_key_def split: option.splits)
  then have "declared (set_churn c T) = declared T" by (simp add: declared_def set_churn_def image_image)
  then show ?thesis by (simp add: grown_def packaged_def set_churn_def)
qed

interpretation grows: insert_frame grown UNIV
proof unfold_locales
  show "grown T (insert_symbol d pid repo js T)" for T d pid repo js
    by (auto simp: grown_def declared_def packaged_def insert_symbol_def)
  show "grown T T" for T by (simp add: grown_same)
  show "grown T T' \<Longrightarrow> grown T' T'' \<Longrightarrow> grown T T''" for T T' T'' unfolding grown_def by blast
qed (auto simp: grown_package grown_churn upsert_edge_def insert_diagnostic_def Let_def intro!: grown_same)

interpretation grows: file_frame grown UNIV scope UNIV for scope
  by unfold_locales (auto intro!: grown_same simp: upsert_file_def delete_not_in_def)

interpretation grows: finish_frame grown
  by unfold_locales (auto intro!: grown_same simp: put_meta_def)

interpretation shrinks: register_frame "\<lambda>T T'. set (tb_symbols T') \<subseteq> set (tb_symbols T)" UNIV
  by unfold_locales auto

lemma write_index_rows:
  assumes "writeTx Q result fs churn repos workspace T = Inr (u, T')" "tables_keys T"
  obtains m T2 T3 where "tables_keys T2" "index_rows Q result m T2 = Inr ((), T3)" "grown T3 T'"
    and "decl_key ` set (tb_symbols T2) \<subseteq> decl_key ` set (tb_symbols T)"
  using assms(1)
proof (cases rule: writeTx_parts)
  case (1 m T1 T2 T3 T4 d T5 T6 T7)
  from keys.obeysD [OF keys.obeys_registerRepos 1(1)] keys.obeysD [OF keys.obeys_cleared 1(2)] assms(2)
  have k: "tables_keys T2" by simp
  from shrinks.obeysD [OF shrinks.obeys_registerRepos 1(1)] shrinks.obeysD [OF shrinks.obeys_cleared 1(2)]
  have s: "decl_key ` set (tb_symbols T2) \<subseteq> decl_key ` set (tb_symbols T)" by blast
  have "grows.obeys (if d then populateFileContentFTS Q else yields ())"
    by (auto intro: grows.obeys_populateFileContentFTS grows.obeys_yields)
  from grows.obeysD [OF grows.obeys_writeDeferredRows 1(4)] grows.obeysD [OF grows.obeys_writeFiles 1(5)]
    grows.obeysD [OF this 1(7)] grows.obeysD [OF grows.obeys_completeIndexWrite 1(8)]
  have "grown T3 T4" "grown T4 T5" "grown T6 T7" "grown T7 T'" by simp_all
  moreover have "grown T5 T6" by (rule grown_same) (simp_all add: 1(6))
  ultimately have g: "grown T3 T'" by (meson grows.trans_R)
  from k 1(3) g s show ?thesis by (rule that)
qed

text \<open>The rows of one index: packages, then symbols with the ids of the packages that own them.\<close>

lemma index_rows_result:
  assumes "index_rows Q r m T = Inr ((), T')" "tables_keys T"
    and "d \<in> set (ir_Symbols r)" "owner_path (package_paths r) (xs_QualifiedName d) p"
  shows "\<exists>i. (p, i) \<in> packaged T' \<and> symbol_key d \<in> decl_key ` set (tb_symbols T')
    \<and> (symbol_key d \<notin> decl_key ` set (tb_symbols T) \<longrightarrow> (symbol_key d, xs_QualifiedName d, i) \<in> declared T')"
proof -
  from assms(1) obtain c T1 T2 where
    1: "tx_fold (writePackage Q m) (ir_Packages r) [] T = Inr (c, T1)"
    and 2: "tx_fold (\<lambda>d _. writeSymbol Q (newPkgAttribution c m) d) (ir_Symbols r) () T1 = Inr ((), T2)"
    and 3: "writeEdges Q (ir_Edges r) (newPkgAttribution c m) T2 = Inr ((), T')"
    by (auto simp: index_rows_def Let_def writePackages_def writeSymbols_def tx_each_def tx_simps(2,3) split: sum.splits)
  let ?a = "newPkgAttribution c m" and ?q = "xs_QualifiedName d" and ?K = "decl_key ` set (tb_symbols T)"
  from writePackages_result [OF 1] have c: "cache_ok c T1" and paths: "fst ` set c = package_paths r"
    by (auto simp: cache_ok_def package_paths_def)
  have p: "fst (pkgFor ?a ?q) = gm_get 0 c p" using pkgFor_owner assms(4) by (simp add: paths)
  have "p \<in> fst ` set c" using assms(4) by (simp add: owner_path_def paths)
  then obtain i where i: "(p, i) \<in> set c" by force
  then have ci: "gm_get 0 c p = i" using c by (simp add: cache_ok_def gm_get_in)
  have "predicate.obeys tables_keys (tx_fold (writePackage Q m) (ir_Packages r) [])"
    unfolding writePackage_def by (intro predicate.obeys_rules) (simp add: keys_package)
  from predicate.obeysD [OF this 1] assms(2) have "tables_keys T1" by simp
  moreover have "has_package T1 p i" using c i by (simp add: cache_ok_def)
  ultimately have pos: "0 < i" by (auto simp: tables_keys_def packages_ok_def has_package_def)
  have same: "tb_symbols T1 = tb_symbols T"
  proof -
    have "predicate.obeys (\<lambda>X. tb_symbols X = tb_symbols T) (tx_fold (writePackage Q m) (ir_Packages r) [])"
      unfolding writePackage_def by (intro predicate.obeys_rules) (simp add: upsert_package_def)
    from predicate.obeysD [OF this 1] show ?thesis by simp
  qed
  have "rows_owned ?a ?K T1" by (simp add: rows_owned_def same)
  from writeSymbols_result [OF 2 this] assms(3) p ci pos same
  have o: "rows_owned ?a ?K T2" and pk: "tb_packages T2 = tb_packages T1" and key: "symbol_key d \<in> decl_key ` set (tb_symbols T2)"
    by auto
  have g: "grown T2 T'"
  proof -
    have "grows.obeys (writeEdges Q (ir_Edges r) ?a)"
      unfolding writeEdges_def writeEdge_def
      by (intro grows.obeys_rules grows.edge_upserted) (simp_all add: grown_same)
    from grows.obeysD [OF this 3] show ?thesis .
  qed
  from \<open>has_package T1 p i\<close> have "(p, i) \<in> packaged T2" by (auto simp: has_package_def packaged_def pk)
  moreover have "(symbol_key d, ?q, i) \<in> declared T2" if "symbol_key d \<notin> ?K"
  proof -
    from key obtain r where r: "r \<in> set (tb_symbols T2)" "decl_key r = symbol_key d" by (metis imageE)
    then have "se_qualified_name r = ?q" by (simp add: decl_key_def symbol_key_def)
    moreover from o r(1) have "decl_key r \<in> ?K \<or> se_package_id r = fst (pkgFor ?a (se_qualified_name r))"
      by (simp add: rows_owned_def)
    ultimately have "se_qualified_name r = ?q \<and> se_package_id r = i" using r(2) that p ci by simp
    then show ?thesis using r unfolding declared_def by (intro image_eqI [where x = r]) simp_all
  qed
  moreover have "symbol_key d \<in> decl_key ` set (tb_symbols T')"
  proof -
    from key obtain r where "r \<in> set (tb_symbols T2)" "decl_key r = symbol_key d" by (metis imageE)
    then have "(symbol_key d, se_qualified_name r, se_package_id r) \<in> declared T2"
      unfolding declared_def by (intro image_eqI [where x = r]) simp_all
    with g have "(symbol_key d, se_qualified_name r, se_package_id r) \<in> declared T'" by (auto simp: grown_def)
    then show ?thesis by (auto simp: declared_def)
  qed
  ultimately show ?thesis using g unfolding grown_def by blast
qed

lemma write_index_declares:
  assumes "write_index Q r fs churn repos workspace T = (Inr (), T')" "tables_keys T"
    and "d \<in> set (ir_Symbols r)" "owner_path (package_paths r) (xs_QualifiedName d) p"
  shows "\<exists>i. (p, i) \<in> packaged T' \<and> symbol_key d \<in> decl_key ` set (tb_symbols T')
    \<and> (symbol_key d \<notin> decl_key ` set (tb_symbols T) \<longrightarrow> (symbol_key d, xs_QualifiedName d, i) \<in> declared T')"
proof -
  have "writeTx Q r fs churn repos workspace T = Inr ((), T')"
    using assms(1) unfolding write_index_def by (rule withTx_commits)
  then obtain m T2 T3 where t: "tables_keys T2" "index_rows Q r m T2 = Inr ((), T3)" "grown T3 T'"
      "decl_key ` set (tb_symbols T2) \<subseteq> decl_key ` set (tb_symbols T)"
    using assms(2) by (rule write_index_rows)
  have key: "k \<in> decl_key ` set (tb_symbols T')" if "k \<in> decl_key ` set (tb_symbols T3)" for k
  proof -
    from that obtain r where "r \<in> set (tb_symbols T3)" "k = decl_key r" by (metis imageE)
    then have "(k, se_qualified_name r, se_package_id r) \<in> declared T3"
      unfolding declared_def by (intro image_eqI [where x = r]) simp_all
    with t(3) have "(k, se_qualified_name r, se_package_id r) \<in> declared T'" by (auto simp: grown_def)
    then show ?thesis by (auto simp: declared_def)
  qed
  from index_rows_result [OF t(2,1) assms(3,4)] obtain i where i: "(p, i) \<in> packaged T3"
      "symbol_key d \<in> decl_key ` set (tb_symbols T3)"
      "symbol_key d \<notin> decl_key ` set (tb_symbols T2) \<Longrightarrow> (symbol_key d, xs_QualifiedName d, i) \<in> declared T3" by blast
  have "(p, i) \<in> packaged T'" using i(1) t(3) by (auto simp: grown_def)
  moreover have "symbol_key d \<in> decl_key ` set (tb_symbols T')" using key i(2) .
  moreover have "(symbol_key d, xs_QualifiedName d, i) \<in> declared T'" if "symbol_key d \<notin> decl_key ` set (tb_symbols T)"
  proof -
    from that t(4) have "symbol_key d \<notin> decl_key ` set (tb_symbols T2)" by blast
    from i(3) [OF this] t(3) show ?thesis by (auto simp: grown_def)
  qed
  ultimately show ?thesis by blast
qed

section \<open>Edges\<close>

definition sites_of :: "tables \<Rightarrow> int \<times> string \<times> string \<times> string \<Rightarrow> site set" where
  "sites_of T k = \<Union> (set ` ee_sites ` {r \<in> set (tb_edges T). edge_key r = k})"

definition written_key :: "pkg_attribution \<Rightarrow> extract_edge \<Rightarrow> int \<times> string \<times> string \<times> string" where
  "written_key a e = (snd (pkgFor a (xe_FromRef e)), xe_FromRef e, xe_ToRef e, xe_EdgeType e)"

definition unites :: "(site list \<Rightarrow> site list \<Rightarrow> site list) \<Rightarrow> bool" where
  "unites f \<longleftrightarrow> (\<forall>a b. set (f a b) = set a \<union> set b)"

lemma coalesce0_nullable [simp]: "coalesce0 (nullableRepo i) = i"
  by (simp add: coalesce0_def nullableRepo_def)

lemma sites_of_upsert:
  assumes "unites unite"
  shows "sites_of (upsert_edge unite e repo T) k
    = sites_of T k \<union> (if k = (coalesce0 repo, xe_FromRef e, xe_ToRef e, xe_EdgeType e) then {xe_Pos e} else {})"
proof -
  let ?k = "(coalesce0 repo, xe_FromRef e, xe_ToRef e, xe_EdgeType e)"
  show ?thesis
  proof (cases "\<exists>r\<in>set (tb_edges T). edge_key r = ?k")
    case True
    define g where "g = (\<lambda>r. if edge_key r = ?k then r\<lparr>ee_sites := unite (ee_sites r) [xe_Pos e]\<rparr> else r)"
    have k: "edge_key (g r) = edge_key r" for r by (simp add: edge_key_def g_def)
    have new: "tb_edges (upsert_edge unite e repo T) = map g (tb_edges T)"
      using True by (simp add: upsert_edge_def g_def)
    have "sites_of (upsert_edge unite e repo T) k = (\<Union>r\<in>{r \<in> set (tb_edges T). edge_key r = k}. set (ee_sites (g r)))"
      unfolding sites_of_def new by (auto simp: k)
    also have "\<dots> = (\<Union>r\<in>{r \<in> set (tb_edges T). edge_key r = k}. set (ee_sites r) \<union> (if k = ?k then {xe_Pos e} else {}))"
      using assms by (intro SUP_cong) (auto simp: unites_def g_def)
    also have "\<dots> = sites_of T k \<union> (if k = ?k then {xe_Pos e} else {})"
      using True by (auto simp: sites_of_def)
    finally show ?thesis .
  next
    case False
    then obtain n where new: "tb_edges (upsert_edge unite e repo T) = tb_edges T @ [n]"
      and n: "edge_key n = ?k" "ee_sites n = [xe_Pos e]"
      by (simp add: upsert_edge_def) (simp add: edge_key_def)
    have "sites_of (upsert_edge unite e repo T) k = sites_of T k \<union> (if k = ?k then {xe_Pos e} else {})"
      unfolding sites_of_def new by (auto simp: n)
    then show ?thesis .
  qed
qed

lemma writeEdges_result:
  assumes "writeEdges Q es a T = Inr (u, T')" "unites (sq_union Q)" "edges_ok (tb_edges T)"
  shows "sites_of T' k = sites_of T k \<union> xe_Pos ` {e \<in> set es. written_key a e = k}" and "edges_ok (tb_edges T')"
proof -
  have step: "T1 = upsert_edge (sq_union Q) e (nullableRepo (snd (pkgFor a (xe_FromRef e)))) T0"
    if "writeEdge Q a e T0 = Inr (w, T1)" for e T0 T1 w
    using that by (simp add: writeEdge_def tx_simps split: option.splits)
  have run: "tx_fold (\<lambda>e _. writeEdge Q a e) es v T0 = Inr (u, T1) \<Longrightarrow> 
      sites_of T1 k = sites_of T0 k \<union> xe_Pos ` {e \<in> set es. written_key a e = k}" for v T0 T1
  proof (induction es arbitrary: v T0)
    case (Cons e es)
    then obtain w T2 where 1: "writeEdge Q a e T0 = Inr (w, T2)" "tx_fold (\<lambda>e _. writeEdge Q a e) es w T2 = Inr (u, T1)"
      by (auto simp: tx_simps split: sum.splits)
    have "sites_of T2 k = sites_of T0 k \<union> (if k = written_key a e then {xe_Pos e} else {})"
      using sites_of_upsert [OF assms(2)] by (simp add: step [OF 1(1)] written_key_def)
    with Cons.IH [OF 1(2)] show ?case by auto
  qed (simp add: tx_simps)
  from assms(1) have fold: "tx_fold (\<lambda>e _. writeEdge Q a e) es () T = Inr (u, T')"
    by (auto simp: writeEdges_def tx_each_def tx_simps split: option.splits)
  from run [OF fold] show "sites_of T' k = sites_of T k \<union> xe_Pos ` {e \<in> set es. written_key a e = k}" .
  have "predicate.obeys (\<lambda>X. edges_ok (tb_edges X)) (writeEdge Q a e)" for e
    unfolding writeEdge_def by (intro predicate.obeys_rules) (simp add: edges_ok_upsert)
  then have "predicate.obeys (\<lambda>X. edges_ok (tb_edges X)) (tx_fold (\<lambda>e _. writeEdge Q a e) es ())"
    by (intro predicate.obeys_fold)
  from predicate.obeysD [OF this fold] assms(3) show "edges_ok (tb_edges T')" by simp
qed

end
