(* ===== verification/Store_Fresh.thy ===== *)
theory Store_Fresh
  imports Index_Rows
begin

text \<open>
  Staleness across components: what a current fingerprint says about the tree, what an index run of package
  \<^verbatim>\<open>workspace\<close> leaves for each member, and the reads of members that were registered and never indexed.
\<close>

section \<open>Reads without faults\<close>

lemma quiet_reads:
  assumes "sq_fault Q = (\<lambda>_ _. None)"
  shows "readMetaDB Q T k = map_of (tb_meta T) k" "get_meta Q k T = Inr (map_of (tb_meta T) k)"
    and "set_meta Q k v T = (Inr (), put_meta k v T)"
    and "select Q s a f T = f T" "autocommit Q s a g T = (Inr (), g T)"
  using assms by (simp_all add: readMetaDB_def get_meta_def select_def set_meta_def autocommit_def)

lemma put_meta_lookup [simp]: "map_of (tb_meta (put_meta k v T)) = (map_of (tb_meta T))(k \<mapsto> v)"
  by (simp add: put_meta_def)

section \<open>What a current index means\<close>

lemma StaleReason_current:
  assumes "fst (StaleReason U Q H (Inr T) dbPath repoPath) = False"
  shows "\<exists>stored. readMetaDB Q T sourceFingerprintKey = Some stored \<and> hashSource H repoPath [] = Inr stored"
  using assms by (auto simp: StaleReason_def Let_def split: stat_result.splits sum.splits option.splits if_splits)

lemma hashSource_parts:
  "hashSource H dir known = Inr fp \<Longrightarrow>
     \<exists>rt ps. path_abs (we_cwd (hs_ws H)) dir = Inr rt \<and> source_parts H rt known = Inr ps \<and> fp = hs_sha256 H (source_stream H ps)"
  by (auto simp: hashSource_def split: sum.splits)

definition hashed :: "hash_env \<Rightarrow> string \<Rightarrow> files \<Rightarrow> (string \<times> string) list result" where
  "hashed H dir known =
     (case path_abs (we_cwd (hs_ws H)) dir of Inl e \<Rightarrow> Inl e | Inr rt \<Rightarrow> source_parts H rt known)"

lemma hashSource_hashed: "hashSource H dir known = map_sum id (\<lambda>ps. hs_sha256 H (source_stream H ps)) (hashed H dir known)"
  by (simp add: hashSource_def hashed_def split: sum.splits)

text \<open>No two streams that are hashed collide.\<close>

definition collision_free :: "hash_env \<Rightarrow> hash_env \<Rightarrow> (string \<times> string) list \<Rightarrow> (string \<times> string) list \<Rightarrow> bool" where
  "collision_free H H' ps qs \<longleftrightarrow>
     (hs_sha256 H (source_stream H ps) = hs_sha256 H' (source_stream H' qs) \<longrightarrow> source_stream H ps = source_stream H' qs)"

lemma fingerprint_means_equal:
  assumes "hashSource H dir known = Inr fp" "hashSource H' dir' known' = Inr fp"
    and "hash_header H = hash_header H'"
    and "\<And>ps qs. hashed H dir known = Inr ps \<Longrightarrow> hashed H' dir' known' = Inr qs \<Longrightarrow>
      nul_free ps \<and> nul_free qs \<and> collision_free H H' ps qs"
  shows "\<exists>ps. hashed H dir known = Inr ps \<and> hashed H' dir' known' = Inr ps"
proof -
  from assms(1,2) obtain ps qs where p: "hashed H dir known = Inr ps" "fp = hs_sha256 H (source_stream H ps)"
      and q: "hashed H' dir' known' = Inr qs" "fp = hs_sha256 H' (source_stream H' qs)"
    by (auto simp: hashSource_hashed map_sum_def split: sum.splits)
  from assms(4) [OF p(1) q(1)] have free: "nul_free ps" "nul_free qs" and "source_stream H ps = source_stream H' qs"
    using p(2) q(2) by (auto simp: collision_free_def)
  with assms(3) have "ps = qs" by (intro source_stream_injective [of H ps H' qs])
  with p q show ?thesis by blast
qed

section \<open>Members that were never indexed\<close>

lemma find_module:
  assumes "repos_ok (tb_repos T)" "r \<in> set (tb_repos T)"
  shows "find (\<lambda>x. re_module_path x = re_module_path r) (tb_repos T) = Some r"
proof -
  have "distinct (map re_module_path rs) \<Longrightarrow> r \<in> set rs \<Longrightarrow> find (\<lambda>x. re_module_path x = re_module_path r) rs = Some r" for rs
    by (induction rs) auto
  with assms show ?thesis by (simp add: repos_ok_def)
qed

lemma never_indexed:
  assumes "sq_fault Q = (\<lambda>_ _. None)" "find (\<lambda>x. re_module_path x = m) (tb_repos T) = Some r" "re_indexed_at r = None"
  shows "RepoIndexedAt U Q T m = Inl scanNull" "IsRepoStale U Q H T m = Inl scanNull" "IsContractStale U Q T m = Inl scanNull"
  using assms by (simp_all add: IsRepoStale_def IsContractStale_def RepoIndexedAt_def quiet_reads)

lemma EnsureRepo_new:
  assumes "EnsureRepo Q spec T = (Inr i, T')" "\<forall>r\<in>set (tb_repos T). re_module_path r \<noteq> rs_ModulePath spec"
  shows "\<exists>r. find (\<lambda>x. re_module_path x = rs_ModulePath spec) (tb_repos T') = Some r \<and> re_indexed_at r = None \<and> re_id r = i"
proof -
  let ?new = "\<lparr>re_id = next_id (map re_id (tb_repos T)), re_module_path = rs_ModulePath spec, re_dir = rs_Dir spec,
      re_missing = rs_Missing spec, re_indexed_at = None\<rparr>"
  let ?g = "\<lambda>r. if re_id r = i then r\<lparr>re_dir := rs_Dir spec, re_missing := rs_Missing spec\<rparr> else r"
  have none: "find (\<lambda>x. re_module_path x = rs_ModulePath spec) (tb_repos T) = None"
    using assms(2) by (simp add: find_None_iff)
  have f: "find P (xs @ [x]) = (case find P xs of None \<Rightarrow> if P x then Some x else None | Some y \<Rightarrow> Some y)"
    for P :: "repo_entry \<Rightarrow> bool" and xs x
    by (induction xs) auto
  from assms have i: "i = re_id ?new" and T': "tb_repos T' = map ?g (tb_repos T @ [?new])"
    unfolding EnsureRepo_def
    by (auto dest!: withTx_commits simp: ensureRepoInTx_def tx_simps f none split: option.splits if_splits)
  have g: "find (\<lambda>x. re_module_path x = m) (map ?g xs) = map_option ?g (find (\<lambda>x. re_module_path x = m) xs)" for m xs
    by (induction xs) auto
  show ?thesis unfolding T' g by (simp add: f none i)
qed

section \<open>A workspace index leaves its members fresh\<close>

text \<open>The drivers of package \<^verbatim>\<open>workspace\<close> on the tables: their store operations are the ones of this model.\<close>

definition store_ops :: "sql_env \<Rightarrow> hash_env \<Rightarrow> int \<Rightarrow> ('p, resolve_result, tables) index_ops \<Rightarrow> ('p, resolve_result, tables) index_ops" where
  "store_ops Q H now ops = ops\<lparr>
     io_Write := (\<lambda>r fs churn repos. WriteWorkspace Q r fs (Some churn) repos),
     io_Replace := (\<lambda>r fs churn m. ReplaceRepo Q r fs (Some churn) m),
     io_SetIndexedVia := SetIndexedVia Q,
     io_SetRepoIndexedAt := (\<lambda>m. SetRepoIndexedAt Q m now),
     io_Fingerprint := RecordSourceFingerprint Q H,
     io_SetChurnDegraded := SetChurnDegraded Q,
     io_SetRepoMissing := (\<lambda>m. SetRepoMissing Q m True)\<rparr>"

definition row_of :: "tables \<Rightarrow> string \<Rightarrow> repo_entry option" where
  "row_of T m = find (\<lambda>r. re_module_path r = m) (tb_repos T)"

definition dir_of :: "tables \<Rightarrow> string \<Rightarrow> string option" where
  "dir_of T m = map_option re_dir (row_of T m)"

lemma row_of_update: "(\<And>r. re_module_path (f r) = re_module_path r) \<Longrightarrow>
    row_of (update_repo m' f T) m = map_option (if m = m' then f else id) (row_of T m)"
proof -
  assume "\<And>r. re_module_path (f r) = re_module_path r"
  then have "find (\<lambda>r. re_module_path r = m) (map (\<lambda>r. if re_module_path r = m' then f r else r) rs)
      = map_option (if m = m' then f else id) (find (\<lambda>r. re_module_path r = m) rs)" for rs
    by (induction rs) auto
  then show ?thesis by (simp add: row_of_def update_repo_def)
qed

lemma row_of_put_meta [simp]: "row_of (put_meta k v T) = row_of T"
  by (simp add: row_of_def fun_eq_iff put_meta_def)

lemma ensureRepo_dir:
  assumes "ensureRepoInTx Q spec T = Inr (i, T')" "repos_ok (tb_repos T)"
  shows "dir_of T' = (dir_of T)(rs_ModulePath spec \<mapsto> rs_Dir spec)" "repos_ok (tb_repos T')"
proof -
  let ?m = "rs_ModulePath spec"
  let ?new = "\<lparr>re_id = next_id (map re_id (tb_repos T)), re_module_path = ?m, re_dir = rs_Dir spec,
      re_missing = rs_Missing spec, re_indexed_at = None\<rparr>"
  define rows where "rows = (if \<exists>r\<in>set (tb_repos T). re_module_path r = ?m then tb_repos T else tb_repos T @ [?new])"
  have ok: "repos_ok rows"
    using assms(2) next_id_fresh [of "map re_id (tb_repos T)"] next_id_pos [of "map re_id (tb_repos T)"]
    by (auto simp: rows_def repos_ok_def)
  from assms(1) obtain r where r: "find (\<lambda>r. re_module_path r = ?m) rows = Some r" "i = re_id r"
    and T': "tb_repos T' = map (\<lambda>r. if re_id r = i then r\<lparr>re_dir := rs_Dir spec, re_missing := rs_Missing spec\<rparr> else r) rows"
    by (auto simp: ensureRepoInTx_def tx_simps rows_def split: option.splits if_splits)
  show "repos_ok (tb_repos T')" unfolding T' using ok by (subst repos_ok_map) auto
  have mem: "r \<in> set rows" "re_module_path r = ?m" using r(1) by (auto simp: find_Some_iff)
  have id_eq: "re_id x = i \<longleftrightarrow> x = r" if "x \<in> set rows" for x
    using ok mem(1) r(2) that by (auto simp: repos_ok_def distinct_map inj_on_def)
  have mod_eq: "re_module_path x = ?m \<longleftrightarrow> x = r" if "x \<in> set rows" for x
    using ok mem that by (auto simp: repos_ok_def distinct_map inj_on_def)
  have look: "map_option re_dir (find (\<lambda>x. re_module_path x = m)
        (map (\<lambda>r. if re_id r = i then r\<lparr>re_dir := rs_Dir spec, re_missing := rs_Missing spec\<rparr> else r) xs))
      = (if m = ?m \<and> r \<in> set xs then Some (rs_Dir spec) else map_option re_dir (find (\<lambda>x. re_module_path x = m) xs))"
    if "set xs \<subseteq> set rows" for m xs
    using that
  proof (induction xs)
    case (Cons x xs)
    then show ?case using id_eq [of x] mod_eq [of x] mem(2) by auto
  qed simp
  have old: "map_option re_dir (find (\<lambda>x. re_module_path x = m) rows)
      = (if m = ?m then map_option re_dir (find (\<lambda>x. re_module_path x = m) rows) else dir_of T m)" for m
  proof (cases "m = ?m")
    case False
    then have "find (\<lambda>x. re_module_path x = m) (xs @ [?new]) = find (\<lambda>x. re_module_path x = m) xs" for xs
      by (induction xs) auto
    with False show ?thesis by (simp add: rows_def dir_of_def row_of_def)
  qed simp
  with look [of rows] mem(1) show "dir_of T' = (dir_of T)(?m \<mapsto> rs_Dir spec)"
    by (auto simp: dir_of_def [of T'] row_of_def [of T'] T' fun_eq_iff old)
qed

interpretation members: delete_frame "\<lambda>T T'. tb_repos T' = tb_repos T" UNIV
  by unfold_locales auto

interpretation members: replace_frame "\<lambda>T T'. tb_repos T' = tb_repos T" UNIV UNIV scope UNIV for scope
  by unfold_locales (auto simp: upsert_package_def insert_symbol_def upsert_edge_def Let_def insert_diagnostic_def
      set_churn_def upsert_file_def delete_not_in_def put_meta_def)

lemma registerRepos_dirs:
  assumes "registerRepos Q repos True T = Inr (m, T')" "repos_ok (tb_repos T)" "distinct (map rs_ModulePath repos)"
  shows "\<forall>spec\<in>set repos. dir_of T' (rs_ModulePath spec) = Some (rs_Dir spec)"
proof -
  define f where "f = (\<lambda>r m. tx_then (ensureRepoInTx Q r) (\<lambda>i. yields (gm_put (rs_ModulePath r) i m)))"
  have step: "\<exists>i. ensureRepoInTx Q r X = Inr (i, Y)" if "f r a X = Inr (b, Y)" for r a b X Y
    using that by (auto simp: f_def tx_simps split: sum.splits)
  have run: "tx_fold f rs a X = Inr (b, Y) \<Longrightarrow> repos_ok (tb_repos X) \<Longrightarrow> distinct (map rs_ModulePath rs) \<Longrightarrow>
      (\<forall>spec\<in>set rs. dir_of Y (rs_ModulePath spec) = Some (rs_Dir spec))
      \<and> (\<forall>k. k \<notin> rs_ModulePath ` set rs \<longrightarrow> dir_of Y k = dir_of X k)" for rs a b X Y
  proof (induction rs arbitrary: a X)
    case (Cons r rs)
    then obtain c X1 where 1: "f r a X = Inr (c, X1)" "tx_fold f rs c X1 = Inr (b, Y)"
      by (auto simp: tx_simps split: sum.splits)
    from step [OF 1(1)] obtain i where i: "ensureRepoInTx Q r X = Inr (i, X1)" by blast
    from ensureRepo_dir [OF i Cons.prems(2)] Cons.IH [OF 1(2)] Cons.prems(3) show ?case by auto
  qed (simp add: tx_simps)
  from assms(1) obtain T1 where 1: "tx_fold f repos [] T = Inr (m, T1)" "clearWorkspaceRows Q T1 = Inr ((), T')"
    by (auto simp: registerRepos_def f_def tx_simps(1,2,3) split: sum.splits)
  have "tb_repos T' = tb_repos T1" using members.obeysD [OF members.obeys_clearWorkspaceRows 1(2)] by simp
  then have "dir_of T' = dir_of T1" by (simp add: dir_of_def row_of_def fun_eq_iff)
  with run [OF 1(1) assms(2,3)] show ?thesis by simp
qed

definition provenance :: "tables \<Rightarrow> bool" where
  "provenance T \<longleftrightarrow> map_of (tb_meta T) generatedProvenanceKey \<noteq> None
     \<and> map_of (tb_meta T) analyzerVersionKey = Some analyzerVersion"

lemma WriteWorkspace_members:
  assumes "WriteWorkspace Q r fs churn repos T = (Inr (), T')" "repos_ok (tb_repos T)" "distinct (map rs_ModulePath repos)"
  shows "provenance T'" "\<forall>spec\<in>set repos. dir_of T' (rs_ModulePath spec) = Some (rs_Dir spec)"
proof -
  have "writeTx Q r fs churn repos True T = Inr ((), T')"
    using assms(1) unfolding WriteWorkspace_def write_index_def by (rule withTx_commits)
  then have "provenance T' \<and> (\<forall>spec\<in>set repos. dir_of T' (rs_ModulePath spec) = Some (rs_Dir spec))"
  proof (cases rule: writeTx_parts)
    case (1 m T1 T2 T3 T4 d T5 T6 T7)
    have d: "members.obeys (if d then populateFileContentFTS Q else yields ())"
      by (auto intro: members.obeys_populateFileContentFTS members.obeys_yields)
    from 1(2) have "T2 = T1" by (simp add: yields_def)
    with members.obeysD [OF members.obeys_index_rows 1(3)] members.obeysD [OF members.obeys_writeDeferredRows 1(4)]
      members.obeysD [OF members.obeys_writeFiles 1(5)] members.obeysD [OF d 1(7)]
      members.obeysD [OF members.obeys_completeIndexWrite 1(8)] 1(6)
    have "tb_repos T' = tb_repos T1" by simp
    then have "dir_of T' = dir_of T1" by (simp add: dir_of_def row_of_def fun_eq_iff)
    moreover have "provenance T'"
      using 1(8) by (auto simp: completeIndexWrite_def deleteResponseChunksTx_def setGeneratedProvenanceTx_def
          setAnalyzerVersionTx_def insert_meta_def tx_simps provenance_def put_meta_lookup generatedProvenanceKey_def
          analyzerVersionKey_def split: option.splits)
    ultimately show ?thesis using registerRepos_dirs [OF 1(1) assms(2,3)] by simp
  qed
  then show "provenance T'" "\<forall>spec\<in>set repos. dir_of T' (rs_ModulePath spec) = Some (rs_Dir spec)" by auto
qed

text \<open>What the driver leaves for one member: its directory, the provenance, its time and its fingerprint.\<close>

definition member_ready :: "sql_env \<Rightarrow> int \<Rightarrow> string \<Rightarrow> string \<Rightarrow> tables \<Rightarrow> bool" where
  "member_ready Q now m dir T \<longleftrightarrow> provenance T \<and> dir_of T m = Some dir"

definition member_done :: "sql_env \<Rightarrow> int \<Rightarrow> string \<Rightarrow> string \<Rightarrow> string \<Rightarrow> tables \<Rightarrow> bool" where
  "member_done Q now m dir fp T \<longleftrightarrow> member_ready Q now m dir T
     \<and> map_option re_indexed_at (row_of T m) = Some (Some (sq_time Q now)) \<and> map_of (tb_meta T) (sourceFingerprintMetaKey m) = Some fp"

lemma fingerprint_key_inj: "sourceFingerprintMetaKey m = sourceFingerprintMetaKey m' \<longleftrightarrow> m = m'"
  by (auto simp: sourceFingerprintMetaKey_def)

lemma fingerprint_key_other:
  "sourceFingerprintMetaKey m \<noteq> generatedProvenanceKey" "sourceFingerprintMetaKey m \<noteq> analyzerVersionKey"
  "sourceFingerprintMetaKey m \<noteq> ''indexed_at''" "sourceFingerprintMetaKey m \<noteq> ''indexed_via''"
  "sourceFingerprintMetaKey m \<noteq> churnDegradedKey"
  by (auto simp: sourceFingerprintMetaKey_def sourceFingerprintKey_def generatedProvenanceKey_def analyzerVersionKey_def churnDegradedKey_def)

lemma keys_differ:
  "generatedProvenanceKey \<noteq> ''indexed_at''" "generatedProvenanceKey \<noteq> ''indexed_via''" "generatedProvenanceKey \<noteq> churnDegradedKey"
  "analyzerVersionKey \<noteq> ''indexed_at''" "analyzerVersionKey \<noteq> ''indexed_via''" "analyzerVersionKey \<noteq> churnDegradedKey"
  by (simp_all add: generatedProvenanceKey_def analyzerVersionKey_def churnDegradedKey_def)

lemma dir_of_put_meta [simp]: "dir_of (put_meta k v T) = dir_of T"
  by (simp add: dir_of_def fun_eq_iff)

lemma dir_of_update: "(\<And>r. re_module_path (f r) = re_module_path r \<and> re_dir (f r) = re_dir r) \<Longrightarrow> dir_of (update_repo m' f T) = dir_of T"
  by (auto simp: dir_of_def fun_eq_iff row_of_update option.map_comp comp_def)

lemma update_repo_meta [simp]: "tb_meta (update_repo m f T) = tb_meta T"
  by (simp add: update_repo_def)

lemma stamp_effect:
  assumes "stamp_member (store_ops Q H now ops) contents m T = (Inr (), T')"
  shows "T' = RecordSourceFingerprint Q H (mb_Module m) (mb_Dir m) contents
     (put_meta ''indexed_at'' (sq_time Q now) (update_repo (mb_Module m) (\<lambda>r. r\<lparr>re_indexed_at := Some (sq_time Q now)\<rparr>) T))"
proof -
  from assms obtain T1 where s: "SetRepoIndexedAt Q (mb_Module m) now T = (Inr (), T1)"
    and T': "T' = RecordSourceFingerprint Q H (mb_Module m) (mb_Dir m) contents T1"
    by (auto simp: stamp_member_def and_then_def failing_as_def store_ops_def split: prod.splits sum.splits)
  from s have "T1 = put_meta ''indexed_at'' (sq_time Q now) (update_repo (mb_Module m) (\<lambda>r. r\<lparr>re_indexed_at := Some (sq_time Q now)\<rparr>) T)"
    unfolding SetRepoIndexedAt_def insert_meta_def
    by (auto dest!: withTx_commits simp: tx_simps split: option.splits)
  with T' show ?thesis by simp
qed

lemma record_fingerprint_effect:
  assumes "sq_fault Q = (\<lambda>_ _. None)"
  shows "RecordSourceFingerprint Q H m dir known T =
    (case hashSource H dir known of Inl _ \<Rightarrow> T | Inr fp \<Rightarrow> put_meta (sourceFingerprintMetaKey m) fp T)"
  by (simp add: RecordSourceFingerprint_def SetSourceFingerprint_def quiet_reads [OF assms] split: sum.splits)

lemma stamp_ready:
  assumes "sq_fault Q = (\<lambda>_ _. None)" "stamp_member (store_ops Q H now ops) contents x T = (Inr (), T')"
  shows "member_ready Q now m dir T \<Longrightarrow> member_ready Q now m dir T'"
  using fingerprint_key_other [of "mb_Module x"]
  by (auto simp: stamp_effect [OF assms(2)] record_fingerprint_effect [OF assms(1)] member_ready_def provenance_def dir_of_update
      keys_differ split: sum.splits)

lemma stamp_done:
  assumes "sq_fault Q = (\<lambda>_ _. None)" "stamp_member (store_ops Q H now ops) contents x T = (Inr (), T')"
    and "mb_Module x = m" "hashSource H (mb_Dir x) contents = Inr fp" "member_ready Q now m dir T"
  shows "member_done Q now m dir fp T'"
proof -
  from assms(5) obtain r where "row_of T m = Some r" by (auto simp: member_ready_def dir_of_def)
  with stamp_ready [OF assms(1,2,5)] assms(3,4) show ?thesis
    by (simp add: member_done_def stamp_effect [OF assms(2)] record_fingerprint_effect [OF assms(1)] row_of_update)
qed

lemma stamp_keeps_done:
  assumes "sq_fault Q = (\<lambda>_ _. None)" "stamp_member (store_ops Q H now ops) contents x T = (Inr (), T')"
    and "mb_Module x \<noteq> m" "member_done Q now m dir fp T"
  shows "member_done Q now m dir fp T'"
proof -
  have r: "member_ready Q now m dir T'" using stamp_ready [OF assms(1,2)] assms(4) by (simp add: member_done_def)
  with assms(3,4) fingerprint_key_inj [of m "mb_Module x"] show ?thesis
    by (auto simp: member_done_def stamp_effect [OF assms(2)] record_fingerprint_effect [OF assms(1)] row_of_update
        fingerprint_key_other option.map_comp split: sum.splits)
qed

lemma stamps_done:
  assumes q: "sq_fault Q = (\<lambda>_ _. None)"
  shows "each_op (stamp_member (store_ops Q H now ops) contents) ms T = (Inr (), T') \<Longrightarrow> distinct (map mb_Module ms) \<Longrightarrow>
    x \<in> set ms \<Longrightarrow> hashSource H (mb_Dir x) contents = Inr fp \<Longrightarrow> member_ready Q now (mb_Module x) dir T \<Longrightarrow>
    member_done Q now (mb_Module x) dir fp T'"
proof (induction ms arbitrary: T)
  case (Cons y ms)
  then obtain T1 where 1: "stamp_member (store_ops Q H now ops) contents y T = (Inr (), T1)"
      "each_op (stamp_member (store_ops Q H now ops) contents) ms T1 = (Inr (), T')"
    by (auto simp: and_then_def split: prod.splits sum.splits)
  have kept: "each_op (stamp_member (store_ops Q H now ops) contents) zs U = (Inr (), V) \<Longrightarrow> mb_Module x \<notin> mb_Module ` set zs \<Longrightarrow>
      member_done Q now (mb_Module x) dir fp U \<Longrightarrow> member_done Q now (mb_Module x) dir fp V" for zs U V
  proof (induction zs arbitrary: U)
    case (Cons z zs)
    then obtain W where w: "stamp_member (store_ops Q H now ops) contents z U = (Inr (), W)"
        "each_op (stamp_member (store_ops Q H now ops) contents) zs W = (Inr (), V)"
      by (auto simp: and_then_def split: prod.splits sum.splits)
    have "mb_Module z \<noteq> mb_Module x" "mb_Module x \<notin> mb_Module ` set zs" using Cons.prems(2) by auto
    with Cons.IH [OF w(2)] stamp_keeps_done [OF q w(1) _ Cons.prems(3)] show ?case by simp
  qed simp
  show ?case
  proof (cases "x = y")
    case True
    with stamp_done [OF q 1(1) _ _ Cons.prems(5)] Cons.prems kept [OF 1(2)] show ?thesis by auto
  next
    case False
    with Cons stamp_ready [OF q 1(1)] 1(2) show ?thesis by auto
  qed
qed simp

lemma churn_keeps_done: "sq_fault Q = (\<lambda>_ _. None) \<Longrightarrow> member_done Q now m dir fp T \<Longrightarrow>
    member_done Q now m dir fp (snd (SetChurnDegraded Q reason T))"
  using fingerprint_key_other [of m] keys_differ
  by (auto simp: SetChurnDegraded_def quiet_reads member_done_def member_ready_def provenance_def)

lemma missing_keeps_done: "sq_fault Q = (\<lambda>_ _. None) \<Longrightarrow> member_done Q now m dir fp T \<Longrightarrow>
    member_done Q now m dir fp (snd (SetRepoMissing Q m' b T))"
  by (auto simp: SetRepoMissing_def quiet_reads member_done_def member_ready_def provenance_def dir_of_update row_of_update option.map_comp comp_def)

lemma via_keeps_ready: "sq_fault Q = (\<lambda>_ _. None) \<Longrightarrow> member_ready Q now m dir T \<Longrightarrow> member_ready Q now m dir (snd (SetIndexedVia Q via T))"
  using keys_differ by (auto simp: SetIndexedVia_def quiet_reads member_ready_def provenance_def)

lemma missings_keep_done:
  assumes "sq_fault Q = (\<lambda>_ _. None)"
  shows "each_op (\<lambda>x. SetRepoMissing Q (mb_Module x) True) ms T = (r, T') \<Longrightarrow> member_done Q now m dir fp T \<Longrightarrow>
    member_done Q now m dir fp T'"
proof (induction ms arbitrary: T)
  case (Cons x ms)
  then show ?case using missing_keeps_done [OF assms Cons.prems(2), of "mb_Module x" True]
    by (auto simp: and_then_def split: prod.splits sum.splits)
qed simp

lemma writeWorkspaceStore_done:
  assumes "writeWorkspaceStore (store_ops Q H now ops) c r contents churn churnErr
      (map (\<lambda>m. \<lparr>rs_ModulePath = mb_Module m, rs_Dir = mb_Dir m, rs_Missing = mb_Missing m\<rparr>) (wc_Members c)) via T = (Inr (), T')"
    and q: "sq_fault Q = (\<lambda>_ _. None)" and "repos_ok (tb_repos T)" "distinct (map mb_Module (wc_Members c))"
    and "x \<in> set (Existing c)" "hashSource H (mb_Dir x) contents = Inr fp"
  shows "member_done Q now (mb_Module x) (mb_Dir x) fp T'"
proof -
  let ?specs = "map (\<lambda>m. \<lparr>rs_ModulePath = mb_Module m, rs_Dir = mb_Dir m, rs_Missing = mb_Missing m\<rparr>) (wc_Members c)"
  from assms(1) obtain T1 T2 T3 T4 where
    1: "WriteWorkspace Q r contents (Some churn) ?specs T = (Inr (), T1)"
    and 2: "SetIndexedVia Q via T1 = (Inr (), T2)"
    and 3: "each_op (stamp_member (store_ops Q H now ops) contents) (Existing c) T2 = (Inr (), T3)"
    and 4: "SetChurnDegraded Q (churnReason churnErr) T3 = (Inr (), T4)"
    and 5: "each_op (\<lambda>m. SetRepoMissing Q (mb_Module m) True) (filter mb_Missing (wc_Members c)) T4 = (Inr (), T')"
    by (auto simp: writeWorkspaceStore_def and_then_def failing_as_def store_ops_def split: prod.splits sum.splits)
  have x: "x \<in> set (wc_Members c)" using assms(5) by (simp add: Existing_def)
  have d: "distinct (map rs_ModulePath ?specs)" using assms(4) by (simp add: comp_def)
  from WriteWorkspace_members [OF 1 assms(3) d] x have "member_ready Q now (mb_Module x) (mb_Dir x) T1"
    by (auto simp: member_ready_def)
  from via_keeps_ready [OF q this, of via] 2 have "member_ready Q now (mb_Module x) (mb_Dir x) T2" by simp
  from stamps_done [OF q 3 _ assms(5,6) this] assms(4)
  have "member_done Q now (mb_Module x) (mb_Dir x) fp T3" by (simp add: Existing_def distinct_map_filter)
  from churn_keeps_done [OF q this, of "churnReason churnErr"] 4
  have "member_done Q now (mb_Module x) (mb_Dir x) fp T4" by simp
  from missings_keep_done [OF q 5 this] show ?thesis .
qed

lemma member_done_fresh:
  assumes "member_done Q now m dir fp T" "sq_fault Q = (\<lambda>_ _. None)"
    and "sq_parseTime Q (sq_time Q now) = Inr t" "sq_time Q now \<noteq> []" "hashSource H dir [] = Inr fp"
  shows "IsRepoStale U Q H T m = Inr False"
proof -
  from assms(1) obtain r where r: "find (\<lambda>r. re_module_path r = m) (tb_repos T) = Some r" "re_dir r = dir"
      "re_indexed_at r = Some (sq_time Q now)"
    by (auto simp: member_done_def member_ready_def dir_of_def row_of_def)
  with assms show ?thesis
    by (simp add: IsRepoStale_def RepoIndexedAt_def quiet_reads member_done_def member_ready_def provenance_def
        sourceStale_def sourceFingerprint_def)
qed

end
