(* ===== verification/Store_Run.thy ===== *)
theory Store_Run
  imports Store_Fresh
begin

text \<open>
  Runs of the store: with an engine that refuses no statement every index write commits, and so does the sequence of
  store calls of a workspace index; the example databases of the witnesses.
\<close>

section \<open>Writes succeed when nothing fails\<close>

definition faultless :: "sql_env \<Rightarrow> bool" where
  "faultless Q \<longleftrightarrow> sq_begin Q = None \<and> sq_commit Q = None \<and> sq_fault Q = (\<lambda>_ _. None) \<and> sq_hook Q = (\<lambda>_ _. None)
     \<and> (\<forall>fs. \<exists>s. sq_fieldsJSON Q fs = Inr s)"

definition succeeds :: "'a tx \<Rightarrow> bool" where
  "succeeds m \<longleftrightarrow> (\<forall>T. \<exists>x T'. m T = Inr (x, T'))"

lemma succeedsE: "succeeds m \<Longrightarrow> (\<And>x T'. m T = Inr (x, T') \<Longrightarrow> thesis) \<Longrightarrow> thesis"
  by (auto simp: succeeds_def)

lemma succeeds_yields: "succeeds (yields x)"
  by (simp add: succeeds_def yields_def)

lemma succeeds_then: "succeeds m \<Longrightarrow> (\<And>x. succeeds (k x)) \<Longrightarrow> succeeds (tx_then m k)"
proof -
  assume m: "succeeds m" and k: "\<And>x. succeeds (k x)"
  show "succeeds (tx_then m k)"
    unfolding succeeds_def
  proof
    fix T
    from m obtain x T1 where 1: "m T = Inr (x, T1)" by (rule succeedsE)
    from k obtain y T2 where "k x T1 = Inr (y, T2)" by (rule succeedsE)
    with 1 show "\<exists>x T'. tx_then m k T = Inr (x, T')" by (simp add: tx_then_def)
  qed
qed

lemma succeeds_seq: "succeeds m \<Longrightarrow> succeeds n \<Longrightarrow> succeeds (tx_seq m n)"
  by (simp add: tx_seq_def succeeds_then)

lemma succeeds_wrap: "succeeds m \<Longrightarrow> succeeds (tx_wrap msg m)"
proof -
  assume m: "succeeds m"
  show "succeeds (tx_wrap msg m)"
    unfolding succeeds_def
  proof
    fix T
    from m obtain x T1 where "m T = Inr (x, T1)" by (rule succeedsE)
    then show "\<exists>x T'. tx_wrap msg m T = Inr (x, T')" by (simp add: tx_wrap_def)
  qed
qed

lemma succeeds_fold: "(\<And>x a. x \<in> set xs \<Longrightarrow> succeeds (f x a)) \<Longrightarrow> succeeds (tx_fold f xs a)"
  by (induction xs arbitrary: a) (auto intro: succeeds_yields succeeds_then)

lemma succeeds_each: "(\<And>x. x \<in> set xs \<Longrightarrow> succeeds (f x)) \<Longrightarrow> succeeds (tx_each f xs)"
  by (simp add: tx_each_def succeeds_fold)

lemma succeeds_exec: "faultless Q \<Longrightarrow> succeeds (exec Q s a f)"
  by (simp add: succeeds_def exec_def faultless_def)

lemma succeeds_hook: "faultless Q \<Longrightarrow> succeeds (maybeFail Q s k)"
  by (simp add: succeeds_def maybeFail_def faultless_def)

lemma succeeds_statements: "faultless Q \<Longrightarrow> succeeds (run_statements Q xs)"
  unfolding run_statements_def by (rule succeeds_each) (auto intro: succeeds_exec)

lemmas succeeds_rules = succeeds_yields succeeds_then succeeds_seq succeeds_wrap succeeds_fold succeeds_each succeeds_exec
  succeeds_hook succeeds_statements

lemma find_present: "\<exists>r\<in>set xs. P r \<Longrightarrow> \<exists>r. find P xs = Some r"
  by (metis find_None_iff not_Some_eq)

lemma succeeds_ensureRepo:
  assumes "faultless Q"
  shows "succeeds (ensureRepoInTx Q spec)"
  unfolding succeeds_def
proof
  fix T :: tables
  define T1 where "T1 = (if \<exists>r\<in>set (tb_repos T). re_module_path r = rs_ModulePath spec then T
         else T\<lparr>tb_repos := tb_repos T @ [\<lparr>re_id = next_id (map re_id (tb_repos T)), re_module_path = rs_ModulePath spec,
                 re_dir = rs_Dir spec, re_missing = rs_Missing spec, re_indexed_at = None\<rparr>]\<rparr>)"
  have "\<exists>r. find (\<lambda>r. re_module_path r = rs_ModulePath spec) (tb_repos T1) = Some r"
    by (rule find_present) (auto simp: T1_def)
  then obtain r where "find (\<lambda>r. re_module_path r = rs_ModulePath spec) (tb_repos T1) = Some r" ..
  with assms show "\<exists>x T'. ensureRepoInTx Q spec T = Inr (x, T')"
    by (simp add: ensureRepoInTx_def tx_simps faultless_def flip: T1_def)
qed

lemma succeeds_writePackage:
  assumes "faultless Q"
  shows "succeeds (writePackage Q m p c)"
  unfolding succeeds_def
proof
  fix T :: tables
  define T1 where "T1 = upsert_package p (nullableRepo (gm_get 0 m (pi_ModulePath p))) T"
  have "\<exists>r. find (\<lambda>r. pe_path r = pi_ImportPath p) (tb_packages T1) = Some r"
  proof (rule find_present, cases "\<exists>q\<in>set (tb_packages T). pe_path q = pi_ImportPath p")
    case True
    then obtain q where "q \<in> set (tb_packages T)" "pe_path q = pi_ImportPath p" by blast
    then have "has_package T (pi_ImportPath p) (pe_id q)" by (auto simp: has_package_def)
    from has_package_upsert [OF this] show "\<exists>r\<in>set (tb_packages T1). pe_path r = pi_ImportPath p"
      unfolding T1_def has_package_def by blast
  qed (simp add: T1_def upsert_package_def)
  then obtain r where "find (\<lambda>r. pe_path r = pi_ImportPath p) (tb_packages T1) = Some r" ..
  with assms show "\<exists>x T'. writePackage Q m p c T = Inr (x, T')"
    by (simp add: writePackage_def tx_simps faultless_def flip: T1_def)
qed

lemma succeeds_writeSymbol: "faultless Q \<Longrightarrow> succeeds (writeSymbol Q a d)"
proof -
  assume q: "faultless Q"
  then obtain js where "sq_fieldsJSON Q (xs_Fields d) = Inr js" unfolding faultless_def by blast
  with q show ?thesis by (auto simp: writeSymbol_def split: prod.split intro!: succeeds_rules)
qed

lemma succeeds_writeFiles: "faultless Q \<Longrightarrow> succeeds (writeFiles Q fs rf scope)"
proof -
  assume q: "faultless Q"
  have 1: "succeeds (writeFile Q rf f d)" for f d
    using q by (cases f) (auto simp: succeeds_def writeFile_def tx_simps faultless_def)
  have 2: "succeeds (deleteStaleBatch Q scope b d)" for b d
    using q by (auto simp: succeeds_def deleteStaleBatch_def tx_simps faultless_def)
  from q show ?thesis
    unfolding writeFiles_def deleteStaleFiles_def by (auto intro!: succeeds_rules 1 2)
qed

lemma succeeds_writeTx: "faultless Q \<Longrightarrow> succeeds (writeTx Q r fs churn repos workspace)"
proof -
  assume q: "faultless Q"
  have reg: "succeeds (registerRepos Q repos w)" for w
    using q unfolding registerRepos_def clearWorkspaceRows_def
    by (auto intro!: succeeds_rules succeeds_ensureRepo)
  have churn: "succeeds (applyChurn Q c)" for c
    using q unfolding applyChurn_def by (auto intro!: succeeds_rules simp: case_prod_beta)
  have rows: "succeeds (index_rows Q r m)" for m
    using q unfolding index_rows_def Let_def writePackages_def writeSymbols_def writeEdges_def writeEdge_def
    by (intro succeeds_rules succeeds_writePackage succeeds_writeSymbol) auto
  have deferred: "succeeds (writeDeferredRows Q r churn rf)" for rf
    using q unfolding writeDeferredRows_def writeDiagnostics_def
    by (auto intro!: succeeds_rules churn split: option.split)
  from q show ?thesis
    unfolding writeTx_def Let_def clearSingleRepoRows_def populateFTS_def populateFileContentFTS_def completeIndexWrite_def
      deleteResponseChunksTx_def setGeneratedProvenanceTx_def setAnalyzerVersionTx_def insert_meta_def
    by (auto intro!: succeeds_rules reg rows deferred succeeds_writeFiles)
qed

lemma write_index_succeeds: "faultless Q \<Longrightarrow> \<exists>T'. write_index Q r fs churn repos workspace T = (Inr (), T')"
  using succeeds_writeTx [of Q r fs churn repos workspace]
  by (auto simp: succeeds_def write_index_def withTx_def faultless_def dest!: spec [of _ T])

section \<open>A workspace index succeeds when nothing fails\<close>

definition op_runs :: "tables op \<Rightarrow> bool" where
  "op_runs f \<longleftrightarrow> (\<forall>T. \<exists>T'. f T = (Inr (), T'))"

lemma op_runsE: "op_runs f \<Longrightarrow> (\<And>T'. f T = (Inr (), T') \<Longrightarrow> thesis) \<Longrightarrow> thesis"
  unfolding op_runs_def by blast

lemma runs_then: "op_runs f \<Longrightarrow> op_runs g \<Longrightarrow> op_runs (and_then f g)"
proof -
  assume f: "op_runs f" and g: "op_runs g"
  show "op_runs (and_then f g)"
    unfolding op_runs_def
  proof
    fix T
    from f obtain T1 where 1: "f T = (Inr (), T1)" by (rule op_runsE)
    from g obtain T2 where "g T1 = (Inr (), T2)" by (rule op_runsE)
    with 1 show "\<exists>T'. and_then f g T = (Inr (), T')" by (simp add: and_then_def)
  qed
qed

lemma runs_failing: "op_runs f \<Longrightarrow> op_runs (failing_as msg f)"
proof -
  assume f: "op_runs f"
  show "op_runs (failing_as msg f)"
    unfolding op_runs_def
  proof
    fix T
    from f obtain T1 where "f T = (Inr (), T1)" by (rule op_runsE)
    then show "\<exists>T'. failing_as msg f T = (Inr (), T')" by (simp add: failing_as_def)
  qed
qed

lemma runs_each: "(\<And>x. x \<in> set xs \<Longrightarrow> op_runs (f x)) \<Longrightarrow> op_runs (each_op f xs)"
proof (induction xs)
  case Nil
  then show ?case by (simp add: op_runs_def)
next
  case (Cons x xs)
  then have "op_runs (and_then (f x) (each_op f xs))" by (intro runs_then) auto
  then show ?case by (simp add: op_runs_def)
qed

lemma runs_withTx: "faultless Q \<Longrightarrow> succeeds fn \<Longrightarrow> op_runs (withTx Q fn)"
proof -
  assume q: "faultless Q" and s: "succeeds fn"
  show "op_runs (withTx Q fn)"
    unfolding op_runs_def
  proof
    fix T
    from s obtain x T1 where "fn T = Inr (x, T1)" by (rule succeedsE)
    with q show "\<exists>T'. withTx Q fn T = (Inr (), T')" by (simp add: withTx_def faultless_def)
  qed
qed

lemma runs_quiet: "faultless Q \<Longrightarrow> op_runs (autocommit Q s a f)"
  by (simp add: op_runs_def autocommit_def faultless_def)

lemma runs_pure: "op_runs (\<lambda>st. (Inr (), f st))" "op_runs (Pair (Inr ()))"
  by (simp_all add: op_runs_def)

lemma writeWorkspaceStore_runs:
  assumes q: "faultless Q"
  shows "op_runs (writeWorkspaceStore (store_ops Q H now ops) c r contents churn churnErr specs via)"
proof -
  have w: "op_runs (WriteWorkspace Q r contents (Some churn) specs)"
    unfolding WriteWorkspace_def write_index_def by (rule runs_withTx [OF q succeeds_writeTx [OF q]])
  have v: "op_runs (SetIndexedVia Q via)"
    using q by (auto simp: op_runs_def SetIndexedVia_def set_meta_def autocommit_def faultless_def)
  have at: "op_runs (SetRepoIndexedAt Q m now)" for m
    unfolding SetRepoIndexedAt_def insert_meta_def by (intro runs_withTx [OF q] succeeds_rules q)
  have d: "op_runs (SetChurnDegraded Q reason)" for reason
    unfolding SetChurnDegraded_def set_meta_def by (rule runs_quiet [OF q])
  have m: "op_runs (SetRepoMissing Q x True)" for x
    unfolding SetRepoMissing_def by (rule runs_quiet [OF q])
  have s: "op_runs (stamp_member (store_ops Q H now ops) contents x)" for x
    unfolding stamp_member_def by (intro runs_then runs_failing runs_pure) (simp add: store_ops_def at)
  have ops: "io_Write (store_ops Q H now ops) = (\<lambda>r fs churn repos. WriteWorkspace Q r fs (Some churn) repos)"
    "io_SetIndexedVia (store_ops Q H now ops) = SetIndexedVia Q"
    "io_SetChurnDegraded (store_ops Q H now ops) = SetChurnDegraded Q"
    "io_SetRepoMissing (store_ops Q H now ops) = (\<lambda>m. SetRepoMissing Q m True)"
    by (simp_all add: store_ops_def)
  show ?thesis
    unfolding writeWorkspaceStore_def ops by (intro runs_then runs_failing runs_each w v s d m)
qed

section \<open>Examples\<close>

definition quiet_env :: sql_env where
  "quiet_env = \<lparr>sq_begin = None, sq_commit = None, sq_fault = (\<lambda>_ _. None), sq_hook = (\<lambda>_ _. None),
     sq_union = (\<lambda>a b. remdups (a @ b)), sq_fieldsJSON = (\<lambda>_. Inr ''[]''), sq_driftJSON = (\<lambda>_. Inr ''[]''),
     sq_time = itoa, sq_parseTime = (\<lambda>s. case atoi s of None \<Rightarrow> Inl ''not a time'' | Some n \<Rightarrow> Inr n)\<rparr>"

definition demo_package :: "string \<Rightarrow> string \<Rightarrow> package_info" where
  "demo_package path modu = \<lparr>pi_ImportPath = path, pi_Name = path_base path, pi_Dir = path, pi_ModulePath = modu, pi_Doc = [],
     pi_Files = [], pi_IsTest = False, pi_IsGenerated = False\<rparr>"

definition demo_decl :: "string \<Rightarrow> string \<Rightarrow> extract_symbol" where
  "demo_decl pkg name = \<lparr>xs_QualifiedName = pkg @ ''.'' @ name, xs_Name = name, xs_Kind = ''func'', xs_Receiver = [],
     xs_Signature = [], xs_Doc = [], xs_Fields = [], xs_Pos = \<lparr>st_File = pkg @ ''/x.go'', st_Line = 3, st_Column = 6\<rparr>,
     xs_Complexity = 1, xs_Exported = True, xs_IsTest = False, xs_IsGenerated = False\<rparr>"

definition demo_index :: "(string \<times> string) list \<Rightarrow> resolve_result" where
  "demo_index ps = \<lparr>ir_Packages = map (\<lambda>(p, m). demo_package p m) ps, ir_Symbols = map (\<lambda>(p, m). demo_decl p ''F'') ps,
     ir_Edges = [], ir_Warnings = [], ir_Diagnostics = []\<rparr>"

definition nested_specs :: "repo_spec list" where
  "nested_specs = [\<lparr>rs_ModulePath = ''m'', rs_Dir = ''/w'', rs_Missing = False\<rparr>,
     \<lparr>rs_ModulePath = ''m/sub'', rs_Dir = ''/w/sub'', rs_Missing = False\<rparr>]"

text \<open>
  A member inside another one: the symbols of a package go to the first module of the map that is a prefix of its path,
  its package row to its own module. Reindexing the outer member then removes the symbols of the inner one.
\<close>

definition nested_written :: "unit result \<times> tables" where
  "nested_written = WriteWorkspace quiet_env (demo_index [(''m/a'', ''m''), (''m/sub/b'', ''m/sub'')])
     [(''/w/a/x.go'', ''a''), (''/w/sub/b/x.go'', ''b'')] None nested_specs empty_tables"

definition nested_replaced :: "unit result \<times> tables" where
  "nested_replaced = ReplaceRepo quiet_env (demo_index [(''m/a'', ''m'')]) [(''/w/a/x.go'', ''a'')] None ''m'' (snd nested_written)"

lemma nested_member_loses_symbols:
  "fst nested_written = Inr () \<and> map se_qualified_name (tb_symbols (snd nested_written)) = [''m/a.F'', ''m/sub/b.F'']
   \<and> map pe_repo_id (tb_packages (snd nested_written)) = [Some 1, Some 2]
   \<and> fst nested_replaced = Inr () \<and> map se_qualified_name (tb_symbols (snd nested_replaced)) = [''m/a.F'']
   \<and> map pe_path (tb_packages (snd nested_replaced)) = [''m/sub/b'', ''m/a'']"
  by code_simp

end
