(* ===== verification/Store_Proofs.thy ===== *)
theory Store_Proofs
  imports Store_Run
begin

text \<open>
  Properties of the database of an index: its consistency under every sequence of calls, what reading back gives after a
  write, the replacement of one member, the rows of declarations and edges.
\<close>

section \<open>Consistency\<close>

text \<open>
  C16: Whatever sequence of calls a database has seen, failed calls included, its keys are unique and the full-text index of the symbols
  holds exactly what a rebuild from the current rows gives; so does the one of the file contents as long as no
  \<^verbatim>\<open>WriteFiles\<close> or \<^verbatim>\<open>WriteFilesRepo\<close>, which rebuild no index, is among the calls.
\<close>

theorem store_invariant:
  assumes "store_calls b T"
  shows "tables_keys T \<and> symbols_fresh T \<and> (b \<longrightarrow> content_fresh T)"
  using calls_sound [OF assms] by (simp add: store_sound_def)

lemma nested_reachable: "store_reachable (snd nested_written)" "store_reachable (snd nested_replaced)"
proof -
  have wf: "gm_wf [(''/w/a/x.go'', ''a''), (''/w/sub/b/x.go'', ''b'')]" "gm_wf [(''/w/a/x.go'', ''a'')]"
    by (simp_all add: gm_wf_def)
  show 1: "store_reachable (snd nested_written)"
    unfolding nested_written_def by (rule reach_step [OF reach_empty step_WriteWorkspace [OF wf(1)]])
  show "store_reachable (snd nested_replaced)"
    unfolding nested_replaced_def by (rule reach_step [OF 1 step_ReplaceRepo [OF wf(2)]])
qed

theorem store_invariant_witness:
  "content_fresh (snd nested_replaced)
   \<and> tables_keys (snd (WriteFiles quiet_env [(''b.go'', ''y'')] (snd nested_replaced)))
   \<and> symbols_fresh (snd (WriteFiles quiet_env [(''b.go'', ''y'')] (snd nested_replaced)))
   \<and> \<not> content_fresh (snd (WriteFiles quiet_env [(''b.go'', ''y'')] (snd nested_replaced)))"
proof -
  have "store_calls True (snd nested_replaced)" by (rule reachable_calls [OF nested_reachable(2)])
  note 1 = store_invariant [OF this]
  have "gm_wf [(''b.go'', ''y'')]" by (simp add: gm_wf_def)
  note 2 = store_invariant [OF calls_WriteFiles [OF reachable_calls [OF nested_reachable(2)] this, of quiet_env]]
  have "\<not> content_fresh (snd (WriteFiles quiet_env [(''b.go'', ''y'')] (snd nested_replaced)))" by code_simp
  with 1 2 show ?thesis by simp
qed

section \<open>Contents\<close>



text \<open>
  C29: An index write of more than 500 files succeeds and leaves no file row at all and an empty content index: the
  removal of stale rows runs batch by batch, and each batch deletes the paths of the others.
\<close>

theorem index_write_loses_many_files:
  assumes "faultless Q" "gm_wf fs" "edgesInBatchSize < length fs" "store_reachable T"
  shows "\<exists>T'. write_index Q r fs churn repos workspace T = (Inr (), T') \<and> tb_files T' = [] \<and> tb_content_fts T' = []"
proof -
  from write_index_succeeds [OF assms(1)] obtain T' where w: "write_index Q r fs churn repos workspace T = (Inr (), T')" by blast
  from write_index_files [OF w] obtain rf T1 d T2 where f: "writeFiles Q fs rf \<lparr>fs_repoID = 0\<rparr> T1 = Inr (d, T2)" "tb_files T' = tb_files T2"
    by blast
  from assms(3) have "fs \<noteq> []" by auto
  with writeFiles_owns_all(2) [OF f(1) assms(2)] assms(3) f(2) have none: "tb_files T' = []" by simp
  have "writeTx Q r fs churn repos workspace T = Inr ((), T')"
    using w unfolding write_index_def by (rule withTx_commits)
  from writeTx_fresh [OF this assms(2)] reachable_ok [OF assms(4)] none have "tb_content_fts T' = []"
    by (simp add: store_ok_def content_fresh_def)
  with w none show ?thesis by blast
qed

definition many_files :: files where
  "many_files = map (\<lambda>n. (replicate n CHR ''a'', ''x'')) [0..<501]"

theorem index_write_loses_many_files_witness:
  "\<exists>T'. write_index quiet_env (demo_index []) many_files None [] False empty_tables = (Inr (), T')
    \<and> tb_files T' = [] \<and> tb_content_fts T' = []"
proof (rule index_write_loses_many_files)
  have "inj (\<lambda>n. replicate n (CHR ''a''))" by (rule injI) (metis length_replicate)
  then have "distinct (map (\<lambda>n. replicate n (CHR ''a'')) [0..<501])" by (auto simp: distinct_map intro: inj_on_subset)
  then show "gm_wf many_files" by (simp only: gm_wf_def many_files_def map_map comp_def fst_conv)
  show "edgesInBatchSize < length many_files" by (simp add: many_files_def edgesInBatchSize_def del: upt_rec_numeral)
qed (simp_all add: faultless_def quiet_env_def reach_empty)

section \<open>Replacing one member\<close>

text \<open>
  C17: Reindexing one member that succeeds removes no row that belongs to another one, and changes none except in three places: a file row
  whose path the member brings, the documentation of a package that the new index also has, and the churn count of a symbol in a file that the
  new churn names. All other rows with another owner (\<^verbatim>\<open>repo_id\<close>) are as before, and in the same order. Of the
  member itself no symbol and no edge is left that the new index does not have. Rows without an owner may go.
\<close>

theorem ReplaceRepo_replaces:
  assumes "RepoIDByModule Q T m = Inr (Some i)" "0 < i"
    and "ReplaceRepo Q r fs churn m T = (Inr (), T')"
  shows "other_rows i (fst ` set fs) T' = other_rows i (fst ` set fs) T
    \<and> other_packages i (pi_ImportPath ` set (ir_Packages r)) T' = other_packages i (pi_ImportPath ` set (ir_Packages r)) T
    \<and> other_symbols i (churned_files churn) T' = other_symbols i (churned_files churn) T
    \<and> rows_from i r T'"
proof -
  from assms(1,3) have "replaceTx Q r fs churn m i T = Inr ((), T')"
    by (auto simp: ReplaceRepo_def dest: withTx_commits)
  from rows_from_replaceTx [OF this] ReplaceRepo_other_rows [OF assms(1,2), of fs r churn]
    ReplaceRepo_kept_rows [OF assms(1), of r churn fs] assms(3)
  show ?thesis by (simp add: kept_rows_def)
qed

theorem ReplaceRepo_replaces_witness:
  "other_rows 1 {''/w/a/x.go''} (snd nested_replaced) = other_rows 1 {''/w/a/x.go''} (snd nested_written)
   \<and> map pe_path (other_packages 1 {''m/a''} (snd nested_replaced)) = [''m/sub/b'']
   \<and> other_packages 1 {''m/a''} (snd nested_replaced) = other_packages 1 {''m/a''} (snd nested_written)
   \<and> rows_from 1 (demo_index [(''m/a'', ''m'')]) (snd nested_replaced)"
proof -
  have "RepoIDByModule quiet_env (snd nested_written) ''m'' = Inr (Some 1)" by code_simp
  moreover have "ReplaceRepo quiet_env (demo_index [(''m/a'', ''m'')]) [(''/w/a/x.go'', ''a'')] None ''m'' (snd nested_written)
      = (Inr (), snd nested_replaced)"
    using nested_member_loses_symbols by (metis nested_replaced_def prod.collapse)
  moreover have "pi_ImportPath ` set (ir_Packages (demo_index [(''m/a'', ''m'')])) = {''m/a''}"
    by (simp add: demo_index_def demo_package_def)
  moreover have "map pe_path (other_packages 1 {''m/a''} (snd nested_replaced)) = [''m/sub/b'']" by code_simp
  ultimately show ?thesis
    using ReplaceRepo_replaces [of quiet_env "snd nested_written" "''m''" 1 "demo_index [(''m/a'', ''m'')]" "[(''/w/a/x.go'', ''a'')]"] by simp
qed

text \<open>
  Every declaration of the index whose name a package of the index owns has its row after the write, and a row that
  was not there before points to the row of that package, the one with the longest matching path.
\<close>

theorem index_write_declares:
  assumes "write_index Q r fs churn repos workspace T = (Inr (), T')" "store_reachable T"
    and "d \<in> set (ir_Symbols r)" "owner_path (package_paths r) (xs_QualifiedName d) p"
  shows "\<exists>i. (p, i) \<in> packaged T' \<and> symbol_key d \<in> decl_key ` set (tb_symbols T')
    \<and> (symbol_key d \<notin> decl_key ` set (tb_symbols T) \<longrightarrow> (symbol_key d, xs_QualifiedName d, i) \<in> declared T')"
  using write_index_declares [OF assms(1) _ assms(3,4)] reachable_ok [OF assms(2)] by (simp add: store_ok_def)

theorem index_write_declares_witness:
  "\<exists>i. (''m/a'', i) \<in> packaged (snd nested_written) \<and> (symbol_key (demo_decl ''m/a'' ''F''), ''m/a.F'', i) \<in> declared (snd nested_written)"
proof -
  let ?r = "demo_index [(''m/a'', ''m''), (''m/sub/b'', ''m/sub'')]" and ?d = "demo_decl ''m/a'' ''F''"
  have w: "write_index quiet_env ?r [(''/w/a/x.go'', ''a''), (''/w/sub/b/x.go'', ''b'')] None nested_specs True empty_tables
      = (Inr (), snd nested_written)"
    using nested_member_loses_symbols by (metis WriteWorkspace_def nested_written_def prod.collapse)
  have d: "?d \<in> set (ir_Symbols ?r)" by (simp add: demo_index_def)
  have q: "xs_QualifiedName ?d = ''m/a.F''" by (simp add: demo_decl_def)
  have "owner_path (package_paths ?r) (xs_QualifiedName ?d) ''m/a''"
    by (simp add: q owner_path_def package_paths_def demo_index_def demo_package_def owns_name_def has_prefix_def)
  from index_write_declares [OF w reach_empty d this] show ?thesis by (auto simp: empty_tables_def q)
qed

section \<open>Edges of a single repository\<close>

interpretation edgeless: file_frame "\<lambda>T T'. tb_edges T' = tb_edges T" UNIV scope UNIV for scope
  by unfold_locales (auto simp: upsert_file_def delete_not_in_def)

interpretation edgeless: finish_frame "\<lambda>T T'. tb_edges T' = tb_edges T"
  by unfold_locales (auto simp: put_meta_def)

lemma edgeless_deferred: "edgeless.obeys (writeDeferredRows Q r churn rf)"
proof -
  have id: "edgeless.obeys (exec Q s a id)" for s a by (rule edgeless.obeys_exec) simp
  have ch: "edgeless.obeys (case churn of None \<Rightarrow> yields () | Some c \<Rightarrow> applyChurn Q c)"
    unfolding applyChurn_def
    by (auto split: option.splits intro!: edgeless.obeys_rules simp: case_prod_beta set_churn_def)
  show ?thesis
    unfolding writeDeferredRows_def writeDiagnostics_def
    by (intro edgeless.obeys_seq edgeless.obeys_each edgeless.obeys_wrap edgeless.obeys_exec ch id)
      (simp add: insert_diagnostic_def)
qed

lemma edgeless_packages: "edgeless.obeys (writePackages Q ps m)"
  unfolding writePackages_def writePackage_def by (intro edgeless.obeys_rules) (simp add: upsert_package_def)

lemma edgeless_symbols: "edgeless.obeys (writeSymbols Q ds a)"
proof -
  have fail: "edgeless.obeys (\<lambda>T. Inl e)" for e by (simp add: edgeless.obeys_def)
  have "edgeless.obeys (writeSymbol Q a d)" for d
    by (auto simp: writeSymbol_def insert_symbol_def split: prod.splits sum.splits intro!: edgeless.obeys_rules fail)
  then show ?thesis unfolding writeSymbols_def by (intro edgeless.obeys_each)
qed

lemma cleared_edges:
  "clearSingleRepoRows Q T = Inr (u, T') \<Longrightarrow> tb_edges T' = filter (\<lambda>e. ee_repo_id e \<noteq> None) (tb_edges T)"
  unfolding clearSingleRepoRows_def by (drule run_statements_result) (simp add: delete_rows_effect)

lemma single_repo_key: "written_key (newPkgAttribution c []) e = (0, xe_FromRef e, xe_ToRef e, xe_EdgeType e)"
  using pkgFor_repo_mem [of c "[]" "xe_FromRef e"] by (simp add: written_key_def)

lemma writeTx_single_edges:
  assumes "writeTx Q r fs churn repos False T = Inr (u, T')"
  obtains c T0 T3 where "tb_edges T0 = filter (\<lambda>e. ee_repo_id e \<noteq> None) (tb_edges T)"
    "writeEdges Q (ir_Edges r) (newPkgAttribution c []) T0 = Inr ((), T3)" "tb_edges T' = tb_edges T3"
  using assms
proof (cases rule: writeTx_parts)
  case (1 m T1 T2 T3 T4 d T5 T6 T7)
  from 1(1) have m: "m = []" "T1 = T" by (simp_all add: registerRepos_def yields_def)
  have c: "tb_edges T2 = filter (\<lambda>e. ee_repo_id e \<noteq> None) (tb_edges T)" using cleared_edges 1(2) m by simp
  from 1(3) m obtain c X Y where i: "writePackages Q (ir_Packages r) [] T2 = Inr (c, X)"
      "writeSymbols Q (ir_Symbols r) (newPkgAttribution c []) X = Inr ((), Y)"
      "writeEdges Q (ir_Edges r) (newPkgAttribution c []) Y = Inr ((), T3)"
    by (auto simp: index_rows_def Let_def tx_simps(2,3) split: sum.splits)
  have e: "tb_edges Y = tb_edges T2"
    using edgeless.obeysD [OF edgeless_packages i(1)] edgeless.obeysD [OF edgeless_symbols i(2)] by simp
  have p: "edgeless.obeys (if d then populateFileContentFTS Q else yields ())"
    by (auto intro: edgeless.obeys_populateFileContentFTS edgeless.obeys_yields)
  from edgeless.obeysD [OF edgeless_deferred 1(4)] edgeless.obeysD [OF edgeless.obeys_writeFiles 1(5)]
    edgeless.obeysD [OF p 1(7)] edgeless.obeysD [OF edgeless.obeys_completeIndexWrite 1(8)] 1(6)
  have "tb_edges T' = tb_edges T3" by simp
  with c e i(3) show ?thesis by (intro that [of Y c T3]) simp_all
qed

text \<open>
  C27: After a single-repository write the rows of that repository's edges are one per pair and type, and the sites of a
  row are exactly the positions at which the index has that edge: none of an earlier index, none lost, none invented.
\<close>

theorem Write_edge_sites:
  assumes "Write Q r fs churn T = (Inr (), T')" "unites (sq_union Q)" "store_reachable T"
    and "\<forall>e\<in>set (tb_edges T). ee_repo_id e \<noteq> Some 0"
  shows "sites_of T' (0, f, t, k) = xe_Pos ` {e \<in> set (ir_Edges r). xe_FromRef e = f \<and> xe_ToRef e = t \<and> xe_EdgeType e = k}
    \<and> edges_ok (tb_edges T')"
proof -
  have "writeTx Q r fs churn [] False T = Inr ((), T')"
    using assms(1) unfolding Write_def write_index_def by (rule withTx_commits)
  then obtain c T0 T3 where w: "tb_edges T0 = filter (\<lambda>e. ee_repo_id e \<noteq> None) (tb_edges T)"
      "writeEdges Q (ir_Edges r) (newPkgAttribution c []) T0 = Inr ((), T3)" "tb_edges T' = tb_edges T3"
    by (rule writeTx_single_edges)
  have ok: "edges_ok (tb_edges T0)"
    using reachable_ok [OF assms(3)] by (simp add: store_ok_def tables_keys_def w(1) rows_ok_filter)
  have "sites_of T0 (0, f, t, k) = {}"
    using assms(4) by (auto simp: sites_of_def w(1) edge_key_def coalesce0_def split: option.splits)
  with writeEdges_result [OF w(2) assms(2) ok] w(3) show ?thesis
    by (auto simp: single_repo_key sites_of_def)
qed

definition edge_index :: resolve_result where
  "edge_index = (demo_index [(''m/a'', ''m'')])\<lparr>ir_Edges :=
     [\<lparr>xe_FromRef = ''m/a.F'', xe_ToRef = ''m/a.G'', xe_EdgeType = ''calls'', xe_Pos = \<lparr>st_File = ''x.go'', st_Line = 4, st_Column = 2\<rparr>\<rparr>,
      \<lparr>xe_FromRef = ''m/a.F'', xe_ToRef = ''m/a.G'', xe_EdgeType = ''calls'', xe_Pos = \<lparr>st_File = ''x.go'', st_Line = 9, st_Column = 2\<rparr>\<rparr>]\<rparr>"

lemma quiet_env_faultless: "faultless quiet_env" "unites (sq_union quiet_env)" "sq_fault quiet_env = (\<lambda>_ _. None)"
  by (auto simp: faultless_def unites_def quiet_env_def)

theorem Write_edge_sites_witness:
  "\<exists>T'. Write quiet_env edge_index [] None empty_tables = (Inr (), T')
    \<and> sites_of T' (0, ''m/a.F'', ''m/a.G'', ''calls'') = {\<lparr>st_File = ''x.go'', st_Line = 4, st_Column = 2\<rparr>,
          \<lparr>st_File = ''x.go'', st_Line = 9, st_Column = 2\<rparr>}"
proof -
  from write_index_succeeds [OF quiet_env_faultless(1)] obtain T' where
    w: "Write quiet_env edge_index [] None empty_tables = (Inr (), T')" unfolding Write_def by blast
  have all: "{e \<in> set (ir_Edges edge_index). xe_FromRef e = ''m/a.F'' \<and> xe_ToRef e = ''m/a.G'' \<and> xe_EdgeType e = ''calls''}
      = set (ir_Edges edge_index)"
    by (auto simp: edge_index_def)
  from Write_edge_sites [OF w quiet_env_faultless(2) reach_empty, of "''m/a.F''" "''m/a.G''" "''calls''", unfolded all]
  have "sites_of T' (0, ''m/a.F'', ''m/a.G'', ''calls'') = {\<lparr>st_File = ''x.go'', st_Line = 4, st_Column = 2\<rparr>,
          \<lparr>st_File = ''x.go'', st_Line = 9, st_Column = 2\<rparr>}"
    by (simp add: empty_tables_def edge_index_def)
  with w show ?thesis by blast
qed

end
