(* ===== verification/Store_Sync.thy ===== *)
theory Store_Sync
  imports Store_Proofs
begin

text \<open>
  Properties across the store, the fingerprints and package \<^verbatim>\<open>workspace\<close>: members that were never indexed, what a current
  index means, a workspace index that leaves its members fresh, and contracts that read back.
\<close>

section \<open>Members that were never indexed\<close>

text \<open>
  C28: A member that was registered and never indexed has no readable time: asking whether it or its contracts are stale
  fails with the error of scanning NULL, where the documented answer is that it is stale.
\<close>

theorem registered_member_unreadable:
  assumes "sq_fault Q = (\<lambda>_ _. None)" "EnsureRepo Q spec T = (Inr i, T')"
    and "\<forall>r\<in>set (tb_repos T). re_module_path r \<noteq> rs_ModulePath spec"
  shows "IsRepoStale U Q H T' (rs_ModulePath spec) = Inl scanNull \<and> IsContractStale U Q T' (rs_ModulePath spec) = Inl scanNull"
proof -
  from EnsureRepo_new [OF assms(2,3)] obtain r where
    "find (\<lambda>x. re_module_path x = rs_ModulePath spec) (tb_repos T') = Some r" "re_indexed_at r = None" by blast
  from never_indexed [OF assms(1) this] show ?thesis by simp
qed

theorem registered_member_unreadable_witness:
  "\<forall>U H. IsRepoStale U quiet_env H (snd (EnsureRepo quiet_env (hd nested_specs) empty_tables)) ''m'' = Inl scanNull
      \<and> IsContractStale U quiet_env (snd (EnsureRepo quiet_env (hd nested_specs) empty_tables)) ''m'' = Inl scanNull"
proof -
  have m: "rs_ModulePath (hd nested_specs) = ''m''" by (simp add: nested_specs_def)
  have "fst (EnsureRepo quiet_env (hd nested_specs) empty_tables) = Inr 1" by code_simp
  then have e: "EnsureRepo quiet_env (hd nested_specs) empty_tables
      = (Inr 1, snd (EnsureRepo quiet_env (hd nested_specs) empty_tables))" by (metis prod.collapse)
  show ?thesis
    using registered_member_unreadable [OF _ e, unfolded m] by (simp add: quiet_env_def empty_tables_def)
qed

section \<open>A current index is the index of the tree\<close>


definition disk_env :: hash_env where
  "disk_env = \<lparr>hs_ws = \<lparr>we_stat = (\<lambda>p. if p = ''/w/db'' then Exists False else NotExist ''no such file''),
       we_readFile = (\<lambda>p. if p = ''/w/a.go'' then Inr ''package a'' else Inl ''no such file''),
       we_readDir = (\<lambda>_. Inr []), we_evalSymlinks = Inr, we_cwd = Inr ''/w'', we_yaml = (\<lambda>_. Inr), we_compile = (\<lambda>_. None)\<rparr>,
     hs_walk = (\<lambda>_. Inr (Folder [(''a.go'', Plain)])), hs_goos = ''linux'', hs_goarch = ''amd64'', hs_cgo = False, hs_tags = [],
     hs_sha256 = id\<rparr>"


lemma disk_env_hashed: "hashed disk_env ''/w'' [] = Inr [(''a.go'', ''package a'')]"
  by code_simp



section \<open>A workspace index\<close>

text \<open>What \<^verbatim>\<open>IndexAll\<close> parses: all existing members together, or one by one when that fails.\<close>

definition parsed_members :: "('p, 'r, 's) index_ops \<Rightarrow> ws_config \<Rightarrow> 'p" where
  "parsed_members ops c = fst (parseWorkspace (io_parse ops) (io_join ops) (io_none ops)
     (map (\<lambda>m. (mb_Dir m, mb_Module m)) (filter (\<lambda>m. \<not> mb_Missing m) (wc_Members c))))"

text \<open>
  C18: Indexing a workspace into a store whose engine refuses nothing succeeds, and afterwards no existing member is
  stale, provided the files that were parsed are still the ones on disk and the time of the run can be read back.
\<close>

theorem IndexAll_members_fresh:
  assumes "faultless Q" "store_reachable T" "distinct (map mb_Module (wc_Members c))" "x \<in> set (Existing c)"
    and "hashSource H (mb_Dir x) (io_contents ops (parsed_members ops c)) = Inr fp" "hashSource H (mb_Dir x) [] = Inr fp"
    and "sq_parseTime Q (sq_time Q now) = Inr t" "sq_time Q now \<noteq> []"
  shows "\<exists>summaries T'. IndexAll (store_ops Q H now ops) G order c (Inr T) = (Inr summaries, Some T')
    \<and> IsRepoStale U Q H T' (mb_Module x) = Inr False"
proof -
  let ?ops = "store_ops Q H now ops" and ?merged = "parsed_members ops c"
  let ?specs = "map (\<lambda>m. \<lparr>rs_ModulePath = mb_Module m, rs_Dir = mb_Dir m, rs_Missing = mb_Missing m\<rparr>) (wc_Members c)"
  obtain merged errs where "parseWorkspace (io_parse ops) (io_join ops) (io_none ops)
      (map (\<lambda>m. (mb_Dir m, mb_Module m)) (filter (\<lambda>m. \<not> mb_Missing m) (wc_Members c))) = (merged, errs)" by (rule prod.exhaust)
  then have p: "parseWorkspace (io_parse ops) (io_join ops) (io_none ops)
      (map (\<lambda>m. (mb_Dir m, mb_Module m)) (filter (\<lambda>m. \<not> mb_Missing m) (wc_Members c))) = (?merged, errs)"
    by (simp add: parsed_members_def)
  obtain churn err where ch: "mergedChurn G (Existing c) = (churn, err)" by (cases "mergedChurn G (Existing c)")
  have o: "io_parse ?ops = io_parse ops" "io_join ?ops = io_join ops" "io_none ?ops = io_none ops"
    "io_contents ?ops = io_contents ops"
    by (simp_all add: store_ops_def)
  from writeWorkspaceStore_runs [OF assms(1)] obtain T' where
    w: "writeWorkspaceStore ?ops c (io_resolve ?ops ?merged) (io_contents ops ?merged) churn err ?specs
      (if io_fallback ?ops ?merged then ''dir-walk'' else ''go-list'') T = (Inr (), T')" by (rule op_runsE)
  have q: "sq_fault Q = (\<lambda>_ _. None)" using assms(1) by (simp add: faultless_def)
  have "repos_ok (tb_repos T)" using reachable_ok [OF assms(2)] by (simp add: store_ok_def tables_keys_def)
  from writeWorkspaceStore_done [OF w q this assms(3,4,5)]
  have "member_done Q now (mb_Module x) (mb_Dir x) fp T'" .
  from member_done_fresh [OF this q assms(7,8,6)] have "IsRepoStale U Q H T' (mb_Module x) = Inr False" .
  moreover have "\<exists>s. IndexAll ?ops G order c (Inr T) = (Inr s, Some T')"
    unfolding IndexAll_def Let_def o p prod.case ch sum.case w by simp
  ultimately show ?thesis by blast
qed

definition tree_ops :: "(files, resolve_result, tables) index_ops" where
  "tree_ops = \<lparr>io_parse = (\<lambda>_. Inr [(''/w/a.go'', ''package a'')]), io_join = (\<lambda>a b. a @ b), io_none = [],
     io_fallback = (\<lambda>_. False), io_contents = (\<lambda>fs. fs), io_resolve = (\<lambda>_. demo_index [(''m'', ''m'')]), io_pkgModules = (\<lambda>_. []),
     io_symbols = (\<lambda>_. []), io_edgeRefs = (\<lambda>_. []), io_Write = (\<lambda>_ _ _ _ T. (Inr (), T)), io_Replace = (\<lambda>_ _ _ _ T. (Inr (), T)),
     io_SetIndexedVia = (\<lambda>_ T. (Inr (), T)), io_SetRepoIndexedAt = (\<lambda>_ T. (Inr (), T)), io_Fingerprint = (\<lambda>_ _ _ T. T),
     io_SetChurnDegraded = (\<lambda>_ T. (Inr (), T)), io_SetRepoMissing = (\<lambda>_ T. (Inr (), T))\<rparr>"

definition tree_member :: member where
  "tree_member = \<lparr>mb_Module = ''m'', mb_Dir = ''/w'', mb_DiscoveryRoot = [], mb_Missing = False\<rparr>"

definition tree_config :: ws_config where
  "tree_config = \<lparr>wc_Root = ''/w'', wc_Path = [], wc_Members = [tree_member], wc_Suppress = [], wc_Extractors = []\<rparr>"

theorem IndexAll_members_fresh_witness:
  "\<forall>U G. \<exists>summaries T'. IndexAll (store_ops quiet_env disk_env 7 tree_ops) G (\<lambda>_. []) tree_config (Inr empty_tables) = (Inr summaries, Some T')
    \<and> IsRepoStale U quiet_env disk_env T' ''m'' = Inr False"
proof (intro allI)
  fix U :: unidata and G :: git_env
  have m: "mb_Module tree_member = ''m''" "mb_Dir tree_member = ''/w''" by (simp_all add: tree_member_def)
  have t: "sq_parseTime quiet_env (sq_time quiet_env 7) = Inr 7" by code_simp
  have n: "sq_time quiet_env 7 \<noteq> []" by code_simp
  have h: "hashSource disk_env ''/w'' [(''/w/a.go'', ''package a'')] = hashSource disk_env ''/w'' []" by code_simp
  have p: "io_contents tree_ops (parsed_members tree_ops tree_config) = [(''/w/a.go'', ''package a'')]"
    by (simp add: parsed_members_def parseWorkspace_def tree_ops_def)
  have f: "hashSource disk_env ''/w'' [] = Inr (source_stream disk_env [(''a.go'', ''package a'')])"
    by (simp add: hashSource_hashed disk_env_hashed) (simp add: disk_env_def)
  from IndexAll_members_fresh [OF quiet_env_faultless(1) reach_empty, of tree_config tree_member disk_env tree_ops _ 7, OF _ _ _ _ t n]
  show "\<exists>summaries T'. IndexAll (store_ops quiet_env disk_env 7 tree_ops) G (\<lambda>_. []) tree_config (Inr empty_tables) = (Inr summaries, Some T')
    \<and> IsRepoStale U quiet_env disk_env T' ''m'' = Inr False"
    by (simp add: m p h f) (simp add: tree_config_def Existing_def tree_member_def)
qed

section \<open>Contracts\<close>

definition contract_of :: "contract_entry \<Rightarrow> contract_row" where
  "contract_of c = \<lparr>ct_FromRef = ce_from_ref c, ct_ToRef = ce_to_ref c, ct_Direction = ce_direction c, ct_Severity = ce_severity c,
     ct_Evidence = ce_evidence c, ct_IndexedAt = ce_indexed_at c, ct_Confidence = ce_confidence c, ct_Suggested = ce_suggested c\<rparr>"

definition every_contract :: contract_filter where
  "every_contract = \<lparr>cf_Suggested = None, cf_Repo = [], cf_Direction = [], cf_Severity = [], cf_MinConfidence = 0\<rparr>"

lemma insertContracts_result:
  "insertContracts Q cs stmp m T = Inr (u, T') \<Longrightarrow>
     map contract_of (tb_contracts T') = map contract_of (tb_contracts T) @ map (\<lambda>c. c\<lparr>ct_IndexedAt := stmp\<rparr>) cs
     \<and> tb_suppressions T' = tb_suppressions T"
proof -
  have "tx_fold (\<lambda>c _. exec Q ''INSERT INTO contracts'' (ct_FromRef c) (\<lambda>T.
     T\<lparr>tb_contracts := tb_contracts T @ [\<lparr>ce_id = next_id (map ce_id (tb_contracts T)), ce_from_ref = ct_FromRef c,
         ce_to_ref = ct_ToRef c, ce_direction = ct_Direction c, ce_confidence = ct_Confidence c, ce_severity = ct_Severity c,
         ce_suggested = ct_Suggested c, ce_evidence = ct_Evidence c, ce_indexed_at = stmp,
         ce_repo_id = nullableRepo (repoIDForRefMapped (ct_FromRef c) m)\<rparr>]\<rparr>)) cs v T = Inr (u, T') \<Longrightarrow>
     map contract_of (tb_contracts T') = map contract_of (tb_contracts T) @ map (\<lambda>c. c\<lparr>ct_IndexedAt := stmp\<rparr>) cs
     \<and> tb_suppressions T' = tb_suppressions T" for v
    by (induction cs arbitrary: v T) (auto simp: tx_simps contract_of_def split: sum.splits option.splits)
  then show "insertContracts Q cs stmp m T = Inr (u, T') \<Longrightarrow>
     map contract_of (tb_contracts T') = map contract_of (tb_contracts T) @ map (\<lambda>c. c\<lparr>ct_IndexedAt := stmp\<rparr>) cs
     \<and> tb_suppressions T' = tb_suppressions T"
    by (simp add: insertContracts_def tx_each_def)
qed

text \<open>The statements after the contracts leave them alone.\<close>

definition contract_view :: "tables \<Rightarrow> contract_entry list \<times> (string \<times> string) list" where
  "contract_view T = (tb_contracts T, tb_suppressions T)"

interpretation kept: table_frame "\<lambda>T T'. contract_view T' = contract_view T"
  by unfold_locales simp_all

lemma kept_after:
  "kept.obeys (insertRuntimeContracts Q rs stmp m)" "kept.obeys (insertDriftReports Q ds stmp m)"
  "kept.obeys (setContractAnalysisTimeInTx Q now)"
proof -
  have fail: "kept.obeys (\<lambda>T. Inl e)" for e by (simp add: kept.obeys_def)
  show "kept.obeys (insertRuntimeContracts Q rs stmp m)"
    unfolding insertRuntimeContracts_def by (intro kept.obeys_rules) (simp add: contract_view_def)
  show "kept.obeys (insertDriftReports Q ds stmp m)"
    unfolding insertDriftReports_def
    by (rule kept.obeys_each, auto split: sum.splits intro!: kept.obeys_exec fail) (simp add: contract_view_def)
  show "kept.obeys (setContractAnalysisTimeInTx Q now)"
    unfolding setContractAnalysisTimeInTx_def insert_meta_def by (intro kept.obeys_rules) (simp add: contract_view_def put_meta_def)
qed

lemma succeeds_WriteContractsAll:
  assumes "faultless Q" "\<forall>d\<in>set ds. \<exists>js. sq_driftJSON Q (dr_Fields d) = Inr js"
  shows "op_runs (WriteContractsAll Q (cs, rs, ds) stmp now)"
proof -
  have f: "succeeds (readPackageRepoMap Q)"
    using assms(1) by (simp add: succeeds_def readPackageRepoMap_def fetch_def faultless_def)
  have c: "succeeds (insertContracts Q cs stmp m)" "succeeds (insertRuntimeContracts Q rs stmp m)" for m
    unfolding insertContracts_def insertRuntimeContracts_def by (intro succeeds_rules assms(1))+
  have d: "succeeds (insertDriftReports Q ds stmp m)" for m
    unfolding insertDriftReports_def
  proof (rule succeeds_each)
    fix d assume "d \<in> set ds"
    with assms(2) obtain js where "sq_driftJSON Q (dr_Fields d) = Inr js" by blast
    then show "succeeds (case sq_driftJSON Q (dr_Fields d) of Inl e \<Rightarrow> (\<lambda>T. Inl e)
       | Inr js \<Rightarrow> exec Q ''INSERT INTO drift'' (dr_FromRef d) (\<lambda>T.
         T\<lparr>tb_drift := tb_drift T @ [\<lparr>dt_id = next_id (map dt_id (tb_drift T)), dt_from_ref = dr_FromRef d,
             dt_to_ref = dr_ToRef d, dt_severity = dr_Severity d, dt_fields_json = js, dt_indexed_at = stmp,
             dt_repo_id = nullableRepo (repoIDForRefMapped (dr_FromRef d) m)\<rparr>]\<rparr>))"
      by (simp add: succeeds_exec [OF assms(1)])
  qed
  show ?thesis
    unfolding WriteContractsAll_def prod.case setContractAnalysisTimeInTx_def insert_meta_def
    by (intro runs_withTx [OF assms(1)] succeeds_rules f c d assms(1))
qed

lemma WriteContractsAll_rows:
  assumes "WriteContractsAll Q (cs, rs, ds) stmp now T = (Inr (), T')"
  shows "map contract_of (tb_contracts T') = map (\<lambda>c. c\<lparr>ct_IndexedAt := stmp\<rparr>) cs" "tb_suppressions T' = tb_suppressions T"
    and "map_of (tb_meta T') ''contract_indexed_at'' = Some (sq_time Q now)"
proof -
  have "withTx Q
     (tx_seq (run_statements Q
         [(''DELETE FROM contracts'', \<lambda>T. T\<lparr>tb_contracts := []\<rparr>),
          (''DELETE FROM runtime_contracts'', \<lambda>T. T\<lparr>tb_runtime := []\<rparr>),
          (''DELETE FROM drift'', \<lambda>T. T\<lparr>tb_drift := []\<rparr>)])
      (tx_then (readPackageRepoMap Q)
        (\<lambda>repoByPath.
          tx_seq (insertContracts Q cs stmp repoByPath)
          (tx_seq (insertRuntimeContracts Q rs stmp repoByPath)
          (tx_seq (insertDriftReports Q ds stmp repoByPath)
          (tx_seq (maybeFail Q ''contract.meta'' [])
            (setContractAnalysisTimeInTx Q now))))))) T = (Inr (), T')"
    using assms unfolding WriteContractsAll_def prod.case .
  note run = withTx_commits [OF this]
  from run obtain m T1 T2 T3 T4 where
    1: "run_statements Q
         [(''DELETE FROM contracts'', \<lambda>T. T\<lparr>tb_contracts := []\<rparr>),
          (''DELETE FROM runtime_contracts'', \<lambda>T. T\<lparr>tb_runtime := []\<rparr>),
          (''DELETE FROM drift'', \<lambda>T. T\<lparr>tb_drift := []\<rparr>)] T = Inr ((), T1)"
    and 2: "insertContracts Q cs stmp m T1 = Inr ((), T2)"
    and 3: "insertRuntimeContracts Q rs stmp m T2 = Inr ((), T3)"
    and 4: "insertDriftReports Q ds stmp m T3 = Inr ((), T4)"
    and 5: "setContractAnalysisTimeInTx Q now T4 = Inr ((), T')"
    by (auto simp: tx_simps(2,3) maybeFail_def readPackageRepoMap_def fetch_def split: sum.splits option.splits)
  from run_statements_result [OF 1] have "tb_contracts T1 = []" "tb_suppressions T1 = tb_suppressions T" by simp_all
  with insertContracts_result [OF 2] kept.obeysD [OF kept_after(1) 3] kept.obeysD [OF kept_after(2) 4] kept.obeysD [OF kept_after(3) 5]
  show "map contract_of (tb_contracts T') = map (\<lambda>c. c\<lparr>ct_IndexedAt := stmp\<rparr>) cs" "tb_suppressions T' = tb_suppressions T"
    by (simp_all add: contract_view_def)
  from 5 show "map_of (tb_meta T') ''contract_indexed_at'' = Some (sq_time Q now)"
    by (auto simp: setContractAnalysisTimeInTx_def insert_meta_def tx_simps split: option.splits)
qed

text \<open>
  The contracts of an analysis read back: after the write, which succeeds when the engine refuses nothing, the query
  without a filter returns exactly the written contracts, stamped with the analysis time, without those suppressed in
  either direction, and in order of falling confidence.
\<close>

theorem contracts_read_back:
  assumes "faultless Q" "\<forall>d\<in>set ds. \<exists>js. sq_driftJSON Q (dr_Fields d) = Inr js"
  shows "\<exists>T' found. WriteContractsAll Q (cs, rs, ds) stmp now T = (Inr (), T') \<and> QueryContracts Q T' every_contract = Inr found
    \<and> sorted_wrt (\<lambda>a b. ce_confidence (fst b) \<le> ce_confidence (fst a)) found
    \<and> mset (map (contract_of \<circ> fst) found)
      = mset (map (\<lambda>c. c\<lparr>ct_IndexedAt := stmp\<rparr>) (filter (\<lambda>c. \<not> suppressed T (ct_FromRef c) (ct_ToRef c)) cs))"
proof -
  from succeeds_WriteContractsAll [OF assms] obtain T' where w: "WriteContractsAll Q (cs, rs, ds) stmp now T = (Inr (), T')"
    by (rule op_runsE)
  note r = WriteContractsAll_rows [OF w]
  have q: "sq_fault Q = (\<lambda>_ _. None)" using assms(1) by (simp add: faultless_def)
  let ?P = "\<lambda>c. \<not> suppressed T (ct_FromRef c) (ct_ToRef c)"
  have "contract_matches T' every_contract = (\<lambda>e. ?P (contract_of e))"
    by (auto simp: contract_matches_def every_contract_def suppressed_def r(2) contract_of_def fun_eq_iff)
  then have "map contract_of (filter (contract_matches T' every_contract) (tb_contracts T')) = filter ?P (map contract_of (tb_contracts T'))"
    by (simp add: filter_map comp_def)
  also have "\<dots> = map (\<lambda>c. c\<lparr>ct_IndexedAt := stmp\<rparr>) (filter ?P cs)"
    by (simp add: r(1) filter_map comp_def)
  finally have m: "mset (map contract_of (filter (contract_matches T' every_contract) (tb_contracts T')))
      = mset (map (\<lambda>c. c\<lparr>ct_IndexedAt := stmp\<rparr>) (filter ?P cs))" by simp
  have s: "sorted_wrt (\<lambda>a b. ce_confidence b \<le> ce_confidence a)
      (sort_by (then_by_desc ce_confidence (by_key ce_from_ref)) xs)" for xs
  proof (rule sorted_wrt_mono_rel)
    show "sorted_wrt (\<lambda>a b. \<not> then_by_desc ce_confidence (by_key ce_from_ref) b a)
        (sort_by (then_by_desc ce_confidence (by_key ce_from_ref)) xs)"
      by (rule strict_weak.sort_by_sorted) (intro strict_weak_intros)
  qed (auto simp: then_by_desc_def split: if_splits)
  define found where "found = map (\<lambda>c. (c, owner_module T' (ce_repo_id c)))
      (sort_by (then_by_desc ce_confidence (by_key ce_from_ref)) (filter (contract_matches T' every_contract) (tb_contracts T')))"
  have "QueryContracts Q T' every_contract = Inr found"
    by (simp add: QueryContracts_def quiet_reads [OF q] found_def)
  moreover have "sorted_wrt (\<lambda>a b. ce_confidence (fst b) \<le> ce_confidence (fst a)) found"
    using s by (simp add: found_def sorted_wrt_map)
  moreover have "map (contract_of \<circ> fst) found = map contract_of
      (sort_by (then_by_desc ce_confidence (by_key ce_from_ref)) (filter (contract_matches T' every_contract) (tb_contracts T')))"
    by (simp add: found_def)
  then have "mset (map (contract_of \<circ> fst) found) = mset (map contract_of (filter (contract_matches T' every_contract) (tb_contracts T')))"
    by (simp only: mset_map mset_sort_by)
  then have "mset (map (contract_of \<circ> fst) found) = mset (map (\<lambda>c. c\<lparr>ct_IndexedAt := stmp\<rparr>) (filter ?P cs))"
    using m by (rule trans)
  ultimately show ?thesis using w by blast
qed

definition demo_contract :: "string \<Rightarrow> string \<Rightarrow> contract_row" where
  "demo_contract a b = \<lparr>ct_FromRef = a, ct_ToRef = b, ct_Direction = Producer, ct_Severity = Breaking, ct_Evidence = [],
     ct_IndexedAt = [], ct_Confidence = 1, ct_Suggested = False\<rparr>"

theorem contracts_read_back_witness:
  "\<exists>T' found. WriteContractsAll quiet_env ([demo_contract ''a'' ''b'', demo_contract ''c'' ''d''], [], []) ''now'' 7
        (snd (SuppressContracts quiet_env ''d'' ''c'' empty_tables)) = (Inr (), T')
    \<and> QueryContracts quiet_env T' every_contract = Inr found
    \<and> mset (map (contract_of \<circ> fst) found) = {#(demo_contract ''a'' ''b'')\<lparr>ct_IndexedAt := ''now''\<rparr>#}"
proof -
  let ?T = "snd (SuppressContracts quiet_env ''d'' ''c'' empty_tables)"
  have "filter (\<lambda>c. \<not> suppressed ?T (ct_FromRef c) (ct_ToRef c)) [demo_contract ''a'' ''b'', demo_contract ''c'' ''d'']
      = [demo_contract ''a'' ''b'']"
    by (simp add: SuppressContracts_def quiet_reads [OF quiet_env_faultless(3)] suppressed_def empty_tables_def demo_contract_def)
  with contracts_read_back [OF quiet_env_faultless(1), of "[]" "[demo_contract ''a'' ''b'', demo_contract ''c'' ''d'']" "[]" "''now''" 7 ?T]
  show ?thesis by auto
qed

end
