(* ===== verification/Served.thy ===== *)
theory Served
  imports Store_Sync Dead_Proofs
begin

text \<open>
  From the tables of the write side to the store the queries read: each statement of the query side, joins included, on
  the rows of a database. With it the graph queries run on what an index write left, and their specifications become
  statements about the index that was written.
\<close>

section \<open>The reads of a database\<close>

text \<open>The JSON of site and field lists is the environment's.\<close>

record codec =
  cd_sites :: "site list \<Rightarrow> string"
  cd_readSites :: "string \<Rightarrow> site list result"
  cd_readFields :: "string \<Rightarrow> symbol_field list result"

definition edge_columns :: "codec \<Rightarrow> tables \<Rightarrow> edge_entry \<Rightarrow> edge_row" where
  "edge_columns C T r = \<lparr>ew_from = ee_from_ref r, ew_to = ee_to_ref r, ew_type = ee_edge_type r, ew_file = ee_pos_file r,
     ew_line = ee_pos_line r, ew_sites = Some (cd_sites C (ee_sites r)), ew_module = module_of T (ee_repo_id r)\<rparr>"

definition edge_rows :: "codec \<Rightarrow> tables \<Rightarrow> edge_row list" where
  "edge_rows C T = map (edge_columns C T) (tb_edges T)"

text \<open>\<^verbatim>\<open>symbols s JOIN packages p ON s.package_id = p.id\<close>: a symbol whose package row is gone has no row.\<close>

definition symbol_join :: "tables \<Rightarrow> (symbol_entry \<times> package_entry) list" where
  "symbol_join T = concat (map (\<lambda>r. map (Pair r) (filter (\<lambda>p. pe_id p = se_package_id r) (tb_packages T))) (tb_symbols T))"

definition scanSymbol :: "codec \<Rightarrow> tables \<Rightarrow> symbol_entry \<times> package_entry \<Rightarrow> symbol result" where
  "scanSymbol C T = (\<lambda>(r, p).
     (case (case se_fields_json r of None \<Rightarrow> Inr [] | Some js \<Rightarrow> if js = [] then Inr [] else cd_readFields C js) of
        Inl e \<Rightarrow> Inl e
      | Inr fl \<Rightarrow> Inr \<lparr>sy_QualifiedName = se_qualified_name r, sy_PackagePath = pe_path p, sy_Name = se_name r,
          sy_Kind = se_kind r, sy_Receiver = se_receiver r, sy_Signature = se_signature r, sy_Doc = se_doc r,
          sy_PosFile = se_pos_file r, sy_Repo = owner_module T (se_repo_id r), sy_Fields = fl, sy_PosLine = se_pos_line r,
          sy_Complexity = se_complexity r, sy_ChurnCount = se_churn_count r, sy_Importance = 0, sy_Exported = se_exported r,
          sy_IsTest = se_is_test r, sy_IsGenerated = se_is_generated r\<rparr>))"

definition scanSymbols :: "codec \<Rightarrow> tables \<Rightarrow> symbol list result" where
  "scanSymbols C T = each_r (scanSymbol C T) (symbol_join T)"

definition package_of :: "package_view \<Rightarrow> package" where
  "package_of v = (case pv_entry v of p \<Rightarrow> \<lparr>pk_Path = pe_path p, pk_Name = pe_name p, pk_Dir = pe_dir p, pk_Doc = pe_doc p,
     pk_Repo = pv_Repo v, pk_SymCount = pv_SymCount v, pk_IsTest = pe_is_test p, pk_IsGenerated = pe_is_generated p\<rparr>)"

text \<open>
  The statements of the query side on one database. Full-text matches and the comparison operators remain those of the
  engine \<open>base\<close>; the recursive closure is computed by as many rounds as there are rows.
\<close>

definition serve :: "sql_env \<Rightarrow> codec \<Rightarrow> store_db \<Rightarrow> tables \<Rightarrow> store_db" where
  "serve Q C base T = base\<lparr>
     db_packages := map_sum id (map package_of) (ListPackages Q T),
     db_modules := KnownModulePaths Q T,
     db_contracts := map_sum id (map (\<lambda>(c, m). (contract_of c, m))) (QueryContracts Q T every_contract),
     db_edges := (\<lambda>P. select Q ''SELECT edges LEFT JOIN repos'' [] (\<lambda>T. Inr (filter P (edge_rows C T))) T),
     db_sites := cd_readSites C,
     db_symbols := (\<lambda>P. select Q ''SELECT symbols JOIN packages'' [] (\<lambda>T. map_sum id (filter P) (scanSymbols C T)) T),
     db_files := (\<lambda>P. select Q ''SELECT path, content FROM files'' []
       (\<lambda>T. Inr (filter P (map (\<lambda>r. (fe_path r, fe_content r)) (tb_files T)))) T),
     db_closure := (\<lambda>roots P. select Q ''WITH RECURSIVE reach'' []
       (\<lambda>T. Inr (close_names (length (edge_rows C T)) (edge_rows C T) P roots)) T)\<rparr>"

definition served_symbols :: "codec \<Rightarrow> tables \<Rightarrow> symbol list" where
  "served_symbols C T = (case scanSymbols C T of Inl _ \<Rightarrow> [] | Inr ss \<Rightarrow> ss)"

interpretation served: live_store "serve Q C base T" "edge_rows C T" "served_symbols C T" for Q C base T
  by unfold_locales (auto simp: serve_def select_def served_symbols_def close_names_rtrancl split: option.splits sum.splits)

text \<open>What was encoded reads back.\<close>

definition reads_back :: "sql_env \<Rightarrow> codec \<Rightarrow> bool" where
  "reads_back Q C \<longleftrightarrow> (\<forall>ss. cd_sites C ss \<noteq> [] \<and> cd_readSites C (cd_sites C ss) = Inr ss)
     \<and> (\<forall>fs js. sq_fieldsJSON Q fs = Inr js \<longrightarrow> cd_readFields C js = Inr fs)"

definition served_edge :: "tables \<Rightarrow> edge_entry \<Rightarrow> edge" where
  "served_edge T r = \<lparr>eg_FromRef = ee_from_ref r, eg_ToRef = ee_to_ref r, eg_EdgeType = ee_edge_type r, eg_PosFile = ee_pos_file r,
     eg_Repo = owner_module T (ee_repo_id r), eg_Sites = ee_sites r, eg_PosLine = ee_pos_line r, eg_SiteCount = length (ee_sites r)\<rparr>"

lemma scan_served:
  "reads_back Q C \<Longrightarrow> scan_edge (cd_readSites C) (edge_columns C T r) = Inr (served_edge T r)"
  by (auto simp: reads_back_def scan_edge_def edge_columns_def served_edge_def owner_module_def split: option.splits)

lemma serve_sites: "db_sites (serve Q C base T) = cd_readSites C"
  by (simp add: serve_def)

lemma served_edges:
  assumes "reads_back Q C"
  shows "stored_edges (serve Q C base T) (edge_rows C T) = served_edge T ` set (tb_edges T)"
  by (auto simp: stored_edges_def serve_sites edge_rows_def scan_served [OF assms])

lemma serve_answers:
  assumes "reads_back Q C" "sq_fault Q = (\<lambda>_ _. None)"
  shows "\<exists>es. queryEdges (serve Q C base T) P = Inr es"
proof -
  have "\<exists>es. scanEdges (cd_readSites C) (filter P (map (edge_columns C T) rs)) = Inr es" for rs
  proof (induction rs)
    case (Cons r rs)
    then show ?case using scan_served [OF assms(1), of T r] by (auto simp: scanEdges_def)
  qed (simp add: scanEdges_def)
  then show ?thesis
    by (simp add: queryEdges_def serve_def select_def assms(2) edge_rows_def)
qed

section \<open>An index of one repository, written and queried\<close>

definition xe_key :: "extract_edge \<Rightarrow> string \<times> string \<times> string" where
  "xe_key e = (xe_FromRef e, xe_ToRef e, xe_EdgeType e)"

definition row_key :: "edge_entry \<Rightarrow> string \<times> string \<times> string" where
  "row_key r = (ee_from_ref r, ee_to_ref r, ee_edge_type r)"

definition index_sites :: "resolve_result \<Rightarrow> string \<times> string \<times> string \<Rightarrow> site set" where
  "index_sites r k = xe_Pos ` {e \<in> set (ir_Edges r). xe_key e = k}"

definition unowned :: "tables \<Rightarrow> bool" where
  "unowned T \<longleftrightarrow> (\<forall>e\<in>set (tb_edges T). ee_repo_id e = None) \<and> (\<forall>s\<in>set (tb_symbols T). se_repo_id s = None)"

lemma written_edges_from:
  assumes "writeEdges Q es (newPkgAttribution c []) T = Inr (u, T')" "tb_edges T = []"
  shows "\<forall>r\<in>set (tb_edges T'). ee_repo_id r = None \<and> row_key r \<in> xe_key ` set es"
proof -
  let ?P = "\<lambda>X. \<forall>r\<in>set (tb_edges X). ee_repo_id r = None \<and> row_key r \<in> xe_key ` set es"
  have none: "nullableRepo (snd (pkgFor (newPkgAttribution c []) ref)) = None" for ref
    using pkgFor_repo_mem [of c "[]" ref] by (simp add: nullableRepo_def)
  have "predicate.obeys ?P (writeEdge Q (newPkgAttribution c []) e)" if "e \<in> set es" for e
    unfolding writeEdge_def none
    by (intro predicate.obeys_rules) (use that in \<open>auto simp: upsert_edge_def Let_def row_key_def xe_key_def\<close>)
  then have "predicate.obeys ?P (writeEdges Q es (newPkgAttribution c []))"
    unfolding writeEdges_def by (intro predicate.obeys_seq predicate.obeys_each predicate.obeys_wrap predicate.obeys_exec) auto
  from predicate.obeysD [OF this assms(1)] assms(2) show "?P T'" by simp
qed

lemma distinct_key_unique: "distinct (map f xs) \<Longrightarrow> x \<in> set xs \<Longrightarrow> {y \<in> set xs. f y = f x} = {x}"
  by (auto simp: distinct_map inj_on_def)

lemma image_keyed: "(\<lambda>e. (k e, s e)) ` {e \<in> E. P (k e)} = {p \<in> (\<lambda>e. (k e, s e)) ` E. P (fst p)}"
  by auto

lemma Write_edge_rows:
  assumes "Write Q r fs churn T = (Inr (), T')" "unites (sq_union Q)" "store_reachable T" "unowned T"
  shows "(\<lambda>x. (row_key x, set (ee_sites x))) ` set (tb_edges T') = (\<lambda>e. (xe_key e, index_sites r (xe_key e))) ` set (ir_Edges r)"
proof -
  have "writeTx Q r fs churn [] False T = Inr ((), T')"
    using assms(1) unfolding Write_def write_index_def by (rule withTx_commits)
  then obtain c T0 T3 where w: "tb_edges T0 = filter (\<lambda>e. ee_repo_id e \<noteq> None) (tb_edges T)"
      "writeEdges Q (ir_Edges r) (newPkgAttribution c []) T0 = Inr ((), T3)" "tb_edges T' = tb_edges T3"
    by (rule writeTx_single_edges)
  have none: "tb_edges T0 = []" using assms(4) by (simp add: w(1) unowned_def filter_empty_conv)
  then have ok: "edges_ok (tb_edges T0)" by (simp add: edges_ok_def)
  from written_edges_from [OF w(2) none] w(3)
  have rows: "ee_repo_id x = None" "row_key x \<in> xe_key ` set (ir_Edges r)" if "x \<in> set (tb_edges T')" for x
    using that by auto
  have key: "edge_key x = (0, row_key x)" if "x \<in> set (tb_edges T')" for x
    using rows(1) [OF that] by (simp add: edge_key_def row_key_def coalesce0_def)
  have sites: "sites_of T' (0, k) = index_sites r k" for k
  proof -
    obtain f t y where k: "k = (f, t, y)" by (cases k)
    have "sites_of T' (0, f, t, y) = sites_of T3 (0, f, t, y)" by (simp add: sites_of_def w(3))
    also have "\<dots> = index_sites r k"
      using writeEdges_result(1) [OF w(2) assms(2) ok, of "(0, f, t, y)"] none
      by (auto simp: single_repo_key index_sites_def xe_key_def k sites_of_def)
    finally show ?thesis by (simp add: k)
  qed
  have distinct: "distinct (map edge_key (tb_edges T'))"
    using writeEdges_result(2) [OF w(2) assms(2) ok] w(3) by (simp add: edges_ok_def)
  have own: "set (ee_sites x) = index_sites r (row_key x)" if x: "x \<in> set (tb_edges T')" for x
  proof -
    have "sites_of T' (edge_key x) = set (ee_sites x)"
      unfolding sites_of_def distinct_key_unique [OF distinct x] by simp
    with sites key [OF x] show ?thesis by simp
  qed
  have found: "\<exists>x\<in>set (tb_edges T'). row_key x = xe_key e" if "e \<in> set (ir_Edges r)" for e
  proof -
    have "xe_Pos e \<in> sites_of T' (0, xe_key e)" using that by (auto simp: sites index_sites_def)
    then obtain x where "x \<in> set (tb_edges T')" "edge_key x = (0, xe_key e)" by (auto simp: sites_of_def)
    with key show ?thesis by auto
  qed
  show ?thesis
  proof (intro equalityI subsetI)
    fix p assume "p \<in> (\<lambda>x. (row_key x, set (ee_sites x))) ` set (tb_edges T')"
    then obtain x where x: "x \<in> set (tb_edges T')" "p = (row_key x, set (ee_sites x))" by blast
    with rows(2) [OF x(1)] own [OF x(1)] show "p \<in> (\<lambda>e. (xe_key e, index_sites r (xe_key e))) ` set (ir_Edges r)" by auto
  next
    fix p assume "p \<in> (\<lambda>e. (xe_key e, index_sites r (xe_key e))) ` set (ir_Edges r)"
    then obtain e where e: "e \<in> set (ir_Edges r)" "p = (xe_key e, index_sites r (xe_key e))" by blast
    from found [OF e(1)] obtain x where "x \<in> set (tb_edges T')" "row_key x = xe_key e" by blast
    with own [of x] e(2) show "p \<in> (\<lambda>x. (row_key x, set (ee_sites x))) ` set (tb_edges T')" by (intro image_eqI [of _ _ x]) simp_all
  qed
qed

text \<open>The graph of an index, and of what is stored of it.\<close>

definition index_near :: "bool \<Rightarrow> string \<times> string \<times> string \<Rightarrow> string" where
  "index_near outgoing = (\<lambda>(f, t, y). if outgoing then f else t)"

definition index_hops :: "resolve_result \<Rightarrow> string list \<Rightarrow> bool \<Rightarrow> (string \<times> string) set" where
  "index_hops r types outgoing = {(x, y). \<exists>k\<in>xe_key ` set (ir_Edges r). edgeTypeAllowed (snd (snd k)) types
     \<and> index_near outgoing k = NormalizeQualifiedName x \<and> index_near (\<not> outgoing) k = y}"

definition edge_id :: "edge \<Rightarrow> string \<times> string \<times> string" where
  "edge_id e = (eg_FromRef e, eg_ToRef e, eg_EdgeType e)"

lemma hops_by_key:
  "graph_hops db table types outgoing = {(x, y). \<exists>k\<in>edge_id ` stored_edges db table. edgeTypeAllowed (snd (snd k)) types
     \<and> index_near outgoing k = NormalizeQualifiedName x \<and> index_near (\<not> outgoing) k = y}"
  by (auto simp: graph_hops_def hops_def allowed_edges_def edge_id_def index_near_def edge_near_def hop_def)

lemma served_by_key:
  assumes "reads_back Q C"
  shows "(\<lambda>e. (edge_id e, set (eg_Sites e))) ` stored_edges (serve Q C base T) (edge_rows C T)
    = (\<lambda>x. (row_key x, set (ee_sites x))) ` set (tb_edges T)"
  unfolding served_edges [OF assms] image_image by (simp add: served_edge_def edge_id_def row_key_def)

section \<open>Declarations that were indexed are found\<close>

text \<open>The end of a write changes no symbol but its churn count, and no package, member or contract.\<close>

definition settled :: "tables \<Rightarrow> symbol_entry list \<times> package_entry list \<times> repo_entry list \<times> contract_entry list" where
  "settled T = (map (\<lambda>r. r\<lparr>se_churn_count := 0\<rparr>) (tb_symbols T), tb_packages T, tb_repos T, tb_contracts T)"

interpretation settles: file_frame "\<lambda>T T'. settled T' = settled T" UNIV scope UNIV for scope
  by unfold_locales (auto simp: settled_def upsert_file_def delete_not_in_def)

interpretation settles: finish_frame "\<lambda>T T'. settled T' = settled T"
  by unfold_locales (auto simp: settled_def put_meta_def)

lemma settled_churn: "settled (set_churn c T) = settled T"
  by (auto simp: settled_def set_churn_def split: option.splits)

lemma settles_deferred: "settles.obeys (writeDeferredRows Q r churn rf)"
proof -
  have id: "settles.obeys (exec Q s a id)" for s a by (rule settles.obeys_exec) simp
  have ch: "settles.obeys (case churn of None \<Rightarrow> yields () | Some c \<Rightarrow> applyChurn Q c)"
    unfolding applyChurn_def
    by (auto split: option.splits intro!: settles.obeys_rules simp: case_prod_beta settled_churn)
  show ?thesis
    unfolding writeDeferredRows_def writeDiagnostics_def
    by (intro settles.obeys_seq settles.obeys_each settles.obeys_wrap settles.obeys_exec ch id)
      (simp add: settled_def insert_diagnostic_def)
qed

definition symbol_known :: "sql_env \<Rightarrow> extract_symbol list \<Rightarrow> symbol_entry \<Rightarrow> bool" where
  "symbol_known Q ds s \<longleftrightarrow> decl_key s \<in> symbol_key ` set ds
     \<and> (\<forall>js. se_fields_json s = Some js \<longrightarrow> (\<exists>fs. sq_fieldsJSON Q fs = Inr js))"

lemma symbol_known_churn [simp]: "symbol_known Q ds (s\<lparr>se_churn_count := n\<rparr>) = symbol_known Q ds s"
  by (simp add: symbol_known_def decl_key_def)

lemma known_index_rows: "predicate.obeys (\<lambda>T. \<forall>s\<in>set (tb_symbols T). symbol_known Q (ir_Symbols r) s) (index_rows Q r m)"
proof -
  let ?P = "\<lambda>T. \<forall>s\<in>set (tb_symbols T). symbol_known Q (ir_Symbols r) s"
  have s: "predicate.obeys ?P (writeSymbol Q a d)" if d: "d \<in> set (ir_Symbols r)" for a d
  proof -
    have ins: "symbol_known Q (ir_Symbols r) s"
      if "\<forall>s\<in>set (tb_symbols T). symbol_known Q (ir_Symbols r) s" "s \<in> set (tb_symbols (insert_symbol d pid repo fj T))"
        "\<forall>js. fj = Some js \<longrightarrow> (\<exists>fs. sq_fieldsJSON Q fs = Inr js)" for pid repo fj T s
      using that d by (auto simp: insert_symbol_def symbol_known_def decl_key_def symbol_key_def split: if_splits)
    show ?thesis
      by (auto simp: writeSymbol_def split: prod.splits sum.splits intro!: predicate.obeys_rules obeys_fail elim!: ins)
  qed
  have p: "predicate.obeys ?P (writePackage Q m x c)" for x c
    unfolding writePackage_def by (intro predicate.obeys_rules) (simp add: upsert_package_def)
  have e: "predicate.obeys ?P (writeEdge Q a x)" for a x
    unfolding writeEdge_def by (intro predicate.obeys_rules) (simp add: upsert_edge_def Let_def)
  show ?thesis
    unfolding index_rows_def Let_def writePackages_def writeSymbols_def writeEdges_def
    by (intro predicate.obeys_then predicate.obeys_seq predicate.obeys_each predicate.obeys_wrap predicate.obeys_fold
        predicate.obeys_exec s p e) simp_all
qed

lemma cleared_symbols:
  "clearSingleRepoRows Q T = Inr (u, T') \<Longrightarrow> unowned T \<Longrightarrow> tb_symbols T' = []"
  unfolding clearSingleRepoRows_def
  by (drule run_statements_result) (auto simp: delete_rows_effect unowned_def filter_empty_conv)

lemma Write_symbols_known:
  assumes "Write Q r fs churn T = (Inr (), T')" "unowned T"
  shows "\<forall>s\<in>set (tb_symbols T'). symbol_known Q (ir_Symbols r) s"
proof -
  have "writeTx Q r fs churn [] False T = Inr ((), T')"
    using assms(1) unfolding Write_def write_index_def by (rule withTx_commits)
  then show ?thesis
  proof (cases rule: writeTx_parts)
    case (1 m T1 T2 T3 T4 d T5 T6 T7)
    from 1(1) have "T1 = T" by (simp add: registerRepos_def yields_def)
    with 1(2) cleared_symbols assms(2) have "tb_symbols T2 = []" by simp
    with predicate.obeysD [OF known_index_rows 1(3)] have k: "\<forall>s\<in>set (tb_symbols T3). symbol_known Q (ir_Symbols r) s" by simp
    have p: "settles.obeys (if d then populateFileContentFTS Q else yields ())"
      by (auto intro: settles.obeys_populateFileContentFTS settles.obeys_yields)
    have "settled T6 = settled T5" by (simp add: settled_def 1(6))
    with settles.obeysD [OF settles_deferred 1(4)] settles.obeysD [OF settles.obeys_writeFiles 1(5)]
      settles.obeysD [OF p 1(7)] settles.obeysD [OF settles.obeys_completeIndexWrite 1(8)]
    have "settled T' = settled T3" by simp
    then have m: "map (\<lambda>s. s\<lparr>se_churn_count := 0\<rparr>) (tb_symbols T') = map (\<lambda>s. s\<lparr>se_churn_count := 0\<rparr>) (tb_symbols T3)"
      by (simp add: settled_def)
    show ?thesis
    proof
      fix s assume "s \<in> set (tb_symbols T')"
      then have "s\<lparr>se_churn_count := 0\<rparr> \<in> set (map (\<lambda>s. s\<lparr>se_churn_count := 0\<rparr>) (tb_symbols T3))" unfolding m [symmetric] by simp
      then obtain s' where "s' \<in> set (tb_symbols T3)" "s\<lparr>se_churn_count := 0\<rparr> = s'\<lparr>se_churn_count := 0\<rparr>" by auto
      with k have "symbol_known Q (ir_Symbols r) (s\<lparr>se_churn_count := 0\<rparr>)" by simp
      then show "symbol_known Q (ir_Symbols r) s" by simp
    qed
  qed
qed

lemma scanned_symbols:
  assumes "reads_back Q C" "\<forall>s\<in>set (tb_symbols T). symbol_known Q ds s"
  shows "\<exists>ss. scanSymbols C T = Inr ss \<and> (\<forall>sy\<in>set ss. \<exists>(s, p)\<in>set (symbol_join T). sy_QualifiedName sy = se_qualified_name s
      \<and> sy_PackagePath sy = pe_path p) \<and> (\<forall>(s, p)\<in>set (symbol_join T). \<exists>sy\<in>set ss. sy_QualifiedName sy = se_qualified_name s)"
proof -
  have one: "\<exists>sy. scanSymbol C T x = Inr sy \<and> sy_QualifiedName sy = se_qualified_name (fst x) \<and> sy_PackagePath sy = pe_path (snd x)"
    if "x \<in> set (symbol_join T)" for x
  proof -
    obtain s p where x: "x = (s, p)" by (cases x)
    with that have "s \<in> set (tb_symbols T)" by (auto simp: symbol_join_def)
    with assms(2) have k: "symbol_known Q ds s" by blast
    show ?thesis
    proof (cases "se_fields_json s")
      case None
      then show ?thesis by (simp add: scanSymbol_def x)
    next
      case (Some js)
      with k obtain fs where "sq_fieldsJSON Q fs = Inr js" by (auto simp: symbol_known_def)
      with assms(1) have "cd_readFields C js = Inr fs" by (auto simp: reads_back_def)
      with Some show ?thesis by (simp add: scanSymbol_def x)
    qed
  qed
  then have "\<exists>ss. each_r (scanSymbol C T) xs = Inr ss" if "set xs \<subseteq> set (symbol_join T)" for xs
    using that
  proof (induction xs)
    case (Cons x xs)
    then obtain sy ss where "scanSymbol C T x = Inr sy" "each_r (scanSymbol C T) xs = Inr ss" by fastforce
    then show ?case by simp
  qed simp
  then obtain ss where ss: "each_r (scanSymbol C T) (symbol_join T) = Inr ss" by blast
  have "\<exists>x\<in>set (symbol_join T). sy_QualifiedName sy = se_qualified_name (fst x) \<and> sy_PackagePath sy = pe_path (snd x)"
    if "sy \<in> set ss" for sy
  proof -
    from that each_r_set [OF ss] obtain x where "x \<in> set (symbol_join T)" "scanSymbol C T x = Inr sy" by auto
    with one [of x] show ?thesis by auto
  qed
  moreover have "\<exists>sy\<in>set ss. sy_QualifiedName sy = se_qualified_name (fst x)" if "x \<in> set (symbol_join T)" for x
  proof -
    from one [OF that] obtain sy where "scanSymbol C T x = Inr sy" "sy_QualifiedName sy = se_qualified_name (fst x)" by blast
    with each_r_set [OF ss] that show ?thesis by auto
  qed
  ultimately show ?thesis using ss by (fastforce simp: scanSymbols_def)
qed

text \<open>Every owned declaration has a row with the id of its package; the previous rows are gone.\<close>

lemma Write_declares:
  assumes "Write Q r fs churn T = (Inr (), T')" "tables_keys T" "unowned T"
    and "d \<in> set (ir_Symbols r)" "owner_path (package_paths r) (xs_QualifiedName d) p"
  shows "\<exists>i. (p, i) \<in> packaged T' \<and> (symbol_key d, xs_QualifiedName d, i) \<in> declared T'"
proof -
  have "writeTx Q r fs churn [] False T = Inr ((), T')"
    using assms(1) unfolding Write_def write_index_def by (rule withTx_commits)
  then show ?thesis
  proof (cases rule: writeTx_parts)
    case (1 m T1 T2 T3 T4 d' T5 T6 T7)
    from 1(1) have t: "T1 = T" by (simp add: registerRepos_def yields_def)
    with 1(2) cleared_symbols assms(3) have none: "tb_symbols T2 = []" by simp
    from keys.obeysD [OF keys.obeys_cleared 1(2)] assms(2) t have "tables_keys T2" by simp
    from index_rows_result [OF 1(3) this assms(4,5)] none obtain i where
      i: "(p, i) \<in> packaged T3" "(symbol_key d, xs_QualifiedName d, i) \<in> declared T3" by auto
    have "grows.obeys (if d' then populateFileContentFTS Q else yields ())"
      by (auto intro: grows.obeys_populateFileContentFTS grows.obeys_yields)
    from grows.obeysD [OF grows.obeys_writeDeferredRows 1(4)] grows.obeysD [OF grows.obeys_writeFiles 1(5)]
      grows.obeysD [OF this 1(7)] grows.obeysD [OF grows.obeys_completeIndexWrite 1(8)]
    have "grown T3 T4" "grown T4 T5" "grown T6 T7" "grown T7 T'" by simp_all
    moreover have "grown T5 T6" by (rule grown_same) (simp_all add: 1(6))
    ultimately have "grown T3 T'" by (meson grows.trans_R)
    with i show ?thesis unfolding grown_def by blast
  qed
qed

lemma packaged_unique: "packages_ok (tb_packages T) \<Longrightarrow> x \<in> set (tb_packages T) \<Longrightarrow> y \<in> set (tb_packages T) \<Longrightarrow> pe_id x = pe_id y \<Longrightarrow> x = y"
  "packages_ok (tb_packages T) \<Longrightarrow> x \<in> set (tb_packages T) \<Longrightarrow> y \<in> set (tb_packages T) \<Longrightarrow> pe_path x = pe_path y \<Longrightarrow> x = y"
  by (auto simp: packages_ok_def distinct_map inj_on_def)

lemma declared_unique: "symbols_ok (tb_symbols T) \<Longrightarrow> s \<in> set (tb_symbols T) \<Longrightarrow> (decl_key s, q, i) \<in> declared T \<Longrightarrow>
    q = se_qualified_name s \<and> i = se_package_id s"
  by (auto simp: symbols_ok_def declared_def distinct_map inj_on_def)

lemma found_declared:
  assumes "Write Q r fs churn T = (Inr (), T')" "store_reachable T" "unowned T" "gm_wf fs"
    and "reads_back Q C" "sq_fault Q = (\<lambda>_ _. None)"
    and "d \<in> set (ir_Symbols r)" "owner_path (package_paths r) (xs_QualifiedName d) p" "NormalizeQualifiedName name = xs_QualifiedName d"
  shows "\<exists>sy. SymbolByName (serve Q C base T') name = Inr (Some sy) \<and> sy_QualifiedName sy = xs_QualifiedName d \<and> sy_PackagePath sy = p"
proof -
  let ?q = "xs_QualifiedName d"
  have key: "tables_keys T" using reachable_ok [OF assms(2)] by (simp add: store_ok_def)
  have "store_reachable (snd (Write Q r fs churn T))" by (rule reach_step [OF assms(2) step_Write [OF assms(4)]])
  from reachable_ok [OF this] assms(1) have ok: "packages_ok (tb_packages T')" "symbols_ok (tb_symbols T')"
    by (simp_all add: store_ok_def tables_keys_def)
  note known = Write_symbols_known [OF assms(1,3)]
  from scanned_symbols [OF assms(5) known] obtain ss where ss: "scanSymbols C T' = Inr ss"
    "\<And>sy. sy \<in> set ss \<Longrightarrow> \<exists>(s, p)\<in>set (symbol_join T'). sy_QualifiedName sy = se_qualified_name s \<and> sy_PackagePath sy = pe_path p"
    "\<And>s p. (s, p) \<in> set (symbol_join T') \<Longrightarrow> \<exists>sy\<in>set ss. sy_QualifiedName sy = se_qualified_name s" by fastforce
  have own: "pe_path x = p" if "(s, x) \<in> set (symbol_join T')" "se_qualified_name s = ?q" for s x
  proof -
    from that(1) have s: "s \<in> set (tb_symbols T')" and x: "x \<in> set (tb_packages T')" "pe_id x = se_package_id s"
      by (auto simp: symbol_join_def)
    from known s obtain d' where d': "d' \<in> set (ir_Symbols r)" "decl_key s = symbol_key d'" by (auto simp: symbol_known_def)
    with that(2) have q: "xs_QualifiedName d' = ?q" by (simp add: decl_key_def symbol_key_def)
    from Write_declares [OF assms(1) key assms(3) d'(1)] q assms(8) obtain i where
      i: "(p, i) \<in> packaged T'" "(symbol_key d', ?q, i) \<in> declared T'" by auto
    from declared_unique [OF ok(2) s] i(2) d'(2) have "i = se_package_id s" by metis
    moreover from i(1) obtain y where "y \<in> set (tb_packages T')" "pe_path y = p" "pe_id y = i" by (auto simp: packaged_def)
    ultimately show ?thesis using packaged_unique(1) [OF ok(1) x(1), of y] x(2) by simp
  qed
  from Write_declares [OF assms(1) key assms(3,7,8)] obtain i where
    i: "(p, i) \<in> packaged T'" "(symbol_key d, ?q, i) \<in> declared T'" by blast
  from i(2) obtain s where s: "s \<in> set (tb_symbols T')" "se_qualified_name s = ?q" "se_package_id s = i" by (auto simp: declared_def)
  from i(1) obtain y where y: "y \<in> set (tb_packages T')" "pe_id y = i" by (auto simp: packaged_def)
  have "(s, y) \<in> set (symbol_join T')" using s y by (auto simp: symbol_join_def)
  from ss(3) [OF this] s(2) obtain sy where sy: "sy \<in> set ss" "sy_QualifiedName sy = ?q" by auto
  let ?hits = "filter (\<lambda>sy. sy_QualifiedName sy = ?q) ss"
  from sy have "?hits \<noteq> []" by (auto simp: filter_empty_conv)
  then obtain z zs where z: "?hits = z # zs" by (cases ?hits) auto
  then have "z \<in> set ?hits" by simp
  then have zin: "z \<in> set ss" "sy_QualifiedName z = ?q" by auto
  from ss(2) [OF zin(1)] zin(2) own have "sy_PackagePath z = p" by fastforce
  moreover have "SymbolByName (serve Q C base T') name = Inr (Some z)"
    by (simp add: SymbolByName_def serve_def select_def assms(6) ss(1) assms(9) z)
  ultimately show ?thesis using zin(2) by blast
qed

lemma Write_keeps_contracts:
  assumes "Write Q r fs churn T = (Inr (), T')" "tb_contracts T = []"
  shows "tb_contracts T' = []"
proof -
  let ?P = "\<lambda>X. tb_contracts X = []"
  have sy: "predicate.obeys ?P (writeSymbol Q a d)" for a d
    by (auto simp: writeSymbol_def insert_symbol_def split: prod.splits sum.splits intro!: predicate.obeys_rules obeys_fail)
  have i: "predicate.obeys ?P (index_rows Q r m)" for m
    unfolding index_rows_def Let_def writePackages_def writePackage_def writeSymbols_def writeEdges_def writeEdge_def
    by (intro predicate.obeys_then predicate.obeys_seq predicate.obeys_each predicate.obeys_wrap predicate.obeys_fold
        predicate.obeys_exec predicate.obeys_fetch predicate.obeys_yields sy)
      (simp_all add: upsert_package_def upsert_edge_def Let_def)
  have "writeTx Q r fs churn [] False T = Inr ((), T')"
    using assms(1) unfolding Write_def write_index_def by (rule withTx_commits)
  then show ?thesis
  proof (cases rule: writeTx_parts)
    case (1 m T1 T2 T3 T4 d T5 T6 T7)
    from 1(1) have t: "T1 = T" by (simp add: registerRepos_def yields_def)
    have "predicate.obeys ?P (clearSingleRepoRows Q)"
      unfolding clearSingleRepoRows_def
      by (rule predicate.obeys_statements) (auto simp: delete_index_rows_def delete_diagnostic_rows_def)
    from predicate.obeysD [OF this, of T1 "()" T2] 1(2) t assms(2) have "tb_contracts T2 = []" by simp
    with predicate.obeysD [OF i 1(3)] have "tb_contracts T3 = []" by simp
    moreover have p: "settles.obeys (if d then populateFileContentFTS Q else yields ())"
      by (auto intro: settles.obeys_populateFileContentFTS settles.obeys_yields)
    have "settled T6 = settled T5" by (simp add: settled_def 1(6))
    with settles.obeysD [OF settles_deferred 1(4)] settles.obeysD [OF settles.obeys_writeFiles 1(5)]
      settles.obeysD [OF p 1(7)] settles.obeysD [OF settles.obeys_completeIndexWrite 1(8)]
    have "settled T' = settled T3" by simp
    ultimately show ?thesis by (simp add: settled_def)
  qed
qed

lemma Write_succs:
  assumes "Write Q r fs churn T = (Inr (), T')" "unites (sq_union Q)" "store_reachable T" "unowned T" "reads_back Q C"
  shows "succs (forward_set (serve Q C base T') (edge_rows C T') [] [])
    = {(x, y). \<exists>e\<in>set (ir_Edges r). xe_FromRef e = NormalizeQualifiedName x \<and> xe_ToRef e = y}"
proof -
  let ?E = "stored_edges (serve Q C base T') (edge_rows C T')"
  have "(\<lambda>e. (edge_id e, set (eg_Sites e))) ` ?E = (\<lambda>e. (xe_key e, index_sites r (xe_key e))) ` set (ir_Edges r)"
    unfolding served_by_key [OF assms(5)] by (rule Write_edge_rows [OF assms(1-4)])
  then have "fst ` (\<lambda>e. (edge_id e, set (eg_Sites e))) ` ?E = fst ` (\<lambda>e. (xe_key e, index_sites r (xe_key e))) ` set (ir_Edges r)"
    by simp
  then have keys: "edge_id ` ?E = xe_key ` set (ir_Edges r)" by (simp add: image_image)
  have "succs (forward_set (serve Q C base T') (edge_rows C T') [] [])
      = {(x, y). \<exists>k\<in>edge_id ` ?E. fst k = NormalizeQualifiedName x \<and> fst (snd k) = y}"
    by (auto simp: succs_def forward_set_def repoMismatch_def edge_id_def)
  also have "\<dots> = {(x, y). \<exists>e\<in>set (ir_Edges r). xe_FromRef e = NormalizeQualifiedName x \<and> xe_ToRef e = y}"
    unfolding keys by (auto simp: xe_key_def)
  finally show ?thesis .
qed

end
