(* ===== verification/Served_Proofs.thy ===== *)
theory Served_Proofs
  imports Served
begin

text \<open>
  End to end: what an index run extracted, written to an empty or a used database of one repository, is what the graph
  queries answer afterwards.
\<close>

section \<open>Examples\<close>

text \<open>A codec with lengths in unary, and the index of two functions that call each other's package.\<close>

definition put_nat :: "nat \<Rightarrow> string" where
  "put_nat n = replicate n CHR ''1'' @ ''0''"

definition take_nat :: "string \<Rightarrow> nat \<times> string" where
  "take_nat s = (length (takeWhile (\<lambda>c. c = CHR ''1'') s), tl (dropWhile (\<lambda>c. c = CHR ''1'') s))"

definition put_int :: "int \<Rightarrow> string" where
  "put_int i = (if i < 0 then ''-'' else ''+'') @ put_nat (nat \<bar>i\<bar>)"

definition take_int :: "string \<Rightarrow> int \<times> string" where
  "take_int s = (case take_nat (tl s) of (n, rest) \<Rightarrow> (if hd s = CHR ''-'' then - int n else int n, rest))"

definition put_site :: "site \<Rightarrow> string" where
  "put_site x = put_nat (length (st_File x)) @ st_File x @ put_int (st_Line x) @ put_int (st_Column x)"

definition take_site :: "string \<Rightarrow> site \<times> string" where
  "take_site s = (case take_nat s of (n, rest) \<Rightarrow> case take_int (drop n rest) of (l, rest') \<Rightarrow>
     case take_int rest' of (c, rest'') \<Rightarrow> (\<lparr>st_File = take n rest, st_Line = l, st_Column = c\<rparr>, rest''))"

fun take_sites :: "nat \<Rightarrow> string \<Rightarrow> site list" where
  "take_sites 0 s = []"
| "take_sites (Suc n) s = (case take_site s of (x, rest) \<Rightarrow> x # take_sites n rest)"

lemma take_nat_put [simp]: "take_nat (put_nat n @ rest) = (n, rest)"
  by (induction n) (simp_all add: take_nat_def put_nat_def)

lemma take_int_put [simp]: "take_int (put_int i @ rest) = (i, rest)"
  by (simp add: take_int_def put_int_def)

lemma take_site_put [simp]: "take_site (put_site x @ rest) = (x, rest)"
  by (simp add: take_site_def put_site_def)

lemma take_sites_put: "take_sites (length xs) (concat (map put_site xs)) = xs"
  by (induction xs) simp_all

definition unary_codec :: codec where
  "unary_codec = \<lparr>cd_sites = (\<lambda>xs. put_nat (length xs) @ concat (map put_site xs)),
     cd_readSites = (\<lambda>s. case take_nat s of (n, rest) \<Rightarrow> Inr (take_sites n rest)), cd_readFields = (\<lambda>_. Inr [])\<rparr>"

definition plain_env :: sql_env where
  "plain_env = quiet_env\<lparr>sq_fieldsJSON := (\<lambda>_. Inl ''no struct types here'')\<rparr>"

lemma plain_env_facts: "unites (sq_union plain_env)" "sq_fault plain_env = (\<lambda>_ _. None)" "reads_back plain_env unary_codec"
proof -
  show "unites (sq_union plain_env)" "sq_fault plain_env = (\<lambda>_ _. None)"
    using quiet_env_faultless by (simp_all add: plain_env_def)
  have "put_nat n \<noteq> []" for n by (simp add: put_nat_def)
  then show "reads_back plain_env unary_codec"
    unfolding reads_back_def unary_codec_def codec.simps take_nat_put prod.case take_sites_put by (simp add: plain_env_def)
qed

definition call_index :: resolve_result where
  "call_index = \<lparr>ir_Packages = [demo_package ''m/a'' ''m''], ir_Symbols = [demo_decl ''m/a'' ''F'', demo_decl ''m/a'' ''G''],
     ir_Edges = [\<lparr>xe_FromRef = ''m/a.F'', xe_ToRef = ''m/a.G'', xe_EdgeType = ''calls'', xe_Pos = \<lparr>st_File = ''x.go'', st_Line = 4, st_Column = 2\<rparr>\<rparr>,
      \<lparr>xe_FromRef = ''m/a.F'', xe_ToRef = ''m/a.G'', xe_EdgeType = ''calls'', xe_Pos = \<lparr>st_File = ''x.go'', st_Line = 9, st_Column = 2\<rparr>\<rparr>],
     ir_Warnings = [], ir_Diagnostics = []\<rparr>"

definition call_tables :: tables where
  "call_tables = snd (Write plain_env call_index [] None empty_tables)"

lemma call_written: "Write plain_env call_index [] None empty_tables = (Inr (), call_tables)"
proof -
  have "fst (Write plain_env call_index [] None empty_tables) = Inr ()" by code_simp
  then show ?thesis by (metis call_tables_def prod.collapse)
qed

lemma empty_facts: "unowned empty_tables" "tb_contracts empty_tables = []" "gm_wf []"
  by (simp_all add: unowned_def empty_tables_def gm_wf_def)

lemma call_names: "NormalizeQualifiedName ''m/a.F'' = ''m/a.F''" "NormalizeQualifiedName ''m/a.G'' = ''m/a.G''"
  by (simp_all add: NormalizeQualifiedName_def contains_paren)

lemma call_declared:
  "demo_decl ''m/a'' ''F'' \<in> set (ir_Symbols call_index)" "demo_decl ''m/a'' ''G'' \<in> set (ir_Symbols call_index)"
  "xs_QualifiedName (demo_decl ''m/a'' ''F'') = ''m/a.F''" "xs_QualifiedName (demo_decl ''m/a'' ''G'') = ''m/a.G''"
  "owner_path (package_paths call_index) (xs_QualifiedName (demo_decl ''m/a'' ''F'')) ''m/a''"
  "owner_path (package_paths call_index) (xs_QualifiedName (demo_decl ''m/a'' ''G'')) ''m/a''"
  by (simp_all add: call_index_def demo_decl_def owner_path_def package_paths_def demo_package_def owns_name_def has_prefix_def)

section \<open>The queries answer for the index\<close>

text \<open>
  C15: Every declaration of an index that a package owns can be looked up after the write: by its name, in any spelling with
  the same normal form, the store answers with a symbol of that name in the package that owns it.
\<close>

theorem Write_then_lookup:
  assumes "Write Q r fs churn T = (Inr (), T')" "store_reachable T" "unowned T" "gm_wf fs"
    and "reads_back Q C" "sq_fault Q = (\<lambda>_ _. None)"
    and "d \<in> set (ir_Symbols r)" "owner_path (package_paths r) (xs_QualifiedName d) p" "NormalizeQualifiedName name = xs_QualifiedName d"
  shows "\<exists>sy. SymbolByName (serve Q C base T') name = Inr (Some sy) \<and> sy_QualifiedName sy = xs_QualifiedName d \<and> sy_PackagePath sy = p"
  using assms by (rule found_declared)

theorem Write_then_lookup_witness:
  "\<forall>base. \<exists>sy. SymbolByName (serve plain_env unary_codec base call_tables) ''m/a.F'' = Inr (Some sy)
     \<and> sy_QualifiedName sy = ''m/a.F'' \<and> sy_PackagePath sy = ''m/a''"
  using Write_then_lookup [OF call_written reach_empty empty_facts(1,3) plain_env_facts(3,2) call_declared(1,5), of "''m/a.F''"]
  by (simp add: call_declared call_names)

lemma Write_edge_ids:
  assumes "Write Q r fs churn T = (Inr (), T')" "unites (sq_union Q)" "store_reachable T" "unowned T" "reads_back Q C"
  shows "edge_id ` stored_edges (serve Q C base T') (edge_rows C T') = xe_key ` set (ir_Edges r)"
proof -
  have "(\<lambda>e. (edge_id e, set (eg_Sites e))) ` stored_edges (serve Q C base T') (edge_rows C T')
      = (\<lambda>e. (xe_key e, index_sites r (xe_key e))) ` set (ir_Edges r)"
    unfolding served_by_key [OF assms(5)] by (rule Write_edge_rows [OF assms(1-4)])
  then have "fst ` (\<lambda>e. (edge_id e, set (eg_Sites e))) ` stored_edges (serve Q C base T') (edge_rows C T')
      = fst ` (\<lambda>e. (xe_key e, index_sites r (xe_key e))) ` set (ir_Edges r)" by simp
  then show ?thesis by (simp add: image_image)
qed



text \<open>A chain of steps along the edges of an index: each step is one of its edges and leaves the name the last one reached.\<close>

fun index_chain :: "resolve_result \<Rightarrow> string \<Rightarrow> path_step list \<Rightarrow> string \<Rightarrow> bool" where
  "index_chain r x [] y \<longleftrightarrow> x = y"
| "index_chain r x (st # sts) y \<longleftrightarrow> (\<exists>e\<in>set (ir_Edges r). xe_FromRef e = NormalizeQualifiedName x \<and> ps_From st = xe_FromRef e
     \<and> ps_To st = xe_ToRef e \<and> ps_EdgeType st = xe_EdgeType e \<and> index_chain r (xe_ToRef e) sts y)"

lemma index_chain_hops:
  "index_chain r x sts y \<Longrightarrow> (x, y) \<in> {(x, y). \<exists>e\<in>set (ir_Edges r). xe_FromRef e = NormalizeQualifiedName x \<and> xe_ToRef e = y} ^^ length sts"
proof (induction sts arbitrary: x)
  case (Cons st sts)
  then obtain e where e: "e \<in> set (ir_Edges r)" "xe_FromRef e = NormalizeQualifiedName x" "index_chain r (xe_ToRef e) sts y" by auto
  from relpow_Suc_I2 [OF _ Cons.IH [OF e(3)], of x] e(1,2) show ?case by auto
qed simp

lemma chain_index:
  assumes "edge_id ` stored_edges db rows = xe_key ` set (ir_Edges r)"
  shows "chain (forward_set db rows [] repo) x sts y \<Longrightarrow> index_chain r x sts y"
proof (induction sts arbitrary: x)
  case (Cons st sts)
  then obtain e where f: "e \<in> forward_set db rows [] repo x" and e: "st = step_of e"
    "chain (forward_set db rows [] repo) (eg_ToRef e) sts y"
    by auto
  from f have f: "e \<in> stored_edges db rows" "eg_FromRef e = NormalizeQualifiedName x" by (simp_all add: forward_set_def)
  obtain d where d: "d \<in> set (ir_Edges r)" "edge_id e = xe_key d" using f(1) assms by blast
  then have "xe_FromRef d = eg_FromRef e" "xe_ToRef d = eg_ToRef e" "xe_EdgeType d = eg_EdgeType e"
    by (simp_all add: edge_id_def xe_key_def)
  with Cons.IH [OF e(2)] d(1) f(2) e(1) show ?case by (auto simp: step_of_def intro!: bexI [of _ d])
qed simp

text \<open>
  C13: After indexing one repository (\<open>unowned\<close>: rows without a member) into a store without contracts and without store errors,
  a path query without a repository filter between two different declared names returns a shortest path: a
  chain of edges of the index from the one name to the other, no longer than the depth bound and than any other chain. It reports
  that there is none exactly when every chain is longer than the bound.
\<close>

theorem Write_then_FindPath:
  assumes "Write Q r fs churn T = (Inr (), T')" "unites (sq_union Q)" "store_reachable T" "unowned T" "gm_wf fs"
    and "reads_back Q C" "sq_fault Q = (\<lambda>_ _. None)" "tb_contracts T = []"
    and "a \<in> set (ir_Symbols r)" "owner_path (package_paths r) (xs_QualifiedName a) pa" "NormalizeQualifiedName from = xs_QualifiedName a"
    and "b \<in> set (ir_Symbols r)" "owner_path (package_paths r) (xs_QualifiedName b) pb" "NormalizeQualifiedName to = xs_QualifiedName b"
    and "from \<noteq> to" "o_Repo opts = []"
  shows "let D = (if maxDepth \<le> 0 then 10 else nat maxDepth) in
    case FindPath (serve Q C base T') U from to maxDepth opts of
      Inr path \<Rightarrow> index_chain r from path to \<and> length path \<le> D \<and> (\<forall>other. index_chain r from other to \<longrightarrow> length path \<le> length other)
    | Inl e \<Rightarrow> e = no_path_msg from to \<and> (\<forall>other. index_chain r from other to \<longrightarrow> D < length other)"
proof -
  let ?db = "serve Q C base T'"
  define R where "R = {(x, y). \<exists>e\<in>set (ir_Edges r). xe_FromRef e = NormalizeQualifiedName x \<and> xe_ToRef e = y}"
  define D where "D = (if maxDepth \<le> 0 then 10 else nat maxDepth)"
  define G where "G = \<lparr>v_F = forward_set ?db (edge_rows C T') [] (o_Repo opts), v_s = from, v_t = to, v_D = D\<rparr>"
  have R: "succs (v_F G) = R" using Write_succs [OF assms(1-4,6)] assms(16) by (simp add: G_def R_def)
  have G: "v_t G = to" "v_D G = D" "v_s G = from" by (simp_all add: G_def)
  have fa: "requireSymbol ?db U from = Inr ()" and fb: "requireSymbol ?db U to = Inr ()"
    using found_declared [OF assms(1,3-7,9-11), of base] found_declared [OF assms(1,3-7,12-14), of base]
    by (auto simp: requireSymbol_def)
  have c: "db_contracts ?db = Inr []"
    using Write_keeps_contracts [OF assms(1,8)] by (simp add: serve_def QueryContracts_def select_def assms(7))
  have "\<forall>x. \<exists>es. EdgesFrom ?db x = Inr es"
    unfolding EdgesFrom_def using serve_answers [OF assms(6,7)] by blast
  from FindPath_outcome [OF served.sqlite_edges_axioms this c fa fb, where maxDepth = maxDepth and opts = opts] obtain res where
    out: "path_outcome G res" and eq: "FindPath ?db U from to maxDepth opts =
      (case res of Inl e \<Rightarrow> Inl e | Inr None \<Rightarrow> Inl (no_path_msg from to) | Inr (Some path) \<Rightarrow> Inr path)"
    unfolding G_def D_def by blast
  have hops: "(from, to) \<in> R ^^ length other" if "index_chain r from other to" for other
    using index_chain_hops [OF that] unfolding R_def .
  have keys: "edge_id ` stored_edges ?db (edge_rows C T') = xe_key ` set (ir_Edges r)"
    by (rule Write_edge_ids [OF assms(1-4,6)])
  show ?thesis
  proof (cases res)
    case (Inl e)
    with out hops show ?thesis
      unfolding Let_def D_def [symmetric] eq by (auto simp: path_outcome_def R G not_le [symmetric])
  next
    case (Inr p)
    show ?thesis
    proof (cases p)
      case None
      with Inr out assms(15) hops show ?thesis
        unfolding Let_def D_def [symmetric] eq by (auto simp: path_outcome_def R G not_le [symmetric])
    next
      case (Some path)
      with Inr out have o: "chain (v_F G) from path to" "length path \<le> D" "length path = hop_dist R from to"
        by (auto simp: path_outcome_def R G)
      have "index_chain r from path to" using chain_index [OF keys] o(1) by (simp add: G_def)
      moreover have "length path \<le> length other" if "index_chain r from other to" for other
        using hop_dist_le [OF hops [OF that]] o(3) by simp
      ultimately show ?thesis using o(2) unfolding Let_def D_def [symmetric] eq Inr Some by simp
    qed
  qed
qed

theorem Write_then_FindPath_witness:
  "\<forall>base U. \<exists>st. FindPath (serve plain_env unary_codec base call_tables) U ''m/a.F'' ''m/a.G'' 0 demo_options = Inr [st]
     \<and> ps_From st = ''m/a.F'' \<and> ps_To st = ''m/a.G'' \<and> ps_EdgeType st = ''calls''"
proof (intro allI)
  fix base U
  let ?answer = "FindPath (serve plain_env unary_codec base call_tables) U ''m/a.F'' ''m/a.G'' 0 demo_options"
  let ?st = "\<lparr>ps_From = ''m/a.F'', ps_To = ''m/a.G'', ps_EdgeType = ''calls'', ps_PosFile = [], ps_Repo = [], ps_PosLine = 0\<rparr>"
  have c: "index_chain call_index ''m/a.F'' [?st] ''m/a.G''" by (simp add: call_index_def call_names)
  have p: "let D = (if (0 :: int) \<le> 0 then 10 else nat 0) in
    case ?answer of
      Inr path \<Rightarrow> index_chain call_index ''m/a.F'' path ''m/a.G'' \<and> length path \<le> D
        \<and> (\<forall>other. index_chain call_index ''m/a.F'' other ''m/a.G'' \<longrightarrow> length path \<le> length other)
    | Inl e \<Rightarrow> e = no_path_msg ''m/a.F'' ''m/a.G'' \<and> (\<forall>other. index_chain call_index ''m/a.F'' other ''m/a.G'' \<longrightarrow> D < length other)"
    by (rule Write_then_FindPath [OF call_written plain_env_facts(1) reach_empty empty_facts(1,3) plain_env_facts(3,2) empty_facts(2)
        call_declared(1,5) _ call_declared(2,6)]) (simp_all add: call_declared call_names demo_options_def)
  show "\<exists>st. ?answer = Inr [st] \<and> ps_From st = ''m/a.F'' \<and> ps_To st = ''m/a.G'' \<and> ps_EdgeType st = ''calls''"
  proof (cases ?answer)
    case (Inl e)
    have "(if (0 :: int) \<le> 0 then 10 else nat 0) < length [?st]"
      using p [unfolded Inl Let_def sum.case] c by blast
    then show ?thesis by simp
  next
    case (Inr path)
    note q = p [unfolded Inr Let_def sum.case]
    then have q: "index_chain call_index ''m/a.F'' path ''m/a.G''" "length path \<le> length [?st]" using c by blast+
    then obtain st where st: "path = [st]" by (cases path) auto
    with q(1) Inr show ?thesis by (auto simp: call_index_def)
  qed
qed

end
