(* ===== verification/Changed.thy ===== *)
theory Changed
  imports Spans Impact Vcs Store_Meta
begin

text \<open>
  What changed since a ref (\<^verbatim>\<open>query/query.go\<close>, \<open>ChangedSymbols\<close>): the declarations of every changed file are compared
  by the text of their shape, the declaration without its name, on disk and at the ref; what exists on one side only is
  added or removed, and a removed and an added declaration of the same shape are one rename.
\<close>

section \<open>Runs\<close>

text \<open>\<open>None\<close> is a panic, \<open>Inl\<close> an error that ends the query with no result.\<close>

type_synonym 'a run = "'a result option"

definition run_bind :: "'a run \<Rightarrow> ('a \<Rightarrow> 'b run) \<Rightarrow> 'b run" where
  "run_bind r f = (case r of None \<Rightarrow> None | Some (Inl e) \<Rightarrow> Some (Inl e) | Some (Inr x) \<Rightarrow> f x)"

fun run_fold :: "('x \<Rightarrow> 's \<Rightarrow> 's run) \<Rightarrow> 'x list \<Rightarrow> 's \<Rightarrow> 's run" where
  "run_fold f [] s = Some (Inr s)"
| "run_fold f (x # xs) s = run_bind (f x s) (run_fold f xs)"

section \<open>Results\<close>

definition changeTypeModified :: string where "changeTypeModified = ''modified''"
definition changeTypeAdded :: string where "changeTypeAdded = ''added''"
definition changeTypeRemoved :: string where "changeTypeRemoved = ''removed''"
definition changeTypeRenamed :: string where "changeTypeRenamed = ''renamed''"

definition kindVar :: string where "kindVar = ''var''"

record changed_symbol =
  cs_BlastRadius :: "blast_radius option"
  cs_QualifiedName :: string
  cs_Kind :: string
  cs_ChangeType :: string
  cs_RenamedFrom :: string
  cs_shape :: string
  cs_PosFile :: string
  cs_Body :: string
  cs_Repo :: string
  cs_PosLine :: int

record renamed_file =
  rnf_From :: string
  rnf_To :: string

record changed_summary =
  su_Modified :: nat
  su_Added :: nat
  su_Removed :: nat
  su_FilesChanged :: nat
  su_Renamed :: nat

record changed_result =
  cg_Symbols :: "changed_symbol list"
  cg_Renamed :: "renamed_file list"
  cg_CompileErrors :: "diagnostic list"
  cg_Summary :: changed_summary

record removed_symbol =
  rm_Name :: string
  rm_Kind :: string
  rm_PosLine :: int

definition no_summary :: changed_summary where
  "no_summary = \<lparr>su_Modified = 0, su_Added = 0, su_Removed = 0, su_FilesChanged = 0, su_Renamed = 0\<rparr>"

definition recountChangedSummary :: "changed_symbol list \<Rightarrow> nat \<Rightarrow> nat \<Rightarrow> changed_summary" where
  "recountChangedSummary syms filesChanged renamedFiles =
     fold (\<lambda>sy summary.
         if cs_ChangeType sy = changeTypeAdded then summary\<lparr>su_Added := su_Added summary + 1\<rparr>
         else if cs_ChangeType sy = changeTypeModified then summary\<lparr>su_Modified := su_Modified summary + 1\<rparr>
         else if cs_ChangeType sy = changeTypeRemoved then summary\<lparr>su_Removed := su_Removed summary + 1\<rparr>
         else if cs_ChangeType sy = changeTypeRenamed then summary\<lparr>su_Renamed := su_Renamed summary + 1\<rparr>
         else summary)
       syms (no_summary\<lparr>su_FilesChanged := filesChanged, su_Renamed := renamedFiles\<rparr>)"

definition incSummary :: "string \<Rightarrow> changed_result \<Rightarrow> changed_result" where
  "incSummary ct res =
     (let summary = cg_Summary res in
        if ct = changeTypeAdded then res\<lparr>cg_Summary := summary\<lparr>su_Added := su_Added summary + 1\<rparr>\<rparr>
        else if ct = changeTypeModified then res\<lparr>cg_Summary := summary\<lparr>su_Modified := su_Modified summary + 1\<rparr>\<rparr>
        else if ct = changeTypeRemoved then res\<lparr>cg_Summary := summary\<lparr>su_Removed := su_Removed summary + 1\<rparr>\<rparr>
        else res)"

section \<open>Shapes\<close>

text \<open>The nodes whose shape is taken: a declaration, or one spec of a group.\<close>

datatype shape_node = DeclNode decl | SpecNode spec

definition spec_declares :: "string \<Rightarrow> spec \<Rightarrow> bool" where
  "spec_declares bare sp =
     (case sp of
        TypeSpec s \<Rightarrow> tsp_Name s = Some bare
      | ValueSpec s \<Rightarrow> list_ex (\<lambda>n. case n of Some (nm, _) \<Rightarrow> nm = bare | None \<Rightarrow> False) (vs_Names s)
      | ImportSpec \<Rightarrow> False)"

definition specForName :: "shape_node \<Rightarrow> string \<Rightarrow> spec option" where
  "specForName nd bare =
     (case nd of DeclNode (GenDecl d) \<Rightarrow> find (spec_declares bare) (gd_Specs d) | _ \<Rightarrow> None)"

text \<open>The declared identifier: its name and its offset.\<close>

definition shapeIdent :: "shape_node \<Rightarrow> string \<Rightarrow> (string \<times> nat) option" where
  "shapeIdent nd bare =
     (case nd of
        DeclNode (FuncDecl d) \<Rightarrow> map_option (\<lambda>n. (n, fd_NamePos d)) (fd_Name d)
      | SpecNode (TypeSpec s) \<Rightarrow> map_option (\<lambda>n. (n, tsp_NamePos s)) (tsp_Name s)
      | SpecNode (ValueSpec s) \<Rightarrow>
          first_some (\<lambda>n. case n of Some (nm, p) \<Rightarrow> if nm = bare then Some (nm, p) else None | None \<Rightarrow> None) (vs_Names s)
      | _ \<Rightarrow> None)"

definition node_range :: "shape_node \<Rightarrow> nat \<times> nat" where
  "node_range nd =
     (case nd of
        DeclNode (FuncDecl d) \<Rightarrow> (fd_Pos d, fd_End d)
      | DeclNode (GenDecl d) \<Rightarrow> (gd_Pos d, gd_End d)
      | SpecNode (TypeSpec s) \<Rightarrow> (tsp_Pos s, tsp_End s)
      | SpecNode (ValueSpec s) \<Rightarrow> (vs_Pos s, vs_End s)
      | _ \<Rightarrow> (0, 0))"

definition name_mark :: string where
  "name_mark = CHR 0x00 # ''name'' @ [CHR 0x00]"

definition maskedShape :: "string \<Rightarrow> shape_node \<Rightarrow> string \<Rightarrow> string" where
  "maskedShape contents nd0 bare =
     (let nd = (case specForName nd0 bare of Some sp \<Rightarrow> SpecNode sp | None \<Rightarrow> nd0);
          (start, fin) = node_range nd
      in case shapeIdent nd bare of
           None \<Rightarrow> slice contents start fin
         | Some (name, nameOff) \<Rightarrow>
             slice contents start nameOff @ name_mark @ slice contents (nameOff + length name) fin)"

section \<open>The two sides of a file\<close>

definition symbolTextsOnDisk :: "source_env \<Rightarrow> symbol list \<Rightarrow> (string, string) gomap" where
  "symbolTextsOnDisk env syms =
     fold (\<lambda>sy out.
         case symbolSpan env (sy_PosFile sy) (sy_PosLine sy) (sy_Receiver sy) (sy_Name sy) (sy_Kind sy) of
           Inl _ \<Rightarrow> out
         | Inr spn \<Rightarrow> gm_put (sy_QualifiedName sy) (maskedShape (dsp_data spn) (DeclNode (sm_node (dsp_match spn))) (sy_Name sy)) out)
       syms []"

definition funcSymbolKey :: "string \<Rightarrow> func_decl \<Rightarrow> string \<Rightarrow> string" where
  "funcSymbolKey pkgPath d name =
     (case fd_Recv d of
        Some (r # _) \<Rightarrow> pkgPath @ ''.'' @ astReceiverName r @ ''.'' @ name
      | _ \<Rightarrow> pkgPath @ ''.'' @ name)"

definition genDeclKeys :: "string \<Rightarrow> spec \<Rightarrow> string list" where
  "genDeclKeys pkgPath sp =
     (case sp of
        TypeSpec s \<Rightarrow> (case tsp_Name s of Some n \<Rightarrow> [pkgPath @ ''.'' @ n] | None \<Rightarrow> [])
      | ValueSpec s \<Rightarrow> concat (map (\<lambda>n. case n of Some (nm, _) \<Rightarrow> [pkgPath @ ''.'' @ nm] | None \<Rightarrow> []) (vs_Names s))
      | ImportSpec \<Rightarrow> [])"

definition bare_name :: "string \<Rightarrow> string" where
  "bare_name key = (case str_last_index key ''.'' of Some i \<Rightarrow> drop (i + 1) key | None \<Rightarrow> key)"

definition decl_texts :: "string \<Rightarrow> string \<Rightarrow> decl \<Rightarrow> (string, string) gomap \<Rightarrow> (string, string) gomap" where
  "decl_texts contents pkgPath dc out =
     (case dc of
        FuncDecl d \<Rightarrow>
          (case fd_Name d of
             None \<Rightarrow> out
           | Some name \<Rightarrow> gm_put (funcSymbolKey pkgPath d name) (maskedShape contents (DeclNode (FuncDecl d)) name) out)
      | GenDecl d \<Rightarrow>
          fold (\<lambda>sp out. fold (\<lambda>key. gm_put key (maskedShape contents (SpecNode sp) (bare_name key))) (genDeclKeys pkgPath sp) out)
            (gd_Specs d) out
      | BadDecl \<Rightarrow> out)"

definition symbolTextsAtRef :: "git_env \<Rightarrow> source_env \<Rightarrow> string \<Rightarrow> string \<Rightarrow> string \<Rightarrow> string
    \<Rightarrow> (string, string) gomap result" where
  "symbolTextsAtRef G env repoDir ref file pkgPath =
     (case GitShowFile G repoDir ref file of
        Inl (ErrFileNotInRef _ _) \<Rightarrow> Inr []
      | Inl e \<Rightarrow> Inl (''changed_symbols: '' @ file @ ''@'' @ ref @ '': '' @ churn_error e)
      | Inr contents \<Rightarrow>
          (case se_parse env file contents of
             Inl e \<Rightarrow> Inl (''changed_symbols: parse '' @ file @ ''@'' @ ref @ '': '' @ e)
           | Inr f \<Rightarrow> Inr (fold (decl_texts contents pkgPath) (pf_Decls f) [])))"

definition classifySymbol :: "string \<Rightarrow> (string, string) gomap \<Rightarrow> (string, string) gomap \<Rightarrow> string" where
  "classifySymbol qn cur old =
     (let inCur = gm_has cur qn; inOld = gm_has old qn in
        if inCur \<and> \<not> inOld then changeTypeAdded
        else if \<not> inCur \<and> inOld then changeTypeRemoved
        else if gm_get [] cur qn \<noteq> gm_get [] old qn then changeTypeModified
        else [])"

text \<open>\<^verbatim>\<open>strings.Count(qn, ".")\<close>\<close>

definition kindOfQualifiedName :: "string \<Rightarrow> string" where
  "kindOfQualifiedName qn = (if 2 \<le> count_list qn CHR ''.'' then kindMethod else kindFunction)"

section \<open>Declarations of a deleted file\<close>

definition funcDeclToSymbol :: "func_decl \<Rightarrow> removed_symbol list" where
  "funcDeclToSymbol d =
     (case fd_Name d of
        None \<Rightarrow> []
      | Some name \<Rightarrow> [\<lparr>rm_Name = name, rm_Kind = (if fd_Recv d \<noteq> None then kindMethod else kindFunction), rm_PosLine = fd_Line d\<rparr>])"

definition typeSpecToSymbol :: "type_spec \<Rightarrow> removed_symbol list" where
  "typeSpecToSymbol s =
     (case tsp_Name s of None \<Rightarrow> [] | Some name \<Rightarrow> [\<lparr>rm_Name = name, rm_Kind = ''type'', rm_PosLine = tsp_Line s\<rparr>])"

definition varOrConstKind :: "tok \<Rightarrow> string" where
  "varOrConstKind t = (if t = TokVar then kindVar else if t = TokConst then ''const'' else [])"

definition valueSpecToSymbols :: "value_spec \<Rightarrow> tok \<Rightarrow> removed_symbol list" where
  "valueSpecToSymbols s t =
     concat (map (\<lambda>n. case n of
         None \<Rightarrow> [] | Some (nm, _) \<Rightarrow> [\<lparr>rm_Name = nm, rm_Kind = varOrConstKind t, rm_PosLine = vs_Line s\<rparr>]) (vs_Names s))"

definition decl_symbols :: "decl \<Rightarrow> removed_symbol list" where
  "decl_symbols dc =
     (case dc of
        FuncDecl d \<Rightarrow> funcDeclToSymbol d
      | GenDecl d \<Rightarrow>
          concat (map (\<lambda>sp. case sp of
              TypeSpec s \<Rightarrow> typeSpecToSymbol s | ValueSpec s \<Rightarrow> valueSpecToSymbols s (gd_Tok d) | ImportSpec \<Rightarrow> []) (gd_Specs d))
      | BadDecl \<Rightarrow> [])"

definition symbolsAtRef :: "git_env \<Rightarrow> source_env \<Rightarrow> string \<Rightarrow> string \<Rightarrow> string \<Rightarrow> removed_symbol list result" where
  "symbolsAtRef G env refRepoDir ref file =
     (case GitShowFile G refRepoDir ref file of
        Inl e \<Rightarrow> Inl (churn_error e)
      | Inr contents \<Rightarrow> map_sum id (\<lambda>f. concat (map decl_symbols (pf_Decls f))) (se_parse env file contents))"

section \<open>Recording changes\<close>

text \<open>The index and the tree a query reads; \<open>cv_absent\<close> is \<^verbatim>\<open>os.IsNotExist\<close> of the \<^verbatim>\<open>os.Stat\<close> of a directory.\<close>

record changed_env =
  cv_db :: store_db
  cv_uni :: unidata
  cv_git :: git_env
  cv_src :: source_env
  cv_diagnostics :: "string \<Rightarrow> diagnostic list result"
  cv_repos :: "repo list result"
  cv_absent :: "string \<Rightarrow> bool"

record changed_flags =
  fl_withBlast :: bool
  fl_includeBodies :: bool
  fl_includeTests :: bool

text \<open>The name is missing exactly when the lookup of \<open>GetBlastRadius\<close> finds no row (\<^verbatim>\<open>errSymbolMissing\<close>).\<close>

definition blastRadiusFor :: "changed_env \<Rightarrow> string \<Rightarrow> blast_radius option run" where
  "blastRadiusFor E qn =
     (case SymbolByName (cv_db E) qn of
        Inr None \<Rightarrow> Some (Inr None)
      | _ \<Rightarrow> map_option (map_sum (\<lambda>e. ''changed_symbols: blast radius for '' @ qn @ '': '' @ e) Some)
               (GetBlastRadius (cv_db E) (cv_uni E) qn 3 no_options))"

definition blast_if :: "changed_env \<Rightarrow> bool \<Rightarrow> string \<Rightarrow> blast_radius option run" where
  "blast_if E withBlast qn = (if withBlast then blastRadiusFor E qn else Some (Inr None))"

definition readChangedBody :: "source_env \<Rightarrow> string \<Rightarrow> string \<Rightarrow> string \<Rightarrow> string \<Rightarrow> int \<Rightarrow> bool \<Rightarrow> string result" where
  "readChangedBody env filePath name kind receiver posLine include =
     (if \<not> include then Inr []
      else case symbolSpan env filePath posLine receiver name kind of
        Inl e \<Rightarrow> Inl (''changed_symbols: body for '' @ name @ '' in '' @ filePath @ '': '' @ e)
      | Inr spn \<Rightarrow> Inr (slice (dsp_data spn) (sm_startOff (dsp_match spn)) (sm_endOff (dsp_match spn))))"

definition note_symbol :: "changed_symbol \<Rightarrow> changed_result \<Rightarrow> changed_result" where
  "note_symbol cs res = res\<lparr>cg_Symbols := cg_Symbols res @ [cs]\<rparr>"

definition appendChangedSymbol :: "changed_env \<Rightarrow> changed_flags \<Rightarrow> changed_result \<Rightarrow> symbol \<Rightarrow> string \<Rightarrow> string \<Rightarrow> string
    \<Rightarrow> changed_result run" where
  "appendChangedSymbol E F res sy ct renamedFrom shape =
     run_bind (Some (if ct \<noteq> changeTypeRemoved
         then readChangedBody (cv_src E) (sy_PosFile sy) (sy_Name sy) (sy_Kind sy) (sy_Receiver sy) (sy_PosLine sy) (fl_includeBodies F)
         else Inr [])) (\<lambda>body.
     run_bind (blast_if E (fl_withBlast F) (sy_QualifiedName sy)) (\<lambda>br.
       Some (Inr (incSummary ct (note_symbol
         \<lparr>cs_BlastRadius = br, cs_QualifiedName = sy_QualifiedName sy, cs_Kind = sy_Kind sy, cs_ChangeType = ct,
          cs_RenamedFrom = renamedFrom, cs_shape = shape, cs_PosFile = sy_PosFile sy, cs_Body = body, cs_Repo = [],
          cs_PosLine = sy_PosLine sy\<rparr> res)))))"

text \<open>The symbols already reported, and the result so far.\<close>

type_synonym progress = "string list \<times> changed_result"

definition unless_seen :: "string \<Rightarrow> (changed_result \<Rightarrow> changed_result run) \<Rightarrow> progress \<Rightarrow> progress run" where
  "unless_seen qn act = (\<lambda>(seen, res).
     if qn \<in> set seen then Some (Inr (seen, res))
     else run_bind (act res) (\<lambda>res. Some (Inr (qn # seen, res))))"

definition processDeletedFile :: "changed_env \<Rightarrow> changed_flags \<Rightarrow> string \<Rightarrow> string \<Rightarrow> string \<Rightarrow> progress \<Rightarrow> progress run" where
  "processDeletedFile E F repoDir ref file st =
     (case symbolsAtRef (cv_git E) (cv_src E) repoDir ref file of
        Inl e \<Rightarrow> Some (Inl (''changed_symbols: symbols at '' @ file @ ''@'' @ ref @ '': '' @ e))
      | Inr syms \<Rightarrow>
          run_fold (\<lambda>sy. let qn = file @ ''.'' @ rm_Name sy in unless_seen qn (\<lambda>res.
              run_bind (blast_if E (fl_withBlast F) qn) (\<lambda>br.
                let res = note_symbol \<lparr>cs_BlastRadius = br, cs_QualifiedName = qn, cs_Kind = rm_Kind sy,
                      cs_ChangeType = changeTypeRemoved, cs_RenamedFrom = [], cs_shape = [], cs_PosFile = file, cs_Body = [],
                      cs_Repo = [], cs_PosLine = rm_PosLine sy\<rparr> res
                in Some (Inr (res\<lparr>cg_Summary := (cg_Summary res)\<lparr>su_Removed := su_Removed (cg_Summary res) + 1\<rparr>\<rparr>))))) syms st)"

text \<open>\<^verbatim>\<open>store.Symbol{QualifiedName: qn, PackagePath: pkgPath, Kind: ...}\<close>\<close>

definition bare_symbol :: "string \<Rightarrow> string \<Rightarrow> string \<Rightarrow> symbol" where
  "bare_symbol qn pkgPath kind =
     \<lparr>sy_QualifiedName = qn, sy_PackagePath = pkgPath, sy_Name = [], sy_Kind = kind, sy_Receiver = [], sy_Signature = [],
      sy_Doc = [], sy_PosFile = [], sy_Repo = [], sy_Fields = [], sy_PosLine = 0, sy_Complexity = 0, sy_ChurnCount = 0,
      sy_Importance = 0, sy_Exported = False, sy_IsTest = False, sy_IsGenerated = False\<rparr>"

definition appendRemovedFromRef :: "changed_env \<Rightarrow> changed_flags \<Rightarrow> (string, string) gomap \<Rightarrow> (string, string) gomap \<Rightarrow> string
    \<Rightarrow> progress \<Rightarrow> progress run" where
  "appendRemovedFromRef E F oldText curText pkgPath st =
     run_fold (\<lambda>qn. unless_seen qn (\<lambda>res.
         appendChangedSymbol E (F\<lparr>fl_includeBodies := False\<rparr>) res (bare_symbol qn pkgPath (kindOfQualifiedName qn))
           changeTypeRemoved [] (gm_get [] oldText qn)))
       (sort_by (<) (filter (\<lambda>qn. \<not> gm_has curText qn) (gm_keys oldText))) st"

definition processChangedFile :: "changed_env \<Rightarrow> changed_flags \<Rightarrow> string \<Rightarrow> string \<Rightarrow> string \<Rightarrow> progress \<Rightarrow> progress run" where
  "processChangedFile E F repoDir ref file st =
     (case SymbolsInFile (cv_db E) file (fl_includeTests F) of
        Inl e \<Rightarrow> Some (Inl (''changed_symbols: symbols in '' @ file @ '': '' @ e))
      | Inr [] \<Rightarrow> Some (Inr st)
      | Inr (sy0 # rest) \<Rightarrow>
          (let syms = sy0 # rest; pkgPath = sy_PackagePath sy0 in
             case path_rel repoDir file of
               Inl e \<Rightarrow> Some (Inl (''changed_symbols: relative path for '' @ file @ '': '' @ e))
             | Inr rel \<Rightarrow>
                 (case symbolTextsAtRef (cv_git E) (cv_src E) repoDir ref rel pkgPath of
                    Inl e \<Rightarrow> Some (Inl e)
                  | Inr oldText \<Rightarrow>
                      (let curText = symbolTextsOnDisk (cv_src E) syms in
                         run_bind (run_fold (\<lambda>sy. unless_seen (sy_QualifiedName sy) (\<lambda>res.
                             let ct = classifySymbol (sy_QualifiedName sy) curText oldText in
                               if ct = [] then Some (Inr res)
                               else appendChangedSymbol E F res sy ct [] (gm_get [] curText (sy_QualifiedName sy)))) syms st)
                           (appendRemovedFromRef E F oldText curText pkgPath)))))"

section \<open>Renames\<close>

text \<open>The loop over the result, by index: the symbols, the removed indices left for each shape, the indices used up.\<close>

type_synonym pairing = "changed_symbol list \<times> (string, nat list) gomap \<times> nat list"

definition rename_step :: "nat \<Rightarrow> pairing \<Rightarrow> pairing" where
  "rename_step i = (\<lambda>(syms, removed, dropped).
     let sy = syms ! i in
       if cs_ChangeType sy \<noteq> changeTypeAdded \<or> cs_shape sy = [] then (syms, removed, dropped)
       else case gm_get [] removed (cs_shape sy) of
         [] \<Rightarrow> (syms, removed, dropped)
       | from # candidates \<Rightarrow>
           (syms[i := sy\<lparr>cs_ChangeType := changeTypeRenamed, cs_RenamedFrom := cs_QualifiedName (syms ! from)\<rparr>],
            gm_put (cs_shape sy) candidates removed, from # dropped))"

definition removed_shapes :: "changed_symbol list \<Rightarrow> (string, nat list) gomap" where
  "removed_shapes syms =
     group_by (\<lambda>i. cs_shape (syms ! i)) (\<lambda>i. i)
       (filter (\<lambda>i. cs_ChangeType (syms ! i) = changeTypeRemoved \<and> cs_shape (syms ! i) \<noteq> []) [0..<length syms]) []"

definition reportRenames :: "changed_result \<Rightarrow> changed_result" where
  "reportRenames res =
     (let removed = removed_shapes (cg_Symbols res) in
        if removed = [] then res
        else case fold rename_step [0..<length (cg_Symbols res)] (cg_Symbols res, removed, []) of (syms, _, dropped) \<Rightarrow>
          if dropped = [] then res
          else
            let kept = map (\<lambda>i. syms ! i) (filter (\<lambda>i. i \<notin> set dropped) [0..<length syms]) in
              res\<lparr>cg_Symbols := kept,
                  cg_Summary := recountChangedSummary kept (su_FilesChanged (cg_Summary res)) (su_Renamed (cg_Summary res))\<rparr>)"

definition attachCompileErrors :: "changed_env \<Rightarrow> changed_result \<Rightarrow> changed_result result" where
  "attachCompileErrors E res =
     (case cv_diagnostics E [] of
        Inl e \<Rightarrow> Inl (''changed_symbols: diagnostics: '' @ e)
      | Inr diags \<Rightarrow> Inr (if diags \<noteq> [] then res\<lparr>cg_CompileErrors := diags\<rparr> else res))"

section \<open>The queries\<close>

definition resolveRepoDir :: "source_env \<Rightarrow> string \<Rightarrow> string result" where
  "resolveRepoDir env repoDir =
     map_sum (\<lambda>e. ''resolve repo dir: '' @ e) id (path_abs (se_cwd env) (if repoDir = [] then ''.'' else repoDir))"

definition moved_status :: "file_status \<Rightarrow> bool" where
  "moved_status st \<longleftrightarrow> fs_Status st \<noteq> [] \<and> (hd (fs_Status st) = CHR ''R'' \<or> hd (fs_Status st) = CHR ''C'')"

definition note_rename :: "file_status \<Rightarrow> changed_result \<Rightarrow> changed_result" where
  "note_rename st res =
     (if moved_status st
      then res\<lparr>cg_Renamed := cg_Renamed res @ [\<lparr>rnf_From = fs_OldPath st, rnf_To = fs_Path st\<rparr>],
               cg_Summary := (cg_Summary res)\<lparr>su_Renamed := su_Renamed (cg_Summary res) + 1\<rparr>\<rparr>
      else res)"

definition process_status :: "changed_env \<Rightarrow> changed_flags \<Rightarrow> string \<Rightarrow> string \<Rightarrow> file_status \<Rightarrow> progress \<Rightarrow> progress run" where
  "process_status E F repoDir ref st = (\<lambda>(seen, res).
     if fs_Status st = ''D'' then processDeletedFile E F repoDir ref (fs_Path st) (seen, res)
     else processChangedFile E F repoDir ref (path_join repoDir (fs_Path st)) (seen, note_rename st res))"

definition no_changes :: "nat \<Rightarrow> changed_result" where
  "no_changes files = \<lparr>cg_Symbols = [], cg_Renamed = [], cg_CompileErrors = [], cg_Summary = no_summary\<lparr>su_FilesChanged := files\<rparr>\<rparr>"

definition ChangedSymbols :: "changed_env \<Rightarrow> string \<Rightarrow> string \<Rightarrow> changed_flags \<Rightarrow> changed_result run" where
  "ChangedSymbols E repoDir0 ref0 F =
     (case resolveRepoDir (cv_src E) repoDir0 of
        Inl e \<Rightarrow> Some (Inl e)
      | Inr repoDir \<Rightarrow>
          (let ref = (if ref0 = [] then DefaultBranch (cv_git E) repoDir else ref0) in
             case GitFileStatuses (cv_git E) repoDir ref of
               Inl e \<Rightarrow> Some (Inl e)
             | Inr statuses \<Rightarrow>
                 (case GitUntrackedFiles (cv_git E) repoDir of
                    Inl e \<Rightarrow> Some (Inl e)
                  | Inr untracked \<Rightarrow>
                      run_bind (run_fold (process_status E F repoDir ref) statuses ([], no_changes (length statuses + length untracked)))
                        (\<lambda>st. run_bind (run_fold (\<lambda>path. processChangedFile E F repoDir ref (path_join repoDir path)) untracked st)
                          (\<lambda>(_, res). Some (attachCompileErrors E (reportRenames res)))))))"

definition add_member :: "string \<Rightarrow> changed_result \<Rightarrow> changed_result \<Rightarrow> changed_result" where
  "add_member modulePath perRepo res =
     (let a = cg_Summary res; b = cg_Summary perRepo in
        res\<lparr>cg_Symbols := cg_Symbols res @ map (\<lambda>sy. sy\<lparr>cs_Repo := modulePath\<rparr>) (cg_Symbols perRepo),
            cg_Summary := a\<lparr>su_Modified := su_Modified a + su_Modified b, su_Added := su_Added a + su_Added b,
              su_Removed := su_Removed a + su_Removed b, su_FilesChanged := su_FilesChanged a + su_FilesChanged b\<rparr>\<rparr>)"

definition WorkspaceChangedSymbols :: "changed_env \<Rightarrow> changed_flags \<Rightarrow> changed_result run" where
  "WorkspaceChangedSymbols E F =
     (case cv_repos E of
        Inl e \<Rightarrow> Some (Inl e)
      | Inr repos \<Rightarrow>
          run_fold (\<lambda>r res.
              if rq_Missing r \<or> cv_absent E (rq_Dir r) then Some (Inr res)
              else case ChangedSymbols E (rq_Dir r) [] F of
                None \<Rightarrow> None
              | Some (Inl _) \<Rightarrow> Some (Inr res)
              | Some (Inr perRepo) \<Rightarrow> Some (Inr (add_member (rq_ModulePath r) perRepo res)))
            repos (no_changes 0))"

end
