(* ===== verification/Changed_Proofs.thy ===== *)
theory Changed_Proofs
  imports Changed Write_Proofs
begin

text \<open>
  The change query is correct: a file reports exactly the declarations whose shapes differ, each once and with the change
  type of its two texts; renames pair removed and added declarations of one shape in order; the counters of the answer are
  those of its symbols. The last section states where the answer is not what the comments promise.
\<close>

section \<open>Runs\<close>

lemma run_bind_ok: "run_bind r f = Some (Inr y) \<longleftrightarrow> (\<exists>x. r = Some (Inr x) \<and> f x = Some (Inr y))"
  by (auto simp: run_bind_def split: option.splits sum.splits)

lemma run_fold_inv:
  "run_fold f xs s = Some (Inr s') \<Longrightarrow> I s \<Longrightarrow> (\<And>x s s'. x \<in> set xs \<Longrightarrow> f x s = Some (Inr s') \<Longrightarrow> I s \<Longrightarrow> I s') \<Longrightarrow> I s'"
proof (induction xs arbitrary: s)
  case (Cons x xs)
  obtain s1 where s1: "f x s = Some (Inr s1)" "run_fold f xs s1 = Some (Inr s')"
    using Cons.prems(1) by (auto simp: run_bind_ok)
  show ?case
  proof (rule Cons.IH [OF s1(2)])
    show "I s1" using Cons.prems(3) [OF _ s1(1) Cons.prems(2)] by simp
  next
    fix y t t'
    assume "y \<in> set xs" "f y t = Some (Inr t')" "I t"
    then show "I t'" using Cons.prems(3) [of y t t'] by simp
  qed
qed simp

lemma run_fold_succeeds:
  "(\<And>x s. x \<in> set xs \<Longrightarrow> \<exists>s'. f x s = Some (Inr s')) \<Longrightarrow> \<exists>s'. run_fold f xs s = Some (Inr s')"
proof (induction xs arbitrary: s)
  case (Cons x xs)
  obtain s1 where "f x s = Some (Inr s1)" using Cons.prems [of x s] by auto
  moreover obtain s2 where "run_fold f xs s1 = Some (Inr s2)" using Cons by (metis list.set_intros(2))
  ultimately show ?case by (auto simp: run_bind_def)
qed simp

section \<open>One file\<close>

lemmas change_type_defs = changeTypeAdded_def changeTypeModified_def changeTypeRemoved_def changeTypeRenamed_def

lemma classify_types: "classifySymbol q cur old \<in> {[], changeTypeAdded, changeTypeModified, changeTypeRemoved}"
  by (simp add: classifySymbol_def Let_def)

lemma incSummary_symbols [simp]: "cg_Symbols (incSummary ct res) = cg_Symbols res" "cg_Renamed (incSummary ct res) = cg_Renamed res"
  by (simp_all add: incSummary_def Let_def)

lemma append_ok:
  "appendChangedSymbol E F res sy ct from shape = Some (Inr res') \<Longrightarrow>
   \<exists>cs. cs_QualifiedName cs = sy_QualifiedName sy \<and> cs_ChangeType cs = ct \<and> cs_shape cs = shape
     \<and> res' = incSummary ct (note_symbol cs res)"
  by (force simp: appendChangedSymbol_def run_bind_ok)

text \<open>One symbol of a file: passed over when it was seen, reported when it has a change type.\<close>

definition reported :: "(string \<Rightarrow> string) \<Rightarrow> string \<Rightarrow> progress \<Rightarrow> progress \<Rightarrow> bool" where
  "reported cl q st st' \<longleftrightarrow>
     (if q \<in> set (fst st) then st' = st
      else fst st' = q # fst st
        \<and> (if cl q = [] then snd st' = snd st
           else \<exists>cs. cs_QualifiedName cs = q \<and> cs_ChangeType cs = cl q \<and> snd st' = incSummary (cl q) (note_symbol cs (snd st))))"

lemma reported_fold:
  assumes "run_fold f xs st = Some (Inr st')"
    and "\<And>x st st'. x \<in> set xs \<Longrightarrow> f x st = Some (Inr st') \<Longrightarrow> reported cl (name x) st st'"
  shows "\<exists>new. cg_Symbols (snd st') = cg_Symbols (snd st) @ new
      \<and> map (\<lambda>s. (cs_QualifiedName s, cs_ChangeType s)) new
        = filter (\<lambda>p. snd p \<noteq> []) (map (\<lambda>q. (q, cl q)) (dedup_by (\<lambda>q. q) (fst st) (map name xs)))
      \<and> set (fst st') = set (fst st) \<union> name ` set xs"
  using assms
proof (induction xs arbitrary: st)
  case (Cons x xs)
  obtain s1 where s1: "f x st = Some (Inr s1)" "run_fold f xs s1 = Some (Inr st')"
    using Cons.prems(1) by (auto simp: run_bind_ok)
  have r: "reported cl (name x) st s1" using Cons.prems(2) s1(1) by simp
  obtain new where new: "cg_Symbols (snd st') = cg_Symbols (snd s1) @ new"
    "map (\<lambda>s. (cs_QualifiedName s, cs_ChangeType s)) new
        = filter (\<lambda>p. snd p \<noteq> []) (map (\<lambda>q. (q, cl q)) (dedup_by (\<lambda>q. q) (fst s1) (map name xs)))"
    "set (fst st') = set (fst s1) \<union> name ` set xs"
    using Cons.IH [OF s1(2)] Cons.prems(2) by auto
  show ?case
  proof (cases "name x \<in> set (fst st)")
    case True
    then have "s1 = st" using r by (simp add: reported_def)
    then show ?thesis using new True by auto
  next
    case False
    then have f: "fst s1 = name x # fst st" using r by (simp add: reported_def)
    show ?thesis
    proof (cases "cl (name x) = []")
      case True
      then have "snd s1 = snd st" using r False by (simp add: reported_def)
      then show ?thesis using new False f True by auto
    next
      case ct: False
      then obtain cs where "cs_QualifiedName cs = name x" "cs_ChangeType cs = cl (name x)"
        "snd s1 = incSummary (cl (name x)) (note_symbol cs (snd st))"
        using r False by (auto simp: reported_def)
      then show ?thesis using new False f ct by (intro exI [of _ "cs # new"]) (auto simp: note_symbol_def)
    qed
  qed
qed simp

lemma reported_seen:
  assumes "unless_seen q act (seen, res) = Some (Inr st')"
    and "\<And>res'. act res = Some (Inr res') \<Longrightarrow> (if cl q = [] then res' = res
       else \<exists>cs. cs_QualifiedName cs = q \<and> cs_ChangeType cs = cl q \<and> res' = incSummary (cl q) (note_symbol cs res))"
  shows "reported cl q (seen, res) st'"
  using assms by (auto simp: unless_seen_def reported_def run_bind_ok split: if_splits)

lemma disk_names: "fst ` set (symbolTextsOnDisk env syms) \<subseteq> sy_QualifiedName ` set syms"
proof -
  have loop: "fst ` set (fold (\<lambda>sy out. case symbolSpan env (sy_PosFile sy) (sy_PosLine sy) (sy_Receiver sy) (sy_Name sy) (sy_Kind sy) of
           Inl _ \<Rightarrow> out
         | Inr spn \<Rightarrow> gm_put (sy_QualifiedName sy) (maskedShape (dsp_data spn) (DeclNode (sm_node (dsp_match spn))) (sy_Name sy)) out)
       syms out) \<subseteq> fst ` set out \<union> sy_QualifiedName ` set syms" for out
  proof (induction syms arbitrary: out)
    case (Cons sy syms)
    have put: "fst ` set (gm_put (sy_QualifiedName sy) v out) \<subseteq> insert (sy_QualifiedName sy) (fst ` set out)" for v by simp
    show ?case
    proof (cases "symbolSpan env (sy_PosFile sy) (sy_PosLine sy) (sy_Receiver sy) (sy_Name sy) (sy_Kind sy)")
      case (Inl e)
      then show ?thesis using Cons [of out] by auto
    next
      case (Inr spn)
      then show ?thesis
        using Cons [of "gm_put (sy_QualifiedName sy)
          (maskedShape (dsp_data spn) (DeclNode (sm_node (dsp_match spn))) (sy_Name sy)) out"] by auto
    qed
  qed simp
  show ?thesis using loop [of "[]"] by (simp add: symbolTextsOnDisk_def)
qed

text \<open>The first and the second loop of a file, and what each leaves.\<close>

lemma processChangedFile_loops:
  assumes "SymbolsInFile (cv_db E) file (fl_includeTests F) = Inr syms"
    and "syms \<noteq> []"
    and "path_rel repoDir file = Inr rel"
    and "symbolTextsAtRef (cv_git E) (cv_src E) repoDir ref rel (sy_PackagePath (hd syms)) = Inr old"
    and "processChangedFile E F repoDir ref file st = Some (Inr st')"
  shows "\<exists>st1. run_fold (\<lambda>sy. unless_seen (sy_QualifiedName sy) (\<lambda>res.
        let ct = classifySymbol (sy_QualifiedName sy) (symbolTextsOnDisk (cv_src E) syms) old in
          if ct = [] then Some (Inr res)
          else appendChangedSymbol E F res sy ct [] (gm_get [] (symbolTextsOnDisk (cv_src E) syms) (sy_QualifiedName sy)))) syms st
       = Some (Inr st1)
    \<and> appendRemovedFromRef E F old (symbolTextsOnDisk (cv_src E) syms) (sy_PackagePath (hd syms)) st1 = Some (Inr st')"
proof -
  obtain sy0 rest where syms: "syms = sy0 # rest" using assms(2) by (cases syms) auto
  show ?thesis
    using assms(5) unfolding processChangedFile_def assms(1) syms
    by (simp only: list.case sum.case Let_def assms(3) list.sel assms(4) [unfolded syms list.sel] run_bind_ok)
qed

lemma first_loop_step:
  assumes "unless_seen (sy_QualifiedName x) (\<lambda>res.
        let ct = classifySymbol (sy_QualifiedName x) cur old in
          if ct = [] then Some (Inr res)
          else appendChangedSymbol E F res x ct [] (gm_get [] cur (sy_QualifiedName x))) s = Some (Inr s')"
  shows "reported (\<lambda>q. classifySymbol q cur old) (sy_QualifiedName x) s s'"
  using assms by (cases s) (simp add: Let_def, elim reported_seen, fastforce split: if_splits dest: append_ok)

lemma second_loop_step:
  assumes "q \<in> set (sort_by (<) (filter (\<lambda>qn. \<not> gm_has cur qn) (gm_keys old)))"
    and "unless_seen q (\<lambda>res. appendChangedSymbol E (F\<lparr>fl_includeBodies := False\<rparr>) res
       (bare_symbol q pkg (kindOfQualifiedName q)) changeTypeRemoved [] (gm_get [] old q)) s = Some (Inr s')"
  shows "reported (\<lambda>q. classifySymbol q cur old) q s s'"
proof -
  from assms(1) have gone: "\<not> gm_has cur q" "gm_has old q" by (auto simp: gm_has_iff)
  then have ct: "classifySymbol q cur old = changeTypeRemoved" by (simp add: classifySymbol_def)
  show ?thesis
    using assms(2) by (cases s) (simp, elim reported_seen,
      fastforce simp: ct bare_symbol_def change_type_defs dest: append_ok)
qed

lemma file_first_loop:
  assumes "run_fold (\<lambda>sy. unless_seen (sy_QualifiedName sy) (\<lambda>res.
        let ct = classifySymbol (sy_QualifiedName sy) cur old in
          if ct = [] then Some (Inr res)
          else appendChangedSymbol E F res sy ct [] (gm_get [] cur (sy_QualifiedName sy)))) syms st = Some (Inr st1)"
  shows "\<exists>new. cg_Symbols (snd st1) = cg_Symbols (snd st) @ new
      \<and> map (\<lambda>s. (cs_QualifiedName s, cs_ChangeType s)) new
        = filter (\<lambda>p. snd p \<noteq> []) (map (\<lambda>q. (q, classifySymbol q cur old)) (dedup_by (\<lambda>q. q) (fst st) (map sy_QualifiedName syms)))
      \<and> set (fst st1) = set (fst st) \<union> sy_QualifiedName ` set syms"
  by (rule reported_fold [OF assms]) (rule first_loop_step)

lemma file_second_loop:
  assumes "appendRemovedFromRef E F old cur pkg st = Some (Inr st')"
  shows "\<exists>new. cg_Symbols (snd st') = cg_Symbols (snd st) @ new
      \<and> map (\<lambda>s. (cs_QualifiedName s, cs_ChangeType s)) new
        = filter (\<lambda>p. snd p \<noteq> []) (map (\<lambda>q. (q, classifySymbol q cur old)) (dedup_by (\<lambda>q. q) (fst st)
            (map (\<lambda>q. q) (sort_by (<) (filter (\<lambda>q. \<not> gm_has cur q) (gm_keys old))))))
      \<and> set (fst st') = set (fst st) \<union> (\<lambda>q. q) ` set (sort_by (<) (filter (\<lambda>q. \<not> gm_has cur q) (gm_keys old)))"
  by (rule reported_fold [OF assms [unfolded appendRemovedFromRef_def]]) (rule second_loop_step)

lemma file_change_set:
  assumes "SymbolsInFile (cv_db E) file (fl_includeTests F) = Inr syms"
    and "syms \<noteq> []"
    and "path_rel repoDir file = Inr rel"
    and "symbolTextsAtRef (cv_git E) (cv_src E) repoDir ref rel (sy_PackagePath (hd syms)) = Inr old"
    and "processChangedFile E F repoDir ref file (seen, res) = Some (Inr (seen', res'))"
  defines "cur \<equiv> symbolTextsOnDisk (cv_src E) syms"
  shows "\<exists>new. cg_Symbols res' = cg_Symbols res @ new \<and> distinct (map cs_QualifiedName new)
      \<and> (\<forall>q ct. (q, ct) \<in> (\<lambda>s. (cs_QualifiedName s, cs_ChangeType s)) ` set new \<longleftrightarrow>
           q \<notin> set seen \<and> (q \<in> sy_QualifiedName ` set syms \<or> gm_has old q) \<and> ct = classifySymbol q cur old \<and> ct \<noteq> [])"
proof -
  let ?p = "\<lambda>s. (cs_QualifiedName s, cs_ChangeType s)" and ?cl = "\<lambda>q. classifySymbol q cur old"
  obtain st1 where loops: "run_fold (\<lambda>sy. unless_seen (sy_QualifiedName sy) (\<lambda>res.
        let ct = classifySymbol (sy_QualifiedName sy) cur old in
          if ct = [] then Some (Inr res)
          else appendChangedSymbol E F res sy ct [] (gm_get [] cur (sy_QualifiedName sy)))) syms (seen, res) = Some (Inr st1)"
    "appendRemovedFromRef E F old cur (sy_PackagePath (hd syms)) st1 = Some (Inr (seen', res'))"
    using processChangedFile_loops [OF assms(1-5)] unfolding cur_def by blast
  define gone where "gone = sort_by (<) (filter (\<lambda>q. \<not> gm_has cur q) (gm_keys old))"
  obtain n1 where n1: "cg_Symbols (snd st1) = cg_Symbols res @ n1"
    "map ?p n1 = filter (\<lambda>p. snd p \<noteq> []) (map (\<lambda>q. (q, ?cl q)) (dedup_by (\<lambda>q. q) seen (map sy_QualifiedName syms)))"
    "set (fst st1) = set seen \<union> sy_QualifiedName ` set syms"
    using file_first_loop [OF loops(1)] by auto
  obtain n2 where n2: "cg_Symbols res' = cg_Symbols (snd st1) @ n2"
    "map ?p n2 = filter (\<lambda>p. snd p \<noteq> []) (map (\<lambda>q. (q, ?cl q)) (dedup_by (\<lambda>q. q) (fst st1) gone))"
    using file_second_loop [OF loops(2)] by (auto simp: gone_def)
  have d1: "set (dedup_by (\<lambda>q. q) seen (map sy_QualifiedName syms)) = sy_QualifiedName ` set syms - set seen"
    using dedup_by_keys [of "\<lambda>q. q" seen "map sy_QualifiedName syms"] by simp
  have d2: "set (dedup_by (\<lambda>q. q) (fst st1) gone) = set gone - set (fst st1)"
    using dedup_by_keys [of "\<lambda>q. q" "fst st1" gone] by simp
  have names: "map cs_QualifiedName n = map fst (map ?p n)" for n by simp
  have sub: "distinct (map fst (filter P (map (\<lambda>q. (q, g q)) qs)))" if "distinct qs" for P :: "string \<times> string \<Rightarrow> bool" and g qs
    using that by (simp add: distinct_map_filter comp_def)
  have "distinct (map cs_QualifiedName n1)" "distinct (map cs_QualifiedName n2)"
    unfolding names n1(2) n2(2) using dedup_by_distinct [of "\<lambda>q. q"] by (auto intro!: sub)
  moreover have s1: "?p ` set n1 = {(q, ct). q \<in> sy_QualifiedName ` set syms - set seen \<and> ct = ?cl q \<and> ct \<noteq> []}"
    using arg_cong [OF n1(2), of set] d1 by auto
  moreover have s2: "?p ` set n2 = {(q, ct). q \<in> set gone - set (fst st1) \<and> ct = ?cl q \<and> ct \<noteq> []}"
    using arg_cong [OF n2(2), of set] d2 by auto
  moreover have "cs_QualifiedName ` set n1 \<inter> cs_QualifiedName ` set n2 = {}"
  proof -
    have "cs_QualifiedName ` set n1 = fst ` ?p ` set n1" "cs_QualifiedName ` set n2 = fst ` ?p ` set n2"
      by (auto simp: image_iff)
    then show ?thesis unfolding s1 s2 n1(3) by auto
  qed
  moreover have "gm_has old q \<Longrightarrow> q \<notin> sy_QualifiedName ` set syms \<Longrightarrow> q \<in> set gone" for q
    using disk_names [of "cv_src E" syms] by (auto simp: gone_def cur_def gm_has_iff)
  moreover have "q \<in> set gone \<Longrightarrow> gm_has old q" for q by (auto simp: gone_def gm_has_iff)
  ultimately show ?thesis
    using n1(1) n2(1) by (intro exI [of _ "n1 @ n2"]) (auto simp: image_Un n1(3))
qed

section \<open>Renames\<close>

text \<open>The removed symbols of a shape, and the rank of an added symbol among those of its shape.\<close>

definition removed_of :: "changed_symbol list \<Rightarrow> string \<Rightarrow> nat list" where
  "removed_of syms sh = filter (\<lambda>i. cs_ChangeType (syms ! i) = changeTypeRemoved \<and> cs_shape (syms ! i) = sh) [0..<length syms]"

definition added_upto :: "changed_symbol list \<Rightarrow> string \<Rightarrow> nat \<Rightarrow> nat" where
  "added_upto syms sh m = length (filter (\<lambda>i. cs_ChangeType (syms ! i) = changeTypeAdded \<and> cs_shape (syms ! i) = sh) [0..<m])"

definition partner :: "changed_symbol list \<Rightarrow> nat \<Rightarrow> nat option" where
  "partner syms i =
     (let sy = syms ! i; k = added_upto syms (cs_shape sy) i; R = removed_of syms (cs_shape sy) in
        if cs_ChangeType sy = changeTypeAdded \<and> cs_shape sy \<noteq> [] \<and> k < length R then Some (R ! k) else None)"

definition renamed_at :: "changed_symbol list \<Rightarrow> nat \<Rightarrow> changed_symbol" where
  "renamed_at syms i =
     (case partner syms i of
        None \<Rightarrow> syms ! i
      | Some j \<Rightarrow> (syms ! i)\<lparr>cs_ChangeType := changeTypeRenamed, cs_RenamedFrom := cs_QualifiedName (syms ! j)\<rparr>)"

lemma partner_removed:
  assumes "partner syms i = Some j"
  shows "j < length syms" "cs_ChangeType (syms ! j) = changeTypeRemoved" "cs_shape (syms ! j) = cs_shape (syms ! i)"
    "cs_shape (syms ! i) \<noteq> []" "cs_ChangeType (syms ! i) = changeTypeAdded"
proof -
  let ?R = "removed_of syms (cs_shape (syms ! i))"
  have "j \<in> set ?R" using assms by (auto simp: partner_def Let_def split: if_splits)
  then show "j < length syms" "cs_ChangeType (syms ! j) = changeTypeRemoved" "cs_shape (syms ! j) = cs_shape (syms ! i)"
    by (auto simp: removed_of_def)
  show "cs_shape (syms ! i) \<noteq> []" "cs_ChangeType (syms ! i) = changeTypeAdded"
    using assms by (auto simp: partner_def Let_def split: if_splits)
qed

lemma added_upto_Suc:
  "added_upto syms sh (Suc m)
   = added_upto syms sh m + (if cs_ChangeType (syms ! m) = changeTypeAdded \<and> cs_shape (syms ! m) = sh then 1 else 0)"
  by (simp add: added_upto_def)

lemma added_upto_mono: "i \<le> j \<Longrightarrow> added_upto syms sh i \<le> added_upto syms sh j"
  by (induction j) (auto simp: le_Suc_eq added_upto_Suc)

lemma partner_inj:
  assumes "partner syms i = Some j" and "partner syms i' = Some j"
  shows "i = i'"
proof (rule ccontr)
  assume "i \<noteq> i'"
  have sh: "cs_shape (syms ! i) = cs_shape (syms ! i')" using partner_removed(3) assms by metis
  let ?R = "removed_of syms (cs_shape (syms ! i))" and ?k = "\<lambda>i. added_upto syms (cs_shape (syms ! i)) i"
  have nth: "?k i < length ?R" "?R ! ?k i = j" "?k i' < length ?R" "?R ! ?k i' = j"
    using assms sh by (auto simp: partner_def Let_def split: if_splits)
  have "distinct ?R" by (simp add: removed_of_def)
  then have k: "?k i = ?k i'" using nth nth_eq_iff_index_eq by metis
  have lt: "?k a < ?k b" if "a < b" "partner syms a = Some j" "cs_shape (syms ! a) = cs_shape (syms ! b)" for a b
  proof -
    have "?k a < added_upto syms (cs_shape (syms ! b)) (Suc a)"
      using partner_removed(5) [OF that(2)] that(3) by (simp add: added_upto_Suc)
    also have "\<dots> \<le> ?k b" using that(1) by (intro added_upto_mono) simp
    finally show ?thesis .
  qed
  show False using lt [of i i'] lt [of i' i] assms sh k \<open>i \<noteq> i'\<close> by (metis less_irrefl linorder_neqE_nat)
qed

lemma renamed_name [simp]: "cs_QualifiedName (renamed_at syms i) = cs_QualifiedName (syms ! i)"
  by (simp add: renamed_at_def split: option.split)

definition pairs_upto :: "changed_symbol list \<Rightarrow> nat \<Rightarrow> pairing \<Rightarrow> bool" where
  "pairs_upto syms m = (\<lambda>(ss, removed, dropped).
     ss = map (renamed_at syms) [0..<m] @ drop m syms
     \<and> (\<forall>sh. sh \<noteq> [] \<longrightarrow> gm_get [] removed sh = drop (added_upto syms sh m) (removed_of syms sh))
     \<and> set dropped = {j. \<exists>i<m. partner syms i = Some j})"

lemma pairs_names:
  assumes "ss = map (renamed_at syms) [0..<m] @ drop m syms" and "m \<le> length syms" and "j < length syms"
  shows "cs_QualifiedName (ss ! j) = cs_QualifiedName (syms ! j)"
  using assms by (auto simp: nth_append)

lemma rename_step_pairs:
  assumes "pairs_upto syms m st" and m: "m < length syms"
  shows "pairs_upto syms (Suc m) (rename_step m st)"
proof -
  obtain ss removed dropped where st: "st = (ss, removed, dropped)" by (cases st)
  let ?sy = "syms ! m" and ?sh = "cs_shape (syms ! m)"
  have ss: "ss = map (renamed_at syms) [0..<m] @ drop m syms"
    and R: "\<And>sh. sh \<noteq> [] \<Longrightarrow> gm_get [] removed sh = drop (added_upto syms sh m) (removed_of syms sh)"
    and D: "set dropped = {j. \<exists>i<m. partner syms i = Some j}"
    using assms(1) st by (auto simp: pairs_upto_def)
  have at: "ss ! m = ?sy" using m by (simp add: ss nth_append)
  have split: "drop m syms = ?sy # drop (Suc m) syms" using m by (simp add: Cons_nth_drop_Suc)
  have D': "{j. \<exists>i<Suc m. partner syms i = Some j} = set dropped \<union> {j. partner syms m = Some j}"
    using D by (auto simp: less_Suc_eq)
  show ?thesis
  proof (cases "cs_ChangeType ?sy \<noteq> changeTypeAdded \<or> ?sh = []")
    case True
    then have none: "partner syms m = None" by (auto simp: partner_def Let_def)
    have "added_upto syms sh (Suc m) = added_upto syms sh m" if "sh \<noteq> []" for sh
      using True that by (auto simp: added_upto_Suc)
    moreover have "rename_step m st = st" using True by (auto simp: st rename_step_def at)
    ultimately show ?thesis using R D' by (simp add: st pairs_upto_def ss split renamed_at_def none)
  next
    case False
    let ?k = "added_upto syms ?sh m"
    show ?thesis
    proof (cases "?k < length (removed_of syms ?sh)")
      case True
      then obtain j0 rest where fr: "drop ?k (removed_of syms ?sh) = j0 # rest"
        "j0 = removed_of syms ?sh ! ?k" "rest = drop (Suc ?k) (removed_of syms ?sh)"
        by (metis Cons_nth_drop_Suc)
      have p: "partner syms m = Some j0" using False True fr(2) by (simp add: partner_def Let_def)
      have nm: "cs_QualifiedName (ss ! j0) = cs_QualifiedName (syms ! j0)"
        by (rule pairs_names [OF ss]) (use m partner_removed(1) [OF p] in auto)
      have "ss[m := ?sy\<lparr>cs_ChangeType := changeTypeRenamed, cs_RenamedFrom := cs_QualifiedName (ss ! j0)\<rparr>]
          = map (renamed_at syms) [0..<Suc m] @ drop (Suc m) syms"
        by (simp add: ss split list_update_append renamed_at_def p nm [unfolded ss split])
      moreover have "gm_get [] (gm_put ?sh rest removed) sh = drop (added_upto syms sh (Suc m)) (removed_of syms sh)"
        if "sh \<noteq> []" for sh
        using that False R [OF that] fr(3) by (auto simp: added_upto_Suc)
      moreover have "rename_step m st
          = (ss[m := ?sy\<lparr>cs_ChangeType := changeTypeRenamed, cs_RenamedFrom := cs_QualifiedName (ss ! j0)\<rparr>],
             gm_put ?sh rest removed, j0 # dropped)"
        using False by (simp add: st rename_step_def at R fr(1) Let_def)
      ultimately show ?thesis using D' by (auto simp: pairs_upto_def p)
    next
      case none: False
      then have p: "partner syms m = None" by (simp add: partner_def Let_def)
      have e: "drop ?k (removed_of syms ?sh) = []" using none by simp
      have "drop (added_upto syms sh (Suc m)) (removed_of syms sh) = drop (added_upto syms sh m) (removed_of syms sh)" for sh
        using none by (auto simp: added_upto_Suc)
      moreover have "rename_step m st = st" using False e R by (simp add: st rename_step_def at Let_def)
      ultimately show ?thesis using D' R by (simp add: st pairs_upto_def ss split renamed_at_def p)
    qed
  qed
qed

lemma rename_fold_pairs:
  "m \<le> length syms \<Longrightarrow> pairs_upto syms m (fold rename_step [0..<m] (syms, removed_shapes syms, []))"
proof (induction m)
  case 0
  have "gm_get [] (removed_shapes syms) sh = removed_of syms sh" if "sh \<noteq> []" for sh
    using that unfolding removed_shapes_def removed_of_def group_by_get by (auto intro!: filter_cong)
  then show ?case by (simp add: pairs_upto_def added_upto_def)
next
  case (Suc m)
  then show ?case by (simp add: rename_step_pairs)
qed

lemma reportRenames_symbols:
  "cg_Symbols (reportRenames res) = map (renamed_at (cg_Symbols res))
     (filter (\<lambda>i. \<forall>k<length (cg_Symbols res). partner (cg_Symbols res) k \<noteq> Some i) [0..<length (cg_Symbols res)])"
proof -
  let ?S = "cg_Symbols res" and ?n = "length (cg_Symbols res)"
  obtain ss removed dropped where f: "fold rename_step [0..<?n] (?S, removed_shapes ?S, []) = (ss, removed, dropped)"
    by (metis prod_cases3)
  have inv: "ss = map (renamed_at ?S) [0..<?n]" "set dropped = {j. \<exists>i<?n. partner ?S i = Some j}"
    using rename_fold_pairs [of ?n ?S] f by (auto simp: pairs_upto_def)
  have idle: "map (renamed_at ?S) (filter (\<lambda>i. \<forall>k<?n. partner ?S k \<noteq> Some i) [0..<?n]) = ?S"
    if none: "\<forall>k<?n. partner ?S k = None"
  proof -
    have "map (renamed_at ?S) [0..<?n] = map (nth ?S) [0..<?n]"
      using none by (auto simp: renamed_at_def)
    then show ?thesis using none by (simp add: map_nth)
  qed
  consider (empty) "removed_shapes ?S = []" | (unused) "removed_shapes ?S \<noteq> []" "dropped = []"
    | (some) "removed_shapes ?S \<noteq> []" "dropped \<noteq> []" by blast
  then show ?thesis
  proof cases
    case empty
    have "removed_of ?S sh = []" if "sh \<noteq> []" for sh
    proof -
      have "gm_get [] (removed_shapes ?S) sh = removed_of ?S sh"
        using that unfolding removed_shapes_def removed_of_def group_by_get by (auto intro!: filter_cong)
      then show ?thesis by (simp add: empty)
    qed
    then have "\<forall>k<?n. partner ?S k = None" by (auto simp: partner_def Let_def)
    then show ?thesis using idle by (simp add: reportRenames_def empty)
  next
    case unused
    have "partner ?S k = None" if "k < ?n" for k using unused(2) inv(2) that by (cases "partner ?S k") auto
    then show ?thesis using idle by (simp add: reportRenames_def unused(1) f unused(2))
  next
    case some
    have "filter (\<lambda>i. i \<notin> set dropped) [0..<?n] = filter (\<lambda>i. \<forall>k<?n. partner ?S k \<noteq> Some i) [0..<?n]"
      using inv(2) by (intro filter_cong) auto
    moreover have "map (\<lambda>i. ss ! i) (filter P [0..<?n]) = map (renamed_at ?S) (filter P [0..<?n])" for P
      using inv(1) by auto
    ultimately show ?thesis using some f inv(1) by (simp add: reportRenames_def Let_def)
  qed
qed

section \<open>Counters\<close>

definition count_type :: "string \<Rightarrow> changed_symbol list \<Rightarrow> nat" where
  "count_type ct syms = length (filter (\<lambda>s. cs_ChangeType s = ct) syms)"

text \<open>While files are processed: the counters agree with the symbols, no name is reported twice.\<close>

definition tallied :: "nat \<Rightarrow> progress \<Rightarrow> bool" where
  "tallied files = (\<lambda>(seen, res).
     cg_Summary res = \<lparr>su_Modified = count_type changeTypeModified (cg_Symbols res),
        su_Added = count_type changeTypeAdded (cg_Symbols res), su_Removed = count_type changeTypeRemoved (cg_Symbols res),
        su_FilesChanged = files, su_Renamed = length (cg_Renamed res)\<rparr>
     \<and> (\<forall>s\<in>set (cg_Symbols res). cs_ChangeType s \<in> {changeTypeModified, changeTypeAdded, changeTypeRemoved})
     \<and> distinct (map cs_QualifiedName (cg_Symbols res)) \<and> cs_QualifiedName ` set (cg_Symbols res) \<subseteq> set seen)"

lemma tallied_note:
  assumes "tallied files (seen, res)" and "cs_QualifiedName cs \<notin> set seen" and "cs_ChangeType cs = ct"
    and "ct \<in> {changeTypeModified, changeTypeAdded, changeTypeRemoved}"
  shows "tallied files (cs_QualifiedName cs # seen, incSummary ct (note_symbol cs res))"
proof -
  have "cs_QualifiedName cs \<notin> cs_QualifiedName ` set (cg_Symbols res)" using assms(1,2) by (auto simp: tallied_def)
  then show ?thesis
    using assms(1,3,4) by (auto simp: tallied_def incSummary_def note_symbol_def count_type_def change_type_defs image_subset_iff)
qed

lemma tallied_reported:
  assumes "reported cl q st st'" and "tallied files st"
    and "\<And>q. cl q \<in> {[], changeTypeModified, changeTypeAdded, changeTypeRemoved}"
  shows "tallied files st'"
proof (cases "q \<in> set (fst st)")
  case True
  then show ?thesis using assms(1,2) by (simp add: reported_def)
next
  case False
  have f: "fst st' = q # fst st" using assms(1) False by (simp add: reported_def)
  show ?thesis
  proof (cases "cl q = []")
    case True
    then have "snd st' = snd st" using assms(1) False by (simp add: reported_def)
    then have "st' = (q # fst st, snd st)" using f by (simp add: prod_eq_iff)
    then show ?thesis using assms(2) by (cases st) (auto simp: tallied_def)
  next
    case ct: False
    then obtain cs where cs: "cs_QualifiedName cs = q" "cs_ChangeType cs = cl q"
      "snd st' = incSummary (cl q) (note_symbol cs (snd st))"
      using assms(1) False by (auto simp: reported_def)
    then have "st' = (q # fst st, incSummary (cl q) (note_symbol cs (snd st)))" using f by (simp add: prod_eq_iff)
    moreover have "tallied files (cs_QualifiedName cs # fst st, incSummary (cl q) (note_symbol cs (snd st)))"
      by (rule tallied_note) (use assms(2) assms(3) [of q] cs ct False in auto)
    ultimately show ?thesis by (simp add: cs(1))
  qed
qed

lemma tallied_changed:
  assumes "processChangedFile E F repoDir ref file st = Some (Inr st')" and "tallied files st"
  shows "tallied files st'"
proof (cases "SymbolsInFile (cv_db E) file (fl_includeTests F)")
  case (Inl e)
  then show ?thesis using assms(1) by (simp add: processChangedFile_def)
next
  case syms: (Inr syms)
  show ?thesis
  proof (cases syms)
    case Nil
    then show ?thesis using assms syms by (simp add: processChangedFile_def)
  next
    case (Cons sy0 rest)
    then obtain rel where rel: "path_rel repoDir file = Inr rel"
      using assms(1) syms by (cases "path_rel repoDir file") (auto simp: processChangedFile_def)
    then obtain old where old: "symbolTextsAtRef (cv_git E) (cv_src E) repoDir ref rel (sy_PackagePath (hd syms)) = Inr old"
      using assms(1) syms Cons
      by (cases "symbolTextsAtRef (cv_git E) (cv_src E) repoDir ref rel (sy_PackagePath sy0)") (auto simp: processChangedFile_def)
    let ?cur = "symbolTextsOnDisk (cv_src E) syms"
    let ?cl = "\<lambda>q. classifySymbol q ?cur old"
    obtain st1 where loops: "run_fold (\<lambda>sy. unless_seen (sy_QualifiedName sy) (\<lambda>res.
          let ct = ?cl (sy_QualifiedName sy) in
            if ct = [] then Some (Inr res)
            else appendChangedSymbol E F res sy ct [] (gm_get [] ?cur (sy_QualifiedName sy)))) syms st = Some (Inr st1)"
      "appendRemovedFromRef E F old ?cur (sy_PackagePath (hd syms)) st1 = Some (Inr st')"
      using processChangedFile_loops [OF syms _ rel old assms(1)] Cons by auto
    have "tallied files st1"
    proof (rule run_fold_inv [OF loops(1), of "tallied files", OF assms(2)])
      fix x s s'
      assume "unless_seen (sy_QualifiedName x) (\<lambda>res. let ct = ?cl (sy_QualifiedName x) in
            if ct = [] then Some (Inr res)
            else appendChangedSymbol E F res x ct [] (gm_get [] ?cur (sy_QualifiedName x))) s = Some (Inr s')"
        and t: "tallied files s"
      from first_loop_step [OF this(1)] show "tallied files s'"
        by (rule tallied_reported [OF _ t]) (use classify_types in auto)
    qed
    then show ?thesis
    proof (rule run_fold_inv [OF loops(2) [unfolded appendRemovedFromRef_def], of "tallied files"])
      fix q s s'
      assume q: "q \<in> set (sort_by (<) (filter (\<lambda>qn. \<not> gm_has ?cur qn) (gm_keys old)))"
        and step: "unless_seen q (\<lambda>res. appendChangedSymbol E (F\<lparr>fl_includeBodies := False\<rparr>) res
          (bare_symbol q (sy_PackagePath (hd syms)) (kindOfQualifiedName q)) changeTypeRemoved [] (gm_get [] old q)) s = Some (Inr s')"
        and t: "tallied files s"
      from second_loop_step [OF q step] show "tallied files s'"
        by (rule tallied_reported [OF _ t]) (use classify_types in auto)
    qed
  qed
qed

lemma change_types_ne: "changeTypeRemoved \<noteq> []"
  by (simp add: change_type_defs)

lemma removed_noted:
  "res\<lparr>cg_Summary := (cg_Summary res)\<lparr>su_Removed := su_Removed (cg_Summary res) + 1\<rparr>\<rparr> = incSummary changeTypeRemoved res"
  by (simp add: incSummary_def Let_def change_type_defs)

lemma tallied_deleted:
  assumes "processDeletedFile E F repoDir ref file st = Some (Inr st')" and "tallied files st"
  shows "tallied files st'"
proof (cases "symbolsAtRef (cv_git E) (cv_src E) repoDir ref file")
  case (Inr syms)
  show ?thesis
  proof (rule run_fold_inv [where I = "tallied files" and s = st])
    fix sy s s'
    let ?q = "file @ ''.'' @ rm_Name sy"
    assume step: "(let qn = ?q in unless_seen qn (\<lambda>res.
              run_bind (blast_if E (fl_withBlast F) qn) (\<lambda>br.
                let res = note_symbol \<lparr>cs_BlastRadius = br, cs_QualifiedName = qn, cs_Kind = rm_Kind sy,
                      cs_ChangeType = changeTypeRemoved, cs_RenamedFrom = [], cs_shape = [], cs_PosFile = file, cs_Body = [],
                      cs_Repo = [], cs_PosLine = rm_PosLine sy\<rparr> res
                in Some (Inr (res\<lparr>cg_Summary := (cg_Summary res)\<lparr>su_Removed := su_Removed (cg_Summary res) + 1\<rparr>\<rparr>))))) s = Some (Inr s')"
      and t: "tallied files s"
    have "reported (\<lambda>_. changeTypeRemoved) ?q s s'"
    proof (cases s)
      case (Pair seen res)
      show ?thesis unfolding Pair
        by (rule reported_seen [OF step [unfolded Let_def Pair removed_noted]])
          (force simp: run_bind_ok change_types_ne)
    qed
    then show "tallied files s'" by (rule tallied_reported [OF _ t]) simp
  qed (use assms Inr in \<open>simp_all add: processDeletedFile_def\<close>)
qed (use assms in \<open>simp add: processDeletedFile_def\<close>)

lemma tallied_status:
  assumes "process_status E F repoDir ref fs st = Some (Inr st')" and "tallied files st"
  shows "tallied files st'"
proof -
  have "tallied files (seen, note_rename fs res)" if "tallied files (seen, res)" for seen res
    using that by (simp add: tallied_def note_rename_def)
  then have moved: "tallied files (fst st, note_rename fs (snd st))" using assms(2) by (cases st) simp
  show ?thesis
  proof (cases "fs_Status fs = ''D''")
    case True
    then have "processDeletedFile E F repoDir ref (fs_Path fs) st = Some (Inr st')"
      using assms(1) by (cases st) (simp add: process_status_def)
    then show ?thesis by (rule tallied_deleted [OF _ assms(2)])
  next
    case False
    then have "processChangedFile E F repoDir ref (path_join repoDir (fs_Path fs)) (fst st, note_rename fs (snd st)) = Some (Inr st')"
      using assms(1) by (cases st) (simp add: process_status_def)
    then show ?thesis by (rule tallied_changed [OF _ moved])
  qed
qed

lemma recount_eq:
  "recountChangedSummary syms files renamed
   = \<lparr>su_Modified = count_type changeTypeModified syms, su_Added = count_type changeTypeAdded syms,
      su_Removed = count_type changeTypeRemoved syms, su_FilesChanged = files,
      su_Renamed = renamed + count_type changeTypeRenamed syms\<rparr>"
proof -
  let ?f = "\<lambda>sy summary.
         if cs_ChangeType sy = changeTypeAdded then summary\<lparr>su_Added := su_Added summary + 1\<rparr>
         else if cs_ChangeType sy = changeTypeModified then summary\<lparr>su_Modified := su_Modified summary + 1\<rparr>
         else if cs_ChangeType sy = changeTypeRemoved then summary\<lparr>su_Removed := su_Removed summary + 1\<rparr>
         else if cs_ChangeType sy = changeTypeRenamed then summary\<lparr>su_Renamed := su_Renamed summary + 1\<rparr>
         else summary"
  have "fold ?f syms s = \<lparr>su_Modified = su_Modified s + count_type changeTypeModified syms,
      su_Added = su_Added s + count_type changeTypeAdded syms,
      su_Removed = su_Removed s + count_type changeTypeRemoved syms, su_FilesChanged = su_FilesChanged s,
      su_Renamed = su_Renamed s + count_type changeTypeRenamed syms\<rparr>" for s :: changed_summary
    by (induction syms arbitrary: s) (auto simp: count_type_def change_type_defs)
  then show ?thesis by (simp add: recountChangedSummary_def no_summary_def)
qed

text \<open>What the whole query keeps.\<close>

definition consistent :: "nat \<Rightarrow> changed_result \<Rightarrow> bool" where
  "consistent files res \<longleftrightarrow>
     cg_Summary res = recountChangedSummary (cg_Symbols res) files (length (cg_Renamed res))
     \<and> (\<forall>s\<in>set (cg_Symbols res). cs_ChangeType s \<in> {changeTypeModified, changeTypeAdded, changeTypeRemoved, changeTypeRenamed})
     \<and> distinct (map cs_QualifiedName (cg_Symbols res))"

lemma renames_consistent:
  assumes "tallied files (seen, res)"
  shows "consistent files (reportRenames res)"
proof -
  let ?S = "cg_Symbols res"
  have S: "cg_Symbols (reportRenames res) = map (renamed_at ?S)
     (filter (\<lambda>i. \<forall>k<length ?S. partner ?S k \<noteq> Some i) [0..<length ?S])"
    by (rule reportRenames_symbols)
  have names: "map cs_QualifiedName (cg_Symbols (reportRenames res))
     = map (\<lambda>i. map cs_QualifiedName ?S ! i) (filter (\<lambda>i. \<forall>k<length ?S. partner ?S k \<noteq> Some i) [0..<length ?S])"
    unfolding S by simp
  have d: "distinct (map cs_QualifiedName ?S)" using assms by (simp add: tallied_def)
  have "x = y" if "x < length ?S" "y < length ?S" "map cs_QualifiedName ?S ! x = map cs_QualifiedName ?S ! y" for x y
    using nth_eq_iff_index_eq [OF d, of x y] that by simp
  then have 1: "distinct (map cs_QualifiedName (cg_Symbols (reportRenames res)))"
    unfolding names by (auto simp: distinct_map inj_on_def)
  have 2: "cs_ChangeType s \<in> {changeTypeModified, changeTypeAdded, changeTypeRemoved, changeTypeRenamed}"
    if "s \<in> set (cg_Symbols (reportRenames res))" for s
    using that assms unfolding S by (auto simp: tallied_def renamed_at_def split: option.splits)
  have none: "count_type changeTypeRenamed ?S = 0"
    using assms by (auto simp: tallied_def count_type_def filter_empty_conv change_type_defs)
  have "cg_Summary res = recountChangedSummary ?S files (length (cg_Renamed res))"
    using assms by (simp add: tallied_def recount_eq none)
  then have 3: "cg_Summary (reportRenames res)
      = recountChangedSummary (cg_Symbols (reportRenames res)) files (length (cg_Renamed (reportRenames res)))"
    by (simp add: reportRenames_def Let_def recount_eq none split: prod.split)
  show ?thesis unfolding consistent_def using 1 2 3 by blast
qed

lemma ChangedSymbols_parts:
  assumes "ChangedSymbols E repoDir ref F = Some (Inr res)"
  obtains dir statuses untracked seen res0 where
    "resolveRepoDir (cv_src E) repoDir = Inr dir"
    "GitFileStatuses (cv_git E) dir (if ref = [] then DefaultBranch (cv_git E) dir else ref) = Inr statuses"
    "GitUntrackedFiles (cv_git E) dir = Inr untracked"
    "tallied (length statuses + length untracked) (seen, res0)"
    "attachCompileErrors E (reportRenames res0) = Inr res"
proof -
  let ?ref = "\<lambda>dir. if ref = [] then DefaultBranch (cv_git E) dir else ref"
  obtain dir where dir: "resolveRepoDir (cv_src E) repoDir = Inr dir"
    using assms by (auto simp: ChangedSymbols_def split: sum.splits)
  obtain statuses where sts: "GitFileStatuses (cv_git E) dir (?ref dir) = Inr statuses"
    using assms by (auto simp: ChangedSymbols_def dir Let_def split: sum.splits)
  obtain untracked where unt: "GitUntrackedFiles (cv_git E) dir = Inr untracked"
    using assms by (auto simp: ChangedSymbols_def dir sts Let_def split: sum.splits)
  let ?n = "length statuses + length untracked"
  obtain st1 st2 where st: "run_fold (process_status E F dir (?ref dir)) statuses ([], no_changes ?n) = Some (Inr st1)"
    "run_fold (\<lambda>path. processChangedFile E F dir (?ref dir) (path_join dir path)) untracked st1 = Some (Inr st2)"
    "attachCompileErrors E (reportRenames (snd st2)) = Inr res"
    using assms by (auto simp: ChangedSymbols_def dir sts unt Let_def run_bind_ok)
  have "tallied ?n ([], no_changes ?n)" by (simp add: tallied_def no_changes_def no_summary_def count_type_def)
  then have "tallied ?n st1" by (rule run_fold_inv [OF st(1)]) (rule tallied_status)
  then have "tallied ?n st2" by (rule run_fold_inv [OF st(2)]) (rule tallied_changed)
  then show ?thesis using that [OF dir sts unt, of "fst st2" "snd st2"] st(3) by simp
qed

lemma attach_parts: "attachCompileErrors E res = Inr res' \<Longrightarrow>
    cg_Symbols res' = cg_Symbols res \<and> cg_Renamed res' = cg_Renamed res \<and> cg_Summary res' = cg_Summary res"
  by (auto simp: attachCompileErrors_def split: sum.splits if_splits)

lemma workspace_parts:
  assumes "WorkspaceChangedSymbols E F = Some (Inr res)"
  shows "cg_Renamed res = [] \<and> cg_CompileErrors res = [] \<and> su_Renamed (cg_Summary res) = 0"
proof -
  obtain repos where "cv_repos E = Inr repos" using assms by (auto simp: WorkspaceChangedSymbols_def split: sum.splits)
  then have run: "run_fold (\<lambda>r res.
              if rq_Missing r \<or> cv_absent E (rq_Dir r) then Some (Inr res)
              else case ChangedSymbols E (rq_Dir r) [] F of
                None \<Rightarrow> None
              | Some (Inl _) \<Rightarrow> Some (Inr res)
              | Some (Inr perRepo) \<Rightarrow> Some (Inr (add_member (rq_ModulePath r) perRepo res)))
            repos (no_changes 0) = Some (Inr res)"
    using assms by (simp add: WorkspaceChangedSymbols_def)
  show ?thesis
    by (rule run_fold_inv [OF run])
      (auto simp: no_changes_def no_summary_def add_member_def Let_def split: if_splits option.splits sum.splits)
qed

section \<open>Properties\<close>

text \<open>On disk a declaration exists when the index lists it for the file and its declaration is still found there.\<close>

lemma disk_found:
  "gm_has (symbolTextsOnDisk env syms) q \<longleftrightarrow> (\<exists>sy\<in>set syms. sy_QualifiedName sy = q
     \<and> (\<exists>spn. symbolSpan env (sy_PosFile sy) (sy_PosLine sy) (sy_Receiver sy) (sy_Name sy) (sy_Kind sy) = Inr spn))"
proof -
  have "gm_has (fold (\<lambda>sy out.
         case symbolSpan env (sy_PosFile sy) (sy_PosLine sy) (sy_Receiver sy) (sy_Name sy) (sy_Kind sy) of
           Inl _ \<Rightarrow> out
         | Inr spn \<Rightarrow> gm_put (sy_QualifiedName sy) (maskedShape (dsp_data spn) (DeclNode (sm_node (dsp_match spn))) (sy_Name sy)) out) syms m) q
    \<longleftrightarrow> gm_has m q \<or> (\<exists>sy\<in>set syms. sy_QualifiedName sy = q
     \<and> (\<exists>spn. symbolSpan env (sy_PosFile sy) (sy_PosLine sy) (sy_Receiver sy) (sy_Name sy) (sy_Kind sy) = Inr spn))" for m
    by (induction syms arbitrary: m) (auto simp: gm_has_def split: sum.splits)
  then show ?thesis by (simp add: symbolTextsOnDisk_def gm_has_def)
qed

text \<open>
  C4: what a changed file adds to an answer. A file without indexed symbols adds nothing. Otherwise the indexed declarations
  that are found on disk are compared with those of the file at the ref, under its present path: one that exists only on disk is added, one
  that exists only at the ref is removed, one on both sides with different texts is modified, and no other is
  reported; no declaration is reported twice or a second time.
\<close>

theorem changed_file_reports:
  assumes "processChangedFile E F repoDir ref file (seen, res) = Some (Inr (seen', res'))"
  shows "\<exists>syms new. SymbolsInFile (cv_db E) file (fl_includeTests F) = Inr syms \<and> cg_Symbols res' = cg_Symbols res @ new
      \<and> distinct (map cs_QualifiedName new)
      \<and> (if syms = [] then new = []
         else \<exists>rel old. path_rel repoDir file = Inr rel
           \<and> symbolTextsAtRef (cv_git E) (cv_src E) repoDir ref rel (sy_PackagePath (hd syms)) = Inr old
           \<and> (\<forall>q ct. (q, ct) \<in> (\<lambda>s. (cs_QualifiedName s, cs_ChangeType s)) ` set new \<longleftrightarrow>
                q \<notin> set seen \<and>
                (case (map_of (symbolTextsOnDisk (cv_src E) syms) q, map_of old q) of
                   (None, None) \<Rightarrow> False
                 | (Some _, None) \<Rightarrow> ct = changeTypeAdded
                 | (None, Some _) \<Rightarrow> ct = changeTypeRemoved
                 | (Some a, Some b) \<Rightarrow> a \<noteq> b \<and> ct = changeTypeModified))
           \<and> (\<forall>q. map_of (symbolTextsOnDisk (cv_src E) syms) q \<noteq> None \<longleftrightarrow> (\<exists>sy\<in>set syms. sy_QualifiedName sy = q
                \<and> (\<exists>spn. symbolSpan (cv_src E) (sy_PosFile sy) (sy_PosLine sy) (sy_Receiver sy) (sy_Name sy) (sy_Kind sy) = Inr spn))))"
proof -
  obtain syms where syms: "SymbolsInFile (cv_db E) file (fl_includeTests F) = Inr syms"
    using assms by (auto simp: processChangedFile_def split: sum.splits)
  show ?thesis
  proof (cases "syms = []")
    case True
    then have "res' = res" using assms syms by (simp add: processChangedFile_def)
    with True syms show ?thesis by (intro exI [of _ syms] exI [of _ "[]"]) simp
  next
    case False
    then obtain rel old where rel: "path_rel repoDir file = Inr rel"
      and old: "symbolTextsAtRef (cv_git E) (cv_src E) repoDir ref rel (sy_PackagePath (hd syms)) = Inr old"
      using assms syms by (cases syms) (auto simp: processChangedFile_def Let_def split: sum.splits)
    let ?cur = "symbolTextsOnDisk (cv_src E) syms"
    have name: "q \<in> sy_QualifiedName ` set syms" if "map_of ?cur q = Some a" for q a
      using that disk_names [of "cv_src E" syms] by (force dest: map_of_SomeD)
    have "(q \<in> sy_QualifiedName ` set syms \<or> gm_has old q) \<and> ct = classifySymbol q ?cur old \<and> ct \<noteq> [] \<longleftrightarrow>
        (case (map_of ?cur q, map_of old q) of
                (None, None) \<Rightarrow> False
              | (Some _, None) \<Rightarrow> ct = changeTypeAdded
              | (None, Some _) \<Rightarrow> ct = changeTypeRemoved
              | (Some a, Some b) \<Rightarrow> a \<noteq> b \<and> ct = changeTypeModified)" for q ct
      using name [of q]
      by (auto simp: classifySymbol_def gm_has_def gm_get_def Let_def change_type_defs split: option.splits)
    moreover obtain new where new: "cg_Symbols res' = cg_Symbols res @ new" "distinct (map cs_QualifiedName new)"
      "\<forall>q ct. (q, ct) \<in> (\<lambda>s. (cs_QualifiedName s, cs_ChangeType s)) ` set new \<longleftrightarrow>
           q \<notin> set seen \<and> (q \<in> sy_QualifiedName ` set syms \<or> gm_has old q) \<and> ct = classifySymbol q ?cur old \<and> ct \<noteq> []"
      using file_change_set [OF syms False rel old assms] by blast
    moreover note disk_found [of "cv_src E" syms, unfolded gm_has_def]
    ultimately show ?thesis
      by (intro exI [of _ syms] exI [of _ new]) (simp add: syms False rel old)
  qed
qed

text \<open>
  C5: among the reported symbols, the k-th added declaration of a shape becomes a rename of the k-th removed declaration of
  that shape, which is dropped; every other symbol stays as it was and in its place, and no removed declaration is
  used for two renames.
\<close>

theorem reportRenames_pairs:
  "cg_Symbols (reportRenames res) = map (renamed_at (cg_Symbols res))
     (filter (\<lambda>i. \<forall>k<length (cg_Symbols res). partner (cg_Symbols res) k \<noteq> Some i) [0..<length (cg_Symbols res)])
   \<and> (\<forall>i j. partner (cg_Symbols res) i = Some j \<longrightarrow>
        cs_ChangeType (cg_Symbols res ! i) = changeTypeAdded \<and> cs_ChangeType (cg_Symbols res ! j) = changeTypeRemoved
        \<and> cs_shape (cg_Symbols res ! i) = cs_shape (cg_Symbols res ! j)
        \<and> (\<forall>i'. partner (cg_Symbols res) i' = Some j \<longrightarrow> i' = i))"
  using reportRenames_symbols partner_removed partner_inj by metis

text \<open>
  C6: the counters of the answer are the numbers of its added, modified and removed symbols, the renamed counter is the
  number of renamed symbols and of moved files, the file counter is the number of changed and untracked files, no symbol
  is listed twice, and every symbol has one of the four change types.
\<close>

theorem ChangedSymbols_summary:
  assumes "ChangedSymbols E repoDir ref F = Some (Inr res)"
    and "resolveRepoDir (cv_src E) repoDir = Inr dir"
    and "GitFileStatuses (cv_git E) dir (if ref = [] then DefaultBranch (cv_git E) dir else ref) = Inr statuses"
    and "GitUntrackedFiles (cv_git E) dir = Inr untracked"
  shows "cg_Summary res = \<lparr>su_Modified = count_type changeTypeModified (cg_Symbols res),
       su_Added = count_type changeTypeAdded (cg_Symbols res), su_Removed = count_type changeTypeRemoved (cg_Symbols res),
       su_FilesChanged = length statuses + length untracked,
       su_Renamed = length (cg_Renamed res) + count_type changeTypeRenamed (cg_Symbols res)\<rparr>
     \<and> distinct (map cs_QualifiedName (cg_Symbols res))
     \<and> (\<forall>s\<in>set (cg_Symbols res). cs_ChangeType s \<in> {changeTypeModified, changeTypeAdded, changeTypeRemoved, changeTypeRenamed})"
proof -
  obtain seen res0 where t: "tallied (length statuses + length untracked) (seen, res0)"
    and a: "attachCompileErrors E (reportRenames res0) = Inr res"
    using assms(2-4) by (rule_tac ChangedSymbols_parts [OF assms(1)]) auto
  have "consistent (length statuses + length untracked) (reportRenames res0)" by (rule renames_consistent [OF t])
  then show ?thesis using attach_parts [OF a] by (simp add: consistent_def recount_eq)
qed

section \<open>What the answer leaves out\<close>

text \<open>The workspace answer has no moved files, no compile errors and no renamed counter, whatever the members report.\<close>

lemma workspace_drops_renames:
  "WorkspaceChangedSymbols E F = Some (Inr res) \<Longrightarrow>
   cg_Renamed res = [] \<and> cg_CompileErrors res = [] \<and> su_Renamed (cg_Summary res) = 0"
  by (rule workspace_parts)

text \<open>A dot in the module path makes a removed function a method.\<close>

lemma removed_function_kind: "kindOfQualifiedName ''github.com/a/b.F'' = kindMethod"
  by (simp add: kindOfQualifiedName_def)

text \<open>A file that lost its last indexed declaration reports nothing.\<close>

lemma emptied_file_silent:
  "SymbolsInFile (cv_db E) file (fl_includeTests F) = Inr [] \<Longrightarrow> processChangedFile E F repoDir ref file st = Some (Inr st)"
  by (simp add: processChangedFile_def)

text \<open>A file that does not parse on disk reports as removed every indexed declaration it had at the ref.\<close>

lemma unparsable_disk: "(\<And>sy. sy \<in> set syms \<Longrightarrow> \<exists>c e. se_readFile env (sy_PosFile sy) = Inr c \<and> se_parse env (sy_PosFile sy) c = Inl e)
    \<Longrightarrow> symbolTextsOnDisk env syms = []"
proof -
  assume broken: "\<And>sy. sy \<in> set syms \<Longrightarrow> \<exists>c e. se_readFile env (sy_PosFile sy) = Inr c \<and> se_parse env (sy_PosFile sy) c = Inl e"
  then show ?thesis
    unfolding symbolTextsOnDisk_def
  proof (induction syms)
    case (Cons sy syms)
    obtain c e where "se_readFile env (sy_PosFile sy) = Inr c" "se_parse env (sy_PosFile sy) c = Inl e"
      using Cons.prems [of sy] by auto
    then show ?case using Cons by (simp add: symbolSpan_def)
  qed simp
qed

lemma unparsable_reports_removed:
  assumes "\<And>sy. sy \<in> set syms \<Longrightarrow> \<exists>c e. se_readFile env (sy_PosFile sy) = Inr c \<and> se_parse env (sy_PosFile sy) c = Inl e"
    and "gm_has old q"
  shows "classifySymbol q (symbolTextsOnDisk env syms) old = changeTypeRemoved"
  using assms(2) by (simp add: classifySymbol_def unparsable_disk [OF assms(1)])

text \<open>A moved file is looked up at the ref under its new path, so everything in it is added.\<close>

lemma moved_file_added:
  assumes "GitShowFile (cv_git E) repoDir ref rel = Inl (ErrFileNotInRef f r)"
  shows "symbolTextsAtRef (cv_git E) (cv_src E) repoDir ref rel pkg = Inr []"
    and "gm_has cur q \<Longrightarrow> classifySymbol q cur [] = changeTypeAdded"
  using assms by (simp_all add: symbolTextsAtRef_def classifySymbol_def)

section \<open>Witnesses\<close>

text \<open>A function \<open>g\<close> of a committed file was renamed to \<open>f\<close>.\<close>

definition chg_src :: "string \<Rightarrow> string" where
  "chg_src name = ''package p'' @ [nl] @ ''func '' @ name @ ''() {}''"

definition chg_decl :: "string \<Rightarrow> func_decl" where
  "chg_decl name = \<lparr>fd_Name = Some name, fd_Recv = None, fd_Doc = None, fd_Pos = 10, fd_End = 21, fd_Line = 2, fd_NamePos = 15\<rparr>"

definition chg_tree :: "string \<Rightarrow> parsed" where
  "chg_tree name = \<lparr>pf_Decls = [FuncDecl (chg_decl name)], pf_Tree = Node 0 0 None []\<rparr>"

definition chg_source :: source_env where
  "chg_source = \<lparr>se_readFile = (\<lambda>_. Inr (chg_src ''f'')),
     se_parse = (\<lambda>_ c. Inr (chg_tree (if c = chg_src ''f'' then ''f'' else ''g''))),
     se_evalSymlinks = Inr, se_cwd = Inr ''/w''\<rparr>"

definition chg_git :: git_env where
  "chg_git = \<lparr>ge_lookPath = None,
     ge_run = (\<lambda>_ args. \<lparr>go_stdout = (if hd args = ''show'' then chg_src ''g''
         else if hd args = ''diff'' then ''M'' @ [CHR 0x00] @ ''a.go'' @ [CHR 0x00] else []), go_stderr = [], go_err = None\<rparr>),
     ge_cwd = Inr ''/w''\<rparr>"

definition chg_symbol :: symbol where
  "chg_symbol = (bare_symbol ''p.f'' ''p'' ''function'')\<lparr>sy_Name := ''f'', sy_PosFile := ''/w/a.go'', sy_PosLine := 2\<rparr>"

definition chg_env :: changed_env where
  "chg_env = \<lparr>cv_db = list_db [] [chg_symbol] [], cv_uni = ascii_tables, cv_git = chg_git, cv_src = chg_source,
     cv_diagnostics = (\<lambda>_. Inr []), cv_repos = Inr [], cv_absent = (\<lambda>_. False)\<rparr>"

definition chg_flags :: changed_flags where
  "chg_flags = \<lparr>fl_withBlast = False, fl_includeBodies = True, fl_includeTests = True\<rparr>"

lemma run_value: "map_option (map_sum id f) r = Some (Inr y) \<Longrightarrow> \<exists>x. r = Some (Inr x) \<and> f x = y"
  by (cases r; cases "the r") auto

lemma chg_file:
  "SymbolsInFile (cv_db chg_env) ''/w/a.go'' (fl_includeTests chg_flags) = Inr [chg_symbol]"
  "path_rel ''/w'' ''/w/a.go'' = Inr ''a.go''"
  "map_sum id (map fst) (symbolTextsAtRef (cv_git chg_env) (cv_src chg_env) ''/w'' ''HEAD'' ''a.go'' ''p'') = Inr [''p.g'']"
  by code_simp+

lemma chg_run:
  "resolveRepoDir (cv_src chg_env) ''/w'' = Inr ''/w''"
  "map_sum id length (GitFileStatuses (cv_git chg_env) ''/w'' ''HEAD'') = Inr 1"
  "GitUntrackedFiles (cv_git chg_env) ''/w'' = Inr []"
  "map_option (map_sum id (\<lambda>r. (cg_Summary r, map (\<lambda>s. (cs_QualifiedName s, cs_RenamedFrom s)) (cg_Symbols r))))
     (ChangedSymbols chg_env ''/w'' ''HEAD'' chg_flags)
   = Some (Inr (no_summary\<lparr>su_FilesChanged := 1, su_Renamed := 1\<rparr>, [(''p.f'', ''p.g'')]))"
  by code_simp+

theorem changed_file_reports_witness:
  "\<exists>seen' res'. processChangedFile chg_env chg_flags ''/w'' ''HEAD'' ''/w/a.go'' ([], no_changes 1) = Some (Inr (seen', res'))
     \<and> (''p.f'', changeTypeAdded) \<in> (\<lambda>s. (cs_QualifiedName s, cs_ChangeType s)) ` set (cg_Symbols res')
     \<and> (''p.g'', changeTypeRemoved) \<in> (\<lambda>s. (cs_QualifiedName s, cs_ChangeType s)) ` set (cg_Symbols res')"
proof -
  obtain old where old: "symbolTextsAtRef (cv_git chg_env) (cv_src chg_env) ''/w'' ''HEAD'' ''a.go'' ''p'' = Inr old"
    "map fst old = [''p.g'']"
    using chg_file(3) by (cases "symbolTextsAtRef (cv_git chg_env) (cv_src chg_env) ''/w'' ''HEAD'' ''a.go'' ''p''") auto
  have pkg: "sy_PackagePath (hd [chg_symbol]) = ''p''" by (simp add: chg_symbol_def bare_symbol_def)
  have ok: "map_option (map_sum id (\<lambda>_. ())) (processChangedFile chg_env chg_flags ''/w'' ''HEAD'' ''/w/a.go'' ([], no_changes 1))
      = Some (Inr ())"
    by code_simp
  from run_value [OF ok] obtain seen' res' where run:
    "processChangedFile chg_env chg_flags ''/w'' ''HEAD'' ''/w/a.go'' ([], no_changes 1) = Some (Inr (seen', res'))"
    by fast
  have disk: "map fst (symbolTextsOnDisk (cv_src chg_env) [chg_symbol]) = [''p.f'']" by code_simp
  have f: "\<exists>a. map_of (symbolTextsOnDisk (cv_src chg_env) [chg_symbol]) ''p.f'' = Some a"
    "map_of (symbolTextsOnDisk (cv_src chg_env) [chg_symbol]) ''p.g'' = None"
    using disk by auto
  have g: "\<exists>b. map_of old ''p.g'' = Some b" "map_of old ''p.f'' = None"
    using old(2) by auto
  from changed_file_reports [OF run] chg_file(1) obtain new where new: "cg_Symbols res' = cg_Symbols (no_changes 1) @ new"
    and set_new: "\<exists>rel old. path_rel ''/w'' ''/w/a.go'' = Inr rel
      \<and> symbolTextsAtRef (cv_git chg_env) (cv_src chg_env) ''/w'' ''HEAD'' rel (sy_PackagePath (hd [chg_symbol])) = Inr old
      \<and> (\<forall>q ct. (q, ct) \<in> (\<lambda>s. (cs_QualifiedName s, cs_ChangeType s)) ` set new \<longleftrightarrow>
           q \<notin> set [] \<and>
           (case (map_of (symbolTextsOnDisk (cv_src chg_env) [chg_symbol]) q, map_of old q) of
              (None, None) \<Rightarrow> False
            | (Some _, None) \<Rightarrow> ct = changeTypeAdded
            | (None, Some _) \<Rightarrow> ct = changeTypeRemoved
            | (Some a, Some b) \<Rightarrow> a \<noteq> b \<and> ct = changeTypeModified))"
    by auto
  from set_new have set_new: "(q, ct) \<in> (\<lambda>s. (cs_QualifiedName s, cs_ChangeType s)) ` set new \<longleftrightarrow>
      (case (map_of (symbolTextsOnDisk (cv_src chg_env) [chg_symbol]) q, map_of old q) of
              (None, None) \<Rightarrow> False
            | (Some _, None) \<Rightarrow> ct = changeTypeAdded
            | (None, Some _) \<Rightarrow> ct = changeTypeRemoved
            | (Some a, Some b) \<Rightarrow> a \<noteq> b \<and> ct = changeTypeModified)" for q ct
    using chg_file(2) old(1) pkg by auto
  have "(''p.f'', changeTypeAdded) \<in> (\<lambda>s. (cs_QualifiedName s, cs_ChangeType s)) ` set new"
    "(''p.g'', changeTypeRemoved) \<in> (\<lambda>s. (cs_QualifiedName s, cs_ChangeType s)) ` set new"
    using f g unfolding set_new by auto
  then show ?thesis using run new by (auto simp: image_Un)
qed

theorem ChangedSymbols_summary_witness:
  "\<exists>res. ChangedSymbols chg_env ''/w'' ''HEAD'' chg_flags = Some (Inr res)
     \<and> map (\<lambda>s. (cs_QualifiedName s, cs_RenamedFrom s)) (cg_Symbols res) = [(''p.f'', ''p.g'')]
     \<and> length (cg_Renamed res) + count_type changeTypeRenamed (cg_Symbols res) = 1"
proof -
  obtain res where res: "ChangedSymbols chg_env ''/w'' ''HEAD'' chg_flags = Some (Inr res)"
    "cg_Summary res = no_summary\<lparr>su_FilesChanged := 1, su_Renamed := 1\<rparr>"
    "map (\<lambda>s. (cs_QualifiedName s, cs_RenamedFrom s)) (cg_Symbols res) = [(''p.f'', ''p.g'')]"
    using run_value [OF chg_run(4)] by auto
  obtain statuses where sts: "GitFileStatuses (cv_git chg_env) ''/w'' ''HEAD'' = Inr statuses"
    using chg_run(2) by (cases "GitFileStatuses (cv_git chg_env) ''/w'' ''HEAD''") auto
  have "su_Renamed (cg_Summary res) = length (cg_Renamed res) + count_type changeTypeRenamed (cg_Symbols res)"
    using ChangedSymbols_summary [OF res(1) chg_run(1) _ chg_run(3), of statuses] sts by simp
  then show ?thesis using res by simp
qed

text \<open>Two declarations of one shape were added where one was removed: the first added one is the rename.\<close>

definition pair_symbol :: "string \<Rightarrow> string \<Rightarrow> changed_symbol" where
  "pair_symbol qn ct = \<lparr>cs_BlastRadius = None, cs_QualifiedName = qn, cs_Kind = ''function'', cs_ChangeType = ct,
     cs_RenamedFrom = [], cs_shape = ''func () {}'', cs_PosFile = ''a.go'', cs_Body = [], cs_Repo = [], cs_PosLine = 1\<rparr>"

definition pair_result :: changed_result where
  "pair_result = (no_changes 1)\<lparr>cg_Symbols :=
     [pair_symbol ''p.new'' changeTypeAdded, pair_symbol ''p.more'' changeTypeAdded, pair_symbol ''p.old'' changeTypeRemoved]\<rparr>"

theorem reportRenames_pairs_witness:
  "map (\<lambda>s. (cs_QualifiedName s, cs_ChangeType s, cs_RenamedFrom s)) (cg_Symbols (reportRenames pair_result))
     = [(''p.new'', ''renamed'', ''p.old''), (''p.more'', ''added'', [])]
   \<and> partner (cg_Symbols pair_result) 0 = Some 2
   \<and> partner (cg_Symbols pair_result) 1 \<noteq> Some 2"
proof -
  let ?syms = "cg_Symbols pair_result"
  have p: "partner ?syms 0 = Some 2" by code_simp
  have "partner ?syms 1 \<noteq> Some 2"
    using conjunct2 [OF reportRenames_pairs [of pair_result]] p by (metis zero_neq_one)
  moreover have "map (\<lambda>s. (cs_QualifiedName s, cs_ChangeType s, cs_RenamedFrom s)) (map (renamed_at ?syms)
      (filter (\<lambda>i. \<forall>k<length ?syms. partner ?syms k \<noteq> Some i) [0..<length ?syms]))
    = [(''p.new'', ''renamed'', ''p.old''), (''p.more'', ''added'', [])]"
    by code_simp
  ultimately show ?thesis
    using conjunct1 [OF reportRenames_pairs [of pair_result]] p by simp
qed

end
