(* ===== verification/Bundle.thy ===== *)
theory Bundle
  imports Spans Impact
begin

text \<open>
  The context bundle of a symbol (\<^verbatim>\<open>query/query.go\<close>): its detail, body, callees, callers and the symbols of its
  file, with an estimate of the rendered size in tokens; past the budget, entries are dropped from the end of the least
  essential list first.
\<close>

section \<open>Bundles\<close>

record context_bundle =
  bd_QualifiedName :: string
  bd_Symbol :: "symbol_detail option"
  bd_Body :: string
  bd_Callees :: "edge_detail list"
  bd_Callers :: "edge_detail list"
  bd_SameFile :: "search_result list"
  bd_TokenEstimate :: nat

section \<open>The size estimate\<close>

definition bundleHeaderBytes :: nat where "bundleHeaderBytes = 40"
definition bundleSectionBytes :: nat where "bundleSectionBytes = 24"
definition bundleBodyFenceBytes :: nat where "bundleBodyFenceBytes = 13"
definition bundleEntryBytes :: nat where "bundleEntryBytes = 10"

definition firstSentenceLen :: "string \<Rightarrow> nat" where
  "firstSentenceLen s0 =
     (let s = trim_space s0 in
        case str_index s ''.'' of
          Some i \<Rightarrow> i + 1
        | None \<Rightarrow> if 100 < length s then 103 else length s)"

text \<open>One level of the field tree, by the entries of a field and those of its inline struct.\<close>

fun bundleFieldBytes :: "symbol_field list \<Rightarrow> nat" and field_entry_bytes :: "symbol_field \<Rightarrow> nat"
  and field_entries_bytes :: "symbol_field list \<Rightarrow> nat" where
  "bundleFieldBytes fs = (case fs of [] \<Rightarrow> 0 | f # gs \<Rightarrow> 10 + field_entry_bytes f + field_entries_bytes gs)"
| "field_entry_bytes (SymbolField goName wireName goType fs) =
     length goName + length goType + 5 + (if wireName \<noteq> goName then length wireName + 7 else 0) + bundleFieldBytes fs"
| "field_entries_bytes [] = 0"
| "field_entries_bytes (f # fs) = field_entry_bytes f + field_entries_bytes fs"

declare bundleFieldBytes.simps [simp del]

definition bundleSymbolBytes :: "symbol_detail option \<Rightarrow> nat" where
  "bundleSymbolBytes sy =
     (case sy of
        None \<Rightarrow> 0
      | Some sd \<Rightarrow>
          (let n = length (sd_QualifiedName sd) + length (sd_Kind sd) + length (sd_Signature sd) + length (sd_PosFile sd) + 50;
               doc = firstSentenceLen (sd_Doc sd);
               n = (if 0 < doc then n + (doc + 8) else n)
           in n + bundleFieldBytes (sd_Fields sd)))"

text \<open>A section of the bundle: its header when it is not empty, and an entry per element.\<close>

definition section_bytes :: "('a \<Rightarrow> nat) \<Rightarrow> 'a list \<Rightarrow> nat" where
  "section_bytes entry xs =
     (if xs = [] then 0 else bundleSectionBytes + sum_list (map (\<lambda>x. entry x + bundleEntryBytes) xs))"

definition bundle_bytes :: "context_bundle \<Rightarrow> nat" where
  "bundle_bytes b =
     length (bd_QualifiedName b) + bundleHeaderBytes
     + bundleSymbolBytes (bd_Symbol b)
     + (if bd_Body b \<noteq> [] then length (bd_Body b) + bundleBodyFenceBytes else 0)
     + section_bytes (\<lambda>c. length (d_ToRef c) + length (d_EdgeType c)) (bd_Callees b)
     + section_bytes (\<lambda>c. length (d_FromRef c) + length (d_EdgeType c)) (bd_Callers b)
     + section_bytes (\<lambda>s. length (r_QualifiedName s) + length (r_Kind s)) (bd_SameFile b)"

definition estimateTokens :: "context_bundle \<Rightarrow> nat" where
  "estimateTokens b = bundle_bytes b div 4"

section \<open>Trimming\<close>

function trim_same_file :: "int \<Rightarrow> context_bundle \<Rightarrow> context_bundle" where
  "trim_same_file budget b =
     (if bd_SameFile b \<noteq> [] \<and> budget < int (estimateTokens b)
      then trim_same_file budget (b\<lparr>bd_SameFile := butlast (bd_SameFile b)\<rparr>) else b)"
  by pat_completeness auto
termination by (relation "measure (\<lambda>(_, b). length (bd_SameFile b))") auto

function trim_callers :: "int \<Rightarrow> context_bundle \<Rightarrow> context_bundle" where
  "trim_callers budget b =
     (if bd_Callers b \<noteq> [] \<and> budget < int (estimateTokens b)
      then trim_callers budget (b\<lparr>bd_Callers := butlast (bd_Callers b)\<rparr>) else b)"
  by pat_completeness auto
termination by (relation "measure (\<lambda>(_, b). length (bd_Callers b))") auto

function trim_callees :: "int \<Rightarrow> context_bundle \<Rightarrow> context_bundle" where
  "trim_callees budget b =
     (if bd_Callees b \<noteq> [] \<and> budget < int (estimateTokens b)
      then trim_callees budget (b\<lparr>bd_Callees := butlast (bd_Callees b)\<rparr>) else b)"
  by pat_completeness auto
termination by (relation "measure (\<lambda>(_, b). length (bd_Callees b))") auto

declare trim_same_file.simps [simp del] trim_callers.simps [simp del] trim_callees.simps [simp del]

definition trimBundle :: "int \<Rightarrow> context_bundle \<Rightarrow> context_bundle" where
  "trimBundle budget b0 =
     (let b = trim_callees budget (trim_callers budget (trim_same_file budget b0))
      in b\<lparr>bd_TokenEstimate := estimateTokens b\<rparr>)"

section \<open>The query\<close>

text \<open>The budget the code works with: a missing or negative one is 8000 tokens.\<close>

definition token_limit :: "int \<Rightarrow> int" where
  "token_limit tokenBudget = (if tokenBudget \<le> 0 then 8000 else tokenBudget)"

definition fit_bundle :: "int \<Rightarrow> context_bundle \<Rightarrow> context_bundle" where
  "fit_bundle budget b =
     (let b = b\<lparr>bd_TokenEstimate := estimateTokens b\<rparr>
      in if budget < int (bd_TokenEstimate b) then trimBundle budget b else b)"

text \<open>The parts of the bundle, in the order the code asks for them; the body can panic as \<open>GetSymbolBody\<close> does.\<close>

definition full_bundle :: "store_db \<Rightarrow> unidata \<Rightarrow> source_env \<Rightarrow> string \<Rightarrow> context_bundle result option" where
  "full_bundle db U env qualifiedName =
     (case Show db U qualifiedName no_options of
        Inl e \<Rightarrow> Some (Inl e)
      | Inr showResult \<Rightarrow>
          (case GetSymbolBody db U env qualifiedName 0 True of
             None \<Rightarrow> None
           | Some (Inl e) \<Rightarrow> Some (Inl e)
           | Some (Inr bodyResult) \<Rightarrow>
               (case CalleesOf db U qualifiedName (no_options\<lparr>o_Depth := 1\<rparr>) of
                  Inl e \<Rightarrow> Some (Inl (''context_bundle: callees of '' @ qualifiedName @ '': '' @ e))
                | Inr callees \<Rightarrow>
                    (case CallersOf db U qualifiedName (no_options\<lparr>o_Depth := 1\<rparr>) of
                       Inl e \<Rightarrow> Some (Inl (''context_bundle: callers of '' @ qualifiedName @ '': '' @ e))
                     | Inr callers \<Rightarrow>
                         (case (if sb_PosFile bodyResult \<noteq> [] then query_SymbolsInFile db (sb_PosFile bodyResult) no_options
                                else Inr []) of
                            Inl e \<Rightarrow> Some (Inl (''context_bundle: same-file symbols for '' @ sb_PosFile bodyResult @ '': '' @ e))
                          | Inr sameFile \<Rightarrow>
                              Some (Inr \<lparr>bd_QualifiedName = qualifiedName, bd_Symbol = Some (sh_Symbol showResult),
                                bd_Body = sb_Body bodyResult, bd_Callees = callees, bd_Callers = callers,
                                bd_SameFile = sameFile, bd_TokenEstimate = 0\<rparr>))))))"

definition ContextBundle :: "store_db \<Rightarrow> unidata \<Rightarrow> source_env \<Rightarrow> string \<Rightarrow> int \<Rightarrow> context_bundle result option" where
  "ContextBundle db U env qualifiedName tokenBudget =
     map_option (map_sum id (fit_bundle (token_limit tokenBudget))) (full_bundle db U env qualifiedName)"

end
