(* ===== verification/Bundle_Proofs.thy ===== *)
theory Bundle_Proofs
  imports Bundle Changed_Proofs
begin

text \<open>
  The three trimming loops of a context bundle drop the least number of entries, in their order, that brings the size
  estimate within the budget.
\<close>

section \<open>Cutting entries\<close>

text \<open>How many entries a bundle lists, and the bundle without its last n: those of the file first, then callers, then callees.\<close>

definition entries :: "context_bundle \<Rightarrow> nat" where
  "entries b = length (bd_SameFile b) + length (bd_Callers b) + length (bd_Callees b)"

definition cut_bundle :: "nat \<Rightarrow> context_bundle \<Rightarrow> context_bundle" where
  "cut_bundle n b =
     (let s = length (bd_SameFile b); r = length (bd_Callers b); e = length (bd_Callees b) in
        b\<lparr>bd_SameFile := take (s - n) (bd_SameFile b), bd_Callers := take (r - (n - s)) (bd_Callers b),
          bd_Callees := take (e - (n - s - r)) (bd_Callees b)\<rparr>)"

definition cut_last :: "context_bundle \<Rightarrow> context_bundle" where
  "cut_last b =
     (if bd_SameFile b \<noteq> [] then b\<lparr>bd_SameFile := butlast (bd_SameFile b)\<rparr>
      else if bd_Callers b \<noteq> [] then b\<lparr>bd_Callers := butlast (bd_Callers b)\<rparr>
      else b\<lparr>bd_Callees := butlast (bd_Callees b)\<rparr>)"

lemma cut_0 [simp]: "cut_bundle 0 b = b"
  by (simp add: cut_bundle_def)

lemma entries_cut_last: "entries b \<noteq> 0 \<Longrightarrow> Suc (entries (cut_last b)) = entries b"
  by (auto simp: entries_def cut_last_def)

lemma take_butlast: "take (length xs - Suc n) (butlast xs) = take (length xs - Suc n) xs"
  by (simp add: butlast_conv_take min_def)

lemma cut_cut1:
  assumes "entries b \<noteq> 0"
  shows "cut_bundle m (cut_last b) = cut_bundle (Suc m) b"
proof -
  consider "bd_SameFile b \<noteq> []" | "bd_SameFile b = []" "bd_Callers b \<noteq> []"
    | "bd_SameFile b = []" "bd_Callers b = []" "bd_Callees b \<noteq> []"
    using assms by (auto simp: entries_def)
  then show ?thesis
  proof cases
    case 1
    then have "m - (length (bd_SameFile b) - Suc 0) = Suc m - length (bd_SameFile b)" by (cases "bd_SameFile b") auto
    with 1 show ?thesis by (simp add: cut_bundle_def cut_last_def Let_def take_butlast)
  next
    case 2
    then have "m - (length (bd_Callers b) - Suc 0) = Suc m - length (bd_Callers b)" by (cases "bd_Callers b") auto
    with 2 show ?thesis by (simp add: cut_bundle_def cut_last_def Let_def take_butlast)
  qed (simp add: cut_bundle_def cut_last_def Let_def take_butlast)
qed

function trim_all :: "int \<Rightarrow> context_bundle \<Rightarrow> context_bundle" where
  "trim_all budget b = (if entries b \<noteq> 0 \<and> budget < int (estimateTokens b) then trim_all budget (cut_last b) else b)"
  by pat_completeness auto
termination by (relation "measure (\<lambda>(_, b). entries b)") (auto simp flip: entries_cut_last)

declare trim_all.simps [simp del]

text \<open>The three loops, one after the other, are the loop over the entries.\<close>

lemma trim_stop:
  assumes "entries b = 0 \<or> \<not> budget < int (estimateTokens b)"
  shows "trim_same_file budget b = b" "trim_callers budget b = b" "trim_callees budget b = b"
  using assms by (subst trim_same_file.simps trim_callers.simps trim_callees.simps; auto simp: entries_def)+

lemma trim_empty:
  "bd_SameFile b = [] \<Longrightarrow> trim_same_file budget b = b"
  "bd_Callers b = [] \<Longrightarrow> trim_callers budget b = b"
  "bd_Callees b = [] \<Longrightarrow> trim_callees budget b = b"
  by (subst trim_same_file.simps trim_callers.simps trim_callees.simps; simp)+

lemma trim_loops: "trim_callees budget (trim_callers budget (trim_same_file budget b)) = trim_all budget b"
proof (induction budget b rule: trim_all.induct)
  case (1 budget b)
  show ?case
  proof (cases "entries b \<noteq> 0 \<and> budget < int (estimateTokens b)")
    case True
    note IH = "1.IH" [OF True]
    consider "bd_SameFile b \<noteq> []" | "bd_SameFile b = []" "bd_Callers b \<noteq> []"
      | "bd_SameFile b = []" "bd_Callers b = []" "bd_Callees b \<noteq> []"
      using True by (auto simp: entries_def)
    then show ?thesis
    proof cases
      case 1
      then have "trim_same_file budget b = trim_same_file budget (cut_last b)"
        using True by (subst trim_same_file.simps) (simp add: cut_last_def)
      then show ?thesis using IH True by (simp add: trim_all.simps [of budget b])
    next
      case 2
      then have "trim_callers budget b = trim_callers budget (cut_last b)"
        using True by (subst trim_callers.simps) (simp add: cut_last_def)
      moreover have "bd_SameFile (cut_last b) = []" using 2 by (simp add: cut_last_def)
      ultimately show ?thesis using IH True 2 by (simp add: trim_all.simps [of budget b] trim_empty)
    next
      case 3
      then have "trim_callees budget b = trim_callees budget (cut_last b)"
        using True by (subst trim_callees.simps) (simp add: cut_last_def)
      moreover have "bd_SameFile (cut_last b) = []" "bd_Callers (cut_last b) = []" using 3 by (simp_all add: cut_last_def)
      ultimately show ?thesis using IH True 3 by (simp add: trim_all.simps [of budget b] trim_empty)
    qed
  next
    case False
    then show ?thesis by (subst trim_all.simps) (auto simp: trim_stop)
  qed
qed

lemma trim_all_least:
  "\<exists>n\<le>entries b. trim_all budget b = cut_bundle n b
     \<and> (n < entries b \<longrightarrow> int (estimateTokens (cut_bundle n b)) \<le> budget)
     \<and> (\<forall>m<n. budget < int (estimateTokens (cut_bundle m b)))"
proof (induction budget b rule: trim_all.induct)
  case (1 budget b)
  show ?case
  proof (cases "entries b \<noteq> 0 \<and> budget < int (estimateTokens b)")
    case True
    obtain n where n: "n \<le> entries (cut_last b)" "trim_all budget (cut_last b) = cut_bundle n (cut_last b)"
      "n < entries (cut_last b) \<longrightarrow> int (estimateTokens (cut_bundle n (cut_last b))) \<le> budget"
      "\<forall>m<n. budget < int (estimateTokens (cut_bundle m (cut_last b)))"
      using "1.IH" [OF True] by blast
    have "\<forall>m<Suc n. budget < int (estimateTokens (cut_bundle m b))"
      using n(4) True by (auto simp: less_Suc_eq_0_disj cut_cut1)
    moreover have "trim_all budget b = cut_bundle (Suc n) b"
      using n(2) True by (subst trim_all.simps) (simp add: cut_cut1)
    ultimately show ?thesis
      using n(1,3) True entries_cut_last [of b] by (intro exI [of _ "Suc n"]) (simp add: cut_cut1)
  next
    case False
    then show ?thesis by (intro exI [of _ 0]) (auto simp: trim_all.simps [of budget b])
  qed
qed

lemma estimate_estimate [simp]: "estimateTokens (b\<lparr>bd_TokenEstimate := k\<rparr>) = estimateTokens b"
  by (simp add: estimateTokens_def bundle_bytes_def)

lemma cut_estimate: "cut_bundle n (b\<lparr>bd_TokenEstimate := k\<rparr>) = (cut_bundle n b)\<lparr>bd_TokenEstimate := k\<rparr>"
  by (simp add: cut_bundle_def Let_def)

lemma entries_estimate [simp]: "entries (b\<lparr>bd_TokenEstimate := k\<rparr>) = entries b"
  by (simp add: entries_def)

section \<open>Properties\<close>

text \<open>
  C7: a bundle is the full one without its last n entries, those of the file first, then callers, then callees, where n is
  the least number that brings the estimate within the budget, or all entries when none does; name, symbol and body are
  never cut_bundle, and the reported estimate is the one of the bundle returned.
\<close>

theorem ContextBundle_fits:
  assumes "full_bundle db U env qualifiedName = Some (Inr full)"
  shows "\<exists>n\<le>entries full. ContextBundle db U env qualifiedName tokenBudget
       = Some (Inr ((cut_bundle n full)\<lparr>bd_TokenEstimate := estimateTokens (cut_bundle n full)\<rparr>))
     \<and> (n < entries full \<longrightarrow> int (estimateTokens (cut_bundle n full)) \<le> token_limit tokenBudget)
     \<and> (\<forall>m<n. token_limit tokenBudget < int (estimateTokens (cut_bundle m full)))"
proof (cases "token_limit tokenBudget < int (estimateTokens full)")
  case True
  let ?b = "full\<lparr>bd_TokenEstimate := estimateTokens full\<rparr>"
  obtain n where n: "n \<le> entries full" "trim_all (token_limit tokenBudget) ?b = cut_bundle n ?b"
    "n < entries full \<longrightarrow> int (estimateTokens (cut_bundle n ?b)) \<le> token_limit tokenBudget"
    "\<forall>m<n. token_limit tokenBudget < int (estimateTokens (cut_bundle m ?b))"
    using trim_all_least [of ?b "token_limit tokenBudget"] by auto
  then show ?thesis
    using assms True by (intro exI [of _ n]) (simp add: ContextBundle_def fit_bundle_def trimBundle_def trim_loops cut_estimate)
next
  case False
  then show ?thesis
    using assms by (intro exI [of _ 0]) (simp add: ContextBundle_def fit_bundle_def)
qed
section \<open>Witness\<close>

definition bundle_db :: store_db where
  "bundle_db = list_db [demo_row ''p.g'' ''p.f'' ''calls''] [chg_symbol] []"

lemma bundle_sizes:
  "map_option (map_sum id (\<lambda>b. (entries b, estimateTokens b, estimateTokens (cut_bundle 1 b))))
     (full_bundle bundle_db ascii_tables chg_source ''p.f'') = Some (Inr (1, 44, 33))"
  by code_simp

theorem ContextBundle_fits_witness:
  "\<exists>full. full_bundle bundle_db ascii_tables chg_source ''p.f'' = Some (Inr full) \<and> estimateTokens full = 44
     \<and> ContextBundle bundle_db ascii_tables chg_source ''p.f'' 40 = Some (Inr ((cut_bundle 1 full)\<lparr>bd_TokenEstimate := 33\<rparr>))"
proof -
  obtain full where full: "full_bundle bundle_db ascii_tables chg_source ''p.f'' = Some (Inr full)"
    "entries full = 1" "estimateTokens full = 44" "estimateTokens (cut_bundle 1 full) = 33"
    using run_value [OF bundle_sizes] by auto
  obtain n where n: "n \<le> 1"
    "ContextBundle bundle_db ascii_tables chg_source ''p.f'' 40
       = Some (Inr ((cut_bundle n full)\<lparr>bd_TokenEstimate := estimateTokens (cut_bundle n full)\<rparr>))"
    "n < 1 \<longrightarrow> int (estimateTokens (cut_bundle n full)) \<le> 40"
    using ContextBundle_fits [OF full(1), of 40] full(2) by (auto simp: token_limit_def)
  have "n = 1" using n(1,3) full(3) by (cases n) auto
  then show ?thesis using n(2) full by simp
qed

end
