(* ===== verification/Report.thy ===== *)
theory Report
  imports Served
begin

text \<open>
  Orientation queries (\<^verbatim>\<open>query/query.go\<close>, \<open>Overview\<close>; \<^verbatim>\<open>query/summary.go\<close>): the packages and totals of an index, and
  the short summary of a repository with its description, largest packages, entry points, dependencies and hubs. They
  read the tables directly and through the queries of the served store.
\<close>

section \<open>An open index\<close>

record index =
  ix_sql :: sql_env
  ix_hash :: hash_env
  ix_uni :: unidata
  ix_codec :: codec
  ix_engine :: store_db
  ix_tables :: tables

definition ix_db :: "index \<Rightarrow> store_db" where
  "ix_db I = serve (ix_sql I) (ix_codec I) (ix_engine I) (ix_tables I)"

text \<open>\<^verbatim>\<open>LIKE '%\_test.go' ESCAPE '\'\<close>, which folds the case of ASCII letters.\<close>

definition ascii_fold :: "char \<Rightarrow> char" where
  "ascii_fold c = (let n = of_char c :: nat in if 65 \<le> n \<and> n \<le> 90 then char_of (n + 32) else c)"

definition like_test_file :: "string \<Rightarrow> bool" where
  "like_test_file file \<longleftrightarrow> has_suffix (map ascii_fold file) ''_test.go''"

definition import_targets :: "tables \<Rightarrow> string \<Rightarrow> string list" where
  "import_targets T from =
     dedup_by (\<lambda>r. r) [] (map ee_to_ref (filter (\<lambda>r. ee_edge_type r = edgeTypeImports \<and> ee_from_ref r = from
       \<and> (\<exists>site\<in>set (ee_sites r). \<not> like_test_file (st_File site))) (tb_edges T)))"

definition ImportCounts :: "index \<Rightarrow> (string, nat) gomap result" where
  "ImportCounts I = select (ix_sql I) ''SELECT e.from_ref, COUNT(DISTINCT e.to_ref)'' [] (\<lambda>T.
     Inr (fold (\<lambda>r m. let n = length (import_targets T (ee_from_ref r)) in
            if n = 0 then m else gm_put (ee_from_ref r) n m) (tb_edges T) [])) (ix_tables I)"

definition CountEdges :: "index \<Rightarrow> nat result" where
  "CountEdges I = select (ix_sql I) ''SELECT COUNT(*) FROM edges'' [] (\<lambda>T. Inr (length (tb_edges T))) (ix_tables I)"

section \<open>Overview\<close>

record package_summary =
  ps_Path :: string
  ps_Name :: string
  ps_Doc :: string
  ps_Repo :: string
  ps_Symbols :: "symbol_detail list"
  ps_ImportCount :: nat
  ps_SymCount :: nat

record repo_summary =
  rv_ModulePath :: string
  rv_Dir :: string
  rv_State :: string
  rv_IndexedAt :: string

record overview_result =
  ov_Packages :: "package_summary list"
  ov_Repos :: "repo_summary list"
  ov_TotalPackages :: nat
  ov_TotalSymbols :: nat
  ov_TotalEdges :: nat

definition buildPackageSummary :: "index \<Rightarrow> package \<Rightarrow> bool \<Rightarrow> bool \<Rightarrow> (string, nat) gomap \<Rightarrow> package_summary result" where
  "buildPackageSummary I p includeTests includeSymbols importCounts =
     (let summary = \<lparr>ps_Path = pk_Path p, ps_Name = pk_Name p, ps_Doc = pk_Doc p, ps_Repo = pk_Repo p, ps_Symbols = [],
            ps_ImportCount = gm_get 0 importCounts (pk_Path p), ps_SymCount = pk_SymCount p\<rparr>
      in if \<not> includeSymbols then Inr summary
         else case SymbolsByPackage (ix_db I) (pk_Path p) includeTests of
           Inl e \<Rightarrow> Inl (''overview: symbols for '' @ pk_Path p @ '': '' @ e)
         | Inr syms \<Rightarrow> Inr (summary\<lparr>ps_Symbols := symbolDetails syms False False\<rparr>))"

definition shown_packages :: "options \<Rightarrow> package list \<Rightarrow> package list" where
  "shown_packages opts pkgs =
     filter (\<lambda>p. (o_IncludeTests opts \<or> \<not> pk_IsTest p) \<and> \<not> repoMismatch (pk_Repo p) (o_Repo opts)) pkgs"

definition Overview :: "index \<Rightarrow> options \<Rightarrow> overview_result result" where
  "Overview I opts =
     (case db_packages (ix_db I) of
        Inl e \<Rightarrow> Inl e
      | Inr pkgs \<Rightarrow>
          (case ImportCounts I of
             Inl e \<Rightarrow> Inl (''overview: import counts: '' @ e)
           | Inr importCounts \<Rightarrow>
               (case each_r (\<lambda>p. buildPackageSummary I p (o_IncludeTests opts) (o_IncludeSymbols opts) importCounts)
                       (shown_packages opts pkgs) of
                  Inl e \<Rightarrow> Inl e
                | Inr packages \<Rightarrow>
                    (case Counts (ix_sql I) (ix_tables I) of
                       Inl e \<Rightarrow> Inl (''overview: counting rows: '' @ e)
                     | Inr (_, totalSymbols, totalEdges) \<Rightarrow>
                         (case WorkspaceHealth (ix_sql I) (ix_tables I) of
                            Inl e \<Rightarrow> Inl (''overview: workspace health: '' @ e)
                          | Inr repos \<Rightarrow>
                              Inr \<lparr>ov_Packages = packages,
                                   ov_Repos = map (\<lambda>r. \<lparr>rv_ModulePath = rq_ModulePath r, rv_Dir = rq_Dir r,
                                       rv_State = RepoState (ix_uni I) (ix_sql I) (ix_hash I) (ix_tables I) r,
                                       rv_IndexedAt = rq_IndexedAt r\<rparr>)
                                     (filter (\<lambda>r. \<not> repoMismatch (rq_ModulePath r) (o_Repo opts)) repos),
                                   ov_TotalPackages = length packages, ov_TotalSymbols = totalSymbols,
                                   ov_TotalEdges = totalEdges\<rparr>)))))"

text \<open>\<^verbatim>\<open>query.AllEdges\<close> and \<^verbatim>\<open>query.Diagnostics\<close>.\<close>

definition query_AllEdges :: "index \<Rightarrow> options \<Rightarrow> edge_detail list result" where
  "query_AllEdges I opts =
     (case AllEdges (ix_db I) of
        Inl e \<Rightarrow> Inl e
      | Inr edges \<Rightarrow> Inr (filterEdges (map edgeToDetail edges) (o_Repo opts)))"

definition query_Diagnostics :: "index \<Rightarrow> string \<Rightarrow> options \<Rightarrow> diagnostic list result" where
  "query_Diagnostics I file opts =
     (case Diagnostics (ix_sql I) (ix_tables I) file of
        Inl e \<Rightarrow> Inl e
      | Inr diags \<Rightarrow> Inr (if o_Repo opts = [] then diags else filter (\<lambda>d. dx_Repo d = o_Repo opts) diags))"

section \<open>The description of a repository\<close>

definition maxSummaryEntryPoints :: nat where "maxSummaryEntryPoints = 10"
definition maxSummaryHubs :: int where "maxSummaryHubs = 5"
definition maxSummaryDeps :: nat where "maxSummaryDeps = 12"
definition maxSummaryDocLen :: nat where "maxSummaryDocLen = 120"

definition trimDoc :: "string \<Rightarrow> string" where
  "trimDoc doc =
     (if length doc \<le> maxSummaryDocLen then doc
      else
        let cut = take maxSummaryDocLen doc;
            cut = (case str_last_index cut '' '' of Some i \<Rightarrow> if 0 < i then take i cut else cut | None \<Rightarrow> cut)
        in cut @ ''...'')"

definition isReadmeNoise :: "string \<Rightarrow> bool" where
  "isReadmeNoise line \<longleftrightarrow>
     has_prefix line ''#'' \<or> has_prefix line ''<!--'' \<or> has_prefix line [CHR ''!'', CHR ''['', CHR ''['']
     \<or> has_prefix line [CHR ''['', CHR ''!'', CHR ''[''] \<or> has_prefix line ''<''
     \<or> has_prefix line ''---''
     \<or> (\<not> contains line '' '' \<and> (contains line ''/'' \<or> has_suffix line ''.md''))"

fun paragraph_loop :: "string list \<Rightarrow> string list \<Rightarrow> string list" where
  "paragraph_loop [] para = para"
| "paragraph_loop (line # lines) para =
     (let trimmed = trim_space line in
        if trimmed = [] then (if para \<noteq> [] then para else paragraph_loop lines para)
        else if para = [] \<and> isReadmeNoise trimmed then paragraph_loop lines para
        else paragraph_loop lines (para @ [trimmed]))"

definition firstParagraph :: "string \<Rightarrow> string" where
  "firstParagraph readme = trimDoc (str_join '' '' (paragraph_loop (split_char nl readme) []))"

fun readme_loop :: "ws_env \<Rightarrow> string \<Rightarrow> string list \<Rightarrow> string" where
  "readme_loop W repoPath [] = []"
| "readme_loop W repoPath (name # names) =
     (case we_readFile W (path_join repoPath name) of
        Inl _ \<Rightarrow> readme_loop W repoPath names
      | Inr contents \<Rightarrow> (let desc = firstParagraph contents in if desc \<noteq> [] then desc else readme_loop W repoPath names))"

definition RepoDescription :: "ws_env \<Rightarrow> string \<Rightarrow> string" where
  "RepoDescription W repoPath =
     (if repoPath = [] then [] else readme_loop W repoPath [''README.md'', ''readme.md'', ''README''])"

definition summaryModule :: "ws_env \<Rightarrow> string \<Rightarrow> string" where
  "summaryModule W repoPath = (case ReadModulePath W repoPath of Inl _ \<Rightarrow> [] | Inr m \<Rightarrow> m)"

section \<open>Dependencies\<close>

definition testOnly :: "edge \<Rightarrow> bool" where
  "testOnly e =
     (if eg_Sites e = [] then has_suffix (eg_PosFile e) ''_test.go''
      else list_all (\<lambda>site. has_suffix (st_File site) ''_test.go'') (eg_Sites e))"

definition dep_less :: "string \<times> nat \<Rightarrow> string \<times> nat \<Rightarrow> bool" where
  "dep_less = then_by_desc snd (by_key fst)"

definition rank_deps :: "(string \<times> nat) list \<Rightarrow> string list" where
  "rank_deps deps = map fst (take maxSummaryDeps (sort_by dep_less deps))"

definition is_module_path :: "string \<Rightarrow> bool" where
  "is_module_path path = (case str_cut path ''/'' of (first, _, _) \<Rightarrow> contains first ''.'')"

definition splitDeps :: "(string, nat) gomap \<Rightarrow> string list \<times> string list" where
  "splitDeps counts =
     (rank_deps (filter (\<lambda>(path, _). is_module_path path) counts), rank_deps (filter (\<lambda>(path, _). \<not> is_module_path path) counts))"

definition dep_counts :: "string list \<Rightarrow> edge list \<Rightarrow> (string, nat) gomap" where
  "dep_counts projectSet imports =
     fold (\<lambda>e counts. if eg_FromRef e \<notin> set projectSet \<or> eg_ToRef e \<in> set projectSet \<or> testOnly e then counts
         else gm_put (eg_ToRef e) (gm_get 0 counts (eg_ToRef e) + 1) counts) imports []"

definition externalDeps :: "store_db \<Rightarrow> string list \<Rightarrow> string list \<times> string list" where
  "externalDeps db projectSet =
     (case EdgesByType db edgeTypeImports of
        Inl _ \<Rightarrow> ([], [])
      | Inr imports \<Rightarrow> splitDeps (dep_counts projectSet imports))"

definition summaryHubs :: "store_db \<Rightarrow> string list \<Rightarrow> hub list" where
  "summaryHubs db projectSet =
     (case buildProjectGraph db projectSet of
        Inl _ \<Rightarrow> []
      | Inr (_, fanIn, fanOut) \<Rightarrow> topHubEntries projectSet fanIn fanOut maxSummaryHubs)"

definition truncateEntryPoints :: "entry_point list \<Rightarrow> nat \<Rightarrow> entry_point list" where
  "truncateEntryPoints entries limit = (if length entries \<le> limit then entries else take limit entries)"

section \<open>Summary\<close>

record summary_package =
  sp_Path :: string
  sp_Doc :: string
  sp_SymCount :: nat

record summary_result =
  sr_Module :: string
  sr_Description :: string
  sr_IndexedVia :: string
  sr_GitHead :: string
  sr_ThirdParty :: "string list"
  sr_Stdlib :: "string list"
  sr_Packages :: "summary_package list"
  sr_EntryPoints :: "entry_point list"
  sr_Hubs :: "hub list"
  sr_TotalSymbols :: nat
  sr_TotalEdges :: nat

definition summary_less :: "summary_package \<Rightarrow> summary_package \<Rightarrow> bool" where
  "summary_less = then_by_desc sp_SymCount (by_key sp_Path)"

definition summary_package :: "package \<Rightarrow> summary_package" where
  "summary_package p = \<lparr>sp_Path = pk_Path p, sp_Doc = trimDoc (pk_Doc p), sp_SymCount = pk_SymCount p\<rparr>"

definition Summary :: "index \<Rightarrow> options \<Rightarrow> summary_result result" where
  "Summary I opts =
     (case db_packages (ix_db I) of
        Inl e \<Rightarrow> Inl e
      | Inr pkgs \<Rightarrow>
          (case Health (ix_uni I) (ix_sql I) (ix_hash I) (ix_tables I) of
             Inl e \<Rightarrow> Inl e
           | Inr health \<Rightarrow>
               (let shown = shown_packages opts pkgs; projectSet = dedup_by (\<lambda>p. p) [] (map pk_Path shown);
                    W = hs_ws (ix_hash I) in
                  case CountEdges I of
                    Inl e \<Rightarrow> Inl e
                  | Inr edges \<Rightarrow>
                      (case EntryPoints (ix_db I) [kindMain] (o_IncludeTests opts) of
                         Inl e \<Rightarrow> Inl e
                       | Inr entryPoints \<Rightarrow>
                           (let (thirdParty, stdlib) = externalDeps (ix_db I) projectSet in
                              Inr \<lparr>sr_Module = summaryModule W (hi_RepoPath health),
                                   sr_Description = RepoDescription W (hi_RepoPath health),
                                   sr_IndexedVia = hi_IndexedVia health, sr_GitHead = hi_GitHead health,
                                   sr_ThirdParty = thirdParty, sr_Stdlib = stdlib,
                                   sr_Packages = sort_by summary_less (map summary_package shown),
                                   sr_EntryPoints = truncateEntryPoints entryPoints maxSummaryEntryPoints,
                                   sr_Hubs = summaryHubs (ix_db I) projectSet,
                                   sr_TotalSymbols = sum_list (map pk_SymCount pkgs), sr_TotalEdges = edges\<rparr>)))))"

end
