(* ===== verification/Rank.thy ===== *)
theory Rank
  imports Report
begin

text \<open>
  Rankings of symbols (\<^verbatim>\<open>query/query.go\<close>): hot spots by complexity and churn, importance by PageRank over the symbol
  graph. \<^verbatim>\<open>sort.Slice\<close> on a key that can tie leaves the order of the ties open, so it is an argument here.
\<close>

section \<open>Sorting with ties\<close>

text \<open>What \<^verbatim>\<open>sort.Slice\<close> promises.\<close>

locale slice_sort =
  fixes srt :: "('a \<Rightarrow> 'a \<Rightarrow> bool) \<Rightarrow> 'a list \<Rightarrow> 'a list"
  assumes srt_mset: "mset (srt lt xs) = mset xs"
    and srt_sorted: "strict_weak lt \<Longrightarrow> sorted_wrt (\<lambda>a b. \<not> lt b a) (srt lt xs)"
begin

lemma srt_set: "set (srt lt xs) = set xs"
  by (metis srt_mset set_mset_mset)

lemma srt_length: "length (srt lt xs) = length xs"
  by (metis srt_mset size_mset)

text \<open>The head of a sorted list: as long as asked for, and nothing outside it belongs before an entry of it.\<close>

lemma top_spec:
  assumes "strict_weak lt"
  shows "length (take n (srt lt xs)) = min n (length xs)"
    and "sorted_wrt (\<lambda>a b. \<not> lt b a) (take n (srt lt xs))"
    and "set (take n (srt lt xs)) \<subseteq> set xs"
    and "y \<in> set xs \<Longrightarrow> y \<notin> set (take n (srt lt xs)) \<Longrightarrow> x \<in> set (take n (srt lt xs)) \<Longrightarrow> \<not> lt y x"
proof -
  have split: "take n (srt lt xs) @ drop n (srt lt xs) = srt lt xs" by simp
  have s: "sorted_wrt (\<lambda>a b. \<not> lt b a) (take n (srt lt xs) @ drop n (srt lt xs))"
    using srt_sorted [OF assms] by simp
  then show "sorted_wrt (\<lambda>a b. \<not> lt b a) (take n (srt lt xs))" unfolding sorted_wrt_append by blast
  show "length (take n (srt lt xs)) = min n (length xs)" by (simp add: srt_length)
  show "set (take n (srt lt xs)) \<subseteq> set xs" by (metis srt_set set_take_subset)
  assume y: "y \<in> set xs" "y \<notin> set (take n (srt lt xs))" and x: "x \<in> set (take n (srt lt xs))"
  have "y \<in> set (take n (srt lt xs) @ drop n (srt lt xs))" using y(1) unfolding split by (simp add: srt_set)
  then have "y \<in> set (drop n (srt lt xs))" using y(2) by (metis Un_iff set_append)
  then show "\<not> lt y x" using s x unfolding sorted_wrt_append by blast
qed

end

interpretation insertion: slice_sort sort_by
  by unfold_locales (auto intro: strict_weak.sort_by_sorted)

section \<open>Hot spots\<close>

definition filterOutGenerated :: "symbol list \<Rightarrow> symbol list" where
  "filterOutGenerated syms = filter (\<lambda>sy. \<not> sy_IsGenerated sy) syms"

record hotspot =
  ho_QualifiedName :: string
  ho_Kind :: string
  ho_PosFile :: string
  ho_ChurnError :: string
  ho_PosLine :: int
  ho_Complexity :: int
  ho_ChurnCount :: int
  ho_RiskScore :: f64

text \<open>\<open>lg\<close> is \<^verbatim>\<open>math.Log\<close>.\<close>

definition to_hotspot :: "(f64 \<Rightarrow> f64) \<Rightarrow> string \<Rightarrow> symbol \<Rightarrow> hotspot" where
  "to_hotspot lg churnError sy =
     \<lparr>ho_QualifiedName = sy_QualifiedName sy, ho_Kind = sy_Kind sy, ho_PosFile = sy_PosFile sy, ho_ChurnError = churnError,
      ho_PosLine = sy_PosLine sy, ho_Complexity = sy_Complexity sy, ho_ChurnCount = sy_ChurnCount sy,
      ho_RiskScore = f_mul (f_of_int (sy_Complexity sy)) (lg (f_add (f_of_int (sy_ChurnCount sy)) 1))\<rparr>"

definition risk_less :: "hotspot \<Rightarrow> hotspot \<Rightarrow> bool" where
  "risk_less a b \<longleftrightarrow> ho_RiskScore a > ho_RiskScore b"

definition top_limit :: "int \<Rightarrow> nat" where
  "top_limit topN = (if topN \<le> 0 then 10 else nat topN)"

type_synonym 'a sorter = "('a \<Rightarrow> 'a \<Rightarrow> bool) \<Rightarrow> 'a list \<Rightarrow> 'a list"

definition Hotspots :: "index \<Rightarrow> (f64 \<Rightarrow> f64) \<Rightarrow> hotspot sorter \<Rightarrow> int \<Rightarrow> int \<Rightarrow> int \<Rightarrow> hotspot list result" where
  "Hotspots I lg srt topN minComplexity minChurn =
     (case ChurnDegraded (ix_sql I) (ix_tables I) of
        Inl e \<Rightarrow> Inl (''hotspots: churn degradation: '' @ e)
      | Inr churnError \<Rightarrow>
          (case AllSymbols (ix_db I) False of
             Inl e \<Rightarrow> Inl e
           | Inr allSyms \<Rightarrow>
               Inr (take (top_limit topN) (srt risk_less (map (to_hotspot lg churnError)
                 (filter (\<lambda>sy. \<not> (sy_Complexity sy < minComplexity \<or> sy_ChurnCount sy < minChurn))
                   (filterOutGenerated allSyms)))))))"

section \<open>The symbol graph\<close>

definition SymbolEdges :: "index \<Rightarrow> string list \<Rightarrow> edge list result" where
  "SymbolEdges I edgeTypes =
     (if edgeTypes = [] then Inr []
      else
        let names = map se_qualified_name (tb_symbols (ix_tables I)) in
          queryEdges (ix_db I) (\<lambda>r. ew_type r \<in> set edgeTypes \<and> ew_from r \<in> set names \<and> ew_to r \<in> set names))"

type_synonym adjacency = "(nat, nat list) gomap"

definition add_node :: "symbol \<Rightarrow> (string, nat) gomap \<times> string list \<Rightarrow> (string, nat) gomap \<times> string list" where
  "add_node sy = (\<lambda>(nodeIdx, nodes).
     if gm_has nodeIdx (sy_QualifiedName sy) then (nodeIdx, nodes)
     else (gm_put (sy_QualifiedName sy) (length nodes) nodeIdx, nodes @ [sy_QualifiedName sy]))"

definition add_arc :: "(string, nat) gomap \<Rightarrow> edge \<Rightarrow> adjacency \<times> nat list \<Rightarrow> adjacency \<times> nat list" where
  "add_arc nodeIdx e = (\<lambda>(adj, outdeg).
     case (map_of nodeIdx (eg_FromRef e), map_of nodeIdx (eg_ToRef e)) of
       (Some i, Some j) \<Rightarrow> (gm_append i j adj, outdeg[i := outdeg ! i + 1])
     | _ \<Rightarrow> (adj, outdeg))"

definition buildSymbolAdjacency :: "symbol list \<Rightarrow> edge list \<Rightarrow> string list \<times> adjacency \<times> nat list" where
  "buildSymbolAdjacency allSyms edges =
     (let (nodeIdx, nodes) = fold add_node allSyms ([], []);
          (adj, outdeg) = fold (add_arc nodeIdx) edges ([], replicate (length nodes) 0)
      in (nodes, adj, outdeg))"

section \<open>PageRank\<close>

definition damping :: f64 where "damping = rnd (85 / 100)"
definition epsilon :: f64 where "epsilon = rnd (1 / 10 ^ 6)"
definition maxIter :: nat where "maxIter = 100"

text \<open>The rank lost to nodes without outgoing edges, and the share every node starts an iteration with.\<close>

definition dangling :: "nat list \<Rightarrow> f64 list \<Rightarrow> f64" where
  "dangling outdeg rank = fold (\<lambda>i s. if outdeg ! i = 0 then f_add s (rank ! i) else s) [0..<length outdeg] 0"

definition base_rank :: "nat \<Rightarrow> nat list \<Rightarrow> f64 list \<Rightarrow> f64" where
  "base_rank n outdeg rank =
     f_add (f_div (f_sub 1 damping) (f_of_int (int n))) (f_div (f_mul damping (dangling outdeg rank)) (f_of_int (int n)))"

definition arcs :: "nat \<Rightarrow> adjacency \<Rightarrow> (nat \<times> nat) list" where
  "arcs n adj = concat (map (\<lambda>i. map (Pair i) (gm_get [] adj i)) [0..<n])"

definition push_rank :: "nat list \<Rightarrow> f64 list \<Rightarrow> nat \<times> nat \<Rightarrow> f64 list \<Rightarrow> f64 list" where
  "push_rank outdeg rank = (\<lambda>(i, to) newRank.
     newRank[to := f_add (newRank ! to) (f_div (f_mul damping (rank ! i)) (f_of_int (int (outdeg ! i))))])"

definition pageStep :: "nat \<Rightarrow> adjacency \<Rightarrow> nat list \<Rightarrow> f64 list \<Rightarrow> f64 list" where
  "pageStep n adj outdeg rank = fold (push_rank outdeg rank) (arcs n adj) (replicate n (base_rank n outdeg rank))"

definition rankResidual :: "f64 list \<Rightarrow> f64 list \<Rightarrow> f64" where
  "rankResidual a b =
     fold (\<lambda>i residual. let delta = f_sub (a ! i) (b ! i); delta = (if delta < 0 then - delta else delta)
         in if residual < delta then delta else residual) [0..<length a] 0"

fun rank_loop :: "nat \<Rightarrow> nat \<Rightarrow> adjacency \<Rightarrow> nat list \<Rightarrow> f64 list \<Rightarrow> f64 list" where
  "rank_loop 0 n adj outdeg rank = rank"
| "rank_loop (Suc k) n adj outdeg rank =
     (let newRank = pageStep n adj outdeg rank in
        if rankResidual newRank rank < epsilon then newRank else rank_loop k n adj outdeg newRank)"

definition pagerank :: "nat \<Rightarrow> adjacency \<Rightarrow> nat list \<Rightarrow> f64 list" where
  "pagerank n adj outdeg = rank_loop maxIter n adj outdeg (replicate n (f_div 1 (f_of_int (int n))))"

section \<open>Importance\<close>

record importance_entry =
  im_QualifiedName :: string
  im_Kind :: string
  im_PosFile :: string
  im_PosLine :: int
  im_Importance :: f64

definition importance_less :: "importance_entry \<Rightarrow> importance_entry \<Rightarrow> bool" where
  "importance_less a b \<longleftrightarrow> im_Importance a > im_Importance b"

definition importance_of :: "(string, symbol) gomap \<Rightarrow> string \<Rightarrow> f64 \<Rightarrow> importance_entry" where
  "importance_of symMap name v =
     (case map_of symMap name of
        None \<Rightarrow> \<lparr>im_QualifiedName = name, im_Kind = [], im_PosFile = [], im_PosLine = 0, im_Importance = v\<rparr>
      | Some sy \<Rightarrow> \<lparr>im_QualifiedName = name, im_Kind = sy_Kind sy, im_PosFile = sy_PosFile sy, im_PosLine = sy_PosLine sy,
          im_Importance = v\<rparr>)"

definition buildImportanceEntries :: "importance_entry sorter \<Rightarrow> string list \<Rightarrow> (string, symbol) gomap \<Rightarrow> f64 list
    \<Rightarrow> importance_entry list" where
  "buildImportanceEntries srt nodes symMap rank =
     srt importance_less (map (\<lambda>i. importance_of symMap (nodes ! i) (rank ! i)) [0..<length nodes])"

definition symbol_map :: "symbol list \<Rightarrow> (string, symbol) gomap" where
  "symbol_map syms = fold (\<lambda>sy. gm_put (sy_QualifiedName sy) sy) syms []"

text \<open>The ranking of the given symbols and edges; the query cuts it at \<open>topN\<close>.\<close>

definition rank_symbols :: "importance_entry sorter \<Rightarrow> symbol list \<Rightarrow> edge list \<Rightarrow> importance_entry list" where
  "rank_symbols srt syms edges =
     (case buildSymbolAdjacency syms edges of (nodes, adj, outdeg) \<Rightarrow>
        if nodes = [] then [] else buildImportanceEntries srt nodes (symbol_map syms) (pagerank (length nodes) adj outdeg))"

definition SymbolImportance :: "index \<Rightarrow> importance_entry sorter \<Rightarrow> int \<Rightarrow> int \<Rightarrow> options \<Rightarrow> importance_entry list result" where
  "SymbolImportance I srt topN scope opts =
     (case AllSymbols (ix_db I) False of
        Inl e \<Rightarrow> Inl e
      | Inr allSyms0 \<Rightarrow>
          (let allSyms = filter (\<lambda>sy. o_Repo opts = [] \<or> sy_Repo sy = o_Repo opts) (filterOutGenerated allSyms0) in
             case SymbolEdges I [edgeTypeCalls, edgeTypeReferences, edgeTypeSatisfies] of
               Inl e \<Rightarrow> Inl e
             | Inr allEdges \<Rightarrow>
                 Inr (take (top_limit topN) (rank_symbols srt allSyms
                   (filter (\<lambda>e. o_Repo opts = [] \<or> eg_Repo e = o_Repo opts) allEdges)))))"

end
