(* ===== verification/Rank_Proofs.thy ===== *)
theory Rank_Proofs
  imports Rank Served_Proofs
begin

text \<open>
  The rankings: both lists are the top of a sorted list of all candidates, and a symbol nothing refers to has the lowest
  importance of all, through every rounding of the PageRank iteration.
\<close>

section \<open>The symbol graph\<close>

definition indexed :: "(string, nat) gomap \<Rightarrow> string list \<Rightarrow> bool" where
  "indexed idx nodes \<longleftrightarrow> distinct nodes \<and> (\<forall>q i. map_of idx q = Some i \<longleftrightarrow> i < length nodes \<and> nodes ! i = q)"

lemma add_nodes_indexed:
  assumes "fold add_node syms st = (idx', nodes')" and "indexed (fst st) (snd st)"
  shows "indexed idx' nodes' \<and> set nodes' = set (snd st) \<union> sy_QualifiedName ` set syms"
  using assms
proof (induction syms arbitrary: st)
  case (Cons sy syms)
  obtain idx nodes where st: "st = (idx, nodes)" by (cases st)
  let ?q = "sy_QualifiedName sy"
  have ok: "indexed idx nodes" using Cons.prems(2) st by simp
  show ?case
  proof (cases "gm_has idx ?q")
    case True
    then have "add_node sy st = st" by (simp add: add_node_def st)
    moreover have "?q \<in> set nodes" using True ok nth_mem by (fastforce simp: gm_has_def indexed_def)
    ultimately show ?thesis using Cons by (auto simp: st)
  next
    case False
    then have new: "?q \<notin> set nodes" using ok unfolding gm_has_def indexed_def in_set_conv_nth by force
    have fresh: "nodes ! i \<noteq> ?q" if "i < length nodes" for i using new nth_mem [OF that] by auto
    have "indexed (gm_put ?q (length nodes) idx) (nodes @ [?q])"
      using ok new fresh unfolding indexed_def by (auto simp: nth_append less_Suc_eq)
    moreover have "add_node sy st = (gm_put ?q (length nodes) idx, nodes @ [?q])" using False by (simp add: add_node_def st)
    ultimately show ?thesis using Cons by (auto simp: st)
  qed
qed simp

definition arcs_into :: "adjacency \<Rightarrow> nat \<Rightarrow> bool" where
  "arcs_into adj j \<longleftrightarrow> (\<exists>i. j \<in> set (gm_get [] adj i))"

lemma add_arcs_into:
  assumes "fold (add_arc idx) es st = (adj', out')" and "indexed idx nodes"
    and "j < length nodes"
  shows "arcs_into adj' j \<longleftrightarrow> arcs_into (fst st) j
      \<or> (\<exists>e\<in>set es. eg_ToRef e = nodes ! j \<and> eg_FromRef e \<in> set nodes)"
    and "length out' = length (snd st)"
    and "(\<forall>i. \<forall>t\<in>set (gm_get [] (fst st) i). t < length nodes) \<Longrightarrow> (\<forall>i. \<forall>t\<in>set (gm_get [] adj' i). t < length nodes)"
proof -
  have "(arcs_into adj' j \<longleftrightarrow> arcs_into (fst st) j
      \<or> (\<exists>e\<in>set es. eg_ToRef e = nodes ! j \<and> eg_FromRef e \<in> set nodes)) \<and> length out' = length (snd st)
      \<and> ((\<forall>i. \<forall>t\<in>set (gm_get [] (fst st) i). t < length nodes) \<longrightarrow> (\<forall>i. \<forall>t\<in>set (gm_get [] adj' i). t < length nodes))"
    using assms(1)
  proof (induction es arbitrary: st)
    case (Cons e es)
    obtain adj out where st: "st = (adj, out)" by (cases st)
    have idx: "map_of idx q = Some i \<longleftrightarrow> i < length nodes \<and> nodes ! i = q" for q i
      using assms(2) by (simp add: indexed_def)
    have at_j: "map_of idx (nodes ! j) = Some j" using assms(3) by (simp add: idx)
    have mem: "q \<in> set nodes \<longleftrightarrow> map_of idx q \<noteq> None" for q by (auto simp: idx in_set_conv_nth)
    show ?case
    proof (cases "map_of idx (eg_FromRef e) = None \<or> map_of idx (eg_ToRef e) = None")
      case True
      then have "add_arc idx e st = st" by (auto simp: add_arc_def st split: option.splits)
      moreover have "\<not> (eg_ToRef e = nodes ! j \<and> eg_FromRef e \<in> set nodes)"
        using True at_j by (auto simp: mem)
      ultimately show ?thesis using Cons.IH [of st] Cons.prems by auto
    next
      case False
      then obtain i t where it: "map_of idx (eg_FromRef e) = Some i" "map_of idx (eg_ToRef e) = Some t" by auto
      then have step: "add_arc idx e st = (gm_append i t adj, out[i := out ! i + 1])" by (simp add: add_arc_def st)
      have A: "arcs_into (gm_append i t adj) j \<longleftrightarrow> arcs_into adj j \<or> eg_ToRef e = nodes ! j \<and> eg_FromRef e \<in> set nodes"
      proof -
        have "t = j \<longleftrightarrow> eg_ToRef e = nodes ! j"
          using it(2) at_j idx [of "eg_ToRef e" t] by auto
        then show ?thesis using it(1) by (auto simp: arcs_into_def gm_append_def mem)
      qed
      have B: "(\<forall>k. \<forall>s\<in>set (gm_get [] adj k). s < length nodes) \<Longrightarrow>
          (\<forall>k. \<forall>s\<in>set (gm_get [] (gm_append i t adj) k). s < length nodes)"
        using it(2) by (auto simp: gm_append_def idx)
      have "fold (add_arc idx) es (gm_append i t adj, out[i := out ! i + 1]) = (adj', out')"
        using Cons.prems by (simp add: step)
      note IH = Cons.IH [OF this]
      show ?thesis
      proof (intro conjI impI)
        show "arcs_into adj' j \<longleftrightarrow> arcs_into (fst st) j
            \<or> (\<exists>e'\<in>set (e # es). eg_ToRef e' = nodes ! j \<and> eg_FromRef e' \<in> set nodes)"
          using IH A unfolding st by auto
        show "length out' = length (snd st)" using IH by (simp add: st)
        assume "\<forall>i. \<forall>t\<in>set (gm_get [] (fst st) i). t < length nodes"
        then have "\<forall>k. \<forall>s\<in>set (gm_get [] (gm_append i t adj) k). s < length nodes" using B by (simp add: st)
        then show "\<forall>i. \<forall>t\<in>set (gm_get [] adj' i). t < length nodes" using IH by simp
      qed
    qed
  qed simp
  then show "arcs_into adj' j \<longleftrightarrow> arcs_into (fst st) j
      \<or> (\<exists>e\<in>set es. eg_ToRef e = nodes ! j \<and> eg_FromRef e \<in> set nodes)"
    and "length out' = length (snd st)"
    and "(\<forall>i. \<forall>t\<in>set (gm_get [] (fst st) i). t < length nodes) \<Longrightarrow> (\<forall>i. \<forall>t\<in>set (gm_get [] adj' i). t < length nodes)"
    by blast+
qed

section \<open>One iteration\<close>

lemma damping_bounds: "0 \<le> damping" "damping \<le> 1"
proof -
  show "0 \<le> damping" by (simp add: damping_def rnd_nonneg)
  have "rnd (85 / 100) \<le> rnd 1" by (rule rnd_mono) simp
  then show "damping \<le> 1" by (simp add: damping_def)
qed

lemma f_of_nat_nonneg: "0 \<le> f_of_int (int k)"
  by (simp add: f_of_int_def rnd_nonneg)

lemma dangling_nonneg:
  assumes "\<forall>i<length rank. 0 \<le> rank ! i" and "length rank = length outdeg"
  shows "0 \<le> dangling outdeg rank"
proof -
  have "0 \<le> fold (\<lambda>i s. if outdeg ! i = 0 then f_add s (rank ! i) else s) is s"
    if "0 \<le> s" "set is \<subseteq> {..<length rank}" for "is" s
    using that by (induction "is" arbitrary: s) (auto simp: assms f_add_nonneg)
  then show ?thesis unfolding dangling_def using assms(2) by (simp add: subset_eq)
qed

lemma base_nonneg:
  assumes "\<forall>i<length rank. 0 \<le> rank ! i" and "length rank = length outdeg"
  shows "0 \<le> base_rank n outdeg rank"
  unfolding base_rank_def
  by (intro f_add_nonneg f_div_nonneg f_of_nat_nonneg)
    (simp_all add: f_sub_def f_mul_def rnd_nonneg damping_bounds dangling_nonneg [OF assms])

text \<open>Ranks are machine numbers, at least the base, and exactly the base where no arc arrives.\<close>

definition pushed :: "f64 \<Rightarrow> (nat \<times> nat) list \<Rightarrow> f64 list \<Rightarrow> bool" where
  "pushed b done new \<longleftrightarrow> (\<forall>j<length new. rnd (new ! j) = new ! j \<and> b \<le> new ! j \<and> (j \<notin> snd ` set done \<longrightarrow> new ! j = b))"

lemma push_rank_pushed:
  assumes "pushed b done new" and "i < length rank" and "\<forall>i<length rank. 0 \<le> rank ! i"
  shows "pushed b ((i, t) # done) (push_rank outdeg rank (i, t) new)"
proof (cases "t < length new")
  case True
  let ?c = "f_div (f_mul damping (rank ! i)) (f_of_int (int (outdeg ! i)))"
  have "0 \<le> ?c" using assms(2,3) by (intro f_div_nonneg f_of_nat_nonneg) (simp add: f_mul_def rnd_nonneg damping_bounds)
  then have "rnd (new ! t) \<le> rnd (new ! t + ?c)" by (intro rnd_mono) simp
  then have "new ! t \<le> f_add (new ! t) ?c" using assms(1) True by (simp add: pushed_def f_add_def)
  then show ?thesis
    using assms(1) True unfolding pushed_def push_rank_def
    by (auto simp: nth_list_update f_add_def rnd_idem intro: order_trans)
qed (use assms(1) in \<open>auto simp: pushed_def push_rank_def\<close>)

lemma push_all:
  assumes "\<forall>i<length rank. 0 \<le> rank ! i" and "fst ` set as \<subseteq> {..<length rank}" and "pushed b done new"
  shows "pushed b (rev as @ done) (fold (push_rank outdeg rank) as new)"
  using assms(2,3)
proof (induction as arbitrary: new "done")
  case (Cons a as)
  then have "pushed b (a # done) (push_rank outdeg rank a new)"
    using push_rank_pushed [of b "done" new "fst a" rank "snd a" outdeg] assms(1) by (cases a) auto
  then show ?case using Cons.IH [of "a # done"] Cons.prems by simp
qed simp

lemma length_push: "length (fold (push_rank outdeg rank) as new) = length new"
  by (induction as arbitrary: new) (auto simp: push_rank_def split: prod.splits)

lemma pageStep_minimum:
  assumes "\<forall>i<n. 0 \<le> rank ! i" and "length rank = n" and "length outdeg = n"
  shows "length (pageStep n adj outdeg rank) = n"
    and "\<forall>i<n. 0 \<le> pageStep n adj outdeg rank ! i"
    and "j < n \<Longrightarrow> i < n \<Longrightarrow> \<not> arcs_into adj j \<Longrightarrow> pageStep n adj outdeg rank ! j \<le> pageStep n adj outdeg rank ! i"
proof -
  let ?b = "base_rank n outdeg rank"
  have b: "0 \<le> ?b" by (rule base_nonneg) (simp_all add: assms)
  have "pushed ?b [] (replicate n ?b)" by (simp add: pushed_def base_rank_def f_add_def rnd_idem)
  then have p: "pushed ?b (rev (arcs n adj) @ []) (pageStep n adj outdeg rank)"
    unfolding pageStep_def by (intro push_all) (use assms in \<open>auto simp: arcs_def\<close>)
  show len: "length (pageStep n adj outdeg rank) = n" by (simp add: pageStep_def length_push)
  show "\<forall>i<n. 0 \<le> pageStep n adj outdeg rank ! i" using p b len by (auto simp: pushed_def intro: order_trans)
  assume j: "j < n" "i < n" "\<not> arcs_into adj j"
  then have "j \<notin> snd ` set (rev (arcs n adj) @ [])" by (auto simp: arcs_def arcs_into_def)
  then have "pageStep n adj outdeg rank ! j = ?b" using p j(1) len by (simp add: pushed_def)
  then show "pageStep n adj outdeg rank ! j \<le> pageStep n adj outdeg rank ! i" using p j(2) len by (simp add: pushed_def)
qed

lemma rank_loop_minimum:
  assumes "\<forall>i<n. 0 \<le> rank ! i" and "length rank = n" and "length outdeg = n" and "0 < k"
  shows "length (rank_loop k n adj outdeg rank) = n \<and> (\<forall>i<n. 0 \<le> rank_loop k n adj outdeg rank ! i)
    \<and> (\<forall>j<n. \<forall>i<n. \<not> arcs_into adj j \<longrightarrow> rank_loop k n adj outdeg rank ! j \<le> rank_loop k n adj outdeg rank ! i)"
  using assms
proof (induction k arbitrary: rank)
  case (Suc k)
  note step = pageStep_minimum [where adj = adj, OF Suc.prems(1-3)]
  show ?case
  proof (cases "rankResidual (pageStep n adj outdeg rank) rank < epsilon \<or> k = 0")
    case True
    then have "rank_loop (Suc k) n adj outdeg rank = pageStep n adj outdeg rank" by (auto simp: Let_def)
    then show ?thesis using step by simp
  next
    case False
    then have "rank_loop (Suc k) n adj outdeg rank = rank_loop k n adj outdeg (pageStep n adj outdeg rank)"
      by (simp add: Let_def)
    then show ?thesis using Suc.IH [OF step(2) step(1) Suc.prems(3)] False by simp
  qed
qed simp

lemma pagerank_minimum:
  assumes "length outdeg = n"
  shows "length (pagerank n adj outdeg) = n" and "\<forall>i<n. 0 \<le> pagerank n adj outdeg ! i"
    and "j < n \<Longrightarrow> i < n \<Longrightarrow> \<not> arcs_into adj j \<Longrightarrow> pagerank n adj outdeg ! j \<le> pagerank n adj outdeg ! i"
proof -
  have init: "\<forall>i<n. 0 \<le> replicate n (f_div 1 (f_of_int (int n))) ! i"
    by (simp add: f_div_nonneg f_of_nat_nonneg)
  have "length (pagerank n adj outdeg) = n \<and> (\<forall>i<n. 0 \<le> pagerank n adj outdeg ! i)
    \<and> (\<forall>j<n. \<forall>i<n. \<not> arcs_into adj j \<longrightarrow> pagerank n adj outdeg ! j \<le> pagerank n adj outdeg ! i)"
    unfolding pagerank_def by (rule rank_loop_minimum [OF init _ assms]) (simp_all add: maxIter_def)
  then show "length (pagerank n adj outdeg) = n" and "\<forall>i<n. 0 \<le> pagerank n adj outdeg ! i"
    and "j < n \<Longrightarrow> i < n \<Longrightarrow> \<not> arcs_into adj j \<Longrightarrow> pagerank n adj outdeg ! j \<le> pagerank n adj outdeg ! i" by auto
qed

section \<open>The ranking of symbols\<close>

text \<open>A symbol that no edge from another candidate reaches.\<close>

definition unreferenced :: "symbol list \<Rightarrow> edge list \<Rightarrow> string \<Rightarrow> bool" where
  "unreferenced syms edges q \<longleftrightarrow> (\<forall>e\<in>set edges. eg_ToRef e = q \<longrightarrow> eg_FromRef e \<notin> sy_QualifiedName ` set syms)"

lemma importance_fields [simp]:
  "im_QualifiedName (importance_of m q v) = q" "im_Importance (importance_of m q v) = v"
  by (simp_all add: importance_of_def split: option.split)

lemma importance_strict: "strict_weak importance_less"
  by unfold_locales (auto simp: importance_less_def)

lemma risk_strict: "strict_weak risk_less"
  by unfold_locales (auto simp: risk_less_def)

lemma rank_symbols_spec:
  assumes "slice_sort srt"
  shows "sorted_wrt (\<lambda>a b. im_Importance b \<le> im_Importance a) (rank_symbols srt syms edges)"
    and "distinct (map im_QualifiedName (rank_symbols srt syms edges))"
    and "im_QualifiedName ` set (rank_symbols srt syms edges) = sy_QualifiedName ` set syms"
    and "x \<in> set (rank_symbols srt syms edges) \<Longrightarrow> 0 \<le> im_Importance x"
    and "x \<in> set (rank_symbols srt syms edges) \<Longrightarrow> y \<in> set (rank_symbols srt syms edges) \<Longrightarrow>
      unreferenced syms edges (im_QualifiedName x) \<Longrightarrow> im_Importance x \<le> im_Importance y"
proof -
  obtain idx nodes where n: "fold add_node syms ([], []) = (idx, nodes)" by fastforce
  obtain adj out where a: "fold (add_arc idx) edges ([], replicate (length nodes) 0) = (adj, out)" by fastforce
  have "indexed [] []" by (simp add: indexed_def)
  then have ix: "indexed idx nodes" "set nodes = sy_QualifiedName ` set syms"
    using add_nodes_indexed [OF n] by simp_all
  let ?n = "length nodes" and ?rank = "pagerank (length nodes) adj out"
  let ?all = "map (\<lambda>i. importance_of (symbol_map syms) (nodes ! i) (?rank ! i)) [0..<?n]"
  let ?R = "rank_symbols srt syms edges"
  have R: "?R = (if nodes = [] then [] else srt importance_less ?all)"
    by (simp add: rank_symbols_def buildSymbolAdjacency_def n a buildImportanceEntries_def)
  have out: "length out = ?n" if "nodes \<noteq> []"
    using add_arcs_into(2) [OF a ix(1), of 0] that by simp
  have into: "arcs_into adj j \<longleftrightarrow> (\<exists>e\<in>set edges. eg_ToRef e = nodes ! j \<and> eg_FromRef e \<in> set nodes)" if "j < ?n" for j
    using add_arcs_into(1) [OF a ix(1) that] by (simp add: arcs_into_def)
  have set_R: "set ?R = set ?all" using slice_sort.srt_set [OF assms] by (simp add: R)
  have m: "mset (map im_QualifiedName ?R) = mset nodes"
    using arg_cong [OF slice_sort.srt_mset [OF assms, of importance_less ?all], of "image_mset im_QualifiedName"]
    by (simp add: R comp_def map_nth del: mset_map flip: mset_map)
  show "sorted_wrt (\<lambda>a b. im_Importance b \<le> im_Importance a) ?R"
    using slice_sort.srt_sorted [OF assms importance_strict, of ?all] by (simp add: R importance_less_def not_less)
  show "distinct (map im_QualifiedName ?R)"
    using ix(1) mset_eq_imp_distinct_iff [OF m] by (simp add: indexed_def)
  show "im_QualifiedName ` set ?R = sy_QualifiedName ` set syms"
    using mset_eq_setD [OF m] ix(2) by simp
  show "0 \<le> im_Importance x" if x: "x \<in> set ?R"
  proof -
    obtain i where "i < ?n" "x = importance_of (symbol_map syms) (nodes ! i) (?rank ! i)"
      using x unfolding set_R by auto
    then show ?thesis using pagerank_minimum(2) [OF out, of adj] by (cases "nodes = []") auto
  qed
  show "im_Importance x \<le> im_Importance y"
    if x: "x \<in> set ?R" and y: "y \<in> set ?R" and u: "unreferenced syms edges (im_QualifiedName x)"
  proof -
    obtain i j where ij: "i < ?n" "x = importance_of (symbol_map syms) (nodes ! i) (?rank ! i)"
      "j < ?n" "y = importance_of (symbol_map syms) (nodes ! j) (?rank ! j)"
      using x y unfolding set_R by auto
    have "\<not> arcs_into adj i" using u ij(1,2) into ix(2) by (auto simp: unreferenced_def)
    then show ?thesis using pagerank_minimum(3) [OF out] ij by (cases "nodes = []") auto
  qed
qed

section \<open>Properties\<close>

text \<open>
  C8: the importance query lists, in descending order, the most important of the symbols that are neither generated nor
  tests and belong to the asked member: as many as asked for, no symbol twice, none left out that outranks a listed one;
  and a candidate no other candidate refers to is never more important than another candidate, rounding included.
\<close>

theorem SymbolImportance_ranks:
  assumes "slice_sort srt" and "SymbolImportance I srt topN scope opts = Inr es"
    and "AllSymbols (ix_db I) False = Inr syms"
    and "SymbolEdges I [edgeTypeCalls, edgeTypeReferences, edgeTypeSatisfies] = Inr edges"
  defines "candidates \<equiv> filter (\<lambda>sy. o_Repo opts = [] \<or> sy_Repo sy = o_Repo opts) (filterOutGenerated syms)"
    and "relevant \<equiv> filter (\<lambda>e. o_Repo opts = [] \<or> eg_Repo e = o_Repo opts) edges"
  shows "\<exists>all. es = take (top_limit topN) all
     \<and> sorted_wrt (\<lambda>a b. im_Importance b \<le> im_Importance a) all
     \<and> distinct (map im_QualifiedName all) \<and> im_QualifiedName ` set all = sy_QualifiedName ` set candidates
     \<and> (\<forall>x\<in>set all. 0 \<le> im_Importance x
         \<and> (unreferenced candidates relevant (im_QualifiedName x) \<longrightarrow> (\<forall>y\<in>set all. im_Importance x \<le> im_Importance y)))"
proof -
  have "es = take (top_limit topN) (rank_symbols srt candidates relevant)"
    using assms(2-4) by (simp add: SymbolImportance_def candidates_def relevant_def)
  then show ?thesis
    using rank_symbols_spec [OF assms(1), where syms = candidates and edges = relevant] by blast
qed

text \<open>\<^verbatim>\<open>math.Log\<close> grows and is not negative from 1 on: then so does the risk, in complexity and in churn, rounding included.\<close>

lemma risk_mono:
  assumes "mono lg" and "\<And>x. 1 \<le> x \<Longrightarrow> 0 \<le> lg x" and "0 \<le> c" "c \<le> c'" "0 \<le> n" "n \<le> n'"
  shows "f_mul (f_of_int c) (lg (f_add (f_of_int n) 1)) \<le> f_mul (f_of_int c') (lg (f_add (f_of_int n') 1))"
proof -
  have nn: "f_of_int n \<le> f_of_int n'" "f_of_int c \<le> f_of_int c'" "0 \<le> f_of_int n" "0 \<le> f_of_int c"
    using assms f_of_nat_nonneg [of "nat n"] f_of_nat_nonneg [of "nat c"] by (simp_all add: f_of_int_def rnd_mono)
  have "f_add 0 1 \<le> f_add (f_of_int n) 1" by (rule f_add_mono) (simp_all add: nn)
  moreover have "f_add 0 1 = 1" using f_of_int_exact [of 1] by (simp add: f_add_def f_of_int_def)
  ultimately have one: "1 \<le> f_add (f_of_int n) 1" by simp
  have "lg (f_add (f_of_int n) 1) \<le> lg (f_add (f_of_int n') 1)"
    using assms(1) nn(1) by (auto intro!: monoD [of lg] f_add_mono)
  then have "f_of_int c * lg (f_add (f_of_int n) 1) \<le> f_of_int c' * lg (f_add (f_of_int n') 1)"
    using nn one assms(2) by (intro mult_mono) auto
  then show ?thesis unfolding f_mul_def by (rule rnd_mono)
qed

text \<open>
  C9: the hot spots with the candidates left out are together the candidates, one entry for each symbol that is not generated and reaches both thresholds,
  with its place, complexity and churn and the risk \<^verbatim>\<open>complexity * log(churn + 1)\<close>; as many are listed as asked for, in
  descending order of risk, and none left out has a higher risk than a listed one. A symbol left out that has at least the
  complexity and the churn of a listed one therefore has the same risk, whatever is rounded, as long as the logarithm grows and is not negative from 1 on.
\<close>

theorem Hotspots_top:
  assumes "slice_sort srt" and "Hotspots I lg srt topN minComplexity minChurn = Inr hs"
    and "AllSymbols (ix_db I) False = Inr syms" and "ChurnDegraded (ix_sql I) (ix_tables I) = Inr note"
  shows "\<exists>rest. mset (hs @ rest) = mset (map (\<lambda>sy. \<lparr>ho_QualifiedName = sy_QualifiedName sy, ho_Kind = sy_Kind sy,
        ho_PosFile = sy_PosFile sy, ho_ChurnError = note, ho_PosLine = sy_PosLine sy, ho_Complexity = sy_Complexity sy,
        ho_ChurnCount = sy_ChurnCount sy,
        ho_RiskScore = f_mul (f_of_int (sy_Complexity sy)) (lg (f_add (f_of_int (sy_ChurnCount sy)) 1))\<rparr>)
      (filter (\<lambda>sy. \<not> sy_IsGenerated sy \<and> minComplexity \<le> sy_Complexity sy \<and> minChurn \<le> sy_ChurnCount sy) syms))
    \<and> (rest \<noteq> [] \<longrightarrow> length hs = (if topN \<le> 0 then 10 else nat topN)) \<and> length hs \<le> (if topN \<le> 0 then 10 else nat topN)
    \<and> sorted_wrt (\<lambda>a b. ho_RiskScore b \<le> ho_RiskScore a) hs
    \<and> (\<forall>x\<in>set hs. \<forall>y\<in>set rest. ho_RiskScore y \<le> ho_RiskScore x
        \<and> (mono lg \<and> (\<forall>x\<ge>1. 0 \<le> lg x) \<and> 0 \<le> ho_Complexity x \<and> 0 \<le> ho_ChurnCount x
           \<and> ho_Complexity x \<le> ho_Complexity y \<and> ho_ChurnCount x \<le> ho_ChurnCount y \<longrightarrow> ho_RiskScore y = ho_RiskScore x))"
proof -
  let ?cand = "map (to_hotspot lg note) (filter (\<lambda>sy. \<not> sy_IsGenerated sy \<and> minComplexity \<le> sy_Complexity sy
      \<and> minChurn \<le> sy_ChurnCount sy) syms)"
  let ?all = "srt risk_less ?cand" and ?n = "top_limit topN"
  have "filter (\<lambda>sy. \<not> (sy_Complexity sy < minComplexity \<or> sy_ChurnCount sy < minChurn)) (filterOutGenerated syms)
      = filter (\<lambda>sy. \<not> sy_IsGenerated sy \<and> minComplexity \<le> sy_Complexity sy \<and> minChurn \<le> sy_ChurnCount sy) syms"
    by (simp add: filterOutGenerated_def not_less)
  then have hs: "hs = take ?n ?all" using assms(2-4) by (simp add: Hotspots_def)
  define rest where "rest = drop ?n ?all"
  have all: "hs @ rest = ?all" by (simp add: hs rest_def)
  have m: "mset (hs @ rest) = mset ?cand" unfolding all by (rule slice_sort.srt_mset [OF assms(1)])
  have sorted: "sorted_wrt (\<lambda>a b. ho_RiskScore b \<le> ho_RiskScore a) (hs @ rest)"
    using slice_sort.srt_sorted [OF assms(1) risk_strict, of ?cand] unfolding all by (simp add: risk_less_def not_less)
  have risk: "ho_RiskScore h = f_mul (f_of_int (ho_Complexity h)) (lg (f_add (f_of_int (ho_ChurnCount h)) 1))"
    if "h \<in> set (hs @ rest)" for h
  proof -
    have "h \<in> set ?cand" using that unfolding mset_eq_setD [OF m] .
    then show ?thesis by (auto simp: to_hotspot_def)
  qed
  have low: "ho_RiskScore y \<le> ho_RiskScore x
      \<and> (mono lg \<and> (\<forall>x\<ge>1. 0 \<le> lg x) \<and> 0 \<le> ho_Complexity x \<and> 0 \<le> ho_ChurnCount x
         \<and> ho_Complexity x \<le> ho_Complexity y \<and> ho_ChurnCount x \<le> ho_ChurnCount y \<longrightarrow> ho_RiskScore y = ho_RiskScore x)"
    if x: "x \<in> set hs" and y: "y \<in> set rest" for x y
  proof (intro conjI impI)
    show le: "ho_RiskScore y \<le> ho_RiskScore x" using sorted x y unfolding sorted_wrt_append by blast
    assume "mono lg \<and> (\<forall>x\<ge>1. 0 \<le> lg x) \<and> 0 \<le> ho_Complexity x \<and> 0 \<le> ho_ChurnCount x
         \<and> ho_Complexity x \<le> ho_Complexity y \<and> ho_ChurnCount x \<le> ho_ChurnCount y"
    then have "ho_RiskScore x \<le> ho_RiskScore y" using risk [of x] risk [of y] x y by (simp add: risk_mono)
    with le show "ho_RiskScore y = ho_RiskScore x" by simp
  qed
  have len: "length hs \<le> ?n" "rest \<noteq> [] \<longrightarrow> length hs = ?n" by (auto simp: hs rest_def)
  have desc: "sorted_wrt (\<lambda>a b. ho_RiskScore b \<le> ho_RiskScore a) hs" using sorted unfolding sorted_wrt_append by blast
  have "mset (hs @ rest) = mset (map (\<lambda>sy. \<lparr>ho_QualifiedName = sy_QualifiedName sy, ho_Kind = sy_Kind sy,
        ho_PosFile = sy_PosFile sy, ho_ChurnError = note, ho_PosLine = sy_PosLine sy, ho_Complexity = sy_Complexity sy,
        ho_ChurnCount = sy_ChurnCount sy,
        ho_RiskScore = f_mul (f_of_int (sy_Complexity sy)) (lg (f_add (f_of_int (sy_ChurnCount sy)) 1))\<rparr>)
      (filter (\<lambda>sy. \<not> sy_IsGenerated sy \<and> minComplexity \<le> sy_Complexity sy \<and> minChurn \<le> sy_ChurnCount sy) syms))"
    unfolding m by (simp add: to_hotspot_def [abs_def])
  then show ?thesis unfolding top_limit_def [symmetric] using low len desc by blast
qed

section \<open>Witnesses\<close>

text \<open>The index of one function that calls another.\<close>

definition rank_index :: index where
  "rank_index = \<lparr>ix_sql = plain_env, ix_hash = disk_env, ix_uni = ascii_tables, ix_codec = unary_codec,
     ix_engine = list_db [] [] [], ix_tables = call_tables\<rparr>"

lemma rank_index_reads:
  "map_sum id (map (\<lambda>sy. (sy_QualifiedName sy, sy_IsGenerated sy))) (AllSymbols (ix_db rank_index) False)
   = Inr [(''m/a.F'', False), (''m/a.G'', False)]"
  "map_sum id (map (\<lambda>e. (eg_FromRef e, eg_ToRef e)))
     (SymbolEdges rank_index [edgeTypeCalls, edgeTypeReferences, edgeTypeSatisfies]) = Inr [(''m/a.F'', ''m/a.G'')]"
  "ChurnDegraded (ix_sql rank_index) (ix_tables rank_index) = Inr []"
  by code_simp+

lemma hot_kinds: "map_sum id (map ho_Kind) (Hotspots rank_index (\<lambda>x. x) sort_by 1 0 0) = Inr [''func'']"
  by code_simp

lemma mapped_sum: "map_sum id f r = Inr y \<Longrightarrow> \<exists>x. r = Inr x \<and> f x = y"
  by (cases r) auto

theorem SymbolImportance_ranks_witness:
  "\<exists>es. SymbolImportance rank_index sort_by 0 0 no_options = Inr es
     \<and> im_QualifiedName ` set es \<subseteq> {''m/a.F'', ''m/a.G''}
     \<and> (\<forall>x\<in>set es. \<forall>y\<in>set es. im_QualifiedName x = ''m/a.F'' \<longrightarrow> im_Importance x \<le> im_Importance y)"
proof -
  from mapped_sum [OF rank_index_reads(1)] obtain syms where "AllSymbols (ix_db rank_index) False = Inr syms
    \<and> map (\<lambda>sy. (sy_QualifiedName sy, sy_IsGenerated sy)) syms = [(''m/a.F'', False), (''m/a.G'', False)]" ..
  note syms = conjunct1 [OF this] conjunct2 [OF this]
  from mapped_sum [OF rank_index_reads(2)] obtain edges where
    "SymbolEdges rank_index [edgeTypeCalls, edgeTypeReferences, edgeTypeSatisfies] = Inr edges
     \<and> map (\<lambda>e. (eg_FromRef e, eg_ToRef e)) edges = [(''m/a.F'', ''m/a.G'')]" ..
  note edges = conjunct1 [OF this] conjunct2 [OF this]
  have cand: "sy_QualifiedName ` set (filter (\<lambda>sy. o_Repo no_options = [] \<or> sy_Repo sy = o_Repo no_options) (filterOutGenerated syms))
      = {''m/a.F'', ''m/a.G''}"
    using syms(2) by (force simp: no_options_def filterOutGenerated_def map_eq_Cons_conv)
  have caller: "unreferenced (filter (\<lambda>sy. o_Repo no_options = [] \<or> sy_Repo sy = o_Repo no_options) (filterOutGenerated syms))
      (filter (\<lambda>e. o_Repo no_options = [] \<or> eg_Repo e = o_Repo no_options) edges) ''m/a.F''"
    using edges(2) by (auto simp: unreferenced_def map_eq_Cons_conv)
  obtain es where es: "SymbolImportance rank_index sort_by 0 0 no_options = Inr es"
    using syms(1) edges(1) by (simp add: SymbolImportance_def)
  from SymbolImportance_ranks [OF insertion.slice_sort_axioms es syms(1) edges(1)] obtain all where
    all: "es = take (top_limit 0) all" "im_QualifiedName ` set all = {''m/a.F'', ''m/a.G''}"
      "\<And>x y. x \<in> set all \<Longrightarrow> im_QualifiedName x = ''m/a.F'' \<Longrightarrow> y \<in> set all \<Longrightarrow> im_Importance x \<le> im_Importance y"
    unfolding cand using caller by metis
  then show ?thesis using es by (auto dest!: in_set_takeD)
qed

theorem Hotspots_top_witness:
  "\<exists>hs syms rest. Hotspots rank_index (\<lambda>x. x) sort_by 1 0 0 = Inr hs \<and> AllSymbols (ix_db rank_index) False = Inr syms
     \<and> length hs = 1 \<and> length rest = 1
     \<and> mset (map ho_QualifiedName (hs @ rest)) = {#''m/a.F'', ''m/a.G''#}
     \<and> ho_RiskScore (rest ! 0) \<le> ho_RiskScore (hs ! 0)"
proof -
  have keys: "map_sum id (map (\<lambda>sy. (sy_QualifiedName sy, sy_IsGenerated sy, 0 \<le> sy_Complexity sy, 0 \<le> sy_ChurnCount sy)))
      (AllSymbols (ix_db rank_index) False) = Inr [(''m/a.F'', False, True, True), (''m/a.G'', False, True, True)]"
    by code_simp
  from mapped_sum [OF keys] obtain syms where "AllSymbols (ix_db rank_index) False = Inr syms
    \<and> map (\<lambda>sy. (sy_QualifiedName sy, sy_IsGenerated sy, 0 \<le> sy_Complexity sy, 0 \<le> sy_ChurnCount sy)) syms
     = [(''m/a.F'', False, True, True), (''m/a.G'', False, True, True)]" ..
  note syms = conjunct1 [OF this] conjunct2 [OF this]
  from mapped_sum [OF hot_kinds] obtain hs where "Hotspots rank_index (\<lambda>x. x) sort_by 1 0 0 = Inr hs \<and> map ho_Kind hs = [''func'']" ..
  note hs = conjunct1 [OF this] conjunct2 [OF this]
  have one: "length hs = 1" using arg_cong [OF hs(2), of length] by simp
  obtain a b where ab: "syms = [a, b]" "sy_QualifiedName a = ''m/a.F''" "sy_QualifiedName b = ''m/a.G''"
    "\<not> sy_IsGenerated a" "\<not> sy_IsGenerated b" "0 \<le> sy_Complexity a" "0 \<le> sy_Complexity b" "0 \<le> sy_ChurnCount a" "0 \<le> sy_ChurnCount b"
    using syms(2) by (cases syms; cases "tl syms"; cases "tl (tl syms)") simp_all
  obtain rest where m: "mset (hs @ rest) = mset (map (\<lambda>sy. \<lparr>ho_QualifiedName = sy_QualifiedName sy, ho_Kind = sy_Kind sy,
        ho_PosFile = sy_PosFile sy, ho_ChurnError = [], ho_PosLine = sy_PosLine sy, ho_Complexity = sy_Complexity sy,
        ho_ChurnCount = sy_ChurnCount sy,
        ho_RiskScore = f_mul (f_of_int (sy_Complexity sy)) (f_add (f_of_int (sy_ChurnCount sy)) 1)\<rparr>) [a, b])"
    and le: "\<forall>x\<in>set hs. \<forall>y\<in>set rest. ho_RiskScore y \<le> ho_RiskScore x"
    using Hotspots_top [OF insertion.slice_sort_axioms hs(1) syms(1) rank_index_reads(3)] ab by auto
  have "size (mset (hs @ rest)) = 2" unfolding m by simp
  with one have "length rest = 1" by simp
  moreover have "mset (map ho_QualifiedName (hs @ rest)) = {#''m/a.F'', ''m/a.G''#}"
    using arg_cong [OF m, of "image_mset ho_QualifiedName"] ab by simp
  ultimately show ?thesis using hs(1) syms(1) one le by (intro exI [of _ hs] exI [of _ syms] exI [of _ rest]) simp
qed

end
