(* ===== verification/Spec2Isabelle.thy ===== *)
theory Spec2Isabelle
  imports Fuse_Rank Fuse_Window Fuse_Edit Chunk_Proofs Contract_Shape Contract_Pairs GoScan_Proofs Runtime_Proofs
    Runner_Proofs Search_Proofs Usage_Proofs Graph_Proofs Layers_Proofs Cycles Impact_Proofs Dead_Proofs Overflow_Proofs
    Vcs_Proofs Workspace_Proofs Rename_Proofs Server_Proofs Served_Proofs Changed_Proofs Bundle_Proofs Rank_Proofs
begin

text \<open>
  A verification development for codemap, an indexer and query server for Go repositories.

  \<^bold>\<open>The program.\<close> codemap loads the packages of one module or of a workspace of modules (\<^verbatim>\<open>src/parse\<close>,
  \<^verbatim>\<open>src/workspace\<close>), extracts symbols and references from their syntax trees (\<^verbatim>\<open>src/extract\<close>, \<^verbatim>\<open>src/resolve\<close>), and writes
  them to a SQLite database (\<^verbatim>\<open>src/store\<close>). Queries read that database (\<^verbatim>\<open>src/query\<close>, with \<^verbatim>\<open>src/fuse\<close> for text
  search), contract analysis compares constants and struct shapes between modules (\<^verbatim>\<open>src/contract\<close>), \<^verbatim>\<open>src/vcs\<close> reads
  git, and a JSON-RPC server (\<^verbatim>\<open>src/mcp\<close>) dispatches tool calls to the queries, keeps the index fresh, splits oversized
  answers (\<^verbatim>\<open>src/chunk\<close>) and edits source files on request. A command line (\<^verbatim>\<open>src/cmd/codemap\<close>) and a
  renderer (\<^verbatim>\<open>src/render\<close>) surround them.

  \<^bold>\<open>How the code is modelled.\<close> A function is a HOL function of its arguments and of what it reads; a function that
  changes something returns the changed state. A Go error is the left side of a sum (\<open>'a result\<close> is an error message or
  a value), a panic or a loop that need not end is \<open>None\<close> of an option around it. A string is the list of its bytes. A Go map is an association list with distinct keys whose order stands
  for the iteration order of one \<^verbatim>\<open>range\<close>, so a theorem over every list covers every order. \<^verbatim>\<open>float64\<close> is a rational with
  IEEE rounding after every operation (\<open>Float64\<close>; finite values only), \<^verbatim>\<open>int\<close> is \<open>int\<close> where the code cannot come near its
  bounds and \<open>64 word\<close> where it counts or hashes without limit. For the queries SQLite is the record \<open>store_db\<close> (theory
  \<open>Edges\<close>): one field per kind of statement, taking the \<^verbatim>\<open>WHERE\<close> clause as a predicate on rows, each of which can fail; the
  locales \<open>sqlite_edges\<close>, \<open>sqlite_symbols\<close> and \<open>live_store\<close> say what the engine promises, and the list-backed \<open>list_db\<close>
  interprets them. For the writes the database is the record \<open>tables\<close> (theory \<open>Tables\<close>): a list of rows per table. A
  statement is the change of rows its text names, and the engine may refuse any statement, a transaction or its commit
  (\<open>sql_env\<close>). A transaction is a function that fails or gives the new tables; \<open>withTx\<close> keeps the old ones on failure. The other parameters are the Unicode tables (\<open>unidata\<close>), the regular expressions, \<^verbatim>\<open>git\<close>, the file system,
  the YAML decoder and \<^verbatim>\<open>go/parser\<close>, each a record of functions.

  \<^bold>\<open>Theories.\<close>
  \<^item> \<open>Prelude\<close>, \<open>GoStrings\<close>, \<open>GoFmt\<close>, \<open>Float64\<close>: Go's maps, sorting, strings, UTF-8, quoting, paths, number formats and floats,
    with the lemmas every component uses.
  \<^item> \<open>Fuse\<close> (\<^verbatim>\<open>src/fuse\<close>): reciprocal rank fusion, the proximity rerank and the typo correction. \<open>Fuse_Rank\<close>: scores, order and
    determinism; \<open>Fuse_Window\<close>: the window that contains every term is the smallest one; \<open>Fuse_Edit\<close>: the two-row edit distance
    is the least number of edits.
  \<^item> \<open>Chunk\<close> (\<^verbatim>\<open>src/chunk\<close>): splitting text into sections. \<open>Chunk_Proofs\<close>: nothing is lost, sections respect the limit, the loops end.
  \<^item> \<open>Contract\<close> (\<^verbatim>\<open>src/contract/contract.go\<close>, \<^verbatim>\<open>analyze.go\<close>, \<^verbatim>\<open>drift.go\<close>): shared constants, struct shapes and drift;
    \<open>Contract_Pairs\<close> and \<open>Contract_Shape\<close> give the quadratic specifications of the indexed pair loops.
  \<^item> \<open>GoScan\<close>, \<open>Runtime\<close> (\<^verbatim>\<open>src/contract/runtime.go\<close>): the hand-written scanners of Go source and the runtime-contract extractors;
    \<open>GoScan_Proofs\<close>: where the scanners stop and the one input on which they panic; \<open>Runtime_Proofs\<close>: merging, enclosing symbols.
  \<^item> \<open>Runner\<close> (\<^verbatim>\<open>src/contract/runner.go\<close>): an analysis run and when it is repeated; \<open>Runner_Proofs\<close>: what it writes.
  \<^item> \<open>Edges\<close>, \<open>Symbols\<close>, \<open>Search\<close> (\<^verbatim>\<open>src/store\<close>, \<^verbatim>\<open>src/query/search_text.go\<close>): the edge and symbol queries of the store, name
    normalisation, file text search with FTS expressions. \<open>Search_Proofs\<close>: sound matches, FTS quoting that reads back.
  \<^item> \<open>Usage\<close>, \<open>Graph\<close>, \<open>Layers\<close>, \<open>Cycles\<close>, \<open>Impact\<close>, \<open>Dead\<close> (\<^verbatim>\<open>src/query/query.go\<close>, \<^verbatim>\<open>affected.go\<close>): the graph queries. The
    \<open>_Proofs\<close> theories: shortest paths, breadth-first levels, layers as longest paths and when layering does not return, cycles
    that are simple and complete up to the cap, exactness of the unused symbols.
  \<^item> \<open>Overflow\<close> (\<^verbatim>\<open>src/mcp/overflow.go\<close>, \<^verbatim>\<open>stats.go\<close>, \<^verbatim>\<open>src/store/store_response_chunks.go\<close>): the response gate, the table of stored
    sections with its eviction, the counters. \<open>Overflow_Proofs\<close>: what was gated reads back byte for byte (locale \<open>section_cache\<close>).
  \<^item> \<open>Vcs\<close> (\<^verbatim>\<open>src/vcs\<close>): the parsers of git's output; \<open>Vcs_Proofs\<close>: they invert git's printing.
  \<^item> \<open>Workspace\<close> (\<^verbatim>\<open>src/workspace\<close>): \<^verbatim>\<open>codemap.yaml\<close>, members, discovery, and the order of store writes of an index run;
    \<open>Workspace_Proofs\<close>: resolved members, suppressions, progress of the refresh loop.
  \<^item> \<open>Spans\<close>, \<open>Write\<close> (\<^verbatim>\<open>src/query/enclosing.go\<close>, \<^verbatim>\<open>declaration.go\<close>, \<^verbatim>\<open>write.go\<close>, the source mode of \<^verbatim>\<open>query.go\<close>): spans of declarations,
    lookups by position, symbol edits with the atomic file replacement. \<open>Write_Proofs\<close>: line table, context lines, what an edit
    changes and what a failure leaves.
  \<^item> \<open>Rename\<close> (\<^verbatim>\<open>src/query/rename.go\<close>): planning a rename over the sites of the index and applying the plan. \<open>Rename_Proofs\<close>: the
    splices are exact, every site is in the plan, what a failing application leaves.
  \<^item> \<open>Tools\<close> (\<^verbatim>\<open>src/mcp/server.go\<close>): the tables of validated tool arguments and their readers.
  \<^item> \<open>Freshness\<close>, \<open>Server\<close> (\<^verbatim>\<open>src/mcp/server.go\<close>, \<^verbatim>\<open>write_handlers.go\<close>, \<^verbatim>\<open>stats.go\<close>, \<^verbatim>\<open>structured.go\<close>): the state of the server as a
    record with a world of databases, files and clock; a procedure returns, panics or hangs and changes that state.
    \<open>Freshness\<close> opens, refreshes and indexes under the mutex and the back-off, and decides which directories a client may name;
    \<open>Server\<close> holds the write tools, one tool call with its gates and counters, and the JSON-RPC loop. \<open>Server_Frame\<close>: a relation
    between states that every operation keeps, as a hierarchy of locales, and what never uses the operation that writes source files;
    \<open>Server_Proofs\<close>: sessions without write mode, confinement of edits, one reply and one count per call, the back-off, and a
    session after a panic under the mutex. What the index and query operations of the environment do to files is not modelled there:
    the properties speak of the edits the server makes itself.

  \<^item> \<open>Tables\<close>, \<open>Index_Write\<close> (\<^verbatim>\<open>src/store/store.go\<close>): the schema, transactions, and the writes of an index, of one member, of
    files and of a contract analysis. \<open>Index_Frames\<close>: what a write leaves alone, as a hierarchy of locales over a preorder
    of tables that every statement respects, interpreted for keys, views and owners; \<open>Index_Files\<close>: the file rows after a
    write; \<open>Index_Proofs\<close>: keys and full-text indexes of every reachable database; \<open>Index_Rows\<close>: other members' rows,
    declarations and edge sites. A write of files alone (\<^verbatim>\<open>WriteFiles\<close>) rebuilds no index: it is not a step of
    \<open>store_step\<close>, but one of \<open>store_calls\<close>, after which the index of the contents is not claimed; nothing but tests calls it. The staging table of churn counts is a value inside its transaction, and
    \<^verbatim>\<open>importance\<close> is left out since no statement sets it.
  \<^item> \<open>Source_Hash\<close> (\<^verbatim>\<open>src/store/fingerprint.go\<close>), \<open>Store_Meta\<close> (\<^verbatim>\<open>src/store/store.go\<close>): the hashed byte stream of a source
    tree; metadata, members, staleness, contract rows and small queries. \<open>Store_Fresh\<close>: what equal fingerprints mean and what
    an index run leaves; \<open>Store_Run\<close>: writes that succeed, example databases; \<open>Store_Proofs\<close>, \<open>Store_Sync\<close>: the properties,
    among them that a workspace index leaves its members fresh (with \<open>Workspace\<close>) and that an index of more than 500 files
    loses every file row.
  \<^item> \<open>Served\<close> (\<^verbatim>\<open>src/store/store.go\<close>): the statements of the query side with their joins, as a \<open>store_db\<close> over the written
    tables. \<open>Served_Proofs\<close>: what a write puts there is what lookups, traversals and path queries answer from.
  \<^item> \<open>Changed\<close> (\<^verbatim>\<open>src/query/query.go\<close>, \<open>ChangedSymbols\<close>): the declarations that changed since a ref, compared by the shape of
    their text, with renames. \<open>Changed_Proofs\<close>: what a changed file reports, how renames are paired, what the counters count,
    and changes the query gets wrong.
  \<^item> \<open>Bundle\<close> (\<^verbatim>\<open>src/query/query.go\<close>, \<open>ContextBundle\<close>): the context of a symbol with its size estimate and trimming to a budget;
    \<open>Bundle_Proofs\<close>: the trimming drops the fewest entries that fit the budget.
  \<^item> \<open>Report\<close> (\<^verbatim>\<open>src/query/summary.go\<close>, \<open>Overview\<close>), \<open>Rank\<close> (\<open>Hotspots\<close>, \<open>SymbolImportance\<close>): orientation queries over the written
    tables, and rankings with the PageRank iteration in IEEE arithmetic. \<open>Rank_Proofs\<close>: both lists are the top of a sorted
    ranking (locale \<open>slice_sort\<close> for sorts that may reorder ties), and the unreferenced symbols come last.

  \<^bold>\<open>Bounds and fuel.\<close> Loops over finite structures are structural or have a measure proved decreasing. A loop that need not end
  is a \<^verbatim>\<open>partial_function\<close> into \<open>option\<close> (the layering loop, the climb to \<^verbatim>\<open>codemap.yaml\<close>), and that it returns is a theorem
  where it does. The one fuel argument bounds the rounds of the walk over embedded interfaces; running out of it is \<open>None\<close>, and
  \<open>InterfaceImplementations_exact\<close> (theory \<open>Usage_Proofs\<close>) shows that one round more than there are embedded names is enough.

  \<^bold>\<open>Not modelled.\<close> Package loading and the tree walk (\<^verbatim>\<open>src/parse\<close>, \<^verbatim>\<open>src/extract\<close>, \<^verbatim>\<open>src/resolve\<close>) are built on \<^verbatim>\<open>go/types\<close>,
  \<^verbatim>\<open>go/ast\<close> and the go command; schema creation, migrations and connection handling of \<^verbatim>\<open>src/store\<close> are SQL text run
  by the engine; \<^verbatim>\<open>src/render\<close> formats results for humans through a third-party encoder; \<^verbatim>\<open>src/cmd\<close> is flag parsing and printing;
  \<^verbatim>\<open>src/pattern\<close> matches syntax trees by reflection. Of the server, the query handlers (a call of a modelled query and of the
  renderer each) are a parameter, and the tool catalogue is data for clients.
\<close>

end
